(* ===== verification/Prelude.thy ===== *)
theory Prelude
  imports Main "HOL-Library.Word" "HOL-Library.Finite_Map"
begin

text \<open>
  Shared vocabulary of the development: results with Go errors as values, and the
  finite maps that stand for Go maps (\<open>len\<close>, counting, iteration with a pointer
  update of every entry, update of one entry through a pointer).
\<close>

named_theorems go_text  \<comment> \<open>evaluation of the string and rune primitives\<close>
named_theorems go_map   \<comment> \<open>lookups and lengths of updated maps\<close>
named_theorems pres     \<comment> \<open>preservation of the ledger invariant, one fact per operation\<close>

section \<open>Results\<close>

text \<open>
  A Go function returning \<open>(T, error)\<close> is a function into \<open>'e + 'a\<close>: \<open>Inl\<close> is the
  non-nil error. \<open>bindR\<close> is the \<open>if err != nil { return err }\<close> of the sources.
\<close>

definition bindR :: "'e + 'a \<Rightarrow> ('a \<Rightarrow> 'e + 'b) \<Rightarrow> 'e + 'b" where
  "bindR r f = (case r of Inl e \<Rightarrow> Inl e | Inr x \<Rightarrow> f x)"

lemma bindR_simps [simp]:
  "bindR (Inl e) f = Inl e"
  "bindR (Inr x) f = f x"
  by (simp_all add: bindR_def)

lemma bindR_Inr: "bindR r f = Inr y \<longleftrightarrow> (\<exists>x. r = Inr x \<and> f x = Inr y)"
  by (cases r) simp_all

lemma bindR_Inl: "bindR r f = Inl e \<longleftrightarrow> r = Inl e \<or> (\<exists>x. r = Inr x \<and> f x = Inl e)"
  by (cases r) simp_all

lemma bindR_assoc: "bindR (bindR r f) g = bindR r (\<lambda>x. bindR (f x) g)"
  by (cases r) simp_all

definition is_ok :: "'e + 'a \<Rightarrow> bool" where
  "is_ok r = (case r of Inl _ \<Rightarrow> False | Inr _ \<Rightarrow> True)"

lemma is_ok_simps [simp]: "is_ok (Inl e) = False" "is_ok (Inr x) = True"
  by (simp_all add: is_ok_def)

lemma is_ok_iff: "is_ok r \<longleftrightarrow> (\<exists>x. r = Inr x)"
  by (cases r) simp_all

section \<open>Go maps\<close>

text \<open>\<open>len(m)\<close>.\<close>

definition fmcard :: "('k, 'v) fmap \<Rightarrow> nat" where
  "fmcard m = fcard (fmdom m)"

lemma fmcard_empty [simp]: "fmcard fmempty = 0"
  by (simp add: fmcard_def)

lemma fmcard_upd [go_map]:
  "fmcard (fmupd k v m) = (if fmlookup m k = None then Suc (fmcard m) else fmcard m)"
proof (cases "fmlookup m k")
  case None
  then have "k |\<notin>| fmdom m" by (simp add: fmdom_notI)
  with None show ?thesis by (simp add: fmcard_def fcard_finsert_disjoint)
next
  case (Some w)
  then have "k |\<in>| fmdom m" by (simp add: fmdomI)
  then have "finsert k (fmdom m) = fmdom m" by (simp add: finsert_absorb)
  with Some show ?thesis by (simp add: fmcard_def)
qed

lemma fmcard_0_iff: "fmcard m = 0 \<longleftrightarrow> m = fmempty"
proof
  assume "fmcard m = 0"
  then have "fmdom m = {||}" by (simp add: fmcard_def)
  then show "m = fmempty" by (intro fmap_ext) (metis fempty_iff fmdom_notD fmempty_lookup)
qed simp

lemma fmcard_map [simp]: "fmcard (fmmap f m) = fmcard m"
  by (simp add: fmcard_def)

lemma fmcard_map_keys [simp]: "fmcard (fmmap_keys f m) = fmcard m"
  by (simp add: fmcard_def)

text \<open>Counting the entries that satisfy a condition.\<close>

definition fmcount :: "('k \<Rightarrow> 'v \<Rightarrow> bool) \<Rightarrow> ('k, 'v) fmap \<Rightarrow> nat" where
  "fmcount P m = fcard (ffilter (\<lambda>k. case fmlookup m k of None \<Rightarrow> False | Some v \<Rightarrow> P k v) (fmdom m))"

lemma fmcount_empty [simp]: "fmcount P fmempty = 0"
proof -
  have "ffilter Q {||} = {||}" for Q :: "'k \<Rightarrow> bool" by auto
  then show ?thesis by (simp add: fmcount_def)
qed

lemma fmcount_upd_new:
  assumes "fmlookup m k = None"
  shows "fmcount P (fmupd k v m) = (if P k v then Suc (fmcount P m) else fmcount P m)"
proof -
  let ?Q = "\<lambda>m k. case fmlookup m k of None \<Rightarrow> False | Some v \<Rightarrow> P k v"
  from assms have k: "k |\<notin>| fmdom m" by (simp add: fmdom_notI)
  have "ffilter (?Q (fmupd k v m)) (fmdom (fmupd k v m)) =
      (if P k v then finsert k (ffilter (?Q m) (fmdom m)) else ffilter (?Q m) (fmdom m))"
    using k by (auto split: if_splits)
  moreover have "k |\<notin>| ffilter (?Q m) (fmdom m)" using k by simp
  ultimately show ?thesis by (simp add: fmcount_def fcard_finsert_disjoint del: ffmember_filter)
qed

lemma fmcount_upd [go_map]:
  "fmcount P (fmupd k v m) = (if P k v then Suc (fmcount P (fmdrop k m)) else fmcount P (fmdrop k m))"
proof -
  have "fmupd k v m = fmupd k v (fmdrop k m)"
    by (intro fmap_ext) auto
  moreover have "fmcount P (fmupd k v (fmdrop k m)) =
      (if P k v then Suc (fmcount P (fmdrop k m)) else fmcount P (fmdrop k m))"
    by (rule fmcount_upd_new) simp
  ultimately show ?thesis by metis
qed

lemma fmcount_0_iff: "fmcount P m = 0 \<longleftrightarrow> (\<forall>k v. fmlookup m k = Some v \<longrightarrow> \<not> P k v)"
  by (auto simp: fmcount_def fset_eq_iff fmlookup_dom_iff split: option.splits)

lemma fmcount_pos_iff: "0 < fmcount P m \<longleftrightarrow> (\<exists>k v. fmlookup m k = Some v \<and> P k v)"
  using fmcount_0_iff [of P m] by auto

text \<open>Summing a natural number over the entries.\<close>

definition fmsum :: "('k \<Rightarrow> 'v \<Rightarrow> nat) \<Rightarrow> ('k, 'v) fmap \<Rightarrow> nat" where
  "fmsum f m = (\<Sum>k \<in> fset (fmdom m). case fmlookup m k of None \<Rightarrow> 0 | Some v \<Rightarrow> f k v)"

lemma fmsum_empty [simp]: "fmsum f fmempty = 0"
  by (simp add: fmsum_def)

lemma fmsum_upd_new:
  assumes "fmlookup m k = None"
  shows "fmsum f (fmupd k v m) = f k v + fmsum f m"
proof -
  from assms have k: "k \<notin> fset (fmdom m)" by (simp add: fmdom_notI)
  have "fmsum f (fmupd k v m) =
      f k v + (\<Sum>j \<in> fset (fmdom m). case fmlookup (fmupd k v m) j of None \<Rightarrow> 0 | Some v \<Rightarrow> f j v)"
    using k by (simp add: fmsum_def)
  also have "(\<Sum>j \<in> fset (fmdom m). case fmlookup (fmupd k v m) j of None \<Rightarrow> 0 | Some v \<Rightarrow> f j v) = fmsum f m"
    unfolding fmsum_def using k by (intro sum.cong) auto
  finally show ?thesis .
qed

lemma fmsum_upd [go_map]: "fmsum f (fmupd k v m) = f k v + fmsum f (fmdrop k m)"
proof -
  have "fmupd k v m = fmupd k v (fmdrop k m)"
    by (intro fmap_ext) auto
  moreover have "fmsum f (fmupd k v (fmdrop k m)) = f k v + fmsum f (fmdrop k m)"
    by (rule fmsum_upd_new) simp
  ultimately show ?thesis by metis
qed

lemma fmsum_0_iff: "fmsum f m = 0 \<longleftrightarrow> (\<forall>k v. fmlookup m k = Some v \<longrightarrow> f k v = 0)"
  by (auto simp: fmsum_def fmlookup_dom_iff split: option.splits)

lemma fmsum_le: "fmlookup m k = Some v \<Longrightarrow> f k v \<le> fmsum f m"
proof -
  assume k: "fmlookup m k = Some v"
  then have "m = fmupd k v m" by (intro fmap_ext) auto
  then have "fmsum f m = f k v + fmsum f (fmdrop k m)" by (metis fmsum_upd)
  then show ?thesis by simp
qed

lemma fmdrop_fmupd_ne [go_map]: "j \<noteq> k \<Longrightarrow> fmdrop j (fmupd k v m) = fmupd k v (fmdrop j m)"
  by (intro fmap_ext) auto

lemma fmdrop_fmupd_eq [go_map]: "fmdrop k (fmupd k v m) = fmdrop k m"
  by (intro fmap_ext) auto

lemma fmdrop_empty [go_map]: "fmdrop k fmempty = fmempty"
  by (intro fmap_ext) auto

lemma fmpred_upd_iff [go_map]: "fmpred P (fmupd k v m) \<longleftrightarrow> P k v \<and> fmpred P (fmdrop k m)"
  by (auto simp: fmpred_iff split: if_splits)

text \<open>Some entry satisfies a condition (a Go loop that sets a flag).\<close>

definition fmexists :: "('k \<Rightarrow> 'v \<Rightarrow> bool) \<Rightarrow> ('k, 'v) fmap \<Rightarrow> bool" where
  "fmexists P m \<longleftrightarrow> \<not> fmpred (\<lambda>k v. \<not> P k v) m"

lemma fmexists_iff: "fmexists P m \<longleftrightarrow> (\<exists>k v. fmlookup m k = Some v \<and> P k v)"
  by (auto simp: fmexists_def fmpred_iff)

lemma fmexists_empty [simp]: "\<not> fmexists P fmempty"
  by (simp add: fmexists_def)

lemma fmexists_upd [go_map]: "fmexists P (fmupd k v m) \<longleftrightarrow> P k v \<or> fmexists P (fmdrop k m)"
  by (auto simp: fmexists_iff split: if_splits)

text \<open>Update of the entry a pointer refers to; a missing entry is left alone here, and the
  callers that would dereference \<open>nil\<close> test for it first.\<close>

definition fmadjust :: "'k \<Rightarrow> ('v \<Rightarrow> 'v) \<Rightarrow> ('k, 'v) fmap \<Rightarrow> ('k, 'v) fmap" where
  "fmadjust k f m = (case fmlookup m k of None \<Rightarrow> m | Some v \<Rightarrow> fmupd k (f v) m)"

lemma fmlookup_fmadjust [simp]:
  "fmlookup (fmadjust k f m) j = (if j = k then map_option f (fmlookup m k) else fmlookup m j)"
  by (auto simp: fmadjust_def split: option.splits)

lemma fmcard_fmadjust [simp]: "fmcard (fmadjust k f m) = fmcard m"
  by (simp add: fmadjust_def fmcard_upd split: option.splits)

text \<open>Reading a map of strings: the zero value for a key that is not there.\<close>

definition lookupString :: "(string, string) fmap \<Rightarrow> string \<Rightarrow> string" where
  "lookupString m k = (case fmlookup m k of None \<Rightarrow> [] | Some v \<Rightarrow> v)"

end
