(* ===== verification/GoText.thy ===== *)
theory GoText
  imports Prelude
begin

text \<open>
  The part of Go's \<open>strings\<close>, \<open>unicode\<close>, \<open>unicode/utf8\<close>, \<open>strconv\<close> and
  \<open>encoding/json\<close> (string quoting only) that the sources use. A Go string is a
  sequence of bytes: a \<^typ>\<open>string\<close> here, one \<^typ>\<open>char\<close> per byte.
\<close>

section \<open>Bytes and runes\<close>

definition byte :: "char \<Rightarrow> nat" where
  "byte c = of_char c"

lemma byte_less [simp]: "byte c < 256"
  by (simp add: byte_def)

definition runeError :: nat where
  "runeError = 65533"

definition cont :: "nat \<Rightarrow> nat \<Rightarrow> nat \<Rightarrow> bool" where
  "cont lo hi b \<longleftrightarrow> lo \<le> b \<and> b \<le> hi"

definition rune2 :: "nat \<Rightarrow> nat \<Rightarrow> nat" where
  "rune2 b0 b1 = (b0 - 0xC0) * 64 + (b1 - 0x80)"

definition rune3 :: "nat \<Rightarrow> nat \<Rightarrow> nat \<Rightarrow> nat" where
  "rune3 b0 b1 b2 = (b0 - 0xE0) * 4096 + (b1 - 0x80) * 64 + (b2 - 0x80)"

definition rune4 :: "nat \<Rightarrow> nat \<Rightarrow> nat \<Rightarrow> nat \<Rightarrow> nat" where
  "rune4 b0 b1 b2 b3 =
     (b0 - 0xF0) * 262144 + (b1 - 0x80) * 4096 + (b2 - 0x80) * 64 + (b3 - 0x80)"

text \<open>
  \<open>utf8.DecodeRune\<close>: the first rune and its width; an invalid or short sequence is
  \<open>(RuneError, 1)\<close>. The lead byte fixes the width and the range of the second byte.
\<close>

definition decode2 :: "nat \<Rightarrow> nat list \<Rightarrow> nat \<times> nat" where
  "decode2 b0 t = (case t of
     b1 # _ \<Rightarrow> if cont 0x80 0xBF b1 then (rune2 b0 b1, 2) else (runeError, 1)
   | [] \<Rightarrow> (runeError, 1))"

definition decode3 :: "nat \<Rightarrow> nat list \<Rightarrow> nat \<times> nat" where
  "decode3 b0 t = (case t of
     b1 # b2 # _ \<Rightarrow>
       if cont (if b0 = 0xE0 then 0xA0 else 0x80) (if b0 = 0xED then 0x9F else 0xBF) b1
          \<and> cont 0x80 0xBF b2
       then (rune3 b0 b1 b2, 3) else (runeError, 1)
   | _ \<Rightarrow> (runeError, 1))"

definition decode4 :: "nat \<Rightarrow> nat list \<Rightarrow> nat \<times> nat" where
  "decode4 b0 t = (case t of
     b1 # b2 # b3 # _ \<Rightarrow>
       if cont (if b0 = 0xF0 then 0x90 else 0x80) (if b0 = 0xF4 then 0x8F else 0xBF) b1
          \<and> cont 0x80 0xBF b2 \<and> cont 0x80 0xBF b3
       then (rune4 b0 b1 b2 b3, 4) else (runeError, 1)
   | _ \<Rightarrow> (runeError, 1))"

definition decodeRune :: "nat list \<Rightarrow> nat \<times> nat" where
  "decodeRune bs = (case bs of [] \<Rightarrow> (runeError, 0) | b0 # t \<Rightarrow>
     if b0 < 0x80 then (b0, 1)
     else if 0xC2 \<le> b0 \<and> b0 \<le> 0xDF then decode2 b0 t
     else if 0xE0 \<le> b0 \<and> b0 \<le> 0xEF then decode3 b0 t
     else if 0xF0 \<le> b0 \<and> b0 \<le> 0xF4 then decode4 b0 t
     else (runeError, 1))"

lemma decodeRune_ascii [go_text]: "b < 128 \<Longrightarrow> decodeRune (b # bs) = (b, 1)"
  by (simp add: decodeRune_def)

text \<open>The runes of a string, each with the bytes it was decoded from (\<open>for _, ch := range s\<close>).\<close>

fun chunks :: "string \<Rightarrow> (nat \<times> string) list" where
  "chunks [] = []"
| "chunks (c # s) = (case decodeRune (map byte (c # s)) of
     (r, w) \<Rightarrow> (r, take w (c # s)) # chunks (drop (w - 1) s))"

definition runes :: "string \<Rightarrow> nat list" where
  "runes s = map fst (chunks s)"

definition utf8Valid :: "string \<Rightarrow> bool" where
  "utf8Valid s \<longleftrightarrow> list_all (\<lambda>(r, b). \<not> (r = runeError \<and> length b = 1)) (chunks s)"

lemma chunks_ascii [go_text]:
  "byte c < 128 \<Longrightarrow> chunks (c # s) = (byte c, [c]) # chunks s"
  by (simp add: decodeRune_ascii)

declare chunks.simps(2) [simp del]

lemma runes_Nil [simp, go_text]: "runes [] = []"
  by (simp add: runes_def)

lemma runes_ascii [go_text]: "byte c < 128 \<Longrightarrow> runes (c # s) = byte c # runes s"
  by (simp add: runes_def chunks_ascii)

lemma runes_all_ascii: "\<forall>c \<in> set s. byte c < 128 \<Longrightarrow> runes s = map byte s"
  by (induction s) (simp_all add: runes_ascii)

lemma rune2_high: "0xC2 \<le> b0 \<Longrightarrow> 128 \<le> rune2 b0 b1"
  unfolding rune2_def by linarith

lemma rune3_high:
  assumes "0xE0 \<le> b0" "cont (if b0 = 0xE0 then 0xA0 else 0x80) hi b1"
  shows "128 \<le> rune3 b0 b1 b2"
proof (cases "b0 = 0xE0")
  case True
  with assms have "0xA0 \<le> b1" by (simp add: cont_def)
  then show ?thesis unfolding rune3_def by linarith
next
  case False
  with assms have "0xE1 \<le> b0" by linarith
  then show ?thesis unfolding rune3_def by linarith
qed

lemma rune4_high:
  assumes "0xF0 \<le> b0" "cont (if b0 = 0xF0 then 0x90 else 0x80) hi b1"
  shows "128 \<le> rune4 b0 b1 b2 b3"
proof (cases "b0 = 0xF0")
  case True
  with assms have "0x90 \<le> b1" by (simp add: cont_def)
  then show ?thesis unfolding rune4_def by linarith
next
  case False
  with assms have "0xF1 \<le> b0" by linarith
  then show ?thesis unfolding rune4_def by linarith
qed

lemma decode2_high: "0xC2 \<le> b0 \<Longrightarrow> 128 \<le> fst (decode2 b0 t)"
  using rune2_high by (simp add: decode2_def runeError_def split: list.split)

lemma decode3_high: "0xE0 \<le> b0 \<Longrightarrow> 128 \<le> fst (decode3 b0 t)"
  using rune3_high [of b0] unfolding decode3_def runeError_def
  by (auto split: list.split simp del: if_split)

lemma decode4_high: "0xF0 \<le> b0 \<Longrightarrow> 128 \<le> fst (decode4 b0 t)"
  using rune4_high [of b0] unfolding decode4_def runeError_def
  by (auto split: list.split simp del: if_split)

lemma decodeRune_high: "128 \<le> b0 \<Longrightarrow> 128 \<le> fst (decodeRune (b0 # bs))"
  using decode2_high decode3_high decode4_high
  by (simp add: decodeRune_def) (simp add: runeError_def)

lemma decode2_width: "decode2 b0 t = (r, w) \<Longrightarrow> 1 \<le> w \<and> w \<le> Suc (length t)"
  by (auto simp: decode2_def split: list.splits if_splits)

lemma decode3_width: "decode3 b0 t = (r, w) \<Longrightarrow> 1 \<le> w \<and> w \<le> Suc (length t)"
  unfolding decode3_def by (cases "t"; cases "tl t") (auto split: list.splits if_splits)

lemma decode4_width: "decode4 b0 t = (r, w) \<Longrightarrow> 1 \<le> w \<and> w \<le> Suc (length t)"
  unfolding decode4_def
  by (cases "t"; cases "tl t"; cases "tl (tl t)") (auto split: list.splits if_splits)

lemma decodeRune_width:
  assumes "decodeRune bs = (r, w)" "bs \<noteq> []"
  shows "1 \<le> w \<and> w \<le> length bs"
  using assms decode2_width decode3_width decode4_width
  by (cases bs) (simp_all add: decodeRune_def split: if_splits)

text \<open>The chunks partition the string, so no byte is lost or read twice.\<close>

lemma chunks_concat: "concat (map snd (chunks s)) = s"
proof (induction s rule: chunks.induct)
  case 1
  then show ?case by simp
next
  case (2 c s)
  obtain r w where rw: "decodeRune (map byte (c # s)) = (r, w)" by fastforce
  then have "1 \<le> w" using decodeRune_width [of "map byte (c # s)" r w] by simp
  then have "take w (c # s) @ drop (w - 1) s = c # s"
    by (cases w) simp_all
  moreover have "concat (map snd (chunks (drop (w - 1) s))) = drop (w - 1) s"
    using "2.IH" [OF rw [symmetric]] by simp
  ultimately show ?case using rw by (simp add: chunks.simps(2))
qed

text \<open>\<open>unicode.IsControl\<close> (category Cc) and \<open>unicode.IsSpace\<close> (White\_Space).\<close>

definition isControl :: "nat \<Rightarrow> bool" where
  "isControl r \<longleftrightarrow> r < 0x20 \<or> (0x7F \<le> r \<and> r < 0xA0)"

definition isSpace :: "nat \<Rightarrow> bool" where
  "isSpace r \<longleftrightarrow> r \<in> {0x09, 0x0A, 0x0B, 0x0C, 0x0D, 0x20, 0x85, 0xA0, 0x1680, 0x2028, 0x2029,
     0x202F, 0x205F, 0x3000} \<or> (0x2000 \<le> r \<and> r \<le> 0x200A)"

section \<open>Strings\<close>

definition trimSpace :: "string \<Rightarrow> string" where
  "trimSpace s = concat (map snd (rev (dropWhile (isSpace \<circ> fst)
      (rev (dropWhile (isSpace \<circ> fst) (chunks s))))))"

definition hasPrefix :: "string \<Rightarrow> string \<Rightarrow> bool" where
  "hasPrefix s p \<longleftrightarrow> take (length p) s = p"

definition trimPrefix :: "string \<Rightarrow> string \<Rightarrow> string" where
  "trimPrefix s p = (if hasPrefix s p then drop (length p) s else s)"

definition hasSuffix :: "string \<Rightarrow> string \<Rightarrow> bool" where
  "hasSuffix s p \<longleftrightarrow> length p \<le> length s \<and> drop (length s - length p) s = p"

definition trimSuffix :: "string \<Rightarrow> string \<Rightarrow> string" where
  "trimSuffix s p = (if hasSuffix s p then take (length s - length p) s else s)"

definition trimRightChar :: "string \<Rightarrow> char \<Rightarrow> string" where
  "trimRightChar s c = rev (dropWhile (\<lambda>x. x = c) (rev s))"

text \<open>\<open>strings.Cut(s, sep)\<close> for a one-byte separator: before, after, found.\<close>

definition cutChar :: "string \<Rightarrow> char \<Rightarrow> string \<times> string \<times> bool" where
  "cutChar s c = (case dropWhile (\<lambda>x. x \<noteq> c) s of
     [] \<Rightarrow> (s, [], False) | _ # rest \<Rightarrow> (takeWhile (\<lambda>x. x \<noteq> c) s, rest, True))"

text \<open>\<open>strings.Split(s, sep)\<close> for a one-byte separator: never empty.\<close>

fun splitChar :: "char \<Rightarrow> string \<Rightarrow> string list" where
  "splitChar c [] = [[]]"
| "splitChar c (x # s) = (if x = c then [] # splitChar c s
     else (case splitChar c s of [] \<Rightarrow> [[x]] | p # ps \<Rightarrow> (x # p) # ps))"

definition containsAny :: "string \<Rightarrow> string \<Rightarrow> bool" where
  "containsAny s cs \<longleftrightarrow> list_ex (\<lambda>c. c \<in> set cs) s"

lemma hasPrefix_iff: "hasPrefix s p \<longleftrightarrow> (\<exists>t. s = p @ t)"
  unfolding hasPrefix_def by (metis append_eq_conv_conj append_take_drop_id)

lemma hasPrefix_Nil [simp]: "hasPrefix s []"
  by (simp add: hasPrefix_def)

lemma trimPrefix_append [simp]: "trimPrefix (p @ t) p = t"
  by (simp add: trimPrefix_def hasPrefix_def)

lemma trimPrefix_hasPrefix: "hasPrefix s p \<Longrightarrow> p @ trimPrefix s p = s"
  by (auto simp: hasPrefix_iff)

text \<open>
  \<open>strings.EqualFold(s, t)\<close> with \<open>t\<close> ASCII, as every use in the sources has it: simple
  case folding maps two non-ASCII runes onto ASCII letters, the Kelvin sign onto \<open>k\<close>
  and the long s onto \<open>s\<close>.
\<close>

definition foldRune :: "nat \<Rightarrow> nat" where
  "foldRune r = (if 65 \<le> r \<and> r \<le> 90 then r + 32 else if r = 0x212A then 107
     else if r = 0x17F then 115 else r)"

definition equalFold :: "string \<Rightarrow> string \<Rightarrow> bool" where
  "equalFold s t \<longleftrightarrow> map foldRune (runes s) = map foldRune (runes t)"

lemma equalFold_refl [simp]: "equalFold s s"
  by (simp add: equalFold_def)

definition isDigit :: "char \<Rightarrow> bool" where
  "isDigit c \<longleftrightarrow> 48 \<le> byte c \<and> byte c \<le> 57"

definition isLowerHex :: "char \<Rightarrow> bool" where
  "isLowerHex c \<longleftrightarrow> isDigit c \<or> (97 \<le> byte c \<and> byte c \<le> 102)"

definition isAlnum :: "char \<Rightarrow> bool" where
  "isAlnum c \<longleftrightarrow> (97 \<le> byte c \<and> byte c \<le> 122) \<or> (65 \<le> byte c \<and> byte c \<le> 90) \<or> isDigit c"

lemma isLowerHex_ascii: "isLowerHex c \<Longrightarrow> byte c < 128"
  by (auto simp: isLowerHex_def isDigit_def)

section \<open>Numbers as text\<close>

text \<open>\<open>strconv.ParseUint(s, 10, bits)\<close> and \<open>strconv.FormatUint(n, 10)\<close>.\<close>

definition digitsValue :: "string \<Rightarrow> nat" where
  "digitsValue s = foldl (\<lambda>n c. 10 * n + (byte c - 48)) 0 s"

definition parseUint :: "nat \<Rightarrow> string \<Rightarrow> nat option" where
  "parseUint bits s = (if s \<noteq> [] \<and> list_all isDigit s \<and> digitsValue s < 2 ^ bits
     then Some (digitsValue s) else None)"

fun formatUint :: "nat \<Rightarrow> string" where
  "formatUint n = (if n < 10 then [char_of (48 + n)]
     else formatUint (n div 10) @ [char_of (48 + n mod 10)])"

declare formatUint.simps [simp del]

lemma byte_char_of [simp]: "n < 256 \<Longrightarrow> byte (char_of n) = n"
  by (simp add: byte_def)

lemma formatUint_digits: "list_all isDigit (formatUint n) \<and> formatUint n \<noteq> []"
proof (induction n rule: formatUint.induct)
  case (1 n)
  show ?case
  proof (cases "n < 10")
    case True
    then show ?thesis by (subst (1 2) formatUint.simps) (simp add: isDigit_def)
  next
    case False
    have "n mod 10 < 10" by simp
    then have "isDigit (char_of (48 + n mod 10))" by (simp add: isDigit_def)
    with False 1 show ?thesis
      by (subst (1 2) formatUint.simps) simp
  qed
qed

text \<open>Round trip of the decimal text of a number.\<close>

lemma digitsValue_formatUint: "digitsValue (formatUint n) = n"
proof (induction n rule: formatUint.induct)
  case (1 n)
  show ?case
  proof (cases "n < 10")
    case True
    then show ?thesis by (subst formatUint.simps) (simp add: digitsValue_def)
  next
    case False
    have "n mod 10 < 10" by simp
    then have "48 + n mod 10 < 256" by linarith
    with False "1" show ?thesis
      by (subst formatUint.simps) (simp add: digitsValue_def)
  qed
qed

lemma parseUint_formatUint: "n < 2 ^ bits \<Longrightarrow> parseUint bits (formatUint n) = Some n"
  by (simp add: parseUint_def formatUint_digits digitsValue_formatUint)

definition hexDigit :: "nat \<Rightarrow> char" where
  "hexDigit n = (if n < 10 then char_of (48 + n) else char_of (87 + n))"

text \<open>\<open>hex.EncodeToString\<close>.\<close>

definition hexEncode :: "string \<Rightarrow> string" where
  "hexEncode bs = concat (map (\<lambda>c. [hexDigit (byte c div 16), hexDigit (byte c mod 16)]) bs)"

lemma hexDigit_lower: "n < 16 \<Longrightarrow> isLowerHex (hexDigit n)"
  by (auto simp: hexDigit_def isLowerHex_def isDigit_def)

lemma hexEncode_length [simp]: "length (hexEncode bs) = 2 * length bs"
  by (induction bs) (simp_all add: hexEncode_def)

lemma hexEncode_lower: "list_all isLowerHex (hexEncode bs)"
proof (induction bs)
  case Nil
  then show ?case by (simp add: hexEncode_def)
next
  case (Cons c bs)
  have "byte c div 16 < 16" using byte_less [of c] by linarith
  with Cons show ?case by (simp add: hexEncode_def hexDigit_lower)
qed

section \<open>JSON text of strings and numbers\<close>

text \<open>
  \<open>json.Marshal\<close> of a string, with HTML escaping as \<open>Marshal\<close> always has it: quotes,
  backslashes, control characters, \<open><\<close>, \<open>>\<close>, \<open>&\<close>, U+2028 and U+2029 are escaped and
  an invalid byte becomes \<open>\ufffd\<close>.
\<close>

definition jsonEscapeRune :: "nat \<times> string \<Rightarrow> string" where
  "jsonEscapeRune rb = (case rb of (r, b) \<Rightarrow>
     if r = 34 then [CHR 0x5C, CHR 0x22] else if r = 92 then [CHR 0x5C, CHR 0x5C]
     else if r = 8 then [CHR 0x5C, CHR ''b''] else if r = 12 then [CHR 0x5C, CHR ''f'']
     else if r = 10 then [CHR 0x5C, CHR ''n''] else if r = 13 then [CHR 0x5C, CHR ''r'']
     else if r = 9 then [CHR 0x5C, CHR ''t'']
     else if r < 32 \<or> r = 60 \<or> r = 62 \<or> r = 38
       then [CHR 0x5C] @ ''u00'' @ [hexDigit (r div 16), hexDigit (r mod 16)]
     else if r = runeError \<and> length b = 1 then [CHR 0x5C] @ ''ufffd''
     else if r = 0x2028 then [CHR 0x5C] @ ''u2028'' else if r = 0x2029 then [CHR 0x5C] @ ''u2029''
     else b)"

definition jsonString :: "string \<Rightarrow> string" where
  "jsonString s = [CHR 0x22] @ concat (map jsonEscapeRune (chunks s)) @ [CHR 0x22]"

text \<open>
  An object with its members in the order of the Go struct; a member with \<open>omitempty\<close>
  is given as \<open>None\<close> when it is empty.
\<close>

definition jsonMember :: "string \<times> string \<Rightarrow> string" where
  "jsonMember kv = jsonString (fst kv) @ '':'' @ snd kv"

fun joinWith :: "string \<Rightarrow> string list \<Rightarrow> string" where
  "joinWith sep [] = []"
| "joinWith sep [x] = x"
| "joinWith sep (x # xs) = x @ sep @ joinWith sep xs"

lemma length_joinWith: "length (joinWith sep xs) \<le> sum_list (map (\<lambda>x. length x + length sep) xs)"
  by (induction sep xs rule: joinWith.induct) simp_all

definition jsonObject :: "(string \<times> string option) list \<Rightarrow> string" where
  "jsonObject fields = ''{'' @ joinWith '',''
     (map jsonMember [(k, v). (k, Some v) \<leftarrow> fields]) @ ''}''"

definition omitEmptyString :: "string \<Rightarrow> string option" where
  "omitEmptyString s = (if s = [] then None else Some (jsonString s))"

definition omitZero :: "nat \<Rightarrow> string option" where
  "omitZero n = (if n = 0 then None else Some (formatUint n))"

section \<open>Base64, URL alphabet without padding\<close>

definition b64Alphabet :: string where
  "b64Alphabet = ''ABCDEFGHIJKLMNOPQRSTUVWXYZabcdefghijklmnopqrstuvwxyz0123456789-_''"

definition b64Char :: "nat \<Rightarrow> char" where
  "b64Char n = b64Alphabet ! n"

definition b64Value :: "char \<Rightarrow> nat option" where
  "b64Value c = (let b = byte c in
     if 65 \<le> b \<and> b \<le> 90 then Some (b - 65) else if 97 \<le> b \<and> b \<le> 122 then Some (b - 71)
     else if 48 \<le> b \<and> b \<le> 57 then Some (b + 4) else if b = 45 then Some 62
     else if b = 95 then Some 63 else None)"

text \<open>\<open>base64.RawURLEncoding.EncodeToString\<close> on byte values.\<close>

fun b64Digits :: "nat list \<Rightarrow> nat list" where
  "b64Digits (a # b # c # r) =
     [a div 4, (a mod 4) * 16 + b div 16, (b mod 16) * 4 + c div 64, c mod 64] @ b64Digits r"
| "b64Digits [a, b] = [a div 4, (a mod 4) * 16 + b div 16, (b mod 16) * 4]"
| "b64Digits [a] = [a div 4, (a mod 4) * 16]"
| "b64Digits [] = []"

definition b64Encode :: "string \<Rightarrow> string" where
  "b64Encode s = map b64Char (b64Digits (map byte s))"

text \<open>The strict decoder: trailing bits must be zero.\<close>

fun b64Bytes :: "nat list \<Rightarrow> nat list option" where
  "b64Bytes (v # w # x # y # r) = (case b64Bytes r of None \<Rightarrow> None
     | Some bs \<Rightarrow> Some ([v * 4 + w div 16, (w mod 16) * 16 + x div 4, (x mod 4) * 64 + y] @ bs))"
| "b64Bytes [v, w, x] = (if x mod 4 = 0 then Some [v * 4 + w div 16, (w mod 16) * 16 + x div 4] else None)"
| "b64Bytes [v, w] = (if w mod 16 = 0 then Some [v * 4 + w div 16] else None)"
| "b64Bytes [v] = None"
| "b64Bytes [] = Some []"

text \<open>\<open>base64.RawURLEncoding.Strict().DecodeString\<close>: line breaks are skipped.\<close>

definition b64Decode :: "string \<Rightarrow> string option" where
  "b64Decode s = (case those (map b64Value (filter (\<lambda>c. byte c \<noteq> 10 \<and> byte c \<noteq> 13) s)) of
     None \<Rightarrow> None | Some vs \<Rightarrow> map_option (map char_of) (b64Bytes vs))"

lemma b64Char_cases: "n < 64 \<Longrightarrow> byte (b64Char n) =
  (if n < 26 then n + 65 else if n < 52 then n + 71 else if n < 62 then n - 4
   else if n = 62 then 45 else 95)"
proof -
  have "list_all (\<lambda>n. byte (b64Alphabet ! n) =
    (if n < 26 then n + 65 else if n < 52 then n + 71 else if n < 62 then n - 4
     else if n = 62 then 45 else 95)) [0..<64]"
    by (simp add: b64Alphabet_def byte_def upt_conv_Cons)
  then show "n < 64 \<Longrightarrow> ?thesis" by (simp add: list_all_iff b64Char_def)
qed

lemma b64Value_Char: "n < 64 \<Longrightarrow> b64Value (b64Char n) = Some n"
  by (auto simp: b64Value_def b64Char_cases Let_def)

lemma b64Char_not_newline: "n < 64 \<Longrightarrow> byte (b64Char n) \<noteq> 10 \<and> byte (b64Char n) \<noteq> 13"
  by (auto simp: b64Char_cases)

lemma b64Digits_less: "\<forall>b \<in> set bs. b < 256 \<Longrightarrow> \<forall>d \<in> set (b64Digits bs). d < 64"
proof (induction bs rule: b64Digits.induct)
  case (1 a b c r)
  then have "a < 256" "b < 256" "c < 256" "\<forall>d \<in> set (b64Digits r). d < 64" by simp_all
  moreover from this have "a div 4 < 64" "(a mod 4) * 16 + b div 16 < 64"
    "(b mod 16) * 4 + c div 64 < 64" by linarith+
  ultimately show ?case by auto
next
  case (2 a b)
  then have "a < 256" "b < 256" by simp_all
  then have "a div 4 < 64" "(a mod 4) * 16 + b div 16 < 64" "(b mod 16) * 4 < 64" by linarith+
  then show ?case by auto
next
  case (3 a)
  then have "a < 256" by simp
  then have "a div 4 < 64" "(a mod 4) * 16 < 64" by linarith+
  then show ?case by auto
qed simp

lemma pack_div_mod: "y < k \<Longrightarrow> (x * k + y) div k = x" "y < k \<Longrightarrow> (x * k + y) mod k = y"
  for x y k :: nat
  by simp_all

lemma b64_group:
  fixes a b c :: nat
  assumes "b < 256" "c < 256"
  shows "a div 4 * 4 + ((a mod 4) * 16 + b div 16) div 16 = a"
    "(((a mod 4) * 16 + b div 16) mod 16) * 16 + ((b mod 16) * 4 + c div 64) div 4 = b"
    "(((b mod 16) * 4 + c div 64) mod 4) * 64 + c mod 64 = c"
proof -
  from assms have "b div 16 < 16" "c div 64 < 4" by linarith+
  then show "a div 4 * 4 + ((a mod 4) * 16 + b div 16) div 16 = a"
    "(((a mod 4) * 16 + b div 16) mod 16) * 16 + ((b mod 16) * 4 + c div 64) div 4 = b"
    "(((b mod 16) * 4 + c div 64) mod 4) * 64 + c mod 64 = c"
    by (simp_all only: pack_div_mod div_mult_mod_eq)
qed

lemma b64Bytes_Digits: "\<forall>b \<in> set bs. b < 256 \<Longrightarrow> b64Bytes (b64Digits bs) = Some bs"
proof (induction bs rule: b64Digits.induct)
  case (1 a b c r)
  then have "b < 256" "c < 256" "b64Bytes (b64Digits r) = Some r" by simp_all
  with b64_group [OF \<open>b < 256\<close> \<open>c < 256\<close>] show ?case by simp
next
  case (2 a b)
  then have "b < 256" by simp
  with b64_group [OF \<open>b < 256\<close>, of 0] show ?case by simp
next
  case (3 a)
  have "(0::nat) < 256" by simp
  with b64_group(1) [of 0 0 a] show ?case by simp
qed simp

lemma those_map_Some: "(\<And>x. x \<in> set xs \<Longrightarrow> f x = Some (g x)) \<Longrightarrow> those (map f xs) = Some (map g xs)"
  by (induction xs) auto

text \<open>Round trip of the encoding.\<close>

lemma b64Decode_Encode: "b64Decode (b64Encode s) = Some s"
proof -
  let ?d = "b64Digits (map byte s)"
  have less: "\<forall>d \<in> set ?d. d < 64" by (rule b64Digits_less) simp
  then have "filter (\<lambda>c. byte c \<noteq> 10 \<and> byte c \<noteq> 13) (b64Encode s) = b64Encode s"
    by (auto simp: b64Encode_def filter_map b64Char_not_newline intro!: filter_True)
  moreover have "those (map b64Value (b64Encode s)) = Some (map (\<lambda>d. d) ?d)"
    using less unfolding b64Encode_def map_map comp_def
    by (intro those_map_Some) (simp add: b64Value_Char)
  moreover have "b64Bytes ?d = Some (map byte s)" by (rule b64Bytes_Digits) simp
  moreover have "map char_of (map byte s) = s" by (simp add: byte_def comp_def)
  ultimately show ?thesis by (simp add: b64Decode_def)
qed

end
