(* ===== verification/StrictJson.thy ===== *)
theory StrictJson
  imports GoText
begin

text \<open>
  \<^verbatim>\<open>src/internal/strictjson\<close>: the JSON reader for authority-bearing envelopes. It
  rejects duplicate members at every depth, members that fold onto one struct field,
  nesting beyond 64 and unpaired UTF-16 escapes (\<open>decode.go\<close>), with the field names
  computed from the target struct by \<open>encoding/json\<close>'s dominance rules (\<open>fields.go\<close>).
  \<open>encoding/json\<close> itself enters in two places: the document as a tree with its members
  in order and duplicates kept (\<open>jread\<close>), and the final typed decoding (\<open>unmarshal\<close>).
\<close>

section \<open>Documents and shapes\<close>

datatype json =
    JNull
  | JBool bool
  | JNum string
  | JStr string
  | JArr "json list"
  | JObj "(string \<times> json) list"

text \<open>The part of \<open>reflect.Type\<close> the checks look at: \<open>TCustom\<close> is a type whose pointer
  implements \<open>json.Unmarshaler\<close>, \<open>TLeaf\<close> a type of any other kind.\<close>

datatype gotype =
    TPtr gotype
  | TSlice gotype
  | TArray gotype
  | TStruct "gofield list"
  | TCustom
  | TLeaf
and gofield = Field (fldName: string) (fldTag: string) (fldExported: bool) (fldAnonymous: bool)
    (fldType: gotype)

record structField =
  sfName :: string
  sfType :: gotype
  sfDepth :: nat
  sfTagged :: bool

section \<open>Fields of a struct (fields.go)\<close>

fun structType :: "gotype \<Rightarrow> gotype option" where
  "structType (TPtr t) = structType t"
| "structType TCustom = None"
| "structType t = Some t"

definition isStruct :: "gotype option \<Rightarrow> bool" where
  "isStruct t = (case t of Some (TStruct _) \<Rightarrow> True | _ \<Rightarrow> False)"

text \<open>Candidate \<open>i\<close> survives unless another candidate of its name is shallower, or as deep
  and tagged, or as deep while \<open>i\<close> is untagged.\<close>

definition dominated :: "structField \<Rightarrow> structField \<Rightarrow> bool" where
  "dominated candidate other \<longleftrightarrow> sfName candidate = sfName other \<and>
     (sfDepth other < sfDepth candidate \<or>
      (sfDepth other = sfDepth candidate \<and> (sfTagged other \<or> \<not> sfTagged candidate)))"

definition dominantFields :: "structField list \<Rightarrow> structField list" where
  "dominantFields cs = map ((!) cs) (filter (\<lambda>i. list_all (\<lambda>j. i = j \<or> \<not> dominated (cs ! i) (cs ! j))
     [0..<length cs]) [0..<length cs])"

fun structFields :: "nat \<Rightarrow> gotype \<Rightarrow> unit + structField list"
  and candidateFields :: "nat \<Rightarrow> gofield list \<Rightarrow> unit + structField list" where
  "structFields depth (TPtr t) = structFields depth t"
| "structFields depth (TStruct fs) = (if depth > 64 then Inl ()
     else bindR (candidateFields depth fs) (\<lambda>cs. Inr (dominantFields cs)))"
| "structFields depth t = (if depth > 64 then Inl () else Inr [])"
| "candidateFields depth [] = Inr []"
| "candidateFields depth (Field fname tag exported anonymous ty # fs) =
     (let name = fst (cutChar tag CHR '','') in
      if name = ''-'' \<or> (\<not> exported \<and> \<not> anonymous) then candidateFields depth fs
      else if name = [] \<and> anonymous \<and> isStruct (structType ty) then
        bindR (structFields (Suc depth) ty) (\<lambda>inner.
          bindR (candidateFields depth fs) (\<lambda>rest. Inr (inner @ rest)))
      else if \<not> exported then candidateFields depth fs
      else bindR (candidateFields depth fs) (\<lambda>rest.
        Inr (\<lparr>sfName = (if name = [] then fname else name), sfType = ty, sfDepth = depth,
              sfTagged = (name \<noteq> [])\<rparr> # rest)))"

definition matchField :: "structField list \<Rightarrow> string \<Rightarrow> string \<times> gotype option" where
  "matchField fs name =
     (case find (\<lambda>f. sfName f = name) fs of
        Some f \<Rightarrow> (sfName f, Some (sfType f))
      | None \<Rightarrow> (case find (\<lambda>f. equalFold name (sfName f)) fs of
          Some f \<Rightarrow> (sfName f, Some (sfType f))
        | None \<Rightarrow> (name, None)))"

section \<open>The duplicate check (decode.go)\<close>

definition elementShape :: "gotype option \<Rightarrow> gotype option" where
  "elementShape shape = (case shape of None \<Rightarrow> None | Some t \<Rightarrow> (case structType t of
     Some (TSlice e) \<Rightarrow> Some e | Some (TArray e) \<Rightarrow> Some e | _ \<Rightarrow> None))"

definition shapeFields :: "gotype option \<Rightarrow> unit + structField list" where
  "shapeFields shape = (case shape of None \<Rightarrow> Inr [] | Some t \<Rightarrow> structFields 0 t)"

fun jsonValue :: "nat \<Rightarrow> gotype option \<Rightarrow> json \<Rightarrow> bool"
  and jsonMembers :: "nat \<Rightarrow> structField list \<Rightarrow> string list \<Rightarrow> (string \<times> json) list \<Rightarrow> bool"
  and jsonElements :: "nat \<Rightarrow> gotype option \<Rightarrow> json list \<Rightarrow> bool" where
  "jsonValue depth shape (JObj ms) = (if depth > 64 then False else
     (case shapeFields shape of Inl _ \<Rightarrow> False | Inr fs \<Rightarrow> jsonMembers depth fs [] ms))"
| "jsonValue depth shape (JArr vs) =
     (if depth > 64 then False else jsonElements depth (elementShape shape) vs)"
| "jsonValue depth shape v = (depth \<le> 64)"
| "jsonMembers depth fs seen [] = True"
| "jsonMembers depth fs seen ((key, v) # ms) =
     (case matchField fs key of (name, ty) \<Rightarrow>
        if name \<in> set seen then False
        else jsonValue (Suc depth) ty v \<and> jsonMembers depth fs (name # seen) ms)"
| "jsonElements depth shape [] = True"
| "jsonElements depth shape (v # vs) =
     (jsonValue (Suc depth) shape v \<and> jsonElements depth shape vs)"

section \<open>Surrogate escapes (decode.go)\<close>

definition hexValue :: "char \<Rightarrow> nat option" where
  "hexValue c = (let b = byte c in
     if 48 \<le> b \<and> b \<le> 57 then Some (b - 48)
     else if 97 \<le> b \<and> b \<le> 102 then Some (b - 87)
     else if 65 \<le> b \<and> b \<le> 70 then Some (b - 55) else None)"

text \<open>\<open>strconv.ParseUint(s, 16, 16)\<close> on four bytes.\<close>

definition hex4 :: "string \<Rightarrow> nat option" where
  "hex4 s = (case map hexValue s of
     [Some a, Some b, Some c, Some d] \<Rightarrow> Some (((a * 16 + b) * 16 + c) * 16 + d) | _ \<Rightarrow> None)"

definition lowSurrogate :: "nat \<Rightarrow> bool" where
  "lowSurrogate v \<longleftrightarrow> 0xDC00 \<le> v \<and> v \<le> 0xDFFF"

definition highSurrogate :: "nat \<Rightarrow> bool" where
  "highSurrogate v \<longleftrightarrow> 0xD800 \<le> v \<and> v \<le> 0xDBFF"

text \<open>
  The scan from the current byte on, with the \<open>quoted\<close> flag. \<open>None\<close> is a read past the
  end of the data (a panic), which \<open>json.Valid\<close> must exclude.
\<close>

function validEscapesFrom :: "bool \<Rightarrow> string \<Rightarrow> bool option" where
  "validEscapesFrom quoted [] = Some True"
| "validEscapesFrom quoted (c # s) =
     (if c = CHR 0x22 then validEscapesFrom (\<not> quoted) s
      else if \<not> quoted \<or> c \<noteq> CHR 0x5C then validEscapesFrom quoted s
      else (case s of [] \<Rightarrow> None | e # t \<Rightarrow>
        if e \<noteq> CHR ''u'' then validEscapesFrom quoted t
        else if length t < 4 then None
        else (case hex4 (take 4 t) of None \<Rightarrow> Some False | Some v \<Rightarrow>
          if lowSurrogate v then Some False
          else if \<not> highSurrogate v then validEscapesFrom quoted (drop 4 t)
          else if length (drop 4 t) < 6 \<or> take 2 (drop 4 t) \<noteq> [CHR 0x5C, CHR ''u''] then Some False
          else (case hex4 (take 4 (drop 6 t)) of None \<Rightarrow> Some False | Some low \<Rightarrow>
            if \<not> lowSurrogate low then Some False
            else validEscapesFrom quoted (drop 10 t)))))"
  by pat_completeness auto
termination
  by (relation "measure (\<lambda>(q, s). length s)") auto

declare validEscapesFrom.simps(2) [simp del]

definition validStringEscapes :: "string \<Rightarrow> bool option" where
  "validStringEscapes data = validEscapesFrom False data"

section \<open>Decode and DecodeStruct\<close>

text \<open>\<open>Decode\<close> passes no shape, \<open>DecodeStruct\<close> the type of its target. A panic of the
  escape scan is \<open>Inl True\<close>, the ordinary \<open>errInvalid\<close> is \<open>Inl False\<close>.\<close>

definition decodeJSON :: "(string \<Rightarrow> json option) \<Rightarrow> (bool \<Rightarrow> json \<Rightarrow> 'a option) \<Rightarrow>
    bool \<Rightarrow> gotype option \<Rightarrow> string \<Rightarrow> bool + 'a" where
  "decodeJSON jread unmarshal strictFields shape data =
     (if \<not> utf8Valid data then Inl False else
      case jread data of None \<Rightarrow> Inl False | Some doc \<Rightarrow>
      (case validStringEscapes data of
         None \<Rightarrow> Inl True
       | Some False \<Rightarrow> Inl False
       | Some True \<Rightarrow>
           if \<not> jsonValue 0 shape doc then Inl False
           else (case unmarshal strictFields doc of None \<Rightarrow> Inl False | Some x \<Rightarrow> Inr x)))"

definition Decode :: "(string \<Rightarrow> json option) \<Rightarrow> (bool \<Rightarrow> json \<Rightarrow> 'a option) \<Rightarrow>
    bool \<Rightarrow> string \<Rightarrow> bool + 'a" where
  "Decode jread unmarshal strictFields data = decodeJSON jread unmarshal strictFields None data"

definition DecodeStruct :: "(string \<Rightarrow> json option) \<Rightarrow> (bool \<Rightarrow> json \<Rightarrow> 'a option) \<Rightarrow>
    gotype \<Rightarrow> bool \<Rightarrow> string \<Rightarrow> bool + 'a" where
  "DecodeStruct jread unmarshal ty strictFields data =
     decodeJSON jread unmarshal strictFields (Some ty) data"

section \<open>Properties of the duplicate check\<close>

lemma matchField_Nil [simp]: "matchField [] key = (key, None)"
  by (simp add: matchField_def)

lemma jsonMembers_iff:
  "jsonMembers depth fs seen ms \<longleftrightarrow>
     distinct (map (\<lambda>m. fst (matchField fs (fst m))) ms) \<and>
     (\<forall>m \<in> set ms. fst (matchField fs (fst m)) \<notin> set seen) \<and>
     (\<forall>m \<in> set ms. jsonValue (Suc depth) (snd (matchField fs (fst m))) (snd m))"
proof (induction ms arbitrary: seen)
  case Nil
  then show ?case by simp
next
  case (Cons m ms)
  obtain key v where m: "m = (key, v)" by (cases m)
  obtain name ty where n: "matchField fs key = (name, ty)" by fastforce
  show ?case using Cons.IH [of "name # seen"] by (auto simp: m n)
qed

lemma jsonElements_iff:
  "jsonElements depth shape vs \<longleftrightarrow> (\<forall>v \<in> set vs. jsonValue (Suc depth) shape v)"
  by (induction vs) auto

text \<open>The reference notion: how deep a document nests and whether some object repeats a key.\<close>

fun nesting :: "json \<Rightarrow> nat" where
  "nesting (JArr vs) = foldr max (map (\<lambda>v. Suc (nesting v)) vs) 0"
| "nesting (JObj ms) = foldr max (map (\<lambda>m. Suc (nesting (snd m))) ms) 0"
| "nesting v = 0"

fun noDuplicateKeys :: "json \<Rightarrow> bool" where
  "noDuplicateKeys (JArr vs) = list_all noDuplicateKeys vs"
| "noDuplicateKeys (JObj ms) =
     (distinct (map fst ms) \<and> list_all (\<lambda>m. noDuplicateKeys (snd m)) ms)"
| "noDuplicateKeys v = True"

lemma foldr_max_le: "foldr max xs (0::nat) \<le> n \<longleftrightarrow> (\<forall>x \<in> set xs. x \<le> n)"
  by (induction xs) auto

lemma jsonValue_None_aux:
  "depth \<le> 64 \<Longrightarrow> jsonValue depth None v \<longleftrightarrow> depth + nesting v \<le> 64 \<and> noDuplicateKeys v"
proof (induction v arbitrary: depth)
  case (JArr vs)
  have "jsonValue (Suc depth) None v \<longleftrightarrow> depth + Suc (nesting v) \<le> 64 \<and> noDuplicateKeys v"
    if "v \<in> set vs" for v
  proof (cases "depth = 64")
    case True
    then show ?thesis by (cases v) simp_all
  next
    case False
    with JArr.prems JArr.IH [OF that, of "Suc depth"] show ?thesis by simp
  qed
  moreover have "foldr max (map (\<lambda>v. Suc (nesting v)) vs) 0 \<le> 64 - depth \<longleftrightarrow>
      (\<forall>v \<in> set vs. Suc (nesting v) \<le> 64 - depth)"
    by (simp add: foldr_max_le)
  ultimately show ?case using JArr.prems
    by (auto simp: jsonElements_iff elementShape_def list_all_iff)
next
  case (JObj ms)
  have "jsonValue (Suc depth) None (snd m) \<longleftrightarrow>
      depth + Suc (nesting (snd m)) \<le> 64 \<and> noDuplicateKeys (snd m)"
    if "m \<in> set ms" for m
  proof (cases "depth = 64")
    case True
    then show ?thesis by (cases "snd m") simp_all
  next
    case False
    have "snd m \<in> Basic_BNFs.snds m" by (simp add: snds.simps)
    with False JObj.prems JObj.IH [OF that, of "snd m" "Suc depth"] show ?thesis by simp
  qed
  moreover have "foldr max (map (\<lambda>m. Suc (nesting (snd m))) ms) 0 \<le> 64 - depth \<longleftrightarrow>
      (\<forall>m \<in> set ms. Suc (nesting (snd m)) \<le> 64 - depth)"
    by (simp add: foldr_max_le)
  ultimately show ?case using JObj.prems
    by (auto simp: jsonMembers_iff shapeFields_def list_all_iff)
qed simp_all

lemma dominated_not_mutual:
  "dominated a b \<or> dominated b a" if "sfName a = sfName b"
  using that by (auto simp: dominated_def)

lemma dominantFields_distinct: "distinct (map sfName (dominantFields cs))"
proof -
  let ?keep = "\<lambda>i. list_all (\<lambda>j. i = j \<or> \<not> dominated (cs ! i) (cs ! j)) [0..<length cs]"
  let ?is = "filter ?keep [0..<length cs]"
  have "inj_on (\<lambda>i. sfName (cs ! i)) (set ?is)"
  proof (rule inj_onI)
    fix i j
    assume i: "i \<in> set ?is" and j: "j \<in> set ?is" and eq: "sfName (cs ! i) = sfName (cs ! j)"
    show "i = j"
    proof (rule ccontr)
      assume "i \<noteq> j"
      with i j have "\<not> dominated (cs ! i) (cs ! j)" "\<not> dominated (cs ! j) (cs ! i)"
        by (auto simp: list_all_iff)
      with dominated_not_mutual [OF eq] show False by simp
    qed
  qed
  then have "distinct (map (\<lambda>i. sfName (cs ! i)) ?is)" by (simp add: distinct_map)
  then show ?thesis by (simp add: dominantFields_def comp_def)
qed

section \<open>Properties of the escape scan\<close>

text \<open>
  The reference reading of the escapes: the UTF-16 units of the \<open>\u\<close> escapes in order,
  anything else between them as \<open>Other\<close>. \<open>escapesComplete\<close> is what \<open>json.Valid\<close>
  guarantees about escapes.
\<close>

datatype escape = Unit nat | Other

function escapeTokens :: "bool \<Rightarrow> string \<Rightarrow> escape list" where
  "escapeTokens quoted [] = []"
| "escapeTokens quoted (c # s) =
     (if c = CHR 0x22 then Other # escapeTokens (\<not> quoted) s
      else if \<not> quoted \<or> c \<noteq> CHR 0x5C then Other # escapeTokens quoted s
      else (case s of [] \<Rightarrow> [] | e # t \<Rightarrow>
        if e \<noteq> CHR ''u'' then Other # escapeTokens quoted t
        else (case hex4 (take 4 t) of None \<Rightarrow> [] | Some v \<Rightarrow> Unit v # escapeTokens quoted (drop 4 t))))"
  by pat_completeness auto
termination
  by (relation "measure (\<lambda>(q, s). length s)") auto

function escapesComplete :: "bool \<Rightarrow> string \<Rightarrow> bool" where
  "escapesComplete quoted [] = True"
| "escapesComplete quoted (c # s) =
     (if c = CHR 0x22 then escapesComplete (\<not> quoted) s
      else if \<not> quoted \<or> c \<noteq> CHR 0x5C then escapesComplete quoted s
      else (case s of [] \<Rightarrow> False | e # t \<Rightarrow>
        if e \<noteq> CHR ''u'' then escapesComplete quoted t
        else 4 \<le> length t \<and> hex4 (take 4 t) \<noteq> None \<and> escapesComplete quoted (drop 4 t)))"
  by pat_completeness auto
termination
  by (relation "measure (\<lambda>(q, s). length s)") auto

declare escapeTokens.simps(2) [simp del] escapesComplete.simps(2) [simp del]

fun paired :: "escape list \<Rightarrow> bool" where
  "paired [] = True"
| "paired (Other # es) = paired es"
| "paired (Unit v # es) =
     (if lowSurrogate v then False
      else if \<not> highSurrogate v then paired es
      else (case es of Unit low # rest \<Rightarrow> lowSurrogate low \<and> paired rest | _ \<Rightarrow> False))"

lemma hex4_Nil [simp]: "hex4 [] = None"
  by (simp add: hex4_def)

lemma escapeTokens_Unit:
  assumes "escapesComplete True r"
  shows "(\<exists>low rest. escapeTokens True r = Unit low # rest) \<longleftrightarrow>
    6 \<le> length r \<and> take 2 r = [CHR 0x5C, CHR ''u'']"
proof (cases r)
  case Nil
  then show ?thesis by simp
next
  case (Cons c s)
  with assms show ?thesis
    by (cases s) (auto simp: escapeTokens.simps(2) escapesComplete.simps(2) split: option.splits if_splits)
qed

lemma escapeTokens_u:
  assumes "escapesComplete True r" "6 \<le> length r" "take 2 r = [CHR 0x5C, CHR ''u'']"
  obtains v where "hex4 (take 4 (drop 2 r)) = Some v"
    "escapeTokens True r = Unit v # escapeTokens True (drop 6 r)"
    "escapesComplete True (drop 6 r)"
proof -
  from assms(2,3) obtain t where r: "r = CHR 0x5C # CHR ''u'' # t"
    by (cases r; cases "tl r") auto
  with assms(1) obtain v where "hex4 (take 4 t) = Some v" "escapesComplete True (drop 4 t)"
    by (auto simp: escapesComplete.simps(2))
  with r that show ?thesis by (simp add: escapeTokens.simps(2))
qed

lemma validEscapesFrom_eq:
  "escapesComplete quoted s \<Longrightarrow> validEscapesFrom quoted s = Some (paired (escapeTokens quoted s))"
proof (induction quoted s rule: validEscapesFrom.induct)
  case (1 quoted)
  then show ?case by simp
next
  case (2 quoted c s)
  note IH = "2.IH" and complete = "2.prems"
  show ?case
  proof (cases "c = CHR 0x22 \<or> \<not> quoted \<or> c \<noteq> CHR 0x5C")
    case True
    with IH(1,2) complete show ?thesis
      by (auto simp: validEscapesFrom.simps(2) escapeTokens.simps(2) escapesComplete.simps(2))
  next
    case False
    then have c: "c = CHR 0x5C" and q: "quoted" and q_True: "quoted = True" by auto
    with complete obtain e t where s: "s = e # t"
      by (auto simp: escapesComplete.simps(2) split: list.splits)
    show ?thesis
    proof (cases "e = CHR ''u''")
      case False
      with IH(3) [OF _ _ s] c q s complete show ?thesis
        by (simp add: validEscapesFrom.simps(2) escapeTokens.simps(2) escapesComplete.simps(2))
    next
      case True
      with complete c q s obtain v where len: "4 \<le> length t" and v: "hex4 (take 4 t) = Some v"
        and comp: "escapesComplete True (drop 4 t)"
        by (auto simp: escapesComplete.simps(2))
      have tok: "escapeTokens quoted (c # s) = Unit v # escapeTokens True (drop 4 t)"
        using True c q s v by (simp add: escapeTokens.simps(2))
      have step: "validEscapesFrom quoted (c # s) =
        (if lowSurrogate v then Some False
         else if \<not> highSurrogate v then validEscapesFrom quoted (drop 4 t)
         else if length (drop 4 t) < 6 \<or> take 2 (drop 4 t) \<noteq> [CHR 0x5C, CHR ''u''] then Some False
         else (case hex4 (take 4 (drop 6 t)) of None \<Rightarrow> Some False | Some low \<Rightarrow>
            if \<not> lowSurrogate low then Some False else validEscapesFrom quoted (drop 10 t)))"
        unfolding q_True using True c s v len by (simp add: validEscapesFrom.simps(2))
      show ?thesis
      proof (cases "lowSurrogate v \<or> \<not> highSurrogate v")
        case True
        have "lowSurrogate v \<or> validEscapesFrom quoted (drop 4 t) = Some (paired (escapeTokens quoted (drop 4 t)))"
          using IH(4) [OF _ _ s] \<open>e = CHR ''u''\<close> c q v len comp True by auto
        with True q show ?thesis unfolding step tok by auto
      next
        case False
        let ?r = "drop 4 t"
        show ?thesis
        proof (cases "6 \<le> length ?r \<and> take 2 ?r = [CHR 0x5C, CHR ''u'']")
          case False
          with \<open>\<not> (lowSurrogate v \<or> \<not> highSurrogate v)\<close> escapeTokens_Unit [OF comp]
          show ?thesis unfolding step tok by (auto split: list.splits escape.splits)
        next
          case True
          then obtain low where low: "hex4 (take 4 (drop 2 ?r)) = Some low"
              "escapeTokens True ?r = Unit low # escapeTokens True (drop 6 ?r)"
              "escapesComplete True (drop 6 ?r)"
            using escapeTokens_u [OF comp] by blast
          then have low': "hex4 (take 4 (drop 6 t)) = Some low"
              "escapeTokens True ?r = Unit low # escapeTokens True (drop 10 t)"
              "escapesComplete True (drop 10 t)"
            by (simp_all add: add.commute)
          have "lowSurrogate low \<Longrightarrow>
              validEscapesFrom quoted (drop 10 t) = Some (paired (escapeTokens quoted (drop 10 t)))"
            using IH(5) [OF _ _ s] \<open>e = CHR ''u''\<close> c q v len low' True False by auto
          with False True low' q show ?thesis unfolding step tok by auto
        qed
      qed
    qed
  qed
qed

end
