(* ===== verification/FoundryValidate.thy ===== *)
theory FoundryValidate
  imports StrictJson
begin

text \<open>
  \<^verbatim>\<open>src/internal/foundry\<close>: \<open>limits.go\<close>, \<open>config.go\<close>, \<open>digest.go\<close>, \<open>endpoints.go\<close>,
  \<open>session.go\<close> and \<open>tools.go\<close>: the string checks every other package relies on, the
  SHA-256 digests, the agent configuration and the session paths. SHA-256 itself is the
  argument \<open>sha\<close> (32 bytes per input); \<open>url.Parse\<close> and \<open>net.ParseIP\<close> are arguments.
\<close>

section \<open>Limits (limits.go)\<close>

definition MaxPromptBytes :: nat where "MaxPromptBytes = 4194304"
definition MaxToolSchemaBytes :: nat where "MaxToolSchemaBytes = 2097152"
definition MaxIdentifierBytes :: nat where "MaxIdentifierBytes = 4096"
definition DefaultMaxOutputBytes :: nat where "DefaultMaxOutputBytes = 1048576"
definition DefaultMaxStreamBytes :: nat where "DefaultMaxStreamBytes = 16777216"
definition DefaultMaxEventBytes :: nat where "DefaultMaxEventBytes = 8388608"
definition DefaultMaxBrokeredBytes :: nat where "DefaultMaxBrokeredBytes = 4194304"
definition DefaultMaxBrokeredTurnBytes :: nat where "DefaultMaxBrokeredTurnBytes = 16777216"
definition DefaultMaxBrokeredCalls :: nat where "DefaultMaxBrokeredCalls = 256"
definition DefaultMaxEvents :: nat where "DefaultMaxEvents = 4096"

definition MaxAgentConfigBytes :: nat where "MaxAgentConfigBytes = 65536"

section \<open>Strings (config.go, tools.go)\<close>

definition SafeString :: "string \<Rightarrow> nat \<Rightarrow> bool" where
  "SafeString value limit = (if value = [] \<or> length value > limit then False
     else list_all (\<lambda>ch. \<not> isControl ch) (runes value))"

fun FirstNonBlank :: "string list \<Rightarrow> string" where
  "FirstNonBlank [] = []"
| "FirstNonBlank (value # values) =
     (if trimSpace value \<noteq> [] then trimSpace value else FirstNonBlank values)"

text \<open>\<open>True\<close> is a nil error; the label only words the message.\<close>

definition ValidateIdentifier :: "string \<Rightarrow> bool" where
  "ValidateIdentifier value = (if value = [] then True
     else if length value > MaxIdentifierBytes then False
     else list_all (\<lambda>ch. \<not> (isSpace ch \<or> isControl ch)) (runes value))"

definition ValidateFunctionName :: "string \<Rightarrow> bool" where
  "ValidateFunctionName name \<longleftrightarrow> name \<noteq> [] \<and> length name \<le> 128 \<and>
     list_all (\<lambda>c. isAlnum c \<or> c = CHR ''_'' \<or> c = CHR ''-'') name"

definition ValidateCallID :: "string \<Rightarrow> bool" where
  "ValidateCallID callID = (if callID = [] then False
     else if length (runes callID) > 64 then False
     else list_all (\<lambda>ch. \<not> isControl ch) (runes callID))"

text \<open>
  \<open>NormalizeToolArguments\<close>: empty arguments are \<open>{}\<close>; a JSON string is unwrapped and must
  hold JSON; any other valid JSON is kept. \<open>jvalid\<close> is \<open>json.Valid\<close>, \<open>jstring\<close> decodes a
  document that is a JSON string (or null, which \<open>Unmarshal\<close> leaves as the empty string).
\<close>

definition NormalizeToolArguments :: "(string \<Rightarrow> bool) \<Rightarrow> (string \<Rightarrow> string option) \<Rightarrow>
    string \<Rightarrow> string option" where
  "NormalizeToolArguments jvalid jstring raw =
     (if raw = [] then Some ''{}'' else
      case jstring raw of
        Some encoded \<Rightarrow> (let encoded = trimSpace encoded in
          if encoded \<noteq> [] \<and> jvalid encoded then Some encoded else None)
      | None \<Rightarrow> if jvalid raw then Some raw else None)"

section \<open>Digests (digest.go)\<close>

definition Digest :: "(string \<Rightarrow> string) \<Rightarrow> string \<Rightarrow> string" where
  "Digest sha data = ''sha256:'' @ hexEncode (sha data)"

definition DigestValid :: "string \<Rightarrow> bool" where
  "DigestValid value = (if length value \<noteq> length ''sha256:'' + 64 \<or> \<not> hasPrefix value ''sha256:''
     then False
     else list_all (\<lambda>ch. (48 \<le> ch \<and> ch \<le> 57) \<or> (97 \<le> ch \<and> ch \<le> 102))
       (runes (drop (length ''sha256:'') value)))"

section \<open>Names, versions and endpoints (endpoints.go, session.go)\<close>

text \<open>\<open>^[A-Za-z0-9]+(?:-[A-Za-z0-9]+)*$\<close>: alphanumeric parts joined by single hyphens.\<close>

definition agentNameRE :: "string \<Rightarrow> bool" where
  "agentNameRE name = list_all (\<lambda>p. p \<noteq> [] \<and> list_all isAlnum p) (splitChar CHR ''-'' name)"

definition ValidateAgentName :: "string \<Rightarrow> bool" where
  "ValidateAgentName name = (if name = [] then False
     else if length name > 63 \<or> \<not> agentNameRE name then False else True)"

text \<open>\<open>^[A-Za-z0-9][A-Za-z0-9._-]{0,127}$\<close>.\<close>

definition agentVersionRE :: "string \<Rightarrow> bool" where
  "agentVersionRE version = (case version of [] \<Rightarrow> False | c # rest \<Rightarrow>
     isAlnum c \<and> length rest \<le> 127 \<and> list_all (\<lambda>c. isAlnum c \<or> c \<in> set ''._-'') rest)"

definition ValidateAgentVersion :: "string \<Rightarrow> bool" where
  "ValidateAgentVersion version = (if version = [] then True
     else if hasPrefix version ''@'' \<or> \<not> agentVersionRE version then False else True)"

record url =
  uScheme :: string
  uHost :: string
  uHostname :: string
  uHasUser :: bool
  uForceQuery :: bool
  uRawQuery :: string

definition toLowerAscii :: "string \<Rightarrow> string" where
  "toLowerAscii s = map (\<lambda>c. if 65 \<le> byte c \<and> byte c \<le> 90 then char_of (byte c + 32) else c) s"

definition trimSet :: "string \<Rightarrow> string \<Rightarrow> string" where
  "trimSet s cs = rev (dropWhile (\<lambda>c. c \<in> set cs) (rev (dropWhile (\<lambda>c. c \<in> set cs) s)))"

text \<open>\<open>parseURL\<close> is \<open>url.Parse\<close>, \<open>loopbackIP\<close> is \<open>net.ParseIP\<close> followed by \<open>IsLoopback\<close>
  (false for a nil IP).\<close>

definition EndpointIsSafe :: "(string \<Rightarrow> url option) \<Rightarrow> (string \<Rightarrow> bool) \<Rightarrow> string \<Rightarrow> bool" where
  "EndpointIsSafe parseURL loopbackIP raw =
     (let trimmed = trimSpace raw in
      case parseURL trimmed of None \<Rightarrow> False | Some parsed \<Rightarrow>
        if uScheme parsed = [] \<or> uHost parsed = [] then False
        else if uHasUser parsed \<or> uForceQuery parsed \<or> uRawQuery parsed \<noteq> [] \<or> CHR ''#'' \<in> set trimmed
        then False
        else if equalFold (uScheme parsed) ''https'' then True
        else if \<not> equalFold (uScheme parsed) ''http'' then False
        else (let host = trimSet (toLowerAscii (uHostname parsed)) ''[]'' in
          host = ''localhost'' \<or> loopbackIP host))"

text \<open>\<open>url.PathEscape\<close>: one path segment.\<close>

definition pathSafe :: "char \<Rightarrow> bool" where
  "pathSafe c \<longleftrightarrow> isAlnum c \<or> c \<in> set ''-_.~$&+:=@''"

definition upperHexDigit :: "nat \<Rightarrow> char" where
  "upperHexDigit n = (if n < 10 then char_of (48 + n) else char_of (55 + n))"

definition pathEscape :: "string \<Rightarrow> string" where
  "pathEscape s = concat (map (\<lambda>c. if pathSafe c then [c]
     else [CHR ''%'', upperHexDigit (byte c div 16), upperHexDigit (byte c mod 16)]) s)"

definition SessionSuffix :: "string \<Rightarrow> string" where
  "SessionSuffix sid = ''/endpoint/sessions/'' @ pathEscape sid"

definition DefiniteRejection :: "nat \<Rightarrow> bool" where
  "DefiniteRejection status \<longleftrightarrow> status \<in> {400, 401, 403, 404, 405, 413, 415, 422, 429}"

record remoteSession =
  rsID :: string
  rsVersionType :: string
  rsVersion :: string
  rsStatus :: string

section \<open>Agent configuration (config.go)\<close>

record hostedTarget =
  htProjectEndpoint :: string
  htAgentName :: string
  htAgentVersion :: string

record agentConfig =
  acModel :: string
  acToolSchemaMode :: string
  acHostedTarget :: hostedTarget

definition ToolSchemaModeRequest :: string where
  "ToolSchemaModeRequest = ''request''"

definition ToolSchemaModeProviderStatic :: string where
  "ToolSchemaModeProviderStatic = ''provider-static''"

text \<open>\<open>decode\<close> is the strict typed decoding of the bytes, \<open>safe\<close> is \<^const>\<open>EndpointIsSafe\<close>
  with its parsers; \<open>None\<close> is \<open>ErrAgentConfig\<close>.\<close>

definition DecodeAgentConfig :: "(string \<Rightarrow> string) \<Rightarrow> (string \<Rightarrow> agentConfig option) \<Rightarrow>
    (string \<Rightarrow> bool) \<Rightarrow> string \<Rightarrow> string \<Rightarrow> string \<Rightarrow> agentConfig option" where
  "DecodeAgentConfig sha decode safe data expectedDigest expectedModel =
     (let encoded = ''sha256:'' @ hexEncode (sha data) in
      if length data > MaxAgentConfigBytes \<or> expectedDigest \<noteq> encoded then None else
      case decode data of None \<Rightarrow> None | Some agent \<Rightarrow>
        if \<not> SafeString (acModel agent) 512 \<or> acModel agent \<noteq> expectedModel then None
        else if acToolSchemaMode agent \<noteq> ToolSchemaModeRequest \<and>
                acToolSchemaMode agent \<noteq> ToolSchemaModeProviderStatic then None
        else (let target = acHostedTarget agent in
          if trimSpace (htProjectEndpoint target) \<noteq> htProjectEndpoint target \<or>
             \<not> safe (htProjectEndpoint target) \<or>
             \<not> ValidateAgentName (htAgentName target) \<or> htAgentVersion target = [] \<or>
             equalFold (htAgentVersion target) ''latest'' \<or>
             \<not> ValidateAgentVersion (htAgentVersion target) then None
          else Some agent))"

section \<open>Lemmas\<close>

lemma SafeString_nonempty: "SafeString v n \<Longrightarrow> v \<noteq> [] \<and> length v \<le> n"
  by (auto simp: SafeString_def split: if_splits)

lemma ValidateIdentifier_SafeString:
  "ValidateIdentifier v \<Longrightarrow> v \<noteq> [] \<Longrightarrow> SafeString v MaxIdentifierBytes"
  by (auto simp: ValidateIdentifier_def SafeString_def list_all_iff split: if_splits)

lemma chunks_low:
  assumes "(r, b) \<in> set (chunks s)" "r < 128"
  shows "\<exists>c. b = [c] \<and> byte c = r"
  using assms
proof (induction s rule: chunks.induct)
  case 1
  then show ?case by simp
next
  case (2 c s)
  show ?case
  proof (cases "byte c < 128")
    case True
    obtain r' w' where rw: "decodeRune (map byte (c # s)) = (r', w')" by fastforce
    with True have "r' = byte c" "w' = 1" by (simp_all add: decodeRune_ascii)
    with 2 True rw show ?thesis by (auto simp: chunks_ascii)
  next
    case False
    obtain r' w' where rw: "decodeRune (map byte (c # s)) = (r', w')" by fastforce
    with False have "128 \<le> r'" using decodeRune_high [of "byte c" "map byte s"] by simp
    with 2 rw show ?thesis by (auto simp: chunks.simps(2))
  qed
qed

lemma runes_low_bytes:
  assumes "list_all (\<lambda>r. P r \<and> r < 128) (runes s)"
  shows "list_all (\<lambda>c. P (byte c)) s"
proof -
  have "\<forall>c \<in> set b. P (byte c)" if "(r, b) \<in> set (chunks s)" for r b
  proof -
    from assms that have "P r \<and> r < 128" by (force simp: list_all_iff runes_def)
    with chunks_low [OF that] show ?thesis by auto
  qed
  then have "\<forall>c \<in> set (concat (map snd (chunks s))). P (byte c)" by auto
  then show ?thesis by (simp add: chunks_concat list_all_iff)
qed

lemma DigestValid_iff:
  "DigestValid v \<longleftrightarrow> (\<exists>h. v = ''sha256:'' @ h \<and> length h = 64 \<and> list_all isLowerHex h)"
proof
  assume v: "DigestValid v"
  then obtain h where h: "v = ''sha256:'' @ h" and len: "length v = 71"
    by (auto simp: DigestValid_def hasPrefix_iff split: if_splits)
  with v have "list_all (\<lambda>ch. ((48 \<le> ch \<and> ch \<le> 57) \<or> (97 \<le> ch \<and> ch \<le> 102)) \<and> ch < 128) (runes h)"
    by (auto simp: DigestValid_def list_all_iff split: if_splits)
  then have "list_all (\<lambda>c. (48 \<le> byte c \<and> byte c \<le> 57) \<or> (97 \<le> byte c \<and> byte c \<le> 102)) h"
    by (rule runes_low_bytes)
  then have "list_all isLowerHex h" by (auto simp: list_all_iff isLowerHex_def isDigit_def)
  with h len show "\<exists>h. v = ''sha256:'' @ h \<and> length h = 64 \<and> list_all isLowerHex h" by auto
next
  assume "\<exists>h. v = ''sha256:'' @ h \<and> length h = 64 \<and> list_all isLowerHex h"
  then obtain h where h: "v = ''sha256:'' @ h" "length h = 64" "list_all isLowerHex h" by blast
  then have "runes h = map byte h"
    by (auto simp: list_all_iff intro!: runes_all_ascii isLowerHex_ascii)
  with h show "DigestValid v"
    by (auto simp: DigestValid_def hasPrefix_def list_all_iff isLowerHex_def isDigit_def)
qed

lemma DigestValid_nonempty: "DigestValid v \<Longrightarrow> v \<noteq> []"
  by (auto simp: DigestValid_def)

lemma DigestValid_Digest: "length (sha data) = 32 \<Longrightarrow> DigestValid (Digest sha data)"
  by (auto simp: DigestValid_iff Digest_def hexEncode_lower)

lemma pathEscape_safe:
  "c \<in> set (pathEscape s) \<Longrightarrow> pathSafe c \<or> c = CHR ''%''"
proof -
  have up: "pathSafe (upperHexDigit n)" if "n < 16" for n
    using that by (auto simp: pathSafe_def isAlnum_def isDigit_def upperHexDigit_def)
  have "byte d div 16 < 16" "byte d mod 16 < 16" for d
    using byte_less [of d] by (linarith, simp)
  then show "c \<in> set (pathEscape s) \<Longrightarrow> pathSafe c \<or> c = CHR ''%''"
    using up by (fastforce simp: pathEscape_def split: if_splits)
qed

lemma splitChar_chars: "x \<in> set s \<Longrightarrow> x = c \<or> (\<exists>p \<in> set (splitChar c s). x \<in> set p)"
  by (induction c s rule: splitChar.induct) (auto split: list.splits)

lemma ValidateAgentName_chars:
  assumes "ValidateAgentName name" "x \<in> set name"
  shows "isAlnum x \<or> x = CHR ''-''"
  using assms splitChar_chars [of x name "CHR ''-''"]
  by (fastforce simp: ValidateAgentName_def agentNameRE_def list_all_iff split: if_splits)

lemma pathEscape_id: "(\<And>c. c \<in> set s \<Longrightarrow> pathSafe c) \<Longrightarrow> pathEscape s = s"
  by (induction s) (auto simp: pathEscape_def)

lemma pathEscape_AgentName: "ValidateAgentName name \<Longrightarrow> pathEscape name = name"
  by (rule pathEscape_id) (auto simp: pathSafe_def dest: ValidateAgentName_chars)

end
