(* ===== verification/BrokerProtocol.thy ===== *)
theory BrokerProtocol
  imports FoundryValidate "HOL-Library.Char_ord" "HOL-Library.List_Lexorder"
begin

text \<open>
  \<^verbatim>\<open>src/internal/broker/protocol.go\<close>, \<^verbatim>\<open>src/internal/brokerapi/paths.go\<close> and the ledger
  types of \<^verbatim>\<open>src/internal/broker/store.go\<close>: the request context, the owner and prompt
  identities with their digests, and the durable record. The environment \<^emph>\<open>env\<close> holds what
  the code takes from outside the repository: SHA-256, the RFC 3339 clock text (instants are
  nanoseconds since Go's zero time), the UUID parser and \<open>json.Marshal\<close> of the ledger.
\<close>

section \<open>Errors\<close>

text \<open>\<open>ErrUnsent e\<close> is \<open>errors.Join(errBrokerRequestUnsent, e)\<close>; \<open>ErrPanic\<close> stands for a nil
  dereference, and is shown unreachable.\<close>

datatype brokerError = ErrInvalid | ErrConflict | ErrClosed | ErrPending | ErrStorage | ErrRemote
  | ErrAmbiguous | ErrCapacity | ErrUnsent brokerError | ErrPanic

text \<open>\<open>errors.Is(err, target)\<close> for the sentinels above.\<close>

fun errIs :: "brokerError \<Rightarrow> brokerError \<Rightarrow> bool" where
  "errIs (ErrUnsent e) t = errIs e t"
| "errIs e t = (e = t)"

fun errIsUnsent :: "brokerError \<Rightarrow> bool" where
  "errIsUnsent (ErrUnsent e) = True"
| "errIsUnsent e = False"

section \<open>Routes (paths.go)\<close>

definition ResponsesPath :: string where "ResponsesPath = ''/v1/responses''"
definition RenewPath :: string where "RenewPath = ''/internal/v1/renew''"
definition SettlePath :: string where "SettlePath = ''/internal/v1/settle''"
definition RetirePath :: string where "RetirePath = ''/internal/v1/retire''"
definition StatusPath :: string where "StatusPath = ''/internal/v1/status''"

lemma path_distinct [simp]:
  "ResponsesPath \<noteq> RenewPath" "ResponsesPath \<noteq> SettlePath" "ResponsesPath \<noteq> RetirePath"
  "ResponsesPath \<noteq> StatusPath" "RenewPath \<noteq> SettlePath" "RenewPath \<noteq> RetirePath"
  "RenewPath \<noteq> StatusPath" "SettlePath \<noteq> RetirePath" "SettlePath \<noteq> StatusPath"
  "RetirePath \<noteq> StatusPath"
  "RenewPath \<noteq> ResponsesPath" "SettlePath \<noteq> ResponsesPath" "RetirePath \<noteq> ResponsesPath"
  "StatusPath \<noteq> ResponsesPath" "SettlePath \<noteq> RenewPath" "RetirePath \<noteq> RenewPath"
  "StatusPath \<noteq> RenewPath" "RetirePath \<noteq> SettlePath" "StatusPath \<noteq> SettlePath"
  "StatusPath \<noteq> RetirePath"
  by (simp_all add: ResponsesPath_def RenewPath_def SettlePath_def RetirePath_def StatusPath_def)

section \<open>Identities (protocol.go)\<close>

record brokerOwner =
  boRuntimeInstanceID :: string
  boSupervisorBootID :: string
  boControllerEpoch :: "64 word"
  boRuntimePoolUID :: string
  boRuntimePoolGeneration :: "64 word"
  boRuntimeSessionUID :: string
  boRuntimeSessionGeneration :: "64 word"
  boRuntimeProfileDigest :: string
  boProfileDigestSchemaVersion :: "32 word"

record brokerContext =
  bcProtocol :: string
  bcOwner :: brokerOwner
  bcAgentConfigurationDigest :: string
  bcTaskUID :: string
  bcTaskAttempt :: "32 word"
  bcPromptID :: string
  bcPromptRequestDigest :: string
  bcLeaseGeneration :: "64 word"
  bcLeaseExpiresAt :: string
  bcOperationID :: string
  bcInvocationSequence :: "64 word"
  bcBodySHA256 :: string

record brokerControlResponse =
  crProtocol :: string
  crOwnerDigest :: string
  crOperationID :: string
  crContextSHA256 :: string
  crState :: string
  crSettlementProven :: bool
  crRetirementProven :: bool
  crActiveInvocations :: nat
  crAmbiguousInvocations :: nat
  crCreatePending :: bool
  crRemoteSessionCreated :: bool
  crLeaseGeneration :: "64 word"
  crLeaseExpiresAt :: string
  crProofDigest :: string

definition brokerProtocol :: string where
  "brokerProtocol = ''orka.foundry.broker.v1''"

definition brokerMaxContext :: nat where
  "brokerMaxContext = 16384"

section \<open>The durable record (store.go)\<close>

datatype createState = CreateNone | CreateIntent | CreateKnown | CreateDeleted | CreateOther string

datatype invState = InvReserved | InvIntent | InvRejected | InvUncertain | InvAccepted
  | InvCompleted | InvSettled | InvOther string

record brokerInvocation =
  biSequence :: "64 word"
  biOperationID :: string
  biBodyDigest :: string
  biState :: invState
  biResponseID :: string
  biResponseAlias :: string

record brokerResponseID =
  brRemoteID :: string
  brPromptKey :: string
  brCompleted :: bool
  brHasFunctions :: bool
  brCallIDs :: "(string, string) fmap"

record brokerPrompt =
  bpIdentity :: brokerContext
  bpLeaseGeneration :: "64 word"
  bpLeaseExpiresAt :: int
  bpClosing :: bool
  bpSettled :: bool
  bpProofDigest :: string
  bpLastSequence :: "64 word"
  bpLastAlias :: string
  bpInvocations :: "(64 word, brokerInvocation) fmap"

record brokerSession =
  bsOwner :: brokerOwner
  bsRemoteID :: string
  bsCreateState :: createState
  bsRetiring :: bool
  bsRetired :: bool
  bsProofDigest :: string
  bsCurrentPrompt :: string
  bsPrompts :: "(string, brokerPrompt) fmap"
  bsResponses :: "(string, brokerResponseID) fmap"
  bsOperations :: "(string, string) fmap"

record brokerLedger =
  blVersion :: "32 word"
  blConfigDigest :: string
  blPrincipalDigest :: string
  blSessions :: "(string, brokerSession) fmap"

text \<open>\<open>parseTime\<close> is \<open>time.Parse(time.RFC3339Nano, s)\<close>, \<open>formatTime\<close> its inverse in UTC,
  \<open>uuidCanonical s\<close> says that \<open>uuid.Parse\<close> accepts \<open>s\<close> and prints it back unchanged.\<close>

record env =
  sha :: "string \<Rightarrow> string"
  parseTime :: "string \<Rightarrow> int option"
  formatTime :: "int \<Rightarrow> string"
  uuidCanonical :: "string \<Rightarrow> bool"
  marshalLedger :: "brokerLedger \<Rightarrow> string"

section \<open>Digests of identities\<close>

definition ownerJSON :: "brokerOwner \<Rightarrow> string" where
  "ownerJSON o' = jsonObject
     [(''runtimeInstanceID'', Some (jsonString (boRuntimeInstanceID o'))),
      (''supervisorBootID'', Some (jsonString (boSupervisorBootID o'))),
      (''controllerEpoch'', Some (formatUint (unat (boControllerEpoch o')))),
      (''runtimePoolUID'', Some (jsonString (boRuntimePoolUID o'))),
      (''runtimePoolGeneration'', Some (formatUint (unat (boRuntimePoolGeneration o')))),
      (''runtimeSessionUID'', omitEmptyString (boRuntimeSessionUID o')),
      (''runtimeSessionGeneration'', omitZero (unat (boRuntimeSessionGeneration o'))),
      (''runtimeProfileDigest'', Some (jsonString (boRuntimeProfileDigest o'))),
      (''profileDigestSchemaVersion'', Some (formatUint (unat (boProfileDigestSchemaVersion o'))))]"

definition contextJSON :: "brokerContext \<Rightarrow> string" where
  "contextJSON c = jsonObject
     [(''protocol'', Some (jsonString (bcProtocol c))),
      (''owner'', Some (ownerJSON (bcOwner c))),
      (''agentConfigurationDigest'', Some (jsonString (bcAgentConfigurationDigest c))),
      (''taskUID'', omitEmptyString (bcTaskUID c)),
      (''taskAttempt'', omitZero (unat (bcTaskAttempt c))),
      (''promptID'', omitEmptyString (bcPromptID c)),
      (''promptRequestDigest'', omitEmptyString (bcPromptRequestDigest c)),
      (''leaseGeneration'', omitZero (unat (bcLeaseGeneration c))),
      (''leaseExpiresAt'', omitEmptyString (bcLeaseExpiresAt c)),
      (''operationID'', Some (jsonString (bcOperationID c))),
      (''invocationSequence'', omitZero (unat (bcInvocationSequence c))),
      (''bodySHA256'', Some (jsonString (bcBodySHA256 c)))]"

definition ownerKey :: "env \<Rightarrow> brokerOwner \<Rightarrow> string" where
  "ownerKey E o' = Digest (sha E) (ownerJSON o')"

definition promptKey :: "env \<Rightarrow> brokerContext \<Rightarrow> string" where
  "promptKey E c = Digest (sha E) (jsonObject
     [(''taskUID'', Some (jsonString (bcTaskUID c))),
      (''taskAttempt'', Some (formatUint (unat (bcTaskAttempt c)))),
      (''promptID'', Some (jsonString (bcPromptID c))),
      (''promptRequestDigest'', Some (jsonString (bcPromptRequestDigest c)))])"

definition brokerOperationDigest :: "env \<Rightarrow> string \<Rightarrow> brokerContext \<Rightarrow> string" where
  "brokerOperationDigest E path c = Digest (sha E) (jsonObject
     [(''path'', Some (jsonString path)), (''context'', Some (contextJSON c))])"

definition ownerValid :: "brokerOwner \<Rightarrow> bool" where
  "ownerValid o' \<longleftrightarrow> SafeString (boRuntimeInstanceID o') 512 \<and> SafeString (boSupervisorBootID o') 512 \<and>
     boControllerEpoch o' > 0 \<and> SafeString (boRuntimePoolUID o') 512 \<and> boRuntimePoolGeneration o' > 0 \<and>
     SafeString (boRuntimeSessionUID o') 512 \<and> boRuntimeSessionGeneration o' > 0 \<and>
     DigestValid (boRuntimeProfileDigest o') \<and> boProfileDigestSchemaVersion o' = 1"

section \<open>The request context (protocol.go)\<close>

definition fiveMinutes :: int where
  "fiveMinutes = 300000000000"

text \<open>\<open>decode\<close> is \<open>strictjson.Decode(raw, &c, true)\<close>; \<open>values\<close> are the context headers. The
  second result is the digest of the raw context.\<close>

definition brokerParseContext :: "env \<Rightarrow> (string \<Rightarrow> brokerContext option) \<Rightarrow> string list \<Rightarrow> string \<Rightarrow>
    string \<Rightarrow> string \<Rightarrow> int \<Rightarrow> brokerError + brokerContext \<times> string" where
  "brokerParseContext E decode values path body configDigest now = (case values of
     [value] \<Rightarrow>
       if value = [] \<or> length value > brokerMaxContext then Inl ErrInvalid else
       (case b64Decode value of None \<Rightarrow> Inl ErrInvalid | Some raw \<Rightarrow>
        if b64Encode raw \<noteq> value then Inl ErrInvalid else
        (case decode raw of None \<Rightarrow> Inl ErrInvalid | Some c \<Rightarrow>
         if bcProtocol c \<noteq> brokerProtocol \<or> \<not> ownerValid (bcOwner c) \<or>
            bcAgentConfigurationDigest c \<noteq> configDigest \<or> \<not> DigestValid configDigest \<or>
            \<not> SafeString (bcOperationID c) 512 \<or> bcBodySHA256 c \<noteq> Digest (sha E) body
         then Inl ErrInvalid else
         bindR
          (if path \<noteq> RetirePath \<and> path \<noteq> StatusPath then
             (case parseTime E (bcLeaseExpiresAt c) of None \<Rightarrow> Inl ErrInvalid | Some expiry \<Rightarrow>
               if \<not> SafeString (bcTaskUID c) 512 \<or> bcTaskAttempt c = 0 \<or>
                  \<not> SafeString (bcPromptID c) 512 \<or> \<not> DigestValid (bcPromptRequestDigest c) \<or>
                  bcLeaseGeneration c = 0
               then Inl ErrInvalid
               else if (path = ResponsesPath \<or> path = RenewPath) \<and>
                  (\<not> expiry > now \<or> expiry > now + fiveMinutes)
               then Inl ErrClosed else Inr ())
           else if bcTaskUID c \<noteq> [] \<or> bcTaskAttempt c \<noteq> 0 \<or> bcPromptID c \<noteq> [] \<or>
                   bcPromptRequestDigest c \<noteq> [] \<or> bcLeaseGeneration c \<noteq> 0 \<or> bcLeaseExpiresAt c \<noteq> []
           then Inl ErrInvalid else Inr ())
          (\<lambda>_. if (path = ResponsesPath) \<noteq> (bcInvocationSequence c > 0) then Inl ErrInvalid
               else Inr (c, Digest (sha E) raw))))
   | _ \<Rightarrow> Inl ErrInvalid)"

text \<open>What a request context that passed the parser satisfies: the preconditions of every
  ledger operation.\<close>

definition contextOk :: "env \<Rightarrow> string \<Rightarrow> string \<Rightarrow> brokerContext \<Rightarrow> bool" where
  "contextOk E configDigest path c \<longleftrightarrow>
     bcProtocol c = brokerProtocol \<and> ownerValid (bcOwner c) \<and> bcAgentConfigurationDigest c = configDigest \<and>
     DigestValid configDigest \<and> SafeString (bcOperationID c) 512 \<and> DigestValid (bcBodySHA256 c) \<and>
     (path \<noteq> RetirePath \<and> path \<noteq> StatusPath \<longrightarrow>
        parseTime E (bcLeaseExpiresAt c) \<noteq> None \<and> SafeString (bcTaskUID c) 512 \<and> bcTaskAttempt c \<noteq> 0 \<and>
        SafeString (bcPromptID c) 512 \<and> DigestValid (bcPromptRequestDigest c) \<and> bcLeaseGeneration c \<noteq> 0) \<and>
     (path = ResponsesPath \<longrightarrow> bcInvocationSequence c > 0)"

lemma brokerParseContext_ok:
  assumes "brokerParseContext E decode values path body configDigest now = Inr (c, d)"
    and "length (sha E body) = 32"
  shows "contextOk E configDigest path c"
proof -
  from assms obtain hv raw where "values = [hv]" "b64Decode hv = Some raw" "decode raw = Some c"
    by (auto simp: brokerParseContext_def bindR_Inr split: list.splits option.splits if_splits)
  with assms show ?thesis
    by (auto simp: brokerParseContext_def contextOk_def bindR_Inr DigestValid_Digest
        split: option.splits if_splits)
qed

lemma brokerParseContext_window:
  assumes "brokerParseContext E decode values path body configDigest now = Inr (c, d)"
    and "path = ResponsesPath \<or> path = RenewPath"
  shows "\<exists>expiry. parseTime E (bcLeaseExpiresAt c) = Some expiry \<and> now < expiry \<and> expiry \<le> now + fiveMinutes"
  using assms
  by (auto simp: brokerParseContext_def bindR_Inr split: list.splits option.splits if_splits)

end
