(* ===== verification/BrokerLedger.thy ===== *)
theory BrokerLedger
  imports BrokerProtocol
begin

text \<open>
  \<^verbatim>\<open>src/internal/broker/store.go\<close> and \<^verbatim>\<open>src/internal/broker/store_validation.go\<close>: the size
  limits of the ledger, its crash-safe replacement on disk, opening it, and the validation a
  restart applies to it. The validation threads the set of linked response aliases through
  two nested loops; the second half shows it equivalent to a coherence predicate without
  loops (\<open>sessionCoherent\<close>), which the preservation proofs use. Go's nil maps and nil
  entries have no counterpart here: the decoder argument of \<open>openBrokerStore\<close> gives \<open>None\<close>
  for a document that decodes to one, and both sides refuse it.
\<close>

section \<open>Limits (store.go, broker.go)\<close>

definition brokerMaxLedgerBytes :: nat where "brokerMaxLedgerBytes = 33554432"
definition brokerOwnerReserveBytes :: nat where "brokerOwnerReserveBytes = 65536"
definition brokerPrincipalReserveBytes :: nat where "brokerPrincipalReserveBytes = 128"
definition brokerOperationLimit :: nat where "brokerOperationLimit = 16384"
definition brokerSettlementOperationLimit :: nat where
  "brokerSettlementOperationLimit = brokerOperationLimit + 1"
definition brokerRetirementOperationLimit :: nat where
  "brokerRetirementOperationLimit = brokerSettlementOperationLimit + 1"

definition brokerLedgerReserveBytes :: "brokerLedger \<Rightarrow> nat" where
  "brokerLedgerReserveBytes ledger =
     (if blPrincipalDigest ledger = [] then brokerPrincipalReserveBytes else 0) +
     brokerOwnerReserveBytes * fmcount (\<lambda>_ session. \<not> bsRetired session) (blSessions ledger)"

section \<open>Replacing the ledger on disk (store.go)\<close>

text \<open>
  Each field is the success of one system call of \<open>saveBytes\<close>. The disk holds the bytes of
  \<open>state.json\<close>; only a completed rename changes them, and a failure after the rename is still
  reported as an error.
\<close>

record saveIO =
  ioCreate :: bool
  ioCopy :: bool
  ioSync :: bool
  ioClose :: bool
  ioRename :: bool
  ioDirOpen :: bool
  ioDirSync :: bool
  ioDirClose :: bool

type_synonym disk = "string option"

definition saveBytes :: "saveIO \<Rightarrow> string \<Rightarrow> disk \<Rightarrow> brokerError option \<times> disk" where
  "saveBytes io data d =
     (if length data > brokerMaxLedgerBytes then (Some ErrCapacity, d)
      else if \<not> ioCreate io then (Some ErrStorage, d)
      else if \<not> (ioCopy io \<and> ioSync io) \<or> \<not> ioClose io \<or> \<not> ioRename io then (Some ErrStorage, d)
      else if \<not> ioDirOpen io then (Some ErrStorage, Some data)
      else if \<not> ioDirSync io \<or> \<not> ioDirClose io then (Some ErrStorage, Some data)
      else (None, Some data))"

definition allIO :: saveIO where
  "allIO = \<lparr>ioCreate = True, ioCopy = True, ioSync = True, ioClose = True, ioRename = True,
     ioDirOpen = True, ioDirSync = True, ioDirClose = True\<rparr>"

section \<open>Validation of a stored ledger (store\_validation.go)\<close>

definition brokerAliasValid :: "env \<Rightarrow> string \<Rightarrow> string \<Rightarrow> bool" where
  "brokerAliasValid E v pre = (if \<not> hasPrefix v pre then False
     else uuidCanonical E (trimPrefix v pre) \<and> pre @ trimPrefix v pre = v)"

definition invocationStateOk :: "brokerPrompt \<Rightarrow> brokerInvocation \<Rightarrow> bool" where
  "invocationStateOk prompt iv = (case biState iv of
       InvOther _ \<Rightarrow> False
     | InvSettled \<Rightarrow> bpSettled prompt
     | InvAccepted \<Rightarrow> \<not> (biResponseID iv = [] \<or> bpSettled prompt)
     | InvCompleted \<Rightarrow> \<not> (biResponseID iv = [])
     | _ \<Rightarrow> \<not> (biResponseID iv \<noteq> [] \<or> biResponseAlias iv \<noteq> [] \<or> bpSettled prompt))"

text \<open>The result is the extended \<open>linked\<close> set, \<open>None\<close> for a rejection.\<close>

definition brokerInvocationValid :: "env \<Rightarrow> brokerInvocation \<Rightarrow> 64 word \<Rightarrow> string \<Rightarrow> brokerPrompt \<Rightarrow>
    brokerSession \<Rightarrow> string list \<Rightarrow> string list option" where
  "brokerInvocationValid E iv seq pkey prompt session linked =
     (if biSequence iv \<noteq> seq \<or> seq = 0 \<or> \<not> DigestValid (biBodyDigest iv) \<or>
         \<not> SafeString (biOperationID iv) 512 \<or>
         lookupString (bsOperations session) (biOperationID iv) = [] then None
      else if \<not> invocationStateOk prompt iv then None
      else if biResponseID iv = [] then (if biResponseAlias iv = [] then Some linked else None)
      else (case fmlookup (bsResponses session) (biResponseAlias iv) of None \<Rightarrow> None | Some link \<Rightarrow>
        if biResponseAlias iv \<in> set linked \<or> \<not> brokerAliasValid E (biResponseAlias iv) ''fr_'' \<or>
           \<not> ValidateIdentifier (brRemoteID link) \<or> brRemoteID link \<noteq> biResponseID iv \<or>
           brPromptKey link \<noteq> pkey \<or> brCompleted link \<noteq> (biState iv = InvCompleted) \<or>
           brHasFunctions link \<noteq> (0 < fmcard (brCallIDs link)) \<or>
           (\<not> brCompleted link \<and> fmcard (brCallIDs link) \<noteq> 0) then None
        else if \<not> fmpred (\<lambda>al remote. brokerAliasValid E al ''fc_'' \<and> ValidateIdentifier remote) (brCallIDs link)
        then None
        else Some (biResponseAlias iv # linked)))"

text \<open>The loop over the invocations: linked aliases, last sequence, last completed sequence
  and its alias.\<close>

fun invocationLoop :: "env \<Rightarrow> string \<Rightarrow> brokerPrompt \<Rightarrow> brokerSession \<Rightarrow> (64 word \<times> brokerInvocation) list \<Rightarrow>
    string list \<times> 64 word \<times> 64 word \<times> string \<Rightarrow> (string list \<times> 64 word \<times> 64 word \<times> string) option" where
  "invocationLoop E pkey prompt session [] st = Some st"
| "invocationLoop E pkey prompt session ((seq, iv) # rest) (linked, lastSeq, lastCompleted, lastAlias) =
     (case brokerInvocationValid E iv seq pkey prompt session linked of None \<Rightarrow> None | Some linked' \<Rightarrow>
        invocationLoop E pkey prompt session rest
          (linked', if seq > lastSeq then seq else lastSeq,
           if biState iv = InvCompleted \<and> seq > lastCompleted then seq else lastCompleted,
           if biState iv = InvCompleted \<and> seq > lastCompleted then biResponseAlias iv else lastAlias))"

definition promptHeaderOk :: "env \<Rightarrow> brokerPrompt \<Rightarrow> string \<Rightarrow> string \<Rightarrow> brokerSession \<Rightarrow> bool" where
  "promptHeaderOk E prompt key digest session = (let ident = bpIdentity prompt in
     if promptKey E ident \<noteq> key \<or> bcOwner ident \<noteq> bsOwner session \<or>
        bcProtocol ident \<noteq> brokerProtocol \<or> bcAgentConfigurationDigest ident \<noteq> digest \<or>
        \<not> SafeString (bcTaskUID ident) 512 \<or> bcTaskAttempt ident = 0 \<or>
        \<not> SafeString (bcPromptID ident) 512 \<or> \<not> DigestValid (bcPromptRequestDigest ident) \<or>
        \<not> DigestValid (bcBodySHA256 ident) \<or>
        lookupString (bsOperations session) (bcOperationID ident) = [] \<or>
        bcLeaseGeneration ident = 0 \<or> bpLeaseGeneration prompt < bcLeaseGeneration ident then False
     else (case parseTime E (bcLeaseExpiresAt ident) of None \<Rightarrow> False | Some expiry \<Rightarrow>
       if bpLeaseExpiresAt prompt < expiry \<or> bpLeaseExpiresAt prompt = 0 then False
       else if bpSettled prompt \<and> (\<not> bpClosing prompt \<or> \<not> DigestValid (bpProofDigest prompt)) then False
       else if \<not> bpSettled prompt \<and>
         (bpProofDigest prompt \<noteq> [] \<or> bsRetired session \<or> key \<noteq> bsCurrentPrompt session) then False
       else \<not> (bsRetiring session \<and> \<not> bpClosing prompt)))"

definition brokerPromptValid :: "env \<Rightarrow> brokerPrompt \<Rightarrow> string \<Rightarrow> string \<Rightarrow> brokerSession \<Rightarrow>
    string list \<Rightarrow> string list option" where
  "brokerPromptValid E prompt key digest session linked =
     (if \<not> promptHeaderOk E prompt key digest session then None else
      case invocationLoop E key prompt session (sorted_list_of_fmap (bpInvocations prompt)) (linked, 0, 0, []) of
        None \<Rightarrow> None
      | Some (linked', lastSeq, lastCompleted, lastAlias) \<Rightarrow>
          if bpLastSequence prompt = lastSeq \<and> bpLastAlias prompt = lastAlias then Some linked' else None)"

fun promptLoop :: "env \<Rightarrow> string \<Rightarrow> brokerSession \<Rightarrow> (string \<times> brokerPrompt) list \<Rightarrow> string list \<Rightarrow>
    string list option" where
  "promptLoop E digest session [] linked = Some linked"
| "promptLoop E digest session ((key, prompt) # rest) linked =
     (case brokerPromptValid E prompt key digest session linked of None \<Rightarrow> None
      | Some linked' \<Rightarrow> promptLoop E digest session rest linked')"

definition sessionHeaderOk :: "env \<Rightarrow> brokerSession \<Rightarrow> string \<Rightarrow> bool" where
  "sessionHeaderOk E session key =
     (if \<not> ownerValid (bsOwner session) \<or> key \<noteq> ownerKey E (bsOwner session) \<or>
         fmcard (bsPrompts session) > 4096 \<or>
         fmcard (bsOperations session) > brokerRetirementOperationLimit then False
      else if \<not> (case bsCreateState session of
           CreateNone \<Rightarrow> \<not> (bsRemoteID session \<noteq> [] \<or> fmcard (bsResponses session) \<noteq> 0)
         | CreateOther _ \<Rightarrow> False
         | _ \<Rightarrow> uuidCanonical E (bsRemoteID session)) then False
      else if bsRetired session \<and> (\<not> bsRetiring session \<or>
           (bsCreateState session \<noteq> CreateNone \<and> bsCreateState session \<noteq> CreateDeleted) \<or>
           \<not> DigestValid (bsProofDigest session)) then False
      else if \<not> bsRetired session \<and> (bsCreateState session = CreateDeleted \<or> bsProofDigest session \<noteq> [])
      then False
      else if (fmcard (bsPrompts session) = 0) \<noteq> (bsCurrentPrompt session = []) \<or>
           (bsCurrentPrompt session \<noteq> [] \<and> fmlookup (bsPrompts session) (bsCurrentPrompt session) = None)
      then False
      else fmpred (\<lambda>opid operation. SafeString opid 512 \<and> DigestValid operation) (bsOperations session))"

definition brokerSessionValid :: "env \<Rightarrow> brokerSession \<Rightarrow> string \<Rightarrow> string \<Rightarrow> bool" where
  "brokerSessionValid E session key digest =
     (if \<not> sessionHeaderOk E session key then False
      else (case promptLoop E digest session (sorted_list_of_fmap (bsPrompts session)) [] of
          None \<Rightarrow> False
        | Some linked \<Rightarrow> length linked = fmcard (bsResponses session)))"

definition brokerLedgerValid :: "env \<Rightarrow> brokerLedger \<Rightarrow> string \<Rightarrow> bool" where
  "brokerLedgerValid E ledger digest =
     (if blVersion ledger \<noteq> 1 \<or> blConfigDigest ledger \<noteq> digest \<or> fmcard (blSessions ledger) > 4096 \<or>
         (blPrincipalDigest ledger \<noteq> [] \<and> \<not> DigestValid (blPrincipalDigest ledger)) then False
      else fmpred (\<lambda>key session. brokerSessionValid E session key digest \<and>
         \<not> (bsRemoteID session \<noteq> [] \<and> blPrincipalDigest ledger = [])) (blSessions ledger))"

section \<open>Opening the ledger (store.go)\<close>

datatype lstat = NotExist | StatError | Present bool nat  \<comment> \<open>private file, size\<close>

definition emptyLedger :: "string \<Rightarrow> brokerLedger" where
  "emptyLedger digest = \<lparr>blVersion = 1, blConfigDigest = digest, blPrincipalDigest = [], blSessions = fmempty\<rparr>"

text \<open>
  \<open>dirOk\<close>: the directory is absolute and not the root. \<open>lock\<close>: the result of
  \<open>durablestore.OpenLock\<close>, with the created flag. \<open>decode\<close>: the strict decoding of the file.
\<close>

definition openBrokerStore :: "env \<Rightarrow> (string \<Rightarrow> brokerLedger option) \<Rightarrow> bool \<Rightarrow> string \<Rightarrow> bool option \<Rightarrow>
    lstat \<Rightarrow> string option \<Rightarrow> saveIO \<Rightarrow> disk \<Rightarrow> (brokerError + brokerLedger) \<times> disk" where
  "openBrokerStore E decode dirOk digest lock info read io d =
     (if \<not> dirOk \<or> \<not> DigestValid digest then (Inl ErrStorage, d) else
      case lock of None \<Rightarrow> (Inl ErrStorage, d) | Some created \<Rightarrow>
      (case info of
         NotExist \<Rightarrow>
           if \<not> created then (Inl ErrStorage, d)
           else (case saveBytes io (marshalLedger E (emptyLedger digest)) d of
               (Some e, d') \<Rightarrow> (Inl e, d')
             | (None, d') \<Rightarrow> (Inr (emptyLedger digest), d'))
       | StatError \<Rightarrow> (Inl ErrStorage, d)
       | Present privateFile fileSize \<Rightarrow>
           if \<not> privateFile \<or> fileSize > brokerMaxLedgerBytes then (Inl ErrStorage, d) else
           (case read of None \<Rightarrow> (Inl ErrStorage, d) | Some data \<Rightarrow>
             (case decode data of None \<Rightarrow> (Inl ErrStorage, d) | Some ledger \<Rightarrow>
               if brokerLedgerValid E ledger digest then (Inr ledger, d) else (Inl ErrStorage, d)))))"

section \<open>Coherence without loops\<close>

text \<open>The check of one invocation, apart from the \<open>linked\<close> set.\<close>

definition invocationOk :: "env \<Rightarrow> brokerInvocation \<Rightarrow> 64 word \<Rightarrow> string \<Rightarrow> brokerPrompt \<Rightarrow>
    brokerSession \<Rightarrow> bool" where
  "invocationOk E iv seq pkey prompt session \<longleftrightarrow>
     biSequence iv = seq \<and> seq \<noteq> 0 \<and> DigestValid (biBodyDigest iv) \<and> SafeString (biOperationID iv) 512 \<and>
     lookupString (bsOperations session) (biOperationID iv) \<noteq> [] \<and> invocationStateOk prompt iv \<and>
     (if biResponseID iv = [] then biResponseAlias iv = [] else
       (\<exists>link. fmlookup (bsResponses session) (biResponseAlias iv) = Some link \<and>
         brokerAliasValid E (biResponseAlias iv) ''fr_'' \<and> ValidateIdentifier (brRemoteID link) \<and>
         brRemoteID link = biResponseID iv \<and> brPromptKey link = pkey \<and>
         brCompleted link = (biState iv = InvCompleted) \<and>
         brHasFunctions link = (0 < fmcard (brCallIDs link)) \<and>
         (\<not> brCompleted link \<longrightarrow> fmcard (brCallIDs link) = 0) \<and>
         fmpred (\<lambda>al remote. brokerAliasValid E al ''fc_'' \<and> ValidateIdentifier remote) (brCallIDs link)))"

definition linkOf :: "brokerInvocation \<Rightarrow> string option" where
  "linkOf iv = (if biResponseID iv = [] then None else Some (biResponseAlias iv))"

lemma if_None_eq: "(if b then None else x) = Some y \<longleftrightarrow> \<not> b \<and> x = Some y"
  by simp

lemma brokerInvocationValid_iff:
  "brokerInvocationValid E iv seq pkey prompt session linked = Some linked' \<longleftrightarrow>
     invocationOk E iv seq pkey prompt session \<and>
     (case linkOf iv of None \<Rightarrow> linked' = linked | Some a \<Rightarrow> a \<notin> set linked \<and> linked' = a # linked)"
proof (cases "biResponseID iv = []")
  case True
  then show ?thesis
    by (simp only: brokerInvocationValid_def invocationOk_def linkOf_def simp_thms if_True if_False
        if_None_eq option.case option.inject) auto
next
  case False
  show ?thesis
  proof (cases "fmlookup (bsResponses session) (biResponseAlias iv)")
    case None
    with False show ?thesis
      by (simp add: brokerInvocationValid_def invocationOk_def linkOf_def)
  next
    case (Some link)
    from False show ?thesis
      by (simp only: brokerInvocationValid_def invocationOk_def linkOf_def Some simp_thms if_True if_False
          if_None_eq option.case option.inject) auto
  qed
qed

fun links :: "(64 word \<times> brokerInvocation) list \<Rightarrow> string list" where
  "links [] = []"
| "links ((seq, iv) # rest) = (case linkOf iv of None \<Rightarrow> links rest | Some a \<Rightarrow> a # links rest)"

lemma set_links: "a \<in> set (links ivs) \<longleftrightarrow> (\<exists>(seq, iv) \<in> set ivs. linkOf iv = Some a)"
  by (induction ivs rule: links.induct) (auto split: option.splits)

text \<open>The last sequence and the last completed one over a list of invocations.\<close>

definition lastSequenceIs :: "(64 word \<times> brokerInvocation) list \<Rightarrow> 64 word \<Rightarrow> bool" where
  "lastSequenceIs ivs n \<longleftrightarrow> (\<forall>(seq, iv) \<in> set ivs. seq \<le> n) \<and> (n \<noteq> 0 \<longrightarrow> n \<in> fst ` set ivs)"

fun lastSeqFrom :: "(64 word \<times> brokerInvocation) list \<Rightarrow> 64 word \<Rightarrow> 64 word" where
  "lastSeqFrom [] n = n"
| "lastSeqFrom ((seq, iv) # rest) n = lastSeqFrom rest (if seq > n then seq else n)"

fun lastCompletedFrom :: "(64 word \<times> brokerInvocation) list \<Rightarrow> 64 word \<times> string \<Rightarrow> 64 word \<times> string" where
  "lastCompletedFrom [] st = st"
| "lastCompletedFrom ((seq, iv) # rest) (n, al) = lastCompletedFrom rest
     (if biState iv = InvCompleted \<and> seq > n then (seq, biResponseAlias iv) else (n, al))"

lemma invocationLoop_iff:
  "invocationLoop E pkey prompt session ivs (linked, n, m, al) = Some (linked', n', m', al') \<longleftrightarrow>
     (\<forall>(seq, iv) \<in> set ivs. invocationOk E iv seq pkey prompt session) \<and>
     distinct (links ivs) \<and> set (links ivs) \<inter> set linked = {} \<and> linked' = rev (links ivs) @ linked \<and>
     n' = lastSeqFrom ivs n \<and> (m', al') = lastCompletedFrom ivs (m, al)"
proof (induction ivs arbitrary: linked n m al)
  case Nil
  then show ?case by auto
next
  case (Cons x ivs)
  obtain seq iv where x: "x = (seq, iv)" by (cases x)
  show ?case
  proof (cases "brokerInvocationValid E iv seq pkey prompt session linked")
    case None
    then have "\<not> invocationOk E iv seq pkey prompt session \<or> (\<exists>a. linkOf iv = Some a \<and> a \<in> set linked)"
      using brokerInvocationValid_iff [of E iv seq pkey prompt session linked]
      by (cases "linkOf iv") auto
    with None show ?thesis by (auto simp: x)
  next
    case (Some linked1)
    with brokerInvocationValid_iff [of E iv seq pkey prompt session linked linked1]
    have ok: "invocationOk E iv seq pkey prompt session"
      and l: "case linkOf iv of None \<Rightarrow> linked1 = linked | Some a \<Rightarrow> a \<notin> set linked \<and> linked1 = a # linked"
      by auto
    show ?thesis using Cons.IH Some ok l by (auto simp: x split: option.splits)
  qed
qed

lemma lastSeqFrom_max:
  "n \<le> lastSeqFrom ivs n \<and> (\<forall>(seq, iv) \<in> set ivs. seq \<le> lastSeqFrom ivs n) \<and>
   (lastSeqFrom ivs n = n \<or> lastSeqFrom ivs n \<in> fst ` set ivs)"
proof (induction ivs arbitrary: n)
  case Nil
  then show ?case by simp
next
  case (Cons x ivs)
  obtain seq iv where x: "x = (seq, iv)" by (cases x)
  show ?case using Cons.IH [of "if seq > n then seq else n"]
    by (auto simp: x split: if_splits intro: order.trans less_imp_le)
qed

lemma lastSeqFrom_unique:
  assumes "\<forall>(seq, iv) \<in> set ivs. seq \<noteq> 0"
  shows "lastSeqFrom ivs 0 = n \<longleftrightarrow> lastSequenceIs ivs n"
proof
  show "lastSeqFrom ivs 0 = n \<Longrightarrow> lastSequenceIs ivs n"
    using lastSeqFrom_max [of 0 ivs] by (auto simp: lastSequenceIs_def)
next
  assume n: "lastSequenceIs ivs n"
  let ?m = "lastSeqFrom ivs 0"
  have m: "\<forall>(seq, iv) \<in> set ivs. seq \<le> ?m" "?m = 0 \<or> ?m \<in> fst ` set ivs"
    using lastSeqFrom_max [of 0 ivs] by auto
  have "?m \<le> n"
  proof (cases "?m = 0")
    case True
    then show ?thesis by simp
  next
    case False
    with m n show ?thesis by (fastforce simp: lastSequenceIs_def)
  qed
  moreover have "n \<le> ?m"
  proof (cases "n = 0")
    case True
    then show ?thesis by simp
  next
    case False
    with n m show ?thesis by (fastforce simp: lastSequenceIs_def)
  qed
  ultimately show "?m = n" by simp
qed

text \<open>The alias of the completed invocation with the greatest sequence, empty without one.\<close>

definition lastAliasIs :: "(64 word \<times> brokerInvocation) list \<Rightarrow> string \<Rightarrow> bool" where
  "lastAliasIs ivs al \<longleftrightarrow>
     ((\<forall>(seq, iv) \<in> set ivs. biState iv \<noteq> InvCompleted) \<and> al = []) \<or>
     (\<exists>(seq, iv) \<in> set ivs. biState iv = InvCompleted \<and> biResponseAlias iv = al \<and>
        (\<forall>(seq', iv') \<in> set ivs. biState iv' = InvCompleted \<longrightarrow> seq' \<le> seq))"

lemma lastCompletedFrom_max:
  assumes "lastCompletedFrom ivs (m, al) = (m', al')"
  shows "m \<le> m' \<and> (\<forall>(seq, iv) \<in> set ivs. biState iv = InvCompleted \<longrightarrow> seq \<le> m') \<and>
    (m' = m \<and> al' = al \<or> (\<exists>iv. (m', iv) \<in> set ivs \<and> biState iv = InvCompleted \<and> biResponseAlias iv = al'))"
  using assms
proof (induction ivs arbitrary: m al)
  case Nil
  then show ?case by simp
next
  case (Cons x ivs)
  obtain seq iv where x: "x = (seq, iv)" by (cases x)
  show ?case
  proof (cases "biState iv = InvCompleted \<and> seq > m")
    case True
    with Cons.prems x have "lastCompletedFrom ivs (seq, biResponseAlias iv) = (m', al')" by simp
    from Cons.IH [OF this] True x show ?thesis by (auto intro: order.trans less_imp_le)
  next
    case False
    with Cons.prems x have "lastCompletedFrom ivs (m, al) = (m', al')" by simp
    note IH = Cons.IH [OF this]
    then have "biState iv = InvCompleted \<longrightarrow> seq \<le> m'" using False by (auto intro: order.trans)
    with IH x show ?thesis by auto
  qed
qed

lemma lastCompletedFrom_unique:
  assumes "\<forall>(seq, iv) \<in> set ivs. seq \<noteq> 0" and dist: "distinct (map fst ivs)"
  shows "snd (lastCompletedFrom ivs (0, [])) = al \<longleftrightarrow> lastAliasIs ivs al"
proof -
  obtain m' al' where m: "lastCompletedFrom ivs (0, []) = (m', al')" by fastforce
  note max = lastCompletedFrom_max [OF m]
  have this_is: "lastAliasIs ivs al'"
  proof (cases "\<exists>(seq, iv) \<in> set ivs. biState iv = InvCompleted")
    case True
    with max assms(1) have "m' \<noteq> 0" by fastforce
    with max obtain iv where "(m', iv) \<in> set ivs" "biState iv = InvCompleted" "biResponseAlias iv = al'" by auto
    with max show ?thesis unfolding lastAliasIs_def by blast
  next
    case False
    with max show ?thesis by (auto simp: lastAliasIs_def)
  qed
  have "al = al'" if other: "lastAliasIs ivs al"
  proof (cases "\<exists>(seq, iv) \<in> set ivs. biState iv = InvCompleted")
    case True
    from True this_is obtain s1 iv1 where 1: "(s1, iv1) \<in> set ivs" "biState iv1 = InvCompleted"
        "biResponseAlias iv1 = al'" "\<forall>(s, iv) \<in> set ivs. biState iv = InvCompleted \<longrightarrow> s \<le> s1"
      unfolding lastAliasIs_def by blast
    from True other obtain s2 iv2 where 2: "(s2, iv2) \<in> set ivs" "biState iv2 = InvCompleted"
        "biResponseAlias iv2 = al" "\<forall>(s, iv) \<in> set ivs. biState iv = InvCompleted \<longrightarrow> s \<le> s2"
      unfolding lastAliasIs_def by blast
    from 1 2 have "s1 = s2" by (blast intro: antisym)
    with 1 2 dist have "iv1 = iv2" by (metis eq_key_imp_eq_value)
    with 1 2 show ?thesis by simp
  next
    case False
    with this_is other show ?thesis unfolding lastAliasIs_def by fastforce
  qed
  with this_is m show ?thesis by auto
qed

lemma set_sorted_list_of_fmap: "set (sorted_list_of_fmap m) = {(k, v). fmlookup m k = Some v}"
  by (auto simp: sorted_list_of_fmap_def fmlookup_dom_iff image_iff)

lemma distinct_sorted_list_of_fmap: "distinct (map fst (sorted_list_of_fmap m))"
  by (simp add: sorted_list_of_fmap_def comp_def sorted_list_of_fset.rep_eq)

definition lastSequenceOk :: "brokerPrompt \<Rightarrow> bool" where
  "lastSequenceOk p \<longleftrightarrow>
     (\<forall>s i. fmlookup (bpInvocations p) s = Some i \<longrightarrow> s \<le> bpLastSequence p) \<and>
     (bpLastSequence p \<noteq> 0 \<longrightarrow> fmlookup (bpInvocations p) (bpLastSequence p) \<noteq> None)"

definition lastAliasOk :: "brokerPrompt \<Rightarrow> bool" where
  "lastAliasOk p \<longleftrightarrow>
     ((\<forall>s i. fmlookup (bpInvocations p) s = Some i \<longrightarrow> biState i \<noteq> InvCompleted) \<and> bpLastAlias p = []) \<or>
     (\<exists>s i. fmlookup (bpInvocations p) s = Some i \<and> biState i = InvCompleted \<and>
        biResponseAlias i = bpLastAlias p \<and>
        (\<forall>s' i'. fmlookup (bpInvocations p) s' = Some i' \<longrightarrow> biState i' = InvCompleted \<longrightarrow> s' \<le> s))"

lemma lastAliasIs_fmap:
  "lastAliasIs (sorted_list_of_fmap (bpInvocations p)) (bpLastAlias p) \<longleftrightarrow> lastAliasOk p"
  unfolding lastAliasIs_def lastAliasOk_def
  by (simp add: set_sorted_list_of_fmap Bex_def Ball_def)

definition promptOk :: "env \<Rightarrow> brokerPrompt \<Rightarrow> string \<Rightarrow> string \<Rightarrow> brokerSession \<Rightarrow> bool" where
  "promptOk E p key digest session \<longleftrightarrow> promptHeaderOk E p key digest session \<and>
     (\<forall>s i. fmlookup (bpInvocations p) s = Some i \<longrightarrow> invocationOk E i s key p session) \<and>
     lastSequenceOk p \<and> lastAliasOk p"

definition promptLinks :: "brokerPrompt \<Rightarrow> string list" where
  "promptLinks p = links (sorted_list_of_fmap (bpInvocations p))"

lemma brokerPromptValid_iff:
  "brokerPromptValid E p key digest session linked = Some linked' \<longleftrightarrow>
     promptOk E p key digest session \<and> distinct (promptLinks p) \<and>
     set (promptLinks p) \<inter> set linked = {} \<and> linked' = rev (promptLinks p) @ linked"
proof (cases "promptHeaderOk E p key digest session")
  case False
  then show ?thesis by (simp add: brokerPromptValid_def promptOk_def)
next
  case header: True
  let ?ivs = "sorted_list_of_fmap (bpInvocations p)"
  let ?ok = "\<forall>(s, i) \<in> set ?ivs. invocationOk E i s key p session"
  obtain m' al' where lc: "lastCompletedFrom ?ivs (0, []) = (m', al')" by fastforce
  have step: "brokerPromptValid E p key digest session linked = Some linked' \<longleftrightarrow>
      ?ok \<and> distinct (promptLinks p) \<and> set (promptLinks p) \<inter> set linked = {} \<and>
      linked' = rev (promptLinks p) @ linked \<and>
      bpLastSequence p = lastSeqFrom ?ivs 0 \<and> bpLastAlias p = al'"
  proof (cases "invocationLoop E key p session ?ivs (linked, 0, 0, [])")
    case None
    then have "\<not> (?ok \<and> distinct (promptLinks p) \<and> set (promptLinks p) \<inter> set linked = {})"
      using invocationLoop_iff [of E key p session ?ivs linked 0 0 "[]" "rev (links ?ivs) @ linked"
          "lastSeqFrom ?ivs 0" m' al'] lc
      by (auto simp: promptLinks_def)
    with None header show ?thesis by (simp add: brokerPromptValid_def) blast
  next
    case (Some st)
    obtain l n m al where st: "st = (l, n, m, al)" by (cases st)
    from Some invocationLoop_iff [of E key p session ?ivs linked 0 0 "[]" l n m al] lc
    have "?ok" "distinct (promptLinks p)" "set (promptLinks p) \<inter> set linked = {}"
      "l = rev (promptLinks p) @ linked" "n = lastSeqFrom ?ivs 0" "al = al'"
      by (simp_all add: st promptLinks_def)
    with Some header show ?thesis by (auto simp: brokerPromptValid_def st)
  qed
  have ok_iff: "?ok \<longleftrightarrow> (\<forall>s i. fmlookup (bpInvocations p) s = Some i \<longrightarrow> invocationOk E i s key p session)"
    by (auto simp: set_sorted_list_of_fmap)
  have "?ok \<Longrightarrow> bpLastSequence p = lastSeqFrom ?ivs 0 \<longleftrightarrow> lastSequenceOk p"
    using lastSeqFrom_unique [of ?ivs "bpLastSequence p"]
    by (fastforce simp: invocationOk_def lastSequenceIs_def lastSequenceOk_def set_sorted_list_of_fmap image_iff)
  moreover have "?ok \<Longrightarrow> bpLastAlias p = al' \<longleftrightarrow> lastAliasOk p"
  proof -
    assume ?ok
    then have "\<forall>(s, i) \<in> set ?ivs. s \<noteq> 0" by (auto simp: invocationOk_def)
    from lastCompletedFrom_unique [OF this distinct_sorted_list_of_fmap, of "bpLastAlias p"] lc
    show ?thesis by (auto simp: lastAliasIs_fmap)
  qed
  ultimately show ?thesis using header unfolding step promptOk_def ok_iff by blast
qed

fun sessionLinks :: "(string \<times> brokerPrompt) list \<Rightarrow> string list" where
  "sessionLinks [] = []"
| "sessionLinks ((key, p) # ps) = promptLinks p @ sessionLinks ps"

lemma promptLoop_iff:
  "promptLoop E digest session ps linked = Some linked' \<longleftrightarrow>
     (\<forall>(key, p) \<in> set ps. promptOk E p key digest session) \<and> distinct (sessionLinks ps) \<and>
     set (sessionLinks ps) \<inter> set linked = {} \<and> linked' = rev (sessionLinks ps) @ linked"
proof (induction ps arbitrary: linked)
  case Nil
  then show ?case by auto
next
  case (Cons x ps)
  obtain key p where x: "x = (key, p)" by (cases x)
  show ?case
  proof (cases "brokerPromptValid E p key digest session linked")
    case None
    then have "\<not> (promptOk E p key digest session \<and> distinct (promptLinks p) \<and>
        set (promptLinks p) \<inter> set linked = {})"
      using brokerPromptValid_iff [of E p key digest session linked "rev (promptLinks p) @ linked"] by auto
    with None show ?thesis by (auto simp: x)
  next
    case (Some l)
    with brokerPromptValid_iff [of E p key digest session linked l]
    have "promptOk E p key digest session" "distinct (promptLinks p)"
      "set (promptLinks p) \<inter> set linked = {}" "l = rev (promptLinks p) @ linked" by auto
    with Some Cons.IH [of l] show ?thesis by (auto simp: x)
  qed
qed

text \<open>\<open>linkAt s pk seq a\<close>: invocation \<open>seq\<close> of prompt \<open>pk\<close> acknowledges response alias \<open>a\<close>.\<close>

definition linkAt :: "brokerSession \<Rightarrow> string \<Rightarrow> 64 word \<Rightarrow> string \<Rightarrow> bool" where
  "linkAt session pk seq a \<longleftrightarrow> (\<exists>p i. fmlookup (bsPrompts session) pk = Some p \<and>
     fmlookup (bpInvocations p) seq = Some i \<and> linkOf i = Some a)"

definition sessionCoherent :: "env \<Rightarrow> brokerSession \<Rightarrow> string \<Rightarrow> string \<Rightarrow> bool" where
  "sessionCoherent E session key digest \<longleftrightarrow> sessionHeaderOk E session key \<and>
     (\<forall>pk p. fmlookup (bsPrompts session) pk = Some p \<longrightarrow> promptOk E p pk digest session) \<and>
     (\<forall>pk seq pk' seq' a. linkAt session pk seq a \<and> linkAt session pk' seq' a \<longrightarrow> pk = pk' \<and> seq = seq') \<and>
     (\<forall>a. fmlookup (bsResponses session) a \<noteq> None \<longrightarrow> (\<exists>pk seq. linkAt session pk seq a))"

lemma set_promptLinks:
  "a \<in> set (promptLinks p) \<longleftrightarrow> (\<exists>seq i. fmlookup (bpInvocations p) seq = Some i \<and> linkOf i = Some a)"
  by (auto simp: promptLinks_def set_links set_sorted_list_of_fmap)

lemma set_sessionLinks: "a \<in> set (sessionLinks ps) \<longleftrightarrow> (\<exists>(key, p) \<in> set ps. a \<in> set (promptLinks p))"
  by (induction ps rule: sessionLinks.induct) auto

lemma distinct_links:
  assumes "distinct (map fst ivs)"
  shows "distinct (links ivs) \<longleftrightarrow> (\<forall>(s, i) \<in> set ivs. \<forall>(s', i') \<in> set ivs. \<forall>a.
    linkOf i = Some a \<longrightarrow> linkOf i' = Some a \<longrightarrow> s = s')"
  using assms
proof (induction ivs rule: links.induct)
  case 1
  then show ?case by simp
next
  case (2 s i rest)
  then have IH: "distinct (links rest) \<longleftrightarrow> (\<forall>(s, i) \<in> set rest. \<forall>(s', i') \<in> set rest. \<forall>a.
      linkOf i = Some a \<longrightarrow> linkOf i' = Some a \<longrightarrow> s = s')"
    by (cases "linkOf i") simp_all
  from 2 have new: "s \<notin> fst ` set rest" by simp
  show ?case
  proof (cases "linkOf i")
    case None
    with IH show ?thesis by auto
  next
    case (Some a)
    have "a \<notin> set (links rest) \<longleftrightarrow> (\<forall>(s', i') \<in> set rest. linkOf i' = Some a \<longrightarrow> s = s')"
      using new by (force simp: set_links)
    with IH Some show ?thesis by (auto, blast+)
  qed
qed

lemma distinct_sessionLinks:
  assumes "distinct (map fst ps)"
  shows "distinct (sessionLinks ps) \<longleftrightarrow> (\<forall>(k, p) \<in> set ps. distinct (promptLinks p)) \<and>
    (\<forall>(k, p) \<in> set ps. \<forall>(k', p') \<in> set ps. \<forall>a. a \<in> set (promptLinks p) \<longrightarrow> a \<in> set (promptLinks p') \<longrightarrow> k = k')"
  using assms
proof (induction ps rule: sessionLinks.induct)
  case 1
  then show ?case by simp
next
  case (2 k p ps)
  then have new: "k \<notin> fst ` set ps" by auto
  have "set (promptLinks p) \<inter> set (sessionLinks ps) = {} \<longleftrightarrow>
      (\<forall>(k', p') \<in> set ps. \<forall>a. a \<in> set (promptLinks p) \<longrightarrow> a \<in> set (promptLinks p') \<longrightarrow> k = k')"
    using new by (force simp: set_sessionLinks)
  moreover have "distinct (sessionLinks ps) \<longleftrightarrow> (\<forall>(k, p) \<in> set ps. distinct (promptLinks p)) \<and>
    (\<forall>(k, p) \<in> set ps. \<forall>(k', p') \<in> set ps. \<forall>a. a \<in> set (promptLinks p) \<longrightarrow> a \<in> set (promptLinks p') \<longrightarrow> k = k')"
    using 2 by simp
  ultimately show ?case
    by (simp only: sessionLinks.simps distinct_append) (simp add: case_prod_beta, blast)
qed

lemma linkAt_unique_iff:
  "distinct (sessionLinks (sorted_list_of_fmap (bsPrompts session))) \<longleftrightarrow>
   (\<forall>pk seq pk' seq' a. linkAt session pk seq a \<and> linkAt session pk' seq' a \<longrightarrow> pk = pk' \<and> seq = seq')"
    (is "?D \<longleftrightarrow> ?U")
proof -
  have per_prompt: "distinct (promptLinks p) \<longleftrightarrow> (\<forall>s i s' i' a. fmlookup (bpInvocations p) s = Some i \<longrightarrow>
      fmlookup (bpInvocations p) s' = Some i' \<longrightarrow> linkOf i = Some a \<longrightarrow> linkOf i' = Some a \<longrightarrow> s = s')" for p
    unfolding promptLinks_def
    by (auto simp: distinct_links [OF distinct_sorted_list_of_fmap] set_sorted_list_of_fmap)
  have D: "?D \<longleftrightarrow> (\<forall>k p. fmlookup (bsPrompts session) k = Some p \<longrightarrow> distinct (promptLinks p)) \<and>
      (\<forall>k p k' p' a. fmlookup (bsPrompts session) k = Some p \<longrightarrow> fmlookup (bsPrompts session) k' = Some p' \<longrightarrow>
        a \<in> set (promptLinks p) \<longrightarrow> a \<in> set (promptLinks p') \<longrightarrow> k = k')"
    by (auto simp: distinct_sessionLinks [OF distinct_sorted_list_of_fmap] set_sorted_list_of_fmap)
  show ?thesis
  proof
    assume ?D
    then have one: "\<And>k p. fmlookup (bsPrompts session) k = Some p \<Longrightarrow> distinct (promptLinks p)"
      and two: "\<And>k p k' p' a. fmlookup (bsPrompts session) k = Some p \<Longrightarrow>
        fmlookup (bsPrompts session) k' = Some p' \<Longrightarrow> a \<in> set (promptLinks p) \<Longrightarrow>
        a \<in> set (promptLinks p') \<Longrightarrow> k = k'"
      unfolding D by blast+
    show ?U
    proof (intro allI impI, elim conjE)
      fix pk seq pk' seq' a
      assume "linkAt session pk seq a" "linkAt session pk' seq' a"
      then obtain p i p' i' where
        l: "fmlookup (bsPrompts session) pk = Some p" "fmlookup (bpInvocations p) seq = Some i"
          "linkOf i = Some a" "fmlookup (bsPrompts session) pk' = Some p'"
          "fmlookup (bpInvocations p') seq' = Some i'" "linkOf i' = Some a"
        by (auto simp: linkAt_def)
      then have "pk = pk'" using two [of pk p pk' p' a] by (auto simp: set_promptLinks)
      with l one [of pk p] show "pk = pk' \<and> seq = seq'" unfolding per_prompt by auto
    qed
  next
    assume U: ?U
    show ?D unfolding D per_prompt
    proof (intro conjI allI impI)
      fix k p s i s' i' a
      assume "fmlookup (bsPrompts session) k = Some p" "fmlookup (bpInvocations p) s = Some i"
        "fmlookup (bpInvocations p) s' = Some i'" "linkOf i = Some a" "linkOf i' = Some a"
      then have "linkAt session k s a" "linkAt session k s' a" by (auto simp: linkAt_def)
      with U show "s = s'" by blast
    next
      fix k p k' p' a
      assume "fmlookup (bsPrompts session) k = Some p" "fmlookup (bsPrompts session) k' = Some p'"
        "a \<in> set (promptLinks p)" "a \<in> set (promptLinks p')"
      then obtain s s' where "linkAt session k s a" "linkAt session k' s' a"
        by (auto simp: linkAt_def set_promptLinks)
      with U show "k = k'" by blast
    qed
  qed
qed

lemma length_eq_fmcard_iff:
  assumes "distinct xs" "\<forall>x \<in> set xs. fmlookup m x \<noteq> None"
  shows "length xs = fmcard m \<longleftrightarrow> (\<forall>a. fmlookup m a \<noteq> None \<longrightarrow> a \<in> set xs)"
proof -
  have sub: "set xs \<subseteq> fset (fmdom m)" using assms(2) by (auto simp: fmlookup_dom_iff)
  have len: "length xs = card (set xs)" using assms(1) by (simp add: distinct_card)
  have card: "fmcard m = card (fset (fmdom m))" by (simp add: fmcard_def fcard.rep_eq)
  have "length xs = fmcard m \<longleftrightarrow> set xs = fset (fmdom m)"
    using sub card_subset_eq [OF finite_fset sub] by (auto simp: len card)
  also have "\<dots> \<longleftrightarrow> (\<forall>a. fmlookup m a \<noteq> None \<longrightarrow> a \<in> set xs)"
    using sub by (auto simp: fmlookup_dom_iff)
  finally show ?thesis .
qed

lemma brokerSessionValid_iff:
  "brokerSessionValid E session key digest \<longleftrightarrow> sessionCoherent E session key digest"
proof -
  let ?ps = "sorted_list_of_fmap (bsPrompts session)"
  let ?ok = "\<forall>pk p. fmlookup (bsPrompts session) pk = Some p \<longrightarrow> promptOk E p pk digest session"
  have ok: "(\<forall>(key, p) \<in> set ?ps. promptOk E p key digest session) \<longleftrightarrow> ?ok"
    by (auto simp: set_sorted_list_of_fmap)
  have valid: "brokerSessionValid E session key digest \<longleftrightarrow> sessionHeaderOk E session key \<and> ?ok \<and>
      distinct (sessionLinks ?ps) \<and> length (sessionLinks ?ps) = fmcard (bsResponses session)"
  proof (cases "promptLoop E digest session ?ps []")
    case None
    with promptLoop_iff [of E digest session ?ps "[]" "rev (sessionLinks ?ps)"] ok
    show ?thesis by (auto simp: brokerSessionValid_def)
  next
    case (Some linked)
    with promptLoop_iff [of E digest session ?ps "[]" linked] ok
    show ?thesis by (auto simp: brokerSessionValid_def)
  qed
  have cover: "length (sessionLinks ?ps) = fmcard (bsResponses session) \<longleftrightarrow>
      (\<forall>a. fmlookup (bsResponses session) a \<noteq> None \<longrightarrow> (\<exists>pk seq. linkAt session pk seq a))"
    if ok: ?ok and dist: "distinct (sessionLinks ?ps)"
  proof -
    have mem: "a \<in> set (sessionLinks ?ps) \<longleftrightarrow> (\<exists>pk seq. linkAt session pk seq a)" for a
      by (auto simp: set_sessionLinks set_sorted_list_of_fmap set_promptLinks linkAt_def)
    have "\<forall>a \<in> set (sessionLinks ?ps). fmlookup (bsResponses session) a \<noteq> None"
    proof
      fix a
      assume "a \<in> set (sessionLinks ?ps)"
      then obtain pk p seq i where "fmlookup (bsPrompts session) pk = Some p"
        "fmlookup (bpInvocations p) seq = Some i" "linkOf i = Some a"
        by (auto simp: mem linkAt_def)
      with ok show "fmlookup (bsResponses session) a \<noteq> None"
        by (fastforce simp: promptOk_def invocationOk_def linkOf_def split: if_splits)
    qed
    from length_eq_fmcard_iff [OF dist this] show ?thesis by (simp add: mem)
  qed
  show ?thesis unfolding valid sessionCoherent_def linkAt_unique_iff [symmetric] using cover by blast
qed

end
