(* ===== verification/BrokerCore.thy ===== *)
theory BrokerCore
  imports BrokerLedger
begin

text \<open>
  \<^verbatim>\<open>src/internal/broker/broker.go\<close>: the lifecycle broker's state, the commit of a ledger
  change, the control routes, the status response, the expiry sweep and the reconciliation
  of closed prompts. Every definition is one critical section of the broker's mutex (or a
  helper of one); a \<open>change\<close> is the function a Go caller passes to \<open>commitLocked\<close>, here from
  the current ledger to the next one or an error. The deep copy through JSON that precedes a
  change is the identity on the ledger.
\<close>

section \<open>State\<close>

record brokerConfiguration =
  cfAgent :: agentConfig
  cfConfigDigest :: string
  cfAddr :: string
  cfStateDir :: string
  cfBearer :: string
  cfAgentKitProof :: string
  cfOperationTimeout :: int

text \<open>An active request: the prompt it serves and whether its context was cancelled.\<close>

record brokerActive =
  baPrompt :: string
  baCancelled :: bool

record broker =
  bkCfg :: brokerConfiguration
  bkDisk :: disk
  bkLedger :: brokerLedger
  bkStorageError :: bool
  bkActive :: "(string, brokerActive) fmap"
  bkWorkers :: "string fset"
  bkNextReconcile :: "(string, int) fmap"
  bkCancelled :: bool  \<comment> \<open>the broker's own context\<close>

section \<open>Commit\<close>

definition failStorageLocked :: "broker \<Rightarrow> broker" where
  "failStorageLocked b = b\<lparr>bkStorageError := True, bkCancelled := True,
     bkActive := fmmap (\<lambda>a. a\<lparr>baCancelled := True\<rparr>) (bkActive b)\<rparr>"

definition commitCapacityLocked :: "env \<Rightarrow> saveIO \<Rightarrow> bool \<Rightarrow> (brokerLedger \<Rightarrow> brokerError + brokerLedger) \<Rightarrow>
    broker \<Rightarrow> brokerError option \<times> broker" where
  "commitCapacityLocked E io ordinary change b =
     (if bkStorageError b then (Some ErrStorage, b) else
      (case change (bkLedger b) of
         Inl e \<Rightarrow> (Some e, b)
       | Inr nxt \<Rightarrow>
         (let nextData = marshalLedger E nxt;
              limit = int brokerMaxLedgerBytes -
                (if ordinary \<and> marshalLedger E (bkLedger b) \<noteq> nextData
                 then int (brokerLedgerReserveBytes nxt) else 0)
          in if int (length nextData) > limit then (Some ErrCapacity, b)
             else (case saveBytes io nextData (bkDisk b) of
                 (Some _, d) \<Rightarrow> (Some ErrStorage, failStorageLocked (b\<lparr>bkDisk := d\<rparr>))
               | (None, d) \<Rightarrow> (None, b\<lparr>bkDisk := d, bkLedger := nxt\<rparr>)))))"

definition commitLocked :: "env \<Rightarrow> saveIO \<Rightarrow> (brokerLedger \<Rightarrow> brokerError + brokerLedger) \<Rightarrow>
    broker \<Rightarrow> brokerError option \<times> broker" where
  "commitLocked E io change b = commitCapacityLocked E io False change b"

section \<open>Helpers of the changes\<close>

definition putSession :: "string \<Rightarrow> brokerSession \<Rightarrow> brokerLedger \<Rightarrow> brokerLedger" where
  "putSession key session l = l\<lparr>blSessions := fmupd key session (blSessions l)\<rparr>"

definition putPrompt :: "string \<Rightarrow> brokerPrompt \<Rightarrow> brokerSession \<Rightarrow> brokerSession" where
  "putPrompt pkey prompt session = session\<lparr>bsPrompts := fmupd pkey prompt (bsPrompts session)\<rparr>"

definition closePromptEntry :: "brokerPrompt \<Rightarrow> brokerPrompt" where
  "closePromptEntry p = p\<lparr>bpClosing := True\<rparr>"

definition brokerEnsureSession :: "env \<Rightarrow> brokerLedger \<Rightarrow> brokerContext \<Rightarrow>
    brokerError + brokerSession \<times> brokerLedger" where
  "brokerEnsureSession E l c = (let key = ownerKey E (bcOwner c) in
     case fmlookup (blSessions l) key of
       Some session \<Rightarrow> Inr (session, l)
     | None \<Rightarrow>
         if fmcard (blSessions l) \<ge> 4096 then Inl ErrStorage
         else (let session = \<lparr>bsOwner = bcOwner c, bsRemoteID = [], bsCreateState = CreateNone,
                 bsRetiring = False, bsRetired = False, bsProofDigest = [], bsCurrentPrompt = [],
                 bsPrompts = fmempty, bsResponses = fmempty, bsOperations = fmempty\<rparr>
               in Inr (session, putSession key session l)))"

definition brokerEnsurePrompt :: "env \<Rightarrow> brokerSession \<Rightarrow> brokerContext \<Rightarrow>
    brokerError + brokerPrompt \<times> brokerSession" where
  "brokerEnsurePrompt E session c = (let key = promptKey E c in
     case fmlookup (bsPrompts session) key of
       Some prompt \<Rightarrow> Inr (prompt, session)
     | None \<Rightarrow>
         if bsRetiring session \<or> bsRetired session then Inl ErrClosed
         else if fmexists (\<lambda>_ p. bcPromptID (bpIdentity p) = bcPromptID c \<or>
             (bcTaskUID (bpIdentity p) = bcTaskUID c \<and> bcTaskAttempt (bpIdentity p) = bcTaskAttempt c))
             (bsPrompts session) then Inl ErrConflict
         else if (case fmlookup (bsPrompts session) (bsCurrentPrompt session) of
             None \<Rightarrow> False | Some current \<Rightarrow> \<not> bpSettled current) then Inl ErrConflict
         else if fmcard (bsPrompts session) \<ge> 4096 then Inl ErrStorage
         else (case parseTime E (bcLeaseExpiresAt c) of None \<Rightarrow> Inl ErrInvalid | Some expires \<Rightarrow>
           (let prompt = \<lparr>bpIdentity = c, bpLeaseGeneration = bcLeaseGeneration c,
                  bpLeaseExpiresAt = expires, bpClosing = False, bpSettled = False, bpProofDigest = [],
                  bpLastSequence = 0, bpLastAlias = [], bpInvocations = fmempty\<rparr>
            in Inr (prompt, (putPrompt key prompt session)\<lparr>bsCurrentPrompt := key\<rparr>))))"

text \<open>The first result says that this operation was recorded before.\<close>

definition brokerRecordOperation :: "env \<Rightarrow> brokerSession \<Rightarrow> string \<Rightarrow> brokerContext \<Rightarrow>
    brokerError + bool \<times> brokerSession" where
  "brokerRecordOperation E session path c = (let digest = brokerOperationDigest E path c in
     case fmlookup (bsOperations session) (bcOperationID c) of
       Some previous \<Rightarrow> if previous \<noteq> digest then Inl ErrConflict else Inr (True, session)
     | None \<Rightarrow>
         (let limit = (if path = SettlePath then brokerSettlementOperationLimit
                       else if path = RetirePath then brokerRetirementOperationLimit
                       else brokerOperationLimit)
          in if fmcard (bsOperations session) \<ge> limit then Inl ErrStorage
             else Inr (False, session\<lparr>bsOperations :=
               fmupd (bcOperationID c) digest (bsOperations session)\<rparr>)))"

section \<open>Startup and shutdown\<close>

text \<open>Recovery closes every unsettled prompt; it never resumes an old request.\<close>

definition recoveryChange :: "brokerLedger \<Rightarrow> brokerError + brokerLedger" where
  "recoveryChange l = Inr (l\<lparr>blSessions := fmmap (\<lambda>s. s\<lparr>bsPrompts :=
     fmmap (\<lambda>p. if bpSettled p then p else closePromptEntry p) (bsPrompts s)\<rparr>) (blSessions l)\<rparr>)"

text \<open>\<open>proofOk\<close> is \<open>brokerAgentKitProofValid\<close>; \<open>opened\<close> the result of \<open>openBrokerStore\<close>.\<close>

definition newLifecycleBroker :: "env \<Rightarrow> (string \<Rightarrow> bool) \<Rightarrow> saveIO \<Rightarrow> brokerConfiguration \<Rightarrow>
    (brokerError + brokerLedger) \<times> disk \<Rightarrow> brokerError + broker" where
  "newLifecycleBroker E proofOk io cfg opened =
     (if length (cfBearer cfg) < 32 \<or> \<not> DigestValid (cfConfigDigest cfg) \<or> \<not> proofOk (cfAgentKitProof cfg)
      then Inl ErrInvalid else
      case opened of
        (Inl e, _) \<Rightarrow> Inl e
      | (Inr ledger, d) \<Rightarrow>
         (let cfg' = (if cfOperationTimeout cfg \<le> 0 then cfg\<lparr>cfOperationTimeout := 45000000000\<rparr> else cfg);
              b = \<lparr>bkCfg = cfg', bkDisk = d, bkLedger = ledger, bkStorageError = False, bkActive = fmempty,
                   bkWorkers = {||}, bkNextReconcile = fmempty, bkCancelled = False\<rparr>
          in (case commitLocked E io recoveryChange b of
                (Some e, _) \<Rightarrow> Inl e
              | (None, b') \<Rightarrow> Inr b')))"

definition closeBroker :: "broker \<Rightarrow> broker" where
  "closeBroker b = b\<lparr>bkCancelled := True,
     bkActive := fmmap (\<lambda>a. a\<lparr>baCancelled := True\<rparr>) (bkActive b)\<rparr>"

section \<open>Control routes\<close>

definition controlChange :: "env \<Rightarrow> int \<Rightarrow> string \<Rightarrow> brokerContext \<Rightarrow> brokerLedger \<Rightarrow>
    brokerError + brokerLedger" where
  "controlChange E now path c l = (let key = ownerKey E (bcOwner c); pkey = promptKey E c in
     bindR (brokerEnsureSession E l c) (\<lambda>(session, l1).
     bindR (brokerRecordOperation E session path c) (\<lambda>(duplicate, session1).
       if path = RetirePath then
         Inr (putSession key (session1\<lparr>bsRetiring := True,
           bsPrompts := fmmap closePromptEntry (bsPrompts session1)\<rparr>) l1)
       else if (bsRetiring session1 \<or> bsRetired session1) \<and> path = RenewPath then Inl ErrClosed
       else bindR (brokerEnsurePrompt E session1 c) (\<lambda>(prompt, session2).
         if path = SettlePath then
           Inr (putSession key (putPrompt pkey (closePromptEntry prompt) session2) l1)
         else if duplicate then Inr (putSession key session2 l1)
         else if bpClosing prompt \<or> bpSettled prompt then Inl ErrClosed
         else (let expires = (case parseTime E (bcLeaseExpiresAt c) of None \<Rightarrow> 0 | Some t \<Rightarrow> t) in
           if bcOperationID (bpIdentity prompt) = bcOperationID c \<and> bpLastSequence prompt = 0 \<and>
              bpLeaseGeneration prompt = bcLeaseGeneration c then Inr (putSession key session2 l1)
           else if bcLeaseGeneration c \<noteq> bpLeaseGeneration prompt + 1 \<or>
                   \<not> bpLeaseExpiresAt prompt > now \<or> expires < bpLeaseExpiresAt prompt then Inl ErrConflict
           else Inr (putSession key (putPrompt pkey (prompt\<lparr>bpLeaseGeneration := bcLeaseGeneration c,
                  bpLeaseExpiresAt := expires\<rparr>) session2) l1))))))"

definition cancelActive :: "string \<Rightarrow> broker \<Rightarrow> broker" where
  "cancelActive key b = b\<lparr>bkActive := fmadjust key (\<lambda>a. a\<lparr>baCancelled := True\<rparr>) (bkActive b)\<rparr>"

definition control :: "env \<Rightarrow> saveIO \<Rightarrow> int \<Rightarrow> string \<Rightarrow> brokerContext \<Rightarrow> broker \<Rightarrow>
    brokerError option \<times> broker" where
  "control E io now path c b =
     (let key = ownerKey E (bcOwner c);
          ordinary = (path = RenewPath \<or>
            (case fmlookup (blSessions (bkLedger b)) key of None \<Rightarrow> True
             | Some session \<Rightarrow> path = SettlePath \<and> fmlookup (bsPrompts session) (promptKey E c) = None))
      in (case commitCapacityLocked E io ordinary (controlChange E now path c) b of
            (Some e, b') \<Rightarrow> (Some e, b')
          | (None, b') \<Rightarrow>
              (None,
               if path = SettlePath \<or> path = RetirePath then
                 (case fmlookup (bkActive b') key of None \<Rightarrow> b'
                  | Some active \<Rightarrow> if path = RetirePath \<or> baPrompt active = promptKey E c
                      then cancelActive key b' else b')
               else b')))"

section \<open>Status\<close>

text \<open>How \<open>controlResponseLocked\<close> classifies one invocation.\<close>

definition countsAmbiguous :: "brokerActive option \<Rightarrow> string \<Rightarrow> brokerPrompt \<Rightarrow> brokerInvocation \<Rightarrow> bool" where
  "countsAmbiguous act key prompt iv = (case biState iv of
       InvUncertain \<Rightarrow> True
     | InvIntent \<Rightarrow> \<not> (case act of None \<Rightarrow> False
         | Some a \<Rightarrow> baPrompt a = key \<and> biSequence iv = bpLastSequence prompt)
     | _ \<Rightarrow> False)"

definition countsActive :: "brokerActive option \<Rightarrow> string \<Rightarrow> brokerPrompt \<Rightarrow> brokerInvocation \<Rightarrow> bool" where
  "countsActive act key prompt iv = (case biState iv of
       InvIntent \<Rightarrow> (case act of None \<Rightarrow> False
         | Some a \<Rightarrow> baPrompt a = key \<and> biSequence iv = bpLastSequence prompt)
     | InvAccepted \<Rightarrow> \<not> bpSettled prompt
     | InvReserved \<Rightarrow> \<not> bpSettled prompt
     | _ \<Rightarrow> False)"

definition openResponse :: "string \<Rightarrow> string \<Rightarrow> string \<Rightarrow> brokerControlResponse" where
  "openResponse ownerDigest operationID contextDigest =
     \<lparr>crProtocol = brokerProtocol, crOwnerDigest = ownerDigest, crOperationID = operationID,
      crContextSHA256 = contextDigest, crState = ''open'', crSettlementProven = False,
      crRetirementProven = False, crActiveInvocations = 0, crAmbiguousInvocations = 0,
      crCreatePending = False, crRemoteSessionCreated = False, crLeaseGeneration = 0,
      crLeaseExpiresAt = [], crProofDigest = []\<rparr>"

text \<open>The session part of the response, then the part of the context's prompt (the loop body
  runs for that one key when the context names a prompt), then the counts.\<close>

definition sessionResponse :: "brokerSession \<Rightarrow> brokerControlResponse \<Rightarrow> brokerControlResponse" where
  "sessionResponse session r =
     (let r1 = r\<lparr>crCreatePending := (bsCreateState session = CreateIntent),
            crRemoteSessionCreated := (bsCreateState session = CreateKnown \<or> bsCreateState session = CreateDeleted),
            crRetirementProven := bsRetired session\<rparr>;
          r2 = (if bsRetiring session then r1\<lparr>crState := ''retiring''\<rparr> else r1)
      in if bsRetired session then r2\<lparr>crState := ''retired'', crSettlementProven := True,
           crProofDigest := bsProofDigest session\<rparr> else r2)"

definition promptResponse :: "env \<Rightarrow> brokerPrompt \<Rightarrow> brokerControlResponse \<Rightarrow> brokerControlResponse" where
  "promptResponse E prompt r =
     (let r1 = r\<lparr>crLeaseGeneration := bpLeaseGeneration prompt,
            crLeaseExpiresAt := formatTime E (bpLeaseExpiresAt prompt),
            crSettlementProven := bpSettled prompt\<rparr>;
          r2 = (if bpClosing prompt then r1\<lparr>crState := ''settling''\<rparr> else r1)
      in if bpSettled prompt then r2\<lparr>crState := ''settled'', crProofDigest := bpProofDigest prompt\<rparr> else r2)"

definition controlResponseLocked :: "env \<Rightarrow> broker \<Rightarrow> brokerContext \<Rightarrow> string \<Rightarrow> brokerControlResponse" where
  "controlResponseLocked E b c contextDigest =
     (let key = ownerKey E (bcOwner c); r0 = openResponse key (bcOperationID c) contextDigest in
      case fmlookup (blSessions (bkLedger b)) key of None \<Rightarrow> r0 | Some session \<Rightarrow>
      (let selected = (if bcPromptID c = [] then bsPrompts session
             else fmfilter (\<lambda>k. k = promptKey E c) (bsPrompts session));
           r1 = sessionResponse session r0;
           r2 = (if bcPromptID c = [] then r1 else
                 (case fmlookup (bsPrompts session) (promptKey E c) of None \<Rightarrow> r1
                  | Some prompt \<Rightarrow> promptResponse E prompt r1));
           act = fmlookup (bkActive b) key;
           r3 = r2\<lparr>crActiveInvocations := fmsum (\<lambda>k p. fmcount (\<lambda>_ iv. countsActive act k p iv) (bpInvocations p)) selected,
                   crAmbiguousInvocations := fmsum (\<lambda>k p. fmcount (\<lambda>_ iv. countsAmbiguous act k p iv) (bpInvocations p)) selected\<rparr>
       in if crCreatePending r3 \<or> crAmbiguousInvocations r3 > 0 then
            r3\<lparr>crState := ''blocked'', crSettlementProven := False, crRetirementProven := False, crProofDigest := []\<rparr>
          else r3))"

definition canAcknowledgeCreateRenewalLocked :: "env \<Rightarrow> int \<Rightarrow> broker \<Rightarrow> brokerContext \<Rightarrow>
    brokerControlResponse \<Rightarrow> bool" where
  "canAcknowledgeCreateRenewalLocked E now b c r =
     (if bkCancelled b \<or> bkStorageError b \<or> crState r \<noteq> ''blocked'' \<or> \<not> crCreatePending r \<or>
         crAmbiguousInvocations r \<noteq> 0 \<or> crActiveInvocations r \<noteq> 1 \<or>
         crLeaseGeneration r \<noteq> bcLeaseGeneration c then False else
      (let key = ownerKey E (bcOwner c); pkey = promptKey E c in
       case fmlookup (blSessions (bkLedger b)) key of None \<Rightarrow> False | Some session \<Rightarrow>
         if bsCreateState session \<noteq> CreateIntent \<or> bsRetiring session \<or> bsRetired session \<or>
            bsCurrentPrompt session \<noteq> pkey then False else
         (case (parseTime E (bcLeaseExpiresAt c), fmlookup (bsPrompts session) pkey) of
            (Some expires, Some prompt) \<Rightarrow>
              if bpClosing prompt \<or> bpSettled prompt \<or> bpLeaseGeneration prompt \<noteq> bcLeaseGeneration c \<or>
                 bpLeaseExpiresAt prompt \<noteq> expires \<or> \<not> bpLeaseExpiresAt prompt > now then False else
              (case fmlookup (bkActive b) key of None \<Rightarrow> False | Some active \<Rightarrow>
                if baPrompt active \<noteq> pkey \<or> fmcard (bpInvocations prompt) \<noteq> 1 then False else
                (case fmlookup (bpInvocations prompt) (bpLastSequence prompt) of None \<Rightarrow> False
                 | Some iv \<Rightarrow> biState iv = InvReserved))
          | _ \<Rightarrow> False)))"

end
