(* ===== verification/BrokerReconcile.thy ===== *)
theory BrokerReconcile
  imports BrokerCore
begin

text \<open>
  The rest of \<^verbatim>\<open>src/internal/broker/broker.go\<close>: request admission and error statuses, the
  expiry sweep, and reconciliation, which settles closed prompts and retires sessions once it
  holds remote evidence. Reconciliation has two critical sections with remote calls between
  them: \<open>reconcileCapture\<close> fixes the prompts it may settle, \<open>reconcilePlan\<close> chooses the remote
  proof, \<open>reconcileCommit\<close> records it.
\<close>

section \<open>Request admission\<close>

record httpRequest =
  rqMethod :: string
  rqPath :: string
  rqRawQuery :: string
  rqRawPath :: string
  rqAuthorization :: "string list"
  rqContext :: "string list"
  rqContentEncoding :: string
  rqBody :: "string option"  \<comment> \<open>\<open>None\<close>: the body could not be read\<close>
  rqHeaderNames :: "string list"

definition validPath :: "string \<Rightarrow> bool" where
  "validPath path \<longleftrightarrow> path = ResponsesPath \<or> path = RenewPath \<or> path = SettlePath \<or>
     path = RetirePath \<or> path = StatusPath"

datatype admission = Reply nat | Admitted string

text \<open>\<open>ServeHTTP\<close> up to the parsing of the context: a plain status, or the body. The limited
  reader returns at most \<open>MaxPromptBytes + 1\<close> bytes.\<close>

definition admitRequest :: "broker \<Rightarrow> httpRequest \<Rightarrow> admission" where
  "admitRequest b r =
     (if rqPath r = ''/healthz'' \<and> rqMethod r = ''GET'' then
        (if bkStorageError b \<or> bkCancelled b then Reply 503 else Reply 200)
      else if rqAuthorization r \<noteq> [''Bearer '' @ cfBearer (bkCfg b)] then Reply 401
      else if \<not> validPath (rqPath r) \<or> rqRawQuery r \<noteq> [] \<or> rqRawPath r \<noteq> [] \<or> rqContentEncoding r \<noteq> [] \<or>
        (rqPath r = StatusPath \<and> rqMethod r \<noteq> ''GET'') \<or> (rqPath r \<noteq> StatusPath \<and> rqMethod r \<noteq> ''POST'')
      then Reply 400
      else (case map_option (take (MaxPromptBytes + 1)) (rqBody r) of None \<Rightarrow> Reply 400 | Some body \<Rightarrow>
        if length body > MaxPromptBytes then Reply 400
        else if (rqPath r = StatusPath \<and> body \<noteq> []) \<or>
          (rqPath r \<noteq> ResponsesPath \<and> rqPath r \<noteq> StatusPath \<and> body \<noteq> ''{}'') then Reply 400
        else Admitted body))"

definition brokerErrorStatus :: "brokerError \<Rightarrow> nat" where
  "brokerErrorStatus e =
     (if errIs e ErrInvalid then 400
      else if errIs e ErrConflict \<or> errIs e ErrPending \<or> errIs e ErrAmbiguous then 409
      else if errIs e ErrClosed then 410 else 503)"

section \<open>Reconciliation workers\<close>

text \<open>\<open>True\<close>: a worker was started for the owner.\<close>

definition startReconcile :: "string \<Rightarrow> bool \<Rightarrow> int \<Rightarrow> broker \<Rightarrow> bool \<times> broker" where
  "startReconcile key force now b =
     (if bkCancelled b \<or> bkStorageError b \<or> key |\<in>| bkWorkers b \<or>
         (\<not> force \<and> now < (case fmlookup (bkNextReconcile b) key of None \<Rightarrow> 0 | Some t \<Rightarrow> t))
      then (False, b)
      else (True, b\<lparr>bkWorkers := finsert key (bkWorkers b)\<rparr>))"

definition endReconcile :: "string \<Rightarrow> int \<Rightarrow> broker \<Rightarrow> broker" where
  "endReconcile key now b = b\<lparr>bkWorkers := bkWorkers b |-| {|key|},
     bkNextReconcile := fmupd key (now + 1000000000) (bkNextReconcile b)\<rparr>"

record capture =
  cpClosing :: "string fset"
  cpAmbiguous :: bool
  cpQuiescent :: bool
  cpRemoteID :: string
  cpCreateState :: createState
  cpRetiring :: bool

definition isAmbiguous :: "brokerInvocation \<Rightarrow> bool" where
  "isAmbiguous iv \<longleftrightarrow> biState iv = InvUncertain \<or> (biState iv = InvIntent \<and> biResponseID iv = [])"

definition isQuiescent :: "brokerInvocation \<Rightarrow> bool" where
  "isQuiescent iv \<longleftrightarrow> biState iv \<in> {InvCompleted, InvReserved, InvRejected}"

definition toSettle :: "brokerPrompt \<Rightarrow> bool" where
  "toSettle p \<longleftrightarrow> bpClosing p \<and> \<not> bpSettled p"

definition reconcileCapture :: "broker \<Rightarrow> string \<Rightarrow> capture option" where
  "reconcileCapture b key = (case fmlookup (blSessions (bkLedger b)) key of None \<Rightarrow> None | Some session \<Rightarrow>
     if bsRetired session \<or> fmlookup (bkActive b) key \<noteq> None then None else
     (let closing = ffilter (\<lambda>k. case fmlookup (bsPrompts session) k of None \<Rightarrow> False | Some p \<Rightarrow> toSettle p)
            (fmdom (bsPrompts session));
          c = \<lparr>cpClosing = closing,
            cpAmbiguous = fmexists (\<lambda>_ p. fmexists (\<lambda>_ iv. isAmbiguous iv) (bpInvocations p)) (bsPrompts session),
            cpQuiescent = fmpred (\<lambda>_ p. toSettle p \<longrightarrow> fmpred (\<lambda>_ iv. isQuiescent iv) (bpInvocations p))
              (bsPrompts session),
            cpRemoteID = bsRemoteID session, cpCreateState = bsCreateState session,
            cpRetiring = bsRetiring session\<rparr>
      in if closing = {||} \<and> \<not> bsRetiring session then None
         else if bsCreateState session = CreateIntent then None else Some c))"

text \<open>The remote proof to obtain: \<open>RemoteDelete\<close> is DELETE 204 followed by GET 404,
  \<open>RemoteStop\<close> a stop observed idle, \<open>NoRemote kind\<close> needs no remote call.\<close>

datatype plan = RemoteDelete | RemoteStop | NoRemote string

definition reconcilePlan :: "capture \<Rightarrow> plan" where
  "reconcilePlan cp =
     (if cpCreateState cp = CreateKnown then
        (if cpRetiring cp \<and> \<not> cpAmbiguous cp then RemoteDelete
         else if cpQuiescent cp \<and> \<not> cpAmbiguous cp \<and> cpClosing cp \<noteq> {||}
         then NoRemote ''remote-responses-quiescent''
         else RemoteStop)
      else NoRemote ''never-created'')"

definition planKind :: "plan \<Rightarrow> string" where
  "planKind p = (case p of RemoteDelete \<Rightarrow> ''remote-delete-204-get-404''
     | RemoteStop \<Rightarrow> ''remote-stop-idle'' | NoRemote kind \<Rightarrow> kind)"

definition settlementProof :: "env \<Rightarrow> string \<Rightarrow> string \<Rightarrow> string \<Rightarrow> string \<Rightarrow> int \<Rightarrow> string" where
  "settlementProof E key pkey remoteID kind now = Digest (sha E) (jsonObject
     [(''Owner'', Some (jsonString key)), (''Prompt'', Some (jsonString pkey)),
      (''Remote'', Some (jsonString (Digest (sha E) remoteID))), (''Kind'', Some (jsonString kind)),
      (''At'', Some (jsonString (formatTime E now)))])"

definition retirementProof :: "env \<Rightarrow> string \<Rightarrow> string \<Rightarrow> string \<Rightarrow> int \<Rightarrow> string" where
  "retirementProof E key remoteID kind now = Digest (sha E) (jsonObject
     [(''Owner'', Some (jsonString key)), (''Remote'', Some (jsonString (Digest (sha E) remoteID))),
      (''Kind'', Some (jsonString kind)), (''At'', Some (jsonString (formatTime E now)))])"

definition settleInvocation :: "brokerInvocation \<Rightarrow> brokerInvocation" where
  "settleInvocation iv = (if biState iv \<noteq> InvCompleted then iv\<lparr>biState := InvSettled\<rparr> else iv)"

definition settlePrompt :: "string \<Rightarrow> brokerPrompt \<Rightarrow> brokerPrompt" where
  "settlePrompt proofDigest p = p\<lparr>bpSettled := True, bpProofDigest := proofDigest,
     bpInvocations := fmmap settleInvocation (bpInvocations p)\<rparr>"

definition settlePrompts :: "env \<Rightarrow> string \<Rightarrow> capture \<Rightarrow> string \<Rightarrow> int \<Rightarrow> brokerSession \<Rightarrow> brokerSession" where
  "settlePrompts E key cp kind now session = session\<lparr>bsPrompts := fmmap_keys (\<lambda>pk p.
     if pk |\<in>| cpClosing cp then settlePrompt (settlementProof E key pk (cpRemoteID cp) kind now) p else p)
     (bsPrompts session)\<rparr>"

definition reconcileChange :: "env \<Rightarrow> int \<Rightarrow> string \<Rightarrow> capture \<Rightarrow> string \<Rightarrow> broker \<Rightarrow> brokerLedger \<Rightarrow>
    brokerError + brokerLedger" where
  "reconcileChange E now key cp kind b l =
     (if fmlookup (bkActive b) key \<noteq> None then Inl ErrPending else
      case fmlookup (blSessions l) key of
        None \<Rightarrow> (if cpClosing cp = {||} \<and> \<not> cpRetiring cp then Inr l else Inl ErrPanic)
      | Some session \<Rightarrow>
        if \<not> cpClosing cp |\<subseteq>| fmdom (bsPrompts session) then Inl ErrPanic else
        (let settled = settlePrompts E key cp kind now session in
         if \<not> cpRetiring cp then Inr (putSession key settled l)
         else if \<not> fmpred (\<lambda>_ p. bpSettled p) (bsPrompts settled) then Inl ErrPending
         else Inr (putSession key (settled\<lparr>bsCreateState :=
                (if cpCreateState cp = CreateKnown then CreateDeleted else bsCreateState settled),
              bsRetired := True, bsProofDigest := retirementProof E key (cpRemoteID cp) kind now\<rparr>) l)))"

definition reconcileCommit :: "env \<Rightarrow> saveIO \<Rightarrow> int \<Rightarrow> string \<Rightarrow> capture \<Rightarrow> broker \<Rightarrow> broker" where
  "reconcileCommit E io now key cp b =
     snd (commitLocked E io (reconcileChange E now key cp (planKind (reconcilePlan cp)) b) b)"

text \<open>
  The worker's run when nothing interferes between its critical sections. \<open>deleteOk\<close> and
  \<open>stopOk\<close> are the results of \<open>remoteSessionDelete\<close> and \<open>remoteSessionStop\<close>.
\<close>

definition reconcile :: "env \<Rightarrow> saveIO \<Rightarrow> int \<Rightarrow> bool \<Rightarrow> bool \<Rightarrow> string \<Rightarrow> broker \<Rightarrow> broker" where
  "reconcile E io now deleteOk stopOk key b = (case reconcileCapture b key of None \<Rightarrow> b | Some cp \<Rightarrow>
     if (reconcilePlan cp = RemoteDelete \<and> \<not> deleteOk) \<or> (reconcilePlan cp = RemoteStop \<and> \<not> stopOk) then b
     else if cpAmbiguous cp then b
     else reconcileCommit E io now key cp b)"

section \<open>The sweep\<close>

definition expiryChange :: "int \<Rightarrow> brokerLedger \<Rightarrow> brokerError + brokerLedger" where
  "expiryChange now l = Inr (l\<lparr>blSessions := fmmap (\<lambda>s. s\<lparr>bsPrompts :=
     fmmap (\<lambda>p. if \<not> bpLeaseExpiresAt p > now then closePromptEntry p else p) (bsPrompts s)\<rparr>) (blSessions l)\<rparr>)"

definition needsExpiry :: "int \<Rightarrow> brokerLedger \<Rightarrow> bool" where
  "needsExpiry now l = fmexists (\<lambda>_ s. fmexists (\<lambda>_ p. \<not> bpClosing p \<and> \<not> bpLeaseExpiresAt p > now)
     (bsPrompts s)) (blSessions l)"

definition needsCleanup :: "brokerSession \<Rightarrow> bool" where
  "needsCleanup s \<longleftrightarrow> (bsRetiring s \<and> \<not> bsRetired s) \<or> fmexists (\<lambda>_ p. toSettle p) (bsPrompts s)"

text \<open>The active request of a session is cancelled when its prompt is closing.\<close>

definition sweepCancel :: "brokerLedger \<Rightarrow> string \<Rightarrow> brokerActive \<Rightarrow> brokerActive" where
  "sweepCancel l key a = (case fmlookup (blSessions l) key of None \<Rightarrow> a | Some s \<Rightarrow>
     (case fmlookup (bsPrompts s) (baPrompt a) of None \<Rightarrow> a
      | Some p \<Rightarrow> if toSettle p then a\<lparr>baCancelled := True\<rparr> else a))"

definition sweepKeys :: "brokerLedger \<Rightarrow> string list" where
  "sweepKeys l = map fst (filter (\<lambda>ks. needsCleanup (snd ks)) (sorted_list_of_fmap (blSessions l)))"

text \<open>One tick: expired leases close durably, then every owner in need of cleanup is offered
  to \<open>startReconcile\<close>. The second result lists the workers started.\<close>

definition sweepTick :: "env \<Rightarrow> saveIO \<Rightarrow> int \<Rightarrow> broker \<Rightarrow> broker" where
  "sweepTick E io now b = (if bkCancelled b then b else
     (let b1 = (if needsExpiry now (bkLedger b) then snd (commitLocked E io (expiryChange now) b) else b)
      in b1\<lparr>bkActive := fmmap_keys (sweepCancel (bkLedger b1)) (bkActive b1)\<rparr>))"

fun startAll :: "string list \<Rightarrow> int \<Rightarrow> broker \<Rightarrow> string list \<times> broker" where
  "startAll [] now b = ([], b)"
| "startAll (key # keys) now b = (case startReconcile key False now b of (started, b1) \<Rightarrow>
     (case startAll keys now b1 of (ks, b2) \<Rightarrow> (if started then key # ks else ks, b2)))"

definition sweep :: "env \<Rightarrow> saveIO \<Rightarrow> int \<Rightarrow> broker \<Rightarrow> string list \<times> broker" where
  "sweep E io now b = (if bkCancelled b then ([], b) else
     (let b1 = sweepTick E io now b in startAll (sweepKeys (bkLedger b1)) now b1))"

section \<open>Serving the control routes\<close>

datatype controlReply = ErrorReply nat | ControlReply nat brokerControlResponse

text \<open>
  \<open>ServeHTTP\<close> from the parsed context on, for every route but \<open>/v1/responses\<close>. A settle or
  retire request starts a worker, which runs after the reply was computed.
\<close>

definition serveControl :: "env \<Rightarrow> saveIO \<Rightarrow> int \<Rightarrow> string \<Rightarrow> brokerContext \<Rightarrow> string \<Rightarrow> broker \<Rightarrow>
    controlReply \<times> broker" where
  "serveControl E io now path c contextDigest b =
     (case (if path \<noteq> StatusPath then control E io now path c b else (None, b)) of
        (Some e, b1) \<Rightarrow> (ErrorReply (brokerErrorStatus e), b1)
      | (None, b1) \<Rightarrow>
          (let b2 = (if path = SettlePath \<or> path = RetirePath
                 then snd (startReconcile (ownerKey E (bcOwner c)) True now b1) else b1);
               r0 = controlResponseLocked E b2 c contextDigest;
               r = (if path = RenewPath \<and> canAcknowledgeCreateRenewalLocked E now b2 c r0
                    then r0\<lparr>crState := ''open''\<rparr> else r0)
           in if bkStorageError b2 then (ErrorReply (brokerErrorStatus ErrStorage), b2)
              else (ControlReply (if (path = SettlePath \<and> \<not> crSettlementProven r) \<or>
                     (path = RetirePath \<and> \<not> crRetirementProven r) then 409 else 200) r, b2)))"

end
