(* ===== verification/FoundryResponses.thy ===== *)
theory FoundryResponses
  imports FoundryValidate
begin

text \<open>
  \<^verbatim>\<open>src/internal/foundry/responses.go\<close>: the Responses wire types, the event folding
  shared by the JSON and SSE readers, and the lenient SSE reader of harness v1. Callbacks
  thread a state of the caller and may fail. Typed JSON decoding is the record \<^emph>\<open>jsonEnv\<close>,
  one field per target type the sources decode into.
\<close>

section \<open>Wire types\<close>

record responseError =
  reType :: string
  reCode :: string
  reMessage :: string
  reParam :: string

record outputContent =
  ocType :: string
  ocText :: string

record outputItem =
  oiID :: string
  oiType :: string
  oiCallID :: string
  oiName :: string
  oiArguments :: string
  oiContent :: "outputContent list"

record response =
  rpID :: string
  rpStatus :: string
  rpAgentSessionID :: string
  rpOutput :: "outputItem list"
  rpError :: "responseError option"
  rpIncomplete :: "string option"

record responseEvent =
  evType :: string
  evDelta :: string
  evResponse :: "response option"
  evItem :: "outputItem option"
  evError :: "responseError option"

record streamSummary =
  ssResponseID :: string
  ssAgentSessionID :: string
  ssStatus :: string
  ssText :: string
  ssFunctionCalls :: "outputItem list"
  ssError :: "responseError option"
  ssIncomplete :: "string option"

definition emptySummary :: streamSummary where
  "emptySummary = \<lparr>ssResponseID = [], ssAgentSessionID = [], ssStatus = [], ssText = [],
     ssFunctionCalls = [], ssError = None, ssIncomplete = None\<rparr>"

record toolSchema =
  tsType :: string
  tsName :: string
  tsDescription :: string
  tsParameters :: string

text \<open>\<open>Input any\<close>: a JSON value, \<open>JNull\<close> when absent.\<close>

record responseRequest =
  rrInput :: json
  rrStream :: bool
  rrStore :: bool
  rrPreviousResponseID :: string
  rrAgentSessionID :: string
  rrTools :: "toolSchema list"

datatype respError = EStreamLimit | EInvalidJSON | EEventLimit | EEventBytes | ENoTerminal
  | ETextMismatch | ECallChanged string | ERead | ECallback string | EResponse

text \<open>The callbacks of a reader over a caller state \<open>'s\<close>; \<open>None\<close> is a nil callback.\<close>

record 's callbacks =
  cbCreated :: "(response \<Rightarrow> 's \<Rightarrow> respError + 's) option"
  cbTextDelta :: "(string \<Rightarrow> 's \<Rightarrow> respError + 's) option"
  cbFunctionCall :: "(outputItem \<Rightarrow> 's \<Rightarrow> respError + 's) option"

definition noCallbacks :: "'s callbacks" where
  "noCallbacks = \<lparr>cbCreated = None, cbTextDelta = None, cbFunctionCall = None\<rparr>"

definition callback :: "('x \<Rightarrow> 's \<Rightarrow> respError + 's) option \<Rightarrow> 'x \<Rightarrow> 's \<Rightarrow> respError + 's" where
  "callback cb x s = (case cb of None \<Rightarrow> Inr s | Some f \<Rightarrow> f x s)"

lemma callback_None [simp]: "callback None x s = Inr s"
  by (simp add: callback_def)

record itemEnvelope =
  ieItem :: outputItem
  ieStatus :: string
  ieRole :: string

record jsonEnv =
  jeEvent :: "string \<Rightarrow> responseEvent option"
  jeEventStrict :: "string \<Rightarrow> responseEvent option"
  jeResponse :: "string \<Rightarrow> response option"
  jeResponseStrict :: "string \<Rightarrow> response option"
  jeItemStrict :: "string \<Rightarrow> itemEnvelope option"
  jeFields :: "string \<Rightarrow> (string \<times> string) list option"
  jeArray :: "string \<Rightarrow> string list option"
  jeString :: "string \<Rightarrow> string option"

section \<open>Folding events into a summary\<close>

definition mergeResponse :: "streamSummary \<Rightarrow> response \<Rightarrow> streamSummary" where
  "mergeResponse summary r =
     (let s1 = (if rpID r \<noteq> [] then summary\<lparr>ssResponseID := rpID r\<rparr> else summary);
          s2 = (if rpAgentSessionID r \<noteq> [] then s1\<lparr>ssAgentSessionID := rpAgentSessionID r\<rparr> else s1);
          s3 = (if rpStatus r \<noteq> [] then s2\<lparr>ssStatus := rpStatus r\<rparr> else s2);
          s4 = (if rpError r \<noteq> None then s3\<lparr>ssError := rpError r\<rparr> else s3)
      in if rpIncomplete r \<noteq> None then s4\<lparr>ssIncomplete := rpIncomplete r\<rparr> else s4)"

text \<open>(seen, conflict): the first call with the item's call id decides.\<close>

fun functionCallState :: "outputItem list \<Rightarrow> outputItem \<Rightarrow> bool \<times> bool" where
  "functionCallState [] item = (False, False)"
| "functionCallState (call # calls) item =
     (if oiCallID call \<noteq> oiCallID item then functionCallState calls item
      else (True, oiName call \<noteq> oiName item \<or> oiArguments call \<noteq> oiArguments item))"

definition messageText :: "outputItem list \<Rightarrow> string" where
  "messageText items = concat (map (\<lambda>i. concat (map ocText (oiContent i)))
     (filter (\<lambda>i. oiType i = ''message'') items))"

fun fallbackCalls :: "'s callbacks \<Rightarrow> outputItem list \<Rightarrow> streamSummary \<Rightarrow> 's \<Rightarrow>
    respError + streamSummary \<times> 's" where
  "fallbackCalls cbs [] summary s = Inr (summary, s)"
| "fallbackCalls cbs (item # items) summary s =
     (if oiType item \<noteq> ''function_call'' then fallbackCalls cbs items summary s
      else (case functionCallState (ssFunctionCalls summary) item of (seen, conflict) \<Rightarrow>
        if conflict then Inl (ECallChanged (oiCallID item))
        else if seen then fallbackCalls cbs items summary s
        else bindR (callback (cbFunctionCall cbs) item s) (\<lambda>s'. fallbackCalls cbs items
               (summary\<lparr>ssFunctionCalls := ssFunctionCalls summary @ [item]\<rparr>) s')))"

definition applyTerminalOutputFallback :: "'s callbacks \<Rightarrow> streamSummary \<Rightarrow> response \<Rightarrow> 's \<Rightarrow>
    respError + streamSummary \<times> 's" where
  "applyTerminalOutputFallback cbs summary r s =
     (let fullText = messageText (rpOutput r) in
      bindR (if fullText \<noteq> [] then
               (if \<not> hasPrefix fullText (ssText summary) then Inl ETextMismatch
                else (let remainder = trimPrefix fullText (ssText summary) in
                  if remainder \<noteq> [] then
                    bindR (callback (cbTextDelta cbs) remainder s)
                      (\<lambda>s'. Inr (summary\<lparr>ssText := ssText summary @ remainder\<rparr>, s'))
                  else Inr (summary, s)))
             else Inr (summary, s))
        (\<lambda>(summary', s'). fallbackCalls cbs (rpOutput r) summary' s'))"

definition applyEvent :: "'s callbacks \<Rightarrow> streamSummary \<Rightarrow> responseEvent \<Rightarrow> 's \<Rightarrow>
    respError + streamSummary \<times> 's" where
  "applyEvent cbs summary event s =
     (if evType event \<in> {''response.created'', ''response.in_progress'', ''response.queued''} then
        (case evResponse event of None \<Rightarrow> Inr (summary, s)
         | Some r \<Rightarrow>
            (if evType event = ''response.created''
             then bindR (callback (cbCreated cbs) r s) (\<lambda>s'. Inr (mergeResponse summary r, s'))
             else Inr (mergeResponse summary r, s)))
      else if evType event = ''response.output_text.delta'' then
        (let summary' = summary\<lparr>ssText := ssText summary @ evDelta event\<rparr> in
         if evDelta event \<noteq> [] then bindR (callback (cbTextDelta cbs) (evDelta event) s) (\<lambda>s'. Inr (summary', s'))
         else Inr (summary', s))
      else if evType event = ''response.output_item.done'' then
        (case evItem event of None \<Rightarrow> Inr (summary, s)
         | Some item \<Rightarrow> if oiType item = ''function_call'' then
             bindR (callback (cbFunctionCall cbs) item s)
               (\<lambda>s'. Inr (summary\<lparr>ssFunctionCalls := ssFunctionCalls summary @ [item]\<rparr>, s'))
           else Inr (summary, s))
      else if evType event \<in> {''response.completed'', ''response.failed'', ''response.incomplete'',
          ''response.cancelled'', ''response.canceled''} then
        bindR (case evResponse event of None \<Rightarrow> Inr (summary, s)
               | Some r \<Rightarrow> if evType event = ''response.completed''
                   then applyTerminalOutputFallback cbs (mergeResponse summary r) r s
                   else Inr (mergeResponse summary r, s))
          (\<lambda>(summary', s'). Inr (if ssStatus summary' = []
             then summary'\<lparr>ssStatus := trimPrefix (evType event) ''response.''\<rparr> else summary', s'))
      else if evType event = ''error'' then
        Inr (summary\<lparr>ssStatus := ''failed'', ssError := evError event\<rparr>, s)
      else Inr (summary, s))"

section \<open>Whole documents\<close>

fun completeContents :: "'s callbacks \<Rightarrow> outputContent list \<Rightarrow> streamSummary \<Rightarrow> 's \<Rightarrow>
    respError + streamSummary \<times> 's" where
  "completeContents cbs [] summary s = Inr (summary, s)"
| "completeContents cbs (content # contents) summary s =
     (if ocText content = [] then completeContents cbs contents summary s
      else bindR (callback (cbTextDelta cbs) (ocText content) s)
        (\<lambda>s'. completeContents cbs contents (summary\<lparr>ssText := ssText summary @ ocText content\<rparr>) s'))"

fun completeItems :: "'s callbacks \<Rightarrow> outputItem list \<Rightarrow> streamSummary \<Rightarrow> 's \<Rightarrow>
    respError + streamSummary \<times> 's" where
  "completeItems cbs [] summary s = Inr (summary, s)"
| "completeItems cbs (item # items) summary s =
     (if oiType item = ''message'' then
        bindR (completeContents cbs (oiContent item) summary s)
          (\<lambda>(summary', s'). completeItems cbs items summary' s')
      else if oiType item = ''function_call'' then
        bindR (callback (cbFunctionCall cbs) item s)
          (\<lambda>s'. completeItems cbs items (summary\<lparr>ssFunctionCalls := ssFunctionCalls summary @ [item]\<rparr>) s')
      else completeItems cbs items summary s)"

definition CompleteResponse :: "'s callbacks \<Rightarrow> response \<Rightarrow> 's \<Rightarrow> respError + streamSummary \<times> 's" where
  "CompleteResponse cbs r s =
     (let summary = mergeResponse emptySummary r in
      bindR (callback (cbCreated cbs) r s) (\<lambda>s'.
        if \<not> equalFold (rpStatus r) ''completed'' then Inr (summary, s')
        else completeItems cbs (rpOutput r) summary s'))"

text \<open>\<open>readFails\<close>: the body returned an error after its last byte.\<close>

definition ParseJSON :: "jsonEnv \<Rightarrow> 's callbacks \<Rightarrow> nat \<Rightarrow> string \<Rightarrow> bool \<Rightarrow> 's \<Rightarrow>
    respError + streamSummary \<times> 's" where
  "ParseJSON J cbs maxBytes body readFails s =
     (let data = take (maxBytes + 1) body in
      if readFails \<and> length body \<le> maxBytes then Inl ERead
      else if length data > maxBytes then Inl EStreamLimit
      else (case jeResponse J data of None \<Rightarrow> Inl EInvalidJSON
        | Some r \<Rightarrow> CompleteResponse cbs r s))"

section \<open>The lenient SSE reader\<close>

record 's sseState =
  stSummary :: streamSummary
  stData :: string
  stCount :: nat
  stUser :: 's

definition isDone :: "string \<Rightarrow> bool" where
  "isDone data \<longleftrightarrow> trimSpace data = ''[DONE]''"

definition flushEvent :: "jsonEnv \<Rightarrow> 's callbacks \<Rightarrow> nat \<Rightarrow> nat \<Rightarrow> 's sseState \<Rightarrow>
    respError + 's sseState" where
  "flushEvent J cbs maxEventBytes maxEvents st =
     (if stData st = [] then Inr st
      else if Suc (stCount st) > maxEvents then Inl EEventLimit
      else if length (stData st) > maxEventBytes then Inl EEventBytes
      else if isDone (stData st) then Inr (st\<lparr>stCount := Suc (stCount st), stData := []\<rparr>)
      else (case jeEvent J (stData st) of None \<Rightarrow> Inl EInvalidJSON
        | Some event \<Rightarrow> bindR (applyEvent cbs (stSummary st) event (stUser st))
            (\<lambda>(summary, s). Inr (st\<lparr>stCount := Suc (stCount st), stData := [], stSummary := summary,
               stUser := s\<rparr>))))"

definition trimLineEnd :: "string \<Rightarrow> string" where
  "trimLineEnd line = rev (dropWhile (\<lambda>c. c = CHR 0x0D \<or> c = CHR 0x0A) (rev line))"

definition sseLine :: "jsonEnv \<Rightarrow> 's callbacks \<Rightarrow> nat \<Rightarrow> nat \<Rightarrow> string \<Rightarrow> 's sseState \<Rightarrow>
    respError + 's sseState" where
  "sseLine J cbs maxEventBytes maxEvents line st =
     (let trimmed = trimLineEnd line in
      if trimmed = [] then flushEvent J cbs maxEventBytes maxEvents st
      else if hasPrefix trimmed ''data:'' then
        (let part = trimSpace (drop 5 trimmed) in
         if length (stData st) + length part + 1 > maxEventBytes then Inl EEventBytes
         else Inr (st\<lparr>stData := (if stData st = [] then part else stData st @ [CHR 0x0A] @ part)\<rparr>))
      else Inr st)"

text \<open>\<open>reader.ReadBytes('\n')\<close>: the lines with their newline; the last one, which may be empty,
  comes with the end of the body.\<close>

fun readLines :: "string \<Rightarrow> string list" where
  "readLines [] = [[]]"
| "readLines (c # s) = (if c = CHR 0x0A then [c] # readLines s
     else (case readLines s of [] \<Rightarrow> [[c]] | l # ls \<Rightarrow> (c # l) # ls))"

fun sseLoop :: "jsonEnv \<Rightarrow> 's callbacks \<Rightarrow> nat \<Rightarrow> nat \<Rightarrow> nat \<Rightarrow> bool \<Rightarrow> nat \<Rightarrow> string list \<Rightarrow>
    's sseState \<Rightarrow> respError + 's sseState" where
  "sseLoop J cbs maxBytes maxEventBytes maxEvents readFails tot [] st = Inr st"
| "sseLoop J cbs maxBytes maxEventBytes maxEvents readFails tot (line # rest) st =
     (let tot' = tot + length line in
      if tot' > maxBytes then Inl EStreamLimit
      else bindR (sseLine J cbs maxEventBytes maxEvents line st) (\<lambda>st'.
        if rest \<noteq> [] then sseLoop J cbs maxBytes maxEventBytes maxEvents readFails tot' rest st'
        else if readFails then Inl ERead
        else flushEvent J cbs maxEventBytes maxEvents st'))"

definition ParseSSE :: "jsonEnv \<Rightarrow> 's callbacks \<Rightarrow> nat \<Rightarrow> nat \<Rightarrow> nat \<Rightarrow> string \<Rightarrow> bool \<Rightarrow> 's \<Rightarrow>
    respError + streamSummary \<times> 's" where
  "ParseSSE J cbs maxBytes maxEventBytes maxEvents body readFails s =
     bindR (sseLoop J cbs maxBytes maxEventBytes maxEvents readFails 0 (readLines (take (maxBytes + 1) body))
         \<lparr>stSummary = emptySummary, stData = [], stCount = 0, stUser = s\<rparr>)
       (\<lambda>st. if ssStatus (stSummary st) = [] then Inl ENoTerminal else Inr (stSummary st, stUser st))"

end
