(* ===== verification/BrokerRemote.thy ===== *)
theory BrokerRemote
  imports BrokerCore FoundryResponses "HOL-Library.State_Monad"
begin

text \<open>
  \<^verbatim>\<open>src/internal/broker/remote.go\<close>: authenticated requests to the hosted service. An
  operation is an action over a clock that counts what the code asked of the outside world
  and the broker. The record \<^emph>\<open>world\<close> answers each question: the time, the outcome of system
  calls, tokens, fresh UUIDs, whether a context is done, the reply to a request. Acquiring
  the mutex first lets \<open>wOther\<close> change the broker: it stands for every other goroutine that
  held the mutex since the last time.
\<close>

section \<open>The outside world\<close>

record remoteRequest =
  rmMethod :: string
  rmURL :: string
  rmAuthorization :: string
  rmBody :: string

record remoteReply =
  ryStatus :: nat
  ryContentType :: string
  ryBody :: string
  ryFails :: bool  \<comment> \<open>the body ends with a read error\<close>

record remoteAgent =
  raName :: string
  raSchemes :: "string list"

record remoteVersion =
  rvName :: string
  rvVersion :: string
  rvStatus :: string
  rvKind :: string

record claims =
  clAudience :: string
  clTenant :: string
  clObject :: string
  clApp :: string
  clAZP :: string

text \<open>\<open>wDone\<close>: the context in use is done at that moment; \<open>wCreateDone\<close> the same for the context of
  the one creation attempt. The last fields are the typed strict decoders of remote documents.\<close>

record world =
  wNow :: "nat \<Rightarrow> int"
  wIO :: "nat \<Rightarrow> saveIO"
  wOther :: "nat \<Rightarrow> broker \<Rightarrow> broker"
  wToken :: "nat \<Rightarrow> string option"
  wUUID :: "nat \<Rightarrow> nat \<Rightarrow> string"
  wDone :: "nat \<Rightarrow> bool"
  wCreateDone :: "nat \<Rightarrow> bool"
  wWriteOk :: "nat \<Rightarrow> bool"  \<comment> \<open>the reply could be encoded to the client\<close>
  wSend :: "nat \<Rightarrow> remoteRequest \<Rightarrow> remoteReply option"
  wHeaderValid :: "string \<Rightarrow> bool"
  wURLParses :: "string \<Rightarrow> bool"
  wClaims :: "string \<Rightarrow> claims option"
  wAgent :: "string \<Rightarrow> remoteAgent option"
  wScheme :: "string \<Rightarrow> string option"
  wVersion :: "string \<Rightarrow> remoteVersion option"
  wSession :: "string \<Rightarrow> remoteSession option"

type_synonym 'a action = "(nat \<times> broker, 'a) state"

definition ask :: "(nat \<Rightarrow> 'a) \<Rightarrow> 'a action" where
  "ask f = State (\<lambda>(t, b). (f t, (Suc t, b)))"

text \<open>A critical section of \<open>b.mu\<close>.\<close>

definition locked :: "world \<Rightarrow> (nat \<Rightarrow> broker \<Rightarrow> 'a \<times> broker) \<Rightarrow> 'a action" where
  "locked W f = State (\<lambda>(t, b). case f t (wOther W t b) of (a, b') \<Rightarrow> (a, (Suc t, b')))"

lemma run_ask [simp]: "run_state (ask f) (t, b) = (f t, (Suc t, b))"
  by (simp add: ask_def)

lemma run_locked [simp]:
  "run_state (locked W f) (t, b) = (case f t (wOther W t b) of (a, b') \<Rightarrow> (a, (Suc t, b')))"
  by (simp add: locked_def)

abbreviation "ret \<equiv> State_Monad.return"

section \<open>The principal\<close>

text \<open>\<open>base64.RawURLEncoding.DecodeString\<close>: unlike the strict decoder, trailing bits are ignored.\<close>

fun b64LooseBytes :: "nat list \<Rightarrow> nat list option" where
  "b64LooseBytes (v # w # x # y # r) = (case b64LooseBytes r of None \<Rightarrow> None
     | Some bs \<Rightarrow> Some ([v * 4 + w div 16, (w mod 16) * 16 + x div 4, (x mod 4) * 64 + y] @ bs))"
| "b64LooseBytes [v, w, x] = Some [v * 4 + w div 16, (w mod 16) * 16 + x div 4]"
| "b64LooseBytes [v, w] = Some [v * 4 + w div 16]"
| "b64LooseBytes [v] = None"
| "b64LooseBytes [] = Some []"

definition b64Loose :: "string \<Rightarrow> string option" where
  "b64Loose s = (case those (map b64Value (filter (\<lambda>c. byte c \<noteq> 10 \<and> byte c \<noteq> 13) s)) of
     None \<Rightarrow> None | Some vs \<Rightarrow> map_option (map char_of) (b64LooseBytes vs))"

definition principalDigest :: "env \<Rightarrow> claims \<Rightarrow> string" where
  "principalDigest E c = Digest (sha E) (jsonObject
     [(''aud'', Some (jsonString (clAudience c))), (''tid'', Some (jsonString (clTenant c))),
      (''oid'', Some (jsonString (clObject c))), (''appid'', Some (jsonString (clApp c))),
      (''azp'', Some (jsonString (clAZP c)))])"

definition tokenPrincipal :: "world \<Rightarrow> env \<Rightarrow> string \<Rightarrow> string option" where
  "tokenPrincipal W E token =
     (if \<not> wHeaderValid W token then None else
      case splitChar (CHR ''.'') token of
        [h, payload, s] \<Rightarrow>
          (case b64Loose payload of None \<Rightarrow> None | Some raw \<Rightarrow>
          (case wClaims W raw of None \<Rightarrow> None | Some c \<Rightarrow>
            if trimRightChar (clAudience c) (CHR ''/'') \<noteq> ''https://ai.azure.com'' \<or>
               \<not> SafeString (clTenant c) 512 \<or> \<not> SafeString (clObject c) 512 then None
            else Some (principalDigest E c)))
      | _ \<Rightarrow> None)"

definition principalChange :: "string \<Rightarrow> brokerLedger \<Rightarrow> brokerError + brokerLedger" where
  "principalChange digest l = Inr (l\<lparr>blPrincipalDigest := digest\<rparr>)"

definition pinDigest :: "env \<Rightarrow> saveIO \<Rightarrow> string \<Rightarrow> broker \<Rightarrow> brokerError option \<times> broker" where
  "pinDigest E io digest b =
     (if blPrincipalDigest (bkLedger b) = digest then (if bkStorageError b then Some ErrStorage else None, b)
      else if blPrincipalDigest (bkLedger b) \<noteq> [] then (Some ErrConflict, b)
      else commitLocked E io (principalChange digest) b)"

definition pinPrincipal :: "world \<Rightarrow> env \<Rightarrow> string \<Rightarrow> brokerError option action" where
  "pinPrincipal W E token = (case tokenPrincipal W E token of None \<Rightarrow> ret (Some ErrRemote)
     | Some digest \<Rightarrow> locked W (\<lambda>t b. pinDigest E (wIO W t) digest b))"

section \<open>Requests\<close>

definition remoteURL :: "brokerConfiguration \<Rightarrow> string \<Rightarrow> string" where
  "remoteURL cfg suffix =
     trimRightChar (htProjectEndpoint (acHostedTarget (cfAgent cfg))) (CHR ''/'') @ ''/agents/'' @
     pathEscape (htAgentName (acHostedTarget (cfAgent cfg))) @ suffix @ ''?api-version=v1''"

definition prepareRemoteRequest :: "world \<Rightarrow> env \<Rightarrow> brokerConfiguration \<Rightarrow> string \<Rightarrow> string \<Rightarrow> string \<Rightarrow>
    (brokerError + remoteRequest) action" where
  "prepareRemoteRequest W E cfg method suffix body = do {
     token \<leftarrow> ask (wToken W);
     (case token of None \<Rightarrow> ret (Inl (ErrUnsent ErrRemote)) | Some tk \<Rightarrow> do {
       e \<leftarrow> pinPrincipal W E tk;
       (case e of Some err \<Rightarrow> ret (Inl (ErrUnsent err)) | None \<Rightarrow>
         if \<not> wURLParses W (remoteURL cfg suffix) then ret (Inl (ErrUnsent ErrRemote)) else do {
           done \<leftarrow> ask (wDone W);
           ret (if done then Inl (ErrUnsent ErrClosed)
             else Inr \<lparr>rmMethod = method, rmURL = remoteURL cfg suffix, rmAuthorization = ''Bearer '' @ tk,
               rmBody = body\<rparr>)})})}"

text \<open>\<open>done\<close> is the context of this request.\<close>

definition sendRemoteRequest :: "world \<Rightarrow> (nat \<Rightarrow> bool) \<Rightarrow> remoteRequest \<Rightarrow>
    (brokerError + remoteReply) action" where
  "sendRemoteRequest W done request = do {
     d \<leftarrow> ask done;
     if d then ret (Inl (ErrUnsent ErrClosed)) else do {
       reply \<leftarrow> ask (\<lambda>t. wSend W t request);
       ret (case reply of None \<Rightarrow> Inl ErrAmbiguous | Some r \<Rightarrow> Inr r)}}"

text \<open>\<open>io.ReadAll(io.LimitReader(body, limit+1))\<close> with the length check.\<close>

definition readLimited :: "nat \<Rightarrow> remoteReply \<Rightarrow> string option" where
  "readLimited limit r = (if length (ryBody r) > limit \<or> ryFails r then None else Some (ryBody r))"

text \<open>The status, the error and the decoded target. \<open>decode\<close> is \<open>None\<close> for a nil target.\<close>

definition remoteJSONRequest :: "world \<Rightarrow> (nat \<Rightarrow> bool) \<Rightarrow> (string \<Rightarrow> 'a option) option \<Rightarrow> remoteRequest \<Rightarrow>
    (nat \<times> brokerError option \<times> 'a option) action" where
  "remoteJSONRequest W done decode request = do {
     sent \<leftarrow> sendRemoteRequest W done request;
     ret (case sent of Inl e \<Rightarrow> (0, Some e, None) | Inr r \<Rightarrow>
       (case readLimited MaxAgentConfigBytes r of None \<Rightarrow> (ryStatus r, Some ErrRemote, None)
        | Some data \<Rightarrow>
          (case decode of None \<Rightarrow> (ryStatus r, None, None) | Some dec \<Rightarrow>
            if 200 \<le> ryStatus r \<and> ryStatus r < 300 then
              (case dec data of None \<Rightarrow> (ryStatus r, Some ErrRemote, None)
               | Some x \<Rightarrow> (ryStatus r, None, Some x))
            else (ryStatus r, None, None))))}"

definition remoteJSON :: "world \<Rightarrow> env \<Rightarrow> brokerConfiguration \<Rightarrow> string \<Rightarrow> string \<Rightarrow> string \<Rightarrow>
    (string \<Rightarrow> 'a option) option \<Rightarrow> (nat \<times> brokerError option \<times> 'a option) action" where
  "remoteJSON W E cfg method suffix body decode = do {
     p \<leftarrow> prepareRemoteRequest W E cfg method suffix body;
     (case p of Inl e \<Rightarrow> ret (0, Some e, None)
      | Inr request \<Rightarrow> remoteJSONRequest W (wDone W) decode request)}"

section \<open>The target\<close>

definition entraOnly :: "world \<Rightarrow> string list \<Rightarrow> bool" where
  "entraOnly W schemes \<longleftrightarrow> list_all (\<lambda>raw. case wScheme W raw of None \<Rightarrow> False
     | Some kind \<Rightarrow> equalFold kind ''entra'') schemes"

definition validateRemoteTarget :: "world \<Rightarrow> env \<Rightarrow> brokerConfiguration \<Rightarrow> brokerError option action" where
  "validateRemoteTarget W E cfg = do {
     (status, e, agent) \<leftarrow> remoteJSON W E cfg ''GET'' [] [] (Some (wAgent W));
     (case (e, agent) of
        (None, Some a) \<Rightarrow>
          if status \<noteq> 200 \<or> raName a \<noteq> htAgentName (acHostedTarget (cfAgent cfg)) \<or> raSchemes a = [] \<or>
             \<not> entraOnly W (raSchemes a) then ret (Some ErrRemote)
          else do {
            (status2, e2, version) \<leftarrow> remoteJSON W E cfg ''GET''
              (''/versions/'' @ pathEscape (htAgentVersion (acHostedTarget (cfAgent cfg)))) []
              (Some (wVersion W));
            ret (case (e2, version) of
                (None, Some v) \<Rightarrow>
                  if status2 \<noteq> 200 \<or> rvName v \<noteq> htAgentName (acHostedTarget (cfAgent cfg)) \<or>
                     rvVersion v \<noteq> htAgentVersion (acHostedTarget (cfAgent cfg)) \<or>
                     rvStatus v \<noteq> ''active'' \<or> rvKind v \<noteq> ''hosted'' then Some ErrRemote else None
              | _ \<Rightarrow> Some ErrRemote)}
      | _ \<Rightarrow> ret (Some ErrRemote))}"

section \<open>Sessions\<close>

definition remoteSessionMatches :: "brokerConfiguration \<Rightarrow> remoteSession \<Rightarrow> string \<Rightarrow> bool" where
  "remoteSessionMatches cfg v sid \<longleftrightarrow> rsID v = sid \<and> rsVersionType v = ''version_ref'' \<and>
     rsVersion v = htAgentVersion (acHostedTarget (cfAgent cfg))"

text \<open>The status field is \<open>None\<close> when no session document was decoded.\<close>

definition remoteSessionGet :: "world \<Rightarrow> env \<Rightarrow> brokerConfiguration \<Rightarrow> string \<Rightarrow>
    (string option \<times> nat \<times> brokerError option) action" where
  "remoteSessionGet W E cfg sid = do {
     (status, e, session) \<leftarrow> remoteJSON W E cfg ''GET'' (SessionSuffix sid) [] (Some (wSession W));
     ret (map_option rsStatus session, status,
       if e = None \<and> status = 200 \<and>
          \<not> (case session of None \<Rightarrow> False | Some s \<Rightarrow> remoteSessionMatches cfg s sid)
       then Some ErrConflict else e)}"

definition sessionCreateBody :: "brokerConfiguration \<Rightarrow> string \<Rightarrow> string" where
  "sessionCreateBody cfg sid = jsonObject
     [(''agent_session_id'', Some (jsonString sid)),
      (''version_indicator'', Some (jsonObject
         [(''agent_version'', Some (jsonString (htAgentVersion (acHostedTarget (cfAgent cfg))))),
          (''type'', Some (jsonString ''version_ref''))]))]"

definition prepareRemoteSessionCreate :: "world \<Rightarrow> env \<Rightarrow> brokerConfiguration \<Rightarrow> string \<Rightarrow>
    (brokerError + remoteRequest) action" where
  "prepareRemoteSessionCreate W E cfg sid =
     prepareRemoteRequest W E cfg ''POST'' ''/endpoint/sessions'' (sessionCreateBody cfg sid)"

definition remoteSessionCreate :: "world \<Rightarrow> brokerConfiguration \<Rightarrow> remoteRequest \<Rightarrow> string \<Rightarrow>
    (bool \<times> brokerError option) action" where
  "remoteSessionCreate W cfg request sid = do {
     (status, e, session) \<leftarrow> remoteJSONRequest W (wCreateDone W) (Some (wSession W)) request;
     ret (case e of
         Some err \<Rightarrow> if errIsUnsent err then (False, Some err) else (False, Some ErrAmbiguous)
       | None \<Rightarrow>
           if DefiniteRejection status then (False, None)
           else if status \<noteq> 201 \<or> \<not> (case session of None \<Rightarrow> False
             | Some s \<Rightarrow> remoteSessionMatches cfg s sid) then (False, Some ErrAmbiguous)
           else (True, None))}"

text \<open>The poll after a stop, with fuel for its unbounded loop: \<open>None\<close> when the fuel ran out.\<close>

fun stopPoll :: "nat \<Rightarrow> world \<Rightarrow> env \<Rightarrow> brokerConfiguration \<Rightarrow> string \<Rightarrow>
    brokerError option option action" where
  "stopPoll 0 W E cfg sid = ret None"
| "stopPoll (Suc fuel) W E cfg sid = do {
     (current, status, e) \<leftarrow> remoteSessionGet W E cfg sid;
     if e \<noteq> None \<or> status \<noteq> 200 then ret (Some (Some ErrPending))
     else if current = Some ''idle'' then ret (Some None)
     else do {
       done \<leftarrow> ask (wDone W);
       if done then ret (Some (Some ErrPending)) else stopPoll fuel W E cfg sid}}"

definition remoteSessionStop :: "nat \<Rightarrow> world \<Rightarrow> env \<Rightarrow> brokerConfiguration \<Rightarrow> string \<Rightarrow>
    brokerError option option action" where
  "remoteSessionStop fuel W E cfg sid = do {
     (current, status, e) \<leftarrow> remoteSessionGet W E cfg sid;
     if e \<noteq> None \<or> status \<noteq> 200 then ret (Some (Some ErrPending))
     else do {
       (status2, e2, u) \<leftarrow> remoteJSON W E cfg ''POST'' (SessionSuffix sid @ '':stop'') []
         (None :: (string \<Rightarrow> unit option) option);
       if e2 \<noteq> None \<or> (status2 \<noteq> 204 \<and> status2 \<noteq> 409) then ret (Some (Some ErrPending))
       else stopPoll fuel W E cfg sid}}"

definition remoteSessionDelete :: "world \<Rightarrow> env \<Rightarrow> brokerConfiguration \<Rightarrow> string \<Rightarrow>
    brokerError option action" where
  "remoteSessionDelete W E cfg sid = do {
     (x, status, e) \<leftarrow> remoteSessionGet W E cfg sid;
     if e \<noteq> None \<or> (status \<noteq> 200 \<and> status \<noteq> 404) then ret (Some ErrPending)
     else do {
       (status2, e2, u) \<leftarrow> remoteJSON W E cfg ''DELETE'' (SessionSuffix sid) []
         (None :: (string \<Rightarrow> unit option) option);
       if e2 \<noteq> None \<or> status2 \<noteq> 204 then ret (Some ErrPending)
       else do {
         (y, status3, e3) \<leftarrow> remoteSessionGet W E cfg sid;
         ret (if e3 \<noteq> None \<or> status3 \<noteq> 404 then Some ErrPending else None)}}}"

end
