(* ===== verification/BrokerAgentKit.thy ===== *)
theory BrokerAgentKit
  imports BrokerRemote StrictJson
begin

text \<open>
  \<^verbatim>\<open>src/internal/broker/agentkit.go\<close> and \<^verbatim>\<open>src/internal/broker/response_diagnostics.go\<close>: the
  normalisation of governed tool results before they are sent on, and the one bounded log
  record of a rejected response. The record \<^emph>\<open>brokerJson\<close> holds the typed JSON decoders and
  encoders these files and \<^verbatim>\<open>responses.go\<close> call.
\<close>

record toolResult =
  trContent :: "(string \<times> string option) list option"
  trIsError :: "bool option"
  trStructured :: string

record evidence =
  edID :: string
  edStatus :: string
  edAgentSessionID :: string
  edError :: "responseError option"
  edIncomplete :: "string option"

record frame =
  frType :: string
  frResponse :: "string option"
  frError :: "responseError option"

record brokerJson =
  bjModelRequest :: "string \<Rightarrow> (responseRequest \<times> string) option"
  bjFields :: "string \<Rightarrow> (string \<times> string) list option"
  bjSchema :: "string \<Rightarrow> bool"
  bjToolResult :: "string \<Rightarrow> toolResult option"
  bjCompact :: "string \<Rightarrow> string option"
  bjOutcome :: "string \<Rightarrow> (bool \<times> string) option"
  bjMarshalRequest :: "responseRequest \<Rightarrow> string \<Rightarrow> string option"
  bjMediaType :: "string \<Rightarrow> string option"
  bjEvidence :: "string \<Rightarrow> evidence option"
  bjFrame :: "string \<Rightarrow> frame option"
  bjErrorRaw :: "string \<Rightarrow> string option"
  bjUpstream :: "string \<Rightarrow> string option"
  bjInt :: "string \<Rightarrow> int option"
  bjResponses :: jsonEnv

section \<open>Tool results (agentkit.go)\<close>

definition brokerAgentKitProofValid :: "string \<Rightarrow> bool" where
  "brokerAgentKitProofValid v \<longleftrightarrow> v = [] \<or>
     (32 \<le> length v \<and> utf8Valid v \<and> SafeString v 16384 \<and> \<not> list_ex isSpace (runes v))"

text \<open>The proof is added only when the input is a non-empty list of outputs.\<close>

definition requestProof :: "brokerConfiguration \<Rightarrow> responseRequest \<Rightarrow> string" where
  "requestProof cfg request = (case rrInput request of
     JArr inputs \<Rightarrow> if inputs \<noteq> [] then cfAgentKitProof cfg else []
   | _ \<Rightarrow> [])"

definition marshalResponseRequest :: "brokerJson \<Rightarrow> brokerConfiguration \<Rightarrow> responseRequest \<Rightarrow> string option" where
  "marshalResponseRequest B cfg request = bjMarshalRequest B request (requestProof cfg request)"

text \<open>Known outcomes have a fixed message; the tool's own text is not used for them.\<close>

definition outcomeMessages :: "(string \<times> string) list" where
  "outcomeMessages =
     [(''approval_declined'', ''The tool call was declined.''),
      (''approval_expired'', ''The tool approval expired.''),
      (''approval_cancelled'', ''The tool call was cancelled.''),
      (''approval_stale'', ''The tool approval is no longer valid.''),
      (''tool_execution_failed'', ''MCP tool execution failed.''),
      (''tool_outcome_unknown'', ''The tool execution outcome is unknown; do not retry.'')]"

definition brokerOrkaToolError :: "brokerJson \<Rightarrow> string \<Rightarrow> string \<times> string" where
  "brokerOrkaToolError B raw = (case bjOutcome B raw of
     None \<Rightarrow> ([], [])
   | Some (isError, code) \<Rightarrow> if \<not> isError then ([], [])
       else (case map_of outcomeMessages code of None \<Rightarrow> ([], []) | Some message \<Rightarrow> (code, message)))"

fun contentTexts :: "(string \<times> string option) list \<Rightarrow> string list option" where
  "contentTexts [] = Some []"
| "contentTexts ((kind, text) # rest) = (case text of None \<Rightarrow> None | Some t \<Rightarrow>
     if kind \<noteq> ''text'' then None else map_option (\<lambda>ts. t # ts) (contentTexts rest))"

definition contentJSON :: "string \<times> string option \<Rightarrow> string" where
  "contentJSON c = jsonObject [(''type'', Some (jsonString (fst c))),
     (''text'', Some (case snd c of None \<Rightarrow> ''null'' | Some t \<Rightarrow> jsonString t))]"

text \<open>One tool output: the normalised envelope, \<open>None\<close> for \<open>errBrokerInvalid\<close>.\<close>

definition normalizeOutput :: "brokerJson \<Rightarrow> string \<Rightarrow> string option" where
  "normalizeOutput B output = (case bjToolResult B output of None \<Rightarrow> None | Some result \<Rightarrow>
     (case (trContent result, trIsError result) of
        (Some contents, Some isError) \<Rightarrow>
          (case contentTexts contents of None \<Rightarrow> None | Some texts \<Rightarrow>
           if trStructured result \<noteq> [] \<and> hd (trStructured result) \<noteq> CHR 0x7B then None else
           (let message0 = joinWith [CHR 0x0A] texts;
                message = (if message0 = [] then ''The governed tool returned an error.'' else message0);
                encoded = (if isError then
                   (let safe = brokerOrkaToolError B (trStructured result);
                        code = (if fst safe \<noteq> [] then fst safe else ''brokered_tool_error'');
                        text = (if fst safe \<noteq> [] then snd safe else message)
                    in Some (jsonObject [(''approved'', Some ''false''),
                         (''error'', Some (jsonObject [(''code'', Some (jsonString code)),
                            (''message'', Some (jsonString text))]))]))
                 else
                   (case (if trStructured result = [] then Some None
                          else map_option Some (bjCompact B (trStructured result))) of
                      None \<Rightarrow> None
                    | Some structured \<Rightarrow> Some (jsonObject [(''approved'', Some ''true''),
                        (''output'', Some (jsonObject
                          [(''content'', Some (''['' @ joinWith '','' (map contentJSON contents) @ '']'')),
                           (''isError'', Some ''false''), (''structuredContent'', structured)]))])))
            in case encoded of None \<Rightarrow> None | Some e \<Rightarrow>
                 if length e > DefaultMaxBrokeredBytes then None else Some e))
      | _ \<Rightarrow> None))"

text \<open>\<open>item["output"] = string(encoded)\<close> on a decoded object, which holds one member per name.\<close>

definition jsonGet :: "(string \<times> json) list \<Rightarrow> string \<Rightarrow> json option" where
  "jsonGet members name = map_of members name"

definition jsonSet :: "string \<Rightarrow> json \<Rightarrow> (string \<times> json) list \<Rightarrow> (string \<times> json) list" where
  "jsonSet name v members = map (\<lambda>m. if fst m = name then (name, v) else m) members"

fun agentKitItems :: "brokerJson \<Rightarrow> json list \<Rightarrow> json list option" where
  "agentKitItems B [] = Some []"
| "agentKitItems B (input # rest) = (case input of
     JObj members \<Rightarrow>
       (case jsonGet members ''output'' of
          Some (JStr output) \<Rightarrow>
            (case normalizeOutput B output of None \<Rightarrow> None | Some encoded \<Rightarrow>
               map_option (\<lambda>items. JObj (jsonSet ''output'' (JStr encoded) members) # items) (agentKitItems B rest))
        | _ \<Rightarrow> None)
   | _ \<Rightarrow> None)"

definition brokerAgentKitOutputs :: "brokerJson \<Rightarrow> responseRequest \<Rightarrow> brokerError + responseRequest" where
  "brokerAgentKitOutputs B request = (case rrInput request of
     JStr text \<Rightarrow> Inr request
   | JArr inputs \<Rightarrow> if inputs = [] then Inl ErrInvalid else
       (case agentKitItems B inputs of None \<Rightarrow> Inl ErrInvalid
        | Some items \<Rightarrow> Inr (request\<lparr>rrInput := JArr items\<rparr>))
   | _ \<Rightarrow> Inl ErrInvalid)"

section \<open>Diagnostics (response\_diagnostics.go)\<close>

record diagnostic =
  dgStage :: string
  dgHTTPStatus :: nat
  dgAccepted :: bool
  dgStreamComplete :: bool
  dgTerminalFrames :: nat
  dgTerminalStatus :: string
  dgErrorCode :: string
  dgUpstreamStatus :: int

definition safeCodes :: "string list" where
  "safeCodes = [''ModelAuthMissing'', ''ModelAuthRejected'', ''ModelUnavailable'', ''ModelUpstreamError'',
     ''InvalidModelResponse'', ''ModelResponseTooLarge'', ''ModelResumeError'',
     ''tool_loop_limit_exceeded'', ''brokered_response_state_storage_error'',
     ''brokered_response_state_too_large'', ''brokered_response_state_full'']"

definition brokerSafeResponseCode :: "string \<Rightarrow> string" where
  "brokerSafeResponseCode code = (if code \<in> set safeCodes then code else ''unknown'')"

definition observe :: "brokerJson \<Rightarrow> string \<Rightarrow> response \<Rightarrow> diagnostic \<Rightarrow> diagnostic" where
  "observe B raw r d0 =
     (let d = d0\<lparr>dgAccepted := True\<rparr> in
      if rpStatus r \<notin> {''completed'', ''failed'', ''incomplete'', ''cancelled''} then d else
      (let d1 = d\<lparr>dgTerminalFrames := Suc (dgTerminalFrames d)\<rparr> in
       if dgTerminalFrames d1 \<noteq> 1
       then d1\<lparr>dgTerminalStatus := ''multiple'', dgErrorCode := [], dgUpstreamStatus := 0\<rparr>
       else (let d2 = d1\<lparr>dgTerminalStatus := rpStatus r\<rparr> in
         (case rpError r of None \<Rightarrow> d2 | Some err \<Rightarrow>
           (let d3 = d2\<lparr>dgErrorCode := brokerSafeResponseCode (reCode err)\<rparr> in
            if dgErrorCode d3 = ''unknown'' then d3 else
            (case Option.bind (bjErrorRaw B raw) (\<lambda>e. Option.bind (bjUpstream B e) (bjInt B)) of
               None \<Rightarrow> d3
             | Some status \<Rightarrow>
                 if 400 \<le> status \<and> status \<le> 599 then d3\<lparr>dgUpstreamStatus := status\<rparr> else d3))))))"

text \<open>The attributes of the log record.\<close>

definition logResponseFailure :: "env \<Rightarrow> brokerContext \<Rightarrow> diagnostic \<Rightarrow> (string \<times> string) list" where
  "logResponseFailure E c d =
     [(''stage'', dgStage d), (''owner_digest'', ownerKey E (bcOwner c)),
      (''invocation_sequence'', formatUint (unat (bcInvocationSequence c))),
      (''response_acknowledged'', if dgAccepted d then ''true'' else ''false''),
      (''stream_complete'', if dgStreamComplete d then ''true'' else ''false''),
      (''terminal_frames'', formatUint (dgTerminalFrames d))] @
     (if 100 \<le> dgHTTPStatus d \<and> dgHTTPStatus d \<le> 599
      then [(''http_status'', formatUint (dgHTTPStatus d))] else []) @
     (if dgTerminalStatus d \<noteq> [] then [(''observed_terminal_status'', dgTerminalStatus d)] else []) @
     (if dgErrorCode d \<noteq> [] then [(''error_code'', dgErrorCode d)] else []) @
     (if dgUpstreamStatus d \<noteq> 0 then [(''upstream_status'', formatUint (nat (dgUpstreamStatus d)))] else [])"

end
