(* ===== verification/FoundryStrict.thy ===== *)
theory FoundryStrict
  imports FoundryResponses
begin

text \<open>
  \<^verbatim>\<open>src/internal/foundry/strict_responses.go\<close>: the strict decoder of one response document
  and the strict SSE reader that admits a model's answer. Both have a single error, so a
  result is an option. The reader keeps the summary, whether the terminal event and \<open>[DONE]\<close>
  were seen, the number of events and the function-call items that are still open.
\<close>

section \<open>Lines (bufio.Scanner)\<close>

text \<open>
  \<open>bufio.ScanLines\<close>: lines without their newline and one carriage return; an empty rest is no
  line. A line that fills the scanner's buffer stops the scan with an error: \<open>scanLines\<close> gives
  the lines before it and whether all were delivered.
\<close>

fun rawLines :: "string \<Rightarrow> string list" where
  "rawLines [] = []"
| "rawLines (c # s) = (if c = CHR 0x0A then [] # rawLines s
     else (case rawLines s of [] \<Rightarrow> [[c]] | l # ls \<Rightarrow> (c # l) # ls))"

definition dropCR :: "string \<Rightarrow> string" where
  "dropCR line = (if line \<noteq> [] \<and> last line = CHR 0x0D then butlast line else line)"

definition scanLines :: "nat \<Rightarrow> string \<Rightarrow> string list \<times> bool" where
  "scanLines maxToken s =
     (map dropCR (takeWhile (\<lambda>l. length l < maxToken) (rawLines s)),
      list_all (\<lambda>l. length l < maxToken) (rawLines s))"

section \<open>Documents\<close>

definition decodeOutputItem :: "jsonEnv \<Rightarrow> string \<Rightarrow> bool \<Rightarrow> outputItem option" where
  "decodeOutputItem J data done = (case jeItemStrict J data of None \<Rightarrow> None | Some e \<Rightarrow>
     if done \<and> ieStatus e \<noteq> [] \<and> ieStatus e \<noteq> ''completed'' then None
     else if oiType (ieItem e) = ''message'' then
       (if ieRole e \<noteq> [] \<and> ieRole e \<noteq> ''assistant'' then None
        else if \<not> list_all (\<lambda>c. ocType c = ''output_text'') (oiContent (ieItem e)) then None
        else Some (ieItem e))
     else if oiType (ieItem e) = ''function_call'' \<or> oiType (ieItem e) = ''reasoning'' then Some (ieItem e)
     else None)"

fun decodeItems :: "jsonEnv \<Rightarrow> string list \<Rightarrow> outputItem list option" where
  "decodeItems J [] = Some []"
| "decodeItems J (raw # raws) = (case decodeOutputItem J raw True of None \<Rightarrow> None | Some item \<Rightarrow>
     map_option (\<lambda>items. item # items) (decodeItems J raws))"

text \<open>The members whose name folds to \<open>output\<close>: at most one is allowed.\<close>

definition DecodeResponse :: "jsonEnv \<Rightarrow> string \<Rightarrow> response option" where
  "DecodeResponse J data = (case jeResponseStrict J data of None \<Rightarrow> None | Some r \<Rightarrow>
     if rpID r = [] \<or> \<not> ValidateIdentifier (rpID r) \<or> rpError r \<noteq> None \<or> rpIncomplete r \<noteq> None then None
     else (case jeFields J data of None \<Rightarrow> None | Some members \<Rightarrow>
       (case filter (\<lambda>m. equalFold (fst m) ''output'') members of
          [] \<Rightarrow> Some (r\<lparr>rpOutput := []\<rparr>)
        | [m] \<Rightarrow> (case jeArray J (snd m) of None \<Rightarrow> None
            | Some raws \<Rightarrow> map_option (\<lambda>items. r\<lparr>rpOutput := items\<rparr>) (decodeItems J raws))
        | _ \<Rightarrow> None)))"

definition ValidateSummary :: "streamSummary \<Rightarrow> bool" where
  "ValidateSummary summary \<longleftrightarrow> \<not> (ssStatus summary \<noteq> ''completed'' \<or> ssResponseID summary = [] \<or>
     \<not> ValidateIdentifier (ssResponseID summary) \<or> ssError summary \<noteq> None \<or> ssIncomplete summary \<noteq> None \<or>
     length (ssText summary) > DefaultMaxOutputBytes \<or>
     length (ssFunctionCalls summary) > DefaultMaxBrokeredCalls)"

section \<open>The strict stream\<close>

record strictState =
  stcSummary :: streamSummary
  stcTerminal :: bool
  stcDone :: bool
  stcEvents :: nat
  stcPending :: "string fset"

definition envelopeNames :: "string list" where
  "envelopeNames = [''type'', ''delta'', ''sequence_number'', ''response'', ''item'', ''error'', ''item_id'']"

text \<open>Folding the members of the envelope: \<open>None\<close> when two fold to one name.\<close>

fun foldFields :: "(string \<times> string) list \<Rightarrow> (string \<times> string) list \<Rightarrow> (string \<times> string) list option" where
  "foldFields [] fs = Some fs"
| "foldFields ((key, v) # rest) fs = (case find (\<lambda>name. equalFold key name) envelopeNames of
     None \<Rightarrow> foldFields rest fs
   | Some name \<Rightarrow> if map_of fs name \<noteq> None then None else foldFields rest ((name, v) # fs))"

definition fieldOf :: "(string \<times> string) list \<Rightarrow> string \<Rightarrow> string" where
  "fieldOf fs name = (case map_of fs name of None \<Rightarrow> [] | Some v \<Rightarrow> v)"

definition closeCalls :: "outputItem list \<Rightarrow> string fset \<Rightarrow> string fset" where
  "closeCalls items pend = fold (\<lambda>i p. if oiType i = ''function_call'' then p |-| {|oiID i|} else p) items pend"

definition passiveEvents :: "string list" where
  "passiveEvents = [''response.output_text.done'', ''response.content_part.added'',
     ''response.content_part.done'', ''response.reasoning_summary_text.delta'',
     ''response.reasoning_summary_text.done'', ''response.reasoning_summary_part.added'',
     ''response.reasoning_summary_part.done'', ''response.reasoning_text.delta'',
     ''response.reasoning_text.done'']"

text \<open>The switch on the event type: the event to apply (its item may be replaced), the terminal
  flag and the open function calls.\<close>

definition strictSwitch :: "jsonEnv \<Rightarrow> (string \<times> string) list \<Rightarrow> responseEvent \<Rightarrow> strictState \<Rightarrow>
    (responseEvent \<times> bool \<times> string fset) option" where
  "strictSwitch J fs event st =
     (if evType event \<in> {''response.created'', ''response.in_progress'', ''response.queued''} then
        (case evResponse event of None \<Rightarrow> None | Some r \<Rightarrow>
          if rpStatus r \<noteq> ''in_progress'' \<and> rpStatus r \<noteq> ''queued'' then None
          else Some (event, stcTerminal st, stcPending st))
      else if evType event = ''response.completed'' then
        (case evResponse event of None \<Rightarrow> None | Some r \<Rightarrow>
          if rpStatus r \<noteq> ''completed'' \<or> closeCalls (rpOutput r) (stcPending st) \<noteq> {||} then None
          else Some (event, True, {||}))
      else if evType event = ''response.output_item.added'' \<or> evType event = ''response.output_item.done'' then
        (case decodeOutputItem J (fieldOf fs ''item'') (evType event = ''response.output_item.done'') of
           None \<Rightarrow> None
         | Some item \<Rightarrow>
             if oiType item \<noteq> ''function_call'' then
               Some (event\<lparr>evItem := Some item\<rparr>, stcTerminal st, stcPending st)
             else if evType event = ''response.output_item.added'' then
               (if \<not> SafeString (oiID item) MaxIdentifierBytes then None
                else Some (event\<lparr>evItem := Some item\<rparr>, stcTerminal st, finsert (oiID item) (stcPending st)))
             else Some (event\<lparr>evItem := Some item\<rparr>, stcTerminal st, stcPending st |-| {|oiID item|}))
      else if evType event = ''response.function_call_arguments.delta'' \<or>
              evType event = ''response.function_call_arguments.done'' then
        (case jeString J (fieldOf fs ''item_id'') of None \<Rightarrow> None | Some itemID \<Rightarrow>
          if \<not> SafeString itemID MaxIdentifierBytes then None
          else Some (event, stcTerminal st, finsert itemID (stcPending st)))
      else if evType event = ''response.output_text.delta'' then
        (if fieldOf fs ''delta'' = [] \<or> hd (fieldOf fs ''delta'') \<noteq> CHR 0x22 \<or>
            length (ssText (stcSummary st)) + length (evDelta event) > DefaultMaxOutputBytes then None
         else Some (event, stcTerminal st, stcPending st))
      else if evType event \<in> set passiveEvents then Some (event, stcTerminal st, stcPending st)
      else None)"

definition strictResponse :: "jsonEnv \<Rightarrow> (string \<times> string) list \<Rightarrow> streamSummary \<Rightarrow> responseEvent \<Rightarrow>
    responseEvent option" where
  "strictResponse J fs summary event = (case evResponse event of None \<Rightarrow> Some event | Some _ \<Rightarrow>
     (case DecodeResponse J (fieldOf fs ''response'') of None \<Rightarrow> None | Some r \<Rightarrow>
       if ssResponseID summary \<noteq> [] \<and> ssResponseID summary \<noteq> rpID r then None
       else Some (event\<lparr>evResponse := Some r\<rparr>)))"

definition strictApply :: "jsonEnv \<Rightarrow> string \<Rightarrow> strictState \<Rightarrow> strictState option" where
  "strictApply J data st0 =
     (if data = [] then Some st0 else
      (let st = st0\<lparr>stcEvents := Suc (stcEvents st0)\<rparr> in
       if stcEvents st > DefaultMaxEvents \<or> stcDone st then None
       else if isDone data then (if \<not> stcTerminal st then None else Some (st\<lparr>stcDone := True\<rparr>))
       else if stcTerminal st then None
       else (case (jeEventStrict J data, jeFields J data) of
           (Some event, Some raw) \<Rightarrow>
             (case foldFields raw [] of None \<Rightarrow> None | Some fs \<Rightarrow>
             (case strictResponse J fs (stcSummary st) event of None \<Rightarrow> None | Some event1 \<Rightarrow>
             (case strictSwitch J fs event1 st of None \<Rightarrow> None | Some (event2, terminal, pend) \<Rightarrow>
             (case applyEvent noCallbacks (stcSummary st) event2 () of Inl _ \<Rightarrow> None | Inr (summary, _) \<Rightarrow>
               if length (ssText summary) > DefaultMaxOutputBytes then None
               else Some (st\<lparr>stcSummary := summary, stcTerminal := terminal, stcPending := pend\<rparr>)))))
         | _ \<Rightarrow> None)))"

fun strictLoop :: "jsonEnv \<Rightarrow> string list \<Rightarrow> string \<Rightarrow> strictState \<Rightarrow> (string \<times> strictState) option" where
  "strictLoop J [] data st = Some (data, st)"
| "strictLoop J (line # rest) data st =
     (if line = [] then (case strictApply J data st of None \<Rightarrow> None | Some st' \<Rightarrow> strictLoop J rest [] st')
      else if hasPrefix line ''data:'' then
        (let part = trimPrefix (drop 5 line) '' '' in
         if length data + length part + 1 > DefaultMaxEventBytes then None
         else strictLoop J rest (if data \<noteq> [] then data @ [CHR 0x0A] @ part else part) st)
      else if \<not> hasPrefix line '':'' \<and> \<not> hasPrefix line ''event:'' \<and> \<not> hasPrefix line ''id:'' \<and>
              \<not> hasPrefix line ''retry:'' then None
      else strictLoop J rest data st)"

definition ParseStrictSSE :: "jsonEnv \<Rightarrow> string \<Rightarrow> streamSummary option" where
  "ParseStrictSSE J body =
     (case scanLines DefaultMaxEventBytes (take (DefaultMaxStreamBytes + 1) body) of (ls, delivered) \<Rightarrow>
      (case strictLoop J ls [] \<lparr>stcSummary = emptySummary, stcTerminal = False, stcDone = False,
              stcEvents = 0, stcPending = {||}\<rparr> of
         None \<Rightarrow> None
       | Some (data, st) \<Rightarrow>
           if \<not> delivered \<or> length body > DefaultMaxStreamBytes \<or> data \<noteq> [] \<or> \<not> stcTerminal st \<or>
              \<not> ValidateSummary (stcSummary st) then None
           else Some (stcSummary st)))"

end
