(* ===== verification/BrokerInvoke.thy ===== *)
theory BrokerInvoke
  imports BrokerReconcile BrokerAgentKit FoundryStrict
begin

text \<open>
  \<^verbatim>\<open>src/internal/broker/responses.go\<close>: one inference request, from its reservation to the
  durable completion. First the ledger changes of its critical sections, then the request as
  one action that composes them with the remote calls the way \<open>invoke\<close> does. A change that
  follows a pointer of the ledger that is nil gives \<open>ErrPanic\<close>.
\<close>

section \<open>Reservation\<close>

text \<open>The rewriting of the follow-up inputs: local call aliases become remote call ids, each
  once.\<close>

fun translateItems :: "(string, string) fmap \<Rightarrow> string list \<Rightarrow> json list \<Rightarrow> json list option" where
  "translateItems callIDs seen [] = Some []"
| "translateItems callIDs seen (input # rest) = (case input of
     JObj item \<Rightarrow>
       if jsonGet item ''type'' \<noteq> Some (JStr ''function_call_output'') then None else
       (case (jsonGet item ''call_id'', jsonGet item ''output'') of
          (Some (JStr call), Some (JStr output)) \<Rightarrow>
            (case fmlookup callIDs call of None \<Rightarrow> None | Some remote \<Rightarrow>
              if call \<in> set seen \<or> length item \<noteq> 3 \<or> length output > DefaultMaxBrokeredBytes then None
              else map_option (\<lambda>items. JObj (jsonSet ''call_id'' (JStr remote) item) # items)
                (translateItems callIDs (call # seen) rest))
        | _ \<Rightarrow> None)
   | _ \<Rightarrow> None)"

definition brokerTranslatePrevious :: "brokerSession \<Rightarrow> string \<Rightarrow> bool \<Rightarrow> responseRequest \<Rightarrow>
    brokerError + responseRequest" where
  "brokerTranslatePrevious session pkey first request =
     (let previous = fmlookup (bsResponses session) (rrPreviousResponseID request) in
      if rrPreviousResponseID request \<noteq> [] \<and>
         (case previous of None \<Rightarrow> True | Some p \<Rightarrow> \<not> brCompleted p \<or> (first \<and> brHasFunctions p))
      then Inl ErrConflict
      else if \<not> first \<and> (case previous of None \<Rightarrow> True | Some p \<Rightarrow> brPromptKey p \<noteq> pkey) then Inl ErrConflict
      else if first then
        (case rrInput request of
           JStr text \<Rightarrow> Inr (case previous of None \<Rightarrow> request
             | Some p \<Rightarrow> request\<lparr>rrPreviousResponseID := brRemoteID p\<rparr>)
         | _ \<Rightarrow> Inl ErrInvalid)
      else (case (rrInput request, previous) of
          (JArr inputs, Some p) \<Rightarrow>
            if \<not> brHasFunctions p \<or> length inputs \<noteq> fmcard (brCallIDs p) then Inl ErrConflict else
            (case translateItems (brCallIDs p) [] inputs of None \<Rightarrow> Inl ErrConflict
             | Some items \<Rightarrow> Inr (request\<lparr>rrInput := JArr items, rrPreviousResponseID := brRemoteID p\<rparr>))
        | _ \<Rightarrow> Inl ErrConflict))"

definition reservedInvocation :: "brokerContext \<Rightarrow> brokerInvocation" where
  "reservedInvocation c = \<lparr>biSequence = bcInvocationSequence c, biOperationID = bcOperationID c,
     biBodyDigest = bcBodySHA256 c, biState = InvReserved, biResponseID = [], biResponseAlias = []\<rparr>"

definition reserveChange :: "env \<Rightarrow> brokerJson \<Rightarrow> int \<Rightarrow> string \<Rightarrow> brokerContext \<Rightarrow> responseRequest \<Rightarrow>
    brokerLedger \<Rightarrow> brokerError + brokerLedger \<times> responseRequest" where
  "reserveChange E B now proof c request l = (let key = ownerKey E (bcOwner c); pkey = promptKey E c in
     bindR (brokerEnsureSession E l c) (\<lambda>(session, l1).
     if bsRetiring session \<or> bsRetired session then Inl ErrClosed else
     bindR (brokerRecordOperation E session ResponsesPath c) (\<lambda>(duplicate, session1).
     if duplicate then Inl ErrConflict else
     bindR (brokerEnsurePrompt E session1 c) (\<lambda>(prompt, session2).
     if bpClosing prompt \<or> bpSettled prompt \<or> \<not> bpLeaseExpiresAt prompt > now then Inl ErrClosed else
     (let expires = (case parseTime E (bcLeaseExpiresAt c) of None \<Rightarrow> 0 | Some t \<Rightarrow> t) in
      if bcLeaseGeneration c \<noteq> bpLeaseGeneration prompt \<or> expires \<noteq> bpLeaseExpiresAt prompt \<or>
         bcInvocationSequence c \<le> bpLastSequence prompt then Inl ErrConflict
      else if bpLastSequence prompt \<noteq> 0 \<and> rrPreviousResponseID request \<noteq> bpLastAlias prompt
      then Inl ErrConflict
      else bindR (brokerTranslatePrevious session2 pkey (bpLastSequence prompt = 0) request) (\<lambda>request1.
        bindR (if proof \<noteq> [] then brokerAgentKitOutputs B request1 else Inr request1) (\<lambda>request2.
          Inr (putSession key (putPrompt pkey (prompt\<lparr>bpLastSequence := bcInvocationSequence c,
              bpInvocations := fmupd (bcInvocationSequence c) (reservedInvocation c) (bpInvocations prompt)\<rparr>)
              session2) l1, request2))))))))"

definition dropRequest :: "brokerError + 'a \<times> 'b \<Rightarrow> brokerError + 'a" where
  "dropRequest r = (case r of Inl e \<Rightarrow> Inl e | Inr (l, x) \<Rightarrow> Inr l)"

definition reserveInvocation :: "env \<Rightarrow> brokerJson \<Rightarrow> saveIO \<Rightarrow> int \<Rightarrow> brokerContext \<Rightarrow> responseRequest \<Rightarrow>
    broker \<Rightarrow> (brokerError + responseRequest) \<times> broker" where
  "reserveInvocation E B io now c request b =
     (let key = ownerKey E (bcOwner c);
          change = reserveChange E B now (cfAgentKitProof (bkCfg b)) c request in
      if bkStorageError b then (Inl ErrStorage, b)
      else if bkCancelled b then (Inl ErrClosed, b)
      else if fmlookup (bkActive b) key \<noteq> None then (Inl ErrConflict, b)
      else (case commitCapacityLocked E io True (\<lambda>l. dropRequest (change l)) b of
          (Some e, b') \<Rightarrow> (Inl e, b')
        | (None, b') \<Rightarrow>
            (case change (bkLedger b) of Inl e \<Rightarrow> (Inl e, b')
             | Inr (_, request') \<Rightarrow> (Inr request', b'\<lparr>bkActive :=
                 fmupd key \<lparr>baPrompt = promptKey E c, baCancelled = False\<rparr> (bkActive b')\<rparr>))))"

section \<open>Changes that follow the request's pointers\<close>

text \<open>\<open>next.Sessions[key]\<close>, its prompt and its invocation, updated in place.\<close>

definition onSession :: "string \<Rightarrow> (brokerSession \<Rightarrow> brokerError + brokerSession) \<Rightarrow> brokerLedger \<Rightarrow>
    brokerError + brokerLedger" where
  "onSession key f l = (case fmlookup (blSessions l) key of None \<Rightarrow> Inl ErrPanic
     | Some session \<Rightarrow> bindR (f session) (\<lambda>session'. Inr (putSession key session' l)))"

definition onPrompt :: "string \<Rightarrow> string \<Rightarrow> (brokerSession \<Rightarrow> brokerPrompt \<Rightarrow> brokerError + brokerPrompt) \<Rightarrow>
    brokerLedger \<Rightarrow> brokerError + brokerLedger" where
  "onPrompt key pkey f = onSession key (\<lambda>session. case fmlookup (bsPrompts session) pkey of None \<Rightarrow> Inl ErrPanic
     | Some prompt \<Rightarrow> bindR (f session prompt) (\<lambda>prompt'. Inr (putPrompt pkey prompt' session)))"

definition putInvocation :: "64 word \<Rightarrow> brokerInvocation \<Rightarrow> brokerPrompt \<Rightarrow> brokerPrompt" where
  "putInvocation seq iv prompt = prompt\<lparr>bpInvocations := fmupd seq iv (bpInvocations prompt)\<rparr>"

definition onInvocation :: "64 word \<Rightarrow> (brokerInvocation \<Rightarrow> brokerError + brokerPrompt) \<Rightarrow> brokerPrompt \<Rightarrow>
    brokerError + brokerPrompt" where
  "onInvocation seq f prompt = (case fmlookup (bpInvocations prompt) seq of None \<Rightarrow> Inl ErrPanic
     | Some iv \<Rightarrow> f iv)"

definition createIntentChange :: "int \<Rightarrow> bool \<Rightarrow> string \<Rightarrow> string \<Rightarrow> string \<Rightarrow> brokerLedger \<Rightarrow>
    brokerError + brokerLedger" where
  "createIntentChange now done key pkey remoteID = onSession key (\<lambda>session.
     case fmlookup (bsPrompts session) pkey of None \<Rightarrow> Inl ErrPanic | Some prompt \<Rightarrow>
       if bsRetiring session \<or> bpClosing prompt \<or> done \<or> \<not> bpLeaseExpiresAt prompt > now then Inl ErrClosed
       else Inr (session\<lparr>bsRemoteID := remoteID, bsCreateState := CreateIntent\<rparr>))"

definition createResultChange :: "bool \<Rightarrow> string \<Rightarrow> brokerLedger \<Rightarrow> brokerError + brokerLedger" where
  "createResultChange created key = onSession key (\<lambda>session.
     Inr (if created then session\<lparr>bsCreateState := CreateKnown\<rparr>
          else session\<lparr>bsRemoteID := [], bsCreateState := CreateNone\<rparr>))"

definition inferenceIntentChange :: "int \<Rightarrow> bool \<Rightarrow> string \<Rightarrow> string \<Rightarrow> 64 word \<Rightarrow> brokerLedger \<Rightarrow>
    brokerError + brokerLedger" where
  "inferenceIntentChange now done key pkey seq = onPrompt key pkey (\<lambda>session prompt.
     if bsRetiring session \<or> bpClosing prompt \<or> done \<or> \<not> bpLeaseExpiresAt prompt > now then Inl ErrClosed
     else onInvocation seq (\<lambda>iv. Inr (putInvocation seq (iv\<lparr>biState := InvIntent\<rparr>) prompt)) prompt)"

definition rejectChange :: "string \<Rightarrow> string \<Rightarrow> 64 word \<Rightarrow> brokerLedger \<Rightarrow> brokerError + brokerLedger" where
  "rejectChange key pkey seq = onPrompt key pkey (\<lambda>session prompt.
     onInvocation seq (\<lambda>iv. Inr (putInvocation seq (iv\<lparr>biState := InvRejected\<rparr>) prompt)) prompt)"

definition identityChange :: "string \<Rightarrow> string \<Rightarrow> 64 word \<Rightarrow> string \<Rightarrow> string \<Rightarrow> brokerLedger \<Rightarrow>
    brokerError + brokerLedger" where
  "identityChange key pkey seq responseID al = onSession key (\<lambda>session.
     case fmlookup (bsPrompts session) pkey of None \<Rightarrow> Inl ErrPanic | Some prompt \<Rightarrow>
     (case fmlookup (bpInvocations prompt) seq of None \<Rightarrow> Inl ErrPanic | Some iv \<Rightarrow>
       if fmexists (\<lambda>_ previous. brRemoteID previous = responseID) (bsResponses session) then Inl ErrConflict
       else Inr ((putPrompt pkey (putInvocation seq (iv\<lparr>biResponseID := responseID, biResponseAlias := al,
                biState := InvAccepted\<rparr>) prompt) session)\<lparr>bsResponses :=
              fmupd al \<lparr>brRemoteID = responseID, brPromptKey = pkey, brCompleted = False,
                brHasFunctions = False, brCallIDs = fmempty\<rparr> (bsResponses session)\<rparr>)))"

definition invocationAt :: "brokerLedger \<Rightarrow> string \<Rightarrow> string \<Rightarrow> 64 word \<Rightarrow> brokerInvocation option" where
  "invocationAt l key pkey seq = Option.bind (fmlookup (blSessions l) key) (\<lambda>session.
     Option.bind (fmlookup (bsPrompts session) pkey) (\<lambda>prompt. fmlookup (bpInvocations prompt) seq))"

text \<open>Only the first identity of an invocation changes the ledger; later events must repeat it.\<close>

definition recordIdentity :: "env \<Rightarrow> saveIO \<Rightarrow> string \<Rightarrow> brokerContext \<Rightarrow> string \<Rightarrow> broker \<Rightarrow>
    brokerError option \<times> broker" where
  "recordIdentity E io al c responseID b =
     (let key = ownerKey E (bcOwner c); pkey = promptKey E c; seq = bcInvocationSequence c in
      if bkStorageError b then (Some ErrStorage, b) else
      (case invocationAt (bkLedger b) key pkey seq of None \<Rightarrow> (Some ErrPanic, b) | Some iv \<Rightarrow>
        if biResponseID iv \<noteq> [] then
          (if biResponseID iv \<noteq> responseID then (Some ErrConflict, b) else (None, b))
        else commitLocked E io (identityChange key pkey seq responseID al) b))"

section \<open>Completion\<close>

text \<open>Fresh aliases for the function calls: the call map and the items with local identities.
  \<open>u n\<close> is the n-th fresh UUID of this section.\<close>

fun aliasCalls :: "(nat \<Rightarrow> string) \<Rightarrow> nat \<Rightarrow> string list \<Rightarrow> outputItem list \<Rightarrow> (string, string) fmap \<Rightarrow>
    ((string, string) fmap \<times> outputItem list) option" where
  "aliasCalls u n seen [] callIDs = Some (callIDs, [])"
| "aliasCalls u n seen (item # items) callIDs =
     (if \<not> SafeString (oiCallID item) MaxIdentifierBytes \<or> oiCallID item \<in> set seen then None
      else (let al = ''fc_'' @ u n in
        map_option (\<lambda>(m, outs). (m, item\<lparr>oiCallID := al, oiID := ''fi_'' @ u (Suc n)\<rparr> # outs))
          (aliasCalls u (n + 2) (oiCallID item # seen) items (fmupd al (oiCallID item) callIDs))))"

definition completedChange :: "(nat \<Rightarrow> string) \<Rightarrow> int \<Rightarrow> string \<Rightarrow> string \<Rightarrow> 64 word \<Rightarrow> streamSummary \<Rightarrow>
    brokerLedger \<Rightarrow> brokerError + brokerLedger \<times> response" where
  "completedChange u now key pkey seq summary l =
     (case fmlookup (blSessions l) key of None \<Rightarrow> Inl ErrPanic | Some session \<Rightarrow>
     (case fmlookup (bsPrompts session) pkey of None \<Rightarrow> Inl ErrPanic | Some prompt \<Rightarrow>
     (case fmlookup (bpInvocations prompt) seq of None \<Rightarrow> Inl ErrPanic | Some iv \<Rightarrow>
       if biResponseID iv \<noteq> ssResponseID summary \<or> biResponseAlias iv = [] then Inl ErrConflict
       else if bpClosing prompt \<or> \<not> bpLeaseExpiresAt prompt > now then Inl ErrClosed
       else (let texts = (if ssText summary \<noteq> []
                 then [\<lparr>oiID = ''fi_'' @ u 0, oiType = ''message'', oiCallID = [], oiName = [],
                    oiArguments = [], oiContent = [\<lparr>ocType = ''output_text'', ocText = ssText summary\<rparr>]\<rparr>]
                 else []);
              link0 = (case fmlookup (bsResponses session) (biResponseAlias iv) of
                 None \<Rightarrow> \<lparr>brRemoteID = [], brPromptKey = [], brCompleted = False, brHasFunctions = False,
                    brCallIDs = fmempty\<rparr>
               | Some link \<Rightarrow> link)
          in case aliasCalls u 1 [] (ssFunctionCalls summary) fmempty of None \<Rightarrow> Inl ErrConflict
             | Some (callIDs, calls) \<Rightarrow>
                 Inr (putSession key ((putPrompt pkey ((putInvocation seq (iv\<lparr>biState := InvCompleted\<rparr>) prompt)
                          \<lparr>bpLastAlias := biResponseAlias iv\<rparr>) session)\<lparr>bsResponses :=
                        fmupd (biResponseAlias iv) (link0\<lparr>brCallIDs := callIDs, brCompleted := True,
                          brHasFunctions := (fmcard callIDs \<noteq> 0)\<rparr>) (bsResponses session)\<rparr>) l,
                      \<lparr>rpID = biResponseAlias iv, rpStatus = ''completed'', rpAgentSessionID = [],
                       rpOutput = texts @ calls, rpError = None, rpIncomplete = None\<rparr>)))))"

definition commitCompletedResponse :: "env \<Rightarrow> saveIO \<Rightarrow> (nat \<Rightarrow> string) \<Rightarrow> int \<Rightarrow> brokerContext \<Rightarrow>
    streamSummary \<Rightarrow> broker \<Rightarrow> (brokerError + response) \<times> broker" where
  "commitCompletedResponse E io u now c summary b =
     (let change = completedChange u now (ownerKey E (bcOwner c)) (promptKey E c)
            (bcInvocationSequence c) summary in
      case commitCapacityLocked E io True (\<lambda>l. dropRequest (change l)) b of
        (Some e, b') \<Rightarrow> (Inl e, b')
      | (None, b') \<Rightarrow> (case change (bkLedger b) of Inl e \<Rightarrow> (Inl e, b') | Inr (_, r) \<Rightarrow> (Inr r, b')))"

section \<open>The end of a request\<close>

definition finishState :: "brokerError \<Rightarrow> invState \<Rightarrow> invState" where
  "finishState e s = (if s = InvReserved then InvRejected
     else if s = InvIntent then (if errIs e ErrAmbiguous then InvUncertain else InvRejected)
     else s)"

definition finishChange :: "string \<Rightarrow> string \<Rightarrow> 64 word \<Rightarrow> brokerError option \<Rightarrow> brokerLedger \<Rightarrow>
    brokerError + brokerLedger" where
  "finishChange key pkey seq err = onPrompt key pkey (\<lambda>session prompt.
     onInvocation seq (\<lambda>iv. Inr (case err of None \<Rightarrow> prompt
       | Some e \<Rightarrow> closePromptEntry (putInvocation seq (iv\<lparr>biState := finishState e (biState iv)\<rparr>) prompt))) prompt)"

definition finishInvocation :: "env \<Rightarrow> saveIO \<Rightarrow> brokerContext \<Rightarrow> brokerError option \<Rightarrow> broker \<Rightarrow> broker" where
  "finishInvocation E io c err b =
     (let key = ownerKey E (bcOwner c);
          b' = snd (commitLocked E io (finishChange key (promptKey E c) (bcInvocationSequence c) err) b)
      in b'\<lparr>bkActive := fmdrop key (bkActive b')\<rparr>)"

definition closeChange :: "string \<Rightarrow> string \<Rightarrow> brokerLedger \<Rightarrow> brokerError + brokerLedger" where
  "closeChange key pkey l = Inr (l\<lparr>blSessions := fmadjust key (\<lambda>s. s\<lparr>bsPrompts :=
     fmadjust pkey closePromptEntry (bsPrompts s)\<rparr>) (blSessions l)\<rparr>)"

definition closePromptLocked :: "env \<Rightarrow> saveIO \<Rightarrow> string \<Rightarrow> string \<Rightarrow> broker \<Rightarrow> broker" where
  "closePromptLocked E io key pkey b =
     (if bkCancelled b then b else
      (let b' = snd (commitLocked E io (closeChange key pkey) b) in
       case fmlookup (bkActive b') key of None \<Rightarrow> b'
       | Some active \<Rightarrow> if baPrompt active = pkey then cancelActive key b' else b'))"

text \<open>The second component says whether the offered reconciliation worker was started.\<close>

definition closePrompt :: "env \<Rightarrow> saveIO \<Rightarrow> int \<Rightarrow> string \<Rightarrow> string \<Rightarrow> broker \<Rightarrow> bool \<times> broker" where
  "closePrompt E io now key pkey b = startReconcile key True now (closePromptLocked E io key pkey b)"

section \<open>Response evidence\<close>

text \<open>A coherent failed or incomplete response still acknowledges the invocation.\<close>

definition brokerDecodeResponseEvidence :: "brokerJson \<Rightarrow> string \<Rightarrow> response option" where
  "brokerDecodeResponseEvidence B data = (case bjEvidence B data of None \<Rightarrow> None | Some ev \<Rightarrow>
     if edID ev = [] \<or> \<not> ValidateIdentifier (edID ev) then None else
     (let r = \<lparr>rpID = edID ev, rpStatus = edStatus ev, rpAgentSessionID = edAgentSessionID ev, rpOutput = [],
            rpError = edError ev, rpIncomplete = edIncomplete ev\<rparr> in
      if rpStatus r \<in> {''queued'', ''in_progress'', ''completed'', ''cancelled''} then
        (if rpError r \<noteq> None \<or> rpIncomplete r \<noteq> None then None else Some r)
      else if rpStatus r = ''failed'' then (if rpIncomplete r \<noteq> None then None else Some r)
      else if rpStatus r = ''incomplete'' then (if rpError r \<noteq> None then None else Some r)
      else None))"

definition recordResponseIdentity :: "world \<Rightarrow> env \<Rightarrow> brokerContext \<Rightarrow> response \<Rightarrow> string \<Rightarrow>
    brokerError option action" where
  "recordResponseIdentity W E c r remoteID =
     (if rpID r = [] \<or> \<not> ValidateIdentifier (rpID r) \<or>
         (rpAgentSessionID r \<noteq> [] \<and> rpAgentSessionID r \<noteq> remoteID) then ret (Some ErrConflict)
      else locked W (\<lambda>t b. recordIdentity E (wIO W t) (''fr_'' @ wUUID W t 0) c (rpID r) b))"

definition frameTypes :: "string list" where
  "frameTypes = [''response.queued'', ''response.in_progress'', ''response.completed'',
     ''response.failed'', ''response.incomplete'', ''response.cancelled'']"

text \<open>One event of the tracked stream.\<close>

definition flushFrame :: "world \<Rightarrow> env \<Rightarrow> brokerJson \<Rightarrow> brokerContext \<Rightarrow> string \<Rightarrow> string \<Rightarrow> diagnostic \<Rightarrow>
    (brokerError option \<times> diagnostic) action" where
  "flushFrame W E B c remoteID event dg =
     (if event = [] \<or> isDone event then ret (None, dg) else
      (case bjFrame B event of None \<Rightarrow> ret (Some ErrRemote, dg) | Some fr \<Rightarrow>
      (case frResponse fr of None \<Rightarrow> ret (None, dg) | Some raw \<Rightarrow>
      (case brokerDecodeResponseEvidence B raw of None \<Rightarrow> ret (Some ErrRemote, dg) | Some r \<Rightarrow>
        if frError fr \<noteq> None then ret (Some ErrRemote, dg)
        else if \<not> (if frType fr = ''response.created'' then rpStatus r \<in> {''queued'', ''in_progress''}
            else frType fr \<in> set frameTypes \<and> frType fr = ''response.'' @ rpStatus r)
        then ret (Some ErrRemote, dg)
        else do {
          e \<leftarrow> recordResponseIdentity W E c r remoteID;
          ret (case e of Some err \<Rightarrow> (Some err, dg) | None \<Rightarrow> (None, observe B raw r dg))}))))"

text \<open>The loop over the lines: raw bytes and the event accumulated so far.\<close>

fun trackedLoop :: "world \<Rightarrow> env \<Rightarrow> brokerJson \<Rightarrow> brokerContext \<Rightarrow> string \<Rightarrow> string list \<Rightarrow> string \<Rightarrow>
    string \<Rightarrow> diagnostic \<Rightarrow> ((brokerError + string \<times> string) \<times> diagnostic) action" where
  "trackedLoop W E B c remoteID [] raw event dg = ret (Inr (raw, event), dg)"
| "trackedLoop W E B c remoteID (line # rest) raw event dg =
     (if length raw + length line + 1 > DefaultMaxStreamBytes then ret (Inl ErrRemote, dg)
      else if line = [] then do {
        (e, dg') \<leftarrow> flushFrame W E B c remoteID event dg;
        (case e of Some err \<Rightarrow> ret (Inl err, dg')
         | None \<Rightarrow> trackedLoop W E B c remoteID rest (raw @ line @ [CHR 0x0A]) [] dg')}
      else if hasPrefix line ''data:'' then
        (let part = trimPrefix (drop 5 line) '' '' in
         if length event + length part + 1 > DefaultMaxEventBytes then ret (Inl ErrRemote, dg)
         else trackedLoop W E B c remoteID rest (raw @ line @ [CHR 0x0A])
           (if event \<noteq> [] then event @ [CHR 0x0A] @ part else part) dg)
      else trackedLoop W E B c remoteID rest (raw @ line @ [CHR 0x0A]) event dg)"

definition readTrackedStream :: "world \<Rightarrow> env \<Rightarrow> brokerJson \<Rightarrow> brokerContext \<Rightarrow> string \<Rightarrow> remoteReply \<Rightarrow>
    diagnostic \<Rightarrow> ((brokerError + string) \<times> diagnostic) action" where
  "readTrackedStream W E B c remoteID reply dg =
     (case scanLines DefaultMaxEventBytes (take (DefaultMaxStreamBytes + 1) (ryBody reply)) of (ls, delivered) \<Rightarrow>
      do {
       (res, dg') \<leftarrow> trackedLoop W E B c remoteID ls [] [] dg;
       ret (case res of Inl e \<Rightarrow> (Inl e, dg') | Inr (raw, event) \<Rightarrow>
         if \<not> delivered \<or> ryFails reply \<or> length (ryBody reply) > DefaultMaxStreamBytes \<or> event \<noteq> []
         then (Inl ErrAmbiguous, dg') else (Inr raw, dg'))})"

section \<open>One request as a whole\<close>

text \<open>The part of \<open>invoke\<close> that creates the remote session: its identity, or the error.\<close>

definition invokeCreate :: "world \<Rightarrow> env \<Rightarrow> brokerConfiguration \<Rightarrow> brokerContext \<Rightarrow>
    (brokerError + string) action" where
  "invokeCreate W E cfg c = do {
     invalid \<leftarrow> validateRemoteTarget W E cfg;
     (case invalid of Some err \<Rightarrow> ret (Inl err) | None \<Rightarrow> do {
       remoteID \<leftarrow> ask (\<lambda>t. wUUID W t 0);
       p \<leftarrow> prepareRemoteSessionCreate W E cfg remoteID;
       (case p of Inl err \<Rightarrow> ret (Inl err) | Inr request \<Rightarrow> do {
         refused \<leftarrow> locked W (\<lambda>t b. commitLocked E (wIO W t) (createIntentChange (wNow W t)
           (wDone W t \<or> wCreateDone W t) (ownerKey E (bcOwner c)) (promptKey E c) remoteID) b);
         (case refused of Some err \<Rightarrow> ret (Inl err) | None \<Rightarrow> do {
           (created, createErr) \<leftarrow> remoteSessionCreate W cfg request remoteID;
           if createErr \<noteq> None \<and> \<not> errIsUnsent (the createErr) then ret (Inl (the createErr))
           else do {
             failed \<leftarrow> locked W (\<lambda>t b. commitLocked E (wIO W t)
               (createResultChange created (ownerKey E (bcOwner c))) b);
             ret (case failed of Some err \<Rightarrow> Inl err | None \<Rightarrow>
               (case createErr of Some err \<Rightarrow> Inl err
                | None \<Rightarrow> if \<not> created then Inl ErrRemote else Inr remoteID))}})})})}"

text \<open>Reading a reply with status 200: the summary, \<open>None\<close> for every failure.\<close>

definition readAnswer :: "world \<Rightarrow> env \<Rightarrow> brokerJson \<Rightarrow> brokerContext \<Rightarrow> string \<Rightarrow> remoteReply \<Rightarrow> diagnostic \<Rightarrow>
    (streamSummary option \<times> diagnostic) action" where
  "readAnswer W E B c remoteID reply dg =
     (case bjMediaType B (ryContentType reply) of None \<Rightarrow> ret (None, dg\<lparr>dgStage := ''content_type''\<rparr>)
      | Some media \<Rightarrow>
        if media = ''text/event-stream'' then do {
          (res, dg1) \<leftarrow> readTrackedStream W E B c remoteID reply (dg\<lparr>dgStage := ''stream_read''\<rparr>);
          ret (case res of Inl e \<Rightarrow> (None, dg1)
            | Inr data \<Rightarrow> (ParseStrictSSE (bjResponses B) data,
                dg1\<lparr>dgStage := ''strict_decode'', dgStreamComplete := True\<rparr>))}
        else if media = ''application/json'' then
          (case readLimited DefaultMaxStreamBytes reply of
             None \<Rightarrow> ret (None, dg\<lparr>dgStage := ''response_read''\<rparr>)
           | Some data \<Rightarrow>
             (case brokerDecodeResponseEvidence B data of
                None \<Rightarrow> ret (None, dg\<lparr>dgStage := ''response_decode''\<rparr>)
              | Some document \<Rightarrow> do {
                  e \<leftarrow> recordResponseIdentity W E c document remoteID;
                  ret (case e of Some err \<Rightarrow> (None, dg\<lparr>dgStage := ''response_identity''\<rparr>)
                    | None \<Rightarrow>
                      (let dg1 = observe B data document (dg\<lparr>dgStage := ''response_identity''\<rparr>) in
                       if rpStatus document \<noteq> ''completed'' then (None, dg1\<lparr>dgStage := ''response_terminal''\<rparr>)
                       else (case DecodeResponse (bjResponses B) data of
                           None \<Rightarrow> (None, dg1\<lparr>dgStage := ''strict_decode''\<rparr>)
                         | Some r \<Rightarrow> (case CompleteResponse noCallbacks r () of
                               Inl _ \<Rightarrow> (None, dg1\<lparr>dgStage := ''strict_decode''\<rparr>)
                             | Inr (summary, _) \<Rightarrow> (Some summary, dg1\<lparr>dgStage := ''strict_decode''\<rparr>)))))}))
        else ret (None, dg\<lparr>dgStage := ''content_type''\<rparr>))"

text \<open>The part of \<open>invoke\<close> after a durable inference intent.\<close>

definition invokeSend :: "world \<Rightarrow> env \<Rightarrow> brokerJson \<Rightarrow> brokerContext \<Rightarrow> string \<Rightarrow> remoteRequest \<Rightarrow>
    ((brokerError + response) \<times> diagnostic) action" where
  "invokeSend W E B c remoteID request = do {
     sent \<leftarrow> sendRemoteRequest W (wDone W) request;
     (let dg = \<lparr>dgStage = ''transport'', dgHTTPStatus = 0, dgAccepted = False, dgStreamComplete = False,
        dgTerminalFrames = 0, dgTerminalStatus = [], dgErrorCode = [], dgUpstreamStatus = 0\<rparr> in
      (case sent of Inl err \<Rightarrow> ret (Inl err, dg) | Inr reply \<Rightarrow>
        (let dg1 = dg\<lparr>dgHTTPStatus := ryStatus reply\<rparr> in
         if ryStatus reply \<noteq> 200 then
           (let dg2 = dg1\<lparr>dgStage := ''http_response''\<rparr> in
            if readLimited MaxAgentConfigBytes reply = None \<or> \<not> DefiniteRejection (ryStatus reply)
            then ret (Inl ErrAmbiguous, dg2)
            else do {
              failed \<leftarrow> locked W (\<lambda>t b. commitLocked E (wIO W t) (rejectChange (ownerKey E (bcOwner c))
                (promptKey E c) (bcInvocationSequence c)) b);
              ret (Inl (case failed of Some err \<Rightarrow> err | None \<Rightarrow> ErrRemote), dg2)})
         else do {
           (answer, dg2) \<leftarrow> readAnswer W E B c remoteID reply dg1;
           (case answer of None \<Rightarrow> ret (Inl ErrAmbiguous, dg2) | Some summary \<Rightarrow>
             if \<not> ValidateSummary summary then ret (Inl ErrAmbiguous, dg2)
             else do {
               res \<leftarrow> locked W (\<lambda>t b. commitCompletedResponse E (wIO W t) (wUUID W t) (wNow W t) c summary b);
               ret (res, dg2\<lparr>dgStage := ''completion_storage''\<rparr>)})})))}"

definition invokeInfer :: "world \<Rightarrow> env \<Rightarrow> brokerJson \<Rightarrow> brokerConfiguration \<Rightarrow> brokerContext \<Rightarrow>
    responseRequest \<Rightarrow> string \<Rightarrow> ((brokerError + response) \<times> diagnostic option) action" where
  "invokeInfer W E B cfg c request remoteID = do {
     done \<leftarrow> ask (wDone W);
     if done then ret (Inl ErrClosed, None) else do {
       (current, status, e) \<leftarrow> remoteSessionGet W E cfg remoteID;
       if e \<noteq> None \<or> status \<noteq> 200 \<or> (current \<noteq> Some ''active'' \<and> current \<noteq> Some ''idle'')
       then ret (Inl ErrRemote, None) else
       (case marshalResponseRequest B cfg (request\<lparr>rrAgentSessionID := remoteID\<rparr>) of
          None \<Rightarrow> ret (Inl ErrInvalid, None)
        | Some body \<Rightarrow> do {
            p \<leftarrow> prepareRemoteRequest W E cfg ''POST'' ''/endpoint/protocols/openai/responses'' body;
            (case p of Inl err \<Rightarrow> ret (Inl err, None) | Inr prepared \<Rightarrow> do {
              refused \<leftarrow> locked W (\<lambda>t b. commitLocked E (wIO W t) (inferenceIntentChange (wNow W t) (wDone W t)
                (ownerKey E (bcOwner c)) (promptKey E c) (bcInvocationSequence c)) b);
              (case refused of Some err \<Rightarrow> ret (Inl err, None) | None \<Rightarrow> do {
                (res, dg) \<leftarrow> invokeSend W E B c remoteID prepared;
                ret (res, case res of Inl e \<Rightarrow> Some dg | Inr _ \<Rightarrow> None)})})})}}"

text \<open>\<open>invoke\<close>: the answer, and the diagnostic it logs.\<close>

definition invoke :: "world \<Rightarrow> env \<Rightarrow> brokerJson \<Rightarrow> brokerConfiguration \<Rightarrow> brokerContext \<Rightarrow> responseRequest \<Rightarrow>
    ((brokerError + response) \<times> diagnostic option) action" where
  "invoke W E B cfg c request = do {
     found \<leftarrow> locked W (\<lambda>t b. (fmlookup (blSessions (bkLedger b)) (ownerKey E (bcOwner c)), b));
     (case found of None \<Rightarrow> ret (Inl ErrPanic, None) | Some session \<Rightarrow>
       if bsCreateState session = CreateNone then do {
         created \<leftarrow> invokeCreate W E cfg c;
         (case created of Inl err \<Rightarrow> ret (Inl err, None)
          | Inr remoteID \<Rightarrow> invokeInfer W E B cfg c request remoteID)}
       else if bsCreateState session \<noteq> CreateKnown then ret (Inl ErrPending, None)
       else invokeInfer W E B cfg c request (bsRemoteID session))}"

section \<open>Serving /v1/responses\<close>

text \<open>The checks of \<open>serveResponses\<close> before anything is reserved.\<close>

definition admitResponses :: "brokerJson \<Rightarrow> brokerConfiguration \<Rightarrow> string list \<Rightarrow> string \<Rightarrow>
    responseRequest option" where
  "admitResponses B cfg headerNames raw =
     (if list_ex (\<lambda>name. equalFold name ''X-AgentKit-Brokered-Continuation-Proof'') headerNames then None else
      (case bjModelRequest B raw of None \<Rightarrow> None | Some (request, model) \<Rightarrow>
       if model \<noteq> acModel (cfAgent cfg) \<or> \<not> rrStream request \<or> \<not> rrStore request \<or> rrInput request = JNull
       then None
       else (case bjFields B raw of None \<Rightarrow> None | Some members \<Rightarrow>
         if list_ex (\<lambda>m. equalFold (fst m) ''agent_session_id'' \<or>
              (acToolSchemaMode (cfAgent cfg) = ToolSchemaModeProviderStatic \<and> equalFold (fst m) ''tools'')) members
         then None
         else if \<not> list_all (\<lambda>tool. tsType tool = ''function'' \<and> SafeString (tsName tool) 512 \<and>
                bjSchema B (tsParameters tool)) (rrTools request) then None
         else Some request)))"

datatype responsesReply = ResponsesError nat | ResponsesOk response

definition serveResponses :: "world \<Rightarrow> env \<Rightarrow> brokerJson \<Rightarrow> brokerConfiguration \<Rightarrow> string list \<Rightarrow>
    brokerContext \<Rightarrow> string \<Rightarrow> (responsesReply \<times> diagnostic option) action" where
  "serveResponses W E B cfg headerNames c raw =
     (case admitResponses B cfg headerNames raw of
        None \<Rightarrow> ret (ResponsesError (brokerErrorStatus ErrInvalid), None)
      | Some request \<Rightarrow> do {
          reserved \<leftarrow> locked W (\<lambda>t b. reserveInvocation E B (wIO W t) (wNow W t) c request b);
          (case reserved of Inl err \<Rightarrow> ret (ResponsesError (brokerErrorStatus err), None)
           | Inr translated \<Rightarrow> do {
               (res, dg) \<leftarrow> invoke W E B cfg c translated;
               locked W (\<lambda>t b. ((), finishInvocation E (wIO W t) c
                 (case res of Inl err \<Rightarrow> Some err | Inr _ \<Rightarrow> None) b));
               (if \<not> is_ok res
                then locked W (\<lambda>t b. startReconcile (ownerKey E (bcOwner c)) True (wNow W t) b) else ret False);
               poisoned \<leftarrow> locked W (\<lambda>t b. (bkStorageError b, b));
               (case (poisoned, res) of
                  (True, _) \<Rightarrow> ret (ResponsesError (brokerErrorStatus ErrStorage), dg)
                | (False, Inl err) \<Rightarrow> ret (ResponsesError (brokerErrorStatus err), dg)
                | (False, Inr r) \<Rightarrow> do {
                    written \<leftarrow> ask (wWriteOk W);
                    (if written then ret False else locked W (\<lambda>t b. closePrompt E (wIO W t) (wNow W t)
                      (ownerKey E (bcOwner c)) (promptKey E c) b));
                    ret (ResponsesOk r, dg)})})})"

end
