(* ===== verification/BrokerSession.thy ===== *)
theory BrokerSession
  imports BrokerInvoke
begin

text \<open>
  The session part of the ledger invariant. \<open>sessionOk\<close> is what the validation of a restart
  demands of one session (in its loop-free form \<^const>\<open>sessionCoherent\<close>), together with the fact
  that a session with a pending creation has no responses. Each lemma says that one kind of
  update of a session keeps it; \<^verbatim>\<open>BrokerInvariant\<close> lifts them to the changes of the ledger.
\<close>

lemma if_False_left: "(if b then False else x) \<longleftrightarrow> \<not> b \<and> x"
  by simp

section \<open>The headers without early returns\<close>

definition promptHeader :: "env \<Rightarrow> string \<Rightarrow> string \<Rightarrow> brokerPrompt \<Rightarrow> bool" where
  "promptHeader E key digest p \<longleftrightarrow> (let ident = bpIdentity p in
     promptKey E ident = key \<and> bcProtocol ident = brokerProtocol \<and>
     bcAgentConfigurationDigest ident = digest \<and> SafeString (bcTaskUID ident) 512 \<and>
     bcTaskAttempt ident \<noteq> 0 \<and> SafeString (bcPromptID ident) 512 \<and>
     DigestValid (bcPromptRequestDigest ident) \<and> DigestValid (bcBodySHA256 ident) \<and>
     bcLeaseGeneration ident \<noteq> 0 \<and> bcLeaseGeneration ident \<le> bpLeaseGeneration p \<and>
     (\<exists>expiry. parseTime E (bcLeaseExpiresAt ident) = Some expiry \<and> expiry \<le> bpLeaseExpiresAt p) \<and>
     bpLeaseExpiresAt p \<noteq> 0 \<and>
     (bpSettled p \<longrightarrow> bpClosing p \<and> DigestValid (bpProofDigest p)) \<and>
     (\<not> bpSettled p \<longrightarrow> bpProofDigest p = []))"

definition promptPlace :: "brokerSession \<Rightarrow> string \<Rightarrow> brokerPrompt \<Rightarrow> bool" where
  "promptPlace s key p \<longleftrightarrow> bcOwner (bpIdentity p) = bsOwner s \<and>
     lookupString (bsOperations s) (bcOperationID (bpIdentity p)) \<noteq> [] \<and>
     (\<not> bpSettled p \<longrightarrow> \<not> bsRetired s \<and> key = bsCurrentPrompt s) \<and> (bsRetiring s \<longrightarrow> bpClosing p)"

lemma promptHeaderOk_iff:
  "promptHeaderOk E p key digest s \<longleftrightarrow> promptHeader E key digest p \<and> promptPlace s key p"
proof (cases "parseTime E (bcLeaseExpiresAt (bpIdentity p))")
  case None
  then show ?thesis by (simp add: promptHeaderOk_def promptHeader_def Let_def)
next
  case (Some expiry)
  then show ?thesis
    by (simp only: promptHeaderOk_def promptHeader_def promptPlace_def Let_def option.case option.inject
        if_False_left ex_simps simp_thms) (auto simp: not_le not_less)
qed

definition createOk :: "env \<Rightarrow> brokerSession \<Rightarrow> bool" where
  "createOk E s \<longleftrightarrow> (case bsCreateState s of
       CreateNone \<Rightarrow> bsRemoteID s = [] \<and> bsResponses s = fmempty
     | CreateOther _ \<Rightarrow> False
     | _ \<Rightarrow> uuidCanonical E (bsRemoteID s)) \<and>
     (bsRetired s \<longrightarrow> bsRetiring s \<and> bsCreateState s \<in> {CreateNone, CreateDeleted} \<and> DigestValid (bsProofDigest s)) \<and>
     (\<not> bsRetired s \<longrightarrow> bsCreateState s \<noteq> CreateDeleted \<and> bsProofDigest s = [])"

text \<open>What does not touch the fields of a part keeps it.\<close>

lemma createOk_update [simp]:
  "createOk E (s\<lparr>bsOperations := x\<rparr>) = createOk E s" "createOk E (s\<lparr>bsPrompts := y\<rparr>) = createOk E s"
  "createOk E (s\<lparr>bsCurrentPrompt := z\<rparr>) = createOk E s"
  by (simp_all add: createOk_def cong: createState.case_cong)

definition operationsOk :: "brokerSession \<Rightarrow> bool" where
  "operationsOk s \<longleftrightarrow> fmcard (bsOperations s) \<le> brokerRetirementOperationLimit \<and>
     fmpred (\<lambda>opid operation. SafeString opid 512 \<and> DigestValid operation) (bsOperations s)"

definition currentOk :: "brokerSession \<Rightarrow> bool" where
  "currentOk s \<longleftrightarrow> fmcard (bsPrompts s) \<le> 4096 \<and>
     (if bsCurrentPrompt s = [] then bsPrompts s = fmempty
      else fmlookup (bsPrompts s) (bsCurrentPrompt s) \<noteq> None)"

lemma operationsOk_update [simp]:
  "operationsOk (s\<lparr>bsPrompts := y\<rparr>) = operationsOk s" "operationsOk (s\<lparr>bsCurrentPrompt := z\<rparr>) = operationsOk s"
  "operationsOk (s\<lparr>bsResponses := r\<rparr>) = operationsOk s" "operationsOk (s\<lparr>bsCreateState := c\<rparr>) = operationsOk s"
  "operationsOk (s\<lparr>bsRemoteID := i\<rparr>) = operationsOk s" "operationsOk (s\<lparr>bsRetiring := b\<rparr>) = operationsOk s"
  "operationsOk (s\<lparr>bsRetired := b\<rparr>) = operationsOk s" "operationsOk (s\<lparr>bsProofDigest := d\<rparr>) = operationsOk s"
  by (simp_all add: operationsOk_def)

lemma currentOk_update [simp]:
  "currentOk (s\<lparr>bsOperations := x\<rparr>) = currentOk s" "currentOk (s\<lparr>bsResponses := r\<rparr>) = currentOk s"
  "currentOk (s\<lparr>bsCreateState := c\<rparr>) = currentOk s" "currentOk (s\<lparr>bsRemoteID := i\<rparr>) = currentOk s"
  "currentOk (s\<lparr>bsRetiring := b\<rparr>) = currentOk s" "currentOk (s\<lparr>bsRetired := b\<rparr>) = currentOk s"
  "currentOk (s\<lparr>bsProofDigest := d\<rparr>) = currentOk s"
  by (simp_all add: currentOk_def)

lemma sessionHeaderOk_iff:
  "sessionHeaderOk E s key \<longleftrightarrow> ownerValid (bsOwner s) \<and> key = ownerKey E (bsOwner s) \<and>
     createOk E s \<and> operationsOk s \<and> currentOk s"
  by (cases "bsCreateState s")
    (auto simp: sessionHeaderOk_def createOk_def operationsOk_def currentOk_def fmcard_0_iff not_less)

section \<open>Prompts\<close>

lemma promptOk_iff:
  "promptOk E p key digest s \<longleftrightarrow> promptHeader E key digest p \<and> promptPlace s key p \<and>
     (\<forall>seq i. fmlookup (bpInvocations p) seq = Some i \<longrightarrow> invocationOk E i seq key p s) \<and>
     lastSequenceOk p \<and> lastAliasOk p"
  by (simp add: promptOk_def promptHeaderOk_iff)

text \<open>An invocation: its own fields, its state in the prompt, its link.\<close>

definition invocationHeader :: "brokerInvocation \<Rightarrow> 64 word \<Rightarrow> brokerSession \<Rightarrow> bool" where
  "invocationHeader i seq s \<longleftrightarrow> biSequence i = seq \<and> seq \<noteq> 0 \<and> DigestValid (biBodyDigest i) \<and>
     SafeString (biOperationID i) 512 \<and> lookupString (bsOperations s) (biOperationID i) \<noteq> []"

definition linkOk :: "env \<Rightarrow> brokerInvocation \<Rightarrow> string \<Rightarrow> brokerSession \<Rightarrow> bool" where
  "linkOk E i key s \<longleftrightarrow> (if biResponseID i = [] then biResponseAlias i = [] else
     (\<exists>link. fmlookup (bsResponses s) (biResponseAlias i) = Some link \<and>
       brokerAliasValid E (biResponseAlias i) ''fr_'' \<and> ValidateIdentifier (brRemoteID link) \<and>
       brRemoteID link = biResponseID i \<and> brPromptKey link = key \<and>
       brCompleted link = (biState i = InvCompleted) \<and>
       brHasFunctions link = (0 < fmcard (brCallIDs link)) \<and>
       (\<not> brCompleted link \<longrightarrow> fmcard (brCallIDs link) = 0) \<and>
       fmpred (\<lambda>al remote. brokerAliasValid E al ''fc_'' \<and> ValidateIdentifier remote) (brCallIDs link)))"

lemma invocationOk_iff:
  "invocationOk E i seq key p s \<longleftrightarrow> invocationHeader i seq s \<and> invocationStateOk p i \<and> linkOk E i key s"
  unfolding invocationOk_def invocationHeader_def linkOk_def by (simp only: conj_assoc)

lemma invocationStateOk_settled: "bpSettled p' = bpSettled p \<Longrightarrow> invocationStateOk p' i = invocationStateOk p i"
  by (simp add: invocationStateOk_def cong: invState.case_cong)

lemma invocationOk_settled:
  "bpSettled p' = bpSettled p \<Longrightarrow> invocationOk E i seq key p' s = invocationOk E i seq key p s"
  by (simp add: invocationOk_iff invocationStateOk_settled [of p' p])

lemma linkOk_settle:
  assumes "linkOk E i key s"
  shows "linkOk E (settleInvocation i) key s"
  using assms by (auto simp: linkOk_def settleInvocation_def)

lemma linkOk_responses:
  assumes "linkOk E i key s" "\<And>a. linkOf i = Some a \<Longrightarrow> fmlookup (bsResponses s') a = fmlookup (bsResponses s) a"
  shows "linkOk E i key s'"
  using assms by (auto simp: linkOk_def linkOf_def split: if_splits)

lemma lastOk_update [simp]:
  "lastSequenceOk (p\<lparr>bpClosing := b\<rparr>) = lastSequenceOk p" "lastAliasOk (p\<lparr>bpClosing := b\<rparr>) = lastAliasOk p"
  "lastSequenceOk (p\<lparr>bpLeaseGeneration := g\<rparr>) = lastSequenceOk p"
  "lastAliasOk (p\<lparr>bpLeaseGeneration := g\<rparr>) = lastAliasOk p"
  "lastSequenceOk (p\<lparr>bpLeaseExpiresAt := t\<rparr>) = lastSequenceOk p"
  "lastAliasOk (p\<lparr>bpLeaseExpiresAt := t\<rparr>) = lastAliasOk p"
  "lastSequenceOk (p\<lparr>bpSettled := b\<rparr>) = lastSequenceOk p" "lastAliasOk (p\<lparr>bpSettled := b\<rparr>) = lastAliasOk p"
  "lastSequenceOk (p\<lparr>bpProofDigest := x\<rparr>) = lastSequenceOk p"
  "lastAliasOk (p\<lparr>bpProofDigest := x\<rparr>) = lastAliasOk p"
  by (simp_all add: lastSequenceOk_def lastAliasOk_def)

text \<open>A session may grow around a prompt: more operations, other responses.\<close>

definition growsAround :: "brokerPrompt \<Rightarrow> brokerSession \<Rightarrow> brokerSession \<Rightarrow> bool" where
  "growsAround p s s' \<longleftrightarrow> bsOwner s' = bsOwner s \<and>
     (\<forall>k. lookupString (bsOperations s) k \<noteq> [] \<longrightarrow> lookupString (bsOperations s') k \<noteq> []) \<and>
     (\<forall>seq i a. fmlookup (bpInvocations p) seq = Some i \<longrightarrow> linkOf i = Some a \<longrightarrow>
        fmlookup (bsResponses s') a = fmlookup (bsResponses s) a)"

lemma invocationOk_grows:
  assumes "invocationOk E i seq key p s"
    and "\<And>k. lookupString (bsOperations s) k \<noteq> [] \<Longrightarrow> lookupString (bsOperations s') k \<noteq> []"
    and "\<And>a. linkOf i = Some a \<Longrightarrow> fmlookup (bsResponses s') a = fmlookup (bsResponses s) a"
  shows "invocationOk E i seq key p s'"
  using assms linkOk_responses [of E i key s s'] by (simp add: invocationOk_iff invocationHeader_def)

lemma promptOk_grows:
  assumes "promptOk E p key digest s" "growsAround p s s'"
    and "\<not> bpSettled p \<Longrightarrow> \<not> bsRetired s' \<and> key = bsCurrentPrompt s'" "bsRetiring s' \<Longrightarrow> bpClosing p"
  shows "promptOk E p key digest s'"
proof -
  have "invocationOk E i seq key p s'" if "fmlookup (bpInvocations p) seq = Some i" for seq i
    using assms that by (intro invocationOk_grows [of E i seq key p s s']) (auto simp: promptOk_iff growsAround_def)
  moreover have "promptPlace s' key p"
    using assms by (auto simp: promptOk_iff promptPlace_def growsAround_def)
  ultimately show ?thesis using assms(1) by (simp add: promptOk_iff)
qed

lemma promptOk_close:
  assumes "promptOk E p key digest s"
  shows "promptOk E (closePromptEntry p) key digest s"
proof -
  have "promptHeader E key digest (closePromptEntry p)" "promptPlace s key (closePromptEntry p)"
    using assms by (auto simp: promptOk_iff promptHeader_def promptPlace_def closePromptEntry_def Let_def)
  then show ?thesis
    using assms invocationOk_settled [of "closePromptEntry p" p]
    by (simp add: promptOk_iff closePromptEntry_def)
qed

lemma promptOk_renew:
  assumes "promptOk E p key digest s" "bpLeaseGeneration p \<le> g" "bpLeaseExpiresAt p \<le> t" "t \<noteq> 0"
  shows "promptOk E (p\<lparr>bpLeaseGeneration := g, bpLeaseExpiresAt := t\<rparr>) key digest s"
proof -
  have "promptHeader E key digest (p\<lparr>bpLeaseGeneration := g, bpLeaseExpiresAt := t\<rparr>)"
    "promptPlace s key (p\<lparr>bpLeaseGeneration := g, bpLeaseExpiresAt := t\<rparr>)"
    using assms by (auto simp: promptOk_iff promptHeader_def promptPlace_def Let_def intro: order.trans)
  then show ?thesis
    using assms invocationOk_settled [of "p\<lparr>bpLeaseGeneration := g, bpLeaseExpiresAt := t\<rparr>" p]
    by (simp add: promptOk_iff)
qed

text \<open>Settling keeps completed invocations and marks every other one.\<close>

lemma lookup_settle:
  "fmlookup (bpInvocations (settlePrompt x p)) seq = map_option settleInvocation (fmlookup (bpInvocations p) seq)"
  by (simp add: settlePrompt_def)

lemma settleInvocation_simps [simp]:
  "biSequence (settleInvocation i) = biSequence i" "biOperationID (settleInvocation i) = biOperationID i"
  "biBodyDigest (settleInvocation i) = biBodyDigest i" "biResponseID (settleInvocation i) = biResponseID i"
  "biResponseAlias (settleInvocation i) = biResponseAlias i"
  "biState (settleInvocation i) = (if biState i = InvCompleted then InvCompleted else InvSettled)"
  by (simp_all add: settleInvocation_def)

lemma linkOf_settle [simp]: "linkOf (settleInvocation i) = linkOf i"
  by (simp add: linkOf_def)

text \<open>\<^const>\<open>lastAliasOk\<close> looks only at the sequences and aliases of completed invocations.\<close>

definition completedAt :: "brokerPrompt \<Rightarrow> 64 word \<Rightarrow> string \<Rightarrow> bool" where
  "completedAt p n al \<longleftrightarrow> (case fmlookup (bpInvocations p) n of None \<Rightarrow> False
     | Some i \<Rightarrow> biState i = InvCompleted \<and> biResponseAlias i = al)"

lemma lastAliasOk_completed:
  "lastAliasOk p \<longleftrightarrow> ((\<forall>n al. \<not> completedAt p n al) \<and> bpLastAlias p = []) \<or>
     (\<exists>n. completedAt p n (bpLastAlias p) \<and> (\<forall>n' al. completedAt p n' al \<longrightarrow> n' \<le> n))"
proof -
  have "completedAt p n al \<longleftrightarrow> (\<exists>i. fmlookup (bpInvocations p) n = Some i \<and> biState i = InvCompleted \<and>
      biResponseAlias i = al)" for n al
    by (auto simp: completedAt_def split: option.splits)
  then show ?thesis unfolding lastAliasOk_def by (auto, blast+)
qed

lemma lastAliasOk_cong:
  "completedAt p' = completedAt p \<Longrightarrow> bpLastAlias p' = bpLastAlias p \<Longrightarrow> lastAliasOk p' = lastAliasOk p"
  by (simp add: lastAliasOk_completed)

lemma lastAliasOk_settle: "lastAliasOk (settlePrompt x p) = lastAliasOk p"
proof (rule lastAliasOk_cong)
  show "completedAt (settlePrompt x p) = completedAt p"
    by (intro ext) (simp add: completedAt_def lookup_settle settleInvocation_def split: option.split)
  show "bpLastAlias (settlePrompt x p) = bpLastAlias p" by (simp add: settlePrompt_def)
qed

lemma promptOk_settle:
  assumes ok: "promptOk E p key digest s" and "DigestValid x" and "bpClosing p"
  shows "promptOk E (settlePrompt x p) key digest s"
proof -
  let ?p = "settlePrompt x p"
  have "promptHeader E key digest ?p" "promptPlace s key ?p"
    using assms by (auto simp: promptOk_iff promptHeader_def promptPlace_def settlePrompt_def Let_def)
  moreover have "invocationOk E i seq key ?p s" if i: "fmlookup (bpInvocations ?p) seq = Some i" for seq i
  proof -
    from i obtain j where j: "fmlookup (bpInvocations p) seq = Some j" "i = settleInvocation j"
      by (auto simp: lookup_settle)
    with ok have "invocationOk E j seq key p s" by (auto simp: promptOk_iff)
    moreover from this have "invocationStateOk ?p i" unfolding j(2)
      by (cases "biState j") (simp_all add: invocationOk_iff invocationStateOk_def settlePrompt_def)
    ultimately show ?thesis using linkOk_settle [of E j key s] j(2)
      by (simp add: invocationOk_iff invocationHeader_def)
  qed
  moreover have "lastSequenceOk ?p"
    using ok by (auto simp: promptOk_iff lastSequenceOk_def settlePrompt_def)
  moreover have "lastAliasOk ?p"
    using ok lastAliasOk_settle by (simp add: promptOk_iff)
  ultimately show ?thesis by (simp add: promptOk_iff)
qed

text \<open>Replacing one invocation by one with the same place in the last-completed order.\<close>

lemma promptOk_putInvocation:
  assumes ok: "promptOk E p key digest s" and i: "fmlookup (bpInvocations p) seq = Some i"
    and i': "invocationOk E i' seq key p s"
    and completed: "biState i' = InvCompleted \<longleftrightarrow> biState i = InvCompleted"
      "biResponseAlias i' = biResponseAlias i \<or> biState i \<noteq> InvCompleted"
  shows "promptOk E (putInvocation seq i' p) key digest s"
proof -
  let ?p = "putInvocation seq i' p"
  have "promptHeader E key digest ?p" "promptPlace s key ?p"
    using ok by (auto simp: promptOk_iff promptHeader_def promptPlace_def putInvocation_def Let_def)
  moreover have "invocationOk E j n key ?p s" if "fmlookup (bpInvocations ?p) n = Some j" for n j
    using that ok i' invocationOk_settled [of ?p p]
    by (auto simp: promptOk_iff putInvocation_def split: if_splits)
  moreover have "lastSequenceOk ?p"
    using ok i by (auto simp: promptOk_iff lastSequenceOk_def putInvocation_def split: if_splits)
  moreover have "lastAliasOk ?p = lastAliasOk p"
  proof (rule lastAliasOk_cong)
    show "completedAt ?p = completedAt p"
      using i completed by (intro ext) (auto simp: completedAt_def putInvocation_def split: option.split)
    show "bpLastAlias ?p = bpLastAlias p" by (simp add: putInvocation_def)
  qed
  ultimately show ?thesis using ok by (simp add: promptOk_iff)
qed

definition openState :: "invState \<Rightarrow> bool" where
  "openState st \<longleftrightarrow> st \<in> {InvReserved, InvIntent, InvRejected, InvUncertain}"

lemma promptOk_setState:
  assumes ok: "promptOk E p key digest s" and i: "fmlookup (bpInvocations p) seq = Some i"
    and "biResponseID i = []" "openState st" "\<not> bpSettled p"
  shows "promptOk E (putInvocation seq (i\<lparr>biState := st\<rparr>) p) key digest s"
proof (rule promptOk_putInvocation [OF ok i])
  from ok i have iok: "invocationOk E i seq key p s" by (simp add: promptOk_iff)
  with assms show "invocationOk E (i\<lparr>biState := st\<rparr>) seq key p s"
    by (auto simp: invocationOk_iff invocationHeader_def linkOk_def invocationStateOk_def openState_def)
  from iok assms show "biState (i\<lparr>biState := st\<rparr>) = InvCompleted \<longleftrightarrow> biState i = InvCompleted"
    by (auto simp: invocationOk_iff invocationStateOk_def openState_def)
  from iok assms show "biResponseAlias (i\<lparr>biState := st\<rparr>) = biResponseAlias i \<or> biState i \<noteq> InvCompleted"
    by simp
qed

definition reservePrompt :: "brokerContext \<Rightarrow> brokerPrompt \<Rightarrow> brokerPrompt" where
  "reservePrompt c p = p\<lparr>bpLastSequence := bcInvocationSequence c,
     bpInvocations := fmupd (bcInvocationSequence c) (reservedInvocation c) (bpInvocations p)\<rparr>"

lemma promptOk_reserve:
  assumes ok: "promptOk E p key digest s" and less: "bpLastSequence p < bcInvocationSequence c"
    and c: "DigestValid (bcBodySHA256 c)" "SafeString (bcOperationID c) 512"
      "lookupString (bsOperations s) (bcOperationID c) \<noteq> []" and unsettled: "\<not> bpSettled p"
  shows "promptOk E (reservePrompt c p) key digest s"
proof -
  let ?p = "reservePrompt c p" let ?n = "bcInvocationSequence c"
  have last: "\<forall>n i. fmlookup (bpInvocations p) n = Some i \<longrightarrow> n \<le> bpLastSequence p"
    using ok by (auto simp: promptOk_iff lastSequenceOk_def)
  with less have new: "fmlookup (bpInvocations p) ?n = None"
    by (metis leD not_None_eq)
  have lookup: "fmlookup (bpInvocations ?p) n = (if n = ?n then Some (reservedInvocation c) else fmlookup (bpInvocations p) n)" for n
    by (auto simp: reservePrompt_def)
  have "promptHeader E key digest ?p" "promptPlace s key ?p"
    using ok by (auto simp: promptOk_iff promptHeader_def promptPlace_def reservePrompt_def Let_def)
  moreover have "invocationOk E j n key ?p s" if "fmlookup (bpInvocations ?p) n = Some j" for n j
  proof (cases "n = ?n")
    case True
    with that have "j = reservedInvocation c" by (simp add: lookup)
    then show ?thesis using True c less unsettled
      by (auto simp: invocationOk_iff invocationHeader_def linkOk_def invocationStateOk_def
          reservedInvocation_def reservePrompt_def)
  next
    case False
    with that ok invocationOk_settled [of ?p p] show ?thesis
      by (simp add: lookup promptOk_iff reservePrompt_def)
  qed
  moreover have "lastSequenceOk ?p"
    using last less by (auto simp: lastSequenceOk_def lookup reservePrompt_def)
  moreover have "lastAliasOk ?p = lastAliasOk p"
  proof (rule lastAliasOk_cong)
    show "completedAt ?p = completedAt p"
      using new by (intro ext) (simp add: completedAt_def lookup reservedInvocation_def)
    show "bpLastAlias ?p = bpLastAlias p" by (simp add: reservePrompt_def)
  qed
  ultimately show ?thesis using ok by (simp add: promptOk_iff)
qed

section \<open>Sessions\<close>

definition sessionOk :: "env \<Rightarrow> string \<Rightarrow> string \<Rightarrow> brokerSession \<Rightarrow> bool" where
  "sessionOk E digest key s \<longleftrightarrow> sessionCoherent E s key digest \<and>
     (bsCreateState s = CreateIntent \<longrightarrow> bsResponses s = fmempty)"

definition linkOpt :: "brokerSession \<Rightarrow> string \<Rightarrow> 64 word \<Rightarrow> string option" where
  "linkOpt s pk seq = Option.bind (fmlookup (bsPrompts s) pk) (\<lambda>p.
     Option.bind (fmlookup (bpInvocations p) seq) linkOf)"

lemma linkAt_iff: "linkAt s pk seq a \<longleftrightarrow> linkOpt s pk seq = Some a"
  by (auto simp: linkAt_def linkOpt_def bind_eq_Some_conv)

text \<open>The parts of the invariant.\<close>

lemma sessionOk_iff:
  "sessionOk E digest key s \<longleftrightarrow> ownerValid (bsOwner s) \<and> key = ownerKey E (bsOwner s) \<and> createOk E s \<and>
     operationsOk s \<and> currentOk s \<and>
     (\<forall>pk p. fmlookup (bsPrompts s) pk = Some p \<longrightarrow> promptOk E p pk digest s) \<and>
     (\<forall>pk seq pk' seq' a. linkOpt s pk seq = Some a \<and> linkOpt s pk' seq' = Some a \<longrightarrow> pk = pk' \<and> seq = seq') \<and>
     (\<forall>a. fmlookup (bsResponses s) a \<noteq> None \<longrightarrow> (\<exists>pk seq. linkOpt s pk seq = Some a)) \<and>
     (bsCreateState s = CreateIntent \<longrightarrow> bsResponses s = fmempty)"
  by (simp only: sessionOk_def sessionCoherent_def sessionHeaderOk_iff linkAt_iff conj_assoc)

lemma sessionOk_update:
  assumes s: "sessionOk E digest key s" and "bsOwner s' = bsOwner s" "bsResponses s' = bsResponses s"
    and "createOk E s'" "operationsOk s'" "currentOk s'"
    and "\<And>pk p. fmlookup (bsPrompts s') pk = Some p \<Longrightarrow> promptOk E p pk digest s'"
    and link: "\<And>pk seq. linkOpt s' pk seq = linkOpt s pk seq"
    and "bsCreateState s' = CreateIntent \<Longrightarrow> bsResponses s' = fmempty"
  shows "sessionOk E digest key s'"
  using assms unfolding sessionOk_iff link by auto

lemma sessionOk_prompt: "sessionOk E digest key s \<Longrightarrow> fmlookup (bsPrompts s) pk = Some p \<Longrightarrow> promptOk E p pk digest s"
  by (simp add: sessionOk_iff)

lemma sessionOk_invocation:
  assumes "sessionOk E digest key s" "fmlookup (bsPrompts s) pk = Some p" "fmlookup (bpInvocations p) seq = Some i"
  shows "invocationOk E i seq pk p s"
  using sessionOk_prompt [OF assms(1,2)] assms(3) by (simp add: promptOk_iff)

text \<open>Settled prompts hold no pending invocation, and at most the current prompt is unsettled.\<close>

lemma sessionOk_unsettled:
  assumes "sessionOk E digest key s" "fmlookup (bsPrompts s) pk = Some p" "\<not> bpSettled p"
  shows "pk = bsCurrentPrompt s \<and> \<not> bsRetired s"
  using sessionOk_prompt [OF assms(1,2)] assms(3) by (auto simp: promptOk_iff promptPlace_def)

lemma sessionOk_settled:
  assumes "sessionOk E digest key s" "fmlookup (bsPrompts s) pk = Some p" "bpSettled p"
  shows "bpClosing p"
  using sessionOk_prompt [OF assms(1,2)] assms(3) by (auto simp: promptOk_iff promptHeader_def Let_def)

lemma sessionOk_retired: "sessionOk E digest key s \<Longrightarrow> bsRetired s \<Longrightarrow> bsRetiring s"
  by (simp add: sessionOk_iff createOk_def)

lemma sessionOk_retiring:
  assumes "sessionOk E digest key s" "fmlookup (bsPrompts s) pk = Some p" "bsRetiring s"
  shows "bpClosing p"
  using sessionOk_prompt [OF assms(1,2)] assms(3) by (auto simp: promptOk_iff promptPlace_def)

section \<open>Updates of the session that leave the prompts\<close>

definition freshSession :: "brokerOwner \<Rightarrow> brokerSession" where
  "freshSession o' = \<lparr>bsOwner = o', bsRemoteID = [], bsCreateState = CreateNone, bsRetiring = False,
     bsRetired = False, bsProofDigest = [], bsCurrentPrompt = [], bsPrompts = fmempty, bsResponses = fmempty,
     bsOperations = fmempty\<rparr>"

lemma sessionOk_fresh: "ownerValid o' \<Longrightarrow> sessionOk E digest (ownerKey E o') (freshSession o')"
  by (simp add: sessionOk_iff freshSession_def createOk_def operationsOk_def currentOk_def linkOpt_def)

lemma lookupString_upd: "lookupString (fmupd k v m) j = (if j = k then v else lookupString m j)"
  by (simp add: lookupString_def)

lemma operation_limits: "brokerOperationLimit \<le> brokerRetirementOperationLimit"
  "brokerSettlementOperationLimit \<le> brokerRetirementOperationLimit"
  by (simp_all add: brokerRetirementOperationLimit_def brokerSettlementOperationLimit_def)

text \<open>Recording an operation only adds it.\<close>

definition recorded :: "brokerSession \<Rightarrow> string \<Rightarrow> brokerSession \<Rightarrow> bool" where
  "recorded s opid s' \<longleftrightarrow> (\<exists>ops. s' = s\<lparr>bsOperations := ops\<rparr> \<and>
     (\<forall>k. lookupString (bsOperations s) k \<noteq> [] \<longrightarrow> lookupString ops k \<noteq> []) \<and>
     lookupString ops opid \<noteq> [])"

lemma brokerRecordOperation_recorded:
  assumes "brokerRecordOperation E s path c = Inr (d, s')"
    and "operationsOk s" "SafeString (bcOperationID c) 512" "\<And>x. length (sha E x) = 32"
  shows "recorded s (bcOperationID c) s' \<and> operationsOk s'"
proof -
  have dv: "DigestValid (brokerOperationDigest E path c)"
    by (simp add: brokerOperationDigest_def DigestValid_Digest assms)
  show ?thesis
  proof (cases "fmlookup (bsOperations s) (bcOperationID c)")
    case (Some previous)
    with assms dv have eq: "s' = s" "previous = brokerOperationDigest E path c"
      by (auto simp: brokerRecordOperation_def Let_def split: if_splits)
    have "recorded s (bcOperationID c) (s\<lparr>bsOperations := bsOperations s\<rparr>)"
      using Some dv eq unfolding recorded_def
      by (intro exI [of _ "bsOperations s"]) (auto simp: lookupString_def dest: DigestValid_nonempty)
    with eq assms(2) show ?thesis by simp
  next
    case None
    with assms(1) have s': "s' = s\<lparr>bsOperations := fmupd (bcOperationID c) (brokerOperationDigest E path c) (bsOperations s)\<rparr>"
      and lim: "fmcard (bsOperations s) < brokerRetirementOperationLimit"
      using operation_limits by (auto simp: brokerRecordOperation_def Let_def split: if_splits)
    have "recorded s (bcOperationID c) s'"
      using dv unfolding recorded_def s'
      by (intro exI [of _ "fmupd (bcOperationID c) (brokerOperationDigest E path c) (bsOperations s)"])
        (auto simp: lookupString_upd dest: DigestValid_nonempty)
    moreover have "operationsOk s'"
      using assms(2,3) dv lim None by (auto simp: operationsOk_def s' fmcard_upd fmpred_iff)
    ultimately show ?thesis by simp
  qed
qed

lemma sessionOk_recorded:
  assumes s: "sessionOk E digest key s" and r: "recorded s opid s'" and ops: "operationsOk s'"
  shows "sessionOk E digest key s'"
proof -
  obtain ops' where s': "s' = s\<lparr>bsOperations := ops'\<rparr>"
    and grow: "\<forall>k. lookupString (bsOperations s) k \<noteq> [] \<longrightarrow> lookupString ops' k \<noteq> []"
    using r by (auto simp: recorded_def)
  from s have parts: "createOk E s" "currentOk s" "bsCreateState s = CreateIntent \<longrightarrow> bsResponses s = fmempty"
    by (simp_all add: sessionOk_iff)
  have prompts: "promptOk E p pk digest s'" if p: "fmlookup (bsPrompts s) pk = Some p" for pk p
  proof (rule promptOk_grows)
    show ok: "promptOk E p pk digest s" using s p by (rule sessionOk_prompt)
    then show "\<not> bpSettled p \<Longrightarrow> \<not> bsRetired s' \<and> pk = bsCurrentPrompt s'" "bsRetiring s' \<Longrightarrow> bpClosing p"
      by (simp_all add: promptOk_iff promptPlace_def s')
    show "growsAround p s s'" using grow by (simp add: growsAround_def s')
  qed
  show ?thesis
    by (rule sessionOk_update [OF s]) (use parts ops prompts in \<open>simp_all add: s' linkOpt_def\<close>)
qed

section \<open>Updates of the prompts\<close>

lemma promptPlace_update [simp]:
  "promptPlace (s\<lparr>bsPrompts := x\<rparr>) key p = promptPlace s key p"
  "promptPlace (s\<lparr>bsResponses := r\<rparr>) key p = promptPlace s key p"
  "promptPlace (s\<lparr>bsCreateState := c\<rparr>) key p = promptPlace s key p"
  "promptPlace (s\<lparr>bsRemoteID := i\<rparr>) key p = promptPlace s key p"
  "promptPlace (s\<lparr>bsProofDigest := d\<rparr>) key p = promptPlace s key p"
  by (simp_all add: promptPlace_def)

lemma invocationOk_update [simp]:
  "invocationOk E i seq key p (s\<lparr>bsPrompts := x\<rparr>) = invocationOk E i seq key p s"
  "invocationOk E i seq key p (s\<lparr>bsCreateState := c\<rparr>) = invocationOk E i seq key p s"
  "invocationOk E i seq key p (s\<lparr>bsRemoteID := r\<rparr>) = invocationOk E i seq key p s"
  "invocationOk E i seq key p (s\<lparr>bsProofDigest := d\<rparr>) = invocationOk E i seq key p s"
  "invocationOk E i seq key p (s\<lparr>bsRetiring := b\<rparr>) = invocationOk E i seq key p s"
  "invocationOk E i seq key p (s\<lparr>bsRetired := b\<rparr>) = invocationOk E i seq key p s"
  "invocationOk E i seq key p (s\<lparr>bsCurrentPrompt := k\<rparr>) = invocationOk E i seq key p s"
  by (simp_all add: invocationOk_iff invocationHeader_def linkOk_def)

lemma promptOk_update [simp]:
  "promptOk E p key digest (s\<lparr>bsPrompts := x\<rparr>) = promptOk E p key digest s"
  "promptOk E p key digest (s\<lparr>bsCreateState := c\<rparr>) = promptOk E p key digest s"
  "promptOk E p key digest (s\<lparr>bsRemoteID := i\<rparr>) = promptOk E p key digest s"
  "promptOk E p key digest (s\<lparr>bsProofDigest := d\<rparr>) = promptOk E p key digest s"
  by (simp_all add: promptOk_iff)

definition sameLinks :: "brokerPrompt \<Rightarrow> brokerPrompt \<Rightarrow> bool" where
  "sameLinks p p' \<longleftrightarrow> (\<forall>seq. Option.bind (fmlookup (bpInvocations p') seq) linkOf =
     Option.bind (fmlookup (bpInvocations p) seq) linkOf)"

lemma sameLinks_refl [simp]: "sameLinks p p"
  by (simp add: sameLinks_def)

lemma sameLinks_close [simp]: "sameLinks p (closePromptEntry p)"
  by (simp add: sameLinks_def closePromptEntry_def)

lemma sameLinks_settle [simp]: "sameLinks p (settlePrompt x p)"
proof -
  have "Option.bind (map_option settleInvocation y) linkOf = Option.bind y linkOf" for y
    by (cases y) simp_all
  then show ?thesis by (simp add: sameLinks_def lookup_settle)
qed

lemma sessionOk_map:
  assumes s: "sessionOk E digest key s"
    and ok: "\<And>pk p. fmlookup (bsPrompts s) pk = Some p \<Longrightarrow> promptOk E (f pk p) pk digest s \<and> sameLinks p (f pk p)"
  shows "sessionOk E digest key (s\<lparr>bsPrompts := fmmap_keys f (bsPrompts s)\<rparr>)" (is "sessionOk E digest key ?s")
proof (rule sessionOk_update [OF s])
  show "createOk E ?s" "operationsOk ?s" "bsCreateState ?s = CreateIntent \<Longrightarrow> bsResponses ?s = fmempty"
    using s by (simp_all add: sessionOk_iff)
  have empty: "fmmap_keys f m = fmempty \<longleftrightarrow> m = fmempty" for m
    by (simp add: fmcard_0_iff [symmetric])
  have "currentOk s" using s by (simp add: sessionOk_iff)
  then show "currentOk ?s" by (auto simp: currentOk_def empty)
  show "promptOk E p pk digest ?s" if "fmlookup (bsPrompts ?s) pk = Some p" for pk p
    using that ok by auto
  show "linkOpt ?s pk seq = linkOpt s pk seq" for pk seq
  proof (cases "fmlookup (bsPrompts s) pk")
    case (Some p)
    with ok [OF Some] show ?thesis by (simp add: linkOpt_def sameLinks_def)
  qed (simp add: linkOpt_def)
qed simp_all

lemma fmmap_keys_const: "fmmap f m = fmmap_keys (\<lambda>_. f) m"
  by (intro fmap_ext) simp

lemma sessionOk_closeSome:
  assumes "sessionOk E digest key s"
  shows "sessionOk E digest key (s\<lparr>bsPrompts := fmmap_keys (\<lambda>pk p. if C pk p then closePromptEntry p else p) (bsPrompts s)\<rparr>)"
  by (rule sessionOk_map [OF assms]) (auto intro: promptOk_close dest: sessionOk_prompt [OF assms])

lemma sessionOk_settle:
  assumes s: "sessionOk E digest key s" and "\<And>x. length (sha E x) = 32"
    and closing: "\<And>pk p. pk |\<in>| cpClosing cp \<Longrightarrow> fmlookup (bsPrompts s) pk = Some p \<Longrightarrow> bpClosing p"
  shows "sessionOk E digest key (settlePrompts E key cp kind now s)"
  unfolding settlePrompts_def
proof (rule sessionOk_map [OF s])
  fix pk p
  assume p: "fmlookup (bsPrompts s) pk = Some p"
  have "DigestValid (settlementProof E key pk (cpRemoteID cp) kind now)"
    by (simp add: settlementProof_def DigestValid_Digest assms(2))
  with promptOk_settle [OF sessionOk_prompt [OF s p]] closing [OF _ p] sessionOk_prompt [OF s p]
  show "promptOk E (if pk |\<in>| cpClosing cp then settlePrompt (settlementProof E key pk (cpRemoteID cp) kind now) p else p)
      pk digest s \<and> sameLinks p (if pk |\<in>| cpClosing cp then settlePrompt (settlementProof E key pk (cpRemoteID cp) kind now) p else p)"
    by simp
qed

lemma fmlookup_putPrompt [simp]:
  "fmlookup (bsPrompts (putPrompt pk p s)) k = (if k = pk then Some p else fmlookup (bsPrompts s) k)"
  by (auto simp: putPrompt_def)

lemma putPrompt_fields [simp]:
  "bsOwner (putPrompt pk p s) = bsOwner s" "bsRemoteID (putPrompt pk p s) = bsRemoteID s"
  "bsCreateState (putPrompt pk p s) = bsCreateState s" "bsRetiring (putPrompt pk p s) = bsRetiring s"
  "bsRetired (putPrompt pk p s) = bsRetired s" "bsResponses (putPrompt pk p s) = bsResponses s"
  "bsOperations (putPrompt pk p s) = bsOperations s" "bsCurrentPrompt (putPrompt pk p s) = bsCurrentPrompt s"
  "bsProofDigest (putPrompt pk p s) = bsProofDigest s"
  "bsPrompts (putPrompt pk p s) = fmupd pk p (bsPrompts s)"
  by (simp_all add: putPrompt_def)

lemma sessionOk_putPrompt:
  assumes s: "sessionOk E digest key s" and p: "fmlookup (bsPrompts s) pk = Some p"
    and "promptOk E p' pk digest s" "sameLinks p p'"
  shows "sessionOk E digest key (putPrompt pk p' s)"
proof -
  have "fmmap_keys (\<lambda>k q. if k = pk then p' else q) (bsPrompts s) = fmupd pk p' (bsPrompts s)"
  proof (rule fmap_ext)
    fix x
    show "fmlookup (fmmap_keys (\<lambda>k q. if k = pk then p' else q) (bsPrompts s)) x = fmlookup (fmupd pk p' (bsPrompts s)) x"
      using p by (cases "fmlookup (bsPrompts s) x") auto
  qed
  then have "putPrompt pk p' s = s\<lparr>bsPrompts := fmmap_keys (\<lambda>k q. if k = pk then p' else q) (bsPrompts s)\<rparr>"
    by (simp add: putPrompt_def)
  moreover have "sessionOk E digest key (s\<lparr>bsPrompts := fmmap_keys (\<lambda>k q. if k = pk then p' else q) (bsPrompts s)\<rparr>)"
    by (rule sessionOk_map [OF s]) (use p assms(3,4) in \<open>auto dest: sessionOk_prompt [OF s]\<close>)
  ultimately show ?thesis by simp
qed

definition newPrompt :: "brokerContext \<Rightarrow> int \<Rightarrow> brokerPrompt" where
  "newPrompt c expires = \<lparr>bpIdentity = c, bpLeaseGeneration = bcLeaseGeneration c,
     bpLeaseExpiresAt = expires, bpClosing = False, bpSettled = False, bpProofDigest = [],
     bpLastSequence = 0, bpLastAlias = [], bpInvocations = fmempty\<rparr>"

lemma promptOk_new:
  assumes "promptHeader E key digest (newPrompt c expires)" "promptPlace s key (newPrompt c expires)"
  shows "promptOk E (newPrompt c expires) key digest s"
  using assms by (simp add: promptOk_iff newPrompt_def lastSequenceOk_def lastAliasOk_def)

lemma sessionOk_newPrompt:
  assumes s: "sessionOk E digest key s" and new: "fmlookup (bsPrompts s) pk = None" "pk \<noteq> []"
    and settled: "\<And>k p. fmlookup (bsPrompts s) k = Some p \<Longrightarrow> bpSettled p"
    and open': "\<not> bsRetiring s" "\<not> bsRetired s" and card: "fmcard (bsPrompts s) < 4096"
    and header: "promptHeader E pk digest (newPrompt c expires)"
    and place: "bcOwner c = bsOwner s" "lookupString (bsOperations s) (bcOperationID c) \<noteq> []"
  shows "sessionOk E digest key ((putPrompt pk (newPrompt c expires) s)\<lparr>bsCurrentPrompt := pk\<rparr>)"
    (is "sessionOk E digest key ?s")
proof (rule sessionOk_update [OF s])
  show "createOk E ?s" "operationsOk ?s" "bsCreateState ?s = CreateIntent \<Longrightarrow> bsResponses ?s = fmempty"
    using s by (simp_all add: sessionOk_iff putPrompt_def)
  show "currentOk ?s" using new card by (simp add: currentOk_def fmcard_upd)
  show "promptOk E p k digest ?s" if "fmlookup (bsPrompts ?s) k = Some p" for k p
  proof (cases "k = pk")
    case True
    with that have "p = newPrompt c expires" by simp
    with True header place open' show ?thesis
      by (auto intro!: promptOk_new simp: promptPlace_def) (auto simp: newPrompt_def)
  next
    case False
    with that have p: "fmlookup (bsPrompts s) k = Some p" by simp
    show ?thesis
      by (rule promptOk_grows [OF sessionOk_prompt [OF s p]])
        (use settled [OF p] open' in \<open>simp_all add: growsAround_def\<close>)
  qed
  show "linkOpt ?s k seq = linkOpt s k seq" for k seq
    using new by (cases "k = pk") (simp_all add: linkOpt_def newPrompt_def)
qed simp_all

section \<open>Retirement and creation\<close>

lemma sessionOk_closeAll:
  assumes s: "sessionOk E digest key s"
  shows "sessionOk E digest key (s\<lparr>bsRetiring := True, bsPrompts := fmmap closePromptEntry (bsPrompts s)\<rparr>)"
    (is "sessionOk E digest key ?s")
proof -
  let ?c = "s\<lparr>bsPrompts := fmmap closePromptEntry (bsPrompts s)\<rparr>"
  have c: "sessionOk E digest key ?c"
    using sessionOk_closeSome [OF s, of "\<lambda>_ _. True"] by (simp add: fmmap_keys_const)
  have eq: "?s = ?c\<lparr>bsRetiring := True\<rparr>" by simp
  show ?thesis unfolding eq
  proof (rule sessionOk_update [OF c])
    have "createOk E ?c" using c by (simp add: sessionOk_iff)
    then show "createOk E (?c\<lparr>bsRetiring := True\<rparr>)"
      by (auto simp: createOk_def split: createState.splits)
    show "operationsOk (?c\<lparr>bsRetiring := True\<rparr>)" "currentOk (?c\<lparr>bsRetiring := True\<rparr>)"
      "bsCreateState (?c\<lparr>bsRetiring := True\<rparr>) = CreateIntent \<Longrightarrow> bsResponses (?c\<lparr>bsRetiring := True\<rparr>) = fmempty"
      using c by (simp_all only: sessionOk_iff operationsOk_update currentOk_update) simp
    show "promptOk E p pk digest (?c\<lparr>bsRetiring := True\<rparr>)"
      if "fmlookup (bsPrompts (?c\<lparr>bsRetiring := True\<rparr>)) pk = Some p" for pk p
    proof (rule promptOk_grows)
      from that have p: "fmlookup (bsPrompts ?c) pk = Some p" by simp
      from sessionOk_prompt [OF c p] show "promptOk E p pk digest ?c" .
      then show "\<not> bpSettled p \<Longrightarrow> \<not> bsRetired (?c\<lparr>bsRetiring := True\<rparr>) \<and> pk = bsCurrentPrompt (?c\<lparr>bsRetiring := True\<rparr>)"
        by (simp add: promptOk_iff promptPlace_def)
      show "bpClosing p" using p by (auto simp: closePromptEntry_def)
      show "growsAround p ?c (?c\<lparr>bsRetiring := True\<rparr>)" by (simp add: growsAround_def)
    qed
  qed (simp_all add: linkOpt_def)
qed

lemma sessionOk_retire:
  assumes s: "sessionOk E digest key s" and settled: "\<And>pk p. fmlookup (bsPrompts s) pk = Some p \<Longrightarrow> bpSettled p"
    and "bsRetiring s" "DigestValid d"
    and cs: "cs = (if bsCreateState s = CreateKnown then CreateDeleted else bsCreateState s)" "bsCreateState s \<noteq> CreateIntent"
  shows "sessionOk E digest key (s\<lparr>bsCreateState := cs, bsRetired := True, bsProofDigest := d\<rparr>)"
    (is "sessionOk E digest key ?s")
proof (rule sessionOk_update [OF s])
  have "createOk E s" using s by (simp add: sessionOk_iff)
  with assms(3-) show "createOk E ?s" by (cases "bsCreateState s") (auto simp: createOk_def)
  show "operationsOk ?s" "currentOk ?s" using s by (simp_all add: sessionOk_iff)
  show "bsCreateState ?s = CreateIntent \<Longrightarrow> bsResponses ?s = fmempty" using cs by (simp split: if_splits)
  show "promptOk E p pk digest ?s" if "fmlookup (bsPrompts ?s) pk = Some p" for pk p
  proof (rule promptOk_grows)
    from that have p: "fmlookup (bsPrompts s) pk = Some p" by simp
    from sessionOk_prompt [OF s p] show ok: "promptOk E p pk digest s" .
    show "\<not> bpSettled p \<Longrightarrow> \<not> bsRetired ?s \<and> pk = bsCurrentPrompt ?s" using settled [OF p] by simp
    show "bsRetiring ?s \<Longrightarrow> bpClosing p" using ok by (simp add: promptOk_iff promptPlace_def)
    show "growsAround p s ?s" by (simp add: growsAround_def)
  qed
qed (simp_all add: linkOpt_def)

lemma sessionOk_createState:
  assumes s: "sessionOk E digest key s"
    and "createOk E (s\<lparr>bsRemoteID := r, bsCreateState := c\<rparr>)" "c = CreateIntent \<Longrightarrow> bsResponses s = fmempty"
  shows "sessionOk E digest key (s\<lparr>bsRemoteID := r, bsCreateState := c\<rparr>)"
  by (rule sessionOk_update [OF s])
    (use assms in \<open>simp_all add: linkOpt_def sessionOk_iff\<close>)

lemma sessionOk_createIntent:
  assumes s: "sessionOk E digest key s" and "bsCreateState s = CreateNone" "\<not> bsRetiring s" "uuidCanonical E r"
  shows "sessionOk E digest key (s\<lparr>bsRemoteID := r, bsCreateState := CreateIntent\<rparr>)"
  by (rule sessionOk_createState [OF s])
    (use assms sessionOk_retired [OF s] in \<open>auto simp: sessionOk_iff createOk_def\<close>)

lemma sessionOk_createKnown:
  assumes s: "sessionOk E digest key s" and "bsCreateState s = CreateIntent"
  shows "sessionOk E digest key (s\<lparr>bsCreateState := CreateKnown\<rparr>)"
proof -
  have "createOk E s" using s by (simp add: sessionOk_iff)
  with assms have "createOk E (s\<lparr>bsRemoteID := bsRemoteID s, bsCreateState := CreateKnown\<rparr>)"
    by (auto simp: createOk_def)
  from sessionOk_createState [OF s this] show ?thesis by simp
qed

lemma sessionOk_createNone:
  assumes s: "sessionOk E digest key s" and "bsCreateState s = CreateIntent"
  shows "sessionOk E digest key (s\<lparr>bsRemoteID := [], bsCreateState := CreateNone\<rparr>)"
  by (rule sessionOk_createState [OF s]) (use assms in \<open>auto simp: sessionOk_iff createOk_def\<close>)

section \<open>Response links\<close>

lemma linked_lookup:
  assumes "sessionOk E digest key s" "linkOpt s pk seq = Some a"
  shows "fmlookup (bsResponses s) a \<noteq> None"
proof -
  from assms(2) obtain p i where p: "fmlookup (bsPrompts s) pk = Some p"
    and i: "fmlookup (bpInvocations p) seq = Some i" "linkOf i = Some a"
    by (auto simp: linkOpt_def bind_eq_Some_conv)
  from sessionOk_invocation [OF assms(1) p i(1)] i(2) show ?thesis
    by (auto simp: invocationOk_iff linkOk_def linkOf_def split: if_splits)
qed

text \<open>A prompt keeps its check when responses change that none of its invocations is linked to.\<close>

lemma promptOk_responses:
  assumes s: "sessionOk E digest key s" and p: "fmlookup (bsPrompts s) pk = Some p"
    and "\<And>seq a. linkOpt s pk seq = Some a \<Longrightarrow> fmlookup r a = fmlookup (bsResponses s) a"
  shows "promptOk E p pk digest (s\<lparr>bsResponses := r\<rparr>)"
proof (rule promptOk_grows)
  show ok: "promptOk E p pk digest s" using s p by (rule sessionOk_prompt)
  then show "\<not> bpSettled p \<Longrightarrow> \<not> bsRetired (s\<lparr>bsResponses := r\<rparr>) \<and> pk = bsCurrentPrompt (s\<lparr>bsResponses := r\<rparr>)"
    "bsRetiring (s\<lparr>bsResponses := r\<rparr>) \<Longrightarrow> bpClosing p"
    by (simp_all add: promptOk_iff promptPlace_def)
  have "fmlookup r a = fmlookup (bsResponses s) a"
    if "fmlookup (bpInvocations p) seq = Some i" "linkOf i = Some a" for seq i a
    using assms(3) [of seq a] p that by (simp add: linkOpt_def)
  then show "growsAround p s (s\<lparr>bsResponses := r\<rparr>)" by (simp add: growsAround_def)
qed

lemma linkOpt_putInvocation:
  assumes "fmlookup (bsPrompts s) pk = Some p"
    "\<And>n. fmlookup (bpInvocations p') n = fmlookup (fmupd seq i (bpInvocations p)) n"
  shows "linkOpt ((putPrompt pk p' s)\<lparr>bsResponses := r\<rparr>) k n =
    (if k = pk \<and> n = seq then linkOf i else linkOpt s k n)"
  using assms by (cases "k = pk"; cases "n = seq") (simp_all add: linkOpt_def)

definition acceptedSession :: "string \<Rightarrow> 64 word \<Rightarrow> string \<Rightarrow> string \<Rightarrow> brokerInvocation \<Rightarrow> brokerPrompt \<Rightarrow>
    brokerSession \<Rightarrow> brokerSession" where
  "acceptedSession pkey seq responseID al iv prompt session =
     (putPrompt pkey (putInvocation seq (iv\<lparr>biResponseID := responseID, biResponseAlias := al,
        biState := InvAccepted\<rparr>) prompt) session)\<lparr>bsResponses :=
      fmupd al \<lparr>brRemoteID = responseID, brPromptKey = pkey, brCompleted = False,
        brHasFunctions = False, brCallIDs = fmempty\<rparr> (bsResponses session)\<rparr>"

lemma sessionOk_accept:
  assumes s: "sessionOk E digest key s" and p: "fmlookup (bsPrompts s) pk = Some p"
    and i: "fmlookup (bpInvocations p) seq = Some i" "biResponseID i = []" and open': "\<not> bpSettled p"
    and al: "fmlookup (bsResponses s) al = None" "brokerAliasValid E al ''fr_''"
    and rid: "ValidateIdentifier rid" "rid \<noteq> []"
    and created: "bsCreateState s \<noteq> CreateNone" "bsCreateState s \<noteq> CreateIntent"
  shows "sessionOk E digest key (acceptedSession pk seq rid al i p s)"
proof -
  let ?link = "\<lparr>brRemoteID = rid, brPromptKey = pk, brCompleted = False, brHasFunctions = False, brCallIDs = fmempty\<rparr>"
  let ?r = "fmupd al ?link (bsResponses s)" let ?s1 = "s\<lparr>bsResponses := ?r\<rparr>"
  let ?i = "i\<lparr>biResponseID := rid, biResponseAlias := al, biState := InvAccepted\<rparr>"
  let ?p = "putInvocation seq ?i p" let ?s = "acceptedSession pk seq rid al i p s"
  have s_eq: "?s = (putPrompt pk ?p s)\<lparr>bsResponses := ?r\<rparr>" by (simp add: acceptedSession_def)
  have fresh: "linkOpt s k n \<noteq> Some al" for k n
    using linked_lookup [OF s, of k n al] al(1) by auto
  have old: "promptOk E q k digest ?s1" if "fmlookup (bsPrompts s) k = Some q" for k q
    by (rule promptOk_responses [OF s that]) (use fresh in \<open>auto\<close>)
  have iok: "invocationOk E i seq pk p s" by (rule sessionOk_invocation [OF s p i(1)])
  have "invocationOk E ?i seq pk p ?s1"
    using iok al rid open'
    by (simp add: invocationOk_iff invocationHeader_def linkOk_def invocationStateOk_def)
  moreover have "biState i \<noteq> InvCompleted"
    using iok i(2) by (auto simp: invocationOk_iff invocationStateOk_def)
  ultimately have p': "promptOk E ?p pk digest ?s1"
    using i old [OF p] by (intro promptOk_putInvocation [of E p pk digest ?s1 seq i]) simp_all
  have move: "promptOk E q k digest ?s = promptOk E q k digest ?s1" for q k
  proof -
    have "?s = ?s1\<lparr>bsPrompts := fmupd pk ?p (bsPrompts s)\<rparr>" by (simp add: s_eq putPrompt_def)
    then show ?thesis by (simp only: promptOk_update)
  qed
  have link: "linkOpt ?s k n = (if k = pk \<and> n = seq then Some al else linkOpt s k n)" for k n
    unfolding s_eq using linkOpt_putInvocation [OF p, of ?p seq ?i] rid
    by (simp add: putInvocation_def linkOf_def)
  have parts: "ownerValid (bsOwner s)" "key = ownerKey E (bsOwner s)" "createOk E s" "operationsOk s" "currentOk s"
    "\<forall>a. fmlookup (bsResponses s) a \<noteq> None \<longrightarrow> (\<exists>pk seq. linkOpt s pk seq = Some a)"
    using s by (simp_all add: sessionOk_iff)
  have uniq: "k = k' \<and> n = n'" if "linkOpt s k n = Some a" "linkOpt s k' n' = Some a" for k n k' n' a
    using s that unfolding sessionOk_iff by blast
  show ?thesis unfolding sessionOk_iff
  proof (intro conjI allI impI)
    show "ownerValid (bsOwner ?s)" "key = ownerKey E (bsOwner ?s)" "operationsOk ?s"
      using parts(1,2,4) by (simp_all add: s_eq operationsOk_def)
    show "createOk E ?s" using parts(3) created by (auto simp: s_eq createOk_def split: createState.splits)
    show "currentOk ?s" using parts(5) p
      by (auto simp: s_eq currentOk_def fmcard_upd split: if_splits)
    show "promptOk E q k digest ?s" if "fmlookup (bsPrompts ?s) k = Some q" for k q
      using that p' old unfolding move by (auto simp: s_eq split: if_splits)
    show "pk' = pk''" "n = n'"
      if "linkOpt ?s pk' n = Some a \<and> linkOpt ?s pk'' n' = Some a" for pk' n pk'' n' a
      using that fresh unfolding link by (auto dest: uniq split: if_splits)
    show "\<exists>k n. linkOpt ?s k n = Some a" if "fmlookup (bsResponses ?s) a \<noteq> None" for a
    proof (cases "a = al")
      case False
      with that have "fmlookup (bsResponses s) a \<noteq> None" by (simp add: s_eq)
      with parts(6) obtain k n where kn: "linkOpt s k n = Some a" by blast
      have "linkOpt s pk seq = None" using p i by (simp add: linkOpt_def linkOf_def)
      with kn have "linkOpt ?s k n = Some a" unfolding link by auto
      then show ?thesis by blast
    qed (auto simp: link)
    show "bsCreateState ?s = CreateIntent \<Longrightarrow> bsResponses ?s = fmempty" using created by (simp add: s_eq)
  qed
qed

lemma brokerAliasValid_append [simp]: "brokerAliasValid E (pre @ x) pre \<longleftrightarrow> uuidCanonical E x"
  by (simp add: brokerAliasValid_def hasPrefix_def)

definition callIDsOk :: "env \<Rightarrow> (string, string) fmap \<Rightarrow> bool" where
  "callIDsOk E m \<longleftrightarrow> fmpred (\<lambda>al remote. brokerAliasValid E al ''fc_'' \<and> ValidateIdentifier remote) m"

lemma aliasCalls_ok:
  assumes "aliasCalls u n seen items m = Some (m', outs)" "callIDsOk E m"
    and "\<And>k. uuidCanonical E (u k)" "\<And>item. item \<in> set items \<Longrightarrow> ValidateIdentifier (oiCallID item)"
  shows "callIDsOk E m'"
  using assms
proof (induction items arbitrary: n seen m outs)
  case Nil
  then show ?case by simp
next
  case (Cons item items)
  let ?m = "fmupd (''fc_'' @ u n) (oiCallID item) m"
  from Cons.prems(1) obtain outs' where rest: "aliasCalls u (n + 2) (oiCallID item # seen) items ?m = Some (m', outs')"
    by (auto simp: Let_def split: if_splits)
  have "callIDsOk E ?m"
    using Cons.prems(2-4) brokerAliasValid_append [of E "''fc_''" "u n"] by (auto simp: callIDsOk_def fmpred_iff)
  from Cons.IH [OF rest this Cons.prems(3)] Cons.prems(4) show ?case by simp
qed

definition completedSession :: "string \<Rightarrow> 64 word \<Rightarrow> brokerResponseID \<Rightarrow> (string, string) fmap \<Rightarrow>
    brokerInvocation \<Rightarrow> brokerPrompt \<Rightarrow> brokerSession \<Rightarrow> brokerSession" where
  "completedSession pkey seq link callIDs iv prompt session =
     (putPrompt pkey ((putInvocation seq (iv\<lparr>biState := InvCompleted\<rparr>) prompt)
        \<lparr>bpLastAlias := biResponseAlias iv\<rparr>) session)\<lparr>bsResponses :=
      fmupd (biResponseAlias iv) (link\<lparr>brCallIDs := callIDs, brCompleted := True,
        brHasFunctions := (fmcard callIDs \<noteq> 0)\<rparr>) (bsResponses session)\<rparr>"

lemma sessionOk_complete:
  assumes s: "sessionOk E digest key s" and p: "fmlookup (bsPrompts s) pk = Some p"
    and i: "fmlookup (bpInvocations p) seq = Some i" "biResponseID i \<noteq> []" and open': "\<not> bpSettled p"
    and last: "bpLastSequence p = seq" and calls: "callIDsOk E callIDs"
    and link: "fmlookup (bsResponses s) (biResponseAlias i) = Some link"
    and created: "bsCreateState s \<noteq> CreateNone" "bsCreateState s \<noteq> CreateIntent"
  shows "sessionOk E digest key (completedSession pk seq link callIDs i p s)"
proof -
  let ?al = "biResponseAlias i"
  let ?link = "link\<lparr>brCallIDs := callIDs, brCompleted := True, brHasFunctions := (fmcard callIDs \<noteq> 0)\<rparr>"
  let ?r = "fmupd ?al ?link (bsResponses s)" let ?s1 = "s\<lparr>bsResponses := ?r\<rparr>"
  let ?i = "i\<lparr>biState := InvCompleted\<rparr>"
  let ?p = "(putInvocation seq ?i p)\<lparr>bpLastAlias := ?al\<rparr>"
  let ?s = "completedSession pk seq link callIDs i p s"
  have s_eq: "?s = (putPrompt pk ?p s)\<lparr>bsResponses := ?r\<rparr>" by (simp add: completedSession_def)
  have uniq: "k = k' \<and> n = n'" if "linkOpt s k n = Some a" "linkOpt s k' n' = Some a" for k n k' n' a
    using s that unfolding sessionOk_iff by blast
  have here: "linkOpt s pk seq = Some ?al" using p i by (simp add: linkOpt_def linkOf_def)
  have iok: "invocationOk E i seq pk p s" by (rule sessionOk_invocation [OF s p i(1)])
  have i'ok: "invocationOk E ?i seq pk p ?s1"
    using iok link i(2) calls open'
    by (auto simp: invocationOk_iff invocationHeader_def linkOk_def invocationStateOk_def callIDsOk_def)
  have pok: "promptOk E p pk digest s" using s p by (rule sessionOk_prompt)
  have p': "promptOk E ?p pk digest ?s1"
  proof -
    have "invocationOk E j n pk ?p ?s1" if j: "fmlookup (bpInvocations ?p) n = Some j" for n j
    proof (cases "n = seq")
      case True
      with j i'ok invocationOk_settled [of ?p p] show ?thesis by (simp add: putInvocation_def)
    next
      case False
      with j have j: "fmlookup (bpInvocations p) n = Some j" by (simp add: putInvocation_def)
      have "linkOf j \<noteq> Some ?al" using uniq [of pk n ?al pk seq] here False p j by (auto simp: linkOpt_def)
      then have "invocationOk E j n pk p ?s1"
        by (intro invocationOk_grows [OF sessionOk_invocation [OF s p j]]) auto
      with invocationOk_settled [of ?p p] show ?thesis by (simp add: putInvocation_def)
    qed
    moreover have "promptHeader E pk digest ?p" "promptPlace ?s1 pk ?p"
      using pok by (auto simp: promptOk_iff promptHeader_def promptPlace_def putInvocation_def Let_def)
    moreover have "lastSequenceOk ?p"
      using pok i last by (auto simp: promptOk_iff lastSequenceOk_def putInvocation_def split: if_splits)
    moreover have "lastAliasOk ?p"
    proof -
      have "completedAt ?p seq (bpLastAlias ?p)" by (simp add: completedAt_def putInvocation_def)
      moreover have "n \<le> seq" if "completedAt ?p n al" for n al
        using that pok last by (auto simp: completedAt_def putInvocation_def promptOk_iff lastSequenceOk_def
            split: option.splits if_splits)
      ultimately show ?thesis unfolding lastAliasOk_completed by blast
    qed
    ultimately show ?thesis by (simp add: promptOk_iff)
  qed
  have old: "promptOk E q k digest ?s1" if q: "fmlookup (bsPrompts s) k = Some q" "k \<noteq> pk" for k q
    by (rule promptOk_responses [OF s q(1)]) (use uniq [OF _ here] q(2) in auto)
  have move: "promptOk E q k digest ?s = promptOk E q k digest ?s1" for q k
  proof -
    have "?s = ?s1\<lparr>bsPrompts := fmupd pk ?p (bsPrompts s)\<rparr>" by (simp add: s_eq putPrompt_def)
    then show ?thesis by (simp only: promptOk_update)
  qed
  have link': "linkOpt ?s k n = linkOpt s k n" for k n
    unfolding s_eq using linkOpt_putInvocation [OF p, of ?p seq ?i] here i(2)
    by (simp add: putInvocation_def linkOf_def)
  have parts: "ownerValid (bsOwner s)" "key = ownerKey E (bsOwner s)" "createOk E s" "operationsOk s" "currentOk s"
    "\<forall>a. fmlookup (bsResponses s) a \<noteq> None \<longrightarrow> (\<exists>pk seq. linkOpt s pk seq = Some a)"
    using s by (simp_all add: sessionOk_iff)
  show ?thesis unfolding sessionOk_iff link'
  proof (intro conjI allI impI)
    show "ownerValid (bsOwner ?s)" "key = ownerKey E (bsOwner ?s)" "operationsOk ?s"
      using parts(1,2,4) by (simp_all add: s_eq operationsOk_def)
    show "createOk E ?s" using parts(3) created by (auto simp: s_eq createOk_def split: createState.splits)
    show "currentOk ?s" using parts(5) p
      by (auto simp: s_eq currentOk_def fmcard_upd split: if_splits)
    show "promptOk E q k digest ?s" if "fmlookup (bsPrompts ?s) k = Some q" for k q
      using that p' old unfolding move by (auto simp: s_eq split: if_splits)
    show "pk' = pk''" "n = n'" if "linkOpt s pk' n = Some a \<and> linkOpt s pk'' n' = Some a" for pk' n pk'' n' a
      using that uniq by blast+
    show "\<exists>k n. linkOpt s k n = Some a" if "fmlookup (bsResponses ?s) a \<noteq> None" for a
      using that parts(6) here by (cases "a = ?al") (auto simp: s_eq)
    show "bsCreateState ?s = CreateIntent \<Longrightarrow> bsResponses ?s = fmempty" using created by (simp add: s_eq)
  qed
qed

end
