(* ===== verification/BrokerHistory.thy ===== *)
theory BrokerHistory
  imports BrokerSession
begin

text \<open>
  How the durable record may change. The ledger is a history: owners, identities, recorded
  operations, settled prompts, retired sessions, completed responses and the pinned principal
  are never rewritten, leases and sequences only grow, and an invocation moves along
  \<open>invStep\<close>. \<open>ledgerEvolves\<close> states this between two ledgers; it is a preorder.
\<close>

section \<open>The life of an invocation\<close>

inductive invStep :: "invState \<Rightarrow> invState \<Rightarrow> bool" where
  reserved_intent: "invStep InvReserved InvIntent"
| reserved_rejected: "invStep InvReserved InvRejected"
| reserved_settled: "invStep InvReserved InvSettled"
| intent_rejected: "invStep InvIntent InvRejected"
| intent_uncertain: "invStep InvIntent InvUncertain"
| intent_accepted: "invStep InvIntent InvAccepted"
| accepted_completed: "invStep InvAccepted InvCompleted"
| accepted_settled: "invStep InvAccepted InvSettled"
| rejected_settled: "invStep InvRejected InvSettled"

code_pred invStep .

inductive_simps invStep_simps: "invStep st st'"
inductive_cases invStep_uncertainE: "invStep InvUncertain st"
inductive_cases invStep_completedE: "invStep InvCompleted st"
inductive_cases invStep_settledE: "invStep InvSettled st"

text \<open>Uncertain, completed and settled invocations never change again.\<close>

lemma invSteps_final:
  "invStep\<^sup>*\<^sup>* InvUncertain st \<Longrightarrow> st = InvUncertain"
  "invStep\<^sup>*\<^sup>* InvCompleted st \<Longrightarrow> st = InvCompleted"
  "invStep\<^sup>*\<^sup>* InvSettled st \<Longrightarrow> st = InvSettled"
  by (erule converse_rtranclpE; auto elim: invStep_uncertainE invStep_completedE invStep_settledE)+

inductive_cases invStep_reservedE: "invStep st InvReserved"

text \<open>Nothing returns to \<open>reserved\<close>.\<close>

lemma invSteps_reserved: "invStep\<^sup>*\<^sup>* st InvReserved \<Longrightarrow> st = InvReserved"
  by (erule rtranclp.cases) (auto elim: invStep_reservedE)

section \<open>The relations\<close>

definition invocationEvolves :: "brokerInvocation \<Rightarrow> brokerInvocation \<Rightarrow> bool" where
  "invocationEvolves i i' \<longleftrightarrow> biSequence i' = biSequence i \<and> biOperationID i' = biOperationID i \<and>
     biBodyDigest i' = biBodyDigest i \<and> invStep\<^sup>*\<^sup>* (biState i) (biState i') \<and>
     (biResponseID i \<noteq> [] \<longrightarrow> biResponseID i' = biResponseID i \<and> biResponseAlias i' = biResponseAlias i)"

definition promptEvolves :: "brokerPrompt \<Rightarrow> brokerPrompt \<Rightarrow> bool" where
  "promptEvolves p p' \<longleftrightarrow> bpIdentity p' = bpIdentity p \<and> bpLeaseGeneration p \<le> bpLeaseGeneration p' \<and>
     bpLeaseExpiresAt p \<le> bpLeaseExpiresAt p' \<and> (bpClosing p \<longrightarrow> bpClosing p') \<and> (bpSettled p \<longrightarrow> p' = p) \<and>
     bpLastSequence p \<le> bpLastSequence p' \<and>
     (\<forall>seq. case fmlookup (bpInvocations p) seq of
        Some i \<Rightarrow> (\<exists>i'. fmlookup (bpInvocations p') seq = Some i' \<and> invocationEvolves i i')
      | None \<Rightarrow> fmlookup (bpInvocations p') seq \<noteq> None \<longrightarrow> bpLastSequence p < seq)"

definition responseEvolves :: "brokerResponseID \<Rightarrow> brokerResponseID \<Rightarrow> bool" where
  "responseEvolves r r' \<longleftrightarrow> brRemoteID r' = brRemoteID r \<and> brPromptKey r' = brPromptKey r \<and>
     (brCompleted r \<longrightarrow> r' = r)"

text \<open>Every entry of a map stays and evolves.\<close>

definition mapEvolves :: "('v \<Rightarrow> 'v \<Rightarrow> bool) \<Rightarrow> ('k, 'v) fmap \<Rightarrow> ('k, 'v) fmap \<Rightarrow> bool" where
  "mapEvolves R m m' \<longleftrightarrow> (\<forall>k v. fmlookup m k = Some v \<longrightarrow> (\<exists>v'. fmlookup m' k = Some v' \<and> R v v'))"

definition sessionEvolves :: "brokerSession \<Rightarrow> brokerSession \<Rightarrow> bool" where
  "sessionEvolves s s' \<longleftrightarrow> bsOwner s' = bsOwner s \<and> mapEvolves (=) (bsOperations s) (bsOperations s') \<and>
     (bsRetiring s \<longrightarrow> bsRetiring s') \<and>
     (bsRetired s \<longrightarrow> bsRetired s' \<and> bsProofDigest s' = bsProofDigest s \<and> bsCreateState s' = bsCreateState s) \<and>
     mapEvolves promptEvolves (bsPrompts s) (bsPrompts s') \<and>
     mapEvolves responseEvolves (bsResponses s) (bsResponses s')"

definition ledgerEvolves :: "brokerLedger \<Rightarrow> brokerLedger \<Rightarrow> bool" where
  "ledgerEvolves l l' \<longleftrightarrow> blConfigDigest l' = blConfigDigest l \<and>
     (blPrincipalDigest l \<noteq> [] \<longrightarrow> blPrincipalDigest l' = blPrincipalDigest l) \<and>
     mapEvolves sessionEvolves (blSessions l) (blSessions l')"

section \<open>A preorder\<close>

lemma mapEvolves_refl: "(\<And>v. R v v) \<Longrightarrow> mapEvolves R m m"
  by (simp add: mapEvolves_def)

lemma mapEvolves_trans:
  assumes "\<And>x y z. R x y \<Longrightarrow> R y z \<Longrightarrow> R x z" "mapEvolves R m m'" "mapEvolves R m' m''"
  shows "mapEvolves R m m''"
  using assms unfolding mapEvolves_def by blast

lemma mapEvolves_upd:
  assumes "\<And>v. R v v" "case fmlookup m k of None \<Rightarrow> True | Some v0 \<Rightarrow> R v0 v"
  shows "mapEvolves R m (fmupd k v m)"
  using assms by (auto simp: mapEvolves_def split: option.splits)

lemma mapEvolves_map: "(\<And>k v. fmlookup m k = Some v \<Longrightarrow> R v (f k v)) \<Longrightarrow> mapEvolves R m (fmmap_keys f m)"
  by (simp add: mapEvolves_def)

lemma mapEvolvesD: "mapEvolves R m m' \<Longrightarrow> fmlookup m k = Some v \<Longrightarrow> \<exists>v'. fmlookup m' k = Some v' \<and> R v v'"
  by (simp add: mapEvolves_def)

lemma invocationEvolves_refl [simp]: "invocationEvolves i i"
  by (simp add: invocationEvolves_def)

lemma invocationEvolves_trans: "invocationEvolves i j \<Longrightarrow> invocationEvolves j k \<Longrightarrow> invocationEvolves i k"
  unfolding invocationEvolves_def by (auto dest: rtranclp_trans)

lemma promptEvolves_refl [simp]: "promptEvolves p p"
  by (simp add: promptEvolves_def split: option.split)

lemma promptEvolves_trans:
  assumes "promptEvolves p q" "promptEvolves q r"
  shows "promptEvolves p r"
proof -
  have "case fmlookup (bpInvocations p) seq of
        Some i \<Rightarrow> (\<exists>i'. fmlookup (bpInvocations r) seq = Some i' \<and> invocationEvolves i i')
      | None \<Rightarrow> fmlookup (bpInvocations r) seq \<noteq> None \<longrightarrow> bpLastSequence p < seq" for seq
  proof -
    have 1: "case fmlookup (bpInvocations p) seq of
        Some i \<Rightarrow> (\<exists>i'. fmlookup (bpInvocations q) seq = Some i' \<and> invocationEvolves i i')
      | None \<Rightarrow> fmlookup (bpInvocations q) seq \<noteq> None \<longrightarrow> bpLastSequence p < seq"
      and 2: "case fmlookup (bpInvocations q) seq of
        Some i \<Rightarrow> (\<exists>i'. fmlookup (bpInvocations r) seq = Some i' \<and> invocationEvolves i i')
      | None \<Rightarrow> fmlookup (bpInvocations r) seq \<noteq> None \<longrightarrow> bpLastSequence q < seq"
      and le: "bpLastSequence p \<le> bpLastSequence q"
      using assms by (simp_all add: promptEvolves_def)
    show ?thesis
    proof (cases "fmlookup (bpInvocations p) seq")
      case None
      with 1 2 le show ?thesis by (cases "fmlookup (bpInvocations q) seq") auto
    next
      case (Some i)
      with 1 obtain j where "fmlookup (bpInvocations q) seq = Some j" "invocationEvolves i j" by auto
      with Some 2 show ?thesis by (auto dest: invocationEvolves_trans)
    qed
  qed
  with assms show ?thesis unfolding promptEvolves_def by (simp only: simp_thms) (auto intro: order.trans)
qed

lemma responseEvolves_refl [simp]: "responseEvolves r r"
  by (simp add: responseEvolves_def)

lemma responseEvolves_trans: "responseEvolves r s \<Longrightarrow> responseEvolves s t \<Longrightarrow> responseEvolves r t"
  by (auto simp: responseEvolves_def)

lemma sessionEvolves_refl [simp]: "sessionEvolves s s"
  by (simp add: sessionEvolves_def mapEvolves_refl)

lemma sessionEvolves_trans:
  assumes "sessionEvolves r s" "sessionEvolves s t"
  shows "sessionEvolves r t"
proof -
  have "mapEvolves (=) (bsOperations r) (bsOperations t)"
    by (rule mapEvolves_trans [where R = "(=)" and m' = "bsOperations s"]) (use assms in \<open>simp_all add: sessionEvolves_def\<close>)
  moreover have "mapEvolves promptEvolves (bsPrompts r) (bsPrompts t)"
    by (rule mapEvolves_trans [where m' = "bsPrompts s", OF promptEvolves_trans])
      (use assms in \<open>simp_all add: sessionEvolves_def\<close>)
  moreover have "mapEvolves responseEvolves (bsResponses r) (bsResponses t)"
    by (rule mapEvolves_trans [where m' = "bsResponses s", OF responseEvolves_trans])
      (use assms in \<open>simp_all add: sessionEvolves_def\<close>)
  ultimately show ?thesis using assms by (simp add: sessionEvolves_def)
qed

lemma ledgerEvolves_refl [simp]: "ledgerEvolves l l"
  by (simp add: ledgerEvolves_def mapEvolves_refl)

lemma ledgerEvolves_trans:
  assumes "ledgerEvolves l m" "ledgerEvolves m n"
  shows "ledgerEvolves l n"
proof -
  have "mapEvolves sessionEvolves (blSessions l) (blSessions n)"
    by (rule mapEvolves_trans [where m' = "blSessions m", OF sessionEvolves_trans])
      (use assms in \<open>simp_all add: ledgerEvolves_def\<close>)
  with assms show ?thesis by (auto simp: ledgerEvolves_def)
qed

section \<open>The updates evolve\<close>

lemma ledgerEvolves_putSession:
  assumes "case fmlookup (blSessions l) key of None \<Rightarrow> True | Some s0 \<Rightarrow> sessionEvolves s0 s"
  shows "ledgerEvolves l (putSession key s l)"
  using assms by (auto simp: ledgerEvolves_def putSession_def intro: mapEvolves_upd)

lemma ledgerEvolves_map:
  assumes "\<And>key s. fmlookup (blSessions l) key = Some s \<Longrightarrow> sessionEvolves s (f key s)"
  shows "ledgerEvolves l (l\<lparr>blSessions := fmmap_keys f (blSessions l)\<rparr>)"
  using assms by (simp add: ledgerEvolves_def mapEvolves_map)

lemma sessionEvolves_map:
  assumes "\<And>pk p. fmlookup (bsPrompts s) pk = Some p \<Longrightarrow> promptEvolves p (f pk p)"
  shows "sessionEvolves s (s\<lparr>bsPrompts := fmmap_keys f (bsPrompts s)\<rparr>)"
  using assms by (simp add: sessionEvolves_def mapEvolves_map mapEvolves_refl)

lemma sessionEvolves_putPrompt:
  assumes "case fmlookup (bsPrompts s) pk of None \<Rightarrow> True | Some p0 \<Rightarrow> promptEvolves p0 p"
  shows "sessionEvolves s (putPrompt pk p s)"
proof -
  have "mapEvolves promptEvolves (bsPrompts s) (fmupd pk p (bsPrompts s))"
    by (rule mapEvolves_upd) (use assms in simp_all)
  then show ?thesis by (simp add: sessionEvolves_def mapEvolves_refl)
qed

lemma promptEvolves_close: "(bpSettled p \<Longrightarrow> bpClosing p) \<Longrightarrow> promptEvolves p (closePromptEntry p)"
  by (auto simp: promptEvolves_def closePromptEntry_def split: option.split)

lemma promptEvolves_settle:
  assumes "\<not> bpSettled p"
    and "\<And>seq i. fmlookup (bpInvocations p) seq = Some i \<Longrightarrow> invStep\<^sup>*\<^sup>* (biState i) (biState (settleInvocation i))"
  shows "promptEvolves p (settlePrompt x p)"
proof -
  have "invocationEvolves i (settleInvocation i)" if "fmlookup (bpInvocations p) seq = Some i" for seq i
    using assms(2) [OF that] by (simp add: invocationEvolves_def)
  with assms(1) show ?thesis
    by (auto simp: promptEvolves_def lookup_settle split: option.split) (simp_all add: settlePrompt_def)
qed

lemma promptEvolves_putInvocation:
  assumes "\<not> bpSettled p" "fmlookup (bpInvocations p) seq = Some i" "invocationEvolves i i'"
  shows "promptEvolves p (putInvocation seq i' p)"
  using assms by (auto simp: promptEvolves_def putInvocation_def split: option.split)

lemma promptEvolves_reserve:
  assumes "\<not> bpSettled p" "bpLastSequence p < bcInvocationSequence c"
    "\<And>seq i. fmlookup (bpInvocations p) seq = Some i \<Longrightarrow> seq \<le> bpLastSequence p"
  shows "promptEvolves p (reservePrompt c p)"
  using assms by (auto simp: promptEvolves_def reservePrompt_def split: option.split)
    (meson leD)?

lemma promptEvolves_renew:
  assumes "\<not> bpSettled p" "bpLeaseGeneration p \<le> g" "bpLeaseExpiresAt p \<le> t"
  shows "promptEvolves p (p\<lparr>bpLeaseGeneration := g, bpLeaseExpiresAt := t\<rparr>)"
  using assms by (auto simp: promptEvolves_def split: option.split)

lemma sessionEvolves_fields [simp]:
  "sessionEvolves s (s'\<lparr>bsCurrentPrompt := k\<rparr>) = sessionEvolves s s'"
  "sessionEvolves s (s'\<lparr>bsRemoteID := r\<rparr>) = sessionEvolves s s'"
  by (simp_all add: sessionEvolves_def)

end
