(* ===== verification/BrokerInvariant.thy ===== *)
theory BrokerInvariant
  imports BrokerHistory
begin

text \<open>
  The ledger invariant and the contract between a ledger change and the commit. The locale
  \<open>history_change\<close> is the contract: from a ledger that a restart would accept, and under a
  precondition of its own, a change leads to a ledger that a restart would accept and that
  continues the history. What a commit of such a change does to the broker and the disk is
  proved once inside it; every change of the code is an interpretation.
\<close>

section \<open>The ledger\<close>

definition ledgerOk :: "env \<Rightarrow> string \<Rightarrow> brokerLedger \<Rightarrow> bool" where
  "ledgerOk E digest l \<longleftrightarrow> blVersion l = 1 \<and> blConfigDigest l = digest \<and> fmcard (blSessions l) \<le> 4096 \<and>
     (blPrincipalDigest l \<noteq> [] \<longrightarrow> DigestValid (blPrincipalDigest l)) \<and>
     (\<forall>key s. fmlookup (blSessions l) key = Some s \<longrightarrow> sessionOk E digest key s \<and>
        (bsRemoteID s \<noteq> [] \<longrightarrow> blPrincipalDigest l \<noteq> []))"

lemma ledgerOk_valid: "ledgerOk E digest l \<Longrightarrow> brokerLedgerValid E l digest"
  by (auto simp: ledgerOk_def brokerLedgerValid_def fmpred_iff brokerSessionValid_iff sessionOk_def)

lemma ledgerOk_iff:
  "ledgerOk E digest l \<longleftrightarrow> brokerLedgerValid E l digest \<and>
     (\<forall>key s. fmlookup (blSessions l) key = Some s \<longrightarrow> bsCreateState s = CreateIntent \<longrightarrow> bsResponses s = fmempty)"
  by (auto simp: ledgerOk_def brokerLedgerValid_def fmpred_iff brokerSessionValid_iff sessionOk_def)

lemma ledgerOk_empty: "ledgerOk E digest (emptyLedger digest)"
  by (simp add: ledgerOk_def emptyLedger_def)

lemma ledgerOk_session:
  "ledgerOk E digest l \<Longrightarrow> fmlookup (blSessions l) key = Some s \<Longrightarrow> sessionOk E digest key s"
  by (simp add: ledgerOk_def)

lemma ledgerOk_principal:
  "ledgerOk E digest l \<Longrightarrow> fmlookup (blSessions l) key = Some s \<Longrightarrow> bsRemoteID s \<noteq> [] \<Longrightarrow> blPrincipalDigest l \<noteq> []"
  by (simp add: ledgerOk_def)

lemma putSession_fields [simp]:
  "blVersion (putSession key s l) = blVersion l" "blConfigDigest (putSession key s l) = blConfigDigest l"
  "blPrincipalDigest (putSession key s l) = blPrincipalDigest l"
  "blSessions (putSession key s l) = fmupd key s (blSessions l)"
  by (simp_all add: putSession_def)

lemma ledgerOk_putSession:
  assumes "ledgerOk E digest l" "sessionOk E digest key s" "bsRemoteID s \<noteq> [] \<Longrightarrow> blPrincipalDigest l \<noteq> []"
    and "fmlookup (blSessions l) key = None \<Longrightarrow> fmcard (blSessions l) < 4096"
  shows "ledgerOk E digest (putSession key s l)"
  using assms by (auto simp: ledgerOk_def fmcard_upd)

lemma ledgerOk_map:
  assumes l: "ledgerOk E digest l"
    and "\<And>key s. fmlookup (blSessions l) key = Some s \<Longrightarrow> sessionOk E digest key (f key s) \<and> bsRemoteID (f key s) = bsRemoteID s"
  shows "ledgerOk E digest (l\<lparr>blSessions := fmmap_keys f (blSessions l)\<rparr>)"
  using assms by (auto simp: ledgerOk_def)

text \<open>Replacing a session by a later version of itself.\<close>

lemma replaceSession:
  assumes l: "ledgerOk E digest l" and s: "fmlookup (blSessions l) key = Some s"
    and s': "sessionOk E digest key s'" "sessionEvolves s s'" "bsRemoteID s' \<noteq> [] \<Longrightarrow> blPrincipalDigest l \<noteq> []"
  shows "ledgerOk E digest (putSession key s' l) \<and> ledgerEvolves l (putSession key s' l)"
proof
  show "ledgerOk E digest (putSession key s' l)"
    using s by (intro ledgerOk_putSession [OF l s'(1)] s'(3)) simp_all
  show "ledgerEvolves l (putSession key s' l)"
    using s s' by (intro ledgerEvolves_putSession) simp
qed

section \<open>The commit\<close>

lemma saveBytes_cases:
  assumes "saveBytes io data d = (r, d')"
  obtains "r \<noteq> None" "d' = d" | "r \<noteq> None" "d' = Some data" | "r = None" "d' = Some data"
  using assms by (auto simp: saveBytes_def split: if_splits)

text \<open>The outcomes of a commit: refused with nothing changed, a storage failure that may already
  have replaced the file, or done.\<close>

lemma commit_cases:
  assumes "commitCapacityLocked E io ordinary change b = (r, b')"
  obtains (refused) "r \<noteq> None" "b' = b"
  | (failed) nxt where "r = Some ErrStorage" "change (bkLedger b) = Inr nxt" "\<not> bkStorageError b"
      "b' = failStorageLocked b \<or> b' = failStorageLocked (b\<lparr>bkDisk := Some (marshalLedger E nxt)\<rparr>)"
  | (saved) nxt where "r = None" "change (bkLedger b) = Inr nxt" "\<not> bkStorageError b"
      "b' = b\<lparr>bkDisk := Some (marshalLedger E nxt), bkLedger := nxt\<rparr>"
proof (cases "bkStorageError b")
  case True
  with assms refused show thesis by (auto simp: commitCapacityLocked_def)
next
  case noerr: False
  show thesis
  proof (cases "change (bkLedger b)")
    case (Inl e)
    with assms noerr refused show thesis by (auto simp: commitCapacityLocked_def)
  next
    case (Inr nxt)
    obtain x d where save: "saveBytes io (marshalLedger E nxt) (bkDisk b) = (x, d)" by fastforce
    show thesis
    proof (cases "r = Some ErrCapacity \<and> b' = b")
      case True
      then show thesis by (intro refused) simp_all
    next
      case False
      with assms Inr noerr save have res: "case x of Some _ \<Rightarrow> r = Some ErrStorage \<and>
          b' = failStorageLocked (b\<lparr>bkDisk := d\<rparr>) | None \<Rightarrow> r = None \<and> b' = b\<lparr>bkDisk := d, bkLedger := nxt\<rparr>"
        by (auto simp: commitCapacityLocked_def Let_def split: if_splits option.splits)
      from save show thesis
        by (rule saveBytes_cases) (use res Inr noerr failed saved in \<open>auto simp: failStorageLocked_def\<close>)
    qed
  qed
qed

lemma failStorageLocked_fields [simp]:
  "bkLedger (failStorageLocked b) = bkLedger b" "bkDisk (failStorageLocked b) = bkDisk b"
  "bkStorageError (failStorageLocked b)" "bkCancelled (failStorageLocked b)"
  "bkWorkers (failStorageLocked b) = bkWorkers b" "bkCfg (failStorageLocked b) = bkCfg b"
  by (simp_all add: failStorageLocked_def)

text \<open>What survives a crash: a ledger a restart accepts, which continues the one in memory and is
  the one in memory as long as no save has failed.\<close>

definition durable :: "env \<Rightarrow> string \<Rightarrow> broker \<Rightarrow> bool" where
  "durable E digest b \<longleftrightarrow> ledgerOk E digest (bkLedger b) \<and>
     (\<exists>l. bkDisk b = Some (marshalLedger E l) \<and> ledgerOk E digest l \<and> ledgerEvolves (bkLedger b) l) \<and>
     (\<not> bkStorageError b \<longrightarrow> bkDisk b = Some (marshalLedger E (bkLedger b)))"

locale safe_change =
  fixes E :: env and digest :: string
    and pre :: "brokerLedger \<Rightarrow> bool" and change :: "brokerLedger \<Rightarrow> brokerError + brokerLedger"
  assumes keeps: "\<lbrakk>ledgerOk E digest l; pre l; change l = Inr l'\<rbrakk> \<Longrightarrow> ledgerOk E digest l'"
begin

lemma commit_ledgerOk:
  assumes "ledgerOk E digest (bkLedger b)" "pre (bkLedger b)" "commitCapacityLocked E io ordinary change b = (r, b')"
  shows "ledgerOk E digest (bkLedger b')"
  using assms(3)
  by (rule commit_cases) (use assms keeps in auto)

lemma commit_accepted:
  assumes "ledgerOk E digest (bkLedger b)" "pre (bkLedger b)" "commitCapacityLocked E io ordinary change b = (None, b')"
  shows "brokerLedgerValid E (bkLedger b') digest \<and> bkDisk b' = Some (marshalLedger E (bkLedger b'))"
  using assms(3)
  by (rule commit_cases) (use assms keeps ledgerOk_valid in auto)

end

locale history_change = safe_change +
  assumes evolves: "\<lbrakk>ledgerOk E digest l; pre l; change l = Inr l'\<rbrakk> \<Longrightarrow> ledgerEvolves l l'"
begin

lemma commit_durable:
  assumes d: "durable E digest b" and p: "pre (bkLedger b)"
    and c: "commitCapacityLocked E io ordinary change b = (r, b')"
  shows "durable E digest b'" "ledgerEvolves (bkLedger b) (bkLedger b')"
proof -
  from d have ok: "ledgerOk E digest (bkLedger b)" by (simp add: durable_def)
  from c have "durable E digest b' \<and> ledgerEvolves (bkLedger b) (bkLedger b')"
  proof (cases rule: commit_cases)
    case refused
    with d show ?thesis by simp
  next
    case (failed nxt)
    with d keeps [OF ok p] evolves [OF ok p] show ?thesis by (auto simp: durable_def)
  next
    case (saved nxt)
    with keeps [OF ok p] evolves [OF ok p] show ?thesis by (auto simp: durable_def intro: exI [of _ nxt])
  qed
  then show "durable E digest b'" "ledgerEvolves (bkLedger b) (bkLedger b')" by simp_all
qed

lemma commitLocked_durable:
  assumes "durable E digest b" "pre (bkLedger b)" "commitLocked E io change b = (r, b')"
  shows "durable E digest b'" "ledgerEvolves (bkLedger b) (bkLedger b')"
  using commit_durable [OF assms(1,2)] assms(3) by (simp_all add: commitLocked_def)

lemma snd_commitLocked_durable:
  assumes "durable E digest b" "pre (bkLedger b)"
  shows "durable E digest (snd (commitLocked E io change b))"
    "ledgerEvolves (bkLedger b) (bkLedger (snd (commitLocked E io change b)))"
  using commitLocked_durable [OF assms, of io "fst (commitLocked E io change b)"] by simp_all

end

end
