(* ===== verification/BrokerChanges.thy ===== *)
theory BrokerChanges
  imports BrokerInvariant
begin

text \<open>
  Every ledger change of the code satisfies the contract \<^emph>\<open>history_change\<close>. The precondition
  of a change says what its caller knows: the context passed the parser, the invocation is in
  the state in which its own goroutine left it, and so on; \<^verbatim>\<open>BrokerSystem\<close> shows that these
  hold whenever the code commits.
\<close>

section \<open>Preparing the session and the prompt\<close>

definition shaOk :: "env \<Rightarrow> bool" where
  "shaOk E \<longleftrightarrow> (\<forall>x. length (sha E x) = 32)"

lemma shaOkD: "shaOk E \<Longrightarrow> length (sha E x) = 32"
  by (simp add: shaOk_def)

text \<open>The session stored under the owner's digest belongs to that owner: SHA-256 does not map
  two owners in use to one digest.\<close>

definition ownerAgrees :: "env \<Rightarrow> brokerContext \<Rightarrow> brokerLedger \<Rightarrow> bool" where
  "ownerAgrees E c l \<longleftrightarrow> (\<forall>s. fmlookup (blSessions l) (ownerKey E (bcOwner c)) = Some s \<longrightarrow> bsOwner s = bcOwner c)"

text \<open>A lease end of Go's zero time is refused by a restart, so the contexts that create or renew
  a prompt must not carry it.\<close>

definition requestOk :: "env \<Rightarrow> string \<Rightarrow> string \<Rightarrow> brokerContext \<Rightarrow> brokerLedger \<Rightarrow> bool" where
  "requestOk E digest path c l \<longleftrightarrow> shaOk E \<and> contextOk E digest path c \<and> ownerAgrees E c l \<and>
     (path \<noteq> RetirePath \<longrightarrow> parseTime E (bcLeaseExpiresAt c) \<noteq> Some 0)"

lemma ensureSession:
  assumes l: "ledgerOk E digest l" and c: "requestOk E digest path c l"
    and r: "brokerEnsureSession E l c = Inr (s, l1)"
  shows "ledgerOk E digest l1" "ledgerEvolves l l1" "fmlookup (blSessions l1) (ownerKey E (bcOwner c)) = Some s"
    "sessionOk E digest (ownerKey E (bcOwner c)) s" "bsOwner s = bcOwner c"
    "bsRemoteID s \<noteq> [] \<Longrightarrow> blPrincipalDigest l1 \<noteq> []"
proof -
  let ?key = "ownerKey E (bcOwner c)"
  have "ledgerOk E digest l1 \<and> ledgerEvolves l l1 \<and> fmlookup (blSessions l1) ?key = Some s \<and>
      sessionOk E digest ?key s \<and> bsOwner s = bcOwner c"
  proof (cases "fmlookup (blSessions l) ?key")
    case (Some s0)
    with r have "s = s0" "l1 = l" by (simp_all add: brokerEnsureSession_def Let_def)
    with Some l c show ?thesis by (simp add: requestOk_def ownerAgrees_def ledgerOk_session)
  next
    case None
    with r have s: "s = freshSession (bcOwner c)" and l1: "l1 = putSession ?key s l"
      and card: "fmcard (blSessions l) < 4096"
      by (auto simp: brokerEnsureSession_def Let_def freshSession_def split: if_splits)
    have ok: "sessionOk E digest ?key s"
      using c by (simp add: s sessionOk_fresh requestOk_def contextOk_def)
    moreover have "ledgerOk E digest l1"
      unfolding l1 using card by (intro ledgerOk_putSession [OF l ok]) (simp_all add: s freshSession_def)
    moreover have "ledgerEvolves l l1" unfolding l1 using None by (intro ledgerEvolves_putSession) simp
    ultimately show ?thesis by (simp add: l1 s freshSession_def)
  qed
  then show ok: "ledgerOk E digest l1" and "ledgerEvolves l l1"
    and look: "fmlookup (blSessions l1) ?key = Some s"
    and "sessionOk E digest ?key s" "bsOwner s = bcOwner c" by simp_all
  show "bsRemoteID s \<noteq> [] \<Longrightarrow> blPrincipalDigest l1 \<noteq> []" by (rule ledgerOk_principal [OF ok look])
qed

lemma recordOperation:
  assumes s: "sessionOk E digest key s" and c: "requestOk E digest path c l"
    and r: "brokerRecordOperation E s path' c = Inr (d, s1)"
  shows "sessionOk E digest key s1" "sessionEvolves s s1" "lookupString (bsOperations s1) (bcOperationID c) \<noteq> []"
    "\<exists>ops. s1 = s\<lparr>bsOperations := ops\<rparr>"
proof -
  have "operationsOk s" using s by (simp add: sessionOk_iff)
  from brokerRecordOperation_recorded [OF r this] c
  have rec: "recorded s (bcOperationID c) s1" and ops: "operationsOk s1"
    by (auto simp: requestOk_def contextOk_def shaOk_def)
  show "sessionOk E digest key s1" by (rule sessionOk_recorded [OF s rec ops])
  from rec show "lookupString (bsOperations s1) (bcOperationID c) \<noteq> []" "\<exists>ops. s1 = s\<lparr>bsOperations := ops\<rparr>"
    by (auto simp: recorded_def)
  have "mapEvolves (=) (bsOperations s) (fmupd (bcOperationID c) x (bsOperations s))"
    if "fmlookup (bsOperations s) (bcOperationID c) = None" for x
    by (rule mapEvolves_upd) (use that in simp_all)
  with r show "sessionEvolves s s1"
    by (auto simp: brokerRecordOperation_def Let_def sessionEvolves_def mapEvolves_refl split: option.splits if_splits)
qed

lemma promptKey_nonempty: "shaOk E \<Longrightarrow> promptKey E c \<noteq> []"
  by (simp add: promptKey_def DigestValid_nonempty DigestValid_Digest shaOk_def)

lemma ensurePrompt:
  assumes s: "sessionOk E digest key s" and c: "requestOk E digest path c l" "path \<noteq> RetirePath" "path \<noteq> StatusPath"
    and owner: "bsOwner s = bcOwner c" and op: "lookupString (bsOperations s) (bcOperationID c) \<noteq> []"
    and r: "brokerEnsurePrompt E s c = Inr (p, s1)"
  shows "sessionOk E digest key s1" "sessionEvolves s s1" "fmlookup (bsPrompts s1) (promptKey E c) = Some p"
    "promptOk E p (promptKey E c) digest s1" "bsRemoteID s1 = bsRemoteID s" "bsCreateState s1 = bsCreateState s"
proof -
  let ?pk = "promptKey E c"
  have "sessionOk E digest key s1 \<and> sessionEvolves s s1 \<and> fmlookup (bsPrompts s1) ?pk = Some p \<and>
      bsRemoteID s1 = bsRemoteID s \<and> bsCreateState s1 = bsCreateState s"
  proof (cases "fmlookup (bsPrompts s) ?pk")
    case (Some p0)
    with r have "p = p0" "s1 = s" by (simp_all add: brokerEnsurePrompt_def Let_def)
    with Some s show ?thesis by simp
  next
    case None
    from c obtain expires where e: "parseTime E (bcLeaseExpiresAt c) = Some expires" "expires \<noteq> 0"
      by (auto simp: requestOk_def contextOk_def)
    from r None e have p: "p = newPrompt c expires" and s1: "s1 = (putPrompt ?pk p s)\<lparr>bsCurrentPrompt := ?pk\<rparr>"
      and open': "\<not> bsRetiring s" "\<not> bsRetired s" "fmcard (bsPrompts s) < 4096"
      and cur: "case fmlookup (bsPrompts s) (bsCurrentPrompt s) of None \<Rightarrow> True | Some q \<Rightarrow> bpSettled q"
      by (auto simp: brokerEnsurePrompt_def Let_def newPrompt_def split: if_splits option.splits)
    have "sessionOk E digest key s1" unfolding s1 p
    proof (rule sessionOk_newPrompt [OF s None])
      show "?pk \<noteq> []" using c by (intro promptKey_nonempty) (simp add: requestOk_def)
      show "bpSettled q" if q: "fmlookup (bsPrompts s) k = Some q" for k q
      proof (rule ccontr)
        assume u: "\<not> bpSettled q"
        from sessionOk_unsettled [OF s q u] cur q u show False by simp
      qed
      show "promptHeader E ?pk digest (newPrompt c expires)"
        using c e by (simp add: promptHeader_def newPrompt_def requestOk_def contextOk_def Let_def)
    qed (use owner op open' in auto)
    moreover have "sessionEvolves s s1"
      unfolding s1 using None by (simp add: sessionEvolves_putPrompt)
    ultimately show ?thesis by (simp add: s1)
  qed
  then show "sessionOk E digest key s1" "sessionEvolves s s1" "fmlookup (bsPrompts s1) ?pk = Some p"
    "bsRemoteID s1 = bsRemoteID s" "bsCreateState s1 = bsCreateState s" by simp_all
  then show "promptOk E p ?pk digest s1" by (intro sessionOk_prompt)
qed

section \<open>Control routes\<close>

definition controlPre :: "env \<Rightarrow> string \<Rightarrow> string \<Rightarrow> brokerContext \<Rightarrow> brokerLedger \<Rightarrow> bool" where
  "controlPre E digest path c l \<longleftrightarrow> requestOk E digest path c l \<and> path \<in> {RenewPath, SettlePath, RetirePath}"

lemma brokerEnsurePrompt_lookup:
  "brokerEnsurePrompt E s c = Inr (p, s') \<Longrightarrow> fmlookup (bsPrompts s') (promptKey E c) = Some p"
  by (auto simp: brokerEnsurePrompt_def Let_def split: option.splits if_splits)

lemma putPrompt_same: "fmlookup (bsPrompts s) pk = Some p \<Longrightarrow> putPrompt pk p s = s"
proof -
  assume "fmlookup (bsPrompts s) pk = Some p"
  then have "fmupd pk p (bsPrompts s) = bsPrompts s" by (intro fmap_ext) auto
  then show ?thesis by (simp add: putPrompt_def)
qed

text \<open>How a renewal or a settle request changes the prompt.\<close>

definition controlledPrompt :: "env \<Rightarrow> int \<Rightarrow> brokerContext \<Rightarrow> brokerPrompt \<Rightarrow> brokerPrompt \<Rightarrow> bool" where
  "controlledPrompt E now c p p' \<longleftrightarrow> p' = p \<or> p' = closePromptEntry p \<or>
     (\<not> bpSettled p \<and> bcLeaseGeneration c = bpLeaseGeneration p + 1 \<and> now < bpLeaseExpiresAt p \<and>
      (\<exists>t. t = (case parseTime E (bcLeaseExpiresAt c) of None \<Rightarrow> 0 | Some t \<Rightarrow> t) \<and> bpLeaseExpiresAt p \<le> t \<and>
        p' = p\<lparr>bpLeaseGeneration := bcLeaseGeneration c, bpLeaseExpiresAt := t\<rparr>))"

lemma controlChange_cases:
  assumes "controlChange E now path c l = Inr l'"
  obtains (retire) s l1 d s1 where "brokerEnsureSession E l c = Inr (s, l1)"
      "brokerRecordOperation E s path c = Inr (d, s1)" "path = RetirePath"
      "l' = putSession (ownerKey E (bcOwner c)) (s1\<lparr>bsRetiring := True,
        bsPrompts := fmmap closePromptEntry (bsPrompts s1)\<rparr>) l1"
  | (prompt) s l1 d s1 p s2 p' where "brokerEnsureSession E l c = Inr (s, l1)"
      "brokerRecordOperation E s path c = Inr (d, s1)" "path \<noteq> RetirePath"
      "brokerEnsurePrompt E s1 c = Inr (p, s2)"
      "l' = putSession (ownerKey E (bcOwner c)) (putPrompt (promptKey E c) p' s2) l1" "controlledPrompt E now c p p'"
proof -
  from assms obtain s l1 d s1 where s: "brokerEnsureSession E l c = Inr (s, l1)"
    and s1: "brokerRecordOperation E s path c = Inr (d, s1)"
    by (auto simp: controlChange_def Let_def bindR_Inr split: prod.splits)
  show thesis
  proof (cases "path = RetirePath")
    case True
    with assms s s1 show thesis by (intro retire [OF s s1]) (simp_all add: controlChange_def Let_def bindR_Inr)
  next
    case False
    with assms s s1 obtain p s2 where p: "brokerEnsurePrompt E s1 c = Inr (p, s2)"
      by (auto simp: controlChange_def Let_def bindR_Inr split: if_splits prod.splits)
    have same: "putPrompt (promptKey E c) p s2 = s2"
      by (rule putPrompt_same [OF brokerEnsurePrompt_lookup [OF p]])
    let ?put = "\<lambda>p'. putSession (ownerKey E (bcOwner c)) (putPrompt (promptKey E c) p' s2) l1"
    have "\<exists>p'. l' = ?put p' \<and> controlledPrompt E now c p p'"
    proof (cases "l' = ?put p \<or> l' = ?put (closePromptEntry p)")
      case True
      then show ?thesis by (auto simp: controlledPrompt_def)
    next
      case other: False
      let ?t = "case parseTime E (bcLeaseExpiresAt c) of None \<Rightarrow> 0 | Some t \<Rightarrow> t"
      from assms s s1 p False other same
      have "l' = ?put (p\<lparr>bpLeaseGeneration := bcLeaseGeneration c, bpLeaseExpiresAt := ?t\<rparr>)"
        "\<not> bpSettled p" "bcLeaseGeneration c = bpLeaseGeneration p + 1" "now < bpLeaseExpiresAt p"
        "bpLeaseExpiresAt p \<le> ?t"
        by (auto simp: controlChange_def Let_def bindR_Inr split: if_splits)
      then show ?thesis by (auto simp: controlledPrompt_def)
    qed
    then obtain p' where "l' = ?put p'" "controlledPrompt E now c p p'" by blast
    with False show thesis by (intro prompt [OF s s1 _ p]) simp_all
  qed
qed

lemma sessionEvolves_closeAll:
  assumes s: "sessionOk E digest key s"
  shows "sessionEvolves s (s\<lparr>bsRetiring := True, bsPrompts := fmmap closePromptEntry (bsPrompts s)\<rparr>)"
proof -
  have "sessionEvolves s (s\<lparr>bsPrompts := fmmap_keys (\<lambda>_. closePromptEntry) (bsPrompts s)\<rparr>)"
    by (rule sessionEvolves_map) (auto intro: promptEvolves_close dest: sessionOk_settled [OF s])
  then show ?thesis by (simp add: sessionEvolves_def fmmap_keys_const)
qed

lemma controlledPrompt_ok:
  assumes p: "promptOk E p pk digest s" and c: "controlledPrompt E now c p p'"
    and lease: "parseTime E (bcLeaseExpiresAt c) \<noteq> Some 0" "parseTime E (bcLeaseExpiresAt c) \<noteq> None"
    and wrap: "bcLeaseGeneration c \<noteq> 0"
  shows "promptOk E p' pk digest s" "promptEvolves p p'" "sameLinks p p'"
proof -
  have settled: "bpSettled p \<longrightarrow> bpClosing p" using p by (simp add: promptOk_iff promptHeader_def Let_def)
  from c lease consider "p' = p" | "p' = closePromptEntry p"
    | t where "\<not> bpSettled p" "bpLeaseGeneration p \<le> bcLeaseGeneration c" "bpLeaseExpiresAt p \<le> t" "t \<noteq> 0"
      "p' = p\<lparr>bpLeaseGeneration := bcLeaseGeneration c, bpLeaseExpiresAt := t\<rparr>"
  proof -
    have "bpLeaseGeneration p \<le> bpLeaseGeneration p + 1" if "bpLeaseGeneration p + 1 \<noteq> 0"
      using unatSuc [of "bpLeaseGeneration p"] that by (simp add: word_le_nat_alt add.commute)
    then show thesis using that c lease wrap by (auto simp: controlledPrompt_def)
  qed
  then have "promptOk E p' pk digest s \<and> promptEvolves p p' \<and> sameLinks p p'"
  proof cases
    case 1
    with p show ?thesis by simp
  next
    case 2
    with p settled show ?thesis by (simp add: promptOk_close promptEvolves_close)
  next
    case (3 t)
    then have "sameLinks p p'" by (simp add: sameLinks_def)
    with 3 promptOk_renew [OF p 3(2,3,4)] promptEvolves_renew [OF 3(1,2,3)] show ?thesis by simp
  qed
  then show "promptOk E p' pk digest s" "promptEvolves p p'" "sameLinks p p'" by simp_all
qed

lemma controlChange_ok:
  assumes l: "ledgerOk E digest l" and c: "controlPre E digest path c l" and r: "controlChange E now path c l = Inr l'"
  shows "ledgerOk E digest l' \<and> ledgerEvolves l l'"
  using r
proof (cases rule: controlChange_cases)
  case (retire s l1 d s1)
  from c have rq: "requestOk E digest path c l" by (simp add: controlPre_def)
  note s = ensureSession [OF l rq retire(1)]
  note s1 = recordOperation [OF s(4) rq retire(2)]
  from s1(4) have "bsRemoteID s1 = bsRemoteID s" by auto
  with s(6) have "ledgerOk E digest l' \<and> ledgerEvolves l1 l'" unfolding retire(4)
    by (intro replaceSession [OF s(1,3)] sessionOk_closeAll sessionEvolves_trans [OF s1(2)]
        sessionEvolves_closeAll [OF s1(1)] s1(1)) simp_all
  with s(2) show ?thesis by (blast intro: ledgerEvolves_trans)
next
  case (prompt s l1 d s1 p s2 p')
  from c have rq: "requestOk E digest path c l" and path: "path \<noteq> StatusPath"
    by (auto simp: controlPre_def)
  note s = ensureSession [OF l rq prompt(1)]
  note s1 = recordOperation [OF s(4) rq prompt(2)]
  from s1(4) s(5) have same: "bsRemoteID s1 = bsRemoteID s" "bsOwner s1 = bcOwner c" by auto
  note s2 = ensurePrompt [OF s1(1) rq prompt(3) path same(2) s1(3) prompt(4)]
  have lease: "parseTime E (bcLeaseExpiresAt c) \<noteq> Some 0" "parseTime E (bcLeaseExpiresAt c) \<noteq> None"
    "bcLeaseGeneration c \<noteq> 0"
    using rq prompt(3) path by (auto simp: requestOk_def contextOk_def)
  note p' = controlledPrompt_ok [OF s2(4) prompt(6) lease]
  have "sessionEvolves s2 (putPrompt (promptKey E c) p' s2)"
    using s2(3) p'(2) by (intro sessionEvolves_putPrompt) simp
  with s1(2) s2(2) have "sessionEvolves s (putPrompt (promptKey E c) p' s2)" by (blast intro: sessionEvolves_trans)
  with s(6) same s2(5) have "ledgerOk E digest l' \<and> ledgerEvolves l1 l'" unfolding prompt(5)
    by (intro replaceSession [OF s(1,3)] sessionOk_putPrompt [OF s2(1,3) p'(1,3)]) simp_all
  with s(2) show ?thesis by (blast intro: ledgerEvolves_trans)
qed

interpretation control: history_change E digest "controlPre E digest path c" "controlChange E now path c"
  for E digest path c now
  by unfold_locales (use controlChange_ok in blast)+

end
