(* ===== verification/BrokerThread.thy ===== *)
theory BrokerThread
  imports BrokerChanges
begin

text \<open>
  The changes of recovery, of the sweep, of a disconnect, and of one inference request satisfy
  \<^emph>\<open>history_change\<close>. A request's precondition is the state in which its own goroutine left
  its invocation and the session's creation.
\<close>

section \<open>Closing prompts\<close>

definition closeWhere :: "(string \<Rightarrow> string \<Rightarrow> brokerPrompt \<Rightarrow> bool) \<Rightarrow> brokerLedger \<Rightarrow> brokerLedger" where
  "closeWhere C l = l\<lparr>blSessions := fmmap_keys (\<lambda>key s. s\<lparr>bsPrompts :=
     fmmap_keys (\<lambda>pk p. if C key pk p then closePromptEntry p else p) (bsPrompts s)\<rparr>) (blSessions l)\<rparr>"

lemma closeWhere_ok:
  assumes l: "ledgerOk E digest l"
  shows "ledgerOk E digest (closeWhere C l) \<and> ledgerEvolves l (closeWhere C l)"
proof
  show "ledgerOk E digest (closeWhere C l)" unfolding closeWhere_def
    by (rule ledgerOk_map [OF l]) (simp add: sessionOk_closeSome ledgerOk_session [OF l])
  show "ledgerEvolves l (closeWhere C l)" unfolding closeWhere_def
  proof (rule ledgerEvolves_map, rule sessionEvolves_map)
    fix key s pk p
    assume "fmlookup (blSessions l) key = Some s" "fmlookup (bsPrompts s) pk = Some p"
    then show "promptEvolves p (if C key pk p then closePromptEntry p else p)"
      using sessionOk_settled [OF ledgerOk_session [OF l]] by (simp add: promptEvolves_close)
  qed
qed

lemma recoveryChange_closeWhere: "recoveryChange l = Inr (closeWhere (\<lambda>_ _ p. \<not> bpSettled p) l)"
proof -
  have "(\<lambda>p. if bpSettled p then p else closePromptEntry p) = (\<lambda>p. if \<not> bpSettled p then closePromptEntry p else p)"
    by auto
  then show ?thesis by (simp add: recoveryChange_def closeWhere_def fmmap_keys_const)
qed

lemma expiryChange_closeWhere: "expiryChange now l = Inr (closeWhere (\<lambda>_ _ p. \<not> bpLeaseExpiresAt p > now) l)"
  by (simp add: expiryChange_def closeWhere_def fmmap_keys_const)

lemma fmmap_keys_id: "fmmap_keys (\<lambda>_ v. v) m = m"
proof (rule fmap_ext)
  show "fmlookup (fmmap_keys (\<lambda>_ v. v) m) k = fmlookup m k" for k
    by (cases "fmlookup m k") simp_all
qed

lemma fmadjust_keys: "fmadjust k f m = fmmap_keys (\<lambda>j v. if j = k then f v else v) m"
proof (rule fmap_ext)
  show "fmlookup (fmadjust k f m) j = fmlookup (fmmap_keys (\<lambda>j v. if j = k then f v else v) m) j" for j
    by (cases "fmlookup m j") auto
qed

lemma closeChange_closeWhere:
  "closeChange key pkey l = Inr (closeWhere (\<lambda>k pk _. k = key \<and> pk = pkey) l)"
proof -
  have "(\<lambda>k s. if k = key then s\<lparr>bsPrompts := fmadjust pkey closePromptEntry (bsPrompts s)\<rparr> else s) =
      (\<lambda>k s. s\<lparr>bsPrompts := fmmap_keys (\<lambda>pk p. if k = key \<and> pk = pkey then closePromptEntry p else p) (bsPrompts s)\<rparr>)"
    by (intro ext) (simp add: fmadjust_keys fmmap_keys_id)
  from arg_cong [OF this, of "\<lambda>f. Inr (l\<lparr>blSessions := fmmap_keys f (blSessions l)\<rparr>)"]
  show ?thesis unfolding closeChange_def closeWhere_def fmadjust_keys [of key] .
qed

interpretation recovery: history_change E digest "\<lambda>_. True" recoveryChange
  for E digest
  by unfold_locales (auto simp: recoveryChange_closeWhere closeWhere_ok)

interpretation expiry: history_change E digest "\<lambda>_. True" "expiryChange now"
  for E digest now
  by unfold_locales (auto simp: expiryChange_closeWhere closeWhere_ok)

interpretation disconnect: history_change E digest "\<lambda>_. True" "closeChange key pkey"
  for E digest key pkey
  by unfold_locales (auto simp: closeChange_closeWhere closeWhere_ok)

section \<open>Changes through a pointer\<close>

lemma onSession_ok:
  assumes l: "ledgerOk E digest l" and r: "onSession key f l = Inr l'"
    and ok: "\<And>s s'. fmlookup (blSessions l) key = Some s \<Longrightarrow> f s = Inr s' \<Longrightarrow>
      sessionOk E digest key s' \<and> sessionEvolves s s' \<and> (bsRemoteID s' \<noteq> [] \<longrightarrow> blPrincipalDigest l \<noteq> [])"
  shows "ledgerOk E digest l' \<and> ledgerEvolves l l'"
proof -
  from r obtain s s' where s: "fmlookup (blSessions l) key = Some s" and f: "f s = Inr s'"
    and l': "l' = putSession key s' l"
    by (auto simp: onSession_def bindR_Inr split: option.splits)
  from ok [OF s f] show ?thesis unfolding l' by (intro replaceSession [OF l s]) auto
qed

lemma onPrompt_ok:
  assumes l: "ledgerOk E digest l" and r: "onPrompt key pkey f l = Inr l'"
    and ok: "\<And>s p p'. fmlookup (blSessions l) key = Some s \<Longrightarrow> fmlookup (bsPrompts s) pkey = Some p \<Longrightarrow>
      f s p = Inr p' \<Longrightarrow> promptOk E p' pkey digest s \<and> promptEvolves p p' \<and> sameLinks p p'"
  shows "ledgerOk E digest l' \<and> ledgerEvolves l l'"
  using l r unfolding onPrompt_def
proof (rule onSession_ok)
  fix s s'
  assume s: "fmlookup (blSessions l) key = Some s"
    and "(case fmlookup (bsPrompts s) pkey of None \<Rightarrow> Inl ErrPanic
       | Some prompt \<Rightarrow> bindR (f s prompt) (\<lambda>prompt'. Inr (putPrompt pkey prompt' s))) = Inr s'"
  then obtain p p' where p: "fmlookup (bsPrompts s) pkey = Some p" and f: "f s p = Inr p'"
    and s': "s' = putPrompt pkey p' s"
    by (auto simp: bindR_Inr split: option.splits)
  from ok [OF s p f] ledgerOk_session [OF l s] ledgerOk_principal [OF l s] p
  show "sessionOk E digest key s' \<and> sessionEvolves s s' \<and> (bsRemoteID s' \<noteq> [] \<longrightarrow> blPrincipalDigest l \<noteq> [])"
    unfolding s' by (auto intro: sessionOk_putPrompt sessionEvolves_putPrompt)
qed

section \<open>Creating the remote session\<close>

definition sessionIn :: "createState set \<Rightarrow> string \<Rightarrow> brokerLedger \<Rightarrow> bool" where
  "sessionIn states key l \<longleftrightarrow> (\<forall>s. fmlookup (blSessions l) key = Some s \<longrightarrow> bsCreateState s \<in> states)"

lemma sessionEvolves_createState:
  assumes s: "sessionOk E digest key s" and "bsCreateState s \<noteq> c" "\<not> bsRetired s"
  shows "sessionEvolves s (s\<lparr>bsCreateState := c\<rparr>)"
  using assms by (simp add: sessionEvolves_def mapEvolves_refl)

lemma createIntentChange_ok:
  assumes l: "ledgerOk E digest l" and pre: "sessionIn {CreateNone} key l" "uuidCanonical E r" "blPrincipalDigest l \<noteq> []"
    and r: "createIntentChange now done key pkey r l = Inr l'"
  shows "ledgerOk E digest l' \<and> ledgerEvolves l l'"
  using l r unfolding createIntentChange_def
proof (rule onSession_ok)
  fix s s'
  assume s: "fmlookup (blSessions l) key = Some s" and f: "(case fmlookup (bsPrompts s) pkey of None \<Rightarrow> Inl ErrPanic
     | Some prompt \<Rightarrow> if bsRetiring s \<or> bpClosing prompt \<or> done \<or> \<not> bpLeaseExpiresAt prompt > now then Inl ErrClosed
       else Inr (s\<lparr>bsRemoteID := r, bsCreateState := CreateIntent\<rparr>)) = Inr s'"
  from f have s': "s' = s\<lparr>bsRemoteID := r, bsCreateState := CreateIntent\<rparr>" and open': "\<not> bsRetiring s"
    by (auto split: option.splits if_splits)
  have sok: "sessionOk E digest key s" using l s by (rule ledgerOk_session)
  have none: "bsCreateState s = CreateNone" using pre s by (auto simp: sessionIn_def)
  have "\<not> bsRetired s" using sessionOk_retired [OF sok] open' by auto
  then have "sessionEvolves s s'" by (simp add: s' sessionEvolves_def mapEvolves_refl)
  with sessionOk_createIntent [OF sok none open' pre(2)] pre(3)
  show "sessionOk E digest key s' \<and> sessionEvolves s s' \<and> (bsRemoteID s' \<noteq> [] \<longrightarrow> blPrincipalDigest l \<noteq> [])"
    by (simp add: s')
qed

lemma createResultChange_ok:
  assumes l: "ledgerOk E digest l" and pre: "sessionIn {CreateIntent} key l" and r: "createResultChange created key l = Inr l'"
  shows "ledgerOk E digest l' \<and> ledgerEvolves l l'"
  using l r unfolding createResultChange_def
proof (rule onSession_ok)
  fix s s'
  assume s: "fmlookup (blSessions l) key = Some s"
    and f: "Inr (if created then s\<lparr>bsCreateState := CreateKnown\<rparr>
      else s\<lparr>bsRemoteID := [], bsCreateState := CreateNone\<rparr>) = Inr s'"
  have sok: "sessionOk E digest key s" using l s by (rule ledgerOk_session)
  have intent: "bsCreateState s = CreateIntent" using pre s by (auto simp: sessionIn_def)
  have "\<not> bsRetired s" using sok intent by (auto simp: sessionOk_iff createOk_def)
  then have "sessionEvolves s s'" using f by (auto simp: sessionEvolves_def mapEvolves_refl)
  moreover have "sessionOk E digest key s'"
    using f sessionOk_createKnown [OF sok intent] sessionOk_createNone [OF sok intent] by (auto split: if_splits)
  moreover have "bsRemoteID s' \<noteq> [] \<longrightarrow> blPrincipalDigest l \<noteq> []"
    using f ledgerOk_principal [OF l s] by (auto split: if_splits)
  ultimately show "sessionOk E digest key s' \<and> sessionEvolves s s' \<and> (bsRemoteID s' \<noteq> [] \<longrightarrow> blPrincipalDigest l \<noteq> [])"
    by blast
qed

definition createIntentPre :: "env \<Rightarrow> string \<Rightarrow> string \<Rightarrow> brokerLedger \<Rightarrow> bool" where
  "createIntentPre E key r l \<longleftrightarrow> sessionIn {CreateNone} key l \<and> uuidCanonical E r \<and> blPrincipalDigest l \<noteq> []"

interpretation createIntent: history_change E digest "createIntentPre E key r" "createIntentChange now stopped key pkey r"
  for E digest key r now stopped pkey
  by unfold_locales (use createIntentChange_ok in \<open>auto simp: createIntentPre_def\<close>)

interpretation createResult: history_change E digest "sessionIn {CreateIntent} key" "createResultChange created key"
  for E digest key created
  by unfold_locales (use createResultChange_ok in auto)

text \<open>The principal is pinned once.\<close>

interpretation principal: history_change E digest "\<lambda>l. blPrincipalDigest l = [] \<and> DigestValid d" "principalChange d"
  for E digest d
  by unfold_locales (auto simp: principalChange_def ledgerOk_def ledgerEvolves_def mapEvolves_refl)

section \<open>Invocations\<close>

definition invocationIn :: "invState set \<Rightarrow> string \<Rightarrow> string \<Rightarrow> 64 word \<Rightarrow> brokerLedger \<Rightarrow> bool" where
  "invocationIn states key pkey seq l \<longleftrightarrow> (\<forall>s p i. fmlookup (blSessions l) key = Some s \<longrightarrow>
     fmlookup (bsPrompts s) pkey = Some p \<longrightarrow> fmlookup (bpInvocations p) seq = Some i \<longrightarrow>
     biState i \<in> states \<and> \<not> bpSettled p)"

lemma openState_noResponse:
  assumes "invocationOk E i seq key p s" "openState (biState i)"
  shows "biResponseID i = []"
  using assms by (auto simp: invocationOk_iff invocationStateOk_def openState_def split: invState.splits)

text \<open>Moving an unanswered invocation to another unanswered state.\<close>

lemma setState_ok:
  assumes l: "ledgerOk E digest l" and s: "fmlookup (blSessions l) key = Some s"
    and p: "fmlookup (bsPrompts s) pkey = Some p" and i: "fmlookup (bpInvocations p) seq = Some i"
    and old: "openState (biState i)" and new: "openState st" "invStep\<^sup>*\<^sup>* (biState i) st" and open': "\<not> bpSettled p"
  shows "promptOk E (putInvocation seq (i\<lparr>biState := st\<rparr>) p) pkey digest s \<and>
    promptEvolves p (putInvocation seq (i\<lparr>biState := st\<rparr>) p) \<and> sameLinks p (putInvocation seq (i\<lparr>biState := st\<rparr>) p)"
proof (intro conjI)
  have sok: "sessionOk E digest key s" using l s by (rule ledgerOk_session)
  have noresp: "biResponseID i = []" using openState_noResponse [OF sessionOk_invocation [OF sok p i] old] .
  show "promptOk E (putInvocation seq (i\<lparr>biState := st\<rparr>) p) pkey digest s"
    by (rule promptOk_setState [OF sessionOk_prompt [OF sok p] i noresp new(1) open'])
  show "promptEvolves p (putInvocation seq (i\<lparr>biState := st\<rparr>) p)"
    using new noresp by (intro promptEvolves_putInvocation [OF open' i]) (simp add: invocationEvolves_def)
  show "sameLinks p (putInvocation seq (i\<lparr>biState := st\<rparr>) p)"
    using i noresp by (auto simp: sameLinks_def putInvocation_def linkOf_def)
qed

lemma inferenceIntentChange_ok:
  assumes l: "ledgerOk E digest l" and pre: "invocationIn {InvReserved} key pkey seq l"
    and r: "inferenceIntentChange now stopped key pkey seq l = Inr l'"
  shows "ledgerOk E digest l' \<and> ledgerEvolves l l'"
  using l r unfolding inferenceIntentChange_def
proof (rule onPrompt_ok)
  fix s p p'
  assume s: "fmlookup (blSessions l) key = Some s" and p: "fmlookup (bsPrompts s) pkey = Some p"
    and f: "(if bsRetiring s \<or> bpClosing p \<or> stopped \<or> \<not> now < bpLeaseExpiresAt p then Inl ErrClosed
      else onInvocation seq (\<lambda>iv. Inr (putInvocation seq (iv\<lparr>biState := InvIntent\<rparr>) p)) p) = Inr p'"
  from f obtain i where i: "fmlookup (bpInvocations p) seq = Some i"
    and p': "p' = putInvocation seq (i\<lparr>biState := InvIntent\<rparr>) p"
    by (auto simp: onInvocation_def split: if_splits option.splits)
  from pre s p i have "biState i = InvReserved" "\<not> bpSettled p" by (auto simp: invocationIn_def)
  with setState_ok [OF l s p i, of InvIntent] show "promptOk E p' pkey digest s \<and> promptEvolves p p' \<and> sameLinks p p'"
    by (simp add: p' openState_def r_into_rtranclp reserved_intent)
qed

lemma rejectChange_ok:
  assumes l: "ledgerOk E digest l" and pre: "invocationIn {InvIntent} key pkey seq l"
    and r: "rejectChange key pkey seq l = Inr l'"
  shows "ledgerOk E digest l' \<and> ledgerEvolves l l'"
  using l r unfolding rejectChange_def
proof (rule onPrompt_ok)
  fix s p p'
  assume s: "fmlookup (blSessions l) key = Some s" and p: "fmlookup (bsPrompts s) pkey = Some p"
    and f: "onInvocation seq (\<lambda>iv. Inr (putInvocation seq (iv\<lparr>biState := InvRejected\<rparr>) p)) p = Inr p'"
  from f obtain i where i: "fmlookup (bpInvocations p) seq = Some i"
    and p': "p' = putInvocation seq (i\<lparr>biState := InvRejected\<rparr>) p"
    by (auto simp: onInvocation_def split: option.splits)
  from pre s p i have "biState i = InvIntent" "\<not> bpSettled p" by (auto simp: invocationIn_def)
  with setState_ok [OF l s p i, of InvRejected] show "promptOk E p' pkey digest s \<and> promptEvolves p p' \<and> sameLinks p p'"
    by (simp add: p' openState_def r_into_rtranclp intent_rejected)
qed

lemma finishState_step: "invStep\<^sup>*\<^sup>* st (finishState e st)"
  by (auto simp: finishState_def intro: r_into_rtranclp reserved_rejected intent_rejected intent_uncertain)

lemma putInvocation_same: "fmlookup (bpInvocations p) seq = Some i \<Longrightarrow> putInvocation seq i p = p"
proof -
  assume "fmlookup (bpInvocations p) seq = Some i"
  then have "fmupd seq i (bpInvocations p) = bpInvocations p" by (intro fmap_ext) auto
  then show ?thesis by (simp add: putInvocation_def)
qed

lemma finishChange_ok:
  assumes l: "ledgerOk E digest l" and pre: "invocationIn UNIV key pkey seq l"
    and r: "finishChange key pkey seq err l = Inr l'"
  shows "ledgerOk E digest l' \<and> ledgerEvolves l l'"
  using l r unfolding finishChange_def
proof (rule onPrompt_ok)
  fix s p p'
  assume s: "fmlookup (blSessions l) key = Some s" and p: "fmlookup (bsPrompts s) pkey = Some p"
    and f: "onInvocation seq (\<lambda>iv. Inr (case err of None \<Rightarrow> p
       | Some e \<Rightarrow> closePromptEntry (putInvocation seq (iv\<lparr>biState := finishState e (biState iv)\<rparr>) p))) p = Inr p'"
  from f obtain i where i: "fmlookup (bpInvocations p) seq = Some i"
    and p': "p' = (case err of None \<Rightarrow> p
       | Some e \<Rightarrow> closePromptEntry (putInvocation seq (i\<lparr>biState := finishState e (biState i)\<rparr>) p))"
    by (auto simp: onInvocation_def split: option.splits)
  have pok: "promptOk E p pkey digest s" by (rule sessionOk_prompt [OF ledgerOk_session [OF l s] p])
  show "promptOk E p' pkey digest s \<and> promptEvolves p p' \<and> sameLinks p p'"
  proof (cases err)
    case None
    with pok show ?thesis by (simp add: p')
  next
    case (Some e)
    let ?q = "putInvocation seq (i\<lparr>biState := finishState e (biState i)\<rparr>) p"
    have open': "\<not> bpSettled p" using pre s p i by (auto simp: invocationIn_def)
    have q: "promptOk E ?q pkey digest s \<and> promptEvolves p ?q \<and> sameLinks p ?q"
    proof (cases "openState (biState i)")
      case True
      then have "openState (finishState e (biState i))" by (auto simp: openState_def finishState_def)
      from setState_ok [OF l s p i True this finishState_step open'] show ?thesis .
    next
      case False
      then have "i\<lparr>biState := finishState e (biState i)\<rparr> = i" by (simp add: openState_def finishState_def)
      then show ?thesis using pok putInvocation_same [OF i] by simp
    qed
    have "\<not> bpSettled ?q" using open' by (simp add: putInvocation_def)
    then have "promptEvolves ?q (closePromptEntry ?q)" by (intro promptEvolves_close) simp
    with q Some promptOk_close [of E ?q pkey digest s] show ?thesis
      by (auto simp: p' sameLinks_def closePromptEntry_def intro: promptEvolves_trans)
  qed
qed

interpretation inferenceIntent: history_change E digest "invocationIn {InvReserved} key pkey seq"
    "inferenceIntentChange now stopped key pkey seq"
  for E digest key pkey seq now stopped
  by unfold_locales (use inferenceIntentChange_ok in auto)

interpretation reject: history_change E digest "invocationIn {InvIntent} key pkey seq" "rejectChange key pkey seq"
  for E digest key pkey seq
  by unfold_locales (use rejectChange_ok in auto)

interpretation finish: history_change E digest "invocationIn UNIV key pkey seq" "finishChange key pkey seq err"
  for E digest key pkey seq err
  by unfold_locales (use finishChange_ok in auto)

end
