(* ===== verification/BrokerAnswer.thy ===== *)
theory BrokerAnswer
  imports BrokerThread
begin

text \<open>
  The remaining changes satisfy \<^emph>\<open>history_change\<close>: the reservation of an invocation, the first
  acknowledgement of a response identity, the durable completion, and the settlement and
  retirement a reconciliation commits.
\<close>

section \<open>Reservation\<close>

lemma reserveChange_cases:
  assumes "reserveChange E B now proof c request l = Inr (l', request')"
  obtains s l1 s1 p s2 where "brokerEnsureSession E l c = Inr (s, l1)" "\<not> bsRetiring s" "\<not> bsRetired s"
    "brokerRecordOperation E s ResponsesPath c = Inr (False, s1)" "brokerEnsurePrompt E s1 c = Inr (p, s2)"
    "\<not> bpClosing p" "\<not> bpSettled p" "now < bpLeaseExpiresAt p" "bcLeaseGeneration c = bpLeaseGeneration p"
    "bpLastSequence p < bcInvocationSequence c"
    "l' = putSession (ownerKey E (bcOwner c)) (putPrompt (promptKey E c) (reservePrompt c p) s2) l1"
    "bpLastSequence p \<noteq> 0 \<longrightarrow> rrPreviousResponseID request = bpLastAlias p"
proof -
  from assms obtain s l1 d s1 where s: "brokerEnsureSession E l c = Inr (s, l1)" "\<not> bsRetiring s" "\<not> bsRetired s"
    and s1: "brokerRecordOperation E s ResponsesPath c = Inr (d, s1)" "\<not> d"
    by (auto simp: reserveChange_def Let_def bindR_Inr split: prod.splits if_splits)
  with assms obtain p s2 where p: "brokerEnsurePrompt E s1 c = Inr (p, s2)" "\<not> bpClosing p" "\<not> bpSettled p"
    "now < bpLeaseExpiresAt p"
    by (auto simp: reserveChange_def Let_def bindR_Inr split: prod.splits if_splits)
  with assms s s1 have "bcLeaseGeneration c = bpLeaseGeneration p" "bpLastSequence p < bcInvocationSequence c"
    "l' = putSession (ownerKey E (bcOwner c)) (putPrompt (promptKey E c) (reservePrompt c p) s2) l1"
    "bpLastSequence p \<noteq> 0 \<longrightarrow> rrPreviousResponseID request = bpLastAlias p"
    by (auto simp: reserveChange_def Let_def bindR_Inr reservePrompt_def split: if_splits)
  with s s1 p that show thesis by auto
qed

lemma reserveChange_ok:
  assumes l: "ledgerOk E digest l" and c: "requestOk E digest ResponsesPath c l"
    and r: "reserveChange E B now proof c request l = Inr (l', request')"
  shows "ledgerOk E digest l' \<and> ledgerEvolves l l'"
  using r
proof (cases rule: reserveChange_cases)
  case (1 s l1 s1 p s2)
  note s = ensureSession [OF l c 1(1)]
  note s1 = recordOperation [OF s(4) c 1(4)]
  from s1(4) s(5) have same: "bsRemoteID s1 = bsRemoteID s" "bsOwner s1 = bcOwner c" by auto
  note s2 = ensurePrompt [OF s1(1) c _ _ same(2) s1(3) 1(5), simplified]
  have ops: "lookupString (bsOperations s2) (bcOperationID c) \<noteq> []"
    using s1(3) 1(5) by (auto simp: brokerEnsurePrompt_def Let_def split: option.splits if_splits)
  have cok: "DigestValid (bcBodySHA256 c)" "SafeString (bcOperationID c) 512"
    using c by (simp_all add: requestOk_def contextOk_def)
  have p': "promptOk E (reservePrompt c p) (promptKey E c) digest s2"
    by (rule promptOk_reserve [OF s2(4) 1(10) cok ops 1(7)])
  have last: "\<And>seq i. fmlookup (bpInvocations p) seq = Some i \<Longrightarrow> seq \<le> bpLastSequence p"
    using s2(4) by (auto simp: promptOk_iff lastSequenceOk_def)
  then have new: "fmlookup (bpInvocations p) (bcInvocationSequence c) = None"
    using 1(10) by (metis leD not_None_eq)
  then have links: "sameLinks p (reservePrompt c p)"
    by (auto simp: sameLinks_def reservePrompt_def reservedInvocation_def linkOf_def)
  have "promptEvolves p (reservePrompt c p)" by (rule promptEvolves_reserve [OF 1(7,10) last])
  with s2(3) have "sessionEvolves s2 (putPrompt (promptKey E c) (reservePrompt c p) s2)"
    by (intro sessionEvolves_putPrompt) simp
  with s1(2) s2(2) have "sessionEvolves s (putPrompt (promptKey E c) (reservePrompt c p) s2)"
    by (blast intro: sessionEvolves_trans)
  with s(6) same s2(5) have "ledgerOk E digest l' \<and> ledgerEvolves l1 l'" unfolding 1(11)
    by (intro replaceSession [OF s(1,3)] sessionOk_putPrompt [OF s2(1,3) p' links]) simp_all
  with s(2) show ?thesis by (blast intro: ledgerEvolves_trans)
qed

interpretation reserve: history_change E digest "requestOk E digest ResponsesPath c"
    "\<lambda>l. dropRequest (reserveChange E B now proof c request l)"
  for E digest c B now "proof" request
  by unfold_locales (use reserveChange_ok in \<open>auto simp: dropRequest_def split: sum.splits\<close>)

section \<open>Acknowledgement\<close>

definition responseFree :: "string \<Rightarrow> string \<Rightarrow> brokerLedger \<Rightarrow> bool" where
  "responseFree key al l \<longleftrightarrow> (\<forall>s. fmlookup (blSessions l) key = Some s \<longrightarrow> fmlookup (bsResponses s) al = None)"

definition createdStates :: "createState set" where
  "createdStates = {CreateKnown, CreateDeleted}"

definition identityPre :: "env \<Rightarrow> string \<Rightarrow> string \<Rightarrow> 64 word \<Rightarrow> string \<Rightarrow> string \<Rightarrow> brokerLedger \<Rightarrow> bool" where
  "identityPre E key pkey seq responseID al l \<longleftrightarrow> invocationIn {InvIntent} key pkey seq l \<and>
     sessionIn createdStates key l \<and> responseFree key al l \<and> brokerAliasValid E al ''fr_'' \<and>
     ValidateIdentifier responseID \<and> responseID \<noteq> []"

lemma identityChange_ok:
  assumes l: "ledgerOk E digest l" and pre: "identityPre E key pkey seq responseID al l"
    and r: "identityChange key pkey seq responseID al l = Inr l'"
  shows "ledgerOk E digest l' \<and> ledgerEvolves l l'"
  using l r unfolding identityChange_def
proof (rule onSession_ok)
  fix s s'
  assume s: "fmlookup (blSessions l) key = Some s"
    and f: "(case fmlookup (bsPrompts s) pkey of None \<Rightarrow> Inl ErrPanic | Some prompt \<Rightarrow>
     (case fmlookup (bpInvocations prompt) seq of None \<Rightarrow> Inl ErrPanic | Some iv \<Rightarrow>
       if fmexists (\<lambda>_ previous. brRemoteID previous = responseID) (bsResponses s) then Inl ErrConflict
       else Inr ((putPrompt pkey (putInvocation seq (iv\<lparr>biResponseID := responseID, biResponseAlias := al,
                biState := InvAccepted\<rparr>) prompt) s)\<lparr>bsResponses :=
              fmupd al \<lparr>brRemoteID = responseID, brPromptKey = pkey, brCompleted = False,
                brHasFunctions = False, brCallIDs = fmempty\<rparr> (bsResponses s)\<rparr>))) = Inr s'"
  then obtain p i where p: "fmlookup (bsPrompts s) pkey = Some p" and i: "fmlookup (bpInvocations p) seq = Some i"
    and s': "s' = acceptedSession pkey seq responseID al i p s"
    by (auto simp: acceptedSession_def split: option.splits if_splits)
  have sok: "sessionOk E digest key s" using l s by (rule ledgerOk_session)
  from pre s p i have st: "biState i = InvIntent" "\<not> bpSettled p" and free: "fmlookup (bsResponses s) al = None"
    and created: "bsCreateState s \<in> createdStates"
    by (auto simp: identityPre_def invocationIn_def sessionIn_def responseFree_def)
  have noresp: "biResponseID i = []"
    by (rule openState_noResponse [OF sessionOk_invocation [OF sok p i]]) (simp add: st openState_def)
  have ok: "sessionOk E digest key s'" unfolding s'
    by (rule sessionOk_accept [OF sok p i noresp st(2) free]) (use pre created in \<open>auto simp: identityPre_def createdStates_def\<close>)
  let ?i = "i\<lparr>biResponseID := responseID, biResponseAlias := al, biState := InvAccepted\<rparr>"
  have "invocationEvolves i ?i"
    using st noresp by (simp add: invocationEvolves_def r_into_rtranclp intent_accepted)
  then have "promptEvolves p (putInvocation seq ?i p)" by (intro promptEvolves_putInvocation [OF st(2) i])
  then have "sessionEvolves s (putPrompt pkey (putInvocation seq ?i p) s)"
    using p by (intro sessionEvolves_putPrompt) simp
  moreover have "mapEvolves responseEvolves (bsResponses s) (bsResponses s')"
    unfolding s' acceptedSession_def using free by (auto intro!: mapEvolves_upd)
  ultimately have "sessionEvolves s s'" by (simp add: s' acceptedSession_def sessionEvolves_def)
  with ok ledgerOk_principal [OF l s]
  show "sessionOk E digest key s' \<and> sessionEvolves s s' \<and> (bsRemoteID s' \<noteq> [] \<longrightarrow> blPrincipalDigest l \<noteq> [])"
    by (auto simp: s' acceptedSession_def)
qed

interpretation identity: history_change E digest "identityPre E key pkey seq responseID al"
    "identityChange key pkey seq responseID al"
  for E digest key pkey seq responseID al
  by unfold_locales (use identityChange_ok in auto)

section \<open>Completion\<close>

definition lastInvocation :: "string \<Rightarrow> string \<Rightarrow> 64 word \<Rightarrow> brokerLedger \<Rightarrow> bool" where
  "lastInvocation key pkey seq l \<longleftrightarrow> (\<forall>s p. fmlookup (blSessions l) key = Some s \<longrightarrow>
     fmlookup (bsPrompts s) pkey = Some p \<longrightarrow> bpLastSequence p = seq)"

text \<open>The code accepts a call id that is a \<^const>\<open>SafeString\<close>; a restart also demands that it has no
  white space (\<^const>\<open>ValidateIdentifier\<close>).\<close>

definition completedPre :: "env \<Rightarrow> (nat \<Rightarrow> string) \<Rightarrow> string \<Rightarrow> string \<Rightarrow> 64 word \<Rightarrow> streamSummary \<Rightarrow>
    brokerLedger \<Rightarrow> bool" where
  "completedPre E u key pkey seq summary l \<longleftrightarrow> invocationIn {InvAccepted} key pkey seq l \<and>
     lastInvocation key pkey seq l \<and> (\<forall>k. uuidCanonical E (u k)) \<and>
     (\<forall>item \<in> set (ssFunctionCalls summary). ValidateIdentifier (oiCallID item))"

lemma promptEvolves_lastAlias:
  "\<not> bpSettled p \<Longrightarrow> promptEvolves p (q\<lparr>bpLastAlias := a\<rparr>) = promptEvolves p q"
  by (simp add: promptEvolves_def cong: option.case_cong)

lemma completedChange_ok:
  assumes l: "ledgerOk E digest l" and pre: "completedPre E u key pkey seq summary l"
    and r: "completedChange u now key pkey seq summary l = Inr (l', out)"
  shows "ledgerOk E digest l' \<and> ledgerEvolves l l'"
proof -
  from r obtain s p i where s: "fmlookup (blSessions l) key = Some s" and p: "fmlookup (bsPrompts s) pkey = Some p"
    and i: "fmlookup (bpInvocations p) seq = Some i"
    by (auto simp: completedChange_def split: option.splits)
  have sok: "sessionOk E digest key s" using l s by (rule ledgerOk_session)
  from pre s p i have st: "biState i = InvAccepted" "\<not> bpSettled p" and last: "bpLastSequence p = seq"
    by (auto simp: completedPre_def invocationIn_def lastInvocation_def)
  have iok: "invocationOk E i seq pkey p s" by (rule sessionOk_invocation [OF sok p i])
  then have resp: "biResponseID i \<noteq> []" using st by (simp add: invocationOk_iff invocationStateOk_def)
  with iok obtain link where link: "fmlookup (bsResponses s) (biResponseAlias i) = Some link" "\<not> brCompleted link"
    using st by (auto simp: invocationOk_iff linkOk_def)
  from r s p i link obtain callIDs calls where calls: "aliasCalls u 1 [] (ssFunctionCalls summary) fmempty = Some (callIDs, calls)"
    and l': "l' = putSession key (completedSession pkey seq link callIDs i p s) l"
    by (auto simp: completedChange_def completedSession_def Let_def split: if_splits option.splits)
  let ?s = "completedSession pkey seq link callIDs i p s"
  have cids: "callIDsOk E callIDs"
    by (rule aliasCalls_ok [OF calls]) (use pre in \<open>auto simp: callIDsOk_def completedPre_def\<close>)
  have linkopt: "linkOpt s pkey seq = Some (biResponseAlias i)" using p i resp by (simp add: linkOpt_def linkOf_def)
  have "createOk E s" "bsCreateState s = CreateIntent \<longrightarrow> bsResponses s = fmempty" using sok by (simp_all add: sessionOk_iff)
  with link have created: "bsCreateState s \<noteq> CreateNone" "bsCreateState s \<noteq> CreateIntent"
    by (auto simp: createOk_def)
  have ok: "sessionOk E digest key ?s"
    by (rule sessionOk_complete [OF sok p i resp st(2) last cids link(1) created])
  let ?i = "i\<lparr>biState := InvCompleted\<rparr>" let ?p = "(putInvocation seq ?i p)\<lparr>bpLastAlias := biResponseAlias i\<rparr>"
  have "invocationEvolves i ?i"
    using st by (simp add: invocationEvolves_def r_into_rtranclp accepted_completed)
  then have "promptEvolves p (putInvocation seq ?i p)" by (intro promptEvolves_putInvocation [OF st(2) i])
  then have "promptEvolves p ?p" by (simp only: promptEvolves_lastAlias [OF st(2)])
  then have "sessionEvolves s (putPrompt pkey ?p s)" using p by (intro sessionEvolves_putPrompt) simp
  moreover have "mapEvolves responseEvolves (bsResponses s) (bsResponses ?s)"
    unfolding completedSession_def using link by (auto intro!: mapEvolves_upd simp: responseEvolves_def)
  ultimately have "sessionEvolves s ?s" by (simp add: completedSession_def sessionEvolves_def)
  with ok ledgerOk_principal [OF l s] show ?thesis unfolding l'
    by (intro replaceSession [OF l s]) (auto simp: completedSession_def)
qed

interpretation completed: history_change E digest "completedPre E u key pkey seq summary"
    "\<lambda>l. dropRequest (completedChange u now key pkey seq summary l)"
  for E digest u key pkey seq summary now
  by unfold_locales (use completedChange_ok in \<open>auto simp: dropRequest_def split: sum.splits\<close>)

end

