(* ===== verification/BrokerSettle.thy ===== *)
theory BrokerSettle
  imports BrokerAnswer
begin

text \<open>
  The commit of a reconciliation: what the captured evidence must still say of the ledger, and
  what the commit records.
\<close>

definition sessionClear :: "brokerSession \<Rightarrow> bool" where
  "sessionClear s \<longleftrightarrow> (\<forall>pk p seq i. fmlookup (bsPrompts s) pk = Some p \<longrightarrow>
     fmlookup (bpInvocations p) seq = Some i \<longrightarrow> \<not> isAmbiguous i)"

text \<open>The captured prompts still wait for settlement, no invocation of the session is ambiguous,
  and the creation state is the captured one.\<close>

definition captureHolds :: "capture \<Rightarrow> brokerSession \<Rightarrow> bool" where
  "captureHolds cp s \<longleftrightarrow> \<not> bsRetired s \<and> bsCreateState s = cpCreateState cp \<and> cpCreateState cp \<noteq> CreateIntent \<and>
     bsRemoteID s = cpRemoteID cp \<and> (cpRetiring cp \<longrightarrow> bsRetiring s) \<and>
     (\<forall>pk. pk |\<in>| cpClosing cp \<longrightarrow> (case fmlookup (bsPrompts s) pk of None \<Rightarrow> False | Some p \<Rightarrow> toSettle p))"

definition settlePre :: "env \<Rightarrow> string \<Rightarrow> capture \<Rightarrow> brokerLedger \<Rightarrow> bool" where
  "settlePre E key cp l \<longleftrightarrow> shaOk E \<and> (\<forall>s. fmlookup (blSessions l) key = Some s \<longrightarrow> captureHolds cp s \<and> sessionClear s)"

lemma settlePrompts_fields [simp]:
  "bsOwner (settlePrompts E key cp kind now s) = bsOwner s" "bsRemoteID (settlePrompts E key cp kind now s) = bsRemoteID s"
  "bsCreateState (settlePrompts E key cp kind now s) = bsCreateState s"
  "bsRetiring (settlePrompts E key cp kind now s) = bsRetiring s" "bsRetired (settlePrompts E key cp kind now s) = bsRetired s"
  "bsResponses (settlePrompts E key cp kind now s) = bsResponses s"
  "bsOperations (settlePrompts E key cp kind now s) = bsOperations s"
  "bsProofDigest (settlePrompts E key cp kind now s) = bsProofDigest s"
  by (simp_all add: settlePrompts_def)

lemma fmlookup_settlePrompts:
  "fmlookup (bsPrompts (settlePrompts E key cp kind now s)) pk = map_option (\<lambda>p. if pk |\<in>| cpClosing cp
     then settlePrompt (settlementProof E key pk (cpRemoteID cp) kind now) p else p) (fmlookup (bsPrompts s) pk)"
  by (simp add: settlePrompts_def)

lemma settle_step:
  assumes "invocationOk E i seq key p s" "\<not> isAmbiguous i"
  shows "invStep\<^sup>*\<^sup>* (biState i) (biState (settleInvocation i))"
proof (cases "biState i")
  case InvIntent
  then have "biResponseID i = []" using openState_noResponse [OF assms(1)] by (simp add: openState_def)
  with InvIntent assms(2) show ?thesis by (simp add: isAmbiguous_def)
next
  case InvReserved
  then show ?thesis by (simp add: r_into_rtranclp reserved_settled)
next
  case InvRejected
  then show ?thesis by (simp add: r_into_rtranclp rejected_settled)
next
  case InvAccepted
  then show ?thesis by (simp add: r_into_rtranclp accepted_settled)
next
  case InvUncertain
  with assms(2) show ?thesis by (simp add: isAmbiguous_def)
next
  case (InvOther x)
  with assms(1) show ?thesis by (simp add: invocationOk_iff invocationStateOk_def)
qed simp_all

lemma settlePrompts_ok:
  assumes s: "sessionOk E digest key s" and sha: "shaOk E" and cp: "captureHolds cp s" "sessionClear s"
  shows "sessionOk E digest key (settlePrompts E key cp kind now s) \<and> sessionEvolves s (settlePrompts E key cp kind now s)"
proof
  have toSettle: "toSettle p" if "pk |\<in>| cpClosing cp" "fmlookup (bsPrompts s) pk = Some p" for pk p
    using cp(1) that by (auto simp: captureHolds_def)
  show "sessionOk E digest key (settlePrompts E key cp kind now s)"
    by (rule sessionOk_settle [OF s shaOkD [OF sha]]) (use toSettle in \<open>auto simp: toSettle_def\<close>)
  show "sessionEvolves s (settlePrompts E key cp kind now s)" unfolding settlePrompts_def
  proof (rule sessionEvolves_map)
    fix pk p
    assume p: "fmlookup (bsPrompts s) pk = Some p"
    have "invStep\<^sup>*\<^sup>* (biState i) (biState (settleInvocation i))" if "fmlookup (bpInvocations p) seq = Some i" for seq i
      using cp(2) p that by (intro settle_step [OF sessionOk_invocation [OF s p that]]) (auto simp: sessionClear_def)
    then show "promptEvolves p (if pk |\<in>| cpClosing cp
        then settlePrompt (settlementProof E key pk (cpRemoteID cp) kind now) p else p)"
      using toSettle [OF _ p] by (auto intro!: promptEvolves_settle simp: toSettle_def)
  qed
qed

definition retiredSession :: "env \<Rightarrow> string \<Rightarrow> capture \<Rightarrow> string \<Rightarrow> int \<Rightarrow> brokerSession \<Rightarrow> brokerSession" where
  "retiredSession E key cp kind now s = s\<lparr>bsCreateState :=
     (if cpCreateState cp = CreateKnown then CreateDeleted else bsCreateState s),
     bsRetired := True, bsProofDigest := retirementProof E key (cpRemoteID cp) kind now\<rparr>"

lemma reconcileChange_cases:
  assumes "reconcileChange E now key cp kind b l = Inr l'"
  obtains "fmlookup (bkActive b) key = None" "fmlookup (blSessions l) key = None" "l' = l"
  | s where "fmlookup (bkActive b) key = None" "fmlookup (blSessions l) key = Some s" "\<not> cpRetiring cp"
      "l' = putSession key (settlePrompts E key cp kind now s) l"
  | s where "fmlookup (bkActive b) key = None" "fmlookup (blSessions l) key = Some s" "cpRetiring cp"
      "\<And>pk p. fmlookup (bsPrompts (settlePrompts E key cp kind now s)) pk = Some p \<Longrightarrow> bpSettled p"
      "l' = putSession key (retiredSession E key cp kind now (settlePrompts E key cp kind now s)) l"
  using assms by (auto simp: reconcileChange_def retiredSession_def fmpred_iff Let_def split: if_splits option.splits)

lemma reconcileChange_ok:
  assumes l: "ledgerOk E digest l" and pre: "settlePre E key cp l"
    and r: "reconcileChange E now key cp kind b l = Inr l'"
  shows "ledgerOk E digest l' \<and> ledgerEvolves l l'"
  using r
proof (cases rule: reconcileChange_cases)
  case 1
  with l show ?thesis by simp
next
  case (2 s)
  have sok: "sessionOk E digest key s" using l 2(2) by (rule ledgerOk_session)
  from pre 2(2) have cp: "shaOk E" "captureHolds cp s" "sessionClear s" by (simp_all add: settlePre_def)
  with settlePrompts_ok [OF sok cp] ledgerOk_principal [OF l 2(2)] show ?thesis unfolding 2(4)
    by (intro replaceSession [OF l 2(2)]) auto
next
  case (3 s)
  let ?s = "settlePrompts E key cp kind now s" let ?r = "retiredSession E key cp kind now ?s"
  have sok: "sessionOk E digest key s" using l 3(2) by (rule ledgerOk_session)
  from pre 3(2) have cp: "shaOk E" "captureHolds cp s" "sessionClear s" by (simp_all add: settlePre_def)
  note s' = settlePrompts_ok [OF sok cp, of kind now]
  have "DigestValid (retirementProof E key (cpRemoteID cp) kind now)"
    by (simp add: retirementProof_def DigestValid_Digest shaOkD [OF cp(1)])
  then have "sessionOk E digest key ?r" unfolding retiredSession_def
    using s' 3(3,4) cp(2) by (intro sessionOk_retire) (auto simp: captureHolds_def)
  moreover have "sessionEvolves ?s ?r"
    using cp(2) by (simp add: retiredSession_def sessionEvolves_def mapEvolves_refl captureHolds_def)
  with s' have "sessionEvolves s ?r" by (blast intro: sessionEvolves_trans)
  ultimately show ?thesis unfolding 3(5) using ledgerOk_principal [OF l 3(2)]
    by (intro replaceSession [OF l 3(2)]) (auto simp: retiredSession_def)
qed

interpretation reconciliation: history_change E digest "settlePre E key cp" "reconcileChange E now key cp kind b"
  for E digest key cp now kind b
  by unfold_locales (use reconcileChange_ok in auto)

end
