(* ===== verification/BrokerSystem.thy ===== *)
theory BrokerSystem
  imports BrokerSettle
begin

text \<open>
  The broker as a transition system. A step is one critical section of the mutex, taken by a
  control request, an inference request in one of its phases, a reconciliation worker, the
  sweep, a disconnect, shutdown, or a restart from the file on disk, in any order. What lies
  between the critical sections (remote calls, contexts, time) is left open: a step may use
  any clock, any outcome of the system calls and any answer of the service.
\<close>

section \<open>States\<close>

text \<open>Where an inference request is in \<open>serveResponses\<close>: reserved; creation not needed yet known;
  principal pinned; creation intent durable; session known; inference intent durable; reading
  the answer; result known.\<close>

datatype phase = PStart | PNone | PPinned | PCreating | PReady | PSent | PReading
  | PDone "brokerError option"

record thread =
  thContext :: brokerContext
  thPhase :: phase

datatype worker = WStarted | WCaptured capture | WEnding

record sys =
  syBroker :: broker
  syThreads :: "(string, thread) fmap"
  syWorkers :: "(string, worker) fmap"

definition setPhase :: "string \<Rightarrow> thread \<Rightarrow> phase \<Rightarrow> broker \<Rightarrow> sys \<Rightarrow> sys" where
  "setPhase key th ph b S = S\<lparr>syBroker := b, syThreads := fmupd key (th\<lparr>thPhase := ph\<rparr>) (syThreads S)\<rparr>"

text \<open>A request context the parser lets through, of an owner in use.\<close>

definition admissible :: "env \<Rightarrow> string \<Rightarrow> brokerOwner set \<Rightarrow> string \<Rightarrow> brokerContext \<Rightarrow> bool" where
  "admissible E digest owners path c \<longleftrightarrow> contextOk E digest path c \<and> bcOwner c \<in> owners \<and>
     (path \<noteq> RetirePath \<longrightarrow> parseTime E (bcLeaseExpiresAt c) \<noteq> Some 0)"

definition afterCommit :: "brokerError option \<Rightarrow> phase \<Rightarrow> phase" where
  "afterCommit r ph = (case r of None \<Rightarrow> ph | Some e \<Rightarrow> PDone (Some e))"

definition readPhase :: "createState \<Rightarrow> phase" where
  "readPhase cs = (if cs = CreateNone then PNone else if cs = CreateKnown then PReady
     else PDone (Some ErrPending))"

text \<open>The errors with which a phase ends without a commit.\<close>

definition mayFail :: "phase \<Rightarrow> brokerError \<Rightarrow> bool" where
  "mayFail ph e \<longleftrightarrow> (case ph of PDone _ \<Rightarrow> False | PCreating \<Rightarrow> e = ErrAmbiguous | PReading \<Rightarrow> e = ErrAmbiguous
     | PSent \<Rightarrow> e = ErrAmbiguous \<or> e = ErrUnsent ErrClosed | _ \<Rightarrow> \<not> errIs e ErrAmbiguous)"

section \<open>Steps\<close>

text \<open>\<open>decode\<close> is the strict decoder of the ledger file, \<open>u\<close> and \<open>al\<close> are fresh UUIDs.\<close>

inductive sysStep :: "env \<Rightarrow> string \<Rightarrow> brokerOwner set \<Rightarrow> (string \<Rightarrow> brokerLedger option) \<Rightarrow> brokerJson \<Rightarrow>
    sys \<Rightarrow> sys \<Rightarrow> bool"
  for E digest owners decode B where
  control: "admissible E digest owners path c \<Longrightarrow> path \<in> {RenewPath, SettlePath, RetirePath} \<Longrightarrow>
    control E io now path c (syBroker S) = (r, b) \<Longrightarrow> sysStep E digest owners decode B S (S\<lparr>syBroker := b\<rparr>)"
| reserved: "admissible E digest owners ResponsesPath c \<Longrightarrow>
    reserveInvocation E B io now c request (syBroker S) = (Inr request', b) \<Longrightarrow>
    sysStep E digest owners decode B S (S\<lparr>syBroker := b, syThreads := fmupd (ownerKey E (bcOwner c))
      \<lparr>thContext = c, thPhase = PStart\<rparr> (syThreads S)\<rparr>)"
| refused: "admissible E digest owners ResponsesPath c \<Longrightarrow>
    reserveInvocation E B io now c request (syBroker S) = (Inl e, b) \<Longrightarrow>
    sysStep E digest owners decode B S (S\<lparr>syBroker := b\<rparr>)"
| readState: "fmlookup (syThreads S) key = Some th \<Longrightarrow> thPhase th = PStart \<Longrightarrow>
    fmlookup (blSessions (bkLedger (syBroker S))) key = Some s \<Longrightarrow>
    sysStep E digest owners decode B S (setPhase key th (readPhase (bsCreateState s)) (syBroker S) S)"
| pin: "pinDigest E io (principalDigest E cl) (syBroker S) = (r, b) \<Longrightarrow>
    sysStep E digest owners decode B S (S\<lparr>syBroker := b\<rparr>)"
| pinned: "fmlookup (syThreads S) key = Some th \<Longrightarrow> thPhase th = PNone \<Longrightarrow>
    pinDigest E io (principalDigest E cl) (syBroker S) = (None, b) \<Longrightarrow>
    sysStep E digest owners decode B S (setPhase key th PPinned b S)"
| createIntent: "fmlookup (syThreads S) key = Some th \<Longrightarrow> thPhase th = PPinned \<Longrightarrow> uuidCanonical E rid \<Longrightarrow>
    commitLocked E io (createIntentChange now stopped key (promptKey E (thContext th)) rid) (syBroker S) = (r, b) \<Longrightarrow>
    sysStep E digest owners decode B S (setPhase key th (afterCommit r PCreating) b S)"
| createResult: "fmlookup (syThreads S) key = Some th \<Longrightarrow> thPhase th = PCreating \<Longrightarrow>
    commitLocked E io (createResultChange created key) (syBroker S) = (r, b) \<Longrightarrow> \<not> errIs e ErrAmbiguous \<Longrightarrow>
    sysStep E digest owners decode B S (setPhase key th
      (afterCommit r (if created then PReady else PDone (Some e))) b S)"
| failed: "fmlookup (syThreads S) key = Some th \<Longrightarrow> mayFail (thPhase th) e \<Longrightarrow>
    sysStep E digest owners decode B S (setPhase key th (PDone (Some e)) (syBroker S) S)"
| inferenceIntent: "fmlookup (syThreads S) key = Some th \<Longrightarrow> thPhase th = PReady \<Longrightarrow>
    commitLocked E io (inferenceIntentChange now stopped key (promptKey E (thContext th))
      (bcInvocationSequence (thContext th))) (syBroker S) = (r, b) \<Longrightarrow>
    sysStep E digest owners decode B S (setPhase key th (afterCommit r PSent) b S)"
| rejected: "fmlookup (syThreads S) key = Some th \<Longrightarrow> thPhase th = PSent \<Longrightarrow>
    commitLocked E io (rejectChange key (promptKey E (thContext th)) (bcInvocationSequence (thContext th)))
      (syBroker S) = (r, b) \<Longrightarrow>
    sysStep E digest owners decode B S (setPhase key th (afterCommit r (PDone (Some ErrRemote))) b S)"
| answered: "fmlookup (syThreads S) key = Some th \<Longrightarrow> thPhase th = PSent \<Longrightarrow>
    sysStep E digest owners decode B S (setPhase key th PReading (syBroker S) S)"
| identity: "fmlookup (syThreads S) key = Some th \<Longrightarrow> thPhase th = PReading \<Longrightarrow>
    ValidateIdentifier rid \<Longrightarrow> rid \<noteq> [] \<Longrightarrow> brokerAliasValid E al ''fr_'' \<Longrightarrow>
    responseFree key al (bkLedger (syBroker S)) \<Longrightarrow>
    recordIdentity E io al (thContext th) rid (syBroker S) = (r, b) \<Longrightarrow>
    sysStep E digest owners decode B S (setPhase key th
      (if r = None then PReading else PDone (Some ErrAmbiguous)) b S)"
| completed: "fmlookup (syThreads S) key = Some th \<Longrightarrow> thPhase th = PReading \<Longrightarrow> ValidateSummary summary \<Longrightarrow>
    (\<And>k. uuidCanonical E (u k)) \<Longrightarrow> (\<And>item. item \<in> set (ssFunctionCalls summary) \<Longrightarrow> ValidateIdentifier (oiCallID item)) \<Longrightarrow>
    commitCompletedResponse E io u now (thContext th) summary (syBroker S) = (res, b) \<Longrightarrow>
    sysStep E digest owners decode B S (setPhase key th
      (PDone (case res of Inl e \<Rightarrow> Some e | Inr _ \<Rightarrow> None)) b S)"
| finished: "fmlookup (syThreads S) key = Some th \<Longrightarrow> thPhase th = PDone err \<Longrightarrow>
    sysStep E digest owners decode B S (S\<lparr>syBroker := finishInvocation E io (thContext th) err (syBroker S),
      syThreads := fmdrop key (syThreads S)\<rparr>)"
| disconnected: "sysStep E digest owners decode B S (S\<lparr>syBroker := closePromptLocked E io key pkey (syBroker S)\<rparr>)"
| workerStarted: "startReconcile key force now (syBroker S) = (True, b) \<Longrightarrow>
    sysStep E digest owners decode B S (S\<lparr>syBroker := b, syWorkers := fmupd key WStarted (syWorkers S)\<rparr>)"
| captured: "fmlookup (syWorkers S) key = Some WStarted \<Longrightarrow> reconcileCapture (syBroker S) key = Some cp \<Longrightarrow>
    sysStep E digest owners decode B S (S\<lparr>syWorkers := fmupd key (WCaptured cp) (syWorkers S)\<rparr>)"
| settled: "fmlookup (syWorkers S) key = Some (WCaptured cp) \<Longrightarrow> \<not> cpAmbiguous cp \<Longrightarrow>
    sysStep E digest owners decode B S (S\<lparr>syBroker := reconcileCommit E io now key cp (syBroker S),
      syWorkers := fmupd key WEnding (syWorkers S)\<rparr>)"
| workerEnded: "fmlookup (syWorkers S) key = Some w \<Longrightarrow>
    sysStep E digest owners decode B S (S\<lparr>syBroker := endReconcile key now (syBroker S),
      syWorkers := fmdrop key (syWorkers S)\<rparr>)"
| swept: "sysStep E digest owners decode B S (S\<lparr>syBroker := sweepTick E io now (syBroker S)\<rparr>)"
| shutdown: "sysStep E digest owners decode B S (S\<lparr>syBroker := closeBroker (syBroker S)\<rparr>)"
| restarted: "openBrokerStore E decode True digest (Some created) (Present True fileSize) (bkDisk (syBroker S)) io
      (bkDisk (syBroker S)) = (Inr l, d) \<Longrightarrow>
    newLifecycleBroker E proofOk io' cfg (Inr l, d) = Inr b \<Longrightarrow>
    sysStep E digest owners decode B S \<lparr>syBroker = b, syThreads = fmempty, syWorkers = fmempty\<rparr>"

end
