(* ===== verification/BrokerFrame.thy ===== *)
theory BrokerFrame
  imports BrokerSystem
begin

text \<open>
  What a step may change under an inference request or a captured reconciliation of the same
  owner (\<open>calm\<close>), and what it leaves to other owners (\<open>untouched\<close>).
\<close>

section \<open>Calm changes\<close>

definition calmPrompt :: "brokerPrompt \<Rightarrow> brokerPrompt \<Rightarrow> bool" where
  "calmPrompt p p' \<longleftrightarrow> bpInvocations p' = bpInvocations p \<and> bpSettled p' = bpSettled p \<and>
     bpLastSequence p' = bpLastSequence p \<and> (bpClosing p \<longrightarrow> bpClosing p')"

definition calmSession :: "brokerSession \<Rightarrow> brokerSession \<Rightarrow> bool" where
  "calmSession s s' \<longleftrightarrow> bsCreateState s' = bsCreateState s \<and> bsRemoteID s' = bsRemoteID s \<and>
     bsRetired s' = bsRetired s \<and> (bsRetiring s \<longrightarrow> bsRetiring s') \<and>
     (\<forall>pk. case fmlookup (bsPrompts s) pk of
        Some p \<Rightarrow> (\<exists>p'. fmlookup (bsPrompts s') pk = Some p' \<and> calmPrompt p p')
      | None \<Rightarrow> (\<forall>p'. fmlookup (bsPrompts s') pk = Some p' \<longrightarrow> bpInvocations p' = fmempty))"

definition calm :: "brokerLedger \<Rightarrow> brokerLedger \<Rightarrow> bool" where
  "calm l l' \<longleftrightarrow> (blPrincipalDigest l \<noteq> [] \<longrightarrow> blPrincipalDigest l' \<noteq> []) \<and>
     mapEvolves calmSession (blSessions l) (blSessions l')"

lemma calmPrompt_refl [simp]: "calmPrompt p p"
  by (simp add: calmPrompt_def)

lemma calmPrompt_trans: "calmPrompt p q \<Longrightarrow> calmPrompt q r \<Longrightarrow> calmPrompt p r"
  by (simp add: calmPrompt_def)

lemma calmPrompt_close [simp]: "calmPrompt p (closePromptEntry p)"
  by (simp add: calmPrompt_def closePromptEntry_def)

lemma calmSession_refl [simp]: "calmSession s s"
  by (simp add: calmSession_def split: option.split)

lemma calmSession_trans:
  assumes "calmSession r s" "calmSession s t"
  shows "calmSession r t"
proof -
  have "case fmlookup (bsPrompts r) pk of
        Some p \<Rightarrow> (\<exists>p'. fmlookup (bsPrompts t) pk = Some p' \<and> calmPrompt p p')
      | None \<Rightarrow> (\<forall>p'. fmlookup (bsPrompts t) pk = Some p' \<longrightarrow> bpInvocations p' = fmempty)" for pk
  proof -
    have 1: "case fmlookup (bsPrompts r) pk of
        Some p \<Rightarrow> (\<exists>p'. fmlookup (bsPrompts s) pk = Some p' \<and> calmPrompt p p')
      | None \<Rightarrow> (\<forall>p'. fmlookup (bsPrompts s) pk = Some p' \<longrightarrow> bpInvocations p' = fmempty)"
      and 2: "case fmlookup (bsPrompts s) pk of
        Some p \<Rightarrow> (\<exists>p'. fmlookup (bsPrompts t) pk = Some p' \<and> calmPrompt p p')
      | None \<Rightarrow> (\<forall>p'. fmlookup (bsPrompts t) pk = Some p' \<longrightarrow> bpInvocations p' = fmempty)"
      using assms by (simp_all add: calmSession_def)
    show ?thesis
    proof (cases "fmlookup (bsPrompts s) pk")
      case None
      with 1 2 show ?thesis by (cases "fmlookup (bsPrompts r) pk") auto
    next
      case (Some q)
      with 2 obtain q' where q': "fmlookup (bsPrompts t) pk = Some q'" "calmPrompt q q'" by auto
      show ?thesis
      proof (cases "fmlookup (bsPrompts r) pk")
        case None
        with 1 Some q' show ?thesis by (simp add: calmPrompt_def)
      next
        case (Some p)
        with 1 \<open>fmlookup (bsPrompts s) pk = Some q\<close> q' show ?thesis by (auto dest: calmPrompt_trans)
      qed
    qed
  qed
  with assms show ?thesis by (simp add: calmSession_def)
qed

lemma calm_refl [simp]: "calm l l"
  by (simp add: calm_def mapEvolves_refl)

lemma calm_trans:
  assumes "calm l m" "calm m n"
  shows "calm l n"
proof -
  have "mapEvolves calmSession (blSessions l) (blSessions n)"
    by (rule mapEvolves_trans [where m' = "blSessions m", OF calmSession_trans])
      (use assms in \<open>simp_all add: calm_def\<close>)
  with assms show ?thesis by (simp add: calm_def)
qed

lemma calmSession_map:
  assumes "\<And>pk p. calmPrompt p (f pk p)"
  shows "calmSession s (s\<lparr>bsPrompts := fmmap_keys f (bsPrompts s)\<rparr>)"
  using assms by (simp add: calmSession_def split: option.split)

lemma calm_putSession:
  assumes "case fmlookup (blSessions l) key of None \<Rightarrow> True | Some s0 \<Rightarrow> calmSession s0 s"
  shows "calm l (putSession key s l)"
  using assms by (auto simp: calm_def intro: mapEvolves_upd)

lemma calm_closeWhere: "calm l (closeWhere C l)"
  by (simp add: calm_def closeWhere_def mapEvolves_map calmSession_map)

lemma calm_principal: "d \<noteq> [] \<Longrightarrow> calm l (l\<lparr>blPrincipalDigest := d\<rparr>)"
  by (simp add: calm_def mapEvolves_refl)

lemma calmSession_putPrompt:
  assumes "fmlookup (bsPrompts s) pk = Some p" "calmPrompt p p'"
  shows "calmSession s (putPrompt pk p' s)"
  using assms by (simp add: calmSession_def split: option.split)

lemma calmSession_record:
  "brokerRecordOperation E s path c = Inr (d, s1) \<Longrightarrow> calmSession s s1"
  by (auto simp: brokerRecordOperation_def Let_def calmSession_def split: option.splits if_splits)

lemma calmSession_ensurePrompt:
  "brokerEnsurePrompt E s c = Inr (p, s1) \<Longrightarrow> calmSession s s1"
  by (auto simp: brokerEnsurePrompt_def Let_def calmSession_def split: option.splits if_splits)

lemma calm_ensureSession:
  assumes "brokerEnsureSession E l c = Inr (s, l1)"
  shows "calm l l1" "fmlookup (blSessions l1) (ownerKey E (bcOwner c)) = Some s"
  using assms by (auto simp: brokerEnsureSession_def Let_def intro!: calm_putSession split: option.splits if_splits)

lemma calm_controlChange:
  assumes "controlChange E now path c l = Inr l'"
  shows "calm l l'"
  using assms
proof (cases rule: controlChange_cases)
  case (retire s l1 d s1)
  note l1 = calm_ensureSession [OF retire(1)]
  have "calmSession s1 (s1\<lparr>bsRetiring := True, bsPrompts := fmmap closePromptEntry (bsPrompts s1)\<rparr>)"
    by (simp add: calmSession_def split: option.split)
  with calmSession_record [OF retire(2)] l1(2) have "calm l1 l'" unfolding retire(4)
    by (intro calm_putSession) (auto intro: calmSession_trans)
  with l1(1) show ?thesis by (rule calm_trans)
next
  case (prompt s l1 d s1 p s2 p')
  note l1 = calm_ensureSession [OF prompt(1)]
  have "calmPrompt p p'"
    using prompt(6) by (auto simp: controlledPrompt_def) (simp add: calmPrompt_def)
  then have "calmSession s2 (putPrompt (promptKey E c) p' s2)"
    by (rule calmSession_putPrompt [OF brokerEnsurePrompt_lookup [OF prompt(4)]])
  with calmSession_record [OF prompt(2)] calmSession_ensurePrompt [OF prompt(4)]
  have "calmSession s (putPrompt (promptKey E c) p' s2)" by (blast intro: calmSession_trans)
  with l1(2) have "calm l1 l'" unfolding prompt(5) by (intro calm_putSession) simp
  with l1(1) show ?thesis by (rule calm_trans)
qed

section \<open>Changes of one owner\<close>

definition untouched :: "string \<Rightarrow> brokerLedger \<Rightarrow> brokerLedger \<Rightarrow> bool" where
  "untouched key l l' \<longleftrightarrow> blPrincipalDigest l' = blPrincipalDigest l \<and>
     (\<forall>k. k \<noteq> key \<longrightarrow> fmlookup (blSessions l') k = fmlookup (blSessions l) k)"

lemma untouched_refl [simp]: "untouched key l l"
  by (simp add: untouched_def)

lemma untouched_putSession [simp]: "untouched key l (putSession key s l)"
  by (simp add: untouched_def)

lemma untouched_trans: "untouched key l m \<Longrightarrow> untouched key m n \<Longrightarrow> untouched key l n"
  by (simp add: untouched_def)

lemma untouched_onSession: "onSession key f l = Inr l' \<Longrightarrow> untouched key l l'"
  by (auto simp: onSession_def bindR_Inr split: option.splits)

lemma untouched_onPrompt: "onPrompt key pkey f l = Inr l' \<Longrightarrow> untouched key l l'"
  by (auto simp: onPrompt_def intro: untouched_onSession)

lemma untouched_reserve:
  assumes "reserveChange E B now proof c request l = Inr (l', request')"
  shows "untouched (ownerKey E (bcOwner c)) l l'"
  using assms
proof (cases rule: reserveChange_cases)
  case (1 s l1 s1 p s2)
  have "untouched (ownerKey E (bcOwner c)) l l1"
    using 1(1) by (auto simp: brokerEnsureSession_def Let_def split: option.splits if_splits)
  then show ?thesis unfolding 1(11) by (auto intro: untouched_trans)
qed

lemma untouched_completed:
  "completedChange u now key pkey seq summary l = Inr (l', out) \<Longrightarrow> untouched key l l'"
  by (auto simp: completedChange_def Let_def split: option.splits if_splits)

lemma untouched_reconcile: "reconcileChange E now key cp kind b l = Inr l' \<Longrightarrow> untouched key l l'"
  by (cases rule: reconcileChange_cases, assumption) auto

section \<open>Requests\<close>

text \<open>Where the invocation of a request is, and what its phase knows of it.\<close>

definition phaseOk :: "phase \<Rightarrow> brokerLedger \<Rightarrow> brokerSession \<Rightarrow> brokerInvocation \<Rightarrow> bool" where
  "phaseOk ph l s i \<longleftrightarrow> (case ph of
       PStart \<Rightarrow> biState i = InvReserved
     | PNone \<Rightarrow> biState i = InvReserved \<and> bsCreateState s = CreateNone
     | PPinned \<Rightarrow> biState i = InvReserved \<and> bsCreateState s = CreateNone \<and> blPrincipalDigest l \<noteq> []
     | PCreating \<Rightarrow> biState i = InvReserved \<and> bsCreateState s = CreateIntent
     | PReady \<Rightarrow> biState i = InvReserved \<and> bsCreateState s = CreateKnown
     | PSent \<Rightarrow> biState i = InvIntent \<and> bsCreateState s = CreateKnown
     | PReading \<Rightarrow> (biState i = InvIntent \<or> biState i = InvAccepted) \<and> bsCreateState s = CreateKnown
     | PDone None \<Rightarrow> biState i = InvCompleted
     | PDone (Some _) \<Rightarrow> True)"

definition threadOk :: "env \<Rightarrow> string \<Rightarrow> thread \<Rightarrow> brokerLedger \<Rightarrow> bool" where
  "threadOk E key th l \<longleftrightarrow> key = ownerKey E (bcOwner (thContext th)) \<and>
     (\<exists>s p i. fmlookup (blSessions l) key = Some s \<and>
       fmlookup (bsPrompts s) (promptKey E (thContext th)) = Some p \<and>
       fmlookup (bpInvocations p) (bcInvocationSequence (thContext th)) = Some i \<and>
       \<not> bpSettled p \<and> bpLastSequence p = bcInvocationSequence (thContext th) \<and> \<not> bsRetired s \<and>
       phaseOk (thPhase th) l s i)"

lemma threadOk_calm:
  assumes th: "threadOk E key th l" and "calm l l'"
  shows "threadOk E key th l'"
proof -
  let ?pk = "promptKey E (thContext th)" let ?n = "bcInvocationSequence (thContext th)"
  from th obtain s p i where s: "fmlookup (blSessions l) key = Some s" "fmlookup (bsPrompts s) ?pk = Some p"
      "fmlookup (bpInvocations p) ?n = Some i" "\<not> bpSettled p" "bpLastSequence p = ?n" "\<not> bsRetired s"
      "phaseOk (thPhase th) l s i" and key: "key = ownerKey E (bcOwner (thContext th))"
    unfolding threadOk_def by blast
  from assms(2) s(1) obtain s' where s': "fmlookup (blSessions l') key = Some s'" and c: "calmSession s s'"
    by (auto simp: calm_def dest: mapEvolvesD)
  have "case fmlookup (bsPrompts s) ?pk of Some p \<Rightarrow> (\<exists>p'. fmlookup (bsPrompts s') ?pk = Some p' \<and> calmPrompt p p')
      | None \<Rightarrow> (\<forall>p'. fmlookup (bsPrompts s') ?pk = Some p' \<longrightarrow> bpInvocations p' = fmempty)"
    using c by (simp add: calmSession_def)
  with s(2) obtain p' where p': "fmlookup (bsPrompts s') ?pk = Some p'" "calmPrompt p p'" by auto
  have "phaseOk (thPhase th) l' s' i"
    using s(7) c assms(2) by (auto simp: phaseOk_def calmSession_def calm_def split: phase.splits option.splits)
  moreover have "\<not> bsRetired s'" using c s(6) by (simp add: calmSession_def)
  ultimately show ?thesis using key s s'(1) p' unfolding threadOk_def calmPrompt_def by auto
qed

lemma threadOk_untouched:
  assumes "threadOk E k th l" "untouched key l l'" "k \<noteq> key"
  shows "threadOk E k th l'"
proof -
  have same: "fmlookup (blSessions l') k = fmlookup (blSessions l) k" "blPrincipalDigest l' = blPrincipalDigest l"
    using assms(2,3) by (simp_all add: untouched_def)
  have "phaseOk ph l' s i = phaseOk ph l s i" for ph s i
    by (simp add: phaseOk_def same cong: phase.case_cong)
  then have "threadOk E k th l' = threadOk E k th l" unfolding threadOk_def by (simp only: same)
  with assms(1) show ?thesis by simp
qed

section \<open>Captured reconciliations\<close>

text \<open>Nothing can be reserved in a session that is retiring or has a prompt waiting for
  settlement; a capture of such a session stays true until it is committed.\<close>

definition draining :: "brokerSession \<Rightarrow> bool" where
  "draining s \<longleftrightarrow> bsRetiring s \<or> (\<exists>pk p. fmlookup (bsPrompts s) pk = Some p \<and> toSettle p)"

definition workerOk :: "string \<Rightarrow> worker \<Rightarrow> brokerLedger \<Rightarrow> bool" where
  "workerOk key w l \<longleftrightarrow> (case w of WCaptured cp \<Rightarrow>
       (\<exists>s. fmlookup (blSessions l) key = Some s \<and> captureHolds cp s \<and> draining s \<and>
         (\<not> cpAmbiguous cp \<longrightarrow> sessionClear s)) | _ \<Rightarrow> True)"

lemma workerOk_calm:
  assumes w: "workerOk key w l" and c: "calm l l'"
  shows "workerOk key w l'"
proof (cases w)
  case (WCaptured cp)
  with w obtain s where s: "fmlookup (blSessions l) key = Some s" "captureHolds cp s" "draining s"
    "\<not> cpAmbiguous cp \<longrightarrow> sessionClear s"
    by (auto simp: workerOk_def)
  from c s(1) obtain s' where s': "fmlookup (blSessions l') key = Some s'" and cs: "calmSession s s'"
    by (auto simp: calm_def dest: mapEvolvesD)
  have known: "\<exists>p'. fmlookup (bsPrompts s') pk = Some p' \<and> calmPrompt p p'" if "fmlookup (bsPrompts s) pk = Some p" for pk p
  proof -
    have "case fmlookup (bsPrompts s) pk of Some p \<Rightarrow> (\<exists>p'. fmlookup (bsPrompts s') pk = Some p' \<and> calmPrompt p p')
        | None \<Rightarrow> (\<forall>p'. fmlookup (bsPrompts s') pk = Some p' \<longrightarrow> bpInvocations p' = fmempty)"
      using cs by (simp add: calmSession_def)
    with that show ?thesis by simp
  qed
  have toSettle: "toSettle p'" if "calmPrompt p p'" "toSettle p" for p p'
    using that by (simp add: calmPrompt_def toSettle_def)
  have "captureHolds cp s'" unfolding captureHolds_def
  proof (intro conjI allI impI)
    show "\<not> bsRetired s'" "bsCreateState s' = cpCreateState cp" "cpCreateState cp \<noteq> CreateIntent"
      "bsRemoteID s' = cpRemoteID cp" "cpRetiring cp \<Longrightarrow> bsRetiring s'"
      using s(2) cs by (simp_all add: captureHolds_def calmSession_def)
    show "case fmlookup (bsPrompts s') pk of None \<Rightarrow> False | Some p \<Rightarrow> toSettle p" if "pk |\<in>| cpClosing cp" for pk
    proof -
      from s(2) that obtain p where "fmlookup (bsPrompts s) pk = Some p" "toSettle p"
        by (auto simp: captureHolds_def split: option.splits)
      with known toSettle show ?thesis by fastforce
    qed
  qed
  moreover have "draining s'"
    using s(3) cs known toSettle unfolding draining_def calmSession_def by meson
  moreover have "sessionClear s'" if "\<not> cpAmbiguous cp"
    unfolding sessionClear_def
  proof (intro allI impI)
    fix pk p seq i
    assume p: "fmlookup (bsPrompts s') pk = Some p" and i: "fmlookup (bpInvocations p) seq = Some i"
    have "case fmlookup (bsPrompts s) pk of Some p \<Rightarrow> (\<exists>p'. fmlookup (bsPrompts s') pk = Some p' \<and> calmPrompt p p')
        | None \<Rightarrow> (\<forall>p'. fmlookup (bsPrompts s') pk = Some p' \<longrightarrow> bpInvocations p' = fmempty)"
      using cs by (simp add: calmSession_def)
    with p i obtain q where "fmlookup (bsPrompts s) pk = Some q" "fmlookup (bpInvocations q) seq = Some i"
      by (auto simp: calmPrompt_def split: option.splits)
    with s(4) that show "\<not> isAmbiguous i" by (auto simp: sessionClear_def)
  qed
  ultimately show ?thesis using WCaptured s' by (simp add: workerOk_def)
qed (simp_all add: workerOk_def)

lemma workerOk_untouched:
  assumes "workerOk k w l" "untouched key l l'" "k \<noteq> key"
  shows "workerOk k w l'"
  using assms by (auto simp: workerOk_def untouched_def split: worker.splits)

lemma reserve_not_draining:
  assumes l: "ledgerOk E digest l" and s: "fmlookup (blSessions l) (ownerKey E (bcOwner c)) = Some s"
    and d: "draining s"
  shows "reserveChange E B now proof c request l \<noteq> Inr (l', request')"
proof
  assume "reserveChange E B now proof c request l = Inr (l', request')"
  then show False
  proof (cases rule: reserveChange_cases)
    case (1 s0 l1 s1 p s2)
    from 1(1) s have "s0 = s" by (simp add: brokerEnsureSession_def Let_def)
    with 1(2) d obtain pk q where q: "fmlookup (bsPrompts s) pk = Some q" "toSettle q" by (auto simp: draining_def)
    have sok: "sessionOk E digest (ownerKey E (bcOwner c)) s" using l s by (rule ledgerOk_session)
    have cur: "pk = bsCurrentPrompt s" using sessionOk_unsettled [OF sok q(1)] q(2) by (simp add: toSettle_def)
    have s1: "bsPrompts s1 = bsPrompts s" "bsCurrentPrompt s1 = bsCurrentPrompt s"
      using 1(4) \<open>s0 = s\<close> by (auto simp: brokerRecordOperation_def Let_def split: option.splits if_splits)
    show False
    proof (cases "fmlookup (bsPrompts s) (promptKey E c)")
      case None
      with 1(5) s1 q cur show False by (auto simp: brokerEnsurePrompt_def Let_def toSettle_def split: if_splits option.splits)
    next
      case (Some p0)
      with 1(5) s1 have "p0 = p" by (simp add: brokerEnsurePrompt_def Let_def)
      with Some 1(7) sessionOk_unsettled [OF sok Some] cur have "promptKey E c = pk" by simp
      with Some \<open>p0 = p\<close> q 1(6) show False by (simp add: toSettle_def)
    qed
  qed
qed

end
