(* ===== verification/BrokerReach.thy ===== *)
theory BrokerReach
  imports BrokerFrame
begin

text \<open>
  The invariant of the transition system: what is on disk can always be opened again, every
  request's invocation is where its phase expects it, an owner has at most one request, and a
  captured reconciliation still holds. Every step keeps it and continues the history.
\<close>

section \<open>The invariant\<close>

definition ownersIn :: "brokerOwner set \<Rightarrow> brokerLedger \<Rightarrow> bool" where
  "ownersIn owners l \<longleftrightarrow> (\<forall>key s. fmlookup (blSessions l) key = Some s \<longrightarrow> bsOwner s \<in> owners)"

text \<open>What the model assumes of its surroundings: SHA-256 has 32 bytes and separates the owners in
  use, and the decoder reads back what \<open>json.Marshal\<close> wrote.\<close>

definition envOk :: "env \<Rightarrow> string \<Rightarrow> brokerOwner set \<Rightarrow> (string \<Rightarrow> brokerLedger option) \<Rightarrow> bool" where
  "envOk E digest owners decode \<longleftrightarrow> shaOk E \<and> inj_on (ownerKey E) owners \<and>
     (\<forall>l. ledgerOk E digest l \<longrightarrow> decode (marshalLedger E l) = Some l)"

definition stored :: "env \<Rightarrow> string \<Rightarrow> brokerOwner set \<Rightarrow> broker \<Rightarrow> bool" where
  "stored E digest owners b \<longleftrightarrow> durable E digest b \<and> ownersIn owners (bkLedger b) \<and>
     (\<forall>l. ledgerOk E digest l \<longrightarrow> bkDisk b = Some (marshalLedger E l) \<longrightarrow> ownersIn owners l)"

definition activeOk :: "env \<Rightarrow> broker \<Rightarrow> (string, thread) fmap \<Rightarrow> bool" where
  "activeOk E b threads \<longleftrightarrow> (\<forall>key. map_option baPrompt (fmlookup (bkActive b) key) =
     map_option (\<lambda>th. promptKey E (thContext th)) (fmlookup threads key))"

definition sysInv :: "env \<Rightarrow> string \<Rightarrow> brokerOwner set \<Rightarrow> sys \<Rightarrow> bool" where
  "sysInv E digest owners S \<longleftrightarrow> stored E digest owners (syBroker S) \<and> activeOk E (syBroker S) (syThreads S) \<and>
     fmpred (\<lambda>key th. threadOk E key th (bkLedger (syBroker S))) (syThreads S) \<and>
     bkWorkers (syBroker S) = fmdom (syWorkers S) \<and>
     fmpred (\<lambda>key w. workerOk key w (bkLedger (syBroker S)) \<and>
       ((\<exists>cp. w = WCaptured cp) \<longrightarrow> fmlookup (syThreads S) key = None)) (syWorkers S)"

section \<open>Commits\<close>

definition addsOnly :: "brokerOwner set \<Rightarrow> brokerLedger \<Rightarrow> brokerLedger \<Rightarrow> bool" where
  "addsOnly owners l l' \<longleftrightarrow> (\<forall>key s. fmlookup (blSessions l') key = Some s \<longrightarrow>
     fmlookup (blSessions l) key = None \<longrightarrow> bsOwner s \<in> owners)"

lemma ownersIn_evolves:
  assumes "ownersIn owners l" "ledgerEvolves l l'" "addsOnly owners l l'"
  shows "ownersIn owners l'"
  unfolding ownersIn_def
proof (intro allI impI)
  fix key s'
  assume s': "fmlookup (blSessions l') key = Some s'"
  show "bsOwner s' \<in> owners"
  proof (cases "fmlookup (blSessions l) key")
    case None
    with assms(3) s' show ?thesis by (simp add: addsOnly_def)
  next
    case (Some s)
    with assms(2) s' have "sessionEvolves s s'" by (auto simp: ledgerEvolves_def dest: mapEvolvesD)
    with assms(1) Some show ?thesis by (auto simp: ownersIn_def sessionEvolves_def)
  qed
qed

lemma addsOnly_untouched:
  "untouched key l l' \<Longrightarrow> fmlookup (blSessions l) key \<noteq> None \<Longrightarrow> addsOnly owners l l'"
  unfolding addsOnly_def untouched_def by (metis option.distinct(1))

definition activeSame :: "broker \<Rightarrow> broker \<Rightarrow> bool" where
  "activeSame b b' \<longleftrightarrow> (\<forall>key. map_option baPrompt (fmlookup (bkActive b') key) =
     map_option baPrompt (fmlookup (bkActive b) key))"

lemma activeSame_refl [simp]: "activeSame b b"
  by (simp add: activeSame_def)

lemma activeSame_trans: "activeSame a b \<Longrightarrow> activeSame b c \<Longrightarrow> activeSame a c"
  by (simp add: activeSame_def)

lemma activeSame_map: "bkActive b' = fmmap (\<lambda>a. a\<lparr>baCancelled := True\<rparr>) (bkActive b) \<Longrightarrow> activeSame b b'"
  by (simp add: activeSame_def option.map_comp comp_def)

lemma commit_frame:
  assumes "commitCapacityLocked E io ordinary change b = (r, b')"
  shows "activeSame b b'" "bkWorkers b' = bkWorkers b"
    "r \<noteq> None \<and> bkLedger b' = bkLedger b \<or> r = None \<and> change (bkLedger b) = Inr (bkLedger b')"
proof -
  from assms have "activeSame b b' \<and> bkWorkers b' = bkWorkers b \<and>
      (r \<noteq> None \<and> bkLedger b' = bkLedger b \<or> r = None \<and> change (bkLedger b) = Inr (bkLedger b'))"
  proof (cases rule: commit_cases)
    case refused
    then show ?thesis by simp
  next
    case (failed nxt)
    then show ?thesis by (auto intro!: activeSame_map simp: failStorageLocked_def)
  next
    case (saved nxt)
    then show ?thesis by (simp add: activeSame_def)
  qed
  then show "activeSame b b'" "bkWorkers b' = bkWorkers b"
    "r \<noteq> None \<and> bkLedger b' = bkLedger b \<or> r = None \<and> change (bkLedger b) = Inr (bkLedger b')" by simp_all
qed

context history_change
begin

lemma commit_stored:
  assumes env: "envOk E digest owners decode" and b: "stored E digest owners b" and p: "pre (bkLedger b)"
    and adds: "\<And>nxt. change (bkLedger b) = Inr nxt \<Longrightarrow> addsOnly owners (bkLedger b) nxt"
    and c: "commitCapacityLocked E io ordinary change b = (r, b')"
  shows "stored E digest owners b'" "ledgerEvolves (bkLedger b) (bkLedger b')"
proof -
  have d: "durable E digest b" and own: "ownersIn owners (bkLedger b)" using b by (simp_all add: stored_def)
  have old: "\<forall>l. ledgerOk E digest l \<longrightarrow> bkDisk b = Some (marshalLedger E l) \<longrightarrow> ownersIn owners l"
    using b by (simp add: stored_def)
  have ok: "ledgerOk E digest (bkLedger b)" using d by (simp add: durable_def)
  note d' = commit_durable [OF d p c]
  have nxt: "ownersIn owners nxt \<and> ledgerOk E digest nxt" if "change (bkLedger b) = Inr nxt" for nxt
    using ownersIn_evolves [OF own evolves [OF ok p that] adds [OF that]] keeps [OF ok p that] by simp
  have dec: "decode (marshalLedger E l) = Some l" if "ledgerOk E digest l" for l
    using env that by (simp add: envOk_def)
  have same: "l = n" if "ledgerOk E digest l" "ledgerOk E digest n" "marshalLedger E l = marshalLedger E n" for l n
    using trans [OF dec [OF that(1), symmetric, unfolded that(3)] dec [OF that(2)]] by simp
  from c have "ownersIn owners (bkLedger b') \<and> (\<forall>l. ledgerOk E digest l \<longrightarrow>
      bkDisk b' = Some (marshalLedger E l) \<longrightarrow> ownersIn owners l)"
  proof (cases rule: commit_cases)
    case refused
    with own old show ?thesis by simp
  next
    case (failed n)
    have "ownersIn owners l" if "ledgerOk E digest l" "marshalLedger E l = marshalLedger E n" for l
      using nxt [OF failed(2)] same [OF that(1) _ that(2)] by simp
    moreover have "bkLedger b' = bkLedger b" "bkDisk b' = bkDisk b \<or> bkDisk b' = Some (marshalLedger E n)"
      using failed(4) by auto
    ultimately show ?thesis using own old by auto
  next
    case (saved n)
    have "ownersIn owners l" if "ledgerOk E digest l" "marshalLedger E l = marshalLedger E n" for l
      using nxt [OF saved(2)] same [OF that(1) _ that(2)] by simp
    with saved nxt [OF saved(2)] show ?thesis by auto
  qed
  with d' show "stored E digest owners b'" "ledgerEvolves (bkLedger b) (bkLedger b')" by (simp_all add: stored_def)
qed

end

section \<open>Frames of the invariant\<close>

lemma sysInv_calm:
  assumes S: "sysInv E digest owners S" and "stored E digest owners b" "activeSame (syBroker S) b"
    and "bkWorkers b = bkWorkers (syBroker S)" and c: "calm (bkLedger (syBroker S)) (bkLedger b)"
  shows "sysInv E digest owners (S\<lparr>syBroker := b\<rparr>)"
proof -
  have "activeOk E b (syThreads S)" using assms(1,3) by (simp add: sysInv_def activeOk_def activeSame_def)
  moreover have "fmpred (\<lambda>key th. threadOk E key th (bkLedger b)) (syThreads S)"
    using S threadOk_calm [OF _ c] by (simp add: sysInv_def fmpred_iff)
  moreover have "fmpred (\<lambda>key w. workerOk key w (bkLedger b) \<and>
      ((\<exists>cp. w = WCaptured cp) \<longrightarrow> fmlookup (syThreads S) key = None)) (syWorkers S)"
    using S workerOk_calm [OF _ c] by (simp add: sysInv_def fmpred_iff)
  ultimately show ?thesis using assms by (simp add: sysInv_def)
qed

lemma sysInv_own:
  assumes S: "sysInv E digest owners S" and th: "fmlookup (syThreads S) key = Some th"
    and b: "stored E digest owners b" "activeSame (syBroker S) b" "bkWorkers b = bkWorkers (syBroker S)"
    and u: "untouched key (bkLedger (syBroker S)) (bkLedger b)"
    and ph: "threadOk E key (th\<lparr>thPhase := ph\<rparr>) (bkLedger b)"
  shows "sysInv E digest owners (setPhase key th ph b S)"
proof -
  have "threadOk E k t (bkLedger b)" if "fmlookup (fmupd key (th\<lparr>thPhase := ph\<rparr>) (syThreads S)) k = Some t" for k t
    using that ph S threadOk_untouched [OF _ u] by (auto simp: sysInv_def fmpred_iff split: if_splits)
  moreover have "workerOk k w (bkLedger b) \<and> ((\<exists>cp. w = WCaptured cp) \<longrightarrow>
      fmlookup (fmupd key (th\<lparr>thPhase := ph\<rparr>) (syThreads S)) k = None)" if w: "fmlookup (syWorkers S) k = Some w" for k w
  proof (cases "k = key")
    case True
    with S th w have "\<not> (\<exists>cp. w = WCaptured cp)" by (auto simp: sysInv_def fmpred_iff)
    then show ?thesis by (cases w) (simp_all add: workerOk_def)
  next
    case False
    with S w workerOk_untouched [OF _ u False] show ?thesis by (auto simp: sysInv_def fmpred_iff)
  qed
  moreover have "activeOk E b (fmupd key (th\<lparr>thPhase := ph\<rparr>) (syThreads S))"
    using S th b(2) by (auto simp: sysInv_def activeOk_def activeSame_def)
  ultimately show ?thesis using S b by (simp add: sysInv_def setPhase_def fmpred_iff)
qed

lemma sysInv_parts:
  assumes "sysInv E digest owners S"
  shows "stored E digest owners (syBroker S)" "durable E digest (syBroker S)"
    "ledgerOk E digest (bkLedger (syBroker S))" "ownersIn owners (bkLedger (syBroker S))"
  using assms by (simp_all add: sysInv_def stored_def durable_def)

lemma sysInv_thread:
  "sysInv E digest owners S \<Longrightarrow> fmlookup (syThreads S) key = Some th \<Longrightarrow> threadOk E key th (bkLedger (syBroker S))"
  by (simp add: sysInv_def fmpred_iff)

lemma ownerAgrees_in:
  assumes env: "envOk E digest owners decode" and l: "ledgerOk E digest l" "ownersIn owners l" and c: "bcOwner c \<in> owners"
  shows "ownerAgrees E c l"
  unfolding ownerAgrees_def
proof (intro allI impI)
  fix s
  assume s: "fmlookup (blSessions l) (ownerKey E (bcOwner c)) = Some s"
  then have "bsOwner s \<in> owners" using l by (simp add: ownersIn_def)
  moreover have "ownerKey E (bcOwner c) = ownerKey E (bsOwner s)"
    using ledgerOk_session [OF l(1) s] by (simp add: sessionOk_iff)
  ultimately show "bsOwner s = bcOwner c" using env c by (metis envOk_def inj_onD)
qed

lemma admissible_request:
  assumes "envOk E digest owners decode" "sysInv E digest owners S" "admissible E digest owners path c"
  shows "requestOk E digest path c (bkLedger (syBroker S))"
  using assms ownerAgrees_in [OF assms(1) sysInv_parts(3,4) [OF assms(2)]]
  by (simp add: requestOk_def admissible_def envOk_def)

end
