(* ===== verification/BrokerSteps.thy ===== *)
theory BrokerSteps
  imports BrokerReach
begin

text \<open>Every step of \<^const>\<open>sysStep\<close> keeps \<^const>\<open>sysInv\<close> and continues the history.\<close>

definition keepsInv :: "env \<Rightarrow> string \<Rightarrow> brokerOwner set \<Rightarrow> sys \<Rightarrow> sys \<Rightarrow> bool" where
  "keepsInv E digest owners S S' \<longleftrightarrow> sysInv E digest owners S' \<and>
     ledgerEvolves (bkLedger (syBroker S)) (bkLedger (syBroker S'))"

section \<open>What a phase knows\<close>

lemma threadOkE:
  assumes "threadOk E key th l"
  obtains s p i where "fmlookup (blSessions l) key = Some s" "fmlookup (bsPrompts s) (promptKey E (thContext th)) = Some p"
    "fmlookup (bpInvocations p) (bcInvocationSequence (thContext th)) = Some i" "\<not> bpSettled p"
    "bpLastSequence p = bcInvocationSequence (thContext th)" "\<not> bsRetired s" "phaseOk (thPhase th) l s i"
    "key = ownerKey E (bcOwner (thContext th))"
  using assms unfolding threadOk_def by blast

lemma threadOk_key: "threadOk E key th l \<Longrightarrow> ownerKey E (bcOwner (thContext th)) = key"
  by (simp add: threadOk_def)

lemma threadOk_done: "threadOk E key th l \<Longrightarrow> threadOk E key (th\<lparr>thPhase := PDone (Some e)\<rparr>) l"
  by (erule threadOkE) (auto simp: threadOk_def phaseOk_def)

lemma threadOk_session: "threadOk E key th l \<Longrightarrow> fmlookup (blSessions l) key \<noteq> None"
  by (auto elim: threadOkE)

lemma threadOk_invocationIn:
  assumes "threadOk E key th l" "\<And>s i. phaseOk (thPhase th) l s i \<Longrightarrow> biState i \<in> states"
  shows "invocationIn states key (promptKey E (thContext th)) (bcInvocationSequence (thContext th)) l"
  using assms by (auto simp: invocationIn_def elim!: threadOkE)

lemma threadOk_sessionIn:
  assumes "threadOk E key th l" "\<And>s i. phaseOk (thPhase th) l s i \<Longrightarrow> bsCreateState s \<in> states"
  shows "sessionIn states key l"
  using assms by (auto simp: sessionIn_def elim!: threadOkE)

lemma threadOk_last:
  assumes "threadOk E key th l"
  shows "lastInvocation key (promptKey E (thContext th)) (bcInvocationSequence (thContext th)) l"
  using assms by (auto simp: lastInvocation_def elim!: threadOkE)

lemma threadOk_putSession:
  assumes "key = ownerKey E (bcOwner (thContext th))"
    "fmlookup (bsPrompts s) (promptKey E (thContext th)) = Some p"
    "fmlookup (bpInvocations p) (bcInvocationSequence (thContext th)) = Some i" "\<not> bpSettled p"
    "bpLastSequence p = bcInvocationSequence (thContext th)" "\<not> bsRetired s" "phaseOk ph (putSession key s l) s i"
  shows "threadOk E key (th\<lparr>thPhase := ph\<rparr>) (putSession key s l)"
  using assms unfolding threadOk_def by auto

section \<open>Commits of one request\<close>

context history_change
begin

lemma own_commit:
  assumes env: "envOk E digest owners decode" and S: "sysInv E digest owners S"
    and th: "fmlookup (syThreads S) key = Some th" and p: "pre (bkLedger (syBroker S))"
    and nxt: "\<And>nxt. change (bkLedger (syBroker S)) = Inr nxt \<Longrightarrow>
      untouched key (bkLedger (syBroker S)) nxt \<and> threadOk E key (th\<lparr>thPhase := ph\<rparr>) nxt"
    and c: "commitCapacityLocked E io ordinary change (syBroker S) = (r, b)"
    and ph': "r = None \<Longrightarrow> ph' = ph" "r \<noteq> None \<Longrightarrow> \<exists>e. ph' = PDone (Some e)"
  shows "keepsInv E digest owners S (setPhase key th ph' b S)"
proof -
  note stored = sysInv_parts(1) [OF S] and tok = sysInv_thread [OF S th]
  have adds: "addsOnly owners (bkLedger (syBroker S)) n" if "change (bkLedger (syBroker S)) = Inr n" for n
    using nxt [OF that] threadOk_session [OF tok] by (auto intro: addsOnly_untouched)
  note b = commit_stored [OF env stored p adds c] and frame = commit_frame [OF c]
  have "sysInv E digest owners (setPhase key th ph' b S)"
  proof (cases r)
    case None
    with frame(3) have "change (bkLedger (syBroker S)) = Inr (bkLedger b)" by simp
    from nxt [OF this] None ph'(1) show ?thesis
      by (intro sysInv_own [OF S th b(1) frame(1,2)]) simp_all
  next
    case (Some e)
    with frame(3) have same: "bkLedger b = bkLedger (syBroker S)" by simp
    from Some ph'(2) obtain e' where "ph' = PDone (Some e')" by auto
    with tok same show ?thesis
      by (intro sysInv_own [OF S th b(1) frame(1,2)]) (simp_all add: threadOk_done)
  qed
  with b(2) show ?thesis by (simp add: keepsInv_def setPhase_def)
qed

lemma calm_commit:
  assumes env: "envOk E digest owners decode" and S: "sysInv E digest owners S" and p: "pre (bkLedger (syBroker S))"
    and nxt: "\<And>nxt. change (bkLedger (syBroker S)) = Inr nxt \<Longrightarrow>
      calm (bkLedger (syBroker S)) nxt \<and> addsOnly owners (bkLedger (syBroker S)) nxt"
    and c: "commitCapacityLocked E io ordinary change (syBroker S) = (r, b)"
  shows "keepsInv E digest owners S (S\<lparr>syBroker := b\<rparr>)"
proof -
  note b = commit_stored [OF env sysInv_parts(1) [OF S] p conjunct2 [OF nxt] c] and frame = commit_frame [OF c]
  have "calm (bkLedger (syBroker S)) (bkLedger b)" using frame(3) nxt by auto
  with sysInv_calm [OF S b(1) frame(1,2)] b(2) show ?thesis by (simp add: keepsInv_def)
qed

end

section \<open>The steps\<close>

lemma keepsInv_activeSame:
  assumes k: "keepsInv E digest owners S (S'\<lparr>syBroker := b\<rparr>)" and "activeSame b b'" "bkWorkers b' = bkWorkers b"
    "bkLedger b' = bkLedger b" "bkDisk b' = bkDisk b" "bkStorageError b' = bkStorageError b"
  shows "keepsInv E digest owners S (S'\<lparr>syBroker := b'\<rparr>)"
proof -
  have st: "stored E digest owners b' = stored E digest owners b" using assms(4-6) by (simp add: stored_def durable_def)
  have "sysInv E digest owners (S'\<lparr>syBroker := b\<rparr>)" using k by (simp add: keepsInv_def)
  then have "sysInv E digest owners ((S'\<lparr>syBroker := b\<rparr>)\<lparr>syBroker := b'\<rparr>)"
    by (rule sysInv_calm) (use assms st in \<open>auto simp: sysInv_def keepsInv_def\<close>)
  with k assms(4) show ?thesis by (simp add: keepsInv_def)
qed

lemma activeSame_cancelActive [simp]: "activeSame b (cancelActive key b)"
  by (simp add: activeSame_def cancelActive_def option.map_comp comp_def)

lemma cancelActive_fields [simp]:
  "bkLedger (cancelActive key b) = bkLedger b" "bkDisk (cancelActive key b) = bkDisk b"
  "bkStorageError (cancelActive key b) = bkStorageError b" "bkWorkers (cancelActive key b) = bkWorkers b"
  by (simp_all add: cancelActive_def)

lemma addsOnly_ensure:
  assumes "brokerEnsureSession E l c = Inr (s, l1)" "bcOwner c \<in> owners"
    and "map_option bsOwner (fmlookup (blSessions l') (ownerKey E (bcOwner c))) = Some (bsOwner s)"
    and "untouched (ownerKey E (bcOwner c)) l1 l'"
  shows "addsOnly owners l l'"
  unfolding addsOnly_def
proof (intro allI impI)
  fix k t
  assume t: "fmlookup (blSessions l') k = Some t" and new: "fmlookup (blSessions l) k = None"
  have l1: "untouched (ownerKey E (bcOwner c)) l l1"
    using assms(1) by (auto simp: brokerEnsureSession_def Let_def split: option.splits if_splits)
  show "bsOwner t \<in> owners"
  proof (cases "k = ownerKey E (bcOwner c)")
    case True
    with assms(1) new have "bsOwner s = bcOwner c"
      by (auto simp: brokerEnsureSession_def Let_def split: if_splits)
    with True assms(2,3) t show ?thesis by simp
  next
    case False
    with l1 assms(4) t new show ?thesis by (simp add: untouched_def)
  qed
qed

lemma ensurePrompt_owner: "brokerEnsurePrompt E s c = Inr (p, s1) \<Longrightarrow> bsOwner s1 = bsOwner s"
  by (auto simp: brokerEnsurePrompt_def Let_def split: option.splits if_splits)

lemma recordOperation_owner: "brokerRecordOperation E s path c = Inr (d, s1) \<Longrightarrow> bsOwner s1 = bsOwner s"
  by (auto simp: brokerRecordOperation_def Let_def split: option.splits if_splits)

lemma addsOnly_control:
  assumes "controlChange E now path c l = Inr l'" "bcOwner c \<in> owners"
  shows "addsOnly owners l l'"
  using assms(1)
proof (cases rule: controlChange_cases)
  case (retire s l1 d s1)
  show ?thesis
    by (rule addsOnly_ensure [OF retire(1) assms(2)])
      (auto simp: retire(4) recordOperation_owner [OF retire(2)])
next
  case (prompt s l1 d s1 p s2 p')
  show ?thesis
    by (rule addsOnly_ensure [OF prompt(1) assms(2)])
      (auto simp: prompt(5) recordOperation_owner [OF prompt(2)] ensurePrompt_owner [OF prompt(4)])
qed

lemma step_control:
  assumes env: "envOk E digest owners decode" and S: "sysInv E digest owners S"
    and c: "admissible E digest owners path c" "path \<in> {RenewPath, SettlePath, RetirePath}"
    and r: "control E io now path c (syBroker S) = (r, b)"
  shows "keepsInv E digest owners S (S\<lparr>syBroker := b\<rparr>)"
proof -
  let ?change = "controlChange E now path c"
  from r obtain ordinary r0 b0 where b0: "commitCapacityLocked E io ordinary ?change (syBroker S) = (r0, b0)"
    and b: "b = b0 \<or> b = cancelActive (ownerKey E (bcOwner c)) b0"
    by (auto simp: control_def Let_def split: prod.splits option.splits if_splits)
  have "controlPre E digest path c (bkLedger (syBroker S))"
    using admissible_request [OF env S c(1)] c(2) by (simp add: controlPre_def)
  moreover have "bcOwner c \<in> owners" using c(1) by (simp add: admissible_def)
  ultimately have "keepsInv E digest owners S (S\<lparr>syBroker := b0\<rparr>)"
    by (intro control.calm_commit [OF env S _ _ b0]) (auto intro: calm_controlChange addsOnly_control)
  with b keepsInv_activeSame [where S' = S and b = b0 and b' = b] show ?thesis by auto
qed

lemma reserve_thread:
  assumes "reserveChange E B now proof c request l = Inr (l', request')"
  shows "threadOk E (ownerKey E (bcOwner c)) \<lparr>thContext = c, thPhase = PStart\<rparr> l'"
    "bcOwner c \<in> owners \<Longrightarrow> addsOnly owners l l'"
proof -
  have "threadOk E (ownerKey E (bcOwner c)) \<lparr>thContext = c, thPhase = PStart\<rparr> l' \<and>
      (bcOwner c \<in> owners \<longrightarrow> addsOnly owners l l')"
    using assms
  proof (cases rule: reserveChange_cases)
    case (1 s l1 s1 p s2)
    have "bsRetired s2 = bsRetired s"
      using calmSession_record [OF 1(4)] calmSession_ensurePrompt [OF 1(5)] by (simp add: calmSession_def)
    then have "threadOk E (ownerKey E (bcOwner c)) \<lparr>thContext = c, thPhase = PStart\<rparr> l'"
      using 1(3,7) by (simp add: 1(11) threadOk_def phaseOk_def reservePrompt_def reservedInvocation_def)
    moreover have "addsOnly owners l l'" if "bcOwner c \<in> owners"
      by (rule addsOnly_ensure [OF 1(1) that])
        (auto simp: 1(11) recordOperation_owner [OF 1(4)] ensurePrompt_owner [OF 1(5)])
    ultimately show ?thesis by simp
  qed
  then show "threadOk E (ownerKey E (bcOwner c)) \<lparr>thContext = c, thPhase = PStart\<rparr> l'"
    "bcOwner c \<in> owners \<Longrightarrow> addsOnly owners l l'" by simp_all
qed

lemma reserveInvocation_cases:
  assumes "reserveInvocation E B io now c request b = (res, b')"
  obtains (early) e where "res = Inl e" "b' = b"
  | (refused) e where "res = Inl e" "commitCapacityLocked E io True
      (\<lambda>l. dropRequest (reserveChange E B now (cfAgentKitProof (bkCfg b)) c request l)) b = (Some e, b')"
  | (reserved) request' b0 where "res = Inr request'" "commitCapacityLocked E io True
      (\<lambda>l. dropRequest (reserveChange E B now (cfAgentKitProof (bkCfg b)) c request l)) b = (None, b0)"
      "reserveChange E B now (cfAgentKitProof (bkCfg b)) c request (bkLedger b) = Inr (bkLedger b0, request')"
      "fmlookup (bkActive b) (ownerKey E (bcOwner c)) = None" "\<not> bkCancelled b" "\<not> bkStorageError b"
      "b' = b0\<lparr>bkActive := fmupd (ownerKey E (bcOwner c)) \<lparr>baPrompt = promptKey E c, baCancelled = False\<rparr> (bkActive b0)\<rparr>"
proof -
  let ?change = "reserveChange E B now (cfAgentKitProof (bkCfg b)) c request"
  obtain r b0 where c: "commitCapacityLocked E io True (\<lambda>l. dropRequest (?change l)) b = (r, b0)" by fastforce
  show thesis
  proof (cases "bkStorageError b \<or> bkCancelled b \<or> fmlookup (bkActive b) (ownerKey E (bcOwner c)) \<noteq> None")
    case True
    with assms early show thesis by (auto simp: reserveInvocation_def Let_def split: if_splits)
  next
    case free: False
    show thesis
    proof (cases r)
      case (Some e)
      with assms c free refused [of e] show thesis by (auto simp: reserveInvocation_def Let_def)
    next
      case None
      with commit_frame(3) [OF c] have "dropRequest (?change (bkLedger b)) = Inr (bkLedger b0)" by simp
      then obtain request' where "?change (bkLedger b) = Inr (bkLedger b0, request')"
        by (auto simp: dropRequest_def split: sum.splits)
      with assms c free None reserved [of request' b0] show thesis
        by (auto simp: reserveInvocation_def Let_def)
    qed
  qed
qed

lemma step_reserved:
  assumes env: "envOk E digest owners decode" and S: "sysInv E digest owners S"
    and c: "admissible E digest owners ResponsesPath c"
    and r: "reserveInvocation E B io now c request (syBroker S) = (Inr request', b)"
  shows "keepsInv E digest owners S (S\<lparr>syBroker := b, syThreads := fmupd (ownerKey E (bcOwner c))
      \<lparr>thContext = c, thPhase = PStart\<rparr> (syThreads S)\<rparr>)"
  using r
proof (cases rule: reserveInvocation_cases)
  case (reserved rq b0)
  let ?key = "ownerKey E (bcOwner c)" let ?th = "\<lparr>thContext = c, thPhase = PStart\<rparr>"
  let ?l = "bkLedger (syBroker S)"
  have pre: "requestOk E digest ResponsesPath c ?l" by (rule admissible_request [OF env S c])
  have own: "bcOwner c \<in> owners" using c by (simp add: admissible_def)
  have adds: "addsOnly owners ?l n" if "dropRequest (reserveChange E B now (cfAgentKitProof (bkCfg (syBroker S))) c request ?l) = Inr n" for n
    using that reserve_thread(2) [OF _ own] by (auto simp: dropRequest_def split: sum.splits)
  note b0 = reserve.commit_stored [OF env sysInv_parts(1) [OF S] pre adds reserved(2)]
  note frame = commit_frame [OF reserved(2)]
  have u: "untouched ?key ?l (bkLedger b0)" by (rule untouched_reserve [OF reserved(3)])
  have tok: "threadOk E ?key ?th (bkLedger b0)" by (rule reserve_thread(1) [OF reserved(3)])
  have st: "stored E digest owners b" using b0(1) reserved(7) by (simp add: stored_def durable_def)
  have "activeOk E b (fmupd ?key ?th (syThreads S))"
    using S frame(1) by (simp add: reserved(7) activeOk_def activeSame_def sysInv_def)
  moreover have "threadOk E k t (bkLedger b)" if "fmlookup (fmupd ?key ?th (syThreads S)) k = Some t" for k t
    using that tok threadOk_untouched [OF sysInv_thread [OF S] u] by (auto simp: reserved(7) split: if_splits)
  moreover have "workerOk k w (bkLedger b) \<and> ((\<exists>cp. w = WCaptured cp) \<longrightarrow>
      fmlookup (fmupd ?key ?th (syThreads S)) k = None)" if w: "fmlookup (syWorkers S) k = Some w" for k w
  proof (cases "k = ?key")
    case True
    have "w \<noteq> WCaptured cp" for cp
    proof
      assume cp: "w = WCaptured cp"
      from S w have "workerOk k w ?l" by (simp add: sysInv_def fmpred_iff)
      with cp True obtain s where "fmlookup (blSessions ?l) ?key = Some s" "draining s" by (auto simp: workerOk_def)
      with reserve_not_draining [OF sysInv_parts(3) [OF S]] reserved(3) show False by blast
    qed
    then have "\<not> (\<exists>cp. w = WCaptured cp)" by blast
    then show ?thesis by (cases w) (simp_all add: workerOk_def)
  next
    case False
    with S w workerOk_untouched [OF _ u False] show ?thesis by (auto simp: reserved(7) sysInv_def fmpred_iff)
  qed
  ultimately show ?thesis using S st frame(2) b0(2)
    by (simp add: keepsInv_def sysInv_def fmpred_iff) (simp add: reserved(7))
qed simp_all

lemma step_refused:
  assumes env: "envOk E digest owners decode" and S: "sysInv E digest owners S"
    and c: "admissible E digest owners ResponsesPath c"
    and r: "reserveInvocation E B io now c request (syBroker S) = (Inl e, b)"
  shows "keepsInv E digest owners S (S\<lparr>syBroker := b\<rparr>)"
  using r
proof (cases rule: reserveInvocation_cases)
  case (early e')
  with S show ?thesis by (simp add: keepsInv_def)
next
  case (refused e')
  let ?l = "bkLedger (syBroker S)"
  have pre: "requestOk E digest ResponsesPath c ?l" by (rule admissible_request [OF env S c])
  have own: "bcOwner c \<in> owners" using c by (simp add: admissible_def)
  have adds: "addsOnly owners ?l n" if "dropRequest (reserveChange E B now (cfAgentKitProof (bkCfg (syBroker S))) c request ?l) = Inr n" for n
    using that reserve_thread(2) [OF _ own] by (auto simp: dropRequest_def split: sum.splits)
  note b = reserve.commit_stored [OF env sysInv_parts(1) [OF S] pre adds refused(2)]
  note frame = commit_frame [OF refused(2)]
  from frame(3) have "bkLedger b = ?l" by simp
  with sysInv_calm [OF S b(1) frame(1,2)] show ?thesis by (simp add: keepsInv_def)
qed simp_all

lemma step_phase:
  assumes S: "sysInv E digest owners S" and th: "fmlookup (syThreads S) key = Some th"
    and ph: "threadOk E key (th\<lparr>thPhase := ph\<rparr>) (bkLedger (syBroker S))"
  shows "keepsInv E digest owners S (setPhase key th ph (syBroker S) S)"
  using sysInv_own [OF S th sysInv_parts(1) [OF S] _ _ _ ph] by (simp add: keepsInv_def setPhase_def)

lemma pinDigest_cases:
  assumes "pinDigest E io d b = (r, b')"
  obtains "b' = b" "r = None \<Longrightarrow> blPrincipalDigest (bkLedger b) = d"
  | "commitLocked E io (principalChange d) b = (r, b')" "blPrincipalDigest (bkLedger b) = []"
  using assms by (auto simp: pinDigest_def split: if_splits)

lemma step_pin:
  assumes env: "envOk E digest owners decode" and S: "sysInv E digest owners S"
    and r: "pinDigest E io (principalDigest E cl) (syBroker S) = (r, b)"
  shows "keepsInv E digest owners S (S\<lparr>syBroker := b\<rparr>)"
    "r = None \<Longrightarrow> blPrincipalDigest (bkLedger b) \<noteq> []"
proof -
  have d: "DigestValid (principalDigest E cl)"
    using env by (simp add: principalDigest_def DigestValid_Digest envOk_def shaOk_def)
  then have ne: "principalDigest E cl \<noteq> []" by (rule DigestValid_nonempty)
  have "keepsInv E digest owners S (S\<lparr>syBroker := b\<rparr>) \<and> (r = None \<longrightarrow> blPrincipalDigest (bkLedger b) \<noteq> [])"
    using r
  proof (cases rule: pinDigest_cases)
    case 1
    with S ne show ?thesis by (auto simp: keepsInv_def)
  next
    case 2
    then have c: "commitCapacityLocked E io False (principalChange (principalDigest E cl)) (syBroker S) = (r, b)"
      by (simp add: commitLocked_def)
    have "keepsInv E digest owners S (S\<lparr>syBroker := b\<rparr>)"
      by (rule principal.calm_commit [OF env S _ _ c])
        (use 2 d ne in \<open>auto simp: principalChange_def addsOnly_def calm_principal\<close>)
    moreover have "blPrincipalDigest (bkLedger b) \<noteq> []" if "r = None"
    proof -
      have "bkLedger b = bkLedger (syBroker S)\<lparr>blPrincipalDigest := principalDigest E cl\<rparr>"
        using commit_frame(3) [OF c] that by (simp add: principalChange_def)
      with ne show ?thesis by simp
    qed
    ultimately show ?thesis by simp
  qed
  then show "keepsInv E digest owners S (S\<lparr>syBroker := b\<rparr>)" "r = None \<Longrightarrow> blPrincipalDigest (bkLedger b) \<noteq> []" by simp_all
qed

lemma keepsInv_trans:
  "keepsInv E digest owners S S' \<Longrightarrow> keepsInv E digest owners S' S'' \<Longrightarrow> keepsInv E digest owners S S''"
  by (auto simp: keepsInv_def intro: ledgerEvolves_trans)

lemma step_pinned:
  assumes env: "envOk E digest owners decode" and S: "sysInv E digest owners S"
    and th: "fmlookup (syThreads S) key = Some th" "thPhase th = PNone"
    and r: "pinDigest E io (principalDigest E cl) (syBroker S) = (None, b)"
  shows "keepsInv E digest owners S (setPhase key th PPinned b S)"
proof -
  let ?S = "S\<lparr>syBroker := b\<rparr>"
  note k = step_pin [OF env S r]
  have S': "sysInv E digest owners ?S" and th': "fmlookup (syThreads ?S) key = Some th"
    using k(1) th(1) by (simp_all add: keepsInv_def)
  from sysInv_thread [OF S' th'] have "threadOk E key (th\<lparr>thPhase := PPinned\<rparr>) (bkLedger b)"
    by (rule threadOkE) (use k(2) th(2) in \<open>auto simp: threadOk_def phaseOk_def\<close>)
  with step_phase [OF S' th', of PPinned] have "keepsInv E digest owners ?S (setPhase key th PPinned b S)"
    by (simp add: setPhase_def)
  with k(1) show ?thesis by (rule keepsInv_trans)
qed

text \<open>The commits between creation and answer.\<close>

lemma step_createIntent:
  assumes env: "envOk E digest owners decode" and S: "sysInv E digest owners S"
    and th: "fmlookup (syThreads S) key = Some th" "thPhase th = PPinned" and rid: "uuidCanonical E rid"
    and c: "commitLocked E io (createIntentChange now stopped key (promptKey E (thContext th)) rid) (syBroker S) = (r, b)"
  shows "keepsInv E digest owners S (setPhase key th (afterCommit r PCreating) b S)"
proof -
  let ?l = "bkLedger (syBroker S)"
  have tok: "threadOk E key th ?l" by (rule sysInv_thread [OF S th(1)])
  have principal: "blPrincipalDigest ?l \<noteq> []" using tok th(2) by (auto elim!: threadOkE simp: phaseOk_def)
  have pre: "createIntentPre E key rid ?l" unfolding createIntentPre_def
    using threadOk_sessionIn [OF tok, of "{CreateNone}"] th(2) rid principal by (simp add: phaseOk_def)
  have nxt: "untouched key ?l n \<and> threadOk E key (th\<lparr>thPhase := PCreating\<rparr>) n"
    if n: "createIntentChange now stopped key (promptKey E (thContext th)) rid ?l = Inr n" for n
  proof
    show "untouched key ?l n" using n unfolding createIntentChange_def by (rule untouched_onSession)
    from tok show "threadOk E key (th\<lparr>thPhase := PCreating\<rparr>) n"
    proof (rule threadOkE)
      fix s p i
      assume t: "fmlookup (blSessions ?l) key = Some s" "fmlookup (bsPrompts s) (promptKey E (thContext th)) = Some p"
        "fmlookup (bpInvocations p) (bcInvocationSequence (thContext th)) = Some i" "\<not> bpSettled p"
        "bpLastSequence p = bcInvocationSequence (thContext th)" "\<not> bsRetired s" "phaseOk (thPhase th) ?l s i"
        "key = ownerKey E (bcOwner (thContext th))"
      with n have "n = putSession key (s\<lparr>bsRemoteID := rid, bsCreateState := CreateIntent\<rparr>) ?l"
        by (auto simp: createIntentChange_def onSession_def split: if_splits)
      moreover have "threadOk E key (th\<lparr>thPhase := PCreating\<rparr>) (putSession key (s\<lparr>bsRemoteID := rid, bsCreateState := CreateIntent\<rparr>) ?l)"
        by (rule threadOk_putSession [where p = p and i = i]) (use t th(2) in \<open>simp_all add: phaseOk_def\<close>)
      ultimately show ?thesis by simp
    qed
  qed
  show ?thesis
    by (rule createIntent.own_commit [OF env S th(1) pre nxt c [unfolded commitLocked_def]])
      (auto simp: afterCommit_def)
qed

lemma step_createResult:
  assumes env: "envOk E digest owners decode" and S: "sysInv E digest owners S"
    and th: "fmlookup (syThreads S) key = Some th" "thPhase th = PCreating"
    and c: "commitLocked E io (createResultChange created key) (syBroker S) = (r, b)"
  shows "keepsInv E digest owners S (setPhase key th (afterCommit r (if created then PReady else PDone (Some e))) b S)"
proof -
  let ?l = "bkLedger (syBroker S)" let ?ph = "if created then PReady else PDone (Some e)"
  have tok: "threadOk E key th ?l" by (rule sysInv_thread [OF S th(1)])
  have pre: "sessionIn {CreateIntent} key ?l"
    using threadOk_sessionIn [OF tok, of "{CreateIntent}"] th(2) by (simp add: phaseOk_def)
  have nxt: "untouched key ?l n \<and> threadOk E key (th\<lparr>thPhase := ?ph\<rparr>) n"
    if n: "createResultChange created key ?l = Inr n" for n
  proof
    show "untouched key ?l n" using n unfolding createResultChange_def by (rule untouched_onSession)
    from tok show "threadOk E key (th\<lparr>thPhase := ?ph\<rparr>) n"
    proof (rule threadOkE)
      fix s p i
      assume t: "fmlookup (blSessions ?l) key = Some s" "fmlookup (bsPrompts s) (promptKey E (thContext th)) = Some p"
        "fmlookup (bpInvocations p) (bcInvocationSequence (thContext th)) = Some i" "\<not> bpSettled p"
        "bpLastSequence p = bcInvocationSequence (thContext th)" "\<not> bsRetired s" "phaseOk (thPhase th) ?l s i"
        "key = ownerKey E (bcOwner (thContext th))"
      let ?s = "if created then s\<lparr>bsCreateState := CreateKnown\<rparr> else s\<lparr>bsRemoteID := [], bsCreateState := CreateNone\<rparr>"
      from t n have "n = putSession key ?s ?l" by (simp add: createResultChange_def onSession_def bindR_def)
      moreover have "threadOk E key (th\<lparr>thPhase := ?ph\<rparr>) (putSession key ?s ?l)"
        by (rule threadOk_putSession [where p = p and i = i]) (use t th(2) in \<open>simp_all add: phaseOk_def\<close>)
      ultimately show ?thesis by simp
    qed
  qed
  show ?thesis
    by (rule createResult.own_commit [OF env S th(1) pre nxt c [unfolded commitLocked_def]])
      (auto simp: afterCommit_def)
qed

text \<open>Changes that replace the request's own invocation.\<close>

lemma threadOk_onPrompt:
  assumes tok: "threadOk E key th l"
    and n: "onPrompt key (promptKey E (thContext th)) f l = Inr n"
    and f: "\<And>s p i p'. f s p = Inr p' \<Longrightarrow> fmlookup (bpInvocations p) (bcInvocationSequence (thContext th)) = Some i \<Longrightarrow>
      phaseOk (thPhase th) l s i \<Longrightarrow> bpSettled p' = bpSettled p \<and> bpLastSequence p' = bpLastSequence p \<and>
      (\<exists>i'. fmlookup (bpInvocations p') (bcInvocationSequence (thContext th)) = Some i' \<and> (\<forall>l'. phaseOk ph l' s i'))"
  shows "threadOk E key (th\<lparr>thPhase := ph\<rparr>) n"
  using tok
proof (rule threadOkE)
  let ?pk = "promptKey E (thContext th)"
  fix s p i
  assume t: "fmlookup (blSessions l) key = Some s" "fmlookup (bsPrompts s) ?pk = Some p"
    "fmlookup (bpInvocations p) (bcInvocationSequence (thContext th)) = Some i" "\<not> bpSettled p"
    "bpLastSequence p = bcInvocationSequence (thContext th)" "\<not> bsRetired s" "phaseOk (thPhase th) l s i"
    "key = ownerKey E (bcOwner (thContext th))"
  from n t(1,2) obtain p' where p': "f s p = Inr p'" "n = putSession key (putPrompt ?pk p' s) l"
    by (auto simp: onPrompt_def onSession_def bindR_Inr)
  from f [OF p'(1) t(3,7)] obtain i' where i': "bpSettled p' = bpSettled p" "bpLastSequence p' = bpLastSequence p"
    "fmlookup (bpInvocations p') (bcInvocationSequence (thContext th)) = Some i'" "\<And>l'. phaseOk ph l' s i'" by blast
  have "phaseOk ph (putSession key (putPrompt ?pk p' s) l) (putPrompt ?pk p' s) i'"
    using i'(4) [of "putSession key (putPrompt ?pk p' s) l"] by (simp add: phaseOk_def cong: phase.case_cong)
  then show ?thesis unfolding p'(2)
    by (intro threadOk_putSession [where p = p' and i = i']) (use t i' in simp_all)
qed

lemma onInvocation_put:
  assumes "onInvocation seq (\<lambda>iv. Inr (putInvocation seq (g iv) p)) p = Inr p'" "fmlookup (bpInvocations p) seq = Some i"
  shows "p' = putInvocation seq (g i) p"
  using assms by (simp add: onInvocation_def)

lemma putInvocation_fields [simp]:
  "bpSettled (putInvocation seq i p) = bpSettled p" "bpLastSequence (putInvocation seq i p) = bpLastSequence p"
  "bpClosing (putInvocation seq i p) = bpClosing p"
  "bpInvocations (putInvocation seq i p) = fmupd seq i (bpInvocations p)"
  by (simp_all add: putInvocation_def)

lemma step_inferenceIntent:
  assumes env: "envOk E digest owners decode" and S: "sysInv E digest owners S"
    and th: "fmlookup (syThreads S) key = Some th" "thPhase th = PReady"
    and c: "commitLocked E io (inferenceIntentChange now stopped key (promptKey E (thContext th))
      (bcInvocationSequence (thContext th))) (syBroker S) = (r, b)"
  shows "keepsInv E digest owners S (setPhase key th (afterCommit r PSent) b S)"
proof -
  let ?l = "bkLedger (syBroker S)"
  have tok: "threadOk E key th ?l" by (rule sysInv_thread [OF S th(1)])
  have pre: "invocationIn {InvReserved} key (promptKey E (thContext th)) (bcInvocationSequence (thContext th)) ?l"
    by (rule threadOk_invocationIn [OF tok]) (simp add: th(2) phaseOk_def)
  have nxt: "untouched key ?l n \<and> threadOk E key (th\<lparr>thPhase := PSent\<rparr>) n"
    if n: "inferenceIntentChange now stopped key (promptKey E (thContext th)) (bcInvocationSequence (thContext th)) ?l = Inr n" for n
  proof
    show "untouched key ?l n" using n unfolding inferenceIntentChange_def by (rule untouched_onPrompt)
    show "threadOk E key (th\<lparr>thPhase := PSent\<rparr>) n"
      by (rule threadOk_onPrompt [OF tok n [unfolded inferenceIntentChange_def]])
        (auto dest!: onInvocation_put split: if_splits simp: phaseOk_def th(2))
  qed
  show ?thesis
    by (rule inferenceIntent.own_commit [OF env S th(1) pre nxt c [unfolded commitLocked_def]])
      (auto simp: afterCommit_def)
qed

lemma step_rejected:
  assumes env: "envOk E digest owners decode" and S: "sysInv E digest owners S"
    and th: "fmlookup (syThreads S) key = Some th" "thPhase th = PSent"
    and c: "commitLocked E io (rejectChange key (promptKey E (thContext th)) (bcInvocationSequence (thContext th)))
      (syBroker S) = (r, b)"
  shows "keepsInv E digest owners S (setPhase key th (afterCommit r (PDone (Some ErrRemote))) b S)"
proof -
  let ?l = "bkLedger (syBroker S)"
  have tok: "threadOk E key th ?l" by (rule sysInv_thread [OF S th(1)])
  have pre: "invocationIn {InvIntent} key (promptKey E (thContext th)) (bcInvocationSequence (thContext th)) ?l"
    by (rule threadOk_invocationIn [OF tok]) (simp add: th(2) phaseOk_def)
  have nxt: "untouched key ?l n \<and> threadOk E key (th\<lparr>thPhase := PDone (Some ErrRemote)\<rparr>) n"
    if n: "rejectChange key (promptKey E (thContext th)) (bcInvocationSequence (thContext th)) ?l = Inr n" for n
  proof
    show "untouched key ?l n" using n unfolding rejectChange_def by (rule untouched_onPrompt)
    show "threadOk E key (th\<lparr>thPhase := PDone (Some ErrRemote)\<rparr>) n"
      by (rule threadOk_onPrompt [OF tok n [unfolded rejectChange_def]])
        (auto dest!: onInvocation_put simp: phaseOk_def)
  qed
  show ?thesis
    by (rule reject.own_commit [OF env S th(1) pre nxt c [unfolded commitLocked_def]])
      (auto simp: afterCommit_def)
qed

section \<open>Answers\<close>

lemma acceptedSession_fields [simp]:
  "bsRetired (acceptedSession pk seq rid al i p s) = bsRetired s"
  "bsCreateState (acceptedSession pk seq rid al i p s) = bsCreateState s"
  "bsPrompts (acceptedSession pk seq rid al i p s) = fmupd pk (putInvocation seq (i\<lparr>biResponseID := rid,
     biResponseAlias := al, biState := InvAccepted\<rparr>) p) (bsPrompts s)"
  by (simp_all add: acceptedSession_def)

lemma completedSession_fields [simp]:
  "bsRetired (completedSession pk seq link ids i p s) = bsRetired s"
  "bsCreateState (completedSession pk seq link ids i p s) = bsCreateState s"
  "bsPrompts (completedSession pk seq link ids i p s) = fmupd pk ((putInvocation seq (i\<lparr>biState := InvCompleted\<rparr>) p)
     \<lparr>bpLastAlias := biResponseAlias i\<rparr>) (bsPrompts s)"
  by (simp_all add: completedSession_def)

lemma recordIdentity_cases:
  assumes "recordIdentity E io al c rid b = (r, b')"
  obtains "b' = b"
  | i where "invocationAt (bkLedger b) (ownerKey E (bcOwner c)) (promptKey E c) (bcInvocationSequence c) = Some i"
      "biResponseID i = []"
      "commitLocked E io (identityChange (ownerKey E (bcOwner c)) (promptKey E c) (bcInvocationSequence c) rid al) b = (r, b')"
  using assms by (auto simp: recordIdentity_def Let_def split: if_splits option.splits)

lemma step_identity:
  assumes env: "envOk E digest owners decode" and S: "sysInv E digest owners S"
    and th: "fmlookup (syThreads S) key = Some th" "thPhase th = PReading"
    and rid: "ValidateIdentifier rid" "rid \<noteq> []" and al: "brokerAliasValid E al ''fr_''"
      "responseFree key al (bkLedger (syBroker S))"
    and r: "recordIdentity E io al (thContext th) rid (syBroker S) = (r, b)"
  shows "keepsInv E digest owners S (setPhase key th (if r = None then PReading else PDone (Some ErrAmbiguous)) b S)"
proof -
  let ?l = "bkLedger (syBroker S)" let ?c = "thContext th"
  have tok: "threadOk E key th ?l" by (rule sysInv_thread [OF S th(1)])
  note key = threadOk_key [OF tok]
  from r show ?thesis
  proof (cases rule: recordIdentity_cases)
    case 1
    have "th\<lparr>thPhase := PReading\<rparr> = th" using th(2) by simp
    with tok threadOk_done [OF tok, of ErrAmbiguous]
    have "threadOk E key (th\<lparr>thPhase := (if r = None then PReading else PDone (Some ErrAmbiguous))\<rparr>) ?l"
      by (simp split: if_splits)
    from step_phase [OF S th(1) this] 1 show ?thesis by simp
  next
    case (2 iv)
    note c = 2(3) [unfolded key]
    have pre: "identityPre E key (promptKey E ?c) (bcInvocationSequence ?c) rid al ?l"
      unfolding identityPre_def
    proof (intro conjI rid al)
      show "invocationIn {InvIntent} key (promptKey E ?c) (bcInvocationSequence ?c) ?l"
      proof -
        from tok show ?thesis
        proof (rule threadOkE)
          fix s p i
          assume t: "fmlookup (blSessions ?l) key = Some s" "fmlookup (bsPrompts s) (promptKey E ?c) = Some p"
            "fmlookup (bpInvocations p) (bcInvocationSequence ?c) = Some i" "\<not> bpSettled p"
            "phaseOk (thPhase th) ?l s i"
          with 2(1) key have "iv = i" by (simp add: invocationAt_def)
          with 2(2) sessionOk_invocation [OF ledgerOk_session [OF sysInv_parts(3) [OF S] t(1)] t(2,3)]
          have "biState i \<noteq> InvAccepted" by (auto simp: invocationOk_iff invocationStateOk_def)
          with t th(2) show ?thesis by (simp add: invocationIn_def phaseOk_def)
        qed
      qed
      show "sessionIn createdStates key ?l"
        by (rule threadOk_sessionIn [OF tok]) (simp add: th(2) phaseOk_def createdStates_def)
    qed
    have nxt: "untouched key ?l n \<and> threadOk E key (th\<lparr>thPhase := PReading\<rparr>) n"
      if n: "identityChange key (promptKey E ?c) (bcInvocationSequence ?c) rid al ?l = Inr n" for n
    proof
      show "untouched key ?l n" using n unfolding identityChange_def by (rule untouched_onSession)
      from tok show "threadOk E key (th\<lparr>thPhase := PReading\<rparr>) n"
      proof (rule threadOkE)
        fix s p i
        assume t: "fmlookup (blSessions ?l) key = Some s" "fmlookup (bsPrompts s) (promptKey E ?c) = Some p"
          "fmlookup (bpInvocations p) (bcInvocationSequence ?c) = Some i" "\<not> bpSettled p"
          "bpLastSequence p = bcInvocationSequence ?c" "\<not> bsRetired s" "phaseOk (thPhase th) ?l s i"
          "key = ownerKey E (bcOwner ?c)"
        let ?s = "acceptedSession (promptKey E ?c) (bcInvocationSequence ?c) rid al i p s"
        from n t have "n = putSession key ?s ?l"
          by (auto simp: identityChange_def onSession_def bindR_Inr acceptedSession_def split: if_splits)
        moreover have "threadOk E key (th\<lparr>thPhase := PReading\<rparr>) (putSession key ?s ?l)"
          by (rule threadOk_putSession [where i = "i\<lparr>biResponseID := rid, biResponseAlias := al, biState := InvAccepted\<rparr>"
              and p = "putInvocation (bcInvocationSequence ?c) (i\<lparr>biResponseID := rid, biResponseAlias := al,
                biState := InvAccepted\<rparr>) p", OF t(8)])
            (use t th(2) in \<open>auto simp: phaseOk_def\<close>)
        ultimately show ?thesis by simp
      qed
    qed
    show ?thesis
      by (rule identity.own_commit [OF env S th(1) pre nxt c [unfolded commitLocked_def]]) auto
  qed
qed

lemma commit_Inl:
  assumes "change (bkLedger b) = Inl e" "commitCapacityLocked E io ordinary change b = (r, b')"
  shows "r \<noteq> None \<and> b' = b"
  using assms(2) by (rule commit_cases) (use assms(1) in auto)

lemma step_completed:
  assumes env: "envOk E digest owners decode" and S: "sysInv E digest owners S"
    and th: "fmlookup (syThreads S) key = Some th" "thPhase th = PReading" and summary: "ValidateSummary summary"
    and u: "\<And>k. uuidCanonical E (u k)" and calls: "\<And>item. item \<in> set (ssFunctionCalls summary) \<Longrightarrow> ValidateIdentifier (oiCallID item)"
    and r: "commitCompletedResponse E io u now (thContext th) summary (syBroker S) = (res, b)"
  shows "keepsInv E digest owners S (setPhase key th (PDone (case res of Inl e \<Rightarrow> Some e | Inr _ \<Rightarrow> None)) b S)"
proof -
  let ?l = "bkLedger (syBroker S)" let ?c = "thContext th"
  let ?change = "completedChange u now key (promptKey E ?c) (bcInvocationSequence ?c) summary"
  have tok: "threadOk E key th ?l" by (rule sysInv_thread [OF S th(1)])
  note key = threadOk_key [OF tok]
  obtain r0 b0 where c: "commitCapacityLocked E io True (\<lambda>l. dropRequest (?change l)) (syBroker S) = (r0, b0)" by fastforce
  have b: "b = b0" and res: "r0 = Some e \<Longrightarrow> res = Inl e" "r0 = None \<Longrightarrow> \<exists>x. res = Inr x" for e
  proof -
    have "b = b0 \<and> (\<forall>e. r0 = Some e \<longrightarrow> res = Inl e) \<and> (r0 = None \<longrightarrow> (\<exists>x. res = Inr x))"
      using r c commit_frame(3) [OF c]
      by (auto simp: commitCompletedResponse_def Let_def key dropRequest_def split: option.splits sum.splits)
    then show "b = b0" "r0 = Some e \<Longrightarrow> res = Inl e" "r0 = None \<Longrightarrow> \<exists>x. res = Inr x" by simp_all
  qed
  show ?thesis
  proof (cases "\<exists>e. ?change ?l = Inl e")
    case True
    then obtain e where "dropRequest (?change ?l) = Inl e" by (auto simp: dropRequest_def)
    from commit_Inl [of "\<lambda>l. dropRequest (?change l)", OF this c] obtain e' where "r0 = Some e'" "b0 = syBroker S" by auto
    with res b show ?thesis by (auto intro: step_phase [OF S th(1)] threadOk_done [OF tok])
  next
    case False
    then obtain l' out where ok: "?change ?l = Inr (l', out)" by (cases "?change ?l") auto
    from tok show ?thesis
    proof (rule threadOkE)
      fix s p i
      assume t: "fmlookup (blSessions ?l) key = Some s" "fmlookup (bsPrompts s) (promptKey E ?c) = Some p"
        "fmlookup (bpInvocations p) (bcInvocationSequence ?c) = Some i" "\<not> bpSettled p"
        "bpLastSequence p = bcInvocationSequence ?c" "\<not> bsRetired s" "phaseOk (thPhase th) ?l s i"
        "key = ownerKey E (bcOwner ?c)"
      have iok: "invocationOk E i (bcInvocationSequence ?c) (promptKey E ?c) p s"
        by (rule sessionOk_invocation [OF ledgerOk_session [OF sysInv_parts(3) [OF S] t(1)] t(2,3)])
      from ok t have "biResponseID i = ssResponseID summary" by (auto simp: completedChange_def split: if_splits)
      with summary have "biResponseID i \<noteq> []" by (simp add: ValidateSummary_def)
      with iok have "biState i \<noteq> InvIntent" by (auto simp: invocationOk_iff invocationStateOk_def)
      with t th(2) have st: "biState i = InvAccepted" by (simp add: phaseOk_def)
      with t have "invocationIn {InvAccepted} key (promptKey E ?c) (bcInvocationSequence ?c) ?l" by (simp add: invocationIn_def)
      with u calls threadOk_last [OF tok]
      have pre: "completedPre E u key (promptKey E ?c) (bcInvocationSequence ?c) summary ?l" by (simp add: completedPre_def)
      have nxt: "untouched key ?l n \<and> threadOk E key (th\<lparr>thPhase := PDone None\<rparr>) n"
        if n: "dropRequest (?change ?l) = Inr n" for n
      proof
        from n ok have n: "n = l'" by (simp add: dropRequest_def)
        show "untouched key ?l n" using untouched_completed [OF ok] n by simp
        from iok \<open>biResponseID i \<noteq> []\<close> obtain link0 where "fmlookup (bsResponses s) (biResponseAlias i) = Some link0"
          by (auto simp: invocationOk_iff linkOk_def)
        with ok t obtain link ids where "l' = putSession key (completedSession (promptKey E ?c) (bcInvocationSequence ?c) link ids i p s) ?l"
          by (auto simp: completedChange_def Let_def completedSession_def split: if_splits option.splits)
        moreover have "threadOk E key (th\<lparr>thPhase := PDone None\<rparr>)
            (putSession key (completedSession (promptKey E ?c) (bcInvocationSequence ?c) link ids i p s) ?l)" for link ids
          by (rule threadOk_putSession [where i = "i\<lparr>biState := InvCompleted\<rparr>" and
              p = "(putInvocation (bcInvocationSequence ?c) (i\<lparr>biState := InvCompleted\<rparr>) p)
                \<lparr>bpLastAlias := biResponseAlias i\<rparr>", OF t(8)])
            (use t in \<open>simp_all add: phaseOk_def\<close>)
        ultimately show "threadOk E key (th\<lparr>thPhase := PDone None\<rparr>) n" using n by simp
      qed
      show ?thesis unfolding b
        by (rule completed.own_commit [OF env S th(1) pre nxt c]) (use res in \<open>auto split: sum.splits\<close>)
    qed
  qed
qed

end
