(* ===== verification/BrokerSafety.thy ===== *)
theory BrokerSafety
  imports BrokerSteps
begin

text \<open>
  The steps that end a request, close prompts, reconcile, sweep, stop and restart; then the
  invariant of every reachable state.
\<close>

section \<open>The end of a request\<close>

lemma step_finished:
  assumes env: "envOk E digest owners decode" and S: "sysInv E digest owners S"
    and th: "fmlookup (syThreads S) key = Some th"
  shows "keepsInv E digest owners S (S\<lparr>syBroker := finishInvocation E io (thContext th) err (syBroker S),
      syThreads := fmdrop key (syThreads S)\<rparr>)"
proof -
  let ?l = "bkLedger (syBroker S)" let ?c = "thContext th"
  let ?change = "finishChange key (promptKey E ?c) (bcInvocationSequence ?c) err"
  have tok: "threadOk E key th ?l" by (rule sysInv_thread [OF S th])
  note key = threadOk_key [OF tok]
  obtain r b0 where c: "commitCapacityLocked E io False ?change (syBroker S) = (r, b0)" by fastforce
  have b: "finishInvocation E io ?c err (syBroker S) = b0\<lparr>bkActive := fmdrop key (bkActive b0)\<rparr>"
    using c by (simp add: finishInvocation_def commitLocked_def Let_def key)
  have pre: "invocationIn UNIV key (promptKey E ?c) (bcInvocationSequence ?c) ?l"
    by (rule threadOk_invocationIn [OF tok]) simp
  have unt: "untouched key ?l n" if "?change ?l = Inr n" for n
    using that unfolding finishChange_def by (rule untouched_onPrompt)
  then have adds: "addsOnly owners ?l n" if "?change ?l = Inr n" for n
    using that threadOk_session [OF tok] by (auto intro: addsOnly_untouched)
  note b0 = finish.commit_stored [OF env sysInv_parts(1) [OF S] pre adds c] and frame = commit_frame [OF c]
  have u: "untouched key ?l (bkLedger b0)" using frame(3) unt by auto
  let ?b = "b0\<lparr>bkActive := fmdrop key (bkActive b0)\<rparr>"
  have "stored E digest owners ?b" using b0(1) by (simp add: stored_def durable_def)
  moreover have "activeOk E ?b (fmdrop key (syThreads S))"
    using S frame(1) by (simp add: activeOk_def activeSame_def sysInv_def)
  moreover have "fmpred (\<lambda>k t. threadOk E k t (bkLedger ?b)) (fmdrop key (syThreads S))"
    using threadOk_untouched [OF sysInv_thread [OF S] u] by (auto simp: fmpred_iff split: if_splits)
  moreover have "workerOk k w (bkLedger ?b) \<and> ((\<exists>cp. w = WCaptured cp) \<longrightarrow> fmlookup (fmdrop key (syThreads S)) k = None)"
    if w: "fmlookup (syWorkers S) k = Some w" for k w
  proof (cases "k = key")
    case True
    with S th w have "\<not> (\<exists>cp. w = WCaptured cp)" by (auto simp: sysInv_def fmpred_iff)
    then show ?thesis by (cases w) (simp_all add: workerOk_def)
  next
    case False
    with S w workerOk_untouched [OF _ u False] show ?thesis by (auto simp: sysInv_def fmpred_iff)
  qed
  ultimately show ?thesis unfolding b using S frame(2) b0(2)
    by (simp add: keepsInv_def sysInv_def fmpred_iff)
qed

section \<open>Closing\<close>

lemma addsOnly_closeWhere: "addsOnly owners l (closeWhere C l)"
  by (auto simp: addsOnly_def closeWhere_def)

lemma step_disconnected:
  assumes env: "envOk E digest owners decode" and S: "sysInv E digest owners S"
  shows "keepsInv E digest owners S (S\<lparr>syBroker := closePromptLocked E io key pkey (syBroker S)\<rparr>)"
proof (cases "bkCancelled (syBroker S)")
  case True
  with S show ?thesis by (simp add: closePromptLocked_def keepsInv_def)
next
  case False
  obtain r b0 where c: "commitCapacityLocked E io False (closeChange key pkey) (syBroker S) = (r, b0)" by fastforce
  have k: "keepsInv E digest owners S (S\<lparr>syBroker := b0\<rparr>)"
    by (rule disconnect.calm_commit [OF env S _ _ c])
      (auto simp: closeChange_closeWhere calm_closeWhere addsOnly_closeWhere)
  from c False have "closePromptLocked E io key pkey (syBroker S) = b0 \<or>
      closePromptLocked E io key pkey (syBroker S) = cancelActive key b0"
    by (auto simp: closePromptLocked_def commitLocked_def split: option.split)
  with k keepsInv_activeSame [OF k, of "cancelActive key b0"] show ?thesis by auto
qed

lemma step_swept:
  assumes env: "envOk E digest owners decode" and S: "sysInv E digest owners S"
  shows "keepsInv E digest owners S (S\<lparr>syBroker := sweepTick E io now (syBroker S)\<rparr>)"
proof (cases "bkCancelled (syBroker S)")
  case True
  with S show ?thesis by (simp add: sweepTick_def keepsInv_def)
next
  case False
  define b1 where "b1 = (if needsExpiry now (bkLedger (syBroker S))
    then snd (commitLocked E io (expiryChange now) (syBroker S)) else syBroker S)"
  have k: "keepsInv E digest owners S (S\<lparr>syBroker := b1\<rparr>)"
  proof (cases "needsExpiry now (bkLedger (syBroker S))")
    case True
    obtain r b0 where c: "commitCapacityLocked E io False (expiryChange now) (syBroker S) = (r, b0)" by fastforce
    with True have "b1 = b0" by (simp add: b1_def commitLocked_def)
    moreover have "keepsInv E digest owners S (S\<lparr>syBroker := b0\<rparr>)"
      by (rule expiry.calm_commit [OF env S _ _ c])
        (auto simp: expiryChange_closeWhere calm_closeWhere addsOnly_closeWhere)
    ultimately show ?thesis by simp
  next
    case False
    with S show ?thesis by (simp add: b1_def keepsInv_def)
  qed
  let ?b = "b1\<lparr>bkActive := fmmap_keys (sweepCancel (bkLedger b1)) (bkActive b1)\<rparr>"
  have "baPrompt (sweepCancel l key a) = baPrompt a" for l key a
    by (simp add: sweepCancel_def split: option.split)
  then have "activeSame b1 ?b" by (simp add: activeSame_def option.map_comp comp_def)
  from keepsInv_activeSame [OF k this] False show ?thesis by (simp add: sweepTick_def b1_def Let_def)
qed

lemma step_shutdown:
  assumes S: "sysInv E digest owners S"
  shows "keepsInv E digest owners S (S\<lparr>syBroker := closeBroker (syBroker S)\<rparr>)"
proof -
  have k: "keepsInv E digest owners S (S\<lparr>syBroker := syBroker S\<rparr>)" using S by (simp add: keepsInv_def)
  show ?thesis
    by (rule keepsInv_activeSame [OF k]) (auto intro: activeSame_map simp: closeBroker_def)
qed

section \<open>Reconciliation\<close>

lemma step_workerStarted:
  assumes S: "sysInv E digest owners S" and r: "startReconcile key force now (syBroker S) = (True, b)"
  shows "keepsInv E digest owners S (S\<lparr>syBroker := b, syWorkers := fmupd key WStarted (syWorkers S)\<rparr>)"
proof -
  from r have b: "b = (syBroker S)\<lparr>bkWorkers := finsert key (bkWorkers (syBroker S))\<rparr>"
    by (auto simp: startReconcile_def split: if_splits)
  have "stored E digest owners b" using S by (simp add: b sysInv_def stored_def durable_def)
  with S show ?thesis
    by (auto simp: keepsInv_def sysInv_def fmpred_iff activeOk_def b workerOk_def split: if_splits)
qed

lemma captured_ok:
  assumes l: "ledgerOk E digest (bkLedger b)" and cp: "reconcileCapture b key = Some cp"
  shows "workerOk key (WCaptured cp) (bkLedger b)" "fmlookup (bkActive b) key = None"
proof -
  from cp obtain s where s: "fmlookup (blSessions (bkLedger b)) key = Some s" "\<not> bsRetired s"
    "fmlookup (bkActive b) key = None" "bsCreateState s \<noteq> CreateIntent"
    and cp': "cp = \<lparr>cpClosing = ffilter (\<lambda>k. case fmlookup (bsPrompts s) k of None \<Rightarrow> False | Some p \<Rightarrow> toSettle p)
            (fmdom (bsPrompts s)),
            cpAmbiguous = fmexists (\<lambda>_ p. fmexists (\<lambda>_ iv. isAmbiguous iv) (bpInvocations p)) (bsPrompts s),
            cpQuiescent = fmpred (\<lambda>_ p. toSettle p \<longrightarrow> fmpred (\<lambda>_ iv. isQuiescent iv) (bpInvocations p))
              (bsPrompts s),
            cpRemoteID = bsRemoteID s, cpCreateState = bsCreateState s, cpRetiring = bsRetiring s\<rparr>"
    and ne: "cpClosing cp \<noteq> {||} \<or> bsRetiring s"
    by (auto simp: reconcileCapture_def Let_def split: option.splits if_splits)
  have mem: "pk |\<in>| cpClosing cp \<longleftrightarrow> (\<exists>p. fmlookup (bsPrompts s) pk = Some p \<and> toSettle p)" for pk
    by (auto simp: cp' fmlookup_dom_iff split: option.splits)
  have "captureHolds cp s" using s mem by (auto simp: captureHolds_def cp')
  moreover have "draining s" using ne mem by (auto simp: draining_def)
  moreover have "\<not> cpAmbiguous cp \<longrightarrow> sessionClear s" by (auto simp: cp' sessionClear_def fmexists_iff)
  ultimately show "workerOk key (WCaptured cp) (bkLedger b)" using s(1) by (auto simp: workerOk_def)
  show "fmlookup (bkActive b) key = None" by (rule s(3))
qed

lemma step_captured:
  assumes S: "sysInv E digest owners S" and w: "fmlookup (syWorkers S) key = Some WStarted"
    and cp: "reconcileCapture (syBroker S) key = Some cp"
  shows "keepsInv E digest owners S (S\<lparr>syWorkers := fmupd key (WCaptured cp) (syWorkers S)\<rparr>)"
proof -
  note ok = captured_ok [OF sysInv_parts(3) [OF S] cp]
  from S have "map_option baPrompt (fmlookup (bkActive (syBroker S)) key) =
      map_option (\<lambda>th. promptKey E (thContext th)) (fmlookup (syThreads S) key)"
    by (simp add: sysInv_def activeOk_def)
  with ok(2) have "fmlookup (syThreads S) key = None" by simp
  moreover have "finsert key (fmdom (syWorkers S)) = fmdom (syWorkers S)" using w by (auto simp: fmlookup_dom_iff)
  ultimately show ?thesis using S ok(1) by (simp add: keepsInv_def sysInv_def fmpred_iff)
qed

lemma step_settled:
  assumes env: "envOk E digest owners decode" and S: "sysInv E digest owners S"
    and w: "fmlookup (syWorkers S) key = Some (WCaptured cp)" and clear: "\<not> cpAmbiguous cp"
  shows "keepsInv E digest owners S (S\<lparr>syBroker := reconcileCommit E io now key cp (syBroker S),
      syWorkers := fmupd key WEnding (syWorkers S)\<rparr>)"
proof -
  let ?l = "bkLedger (syBroker S)"
  let ?change = "reconcileChange E now key cp (planKind (reconcilePlan cp)) (syBroker S)"
  obtain r b where c: "commitCapacityLocked E io False ?change (syBroker S) = (r, b)" by fastforce
  then have b: "reconcileCommit E io now key cp (syBroker S) = b" by (simp add: reconcileCommit_def commitLocked_def)
  from S w have wok: "workerOk key (WCaptured cp) ?l" and none: "fmlookup (syThreads S) key = None"
    by (auto simp: sysInv_def fmpred_iff)
  with clear env have pre: "settlePre E key cp ?l" by (auto simp: workerOk_def settlePre_def envOk_def)
  from wok have "fmlookup (blSessions ?l) key \<noteq> None" by (auto simp: workerOk_def)
  then have adds: "addsOnly owners ?l n" if "?change ?l = Inr n" for n
    using untouched_reconcile [OF that] by (auto intro: addsOnly_untouched)
  note b' = reconciliation.commit_stored [OF env sysInv_parts(1) [OF S] pre adds c] and frame = commit_frame [OF c]
  have u: "untouched key ?l (bkLedger b)" using frame(3) untouched_reconcile by auto
  have "activeOk E b (syThreads S)" using S frame(1) by (simp add: activeOk_def activeSame_def sysInv_def)
  moreover have "threadOk E k t (bkLedger b)" if t: "fmlookup (syThreads S) k = Some t" for k t
  proof -
    have "k \<noteq> key" using t none by auto
    with threadOk_untouched [OF sysInv_thread [OF S t] u] show ?thesis .
  qed
  moreover have "workerOk k w' (bkLedger b) \<and> ((\<exists>cp. w' = WCaptured cp) \<longrightarrow> fmlookup (syThreads S) k = None)"
    if w': "fmlookup (fmupd key WEnding (syWorkers S)) k = Some w'" for k w'
  proof (cases "k = key")
    case True
    with w' show ?thesis by (auto simp: workerOk_def)
  next
    case False
    with w' S workerOk_untouched [OF _ u False] show ?thesis by (auto simp: sysInv_def fmpred_iff)
  qed
  moreover have "finsert key (fmdom (syWorkers S)) = fmdom (syWorkers S)" using w by (auto simp: fmlookup_dom_iff)
  ultimately show ?thesis unfolding b using S b' frame(2)
    by (simp add: keepsInv_def sysInv_def fmpred_iff)
qed

lemma step_workerEnded:
  assumes S: "sysInv E digest owners S"
  shows "keepsInv E digest owners S (S\<lparr>syBroker := endReconcile key now (syBroker S),
      syWorkers := fmdrop key (syWorkers S)\<rparr>)"
proof -
  have "stored E digest owners (endReconcile key now (syBroker S))"
    using S by (simp add: sysInv_def stored_def durable_def endReconcile_def)
  moreover have "fmdom (syWorkers S) |-| {|key|} = fmdom (fmdrop key (syWorkers S))" by auto
  ultimately show ?thesis using S
    by (simp add: keepsInv_def sysInv_def fmpred_iff activeOk_def endReconcile_def)
qed

section \<open>Restart\<close>

lemma openBrokerStore_disk:
  assumes "openBrokerStore E decode True digest (Some created) (Present True fileSize) d io d = (Inr l, d')"
  shows "\<exists>data. d = Some data \<and> decode data = Some l" "d' = d" "brokerLedgerValid E l digest"
  using assms by (auto simp: openBrokerStore_def split: if_splits option.splits)

lemma step_restarted:
  assumes env: "envOk E digest owners decode" and S: "sysInv E digest owners S"
    and o': "openBrokerStore E decode True digest (Some created) (Present True fileSize) (bkDisk (syBroker S)) io
      (bkDisk (syBroker S)) = (Inr l, d)"
    and n: "newLifecycleBroker E proofOk io' cfg (Inr l, d) = Inr b"
  shows "keepsInv E digest owners S \<lparr>syBroker = b, syThreads = fmempty, syWorkers = fmempty\<rparr>"
proof -
  from sysInv_parts(2) [OF S] obtain l0 where l0: "bkDisk (syBroker S) = Some (marshalLedger E l0)"
    "ledgerOk E digest l0" "ledgerEvolves (bkLedger (syBroker S)) l0"
    by (auto simp: durable_def)
  with env openBrokerStore_disk [OF o'] have l: "l = l0" "d = bkDisk (syBroker S)" by (auto simp: envOk_def)
  from sysInv_parts(1) [OF S] l0 have own: "ownersIn owners l0" by (simp add: stored_def)
  from n obtain cfg' b0 where b0: "b0 = \<lparr>bkCfg = cfg', bkDisk = d, bkLedger = l, bkStorageError = False, bkActive = fmempty,
      bkWorkers = {||}, bkNextReconcile = fmempty, bkCancelled = False\<rparr>"
    and c: "commitCapacityLocked E io' False recoveryChange b0 = (None, b)"
    by (auto simp: newLifecycleBroker_def commitLocked_def Let_def split: if_splits option.splits prod.splits)
  let ?S0 = "\<lparr>syBroker = b0, syThreads = fmempty, syWorkers = fmempty\<rparr>"
  have "durable E digest b0" using l0 l by (auto simp: durable_def b0 intro: exI [of _ l0])
  moreover have "ownersIn owners m" if "ledgerOk E digest m" "marshalLedger E l0 = marshalLedger E m" for m
    using sysInv_parts(1) [OF S] l0(1) that by (simp add: stored_def)
  ultimately have "stored E digest owners b0" using own l0 l by (simp add: stored_def b0)
  then have S0: "sysInv E digest owners ?S0" by (simp add: sysInv_def activeOk_def b0)
  have "keepsInv E digest owners ?S0 (?S0\<lparr>syBroker := b\<rparr>)"
    by (rule recovery.calm_commit [OF env S0]) (use c in \<open>auto simp: recoveryChange_closeWhere calm_closeWhere addsOnly_closeWhere\<close>)
  moreover have "ledgerEvolves (bkLedger (syBroker S)) l" using l0 l by simp
  ultimately show ?thesis by (auto simp: keepsInv_def b0 intro: ledgerEvolves_trans)
qed

section \<open>Every step\<close>

lemma sysStep_keeps:
  assumes env: "envOk E digest owners decode" and S: "sysInv E digest owners S"
    and step: "sysStep E digest owners decode B S S'"
  shows "keepsInv E digest owners S S'"
  using step
proof cases
  case (readState key th s)
  have tok: "threadOk E key th (bkLedger (syBroker S))" by (rule sysInv_thread [OF S readState(2)])
  then have "threadOk E key (th\<lparr>thPhase := readPhase (bsCreateState s)\<rparr>) (bkLedger (syBroker S))"
    by (rule threadOkE) (use readState in \<open>auto simp: threadOk_def phaseOk_def readPhase_def\<close>)
  with readState show ?thesis by (simp add: step_phase [OF S])
next
  case (failed key th e)
  with threadOk_done [OF sysInv_thread [OF S failed(2)]] show ?thesis by (simp add: step_phase [OF S])
next
  case (answered key th)
  have "threadOk E key th (bkLedger (syBroker S))" by (rule sysInv_thread [OF S answered(2)])
  then have "threadOk E key (th\<lparr>thPhase := PReading\<rparr>) (bkLedger (syBroker S))"
    by (rule threadOkE) (use answered in \<open>auto simp: threadOk_def phaseOk_def\<close>)
  with answered show ?thesis by (simp add: step_phase [OF S])
next
  case (control path c io now r b)
  show ?thesis unfolding control(1) by (rule step_control [OF env S control(2-4)])
next
  case (reserved c io now request request' b)
  show ?thesis unfolding reserved(1) by (rule step_reserved [OF env S reserved(2-3)])
next
  case (refused c io now request e b)
  show ?thesis unfolding refused(1) by (rule step_refused [OF env S refused(2-3)])
next
  case (pin io cl r b)
  show ?thesis unfolding pin(1) by (rule step_pin(1) [OF env S pin(2)])
next
  case (pinned key th io cl b)
  show ?thesis unfolding pinned(1) by (rule step_pinned [OF env S pinned(2-4)])
next
  case (createIntent key th rid io now stopped r b)
  show ?thesis unfolding createIntent(1) by (rule step_createIntent [OF env S createIntent(2-5)])
next
  case (createResult key th io created r b e)
  show ?thesis unfolding createResult(1) by (rule step_createResult [OF env S createResult(2-4)])
next
  case (inferenceIntent key th io now stopped r b)
  show ?thesis unfolding inferenceIntent(1) by (rule step_inferenceIntent [OF env S inferenceIntent(2-4)])
next
  case (rejected key th io r b)
  show ?thesis unfolding rejected(1) by (rule step_rejected [OF env S rejected(2-4)])
next
  case (identity key th rid al io r b)
  show ?thesis unfolding identity(1) by (rule step_identity [OF env S identity(2-8)])
next
  case (completed key th summary u io now res b)
  show ?thesis unfolding completed(1) by (rule step_completed [OF env S completed(2-7)])
next
  case (finished key th err io)
  show ?thesis unfolding finished(1) by (rule step_finished [OF env S finished(2)])
next
  case (disconnected io key pkey)
  show ?thesis unfolding disconnected(1) by (rule step_disconnected [OF env S])
next
  case (workerStarted key force now b)
  show ?thesis unfolding workerStarted(1) by (rule step_workerStarted [OF S workerStarted(2)])
next
  case (captured key cp)
  show ?thesis unfolding captured(1) by (rule step_captured [OF S captured(2-3)])
next
  case (settled key cp io now)
  show ?thesis unfolding settled(1) by (rule step_settled [OF env S settled(2-3)])
next
  case (workerEnded key w now)
  show ?thesis unfolding workerEnded(1) by (rule step_workerEnded [OF S])
next
  case (swept io now)
  show ?thesis unfolding swept(1) by (rule step_swept [OF env S])
next
  case shutdown
  then show ?thesis by (simp only: step_shutdown [OF S])
next
  case (restarted created fileSize io l d proofOk io' cfg b)
  show ?thesis unfolding restarted(1) by (rule step_restarted [OF env S restarted(2-3)])
qed

end
