(* ===== verification/BrokerRuns.thy ===== *)
theory BrokerRuns
  imports BrokerSafety
begin

text \<open>
  Executions: the states a broker reaches that starts in an empty directory, through any
  interleaving of requests, workers, sweeps, disconnects, storage failures, shutdowns and
  restarts. The invariant holds in all of them and the ledger's history only grows.
\<close>

inductive reachable :: "env \<Rightarrow> string \<Rightarrow> brokerOwner set \<Rightarrow> (string \<Rightarrow> brokerLedger option) \<Rightarrow> brokerJson \<Rightarrow>
    sys \<Rightarrow> bool"
  for E digest owners decode B where
  started: "openBrokerStore E decode True digest (Some True) NotExist read io d = (Inr l, d') \<Longrightarrow>
    newLifecycleBroker E proofOk io' cfg (Inr l, d') = Inr b \<Longrightarrow>
    reachable E digest owners decode B \<lparr>syBroker = b, syThreads = fmempty, syWorkers = fmempty\<rparr>"
| stepped: "reachable E digest owners decode B S \<Longrightarrow> sysStep E digest owners decode B S S' \<Longrightarrow>
    reachable E digest owners decode B S'"

lemma openBrokerStore_new:
  assumes "openBrokerStore E decode True digest (Some True) NotExist read io d = (Inr l, d')"
  shows "l = emptyLedger digest" "d' = Some (marshalLedger E (emptyLedger digest))" "DigestValid digest"
proof -
  from assms have D: "DigestValid digest" by (auto simp: openBrokerStore_def split: if_splits)
  obtain x d1 where s: "saveBytes io (marshalLedger E (emptyLedger digest)) d = (x, d1)" by fastforce
  with assms D have "x = None" "l = emptyLedger digest" "d' = d1" by (auto simp: openBrokerStore_def split: option.splits)
  with s D show "l = emptyLedger digest" "d' = Some (marshalLedger E (emptyLedger digest))" "DigestValid digest"
    by (auto elim: saveBytes_cases)
qed

lemma recovery_empty: "recoveryChange (emptyLedger digest) = Inr (emptyLedger digest)"
  by (simp add: recoveryChange_def emptyLedger_def fmap_ext)

lemma started_sysInv:
  assumes env: "envOk E digest owners decode"
    and o: "openBrokerStore E decode True digest (Some True) NotExist read io d = (Inr l, d')"
    and n: "newLifecycleBroker E proofOk io' cfg (Inr l, d') = Inr b"
  shows "sysInv E digest owners \<lparr>syBroker = b, syThreads = fmempty, syWorkers = fmempty\<rparr>"
proof -
  note l = openBrokerStore_new [OF o]
  from n obtain cfg' b0 where b0: "b0 = \<lparr>bkCfg = cfg', bkDisk = d', bkLedger = l, bkStorageError = False,
      bkActive = fmempty, bkWorkers = {||}, bkNextReconcile = fmempty, bkCancelled = False\<rparr>"
    and c: "commitCapacityLocked E io' False recoveryChange b0 = (None, b)"
    by (auto simp: newLifecycleBroker_def commitLocked_def Let_def split: if_splits option.splits prod.splits)
  from c have b: "bkLedger b = emptyLedger digest" "bkDisk b = Some (marshalLedger E (emptyLedger digest))"
      "bkActive b = fmempty" "bkWorkers b = {||}"
    by (rule commit_cases; simp add: b0 l(1) recovery_empty)+
  have ok: "ledgerOk E digest (emptyLedger digest)" by (rule ledgerOk_empty)
  have dec: "decode (marshalLedger E m) = Some m" if "ledgerOk E digest m" for m
    using env that by (simp add: envOk_def)
  have "m = emptyLedger digest" if "ledgerOk E digest m" "marshalLedger E (emptyLedger digest) = marshalLedger E m" for m
    using dec [OF that(1)] dec [OF ok] that(2) by simp
  moreover have "ownersIn owners (emptyLedger digest)" by (simp add: ownersIn_def emptyLedger_def)
  moreover have "durable E digest b" using b ok by (auto simp: durable_def)
  ultimately have "stored E digest owners b" using b by (auto simp: stored_def)
  with b show ?thesis by (simp add: sysInv_def activeOk_def)
qed

lemma reachable_sysInv:
  assumes "envOk E digest owners decode" "reachable E digest owners decode B S"
  shows "sysInv E digest owners S"
  using assms(2)
proof induction
  case (started read io d l d' proofOk io' cfg b)
  then show ?case by (rule started_sysInv [OF assms(1)])
next
  case (stepped S S')
  with sysStep_keeps [OF assms(1)] show ?case by (simp add: keepsInv_def)
qed

lemma reachable_run:
  assumes "reachable E digest owners decode B S" "(sysStep E digest owners decode B)\<^sup>*\<^sup>* S S'"
  shows "reachable E digest owners decode B S'"
  using assms(2,1) by induction (auto intro: reachable.stepped)

lemma run_evolves:
  assumes env: "envOk E digest owners decode" and S: "reachable E digest owners decode B S"
    and run: "(sysStep E digest owners decode B)\<^sup>*\<^sup>* S S'"
  shows "ledgerEvolves (bkLedger (syBroker S)) (bkLedger (syBroker S'))"
  using run
proof induction
  case (step S1 S2)
  from sysStep_keeps [OF env reachable_sysInv [OF env reachable_run [OF S step(1)]] step(2)] step(3)
  show ?case by (auto simp: keepsInv_def intro: ledgerEvolves_trans)
qed simp

lemma reachable_ledgerOk:
  assumes "envOk E digest owners decode" "reachable E digest owners decode B S"
  shows "ledgerOk E digest (bkLedger (syBroker S))" "durable E digest (syBroker S)"
  using sysInv_parts [OF reachable_sysInv [OF assms]] by simp_all

lemma reachable_session:
  assumes "envOk E digest owners decode" "reachable E digest owners decode B S"
    and "fmlookup (blSessions (bkLedger (syBroker S))) key = Some s"
  shows "sessionOk E digest key s"
  by (rule ledgerOk_session [OF reachable_ledgerOk(1) [OF assms(1,2)] assms(3)])

text \<open>What is known of one session, prompt and invocation later on.\<close>

lemma ledgerEvolves_session:
  assumes "ledgerEvolves l l'" "fmlookup (blSessions l) key = Some s"
  obtains s' where "fmlookup (blSessions l') key = Some s'" "sessionEvolves s s'"
  using assms by (auto simp: ledgerEvolves_def dest: mapEvolvesD)

lemma sessionEvolves_prompt:
  assumes "sessionEvolves s s'" "fmlookup (bsPrompts s) pk = Some p"
  obtains p' where "fmlookup (bsPrompts s') pk = Some p'" "promptEvolves p p'"
  using assms by (auto simp: sessionEvolves_def dest: mapEvolvesD)

lemma promptEvolves_invocation:
  assumes "promptEvolves p p'" "fmlookup (bpInvocations p) seq = Some iv"
  obtains iv' where "fmlookup (bpInvocations p') seq = Some iv'" "invocationEvolves iv iv'"
  using assms by (auto simp: promptEvolves_def dest!: spec [of _ seq])

section \<open>The size of the file\<close>

text \<open>Whatever is on disk is small enough for \<open>openBrokerStore\<close>: only \<open>saveBytes\<close> writes it.\<close>

definition diskSmall :: "broker \<Rightarrow> bool" where
  "diskSmall b \<longleftrightarrow> (\<forall>data. bkDisk b = Some data \<longrightarrow> length data \<le> brokerMaxLedgerBytes)"

lemma diskSmall_simps [simp]:
  "diskSmall (b\<lparr>bkActive := a\<rparr>) = diskSmall b" "diskSmall (b\<lparr>bkWorkers := w\<rparr>) = diskSmall b"
  "diskSmall (b\<lparr>bkNextReconcile := n\<rparr>) = diskSmall b" "diskSmall (b\<lparr>bkCancelled := c\<rparr>) = diskSmall b"
  "diskSmall (b\<lparr>bkLedger := l\<rparr>) = diskSmall b" "diskSmall (failStorageLocked b) = diskSmall b"
  "diskSmall (cancelActive key b) = diskSmall b"
  by (simp_all add: diskSmall_def failStorageLocked_def cancelActive_def)

lemma saveBytes_small: "saveBytes io data d = (r, d') \<Longrightarrow> d' = d \<or> d' = Some data \<and> length data \<le> brokerMaxLedgerBytes"
  by (auto simp: saveBytes_def split: if_splits)

lemma commit_capacity:
  assumes "commitCapacityLocked E io ordinary change b = (r, b')" "\<not> bkStorageError b"
    "change (bkLedger b) = Inr nxt" "brokerMaxLedgerBytes < length (marshalLedger E nxt)"
  shows "r = Some ErrCapacity"
proof -
  have "int brokerMaxLedgerBytes - (if x then int y else 0) < int (length (marshalLedger E nxt))" for x y
    using assms(4) by simp
  then show ?thesis using assms(1-3) by (simp add: commitCapacityLocked_def Let_def)
qed

lemma commit_small:
  assumes "diskSmall b" and c: "commitCapacityLocked E io ordinary change b = (r, b')"
  shows "diskSmall b'"
  using c
proof (cases rule: commit_cases)
  case refused
  with assms(1) show ?thesis by simp
next
  case (failed nxt)
  from commit_capacity [OF c failed(3,2)] failed(1) have "length (marshalLedger E nxt) \<le> brokerMaxLedgerBytes"
    by (simp add: not_less [symmetric]) blast
  with failed(4) assms(1) show ?thesis by (elim disjE) (simp_all add: diskSmall_def)
next
  case (saved nxt)
  from commit_capacity [OF c saved(3,2)] saved(1) have "length (marshalLedger E nxt) \<le> brokerMaxLedgerBytes"
    by (simp add: not_less [symmetric]) blast
  with saved(4) show ?thesis by (simp add: diskSmall_def)
qed

lemma commit_small_snd: "diskSmall b \<Longrightarrow> diskSmall (snd (commitLocked E io change b))"
  unfolding commitLocked_def by (rule commit_small [OF _ prod.collapse [symmetric]])

lemma operations_small:
  assumes "diskSmall b"
  shows "control E io now path c b = (re, b') \<Longrightarrow> diskSmall b'"
    and "reserveInvocation E B io now c request b = (rr, b') \<Longrightarrow> diskSmall b'"
    and "pinDigest E io x b = (re, b') \<Longrightarrow> diskSmall b'"
    and "recordIdentity E io al c rid b = (re, b') \<Longrightarrow> diskSmall b'"
    and "commitCompletedResponse E io u now c summary b = (rc, b') \<Longrightarrow> diskSmall b'"
    and "startReconcile key force now b = (st, b') \<Longrightarrow> diskSmall b'"
  using assms
  by (auto simp: control_def reserveInvocation_def pinDigest_def recordIdentity_def commitCompletedResponse_def
      startReconcile_def commitLocked_def Let_def dest: commit_small split: if_splits option.splits prod.splits sum.splits)

lemma updates_small:
  assumes "diskSmall b"
  shows "diskSmall (finishInvocation E io c err b)" "diskSmall (closePromptLocked E io key pkey b)"
    "diskSmall (reconcileCommit E io now key cp b)" "diskSmall (endReconcile key now b)"
    "diskSmall (sweepTick E io now b)" "diskSmall (closeBroker b)"
  using assms
  by (simp_all add: finishInvocation_def closePromptLocked_def reconcileCommit_def endReconcile_def sweepTick_def
      closeBroker_def Let_def commit_small_snd split: option.split)

lemma newLifecycleBroker_small:
  assumes "newLifecycleBroker E proofOk io cfg (Inr l, d) = Inr b" "\<And>data. d = Some data \<Longrightarrow> length data \<le> brokerMaxLedgerBytes"
  shows "diskSmall b"
proof -
  from assms(1) obtain cfg' b0 where b0: "b0 = \<lparr>bkCfg = cfg', bkDisk = d, bkLedger = l, bkStorageError = False,
      bkActive = fmempty, bkWorkers = {||}, bkNextReconcile = fmempty, bkCancelled = False\<rparr>"
    and c: "commitCapacityLocked E io False recoveryChange b0 = (None, b)"
    by (auto simp: newLifecycleBroker_def commitLocked_def Let_def split: if_splits option.splits prod.splits)
  show ?thesis by (rule commit_small [OF _ c]) (use assms(2) in \<open>simp add: diskSmall_def b0\<close>)
qed

lemma sysStep_small:
  assumes "sysStep E digest owners decode B S S'" "diskSmall (syBroker S)"
  shows "diskSmall (syBroker S')"
  using assms(1)
proof cases
  case (restarted created fileSize io l d proofOk io' cfg b)
  have "d = bkDisk (syBroker S)" by (rule openBrokerStore_disk(2) [OF restarted(2)])
  with newLifecycleBroker_small [OF restarted(3)] restarted(1) assms(2) show ?thesis by (simp add: diskSmall_def)
qed (use assms(2) operations_small [OF assms(2)] updates_small [OF assms(2)] commit_small [OF assms(2)] in
  \<open>simp_all add: setPhase_def commitLocked_def\<close>)

lemma reachable_disk:
  assumes "reachable E digest owners decode B S"
  shows "DigestValid digest" "diskSmall (syBroker S)"
proof -
  from assms have "DigestValid digest \<and> diskSmall (syBroker S)"
  proof induction
    case (started read io d l d' proofOk io' cfg b)
    note o = openBrokerStore_new [OF started(1)]
    obtain x d1 where s: "saveBytes io (marshalLedger E (emptyLedger digest)) d = (x, d1)" by fastforce
    have "length data \<le> brokerMaxLedgerBytes" if "d' = Some data" for data
      using started(1) s o(3) that saveBytes_small [OF s]
      by (auto simp: openBrokerStore_def saveBytes_def split: if_splits option.splits)
    with newLifecycleBroker_small [OF started(2)] o(3) show ?case by simp
  next
    case (stepped S S')
    then show ?case using sysStep_small by blast
  qed
  then show "DigestValid digest" "diskSmall (syBroker S)" by simp_all
qed

end
