(* ===== verification/BrokerExample.thy ===== *)
theory BrokerExample
  imports BrokerRuns "HOL-Library.Countable"
begin

text \<open>
  A concrete run of the broker, used to show that the hypotheses of the theorems can hold: one
  owner whose only prompt is settled before any inference, on an environment with a fixed
  hash and an injective encoding of ledgers.
\<close>

section \<open>Ledgers can be encoded\<close>

instance brokerOwner_ext :: (countable) countable
proof
  show "\<exists>f :: 'a brokerOwner_scheme \<Rightarrow> nat. inj f"
    by (rule exI [of _ "\<lambda>r. to_nat (boRuntimeInstanceID r, boSupervisorBootID r, boControllerEpoch r,
      boRuntimePoolUID r, boRuntimePoolGeneration r, boRuntimeSessionUID r, boRuntimeSessionGeneration r,
      boRuntimeProfileDigest r, boProfileDigestSchemaVersion r, brokerOwner.more r)"])
      (auto intro!: injI brokerOwner.equality)
qed

instance brokerContext_ext :: (countable) countable
proof
  show "\<exists>f :: 'a brokerContext_scheme \<Rightarrow> nat. inj f"
    by (rule exI [of _ "\<lambda>r. to_nat (bcProtocol r, bcOwner r, bcAgentConfigurationDigest r, bcTaskUID r,
      bcTaskAttempt r, bcPromptID r, bcPromptRequestDigest r, bcLeaseGeneration r, bcLeaseExpiresAt r,
      bcOperationID r, bcInvocationSequence r, bcBodySHA256 r, brokerContext.more r)"])
      (auto intro!: injI brokerContext.equality)
qed

instance createState :: countable by countable_datatype
instance invState :: countable by countable_datatype

instance brokerInvocation_ext :: (countable) countable
proof
  show "\<exists>f :: 'a brokerInvocation_scheme \<Rightarrow> nat. inj f"
    by (rule exI [of _ "\<lambda>r. to_nat (biSequence r, biOperationID r, biBodyDigest r, biState r, biResponseID r,
      biResponseAlias r, brokerInvocation.more r)"])
      (auto intro!: injI brokerInvocation.equality)
qed

instance brokerResponseID_ext :: (countable) countable
proof
  show "\<exists>f :: 'a brokerResponseID_scheme \<Rightarrow> nat. inj f"
    by (rule exI [of _ "\<lambda>r. to_nat (brRemoteID r, brPromptKey r, brCompleted r, brHasFunctions r, brCallIDs r,
      brokerResponseID.more r)"])
      (auto intro!: injI brokerResponseID.equality)
qed

instance brokerPrompt_ext :: (countable) countable
proof
  show "\<exists>f :: 'a brokerPrompt_scheme \<Rightarrow> nat. inj f"
    by (rule exI [of _ "\<lambda>r. to_nat (bpIdentity r, bpLeaseGeneration r, bpLeaseExpiresAt r, bpClosing r,
      bpSettled r, bpProofDigest r, bpLastSequence r, bpLastAlias r, bpInvocations r, brokerPrompt.more r)"])
      (auto intro!: injI brokerPrompt.equality)
qed

instance brokerSession_ext :: (countable) countable
proof
  show "\<exists>f :: 'a brokerSession_scheme \<Rightarrow> nat. inj f"
    by (rule exI [of _ "\<lambda>r. to_nat (bsOwner r, bsRemoteID r, bsCreateState r, bsRetiring r, bsRetired r,
      bsProofDigest r, bsCurrentPrompt r, bsPrompts r, bsResponses r, bsOperations r, brokerSession.more r)"])
      (auto intro!: injI brokerSession.equality)
qed

instance brokerLedger_ext :: (countable) countable
proof
  show "\<exists>f :: 'a brokerLedger_scheme \<Rightarrow> nat. inj f"
    by (rule exI [of _ "\<lambda>r. to_nat (blVersion r, blConfigDigest r, blPrincipalDigest r, blSessions r,
      brokerLedger.more r)"])
      (auto intro!: injI brokerLedger.equality)
qed

section \<open>The environment\<close>

definition exHash :: string where
  "exHash = Digest (\<lambda>_. replicate 32 (CHR ''a'')) []"

definition exOwner :: brokerOwner where
  "exOwner = \<lparr>boRuntimeInstanceID = ''i'', boSupervisorBootID = ''b'', boControllerEpoch = 1,
     boRuntimePoolUID = ''p'', boRuntimePoolGeneration = 1, boRuntimeSessionUID = ''s'',
     boRuntimeSessionGeneration = 1, boRuntimeProfileDigest = exHash, boProfileDigestSchemaVersion = 1\<rparr>"

definition exContext :: brokerContext where
  "exContext = \<lparr>bcProtocol = brokerProtocol, bcOwner = exOwner, bcAgentConfigurationDigest = exHash,
     bcTaskUID = ''t'', bcTaskAttempt = 1, bcPromptID = ''q'', bcPromptRequestDigest = exHash,
     bcLeaseGeneration = 1, bcLeaseExpiresAt = ''l'', bcOperationID = ''o'', bcInvocationSequence = 0,
     bcBodySHA256 = exHash\<rparr>"

definition exPrompt :: brokerPrompt where
  "exPrompt = \<lparr>bpIdentity = exContext, bpLeaseGeneration = 1, bpLeaseExpiresAt = 100, bpClosing = True,
     bpSettled = False, bpProofDigest = [], bpLastSequence = 0, bpLastAlias = [], bpInvocations = fmempty\<rparr>"

definition exSession :: brokerSession where
  "exSession = \<lparr>bsOwner = exOwner, bsRemoteID = [], bsCreateState = CreateNone, bsRetiring = False,
     bsRetired = False, bsProofDigest = [], bsCurrentPrompt = exHash, bsPrompts = fmupd exHash exPrompt fmempty,
     bsResponses = fmempty, bsOperations = fmupd ''o'' exHash fmempty\<rparr>"

definition exLedger :: brokerLedger where
  "exLedger = putSession exHash exSession (emptyLedger exHash)"

definition exSettled :: brokerLedger where
  "exSettled = putSession exHash (exSession\<lparr>bsPrompts := fmupd exHash (settlePrompt exHash exPrompt) fmempty\<rparr>)
     (emptyLedger exHash)"

text \<open>A session without prompts that is asked to retire, and the same retired.\<close>

definition exRetire :: brokerContext where
  "exRetire = exContext\<lparr>bcTaskUID := [], bcTaskAttempt := 0, bcPromptID := [], bcPromptRequestDigest := [],
     bcLeaseGeneration := 0, bcLeaseExpiresAt := []\<rparr>"

definition exIdleSession :: "bool \<Rightarrow> brokerSession" where
  "exIdleSession retired = \<lparr>bsOwner = exOwner, bsRemoteID = [], bsCreateState = CreateNone, bsRetiring = True,
     bsRetired = retired, bsProofDigest = (if retired then exHash else []), bsCurrentPrompt = [],
     bsPrompts = fmempty, bsResponses = fmempty, bsOperations = fmupd ''o'' exHash fmempty\<rparr>"

definition exIdle :: "bool \<Rightarrow> brokerLedger" where
  "exIdle retired = putSession exHash (exIdleSession retired) (emptyLedger exHash)"

text \<open>The ledger of one request: its invocation's state, the creation state and remote identity, the
  pinned principal, and whether the prompt is closing.\<close>

definition exCall :: brokerContext where
  "exCall = exContext\<lparr>bcInvocationSequence := 1\<rparr>"

definition exInvocation :: "invState \<Rightarrow> brokerInvocation" where
  "exInvocation st = \<lparr>biSequence = 1, biOperationID = ''o'', biBodyDigest = exHash, biState = st,
     biResponseID = [], biResponseAlias = []\<rparr>"

definition exCallPrompt :: "invState \<Rightarrow> bool \<Rightarrow> brokerPrompt" where
  "exCallPrompt st closing = \<lparr>bpIdentity = exCall, bpLeaseGeneration = 1, bpLeaseExpiresAt = 100, bpClosing = closing,
     bpSettled = False, bpProofDigest = [], bpLastSequence = 1, bpLastAlias = [],
     bpInvocations = fmupd 1 (exInvocation st) fmempty\<rparr>"

definition exCallSession :: "invState \<Rightarrow> createState \<Rightarrow> string \<Rightarrow> bool \<Rightarrow> brokerSession" where
  "exCallSession st cs rid closing = \<lparr>bsOwner = exOwner, bsRemoteID = rid, bsCreateState = cs, bsRetiring = False,
     bsRetired = False, bsProofDigest = [], bsCurrentPrompt = exHash,
     bsPrompts = fmupd exHash (exCallPrompt st closing) fmempty, bsResponses = fmempty,
     bsOperations = fmupd ''o'' exHash fmempty\<rparr>"

definition exCallLedger :: "invState \<Rightarrow> createState \<Rightarrow> string \<Rightarrow> string \<Rightarrow> bool \<Rightarrow> brokerLedger" where
  "exCallLedger st cs rid pd closing = \<lparr>blVersion = 1, blConfigDigest = exHash, blPrincipalDigest = pd,
     blSessions = fmupd exHash (exCallSession st cs rid closing) fmempty\<rparr>"

definition exTable :: "brokerLedger list" where
  "exTable = [emptyLedger exHash, exLedger, exSettled, exCallLedger InvReserved CreateNone [] [] False,
     exCallLedger InvReserved CreateNone [] exHash False, exCallLedger InvReserved CreateIntent ''r'' exHash False,
     exCallLedger InvReserved CreateKnown ''r'' exHash False, exCallLedger InvIntent CreateKnown ''r'' exHash False,
     exCallLedger InvUncertain CreateKnown ''r'' exHash True, exIdle False, exIdle True]"

fun indexOf :: "'a list \<Rightarrow> 'a \<Rightarrow> nat option" where
  "indexOf [] x = None"
| "indexOf (y # ys) x = (if x = y then Some 0 else map_option Suc (indexOf ys x))"

lemma indexOf_nth: "indexOf xs x = Some i \<Longrightarrow> i < length xs \<and> xs ! i = x"
  by (induction xs arbitrary: i) (auto split: if_splits)

lemma indexOf_None: "indexOf xs x = None \<longleftrightarrow> x \<notin> set xs"
  by (induction xs) auto

text \<open>An encoding that is injective on all ledgers and short on those of the runs.\<close>

definition exMarshal :: "brokerLedger \<Rightarrow> string" where
  "exMarshal l = (case indexOf exTable l of Some i \<Rightarrow> replicate i (CHR ''a'')
     | None \<Rightarrow> replicate (to_nat l + length exTable) (CHR ''a''))"

definition exEnv :: env where
  "exEnv = \<lparr>sha = (\<lambda>_. replicate 32 (CHR ''a'')), parseTime = (\<lambda>_. Some 100), formatTime = (\<lambda>_. ''l''),
     uuidCanonical = (\<lambda>_. True), marshalLedger = exMarshal\<rparr>"

definition exDecode :: "string \<Rightarrow> brokerLedger option" where
  "exDecode s = Some (if length s < length exTable then exTable ! length s else from_nat (length s - length exTable))"

lemma Digest_exEnv [simp]: "Digest (sha exEnv) x = exHash"
  by (simp add: exEnv_def exHash_def Digest_def)

lemma exHash_valid [simp]: "DigestValid exHash"
  by (simp add: exHash_def DigestValid_Digest)

lemma exHash_nonempty [simp]: "exHash \<noteq> []"
  by (rule DigestValid_nonempty) simp

lemma exKeys [simp]: "ownerKey exEnv o' = exHash" "promptKey exEnv c = exHash" "brokerOperationDigest exEnv path c = exHash"
  "settlementProof exEnv key pkey remoteID kind now = exHash"
  by (simp_all add: ownerKey_def promptKey_def brokerOperationDigest_def settlementProof_def)

lemma exFields [simp]: "parseTime exEnv = (\<lambda>_. Some 100)" "uuidCanonical exEnv = (\<lambda>_. True)"
  "marshalLedger exEnv = exMarshal" "formatTime exEnv = (\<lambda>_. ''l'')"
  by (simp_all add: exEnv_def)

lemma exSafe: "SafeString ''i'' 512" "SafeString ''b'' 512" "SafeString ''p'' 512" "SafeString ''s'' 512"
  "SafeString ''t'' 512" "SafeString ''q'' 512" "SafeString ''o'' 512"
  by code_simp+

lemma exMarshal_short:
  assumes "l \<in> set exTable"
  shows "length (exMarshal l) < 11"
proof -
  from assms indexOf_None obtain i where "indexOf exTable l = Some i" by (metis not_None_eq)
  with indexOf_nth [OF this] show ?thesis by (simp add: exMarshal_def) (simp add: exTable_def)
qed

lemma exMarshal_less [simp]: "l \<in> set exTable \<Longrightarrow> 11 \<le> n \<Longrightarrow> (n < length (exMarshal l)) = False"
  using exMarshal_short [of l] by simp

lemma exTable_simps [simp]: "emptyLedger exHash \<in> set exTable" "exLedger \<in> set exTable" "exSettled \<in> set exTable"
  by (simp_all add: exTable_def)

lemma exDecode_marshal: "exDecode (exMarshal l) = Some l"
proof (cases "indexOf exTable l")
  case None
  then show ?thesis by (simp add: exDecode_def exMarshal_def)
next
  case (Some i)
  with indexOf_nth [OF Some] show ?thesis by (simp add: exDecode_def exMarshal_def)
qed

lemma exEnvOk: "envOk exEnv exHash {exOwner} exDecode"
  by (simp add: envOk_def shaOk_def exDecode_marshal) (simp add: exEnv_def)

section \<open>The run\<close>

definition exBroker :: "brokerLedger \<Rightarrow> string fset \<Rightarrow> broker" where
  "exBroker l workers = \<lparr>bkCfg = \<lparr>cfAgent = \<lparr>acModel = ''m'', acToolSchemaMode = ''request'',
       acHostedTarget = \<lparr>htProjectEndpoint = ''e'', htAgentName = ''a'', htAgentVersion = ''1''\<rparr>\<rparr>,
       cfConfigDigest = exHash, cfAddr = [], cfStateDir = [], cfBearer = replicate 32 (CHR ''k''),
       cfAgentKitProof = [], cfOperationTimeout = 1\<rparr>,
     bkDisk = Some (exMarshal l), bkLedger = l, bkStorageError = False, bkActive = fmempty, bkWorkers = workers,
     bkNextReconcile = fmempty, bkCancelled = False\<rparr>"

definition exSys :: "brokerLedger \<Rightarrow> string fset \<Rightarrow> (string, worker) fmap \<Rightarrow> sys" where
  "exSys l workers w = \<lparr>syBroker = exBroker l workers, syThreads = fmempty, syWorkers = w\<rparr>"

lemma exBroker_fields [simp]: "bkLedger (exBroker l w) = l" "bkDisk (exBroker l w) = Some (exMarshal l)"
  "bkStorageError (exBroker l w) = False" "bkActive (exBroker l w) = fmempty" "bkWorkers (exBroker l w) = w"
  "bkCancelled (exBroker l w) = False" "bkNextReconcile (exBroker l w) = fmempty"
  by (simp_all add: exBroker_def)

lemma exBroker_update: "(exBroker l w)\<lparr>bkDisk := Some (exMarshal l'), bkLedger := l'\<rparr> = exBroker l' w"
  by (simp add: exBroker_def)

lemma exSave [simp]: "length d \<le> 33554432 \<Longrightarrow> saveBytes allIO d x = (None, Some d)"
  by (simp add: saveBytes_def allIO_def brokerMaxLedgerBytes_def)

lemma exCommitAt:
  assumes "change (bkLedger b) = Inr l'" "l' \<in> set exTable" "brokerLedgerReserveBytes l' \<le> 33554000"
    "\<not> bkStorageError b"
  shows "commitCapacityLocked exEnv allIO ordinary change b = (None, b\<lparr>bkDisk := Some (exMarshal l'), bkLedger := l'\<rparr>)"
  using assms exMarshal_short [OF assms(2)]
  by (simp add: commitCapacityLocked_def Let_def brokerMaxLedgerBytes_def)

lemma exCommit:
  assumes "change l = Inr l'" "l' \<in> set exTable" "brokerLedgerReserveBytes l' \<le> 33554000"
  shows "commitCapacityLocked exEnv allIO ordinary change (exBroker l w) = (None, exBroker l' w)"
  using exCommitAt [of change "exBroker l w" l' ordinary] assms by (simp add: exBroker_update)

lemma exReserve: "brokerLedgerReserveBytes exLedger \<le> 33554000" "brokerLedgerReserveBytes exSettled \<le> 33554000"
  "brokerLedgerReserveBytes (emptyLedger exHash) \<le> 33554000"
  by (simp_all add: brokerLedgerReserveBytes_def exLedger_def exSettled_def emptyLedger_def exSession_def go_map
      brokerPrincipalReserveBytes_def brokerOwnerReserveBytes_def)

lemma exAdmissible: "admissible exEnv exHash {exOwner} SettlePath exContext"
  by (simp add: admissible_def contextOk_def exContext_def ownerValid_def exOwner_def exSafe)

lemma exControlChange: "controlChange exEnv 0 SettlePath exContext (emptyLedger exHash) = Inr exLedger"
proof -
  have "putPrompt exHash (closePromptEntry (newPrompt exContext 100)) s = s\<lparr>bsPrompts := fmupd exHash exPrompt (bsPrompts s)\<rparr>" for s
    by (simp add: putPrompt_def closePromptEntry_def newPrompt_def exPrompt_def exContext_def)
  then show ?thesis
    by (simp add: controlChange_def brokerEnsureSession_def brokerRecordOperation_def brokerEnsurePrompt_def Let_def
      bindR_def emptyLedger_def brokerSettlementOperationLimit_def brokerOperationLimit_def exLedger_def exSession_def
      putSession_def putPrompt_def closePromptEntry_def exPrompt_def exContext_def)
qed

definition exJson :: brokerJson where
  "exJson = \<lparr>bjModelRequest = (\<lambda>_. None), bjFields = (\<lambda>_. None), bjSchema = (\<lambda>_. False), bjToolResult = (\<lambda>_. None),
     bjCompact = (\<lambda>_. None), bjOutcome = (\<lambda>_. None), bjMarshalRequest = (\<lambda>_ _. Some []), bjMediaType = (\<lambda>_. None),
     bjEvidence = (\<lambda>_. None), bjFrame = (\<lambda>_. None), bjErrorRaw = (\<lambda>_. None), bjUpstream = (\<lambda>_. None),
     bjInt = (\<lambda>_. None), bjResponses = \<lparr>jeEvent = (\<lambda>_. None), jeEventStrict = (\<lambda>_. None), jeResponse = (\<lambda>_. None),
       jeResponseStrict = (\<lambda>_. None), jeItemStrict = (\<lambda>_. None), jeFields = (\<lambda>_. None), jeArray = (\<lambda>_. None),
       jeString = (\<lambda>_. None)\<rparr>\<rparr>"

abbreviation exStep :: "sys \<Rightarrow> sys \<Rightarrow> bool" where
  "exStep \<equiv> sysStep exEnv exHash {exOwner} exDecode exJson"

abbreviation exReachable :: "sys \<Rightarrow> bool" where
  "exReachable \<equiv> reachable exEnv exHash {exOwner} exDecode exJson"

definition exConfig :: brokerConfiguration where
  "exConfig = bkCfg (exBroker (emptyLedger exHash) {||})"

lemma exOpen: "openBrokerStore exEnv exDecode True exHash (Some True) NotExist None allIO None =
    (Inr (emptyLedger exHash), Some (exMarshal (emptyLedger exHash)))"
  by (simp add: openBrokerStore_def saveBytes_def allIO_def brokerMaxLedgerBytes_def)

lemma exNew: "newLifecycleBroker exEnv brokerAgentKitProofValid allIO exConfig
    (Inr (emptyLedger exHash), Some (exMarshal (emptyLedger exHash))) = Inr (exBroker (emptyLedger exHash) {||})"
proof -
  have cfg: "length (cfBearer exConfig) = 32" "cfConfigDigest exConfig = exHash" "cfAgentKitProof exConfig = []"
      "cfOperationTimeout exConfig = 1"
    by (simp_all add: exConfig_def exBroker_def)
  have b: "\<lparr>bkCfg = exConfig, bkDisk = Some (exMarshal (emptyLedger exHash)), bkLedger = emptyLedger exHash,
      bkStorageError = False, bkActive = fmempty, bkWorkers = {||}, bkNextReconcile = fmempty, bkCancelled = False\<rparr> =
      exBroker (emptyLedger exHash) {||}"
    by (simp add: exConfig_def exBroker_def)
  have c: "commitLocked exEnv allIO recoveryChange (exBroker (emptyLedger exHash) {||}) =
      (None, exBroker (emptyLedger exHash) {||})"
    using exReserve by (simp add: commitLocked_def recovery_empty exCommit)
  show ?thesis using b c by (simp add: newLifecycleBroker_def Let_def cfg brokerAgentKitProofValid_def)
qed

text \<open>The states of the run: started, settlement requested, worker running, captured, settled.\<close>

definition ex0 :: sys where "ex0 = exSys (emptyLedger exHash) {||} fmempty"
definition ex1 :: sys where "ex1 = exSys exLedger {||} fmempty"
definition ex2 :: sys where "ex2 = exSys exLedger {|exHash|} (fmupd exHash WStarted fmempty)"
definition exCapture :: capture where
  "exCapture = \<lparr>cpClosing = {|exHash|}, cpAmbiguous = False, cpQuiescent = True, cpRemoteID = [],
     cpCreateState = CreateNone, cpRetiring = False\<rparr>"
definition ex3 :: sys where "ex3 = exSys exLedger {|exHash|} (fmupd exHash (WCaptured exCapture) fmempty)"
definition ex4 :: sys where "ex4 = exSys exSettled {|exHash|} (fmupd exHash WEnding fmempty)"

lemma exSys_fields [simp]: "syBroker (exSys l w ws) = exBroker l w" "syThreads (exSys l w ws) = fmempty"
  "syWorkers (exSys l w ws) = ws"
  by (simp_all add: exSys_def)

lemma exSys_update: "(exSys l w ws)\<lparr>syBroker := exBroker l' w'\<rparr> = exSys l' w' ws"
  "(exSys l w ws)\<lparr>syWorkers := ws'\<rparr> = exSys l w ws'"
  by (simp_all add: exSys_def)

lemma exReach0: "exReachable ex0"
  using reachable.started [OF exOpen exNew] by (simp add: ex0_def exSys_def)

lemma exStep1: "exStep ex0 ex1"
proof -
  have "control exEnv allIO 0 SettlePath exContext (exBroker (emptyLedger exHash) {||}) = (None, exBroker exLedger {||})"
    using exCommit [where change = "controlChange exEnv 0 SettlePath exContext", OF exControlChange] exReserve
    by (simp add: control_def Let_def emptyLedger_def [of exHash] exSettled_def)
  then show ?thesis
    using sysStep.control [OF exAdmissible, of allIO 0 ex0 None "exBroker exLedger {||}"]
    by (simp add: ex0_def ex1_def exSys_update)
qed

lemma exStep2: "exStep ex1 ex2"
  using sysStep.workerStarted [of exHash True 0 ex1 "exBroker exLedger {|exHash|}"]
  by (simp add: ex1_def ex2_def startReconcile_def exSys_def) (simp add: exBroker_def)

lemma exCaptured: "reconcileCapture (exBroker exLedger {|exHash|}) exHash = Some exCapture"
proof -
  have session: "fmlookup (blSessions exLedger) exHash = Some exSession" by (simp add: exLedger_def)
  have prompts: "bsPrompts exSession = fmupd exHash exPrompt fmempty" "bpInvocations exPrompt = fmempty"
    "bsRetired exSession = False" "bsRetiring exSession = False" "bsCreateState exSession = CreateNone"
    "bsRemoteID exSession = []" "toSettle exPrompt"
    by (simp_all add: exSession_def exPrompt_def toSettle_def)
  have closing: "ffilter (\<lambda>k. case fmlookup (bsPrompts exSession) k of None \<Rightarrow> False | Some p \<Rightarrow> toSettle p)
      (fmdom (bsPrompts exSession)) = {|exHash|}"
    by (auto simp: prompts)
  show ?thesis
    unfolding reconcileCapture_def exBroker_fields session option.case closing
    by (simp add: Let_def prompts exCapture_def fmexists_def fmpred_iff)
qed

lemma exStep3: "exStep ex2 ex3"
  using sysStep.captured [of ex2 exHash exCapture] exCaptured
  by (simp add: ex2_def ex3_def exSys_update)

lemma exSettledChange: "reconcileChange exEnv 0 exHash exCapture kind (exBroker exLedger w) exLedger = Inr exSettled"
proof -
  have session: "fmlookup (blSessions exLedger) exHash = Some exSession" by (simp add: exLedger_def)
  have "settlePrompts exEnv exHash exCapture kind 0 exSession =
      exSession\<lparr>bsPrompts := fmupd exHash (settlePrompt exHash exPrompt) fmempty\<rparr>"
    by (simp add: settlePrompts_def exSession_def exCapture_def fmap_ext)
  then show ?thesis
    by (simp add: reconcileChange_def session Let_def)
      (simp add: exCapture_def exSettled_def exLedger_def putSession_def exSession_def)
qed

lemma exCommitted: "reconcileCommit exEnv allIO 0 exHash exCapture (exBroker exLedger w) = exBroker exSettled w"
  using exReserve by (simp add: reconcileCommit_def commitLocked_def exSettledChange exCommit)

lemma exStep4: "exStep ex3 ex4"
proof -
  have "exStep ex3 (ex3\<lparr>syBroker := reconcileCommit exEnv allIO 0 exHash exCapture (syBroker ex3),
      syWorkers := fmupd exHash WEnding (syWorkers ex3)\<rparr>)"
    by (rule sysStep.settled) (simp_all add: ex3_def, simp add: exCapture_def)
  then show ?thesis by (simp add: ex3_def ex4_def exCommitted exSys_def)
qed

lemma exRun: "exStep\<^sup>*\<^sup>* ex0 ex4"
  using exStep1 exStep2 exStep3 exStep4
  by (meson r_into_rtranclp rtranclp.rtrancl_into_rtrancl)

lemma exReach1: "exReachable ex1"
  by (rule reachable.stepped [OF exReach0 exStep1])

lemma exReach3: "exReachable ex3"
  by (rule reachable.stepped [OF reachable.stepped [OF exReach1 exStep2] exStep3])

lemma exReach4: "exReachable ex4"
  by (rule reachable.stepped [OF exReach3 exStep4])

section \<open>A run that ends uncertain\<close>

text \<open>The same owner sends an inference request whose answer is lost: reserved, principal pinned,
  session created, inference intent recorded, and no acknowledgement.\<close>

definition exRequest :: responseRequest where
  "exRequest = \<lparr>rrInput = JStr ''hi'', rrStream = True, rrStore = True, rrPreviousResponseID = [],
     rrAgentSessionID = [], rrTools = []\<rparr>"

definition exLive :: "brokerLedger \<Rightarrow> broker" where
  "exLive l = (exBroker l {||})\<lparr>bkActive := fmupd exHash \<lparr>baPrompt = exHash, baCancelled = False\<rparr> fmempty\<rparr>"

definition exThread :: "brokerLedger \<Rightarrow> phase \<Rightarrow> sys" where
  "exThread l ph = \<lparr>syBroker = exLive l, syThreads = fmupd exHash \<lparr>thContext = exCall, thPhase = ph\<rparr> fmempty,
     syWorkers = fmempty\<rparr>"

lemma exLive_fields [simp]: "bkLedger (exLive l) = l" "bkStorageError (exLive l) = False"
  "fmlookup (bkActive (exLive l)) exHash = Some \<lparr>baPrompt = exHash, baCancelled = False\<rparr>"
  by (simp_all add: exLive_def)

lemma exThread_fields [simp]: "syBroker (exThread l ph) = exLive l" "syWorkers (exThread l ph) = fmempty"
  "fmlookup (syThreads (exThread l ph)) exHash = Some \<lparr>thContext = exCall, thPhase = ph\<rparr>"
  by (simp_all add: exThread_def)

lemma exThread_setPhase: "setPhase exHash \<lparr>thContext = exCall, thPhase = ph\<rparr> ph' (exLive l') (exThread l ph) = exThread l' ph'"
  by (simp add: setPhase_def exThread_def)

lemma exLive_update: "(exLive l)\<lparr>bkDisk := Some (exMarshal l'), bkLedger := l'\<rparr> = exLive l'"
  by (simp add: exLive_def exBroker_def)

lemma exCallLedger_table [simp]:
  "exCallLedger InvReserved CreateNone [] [] False \<in> set exTable"
  "exCallLedger InvReserved CreateNone [] exHash False \<in> set exTable"
  "exCallLedger InvReserved CreateIntent ''r'' exHash False \<in> set exTable"
  "exCallLedger InvReserved CreateKnown ''r'' exHash False \<in> set exTable"
  "exCallLedger InvIntent CreateKnown ''r'' exHash False \<in> set exTable"
  "exCallLedger InvUncertain CreateKnown ''r'' exHash True \<in> set exTable"
  by (simp_all add: exTable_def)

lemma exCallLedger_reserve: "brokerLedgerReserveBytes (exCallLedger st cs rid pd closing) \<le> 33554000"
  by (simp add: brokerLedgerReserveBytes_def exCallLedger_def exCallSession_def go_map
      brokerPrincipalReserveBytes_def brokerOwnerReserveBytes_def)

lemma exCommitLive:
  assumes "change l = Inr (exCallLedger st cs rid pd closing)" "exCallLedger st cs rid pd closing \<in> set exTable"
  shows "commitCapacityLocked exEnv allIO ordinary change (exLive l) = (None, exLive (exCallLedger st cs rid pd closing))"
    "commitLocked exEnv allIO change (exLive l) = (None, exLive (exCallLedger st cs rid pd closing))"
  using exCommitAt [of change "exLive l" _ ordinary, OF _ assms(2) exCallLedger_reserve]
    exCommitAt [of change "exLive l" _ False, OF _ assms(2) exCallLedger_reserve] assms(1)
  by (simp_all add: commitLocked_def exLive_update)

lemmas exCall_defs = exCallLedger_def exCallSession_def exCallPrompt_def exInvocation_def exCall_def

lemma exCall_keys [simp]: "bcInvocationSequence exCall = 1" "bcOwner exCall = exOwner" "bcOperationID exCall = ''o''"
  by (simp_all add: exCall_def exContext_def)

lemma exCallChanges:
  "createIntentChange 0 False exHash exHash ''r'' (exCallLedger InvReserved CreateNone [] exHash False) =
     Inr (exCallLedger InvReserved CreateIntent ''r'' exHash False)"
  "createResultChange True exHash (exCallLedger InvReserved CreateIntent ''r'' exHash False) =
     Inr (exCallLedger InvReserved CreateKnown ''r'' exHash False)"
  "inferenceIntentChange 0 False exHash exHash 1 (exCallLedger InvReserved CreateKnown ''r'' exHash False) =
     Inr (exCallLedger InvIntent CreateKnown ''r'' exHash False)"
  "finishChange exHash exHash 1 (Some ErrAmbiguous) (exCallLedger InvIntent CreateKnown ''r'' exHash False) =
     Inr (exCallLedger InvUncertain CreateKnown ''r'' exHash True)"
  "principalChange exHash (exCallLedger InvReserved CreateNone [] [] False) =
     Inr (exCallLedger InvReserved CreateNone [] exHash False)"
  by (simp_all add: createIntentChange_def createResultChange_def inferenceIntentChange_def finishChange_def
      onPrompt_def onSession_def onInvocation_def bindR_def putInvocation_def putPrompt_def putSession_def
      principalChange_def finishState_def closePromptEntry_def exCall_defs)

lemma exCallAdmissible: "admissible exEnv exHash {exOwner} ResponsesPath exCall"
  by (simp add: admissible_def contextOk_def exCall_def exContext_def ownerValid_def exOwner_def exSafe)

lemma exReserveChange: "reserveChange exEnv exJson 0 [] exCall exRequest (emptyLedger exHash) =
    Inr (exCallLedger InvReserved CreateNone [] [] False, exRequest)"
  by (simp add: reserveChange_def brokerEnsureSession_def brokerRecordOperation_def brokerEnsurePrompt_def Let_def
      bindR_def emptyLedger_def brokerOperationLimit_def brokerTranslatePrevious_def exRequest_def
      reservedInvocation_def putSession_def putPrompt_def exCall_defs exContext_def)

lemma exReserved: "reserveInvocation exEnv exJson allIO 0 exCall exRequest (exBroker (emptyLedger exHash) {||}) =
    (Inr exRequest, exLive (exCallLedger InvReserved CreateNone [] [] False))"
proof -
  have change: "dropRequest (reserveChange exEnv exJson 0 [] exCall exRequest (emptyLedger exHash)) =
      Inr (exCallLedger InvReserved CreateNone [] [] False)"
    by (simp add: exReserveChange dropRequest_def)
  note c = exCommit [where change = "\<lambda>l. dropRequest (reserveChange exEnv exJson 0 [] exCall exRequest l)",
      OF change exCallLedger_table(1) exCallLedger_reserve]
  have "cfAgentKitProof (bkCfg (exBroker l w)) = []" "bkCancelled (exBroker l w) = False" for l w
    by (simp_all add: exBroker_def)
  then show ?thesis using c by (simp add: reserveInvocation_def Let_def exReserveChange exLive_def)
qed

abbreviation exB1 :: sys where "exB1 \<equiv> exThread (exCallLedger InvReserved CreateNone [] [] False) PStart"
abbreviation exB5 :: sys where "exB5 \<equiv> exThread (exCallLedger InvReserved CreateIntent ''r'' exHash False) PCreating"
abbreviation exB7 :: sys where "exB7 \<equiv> exThread (exCallLedger InvIntent CreateKnown ''r'' exHash False) PSent"

definition exB9 :: sys where
  "exB9 = exSys (exCallLedger InvUncertain CreateKnown ''r'' exHash True) {||} fmempty"

lemma exCall_lookup [simp]:
  "fmlookup (blSessions (exCallLedger st cs rid pd closing)) exHash = Some (exCallSession st cs rid closing)"
  "bsCreateState (exCallSession st cs rid closing) = cs" "blPrincipalDigest (exCallLedger st cs rid pd closing) = pd"
  by (simp_all add: exCallLedger_def exCallSession_def)

lemma exAdvance:
  assumes "exReachable (exThread l ph)"
    and "exStep (exThread l ph) (setPhase exHash \<lparr>thContext = exCall, thPhase = ph\<rparr> ph' (exLive l') (exThread l ph))"
  shows "exReachable (exThread l' ph')"
  using reachable.stepped [OF assms] by (simp add: exThread_setPhase)

lemma exB1: "exReachable exB1"
proof -
  have "exStep ex0 (ex0\<lparr>syBroker := exLive (exCallLedger InvReserved CreateNone [] [] False), syThreads :=
      fmupd (ownerKey exEnv (bcOwner exCall)) \<lparr>thContext = exCall, thPhase = PStart\<rparr> (syThreads ex0)\<rparr>)"
    by (rule sysStep.reserved [OF exCallAdmissible, where io = allIO and now = 0 and request = exRequest and request' = exRequest])
      (simp add: ex0_def exReserved)
  then have "exStep ex0 exB1" by (simp add: ex0_def exSys_def exThread_def)
  with exReach0 show ?thesis by (rule reachable.stepped)
qed

lemma exB2: "exReachable (exThread (exCallLedger InvReserved CreateNone [] [] False) PNone)"
  using sysStep.readState [of exB1 exHash "\<lparr>thContext = exCall, thPhase = PStart\<rparr>" "exCallSession InvReserved CreateNone [] False"]
  by (intro exAdvance [OF exB1]) (simp add: readPhase_def)

lemma exB3: "exReachable (exThread (exCallLedger InvReserved CreateNone [] exHash False) PPinned)"
proof (rule exAdvance [OF exB2], rule sysStep.pinned)
  show "pinDigest exEnv allIO (principalDigest exEnv \<lparr>clAudience = [], clTenant = [], clObject = [], clApp = [], clAZP = []\<rparr>)
      (syBroker (exThread (exCallLedger InvReserved CreateNone [] [] False) PNone)) =
      (None, exLive (exCallLedger InvReserved CreateNone [] exHash False))"
    using exCommitLive(2) [where change = "principalChange exHash", OF exCallChanges(5)]
    by (simp add: pinDigest_def principalDigest_def)
qed simp_all

lemma exB4: "exReachable exB5"
proof (rule exAdvance [OF exB3])
  have "commitLocked exEnv allIO (createIntentChange 0 False exHash exHash ''r'')
      (exLive (exCallLedger InvReserved CreateNone [] exHash False)) =
      (None, exLive (exCallLedger InvReserved CreateIntent ''r'' exHash False))"
    using exCommitLive(2) [where change = "createIntentChange 0 False exHash exHash ''r''", OF exCallChanges(1)] by simp
  then show "exStep (exThread (exCallLedger InvReserved CreateNone [] exHash False) PPinned)
      (setPhase exHash \<lparr>thContext = exCall, thPhase = PPinned\<rparr> PCreating
        (exLive (exCallLedger InvReserved CreateIntent ''r'' exHash False))
        (exThread (exCallLedger InvReserved CreateNone [] exHash False) PPinned))"
    using sysStep.createIntent [where io = allIO and now = 0 and stopped = False and rid = "''r''" and key = exHash and r = None]
    by (simp add: afterCommit_def)
qed

lemma exB6: "exReachable (exThread (exCallLedger InvReserved CreateKnown ''r'' exHash False) PReady)"
proof (rule exAdvance [OF exB4])
  have "commitLocked exEnv allIO (createResultChange True exHash)
      (exLive (exCallLedger InvReserved CreateIntent ''r'' exHash False)) =
      (None, exLive (exCallLedger InvReserved CreateKnown ''r'' exHash False))"
    using exCommitLive(2) [where change = "createResultChange True exHash", OF exCallChanges(2)] by simp
  then show "exStep exB5 (setPhase exHash \<lparr>thContext = exCall, thPhase = PCreating\<rparr> PReady
        (exLive (exCallLedger InvReserved CreateKnown ''r'' exHash False)) exB5)"
    using sysStep.createResult [where io = allIO and created = True and key = exHash and r = None and e = ErrClosed]
    by (simp add: afterCommit_def)
qed

lemma exB7: "exReachable exB7"
proof (rule exAdvance [OF exB6])
  have "commitLocked exEnv allIO (inferenceIntentChange 0 False exHash exHash 1)
      (exLive (exCallLedger InvReserved CreateKnown ''r'' exHash False)) =
      (None, exLive (exCallLedger InvIntent CreateKnown ''r'' exHash False))"
    using exCommitLive(2) [where change = "inferenceIntentChange 0 False exHash exHash 1", OF exCallChanges(3)] by simp
  then show "exStep (exThread (exCallLedger InvReserved CreateKnown ''r'' exHash False) PReady)
      (setPhase exHash \<lparr>thContext = exCall, thPhase = PReady\<rparr> PSent
        (exLive (exCallLedger InvIntent CreateKnown ''r'' exHash False))
        (exThread (exCallLedger InvReserved CreateKnown ''r'' exHash False) PReady))"
    using sysStep.inferenceIntent [where io = allIO and now = 0 and stopped = False and key = exHash and r = None]
    by (simp add: afterCommit_def)
qed

definition exB8 :: sys where
  "exB8 = exThread (exCallLedger InvIntent CreateKnown ''r'' exHash False) (PDone (Some ErrAmbiguous))"

lemma exStep8: "exStep exB7 exB8"
proof -
  have "exStep exB7 (setPhase exHash \<lparr>thContext = exCall, thPhase = PSent\<rparr> (PDone (Some ErrAmbiguous))
      (exLive (exCallLedger InvIntent CreateKnown ''r'' exHash False)) exB7)"
    using sysStep.failed [where S = exB7 and key = exHash and e = ErrAmbiguous] by (simp add: mayFail_def)
  then show ?thesis by (simp add: exThread_setPhase exB8_def)
qed

lemma exDropped: "fmdrop k (fmupd k v fmempty) = fmempty"
  by (rule fmap_ext) simp

lemma exStep9: "exStep exB8 exB9"
proof -
  have "commitLocked exEnv allIO (finishChange exHash exHash 1 (Some ErrAmbiguous))
      (exLive (exCallLedger InvIntent CreateKnown ''r'' exHash False)) =
      (None, exLive (exCallLedger InvUncertain CreateKnown ''r'' exHash True))"
    using exCommitLive(2) [where change = "finishChange exHash exHash 1 (Some ErrAmbiguous)", OF exCallChanges(4)] by simp
  then have "finishInvocation exEnv allIO exCall (Some ErrAmbiguous) (syBroker exB8) =
      exBroker (exCallLedger InvUncertain CreateKnown ''r'' exHash True) {||}"
    by (simp add: finishInvocation_def Let_def exB8_def) (simp add: exLive_def exBroker_def exDropped)
  then show ?thesis
    using sysStep.finished [where S = exB8 and key = exHash and io = allIO and err = "Some ErrAmbiguous" and E = exEnv
      and th = "\<lparr>thContext = exCall, thPhase = PDone (Some ErrAmbiguous)\<rparr>"]
    by (simp add: exB8_def exB9_def exSys_def exThread_def exDropped)
qed

lemma exRun79: "exStep\<^sup>*\<^sup>* exB7 exB9"
  using exStep8 exStep9 by (rule converse_rtranclp_into_rtranclp [OF _ r_into_rtranclp])

lemma exB9: "exReachable exB9"
  by (rule reachable_run [OF exB7 exRun79])

section \<open>A run that ends retired\<close>

lemma exIdle_table [simp]: "exIdle r \<in> set exTable"
  by (cases r) (simp_all add: exTable_def)

lemma exIdle_reserve: "brokerLedgerReserveBytes (exIdle r) \<le> 33554000"
  by (simp add: brokerLedgerReserveBytes_def exIdle_def putSession_def emptyLedger_def go_map
      brokerPrincipalReserveBytes_def brokerOwnerReserveBytes_def)

lemma exIdle_lookup [simp]: "fmlookup (blSessions (exIdle r)) exHash = Some (exIdleSession r)"
  by (simp add: exIdle_def putSession_def)

lemma exRetireAdmissible: "admissible exEnv exHash {exOwner} RetirePath exRetire"
  by (simp add: admissible_def contextOk_def exRetire_def exContext_def ownerValid_def exOwner_def exSafe)

lemma exRetireChange: "controlChange exEnv 0 RetirePath exRetire (emptyLedger exHash) = Inr (exIdle False)"
proof -
  have [simp]: "fmmap closePromptEntry fmempty = fmempty" by (rule fmap_ext) simp
  show ?thesis
    by (simp add: controlChange_def brokerEnsureSession_def brokerRecordOperation_def Let_def bindR_def emptyLedger_def
        brokerRetirementOperationLimit_def brokerSettlementOperationLimit_def brokerOperationLimit_def exIdle_def
        exIdleSession_def putSession_def exRetire_def exContext_def)
qed

definition exR1 :: sys where "exR1 = exSys (exIdle False) {||} fmempty"
definition exR2 :: sys where "exR2 = exSys (exIdle False) {|exHash|} (fmupd exHash WStarted fmempty)"
definition exRetireCapture :: capture where
  "exRetireCapture = \<lparr>cpClosing = {||}, cpAmbiguous = False, cpQuiescent = True, cpRemoteID = [],
     cpCreateState = CreateNone, cpRetiring = True\<rparr>"
definition exR3 :: sys where "exR3 = exSys (exIdle False) {|exHash|} (fmupd exHash (WCaptured exRetireCapture) fmempty)"
definition exR4 :: sys where "exR4 = exSys (exIdle True) {|exHash|} (fmupd exHash WEnding fmempty)"

lemma exR1: "exReachable exR1"
proof -
  have "control exEnv allIO 0 RetirePath exRetire (exBroker (emptyLedger exHash) {||}) = (None, exBroker (exIdle False) {||})"
    using exCommit [where change = "controlChange exEnv 0 RetirePath exRetire", OF exRetireChange exIdle_table exIdle_reserve]
    by (simp add: control_def Let_def emptyLedger_def [of exHash])
  then have "exStep ex0 exR1"
    using sysStep.control [OF exRetireAdmissible, of allIO 0 ex0 None "exBroker (exIdle False) {||}"]
    by (simp add: ex0_def exR1_def exSys_update)
  with exReach0 show ?thesis by (rule reachable.stepped)
qed

lemma exR2: "exReachable exR2"
proof (rule reachable.stepped [OF exR1])
  show "exStep exR1 exR2"
    using sysStep.workerStarted [of exHash True 0 exR1 "exBroker (exIdle False) {|exHash|}"]
    by (simp add: exR1_def exR2_def startReconcile_def exSys_def) (simp add: exBroker_def)
qed

lemma exR3: "exReachable exR3"
proof (rule reachable.stepped [OF exR2])
  have "reconcileCapture (exBroker (exIdle False) {|exHash|}) exHash = Some exRetireCapture"
    by (simp add: reconcileCapture_def Let_def exIdleSession_def exRetireCapture_def fmexists_def)
  then show "exStep exR2 exR3"
    using sysStep.captured [of exR2 exHash exRetireCapture] by (simp add: exR2_def exR3_def exSys_update)
qed

lemma exRetiredChange:
  "reconcileChange exEnv 0 exHash exRetireCapture kind (exBroker (exIdle False) w) (exIdle False) = Inr (exIdle True)"
proof -
  have "settlePrompts exEnv exHash exRetireCapture kind 0 (exIdleSession False) = exIdleSession False"
    by (simp add: settlePrompts_def exIdleSession_def fmap_ext)
  then show ?thesis
    by (simp add: reconcileChange_def Let_def)
      (simp add: exRetireCapture_def exIdle_def putSession_def exIdleSession_def retirementProof_def)
qed

lemma exR4: "exReachable exR4"
proof (rule reachable.stepped [OF exR3])
  have "reconcileCommit exEnv allIO 0 exHash exRetireCapture (exBroker (exIdle False) w) = exBroker (exIdle True) w" for w
    using exIdle_reserve by (simp add: reconcileCommit_def commitLocked_def exRetiredChange exCommit)
  moreover have "exStep exR3 (exR3\<lparr>syBroker := reconcileCommit exEnv allIO 0 exHash exRetireCapture (syBroker exR3),
      syWorkers := fmupd exHash WEnding (syWorkers exR3)\<rparr>)"
    by (rule sysStep.settled) (simp_all add: exR3_def, simp add: exRetireCapture_def)
  ultimately show "exStep exR3 exR4" by (simp add: exR3_def exR4_def exSys_def)
qed

end
