(* ===== verification/BrokerFacts.thy ===== *)
theory BrokerFacts
  imports BrokerExample
begin

text \<open>
  What single operations of the lifecycle broker guarantee, for every broker state: the atomic
  commit and its byte reserve, the sticky storage error, idempotency and conflicts of operation
  ids, the barrier a closed prompt is, renewals, and what the replies of the control routes
  prove.
\<close>

section \<open>Refusals\<close>

lemma commit_refused: "change (bkLedger b) = Inl e \<Longrightarrow> \<exists>e'. commitCapacityLocked E io ordinary change b = (Some e', b)"
  by (simp add: commitCapacityLocked_def)



section \<open>Commits\<close>

text \<open>A commit is atomic. Either it succeeds, and the new ledger is both in memory and on disk; or
  it refuses, and nothing at all changed; or the save failed, and then the broker reports a
  storage error for ever, every context is cancelled, memory still holds the old ledger and the
  disk holds the old file or the complete new one.\<close>

theorem commit_atomic:
  "case commitCapacityLocked E io ordinary change b of (r, b') \<Rightarrow>
    (r = None \<and> change (bkLedger b) = Inr (bkLedger b') \<and>
       b' = b\<lparr>bkLedger := bkLedger b', bkDisk := Some (marshalLedger E (bkLedger b'))\<rparr>) \<or>
    (r \<noteq> None \<and> b' = b) \<or>
    (r = Some ErrStorage \<and> bkLedger b' = bkLedger b \<and> bkStorageError b' \<and> bkCancelled b' \<and>
       fmpred (\<lambda>_ a. baCancelled a) (bkActive b') \<and>
       (\<exists>nxt. change (bkLedger b) = Inr nxt \<and>
         (bkDisk b' = bkDisk b \<or> bkDisk b' = Some (marshalLedger E nxt))))"
proof -
  obtain r b' where c: "commitCapacityLocked E io ordinary change b = (r, b')" by fastforce
  from c show ?thesis
  proof (cases rule: commit_cases)
    case refused
    with c show ?thesis by simp
  next
    case (failed nxt)
    have "fmpred (\<lambda>_ a. baCancelled a) (bkActive b')"
      using failed(4) by (auto simp: failStorageLocked_def fmpred_iff)
    moreover have "bkLedger b' = bkLedger b" "bkStorageError b'" "bkCancelled b'"
        "bkDisk b' = bkDisk b \<or> bkDisk b' = Some (marshalLedger E nxt)"
      using failed(4) by auto
    ultimately show ?thesis using c failed(1,2) by simp
  next
    case (saved nxt)
    with c show ?thesis by simp
  qed
qed

text \<open>Ordinary growth keeps the byte reserve. A commit of an admission, a renewal or a completion that
  changed the ledger left room for 64 KiB for every session not retired and for the principal.\<close>

theorem ordinary_commit_reserve:
  assumes "commitCapacityLocked E io True change b = (None, b')"
    and "marshalLedger E (bkLedger b') \<noteq> marshalLedger E (bkLedger b)"
  shows "length (marshalLedger E (bkLedger b')) + brokerLedgerReserveBytes (bkLedger b') \<le> brokerMaxLedgerBytes"
proof (rule ccontr)
  assume big: "\<not> ?thesis"
  from assms(1) have nxt: "change (bkLedger b) = Inr (bkLedger b')" "\<not> bkStorageError b"
    by (auto elim: commit_cases)
  from big have "int brokerMaxLedgerBytes - int (brokerLedgerReserveBytes (bkLedger b')) <
      int (length (marshalLedger E (bkLedger b')))"
    by linarith
  with nxt assms show False by (simp add: commitCapacityLocked_def Let_def)
qed

theorem ordinary_commit_reserve_witness:
  "length (exMarshal exLedger) + brokerLedgerReserveBytes exLedger \<le> brokerMaxLedgerBytes"
proof -
  have "exMarshal exLedger \<noteq> exMarshal (emptyLedger exHash)"
  proof
    assume "exMarshal exLedger = exMarshal (emptyLedger exHash)"
    then have "exLedger = emptyLedger exHash" using exDecode_marshal by (metis option.inject)
    then have "fmlookup (blSessions exLedger) exHash = fmlookup (blSessions (emptyLedger exHash)) exHash"
      by (rule arg_cong)
    then show False by (simp add: exLedger_def) (simp add: emptyLedger_def)
  qed
  with ordinary_commit_reserve [OF exCommit [where change = "controlChange exEnv 0 SettlePath exContext" and ordinary = True,
        OF exControlChange exTable_simps(2) exReserve(1)]]
  show ?thesis by simp
qed

text \<open>C27: A storage error is final. Once it is reported, every control route and the status route answer
  503, the health check answers 503, no commit and no reservation changes anything, and no worker
  starts.\<close>

theorem storage_error_final:
  assumes "bkStorageError b"
  shows "serveControl E io now path c contextDigest b = (ErrorReply 503, b) \<and>
    commitCapacityLocked E io ordinary change b = (Some ErrStorage, b) \<and>
    reserveInvocation E B io now c request b = (Inl ErrStorage, b) \<and>
    recordIdentity E io al c rid b = (Some ErrStorage, b) \<and>
    startReconcile key force now b = (False, b) \<and>
    admitRequest b (r\<lparr>rqPath := ''/healthz'', rqMethod := ''GET''\<rparr>) = Reply 503"
proof -
  have commit: "commitCapacityLocked E io ord ch b = (Some ErrStorage, b)" for ord ch
    using assms by (simp add: commitCapacityLocked_def)
  have "control E io now path c b = (Some ErrStorage, b)"
    unfolding control_def Let_def commit by simp
  moreover have "brokerErrorStatus ErrStorage = 503" by (simp add: brokerErrorStatus_def)
  moreover have "snd (startReconcile k True now b) = b" for k using assms by (simp add: startReconcile_def)
  ultimately have "serveControl E io now path c contextDigest b = (ErrorReply 503, b)"
    using assms unfolding serveControl_def Let_def by (cases "path = StatusPath") (simp_all add: StatusPath_def SettlePath_def RetirePath_def)
  then show ?thesis using assms commit
    by (simp add: reserveInvocation_def Let_def recordIdentity_def startReconcile_def admitRequest_def)
qed

theorem storage_error_final_witness:
  "startReconcile exHash True 0 (failStorageLocked (exBroker exLedger {||})) = (False, failStorageLocked (exBroker exLedger {||}))"
  using storage_error_final [of "failStorageLocked (exBroker exLedger {||})"] by simp

section \<open>Operation ids\<close>



section \<open>The barrier of a closed prompt\<close>

text \<open>Closing is a barrier. For a prompt that is closing, or whose lease has run out, no reservation
  succeeds, no session creation and no inference is started, and no completion is recorded: the
  changes of these critical sections are refused.\<close>

theorem closed_prompt_barrier:
  assumes s: "fmlookup (blSessions l) key = Some s" and p: "fmlookup (bsPrompts s) pk = Some p"
    and closed: "bpClosing p \<or> bpLeaseExpiresAt p \<le> now"
  shows "createIntentChange now stopped key pk rid l = Inl ErrClosed \<and>
    inferenceIntentChange now stopped key pk seq l = Inl ErrClosed \<and>
    (\<exists>e. completedChange u now key pk seq summary l = Inl e) \<and>
    (ownerKey E (bcOwner c) = key \<and> promptKey E c = pk \<longrightarrow> (\<exists>e. reserveChange E B now pr c request l = Inl e))"
proof -
  have "\<exists>e. completedChange u now key pk seq summary l = Inl e"
    using s p closed by (auto simp: completedChange_def split: option.splits)
  moreover have "\<exists>e. reserveChange E B now pr c request l = Inl e" if k: "ownerKey E (bcOwner c) = key" "promptKey E c = pk"
  proof -
    have ensure: "brokerEnsureSession E l c = Inr (s, l)" using s k by (simp add: brokerEnsureSession_def)
    show ?thesis
    proof (cases "brokerRecordOperation E s ResponsesPath c")
      case (Inl e)
      then show ?thesis using k by (auto simp: reserveChange_def ensure Let_def bindR_def)
    next
      case (Inr r)
      then obtain d s1 where r: "brokerRecordOperation E s ResponsesPath c = Inr (d, s1)" by (cases r) simp
      then have "bsPrompts s1 = bsPrompts s"
        by (auto simp: brokerRecordOperation_def Let_def split: option.splits if_splits)
      then have "brokerEnsurePrompt E s1 c = Inr (p, s1)" using p k by (simp add: brokerEnsurePrompt_def)
      with r closed show ?thesis by (auto simp: reserveChange_def ensure Let_def bindR_def)
    qed
  qed
  ultimately show ?thesis
    using s p closed by (auto simp: createIntentChange_def inferenceIntentChange_def onSession_def onPrompt_def bindR_def)
qed

theorem closed_prompt_barrier_witness:
  "inferenceIntentChange 0 False exHash exHash 1 exLedger = Inl ErrClosed"
  using closed_prompt_barrier [of exLedger exHash exSession exHash exPrompt 0 False "[]" 1]
  by (simp add: exLedger_def exSession_def exPrompt_def)

section \<open>Renewal\<close>

text \<open>A renewal that the broker accepts never shortens a lease. The prompt either keeps its lease, or
  had an open, unexpired lease of exactly the preceding generation and gets the one of the request,
  which ends no earlier; nothing else of the prompt changes.\<close>

theorem renewal_extends:
  assumes c: "controlChange E now RenewPath c l = Inr l'"
    and s: "fmlookup (blSessions l) (ownerKey E (bcOwner c)) = Some s" and p: "fmlookup (bsPrompts s) (promptKey E c) = Some p"
  shows "\<exists>s'. fmlookup (blSessions l') (ownerKey E (bcOwner c)) = Some s' \<and>
    (fmlookup (bsPrompts s') (promptKey E c) = Some p \<or>
     (\<not> bpClosing p \<and> \<not> bpSettled p \<and> now < bpLeaseExpiresAt p \<and> bcLeaseGeneration c = bpLeaseGeneration p + 1 \<and>
      (\<exists>t. (case parseTime E (bcLeaseExpiresAt c) of None \<Rightarrow> 0 | Some x \<Rightarrow> x) = t \<and> bpLeaseExpiresAt p \<le> t \<and>
        fmlookup (bsPrompts s') (promptKey E c) = Some (p\<lparr>bpLeaseGeneration := bcLeaseGeneration c, bpLeaseExpiresAt := t\<rparr>))))"
proof -
  have ensure: "brokerEnsureSession E l c = Inr (s, l)" using s by (simp add: brokerEnsureSession_def)
  obtain d s1 where r: "brokerRecordOperation E s RenewPath c = Inr (d, s1)"
    using c by (auto simp: controlChange_def ensure Let_def bindR_Inr)
  then have "bsPrompts s1 = bsPrompts s"
    by (auto simp: brokerRecordOperation_def Let_def split: option.splits if_splits)
  then have prompt: "brokerEnsurePrompt E s1 c = Inr (p, s1)" "fmlookup (bsPrompts s1) (promptKey E c) = Some p"
    using p by (simp_all add: brokerEnsurePrompt_def)
  have paths: "RenewPath \<noteq> RetirePath" "RenewPath \<noteq> SettlePath"
    by (simp_all add: RenewPath_def RetirePath_def SettlePath_def)
  show ?thesis
    using c by (simp add: controlChange_def ensure r prompt(1) paths Let_def bindR_def split: if_splits)
      (auto simp: prompt(2))
qed

definition exRenew :: brokerContext where
  "exRenew = exContext\<lparr>bcOperationID := ''r'', bcLeaseGeneration := 2\<rparr>"

theorem renewal_extends_witness:
  "\<exists>l' s'. controlChange exEnv 0 RenewPath exRenew (exCallLedger InvReserved CreateNone [] [] False) = Inr l' \<and>
    fmlookup (blSessions l') exHash = Some s' \<and> fmlookup (bsPrompts s') exHash \<noteq> None"
proof -
  have own: "bcOwner exRenew = exOwner" "bcOperationID exRenew = ''r''" "bcLeaseGeneration exRenew = 2"
    by (simp_all add: exRenew_def exContext_def)
  obtain l' where c: "controlChange exEnv 0 RenewPath exRenew (exCallLedger InvReserved CreateNone [] [] False) = Inr l'"
    by (simp add: controlChange_def brokerEnsureSession_def brokerRecordOperation_def brokerEnsurePrompt_def Let_def own
        bindR_def RenewPath_def SettlePath_def RetirePath_def brokerOperationLimit_def go_map exCall_defs exContext_def)
  have prompt: "fmlookup (bsPrompts (exCallSession InvReserved CreateNone [] False)) exHash = Some (exCallPrompt InvReserved False)"
    by (simp add: exCallSession_def)
  from renewal_extends [OF c, of "exCallSession InvReserved CreateNone [] False" "exCallPrompt InvReserved False"] prompt c
  show ?thesis by (auto simp: own)
qed

section \<open>Replies\<close>

lemma response_blocked:
  "crState (controlResponseLocked E b c d) \<noteq> ''blocked'' \<longrightarrow> crAmbiguousInvocations (controlResponseLocked E b c d) = 0 \<and>
     \<not> crCreatePending (controlResponseLocked E b c d)"
  by (auto simp: controlResponseLocked_def Let_def openResponse_def split: option.split)

lemma sessionResponse_fields [simp]:
  "crSettlementProven (sessionResponse s r) = (bsRetired s \<or> crSettlementProven r)"
  "crRetirementProven (sessionResponse s r) = bsRetired s"
  by (simp_all add: sessionResponse_def Let_def)

lemma promptResponse_fields [simp]:
  "crSettlementProven (promptResponse E p r) = bpSettled p" "crRetirementProven (promptResponse E p r) = crRetirementProven r"
  "bpSettled p \<Longrightarrow> crProofDigest (promptResponse E p r) = bpProofDigest p"
  by (simp_all add: promptResponse_def Let_def)

text \<open>What the flags of a response mean for the ledger.\<close>

lemma response_settled:
  assumes "crSettlementProven (controlResponseLocked E b c d)" "bcPromptID c \<noteq> []"
    and s: "fmlookup (blSessions (bkLedger b)) (ownerKey E (bcOwner c)) = Some s"
    and p: "fmlookup (bsPrompts s) (promptKey E c) = Some p"
  shows "bpSettled p \<and> crProofDigest (controlResponseLocked E b c d) = bpProofDigest p"
  using assms by (auto simp: controlResponseLocked_def Let_def split: if_splits)

lemma response_retired:
  assumes "crRetirementProven (controlResponseLocked E b c d)"
  shows "\<exists>s. fmlookup (blSessions (bkLedger b)) (ownerKey E (bcOwner c)) = Some s \<and> bsRetired s"
  using assms by (auto simp: controlResponseLocked_def Let_def openResponse_def split: if_splits option.splits)

lemma settled_prompt_exists:
  assumes "controlChange E now SettlePath c l = Inr l'"
  shows "\<exists>s p. fmlookup (blSessions l') (ownerKey E (bcOwner c)) = Some s \<and> fmlookup (bsPrompts s) (promptKey E c) = Some p"
  using assms by (cases rule: controlChange_cases) (auto simp: SettlePath_def RetirePath_def)

text \<open>C26: A 200 reply to a settle request is a proof. The prompt named by the request is settled in the
  ledger, which is on disk, and the reply carries that prompt's proof digest; otherwise the
  broker answers 409 or an error.\<close>

theorem settle_reply_proves:
  assumes r: "serveControl E io now SettlePath c contextDigest b = (ControlReply 200 r, b')" and c: "bcPromptID c \<noteq> []"
  shows "bkDisk b' = Some (marshalLedger E (bkLedger b')) \<and> \<not> bkStorageError b' \<and>
    (\<exists>s p. fmlookup (blSessions (bkLedger b')) (ownerKey E (bcOwner c)) = Some s \<and>
      fmlookup (bsPrompts s) (promptKey E c) = Some p \<and> bpSettled p \<and> crProofDigest r = bpProofDigest p)"
proof -
  have paths: "SettlePath \<noteq> StatusPath" "SettlePath \<noteq> RetirePath" "SettlePath \<noteq> RenewPath"
    by (simp_all add: SettlePath_def StatusPath_def RetirePath_def RenewPath_def)
  obtain e b1 where ctl: "control E io now SettlePath c b = (e, b1)" by fastforce
  have none: "e = None" using r ctl paths by (cases e) (simp_all add: serveControl_def)
  let ?b2 = "snd (startReconcile (ownerKey E (bcOwner c)) True now b1)"
  have b2: "b' = ?b2" "r = controlResponseLocked E ?b2 c contextDigest" "crSettlementProven r" "\<not> bkStorageError ?b2"
    using r ctl none paths by (auto simp: serveControl_def Let_def split: if_splits)
  have same: "bkLedger ?b2 = bkLedger b1" "bkDisk ?b2 = bkDisk b1" by (simp_all add: startReconcile_def)
  obtain b0 ordinary where commit: "commitCapacityLocked E io ordinary (controlChange E now SettlePath c) b = (None, b0)"
    and b1: "bkLedger b1 = bkLedger b0" "bkDisk b1 = bkDisk b0"
    using ctl none by (auto simp: control_def Let_def cancelActive_def split: option.splits prod.splits if_splits)
  from commit have disk: "bkDisk b0 = Some (marshalLedger E (bkLedger b0))"
    and change: "controlChange E now SettlePath c (bkLedger b) = Inr (bkLedger b0)"
    by (auto elim!: commit_cases)
  from settled_prompt_exists [OF change] obtain s p where s: "fmlookup (blSessions (bkLedger b0)) (ownerKey E (bcOwner c)) = Some s"
    "fmlookup (bsPrompts s) (promptKey E c) = Some p" by blast
  with response_settled [of E ?b2 c contextDigest s p] b2 c same b1 disk show ?thesis by auto
qed

text \<open>A 200 reply to a retire request is a proof of retirement: the session is retired in the ledger,
  which is on disk.\<close>

theorem retire_reply_proves:
  assumes r: "serveControl E io now RetirePath c contextDigest b = (ControlReply 200 r, b')"
  shows "bkDisk b' = Some (marshalLedger E (bkLedger b')) \<and> \<not> bkStorageError b' \<and>
    (\<exists>s. fmlookup (blSessions (bkLedger b')) (ownerKey E (bcOwner c)) = Some s \<and> bsRetired s)"
proof -
  have paths: "RetirePath \<noteq> StatusPath" "SettlePath \<noteq> RetirePath" "RetirePath \<noteq> RenewPath"
    by (simp_all add: SettlePath_def StatusPath_def RetirePath_def RenewPath_def)
  obtain e b1 where ctl: "control E io now RetirePath c b = (e, b1)" by fastforce
  have none: "e = None" using r ctl paths by (cases e) (simp_all add: serveControl_def)
  let ?b2 = "snd (startReconcile (ownerKey E (bcOwner c)) True now b1)"
  have b2: "b' = ?b2" "r = controlResponseLocked E ?b2 c contextDigest" "crRetirementProven r" "\<not> bkStorageError ?b2"
    using r ctl none paths by (auto simp: serveControl_def Let_def split: if_splits)
  have same: "bkDisk ?b2 = bkDisk b1" "bkLedger ?b2 = bkLedger b1" by (simp_all add: startReconcile_def)
  obtain b0 ordinary where commit: "commitCapacityLocked E io ordinary (controlChange E now RetirePath c) b = (None, b0)"
    and b1: "bkLedger b1 = bkLedger b0" "bkDisk b1 = bkDisk b0"
    using ctl none by (auto simp: control_def Let_def cancelActive_def split: option.splits prod.splits if_splits)
  from commit have "bkDisk b0 = Some (marshalLedger E (bkLedger b0))" by (auto elim!: commit_cases)
  with response_retired [of E ?b2 c contextDigest] b2 same b1 show ?thesis by auto
qed

lemma exSettleAgain: "controlChange exEnv 0 SettlePath exContext exSettled = Inr exSettled"
  by (simp add: controlChange_def brokerEnsureSession_def brokerRecordOperation_def brokerEnsurePrompt_def Let_def
      bindR_def SettlePath_def RetirePath_def exSettled_def putSession_def putPrompt_def closePromptEntry_def
      settlePrompt_def exSession_def exPrompt_def exContext_def)

theorem settle_reply_proves_witness:
  "\<exists>r b'. serveControl exEnv allIO 0 SettlePath exContext [] (exBroker exSettled {||}) = (ControlReply 200 r, b') \<and>
    bkDisk b' = Some (marshalLedger exEnv (bkLedger b'))"
proof -
  have own: "bcOwner exContext = exOwner" "bcPromptID exContext = ''q''" by (simp_all add: exContext_def)
  have ctl: "control exEnv allIO 0 SettlePath exContext (exBroker exSettled {||}) = (None, exBroker exSettled {||})"
    using exCommit [where change = "controlChange exEnv 0 SettlePath exContext", OF exSettleAgain] exReserve
    by (simp add: control_def Let_def)
  have start: "startReconcile exHash True 0 (exBroker exSettled {||}) = (True, exBroker exSettled {|exHash|})"
    by (simp add: startReconcile_def) (simp add: exBroker_def)
  have "crSettlementProven (controlResponseLocked exEnv (exBroker exSettled {|exHash|}) exContext [])"
    by (simp add: controlResponseLocked_def Let_def own openResponse_def sessionResponse_def promptResponse_def exSettled_def
        exSession_def settlePrompt_def exPrompt_def fmsum_0_iff)
  then obtain r b' where "serveControl exEnv allIO 0 SettlePath exContext [] (exBroker exSettled {||}) = (ControlReply 200 r, b')"
    using ctl start own by (simp add: serveControl_def Let_def SettlePath_def StatusPath_def RenewPath_def RetirePath_def)
  with settle_reply_proves [OF this] own show ?thesis by auto
qed

lemma exRetireAgain: "controlChange exEnv 0 RetirePath exRetire (exIdle True) = Inr (exIdle True)"
proof -
  have [simp]: "fmmap closePromptEntry fmempty = fmempty" by (rule fmap_ext) simp
  show ?thesis
    by (simp add: controlChange_def brokerEnsureSession_def brokerRecordOperation_def Let_def
        bindR_def exIdle_def putSession_def exIdleSession_def exRetire_def exContext_def)
qed

theorem retire_reply_proves_witness:
  "\<exists>r b'. serveControl exEnv allIO 0 RetirePath exRetire [] (exBroker (exIdle True) {||}) = (ControlReply 200 r, b') \<and>
    bkDisk b' = Some (marshalLedger exEnv (bkLedger b'))"
proof -
  have own: "bcOwner exRetire = exOwner" "bcPromptID exRetire = []" by (simp_all add: exRetire_def exContext_def)
  have ctl: "control exEnv allIO 0 RetirePath exRetire (exBroker (exIdle True) {||}) = (None, exBroker (exIdle True) {||})"
    using exCommit [where change = "controlChange exEnv 0 RetirePath exRetire", OF exRetireAgain] exIdle_reserve
    by (simp add: control_def Let_def own)
  have start: "startReconcile exHash True 0 (exBroker (exIdle True) {||}) = (True, exBroker (exIdle True) {|exHash|})"
    by (simp add: startReconcile_def) (simp add: exBroker_def)
  have "crRetirementProven (controlResponseLocked exEnv (exBroker (exIdle True) {|exHash|}) exRetire [])"
    by (simp add: controlResponseLocked_def Let_def own openResponse_def sessionResponse_def exIdleSession_def go_map)
  then obtain r b' where "serveControl exEnv allIO 0 RetirePath exRetire [] (exBroker (exIdle True) {||}) = (ControlReply 200 r, b')"
    using ctl start own by (simp add: serveControl_def Let_def SettlePath_def StatusPath_def RenewPath_def RetirePath_def)
  with retire_reply_proves [OF this] show ?thesis by auto
qed

section \<open>Status\<close>

text \<open>Ambiguity is never reported as settled. When the prompt a request names (any prompt of the
  session when it names none) holds an uncertain invocation, or the creation of the remote session
  is unacknowledged, the response says \<open>blocked\<close>, proves nothing and carries no proof digest.\<close>

theorem ambiguity_blocks_response:
  assumes s: "fmlookup (blSessions (bkLedger b)) (ownerKey E (bcOwner c)) = Some s"
    and amb: "bsCreateState s = CreateIntent \<or> (\<exists>pk p seq iv. fmlookup (bsPrompts s) pk = Some p \<and>
      (bcPromptID c = [] \<or> pk = promptKey E c) \<and> fmlookup (bpInvocations p) seq = Some iv \<and> biState iv = InvUncertain)"
  shows "crState (controlResponseLocked E b c d) = ''blocked'' \<and> \<not> crSettlementProven (controlResponseLocked E b c d) \<and>
    \<not> crRetirementProven (controlResponseLocked E b c d) \<and> crProofDigest (controlResponseLocked E b c d) = []"
proof -
  let ?act = "fmlookup (bkActive b) (ownerKey E (bcOwner c))"
  let ?sel = "if bcPromptID c = [] then bsPrompts s else fmfilter (\<lambda>k. k = promptKey E c) (bsPrompts s)"
  let ?n = "fmsum (\<lambda>k p. fmcount (\<lambda>_ iv. countsAmbiguous ?act k p iv) (bpInvocations p)) ?sel"
  have create: "crCreatePending (sessionResponse s r) = (bsCreateState s = CreateIntent)" for r
    by (simp add: sessionResponse_def Let_def)
  have pr: "crCreatePending (promptResponse E p r) = crCreatePending r" for p r
    by (simp add: promptResponse_def Let_def)
  define n where "n = ?n"
  have pos: "0 < n" if "fmlookup (bsPrompts s) pk = Some p" "bcPromptID c = [] \<or> pk = promptKey E c"
    "fmlookup (bpInvocations p) seq = Some iv" "biState iv = InvUncertain" for pk p seq iv
  proof -
    have "0 < fmcount (\<lambda>_ iv. countsAmbiguous ?act pk p iv) (bpInvocations p)"
      unfolding fmcount_pos_iff by (rule exI [of _ seq], rule exI [of _ iv]) (use that in \<open>simp add: countsAmbiguous_def\<close>)
    moreover have "fmlookup ?sel pk = Some p" using that by auto
    ultimately show ?thesis using fmsum_le [of ?sel pk p "\<lambda>k p. fmcount (\<lambda>_ iv. countsAmbiguous ?act k p iv) (bpInvocations p)"]
      unfolding n_def by linarith
  qed
  have "bsCreateState s = CreateIntent \<or> 0 < n" using amb pos by blast
  then have "bsCreateState s = CreateIntent \<or> 0 < ?n" by (simp only: n_def)
  then show ?thesis
    using s by (auto simp: controlResponseLocked_def Let_def create pr split: option.split)
qed

theorem ambiguity_blocks_response_witness:
  "crState (controlResponseLocked exEnv (syBroker exB9) exCall []) = ''blocked''"
  using ambiguity_blocks_response [of "syBroker exB9" exEnv exCall "exCallSession InvUncertain CreateKnown ''r'' True" "[]"]
  by (force simp: exB9_def exCallSession_def exCallPrompt_def exInvocation_def)

end
