(* ===== verification/BrokerDialog.thy ===== *)
theory BrokerDialog
  imports BrokerInvoke
begin

text \<open>
  The dialog of one prompt: the aliases a completed response gives to the client, and the
  follow-up request that answers them. The client never sees a provider identity, and what it
  sends back is translated to exactly the calls the provider asked for.
\<close>

section \<open>Aliases\<close>

lemma fc_alias_inj: "inj u \<Longrightarrow> ''fc_'' @ u i = ''fc_'' @ u j \<longleftrightarrow> i = j"
  by (simp add: inj_eq)

lemma aliasCalls_spec:
  assumes "aliasCalls u n seen calls m = Some (m', outs)" and u: "inj u"
    and "\<And>k. n \<le> k \<Longrightarrow> fmlookup m (''fc_'' @ u k) = None"
  shows "length outs = length calls \<and> fmcard m' = fmcard m + length calls \<and>
    (\<forall>k < n. fmlookup m' (''fc_'' @ u k) = fmlookup m (''fc_'' @ u k)) \<and>
    (\<forall>i < length calls. outs ! i = (calls ! i)\<lparr>oiCallID := ''fc_'' @ u (n + 2 * i), oiID := ''fi_'' @ u (n + 2 * i + 1)\<rparr> \<and>
       fmlookup m' (''fc_'' @ u (n + 2 * i)) = Some (oiCallID (calls ! i))) \<and>
    distinct (map oiCallID calls) \<and> set (map oiCallID calls) \<inter> set seen = {}"
  using assms
proof (induction u n seen calls m arbitrary: m' outs rule: aliasCalls.induct)
  case (1 u n seen callIDs)
  then show ?case by simp
next
  case (2 u n seen item items callIDs)
  let ?al = "''fc_'' @ u n" let ?m = "fmupd ?al (oiCallID item) callIDs"
  note u = 2(3)
  from 2(2) obtain outs1 where item: "SafeString (oiCallID item) MaxIdentifierBytes" "oiCallID item \<notin> set seen"
    and rest: "aliasCalls u (n + 2) (oiCallID item # seen) items ?m = Some (m', outs1)"
    and outs: "outs = item\<lparr>oiCallID := ?al, oiID := ''fi_'' @ u (Suc n)\<rparr> # outs1"
    by (auto simp: Let_def split: if_splits)
  have fresh: "fmlookup ?m (''fc_'' @ u k) = None" if "n + 2 \<le> k" for k
    using 2(4) [of k] that inj_eq [OF u, of n k] by simp
  have new: "fmlookup callIDs ?al = None" by (rule 2(4)) simp
  have IH: "length outs1 = length items" "fmcard m' = fmcard ?m + length items"
    "\<And>k. k < n + 2 \<Longrightarrow> fmlookup m' (''fc_'' @ u k) = fmlookup ?m (''fc_'' @ u k)"
    "\<And>i. i < length items \<Longrightarrow> outs1 ! i = (items ! i)\<lparr>oiCallID := ''fc_'' @ u (n + 2 + 2 * i), oiID := ''fi_'' @ u (n + 2 + 2 * i + 1)\<rparr> \<and>
       fmlookup m' (''fc_'' @ u (n + 2 + 2 * i)) = Some (oiCallID (items ! i))"
    "distinct (map oiCallID items)" "set (map oiCallID items) \<inter> set (oiCallID item # seen) = {}"
    using 2(1) [OF _ _ rest u fresh] item by simp_all
  have at: "outs ! i = ((item # items) ! i)\<lparr>oiCallID := ''fc_'' @ u (n + 2 * i), oiID := ''fi_'' @ u (n + 2 * i + 1)\<rparr> \<and>
      fmlookup m' (''fc_'' @ u (n + 2 * i)) = Some (oiCallID ((item # items) ! i))" if "i < Suc (length items)" for i
  proof (cases i)
    case 0
    with IH(3) [of n] show ?thesis by (simp add: outs)
  next
    case (Suc j)
    with IH(4) [of j] that show ?thesis by (simp add: outs)
  qed
  have old: "fmlookup m' (''fc_'' @ u k) = fmlookup callIDs (''fc_'' @ u k)" if "k < n" for k
    using IH(3) [of k] that inj_eq [OF u, of n k] by simp
  show ?case using at old IH item outs new by (auto simp: fmcard_upd)
qed

text \<open>The tool calls of a completed response reach the client under fresh aliases, and the durable
  link resolves each alias to exactly the provider's call: as many links as calls, each output
  item names its call by an alias, keeps the function and its arguments, and no provider call id
  occurs twice.\<close>

theorem completed_calls_aliased:
  assumes "inj u" "aliasCalls u 1 [] calls fmempty = Some (callIDs, outs)"
  shows "length outs = length calls \<and> fmcard callIDs = length calls \<and> distinct (map oiCallID calls) \<and>
    (\<forall>i < length calls. fmlookup callIDs (oiCallID (outs ! i)) = Some (oiCallID (calls ! i)) \<and>
       oiName (outs ! i) = oiName (calls ! i) \<and> oiArguments (outs ! i) = oiArguments (calls ! i) \<and>
       hasPrefix (oiCallID (outs ! i)) ''fc_'' \<and> hasPrefix (oiID (outs ! i)) ''fi_'')"
  using aliasCalls_spec [OF assms(2,1)] by (simp add: hasPrefix_def)

section \<open>Answers\<close>

lemma translateItems_spec:
  assumes "translateItems callIDs seen inputs = Some items"
  shows "\<exists>calls. length calls = length inputs \<and> length items = length inputs \<and> distinct calls \<and> set calls \<inter> set seen = {} \<and>
    (\<forall>i < length inputs. \<exists>members remote. inputs ! i = JObj members \<and>
       jsonGet members ''call_id'' = Some (JStr (calls ! i)) \<and> fmlookup callIDs (calls ! i) = Some remote \<and>
       items ! i = JObj (jsonSet ''call_id'' (JStr remote) members))"
  using assms
proof (induction callIDs seen inputs arbitrary: items rule: translateItems.induct)
  case (1 callIDs seen)
  then show ?case by simp
next
  case (2 callIDs seen input rest)
  from 2(2) obtain members call answer remote items1 where input: "input = JObj members"
    "jsonGet members ''call_id'' = Some (JStr call)" "jsonGet members ''output'' = Some (JStr answer)"
    "fmlookup callIDs call = Some remote" "call \<notin> set seen"
    and rest: "translateItems callIDs (call # seen) rest = Some items1"
    and items: "items = JObj (jsonSet ''call_id'' (JStr remote) members) # items1"
    and kind: "jsonGet members ''type'' = Some (JStr ''function_call_output'')" "length members = 3"
      "length answer \<le> DefaultMaxBrokeredBytes"
    by (auto split: json.splits if_splits option.splits)
  have "\<exists>calls. length calls = length rest \<and> length items1 = length rest \<and> distinct calls \<and> set calls \<inter> set (call # seen) = {} \<and>
    (\<forall>i < length rest. \<exists>members remote. rest ! i = JObj members \<and>
       jsonGet members ''call_id'' = Some (JStr (calls ! i)) \<and> fmlookup callIDs (calls ! i) = Some remote \<and>
       items1 ! i = JObj (jsonSet ''call_id'' (JStr remote) members))"
    by (rule 2(1) [OF input(1) _ refl _ _ _ _ _ _ rest]) (use input kind in auto)
  then obtain calls where calls: "length calls = length rest" "length items1 = length rest" "distinct calls"
    "set calls \<inter> set (call # seen) = {}"
    "\<forall>i < length rest. \<exists>members remote. rest ! i = JObj members \<and>
       jsonGet members ''call_id'' = Some (JStr (calls ! i)) \<and> fmlookup callIDs (calls ! i) = Some remote \<and>
       items1 ! i = JObj (jsonSet ''call_id'' (JStr remote) members)" by blast
  show ?case
  proof (intro exI [of _ "call # calls"] conjI allI impI)
    fix i
    assume "i < length (input # rest)"
    then show "\<exists>members remote. (input # rest) ! i = JObj members \<and>
       jsonGet members ''call_id'' = Some (JStr ((call # calls) ! i)) \<and> fmlookup callIDs ((call # calls) ! i) = Some remote \<and>
       items ! i = JObj (jsonSet ''call_id'' (JStr remote) members)"
      using input calls(5) by (cases i) (auto simp: items)
  qed (use calls input items in auto)
qed

text \<open>C28: A follow-up request is admitted only as the complete answer of the completed response it names,
  of the same prompt: every call of that response is answered exactly once, each answer is sent on
  under the provider's own call id, and the request continues the provider's response.\<close>

theorem followup_answers_all_calls:
  assumes "brokerTranslatePrevious session pkey False request = Inr request'"
  shows "\<exists>link inputs items calls. fmlookup (bsResponses session) (rrPreviousResponseID request) = Some link \<and>
    (rrPreviousResponseID request \<noteq> [] \<longrightarrow> brCompleted link) \<and> brPromptKey link = pkey \<and> brHasFunctions link \<and>
    rrInput request = JArr inputs \<and> request' = request\<lparr>rrInput := JArr items, rrPreviousResponseID := brRemoteID link\<rparr> \<and>
    distinct calls \<and> set calls = fset (fmdom (brCallIDs link)) \<and> length calls = length inputs \<and> length items = length inputs \<and>
    (\<forall>i < length inputs. \<exists>members remote. inputs ! i = JObj members \<and>
       jsonGet members ''call_id'' = Some (JStr (calls ! i)) \<and> fmlookup (brCallIDs link) (calls ! i) = Some remote \<and>
       items ! i = JObj (jsonSet ''call_id'' (JStr remote) members))"
proof -
  from assms obtain link inputs items where link: "fmlookup (bsResponses session) (rrPreviousResponseID request) = Some link"
    "rrPreviousResponseID request \<noteq> [] \<longrightarrow> brCompleted link" "brPromptKey link = pkey" "brHasFunctions link"
    and inputs: "rrInput request = JArr inputs" "length inputs = fmcard (brCallIDs link)"
    and items: "translateItems (brCallIDs link) [] inputs = Some items"
      "request' = request\<lparr>rrInput := JArr items, rrPreviousResponseID := brRemoteID link\<rparr>"
    by (auto simp: brokerTranslatePrevious_def Let_def split: if_splits option.splits json.splits)
  from translateItems_spec [OF items(1)] obtain calls where calls: "length calls = length inputs" "length items = length inputs"
    "distinct calls" and at: "\<forall>i < length inputs. \<exists>members remote. inputs ! i = JObj members \<and>
       jsonGet members ''call_id'' = Some (JStr (calls ! i)) \<and> fmlookup (brCallIDs link) (calls ! i) = Some remote \<and>
       items ! i = JObj (jsonSet ''call_id'' (JStr remote) members)" by blast
  have sub: "set calls \<subseteq> fset (fmdom (brCallIDs link))"
    using at calls(1) by (fastforce simp: in_set_conv_nth intro: fmdomI)
  have "card (set calls) = card (fset (fmdom (brCallIDs link)))"
    using distinct_card [OF calls(3)] calls(1) inputs(2) by (simp add: fmcard_def fcard.rep_eq)
  then have "set calls = fset (fmdom (brCallIDs link))" by (intro card_subset_eq [OF _ sub]) simp_all
  with link inputs items calls at show ?thesis by blast
qed

text \<open>The first request of a prompt carries one user text. If it continues an earlier response, that
  response is one of the session's own, completed, and owes no tool call; the provider sees only
  the provider's id of it.\<close>

theorem first_request_continues_completed:
  assumes "brokerTranslatePrevious session pkey True request = Inr request'" "rrPreviousResponseID request \<noteq> []"
  shows "\<exists>link txt. fmlookup (bsResponses session) (rrPreviousResponseID request) = Some link \<and> brCompleted link \<and>
    \<not> brHasFunctions link \<and> rrInput request = JStr txt \<and> request' = request\<lparr>rrPreviousResponseID := brRemoteID link\<rparr>"
  using assms by (auto simp: brokerTranslatePrevious_def Let_def split: if_splits option.splits json.splits)

section \<open>Instances\<close>

definition dlUUID :: "nat \<Rightarrow> string" where
  "dlUUID n = replicate n (CHR ''u'')"

lemma dlUUID_inj: "inj dlUUID"
  by (metis dlUUID_def injI length_replicate)

definition dlCall :: outputItem where
  "dlCall = \<lparr>oiID = ''i'', oiType = ''function_call'', oiCallID = ''call'', oiName = ''f'', oiArguments = ''{}'', oiContent = []\<rparr>"

definition dlLink :: "bool \<Rightarrow> brokerResponseID" where
  "dlLink calls = \<lparr>brRemoteID = ''resp'', brPromptKey = ''p'', brCompleted = True, brHasFunctions = calls,
     brCallIDs = (if calls then fmupd ''fc_u'' ''call'' fmempty else fmempty)\<rparr>"

definition dlSession :: "bool \<Rightarrow> brokerSession" where
  "dlSession calls = \<lparr>bsOwner = \<lparr>boRuntimeInstanceID = [], boSupervisorBootID = [], boControllerEpoch = 1,
       boRuntimePoolUID = [], boRuntimePoolGeneration = 1, boRuntimeSessionUID = [], boRuntimeSessionGeneration = 1,
       boRuntimeProfileDigest = [], boProfileDigestSchemaVersion = 1\<rparr>,
     bsRemoteID = ''s'', bsCreateState = CreateKnown, bsRetiring = False, bsRetired = False, bsProofDigest = [],
     bsCurrentPrompt = ''p'', bsPrompts = fmempty, bsResponses = fmupd ''fr_u'' (dlLink calls) fmempty, bsOperations = fmempty\<rparr>"

definition dlRequest :: "json \<Rightarrow> responseRequest" where
  "dlRequest input = \<lparr>rrInput = input, rrStream = True, rrStore = True, rrPreviousResponseID = ''fr_u'',
     rrAgentSessionID = [], rrTools = []\<rparr>"

theorem completed_calls_aliased_witness: "length (map oiCallID [dlCall]) = 1 \<and> distinct (map oiCallID [dlCall]) \<and>
    (\<exists>callIDs outs. aliasCalls dlUUID 1 [] [dlCall] fmempty = Some (callIDs, outs) \<and> fmcard callIDs = 1)"
proof -
  have "SafeString ''call'' MaxIdentifierBytes" by code_simp
  then obtain callIDs outs where a: "aliasCalls dlUUID 1 [] [dlCall] fmempty = Some (callIDs, outs)"
    by (simp add: dlCall_def Let_def)
  with completed_calls_aliased [OF dlUUID_inj a] show ?thesis by simp
qed

theorem followup_answers_all_calls_witness:
  "\<exists>link. fmlookup (bsResponses (dlSession True)) ''fr_u'' = Some link \<and> brHasFunctions link"
proof -
  let ?r = "dlRequest (JArr [JObj [(''type'', JStr ''function_call_output''), (''call_id'', JStr ''fc_u''), (''output'', JStr ''x'')]])"
  obtain r' where r: "brokerTranslatePrevious (dlSession True) ''p'' False ?r = Inr r'"
    by (simp add: brokerTranslatePrevious_def dlSession_def dlRequest_def dlLink_def jsonGet_def fmcard_upd
        DefaultMaxBrokeredBytes_def)
  from followup_answers_all_calls [OF r] show ?thesis by (auto simp: dlRequest_def)
qed

theorem first_request_continues_completed_witness:
  "\<exists>link. fmlookup (bsResponses (dlSession False)) ''fr_u'' = Some link \<and> brCompleted link"
proof -
  obtain r' where r: "brokerTranslatePrevious (dlSession False) ''p'' True (dlRequest (JStr ''hi'')) = Inr r'"
    by (simp add: brokerTranslatePrevious_def dlSession_def dlRequest_def dlLink_def)
  from first_request_continues_completed [OF r] show ?thesis by (auto simp: dlRequest_def)
qed

end
