(* ===== verification/GoNet.thy ===== *)
theory GoNet
  imports GoText "HOL-Library.Char_ord" "HOL-Library.List_Lexorder"
begin

text \<open>
  More of Go's standard library, for the start-up and hosted code: \<open>strconv.Atoi\<close>,
  \<open>net.SplitHostPort\<close> and the command-line scanner of package \<open>flag\<close>. These follow the
  library's own source; no definition here models code of the repository.
\<close>

section \<open>Maps as JSON\<close>

text \<open>A map is written with its keys in byte order.\<close>

definition mapJSON :: "(string, string) fmap \<Rightarrow> string" where
  "mapJSON m = jsonObject (map (\<lambda>k. (k, map_option jsonString (fmlookup m k))) (sorted_list_of_fset (fmdom m)))"

section \<open>Paths\<close>

text \<open>\<open>filepath.IsAbs\<close>, and \<open>Clean\<close> of an absolute path (package \<open>filepath\<close> or \<open>path\<close>).\<close>

definition isAbs :: "string \<Rightarrow> bool" where
  "isAbs p = hasPrefix p ''/''"

fun cleanElems :: "string list \<Rightarrow> string list \<Rightarrow> string list" where
  "cleanElems acc [] = rev acc"
| "cleanElems acc (e # es) = (if e = [] \<or> e = ''.'' then cleanElems acc es
     else if e = ''..'' then cleanElems (tl acc) es else cleanElems (e # acc) es)"

definition cleanPath :: "string \<Rightarrow> string" where
  "cleanPath p = ''/'' @ joinWith ''/'' (cleanElems [] (splitChar (CHR ''/'') p))"

section \<open>Atoi\<close>

text \<open>A sign is accepted; the range is that of a 64-bit \<open>int\<close>.\<close>

definition atoi :: "string \<Rightarrow> int option" where
  "atoi s = (case s of
     [] \<Rightarrow> None
   | c # rest \<Rightarrow>
      (let digits = (if c = CHR ''-'' \<or> c = CHR ''+'' then rest else s) in
       if digits = [] \<or> \<not> list_all isDigit digits then None
       else if c = CHR ''-'' then (if digitsValue digits \<le> 2 ^ 63 then Some (- int (digitsValue digits)) else None)
       else (if digitsValue digits < 2 ^ 63 then Some (int (digitsValue digits)) else None)))"

section \<open>SplitHostPort\<close>

text \<open>The last colon separates the port; \<open>None\<close> is any of the library's address errors.\<close>

definition lastColon :: "string \<Rightarrow> nat option" where
  "lastColon s = (if CHR '':'' \<in> set s
     then Some (length s - 1 - length (takeWhile (\<lambda>c. c \<noteq> CHR '':'') (rev s))) else None)"

definition splitHostPort :: "string \<Rightarrow> (string \<times> string) option" where
  "splitHostPort s = (case lastColon s of None \<Rightarrow> None | Some i \<Rightarrow>
     (let port = drop (Suc i) s in
      if hasPrefix s ''['' then
        (let close = length (takeWhile (\<lambda>c. c \<noteq> CHR '']'') s) in
         if close = length s \<or> Suc close \<noteq> i then None
         else if CHR ''['' \<in> set (drop 1 s) \<or> CHR '']'' \<in> set (drop (Suc close) s) then None
         else Some (drop 1 (take close s), port))
      else
        (let host = take i s in
         if CHR '':'' \<in> set host then None
         else if CHR ''['' \<in> set s \<or> CHR '']'' \<in> set s then None
         else Some (host, port))))"

lemma lastColon_split:
  assumes "lastColon s = Some i"
  shows "i < length s \<and> s = take i s @ '':'' @ drop (Suc i) s \<and> CHR '':'' \<notin> set (drop (Suc i) s)"
proof -
  let ?p = "\<lambda>c. c \<noteq> CHR '':''"
  let ?k = "length (takeWhile ?p (rev s))"
  from assms have mem: "CHR '':'' \<in> set s" and i: "i = length s - 1 - ?k"
    by (auto simp: lastColon_def split: if_splits)
  have "?k \<noteq> length (rev s)"
  proof
    assume "?k = length (rev s)"
    then have "takeWhile ?p (rev s) = rev s" using takeWhile_eq_take [of ?p "rev s"] by simp
    with mem show False by (auto simp: takeWhile_eq_all_conv)
  qed
  then have k: "?k < length s" using length_takeWhile_le [of ?p "rev s"] by simp
  have at: "rev s ! ?k = CHR '':''" using nth_length_takeWhile [of ?p "rev s"] k by simp
  have i_less: "i < length s" using i k by linarith
  have "s ! i = CHR '':''" using at k i by (simp add: rev_nth)
  then have eq: "s = take i s @ '':'' @ drop (Suc i) s" using id_take_nth_drop [OF i_less] by simp
  have "drop (Suc i) s = rev (take ?k (rev s))"
    using i k by (simp add: take_rev Suc_diff_Suc)
  moreover have "take ?k (rev s) = takeWhile ?p (rev s)" by (rule takeWhile_eq_take [symmetric])
  ultimately have "set (drop (Suc i) s) = set (takeWhile ?p (rev s))" by simp
  then have "CHR '':'' \<notin> set (drop (Suc i) s)" by (auto dest: set_takeWhileD)
  with i_less eq show ?thesis by blast
qed

lemma splitHostPort_join:
  assumes "splitHostPort s = Some (host, port)"
  shows "(s = host @ '':'' @ port \<or> s = ''['' @ host @ '']:'' @ port) \<and> CHR '':'' \<notin> set port"
proof -
  from assms obtain i where i: "lastColon s = Some i" and port: "port = drop (Suc i) s"
    by (auto simp: splitHostPort_def Let_def split: option.splits if_splits)
  note eq = lastColon_split [OF i]
  show ?thesis
  proof (cases "hasPrefix s ''[''")
    case False
    with assms i have host: "host = take i s"
      by (auto simp: splitHostPort_def Let_def split: if_splits)
    have "s = host @ '':'' @ port" unfolding host port using eq by blast
    moreover have "CHR '':'' \<notin> set port" unfolding port using eq by blast
    ultimately show ?thesis by blast
  next
    case True
    let ?c = "length (takeWhile (\<lambda>c. c \<noteq> CHR '']'') s)"
    from True assms i have c: "?c \<noteq> length s" "Suc ?c = i" and host: "host = drop 1 (take ?c s)"
      by (auto simp: splitHostPort_def Let_def split: if_splits)
    from True obtain t where t: "s = CHR ''['' # t" by (auto simp: hasPrefix_iff)
    have less: "?c < length s" using c(1) length_takeWhile_le [of "\<lambda>c. c \<noteq> CHR '']''" s] by linarith
    have at: "s ! ?c = CHR '']''" using nth_length_takeWhile [OF less] by simp
    have pos: "0 < ?c" by (simp add: t)
    have "take i s = take ?c s @ [s ! ?c]" using c(2) less by (metis take_Suc_conv_app_nth)
    moreover have "take ?c s = ''['' @ host" using host pos t by (cases ?c) simp_all
    ultimately have "take i s = ''['' @ host @ '']''" using at by simp
    with eq port have "s = (''['' @ host @ '']'') @ '':'' @ port" by metis
    then have "s = ''['' @ host @ '']:'' @ port" by simp
    moreover have "CHR '':'' \<notin> set port" unfolding port using eq by blast
    ultimately show ?thesis by blast
  qed
qed

section \<open>Command-line flags\<close>

text \<open>\<open>strconv.ParseBool\<close>.\<close>

definition parseBool :: "string \<Rightarrow> bool option" where
  "parseBool s = (if s \<in> {''1'', ''t'', ''T'', ''TRUE'', ''true'', ''True''} then Some True
     else if s \<in> {''0'', ''f'', ''F'', ''FALSE'', ''false'', ''False''} then Some False else None)"

text \<open>
  \<open>FlagSet.Parse\<close>: \<open>kind\<close> says which names are defined and which of them are boolean. The
  result is the assignments in order and the remaining arguments; \<open>None\<close> is a parse error
  (\<open>-h\<close> and \<open>-help\<close> included).
\<close>

fun flagParse :: "(string \<Rightarrow> bool option) \<Rightarrow> string list \<Rightarrow> ((string \<times> string) list \<times> string list) option" where
  "flagParse kind [] = Some ([], [])"
| "flagParse kind (s # args) =
     (if length s < 2 \<or> \<not> hasPrefix s ''-'' then Some ([], s # args)
      else if s = ''--'' then Some ([], args)
      else (let name = (if hasPrefix s ''--'' then drop 2 s else drop 1 s) in
        if name = [] \<or> hd name = CHR ''-'' \<or> hd name = CHR ''='' then None
        else (case cutChar name (CHR ''='') of (flag, v, hasValue) \<Rightarrow>
          (case kind flag of
             None \<Rightarrow> None
           | Some True \<Rightarrow>
               (if hasValue \<and> parseBool v = None then None
                else map_option (\<lambda>(as, rest). ((flag, if hasValue then v else ''true'') # as, rest))
                  (flagParse kind args))
           | Some False \<Rightarrow>
               (if hasValue then map_option (\<lambda>(as, rest). ((flag, v) # as, rest)) (flagParse kind args)
                else (case args of [] \<Rightarrow> None
                  | v' # args' \<Rightarrow> map_option (\<lambda>(as, rest). ((flag, v') # as, rest)) (flagParse kind args')))))))"

declare flagParse.simps [simp del]

text \<open>The value of a flag after parsing: the last assignment, or the default.\<close>

definition flagValue :: "string \<Rightarrow> string \<Rightarrow> (string \<times> string) list \<Rightarrow> string" where
  "flagValue name fallback as = (case map_of (rev as) name of None \<Rightarrow> fallback | Some v \<Rightarrow> v)"

end
