(* ===== verification/BrokerConfig.thy ===== *)
theory BrokerConfig
  imports BrokerCore BrokerAgentKit GoNet
begin

text \<open>
  \<^verbatim>\<open>src/internal/broker/run.go\<close>: the command line of the broker process, its configuration,
  the loopback check of its address and the readiness probe. The record \<^emph>\<open>serveWorld\<close> holds
  what the process takes from its host: the environment, the files, Azure's credential, the
  result of opening the ledger, the probe's HTTP exchange and how the HTTP server ended.
\<close>

section \<open>The host\<close>

datatype serverEnd = ServerClosed | ServerFailed | Interrupted

record serveWorld =
  swGetenv :: "string \<Rightarrow> string"
  swFile :: "string \<Rightarrow> string option"  \<comment> \<open>open and read the whole file\<close>
  swSha :: "string \<Rightarrow> string"
  swDecode :: "string \<Rightarrow> agentConfig option"
  swParseURL :: "string \<Rightarrow> url option"
  swLoopback :: "string \<Rightarrow> bool"  \<comment> \<open>net.ParseIP, then IsLoopback\<close>
  swEnv :: env
  swIO :: saveIO
  swOpened :: "string \<Rightarrow> string \<Rightarrow> (brokerError + brokerLedger) \<times> disk"
  swProvider :: bool
  swGet :: "string \<Rightarrow> nat option"  \<comment> \<open>GET a URL: the status\<close>
  swEnd :: serverEnd

section \<open>Configuration\<close>

definition brokerAddressValid :: "(string \<Rightarrow> bool) \<Rightarrow> string \<Rightarrow> bool" where
  "brokerAddressValid loopback address = (case splitHostPort address of
     None \<Rightarrow> False
   | Some (host, port) \<Rightarrow> loopback host \<and>
       (case atoi port of None \<Rightarrow> False | Some n \<Rightarrow> 0 < n \<and> n \<le> 65535))"

definition loadBrokerConfiguration :: "serveWorld \<Rightarrow> string \<Rightarrow> brokerError + brokerConfiguration" where
  "loadBrokerConfiguration W path =
     (case swFile W path of None \<Rightarrow> Inl ErrInvalid | Some content \<Rightarrow>
      (let data = take (MaxAgentConfigBytes + 1) content; getenv = swGetenv W in
       if length data > MaxAgentConfigBytes then Inl ErrInvalid else
       (let digest = getenv ''ORKA_FOUNDRY_ACP_AGENT_CONFIGURATION_DIGEST'' in
        case DecodeAgentConfig (swSha W) (swDecode W) (EndpointIsSafe (swParseURL W) (swLoopback W)) data digest
            (getenv ''ORKA_FOUNDRY_ACP_MODEL'') of
          None \<Rightarrow> Inl ErrInvalid
        | Some agent \<Rightarrow>
           (let cfg = \<lparr>cfAgent = agent, cfConfigDigest = digest,
                  cfAddr = FirstNonBlank [getenv ''ORKA_FOUNDRY_BROKER_ADDR'', ''127.0.0.1:8091''],
                  cfStateDir = getenv ''ORKA_FOUNDRY_BROKER_STATE_DIR'',
                  cfBearer = getenv ''ORKA_FOUNDRY_BROKER_BEARER_TOKEN'',
                  cfAgentKitProof = getenv ''ORKA_FOUNDRY_BROKER_AGENTKIT_CONTINUATION_PROOF'',
                  cfOperationTimeout = 45000000000\<rparr>
            in if \<not> brokerAddressValid (swLoopback W) (cfAddr cfg) \<or> cfStateDir cfg = [] \<or>
                  \<not> SafeString (cfBearer cfg) 16384 \<or> length (cfBearer cfg) < 32 \<or>
                  containsAny (cfBearer cfg) [CHR '' '', CHR 0x09] \<or>
                  \<not> brokerAgentKitProofValid (cfAgentKitProof cfg) \<or>
                  (getenv ''ORKA_FOUNDRY_ISOLATION_MODE'' \<noteq> [] \<and> getenv ''ORKA_FOUNDRY_ISOLATION_MODE'' \<noteq> ''entra'')
               then Inl ErrInvalid else Inr cfg))))"

section \<open>The readiness probe\<close>

definition brokerDefaultAddress :: "serveWorld \<Rightarrow> string" where
  "brokerDefaultAddress W = FirstNonBlank [swGetenv W ''ORKA_FOUNDRY_BROKER_ADDR'', ''127.0.0.1:8091'']"

definition checkBrokerHealth :: "serveWorld \<Rightarrow> string \<Rightarrow> brokerError option" where
  "checkBrokerHealth W address =
     (if \<not> brokerAddressValid (swLoopback W) address then Some ErrInvalid
      else (let target = ''http://'' @ address @ ''/healthz'' in
        case swParseURL W target of None \<Rightarrow> Some ErrInvalid
        | Some _ \<Rightarrow> (case swGet W target of None \<Rightarrow> Some ErrRemote
            | Some status \<Rightarrow> if status \<noteq> 200 then Some ErrRemote else None)))"

section \<open>Start-up\<close>

text \<open>The first loop of \<open>MaybeServe\<close>: whether the arguments select the broker at all.\<close>

fun brokerSelected :: "string list \<Rightarrow> bool" where
  "brokerSelected [] = False"
| "brokerSelected (arg # args) = (arg = ''--protocol=broker'' \<or>
     (arg = ''--protocol'' \<and> args \<noteq> [] \<and> hd args = ''broker'') \<or> brokerSelected args)"

definition brokerFlags :: "string \<Rightarrow> bool option" where
  "brokerFlags name = (if name = ''protocol'' \<or> name = ''config'' then Some False
     else if name = ''health-check'' then Some True else None)"

text \<open>
  What \<open>MaybeServe\<close> went through: the arguments are not the broker's, they or the start-up were
  refused, the probe ran, or the broker \<open>b\<close> served until the process ended.
\<close>

datatype startup = NotBroker | Refused brokerError | Probed "brokerError option"
  | Served brokerConfiguration broker "brokerError option"

definition startBroker :: "serveWorld \<Rightarrow> string list \<Rightarrow> startup" where
  "startBroker W args =
     (if \<not> brokerSelected args then NotBroker else
      case flagParse brokerFlags args of None \<Rightarrow> Refused ErrInvalid | Some (as, rest) \<Rightarrow>
      (if rest \<noteq> [] \<or> flagValue ''protocol'' [] as \<noteq> ''broker'' then Refused ErrInvalid
       else if parseBool (flagValue ''health-check'' ''false'' as) = Some True
       then Probed (checkBrokerHealth W (brokerDefaultAddress W))
       else (case loadBrokerConfiguration W (flagValue ''config'' ''/agent/foundry.json'' as) of
         Inl e \<Rightarrow> Refused e
       | Inr cfg \<Rightarrow>
          if \<not> swProvider W then Refused ErrRemote else
          (case newLifecycleBroker (swEnv W) brokerAgentKitProofValid (swIO W) cfg
              (swOpened W (cfStateDir cfg) (cfConfigDigest cfg)) of
             Inl e \<Rightarrow> Refused e
           | Inr b \<Rightarrow> Served cfg b (case swEnd W of
               ServerClosed \<Rightarrow> None | ServerFailed \<Rightarrow> Some ErrRemote | Interrupted \<Rightarrow> None)))))"

text \<open>The first component says whether the arguments were the broker's.\<close>

definition MaybeServe :: "serveWorld \<Rightarrow> string list \<Rightarrow> bool \<times> brokerError option" where
  "MaybeServe W args = (case startBroker W args of
     NotBroker \<Rightarrow> (False, None)
   | Refused e \<Rightarrow> (True, Some e)
   | Probed r \<Rightarrow> (True, r)
   | Served _ _ r \<Rightarrow> (True, r))"

section \<open>Lemmas\<close>

lemma brokerAddressValidE:
  assumes "brokerAddressValid loopback address"
  obtains host port n where "address = host @ '':'' @ port \<or> address = ''['' @ host @ '']:'' @ port"
    "loopback host" "atoi port = Some n" "0 < n" "n \<le> 65535"
  using assms splitHostPort_join
  by (fastforce simp: brokerAddressValid_def split: option.splits)

lemma DecodeAgentConfig_digest:
  "DecodeAgentConfig h decode safe data expectedDigest model = Some agent \<Longrightarrow> expectedDigest = Digest h data"
  by (auto simp: DecodeAgentConfig_def Digest_def Let_def split: if_splits)

lemma loadBrokerConfiguration_ok:
  assumes "loadBrokerConfiguration W path = Inr cfg"
  shows "\<exists>data. swFile W path = Some data \<and> length data \<le> MaxAgentConfigBytes \<and>
      cfConfigDigest cfg = Digest (swSha W) data \<and>
      DecodeAgentConfig (swSha W) (swDecode W) (EndpointIsSafe (swParseURL W) (swLoopback W)) data (cfConfigDigest cfg)
        (swGetenv W ''ORKA_FOUNDRY_ACP_MODEL'') = Some (cfAgent cfg)"
    and "brokerAddressValid (swLoopback W) (cfAddr cfg)" "cfStateDir cfg \<noteq> []"
    "SafeString (cfBearer cfg) 16384" "32 \<le> length (cfBearer cfg)"
    "CHR '' '' \<notin> set (cfBearer cfg)" "brokerAgentKitProofValid (cfAgentKitProof cfg)"
    "cfOperationTimeout cfg = 45000000000"
proof -
  from assms obtain content where c: "swFile W path = Some content"
    by (auto simp: loadBrokerConfiguration_def split: option.splits)
  have t: "length (take (MaxAgentConfigBytes + 1) content) \<le> MaxAgentConfigBytes"
    using assms c by (auto simp: loadBrokerConfiguration_def Let_def split: if_splits)
  then have len: "length content \<le> MaxAgentConfigBytes" by (simp add: min_def split: if_splits)
  then have take: "take (MaxAgentConfigBytes + 1) content = content" by simp
  let ?d = "DecodeAgentConfig (swSha W) (swDecode W) (EndpointIsSafe (swParseURL W) (swLoopback W)) content
      (swGetenv W ''ORKA_FOUNDRY_ACP_AGENT_CONFIGURATION_DIGEST'') (swGetenv W ''ORKA_FOUNDRY_ACP_MODEL'')"
  have loaded: "loadBrokerConfiguration W path = Inr cfg" by (rule assms)
  obtain agent where dec: "?d = Some agent"
    using loaded c len by (cases ?d) (simp_all add: loadBrokerConfiguration_def Let_def)
  note cfg = loaded [unfolded loadBrokerConfiguration_def Let_def c option.case take if_not_P [OF len [folded not_less]] dec]
  have digest: "cfConfigDigest cfg = swGetenv W ''ORKA_FOUNDRY_ACP_AGENT_CONFIGURATION_DIGEST''"
    and agent: "cfAgent cfg = agent"
    using cfg by (auto split: if_splits)
  show "\<exists>data. swFile W path = Some data \<and> length data \<le> MaxAgentConfigBytes \<and>
      cfConfigDigest cfg = Digest (swSha W) data \<and>
      DecodeAgentConfig (swSha W) (swDecode W) (EndpointIsSafe (swParseURL W) (swLoopback W)) data (cfConfigDigest cfg)
        (swGetenv W ''ORKA_FOUNDRY_ACP_MODEL'') = Some (cfAgent cfg)"
    using c len dec DecodeAgentConfig_digest [OF dec] unfolding digest agent by blast
  show "brokerAddressValid (swLoopback W) (cfAddr cfg)" using cfg by (auto split: if_splits)
  show "cfStateDir cfg \<noteq> []" using cfg by (auto split: if_splits)
  show "SafeString (cfBearer cfg) 16384" using cfg by (auto split: if_splits)
  show "32 \<le> length (cfBearer cfg)" using cfg by (auto split: if_splits)
  show "CHR '' '' \<notin> set (cfBearer cfg)" 
  proof -
    have "\<not> containsAny (cfBearer cfg) [CHR '' '', CHR 0x09]" using cfg by (auto split: if_splits)
    then show ?thesis by (auto simp: containsAny_def list_ex_iff)
  qed
  show "brokerAgentKitProofValid (cfAgentKitProof cfg)" using cfg by (auto split: if_splits)
  show "cfOperationTimeout cfg = 45000000000" using cfg by (auto split: if_splits)
qed

lemma brokerSelected_iff: "fst (MaybeServe W args) \<longleftrightarrow> brokerSelected args"
  by (auto simp: MaybeServe_def startBroker_def Let_def split: startup.splits if_splits option.splits sum.splits prod.splits)

end
