(* ===== verification/AsciiText.thy ===== *)
theory AsciiText
  imports GoText
begin

text \<open>
  ASCII texts: the runes are the characters, and nothing is trimmed from a text that begins and
  ends with graphic characters. The names and identifiers of the protocols are of this kind.
\<close>

lemma chunks_ascii_map: "list_all (\<lambda>c. byte c < 128) s \<Longrightarrow> chunks s = map (\<lambda>c. (byte c, [c])) s"
  by (induction s) (simp_all add: chunks_ascii)

lemma trimSpace_ascii:
  assumes "list_all (\<lambda>c. byte c < 128) s" "s \<noteq> []" "\<not> isSpace (byte (hd s))" "\<not> isSpace (byte (last s))"
  shows "trimSpace s = s"
proof -
  let ?f = "\<lambda>c. (byte c, [c])"
  have left: "dropWhile (isSpace \<circ> fst) (map ?f s) = map ?f s"
    using assms(2,3) by (cases s) simp_all
  have right: "dropWhile (isSpace \<circ> fst) (rev (map ?f s)) = rev (map ?f s)"
    using assms(2,4) by (cases s rule: rev_cases) simp_all
  have "concat (map (\<lambda>c. [c]) s) = s" by (induction s) simp_all
  then have id: "concat (map snd (map ?f s)) = s" by (simp add: comp_def)
  show ?thesis by (simp only: trimSpace_def chunks_ascii_map [OF assms(1)] left right rev_rev_ident id)
qed

lemma trimSpace_Nil: "trimSpace [] = []"
  by (simp add: trimSpace_def)

definition graphic :: "string \<Rightarrow> bool" where
  "graphic s \<longleftrightarrow> list_all (\<lambda>b. 33 \<le> b \<and> b < 127) (map byte s)"

lemma graphic_runes: "graphic s \<Longrightarrow> runes s = map byte s"
  by (rule runes_all_ascii) (auto simp: graphic_def list_all_iff)

lemma graphic_not_space: "33 \<le> b \<Longrightarrow> b < 127 \<Longrightarrow> \<not> isSpace b"
  by (auto simp: isSpace_def)

lemma graphic_trimSpace:
  assumes "graphic s"
  shows "trimSpace s = s"
proof (cases "s = []")
  case False
  then have "hd s \<in> set s" "last s \<in> set s" by simp_all
  with assms have "\<not> isSpace (byte (hd s))" "\<not> isSpace (byte (last s))"
    using graphic_not_space by (auto simp: graphic_def list_all_iff)
  moreover have "list_all (\<lambda>c. byte c < 128) s" using assms by (auto simp: graphic_def list_all_iff)
  ultimately show ?thesis using False by (intro trimSpace_ascii)
qed (simp add: trimSpace_Nil)

end
