(* ===== verification/BootFacts.thy ===== *)
theory BootFacts
  imports BrokerConfig BrokerExample AsciiText
begin

text \<open>
  What holds of a broker process that started (\<^verbatim>\<open>src/internal/broker/run.go\<close> with
  \<open>newLifecycleBroker\<close>), and what its readiness probe depends on.
\<close>

lemma newLifecycleBroker_ok:
  assumes "newLifecycleBroker E proofOk io cfg (opened, d) = Inr b"
  shows "\<exists>l. opened = Inr l \<and> recoveryChange l = Inr (bkLedger b)"
    "bkDisk b = Some (marshalLedger E (bkLedger b))" "\<not> bkStorageError b"
proof -
  obtain l where l: "opened = Inr l" using assms
    by (auto simp: newLifecycleBroker_def split: if_splits sum.splits)
  with assms obtain cfg' where c: "commitLocked E io recoveryChange \<lparr>bkCfg = cfg', bkDisk = d, bkLedger = l,
      bkStorageError = False, bkActive = fmempty, bkWorkers = {||}, bkNextReconcile = fmempty, bkCancelled = False\<rparr> =
      (None, b)" by (auto simp: newLifecycleBroker_def Let_def split: if_splits option.splits prod.splits)
  from c [unfolded commitLocked_def] have "(\<exists>l. opened = Inr l \<and> recoveryChange l = Inr (bkLedger b)) \<and>
      bkDisk b = Some (marshalLedger E (bkLedger b)) \<and> \<not> bkStorageError b"
    by (rule commit_cases) (auto simp: l)
  then show "\<exists>l. opened = Inr l \<and> recoveryChange l = Inr (bkLedger b)"
    "bkDisk b = Some (marshalLedger E (bkLedger b))" "\<not> bkStorageError b" by blast+
qed

lemma recoveryChange_closes:
  assumes "recoveryChange l = Inr l'" "fmlookup (blSessions l') key = Some s" "fmlookup (bsPrompts s) pkey = Some p"
  shows "bpSettled p \<or> bpClosing p"
proof -
  from assms obtain q where "p = (if bpSettled q then q else closePromptEntry q)"
    by (auto simp: recoveryChange_def)
  then show ?thesis by (simp add: closePromptEntry_def)
qed

lemma startBroker_served:
  assumes "startBroker W args = Served cfg b r"
  shows "brokerSelected args \<and> (\<exists>as. flagParse brokerFlags args = Some (as, []) \<and> flagValue ''protocol'' [] as = ''broker'' \<and>
      loadBrokerConfiguration W (flagValue ''config'' ''/agent/foundry.json'' as) = Inr cfg) \<and> swProvider W \<and>
    newLifecycleBroker (swEnv W) brokerAgentKitProofValid (swIO W) cfg
      (swOpened W (cfStateDir cfg) (cfConfigDigest cfg)) = Inr b"
  using assms by (auto simp: startBroker_def Let_def split: if_splits option.splits sum.splits prod.splits)

section \<open>Properties\<close>

text \<open>C31: A broker process serves only with a checked configuration and a recovered ledger. Its listening
  address is a loopback address with a port from 1 to 65535, its bearer has at least 32 bytes and
  no blank, its configuration digest is the digest of the file named on the command line, the
  ledger in memory is the one on disk, and every prompt that an earlier process left open is
  closing.\<close>

theorem served_process_checked:
  assumes "startBroker W args = Served cfg b r"
  shows "(\<exists>host port n. (cfAddr cfg = host @ '':'' @ port \<or> cfAddr cfg = ''['' @ host @ '']:'' @ port) \<and>
      swLoopback W host \<and> atoi port = Some n \<and> 0 < n \<and> n \<le> 65535) \<and>
    32 \<le> length (cfBearer cfg) \<and> CHR '' '' \<notin> set (cfBearer cfg) \<and>
    (\<exists>as data. flagParse brokerFlags args = Some (as, []) \<and>
      swFile W (flagValue ''config'' ''/agent/foundry.json'' as) = Some data \<and> cfConfigDigest cfg = Digest (swSha W) data) \<and>
    bkDisk b = Some (marshalLedger (swEnv W) (bkLedger b)) \<and>
    (\<forall>key s pkey p. fmlookup (blSessions (bkLedger b)) key = Some s \<and> fmlookup (bsPrompts s) pkey = Some p \<longrightarrow>
      bpSettled p \<or> bpClosing p)"
proof -
  from startBroker_served [OF assms] obtain as where as: "flagParse brokerFlags args = Some (as, [])"
    and cfg: "loadBrokerConfiguration W (flagValue ''config'' ''/agent/foundry.json'' as) = Inr cfg"
    and n: "newLifecycleBroker (swEnv W) brokerAgentKitProofValid (swIO W) cfg
      (swOpened W (cfStateDir cfg) (cfConfigDigest cfg)) = Inr b" by blast
  obtain opened d where o: "swOpened W (cfStateDir cfg) (cfConfigDigest cfg) = (opened, d)" by fastforce
  note fresh = newLifecycleBroker_ok [OF n [unfolded o]]
  from fresh(1) recoveryChange_closes have "\<forall>key s pkey p. fmlookup (blSessions (bkLedger b)) key = Some s \<and>
      fmlookup (bsPrompts s) pkey = Some p \<longrightarrow> bpSettled p \<or> bpClosing p" by blast
  moreover have "\<exists>host port n. (cfAddr cfg = host @ '':'' @ port \<or> cfAddr cfg = ''['' @ host @ '']:'' @ port) \<and>
      swLoopback W host \<and> atoi port = Some n \<and> 0 < n \<and> n \<le> 65535"
    using loadBrokerConfiguration_ok(2) [OF cfg] by (rule brokerAddressValidE) blast
  ultimately show ?thesis
    using as fresh(2) loadBrokerConfiguration_ok(1,5,6) [OF cfg] by blast
qed

text \<open>The readiness probe needs no credentials, no configuration file and no ledger: two hosts that
  agree on the address variable, on parsing and on the answer to the probe give the same result,
  whatever their files, tokens and ledgers are.\<close>

theorem probe_independent:
  assumes "startBroker W args = Probed r"
    and "swGetenv W' ''ORKA_FOUNDRY_BROKER_ADDR'' = swGetenv W ''ORKA_FOUNDRY_BROKER_ADDR''"
    and "swLoopback W' = swLoopback W" "swParseURL W' = swParseURL W" "swGet W' = swGet W"
  shows "startBroker W' args = Probed r \<and> MaybeServe W' args = (True, r) \<and>
    (r = None \<longrightarrow> brokerAddressValid (swLoopback W') (brokerDefaultAddress W'))"
proof -
  have addr: "brokerDefaultAddress W' = brokerDefaultAddress W" using assms(2) by (simp add: brokerDefaultAddress_def)
  have health: "checkBrokerHealth W' a = checkBrokerHealth W a" for a
    unfolding checkBrokerHealth_def assms(3-5) ..
  from assms(1) obtain as where as: "brokerSelected args" "flagParse brokerFlags args = Some (as, [])"
      "flagValue ''protocol'' [] as = ''broker''" "parseBool (flagValue ''health-check'' ''false'' as) = Some True"
    and r: "r = checkBrokerHealth W (brokerDefaultAddress W)"
    by (auto simp: startBroker_def Let_def split: if_splits option.splits sum.splits prod.splits)
  then have s: "startBroker W' args = Probed r" by (simp add: startBroker_def health addr)
  have "r = None \<longrightarrow> brokerAddressValid (swLoopback W') (brokerDefaultAddress W')"
    using r addr assms(3) by (auto simp: checkBrokerHealth_def Let_def split: if_splits)
  with s show ?thesis by (simp add: MaybeServe_def)
qed

section \<open>Instances\<close>

text \<open>A host with a valid configuration and a new ledger.\<close>

definition bootAgent :: agentConfig where
  "bootAgent = \<lparr>acModel = ''m'', acToolSchemaMode = ToolSchemaModeRequest,
     acHostedTarget = \<lparr>htProjectEndpoint = ''https://h'', htAgentName = ''a'', htAgentVersion = ''1''\<rparr>\<rparr>"

definition bootEnv :: "string \<Rightarrow> string" where
  "bootEnv name = (if name = ''ORKA_FOUNDRY_ACP_AGENT_CONFIGURATION_DIGEST'' then exHash
     else if name = ''ORKA_FOUNDRY_ACP_MODEL'' then ''m''
     else if name = ''ORKA_FOUNDRY_BROKER_STATE_DIR'' then ''/s''
     else if name = ''ORKA_FOUNDRY_BROKER_BEARER_TOKEN'' then replicate 32 (CHR ''b'') else [])"

definition bootWorld :: serveWorld where
  "bootWorld = \<lparr>swGetenv = bootEnv, swFile = (\<lambda>_. Some []), swSha = (\<lambda>_. replicate 32 (CHR ''a'')),
     swDecode = (\<lambda>_. Some bootAgent),
     swParseURL = (\<lambda>_. Some \<lparr>uScheme = ''https'', uHost = ''h'', uHostname = ''h'', uHasUser = False,
       uForceQuery = False, uRawQuery = []\<rparr>),
     swLoopback = (\<lambda>host. host = ''127.0.0.1''), swEnv = exEnv, swIO = allIO,
     swOpened = (\<lambda>_ _. (Inr (emptyLedger exHash), Some (exMarshal (emptyLedger exHash)))), swProvider = True,
     swGet = (\<lambda>_. Some 200), swEnd = Interrupted\<rparr>"

lemma bootAddress: "FirstNonBlank [[], ''127.0.0.1:8091''] = ''127.0.0.1:8091''"
  by (simp add: trimSpace_Nil trimSpace_ascii isSpace_def byte_def)

lemma bootAddressValid: "brokerAddressValid (\<lambda>host. host = ''127.0.0.1'') ''127.0.0.1:8091''"
  by (simp add: brokerAddressValid_def splitHostPort_def lastColon_def hasPrefix_def atoi_def digitsValue_def isDigit_def byte_def)

lemma bootFlags: "flagParse brokerFlags [''--protocol=broker''] = Some ([(''protocol'', ''broker'')], [])"
    "flagParse brokerFlags [''--protocol=broker'', ''-health-check''] =
      Some ([(''protocol'', ''broker''), (''health-check'', ''true'')], [])"
  by (simp_all add: flagParse.simps hasPrefix_def cutChar_def brokerFlags_def parseBool_def)

theorem probe_independent_witness:
  "MaybeServe (bootWorld\<lparr>swFile := \<lambda>_. None, swProvider := False\<rparr>) [''--protocol=broker'', ''-health-check''] = (True, None)"
proof -
  have addr: "brokerDefaultAddress bootWorld = ''127.0.0.1:8091''"
    using bootAddress by (simp add: brokerDefaultAddress_def bootWorld_def bootEnv_def)
  have ok: "brokerAddressValid (swLoopback bootWorld) ''127.0.0.1:8091''"
    using bootAddressValid by (simp add: bootWorld_def)
  note f = bootFlags(2)
  have "startBroker bootWorld [''--protocol=broker'', ''-health-check''] = Probed None"
  proof -
    have "swParseURL bootWorld u = Some \<lparr>uScheme = ''https'', uHost = ''h'', uHostname = ''h'', uHasUser = False,
       uForceQuery = False, uRawQuery = []\<rparr>" "swGet bootWorld u = Some 200" for u by (simp_all add: bootWorld_def)
    then have "checkBrokerHealth bootWorld ''127.0.0.1:8091'' = None" using ok by (simp add: checkBrokerHealth_def)
    then show ?thesis using addr by (simp add: startBroker_def f flagValue_def parseBool_def)
  qed
  from probe_independent [OF this, of "bootWorld\<lparr>swFile := \<lambda>_. None, swProvider := False\<rparr>"] show ?thesis by simp
qed

theorem served_process_checked_witness:
  "\<exists>cfg b. startBroker bootWorld [''--protocol=broker''] = Served cfg b None \<and> 32 \<le> length (cfBearer cfg)"
proof -
  have addr: "FirstNonBlank [bootEnv ''ORKA_FOUNDRY_BROKER_ADDR'', ''127.0.0.1:8091''] = ''127.0.0.1:8091''"
    using bootAddress by (simp add: bootEnv_def)
  note ok = bootAddressValid and f = bootFlags(1)
  have safe: "EndpointIsSafe (swParseURL bootWorld) (swLoopback bootWorld) ''https://h''"
    by (simp add: EndpointIsSafe_def bootWorld_def trimSpace_ascii isSpace_def byte_def)
  have texts: "SafeString ''m'' 512" "trimSpace ''https://h'' = ''https://h''" "ValidateAgentName ''a''"
    "\<not> equalFold ''1'' ''latest''" "ValidateAgentVersion ''1''" "SafeString (replicate 32 (CHR ''b'')) 16384"
    "\<not> containsAny (replicate 32 (CHR ''b'')) [CHR '' '', CHR 0x09]"
    by (simp_all add: SafeString_def runes_all_ascii isControl_def byte_def trimSpace_ascii isSpace_def ValidateAgentName_def
        agentNameRE_def isAlnum_def equalFold_def ValidateAgentVersion_def agentVersionRE_def hasPrefix_def containsAny_def
        isDigit_def list_all_iff list_ex_iff)
  have dec: "DecodeAgentConfig (swSha bootWorld) (swDecode bootWorld)
      (EndpointIsSafe (swParseURL bootWorld) (swLoopback bootWorld)) [] exHash ''m'' = Some bootAgent"
    using safe texts(1-5) by (simp add: DecodeAgentConfig_def bootWorld_def bootAgent_def exHash_def Digest_def Let_def)
  obtain cfg where cfg: "loadBrokerConfiguration bootWorld ''/agent/foundry.json'' = Inr cfg"
    and fields: "cfConfigDigest cfg = exHash" "cfAgentKitProof cfg = []" "length (cfBearer cfg) = 32"
    using dec addr ok texts(6,7)
    by (simp add: loadBrokerConfiguration_def bootWorld_def bootEnv_def Let_def brokerAgentKitProofValid_def)
  obtain b where b: "newLifecycleBroker exEnv brokerAgentKitProofValid allIO cfg
      (Inr (emptyLedger exHash), Some (exMarshal (emptyLedger exHash))) = Inr b"
    using fields exReserve
    by (simp add: newLifecycleBroker_def Let_def commitLocked_def recovery_empty commitCapacityLocked_def
        brokerAgentKitProofValid_def saveBytes_def allIO_def brokerMaxLedgerBytes_def)
  have s: "startBroker bootWorld [''--protocol=broker''] = Served cfg b None"
    using cfg b by (simp add: startBroker_def f flagValue_def parseBool_def bootWorld_def)
  from served_process_checked [OF this] s show ?thesis by blast
qed

end
