(* ===== verification/DurableStore.thy ===== *)
theory DurableStore
  imports BrokerLedger "HOL-Library.Sublist"
begin

text \<open>
  \<^verbatim>\<open>src/internal/durablestore\<close>: creating the state directory with a sync barrier after every
  level, opening and locking the permanent lock file, and the check of a private file. The
  operating system is a record of answers, indexed by the number of calls made so far, so that
  other processes may change the directory between two calls; a call is also recorded in a
  trace, over which the barrier is stated. A path is the list of its names, innermost first:
  \<open>tl\<close> is \<open>filepath.Dir\<close> and \<open>[]\<close> the root.
\<close>

section \<open>Private files (file.go)\<close>

record fileInfo =
  fiRegular :: bool
  fiDir :: bool
  fiPerm :: nat
  fiUid :: "nat option"  \<comment> \<open>\<open>None\<close>: no \<open>Stat_t\<close>\<close>
  fiNlink :: nat

definition PrivateFile :: "nat \<Rightarrow> fileInfo option \<Rightarrow> bool" where
  "PrivateFile euid info = (case info of None \<Rightarrow> False | Some i \<Rightarrow>
     if \<not> fiRegular i \<or> fiPerm i \<noteq> 0x180 then False
     else (case fiUid i of None \<Rightarrow> False | Some uid \<Rightarrow> uid = euid \<and> fiNlink i = 1))"

section \<open>The directory and its parents (directory.go)\<close>

type_synonym path = "string list"

datatype statAnswer = Found bool | Missing | StatFailed  \<comment> \<open>\<open>Found dir\<close>\<close>
datatype callAnswer = CallOk | CallExists | CallFailed
datatype dirEvent = StatEv path statAnswer | MkdirEv path callAnswer | SyncEv path bool

record dirWorld =
  dwStat :: "nat \<Rightarrow> path \<Rightarrow> statAnswer"
  dwMkdir :: "nat \<Rightarrow> path \<Rightarrow> callAnswer"
  dwSync :: "nat \<Rightarrow> path \<Rightarrow> bool"

definition syncParent :: "'a dirWorld_scheme \<Rightarrow> path \<Rightarrow> dirEvent list \<Rightarrow> bool \<times> dirEvent list" where
  "syncParent W p tr = (dwSync W (length tr) p, tr @ [SyncEv p (dwSync W (length tr) p)])"

definition statCall :: "'a dirWorld_scheme \<Rightarrow> path \<Rightarrow> dirEvent list \<Rightarrow> statAnswer \<times> dirEvent list" where
  "statCall W p tr = (dwStat W (length tr) p, tr @ [StatEv p (dwStat W (length tr) p)])"

definition mkdirCall :: "'a dirWorld_scheme \<Rightarrow> path \<Rightarrow> dirEvent list \<Rightarrow> callAnswer \<times> dirEvent list" where
  "mkdirCall W p tr = (dwMkdir W (length tr) p, tr @ [MkdirEv p (dwMkdir W (length tr) p)])"

fun makeDirectory :: "'a dirWorld_scheme \<Rightarrow> path \<Rightarrow> dirEvent list \<Rightarrow> bool \<times> dirEvent list" where
  "makeDirectory W [] tr = (case statCall W [] tr of (r, tr1) \<Rightarrow> (r = Found True, tr1))"
| "makeDirectory W (name # parent) tr =
     (case statCall W (name # parent) tr of
        (Found True, tr1) \<Rightarrow> syncParent W parent tr1
      | (Found False, tr1) \<Rightarrow> (False, tr1)
      | (StatFailed, tr1) \<Rightarrow> (False, tr1)
      | (Missing, tr1) \<Rightarrow>
         (case makeDirectory W parent tr1 of
            (False, tr2) \<Rightarrow> (False, tr2)
          | (True, tr2) \<Rightarrow>
             (case mkdirCall W (name # parent) tr2 of
                (CallOk, tr3) \<Rightarrow> syncParent W parent tr3
              | (CallFailed, tr3) \<Rightarrow> (False, tr3)
              | (CallExists, tr3) \<Rightarrow>
                 (case statCall W (name # parent) tr3 of
                    (Found True, tr4) \<Rightarrow> syncParent W parent tr4
                  | (_, tr4) \<Rightarrow> (False, tr4)))))"

section \<open>The lock file (directory.go)\<close>

datatype flockAnswer = FlOk | FlInterrupted | FlFailed

text \<open>\<open>LOCK_EX\<close> with or without \<open>LOCK_NB\<close>.\<close>

datatype lockMode = LockWait | LockTry

record lockWorld = dirWorld +
  lwEuid :: nat
  lwLstat :: "fileInfo option"  \<comment> \<open>of the directory\<close>
  lwCreate :: callAnswer  \<comment> \<open>\<open>O_CREATE|O_EXCL\<close> on the lock file\<close>
  lwOpen :: bool  \<comment> \<open>opening the existing one\<close>
  lwInfo :: "fileInfo option"  \<comment> \<open>\<open>Stat\<close> of the opened file\<close>
  lwState :: statAnswer  \<comment> \<open>\<open>Lstat\<close> of \<open>state.json\<close>\<close>
  lwFlock :: "nat \<Rightarrow> lockMode \<Rightarrow> flockAnswer"

text \<open>The lock is waited for only by the creator of the lock file, and only while \<open>state.json\<close> is absent.\<close>

definition lockModeOf :: "bool \<Rightarrow> statAnswer \<Rightarrow> lockMode option" where
  "lockModeOf created st = (if \<not> created then Some LockTry else
     case st of StatFailed \<Rightarrow> None | Missing \<Rightarrow> Some LockWait | Found _ \<Rightarrow> Some LockTry)"

text \<open>The retry loop of \<open>LockFile\<close>; it runs for as long as signals interrupt the call.\<close>

partial_function (option) flockLoop :: "(nat \<Rightarrow> flockAnswer) \<Rightarrow> nat \<Rightarrow> bool option" where
  "flockLoop answer n = (case answer n of
     FlInterrupted \<Rightarrow> flockLoop answer (Suc n)
   | FlOk \<Rightarrow> Some True
   | FlFailed \<Rightarrow> Some False)"

declare flockLoop.simps [code]

definition LockFile :: "lockWorld \<Rightarrow> bool \<Rightarrow> bool option" where
  "LockFile W created = (case lockModeOf created (lwState W) of
     None \<Rightarrow> Some False
   | Some mode \<Rightarrow> flockLoop (\<lambda>n. lwFlock W n mode) 0)"

text \<open>\<open>Some (Some created)\<close>: locked; \<open>Some None\<close>: an error; \<open>None\<close>: the retry loop does not end.\<close>

definition OpenLock :: "lockWorld \<Rightarrow> path \<Rightarrow> bool option option \<times> dirEvent list" where
  "OpenLock W dir =
     (case makeDirectory W dir [] of
        (False, tr) \<Rightarrow> (Some None, tr)
      | (True, tr) \<Rightarrow> ((case lwLstat W of
          None \<Rightarrow> Some None
        | Some info \<Rightarrow>
           if fiUid info = None \<or> \<not> fiDir info \<or> fiPerm info \<noteq> 0x1C0 \<or> fiUid info \<noteq> Some (lwEuid W)
           then Some None
           else (let created = (lwCreate W = CallOk); opened = (created \<or> (lwCreate W = CallExists \<and> lwOpen W)) in
             if \<not> opened then Some None
             else if \<not> PrivateFile (lwEuid W) (lwInfo W) then Some None
             else (case LockFile W created of
                 None \<Rightarrow> None
               | Some False \<Rightarrow> Some None
               | Some True \<Rightarrow> Some (Some created)))), tr))"

text \<open>\<open>SyncDirectory\<close>: open, sync, close.\<close>

definition SyncDirectory :: "bool \<Rightarrow> bool \<Rightarrow> bool \<Rightarrow> bool" where
  "SyncDirectory opened synced closed = (if \<not> opened then False else if \<not> synced then False else closed)"

section \<open>The retry loop\<close>

lemma flockLoop_first:
  assumes "answer (n + k) \<noteq> FlInterrupted" "\<forall>i < k. answer (n + i) = FlInterrupted"
  shows "flockLoop answer n = Some (answer (n + k) = FlOk)"
  using assms
proof (induction k arbitrary: n)
  case 0
  then show ?case by (subst flockLoop.simps) (simp split: flockAnswer.splits)
next
  case (Suc k)
  then have "answer n = FlInterrupted" by force
  moreover have "flockLoop answer (Suc n) = Some (answer (Suc n + k) = FlOk)"
    using Suc.prems by (intro Suc.IH) auto
  ultimately show ?case by (subst flockLoop.simps) simp
qed

lemma flockLoop_total:
  assumes "answer m \<noteq> FlInterrupted"
  shows "\<exists>k \<le> m. (\<forall>i < k. answer i = FlInterrupted) \<and> answer k \<noteq> FlInterrupted \<and>
    flockLoop answer 0 = Some (answer k = FlOk)"
proof -
  define k where "k = (LEAST k. answer k \<noteq> FlInterrupted)"
  have k: "answer k \<noteq> FlInterrupted" unfolding k_def using assms by (rule LeastI)
  have "k \<le> m" unfolding k_def using assms by (rule Least_le)
  moreover have least: "\<forall>i < k. answer i = FlInterrupted" unfolding k_def using not_less_Least by blast
  moreover have "flockLoop answer 0 = Some (answer k = FlOk)" using flockLoop_first [of answer 0 k] k least by simp
  ultimately show ?thesis using k by blast
qed

lemma flockLoop_Some:
  assumes "flockLoop answer n = Some r"
  shows "\<exists>m \<ge> n. answer m \<noteq> FlInterrupted \<and> r = (answer m = FlOk)"
  using assms
proof (induction rule: flockLoop.raw_induct [rotated 1, consumes 1])
  case 1
  then show ?case by (fastforce split: flockAnswer.splits dest: Suc_leD)
qed

section \<open>The sync barrier\<close>

text \<open>The entry of \<open>d\<close> is known to be durable: its parent was synced after \<open>d\<close> was seen or created.\<close>

definition durableEntry :: "dirEvent list \<Rightarrow> path \<Rightarrow> bool" where
  "durableEntry tr d \<longleftrightarrow> d = [] \<or> (\<exists>i j. i < j \<and> j < length tr \<and>
     (tr ! i = StatEv d (Found True) \<or> tr ! i = MkdirEv d CallOk) \<and> tr ! j = SyncEv (tl d) True)"

text \<open>Every directory is made inside one whose own entry is durable by then.\<close>

definition barrier :: "path \<Rightarrow> dirEvent list \<Rightarrow> bool" where
  "barrier dir tr \<longleftrightarrow> (\<forall>i < length tr. \<forall>d a. tr ! i = MkdirEv d a \<longrightarrow>
     d \<noteq> [] \<and> suffix d dir \<and> durableEntry (take i tr) (tl d))"

lemma durableEntry_synced:
  assumes "e = StatEv (n # p) (Found True) \<or> e = MkdirEv (n # p) CallOk"
  shows "durableEntry (tr @ [e, SyncEv p True]) (n # p)"
proof -
  have "(tr @ [e, SyncEv p True]) ! length tr = e" "(tr @ [e, SyncEv p True]) ! Suc (length tr) = SyncEv p True"
    by (simp_all add: nth_append)
  with assms show ?thesis unfolding durableEntry_def
    by (intro disjI2 exI [of _ "length tr"] exI [of _ "Suc (length tr)"]) auto
qed

lemma barrier_Nil [simp]: "barrier dir []"
  by (simp add: barrier_def)

lemma barrier_snoc: "barrier dir (tr @ [e]) \<longleftrightarrow> barrier dir tr \<and>
    (\<forall>d a. e = MkdirEv d a \<longrightarrow> d \<noteq> [] \<and> suffix d dir \<and> durableEntry tr (tl d))"
  by (auto simp: barrier_def nth_append less_Suc_eq)

lemma barrier_sync:
  assumes "barrier goal (tr @ [e])" "e = StatEv (n # p) (Found True) \<or> e = MkdirEv (n # p) CallOk"
    "syncParent W p (tr @ [e]) = (ok, tr')"
  shows "barrier goal tr' \<and> (ok \<longrightarrow> durableEntry tr' (n # p))"
  using assms durableEntry_synced [OF assms(2), of tr] barrier_snoc [of goal "tr @ [e]"]
  by (auto simp: syncParent_def)

lemma makeDirectory_barrier:
  assumes "makeDirectory W dir tr = (ok, tr')" "barrier goal tr" "suffix dir goal"
  shows "barrier goal tr' \<and> (ok \<longrightarrow> durableEntry tr' dir)"
  using assms
proof (induction W dir tr arbitrary: ok tr' rule: makeDirectory.induct)
  case (1 W tr)
  then show ?case by (auto simp: statCall_def barrier_snoc durableEntry_def)
next
  case (2 W name parent tr)
  let ?d = "name # parent"
  let ?t1 = "tr @ [StatEv ?d (dwStat W (length tr) ?d)]"
  have b1: "barrier goal ?t1" using 2(3) by (simp add: barrier_snoc)
  have stat: "statCall W ?d tr = (dwStat W (length tr) ?d, ?t1)" by (simp add: statCall_def)
  show ?case
  proof (cases "dwStat W (length tr) ?d")
    case (Found isDir)
    with 2(2) stat b1 show ?thesis
      using barrier_sync [of goal tr "StatEv ?d (Found True)" name parent W ok tr'] by (cases isDir) auto
  next
    case StatFailed
    with 2(2) stat b1 show ?thesis by simp
  next
    case Missing
    obtain pok t2 where p: "makeDirectory W parent ?t1 = (pok, t2)" by fastforce
    have "suffix parent goal" using 2(4) by (metis suffix_ConsD)
    with 2(1) [OF stat [symmetric] Missing p b1] have b2: "barrier goal t2" "pok \<longrightarrow> durableEntry t2 parent" by blast+
    show ?thesis
    proof (cases pok)
      case False
      with 2(2) stat Missing p b2 show ?thesis by simp
    next
      case True
      let ?e = "MkdirEv ?d (dwMkdir W (length t2) ?d)"
      have b3: "barrier goal (t2 @ [?e])" using b2 True 2(4) by (simp add: barrier_snoc)
      have mk: "mkdirCall W ?d t2 = (dwMkdir W (length t2) ?d, t2 @ [?e])" by (simp add: mkdirCall_def)
      note step = 2(2) stat Missing p True mk
      show ?thesis
      proof (cases "dwMkdir W (length t2) ?d")
        case CallOk
        with step b3 show ?thesis using barrier_sync [of goal t2 ?e name parent W ok tr'] by simp
      next
        case CallFailed
        with step b3 show ?thesis by simp
      next
        case CallExists
        let ?f = "StatEv ?d (dwStat W (length (t2 @ [?e])) ?d)"
        have b4: "barrier goal ((t2 @ [?e]) @ [?f])" by (subst barrier_snoc) (use b3 in simp)
        have st: "statCall W ?d (t2 @ [?e]) = (dwStat W (length (t2 @ [?e])) ?d, (t2 @ [?e]) @ [?f])"
          by (simp add: statCall_def)
        show ?thesis
        proof (cases "dwStat W (length (t2 @ [?e])) ?d = Found True")
          case True
          with step CallExists st b4 show ?thesis
            using barrier_sync [of goal "t2 @ [?e]" ?f name parent W ok tr'] by simp
        next
          case False
          with step CallExists st b4 show ?thesis by (auto split: statAnswer.splits bool.splits)
        qed
      qed
    qed
  qed
qed

section \<open>Properties\<close>

text \<open>The state directory is created behind a sync barrier. Whatever other processes do between the
  calls, each directory is made inside one that was seen or created before and whose own entry its
  parent has synced since; nothing but the directory and its ancestors is made; and when the call
  succeeds, the entry of the directory itself is durable.\<close>

theorem directory_barrier:
  assumes "makeDirectory W dir [] = (ok, tr)"
  shows "(\<forall>i < length tr. \<forall>d a. tr ! i = MkdirEv d a \<longrightarrow>
      d \<noteq> [] \<and> suffix d dir \<and> durableEntry (take i tr) (tl d)) \<and> (ok \<longrightarrow> durableEntry tr dir)"
  using makeDirectory_barrier [OF assms, of dir] by (simp add: barrier_def)

text \<open>The lock is taken safely. When \<open>OpenLock\<close> succeeds, the directory's entry is durable, the
  directory is a private one of this user, the lock file is a private file, and \<open>flock\<close> has
  granted the lock, waiting for it only where this process created the lock file and saw no
  ledger. The created flag is true only for the process whose exclusive creation succeeded.\<close>

theorem lock_opened:
  assumes "OpenLock W dir = (Some (Some created), tr)"
  shows "durableEntry tr dir \<and>
    (\<exists>info. lwLstat W = Some info \<and> fiDir info \<and> fiPerm info = 0x1C0 \<and> fiUid info = Some (lwEuid W)) \<and>
    PrivateFile (lwEuid W) (lwInfo W) \<and> (created \<longleftrightarrow> lwCreate W = CallOk) \<and>
    (\<exists>n mode. lockModeOf created (lwState W) = Some mode \<and> lwFlock W n mode = FlOk \<and>
      (mode = LockWait \<longleftrightarrow> created \<and> lwState W = Missing))"
proof -
  obtain ok where m: "makeDirectory W dir [] = (ok, tr)" and ok: "ok"
    using assms by (auto simp: OpenLock_def split: prod.splits bool.splits)
  then have d: "durableEntry tr dir" using makeDirectory_barrier [OF m, of dir] by simp
  from assms m ok obtain info where info: "lwLstat W = Some info"
    by (auto simp: OpenLock_def split: option.splits)
  with assms m ok have checked: "fiDir info \<and> fiPerm info = 0x1C0 \<and> fiUid info = Some (lwEuid W)"
    by (auto simp: OpenLock_def Let_def split: if_splits)
  with assms m ok info have privy: "PrivateFile (lwEuid W) (lwInfo W)" and created: "created \<longleftrightarrow> lwCreate W = CallOk"
    and lock: "LockFile W created = Some True"
    by (auto simp: OpenLock_def Let_def split: if_splits option.splits bool.splits)
  from lock obtain mode where mode: "lockModeOf created (lwState W) = Some mode"
    and "flockLoop (\<lambda>n. lwFlock W n mode) 0 = Some True"
    by (auto simp: LockFile_def split: option.splits)
  from flockLoop_Some [OF this(2)] obtain n where "lwFlock W n mode = FlOk" by auto
  moreover have "mode = LockWait \<longleftrightarrow> created \<and> lwState W = Missing"
    using mode by (auto simp: lockModeOf_def split: if_splits statAnswer.splits)
  ultimately show ?thesis using d info checked privy created mode by blast
qed

text \<open>C30: Taking the lock ends as soon as one call of \<open>flock\<close> is not interrupted, and its result is that
  call's answer.\<close>

theorem lock_ends:
  assumes "lockModeOf created (lwState W) = Some mode" "lwFlock W m mode \<noteq> FlInterrupted"
  shows "\<exists>k \<le> m. lwFlock W k mode \<noteq> FlInterrupted \<and> (\<forall>i < k. lwFlock W i mode = FlInterrupted) \<and>
    LockFile W created = Some (lwFlock W k mode = FlOk)"
  using flockLoop_total [of "\<lambda>n. lwFlock W n mode" m] assms by (auto simp: LockFile_def)

section \<open>Instances\<close>

text \<open>An empty root in which \<open>/a\<close> is created, by this process or another one.\<close>

definition dsInfo :: "bool \<Rightarrow> fileInfo" where
  "dsInfo dir = \<lparr>fiRegular = \<not> dir, fiDir = dir, fiPerm = (if dir then 0x1C0 else 0x180), fiUid = Some 7, fiNlink = 1\<rparr>"

definition dsWorld :: lockWorld where
  "dsWorld = \<lparr>dwStat = (\<lambda>_ p. if p = [] then Found True else Missing), dwMkdir = (\<lambda>_ _. CallOk), dwSync = (\<lambda>_ _. True),
     lwEuid = 7, lwLstat = Some (dsInfo True), lwCreate = CallOk, lwOpen = False, lwInfo = Some (dsInfo False),
     lwState = Missing, lwFlock = (\<lambda>n _. if n < 2 then FlInterrupted else FlOk)\<rparr>"

definition dsTrace :: "dirEvent list" where
  "dsTrace = [StatEv [''a''] Missing, StatEv [] (Found True), MkdirEv [''a''] CallOk, SyncEv [] True]"

lemma dsMake: "makeDirectory dsWorld [''a''] [] = (True, dsTrace)"
  by (simp add: dsWorld_def dsTrace_def statCall_def mkdirCall_def syncParent_def)

theorem directory_barrier_witness:
  "makeDirectory dsWorld [''a''] [] = (True, dsTrace) \<and> durableEntry dsTrace [''a'']"
  using directory_barrier [OF dsMake] dsMake by simp

theorem lock_ends_witness: "LockFile dsWorld True = Some True"
proof -
  have mode: "lockModeOf True (lwState dsWorld) = Some LockWait" "lwFlock dsWorld 2 LockWait \<noteq> FlInterrupted"
    by (simp_all add: lockModeOf_def dsWorld_def)
  from lock_ends [OF mode] obtain k where "lwFlock dsWorld k LockWait \<noteq> FlInterrupted"
    "LockFile dsWorld True = Some (lwFlock dsWorld k LockWait = FlOk)" by blast
  then show ?thesis by (simp add: dsWorld_def split: if_splits)
qed

theorem lock_opened_witness:
  "OpenLock dsWorld [''a''] = (Some (Some True), dsTrace) \<and> PrivateFile 7 (lwInfo dsWorld)"
proof -
  have "flockLoop (\<lambda>n. lwFlock dsWorld n LockWait) 0 = Some True"
    by (simp add: dsWorld_def flockLoop.simps)
  then have lock: "LockFile dsWorld True = Some True" by (simp add: LockFile_def lockModeOf_def dsWorld_def)
  have fields: "lwLstat dsWorld = Some (dsInfo True)" "lwEuid dsWorld = 7" "lwCreate dsWorld = CallOk"
    "lwInfo dsWorld = Some (dsInfo False)" by (simp_all add: dsWorld_def)
  have "OpenLock dsWorld [''a''] = (Some (Some True), dsTrace)"
    by (simp add: OpenLock_def dsMake lock fields dsInfo_def PrivateFile_def del: makeDirectory.simps)
  from lock_opened [OF this] this show ?thesis by (simp add: fields)
qed

end
