(* ===== verification/DurableLock.thy ===== *)
theory DurableLock
  imports DurableStore BrokerExample
begin

text \<open>
  Several broker processes on one state directory: each opens or creates the permanent lock file,
  chooses how to lock it (\<^verbatim>\<open>src/internal/durablestore/directory.go\<close>), and with the lock opens
  the ledger (\<^verbatim>\<open>src/internal/broker/store.go\<close>). The kernel grants the lock to one descriptor
  at a time and drops it when its process dies, which may be at any moment.
\<close>

section \<open>Processes\<close>

datatype lockPhase = LpOpened bool | LpWanting bool lockMode | LpHolding bool | LpServing

record lockSys =
  lkExists :: bool  \<comment> \<open>the lock file\<close>
  lkDisk :: disk
  lkHolder :: "nat option"
  lkProcs :: "(nat, lockPhase) fmap"

datatype lockEvent = EvOpen nat | EvChoose nat | EvDie nat | EvRefused nat | EvGranted nat | EvLoad nat

definition diskStat :: "disk \<Rightarrow> statAnswer" where
  "diskStat d = (case d of None \<Rightarrow> Missing | Some _ \<Rightarrow> Found False)"

definition diskInfo :: "disk \<Rightarrow> lstat" where
  "diskInfo d = (case d of None \<Rightarrow> NotExist | Some data \<Rightarrow> Present True (length data))"

definition setProc :: "nat \<Rightarrow> lockPhase \<Rightarrow> lockSys \<Rightarrow> lockSys" where
  "setProc p ph K = K\<lparr>lkProcs := fmupd p ph (lkProcs K)\<rparr>"

definition endProc :: "nat \<Rightarrow> lockSys \<Rightarrow> lockSys" where
  "endProc p K = K\<lparr>lkProcs := fmdrop p (lkProcs K),
     lkHolder := (if lkHolder K = Some p then None else lkHolder K)\<rparr>"

inductive lockStep :: "env \<Rightarrow> (string \<Rightarrow> brokerLedger option) \<Rightarrow> string \<Rightarrow> lockEvent \<Rightarrow> lockSys \<Rightarrow> lockSys \<Rightarrow> bool"
  for E decode digest where
  opened: "fmlookup (lkProcs K) p = None \<Longrightarrow>
    lockStep E decode digest (EvOpen p) K (setProc p (LpOpened (\<not> lkExists K)) (K\<lparr>lkExists := True\<rparr>))"
| chosen: "fmlookup (lkProcs K) p = Some (LpOpened created) \<Longrightarrow> lockModeOf created (diskStat (lkDisk K)) = Some mode \<Longrightarrow>
    lockStep E decode digest (EvChoose p) K (setProc p (LpWanting created mode) K)"
| died: "fmlookup (lkProcs K) p = Some ph \<Longrightarrow> lockStep E decode digest (EvDie p) K (endProc p K)"
| refused: "fmlookup (lkProcs K) p = Some (LpWanting created LockTry) \<Longrightarrow> lkHolder K \<noteq> None \<Longrightarrow>
    lockStep E decode digest (EvRefused p) K (endProc p K)"
| granted: "fmlookup (lkProcs K) p = Some (LpWanting created mode) \<Longrightarrow> lkHolder K = None \<Longrightarrow>
    lockStep E decode digest (EvGranted p) K (setProc p (LpHolding created) (K\<lparr>lkHolder := Some p\<rparr>))"
| loaded: "fmlookup (lkProcs K) p = Some (LpHolding created) \<Longrightarrow>
    openBrokerStore E decode True digest (Some created) (diskInfo (lkDisk K)) (lkDisk K) io (lkDisk K) = (res, d) \<Longrightarrow>
    lockStep E decode digest (EvLoad p) K (case res of
      Inl e \<Rightarrow> endProc p (K\<lparr>lkDisk := d\<rparr>)
    | Inr l \<Rightarrow> setProc p LpServing (K\<lparr>lkDisk := d\<rparr>))"

inductive lockReachable :: "env \<Rightarrow> (string \<Rightarrow> brokerLedger option) \<Rightarrow> string \<Rightarrow> lockSys \<Rightarrow> bool"
  for E decode digest where
  start: "lockReachable E decode digest \<lparr>lkExists = ex, lkDisk = d, lkHolder = None, lkProcs = fmempty\<rparr>"
| step: "lockReachable E decode digest K \<Longrightarrow> lockStep E decode digest ev K K' \<Longrightarrow> lockReachable E decode digest K'"

section \<open>Invariant\<close>

text \<open>Inside: the process has the lock. Creator: it made the lock file and has not opened the ledger yet.\<close>

definition insideOf :: "lockSys \<Rightarrow> nat \<Rightarrow> bool" where
  "insideOf K p \<longleftrightarrow> (case fmlookup (lkProcs K) p of Some (LpHolding _) \<Rightarrow> True | Some LpServing \<Rightarrow> True | _ \<Rightarrow> False)"

definition creatorOf :: "lockSys \<Rightarrow> nat \<Rightarrow> bool" where
  "creatorOf K p \<longleftrightarrow> (case fmlookup (lkProcs K) p of Some (LpOpened c) \<Rightarrow> c | Some (LpWanting c _) \<Rightarrow> c
     | Some (LpHolding c) \<Rightarrow> c | _ \<Rightarrow> False)"

definition lockInv :: "lockSys \<Rightarrow> bool" where
  "lockInv K \<longleftrightarrow> (\<forall>p. insideOf K p \<longrightarrow> lkHolder K = Some p) \<and>
     (\<forall>p. creatorOf K p \<longrightarrow> lkExists K) \<and> (\<forall>p q. creatorOf K p \<longrightarrow> creatorOf K q \<longrightarrow> p = q) \<and>
     (\<forall>p. fmlookup (lkProcs K) p = Some (LpWanting True LockTry) \<longrightarrow> lkDisk K \<noteq> None)"

lemma setProc_fields [simp]: "lkExists (setProc p ph K) = lkExists K" "lkDisk (setProc p ph K) = lkDisk K"
  "lkHolder (setProc p ph K) = lkHolder K" "fmlookup (lkProcs (setProc p ph K)) q = (if q = p then Some ph else fmlookup (lkProcs K) q)"
  by (auto simp: setProc_def)

lemma endProc_fields [simp]: "lkExists (endProc p K) = lkExists K" "lkDisk (endProc p K) = lkDisk K"
  "lkHolder (endProc p K) = (if lkHolder K = Some p then None else lkHolder K)"
  "fmlookup (lkProcs (endProc p K)) q = (if q = p then None else fmlookup (lkProcs K) q)"
  by (auto simp: endProc_def)

lemma insideOf_set [simp]: "insideOf (setProc p ph K) q \<longleftrightarrow>
    (if q = p then (case ph of LpHolding _ \<Rightarrow> True | LpServing \<Rightarrow> True | _ \<Rightarrow> False) else insideOf K q)"
  "insideOf (endProc p K) q \<longleftrightarrow> q \<noteq> p \<and> insideOf K q"
  "insideOf (K\<lparr>lkDisk := d\<rparr>) q \<longleftrightarrow> insideOf K q" "insideOf (K\<lparr>lkExists := ex\<rparr>) q \<longleftrightarrow> insideOf K q"
  "insideOf (K\<lparr>lkHolder := h\<rparr>) q \<longleftrightarrow> insideOf K q"
  by (auto simp: insideOf_def split: lockPhase.splits)

lemma creatorOf_set [simp]: "creatorOf (setProc p ph K) q \<longleftrightarrow>
    (if q = p then (case ph of LpOpened c \<Rightarrow> c | LpWanting c _ \<Rightarrow> c | LpHolding c \<Rightarrow> c | _ \<Rightarrow> False) else creatorOf K q)"
  "creatorOf (endProc p K) q \<longleftrightarrow> q \<noteq> p \<and> creatorOf K q"
  "creatorOf (K\<lparr>lkDisk := d\<rparr>) q \<longleftrightarrow> creatorOf K q" "creatorOf (K\<lparr>lkExists := ex\<rparr>) q \<longleftrightarrow> creatorOf K q"
  "creatorOf (K\<lparr>lkHolder := h\<rparr>) q \<longleftrightarrow> creatorOf K q"
  by (auto simp: creatorOf_def split: lockPhase.splits)

lemma openBrokerStore_disk_kept:
  assumes "openBrokerStore E decode ok digest lock (diskInfo d) r io d = (res, d')" "d \<noteq> None"
  shows "d' = d"
  using assms by (auto simp: openBrokerStore_def diskInfo_def split: if_splits option.splits)

lemma openBrokerStore_rejects_absent:
  assumes "openBrokerStore E decode ok digest (Some False) (diskInfo None) r io None = (res, d')"
  shows "\<exists>e. res = Inl e" "d' = None"
  using assms by (auto simp: openBrokerStore_def diskInfo_def split: if_splits)

lemma lockInvI:
  assumes "\<And>p. insideOf K p \<Longrightarrow> lkHolder K = Some p" "\<And>p. creatorOf K p \<Longrightarrow> lkExists K"
    "\<And>p q. creatorOf K p \<Longrightarrow> creatorOf K q \<Longrightarrow> p = q"
    "\<And>p. fmlookup (lkProcs K) p = Some (LpWanting True LockTry) \<Longrightarrow> lkDisk K \<noteq> None"
  shows "lockInv K"
  using assms unfolding lockInv_def by blast

lemma lockInvD:
  assumes "lockInv K"
  shows "insideOf K p \<Longrightarrow> lkHolder K = Some p" "creatorOf K p \<Longrightarrow> lkExists K"
    "creatorOf K p \<Longrightarrow> creatorOf K q \<Longrightarrow> p = q"
    "fmlookup (lkProcs K) p = Some (LpWanting True LockTry) \<Longrightarrow> lkDisk K \<noteq> None"
  using assms unfolding lockInv_def by blast+

lemma lockInv_endProc: "lockInv K \<Longrightarrow> lockInv (endProc p K)"
  by (rule lockInvI) (auto split: if_splits dest: lockInvD)

lemma lockInv_disk: "lockInv K \<Longrightarrow> (lkDisk K \<noteq> None \<Longrightarrow> d \<noteq> None) \<Longrightarrow> lockInv (K\<lparr>lkDisk := d\<rparr>)"
  by (rule lockInvI) (auto dest: lockInvD)

lemma lockStep_inv:
  assumes "lockStep E decode digest ev K K'" "lockInv K"
  shows "lockInv K'"
  using assms
proof (induction rule: lockStep.induct)
  case (opened K p)
  show ?case
    by (rule lockInvI) (use opened(1) lockInvD [OF opened(2)] in \<open>auto split: if_splits\<close>)
next
  case (chosen K p created mode)
  from chosen(1) have p: "creatorOf K p = created" "\<not> insideOf K p" by (simp_all add: creatorOf_def insideOf_def)
  from chosen(2) have m: "mode = LockTry \<and> created \<Longrightarrow> lkDisk K \<noteq> None"
    by (auto simp: lockModeOf_def diskStat_def split: if_splits statAnswer.splits option.splits)
  show ?case
    by (rule lockInvI) (use p m lockInvD [OF chosen(3)] in \<open>auto split: if_splits\<close>)
next
  case (died K p ph)
  then show ?case by (simp add: lockInv_endProc)
next
  case (refused K p created)
  then show ?case by (simp add: lockInv_endProc)
next
  case (granted K p created mode)
  from granted(1) have p: "creatorOf K p = created" by (simp add: creatorOf_def)
  show ?case
    by (rule lockInvI) (use p granted(2) lockInvD [OF granted(3)] in \<open>auto split: if_splits\<close>)
next
  case (loaded K p created io res d)
  from loaded(1) have p: "creatorOf K p = created" "insideOf K p" by (simp_all add: creatorOf_def insideOf_def)
  have h: "lkHolder K = Some p" using lockInvD(1) [OF loaded(3) p(2)] .
  have d1: "lockInv (K\<lparr>lkDisk := d\<rparr>)" using openBrokerStore_disk_kept [OF loaded(2)] loaded(3) by (intro lockInv_disk) auto
  have "lockInv (setProc p LpServing (K\<lparr>lkDisk := d\<rparr>))"
  proof (rule lockInvI)
    fix q
    show "insideOf (setProc p LpServing (K\<lparr>lkDisk := d\<rparr>)) q \<Longrightarrow> lkHolder (setProc p LpServing (K\<lparr>lkDisk := d\<rparr>)) = Some q"
      using h lockInvD(1) [OF loaded(3), of q] by (simp split: if_splits)
    show "creatorOf (setProc p LpServing (K\<lparr>lkDisk := d\<rparr>)) q \<Longrightarrow> lkExists (setProc p LpServing (K\<lparr>lkDisk := d\<rparr>))"
      using lockInvD(2) [OF loaded(3), of q] by (simp split: if_splits)
    show "fmlookup (lkProcs (setProc p LpServing (K\<lparr>lkDisk := d\<rparr>))) q = Some (LpWanting True LockTry) \<Longrightarrow>
        lkDisk (setProc p LpServing (K\<lparr>lkDisk := d\<rparr>)) \<noteq> None"
      using lockInvD(4) [OF d1, of q] by (simp split: if_splits)
    fix r
    show "creatorOf (setProc p LpServing (K\<lparr>lkDisk := d\<rparr>)) q \<Longrightarrow>
        creatorOf (setProc p LpServing (K\<lparr>lkDisk := d\<rparr>)) r \<Longrightarrow> q = r"
      using lockInvD(3) [OF loaded(3), of q r] by (simp split: if_splits)
  qed
  with d1 show ?case by (simp add: lockInv_endProc split: sum.splits)
qed

lemma lockReachable_inv: "lockReachable E decode digest K \<Longrightarrow> lockInv K"
proof (induction rule: lockReachable.induct)
  case (start ex d)
  then show ?case by (simp add: lockInv_def insideOf_def creatorOf_def)
next
  case (step K ev K')
  then show ?case by (blast intro: lockStep_inv)
qed

section \<open>Properties\<close>


text \<open>The right to initialise is lost only with its process. While no ledger exists, the process that
  created the lock file keeps that right through every step of the others, and through its own
  steps except dying and opening the ledger: it is never refused the lock because of contention.
  No other process creates a ledger in the meantime.\<close>

theorem initialization_right_kept:
  assumes K: "lockReachable E decode digest K" "lkDisk K = None" "creatorOf K p"
    and s: "lockStep E decode digest ev K K'" "ev \<noteq> EvDie p" "ev \<noteq> EvLoad p"
  shows "creatorOf K' p \<and> lkDisk K' = None"
  using s(1)
proof cases
  case (opened q)
  then show ?thesis using K by (auto simp: creatorOf_def)
next
  case (chosen q created mode)
  then show ?thesis using K by (auto simp: creatorOf_def)
next
  case (died q ph)
  then show ?thesis using K s by auto
next
  case (refused q created)
  have "q \<noteq> p"
  proof
    assume "q = p"
    then have "fmlookup (lkProcs K) p = Some (LpWanting True LockTry)" using refused K(3) by (simp add: creatorOf_def)
    with lockInvD(4) [OF lockReachable_inv [OF K(1)]] K(2) show False by blast
  qed
  then show ?thesis using refused K by simp
next
  case (granted q created mode)
  then show ?thesis using K by (auto simp: creatorOf_def)
next
  case (loaded q created io res d)
  have qp: "q \<noteq> p" using loaded(1) s(3) by auto
  have "\<not> created"
  proof
    assume "created"
    then have "creatorOf K q" using loaded(3) by (simp add: creatorOf_def)
    with lockInvD(3) [OF lockReachable_inv [OF K(1)] this K(3)] qp show False by blast
  qed
  then have "\<exists>e. res = Inl e" "d = None" using openBrokerStore_rejects_absent loaded(4) K(2) by auto
  with loaded(2) qp K show ?thesis by auto
qed

section \<open>Instances\<close>

definition lkFresh :: lockSys where
  "lkFresh = \<lparr>lkExists = False, lkDisk = None, lkHolder = None, lkProcs = fmempty\<rparr>"

definition lkMade :: lockSys where
  "lkMade = setProc 0 (LpOpened True) (lkFresh\<lparr>lkExists := True\<rparr>)"

lemma lkMade_reachable: "lockReachable exEnv exDecode exHash lkMade"
proof -
  have s: "lockReachable exEnv exDecode exHash lkFresh" unfolding lkFresh_def by (rule lockReachable.start)
  have "lockStep exEnv exDecode exHash (EvOpen 0) lkFresh lkMade"
    using lockStep.opened [of lkFresh 0 exEnv exDecode exHash] by (simp add: lkMade_def lkFresh_def)
  with s show ?thesis by (rule lockReachable.step)
qed

lemma lkChoose: "lockStep exEnv exDecode exHash (EvChoose 0) lkMade (setProc 0 (LpWanting True LockWait) lkMade)"
  by (rule lockStep.chosen) (simp_all add: lkMade_def lkFresh_def lockModeOf_def diskStat_def)


theorem initialization_right_kept_witness: "creatorOf (setProc 0 (LpWanting True LockWait) lkMade) 0"
proof -
  have "lkDisk lkMade = None" "creatorOf lkMade 0" by (simp_all add: lkMade_def lkFresh_def)
  from initialization_right_kept [OF lkMade_reachable this lkChoose] show ?thesis by simp
qed


end
