(* ===== verification/HostedProtocol.thy ===== *)
theory HostedProtocol
  imports FoundryValidate GoNet
begin

text \<open>
  \<^verbatim>\<open>src/internal/hosted/protocol.go\<close>: the records of the hosted handshake, the signed hello with
  its stable byte representation, the image configuration and the bootstrap message. The record
  \<^emph>\<open>hostedEnv\<close> holds what comes from outside the repository: Ed25519 and the curve library, the
  UUID parser and the URL parser.
\<close>

section \<open>Outside the repository\<close>

record hostedURL =
  huScheme :: string
  huOpaque :: string
  huHasUser :: bool
  huHost :: string
  huHostname :: string
  huPort :: string
  huPath :: string
  huRawPath :: string
  huRawQuery :: string
  huForceQuery :: bool
  huFragment :: string
  huString :: string  \<comment> \<open>\<open>URL.String\<close>\<close>

record hostedEnv =
  heSha :: "string \<Rightarrow> string"
  heUUID :: "string \<Rightarrow> (bool \<times> string) option"  \<comment> \<open>\<open>uuid.Parse\<close>: is \<open>Nil\<close>, \<open>String()\<close>\<close>
  heURL :: "string \<Rightarrow> hostedURL option"
  heFromSeed :: "string \<Rightarrow> string"  \<comment> \<open>\<open>ed25519.NewKeyFromSeed\<close>\<close>
  heSign :: "string \<Rightarrow> string \<Rightarrow> string"
  heVerify :: "string \<Rightarrow> string \<Rightarrow> string \<Rightarrow> bool"
  hePoint :: "string \<Rightarrow> (string \<times> bool) option"  \<comment> \<open>\<open>Point.SetBytes\<close>: canonical bytes, of small order\<close>

section \<open>Records\<close>

definition hostedProtocol :: string where
  "hostedProtocol = ''orka.foundry.hosted.v1''"

record hostedImageConfig =
  hiProtocol :: string
  hiDeploymentID :: string
  hiTarget :: hostedTarget
  hiSigningPublicKey :: string
  hiAgentConfigurationDigest :: string

record hostedBootstrap =
  hbEnvironment :: "(string, string) fmap"
  hbControllerToken :: string
  hbCapabilitySecret :: string
  hbProviderToken :: string

record hostedChallenge =
  hcProtocol :: string
  hcDeploymentID :: string
  hcConfigurationDigest :: string
  hcAgentName :: string
  hcAgentVersion :: string
  hcSessionID :: string
  hcBootID :: string
  hcNonce :: string

record hostedHello =
  hhChallenge :: hostedChallenge
  hhPairID :: string
  hhRole :: string
  hhBootstrapDigest :: string
  hhExpiresAt :: int
  hhSignature :: string

record hostedAccepted =
  haProtocol :: string
  haPairID :: string
  haRole :: string
  haBootID :: string
  haBootstrapDigest :: string

section \<open>Text checks\<close>

definition hostedUUIDValid :: "hostedEnv \<Rightarrow> string \<Rightarrow> bool" where
  "hostedUUIDValid H v = (case heUUID H v of None \<Rightarrow> False | Some (isNil, canonical) \<Rightarrow> \<not> isNil \<and> canonical = v)"

definition hostedPositiveUint :: "string \<Rightarrow> bool" where
  "hostedPositiveUint v = (case parseUint 64 v of None \<Rightarrow> False | Some n \<Rightarrow> 0 < n \<and> formatUint n = v)"

text \<open>The OR of all bytes.\<close>

definition hostedNonzeroBytes :: "string \<Rightarrow> bool" where
  "hostedNonzeroBytes v \<longleftrightarrow> fold (\<lambda>c (acc :: 8 word). or acc (of_nat (byte c))) v 0 \<noteq> 0"

definition encodedLen :: "nat \<Rightarrow> nat" where
  "encodedLen n = n div 3 * 4 + (n mod 3 * 8 + 5) div 6"

definition hostedCanonicalBytes :: "string \<Rightarrow> nat \<Rightarrow> string option" where
  "hostedCanonicalBytes v size' =
     (if length v \<noteq> encodedLen size' then None else
      case b64Decode v of None \<Rightarrow> None | Some decoded \<Rightarrow>
        if length decoded \<noteq> size' \<or> b64Encode decoded \<noteq> v \<or> \<not> hostedNonzeroBytes decoded then None
        else Some decoded)"

definition hostedPublicKey :: "hostedEnv \<Rightarrow> string \<Rightarrow> string option" where
  "hostedPublicKey H v = (case hostedCanonicalBytes v 32 of None \<Rightarrow> None | Some decoded \<Rightarrow>
     (case hePoint H decoded of None \<Rightarrow> None
      | Some (bytes, smallOrder) \<Rightarrow> if bytes \<noteq> decoded then None else if smallOrder then None else Some decoded))"

definition hostedCredentialValid :: "string \<Rightarrow> bool" where
  "hostedCredentialValid v = (if length v < 32 \<or> \<not> utf8Valid v \<or> \<not> SafeString v 16384 then False
     else \<not> list_ex isSpace (runes v))"

definition hostedASCIIAlphanumeric :: "char \<Rightarrow> bool" where
  "hostedASCIIAlphanumeric c \<longleftrightarrow> (97 \<le> byte c \<and> byte c \<le> 122) \<or> (65 \<le> byte c \<and> byte c \<le> 90) \<or>
     (48 \<le> byte c \<and> byte c \<le> 57)"

text \<open>\<open>strings.ToLower\<close> is used on a label whose bytes must all be ASCII.\<close>

definition hostedDNSLabelValid :: "string \<Rightarrow> bool" where
  "hostedDNSLabelValid v =
     (if v = [] \<or> length v > 63 \<or> v \<noteq> toLowerAscii v \<or> \<not> hostedASCIIAlphanumeric (hd v) \<or>
         \<not> hostedASCIIAlphanumeric (last v) then False
      else list_all (\<lambda>c. hostedASCIIAlphanumeric c \<or> c = CHR ''-'') v)"

definition hostedTargetValid :: "hostedEnv \<Rightarrow> hostedTarget \<Rightarrow> bool" where
  "hostedTargetValid H target =
     (if \<not> ValidateAgentName (htAgentName target) \<or> \<not> hostedPositiveUint (htAgentVersion target) \<or>
         \<not> SafeString (htProjectEndpoint target) 2048 \<or> containsAny (htProjectEndpoint target) ''%#'' then False else
      case heURL H (htProjectEndpoint target) of None \<Rightarrow> False | Some u \<Rightarrow>
        if huScheme u \<noteq> ''https'' \<or> huOpaque u \<noteq> [] \<or> huHasUser u \<or> huHost u \<noteq> huHostname u \<or>
           huRawQuery u \<noteq> [] \<or> huForceQuery u \<or> huFragment u \<noteq> [] \<or> huRawPath u \<noteq> [] \<or>
           huString u \<noteq> htProjectEndpoint target then False
        else if \<not> hasSuffix (huHost u) ''.services.ai.azure.com'' \<or>
           \<not> hostedDNSLabelValid (trimSuffix (huHost u) ''.services.ai.azure.com'') then False
        else if \<not> hasPrefix (huPath u) ''/api/projects/'' then False
        else (let project = trimPrefix (huPath u) ''/api/projects/'' in
          if project = [] \<or> length project > 128 \<or> \<not> hostedASCIIAlphanumeric (hd project) \<or>
             \<not> hostedASCIIAlphanumeric (last project) then False
          else list_all (\<lambda>c. hostedASCIIAlphanumeric c \<or> c \<in> set ''-_.'') project))"

definition validateHostedImageConfig :: "hostedEnv \<Rightarrow> hostedImageConfig \<Rightarrow> bool" where
  "validateHostedImageConfig H cfg =
     (if hiProtocol cfg \<noteq> hostedProtocol \<or> \<not> hostedUUIDValid H (hiDeploymentID cfg) \<or>
         \<not> DigestValid (hiAgentConfigurationDigest cfg) \<or> \<not> hostedTargetValid H (hiTarget cfg) then False
      else hostedPublicKey H (hiSigningPublicKey cfg) \<noteq> None)"

section \<open>The signed hello\<close>

definition challengeJSON :: "hostedChallenge \<Rightarrow> string" where
  "challengeJSON c = jsonObject
     [(''protocol'', Some (jsonString (hcProtocol c))), (''deploymentID'', Some (jsonString (hcDeploymentID c))),
      (''configurationDigest'', Some (jsonString (hcConfigurationDigest c))),
      (''agentName'', Some (jsonString (hcAgentName c))), (''agentVersion'', Some (jsonString (hcAgentVersion c))),
      (''sessionID'', Some (jsonString (hcSessionID c))), (''bootID'', Some (jsonString (hcBootID c))),
      (''nonce'', Some (jsonString (hcNonce c)))]"

definition hostedHelloSigningBytes :: "hostedEnv \<Rightarrow> hostedHello \<Rightarrow> string option" where
  "hostedHelloSigningBytes H v =
     (let c = hhChallenge v in
      if hcProtocol c \<noteq> hostedProtocol \<or> \<not> hostedUUIDValid H (hcDeploymentID c) \<or>
         \<not> DigestValid (hcConfigurationDigest c) \<or> \<not> ValidateAgentName (hcAgentName c) \<or>
         \<not> hostedPositiveUint (hcAgentVersion c) \<or> \<not> hostedUUIDValid H (hcSessionID c) \<or>
         \<not> hostedUUIDValid H (hcBootID c) \<or> \<not> hostedUUIDValid H (hhPairID v) \<or>
         (hhRole v \<noteq> ''forward'' \<and> hhRole v \<noteq> ''reverse'') \<or> \<not> DigestValid (hhBootstrapDigest v) \<or>
         hhExpiresAt v \<le> 0 then None
      else if hostedCanonicalBytes (hcNonce c) 32 = None then None
      else Some (hostedProtocol @ [CHR 0x00] @ ''hello'' @ [CHR 0x00] @ jsonObject
        [(''challenge'', Some (challengeJSON c)), (''pairID'', Some (jsonString (hhPairID v))),
         (''role'', Some (jsonString (hhRole v))), (''bootstrapDigest'', Some (jsonString (hhBootstrapDigest v))),
         (''expiresAt'', Some (formatUint (nat (hhExpiresAt v))))]))"

definition hostedSigningKeyValid :: "hostedEnv \<Rightarrow> string \<Rightarrow> bool" where
  "hostedSigningKeyValid H key = (if length key \<noteq> 64 \<or> \<not> hostedNonzeroBytes (take 32 key) then False
     else key = heFromSeed H (take 32 key))"

definition signHostedHello :: "hostedEnv \<Rightarrow> hostedHello \<Rightarrow> string \<Rightarrow> hostedHello option" where
  "signHostedHello H v key = (if \<not> hostedSigningKeyValid H key then None else
     case hostedHelloSigningBytes H v of None \<Rightarrow> None
     | Some data \<Rightarrow> Some (v\<lparr>hhSignature := b64Encode (heSign H key data)\<rparr>))"

text \<open>\<open>time.Unix\<close> adds the offset of Go's zero time in 64 bits; instants are in nanoseconds.\<close>

definition unixTime :: "int \<Rightarrow> int" where
  "unixTime s = ((s + 62135596800 + 2 ^ 63) mod 2 ^ 64 - 2 ^ 63) * 1000000000"

definition verifyHostedHello :: "hostedEnv \<Rightarrow> hostedHello \<Rightarrow> hostedChallenge \<Rightarrow> string \<Rightarrow> int \<Rightarrow> bool" where
  "verifyHostedHello H v expected publicKey now =
     (if hhChallenge v \<noteq> expected then False else
      let expires = unixTime (hhExpiresAt v) in
      if \<not> now < expires \<or> now + 90000000000 < expires then False else
      (case (hostedPublicKey H publicKey, hostedCanonicalBytes (hhSignature v) 64, hostedHelloSigningBytes H v) of
         (Some key, Some signature, Some data) \<Rightarrow> heVerify H key data signature
       | _ \<Rightarrow> False))"

section \<open>The bootstrap message\<close>

text \<open>One pass of the loop: the key is unknown or its value bad, or it is fine and counts or not.\<close>

datatype envCheck = EnvBad | EnvCounted | EnvLimit

definition envEntry :: "hostedEnv \<Rightarrow> hostedImageConfig \<Rightarrow> string \<Rightarrow> string \<Rightarrow> envCheck" where
  "envEntry H cfg key v =
     (let counted = (\<lambda>ok. if ok then EnvCounted else EnvBad) in
      if key = ''ORKA_ACP_PROVIDER'' then counted (v = ''foundry'')
      else if key = ''ORKA_ACP_MODEL'' then counted (utf8Valid v \<and> SafeString v 512 \<and> trimSpace v = v)
      else if key \<in> {''ORKA_ACP_FOUNDRY_ADAPTER_DIGEST'', ''ORKA_ACP_TOOL_POLICY_DIGEST'',
          ''ORKA_ACP_APPROVAL_POLICY_DIGEST'', ''ORKA_ACP_MCP_CONFIGURATION_DIGEST''} then counted (DigestValid v)
      else if key = ''ORKA_ACP_AGENT_CONFIGURATION_DIGEST'' then counted (v = hiAgentConfigurationDigest cfg)
      else if key = ''ORKA_ACP_WORKSPACE_INTENT'' then counted (v = ''read'' \<or> v = ''write'')
      else if key = ''ORKA_ACP_PROXY_CREDENTIAL_ROLE'' then counted (v = ''operator-managed'')
      else if key = ''ORKA_ACP_PROXY_CREDENTIAL_SCOPE'' then counted (v = ''external-runtime'')
      else if key = ''ORKA_ACP_RESOURCE_CLASS'' then counted (v = ''external'')
      else if key = ''ORKA_ACP_TRUST_NAMESPACE'' then counted (hostedDNSLabelValid v)
      else if key \<in> {''ORKA_ACP_CONTROLLER_EPOCH'', ''ORKA_ACP_RUNTIME_POOL_GENERATION''} then counted (hostedPositiveUint v)
      else if key = ''ORKA_ACP_RUNTIME_POOL_UID'' then counted (hostedUUIDValid H v)
      else if key \<in> {''ORKA_ACP_MODEL_CONTEXT_LIMIT'', ''ORKA_ACP_MODEL_OUTPUT_LIMIT''} then
        (if hostedPositiveUint v then EnvLimit else EnvBad)
      else EnvBad)"

text \<open>The range over the map rejects on any bad entry; the order does not matter for the result.\<close>

definition validateHostedBootstrap :: "hostedEnv \<Rightarrow> hostedImageConfig \<Rightarrow> hostedBootstrap \<Rightarrow> bool" where
  "validateHostedBootstrap H cfg b =
     (if \<not> validateHostedImageConfig H cfg \<or> \<not> hostedCredentialValid (hbControllerToken b) \<or>
         \<not> hostedCredentialValid (hbCapabilitySecret b) \<or> \<not> hostedCredentialValid (hbProviderToken b) then False
      else if fmexists (\<lambda>k v. envEntry H cfg k v = EnvBad) (hbEnvironment b) then False
      else fmcount (\<lambda>k v. envEntry H cfg k v = EnvCounted) (hbEnvironment b) = 15 \<and>
        (fmlookup (hbEnvironment b) ''ORKA_ACP_MODEL_CONTEXT_LIMIT'' \<noteq> None \<longleftrightarrow>
         fmlookup (hbEnvironment b) ''ORKA_ACP_MODEL_OUTPUT_LIMIT'' \<noteq> None))"

end
