(* ===== verification/HostedStore.thy ===== *)
theory HostedStore
  imports HostedProtocol BrokerLedger GoNet
begin

text \<open>
  \<^verbatim>\<open>src/internal/hosted/config.go\<close> and \<^verbatim>\<open>src/internal/hosted/store.go\<close>: the gateway's
  configuration, its settings from files and the environment, and the small ledger that records
  what the one hosted lifetime may have done. Files are a map from paths; the typed strict
  decoders of the JSON documents are parameters.
\<close>

section \<open>Configuration (config.go)\<close>

definition hostedMaxHandshakeBytes :: nat where "hostedMaxHandshakeBytes = 65536"

record hostedGatewayConfig =
  hgProtocol :: string
  hgImage :: hostedImageConfig
  hgContainerImage :: string
  hgSessionID :: string
  hgRuntimeProfileDigest :: string
  hgRuntimeEnvironment :: "(string, string) fmap"
  hgOrkaBaseURL :: string
  hgBrokerBaseURL :: string

record hostedGatewaySettings =
  hsConfig :: hostedGatewayConfig
  hsBootstrap :: hostedBootstrap
  hsSigningKey :: string
  hsStateDir :: string
  hsAddress :: string

text \<open>What the gateway process reads: files with their kind, size and content, the environment, and
  the parsers of the standard library.\<close>

record hostedFiles =
  hfFile :: "string \<Rightarrow> (bool \<times> nat \<times> string) option"  \<comment> \<open>regular, size, what can be read\<close>
  hfGetenv :: "string \<Rightarrow> string"
  hfConfig :: "string \<Rightarrow> hostedGatewayConfig option"
  hfImage :: "string \<Rightarrow> hostedImageConfig option"
  hfIP :: "string \<Rightarrow> bool option"  \<comment> \<open>\<open>net.ParseIP\<close>, then \<open>IsLoopback\<close>\<close>

definition readHostedFile :: "hostedFiles \<Rightarrow> string \<Rightarrow> nat \<Rightarrow> string option" where
  "readHostedFile F p maximum =
     (if \<not> isAbs p then None else
      case hfFile F p of None \<Rightarrow> None | Some (regular, fileSize, content) \<Rightarrow>
        if \<not> regular \<or> fileSize > maximum then None
        else (let data = take (maximum + 1) content in if length data > maximum then None else Some data))"

definition readHostedConfig :: "hostedFiles \<Rightarrow> (string \<Rightarrow> 'a option) \<Rightarrow> string \<Rightarrow> 'a option" where
  "readHostedConfig F decode p = (case readHostedFile F p hostedMaxHandshakeBytes of
     None \<Rightarrow> None | Some data \<Rightarrow> decode data)"

definition loadHostedImageConfig :: "hostedEnv \<Rightarrow> hostedFiles \<Rightarrow> string \<Rightarrow> hostedImageConfig option" where
  "loadHostedImageConfig H F p = (case readHostedConfig F (hfImage F) p of
     None \<Rightarrow> None | Some cfg \<Rightarrow> if validateHostedImageConfig H cfg then Some cfg else None)"

definition hostedRelayTargetValid :: "hostedEnv \<Rightarrow> hostedFiles \<Rightarrow> string \<Rightarrow> bool \<Rightarrow> bool" where
  "hostedRelayTargetValid H F raw loopback = (case heURL H raw of None \<Rightarrow> False | Some u \<Rightarrow>
     if \<not> SafeString raw 2048 \<or> (huScheme u \<noteq> ''http'' \<and> huScheme u \<noteq> ''https'') \<or> huHost u = [] \<or> huHasUser u \<or>
        huPath u \<noteq> [] \<or> huRawPath u \<noteq> [] \<or> huRawQuery u \<noteq> [] \<or> huForceQuery u \<or> huFragment u \<noteq> [] \<or>
        CHR ''#'' \<in> set raw then False
     else if huPort u \<noteq> [] \<and> (case atoi (huPort u) of None \<Rightarrow> True | Some n \<Rightarrow> n < 1 \<or> n > 65535) then False
     else if loopback then hfIP F (huHostname u) = Some True
     else True)"

definition hostedListenAddressValid :: "hostedFiles \<Rightarrow> string \<Rightarrow> bool" where
  "hostedListenAddressValid F address = (case splitHostPort address of None \<Rightarrow> False | Some (host, port) \<Rightarrow>
     (case atoi port of None \<Rightarrow> False | Some n \<Rightarrow> 1 \<le> n \<and> n \<le> 65535 \<and> (host = [] \<or> hfIP F host \<noteq> None)))"

text \<open>The synthetic credentials of the check are 32 letters.\<close>

definition placeholderBootstrap :: "(string, string) fmap \<Rightarrow> hostedBootstrap" where
  "placeholderBootstrap m = \<lparr>hbEnvironment = m, hbControllerToken = replicate 32 (CHR ''x''),
     hbCapabilitySecret = replicate 32 (CHR ''x''), hbProviderToken = replicate 32 (CHR ''x'')\<rparr>"

definition validateHostedGatewayConfig :: "hostedEnv \<Rightarrow> hostedFiles \<Rightarrow> hostedGatewayConfig \<Rightarrow> bool" where
  "validateHostedGatewayConfig H F cfg =
     (case cutChar (hgContainerImage cfg) (CHR ''@'') of (imageName, digest, pinned) \<Rightarrow>
      if hgProtocol cfg \<noteq> hostedProtocol \<or> \<not> validateHostedImageConfig H (hgImage cfg) \<or>
         \<not> hostedUUIDValid H (hgSessionID cfg) \<or> \<not> DigestValid (hgRuntimeProfileDigest cfg) \<or> \<not> pinned \<or>
         \<not> DigestValid digest \<or> \<not> SafeString imageName 512 \<or> containsAny imageName (CHR 0x5C # '' @?#'') then False
      else if \<not> validateHostedBootstrap H (hgImage cfg) (placeholderBootstrap (hgRuntimeEnvironment cfg)) then False
      else hostedRelayTargetValid H F (hgOrkaBaseURL cfg) False \<and> hostedRelayTargetValid H F (hgBrokerBaseURL cfg) True)"

definition loadHostedGatewaySettings :: "hostedEnv \<Rightarrow> hostedFiles \<Rightarrow> string \<Rightarrow> hostedGatewaySettings option" where
  "loadHostedGatewaySettings H F p =
     (case readHostedConfig F (hfConfig F) p of None \<Rightarrow> None | Some cfg \<Rightarrow>
      if \<not> validateHostedGatewayConfig H F cfg then None else
      (let stateDir = hfGetenv F ''ORKA_FOUNDRY_GATEWAY_STATE_DIR'';
           address = FirstNonBlank [hfGetenv F ''ORKA_FOUNDRY_GATEWAY_ADDR'', '':8080''] in
       if \<not> isAbs stateDir \<or> cleanPath stateDir = ''/'' \<or> \<not> hostedListenAddressValid F address then None else
       (case readHostedFile F (hfGetenv F ''ORKA_FOUNDRY_GATEWAY_SIGNING_KEY_FILE'') 4096 of None \<Rightarrow> None | Some key \<Rightarrow>
       (case b64Decode key of None \<Rightarrow> None | Some decoded \<Rightarrow>
         if length decoded \<noteq> 64 \<or> b64Encode decoded \<noteq> key then None
         else if \<not> hostedSigningKeyValid H decoded \<or> b64Encode (drop 32 decoded) \<noteq> hiSigningPublicKey (hgImage cfg)
         then None else
         (case (readHostedFile F (hfGetenv F ''ORKA_FOUNDRY_GATEWAY_CONTROLLER_TOKEN_FILE'') 16384,
                readHostedFile F (hfGetenv F ''ORKA_FOUNDRY_GATEWAY_CAPABILITY_SECRET_FILE'') 16384,
                readHostedFile F (hfGetenv F ''ORKA_FOUNDRY_GATEWAY_PROVIDER_TOKEN_FILE'') 16384) of
            (Some controller, Some capability, Some provider) \<Rightarrow>
              (let b = \<lparr>hbEnvironment = hgRuntimeEnvironment cfg, hbControllerToken = controller,
                     hbCapabilitySecret = capability, hbProviderToken = provider\<rparr> in
               if \<not> validateHostedBootstrap H (hgImage cfg) b then None
               else Some \<lparr>hsConfig = cfg, hsBootstrap = b, hsSigningKey = decoded, hsStateDir = stateDir,
                      hsAddress = address\<rparr>)
          | _ \<Rightarrow> None)))))"

section \<open>JSON of the configuration and the ledger\<close>

definition imageJSON :: "hostedImageConfig \<Rightarrow> string" where
  "imageJSON c = jsonObject
     [(''protocol'', Some (jsonString (hiProtocol c))), (''deploymentID'', Some (jsonString (hiDeploymentID c))),
      (''target'', Some (jsonObject
        [(''projectEndpoint'', Some (jsonString (htProjectEndpoint (hiTarget c)))),
         (''agentName'', Some (jsonString (htAgentName (hiTarget c)))),
         (''agentVersion'', Some (jsonString (htAgentVersion (hiTarget c))))])),
      (''signingPublicKey'', Some (jsonString (hiSigningPublicKey c))),
      (''agentConfigurationDigest'', Some (jsonString (hiAgentConfigurationDigest c)))]"

definition gatewayConfigJSON :: "hostedGatewayConfig \<Rightarrow> string" where
  "gatewayConfigJSON c = jsonObject
     [(''protocol'', Some (jsonString (hgProtocol c))), (''image'', Some (imageJSON (hgImage c))),
      (''containerImage'', Some (jsonString (hgContainerImage c))), (''sessionID'', Some (jsonString (hgSessionID c))),
      (''runtimeProfileDigest'', Some (jsonString (hgRuntimeProfileDigest c))),
      (''runtimeEnvironment'', Some (mapJSON (hgRuntimeEnvironment c))),
      (''orkaBaseURL'', Some (jsonString (hgOrkaBaseURL c))), (''brokerBaseURL'', Some (jsonString (hgBrokerBaseURL c)))]"

definition bootstrapJSON :: "hostedBootstrap \<Rightarrow> string" where
  "bootstrapJSON b = jsonObject
     [(''environment'', Some (mapJSON (hbEnvironment b))), (''controllerToken'', Some (jsonString (hbControllerToken b))),
      (''capabilitySecret'', Some (jsonString (hbCapabilitySecret b))), (''providerToken'', Some (jsonString (hbProviderToken b)))]"

record hostedGatewayLedger =
  glVersion :: nat
  glConfigDigest :: string
  glSessionID :: string
  glPrincipalDigest :: string
  glCreateAttempted :: bool
  glSessionCreated :: bool
  glExposurePossible :: bool
  glChallenge :: hostedChallenge
  glPairID :: string
  glBootstrapDigest :: string
  glReady :: bool
  glClosed :: bool

definition boolJSON :: "bool \<Rightarrow> string" where
  "boolJSON b = (if b then ''true'' else ''false'')"

definition gatewayLedgerJSON :: "hostedGatewayLedger \<Rightarrow> string" where
  "gatewayLedgerJSON l = jsonObject
     [(''version'', Some (formatUint (glVersion l))), (''configDigest'', Some (jsonString (glConfigDigest l))),
      (''sessionID'', Some (jsonString (glSessionID l))), (''principalDigest'', omitEmptyString (glPrincipalDigest l)),
      (''createAttempted'', Some (boolJSON (glCreateAttempted l))), (''sessionCreated'', Some (boolJSON (glSessionCreated l))),
      (''exposurePossible'', Some (boolJSON (glExposurePossible l))), (''challenge'', Some (challengeJSON (glChallenge l))),
      (''pairID'', omitEmptyString (glPairID l)), (''bootstrapDigest'', omitEmptyString (glBootstrapDigest l)),
      (''ready'', Some (boolJSON (glReady l))), (''closed'', Some (boolJSON (glClosed l)))]"

section \<open>The gateway ledger (store.go)\<close>

definition noChallenge :: hostedChallenge where
  "noChallenge = \<lparr>hcProtocol = [], hcDeploymentID = [], hcConfigurationDigest = [], hcAgentName = [], hcAgentVersion = [],
     hcSessionID = [], hcBootID = [], hcNonce = []\<rparr>"

definition hostedGatewayLedgerValid :: "hostedEnv \<Rightarrow> hostedGatewayLedger \<Rightarrow> hostedGatewayConfig \<Rightarrow> bool" where
  "hostedGatewayLedgerValid H v cfg =
     (if glVersion v \<noteq> 1 \<or> glConfigDigest v \<noteq> Digest (heSha H) (gatewayConfigJSON cfg) \<or> glSessionID v \<noteq> hgSessionID cfg \<or>
         (glPrincipalDigest v \<noteq> [] \<and> \<not> DigestValid (glPrincipalDigest v)) \<or>
         (glCreateAttempted v \<and> glPrincipalDigest v = []) \<or> (glSessionCreated v \<and> \<not> glCreateAttempted v) \<or>
         (glReady v \<and> \<not> glExposurePossible v) then False
      else if \<not> glExposurePossible v then
        glChallenge v = noChallenge \<and> glPairID v = [] \<and> glBootstrapDigest v = [] \<and> \<not> glClosed v
      else glSessionCreated v \<and> glPrincipalDigest v \<noteq> [] \<and> hostedUUIDValid H (glPairID v) \<and>
        hostedUUIDValid H (hcBootID (glChallenge v)) \<and> hostedCanonicalBytes (hcNonce (glChallenge v)) 32 \<noteq> None \<and>
        DigestValid (glBootstrapDigest v) \<and> hcSessionID (glChallenge v) = hgSessionID cfg \<and>
        hcConfigurationDigest (glChallenge v) = Digest (heSha H) (imageJSON (hgImage cfg)) \<and>
        hcDeploymentID (glChallenge v) = hiDeploymentID (hgImage cfg) \<and> hcProtocol (glChallenge v) = hostedProtocol \<and>
        hcAgentName (glChallenge v) = htAgentName (hiTarget (hgImage cfg)) \<and>
        hcAgentVersion (glChallenge v) = htAgentVersion (hiTarget (hgImage cfg)))"

text \<open>\<open>save\<close>: the ledger on disk is replaced by the rename; a later failure is still an error.\<close>

definition saveGateway :: "saveIO \<Rightarrow> hostedGatewayLedger \<Rightarrow> disk \<Rightarrow> bool \<times> disk" where
  "saveGateway io l d =
     (let data = gatewayLedgerJSON l in
      if length data > hostedMaxHandshakeBytes then (False, d)
      else if \<not> ioCreate io then (False, d)
      else if \<not> ioCopy io then (False, d)
      else if \<not> ioSync io then (False, d)
      else if \<not> ioClose io \<or> \<not> ioRename io then (False, d)
      else if \<not> ioDirOpen io then (False, Some data)
      else (ioDirSync io, Some data))"

definition newGatewayLedger :: "hostedEnv \<Rightarrow> hostedGatewayConfig \<Rightarrow> hostedGatewayLedger" where
  "newGatewayLedger H cfg = \<lparr>glVersion = 1, glConfigDigest = Digest (heSha H) (gatewayConfigJSON cfg),
     glSessionID = hgSessionID cfg, glPrincipalDigest = [], glCreateAttempted = False, glSessionCreated = False,
     glExposurePossible = False, glChallenge = noChallenge, glPairID = [], glBootstrapDigest = [], glReady = False,
     glClosed = False\<rparr>"

text \<open>\<open>lock\<close>: the result of \<open>OpenLock\<close>, with the created flag; \<open>decode\<close>: the strict decoding.\<close>

definition openHostedGatewayStore :: "hostedEnv \<Rightarrow> (string \<Rightarrow> hostedGatewayLedger option) \<Rightarrow> string \<Rightarrow>
    hostedGatewayConfig \<Rightarrow> bool option \<Rightarrow> lstat \<Rightarrow> string option \<Rightarrow> saveIO \<Rightarrow> disk \<Rightarrow> hostedGatewayLedger option \<times> disk" where
  "openHostedGatewayStore H decode dir cfg lock info read io d =
     (if \<not> isAbs dir \<or> cleanPath dir = ''/'' then (None, d) else
      case lock of None \<Rightarrow> (None, d) | Some created \<Rightarrow>
      (case info of
         NotExist \<Rightarrow> if created then
             (case saveGateway io (newGatewayLedger H cfg) d of
                (True, d') \<Rightarrow> (Some (newGatewayLedger H cfg), d') | (False, d') \<Rightarrow> (None, d'))
           else (None, d)
       | StatError \<Rightarrow> (None, d)
       | Present privateFile fileSize \<Rightarrow>
           if \<not> privateFile \<or> fileSize > hostedMaxHandshakeBytes then (None, d) else
           (case read of None \<Rightarrow> (None, d) | Some data \<Rightarrow>
             (case decode data of None \<Rightarrow> (None, d) | Some stored \<Rightarrow>
               if hostedGatewayLedgerValid H stored cfg then (Some stored, d) else (None, d)))))"

section \<open>Lemmas\<close>

lemma saveGateway_ok: "saveGateway io l d = (True, d') \<Longrightarrow> d' = Some (gatewayLedgerJSON l)"
  by (auto simp: saveGateway_def Let_def split: if_splits)

lemma saveGateway_cases: "saveGateway io l d = (ok, d') \<Longrightarrow> d' = d \<or> d' = Some (gatewayLedgerJSON l)"
  by (auto simp: saveGateway_def Let_def split: if_splits)

lemma newGatewayLedger_valid: "hostedGatewayLedgerValid H (newGatewayLedger H cfg) cfg"
  by (simp add: hostedGatewayLedgerValid_def newGatewayLedger_def)

lemma openHostedGatewayStore_valid:
  "openHostedGatewayStore H decode dir cfg lock info read io d = (Some l, d') \<Longrightarrow> hostedGatewayLedgerValid H l cfg"
  by (auto simp: openHostedGatewayStore_def newGatewayLedger_valid split: if_splits option.splits lstat.splits prod.splits bool.splits)

end
