(* ===== verification/HostedGateway.thy ===== *)
theory HostedGateway
  imports HostedStore BrokerRemote
begin

text \<open>
  \<^verbatim>\<open>src/internal/hosted/remote.go\<close> and \<^verbatim>\<open>src/internal/hosted/gateway.go\<close>: the gateway's requests
  to the hosted service and the one initialisation of its lifetime. As for the broker, an
  operation is an action over a clock; the record \<^emph>\<open>gatewayWorld\<close> answers what the code asks
  of the outside. Every request, dial, saved ledger and written message is recorded in a trace,
  over which the order of exposure and durable record is stated.
\<close>

section \<open>The outside world and the trace\<close>

record hostedVersion =
  hvName :: string
  hvVersion :: string
  hvStatus :: string
  hvKind :: string
  hvImage :: string
  hvProtocols :: "(string \<times> string) list"

record hostedReady =
  hrProtocol :: string
  hrPairID :: string
  hrBootID :: string
  hrReady :: bool

record hostedCapabilities =
  hpProtocol :: string
  hpTransport :: string
  hpRuntimeProfileDigest :: string
  hpAdapterDigests :: "(string, string) fmap"

record gatewayWorld =
  gvToken :: "nat \<Rightarrow> string option"
  gvDone :: "nat \<Rightarrow> bool"  \<comment> \<open>the context is done\<close>
  gvNow :: "nat \<Rightarrow> int"  \<comment> \<open>Unix seconds\<close>
  gvUUID :: "nat \<Rightarrow> string"
  gvIO :: "nat \<Rightarrow> saveIO"
  gvSend :: "nat \<Rightarrow> remoteRequest \<Rightarrow> remoteReply option"
  gvDial :: "nat \<Rightarrow> bool"
  gvWrite :: "nat \<Rightarrow> bool"
  gvRead :: "nat \<Rightarrow> string option"  \<comment> \<open>a text message within the limit\<close>
  gvHTTP2 :: "nat \<Rightarrow> bool"
  gvHeaderValid :: "string \<Rightarrow> bool"
  gvURLParses :: "string \<Rightarrow> bool"
  gvClaims :: "string \<Rightarrow> claims option"
  gvAgent :: "string \<Rightarrow> remoteAgent option"
  gvScheme :: "string \<Rightarrow> string option"
  gvVersion :: "string \<Rightarrow> hostedVersion option"
  gvSession :: "remoteSession \<Rightarrow> string \<Rightarrow> remoteSession option"  \<comment> \<open>into an existing value\<close>
  gvChallenge :: "string \<Rightarrow> hostedChallenge option"
  gvAccepted :: "string \<Rightarrow> hostedAccepted option"
  gvReadyMessage :: "string \<Rightarrow> hostedReady option"
  gvCapabilities :: "string \<Rightarrow> hostedCapabilities option"

text \<open>\<open>GvReplied\<close>: a complete reply to a request, with its status.\<close>

datatype gatewayEvent = GvRequest remoteRequest | GvReplied remoteRequest nat | GvDialed string | GvSaved hostedGatewayLedger
  | GvHello hostedHello | GvBootstrap string

record hostedGateway =
  gwLedger :: hostedGatewayLedger
  gwDisk :: disk
  gwReady :: bool
  gwClosed :: bool
  gwTrace :: "gatewayEvent list"

type_synonym 'a gatewayAction = "(nat \<times> hostedGateway, 'a) state"

definition query :: "(nat \<Rightarrow> 'a) \<Rightarrow> 'a gatewayAction" where
  "query f = State (\<lambda>(t, g). (f t, (Suc t, g)))"

definition note' :: "gatewayEvent \<Rightarrow> unit gatewayAction" where
  "note' ev = State (\<lambda>(t, g). ((), (t, g\<lparr>gwTrace := gwTrace g @ [ev]\<rparr>)))"

definition current :: "hostedGatewayLedger gatewayAction" where
  "current = State (\<lambda>(t, g). (gwLedger g, (t, g)))"

text \<open>\<open>g.store.save(next)\<close>, then \<open>g.ledger = next\<close> when it succeeded.\<close>

definition saveNext :: "gatewayWorld \<Rightarrow> (hostedGatewayLedger \<Rightarrow> hostedGatewayLedger) \<Rightarrow> bool gatewayAction" where
  "saveNext W change = State (\<lambda>(t, g). (case saveGateway (gvIO W t) (change (gwLedger g)) (gwDisk g) of
     (True, d) \<Rightarrow> (True, (Suc t, g\<lparr>gwDisk := d, gwLedger := change (gwLedger g),
        gwTrace := gwTrace g @ [GvSaved (change (gwLedger g))]\<rparr>))
   | (False, d) \<Rightarrow> (False, (Suc t, g\<lparr>gwDisk := d\<rparr>))))"

section \<open>Requests (remote.go)\<close>

definition claimsDigest :: "hostedEnv \<Rightarrow> claims \<Rightarrow> string" where
  "claimsDigest H c = Digest (heSha H) (jsonObject
     [(''aud'', Some (jsonString (clAudience c))), (''tid'', Some (jsonString (clTenant c))),
      (''oid'', Some (jsonString (clObject c))), (''appid'', Some (jsonString (clApp c))),
      (''azp'', Some (jsonString (clAZP c)))])"

definition hostedPrincipal :: "gatewayWorld \<Rightarrow> hostedEnv \<Rightarrow> string \<Rightarrow> string option" where
  "hostedPrincipal W H token =
     (case splitChar (CHR ''.'') token of
        [h, payload, s] \<Rightarrow>
          (case b64Loose payload of None \<Rightarrow> None | Some raw \<Rightarrow>
          (case gvClaims W raw of None \<Rightarrow> None | Some c \<Rightarrow>
            if trimRightChar (clAudience c) (CHR ''/'') \<noteq> ''https://ai.azure.com'' \<or>
               \<not> hostedUUIDValid H (clTenant c) \<or> \<not> hostedUUIDValid H (clObject c) then None
            else Some (claimsDigest H c)))
      | _ \<Rightarrow> None)"

definition accessToken :: "gatewayWorld \<Rightarrow> hostedEnv \<Rightarrow> string option gatewayAction" where
  "accessToken W H = do {
     token \<leftarrow> query (gvToken W);
     (case token of None \<Rightarrow> ret None | Some tk \<Rightarrow>
       if \<not> gvHeaderValid W tk then ret None else
       (case hostedPrincipal W H tk of None \<Rightarrow> ret None | Some digest \<Rightarrow> do {
         l \<leftarrow> current;
         saved \<leftarrow> (if glPrincipalDigest l = [] then saveNext W (\<lambda>l. l\<lparr>glPrincipalDigest := digest\<rparr>) else ret True);
         l' \<leftarrow> current;
         ret (if \<not> saved \<or> glPrincipalDigest l' \<noteq> digest then None else Some tk)}))}"

definition gatewayURL :: "hostedGatewayConfig \<Rightarrow> string \<Rightarrow> string" where
  "gatewayURL cfg suffix = htProjectEndpoint (hiTarget (hgImage cfg)) @ ''/agents/'' @
     pathEscape (htAgentName (hiTarget (hgImage cfg))) @ suffix @ ''?api-version=v1''"

definition prepareRemoteJSON :: "gatewayWorld \<Rightarrow> hostedEnv \<Rightarrow> hostedGatewayConfig \<Rightarrow> string \<Rightarrow> string \<Rightarrow> string \<Rightarrow>
    remoteRequest option gatewayAction" where
  "prepareRemoteJSON W H cfg method suffix body = do {
     stopped \<leftarrow> query (gvDone W);
     if stopped then ret None else do {
       token \<leftarrow> accessToken W H;
       (case token of None \<Rightarrow> ret None | Some tk \<Rightarrow>
         if \<not> gvURLParses W (gatewayURL cfg suffix) then ret None else do {
           stopped' \<leftarrow> query (gvDone W);
           ret (if stopped' then None else Some \<lparr>rmMethod = method, rmURL = gatewayURL cfg suffix,
             rmAuthorization = ''Bearer '' @ tk, rmBody = body\<rparr>)})}}"

text \<open>The status, whether there was an error, and the decoded target.\<close>

definition sendRemoteJSON :: "gatewayWorld \<Rightarrow> (string \<Rightarrow> 'a option) \<Rightarrow> remoteRequest \<Rightarrow>
    (nat \<times> bool \<times> 'a option) gatewayAction" where
  "sendRemoteJSON W decode request = do {
     note' (GvRequest request);
     reply \<leftarrow> query (\<lambda>t. gvSend W t request);
     (case reply of None \<Rightarrow> ret (0, True, None) | Some r \<Rightarrow>
       if length (ryBody r) > MaxAgentConfigBytes \<or> ryFails r then ret (ryStatus r, True, None)
       else do {
         note' (GvReplied request (ryStatus r));
         ret (if 200 \<le> ryStatus r \<and> ryStatus r < 300 then
             (case decode (ryBody r) of None \<Rightarrow> (ryStatus r, True, None) | Some x \<Rightarrow> (ryStatus r, False, Some x))
           else (ryStatus r, False, None))})}"

definition gatewayJSON :: "gatewayWorld \<Rightarrow> hostedEnv \<Rightarrow> hostedGatewayConfig \<Rightarrow> string \<Rightarrow> string \<Rightarrow> string \<Rightarrow>
    (string \<Rightarrow> 'a option) \<Rightarrow> (nat \<times> bool \<times> 'a option) gatewayAction" where
  "gatewayJSON W H cfg method suffix body decode = do {
     request \<leftarrow> prepareRemoteJSON W H cfg method suffix body;
     (case request of None \<Rightarrow> ret (0, True, None) | Some r \<Rightarrow> sendRemoteJSON W decode r)}"

definition protocolsValid :: "(string \<times> string) list \<Rightarrow> bool" where
  "protocolsValid ps \<longleftrightarrow> list_all (\<lambda>(p, v). p = ''invocations_ws'' \<longrightarrow> v = ''2.0.0'') ps \<and>
     length (filter (\<lambda>(p, v). p = ''invocations_ws'') ps) = 1"

definition validateRemote :: "gatewayWorld \<Rightarrow> hostedEnv \<Rightarrow> hostedGatewayConfig \<Rightarrow> bool gatewayAction" where
  "validateRemote W H cfg = do {
     (status, err, agent) \<leftarrow> gatewayJSON W H cfg ''GET'' [] [] (gvAgent W);
     (case agent of None \<Rightarrow> ret False | Some a \<Rightarrow>
       if err \<or> status \<noteq> 200 \<or> raName a \<noteq> htAgentName (hiTarget (hgImage cfg)) \<or> raSchemes a = [] \<or>
          \<not> list_all (\<lambda>raw. case gvScheme W raw of None \<Rightarrow> False | Some kind \<Rightarrow> equalFold kind ''entra'') (raSchemes a)
       then ret False
       else do {
         (status2, err2, version) \<leftarrow> gatewayJSON W H cfg ''GET''
           (''/versions/'' @ htAgentVersion (hiTarget (hgImage cfg))) [] (gvVersion W);
         ret (case version of None \<Rightarrow> False | Some v \<Rightarrow>
           \<not> err2 \<and> status2 = 200 \<and> hvName v = htAgentName (hiTarget (hgImage cfg)) \<and>
           hvVersion v = htAgentVersion (hiTarget (hgImage cfg)) \<and> hvStatus v = ''active'' \<and> hvKind v = ''hosted'' \<and>
           hvImage v = hgContainerImage cfg \<and> protocolsValid (hvProtocols v))})}"

definition sessionMatches :: "hostedGatewayConfig \<Rightarrow> remoteSession \<Rightarrow> bool" where
  "sessionMatches cfg v \<longleftrightarrow> rsID v = hgSessionID cfg \<and> rsVersionType v = ''version_ref'' \<and>
     rsVersion v = htAgentVersion (hiTarget (hgImage cfg))"

definition createBody :: "hostedGatewayConfig \<Rightarrow> string" where
  "createBody cfg = jsonObject
     [(''agent_session_id'', Some (jsonString (hgSessionID cfg))),
      (''version_indicator'', Some (jsonObject
         [(''agent_version'', Some (jsonString (htAgentVersion (hiTarget (hgImage cfg))))),
          (''type'', Some (jsonString ''version_ref''))]))]"

definition noSession :: remoteSession where
  "noSession = \<lparr>rsID = [], rsVersionType = [], rsVersion = [], rsStatus = []\<rparr>"

text \<open>
  The last check of \<open>ensureSession\<close>. Its \<open>session\<close> variable is decoded into more than once, and a
  document without a field leaves what an earlier one put there.
\<close>

definition sessionActive :: "hostedGatewayConfig \<Rightarrow> nat \<times> bool \<times> remoteSession option \<Rightarrow> bool" where
  "sessionActive cfg r = (case r of (status, err, session) \<Rightarrow> \<not> err \<and> status = 200 \<and>
     (case session of None \<Rightarrow> False | Some s \<Rightarrow> sessionMatches cfg s \<and> rsStatus s = ''active''))"

definition createSession :: "gatewayWorld \<Rightarrow> hostedEnv \<Rightarrow> hostedGatewayConfig \<Rightarrow> bool gatewayAction" where
  "createSession W H cfg = do {
     request \<leftarrow> prepareRemoteJSON W H cfg ''POST'' ''/endpoint/sessions'' (createBody cfg);
     stopped \<leftarrow> query (gvDone W);
     (case request of None \<Rightarrow> ret False | Some r \<Rightarrow> if stopped then ret False else do {
       saved \<leftarrow> saveNext W (\<lambda>l. l\<lparr>glCreateAttempted := True\<rparr>);
       if \<not> saved then ret False else do {
         (status, err, session) \<leftarrow> sendRemoteJSON W (gvSession W noSession) r;
         if \<not> err \<and> DefiniteRejection status then do {
           cleared \<leftarrow> saveNext W (\<lambda>l. l\<lparr>glCreateAttempted := False\<rparr>);
           ret False}
         else if err \<or> status \<noteq> 201 \<or> \<not> (case session of None \<Rightarrow> False | Some s \<Rightarrow> sessionMatches cfg s) then ret False
         else do {
           recorded \<leftarrow> saveNext W (\<lambda>l. l\<lparr>glSessionCreated := True\<rparr>);
           if \<not> recorded then ret False else do {
             final \<leftarrow> gatewayJSON W H cfg ''GET'' (SessionSuffix (hgSessionID cfg)) []
               (gvSession W (case session of None \<Rightarrow> noSession | Some s \<Rightarrow> s));
             ret (sessionActive cfg final)}}}})}"

definition ensureSession :: "gatewayWorld \<Rightarrow> hostedEnv \<Rightarrow> hostedGatewayConfig \<Rightarrow> bool gatewayAction" where
  "ensureSession W H cfg = do {
     l \<leftarrow> current;
     if glCreateAttempted l \<and> \<not> glSessionCreated l then ret False else do {
       (status, err, session) \<leftarrow> gatewayJSON W H cfg ''GET'' (SessionSuffix (hgSessionID cfg)) [] (gvSession W noSession);
       if err then ret False
       else do {
         l' \<leftarrow> current;
         if \<not> glCreateAttempted l' then (if status \<noteq> 404 then ret False else createSession W H cfg)
         else ret (sessionActive cfg (status, err, session))}}}"

section \<open>Channels (remote.go, gateway.go)\<close>

definition challengeMatches :: "hostedEnv \<Rightarrow> hostedGatewayConfig \<Rightarrow> hostedChallenge \<Rightarrow> bool" where
  "challengeMatches H cfg c \<longleftrightarrow> hcProtocol c = hostedProtocol \<and> hcDeploymentID c = hiDeploymentID (hgImage cfg) \<and>
     hcConfigurationDigest c = Digest (heSha H) (imageJSON (hgImage cfg)) \<and>
     hcAgentName c = htAgentName (hiTarget (hgImage cfg)) \<and> hcAgentVersion c = htAgentVersion (hiTarget (hgImage cfg)) \<and>
     hcSessionID c = hgSessionID cfg \<and> hostedUUIDValid H (hcBootID c) \<and> hostedCanonicalBytes (hcNonce c) 32 \<noteq> None"

definition openChannel :: "gatewayWorld \<Rightarrow> hostedEnv \<Rightarrow> hostedGatewayConfig \<Rightarrow> string \<Rightarrow> hostedChallenge option gatewayAction" where
  "openChannel W H cfg role = do {
     token \<leftarrow> accessToken W H;
     (case token of None \<Rightarrow> ret None | Some tk \<Rightarrow> do {
       note' (GvDialed role);
       dialed \<leftarrow> query (gvDial W);
       if \<not> dialed then ret None else do {
         message \<leftarrow> query (gvRead W);
         ret (case message of None \<Rightarrow> None | Some data \<Rightarrow>
           (case gvChallenge W data of None \<Rightarrow> None
            | Some c \<Rightarrow> if challengeMatches H cfg c then Some c else None))}})}"

definition signChannel :: "gatewayWorld \<Rightarrow> hostedEnv \<Rightarrow> string \<Rightarrow> hostedChallenge \<Rightarrow> string \<Rightarrow> string \<Rightarrow> string \<Rightarrow>
    bool gatewayAction" where
  "signChannel W H key challenge pairID bootstrapDigest role = do {
     now \<leftarrow> query (gvNow W);
     (case signHostedHello H \<lparr>hhChallenge = challenge, hhPairID = pairID, hhRole = role, hhBootstrapDigest = bootstrapDigest,
         hhExpiresAt = now + 60, hhSignature = []\<rparr> key of None \<Rightarrow> ret False | Some hello \<Rightarrow> do {
       note' (GvHello hello);
       written \<leftarrow> query (gvWrite W);
       if \<not> written then ret False else do {
         message \<leftarrow> query (gvRead W);
         ret (case message of None \<Rightarrow> False | Some data \<Rightarrow>
           gvAccepted W data = Some \<lparr>haProtocol = hostedProtocol, haPairID = pairID, haRole = role,
             haBootID = hcBootID challenge, haBootstrapDigest = bootstrapDigest\<rparr>)}})}"

definition validateCapabilities :: "gatewayWorld \<Rightarrow> hostedGatewayConfig \<Rightarrow> bool gatewayAction" where
  "validateCapabilities W cfg = do {
     reply \<leftarrow> query (\<lambda>t. gvSend W t \<lparr>rmMethod = ''GET'', rmURL = ''http://supervisor/v2/capabilities'',
       rmAuthorization = [], rmBody = []\<rparr>);
     ret (case reply of None \<Rightarrow> False | Some r \<Rightarrow>
       if ryFails r \<or> length (ryBody r) > hostedMaxHandshakeBytes \<or> ryStatus r \<noteq> 200 then False else
       (case gvCapabilities W (ryBody r) of None \<Rightarrow> False | Some v \<Rightarrow>
         hpProtocol v = ''orka.harness.v2'' \<and> hpTransport v = ''http+ndjson'' \<and>
         hpRuntimeProfileDigest v = hgRuntimeProfileDigest cfg \<and>
         lookupString (hpAdapterDigests v) ''foundry-serve-acp'' =
           lookupString (hgRuntimeEnvironment cfg) ''ORKA_ACP_FOUNDRY_ADAPTER_DIGEST''))}"

section \<open>Initialisation (gateway.go)\<close>

text \<open>From the durable record of exposure to readiness.\<close>

definition expose :: "gatewayWorld \<Rightarrow> hostedGatewayConfig \<Rightarrow> string \<Rightarrow> hostedChallenge \<Rightarrow> string \<Rightarrow> string \<Rightarrow>
    bool gatewayAction" where
  "expose W cfg body challenge pairID bootstrapDigest = do {
     saved \<leftarrow> saveNext W (\<lambda>l. l\<lparr>glExposurePossible := True, glChallenge := challenge, glPairID := pairID,
       glBootstrapDigest := bootstrapDigest\<rparr>);
     if \<not> saved then ret False else do {
       note' (GvBootstrap body);
       written \<leftarrow> query (gvWrite W);
       if \<not> written then ret False else do {
         message \<leftarrow> query (gvRead W);
         if (case message of None \<Rightarrow> True | Some data \<Rightarrow> gvReadyMessage W data \<noteq> Some \<lparr>hrProtocol = hostedProtocol,
             hrPairID = pairID, hrBootID = hcBootID challenge, hrReady = True\<rparr>) then ret False else do {
           client \<leftarrow> query (gvHTTP2 W);
           if \<not> client then ret False else do {
             capable \<leftarrow> validateCapabilities W cfg;
             if \<not> capable then ret False else do {
               recorded \<leftarrow> saveNext W (\<lambda>l. l\<lparr>glReady := True\<rparr>);
               ret recorded}}}}}}"

text \<open>\<open>proxiesOk\<close>: the two reverse proxies could be built.\<close>

definition initialize :: "gatewayWorld \<Rightarrow> hostedEnv \<Rightarrow> bool \<Rightarrow> hostedGatewaySettings \<Rightarrow> bool gatewayAction" where
  "initialize W H proxiesOk settings =
     (let cfg = hsConfig settings; body = bootstrapJSON (hsBootstrap settings) in
      if length body > hostedMaxHandshakeBytes then ret False else do {
        valid \<leftarrow> validateRemote W H cfg;
        if \<not> valid then ret False else do {
          active \<leftarrow> ensureSession W H cfg;
          if \<not> active then ret False else do {
            forward \<leftarrow> openChannel W H cfg ''forward'';
            (case forward of None \<Rightarrow> ret False | Some challenge \<Rightarrow> do {
              reverse \<leftarrow> openChannel W H cfg ''reverse'';
              if reverse \<noteq> Some challenge then ret False else do {
                pairID \<leftarrow> query (gvUUID W);
                first \<leftarrow> signChannel W H (hsSigningKey settings) challenge pairID (Digest (heSha H) body) ''forward'';
                if \<not> first then ret False else do {
                  second \<leftarrow> signChannel W H (hsSigningKey settings) challenge pairID (Digest (heSha H) body) ''reverse'';
                  if \<not> second \<or> \<not> proxiesOk then ret False
                  else expose W cfg body challenge pairID (Digest (heSha H) body)}}})}}})"

text \<open>\<open>g.close()\<close>.\<close>

definition closeGateway :: "saveIO \<Rightarrow> hostedGateway \<Rightarrow> hostedGateway" where
  "closeGateway io g = (if gwClosed g then g else
     (let g' = g\<lparr>gwReady := False, gwClosed := True\<rparr> in
      if glExposurePossible (gwLedger g') then
        (let l = (gwLedger g')\<lparr>glClosed := True\<rparr> in g'\<lparr>gwLedger := l, gwDisk := snd (saveGateway io l (gwDisk g'))\<rparr>)
      else g'))"

text \<open>\<open>opened\<close>: the result of \<open>openHostedGatewayStore\<close>. The second component is the trace of a start
  that failed, with the disk it leaves.\<close>

definition newHostedGateway :: "gatewayWorld \<Rightarrow> hostedEnv \<Rightarrow> hostedFiles \<Rightarrow> bool \<Rightarrow> hostedGatewaySettings \<Rightarrow>
    hostedGatewayLedger option \<times> disk \<Rightarrow> hostedGateway option \<times> gatewayEvent list \<times> disk" where
  "newHostedGateway W H F proxiesOk settings opened =
     (if \<not> validateHostedGatewayConfig H F (hsConfig settings) \<or>
         \<not> validateHostedBootstrap H (hgImage (hsConfig settings)) (hsBootstrap settings)
      then (None, [], snd opened) else
      case opened of
        (None, d) \<Rightarrow> (None, [], d)
      | (Some ledger, d) \<Rightarrow>
          if glExposurePossible ledger then (None, [], d) else
          (case run_state (initialize W H proxiesOk settings)
              (0, \<lparr>gwLedger = ledger, gwDisk = d, gwReady = False, gwClosed = False, gwTrace = []\<rparr>) of
             (True, (t, g)) \<Rightarrow> (Some (g\<lparr>gwReady := True\<rparr>), gwTrace g, gwDisk g)
           | (False, (t, g)) \<Rightarrow>
               (let g' = closeGateway (gvIO W t) g in (None, gwTrace g', gwDisk g'))))"

text \<open>\<open>ServeHTTP\<close>: the status of the gateway's own answer, or \<open>None\<close> when the proxy answers.\<close>

definition gatewayServe :: "hostedGateway \<Rightarrow> string \<Rightarrow> string \<Rightarrow> string \<Rightarrow> nat option" where
  "gatewayServe g method p rawQuery =
     (if \<not> gwReady g \<or> gwClosed g then Some 503
      else if method = ''GET'' \<and> p = ''/healthz'' \<and> rawQuery = [] then Some 200 else None)"

end
