(* ===== verification/HostedProxy.thy ===== *)
theory HostedProxy
  imports BrokerProtocol FoundryValidate GoNet
begin

text \<open>
  \<^verbatim>\<open>src/internal/hosted/proxy.go\<close>: which requests pass the relays of the hosted pair, and how. The
  reverse proxy of the standard library removes the hop-by-hop headers and sends the request once; a
  request that is not allowed reaches no transport.
\<close>

section \<open>Requests\<close>

record relayRequest =
  rqMethod :: string
  rqScheme :: string
  rqURLHost :: string
  rqHost :: string
  rqPath :: string
  rqRawPath :: string
  rqRawQuery :: string
  rqOpaque :: string
  rqFragment :: string
  rqHasUser :: bool
  rqUpgrade :: string
  rqAuthorization :: string
  rqBody :: string

definition hostedRequestPathValid :: "relayRequest \<Rightarrow> bool" where
  "hostedRequestPathValid r \<longleftrightarrow> \<not> rqHasUser r \<and> rqOpaque r = [] \<and> rqRawPath r = [] \<and> rqFragment r = [] \<and>
     length (rqPath r) \<le> 4096 \<and> length (rqRawQuery r) \<le> 8192 \<and> hasPrefix (rqPath r) ''/'' \<and>
     cleanPath (rqPath r) = rqPath r \<and> CHR 0x5C \<notin> set (rqPath r) \<and> CHR 0x00 \<notin> set (rqPath r)"

section \<open>Routes\<close>

definition hostedV2Route :: "relayRequest \<Rightarrow> bool" where
  "hostedV2Route r = (if \<not> hasPrefix (rqPath r) ''/v2/'' then False
     else rqMethod r \<in> {''GET'', ''POST'', ''PUT'', ''PATCH'', ''DELETE''})"

definition hostedBrokerRoute :: "relayRequest \<Rightarrow> bool" where
  "hostedBrokerRoute r = (if rqRawQuery r \<noteq> [] then False
     else if rqPath r = StatusPath then rqMethod r = ''GET''
     else if rqMethod r \<noteq> ''POST'' then False
     else rqPath r \<in> {ResponsesPath, RenewPath, SettlePath, RetirePath})"

definition artifactPrefix :: string where
  "artifactPrefix = ''/internal/v2/acp/artifacts/sha256/''"

definition hostedOrkaRoute :: "relayRequest \<Rightarrow> bool" where
  "hostedOrkaRoute r =
     (if rqRawQuery r \<noteq> [] then False
      else if rqMethod r = ''POST'' \<and> (rqPath r = ''/internal/v2/acp/mcp/tools/call'' \<or>
        rqPath r = ''/internal/v2/acp/artifact-authorizations'') then True
      else if rqMethod r \<in> {''GET'', ''PUT'', ''HEAD''} \<and> hasPrefix (rqPath r) artifactPrefix
      then DigestValid (''sha256:'' @ trimPrefix (rqPath r) artifactPrefix) else False)"

section \<open>The proxy\<close>

datatype relayResult = RelayDenied | RelayForwarded relayRequest

text \<open>\<open>Rewrite\<close> only replaces the destination.\<close>

definition relayRewrite :: "string \<times> string \<Rightarrow> relayRequest \<Rightarrow> relayRequest" where
  "relayRewrite base r = r\<lparr>rqScheme := fst base, rqURLHost := snd base, rqHost := snd base\<rparr>"

definition hostedProxy :: "string \<times> string \<Rightarrow> (relayRequest \<Rightarrow> bool) \<Rightarrow> relayRequest \<Rightarrow> relayResult" where
  "hostedProxy base allow r =
     (if \<not> hostedRequestPathValid r \<or> \<not> allow r \<or> rqUpgrade r \<noteq> [] \<or> rqMethod r = ''CONNECT'' then RelayDenied
      else RelayForwarded (relayRewrite base r))"

definition hostedProxyTarget :: "(string \<Rightarrow> (string \<times> string \<times> string) option) \<Rightarrow> string \<Rightarrow> (string \<times> string) option" where
  "hostedProxyTarget parseURL target = (case parseURL target of None \<Rightarrow> None | Some (scheme, host, path) \<Rightarrow>
     if host = [] \<or> path \<noteq> [] \<or> (scheme \<noteq> ''http'' \<and> scheme \<noteq> ''https'') then None else Some (scheme, host))"

section \<open>What passes\<close>

lemma digest_route: "DigestValid (''sha256:'' @ h) \<longleftrightarrow> length h = 64 \<and> list_all isLowerHex h"
  by (auto simp: DigestValid_iff)

text \<open>The requests a confined container may make: a table of methods and paths.\<close>

definition relayTable :: "(string \<times> string) list" where
  "relayTable = [(''GET'', StatusPath), (''POST'', ResponsesPath), (''POST'', RenewPath), (''POST'', SettlePath), (''POST'', RetirePath),
     (''POST'', ''/internal/v2/acp/mcp/tools/call''), (''POST'', ''/internal/v2/acp/artifact-authorizations'')]"

definition relayArtifact :: "string \<Rightarrow> bool" where
  "relayArtifact p \<longleftrightarrow> (\<exists>h. p = artifactPrefix @ h \<and> length h = 64 \<and> list_all isLowerHex h)"

definition relayListed :: "string \<Rightarrow> string \<Rightarrow> bool" where
  "relayListed m p \<longleftrightarrow> (m, p) \<in> set relayTable \<or> m \<in> {''GET'', ''PUT'', ''HEAD''} \<and> relayArtifact p"

lemma artifact_route:
  assumes "hasPrefix p artifactPrefix" "DigestValid (''sha256:'' @ trimPrefix p artifactPrefix)"
  shows "relayArtifact p"
proof -
  have "p = artifactPrefix @ trimPrefix p artifactPrefix"
    using assms(1) append_take_drop_id [of "length artifactPrefix" p] by (simp add: hasPrefix_def trimPrefix_def)
  then show ?thesis using assms(2) unfolding relayArtifact_def digest_route by metis
qed

lemma broker_route:
  assumes "hostedBrokerRoute r"
  shows "rqRawQuery r = []" "relayListed (rqMethod r) (rqPath r)"
  using assms
  by (simp_all add: hostedBrokerRoute_def relayListed_def relayTable_def split: if_splits) (elim disjE; simp)

lemma orka_route:
  assumes "hostedOrkaRoute r"
  shows "rqRawQuery r = []" "relayListed (rqMethod r) (rqPath r)"
proof -
  show "rqRawQuery r = []" using assms by (simp add: hostedOrkaRoute_def split: if_splits)
  show "relayListed (rqMethod r) (rqPath r)"
  proof (cases "rqMethod r = ''POST'' \<and> (rqPath r = ''/internal/v2/acp/mcp/tools/call'' \<or>
      rqPath r = ''/internal/v2/acp/artifact-authorizations'')")
    case True
    then show ?thesis by (elim conjE disjE) (simp_all add: relayListed_def relayTable_def)
  next
    case False
    have "rqMethod r \<in> {''GET'', ''PUT'', ''HEAD''} \<and> hasPrefix (rqPath r) artifactPrefix \<and>
        DigestValid (''sha256:'' @ trimPrefix (rqPath r) artifactPrefix)"
      using assms unfolding hostedOrkaRoute_def if_not_P [OF False] by (simp only: if_bool_eq_conj simp_thms split: if_splits)
    then show ?thesis unfolding relayListed_def using artifact_route by simp
  qed
qed

lemma hostedProxy_forwards:
  assumes "hostedProxy base allow r = RelayForwarded out"
  shows "hostedRequestPathValid r" "allow r" "rqUpgrade r = []" "out = relayRewrite base r"
  using assms by (simp_all add: hostedProxy_def split: if_splits)

text \<open>C39: the reverse relays confine the container: what reaches the broker or Orka through them is one of the listed methods and
  paths, without a query, an escape, a dot segment or an upgrade, and with the method, the body and the authorization that
  the caller sent.\<close>

theorem relay_confined:
  assumes "hostedProxy base allow r = RelayForwarded out" "allow = hostedBrokerRoute \<or> allow = hostedOrkaRoute"
  shows "rqRawQuery out = [] \<and> rqRawPath out = [] \<and> cleanPath (rqPath out) = rqPath out \<and> rqUpgrade out = [] \<and>
    rqMethod out = rqMethod r \<and> rqPath out = rqPath r \<and> rqBody out = rqBody r \<and> rqAuthorization out = rqAuthorization r \<and>
    relayListed (rqMethod out) (rqPath out)"
proof -
  have "relayListed (rqMethod r) (rqPath r)" "rqRawQuery r = []"
    using assms broker_route orka_route hostedProxy_forwards(2) by metis+
  then show ?thesis using hostedProxy_forwards [OF assms(1)] by (simp add: hostedRequestPathValid_def relayRewrite_def)
qed

definition relaySample :: relayRequest where
  "relaySample = \<lparr>rqMethod = ''POST'', rqScheme = [], rqURLHost = [], rqHost = ''h'', rqPath = SettlePath, rqRawPath = [], rqRawQuery = [], rqOpaque = [],
     rqFragment = [], rqHasUser = False, rqUpgrade = [], rqAuthorization = ''a'', rqBody = ''b''\<rparr>"

theorem relay_confined_witness:
  "hostedProxy (''http'', ''broker'') hostedBrokerRoute relaySample = RelayForwarded (relayRewrite (''http'', ''broker'') relaySample) \<and>
   rqRawQuery (relayRewrite (''http'', ''broker'') relaySample) = []"
proof -
  have "hostedProxy (''http'', ''broker'') hostedBrokerRoute relaySample = RelayForwarded (relayRewrite (''http'', ''broker'') relaySample)" by code_simp
  with relay_confined [OF this] show ?thesis by blast
qed

end
