(* ===== verification/HostedServer.thy ===== *)
theory HostedServer
  imports HostedGateway HostedProxy
begin

text \<open>
  \<^verbatim>\<open>src/internal/hosted/server.go\<close> and \<^verbatim>\<open>src/internal/hosted/process_linux.go\<close>: the supervisor of a hosted
  container. Two websocket channels, each opened by a signed hello, form the one pair of the server; when
  both are acknowledged and the bootstrap message has been read, the pair starts one supervisor process
  and relays requests for it until a channel, the process or the server ends. Critical sections are
  functions on the server; the handler of a channel, the goroutine of the pair and the process are
  steps of a transition system, in any interleaving.
\<close>

section \<open>State\<close>

record hostedPair =
  kpID :: string
  kpBootstrapDigest :: string
  kpForward :: "nat option"  \<comment> \<open>the websocket, by its number\<close>
  kpReverse :: "nat option"
  kpForwardAcked :: bool
  kpReverseAcked :: bool
  kpSetupDeadline :: int
  kpBootstrap :: "hostedBootstrap option"
  kpDone :: bool
  kpStopped :: bool
  kpShutdownErr :: bool
  kpRunning :: bool  \<comment> \<open>and \<open>started\<close> is closed\<close>

record hostedServer =
  svImage :: hostedImageConfig
  svChallenge :: hostedChallenge
  svAdapterDigest :: string
  svAgentConfig :: string
  svCancelled :: bool
  svPair :: "hostedPair option"

text \<open>What the container supplies: decoders of the two messages, the agent configuration's decoder, the
  files and the environment, the query parser.\<close>

record containerWorld =
  cnHello :: "string \<Rightarrow> hostedHello option"
  cnBootstrap :: "string \<Rightarrow> hostedBootstrap option"
  cnAgent :: "string \<Rightarrow> agentConfig option"
  cnSafe :: "string \<Rightarrow> bool"
  cnHealth :: "string \<Rightarrow> (string \<times> string) option"  \<comment> \<open>protocol and status\<close>
  cnQuery :: "string \<Rightarrow> (string \<times> string list) list option"

definition hostedInitializationWait :: int where "hostedInitializationWait = 240 * 1000000000"
definition hostedSupervisorAddr :: string where "hostedSupervisorAddr = ''127.0.0.1:8080''"
definition hostedBrokerRelayAddr :: string where "hostedBrokerRelayAddr = ''127.0.0.1:8091''"
definition hostedOrkaRelayAddr :: string where "hostedOrkaRelayAddr = ''127.0.0.1:8092''"

text \<open>\<open>boot\<close> is \<open>uuid.NewString()\<close>, \<open>nonce\<close> the 32 random bytes, when there were any.\<close>

definition newHostedServer :: "hostedEnv \<Rightarrow> hostedFiles \<Rightarrow> bool \<Rightarrow> string \<Rightarrow> string option \<Rightarrow> hostedImageConfig \<Rightarrow>
    hostedServer option" where
  "newHostedServer H F root boot nonce cfg =
     (let getenv = hfGetenv F; digest = getenv ''ORKA_ACP_FOUNDRY_ADAPTER_DIGEST'' in
      if \<not> validateHostedImageConfig H cfg \<or> \<not> root \<or>
         trimRightChar (getenv ''FOUNDRY_PROJECT_ENDPOINT'') (CHR ''/'') \<noteq> htProjectEndpoint (hiTarget cfg) \<or>
         getenv ''FOUNDRY_AGENT_NAME'' \<noteq> htAgentName (hiTarget cfg) \<or>
         getenv ''FOUNDRY_AGENT_VERSION'' \<noteq> htAgentVersion (hiTarget cfg) then None else
      (case heUUID H (getenv ''FOUNDRY_AGENT_SESSION_ID'') of None \<Rightarrow> None | Some (_, sid) \<Rightarrow>
       if \<not> hostedUUIDValid H (getenv ''FOUNDRY_AGENT_SESSION_ID'') then None else
       (case readHostedFile F ''/agent/foundry.json'' MaxAgentConfigBytes of None \<Rightarrow> None | Some agent \<Rightarrow>
        if Digest (heSha H) agent \<noteq> hiAgentConfigurationDigest cfg \<or> \<not> DigestValid digest then None else
        (case nonce of None \<Rightarrow> None | Some bytes \<Rightarrow>
          Some \<lparr>svImage = cfg, svChallenge = \<lparr>hcProtocol = hostedProtocol, hcDeploymentID = hiDeploymentID cfg,
              hcConfigurationDigest = Digest (heSha H) (imageJSON cfg), hcAgentName = htAgentName (hiTarget cfg),
              hcAgentVersion = htAgentVersion (hiTarget cfg), hcSessionID = sid, hcBootID = boot, hcNonce = b64Encode bytes\<rparr>,
            svAdapterDigest = digest, svAgentConfig = agent, svCancelled = False, svPair = None\<rparr>))))"

definition bootstrapValue :: "hostedBootstrap \<Rightarrow> string \<Rightarrow> string" where
  "bootstrapValue b key = (case fmlookup (hbEnvironment b) key of None \<Rightarrow> [] | Some v \<Rightarrow> v)"

section \<open>A request to the server\<close>

datatype serverReply = SrReady | SrClosed | SrNotFound | SrRefused | SrUpgraded

definition hostedRoutingQuery :: "containerWorld \<Rightarrow> string \<Rightarrow> bool" where
  "hostedRoutingQuery W raw = (if length raw > 2048 then False else
     case cnQuery W raw of None \<Rightarrow> False | Some entries \<Rightarrow>
       list_all (\<lambda>(key, values). (key = ''api-version'' \<or> key = ''agent_session_id'') \<and> length values = 1 \<and>
         length (hd values) \<le> 512 \<and> SafeString (hd values) 512) entries)"

definition serveHosted :: "containerWorld \<Rightarrow> hostedServer \<Rightarrow> relayRequest \<Rightarrow> string \<Rightarrow> serverReply" where
  "serveHosted W s r origin =
     (if rqPath r = ''/readiness'' \<and> rqMethod r = ''GET'' \<and> rqRawQuery r = [] then
        (if svCancelled s then SrClosed else SrReady)
      else if rqPath r \<noteq> ''/invocations_ws'' \<or> rqMethod r \<noteq> ''GET'' \<or> rqRawPath r \<noteq> [] \<or>
        \<not> hostedRoutingQuery W (rqRawQuery r) then SrNotFound
      else if svCancelled s then SrClosed
      else if origin \<noteq> [] then SrRefused
      else SrUpgraded)"

section \<open>The pair\<close>

definition cancelServer :: "hostedServer \<Rightarrow> hostedServer" where
  "cancelServer s = s\<lparr>svCancelled := True\<rparr>"

definition modPair :: "(hostedPair \<Rightarrow> hostedPair) \<Rightarrow> hostedServer \<Rightarrow> hostedServer" where
  "modPair f s = s\<lparr>svPair := map_option f (svPair s)\<rparr>"

definition newPair :: "int \<Rightarrow> hostedHello \<Rightarrow> hostedPair" where
  "newPair now hello = \<lparr>kpID = hhPairID hello, kpBootstrapDigest = hhBootstrapDigest hello, kpForward = None, kpReverse = None,
     kpForwardAcked = False, kpReverseAcked = False, kpSetupDeadline = now + hostedInitializationWait, kpBootstrap = None,
     kpDone = False, kpStopped = False, kpShutdownErr = False, kpRunning = False\<rparr>"

definition claim :: "int \<Rightarrow> hostedHello \<Rightarrow> nat \<Rightarrow> hostedServer \<Rightarrow> bool \<times> hostedServer" where
  "claim now hello ws s =
     (if svCancelled s then (False, s) else
      let pair = (case svPair s of None \<Rightarrow> newPair now hello | Some p \<Rightarrow> p); s1 = s\<lparr>svPair := Some pair\<rparr> in
      if kpID pair \<noteq> hhPairID hello \<or> kpBootstrapDigest pair \<noteq> hhBootstrapDigest hello \<or> kpRunning pair then (False, s1)
      else if hhRole hello = ''forward'' then
        (if kpForward pair \<noteq> None then (False, s1) else (True, s\<lparr>svPair := Some (pair\<lparr>kpForward := Some ws\<rparr>)\<rparr>))
      else if hhRole hello = ''reverse'' then
        (if kpReverse pair \<noteq> None then (False, s1) else (True, s\<lparr>svPair := Some (pair\<lparr>kpReverse := Some ws\<rparr>)\<rparr>))
      else (False, s1))"

text \<open>A message as the websocket delivers it: whether it is text, and its data.\<close>

definition readHostedWSJSON :: "(string \<Rightarrow> 'a option) \<Rightarrow> (bool \<times> string) option \<Rightarrow> 'a option" where
  "readHostedWSJSON decode m = (case m of None \<Rightarrow> None | Some (isText, data) \<Rightarrow>
     if \<not> isText \<or> length data > hostedMaxHandshakeBytes then None else decode data)"

definition acceptedFor :: "hostedServer \<Rightarrow> hostedHello \<Rightarrow> hostedAccepted option" where
  "acceptedFor s hello = map_option (\<lambda>p. \<lparr>haProtocol = hostedProtocol, haPairID = kpID p, haRole = hhRole hello,
     haBootID = hcBootID (svChallenge s), haBootstrapDigest = kpBootstrapDigest p\<rparr>) (svPair s)"

definition markAcked :: "hostedHello \<Rightarrow> hostedPair \<Rightarrow> hostedPair" where
  "markAcked hello p = (if hhRole hello = ''forward'' then p\<lparr>kpForwardAcked := True\<rparr> else p\<lparr>kpReverseAcked := True\<rparr>)"

definition receiveBootstrap :: "hostedEnv \<Rightarrow> containerWorld \<Rightarrow> hostedServer \<Rightarrow> hostedPair \<Rightarrow> (bool \<times> string) option \<Rightarrow>
    hostedBootstrap option" where
  "receiveBootstrap H W s p m = (case m of None \<Rightarrow> None | Some (isText, data) \<Rightarrow>
      if \<not> isText \<or> Digest (heSha H) data \<noteq> kpBootstrapDigest p then None else
      case cnBootstrap W data of None \<Rightarrow> None | Some b \<Rightarrow>
      if \<not> validateHostedBootstrap H (svImage s) b \<or>
         bootstrapValue b ''ORKA_ACP_FOUNDRY_ADAPTER_DIGEST'' \<noteq> svAdapterDigest s then None
      else if DecodeAgentConfig (heSha H) (cnAgent W) (cnSafe W) (svAgentConfig s) (hiAgentConfigurationDigest (svImage s))
          (bootstrapValue b ''ORKA_ACP_MODEL'') = None then None
      else Some b)"

definition readyToStart :: "int \<Rightarrow> hostedServer \<Rightarrow> bool" where
  "readyToStart now s = (case svPair s of None \<Rightarrow> False | Some p \<Rightarrow>
     \<not> kpRunning p \<and> kpForwardAcked p \<and> kpReverseAcked p \<and> kpBootstrap p \<noteq> None \<and> \<not> svCancelled s \<and> now < kpSetupDeadline p)"

definition maybeStart :: "int \<Rightarrow> hostedServer \<Rightarrow> bool \<times> hostedServer" where
  "maybeStart now s = (if readyToStart now s then (True, modPair (\<lambda>p. p\<lparr>kpRunning := True\<rparr>) s) else (False, s))"

text \<open>\<open>pair.close\<close>: closing the websockets is seen by their readers as a lost channel.\<close>

definition closePair :: "hostedServer \<Rightarrow> hostedServer" where
  "closePair s = modPair (\<lambda>p. p\<lparr>kpDone := True\<rparr>) (cancelServer s)"

definition localFailure :: "hostedServer \<Rightarrow> hostedServer" where
  "localFailure s = modPair (\<lambda>p. p\<lparr>kpShutdownErr := True\<rparr>) s"

definition localFailureUnlessCancelled :: "hostedServer \<Rightarrow> hostedServer" where
  "localFailureUnlessCancelled s = (if svCancelled s then s else localFailure s)"

text \<open>The end of \<open>joinSupervisor\<close>, with \<open>None\<close> for the expired timer, and the remaining deferred calls of \<open>run\<close>.\<close>

definition stopRun :: "hostedServer \<Rightarrow> hostedServer" where
  "stopRun s = modPair (\<lambda>p. p\<lparr>kpStopped := True\<rparr>) (closePair s)"

definition joinSupervisor :: "bool option \<Rightarrow> hostedServer \<Rightarrow> hostedServer" where
  "joinSupervisor result s = (let s1 = cancelServer s in
     closePair (if result = Some True then s1 else modPair (\<lambda>p. p\<lparr>kpShutdownErr := True\<rparr>) s1))"

text \<open>\<open>server.close\<close>: first it cancels; then it answers, or waits for a running pair.\<close>

definition closeServer :: "hostedServer \<Rightarrow> hostedServer" where
  "closeServer s = (let s1 = cancelServer s in
     case svPair s1 of None \<Rightarrow> s1 | Some p \<Rightarrow> if kpRunning p then s1 else closePair s1)"

definition closeAnswer :: "hostedServer \<Rightarrow> bool option" where
  "closeAnswer s = (case svPair s of None \<Rightarrow> Some True | Some p \<Rightarrow>
     if \<not> kpRunning p then Some True else if kpStopped p then Some (\<not> kpShutdownErr p) else None)"

section \<open>The supervisor process\<close>

definition supervisorSettings :: "string \<Rightarrow> hostedBootstrap \<Rightarrow> string \<Rightarrow> (string, string) fmap" where
  "supervisorSettings boot b sessionDir = fmap_of_list
     [(''PATH'', ''/usr/local/sbin:/usr/local/bin:/usr/sbin:/usr/bin:/sbin:/bin''), (''HOME'', ''/tmp''),
      (''ORKA_ACP_LISTEN_ADDRESS'', hostedSupervisorAddr),
      (''ORKA_ACP_RUNTIME_INSTANCE_ID'', ''foundry-hosted.'' @ boot),
      (''ORKA_ACP_SUPERVISOR_BOOT_ID'', boot),
      (''ORKA_ACP_PROVIDER_PROXY_BASE_URL'', ''http://'' @ hostedBrokerRelayAddr @ ''/v1''),
      (''ORKA_ACP_MCP_BROKER_URL'', ''http://'' @ hostedOrkaRelayAddr),
      (''ORKA_ACP_ARTIFACT_API_URL'', ''http://'' @ hostedOrkaRelayAddr),
      (''ORKA_ACP_WORKSPACE_MAX_ARTIFACT_BYTES'', ''536870912''), (''ORKA_ACP_SESSION_BASE_DIR'', sessionDir),
      (''ORKA_ACP_CONTROLLER_TOKEN_BOOTSTRAP'', hbControllerToken b),
      (''ORKA_ACP_CAPABILITY_SECRET_BOOTSTRAP'', hbCapabilitySecret b),
      (''ORKA_ACP_PROVIDER_TOKEN_BOOTSTRAP'', hbProviderToken b)]"

definition supervisorEnvironment :: "string \<Rightarrow> hostedBootstrap \<Rightarrow> string \<Rightarrow> (string, string) fmap" where
  "supervisorEnvironment boot b sessionDir = hbEnvironment b ++\<^sub>f supervisorSettings boot b sessionDir"

text \<open>The answers of the health route, status and body as far as it was read, that came before the context ended.\<close>

definition supervisorHealthy :: "containerWorld \<Rightarrow> (nat \<times> string) option \<Rightarrow> bool" where
  "supervisorHealthy W reply = (case reply of None \<Rightarrow> False | Some (status, data) \<Rightarrow>
     length data \<le> 4096 \<and> status = 200 \<and> cnHealth W data = Some (''orka.harness.v2'', ''ok''))"

definition waitHostedSupervisor :: "containerWorld \<Rightarrow> (nat \<times> string) option list \<Rightarrow> bool" where
  "waitHostedSupervisor W replies = list_ex (supervisorHealthy W) replies"

text \<open>process\_linux.go. Answers of \<open>kill\<close>, and what happened while the leader was waited for: \<open>Some e\<close> is its
  exit as \<open>waitid\<close> reported it (\<open>e\<close>: with an error), \<open>None\<close> that the other event of the select came first.\<close>

datatype killAnswer = KillDone | KillNoProcess | KillFailed

datatype signal = SigTerm | SigKill

datatype processEvent = PvSignal signal | PvKillLeader | PvReap

record processWorld =
  pwPid :: int
  pwFirst :: "bool option"  \<comment> \<open>\<open>None\<close>: the context was cancelled\<close>
  pwTerm :: killAnswer
  pwGrace :: "bool option"  \<comment> \<open>\<open>None\<close>: the grace timer\<close>
  pwKill :: killAnswer
  pwKillWait :: "bool option"  \<comment> \<open>\<open>None\<close>: the kill timer\<close>
  pwFinal :: killAnswer
  pwExitOk :: bool  \<comment> \<open>\<open>command.Wait\<close> reported no error\<close>

text \<open>Whether the group signal failed, and whether it was sent at all.\<close>

definition signalGroup :: "processWorld \<Rightarrow> signal \<Rightarrow> killAnswer \<Rightarrow> bool \<times> processEvent list" where
  "signalGroup w sig answer = (if pwPid w \<le> 0 then (True, []) else (answer = KillFailed, [PvSignal sig]))"

definition reapLeader :: "processWorld \<Rightarrow> bool \<Rightarrow> bool \<Rightarrow> bool \<Rightarrow> processEvent list \<Rightarrow> bool \<times> processEvent list" where
  "reapLeader w observedErr signalErr forced ev =
     (if observedErr then (False, ev @ [PvKillLeader, PvReap]) else
      case signalGroup w SigKill (pwFinal w) of (failed, ev1) \<Rightarrow>
        (pwExitOk w \<and> \<not> (signalErr \<or> failed) \<and> \<not> forced, ev @ ev1 @ [PvReap]))"

text \<open>A stuck task is reaped later, by a goroutine of its own.\<close>

definition waitHostedSupervisorProcess :: "processWorld \<Rightarrow> bool \<times> processEvent list" where
  "waitHostedSupervisorProcess w =
     (case pwFirst w of Some e \<Rightarrow> reapLeader w e False False []
      | None \<Rightarrow> (case signalGroup w SigTerm (pwTerm w) of (termErr, ev) \<Rightarrow>
          (case pwGrace w of Some e \<Rightarrow> reapLeader w e termErr False ev
           | None \<Rightarrow> (case signalGroup w SigKill (pwKill w) of (killErr, ev1) \<Rightarrow>
               (case pwKillWait w of Some e \<Rightarrow> reapLeader w e (termErr \<or> killErr) True (ev @ ev1)
                | None \<Rightarrow> (False, ev @ ev1 @ [PvReap]))))))"

text \<open>\<open>startHostedSupervisorProcess\<close> with its guard; the two durations are constants of the caller.\<close>

definition startsProcess :: "hostedServer \<Rightarrow> bool \<Rightarrow> bool" where
  "startsProcess s started \<longleftrightarrow> \<not> svCancelled s \<and> started"

section \<open>Steps\<close>

datatype channelPhase = CpGreeted | CpVerified hostedHello | CpClaimed hostedHello | CpAcked hostedHello | CpDecided
  | CpWaiting | CpHolding | CpEnded

datatype runPhase = RunNone | RunStarting | RunHealth | RunServing | RunJoining | RunClosing | RunStopped

datatype supervisorProcess = SpNone | SpRunning | SpExited bool | SpReported bool

datatype serverEvent = SvHello hostedHello int | SvAccepted hostedAccepted | SvBootstrap string
  | SvLaunched "(string, string) fmap" | SvProcess "processEvent list" | SvReady hostedReady

record supervisorSystem =
  sySrv :: hostedServer
  syNow :: int
  syChannels :: "(nat, channelPhase) fmap"
  syRun :: runPhase
  syProcess :: supervisorProcess
  syForwardReady :: bool
  syTrace :: "serverEvent list"

definition setChannel :: "nat \<Rightarrow> channelPhase \<Rightarrow> supervisorSystem \<Rightarrow> supervisorSystem" where
  "setChannel c ph S = S\<lparr>syChannels := fmupd c ph (syChannels S)\<rparr>"

definition noteEvent :: "serverEvent \<Rightarrow> supervisorSystem \<Rightarrow> supervisorSystem" where
  "noteEvent ev S = S\<lparr>syTrace := syTrace S @ [ev]\<rparr>"

definition modServer :: "(hostedServer \<Rightarrow> hostedServer) \<Rightarrow> supervisorSystem \<Rightarrow> supervisorSystem" where
  "modServer f S = S\<lparr>sySrv := f (sySrv S)\<rparr>"

text \<open>The handler of a channel, from the hello to the wait for the end of the pair.\<close>

definition onHello :: "hostedEnv \<Rightarrow> containerWorld \<Rightarrow> nat \<Rightarrow> (bool \<times> string) option \<Rightarrow> supervisorSystem \<Rightarrow> supervisorSystem" where
  "onHello H W c message S = (case readHostedWSJSON (cnHello W) message of
     None \<Rightarrow> setChannel c CpEnded S
   | Some hello \<Rightarrow>
       if verifyHostedHello H hello (svChallenge (sySrv S)) (hiSigningPublicKey (svImage (sySrv S))) (syNow S)
       then setChannel c (CpVerified hello) (noteEvent (SvHello hello (syNow S)) S) else setChannel c CpEnded S)"

definition onClaim :: "nat \<Rightarrow> hostedHello \<Rightarrow> supervisorSystem \<Rightarrow> supervisorSystem" where
  "onClaim c hello S = (case claim (syNow S) hello c (sySrv S) of (ok, s) \<Rightarrow>
     setChannel c (if ok then CpClaimed hello else CpEnded) (S\<lparr>sySrv := s\<rparr>))"

definition onAck :: "nat \<Rightarrow> hostedHello \<Rightarrow> bool \<Rightarrow> supervisorSystem \<Rightarrow> supervisorSystem" where
  "onAck c hello written S =
     (if \<not> written then setChannel c CpEnded (modServer closePair S)
      else setChannel c (CpAcked hello) (modServer (modPair (markAcked hello))
        (case acceptedFor (sySrv S) hello of None \<Rightarrow> S | Some ack \<Rightarrow> noteEvent (SvAccepted ack) S)))"

definition onBootstrap :: "hostedEnv \<Rightarrow> containerWorld \<Rightarrow> nat \<Rightarrow> hostedHello \<Rightarrow> (bool \<times> string) option \<Rightarrow> supervisorSystem \<Rightarrow> supervisorSystem" where
  "onBootstrap H W c hello message S =
     (if hhRole hello \<noteq> ''forward'' then setChannel c CpDecided S else
      case Option.bind (svPair (sySrv S)) (\<lambda>p. receiveBootstrap H W (sySrv S) p message) of
        None \<Rightarrow> setChannel c CpEnded (modServer closePair S)
      | Some b \<Rightarrow> setChannel c CpDecided (modServer (modPair (\<lambda>p. p\<lparr>kpBootstrap := Some b\<rparr>))
          (noteEvent (SvBootstrap (snd (the message))) S)))"

definition onDecided :: "nat \<Rightarrow> supervisorSystem \<Rightarrow> supervisorSystem" where
  "onDecided c S = (case maybeStart (syNow S) (sySrv S) of (started, s) \<Rightarrow>
     setChannel c CpWaiting (S\<lparr>sySrv := s, syRun := (if started then RunStarting else syRun S)\<rparr>))"

text \<open>The select of a waiting handler: \<open>started\<close>, the timer, or the context.\<close>

definition onWaitOver :: "nat \<Rightarrow> supervisorSystem \<Rightarrow> supervisorSystem" where
  "onWaitOver c S = setChannel c CpHolding (case svPair (sySrv S) of None \<Rightarrow> S | Some p \<Rightarrow>
     if kpRunning p then S else modServer closePair S)"

definition onTimer :: "nat \<Rightarrow> supervisorSystem \<Rightarrow> supervisorSystem" where
  "onTimer c S = setChannel c CpHolding (modServer closePair S)"

text \<open>The goroutine of the pair. \<open>dir\<close> is the session directory, when relays and directory could be made;
  \<open>started\<close> whether the command started.\<close>

definition onLaunch :: "string \<Rightarrow> bool \<Rightarrow> supervisorSystem \<Rightarrow> supervisorSystem" where
  "onLaunch dir started S = (case Option.bind (svPair (sySrv S)) kpBootstrap of
     None \<Rightarrow> S
   | Some b \<Rightarrow>
     if startsProcess (sySrv S) started
     then noteEvent (SvLaunched (supervisorEnvironment (hcBootID (svChallenge (sySrv S))) b dir)) (S\<lparr>syRun := RunHealth, syProcess := SpRunning\<rparr>)
     else (modServer localFailureUnlessCancelled S)\<lparr>syRun := RunClosing\<rparr>)"

definition onHealth :: "containerWorld \<Rightarrow> (nat \<times> string) option list \<Rightarrow> bool \<Rightarrow> supervisorSystem \<Rightarrow> supervisorSystem" where
  "onHealth W replies written S =
     (if \<not> waitHostedSupervisor W replies then (modServer (cancelServer \<circ> localFailureUnlessCancelled) S)\<lparr>syRun := RunJoining\<rparr>
      else if \<not> written then (modServer closePair S)\<lparr>syRun := RunJoining, syForwardReady := True\<rparr>
      else (case svPair (sySrv S) of None \<Rightarrow> S | Some p \<Rightarrow>
        noteEvent (SvReady \<lparr>hrProtocol = hostedProtocol, hrPairID = kpID p, hrBootID = hcBootID (svChallenge (sySrv S)), hrReady = True\<rparr>)
          (S\<lparr>syRun := RunServing, syForwardReady := True\<rparr>)))"

definition onExit :: "processWorld \<Rightarrow> supervisorSystem \<Rightarrow> supervisorSystem" where
  "onExit w S = (case waitHostedSupervisorProcess w of (ok, ev) \<Rightarrow> noteEvent (SvProcess ev) (S\<lparr>syProcess := SpExited ok\<rparr>))"

text \<open>The classification of the exit, then \<open>pair.close\<close>.\<close>

definition onReport :: "bool \<Rightarrow> supervisorSystem \<Rightarrow> supervisorSystem" where
  "onReport ok S = (modServer closePair S)\<lparr>syProcess :=
     SpReported (ok \<and> \<not> (\<not> syForwardReady S \<and> \<not> svCancelled (sySrv S)))\<rparr>"

definition onJoined :: "bool option \<Rightarrow> supervisorSystem \<Rightarrow> supervisorSystem" where
  "onJoined result S = (modServer (stopRun \<circ> joinSupervisor result) S)\<lparr>syRun := RunStopped\<rparr>"

inductive serverStep :: "hostedEnv \<Rightarrow> containerWorld \<Rightarrow> supervisorSystem \<Rightarrow> supervisorSystem \<Rightarrow> bool" for H W where
  tick: "syNow S \<le> now \<Longrightarrow> serverStep H W S (S\<lparr>syNow := now\<rparr>)"
| opened: "fmlookup (syChannels S) c = None \<Longrightarrow> serveHosted W (sySrv S) r origin = SrUpgraded \<Longrightarrow>
    serverStep H W S (setChannel c CpGreeted S)"
| hello: "fmlookup (syChannels S) c = Some CpGreeted \<Longrightarrow> serverStep H W S (onHello H W c message S)"
| claimed: "fmlookup (syChannels S) c = Some (CpVerified v) \<Longrightarrow> serverStep H W S (onClaim c v S)"
| acked: "fmlookup (syChannels S) c = Some (CpClaimed v) \<Longrightarrow> serverStep H W S (onAck c v written S)"
| bootstrapped: "fmlookup (syChannels S) c = Some (CpAcked v) \<Longrightarrow> serverStep H W S (onBootstrap H W c v message S)"
| decided: "fmlookup (syChannels S) c = Some CpDecided \<Longrightarrow> serverStep H W S (onDecided c S)"
| waited: "fmlookup (syChannels S) c = Some CpWaiting \<Longrightarrow> svPair (sySrv S) = Some p \<Longrightarrow> kpRunning p \<or> svCancelled (sySrv S) \<Longrightarrow>
    serverStep H W S (onWaitOver c S)"
| timed: "fmlookup (syChannels S) c = Some CpWaiting \<Longrightarrow> svPair (sySrv S) = Some p \<Longrightarrow> kpSetupDeadline p \<le> syNow S \<Longrightarrow>
    serverStep H W S (onTimer c S)"
| held: "fmlookup (syChannels S) c = Some CpHolding \<Longrightarrow> svPair (sySrv S) = Some p \<Longrightarrow> kpDone p \<Longrightarrow>
    serverStep H W S (setChannel c CpEnded S)"
| noClient: "syRun S = RunStarting \<Longrightarrow> serverStep H W S (S\<lparr>syRun := RunClosing\<rparr>)"
| noRelays: "syRun S = RunStarting \<Longrightarrow> serverStep H W S ((modServer localFailure S)\<lparr>syRun := RunClosing\<rparr>)"
| launched: "syRun S = RunStarting \<Longrightarrow> serverStep H W S (onLaunch dir started S)"
| health: "syRun S = RunHealth \<Longrightarrow> serverStep H W S (onHealth W replies written S)"
| served: "syRun S = RunServing \<Longrightarrow> svCancelled (sySrv S) \<Longrightarrow> serverStep H W S (S\<lparr>syRun := RunJoining\<rparr>)"
| lost: "syRun S \<noteq> RunNone \<Longrightarrow> serverStep H W S (modServer closePair S)"
| exited: "syProcess S = SpRunning \<Longrightarrow> pwFirst w = None \<longrightarrow> svCancelled (sySrv S) \<Longrightarrow> serverStep H W S (onExit w S)"
| reported: "syProcess S = SpExited ok \<Longrightarrow> serverStep H W S (onReport ok S)"
| joined: "syRun S = RunJoining \<Longrightarrow> syProcess S = SpReported ok \<Longrightarrow> serverStep H W S (onJoined (Some ok) S)"
| expired: "syRun S = RunJoining \<Longrightarrow> serverStep H W S (onJoined None S)"
| closed: "syRun S = RunClosing \<Longrightarrow> serverStep H W S ((modServer stopRun S)\<lparr>syRun := RunStopped\<rparr>)"
| shutdown: "serverStep H W S (modServer closeServer S)"

text \<open>A server that has been made, at any time, with no request yet.\<close>

inductive serverReachable :: "hostedEnv \<Rightarrow> containerWorld \<Rightarrow> supervisorSystem \<Rightarrow> bool" for H W where
  start: "newHostedServer H F root boot nonce cfg = Some s \<Longrightarrow>
    serverReachable H W \<lparr>sySrv = s, syNow = now, syChannels = fmempty, syRun = RunNone, syProcess = SpNone,
      syForwardReady = False, syTrace = []\<rparr>"
| step: "serverReachable H W S \<Longrightarrow> serverStep H W S S' \<Longrightarrow> serverReachable H W S'"

end
