(* ===== verification/HostedServed.thy ===== *)
theory HostedServed
  imports HostedServer
begin

text \<open>
  What holds of a hosted container in every interleaving: one supervisor at most, started only by the two
  authenticated channels of one pair and the bootstrap message they announced; and a shutdown reported as
  clean only when that supervisor has been reaped.
\<close>

section \<open>Traces\<close>

definition launchesOk :: "(serverEvent list \<Rightarrow> (string, string) fmap \<Rightarrow> bool) \<Rightarrow> serverEvent list \<Rightarrow> bool" where
  "launchesOk Q tr \<longleftrightarrow> (\<forall>pre e post. tr = pre @ SvLaunched e # post \<longrightarrow> Q pre e)"

lemma launchesOk_Nil [simp]: "launchesOk Q []"
  by (simp add: launchesOk_def)

lemma launchesOk_snoc [simp]: "launchesOk Q (tr @ [ev]) \<longleftrightarrow> launchesOk Q tr \<and> (\<forall>e. ev = SvLaunched e \<longrightarrow> Q tr e)"
proof
  assume l: "launchesOk Q (tr @ [ev])"
  have "Q pre e" if "tr = pre @ SvLaunched e # post" for pre e post
    using l that unfolding launchesOk_def by (metis append_Cons append_assoc)
  with l show "launchesOk Q tr \<and> (\<forall>e. ev = SvLaunched e \<longrightarrow> Q tr e)" unfolding launchesOk_def by blast
next
  assume r: "launchesOk Q tr \<and> (\<forall>e. ev = SvLaunched e \<longrightarrow> Q tr e)"
  show "launchesOk Q (tr @ [ev])"
    unfolding launchesOk_def
  proof (intro allI impI)
    fix pre e post
    assume eq: "tr @ [ev] = pre @ SvLaunched e # post"
    show "Q pre e"
    proof (cases post rule: rev_cases)
      case Nil
      with eq have "tr = pre" "ev = SvLaunched e" by simp_all
      with r show ?thesis by blast
    next
      case (snoc post' x)
      with eq have "tr = pre @ SvLaunched e # post'" by simp
      with r show ?thesis unfolding launchesOk_def by blast
    qed
  qed
qed

definition noLaunch :: "serverEvent list \<Rightarrow> bool" where
  "noLaunch tr \<longleftrightarrow> (\<forall>e. SvLaunched e \<notin> set tr)"

definition helloFor :: "serverEvent list \<Rightarrow> hostedPair \<Rightarrow> string \<Rightarrow> bool" where
  "helloFor tr p role \<longleftrightarrow> (\<exists>v t. SvHello v t \<in> set tr \<and> hhRole v = role \<and> hhPairID v = kpID p \<and>
     hhBootstrapDigest v = kpBootstrapDigest p)"

definition bootstrapFor :: "hostedEnv \<Rightarrow> containerWorld \<Rightarrow> hostedImageConfig \<Rightarrow> serverEvent list \<Rightarrow> string \<Rightarrow> hostedBootstrap \<Rightarrow> bool" where
  "bootstrapFor H W img tr digest b \<longleftrightarrow> (\<exists>data. SvBootstrap data \<in> set tr \<and> Digest (heSha H) data = digest \<and>
     cnBootstrap W data = Some b \<and> validateHostedBootstrap H img b)"

lemma trace_grows [simp]: "helloFor tr p role \<Longrightarrow> helloFor (tr @ [ev]) p role"
  "bootstrapFor H W img tr digest b \<Longrightarrow> bootstrapFor H W img (tr @ [ev]) digest b"
  unfolding helloFor_def bootstrapFor_def by auto

text \<open>What precedes a launch: no other launch, a hello for each role with the server's challenge, both for one pair and one
  bootstrap message, and that message, complete and valid; the process gets the environment made of it.\<close>

definition launchJustified :: "hostedEnv \<Rightarrow> containerWorld \<Rightarrow> hostedImageConfig \<Rightarrow> hostedChallenge \<Rightarrow> serverEvent list \<Rightarrow>
    (string, string) fmap \<Rightarrow> bool" where
  "launchJustified H W img challenge pre e \<longleftrightarrow> noLaunch pre \<and>
     (\<exists>f tf r tr b dir. SvHello f tf \<in> set pre \<and> hhRole f = ''forward'' \<and> SvHello r tr \<in> set pre \<and> hhRole r = ''reverse'' \<and>
        verifyHostedHello H f challenge (hiSigningPublicKey img) tf \<and> verifyHostedHello H r challenge (hiSigningPublicKey img) tr \<and>
        hhPairID f = hhPairID r \<and> hhBootstrapDigest f = hhBootstrapDigest r \<and>
        bootstrapFor H W img pre (hhBootstrapDigest f) b \<and> e = supervisorEnvironment (hcBootID challenge) b dir)"

section \<open>Invariant\<close>

definition hellosVerified :: "hostedEnv \<Rightarrow> supervisorSystem \<Rightarrow> bool" where
  "hellosVerified H S \<longleftrightarrow> (\<forall>v t. SvHello v t \<in> set (syTrace S) \<longrightarrow>
     verifyHostedHello H v (svChallenge (sySrv S)) (hiSigningPublicKey (svImage (sySrv S))) t)"

definition pairOk :: "hostedEnv \<Rightarrow> containerWorld \<Rightarrow> hostedImageConfig \<Rightarrow> serverEvent list \<Rightarrow> hostedPair \<Rightarrow> bool" where
  "pairOk H W img tr p \<longleftrightarrow> (kpForward p \<noteq> None \<longrightarrow> helloFor tr p ''forward'') \<and> (kpReverse p \<noteq> None \<longrightarrow> helloFor tr p ''reverse'') \<and>
     (kpForwardAcked p \<longrightarrow> kpForward p \<noteq> None) \<and> (kpReverseAcked p \<longrightarrow> kpReverse p \<noteq> None) \<and>
     (\<forall>b. kpBootstrap p = Some b \<longrightarrow> bootstrapFor H W img tr (kpBootstrapDigest p) b)"

definition pairInv :: "hostedEnv \<Rightarrow> containerWorld \<Rightarrow> supervisorSystem \<Rightarrow> bool" where
  "pairInv H W S \<longleftrightarrow> (\<forall>p. svPair (sySrv S) = Some p \<longrightarrow> pairOk H W (svImage (sySrv S)) (syTrace S) p)"

definition phaseOk :: "hostedServer \<Rightarrow> serverEvent list \<Rightarrow> channelPhase \<Rightarrow> bool" where
  "phaseOk s tr ph \<longleftrightarrow> (case ph of CpVerified v \<Rightarrow> (\<exists>t. SvHello v t \<in> set tr) \<and> hhRole v \<in> {''forward'', ''reverse''}
     | CpClaimed v \<Rightarrow> (\<exists>p. svPair s = Some p \<and> (if hhRole v = ''forward'' then kpForward p \<noteq> None else kpReverse p \<noteq> None))
     | _ \<Rightarrow> True)"

definition phaseInv :: "supervisorSystem \<Rightarrow> bool" where
  "phaseInv S \<longleftrightarrow> (\<forall>c ph. fmlookup (syChannels S) c = Some ph \<longrightarrow> phaseOk (sySrv S) (syTrace S) ph)"

definition runInv :: "supervisorSystem \<Rightarrow> bool" where
  "runInv S \<longleftrightarrow> (syRun S \<noteq> RunNone \<longrightarrow> (\<exists>p. svPair (sySrv S) = Some p \<and> kpRunning p \<and> kpForwardAcked p \<and> kpReverseAcked p \<and>
        kpBootstrap p \<noteq> None)) \<and>
     (syRun S = RunNone \<longrightarrow> (\<forall>p. svPair (sySrv S) = Some p \<longrightarrow> \<not> kpRunning p)) \<and>
     (syRun S \<in> {RunNone, RunStarting, RunClosing} \<longrightarrow> noLaunch (syTrace S))"

definition launchInv :: "hostedEnv \<Rightarrow> containerWorld \<Rightarrow> supervisorSystem \<Rightarrow> bool" where
  "launchInv H W S \<longleftrightarrow> launchesOk (launchJustified H W (svImage (sySrv S)) (svChallenge (sySrv S))) (syTrace S)"

text \<open>The process was reaped and had ended with success.\<close>

definition reapedWell :: "serverEvent list \<Rightarrow> bool" where
  "reapedWell tr \<longleftrightarrow> (\<exists>w. fst (waitHostedSupervisorProcess w) \<and> SvProcess (snd (waitHostedSupervisorProcess w)) \<in> set tr)"

definition stopInv :: "supervisorSystem \<Rightarrow> bool" where
  "stopInv S \<longleftrightarrow> (syProcess S = SpExited True \<or> syProcess S = SpReported True \<longrightarrow> reapedWell (syTrace S)) \<and>
     (\<forall>p. svPair (sySrv S) = Some p \<longrightarrow> (kpStopped p \<longrightarrow> syRun S = RunStopped) \<and>
        (syRun S = RunStopped \<and> \<not> kpShutdownErr p \<longrightarrow> noLaunch (syTrace S) \<or> reapedWell (syTrace S)))"

definition serverInv :: "hostedEnv \<Rightarrow> containerWorld \<Rightarrow> supervisorSystem \<Rightarrow> bool" where
  "serverInv H W S \<longleftrightarrow> hellosVerified H S \<and> pairInv H W S \<and> phaseInv S \<and> runInv S \<and> launchInv H W S \<and> stopInv S"

lemmas inv_defs = hellosVerified_def pairInv_def phaseInv_def runInv_def launchInv_def stopInv_def

lemma noLaunch_simps [simp]: "noLaunch []" "noLaunch (tr @ [ev]) \<longleftrightarrow> noLaunch tr \<and> (\<forall>e. ev \<noteq> SvLaunched e)"
  by (auto simp: noLaunch_def)

lemma reapedWell_grows [simp]: "reapedWell tr \<Longrightarrow> reapedWell (tr @ [ev])"
  by (auto simp: reapedWell_def)

lemma pairOk_grows [simp]: "pairOk H W img tr p \<Longrightarrow> pairOk H W img (tr @ [ev]) p"
  by (auto simp: pairOk_def)

lemma phaseOk_grows [simp]: "phaseOk s tr ph \<Longrightarrow> phaseOk s (tr @ [ev]) ph"
  by (auto simp: phaseOk_def split: channelPhase.splits)

text \<open>Pairs that differ at most in how they end.\<close>

definition samePair :: "hostedPair \<Rightarrow> hostedPair \<Rightarrow> bool" where
  "samePair p q \<longleftrightarrow> kpID q = kpID p \<and> kpBootstrapDigest q = kpBootstrapDigest p \<and> kpForward q = kpForward p \<and>
     kpReverse q = kpReverse p \<and> kpForwardAcked q = kpForwardAcked p \<and> kpReverseAcked q = kpReverseAcked p \<and>
     kpBootstrap q = kpBootstrap p \<and> kpRunning q = kpRunning p"

lemma samePair_pairOk: "samePair p q \<Longrightarrow> pairOk H W img tr q = pairOk H W img tr p"
  by (simp add: samePair_def pairOk_def helloFor_def)

section \<open>Steps\<close>

lemma system_fields [simp]:
  "sySrv (setChannel c ph S) = sySrv S" "syRun (setChannel c ph S) = syRun S" "syProcess (setChannel c ph S) = syProcess S"
  "syTrace (setChannel c ph S) = syTrace S" "fmlookup (syChannels (setChannel c ph S)) c' = (if c' = c then Some ph else fmlookup (syChannels S) c')"
  "sySrv (noteEvent ev S) = sySrv S" "syRun (noteEvent ev S) = syRun S" "syProcess (noteEvent ev S) = syProcess S"
  "syTrace (noteEvent ev S) = syTrace S @ [ev]" "syChannels (noteEvent ev S) = syChannels S"
  "sySrv (modServer f S) = f (sySrv S)" "syRun (modServer f S) = syRun S" "syProcess (modServer f S) = syProcess S"
  "syTrace (modServer f S) = syTrace S" "syChannels (modServer f S) = syChannels S" "syNow (setChannel c ph S) = syNow S"
  by (auto simp: setChannel_def noteEvent_def modServer_def)

lemma server_fields [simp]:
  "svImage (cancelServer s) = svImage s" "svChallenge (cancelServer s) = svChallenge s" "svPair (cancelServer s) = svPair s"
  "svImage (modPair f s) = svImage s" "svChallenge (modPair f s) = svChallenge s" "svPair (modPair f s) = map_option f (svPair s)"
  by (simp_all add: cancelServer_def modPair_def)

text \<open>An operation on the server that keeps the configuration and changes at most the flags of its pair.\<close>

definition gentle :: "hostedServer \<Rightarrow> hostedServer \<Rightarrow> bool" where
  "gentle s s' \<longleftrightarrow> svImage s' = svImage s \<and> svChallenge s' = svChallenge s \<and> rel_option samePair (svPair s) (svPair s')"

lemma samePair_refl [simp]: "samePair p p"
  by (simp add: samePair_def)

lemma gentle_refl [simp]: "gentle s s"
  by (auto simp: gentle_def intro!: option.rel_refl)

lemma gentle_trans: "gentle s s' \<Longrightarrow> gentle s' s'' \<Longrightarrow> gentle s s''"
  unfolding gentle_def by (cases "svPair s"; cases "svPair s'"; cases "svPair s''") (simp_all add: samePair_def)

lemma gentle_cancel [simp]: "gentle s (cancelServer s)"
  by (auto simp: gentle_def intro!: option.rel_refl)

lemma gentle_modPair: "(\<And>p. samePair p (f p)) \<Longrightarrow> gentle s (modPair f s)"
  by (cases "svPair s") (simp_all add: gentle_def)

lemma gentle_close [simp]: "gentle s (closePair s)"
  unfolding closePair_def by (rule gentle_trans [OF gentle_cancel gentle_modPair]) (simp add: samePair_def)

lemma gentle_failure [simp]: "gentle s (localFailure s)" "gentle s (localFailureUnlessCancelled s)"
  unfolding localFailureUnlessCancelled_def localFailure_def by (auto intro!: gentle_modPair simp: samePair_def)

lemma gentle_stop [simp]: "gentle s (stopRun s)"
  unfolding stopRun_def by (rule gentle_trans [OF gentle_close gentle_modPair]) (simp add: samePair_def)

lemma gentle_join [simp]: "gentle s (joinSupervisor result s)"
  unfolding joinSupervisor_def Let_def
  by (rule gentle_trans [OF _ gentle_close]) (auto intro!: gentle_trans [OF gentle_cancel gentle_modPair] simp: samePair_def)

lemma gentle_closeServer [simp]: "gentle s (closeServer s)"
  unfolding closeServer_def Let_def by (auto split: option.splits intro: gentle_trans [OF gentle_cancel gentle_close])

lemma gentle_pair: "gentle s s' \<Longrightarrow> svPair s' = Some q \<Longrightarrow> \<exists>p. svPair s = Some p \<and> samePair p q"
  by (auto simp: gentle_def option_rel_Some2)

lemma gentle_pair': "gentle s s' \<Longrightarrow> svPair s = Some p \<Longrightarrow> \<exists>q. svPair s' = Some q \<and> samePair p q"
  by (auto simp: gentle_def option_rel_Some1)

lemma gentle_img: "gentle s s' \<Longrightarrow> svImage s' = svImage s" "gentle s s' \<Longrightarrow> svChallenge s' = svChallenge s"
  by (simp_all add: gentle_def)

lemma gentle_pairInv:
  assumes "gentle (sySrv S) (sySrv S')" "pairInv H W S" "syTrace S' = syTrace S \<or> syTrace S' = syTrace S @ [ev]"
  shows "pairInv H W S'"
  unfolding pairInv_def
proof (intro allI impI)
  fix q
  assume "svPair (sySrv S') = Some q"
  then obtain p where p: "svPair (sySrv S) = Some p" "samePair p q" using gentle_pair [OF assms(1)] by blast
  then have "pairOk H W (svImage (sySrv S)) (syTrace S) q" using assms(2) by (simp add: pairInv_def samePair_pairOk)
  then show "pairOk H W (svImage (sySrv S')) (syTrace S') q" using assms(3) gentle_img [OF assms(1)] by auto
qed

lemma gentle_phase: "gentle s s' \<Longrightarrow> phaseOk s tr ph \<Longrightarrow> phaseOk s' tr ph"
proof (cases ph)
  case (CpClaimed v)
  assume g: "gentle s s'" and "phaseOk s tr ph"
  then obtain p where "svPair s = Some p" "if hhRole v = ''forward'' then kpForward p \<noteq> None else kpReverse p \<noteq> None"
    by (auto simp: phaseOk_def CpClaimed)
  with gentle_pair' [OF g] show "phaseOk s' tr ph" by (fastforce simp: phaseOk_def CpClaimed samePair_def)
qed (simp_all add: phaseOk_def)

lemma gentle_run:
  assumes "gentle (sySrv S) (sySrv S')" "runInv S" "syRun S' = syRun S \<or> syRun S \<noteq> RunNone \<and> syRun S' \<noteq> RunNone"
    and "syRun S' \<in> {RunNone, RunStarting, RunClosing} \<longrightarrow> noLaunch (syTrace S')"
  shows "runInv S'"
proof (cases "syRun S' = RunNone")
  case True
  with assms(2,3) have "\<forall>p. svPair (sySrv S) = Some p \<longrightarrow> \<not> kpRunning p" by (auto simp: runInv_def)
  with assms(4) True show ?thesis unfolding runInv_def by (auto dest: gentle_pair [OF assms(1)] simp: samePair_def)
next
  case False
  with assms(2,3) obtain p where "svPair (sySrv S) = Some p" "kpRunning p" "kpForwardAcked p" "kpReverseAcked p" "kpBootstrap p \<noteq> None"
    unfolding runInv_def by auto
  with gentle_pair' [OF assms(1)] have "\<exists>q. svPair (sySrv S') = Some q \<and> kpRunning q \<and> kpForwardAcked q \<and> kpReverseAcked q \<and> kpBootstrap q \<noteq> None"
    by (fastforce simp: samePair_def)
  with assms(4) False show ?thesis unfolding runInv_def by blast
qed

text \<open>The flags of the end are kept, or only the failure is set.\<close>

definition mild :: "hostedServer \<Rightarrow> hostedServer \<Rightarrow> bool" where
  "mild s s' \<longleftrightarrow> rel_option (\<lambda>p q. kpStopped q = kpStopped p \<and> (kpShutdownErr p \<longrightarrow> kpShutdownErr q)) (svPair s) (svPair s')"

lemma mild_refl [simp]: "mild s s"
  by (auto simp: mild_def intro!: option.rel_refl)

lemma mild_trans: "mild s s' \<Longrightarrow> mild s' s'' \<Longrightarrow> mild s s''"
  unfolding mild_def by (cases "svPair s"; cases "svPair s'"; cases "svPair s''") simp_all

lemma mild_cancel [simp]: "mild s (cancelServer s)"
  by (auto simp: mild_def intro!: option.rel_refl)

lemma mild_modPair: "(\<And>p. kpStopped (f p) = kpStopped p \<and> (kpShutdownErr p \<longrightarrow> kpShutdownErr (f p))) \<Longrightarrow> mild s (modPair f s)"
  by (cases "svPair s") (simp_all add: mild_def)

lemma mild_close [simp]: "mild s (closePair s)"
  unfolding closePair_def by (rule mild_trans [OF mild_cancel mild_modPair]) simp

lemma mild_failure [simp]: "mild s (localFailure s)" "mild s (localFailureUnlessCancelled s)"
  unfolding localFailureUnlessCancelled_def localFailure_def by (auto intro!: mild_modPair)

lemma mild_more [simp]: "mild s (cancelServer (localFailureUnlessCancelled s))" "mild s (closeServer s)"
  unfolding closeServer_def Let_def
  by (auto split: option.splits intro: mild_trans [OF mild_cancel mild_close] mild_trans [OF mild_failure(2) mild_cancel])

lemma mild_stopInv:
  assumes "stopInv S" "mild (sySrv S) (sySrv S')" "syTrace S' = syTrace S \<or> syTrace S' = syTrace S @ [ev]" "\<forall>e. ev \<noteq> SvLaunched e"
    and "syProcess S' = syProcess S \<or> reapedWell (syTrace S') \<or> syProcess S' \<notin> {SpExited True, SpReported True}"
    and "syRun S' = RunStopped \<longleftrightarrow> syRun S = RunStopped"
  shows "stopInv S'"
proof -
  have tr: "reapedWell (syTrace S) \<longrightarrow> reapedWell (syTrace S')" "noLaunch (syTrace S) \<longrightarrow> noLaunch (syTrace S')" using assms(3,4) by auto
  have "(kpStopped q \<longrightarrow> syRun S' = RunStopped) \<and>
      (syRun S' = RunStopped \<and> \<not> kpShutdownErr q \<longrightarrow> noLaunch (syTrace S') \<or> reapedWell (syTrace S'))"
    if "svPair (sySrv S') = Some q" for q
  proof -
    from that assms(2) obtain p where "svPair (sySrv S) = Some p" "kpStopped q = kpStopped p" "kpShutdownErr p \<longrightarrow> kpShutdownErr q"
      by (auto simp: mild_def option_rel_Some2)
    with assms(1,6) tr show ?thesis unfolding stopInv_def by blast
  qed
  moreover have "syProcess S' = SpExited True \<or> syProcess S' = SpReported True \<longrightarrow> reapedWell (syTrace S')"
    using assms(1,5) tr(1) unfolding stopInv_def by auto
  ultimately show ?thesis unfolding stopInv_def by blast
qed

lemma gentle_serverInv:
  assumes "serverInv H W S" "gentle (sySrv S) (sySrv S')" "syTrace S' = syTrace S \<or> syTrace S' = syTrace S @ [ev]"
    and "\<forall>e. ev \<noteq> SvLaunched e" "\<forall>v t. ev \<noteq> SvHello v t"
    and "\<And>c ph. fmlookup (syChannels S') c = Some ph \<Longrightarrow> fmlookup (syChannels S) c = Some ph \<or> phaseOk (sySrv S') (syTrace S') ph"
    and "syRun S' = syRun S \<or> syRun S \<noteq> RunNone \<and> syRun S' \<noteq> RunNone"
    and "syRun S' \<in> {RunStarting, RunClosing} \<longrightarrow> syRun S \<in> {RunStarting, RunClosing}"
    and "stopInv S'"
  shows "serverInv H W S'"
proof -
  note img = gentle_img [OF assms(2)]
  have "hellosVerified H S'" using assms(1,3,5) unfolding serverInv_def hellosVerified_def img by auto
  moreover have "pairInv H W S'" using gentle_pairInv [OF assms(2) _ assms(3)] assms(1) unfolding serverInv_def by blast
  moreover have "phaseInv S'"
    unfolding phaseInv_def
  proof (intro allI impI)
    fix c ph
    assume "fmlookup (syChannels S') c = Some ph"
    from assms(6) [OF this] show "phaseOk (sySrv S') (syTrace S') ph"
    proof
      assume "fmlookup (syChannels S) c = Some ph"
      with assms(1) have "phaseOk (sySrv S) (syTrace S) ph" unfolding serverInv_def phaseInv_def by blast
      from gentle_phase [OF assms(2) this] assms(3) show ?thesis by auto
    qed
  qed
  moreover have "runInv S'"
  proof (rule gentle_run [OF assms(2) _ assms(7)])
    show "runInv S" using assms(1) unfolding serverInv_def by blast
    then have "syRun S \<in> {RunNone, RunStarting, RunClosing} \<longrightarrow> noLaunch (syTrace S)" unfolding runInv_def by blast
    with assms(3,4,7,8) show "syRun S' \<in> {RunNone, RunStarting, RunClosing} \<longrightarrow> noLaunch (syTrace S')" by auto
  qed
  moreover have "launchInv H W S'" using assms(1,3,4) unfolding serverInv_def launchInv_def img by auto
  ultimately show ?thesis using assms(9) unfolding serverInv_def by blast
qed

lemma phaseOk_simps [simp]: "phaseOk s tr CpGreeted" "phaseOk s tr CpEnded" "phaseOk s tr (CpAcked v)" "phaseOk s tr CpDecided"
  "phaseOk s tr CpWaiting" "phaseOk s tr CpHolding"
  by (simp_all add: phaseOk_def)

text \<open>A step that changes flags of the end, phases that claim nothing, and the trace by other events.\<close>

lemma quiet_serverInv:
  assumes "serverInv H W S" "gentle (sySrv S) (sySrv S')" "mild (sySrv S) (sySrv S')"
    and "syTrace S' = syTrace S \<or> syTrace S' = syTrace S @ [ev]" "\<forall>e. ev \<noteq> SvLaunched e" "\<forall>v t. ev \<noteq> SvHello v t"
    and "\<And>c ph. fmlookup (syChannels S') c = Some ph \<Longrightarrow> fmlookup (syChannels S) c = Some ph \<or>
      ph \<in> {CpGreeted, CpEnded, CpDecided, CpWaiting, CpHolding}"
    and "syRun S' = syRun S \<or> syRun S \<notin> {RunNone, RunStopped} \<and> syRun S' \<notin> {RunNone, RunStopped}"
    and "syRun S' \<in> {RunStarting, RunClosing} \<longrightarrow> syRun S \<in> {RunStarting, RunClosing}"
    and "syProcess S' = syProcess S \<or> reapedWell (syTrace S') \<or> syProcess S' \<notin> {SpExited True, SpReported True}"
  shows "serverInv H W S'"
proof (rule gentle_serverInv [OF assms(1,2,4-6) _ _ assms(9)])
  show "fmlookup (syChannels S) c = Some ph \<or> phaseOk (sySrv S') (syTrace S') ph" if "fmlookup (syChannels S') c = Some ph" for c ph
    using assms(7) [OF that] by auto
  show "syRun S' = syRun S \<or> syRun S \<noteq> RunNone \<and> syRun S' \<noteq> RunNone" using assms(8) by auto
  show "stopInv S'"
    by (rule mild_stopInv [OF _ assms(3,4,5,10)]) (use assms(1,8) in \<open>auto simp: serverInv_def\<close>)
qed

lemma verified_role: "verifyHostedHello H v c k t \<Longrightarrow> hhRole v = ''forward'' \<or> hhRole v = ''reverse''"
  by (auto simp: verifyHostedHello_def hostedHelloSigningBytes_def Let_def split: if_splits option.splits)

lemma phase_verified: "phaseInv S \<Longrightarrow> fmlookup (syChannels S) c = Some (CpVerified v) \<Longrightarrow> \<exists>t. SvHello v t \<in> set (syTrace S)"
  unfolding phaseInv_def by (drule spec [of _ c], drule spec [of _ "CpVerified v"]) (simp add: phaseOk_def)

lemma phase_claimed: "phaseInv S \<Longrightarrow> fmlookup (syChannels S) c = Some (CpClaimed v) \<Longrightarrow>
    \<exists>p. svPair (sySrv S) = Some p \<and> (if hhRole v = ''forward'' then kpForward p \<noteq> None else kpReverse p \<noteq> None)"
  unfolding phaseInv_def by (drule spec [of _ c], drule spec [of _ "CpClaimed v"]) (simp add: phaseOk_def)

lemma phaseInv_set:
  assumes "phaseInv S" "syChannels T = syChannels S" "phaseOk (sySrv T) (syTrace T) ph"
    and "\<And>ph. phaseOk (sySrv S) (syTrace S) ph \<Longrightarrow> phaseOk (sySrv T) (syTrace T) ph"
  shows "phaseInv (setChannel c ph T)"
  unfolding phaseInv_def
proof (intro allI impI)
  fix c' ph'
  assume l: "fmlookup (syChannels (setChannel c ph T)) c' = Some ph'"
  show "phaseOk (sySrv (setChannel c ph T)) (syTrace (setChannel c ph T)) ph'"
  proof (cases "c' = c")
    case True
    with l assms(3) show ?thesis by simp
  next
    case False
    with l assms(2) have "fmlookup (syChannels S) c' = Some ph'" by simp
    with assms(1,4) show ?thesis by (simp add: phaseInv_def)
  qed
qed

lemma hello_serverInv:
  assumes "serverInv H W S" "fmlookup (syChannels S) c = Some CpGreeted"
  shows "serverInv H W (onHello H W c message S)"
proof (cases "\<exists>v. readHostedWSJSON (cnHello W) message = Some v \<and>
    verifyHostedHello H v (svChallenge (sySrv S)) (hiSigningPublicKey (svImage (sySrv S))) (syNow S)")
  case True
  then obtain v where v: "readHostedWSJSON (cnHello W) message = Some v"
    "verifyHostedHello H v (svChallenge (sySrv S)) (hiSigningPublicKey (svImage (sySrv S))) (syNow S)" by blast
  let ?S = "setChannel c (CpVerified v) (noteEvent (SvHello v (syNow S)) S)"
  have S': "onHello H W c message S = ?S" using v by (simp add: onHello_def)
  have "phaseInv ?S"
    by (rule phaseInv_set [of S]) (use assms(1) verified_role [OF v(2)] in \<open>auto simp: serverInv_def phaseOk_def [of _ _ "CpVerified v"]\<close>)
  moreover have "hellosVerified H ?S" using assms(1) v(2) by (auto simp: serverInv_def hellosVerified_def)
  moreover have "pairInv H W ?S" using assms(1) by (simp add: serverInv_def pairInv_def)
  moreover have "runInv ?S" using assms(1) by (simp add: serverInv_def runInv_def)
  moreover have "launchInv H W ?S" using assms(1) by (simp add: serverInv_def launchInv_def)
  moreover have "stopInv ?S" by (rule mild_stopInv [of S _ "SvHello v (syNow S)"]) (use assms(1) in \<open>simp_all add: serverInv_def\<close>)
  ultimately show ?thesis unfolding S' serverInv_def by blast
next
  case False
  then have "onHello H W c message S = setChannel c CpEnded S" by (auto simp: onHello_def split: option.splits)
  moreover have "serverInv H W (setChannel c CpEnded S)"
    by (rule quiet_serverInv [OF assms(1), of _ "SvProcess []"]) (auto split: if_splits)
  ultimately show ?thesis by simp
qed

text \<open>A claim installs a hello that was verified.\<close>

lemma claim_server: "claim now v c s = (ok, s') \<Longrightarrow> svImage s' = svImage s \<and> svChallenge s' = svChallenge s"
  by (auto simp: claim_def Let_def split: if_splits)

lemma claim_pair:
  assumes "claim now v c s = (ok, s')" "svPair s = None \<longrightarrow> pairOk H W img tr (newPair now v)" "\<forall>p. svPair s = Some p \<longrightarrow> pairOk H W img tr p"
    and "SvHello v t \<in> set tr" "svPair s' = Some q"
  shows "pairOk H W img tr q \<and> (\<forall>p. svPair s = Some p \<longrightarrow> kpRunning q = kpRunning p \<and> kpStopped q = kpStopped p \<and>
      kpShutdownErr q = kpShutdownErr p \<and> kpForwardAcked q = kpForwardAcked p \<and> kpReverseAcked q = kpReverseAcked p \<and>
      kpBootstrap q = kpBootstrap p \<and> (kpForward p \<noteq> None \<longrightarrow> kpForward q \<noteq> None) \<and> (kpReverse p \<noteq> None \<longrightarrow> kpReverse q \<noteq> None)) \<and>
    (svPair s = None \<longrightarrow> \<not> kpRunning q \<and> \<not> kpStopped q) \<and>
    (ok \<longrightarrow> (hhRole v = ''forward'' \<and> kpForward q \<noteq> None \<or> hhRole v = ''reverse'' \<and> kpReverse q \<noteq> None))"
proof (cases "svCancelled s")
  case True
  with assms show ?thesis by (auto simp: claim_def)
next
  case False
  define p where "p = (case svPair s of None \<Rightarrow> newPair now v | Some p \<Rightarrow> p)"
  have p: "pairOk H W img tr p" using assms(2,3) by (auto simp: p_def split: option.splits)
  have h: "helloFor tr p (hhRole v)" if "kpID p = hhPairID v" "kpBootstrapDigest p = hhBootstrapDigest v"
    using assms(4) that unfolding helloFor_def by metis
  have q: "q = p \<and> \<not> ok \<or> ok \<and> kpID p = hhPairID v \<and> kpBootstrapDigest p = hhBootstrapDigest v \<and>
      (hhRole v = ''forward'' \<and> q = p\<lparr>kpForward := Some c\<rparr> \<or> hhRole v = ''reverse'' \<and> q = p\<lparr>kpReverse := Some c\<rparr>)"
    using assms(1,5) False by (auto simp: claim_def Let_def p_def [symmetric] split: if_splits)
  have "pairOk H W img tr q"
    using q p h unfolding pairOk_def by (elim disjE conjE) (simp_all add: helloFor_def)
  with q show ?thesis by (auto simp: p_def newPair_def split: option.splits)
qed

lemma pairOk_new [simp]: "pairOk H W img tr (newPair now v)"
  by (simp add: pairOk_def newPair_def)

lemma claim_pairs: "claim now v c s = (ok, s') \<Longrightarrow> (svPair s' = None \<longrightarrow> svPair s = None \<and> \<not> ok) \<and>
    (svPair s' = None \<longrightarrow> s' = s)"
  by (auto simp: claim_def Let_def split: if_splits)

lemma claimed_serverInv:
  assumes "serverInv H W S" "fmlookup (syChannels S) c = Some (CpVerified v)"
  shows "serverInv H W (onClaim c v S)"
proof -
  obtain ok s' where cl: "claim (syNow S) v c (sySrv S) = (ok, s')" by (cases "claim (syNow S) v c (sySrv S)")
  let ?ph = "if ok then CpClaimed v else CpEnded" and ?T = "S\<lparr>sySrv := s'\<rparr>"
  have S': "onClaim c v S = setChannel c ?ph ?T" by (simp add: onClaim_def cl)
  from assms obtain t where t: "SvHello v t \<in> set (syTrace S)" using phase_verified unfolding serverInv_def by blast
  have inv: "pairInv H W S" "phaseInv S" "runInv S" "stopInv S" using assms(1) by (simp_all add: serverInv_def)
  note img = claim_server [OF cl]
  have q: "pairOk H W (svImage (sySrv S)) (syTrace S) q \<and> (\<forall>p. svPair (sySrv S) = Some p \<longrightarrow> kpRunning q = kpRunning p \<and>
      kpStopped q = kpStopped p \<and> kpShutdownErr q = kpShutdownErr p \<and> kpForwardAcked q = kpForwardAcked p \<and>
      kpReverseAcked q = kpReverseAcked p \<and> kpBootstrap q = kpBootstrap p \<and> (kpForward p \<noteq> None \<longrightarrow> kpForward q \<noteq> None) \<and>
      (kpReverse p \<noteq> None \<longrightarrow> kpReverse q \<noteq> None)) \<and>
    (svPair (sySrv S) = None \<longrightarrow> \<not> kpRunning q \<and> \<not> kpStopped q) \<and>
    (ok \<longrightarrow> (hhRole v = ''forward'' \<and> kpForward q \<noteq> None \<or> hhRole v = ''reverse'' \<and> kpReverse q \<noteq> None))"
    if "svPair s' = Some q" for q
    by (rule claim_pair [OF cl _ _ t that]) (use inv(1) in \<open>simp_all add: pairInv_def\<close>)
  have some: "\<exists>q. svPair s' = Some q" if "svPair (sySrv S) = Some p \<or> ok" for p
    using claim_pairs [OF cl] that by (cases "svPair s'") auto
  have "phaseInv (setChannel c ?ph ?T)"
  proof (rule phaseInv_set [OF inv(2)])
    show "phaseOk (sySrv ?T) (syTrace ?T) ?ph"
    proof (cases ok)
      case True
      with some obtain x where "svPair s' = Some x" by blast
      with q [OF this] True show ?thesis by (auto simp: phaseOk_def)
    qed simp
    show "phaseOk (sySrv ?T) (syTrace ?T) ph" if "phaseOk (sySrv S) (syTrace S) ph" for ph
    proof (cases ph)
      case (CpClaimed w)
      with that obtain p where p: "svPair (sySrv S) = Some p"
        "if hhRole w = ''forward'' then kpForward p \<noteq> None else kpReverse p \<noteq> None" by (auto simp: phaseOk_def)
      with some obtain x where x: "svPair s' = Some x" by blast
      have "kpForward p \<noteq> None \<longrightarrow> kpForward x \<noteq> None" "kpReverse p \<noteq> None \<longrightarrow> kpReverse x \<noteq> None" using q [OF x] p(1) by blast+
      with p(2) x show ?thesis by (simp add: phaseOk_def CpClaimed split: if_splits)
    qed (use that in \<open>simp_all add: phaseOk_def\<close>)
  qed simp
  moreover have "runInv (setChannel c ?ph ?T)"
  proof (cases "syRun S = RunNone")
    case True
    have "\<not> kpRunning x" if x: "svPair s' = Some x" for x
    proof (cases "svPair (sySrv S)")
      case None
      with q [OF x] show ?thesis by blast
    next
      case (Some p)
      with inv(3) True have "\<not> kpRunning p" by (simp add: runInv_def)
      with q [OF x] Some show ?thesis by simp
    qed
    with inv(3) True show ?thesis unfolding runInv_def by simp
  next
    case False
    with inv(3) obtain p where p: "svPair (sySrv S) = Some p" "kpRunning p" "kpForwardAcked p" "kpReverseAcked p" "kpBootstrap p \<noteq> None"
      by (auto simp: runInv_def)
    with some obtain x where "svPair s' = Some x" by blast
    with q [OF this] p inv(3) False show ?thesis unfolding runInv_def by simp
  qed
  moreover have "stopInv (setChannel c ?ph ?T)"
  proof -
    have "(kpStopped x \<longrightarrow> syRun S = RunStopped) \<and>
        (syRun S = RunStopped \<and> \<not> kpShutdownErr x \<longrightarrow> noLaunch (syTrace S) \<or> reapedWell (syTrace S))" if x: "svPair s' = Some x" for x
    proof (cases "svPair (sySrv S)")
      case None
      with inv(3) have "syRun S = RunNone" unfolding runInv_def by auto
      with q [OF x] None show ?thesis by simp
    next
      case (Some p)
      with q [OF x] inv(4) show ?thesis unfolding stopInv_def by simp
    qed
    with inv(4) show ?thesis by (simp add: stopInv_def)
  qed
  moreover have "pairInv H W (setChannel c ?ph ?T)" using q img by (simp add: pairInv_def)
  moreover have "hellosVerified H (setChannel c ?ph ?T)" using assms(1) img by (simp add: serverInv_def hellosVerified_def)
  moreover have "launchInv H W (setChannel c ?ph ?T)" using assms(1) img by (simp add: serverInv_def launchInv_def)
  ultimately show ?thesis unfolding S' serverInv_def by blast
qed

lemma acked_serverInv:
  assumes "serverInv H W S" "fmlookup (syChannels S) c = Some (CpClaimed v)"
  shows "serverInv H W (onAck c v written S)"
proof (cases written)
  case False
  then have S': "onAck c v written S = setChannel c CpEnded (modServer closePair S)" by (simp add: onAck_def)
  show ?thesis unfolding S' by (rule quiet_serverInv [OF assms(1), of _ "SvProcess []"]) (auto split: if_splits)
next
  case True
  from assms obtain p where p: "svPair (sySrv S) = Some p" "if hhRole v = ''forward'' then kpForward p \<noteq> None else kpReverse p \<noteq> None"
    using phase_claimed unfolding serverInv_def by blast
  then obtain ack where ack: "acceptedFor (sySrv S) v = Some ack" by (simp add: acceptedFor_def)
  let ?S = "setChannel c (CpAcked v) (modServer (modPair (markAcked v)) (noteEvent (SvAccepted ack) S))"
  have S': "onAck c v written S = ?S" using True ack by (simp add: onAck_def)
  have inv: "pairInv H W S" "phaseInv S" "runInv S" "stopInv S" using assms(1) by (simp_all add: serverInv_def)
  have kept: "kpForward (markAcked v p) = kpForward p" "kpReverse (markAcked v p) = kpReverse p" "kpID (markAcked v p) = kpID p"
    "kpBootstrapDigest (markAcked v p) = kpBootstrapDigest p" "kpBootstrap (markAcked v p) = kpBootstrap p"
    "kpRunning (markAcked v p) = kpRunning p" "kpStopped (markAcked v p) = kpStopped p" "kpShutdownErr (markAcked v p) = kpShutdownErr p"
    "kpForwardAcked p \<Longrightarrow> kpForwardAcked (markAcked v p)" "kpReverseAcked p \<Longrightarrow> kpReverseAcked (markAcked v p)" for p
    by (simp_all add: markAcked_def)
  have "phaseInv ?S"
    by (rule phaseInv_set [OF inv(2)]) (auto simp: phaseOk_def kept split: channelPhase.splits)
  moreover have "pairInv H W ?S"
    using inv(1) p by (auto simp: pairInv_def pairOk_def markAcked_def helloFor_def bootstrapFor_def)
  moreover have "runInv ?S" using inv(3) p by (auto simp: runInv_def kept)
  moreover have "stopInv ?S"
    by (rule mild_stopInv [OF inv(4), of _ "SvAccepted ack"]) (auto simp: kept intro: mild_modPair)
  moreover have "hellosVerified H ?S" using assms(1) by (simp add: serverInv_def hellosVerified_def)
  moreover have "launchInv H W ?S" using assms(1) by (simp add: serverInv_def launchInv_def)
  ultimately show ?thesis unfolding S' serverInv_def by blast
qed

lemma bootstrapped_serverInv:
  assumes "serverInv H W S" "fmlookup (syChannels S) c = Some (CpAcked v)"
  shows "serverInv H W (onBootstrap H W c v message S)"
proof -
  consider "hhRole v \<noteq> ''forward''"
    | "hhRole v = ''forward''" "Option.bind (svPair (sySrv S)) (\<lambda>p. receiveBootstrap H W (sySrv S) p message) = None"
    | p b where "hhRole v = ''forward''" "svPair (sySrv S) = Some p" "receiveBootstrap H W (sySrv S) p message = Some b"
    by (cases "hhRole v = ''forward''"; cases "svPair (sySrv S)"; cases "receiveBootstrap H W (sySrv S) (the (svPair (sySrv S))) message") simp_all
  then show ?thesis
  proof cases
    case 1
    then have S': "onBootstrap H W c v message S = setChannel c CpDecided S" by (simp add: onBootstrap_def)
    show ?thesis unfolding S' by (rule quiet_serverInv [OF assms(1), of _ "SvProcess []"]) (auto split: if_splits)
  next
    case 2
    then have S': "onBootstrap H W c v message S = setChannel c CpEnded (modServer closePair S)" by (simp add: onBootstrap_def)
    show ?thesis unfolding S' by (rule quiet_serverInv [OF assms(1), of _ "SvProcess []"]) (auto split: if_splits)
  next
    case 3
    then obtain data where m: "message = Some (True, data)" "Digest (heSha H) data = kpBootstrapDigest p" "cnBootstrap W data = Some b"
      "validateHostedBootstrap H (svImage (sySrv S)) b"
      by (auto simp: receiveBootstrap_def split: option.splits if_splits)
    let ?f = "\<lambda>p. p\<lparr>kpBootstrap := Some b\<rparr>"
    let ?S = "setChannel c CpDecided (modServer (modPair ?f) (noteEvent (SvBootstrap data) S))"
    have S': "onBootstrap H W c v message S = ?S" using 3 m(1) by (simp add: onBootstrap_def)
    have inv: "pairInv H W S" "phaseInv S" "runInv S" "stopInv S" using assms(1) by (simp_all add: serverInv_def)
    have "phaseInv ?S"
      by (rule phaseInv_set [OF inv(2)]) (auto simp: phaseOk_def split: channelPhase.splits)
    moreover have "pairInv H W ?S"
    proof -
      have "bootstrapFor H W (svImage (sySrv S)) (syTrace S @ [SvBootstrap data]) (kpBootstrapDigest p) b"
        using m(2-4) unfolding bootstrapFor_def by auto
      moreover have "pairOk H W (svImage (sySrv S)) (syTrace S @ [SvBootstrap data]) p" using inv(1) 3(2) by (simp add: pairInv_def)
      ultimately show ?thesis using 3(2) by (simp add: pairInv_def pairOk_def helloFor_def)
    qed
    moreover have "runInv ?S" using inv(3) 3(2) unfolding runInv_def by simp
    moreover have "stopInv ?S"
      by (rule mild_stopInv [OF inv(4), of _ "SvBootstrap data"]) (auto intro: mild_modPair)
    moreover have "hellosVerified H ?S" using assms(1) by (simp add: serverInv_def hellosVerified_def)
    moreover have "launchInv H W ?S" using assms(1) by (simp add: serverInv_def launchInv_def)
    ultimately show ?thesis unfolding S' serverInv_def by blast
  qed
qed

lemma decided_serverInv:
  assumes "serverInv H W S"
  shows "serverInv H W (onDecided c S)"
proof (cases "readyToStart (syNow S) (sySrv S)")
  case False
  then have S': "onDecided c S = setChannel c CpWaiting S" by (simp add: onDecided_def maybeStart_def)
  show ?thesis unfolding S' by (rule quiet_serverInv [OF assms, of _ "SvProcess []"]) (auto split: if_splits)
next
  case True
  then obtain p where p: "svPair (sySrv S) = Some p" "\<not> kpRunning p" "kpForwardAcked p" "kpReverseAcked p" "kpBootstrap p \<noteq> None"
    by (auto simp: readyToStart_def split: option.splits)
  let ?s = "modPair (\<lambda>p. p\<lparr>kpRunning := True\<rparr>) (sySrv S)"
  let ?S = "setChannel c CpWaiting (S\<lparr>sySrv := ?s, syRun := RunStarting\<rparr>)"
  have S': "onDecided c S = ?S" using True by (simp add: onDecided_def maybeStart_def)
  have inv: "pairInv H W S" "phaseInv S" "runInv S" "stopInv S" using assms(1) by (simp_all add: serverInv_def)
  have none: "syRun S = RunNone" using inv(3) p(1,2) unfolding runInv_def by auto
  have "phaseInv ?S" by (rule phaseInv_set [OF inv(2)]) (auto simp: phaseOk_def split: channelPhase.splits)
  moreover have "pairInv H W ?S" using inv(1) p(1) by (simp add: pairInv_def pairOk_def helloFor_def)
  moreover have "runInv ?S" using inv(3) p none unfolding runInv_def by simp
  moreover have "stopInv ?S"
    by (rule mild_stopInv [OF inv(4), of _ "SvProcess []"]) (auto simp: none intro: mild_modPair)
  moreover have "hellosVerified H ?S" using assms(1) by (simp add: serverInv_def hellosVerified_def)
  moreover have "launchInv H W ?S" using assms(1) by (simp add: serverInv_def launchInv_def)
  ultimately show ?thesis unfolding S' serverInv_def by blast
qed

lemma launched_serverInv:
  assumes "serverInv H W S" "syRun S = RunStarting"
  shows "serverInv H W (onLaunch dir started S)"
proof -
  have inv: "hellosVerified H S" "pairInv H W S" "phaseInv S" "runInv S" "launchInv H W S" "stopInv S"
    using assms(1) by (simp_all add: serverInv_def)
  from inv(4) assms(2) obtain p b where p: "svPair (sySrv S) = Some p" "kpRunning p" "kpForwardAcked p" "kpReverseAcked p" "kpBootstrap p = Some b"
    and fresh: "noLaunch (syTrace S)" unfolding runInv_def by auto
  show ?thesis
  proof (cases "startsProcess (sySrv S) started")
    case False
    then have S': "onLaunch dir started S = (modServer localFailureUnlessCancelled S)\<lparr>syRun := RunClosing\<rparr>" using p by (simp add: onLaunch_def)
    show ?thesis unfolding S' by (rule quiet_serverInv [OF assms(1), of _ "SvProcess []"]) (simp_all add: assms(2))
  next
    case True
    let ?e = "supervisorEnvironment (hcBootID (svChallenge (sySrv S))) b dir"
    let ?S = "noteEvent (SvLaunched ?e) (S\<lparr>syRun := RunHealth, syProcess := SpRunning\<rparr>)"
    have S': "onLaunch dir started S = ?S" using True p by (simp add: onLaunch_def)
    have ok: "pairOk H W (svImage (sySrv S)) (syTrace S) p" using inv(2) p(1) by (simp add: pairInv_def)
    then obtain f tf r tr where "SvHello f tf \<in> set (syTrace S)" "hhRole f = ''forward''" "SvHello r tr \<in> set (syTrace S)" "hhRole r = ''reverse''"
      "hhPairID f = kpID p" "hhPairID r = kpID p" "hhBootstrapDigest f = kpBootstrapDigest p" "hhBootstrapDigest r = kpBootstrapDigest p"
      using p unfolding pairOk_def helloFor_def by blast
    moreover have "bootstrapFor H W (svImage (sySrv S)) (syTrace S) (kpBootstrapDigest p) b" using ok p(5) unfolding pairOk_def by blast
    ultimately have "launchJustified H W (svImage (sySrv S)) (svChallenge (sySrv S)) (syTrace S) ?e"
      using inv(1) fresh unfolding launchJustified_def hellosVerified_def by metis
    then have "launchInv H W ?S" using inv(5) by (simp add: launchInv_def)
    moreover have "phaseInv ?S" using inv(3) unfolding phaseInv_def by simp
    moreover have "hellosVerified H ?S" using inv(1) by (simp add: hellosVerified_def)
    moreover have "pairInv H W ?S" using inv(2) by (simp add: pairInv_def)
    moreover have "runInv ?S" using p by (simp add: runInv_def)
    moreover have "stopInv ?S" using inv(6) assms(2) by (auto simp: stopInv_def)
    ultimately show ?thesis unfolding S' serverInv_def by blast
  qed
qed

lemma reported_well: "serverInv H W S \<Longrightarrow> syProcess S = SpExited True \<or> syProcess S = SpReported True \<Longrightarrow> reapedWell (syTrace S)"
  by (auto simp: serverInv_def stopInv_def)

text \<open>The last step of the pair's goroutine.\<close>

lemma stopped_serverInv:
  assumes "serverInv H W S" "gentle (sySrv S) s'" "syRun S \<noteq> RunNone"
    and "noLaunch (syTrace S) \<or> reapedWell (syTrace S) \<or> (\<forall>p. svPair s' = Some p \<longrightarrow> kpShutdownErr p)"
  shows "serverInv H W (S\<lparr>sySrv := s', syRun := RunStopped\<rparr>)"
proof (rule gentle_serverInv [OF assms(1), of _ "SvProcess []"])
  show "stopInv (S\<lparr>sySrv := s', syRun := RunStopped\<rparr>)"
    using assms(4) reported_well [OF assms(1)] by (auto simp: stopInv_def)
qed (use assms(2,3) in auto)

lemma join_error: "result \<noteq> Some True \<Longrightarrow> svPair (stopRun (joinSupervisor result s)) = Some p \<Longrightarrow> kpShutdownErr p"
  by (auto simp: stopRun_def joinSupervisor_def closePair_def Let_def option.map_comp)

lemma step_serverInv:
  assumes "serverStep H W S S'" "serverInv H W S"
  shows "serverInv H W S'"
  using assms
proof (induction rule: serverStep.induct)
  case (tick S now)
  show ?case by (rule quiet_serverInv [OF tick(2), of _ "SvProcess []"]) simp_all
next
  case (opened S c r origin)
  show ?case by (rule quiet_serverInv [OF opened(3), of _ "SvProcess []"]) (auto split: if_splits)
next
  case (hello S c message)
  then show ?case by (simp add: hello_serverInv)
next
  case (claimed S c v)
  then show ?case by (simp add: claimed_serverInv)
next
  case (acked S c v written)
  then show ?case by (simp add: acked_serverInv)
next
  case (bootstrapped S c v message)
  then show ?case by (simp add: bootstrapped_serverInv)
next
  case (decided S c)
  then show ?case by (simp add: decided_serverInv)
next
  case (waited S c p)
  have "onWaitOver c S = setChannel c CpHolding S \<or> onWaitOver c S = setChannel c CpHolding (modServer closePair S)"
    by (auto simp: onWaitOver_def split: option.splits)
  moreover have "serverInv H W (setChannel c CpHolding S)" "serverInv H W (setChannel c CpHolding (modServer closePair S))"
    by (rule quiet_serverInv [OF waited(4), of _ "SvProcess []"]; auto split: if_splits)+
  ultimately show ?case by metis
next
  case (timed S c p)
  show ?case unfolding onTimer_def by (rule quiet_serverInv [OF timed(4), of _ "SvProcess []"]) (auto split: if_splits)
next
  case (held S c p)
  show ?case by (rule quiet_serverInv [OF held(4), of _ "SvProcess []"]) (auto split: if_splits)
next
  case (noClient S)
  show ?case by (rule quiet_serverInv [OF noClient(2), of _ "SvProcess []"]) (simp_all add: noClient(1))
next
  case (noRelays S)
  show ?case by (rule quiet_serverInv [OF noRelays(2), of _ "SvProcess []"]) (simp_all add: noRelays(1))
next
  case (launched S dir started)
  then show ?case by (simp add: launched_serverInv)
next
  case (health S replies written)
  obtain p where p: "svPair (sySrv S) = Some p" using health unfolding serverInv_def runInv_def by auto
  consider "onHealth W replies written S = (modServer (cancelServer \<circ> localFailureUnlessCancelled) S)\<lparr>syRun := RunJoining\<rparr>"
    | "onHealth W replies written S = (modServer closePair S)\<lparr>syRun := RunJoining, syForwardReady := True\<rparr>"
    | r where "onHealth W replies written S = noteEvent (SvReady r) (S\<lparr>syRun := RunServing, syForwardReady := True\<rparr>)"
    using p by (cases "waitHostedSupervisor W replies"; cases written) (simp_all add: onHealth_def)
  then show ?case
  proof cases
    case 1
    show ?thesis unfolding 1
      by (rule quiet_serverInv [OF health(2), of _ "SvProcess []"]) (auto simp: health(1) intro: gentle_trans [OF gentle_failure(2) gentle_cancel])
  next
    case 2
    show ?thesis unfolding 2 by (rule quiet_serverInv [OF health(2), of _ "SvProcess []"]) (simp_all add: health(1))
  next
    case (3 r)
    show ?thesis unfolding 3 by (rule quiet_serverInv [OF health(2), of _ "SvReady r"]) (simp_all add: health(1))
  qed
next
  case (served S)
  show ?case by (rule quiet_serverInv [OF served(3), of _ "SvProcess []"]) (simp_all add: served(1))
next
  case (lost S)
  show ?case by (rule quiet_serverInv [OF lost(2), of _ "SvProcess []"]) simp_all
next
  case (exited S w)
  obtain ok ev where w: "waitHostedSupervisorProcess w = (ok, ev)" by (cases "waitHostedSupervisorProcess w")
  have "reapedWell (syTrace S @ [SvProcess ev])" if ok using w that unfolding reapedWell_def by (intro exI [of _ w]) simp
  then show ?case unfolding onExit_def w prod.case by (intro quiet_serverInv [OF exited(3), of _ "SvProcess ev"]) auto
next
  case (reported S ok)
  show ?case unfolding onReport_def
    by (rule quiet_serverInv [OF reported(2), of _ "SvProcess []"]) (use reported reported_well in auto)
next
  case (joined S ok)
  have "onJoined (Some ok) S = S\<lparr>sySrv := stopRun (joinSupervisor (Some ok) (sySrv S)), syRun := RunStopped\<rparr>"
    by (simp add: onJoined_def modServer_def)
  moreover have "serverInv H W (S\<lparr>sySrv := stopRun (joinSupervisor (Some ok) (sySrv S)), syRun := RunStopped\<rparr>)"
  proof (rule stopped_serverInv [OF joined(3) gentle_trans [OF gentle_join gentle_stop]])
    show "noLaunch (syTrace S) \<or> reapedWell (syTrace S) \<or>
        (\<forall>p. svPair (stopRun (joinSupervisor (Some ok) (sySrv S))) = Some p \<longrightarrow> kpShutdownErr p)"
      using joined(2) reported_well [OF joined(3)] join_error [of "Some ok"] by (cases ok) auto
  qed (simp add: joined(1))
  ultimately show ?case by simp
next
  case (expired S)
  have "onJoined None S = S\<lparr>sySrv := stopRun (joinSupervisor None (sySrv S)), syRun := RunStopped\<rparr>"
    by (simp add: onJoined_def modServer_def)
  moreover have "serverInv H W (S\<lparr>sySrv := stopRun (joinSupervisor None (sySrv S)), syRun := RunStopped\<rparr>)"
    by (rule stopped_serverInv [OF expired(2) gentle_trans [OF gentle_join gentle_stop]]) (use expired(1) join_error [of None] in auto)
  ultimately show ?case by simp
next
  case (closed S)
  have "(modServer stopRun S)\<lparr>syRun := RunStopped\<rparr> = S\<lparr>sySrv := stopRun (sySrv S), syRun := RunStopped\<rparr>" by (simp add: modServer_def)
  moreover have "serverInv H W (S\<lparr>sySrv := stopRun (sySrv S), syRun := RunStopped\<rparr>)"
    by (rule stopped_serverInv [OF closed(2) gentle_stop]) (use closed in \<open>auto simp: serverInv_def runInv_def\<close>)
  ultimately show ?case by simp
next
  case (shutdown S)
  show ?case by (rule quiet_serverInv [OF shutdown, of _ "SvProcess []"]) simp_all
qed

lemma reachable_serverInv: "serverReachable H W S \<Longrightarrow> serverInv H W S"
proof (induction rule: serverReachable.induct)
  case (start F root boot nonce cfg s now)
  then have "svPair s = None" by (auto simp: newHostedServer_def Let_def split: if_splits option.splits)
  then show ?case by (simp add: serverInv_def inv_defs)
next
  case (step S S')
  then show ?case using step_serverInv by blast
qed

section \<open>Properties\<close>

text \<open>C36: a hosted container launches at most one supervisor, and only after it accepted two hellos, one for each role, that carry its
  own challenge, verify under the configured key and name the same pair and bootstrap message, and received that message,
  complete and valid; the process gets the environment made of that message.\<close>

theorem one_supervisor:
  assumes "serverReachable H W S" "syTrace S = pre @ SvLaunched e # post"
  shows "launchJustified H W (svImage (sySrv S)) (svChallenge (sySrv S)) pre e \<and> noLaunch post"
proof -
  have l: "launchesOk (launchJustified H W (svImage (sySrv S)) (svChallenge (sySrv S))) (syTrace S)"
    using reachable_serverInv [OF assms(1)] unfolding serverInv_def launchInv_def by blast
  have "noLaunch post"
    unfolding noLaunch_def
  proof (intro allI notI)
    fix e'
    assume "SvLaunched e' \<in> set post"
    then obtain a b where "post = a @ SvLaunched e' # b" by (meson split_list)
    then have "syTrace S = (pre @ SvLaunched e # a) @ SvLaunched e' # b" using assms(2) by simp
    with l have "noLaunch (pre @ SvLaunched e # a)" unfolding launchesOk_def launchJustified_def by blast
    then show False by (auto simp: noLaunch_def)
  qed
  with l assms(2) show ?thesis unfolding launchesOk_def by blast
qed

text \<open>The signals and the reaping of a process that ended by itself, or after the first signal.\<close>

definition cleanReap :: "processWorld \<Rightarrow> processEvent list" where
  "cleanReap w = (if pwFirst w = None then [PvSignal SigTerm] else []) @ [PvSignal SigKill, PvReap]"

lemma process_ok:
  assumes "fst (waitHostedSupervisorProcess w)"
  shows "pwExitOk w \<and> 0 < pwPid w \<and> snd (waitHostedSupervisorProcess w) = cleanReap w"
  using assms by (auto simp: waitHostedSupervisorProcess_def reapLeader_def signalGroup_def cleanReap_def split: option.splits if_splits prod.splits)

text \<open>C37: a shutdown is reported as clean only when nothing is left: when closing the server reports no error and a supervisor was
  launched, it exited with success, without being killed before, and was reaped after the last signal to its group.\<close>

theorem clean_stop_reaped:
  assumes "serverReachable H W S" "closeAnswer (sySrv S) = Some True" "SvLaunched e \<in> set (syTrace S)"
  shows "\<exists>w. pwExitOk w \<and> 0 < pwPid w \<and> waitHostedSupervisorProcess w = (True, cleanReap w) \<and> SvProcess (cleanReap w) \<in> set (syTrace S)"
proof -
  note inv = reachable_serverInv [OF assms(1)]
  have launched: "\<not> noLaunch (syTrace S)" using assms(3) by (auto simp: noLaunch_def)
  with inv have run: "syRun S \<noteq> RunNone" unfolding serverInv_def runInv_def by auto
  with inv obtain p where p: "svPair (sySrv S) = Some p" "kpRunning p" unfolding serverInv_def runInv_def by auto
  with assms(2) have "kpStopped p" "\<not> kpShutdownErr p" by (auto simp: closeAnswer_def split: if_splits)
  with inv p launched have "reapedWell (syTrace S)" unfolding serverInv_def stopInv_def by blast
  then obtain w where w: "fst (waitHostedSupervisorProcess w)" "SvProcess (snd (waitHostedSupervisorProcess w)) \<in> set (syTrace S)"
    unfolding reapedWell_def by blast
  with process_ok [OF w(1)] show ?thesis by (metis prod.collapse)
qed

end
