(* ===== verification/HostedExposure.thy ===== *)
theory HostedExposure
  imports HostedGateway
begin

text \<open>
  What the gateway's durable record guarantees (\<^verbatim>\<open>src/internal/hosted/gateway.go\<close>,
  \<^verbatim>\<open>remote.go\<close>, \<^verbatim>\<open>store.go\<close>): credentials leave the process only after the record of their
  possible exposure is on disk, and a later process sends none; a session is created only after
  the attempt is on disk, and again only after a definite rejection.
\<close>

section \<open>Invariants of actions\<close>

text \<open>\<open>preserves P m\<close>: the action keeps a condition on the gateway, whatever the world answers.\<close>

definition preserves :: "(hostedGateway \<Rightarrow> bool) \<Rightarrow> 'a gatewayAction \<Rightarrow> bool" where
  "preserves P m \<longleftrightarrow> (\<forall>t g. P g \<longrightarrow> P (snd (snd (run_state m (t, g)))))"

named_theorems preserve \<open>actions that keep a condition\<close>

lemma preservesI: "(\<And>t g. P g \<Longrightarrow> P (snd (snd (run_state m (t, g))))) \<Longrightarrow> preserves P m"
  by (simp add: preserves_def)

lemma preservesD: "preserves P m \<Longrightarrow> run_state m (t, g) = (x, (t', g')) \<Longrightarrow> P g \<Longrightarrow> P g'"
  unfolding preserves_def by (metis snd_conv)

lemma preserves_return [preserve]: "preserves P (ret x)"
  by (simp add: preserves_def State_Monad.return_def)

lemma preserves_bind [preserve]:
  assumes "preserves P m" "\<And>x. preserves P (k x)"
  shows "preserves P (m \<bind> k)"
proof (rule preservesI)
  fix t g assume g: "P g"
  obtain x t' g' where m: "run_state m (t, g) = (x, (t', g'))" by (metis prod.exhaust)
  have "P g'" using preservesD [OF assms(1) m g] .
  with assms(2) [of x] m show "P (snd (snd (run_state (m \<bind> k) (t, g))))"
    by (simp add: State_Monad.bind_def preserves_def)
qed

lemma preserves_query [preserve]: "preserves P (query f)"
  by (simp add: preserves_def query_def)

lemma preserves_current [preserve]: "preserves P current"
  by (simp add: preserves_def current_def)

lemma preserves_if [preserve]: "preserves P m \<Longrightarrow> preserves P n \<Longrightarrow> preserves P (if c then m else n)"
  by simp

lemma preserves_option [preserve]: "preserves P m \<Longrightarrow> (\<And>x. preserves P (k x)) \<Longrightarrow>
    preserves P (case o' of None \<Rightarrow> m | Some x \<Rightarrow> k x)"
  by (cases o') simp_all

lemma preserves_prod [preserve]: "(\<And>x y. preserves P (k x y)) \<Longrightarrow> preserves P (case p of (x, y) \<Rightarrow> k x y)"
  by (cases p) simp

lemma preserves_Let [preserve]: "preserves P (k x) \<Longrightarrow> preserves P (let y = x in k y)"
  by simp

lemma preserves_note: "(\<And>g. P g \<Longrightarrow> P (g\<lparr>gwTrace := gwTrace g @ [ev]\<rparr>)) \<Longrightarrow> preserves P (note' ev)"
  by (simp add: preserves_def note'_def)

lemma preserves_save:
  assumes "\<And>g d. P g \<Longrightarrow> d = gwDisk g \<or> d = Some (gatewayLedgerJSON (change (gwLedger g))) \<Longrightarrow> P (g\<lparr>gwDisk := d\<rparr>)"
    "\<And>g. P g \<Longrightarrow> P (g\<lparr>gwDisk := Some (gatewayLedgerJSON (change (gwLedger g))), gwLedger := change (gwLedger g),
        gwTrace := gwTrace g @ [GvSaved (change (gwLedger g))]\<rparr>)"
  shows "preserves P (saveNext W change)"
proof (rule preservesI)
  fix t g assume g: "P g"
  obtain ok d where s: "saveGateway (gvIO W t) (change (gwLedger g)) (gwDisk g) = (ok, d)" by fastforce
  show "P (snd (snd (run_state (saveNext W change) (t, g))))"
  proof (cases ok)
    case True
    with s assms(2) [OF g] saveGateway_ok show ?thesis by (simp add: saveNext_def)
  next
    case False
    with s assms(1) [OF g] saveGateway_cases [OF s] show ?thesis by (simp add: saveNext_def)
  qed
qed

section \<open>No bootstrap before the record\<close>

definition bootstraps :: "gatewayEvent list \<Rightarrow> string list" where
  "bootstraps tr = [b. GvBootstrap b \<leftarrow> tr]"

lemma bootstraps_append [simp]: "bootstraps (tr @ tr') = bootstraps tr @ bootstraps tr'"
  by (simp add: bootstraps_def)

lemma bootstraps_simps [simp]: "bootstraps [] = []" "bootstraps [GvRequest r] = []" "bootstraps [GvReplied r n] = []" "bootstraps [GvDialed s] = []"
  "bootstraps [GvSaved l] = []" "bootstraps [GvHello h] = []" "bootstraps [GvBootstrap b] = [b]"
  by (simp_all add: bootstraps_def)

definition quiet :: "hostedGateway \<Rightarrow> bool" where
  "quiet g \<longleftrightarrow> bootstraps (gwTrace g) = []"

lemma quiet_save [preserve]: "preserves quiet (saveNext W change)"
  by (rule preserves_save) (simp_all add: quiet_def)

lemma quiet_note [preserve]: "preserves quiet (note' (GvRequest r))" "preserves quiet (note' (GvReplied r n))" "preserves quiet (note' (GvDialed s))"
  "preserves quiet (note' (GvHello h))"
  by (rule preserves_note; simp add: quiet_def)+

lemma quiet_token [preserve]: "preserves quiet (accessToken W H)"
  unfolding accessToken_def by (intro preserve)

lemma quiet_prepare [preserve]: "preserves quiet (prepareRemoteJSON W H cfg method suffix body)"
  unfolding prepareRemoteJSON_def by (intro preserve)

lemma quiet_send [preserve]: "preserves quiet (sendRemoteJSON W decode r)"
  unfolding sendRemoteJSON_def by (intro preserve)

lemma quiet_json [preserve]: "preserves quiet (gatewayJSON W H cfg method suffix body decode)"
  unfolding gatewayJSON_def by (intro preserve)

lemma quiet_steps [preserve]: "preserves quiet (validateRemote W H cfg)" "preserves quiet (ensureSession W H cfg)"
  "preserves quiet (openChannel W H cfg role)" "preserves quiet (signChannel W H key c pair digest role)"
  unfolding validateRemote_def ensureSession_def createSession_def openChannel_def signChannel_def
  by (intro preserve)+

section \<open>The record of exposure\<close>

definition exposes :: "string \<Rightarrow> hostedGatewayLedger \<Rightarrow> bool" where
  "exposes digest l \<longleftrightarrow> glExposurePossible l \<and> glBootstrapDigest l = digest"

definition recorded :: "string \<Rightarrow> hostedGateway \<Rightarrow> bool" where
  "recorded digest g \<longleftrightarrow> exposes digest (gwLedger g) \<and> (\<exists>l. gwDisk g = Some (gatewayLedgerJSON l) \<and> exposes digest l)"

text \<open>The body was sent once, after a saved ledger that records its exposure.\<close>

definition sentAfterRecord :: "string \<Rightarrow> string \<Rightarrow> gatewayEvent list \<Rightarrow> bool" where
  "sentAfterRecord digest body tr \<longleftrightarrow> bootstraps tr = [body] \<and>
     (\<exists>before after l. tr = before @ GvBootstrap body # after \<and> GvSaved l \<in> set before \<and> exposes digest l)"

definition exposed :: "string \<Rightarrow> string \<Rightarrow> hostedGateway \<Rightarrow> bool" where
  "exposed digest body g \<longleftrightarrow> recorded digest g \<and> sentAfterRecord digest body (gwTrace g)"

lemma sentAfterRecord_append: "sentAfterRecord digest body tr \<Longrightarrow> bootstraps tr' = [] \<Longrightarrow> sentAfterRecord digest body (tr @ tr')"
proof -
  assume s: "sentAfterRecord digest body tr" and q: "bootstraps tr' = []"
  from s obtain before after l where "tr = before @ GvBootstrap body # after" "GvSaved l \<in> set before" "exposes digest l"
    by (auto simp: sentAfterRecord_def)
  then have "tr @ tr' = before @ GvBootstrap body # (after @ tr') \<and> GvSaved l \<in> set before \<and> exposes digest l" by simp
  moreover have "bootstraps (tr @ tr') = [body]" using s q by (simp add: sentAfterRecord_def)
  ultimately show ?thesis unfolding sentAfterRecord_def by blast
qed

lemma sentAfterRecord_first:
  assumes "bootstraps tr = []" "exposes digest l"
  shows "sentAfterRecord digest body (tr @ [GvSaved l, GvBootstrap body])"
proof -
  have "bootstraps (tr @ [GvSaved l, GvBootstrap body]) = [body]"
    using assms(1) unfolding bootstraps_append by (simp add: bootstraps_def)
  moreover have "tr @ [GvSaved l, GvBootstrap body] = (tr @ [GvSaved l]) @ GvBootstrap body # [] \<and>
      GvSaved l \<in> set (tr @ [GvSaved l]) \<and> exposes digest l" using assms(2) by simp
  ultimately show ?thesis unfolding sentAfterRecord_def by blast
qed

lemma exposed_ready: "preserves (exposed digest body) (saveNext W (\<lambda>l. l\<lparr>glReady := True\<rparr>))"
proof (rule preserves_save)
  have keep: "exposes digest (l\<lparr>glReady := True\<rparr>) \<longleftrightarrow> exposes digest l" for l by (simp add: exposes_def)
  fix g assume g: "exposed digest body g"
  then show "exposed digest body (g\<lparr>gwDisk := d\<rparr>)"
    if "d = gwDisk g \<or> d = Some (gatewayLedgerJSON ((gwLedger g)\<lparr>glReady := True\<rparr>))" for d
    using that keep by (auto simp: exposed_def recorded_def)
  from g show "exposed digest body (g\<lparr>gwDisk := Some (gatewayLedgerJSON ((gwLedger g)\<lparr>glReady := True\<rparr>)),
      gwLedger := (gwLedger g)\<lparr>glReady := True\<rparr>, gwTrace := gwTrace g @ [GvSaved ((gwLedger g)\<lparr>glReady := True\<rparr>)]\<rparr>)"
    using keep sentAfterRecord_append [of digest body "gwTrace g"] by (auto simp: exposed_def recorded_def)
qed

lemma run_bind: "run_state (m \<bind> k) s = (case run_state m s of (x, s') \<Rightarrow> run_state (k x) s')"
  by (simp add: State_Monad.bind_def)

lemma expose_exposed:
  assumes "quiet g" "run_state (expose W cfg body challenge pairID digest) (t, g) = (ok, (t', g'))"
  shows "quiet g' \<or> exposed digest body g'"
proof -
  let ?change = "\<lambda>l. l\<lparr>glExposurePossible := True, glChallenge := challenge, glPairID := pairID, glBootstrapDigest := digest\<rparr>"
  obtain saved d where s: "saveGateway (gvIO W t) (?change (gwLedger g)) (gwDisk g) = (saved, d)" by fastforce
  show ?thesis
  proof (cases saved)
    case False
    with s assms show ?thesis by (auto simp: expose_def run_bind saveNext_def quiet_def State_Monad.return_def)
  next
    case True
    let ?g1 = "g\<lparr>gwDisk := d, gwLedger := ?change (gwLedger g), gwTrace := gwTrace g @ [GvSaved (?change (gwLedger g))]\<rparr>"
    let ?g2 = "?g1\<lparr>gwTrace := gwTrace ?g1 @ [GvBootstrap body]\<rparr>"
    have d: "d = Some (gatewayLedgerJSON (?change (gwLedger g)))" using s True saveGateway_ok [of "gvIO W t" "?change (gwLedger g)" "gwDisk g" d] by simp
    have ex: "exposes digest (?change (gwLedger g))" by (simp add: exposes_def)
    have "sentAfterRecord digest body (gwTrace ?g2)"
      using sentAfterRecord_first [of "gwTrace g" digest "?change (gwLedger g)" body] assms(1) ex by (simp add: quiet_def)
    then have g2: "exposed digest body ?g2" using d ex by (auto simp: exposed_def recorded_def)
    define rest where "rest = do {
       written \<leftarrow> query (gvWrite W);
       if \<not> written then ret False else do {
         message \<leftarrow> query (gvRead W);
         if (case message of None \<Rightarrow> True | Some data \<Rightarrow> gvReadyMessage W data \<noteq> Some \<lparr>hrProtocol = hostedProtocol,
             hrPairID = pairID, hrBootID = hcBootID challenge, hrReady = True\<rparr>) then ret False else do {
           client \<leftarrow> query (gvHTTP2 W);
           if \<not> client then ret False else do {
             capable \<leftarrow> validateCapabilities W cfg;
             if \<not> capable then ret False else do {
               recorded \<leftarrow> saveNext W (\<lambda>l. l\<lparr>glReady := True\<rparr>);
               ret recorded}}}}}"
    have rest: "preserves (exposed digest body) rest"
      unfolding rest_def validateCapabilities_def by (intro preserve exposed_ready)
    have "run_state (expose W cfg body challenge pairID digest) (t, g) = run_state rest (Suc t, ?g2)"
      using s True by (simp add: expose_def rest_def run_bind saveNext_def note'_def)
    with assms(2) preservesD [OF rest _ g2] show ?thesis by simp
  qed
qed

lemma initialize_exposed:
  assumes "quiet g" "run_state (initialize W H proxiesOk settings) (t, g) = (ok, (t', g'))"
  shows "quiet g' \<or> exposed (Digest (heSha H) (bootstrapJSON (hsBootstrap settings))) (bootstrapJSON (hsBootstrap settings)) g'"
proof -
  let ?D = "Digest (heSha H) (bootstrapJSON (hsBootstrap settings))" and ?B = "bootstrapJSON (hsBootstrap settings)"
  define leads :: "bool gatewayAction \<Rightarrow> bool" where
    "leads m \<longleftrightarrow> (\<forall>t g. quiet g \<longrightarrow> (let g' = snd (snd (run_state m (t, g))) in quiet g' \<or> exposed ?D ?B g'))" for m
  have bind: "leads (m \<bind> k)" if "preserves quiet m" "\<And>x. leads (k x)" for m :: "'x gatewayAction" and k
    using that unfolding leads_def preserves_def run_bind by (auto simp: Let_def split: prod.split) (metis snd_conv)+
  have stop: "leads (ret False)" by (simp add: leads_def State_Monad.return_def)
  have last: "leads (expose W cfg ?B c p ?D)" for cfg c p
    unfolding leads_def Let_def using expose_exposed by (metis prod.collapse)
  have branch: "leads (if c then m else n)" if "leads m" "leads n" for c m n using that by simp
  have opt: "leads (case o' of None \<Rightarrow> m | Some x \<Rightarrow> k x)" if "leads m" "\<And>x. leads (k x)" for o' m and k :: "hostedChallenge \<Rightarrow> _"
    using that by (cases o') simp_all
  have "leads (initialize W H proxiesOk settings)"
    unfolding initialize_def Let_def by (intro bind branch stop last opt preserve)
  with assms show ?thesis unfolding leads_def Let_def by (metis snd_conv)
qed

section \<open>The record of the creation attempt\<close>

definition posts :: "gatewayEvent list \<Rightarrow> remoteRequest list" where
  "posts tr = filter (\<lambda>r. rmMethod r = ''POST'') [r. GvRequest r \<leftarrow> tr]"

lemma posts_append [simp]: "posts (tr @ tr') = posts tr @ posts tr'"
  by (simp add: posts_def)

lemma posts_simps [simp]: "posts [] = []" "posts [GvRequest r] = (if rmMethod r = ''POST'' then [r] else [])"
  "posts [GvReplied r n] = []" "posts [GvDialed s] = []" "posts [GvSaved l] = []" "posts [GvHello h] = []"
  "posts [GvBootstrap b] = []"
  by (simp_all add: posts_def)

definition rejected :: "remoteRequest \<Rightarrow> gatewayEvent list \<Rightarrow> bool" where
  "rejected r tr \<longleftrightarrow> (\<exists>status. GvReplied r status \<in> set tr \<and> DefiniteRejection status)"

definition attempted :: "hostedGateway \<Rightarrow> bool" where
  "attempted g \<longleftrightarrow> glCreateAttempted (gwLedger g) \<and> (\<exists>l. gwDisk g = Some (gatewayLedgerJSON l) \<and> glCreateAttempted l)"

definition postedAfterRecord :: "remoteRequest \<Rightarrow> gatewayEvent list \<Rightarrow> bool" where
  "postedAfterRecord r tr \<longleftrightarrow> posts tr = [r] \<and>
     (\<exists>before after l. tr = before @ GvRequest r # after \<and> GvSaved l \<in> set before \<and> glCreateAttempted l)"

text \<open>No creation was requested, or one was, after its record, which stays unless it was rejected.\<close>

definition creation :: "hostedGateway \<Rightarrow> bool" where
  "creation g \<longleftrightarrow> posts (gwTrace g) = [] \<or>
     (\<exists>r. postedAfterRecord r (gwTrace g) \<and> (attempted g \<or> rejected r (gwTrace g)))"

definition noPost :: "hostedGateway \<Rightarrow> bool" where
  "noPost g \<longleftrightarrow> posts (gwTrace g) = []"

lemma postedAfterRecord_append: "postedAfterRecord r tr \<Longrightarrow> posts tr' = [] \<Longrightarrow> postedAfterRecord r (tr @ tr')"
proof -
  assume s: "postedAfterRecord r tr" and q: "posts tr' = []"
  from s obtain before after l where "tr = before @ GvRequest r # after" "GvSaved l \<in> set before" "glCreateAttempted l"
    by (auto simp: postedAfterRecord_def)
  then have "tr @ tr' = before @ GvRequest r # (after @ tr') \<and> GvSaved l \<in> set before \<and> glCreateAttempted l" by simp
  moreover have "posts (tr @ tr') = [r]" using s q by (simp add: postedAfterRecord_def)
  ultimately show ?thesis unfolding postedAfterRecord_def by blast
qed

lemma rejected_append: "rejected r tr \<Longrightarrow> rejected r (tr @ tr')"
  by (auto simp: rejected_def)

lemma creation_mono:
  assumes "creation g" "gwTrace g' = gwTrace g @ tr" "posts tr = []" "attempted g \<Longrightarrow> attempted g'"
  shows "creation g'"
proof (cases "posts (gwTrace g) = []")
  case True
  with assms show ?thesis by (simp add: creation_def)
next
  case False
  with assms(1) obtain r where r: "postedAfterRecord r (gwTrace g)" "attempted g \<or> rejected r (gwTrace g)"
    by (auto simp: creation_def)
  have "postedAfterRecord r (gwTrace g')" unfolding assms(2) by (rule postedAfterRecord_append [OF r(1) assms(3)])
  moreover have "attempted g' \<or> rejected r (gwTrace g')" using r(2) assms(4) rejected_append unfolding assms(2) by blast
  ultimately show ?thesis by (auto simp: creation_def)
qed

lemma creation_note: "posts [ev] = [] \<Longrightarrow> preserves creation (note' ev)"
  by (rule preserves_note) (erule creation_mono [where tr = "[ev]"]; simp add: attempted_def)

lemma creation_save:
  assumes keep: "\<And>l. glCreateAttempted (change l) = glCreateAttempted l"
  shows "preserves creation (saveNext W change)"
proof (rule preserves_save)
  fix g assume g: "creation g"
  then show "creation (g\<lparr>gwDisk := d\<rparr>)" if "d = gwDisk g \<or> d = Some (gatewayLedgerJSON (change (gwLedger g)))" for d
    by (rule creation_mono [where tr = "[]"]) (use that keep in \<open>auto simp: attempted_def\<close>)
  from g show "creation (g\<lparr>gwDisk := Some (gatewayLedgerJSON (change (gwLedger g))), gwLedger := change (gwLedger g),
      gwTrace := gwTrace g @ [GvSaved (change (gwLedger g))]\<rparr>)"
    by (rule creation_mono [where tr = "[GvSaved (change (gwLedger g))]"]) (use keep in \<open>auto simp: attempted_def\<close>)
qed

lemma noPost_note: "posts [ev] = [] \<Longrightarrow> preserves noPost (note' ev)"
  by (rule preserves_note) (simp add: noPost_def)

lemma noPost_save: "preserves noPost (saveNext W change)"
  by (rule preserves_save) (simp_all add: noPost_def)

text \<open>A condition kept by every event but a POST and by every save that keeps the attempt.\<close>

definition steady :: "(hostedGateway \<Rightarrow> bool) \<Rightarrow> bool" where
  "steady P \<longleftrightarrow> (\<forall>ev. posts [ev] = [] \<longrightarrow> preserves P (note' ev)) \<and>
     (\<forall>W change. (\<forall>l. glCreateAttempted (change l) = glCreateAttempted l) \<longrightarrow> preserves P (saveNext W change))"

lemma steady_creation: "steady creation" and steady_noPost: "steady noPost"
  unfolding steady_def using creation_note creation_save noPost_note noPost_save by blast+

lemma steady_events:
  assumes "steady P"
  shows "preserves P (note' (GvDialed role))" "preserves P (note' (GvHello h))" "preserves P (note' (GvBootstrap b))"
    "preserves P (note' (GvReplied r n))"
    "preserves P (saveNext W (\<lambda>l. l\<lparr>glPrincipalDigest := digest\<rparr>))" "preserves P (saveNext W (\<lambda>l. l\<lparr>glReady := True\<rparr>))"
    "preserves P (saveNext W (\<lambda>l. l\<lparr>glSessionCreated := True\<rparr>))"
    "preserves P (saveNext W (\<lambda>l. l\<lparr>glExposurePossible := True, glChallenge := c, glPairID := p, glBootstrapDigest := d\<rparr>))"
  using assms unfolding steady_def by simp_all

lemma steady_token: "steady P \<Longrightarrow> preserves P (accessToken W H)"
  unfolding accessToken_def by (intro preserve steady_events)

lemma steady_prepare: "steady P \<Longrightarrow> preserves P (prepareRemoteJSON W H cfg method suffix body)"
  unfolding prepareRemoteJSON_def by (intro preserve steady_token)

lemma prepare_method:
  assumes "run_state (prepareRemoteJSON W H cfg method suffix body) s = (Some r, s')"
  shows "rmMethod r = method"
  using assms by (auto simp: prepareRemoteJSON_def run_bind State_Monad.return_def split: if_splits prod.splits option.splits)

lemma steady_send:
  assumes "steady P" "rmMethod r \<noteq> ''POST''"
  shows "preserves P (sendRemoteJSON W decode r)"
proof -
  have "preserves P (note' (GvRequest r))" using assms by (simp add: steady_def)
  then show ?thesis unfolding sendRemoteJSON_def by (intro preserve steady_events assms(1))
qed

lemma steady_get: "steady P \<Longrightarrow> preserves P (gatewayJSON W H cfg ''GET'' suffix body decode)"
proof (rule preservesI)
  fix t g assume P: "steady P" and g: "P g"
  obtain o' t1 g1 where p: "run_state (prepareRemoteJSON W H cfg ''GET'' suffix body) (t, g) = (o', (t1, g1))"
    by (metis prod.exhaust)
  have g1: "P g1" using preservesD [OF steady_prepare [OF P] p g] .
  show "P (snd (snd (run_state (gatewayJSON W H cfg ''GET'' suffix body decode) (t, g))))"
  proof (cases o')
    case None
    with p g1 show ?thesis by (simp add: gatewayJSON_def run_bind State_Monad.return_def)
  next
    case (Some r)
    with prepare_method [of W H cfg "''GET''" suffix body "(t, g)" r] p have "rmMethod r \<noteq> ''POST''" by simp
    with steady_send [OF P, of r W decode] g1 p Some show ?thesis by (simp add: gatewayJSON_def run_bind preserves_def)
  qed
qed

lemma steady_steps:
  assumes "steady P"
  shows "preserves P (validateRemote W H cfg)" "preserves P (openChannel W H cfg role)"
    "preserves P (signChannel W H key c pair digest role)" "preserves P (expose W cfg body c pair digest)"
  unfolding validateRemote_def openChannel_def signChannel_def expose_def validateCapabilities_def
  by (intro preserve steady_events steady_token steady_get assms)+

lemma send_trace:
  assumes "run_state (sendRemoteJSON W decode r) (t, g) = ((status, err, x), (t', g'))"
  shows "\<exists>tr. g' = g\<lparr>gwTrace := gwTrace g @ GvRequest r # tr\<rparr> \<and> posts tr = [] \<and> (\<not> err \<longrightarrow> GvReplied r status \<in> set tr)"
proof (cases "gvSend W t r")
  case None
  with assms show ?thesis
    by (auto simp: sendRemoteJSON_def run_bind note'_def query_def State_Monad.return_def intro: exI [of _ "[]"])
next
  case (Some reply)
  with assms show ?thesis
    by (auto simp: sendRemoteJSON_def run_bind note'_def query_def State_Monad.return_def split: if_splits option.splits
        intro: exI [of _ "[]"] exI [of _ "[GvReplied r (ryStatus reply)]"])
qed

definition refusal :: "remoteRequest \<Rightarrow> hostedGateway \<Rightarrow> bool" where
  "refusal r g \<longleftrightarrow> postedAfterRecord r (gwTrace g) \<and> rejected r (gwTrace g)"

lemma refusal_save: "preserves (refusal r) (saveNext W change)"
  by (rule preserves_save) (auto simp: refusal_def rejected_append intro: postedAfterRecord_append)

lemma createSession_creation:
  assumes "noPost g" "run_state (createSession W H cfg) (t, g) = (ok, (t', g'))"
  shows "creation g'"
proof -
  have start: "creation h" if "noPost h" for h using that by (simp add: creation_def noPost_def)
  let ?prepare = "prepareRemoteJSON W H cfg ''POST'' ''/endpoint/sessions'' (createBody cfg)"
  let ?mark = "\<lambda>l. l\<lparr>glCreateAttempted := True\<rparr>"
  obtain o' t1 g1 where p: "run_state ?prepare (t, g) = (o', (t1, g1))" by (metis prod.exhaust)
  have g1: "noPost g1" using preservesD [OF steady_prepare [OF steady_noPost] p assms(1)] .
  show ?thesis
  proof (cases "o' = None \<or> gvDone W t1")
    case True
    with p assms(2) start [OF g1] show ?thesis
      by (auto simp: createSession_def run_bind query_def State_Monad.return_def split: option.splits)
  next
    case False
    then obtain r where r: "o' = Some r" and go: "\<not> gvDone W t1" by auto
    have post: "rmMethod r = ''POST''" using prepare_method p r by metis
    obtain saved d where s: "saveGateway (gvIO W (Suc t1)) (?mark (gwLedger g1)) (gwDisk g1) = (saved, d)" by fastforce
    show ?thesis
    proof (cases saved)
      case False
      with p r go s assms(2) g1 show ?thesis
        by (auto simp: createSession_def run_bind query_def saveNext_def State_Monad.return_def creation_def noPost_def)
    next
      case True
      let ?g2 = "g1\<lparr>gwDisk := d, gwLedger := ?mark (gwLedger g1), gwTrace := gwTrace g1 @ [GvSaved (?mark (gwLedger g1))]\<rparr>"
      obtain status err session t3 g3 where send: "run_state (sendRemoteJSON W (gvSession W noSession) r) (Suc (Suc t1), ?g2) =
          ((status, err, session), (t3, g3))" by (metis prod.exhaust)
      from send_trace [OF this] obtain tr where g3: "g3 = ?g2\<lparr>gwTrace := gwTrace ?g2 @ GvRequest r # tr\<rparr>" "posts tr = []"
        and replied: "\<not> err \<longrightarrow> GvReplied r status \<in> set tr" by blast
      have "posts (gwTrace g3) = [r]" using g1 post g3(2) unfolding g3(1)
        by (simp add: noPost_def) (simp add: posts_def)
      moreover have "gwTrace g3 = (gwTrace g1 @ [GvSaved (?mark (gwLedger g1))]) @ GvRequest r # tr" by (simp add: g3(1))
      moreover have "glCreateAttempted (?mark (gwLedger g1))" by simp
      ultimately have sent: "postedAfterRecord r (gwTrace g3)" unfolding postedAfterRecord_def by (metis in_set_conv_decomp)
      have "d = Some (gatewayLedgerJSON (?mark (gwLedger g1)))"
        using saveGateway_ok [of "gvIO W (Suc t1)" "?mark (gwLedger g1)" "gwDisk g1" d] s True by simp
      then have att: "attempted g3" by (auto simp: attempted_def g3(1))
      then have c3: "creation g3" using sent by (auto simp: creation_def)
      define tail where "tail = (
         if \<not> err \<and> DefiniteRejection status then do {
           cleared \<leftarrow> saveNext W (\<lambda>l. l\<lparr>glCreateAttempted := False\<rparr>);
           ret False}
         else if err \<or> status \<noteq> 201 \<or> \<not> (case session of None \<Rightarrow> False | Some s \<Rightarrow> sessionMatches cfg s) then ret False
         else do {
           recorded \<leftarrow> saveNext W (\<lambda>l. l\<lparr>glSessionCreated := True\<rparr>);
           if \<not> recorded then ret False else do {
             final \<leftarrow> gatewayJSON W H cfg ''GET'' (SessionSuffix (hgSessionID cfg)) []
               (gvSession W (case session of None \<Rightarrow> noSession | Some s \<Rightarrow> s));
             ret (sessionActive cfg final)}})"
      have run: "run_state tail (t3, g3) = (ok, (t', g'))"
        using assms(2) p r go s True send
        by (simp add: createSession_def run_bind query_def saveNext_def tail_def)
      show ?thesis
      proof (cases "\<not> err \<and> DefiniteRejection status")
        case True
        then have "rejected r (gwTrace g3)" using replied by (auto simp: rejected_def g3(1))
        then have ref: "refusal r g3" using sent by (simp add: refusal_def)
        have "preserves (refusal r) tail" using True unfolding tail_def by (simp add: preserves_bind refusal_save preserves_return)
        from preservesD [OF this run ref] show ?thesis by (auto simp: refusal_def creation_def)
      next
        case False
        then have "preserves creation tail" unfolding tail_def if_not_P [OF False]
          by (intro preserve steady_events steady_get steady_creation)
        from preservesD [OF this run c3] show ?thesis .
      qed
    qed
  qed
qed

lemma ensureSession_creation:
  assumes "noPost g" "run_state (ensureSession W H cfg) (t, g) = (ok, (t', g'))"
  shows "creation g'"
proof -
  have start: "creation h" if "noPost h" for h using that by (simp add: creation_def noPost_def)
  let ?get = "gatewayJSON W H cfg ''GET'' (SessionSuffix (hgSessionID cfg)) [] (gvSession W noSession)"
  obtain status err session t1 g1 where j: "run_state ?get (t, g) = ((status, err, session), (t1, g1))" by (metis prod.exhaust)
  have g1: "noPost g1" using preservesD [OF steady_get [OF steady_noPost] j assms(1)] .
  from assms(2) j have "(g' = g \<or> g' = g1) \<or> run_state (createSession W H cfg) (t1, g1) = (ok, (t', g'))"
    by (auto simp: ensureSession_def run_bind current_def State_Monad.return_def split: if_splits)
  then show ?thesis using start [OF assms(1)] start [OF g1] createSession_creation [OF g1] by blast
qed

lemma initialize_creation:
  assumes "noPost g" "run_state (initialize W H proxiesOk settings) (t, g) = (ok, (t', g'))"
  shows "creation g'"
proof -
  define leads :: "bool gatewayAction \<Rightarrow> bool" where
    "leads m \<longleftrightarrow> (\<forall>t g. noPost g \<longrightarrow> creation (snd (snd (run_state m (t, g)))))" for m
  have early: "leads (m \<bind> k)" if "preserves noPost m" "\<And>x. leads (k x)" for m :: "'x gatewayAction" and k
    using that unfolding leads_def preserves_def run_bind by (auto split: prod.split) (metis snd_conv)+
  have late: "leads (m \<bind> k)" if "leads m" "\<And>x. preserves creation (k x)" for m k
    using that unfolding leads_def preserves_def run_bind by (auto split: prod.split) (metis snd_conv)+
  have stop: "leads (ret False)" by (simp add: leads_def State_Monad.return_def creation_def noPost_def)
  have branch: "leads (if c then m else n)" if "leads m" "leads n" for c m n using that by simp
  have session: "leads (ensureSession W H (hsConfig settings))"
    unfolding leads_def using ensureSession_creation by (metis prod.collapse)
  have "leads (initialize W H proxiesOk settings)"
    unfolding initialize_def Let_def
    by (intro branch stop) (rule early [OF steady_steps(1) [OF steady_noPost]], intro branch stop,
      rule late [OF session], intro preserve steady_steps steady_creation)
  with assms show ?thesis unfolding leads_def by (metis snd_conv)
qed

text \<open>From a ledger with a recorded attempt no creation is requested.\<close>

definition noAttempt :: "hostedGateway \<Rightarrow> bool" where
  "noAttempt g \<longleftrightarrow> noPost g \<and> glCreateAttempted (gwLedger g)"

lemma steady_noAttempt: "steady noAttempt"
  unfolding steady_def
proof (intro conjI allI impI)
  fix ev assume "posts [ev] = []"
  then show "preserves noAttempt (note' ev)" by (intro preserves_note) (simp add: noAttempt_def noPost_def)
next
  fix W and change :: "hostedGatewayLedger \<Rightarrow> hostedGatewayLedger"
  assume "\<forall>l. glCreateAttempted (change l) = glCreateAttempted l"
  then show "preserves noAttempt (saveNext W change)" by (intro preserves_save) (simp_all add: noAttempt_def noPost_def)
qed

lemma ensureSession_noAttempt: "preserves noAttempt (ensureSession W H cfg)"
proof (rule preservesI)
  fix t g assume g: "noAttempt g"
  let ?get = "gatewayJSON W H cfg ''GET'' (SessionSuffix (hgSessionID cfg)) [] (gvSession W noSession)"
  obtain status err session t1 g1 where j: "run_state ?get (t, g) = ((status, err, session), (t1, g1))" by (metis prod.exhaust)
  have "noAttempt g1" using preservesD [OF steady_get [OF steady_noAttempt] j g] .
  with g j show "noAttempt (snd (snd (run_state (ensureSession W H cfg) (t, g))))"
    by (auto simp: ensureSession_def run_bind current_def State_Monad.return_def noAttempt_def)
qed

lemma initialize_noAttempt: "preserves noAttempt (initialize W H proxiesOk settings)"
  unfolding initialize_def Let_def by (intro preserve ensureSession_noAttempt steady_steps steady_noAttempt)

section \<open>Closing\<close>

lemma closeGateway_trace [simp]: "gwTrace (closeGateway io g) = gwTrace g"
  by (simp add: closeGateway_def Let_def)

lemma closeGateway_disk: "gwDisk (closeGateway io g) = gwDisk g \<or>
    glExposurePossible (gwLedger g) \<and> gwDisk (closeGateway io g) = Some (gatewayLedgerJSON ((gwLedger g)\<lparr>glClosed := True\<rparr>))"
  using saveGateway_cases [of io "(gwLedger g)\<lparr>glClosed := True\<rparr>" "gwDisk g"]
  by (auto simp: closeGateway_def Let_def) (metis prod.collapse)

text \<open>A start ends with the trace of its initialisation, or without any event.\<close>

lemma newHostedGateway_run:
  assumes "newHostedGateway W H F pk settings (opened, d0) = (r, tr, d)"
  obtains (refused) "r = None" "tr = []" "d = d0"
  | (ran) l ok t g where "opened = Some l" "\<not> glExposurePossible l"
      "run_state (initialize W H pk settings) (0, \<lparr>gwLedger = l, gwDisk = d0, gwReady = False, gwClosed = False, gwTrace = []\<rparr>) =
        (ok, (t, g))" "tr = gwTrace g" "d = gwDisk g \<or> glExposurePossible (gwLedger g) \<and>
        d = Some (gatewayLedgerJSON ((gwLedger g)\<lparr>glClosed := True\<rparr>))"
proof (cases "opened = None \<or> (\<exists>l. opened = Some l \<and> glExposurePossible l) \<or> \<not> validateHostedGatewayConfig H F (hsConfig settings) \<or>
    \<not> validateHostedBootstrap H (hgImage (hsConfig settings)) (hsBootstrap settings)")
  case True
  with assms have "r = None" "tr = []" "d = d0" by (auto simp: newHostedGateway_def split: if_splits)
  then show ?thesis by (rule refused)
next
  case False
  then obtain l where l: "opened = Some l" "\<not> glExposurePossible l" by auto
  obtain ok t g where run: "run_state (initialize W H pk settings)
      (0, \<lparr>gwLedger = l, gwDisk = d0, gwReady = False, gwClosed = False, gwTrace = []\<rparr>) = (ok, (t, g))" by (metis prod.exhaust)
  have "tr = gwTrace g \<and> (d = gwDisk g \<or> glExposurePossible (gwLedger g) \<and>
        d = Some (gatewayLedgerJSON ((gwLedger g)\<lparr>glClosed := True\<rparr>)))"
    using assms False l run closeGateway_disk [of "gvIO W t" g]
    by (cases ok) (auto simp: newHostedGateway_def Let_def)
  then show ?thesis using ran [OF l run] by blast
qed

end
