(* ===== verification/HostedFacts.thy ===== *)
theory HostedFacts
  imports HostedProtocol
begin

text \<open>
  What the hosted handshake authenticates (\<^verbatim>\<open>src/internal/hosted/protocol.go\<close>): the bytes that
  are signed determine the hello, a signed hello verifies, an accepted one was signed, and the
  bootstrap environment has exactly the fixed keys.
\<close>

section \<open>Plain text\<close>

text \<open>Text that JSON writes as it is.\<close>

definition plainChar :: "char \<Rightarrow> bool" where
  "plainChar c \<longleftrightarrow> 32 \<le> byte c \<and> byte c < 127 \<and> byte c \<notin> {34, 38, 60, 62, 92}"

definition plain :: "string \<Rightarrow> bool" where
  "plain s \<longleftrightarrow> list_all plainChar s"

lemma chunks_plain: "plain s \<Longrightarrow> chunks s = map (\<lambda>c. (byte c, [c])) s"
  by (induction s) (auto simp: plain_def plainChar_def chunks_ascii)

lemma jsonString_plain: "plain s \<Longrightarrow> jsonString s = [CHR 0x22] @ s @ [CHR 0x22]"
proof -
  assume s: "plain s"
  then have "map jsonEscapeRune (chunks s) = map (\<lambda>c. [c]) s"
    by (auto simp: chunks_plain jsonEscapeRune_def plain_def plainChar_def list_all_iff runeError_def)
  moreover have "concat (map (\<lambda>c. [c]) s) = s" by (induction s) simp_all
  ultimately show ?thesis by (simp add: jsonString_def)
qed

lemma plain_no_quote: "plain s \<Longrightarrow> CHR 0x22 \<notin> set s"
  by (auto simp: plain_def list_all_iff plainChar_def byte_def)

lemma quote_cancel:
  assumes "s @ CHR 0x22 # x = t @ CHR 0x22 # y" "plain s" "plain t"
  shows "s = t \<and> x = y"
proof -
  have "takeWhile (\<lambda>c. c \<noteq> CHR 0x22) (s @ CHR 0x22 # x) = s" "takeWhile (\<lambda>c. c \<noteq> CHR 0x22) (t @ CHR 0x22 # y) = t"
    using plain_no_quote [OF assms(2)] plain_no_quote [OF assms(3)]
    by (auto simp: takeWhile_append takeWhile_eq_all_conv)
  with assms(1) have "s = t" by simp
  with assms(1) show ?thesis by simp
qed

lemma plain_append [simp]: "plain (s @ t) \<longleftrightarrow> plain s \<and> plain t"
  by (simp add: plain_def)

lemma plainChar_lowerHex: "isLowerHex c \<Longrightarrow> plainChar c"
  by (auto simp: isLowerHex_def isDigit_def plainChar_def)

lemma plainChar_alnum: "isAlnum c \<Longrightarrow> plainChar c"
  by (auto simp: isAlnum_def isDigit_def plainChar_def)

lemma plain_digest: "DigestValid v \<Longrightarrow> plain v"
proof -
  assume "DigestValid v"
  then obtain h where h: "v = ''sha256:'' @ h" "list_all isLowerHex h" by (auto simp: DigestValid_iff)
  have "plain ''sha256:''" by (simp add: plain_def plainChar_def byte_def)
  moreover have "plain h" using h(2) by (auto simp: plain_def list_all_iff plainChar_lowerHex)
  ultimately show ?thesis unfolding h(1) plain_append by simp
qed

lemma plain_digits: "list_all isDigit s \<Longrightarrow> plain s"
  by (auto simp: plain_def list_all_iff isLowerHex_def intro: plainChar_lowerHex)

lemma plain_positive: "hostedPositiveUint v \<Longrightarrow> plain v"
  by (auto simp: hostedPositiveUint_def parseUint_def intro: plain_digits split: option.splits if_splits)

lemma splitChar_all: "list_all (\<lambda>p. list_all P p) (splitChar c s) \<Longrightarrow> x \<in> set s \<Longrightarrow> P x \<or> x = c"
  by (induction c s rule: splitChar.induct) (auto split: if_splits list.splits)

lemma plain_agentName: "ValidateAgentName v \<Longrightarrow> plain v"
proof -
  assume "ValidateAgentName v"
  then have "list_all (\<lambda>p. list_all isAlnum p) (splitChar (CHR ''-'') v)"
    by (auto simp: ValidateAgentName_def agentNameRE_def list_all_iff split: if_splits)
  then have "isAlnum x \<or> x = CHR ''-''" if "x \<in> set v" for x using splitChar_all that by fast
  moreover have "plainChar (CHR ''-'')" by (simp add: plainChar_def byte_def)
  ultimately show ?thesis by (auto simp: plain_def list_all_iff intro: plainChar_alnum)
qed

lemma plain_b64: "plain (b64Encode bs)"
proof -
  have "plainChar (b64Char d)" if "d < 64" for d using b64Char_cases [OF that] that by (auto simp: plainChar_def)
  moreover have "\<forall>d \<in> set (b64Digits (map byte bs)). d < 64" by (rule b64Digits_less) simp
  ultimately show ?thesis by (auto simp: plain_def list_all_iff b64Encode_def)
qed

lemma hostedCanonicalBytes_encode: "hostedCanonicalBytes v n = Some decoded \<Longrightarrow> v = b64Encode decoded \<and> length decoded = n"
  by (auto simp: hostedCanonicalBytes_def split: if_splits option.splits)

lemma plain_canonical: "hostedCanonicalBytes v n \<noteq> None \<Longrightarrow> plain v"
  using hostedCanonicalBytes_encode plain_b64 by blast

text \<open>The text of a UUID is hexadecimal digits and dashes (package uuid, \<open>UUID.String\<close>).\<close>

definition uuidPlain :: "hostedEnv \<Rightarrow> bool" where
  "uuidPlain H \<longleftrightarrow> (\<forall>v n s. heUUID H v = Some (n, s) \<longrightarrow> plain s)"

lemma plain_uuid: "uuidPlain H \<Longrightarrow> hostedUUIDValid H v \<Longrightarrow> plain v"
  by (auto simp: uuidPlain_def hostedUUIDValid_def split: option.splits)

section \<open>The signed bytes\<close>

definition helloPlain :: "hostedHello \<Rightarrow> bool" where
  "helloPlain v \<longleftrightarrow> (let c = hhChallenge v in plain (hcDeploymentID c) \<and> plain (hcConfigurationDigest c) \<and>
     plain (hcAgentName c) \<and> plain (hcAgentVersion c) \<and> plain (hcSessionID c) \<and> plain (hcBootID c) \<and> plain (hcNonce c) \<and>
     hcProtocol c = hostedProtocol \<and> plain (hhPairID v) \<and> plain (hhRole v) \<and> plain (hhBootstrapDigest v) \<and> 0 < hhExpiresAt v)"

definition helloText :: "hostedHello \<Rightarrow> string" where
  "helloText v = (let c = hhChallenge v in jsonObject
        [(''challenge'', Some (challengeJSON c)), (''pairID'', Some (jsonString (hhPairID v))),
         (''role'', Some (jsonString (hhRole v))), (''bootstrapDigest'', Some (jsonString (hhBootstrapDigest v))),
         (''expiresAt'', Some (formatUint (nat (hhExpiresAt v))))])"

lemma signingBytes_plain:
  assumes "uuidPlain H" "hostedHelloSigningBytes H v = Some d"
  shows "helloPlain v \<and> d = (hostedProtocol @ [CHR 0x00] @ ''hello'' @ [CHR 0x00]) @ helloText v"
proof -
  have "plain ''forward''" "plain ''reverse''" by (simp_all add: plain_def plainChar_def byte_def)
  with assms show ?thesis
    by (auto simp: hostedHelloSigningBytes_def helloPlain_def helloText_def Let_def plain_uuid plain_digest plain_agentName
        plain_positive plain_canonical split: if_splits)
qed

lemma formatUint_inj: "formatUint m = formatUint n \<Longrightarrow> m = n"
  by (metis digitsValue_formatUint)

lemma helloText_inj:
  assumes "helloText v = helloText w" "helloPlain v" "helloPlain w"
  shows "v\<lparr>hhSignature := []\<rparr> = w\<lparr>hhSignature := []\<rparr>"
proof -
  have keys: "plain ''challenge''" "plain ''pairID''" "plain ''role''" "plain ''bootstrapDigest''" "plain ''expiresAt''"
    "plain ''protocol''" "plain ''deploymentID''" "plain ''configurationDigest''" "plain ''agentName''"
    "plain ''agentVersion''" "plain ''sessionID''" "plain ''bootID''" "plain ''nonce''" "plain hostedProtocol"
    by (simp_all add: plain_def plainChar_def byte_def hostedProtocol_def)
  have cancel: "s @ CHR 0x22 # x = t @ CHR 0x22 # y \<longleftrightarrow> s = t \<and> x = y" if "plain s" "plain t" for s t x y
    using quote_cancel [OF _ that] by auto
  from assms(2,3) have texts: "plain (hcDeploymentID (hhChallenge x))" "plain (hcConfigurationDigest (hhChallenge x))"
    "plain (hcAgentName (hhChallenge x))" "plain (hcAgentVersion (hhChallenge x))" "plain (hcSessionID (hhChallenge x))"
    "plain (hcBootID (hhChallenge x))" "plain (hcNonce (hhChallenge x))" "hcProtocol (hhChallenge x) = hostedProtocol"
    "plain (hhPairID x)" "plain (hhRole x)" "plain (hhBootstrapDigest x)" "0 < hhExpiresAt x"
    if "x \<in> {v, w}" for x using that by (auto simp: helloPlain_def Let_def)
  note tv = texts [of v, simplified] and tw = texts [of w, simplified]
  from assms(1) have "hhChallenge v = hhChallenge w \<and> hhPairID v = hhPairID w \<and> hhRole v = hhRole w \<and>
      hhBootstrapDigest v = hhBootstrapDigest w \<and> formatUint (nat (hhExpiresAt v)) = formatUint (nat (hhExpiresAt w))"
    unfolding helloText_def challengeJSON_def Let_def
    by (simp add: jsonObject_def jsonMember_def jsonString_plain keys tv tw cancel hostedChallenge.equality)
  moreover from this have "nat (hhExpiresAt v) = nat (hhExpiresAt w)" by (blast intro: formatUint_inj)
  then have "hhExpiresAt v = hhExpiresAt w" using tv(12) tw(12) by simp
  ultimately show ?thesis by simp
qed

lemma encodedLen_3: "encodedLen (Suc (Suc (Suc n))) = 4 + encodedLen n"
proof -
  have "Suc (Suc (Suc n)) div 3 = Suc (n div 3)" "Suc (Suc (Suc n)) mod 3 = n mod 3" by presburger+
  then show ?thesis by (simp add: encodedLen_def)
qed

lemma length_b64Digits: "length (b64Digits bs) = encodedLen (length bs)"
proof (induction bs rule: b64Digits.induct)
  case (1 a b c r)
  then show ?case by (simp add: encodedLen_3)
qed (simp_all add: encodedLen_def)

lemma hostedCanonicalBytes_round: "hostedNonzeroBytes s \<Longrightarrow> hostedCanonicalBytes (b64Encode s) (length s) = Some s"
  by (simp add: hostedCanonicalBytes_def b64Decode_Encode) (simp add: b64Encode_def length_b64Digits)

section \<open>Properties of the handshake\<close>

lemma hello_bytes_exact_aux:
  assumes "uuidPlain H" "hostedHelloSigningBytes H v = Some d" "hostedHelloSigningBytes H w = Some d"
  shows "v\<lparr>hhSignature := []\<rparr> = w\<lparr>hhSignature := []\<rparr>"
proof (rule helloText_inj)
  note v = signingBytes_plain [OF assms(1,2)] and w = signingBytes_plain [OF assms(1,3)]
  show "helloPlain v" "helloPlain w" using v w by blast+
  from conjunct2 [OF v] conjunct2 [OF w] show "helloText v = helloText w" by (metis same_append_eq)
qed


text \<open>The signed bytes determine the hello. Two hellos with the same signed representation have the
  same challenge, pair, role, bootstrap digest and expiry; only their signatures may differ.\<close>

theorem hello_bytes_exact:
  assumes "uuidPlain H" "hostedHelloSigningBytes H v = Some d" "hostedHelloSigningBytes H w = Some d"
  shows "v\<lparr>hhSignature := []\<rparr> = w\<lparr>hhSignature := []\<rparr>"
  by (rule hello_bytes_exact_aux [OF assms])


text \<open>C40: A signed hello verifies. With a signature scheme whose signatures have 64 bytes, not all zero, and
  verify under the public key, what the gateway signs is accepted by the server whose challenge it
  carries, from the moment it is signed until it expires.\<close>

theorem signed_hello_verifies:
  assumes "signHostedHello H v key = Some w" "hostedPublicKey H publicKey = Some pub"
    and "\<And>d. heVerify H pub d (heSign H key d) \<and> length (heSign H key d) = 64 \<and> hostedNonzeroBytes (heSign H key d)"
    and "now < unixTime (hhExpiresAt v)" "unixTime (hhExpiresAt v) \<le> now + 90000000000"
  shows "verifyHostedHello H w (hhChallenge v) publicKey now"
proof -
  from assms(1) obtain d where d: "hostedHelloSigningBytes H v = Some d"
    and w: "w = v\<lparr>hhSignature := b64Encode (heSign H key d)\<rparr>"
    by (auto simp: signHostedHello_def split: if_splits option.splits)
  have "hostedHelloSigningBytes H w = Some d" using d by (simp add: w hostedHelloSigningBytes_def Let_def cong: if_cong)
  moreover have "hostedCanonicalBytes (hhSignature w) 64 = Some (heSign H key d)"
    using hostedCanonicalBytes_round [of "heSign H key d"] assms(3) [of d] by (simp add: w)
  moreover have "hhChallenge w = hhChallenge v" "hhExpiresAt w = hhExpiresAt v" by (simp_all add: w)
  ultimately show ?thesis using assms(2-5) by (simp add: verifyHostedHello_def Let_def)
qed

section \<open>The bootstrap environment\<close>

definition requiredKeys :: "string list" where
  "requiredKeys = [''ORKA_ACP_PROVIDER'', ''ORKA_ACP_MODEL'', ''ORKA_ACP_FOUNDRY_ADAPTER_DIGEST'',
     ''ORKA_ACP_TOOL_POLICY_DIGEST'', ''ORKA_ACP_APPROVAL_POLICY_DIGEST'', ''ORKA_ACP_MCP_CONFIGURATION_DIGEST'',
     ''ORKA_ACP_AGENT_CONFIGURATION_DIGEST'', ''ORKA_ACP_WORKSPACE_INTENT'', ''ORKA_ACP_PROXY_CREDENTIAL_ROLE'',
     ''ORKA_ACP_PROXY_CREDENTIAL_SCOPE'', ''ORKA_ACP_RESOURCE_CLASS'', ''ORKA_ACP_TRUST_NAMESPACE'',
     ''ORKA_ACP_CONTROLLER_EPOCH'', ''ORKA_ACP_RUNTIME_POOL_GENERATION'', ''ORKA_ACP_RUNTIME_POOL_UID'']"

definition limitKeys :: "string set" where
  "limitKeys = {''ORKA_ACP_MODEL_CONTEXT_LIMIT'', ''ORKA_ACP_MODEL_OUTPUT_LIMIT''}"

lemma requiredKeys_card: "card (set requiredKeys) = 15"
  by (simp add: requiredKeys_def)

lemma limitKeys_required: "limitKeys \<inter> set requiredKeys = {}"
  by (simp add: limitKeys_def requiredKeys_def)

lemma envEntry_counted: "envEntry H cfg k v = EnvCounted \<Longrightarrow> k \<in> set requiredKeys"
  by (simp add: envEntry_def Let_def requiredKeys_def split: if_splits) (elim disjE; simp)+

lemma envEntry_limit: "envEntry H cfg k v = EnvLimit \<Longrightarrow> k \<in> limitKeys"
  by (simp add: envEntry_def Let_def limitKeys_def split: if_splits)

lemma fmcount_set: "fmcount P m = card {k. \<exists>v. fmlookup m k = Some v \<and> P k v}"
proof -
  have "fset (ffilter (\<lambda>k. case fmlookup m k of None \<Rightarrow> False | Some v \<Rightarrow> P k v) (fmdom m)) =
      {k. \<exists>v. fmlookup m k = Some v \<and> P k v}"
    by (auto simp: fmlookup_dom_iff split: option.splits)
  then show ?thesis by (simp add: fmcount_def fcard.rep_eq)
qed

lemma counted_keys:
  assumes "\<And>k v. fmlookup m k = Some v \<Longrightarrow> envEntry H cfg k v \<noteq> EnvBad"
  shows "fmcount (\<lambda>k v. envEntry H cfg k v = EnvCounted) m = 15 \<longleftrightarrow> set requiredKeys \<subseteq> fset (fmdom m)"
proof -
  let ?C = "{k. \<exists>v. fmlookup m k = Some v \<and> envEntry H cfg k v = EnvCounted}"
  have C: "?C = fset (fmdom m) \<inter> set requiredKeys"
  proof (intro set_eqI iffI)
    fix k assume "k \<in> ?C"
    then show "k \<in> fset (fmdom m) \<inter> set requiredKeys" using envEntry_counted by (auto simp: fmlookup_dom_iff)
  next
    fix k assume k: "k \<in> fset (fmdom m) \<inter> set requiredKeys"
    then obtain v where v: "fmlookup m k = Some v" by (auto simp: fmlookup_dom_iff)
    with assms [OF v] k limitKeys_required envEntry_limit [of H cfg k v] have "envEntry H cfg k v = EnvCounted"
      by (cases "envEntry H cfg k v") auto
    with v show "k \<in> ?C" by blast
  qed
  have "card (fset (fmdom m) \<inter> set requiredKeys) = 15 \<longleftrightarrow> set requiredKeys \<subseteq> fset (fmdom m)"
  proof
    assume "card (fset (fmdom m) \<inter> set requiredKeys) = 15"
    then have "fset (fmdom m) \<inter> set requiredKeys = set requiredKeys"
      by (intro card_subset_eq) (simp_all add: requiredKeys_card)
    then show "set requiredKeys \<subseteq> fset (fmdom m)" by blast
  next
    assume "set requiredKeys \<subseteq> fset (fmdom m)"
    then have "fset (fmdom m) \<inter> set requiredKeys = set requiredKeys" by blast
    then show "card (fset (fmdom m) \<inter> set requiredKeys) = 15" by (simp add: requiredKeys_card)
  qed
  then show ?thesis by (simp add: fmcount_set C)
qed

lemma envEntry_keys: "envEntry H cfg k v \<noteq> EnvBad \<Longrightarrow> k \<in> set requiredKeys \<or> k \<in> limitKeys"
  using envEntry_counted envEntry_limit by (cases "envEntry H cfg k v") blast+

lemma bootstrap_environment_iff:
  "validateHostedBootstrap H cfg b \<longleftrightarrow> validateHostedImageConfig H cfg \<and> hostedCredentialValid (hbControllerToken b) \<and>
     hostedCredentialValid (hbCapabilitySecret b) \<and> hostedCredentialValid (hbProviderToken b) \<and>
     (fset (fmdom (hbEnvironment b)) = set requiredKeys \<or> fset (fmdom (hbEnvironment b)) = set requiredKeys \<union> limitKeys) \<and>
     fmpred (\<lambda>k v. envEntry H cfg k v \<noteq> EnvBad) (hbEnvironment b)"
proof -
  let ?m = "hbEnvironment b"
  let ?good = "fmpred (\<lambda>k v. envEntry H cfg k v \<noteq> EnvBad) ?m"
  let ?pair = "fmlookup ?m ''ORKA_ACP_MODEL_CONTEXT_LIMIT'' \<noteq> None \<longleftrightarrow> fmlookup ?m ''ORKA_ACP_MODEL_OUTPUT_LIMIT'' \<noteq> None"
  have keys: "fmcount (\<lambda>k v. envEntry H cfg k v = EnvCounted) ?m = 15 \<and> ?pair \<longleftrightarrow>
      fset (fmdom ?m) = set requiredKeys \<or> fset (fmdom ?m) = set requiredKeys \<union> limitKeys" if good: "?good"
  proof -
    have g: "fmlookup ?m k = Some v \<Longrightarrow> envEntry H cfg k v \<noteq> EnvBad" for k v using good by (auto simp: fmpred_iff)
    have sub: "fset (fmdom ?m) \<subseteq> set requiredKeys \<union> limitKeys"
      using envEntry_keys g by (fastforce simp: fmlookup_dom_iff)
    have dom: "fmlookup ?m k \<noteq> None \<longleftrightarrow> k \<in> fset (fmdom ?m)" for k by (auto simp: fmlookup_dom_iff)
    have "?pair \<longleftrightarrow> limitKeys \<subseteq> fset (fmdom ?m) \<or> limitKeys \<inter> fset (fmdom ?m) = {}"
      unfolding dom limitKeys_def by auto
    moreover have "fmcount (\<lambda>k v. envEntry H cfg k v = EnvCounted) ?m = 15 \<longleftrightarrow> set requiredKeys \<subseteq> fset (fmdom ?m)"
      by (rule counted_keys) (rule g)
    ultimately show ?thesis using sub limitKeys_required by blast
  qed
  have bad: "fmexists (\<lambda>k v. envEntry H cfg k v = EnvBad) ?m \<longleftrightarrow> \<not> ?good" by (simp add: fmexists_def)
  show ?thesis unfolding validateHostedBootstrap_def bad using keys by auto
qed

text \<open>The bootstrap check fixes the environment. A bootstrap is accepted exactly when the image
  configuration and the three credentials are valid, every value passes the check of its key, and
  the keys are the fifteen required ones, with the two model limits either both present or both
  absent and nothing else.\<close>

theorem bootstrap_environment_exact:
  "validateHostedBootstrap H cfg b \<longleftrightarrow> validateHostedImageConfig H cfg \<and> hostedCredentialValid (hbControllerToken b) \<and>
     hostedCredentialValid (hbCapabilitySecret b) \<and> hostedCredentialValid (hbProviderToken b) \<and>
     (fset (fmdom (hbEnvironment b)) = set requiredKeys \<or> fset (fmdom (hbEnvironment b)) = set requiredKeys \<union> limitKeys) \<and>
     fmpred (\<lambda>k v. envEntry H cfg k v \<noteq> EnvBad) (hbEnvironment b)"
  by (rule bootstrap_environment_iff)

section \<open>Instances\<close>

definition hxKey :: string where "hxKey = replicate 64 (CHR ''k'')"

definition hxBase :: hostedEnv where
  "hxBase = \<lparr>heSha = (\<lambda>_. replicate 32 (CHR ''a'')), heUUID = (\<lambda>v. if plain v then Some (False, v) else None), heURL = (\<lambda>_. None),
     heFromSeed = (\<lambda>_. hxKey), heSign = (\<lambda>_ _. replicate 64 (CHR ''s'')), heVerify = (\<lambda>_ _ _. True),
     hePoint = (\<lambda>d. Some (d, False))\<rparr>"

definition hxDigest :: string where "hxDigest = ''sha256:'' @ replicate 64 (CHR ''0'')"
definition hxBytes :: string where "hxBytes = replicate 32 (CHR ''n'')"

definition hxChallenge :: hostedChallenge where
  "hxChallenge = \<lparr>hcProtocol = hostedProtocol, hcDeploymentID = ''d'', hcConfigurationDigest = hxDigest, hcAgentName = ''a'',
     hcAgentVersion = ''1'', hcSessionID = ''s'', hcBootID = ''b'', hcNonce = b64Encode hxBytes\<rparr>"

definition hxHello :: hostedHello where
  "hxHello = \<lparr>hhChallenge = hxChallenge, hhPairID = ''p'', hhRole = ''forward'', hhBootstrapDigest = hxDigest,
     hhExpiresAt = 1, hhSignature = []\<rparr>"

definition hxSigned :: string where "hxSigned = the (hostedHelloSigningBytes hxBase hxHello)"

definition hxEnv :: hostedEnv where
  "hxEnv = hxBase\<lparr>heVerify := \<lambda>_ d _. d = hxSigned\<rparr>"

lemma hxPlain: "uuidPlain hxBase" "uuidPlain hxEnv"
  by (auto simp: uuidPlain_def hxEnv_def hxBase_def)

lemma hostedNonzeroBytes_replicate:
  assumes "0 < n" "(of_nat (byte c) :: 8 word) \<noteq> 0"
  shows "hostedNonzeroBytes (replicate n c)"
proof -
  have "fold (\<lambda>c (acc :: 8 word). or acc (of_nat (byte c))) (replicate (Suc m) c) a = or a (of_nat (byte c))" for m a
    by (induction m arbitrary: a) (simp_all add: or.assoc)
  from this [of "n - 1" 0] assms show ?thesis by (simp add: hostedNonzeroBytes_def)
qed

lemma hxBytes_ok: "hostedCanonicalBytes (b64Encode hxBytes) 32 = Some hxBytes"
proof -
  have "hostedNonzeroBytes hxBytes"
    unfolding hxBytes_def by (rule hostedNonzeroBytes_replicate) (simp_all add: byte_def)
  from hostedCanonicalBytes_round [OF this] show ?thesis by (simp add: hxBytes_def)
qed

lemma hxPublic: "hostedPublicKey hxBase (b64Encode hxBytes) = Some hxBytes" "hostedPublicKey hxEnv (b64Encode hxBytes) = Some hxBytes"
  by (simp_all add: hostedPublicKey_def hxBytes_ok hxBase_def hxEnv_def)

lemma hxSigning: "hostedHelloSigningBytes hxBase hxHello = Some hxSigned" "hostedHelloSigningBytes hxEnv hxHello = Some hxSigned"
proof -
  have "DigestValid hxDigest" by (auto simp: DigestValid_iff hxDigest_def isLowerHex_def isDigit_def byte_def list_all_iff)
  moreover have "hostedUUIDValid hxBase v" if "v \<in> {''d'', ''s'', ''b'', ''p''}" for v
    using that by (auto simp: hostedUUIDValid_def hxBase_def plain_def plainChar_def byte_def)
  moreover have "ValidateAgentName ''a''"
    by (simp add: ValidateAgentName_def agentNameRE_def isAlnum_def byte_def)
  moreover have "hostedPositiveUint ''1''"
  proof -
    have "char_of (49 :: nat) = CHR ''1''" by code_simp
    then show ?thesis
      by (simp add: hostedPositiveUint_def parseUint_def isDigit_def digitsValue_def byte_def formatUint.simps)
  qed
  ultimately have "hostedHelloSigningBytes hxBase hxHello \<noteq> None"
    by (simp add: hostedHelloSigningBytes_def hxHello_def hxChallenge_def Let_def hxBytes_ok)
  then show base: "hostedHelloSigningBytes hxBase hxHello = Some hxSigned" by (simp add: hxSigned_def)
  have "hostedHelloSigningBytes hxEnv hxHello = hostedHelloSigningBytes hxBase hxHello"
    by (simp add: hostedHelloSigningBytes_def hostedUUIDValid_def hxEnv_def cong: if_cong)
  with base show "hostedHelloSigningBytes hxEnv hxHello = Some hxSigned" by simp
qed

theorem hello_bytes_exact_witness:
  "(hxHello\<lparr>hhSignature := ''x''\<rparr>)\<lparr>hhSignature := []\<rparr> = hxHello\<lparr>hhSignature := []\<rparr>"
proof -
  have "hostedHelloSigningBytes hxBase (hxHello\<lparr>hhSignature := ''x''\<rparr>) = Some hxSigned"
    using hxSigning(1) by (simp add: hostedHelloSigningBytes_def Let_def cong: if_cong)
  from hello_bytes_exact [OF hxPlain(1) this hxSigning(1)] show ?thesis .
qed


theorem signed_hello_verifies_witness:
  "\<exists>w. signHostedHello hxBase hxHello hxKey = Some w \<and> verifyHostedHello hxBase w hxChallenge (b64Encode hxBytes) (unixTime 1 - 1)"
proof -
  have nz: "hostedNonzeroBytes (replicate 32 (CHR ''k''))" "hostedNonzeroBytes (replicate 64 (CHR ''s''))"
    by (rule hostedNonzeroBytes_replicate; simp add: byte_def)+
  have key: "hostedSigningKeyValid hxBase hxKey" using nz(1) by (simp add: hostedSigningKeyValid_def hxKey_def hxBase_def)
  obtain w where w: "signHostedHello hxBase hxHello hxKey = Some w"
    using key hxSigning(1) by (simp add: signHostedHello_def)
  have s: "heVerify hxBase hxBytes d (heSign hxBase hxKey d) \<and> length (heSign hxBase hxKey d) = 64 \<and>
      hostedNonzeroBytes (heSign hxBase hxKey d)" for d using nz(2) by (simp add: hxBase_def)
  have e: "hhExpiresAt hxHello = 1" "hhChallenge hxHello = hxChallenge" by (simp_all add: hxHello_def)
  from signed_hello_verifies [OF w hxPublic(1) s, of "unixTime 1 - 1"] w show ?thesis by (simp add: e)
qed

end
