(* ===== verification/GatewayFacts.thy ===== *)
theory GatewayFacts
  imports HostedExposure HostedFacts
begin

text \<open>
  The guarantees of the gateway over all its starts: its durable ledger makes the one hosted
  lifetime exclusive (\<^verbatim>\<open>src/internal/hosted/gateway.go\<close>).
\<close>

lemma exposes_closed [simp]: "exposes digest (l\<lparr>glClosed := c\<rparr>) \<longleftrightarrow> exposes digest l"
  by (simp add: exposes_def)

lemma start_quiet: "quiet \<lparr>gwLedger = l, gwDisk = d, gwReady = r, gwClosed = c, gwTrace = []\<rparr>"
  "noPost \<lparr>gwLedger = l, gwDisk = d, gwReady = r, gwClosed = c, gwTrace = []\<rparr>"
  by (simp_all add: quiet_def noPost_def)

lemma bootstraps_mem: "GvBootstrap b \<in> set tr \<longleftrightarrow> b \<in> set (bootstraps tr)"
  by (auto simp: bootstraps_def)


lemma gateway_exposed:
  assumes run: "newHostedGateway W H F pk settings (opened, d0) = (r, tr, d)" and b: "GvBootstrap b \<in> set tr"
  shows "b = bootstrapJSON (hsBootstrap settings) \<and> sentAfterRecord (Digest (heSha H) b) b tr \<and>
    (\<exists>l. d = Some (gatewayLedgerJSON l) \<and> exposes (Digest (heSha H) b) l)"
  using run
proof (cases rule: newHostedGateway_run)
  case refused
  with b show ?thesis by simp
next
  case (ran l ok t g)
  let ?B = "bootstrapJSON (hsBootstrap settings)"
  from b ran(4) have "\<not> quiet g" by (auto simp: quiet_def bootstraps_mem)
  with initialize_exposed [OF start_quiet(1) ran(3)] have e: "exposed (Digest (heSha H) ?B) ?B g" by blast
  then have s: "sentAfterRecord (Digest (heSha H) ?B) ?B tr" by (simp add: exposed_def ran(4))
  with b have eq: "b = ?B" by (auto simp: sentAfterRecord_def bootstraps_mem)
  from e have "exposes (Digest (heSha H) ?B) (gwLedger g)" "\<exists>l. gwDisk g = Some (gatewayLedgerJSON l) \<and> exposes (Digest (heSha H) ?B) l"
    by (auto simp: exposed_def recorded_def)
  then have "\<exists>l. d = Some (gatewayLedgerJSON l) \<and> exposes (Digest (heSha H) ?B) l"
    using ran(5) exposes_closed [where l = "gwLedger g" and c = True] by metis
  with s show ?thesis unfolding eq by blast
qed

lemma reopened_ledger:
  assumes "openHostedGatewayStore H decode dir cfg lock (Present priv size') (Some data) io (Some data) = (opened, d)"
  shows "d = Some data \<and> (\<forall>l. opened = Some l \<longrightarrow> decode data = Some l)"
  using assms by (auto simp: openHostedGatewayStore_def split: if_splits option.splits)

section \<open>Properties\<close>

text \<open>C32: Credentials are exposed only after the record of it is durable. In any start of the gateway,
  whatever fails and whenever, the bootstrap message is sent at most once, it is the configured one, a
  ledger saved before it in the same start records the possible exposure with the message's digest,
  and the ledger left on disk records it too.\<close>

theorem exposure_recorded:
  assumes "newHostedGateway W H F pk settings (opened, d0) = (r, tr, d)" "GvBootstrap b \<in> set tr"
  shows "b = bootstrapJSON (hsBootstrap settings) \<and> bootstraps tr = [b] \<and>
    (\<exists>before after l. tr = before @ GvBootstrap b # after \<and> GvSaved l \<in> set before \<and> glExposurePossible l \<and>
      glBootstrapDigest l = Digest (heSha H) b) \<and>
    (\<exists>l. d = Some (gatewayLedgerJSON l) \<and> glExposurePossible l \<and> glBootstrapDigest l = Digest (heSha H) b)"
  using gateway_exposed [OF assms] by (auto simp: sentAfterRecord_def exposes_def)

text \<open>C33: Credentials are sent in at most one start of the gateway. When a start has sent the bootstrap
  message, any later start on the ledger it left, with any configuration and however the outside
  behaves, ends refused, without a request, a dial or a message, and leaves the ledger as it is.
  The decoder of the ledger is only assumed to read back the exposure flag.\<close>

theorem bootstrap_never_resent:
  assumes run: "newHostedGateway W H F pk settings (opened, d0) = (r, tr, d)" and sent: "GvBootstrap b \<in> set tr"
    and reads: "\<And>l l'. decode (gatewayLedgerJSON l) = Some l' \<Longrightarrow> glExposurePossible l \<Longrightarrow> glExposurePossible l'"
    and again: "openHostedGatewayStore H' decode dir cfg lock (Present priv size') d io d = reopened"
  shows "newHostedGateway W' H' F' pk' settings' reopened = (None, [], d)"
proof -
  from gateway_exposed [OF run sent] obtain l where l: "d = Some (gatewayLedgerJSON l)" "glExposurePossible l"
    by (auto simp: exposes_def)
  obtain o2 d2 where o2: "reopened = (o2, d2)" by fastforce
  from reopened_ledger again l(1) o2 have d2: "d2 = d" "\<And>l2. o2 = Some l2 \<Longrightarrow> decode (gatewayLedgerJSON l) = Some l2" by blast+
  then have "o2 = Some l2 \<Longrightarrow> glExposurePossible l2" for l2 using reads l(2) by blast
  then show ?thesis using d2(1) by (auto simp: o2 newHostedGateway_def split: option.splits)
qed


end
