(* ===== verification/GatewayExample.thy ===== *)
theory GatewayExample
  imports GatewayFacts
begin

text \<open>
  A concrete gateway: a valid configuration, one start that reaches the bootstrap message on an
  existing session, and one whose creation request is lost.
\<close>

section \<open>Configuration\<close>

definition gxHash :: string where "gxHash = Digest (\<lambda>_. replicate 32 (CHR ''a'')) []"

definition gxEndpoint :: string where "gxEndpoint = ''https://r.services.ai.azure.com/api/projects/p''"

definition gxURL :: "string \<Rightarrow> hostedURL option" where
  "gxURL raw = Some (if raw = gxEndpoint
     then \<lparr>huScheme = ''https'', huOpaque = [], huHasUser = False, huHost = ''r.services.ai.azure.com'',
       huHostname = ''r.services.ai.azure.com'', huPort = [], huPath = ''/api/projects/p'', huRawPath = [], huRawQuery = [],
       huForceQuery = False, huFragment = [], huString = gxEndpoint\<rparr>
     else \<lparr>huScheme = ''http'', huOpaque = [], huHasUser = False, huHost = ''h'', huHostname = ''h'', huPort = [], huPath = [],
       huRawPath = [], huRawQuery = [], huForceQuery = False, huFragment = [], huString = ''http://h''\<rparr>)"

definition gxH :: hostedEnv where "gxH = hxBase\<lparr>heURL := gxURL\<rparr>"

definition gxImage :: hostedImageConfig where
  "gxImage = \<lparr>hiProtocol = hostedProtocol, hiDeploymentID = ''d'',
     hiTarget = \<lparr>htProjectEndpoint = gxEndpoint, htAgentName = ''a'', htAgentVersion = ''1''\<rparr>,
     hiSigningPublicKey = b64Encode hxBytes, hiAgentConfigurationDigest = gxHash\<rparr>"

definition gxPairs :: "(string \<times> string) list" where
  "gxPairs = [(''ORKA_ACP_PROVIDER'', ''foundry''), (''ORKA_ACP_MODEL'', ''m''), (''ORKA_ACP_FOUNDRY_ADAPTER_DIGEST'', gxHash),
     (''ORKA_ACP_TOOL_POLICY_DIGEST'', gxHash), (''ORKA_ACP_APPROVAL_POLICY_DIGEST'', gxHash),
     (''ORKA_ACP_MCP_CONFIGURATION_DIGEST'', gxHash), (''ORKA_ACP_AGENT_CONFIGURATION_DIGEST'', gxHash),
     (''ORKA_ACP_WORKSPACE_INTENT'', ''read''), (''ORKA_ACP_PROXY_CREDENTIAL_ROLE'', ''operator-managed''),
     (''ORKA_ACP_PROXY_CREDENTIAL_SCOPE'', ''external-runtime''), (''ORKA_ACP_RESOURCE_CLASS'', ''external''),
     (''ORKA_ACP_TRUST_NAMESPACE'', ''n''), (''ORKA_ACP_CONTROLLER_EPOCH'', ''1''), (''ORKA_ACP_RUNTIME_POOL_GENERATION'', ''1''),
     (''ORKA_ACP_RUNTIME_POOL_UID'', ''u'')]"

definition gxBootstrap :: hostedBootstrap where "gxBootstrap = placeholderBootstrap (fmap_of_list gxPairs)"

definition gxConfig :: hostedGatewayConfig where
  "gxConfig = \<lparr>hgProtocol = hostedProtocol, hgImage = gxImage, hgContainerImage = ''i@'' @ gxHash, hgSessionID = ''s'',
     hgRuntimeProfileDigest = gxHash, hgRuntimeEnvironment = fmap_of_list gxPairs, hgOrkaBaseURL = ''http://h'',
     hgBrokerBaseURL = ''http://h''\<rparr>"

definition gxSettings :: hostedGatewaySettings where
  "gxSettings = \<lparr>hsConfig = gxConfig, hsBootstrap = gxBootstrap, hsSigningKey = hxKey, hsStateDir = ''/s'', hsAddress = '':8080''\<rparr>"

definition gxFiles :: hostedFiles where
  "gxFiles = \<lparr>hfFile = (\<lambda>_. None), hfGetenv = (\<lambda>_. []), hfConfig = (\<lambda>_. None), hfImage = (\<lambda>_. None), hfIP = (\<lambda>_. Some True)\<rparr>"

lemma gxHash_valid [simp]: "DigestValid gxHash"
  by (simp add: gxHash_def DigestValid_Digest)

lemma gxDigest [simp]: "Digest (heSha gxH) x = gxHash"
  by (simp add: gxH_def hxBase_def gxHash_def Digest_def)

lemma gxUUID: "plain v \<Longrightarrow> hostedUUIDValid gxH v"
  by (simp add: hostedUUIDValid_def gxH_def hxBase_def)

lemma gxOne: "hostedPositiveUint ''1''"
proof -
  have "char_of (49 :: nat) = CHR ''1''" by code_simp
  then show ?thesis
    by (simp add: hostedPositiveUint_def parseUint_def isDigit_def digitsValue_def byte_def formatUint.simps)
qed

lemma plain_code: "plain s \<longleftrightarrow> list_all (\<lambda>b. 32 \<le> b \<and> b < 127 \<and> b \<notin> {34, 38, 60, 62, 92}) (map byte s)"
  by (simp add: plain_def plainChar_def list_all_iff)

lemma gxPlain [simp]: "plain ''d''" "plain ''a''" "plain ''s''" "plain ''b''" "plain ''p''" "plain ''u''" "plain ''m''" "plain ''1''"
  by (simp_all add: plain_code byte_def)

lemma plain_runes: "plain s \<Longrightarrow> runes s = map byte s"
  by (rule runes_all_ascii) (auto simp: plain_def list_all_iff plainChar_def)

lemma plain_SafeString: "plain s \<Longrightarrow> s \<noteq> [] \<Longrightarrow> length s \<le> n \<Longrightarrow> SafeString s n"
  by (auto simp: SafeString_def plain_runes list_all_iff isControl_def plain_def plainChar_def)

lemma plain_utf8: "plain s \<Longrightarrow> utf8Valid s"
  by (auto simp: utf8Valid_def chunks_plain list_all_iff plain_def plainChar_def runeError_def)

lemma gxAgent: "ValidateAgentName ''a''"
  by (simp add: ValidateAgentName_def agentNameRE_def isAlnum_def byte_def)

lemma gxPublic: "hostedPublicKey gxH (b64Encode hxBytes) = Some hxBytes"
  by (simp add: hostedPublicKey_def hxBytes_ok gxH_def hxBase_def)

lemma gxTarget: "hostedTargetValid gxH (hiTarget gxImage)"
proof -
  have "plain gxEndpoint" by (simp add: plain_code gxEndpoint_def byte_def)
  then have safe: "SafeString gxEndpoint 2048" by (rule plain_SafeString) (simp_all add: gxEndpoint_def)
  have url: "heURL gxH gxEndpoint = Some \<lparr>huScheme = ''https'', huOpaque = [], huHasUser = False, huHost = ''r.services.ai.azure.com'',
       huHostname = ''r.services.ai.azure.com'', huPort = [], huPath = ''/api/projects/p'', huRawPath = [], huRawQuery = [],
       huForceQuery = False, huFragment = [], huString = gxEndpoint\<rparr>" by (simp add: gxH_def gxURL_def)
  have host: "hasSuffix ''r.services.ai.azure.com'' ''.services.ai.azure.com''"
    "trimSuffix ''r.services.ai.azure.com'' ''.services.ai.azure.com'' = ''r''"
    "hasPrefix ''/api/projects/p'' ''/api/projects/''" "trimPrefix ''/api/projects/p'' ''/api/projects/'' = ''p''"
    by (simp_all add: hasSuffix_def trimSuffix_def hasPrefix_def trimPrefix_def)
  have dns: "hostedDNSLabelValid ''r''" "hostedASCIIAlphanumeric (CHR ''p'')"
    by (simp_all add: hostedDNSLabelValid_def hostedASCIIAlphanumeric_def toLowerAscii_def byte_def)
  have any: "\<not> containsAny gxEndpoint ''%#''" by (simp add: containsAny_def gxEndpoint_def)
  show ?thesis
    by (simp add: hostedTargetValid_def gxImage_def gxAgent gxOne safe any url host dns)
qed

lemma gxImage_valid: "validateHostedImageConfig gxH gxImage"
  using gxTarget by (simp add: validateHostedImageConfig_def gxPublic) (simp add: gxImage_def gxUUID gxPublic)

lemma gxCredential: "hostedCredentialValid (replicate 32 (CHR ''x''))"
proof -
  have p: "plain (replicate 32 (CHR ''x''))" by (simp add: plain_def plainChar_def byte_def list_all_iff)
  then show ?thesis
    by (simp add: hostedCredentialValid_def plain_utf8 plain_SafeString plain_runes list_ex_iff isSpace_def byte_def)
qed

lemma gxEntries: "list_all (\<lambda>(k, v). envEntry gxH gxImage k v \<noteq> EnvBad) gxPairs"
proof -
  have m: "utf8Valid ''m''" "SafeString ''m'' 512" "trimSpace ''m'' = ''m''" "hostedDNSLabelValid ''n''"
    by (simp_all add: plain_utf8 plain_SafeString)
      (simp_all add: trimSpace_def chunks_plain isSpace_def byte_def hostedDNSLabelValid_def hostedASCIIAlphanumeric_def toLowerAscii_def)
  show ?thesis
    by (simp add: gxPairs_def envEntry_def Let_def m gxOne gxUUID) (simp add: gxImage_def)
qed

lemma gxBootstrap_valid: "validateHostedBootstrap gxH gxImage gxBootstrap"
proof -
  have "fset (fmdom (fmap_of_list gxPairs)) = set requiredKeys"
    by (simp add: fset_of_list.rep_eq gxPairs_def requiredKeys_def)
  moreover have "fmpred (\<lambda>k v. envEntry gxH gxImage k v \<noteq> EnvBad) (fmap_of_list gxPairs)"
    using gxEntries by (intro fmpred_of_list) (auto simp: list_all_iff)
  ultimately show ?thesis
    unfolding bootstrap_environment_iff using gxImage_valid gxCredential by (simp add: gxBootstrap_def placeholderBootstrap_def)
qed

lemma gxConfig_valid: "validateHostedGatewayConfig gxH gxFiles gxConfig"
proof -
  have relay: "hostedRelayTargetValid gxH gxFiles ''http://h'' loop" for loop
    by (simp add: hostedRelayTargetValid_def gxH_def gxURL_def gxEndpoint_def gxFiles_def plain_SafeString plain_code byte_def)
  have cut: "cutChar (''i@'' @ gxHash) (CHR ''@'') = (''i'', gxHash, True)" by (simp add: cutChar_def)
  have "SafeString ''i'' 512" "\<not> containsAny ''i'' (CHR 0x5C # '' @?#'')"
    by (simp_all add: plain_SafeString plain_code byte_def containsAny_def)
  then show ?thesis
    using gxImage_valid gxBootstrap_valid relay cut
    by (simp add: validateHostedGatewayConfig_def gxConfig_def gxUUID gxBootstrap_def)
qed

section \<open>Sizes\<close>

lemma length_jsonString: "plain s \<Longrightarrow> length (jsonString s) = length s + 2"
  by (simp add: jsonString_plain)

lemma mapJSON_short:
  assumes "\<And>k v. fmlookup m k = Some v \<Longrightarrow> plain k \<and> plain v \<and> length k + length v \<le> n"
  shows "length (mapJSON m) \<le> fcard (fmdom m) * (n + 6) + 2"
proof -
  let ?ks = "sorted_list_of_fset (fmdom m)"
  have set: "set ?ks = fset (fmdom m)" "distinct ?ks" by (simp_all add: sorted_list_of_fset.rep_eq)
  have len: "length ?ks = fcard (fmdom m)" using distinct_card [OF set(2)] set(1) by (simp add: fcard.rep_eq)
  have some: "\<exists>v. fmlookup m k = Some v" if "k \<in> set ?ks" for k using that set(1) by (auto simp: fmlookup_dom_iff)
  have members: "[(k, v). (k, Some v) \<leftarrow> map (\<lambda>k. (k, map_option jsonString (fmlookup m k))) ks] =
      map (\<lambda>k. (k, jsonString (the (fmlookup m k)))) ks" if "set ks \<subseteq> set ?ks" for ks
    using that some by (induction ks) fastforce+
  have "length (mapJSON m) \<le> 2 + sum_list (map (\<lambda>k. length (jsonMember (k, jsonString (the (fmlookup m k)))) + 1) ?ks)"
    unfolding mapJSON_def jsonObject_def members [OF subset_refl]
    using length_joinWith [of "'',''" "map jsonMember (map (\<lambda>k. (k, jsonString (the (fmlookup m k)))) ?ks)"]
    by (simp add: comp_def)
  moreover have "length (jsonMember (k, jsonString (the (fmlookup m k)))) + 1 \<le> n + 6" if "k \<in> set ?ks" for k
    using some [OF that] assms by (auto simp: jsonMember_def length_jsonString)
  then have "sum_list (map (\<lambda>k. length (jsonMember (k, jsonString (the (fmlookup m k)))) + 1) ?ks) \<le> length ?ks * (n + 6)"
    using sum_list_mono [of ?ks "\<lambda>k. length (jsonMember (k, jsonString (the (fmlookup m k)))) + 1" "\<lambda>_. n + 6"]
    by (simp add: sum_list_triv)
  ultimately show ?thesis by (simp add: len)
qed

lemma gxHash_length [simp]: "length gxHash = 71" "plain gxHash"
proof -
  show "plain gxHash" by (rule plain_digest [OF gxHash_valid])
  show "length gxHash = 71" by (simp add: gxHash_def Digest_def)
qed

lemma gxBody_short: "length (bootstrapJSON gxBootstrap) \<le> hostedMaxHandshakeBytes"
proof -
  let ?m = "fmap_of_list gxPairs"
  have pairs: "\<forall>(k, v) \<in> set gxPairs. plain k \<and> plain v \<and> length k + length v \<le> 200"
    by (simp add: gxPairs_def) (simp add: plain_code byte_def)
  have "plain k \<and> plain v \<and> length k + length v \<le> 200" if "fmlookup ?m k = Some v" for k v
    using that pairs by (auto simp: fmlookup_of_list dest: map_of_SomeD)
  from mapJSON_short [of ?m 200, OF this] have "length (mapJSON ?m) \<le> fcard (fmdom ?m) * 206 + 2" by simp
  moreover have "fcard (fmdom ?m) \<le> 15"
  proof -
    have "card (set (map fst gxPairs)) \<le> length (map fst gxPairs)" by (rule card_length)
    then show ?thesis by (simp add: fcard.rep_eq fset_of_list.rep_eq) (simp add: gxPairs_def)
  qed
  ultimately have "length (mapJSON ?m) \<le> 3092" by linarith
  moreover have "plain (replicate 32 (CHR ''x''))" by (simp add: plain_def plainChar_def byte_def list_all_iff)
  moreover have "plain ''environment''" "plain ''controllerToken''" "plain ''capabilitySecret''" "plain ''providerToken''"
    by (simp_all add: plain_code byte_def)
  ultimately show ?thesis
    by (simp add: bootstrapJSON_def gxBootstrap_def placeholderBootstrap_def jsonObject_def jsonMember_def length_jsonString
        hostedMaxHandshakeBytes_def)
qed

section \<open>The outside world\<close>

definition gxChallenge :: hostedChallenge where
  "gxChallenge = \<lparr>hcProtocol = hostedProtocol, hcDeploymentID = ''d'', hcConfigurationDigest = gxHash, hcAgentName = ''a'',
     hcAgentVersion = ''1'', hcSessionID = ''s'', hcBootID = ''b'', hcNonce = b64Encode hxBytes\<rparr>"

definition gxAccepted :: "string \<Rightarrow> hostedAccepted" where
  "gxAccepted role = \<lparr>haProtocol = hostedProtocol, haPairID = ''p'', haRole = role, haBootID = ''b'', haBootstrapDigest = gxHash\<rparr>"

text \<open>Every request is answered by \<open>send\<close>; the acknowledgements of the two channels follow each other.\<close>

definition gxWorld :: "(remoteRequest \<Rightarrow> remoteReply option) \<Rightarrow> gatewayWorld" where
  "gxWorld send = \<lparr>gvToken = (\<lambda>_. Some ''..''), gvDone = (\<lambda>_. False), gvNow = (\<lambda>_. 0), gvUUID = (\<lambda>_. ''p''), gvIO = (\<lambda>_. allIO),
     gvSend = (\<lambda>_. send), gvDial = (\<lambda>_. True), gvWrite = (\<lambda>_. True), gvRead = (\<lambda>t. Some (if t < 22 then ''forward'' else ''reverse'')),
     gvHTTP2 = (\<lambda>_. True), gvHeaderValid = (\<lambda>_. True), gvURLParses = (\<lambda>_. True),
     gvClaims = (\<lambda>_. Some \<lparr>clAudience = ''https://ai.azure.com'', clTenant = ''u'', clObject = ''u'', clApp = [], clAZP = []\<rparr>),
     gvAgent = (\<lambda>_. Some \<lparr>raName = ''a'', raSchemes = [''x'']\<rparr>), gvScheme = (\<lambda>_. Some ''entra''),
     gvVersion = (\<lambda>_. Some \<lparr>hvName = ''a'', hvVersion = ''1'', hvStatus = ''active'', hvKind = ''hosted'',
       hvImage = ''i@'' @ gxHash, hvProtocols = [(''invocations_ws'', ''2.0.0'')]\<rparr>),
     gvSession = (\<lambda>_ _. Some \<lparr>rsID = ''s'', rsVersionType = ''version_ref'', rsVersion = ''1'', rsStatus = ''active''\<rparr>),
     gvChallenge = (\<lambda>_. Some gxChallenge), gvAccepted = (\<lambda>role. Some (gxAccepted role)), gvReadyMessage = (\<lambda>_. None),
     gvCapabilities = (\<lambda>_. None)\<rparr>"

definition gxOk :: "nat \<Rightarrow> remoteReply" where
  "gxOk status = \<lparr>ryStatus = status, ryContentType = [], ryBody = [], ryFails = False\<rparr>"

definition gxLedger :: "bool \<Rightarrow> hostedGatewayLedger" where
  "gxLedger made = \<lparr>glVersion = 1, glConfigDigest = gxHash, glSessionID = ''s'', glPrincipalDigest = gxHash,
     glCreateAttempted = made, glSessionCreated = made, glExposurePossible = False, glChallenge = noChallenge,
     glPairID = [], glBootstrapDigest = [], glReady = False, glClosed = False\<rparr>"

definition gxStart :: "bool \<Rightarrow> hostedGateway" where
  "gxStart made = \<lparr>gwLedger = gxLedger made, gwDisk = None, gwReady = False, gwClosed = False, gwTrace = []\<rparr>"

definition gxGet :: "string \<Rightarrow> remoteRequest" where
  "gxGet suffix = \<lparr>rmMethod = ''GET'', rmURL = gatewayURL gxConfig suffix, rmAuthorization = ''Bearer ..'', rmBody = []\<rparr>"

lemma gxConfig_fields [simp]: "hgImage gxConfig = gxImage" "htAgentName (hiTarget gxImage) = ''a''"
  "htAgentVersion (hiTarget gxImage) = ''1''" "hgSessionID gxConfig = ''s''" "hgContainerImage gxConfig = ''i@'' @ gxHash"
  "hiDeploymentID gxImage = ''d''"
  by (simp_all add: gxConfig_def gxImage_def)

lemma gxWorld_fields [simp]: "gvAgent (gxWorld send) [] = Some \<lparr>raName = ''a'', raSchemes = [''x'']\<rparr>"
  "gvScheme (gxWorld send) x = Some ''entra''" "gvVersion (gxWorld send) [] = Some \<lparr>hvName = ''a'', hvVersion = ''1'',
     hvStatus = ''active'', hvKind = ''hosted'', hvImage = ''i@'' @ gxHash, hvProtocols = [(''invocations_ws'', ''2.0.0'')]\<rparr>"
  "gvSession (gxWorld send) s x = Some \<lparr>rsID = ''s'', rsVersionType = ''version_ref'', rsVersion = ''1'', rsStatus = ''active''\<rparr>"
  "gvDial (gxWorld send) t" "gvWrite (gxWorld send) t" "gvDone (gxWorld send) t = False" "gvUUID (gxWorld send) t = ''p''"
  "gvNow (gxWorld send) t = 0" "gvIO (gxWorld send) t = allIO" "gvChallenge (gxWorld send) x = Some gxChallenge"
  "gvToken (gxWorld send) t = Some ''..''" "gvHeaderValid (gxWorld send) x" "gvURLParses (gxWorld send) x" "gvHTTP2 (gxWorld send) t"
  "gvSend (gxWorld send) t = send" "gvRead (gxWorld send) t = Some (if t < 22 then ''forward'' else ''reverse'')"
  "gvAccepted (gxWorld send) role = Some (gxAccepted role)" "gvReadyMessage (gxWorld send) x = None"
  by (simp_all add: gxWorld_def)


text \<open>One step of each primitive.\<close>

lemma run_query [simp]: "run_state (query f) (t, g) = (f t, (Suc t, g))"
  by (simp add: query_def)

lemma run_note [simp]: "run_state (note' ev) (t, g) = ((), (t, g\<lparr>gwTrace := gwTrace g @ [ev]\<rparr>))"
  by (simp add: note'_def)

lemma run_current [simp]: "run_state current (t, g) = (gwLedger g, (t, g))"
  by (simp add: current_def)

lemma run_ret [simp]: "run_state (State_Monad.return x) s = (x, s)"
  by (simp add: State_Monad.return_def)

lemma gxPrincipal: "hostedPrincipal (gxWorld send) gxH ''..'' = Some gxHash"
  by (simp add: hostedPrincipal_def gxWorld_def b64Loose_def trimRightChar_def gxUUID claimsDigest_def)

lemma gxHash_nonempty [simp]: "gxHash \<noteq> []"
  using gxHash_length by force

lemma gxToken:
  assumes "glPrincipalDigest (gwLedger g) = gxHash"
  shows "run_state (accessToken (gxWorld send) gxH) (t, g) = (Some ''..'', (Suc t, g))"
  using assms by (simp add: accessToken_def run_bind gxPrincipal)

lemma gxPrepare:
  assumes "glPrincipalDigest (gwLedger g) = gxHash"
  shows "run_state (prepareRemoteJSON (gxWorld send) gxH gxConfig method suffix body) (t, g) =
    (Some \<lparr>rmMethod = method, rmURL = gatewayURL gxConfig suffix, rmAuthorization = ''Bearer ..'', rmBody = body\<rparr>,
      (Suc (Suc (Suc t)), g))"
  using assms by (simp add: prepareRemoteJSON_def run_bind gxToken)

lemma gxSend:
  assumes "send r = Some (gxOk status)"
  shows "run_state (sendRemoteJSON (gxWorld send) decode r) (t, g) =
    ((status, 200 \<le> status \<and> status < 300 \<and> decode [] = None, if 200 \<le> status \<and> status < 300 then decode [] else None),
      (Suc t, g\<lparr>gwTrace := gwTrace g @ [GvRequest r, GvReplied r status]\<rparr>))"
  using assms by (cases "decode []") (simp_all add: sendRemoteJSON_def run_bind gxOk_def)

lemma gxGetJSON:
  assumes "send (gxGet suffix) = Some (gxOk status)" "glPrincipalDigest (gwLedger g) = gxHash"
  shows "run_state (gatewayJSON (gxWorld send) gxH gxConfig ''GET'' suffix [] decode) (t, g) =
    ((status, 200 \<le> status \<and> status < 300 \<and> decode [] = None, if 200 \<le> status \<and> status < 300 then decode [] else None),
      (Suc (Suc (Suc (Suc t))), g\<lparr>gwTrace := gwTrace g @ [GvRequest (gxGet suffix), GvReplied (gxGet suffix) status]\<rparr>))"
proof -
  have r: "\<lparr>rmMethod = ''GET'', rmURL = gatewayURL gxConfig suffix, rmAuthorization = ''Bearer ..'', rmBody = []\<rparr> = gxGet suffix"
    by (simp add: gxGet_def)
  show ?thesis using assms by (simp add: gatewayJSON_def run_bind gxPrepare r gxSend)
qed

lemma gxRemote:
  assumes "send (gxGet []) = Some (gxOk 200)" "send (gxGet ''/versions/1'') = Some (gxOk 200)"
    "glPrincipalDigest (gwLedger g) = gxHash"
  shows "run_state (validateRemote (gxWorld send) gxH gxConfig) (t, g) =
    (True, (t + 8, g\<lparr>gwTrace := gwTrace g @ [GvRequest (gxGet []), GvReplied (gxGet []) 200, GvRequest (gxGet ''/versions/1''),
      GvReplied (gxGet ''/versions/1'') 200]\<rparr>))"
proof -
  have "equalFold ''entra'' ''entra''" by (simp add: equalFold_def)
  then show ?thesis
    using assms by (simp add: validateRemote_def run_bind gxGetJSON protocolsValid_def)
qed

section \<open>A start that sends the bootstrap message\<close>

lemma gxMatches: "sessionMatches gxConfig \<lparr>rsID = ''s'', rsVersionType = ''version_ref'', rsVersion = ''1'', rsStatus = x\<rparr>"
  by (simp add: sessionMatches_def)

lemma gxEnsure:
  assumes "send (gxGet (SessionSuffix ''s'')) = Some (gxOk 200)" "glPrincipalDigest (gwLedger g) = gxHash"
    "glCreateAttempted (gwLedger g)" "glSessionCreated (gwLedger g)"
  shows "run_state (ensureSession (gxWorld send) gxH gxConfig) (t, g) =
    (True, (t + 4, g\<lparr>gwTrace := gwTrace g @ [GvRequest (gxGet (SessionSuffix ''s'')), GvReplied (gxGet (SessionSuffix ''s'')) 200]\<rparr>))"
  using assms by (simp add: ensureSession_def run_bind gxGetJSON sessionActive_def gxMatches)

lemma gxChallenge_matches: "challengeMatches gxH gxConfig gxChallenge"
  by (simp add: challengeMatches_def gxChallenge_def gxUUID hxBytes_ok)

lemma gxOpen:
  assumes "glPrincipalDigest (gwLedger g) = gxHash"
  shows "run_state (openChannel (gxWorld send) gxH gxConfig role) (t, g) =
    (Some gxChallenge, (t + 3, g\<lparr>gwTrace := gwTrace g @ [GvDialed role]\<rparr>))"
  using assms by (simp add: openChannel_def run_bind gxToken gxChallenge_matches)

lemma gxSigning:
  assumes "role = ''forward'' \<or> role = ''reverse''"
  shows "\<exists>w. signHostedHello gxH \<lparr>hhChallenge = gxChallenge, hhPairID = ''p'', hhRole = role, hhBootstrapDigest = gxHash,
    hhExpiresAt = 60, hhSignature = []\<rparr> hxKey = Some w"
proof -
  have nz: "hostedNonzeroBytes (replicate 32 (CHR ''k''))"
    by (rule hostedNonzeroBytes_replicate; simp add: byte_def)+
  have "hostedSigningKeyValid gxH hxKey" using nz by (simp add: hostedSigningKeyValid_def hxKey_def gxH_def hxBase_def)
  with assms show ?thesis
    by (auto simp: signHostedHello_def hostedHelloSigningBytes_def gxChallenge_def gxUUID gxAgent gxOne hxBytes_ok)
qed

lemma gxSign:
  assumes "role = (if t + 2 < 22 then ''forward'' else ''reverse'')"
  shows "\<exists>w. run_state (signChannel (gxWorld send) gxH hxKey gxChallenge ''p'' gxHash role) (t, g) =
    (True, (t + 3, g\<lparr>gwTrace := gwTrace g @ [GvHello w]\<rparr>))"
proof -
  from assms have "role = ''forward'' \<or> role = ''reverse''" by auto
  from gxSigning [OF this] obtain w where w: "signHostedHello gxH \<lparr>hhChallenge = gxChallenge, hhPairID = ''p'', hhRole = role,
    hhBootstrapDigest = gxHash, hhExpiresAt = 60, hhSignature = []\<rparr> hxKey = Some w" by blast
  have "hcBootID gxChallenge = ''b''" by (simp add: gxChallenge_def)
  then show ?thesis using w assms by (intro exI [of _ w]) (simp add: signChannel_def run_bind gxAccepted_def)
qed

lemma gxPlain_protocol: "plain hostedProtocol"
  by (simp add: plain_code hostedProtocol_def byte_def)

lemma gxNames: "list_all plain [''protocol'', ''deploymentID'', ''configurationDigest'', ''agentName'', ''agentVersion'',
    ''sessionID'', ''bootID'', ''nonce'', ''version'', ''configDigest'', ''principalDigest'', ''createAttempted'', ''sessionCreated'',
    ''exposurePossible'', ''challenge'', ''pairID'', ''bootstrapDigest'', ''ready'', ''closed'']"
  by (simp add: plain_code byte_def)

lemma gxChallenge_short: "length (challengeJSON gxChallenge) \<le> 1000" "length (challengeJSON noChallenge) \<le> 1000"
proof -
  have "length (b64Encode hxBytes) = encodedLen 32" by (simp add: b64Encode_def length_b64Digits hxBytes_def)
  then have n: "plain (b64Encode hxBytes)" "length (b64Encode hxBytes) = 43" "length hostedProtocol \<le> 100" "plain []"
    using plain_b64 by (simp_all add: hostedProtocol_def plain_def encodedLen_def)
  with gxNames show "length (challengeJSON gxChallenge) \<le> 1000" "length (challengeJSON noChallenge) \<le> 1000"
    by (simp_all add: challengeJSON_def gxChallenge_def noChallenge_def jsonObject_def jsonMember_def length_jsonString gxPlain_protocol)
qed

lemma gxSave:
  assumes "glVersion l = 1" "glConfigDigest l = gxHash" "glSessionID l = ''s''" "glPrincipalDigest l = gxHash"
    "glPairID l = [] \<or> glPairID l = ''p''" "glBootstrapDigest l = [] \<or> glBootstrapDigest l = gxHash"
    "glChallenge l = noChallenge \<or> glChallenge l = gxChallenge"
  shows "saveGateway allIO l d = (True, Some (gatewayLedgerJSON l))"
proof -
  have c: "length (challengeJSON (glChallenge l)) \<le> 1000" using assms(7) gxChallenge_short by auto
  have b: "length (boolJSON x) \<le> 5" for x by (simp add: boolJSON_def)
  have v: "length (formatUint 1) = 1" by (simp add: formatUint.simps)
  have "length (gatewayLedgerJSON l) \<le> hostedMaxHandshakeBytes"
    using assms(1-6) gxNames c b [of "glCreateAttempted l"] b [of "glSessionCreated l"] b [of "glExposurePossible l"]
      b [of "glReady l"] b [of "glClosed l"] v
    by (elim disjE; simp add: gatewayLedgerJSON_def jsonObject_def jsonMember_def length_jsonString omitEmptyString_def
        hostedMaxHandshakeBytes_def)
  then show ?thesis by (simp add: saveGateway_def allIO_def)
qed

definition gxAlways :: "remoteRequest \<Rightarrow> remoteReply option" where
  "gxAlways r = Some (gxOk 200)"

definition gxBody :: string where
  "gxBody = bootstrapJSON gxBootstrap"

lemma gxRun:
  "\<exists>tr d. newHostedGateway (gxWorld gxAlways) gxH gxFiles True gxSettings (Some (gxLedger True), None) = (None, tr, d) \<and>
    GvBootstrap gxBody \<in> set tr"
proof -
  let ?W = "gxWorld gxAlways"
  have always: "gxAlways r = Some (gxOk 200)" for r by (simp add: gxAlways_def)
  define T1 where "T1 = [GvRequest (gxGet []), GvReplied (gxGet []) 200, GvRequest (gxGet ''/versions/1''),
      GvReplied (gxGet ''/versions/1'') 200]"
  define T2 where "T2 = [GvRequest (gxGet (SessionSuffix ''s'')), GvReplied (gxGet (SessionSuffix ''s'')) 200]"
  have start: "glPrincipalDigest (gwLedger (gxStart True\<lparr>gwTrace := x\<rparr>)) = gxHash" "glCreateAttempted (gwLedger (gxStart True\<lparr>gwTrace := x\<rparr>))"
    "glSessionCreated (gwLedger (gxStart True\<lparr>gwTrace := x\<rparr>))" for x by (simp_all add: gxStart_def gxLedger_def)
  have 1: "run_state (validateRemote ?W gxH gxConfig) (0, gxStart True) = (True, (8, gxStart True\<lparr>gwTrace := T1\<rparr>))"
    using gxRemote [of gxAlways "gxStart True" 0] by (simp add: always T1_def gxStart_def gxLedger_def)
  have 2: "run_state (ensureSession ?W gxH gxConfig) (8, gxStart True\<lparr>gwTrace := T1\<rparr>) =
      (True, (12, gxStart True\<lparr>gwTrace := T1 @ T2\<rparr>))"
    by (subst gxEnsure) (use start in \<open>simp_all add: always T2_def\<close>)
  have 3: "run_state (openChannel ?W gxH gxConfig role) (t, gxStart True\<lparr>gwTrace := x\<rparr>) =
      (Some gxChallenge, (t + 3, gxStart True\<lparr>gwTrace := x @ [GvDialed role]\<rparr>))" for role t x
    by (subst gxOpen) (use start in simp_all)
  obtain w1 where 4: "run_state (signChannel ?W gxH hxKey gxChallenge ''p'' gxHash ''forward'')
      (19, gxStart True\<lparr>gwTrace := T1 @ T2 @ [GvDialed ''forward'', GvDialed ''reverse'']\<rparr>) =
      (True, (22, gxStart True\<lparr>gwTrace := T1 @ T2 @ [GvDialed ''forward'', GvDialed ''reverse'', GvHello w1]\<rparr>))"
    using gxSign [where role = "''forward''" and t = 19 and send = gxAlways and
        g = "gxStart True\<lparr>gwTrace := T1 @ T2 @ [GvDialed ''forward'', GvDialed ''reverse'']\<rparr>"] by auto
  obtain w2 where 5: "run_state (signChannel ?W gxH hxKey gxChallenge ''p'' gxHash ''reverse'')
      (22, gxStart True\<lparr>gwTrace := T1 @ T2 @ [GvDialed ''forward'', GvDialed ''reverse'', GvHello w1]\<rparr>) =
      (True, (25, gxStart True\<lparr>gwTrace := T1 @ T2 @ [GvDialed ''forward'', GvDialed ''reverse'', GvHello w1, GvHello w2]\<rparr>))"
    using gxSign [where role = "''reverse''" and t = 22 and send = gxAlways and
        g = "gxStart True\<lparr>gwTrace := T1 @ T2 @ [GvDialed ''forward'', GvDialed ''reverse'', GvHello w1]\<rparr>"] by auto
  define G where "G = gxStart True\<lparr>gwTrace := T1 @ T2 @ [GvDialed ''forward'', GvDialed ''reverse'', GvHello w1, GvHello w2]\<rparr>"
  obtain g where 6: "run_state (expose ?W gxConfig gxBody gxChallenge ''p'' gxHash) (25, G) = (False, (28, g))"
      "GvBootstrap gxBody \<in> set (gwTrace g)"
    by (simp add: expose_def run_bind saveNext_def gxSave G_def gxStart_def gxLedger_def)
  have 7: "run_state (initialize ?W gxH True gxSettings) (0, gxStart True) = (False, (28, g))"
    using gxBody_short 1 2 3 4 5 6(1) by (simp add: initialize_def gxSettings_def gxBody_def [symmetric] run_bind G_def)
  have v: "validateHostedGatewayConfig gxH gxFiles (hsConfig gxSettings)"
      "validateHostedBootstrap gxH (hgImage (hsConfig gxSettings)) (hsBootstrap gxSettings)"
    using gxConfig_valid gxBootstrap_valid by (simp_all add: gxSettings_def)
  have "gwTrace (closeGateway io g) = gwTrace g" for io by (simp add: closeGateway_def Let_def)
  with 6(2) 7 v show ?thesis
    by (simp add: newHostedGateway_def gxStart_def Let_def) (simp add: gxLedger_def)
qed

section \<open>A start whose creation request is lost\<close>





section \<open>Witnesses\<close>

theorem exposure_recorded_witness:
  "\<exists>tr d. newHostedGateway (gxWorld gxAlways) gxH gxFiles True gxSettings (Some (gxLedger True), None) = (None, tr, d) \<and>
    bootstraps tr = [gxBody]"
  using gxRun exposure_recorded by blast

text \<open>A decoder of the ledger that reads back an exposed and attempted ledger from any document.\<close>

definition gxDecode :: "string \<Rightarrow> hostedGatewayLedger option" where
  "gxDecode data = Some ((gxLedger True)\<lparr>glExposurePossible := True\<rparr>)"

theorem bootstrap_never_resent_witness:
  "\<exists>d. newHostedGateway (gxWorld gxAlways) gxH gxFiles True gxSettings
     (openHostedGatewayStore gxH gxDecode ''/s'' gxConfig (Some False) (Present True 1) d allIO d) = (None, [], d)"
proof -
  obtain tr d where run: "newHostedGateway (gxWorld gxAlways) gxH gxFiles True gxSettings (Some (gxLedger True), None) = (None, tr, d)"
    "GvBootstrap gxBody \<in> set tr" using gxRun by blast
  show ?thesis by (rule exI [of _ d], rule bootstrap_never_resent [OF run _ refl]) (auto simp: gxDecode_def)
qed


end
