(* ===== verification/HostedExample.thy ===== *)
theory HostedExample
  imports HostedServed GatewayExample AsciiText
begin

text \<open>
  A concrete container: both channels are opened and authenticated, the bootstrap message arrives, the
  supervisor runs, and a shutdown ends it.
\<close>

definition sxRequest :: relayRequest where
  "sxRequest = \<lparr>rqMethod = ''GET'', rqScheme = [], rqURLHost = [], rqHost = [], rqPath = ''/invocations_ws'', rqRawPath = [],
     rqRawQuery = [], rqOpaque = [], rqFragment = [], rqHasUser = False, rqUpgrade = [], rqAuthorization = [], rqBody = []\<rparr>"

definition sxHello :: "string \<Rightarrow> hostedHello" where
  "sxHello role = \<lparr>hhChallenge = gxChallenge, hhPairID = ''p'', hhRole = role, hhBootstrapDigest = gxHash, hhExpiresAt = 1,
     hhSignature = b64Encode (replicate 64 (CHR ''s''))\<rparr>"

definition sxAgent :: agentConfig where
  "sxAgent = \<lparr>acModel = ''m'', acToolSchemaMode = ToolSchemaModeRequest, acHostedTarget = hiTarget gxImage\<rparr>"

definition sxWorld :: containerWorld where
  "sxWorld = \<lparr>cnHello = (\<lambda>role. Some (sxHello role)), cnBootstrap = (\<lambda>_. Some gxBootstrap), cnAgent = (\<lambda>_. Some sxAgent),
     cnSafe = (\<lambda>_. True), cnHealth = (\<lambda>_. Some (''orka.harness.v2'', ''ok'')), cnQuery = (\<lambda>_. Some [])\<rparr>"

definition sxGetenv :: "string \<Rightarrow> string" where
  "sxGetenv k = (if k = ''FOUNDRY_PROJECT_ENDPOINT'' then gxEndpoint else if k = ''FOUNDRY_AGENT_NAME'' then ''a''
     else if k = ''FOUNDRY_AGENT_VERSION'' then ''1'' else if k = ''FOUNDRY_AGENT_SESSION_ID'' then ''s'' else gxHash)"

definition sxFiles :: hostedFiles where
  "sxFiles = gxFiles\<lparr>hfFile := (\<lambda>_. Some (True, 2, ''{}'')), hfGetenv := sxGetenv\<rparr>"

definition sxServer :: hostedServer where
  "sxServer = \<lparr>svImage = gxImage, svChallenge = gxChallenge, svAdapterDigest = gxHash, svAgentConfig = ''{}'', svCancelled = False,
     svPair = None\<rparr>"

definition sxStart :: supervisorSystem where
  "sxStart = \<lparr>sySrv = sxServer, syNow = unixTime 1 - 1, syChannels = fmempty, syRun = RunNone, syProcess = SpNone,
     syForwardReady = False, syTrace = []\<rparr>"

lemma sxServer_made: "newHostedServer gxH sxFiles True ''b'' (Some hxBytes) gxImage = Some sxServer"
proof -
  have keys: "sxGetenv ''FOUNDRY_PROJECT_ENDPOINT'' = gxEndpoint" "sxGetenv ''FOUNDRY_AGENT_NAME'' = ''a''"
    "sxGetenv ''FOUNDRY_AGENT_VERSION'' = ''1''" "sxGetenv ''FOUNDRY_AGENT_SESSION_ID'' = ''s''"
    "sxGetenv ''ORKA_ACP_FOUNDRY_ADAPTER_DIGEST'' = gxHash" by (simp_all add: sxGetenv_def)
  have "trimRightChar gxEndpoint (CHR ''/'') = gxEndpoint" by (simp add: gxEndpoint_def trimRightChar_def)
  moreover have "heUUID gxH ''s'' = Some (False, ''s'')" by (simp add: gxH_def hxBase_def)
  moreover have "readHostedFile sxFiles ''/agent/foundry.json'' MaxAgentConfigBytes = Some ''{}''"
    by (simp add: readHostedFile_def isAbs_def hasPrefix_def sxFiles_def gxFiles_def MaxAgentConfigBytes_def)
  ultimately show ?thesis
    using gxImage_valid gxUUID [of "''s''"]
    by (simp add: newHostedServer_def Let_def sxFiles_def keys sxServer_def gxChallenge_def) (simp add: gxImage_def)
qed

lemma sxVerify:
  assumes "role = ''forward'' \<or> role = ''reverse''"
  shows "verifyHostedHello gxH (sxHello role) gxChallenge (b64Encode hxBytes) (unixTime 1 - 1)"
proof -
  have "hostedNonzeroBytes (replicate 64 (CHR ''s''))" by (rule hostedNonzeroBytes_replicate) (simp_all add: byte_def)
  from hostedCanonicalBytes_round [OF this] have "hostedCanonicalBytes (b64Encode (replicate 64 (CHR ''s''))) 64 \<noteq> None" by simp
  moreover have "hostedHelloSigningBytes gxH (sxHello role) \<noteq> None"
    using assms by (auto simp: hostedHelloSigningBytes_def sxHello_def gxChallenge_def gxUUID gxAgent gxOne hxBytes_ok)
  ultimately show ?thesis using gxPublic by (auto simp: verifyHostedHello_def sxHello_def gxH_def hxBase_def)
qed

lemma sxAgent_decoded: "DecodeAgentConfig (heSha gxH) (\<lambda>_. Some sxAgent) (\<lambda>_. True) ''{}'' gxHash ''m'' \<noteq> None"
proof -
  have "''sha256:'' @ hexEncode (heSha gxH ''{}'') = gxHash" by (simp add: gxHash_def Digest_def gxH_def hxBase_def)
  moreover have "SafeString ''m'' 512" by (rule plain_SafeString) simp_all
  moreover have "ValidateAgentName ''a''" by (rule gxAgent)
  moreover have "trimSpace gxEndpoint = gxEndpoint"
    by (simp add: gxEndpoint_def trimSpace_ascii isSpace_def byte_def list_all_iff)
  moreover have "ValidateAgentVersion ''1''" "\<not> equalFold ''1'' ''latest''"
    by (simp_all add: runes_all_ascii isControl_def byte_def equalFold_def ValidateAgentVersion_def agentVersionRE_def hasPrefix_def
        isAlnum_def isDigit_def list_all_iff list_ex_iff)
  ultimately show ?thesis unfolding DecodeAgentConfig_def Let_def option.case MaxAgentConfigBytes_def sxAgent_def gxImage_def by simp
qed

lemma sxBootstrap: "svAgentConfig s = ''{}'' \<Longrightarrow> kpBootstrapDigest p = gxHash \<Longrightarrow> svImage s = gxImage \<Longrightarrow> svAdapterDigest s = gxHash \<Longrightarrow>
    receiveBootstrap gxH sxWorld s p (Some (True, data)) = Some gxBootstrap"
proof -
  assume s: "svAgentConfig s = ''{}''" "kpBootstrapDigest p = gxHash" "svImage s = gxImage" "svAdapterDigest s = gxHash"
  have v: "bootstrapValue gxBootstrap ''ORKA_ACP_FOUNDRY_ADAPTER_DIGEST'' = gxHash" "bootstrapValue gxBootstrap ''ORKA_ACP_MODEL'' = ''m''"
    by (simp_all add: bootstrapValue_def gxBootstrap_def placeholderBootstrap_def gxPairs_def fmlookup_of_list)
  have "hiAgentConfigurationDigest gxImage = gxHash" by (simp add: gxImage_def)
  with s v gxBootstrap_valid sxAgent_decoded show ?thesis
    by (simp add: receiveBootstrap_def sxWorld_def)
qed

section \<open>The execution\<close>

abbreviation sxReach :: "supervisorSystem \<Rightarrow> bool" where "sxReach \<equiv> serverReachable gxH sxWorld"

definition sxOpen :: supervisorSystem where
  "sxOpen = setChannel 2 CpGreeted (setChannel 0 CpGreeted sxStart)"

lemma sxOpen_reached: "sxReach sxOpen"
proof -
  have start: "sxReach sxStart" unfolding sxStart_def by (rule serverReachable.start [OF sxServer_made])
  have route: "serveHosted sxWorld sxServer sxRequest [] = SrUpgraded"
    by (simp add: serveHosted_def sxRequest_def hostedRoutingQuery_def sxWorld_def sxServer_def)
  have "sxReach (setChannel 0 CpGreeted sxStart)"
    by (rule serverReachable.step [OF start serverStep.opened [where origin = "[]" and r = sxRequest]]) (simp_all add: sxStart_def route)
  then show ?thesis unfolding sxOpen_def
    by (rule serverReachable.step [OF _ serverStep.opened [where origin = "[]" and r = sxRequest]]) (simp_all add: sxStart_def route)
qed

definition sxBoth :: supervisorSystem where
  "sxBoth = setChannel 2 (CpVerified (sxHello ''reverse'')) (noteEvent (SvHello (sxHello ''reverse'') (unixTime 1 - 1))
     (setChannel 0 (CpVerified (sxHello ''forward'')) (noteEvent (SvHello (sxHello ''forward'') (unixTime 1 - 1)) sxOpen)))"

lemma sxOpen_fields [simp]: "sySrv sxOpen = sxServer" "syNow sxOpen = unixTime 1 - 1" "syRun sxOpen = RunNone" "syTrace sxOpen = []"
  "fmlookup (syChannels sxOpen) 0 = Some CpGreeted" "fmlookup (syChannels sxOpen) 2 = Some CpGreeted"
  "syNow (noteEvent ev S) = syNow S" "syNow (modServer f S) = syNow S"
  by (simp_all add: sxOpen_def sxStart_def noteEvent_def modServer_def)

lemma sxHellos: "role = ''forward'' \<or> role = ''reverse'' \<Longrightarrow> sySrv S = sxServer \<Longrightarrow> syNow S = unixTime 1 - 1 \<Longrightarrow>
    onHello gxH sxWorld c (Some (True, role)) S = setChannel c (CpVerified (sxHello role)) (noteEvent (SvHello (sxHello role) (unixTime 1 - 1)) S)"
proof -
  assume a: "role = ''forward'' \<or> role = ''reverse''" "sySrv S = sxServer" "syNow S = unixTime 1 - 1"
  then have "length role \<le> hostedMaxHandshakeBytes" by (auto simp: hostedMaxHandshakeBytes_def)
  moreover have "hiSigningPublicKey gxImage = b64Encode hxBytes" by (simp add: gxImage_def)
  ultimately show ?thesis using a sxVerify [OF a(1)] by (simp add: onHello_def readHostedWSJSON_def sxWorld_def sxServer_def)
qed

lemma sxBoth_reached: "sxReach sxBoth"
proof -
  let ?S = "onHello gxH sxWorld 0 (Some (True, ''forward'')) sxOpen"
  have one: "?S = setChannel 0 (CpVerified (sxHello ''forward'')) (noteEvent (SvHello (sxHello ''forward'') (unixTime 1 - 1)) sxOpen)"
    by (rule sxHellos) simp_all
  have "sxReach ?S" by (rule serverReachable.step [OF sxOpen_reached serverStep.hello]) simp
  then have "sxReach (onHello gxH sxWorld 2 (Some (True, ''reverse'')) ?S)"
    by (rule serverReachable.step [OF _ serverStep.hello]) (simp add: one)
  moreover have "onHello gxH sxWorld 2 (Some (True, ''reverse'')) ?S = sxBoth"
    unfolding one sxBoth_def by (rule sxHellos) simp_all
  ultimately show ?thesis by simp
qed

text \<open>The pair after both acknowledgements.\<close>

definition sxPair :: hostedPair where
  "sxPair = \<lparr>kpID = ''p'', kpBootstrapDigest = gxHash, kpForward = Some 0, kpReverse = Some 2, kpForwardAcked = True, kpReverseAcked = True,
     kpSetupDeadline = unixTime 1 - 1 + hostedInitializationWait, kpBootstrap = None, kpDone = False, kpStopped = False,
     kpShutdownErr = False, kpRunning = False\<rparr>"

lemma sxPaired_reached:
  "\<exists>S. sxReach S \<and> sySrv S = sxServer\<lparr>svPair := Some sxPair\<rparr> \<and> syNow S = unixTime 1 - 1 \<and> syRun S = RunNone \<and>
    fmlookup (syChannels S) 0 = Some (CpAcked (sxHello ''forward''))"
proof -
  let ?f = "sxHello ''forward''" and ?r = "sxHello ''reverse''"
  have h: "hhPairID (sxHello role) = ''p''" "hhBootstrapDigest (sxHello role) = gxHash" "hhRole (sxHello role) = role" for role
    by (simp_all add: sxHello_def)
  have b: "sySrv sxBoth = sxServer" "syNow sxBoth = unixTime 1 - 1" "syRun sxBoth = RunNone"
    "fmlookup (syChannels sxBoth) 0 = Some (CpVerified ?f)" "fmlookup (syChannels sxBoth) 2 = Some (CpVerified ?r)"
    by (simp_all add: sxBoth_def)
  let ?p0 = "(newPair (unixTime 1 - 1) ?f)\<lparr>kpForward := Some 0\<rparr>"
  let ?p1 = "?p0\<lparr>kpReverse := Some 2\<rparr>"
  define S1 where "S1 = onClaim 0 ?f sxBoth"
  have S1: "sySrv S1 = sxServer\<lparr>svPair := Some ?p0\<rparr>" "syNow S1 = unixTime 1 - 1" "syRun S1 = RunNone"
    "fmlookup (syChannels S1) 0 = Some (CpClaimed ?f)" "fmlookup (syChannels S1) 2 = Some (CpVerified ?r)"
    by (simp_all add: S1_def onClaim_def b claim_def sxServer_def newPair_def h)
  have r1: "sxReach S1" unfolding S1_def by (rule serverReachable.step [OF sxBoth_reached serverStep.claimed]) (rule b)
  define S2 where "S2 = onClaim 2 ?r S1"
  have S2: "sySrv S2 = sxServer\<lparr>svPair := Some ?p1\<rparr>" "syNow S2 = unixTime 1 - 1" "syRun S2 = RunNone"
    "fmlookup (syChannels S2) 0 = Some (CpClaimed ?f)" "fmlookup (syChannels S2) 2 = Some (CpClaimed ?r)"
    by (simp_all add: S2_def onClaim_def S1 claim_def sxServer_def newPair_def h)
  have r2: "sxReach S2" unfolding S2_def by (rule serverReachable.step [OF r1 serverStep.claimed]) (rule S1)
  define S3 where "S3 = onAck 2 ?r True S2"
  have S3: "sySrv S3 = sxServer\<lparr>svPair := Some (?p1\<lparr>kpReverseAcked := True\<rparr>)\<rparr>" "syNow S3 = unixTime 1 - 1" "syRun S3 = RunNone"
    "fmlookup (syChannels S3) 0 = Some (CpClaimed ?f)"
    by (simp_all add: S3_def onAck_def S2 acceptedFor_def modPair_def markAcked_def h)
  have r3: "sxReach S3" unfolding S3_def by (rule serverReachable.step [OF r2 serverStep.acked]) (rule S2)
  define S4 where "S4 = onAck 0 ?f True S3"
  have S4: "sySrv S4 = sxServer\<lparr>svPair := Some sxPair\<rparr>" "syNow S4 = unixTime 1 - 1" "syRun S4 = RunNone"
    "fmlookup (syChannels S4) 0 = Some (CpAcked ?f)"
    by (simp_all add: S4_def onAck_def S3 acceptedFor_def modPair_def markAcked_def h sxPair_def newPair_def)
  have "sxReach S4" unfolding S4_def by (rule serverReachable.step [OF r3 serverStep.acked]) (rule S3)
  with S4 show ?thesis by blast
qed

section \<open>Launch and shutdown\<close>

definition sxEnvironment :: "(string, string) fmap" where
  "sxEnvironment = supervisorEnvironment ''b'' gxBootstrap ''/tmp/d''"

lemma sxLaunched_reached:
  "\<exists>S p. sxReach S \<and> sySrv S = sxServer\<lparr>svPair := Some p\<rparr> \<and> kpRunning p \<and> \<not> kpShutdownErr p \<and> syRun S = RunHealth \<and>
    syProcess S = SpRunning \<and> (\<exists>tr. syTrace S = tr @ [SvLaunched sxEnvironment])"
proof -
  let ?f = "sxHello ''forward''" and ?p = "sxPair\<lparr>kpBootstrap := Some gxBootstrap\<rparr>"
  obtain S where S: "sxReach S" "sySrv S = sxServer\<lparr>svPair := Some sxPair\<rparr>" "syNow S = unixTime 1 - 1" "syRun S = RunNone"
    "fmlookup (syChannels S) 0 = Some (CpAcked ?f)" using sxPaired_reached by blast
  define S1 where "S1 = onBootstrap gxH sxWorld 0 ?f (Some (True, ''x'')) S"
  have boot: "receiveBootstrap gxH sxWorld (sySrv S) sxPair (Some (True, ''x'')) = Some gxBootstrap"
    by (rule sxBootstrap) (simp_all add: S sxServer_def sxPair_def)
  have S1: "sySrv S1 = sxServer\<lparr>svPair := Some ?p\<rparr>" "syNow S1 = unixTime 1 - 1" "syRun S1 = RunNone"
    "fmlookup (syChannels S1) 0 = Some CpDecided"
    using boot S by (simp_all add: S1_def onBootstrap_def modPair_def sxHello_def)
  have r1: "sxReach S1" unfolding S1_def by (rule serverReachable.step [OF S(1) serverStep.bootstrapped]) (rule S)
  define S2 where "S2 = onDecided 0 S1"
  have ready: "readyToStart (syNow S1) (sySrv S1)"
    by (simp add: readyToStart_def S1 sxPair_def sxServer_def hostedInitializationWait_def)
  then have S2: "sySrv S2 = sxServer\<lparr>svPair := Some (?p\<lparr>kpRunning := True\<rparr>)\<rparr>" "syRun S2 = RunStarting"
    by (simp_all add: S2_def onDecided_def maybeStart_def) (simp add: S1 modPair_def)
  have r2: "sxReach S2" unfolding S2_def by (rule serverReachable.step [OF r1 serverStep.decided]) (rule S1)
  define S3 where "S3 = onLaunch ''/tmp/d'' True S2"
  have S3: "sySrv S3 = sySrv S2" "syRun S3 = RunHealth" "syProcess S3 = SpRunning" "syTrace S3 = syTrace S2 @ [SvLaunched sxEnvironment]"
    by (simp_all add: S3_def onLaunch_def S2 startsProcess_def sxServer_def sxEnvironment_def gxChallenge_def)
  have r3: "sxReach S3" unfolding S3_def by (rule serverReachable.step [OF r2 serverStep.launched]) (rule S2)
  have "kpRunning (?p\<lparr>kpRunning := True\<rparr>)" "\<not> kpShutdownErr (?p\<lparr>kpRunning := True\<rparr>)" by (simp_all add: sxPair_def)
  with r3 S2 S3 show ?thesis by (intro exI [of _ S3] exI [of _ "?p\<lparr>kpRunning := True\<rparr>"]) simp
qed

theorem one_supervisor_witness:
  "\<exists>S pre. sxReach S \<and> syTrace S = pre @ [SvLaunched sxEnvironment] \<and>
    launchJustified gxH sxWorld (svImage (sySrv S)) (svChallenge (sySrv S)) pre sxEnvironment"
proof -
  obtain S tr where S: "sxReach S" "syTrace S = tr @ [SvLaunched sxEnvironment]" using sxLaunched_reached by blast
  then have "syTrace S = tr @ SvLaunched sxEnvironment # []" by simp
  from one_supervisor [OF S(1) this] S show ?thesis by blast
qed

definition sxProcess :: processWorld where
  "sxProcess = \<lparr>pwPid = 7, pwFirst = None, pwTerm = KillDone, pwGrace = Some False, pwKill = KillDone, pwKillWait = None,
     pwFinal = KillNoProcess, pwExitOk = True\<rparr>"

lemma sxStopped_reached:
  "\<exists>S. sxReach S \<and> closeAnswer (sySrv S) = Some True \<and> SvLaunched sxEnvironment \<in> set (syTrace S)"
proof -
  obtain S p tr where S: "sxReach S" "sySrv S = sxServer\<lparr>svPair := Some p\<rparr>" "kpRunning p" "\<not> kpShutdownErr p" "syRun S = RunHealth"
    "syProcess S = SpRunning" "syTrace S = tr @ [SvLaunched sxEnvironment]" using sxLaunched_reached by blast
  let ?r = "[Some (200, ''{}'')]"
  have h: "waitHostedSupervisor sxWorld ?r" by (simp add: waitHostedSupervisor_def supervisorHealthy_def sxWorld_def)
  define S1 where "S1 = onHealth sxWorld ?r True S"
  have S1: "sySrv S1 = sySrv S" "syRun S1 = RunServing" "syProcess S1 = SpRunning" "syForwardReady S1" "SvLaunched sxEnvironment \<in> set (syTrace S1)"
    using h S by (simp_all add: S1_def onHealth_def) (simp_all add: noteEvent_def)
  have r1: "sxReach S1" unfolding S1_def by (rule serverReachable.step [OF S(1) serverStep.health]) (rule S)
  define S2 where "S2 = modServer closeServer S1"
  have S2: "sySrv S2 = cancelServer (sySrv S)" "syRun S2 = RunServing" "syProcess S2 = SpRunning" "syForwardReady S2"
    "SvLaunched sxEnvironment \<in> set (syTrace S2)"
    using S(2,3) S1 by (simp_all add: S2_def closeServer_def) (simp add: modServer_def)
  have c: "svCancelled (cancelServer s)" for s by (simp add: cancelServer_def)
  have r2: "sxReach S2" unfolding S2_def by (rule serverReachable.step [OF r1 serverStep.shutdown])
  define S3 where "S3 = S2\<lparr>syRun := RunJoining\<rparr>"
  have S3: "sySrv S3 = cancelServer (sySrv S)" "syRun S3 = RunJoining" "syProcess S3 = SpRunning" "syForwardReady S3"
    "SvLaunched sxEnvironment \<in> set (syTrace S3)" using S2 by (simp_all add: S3_def)
  have r3: "sxReach S3" unfolding S3_def by (rule serverReachable.step [OF r2 serverStep.served]) (simp_all add: S2 c)
  define S4 where "S4 = onExit sxProcess S3"
  have w: "waitHostedSupervisorProcess sxProcess = (True, [PvSignal SigTerm, PvSignal SigKill, PvReap])"
    by (simp add: waitHostedSupervisorProcess_def sxProcess_def signalGroup_def reapLeader_def)
  have S4: "sySrv S4 = cancelServer (sySrv S)" "syRun S4 = RunJoining" "syProcess S4 = SpExited True" "syForwardReady S4"
    "SvLaunched sxEnvironment \<in> set (syTrace S4)" using S3 by (simp_all add: S4_def onExit_def w) (simp add: noteEvent_def)
  have r4: "sxReach S4" unfolding S4_def by (rule serverReachable.step [OF r3 serverStep.exited]) (simp_all add: S3 c)
  define S5 where "S5 = onReport True S4"
  have S5: "sySrv S5 = closePair (cancelServer (sySrv S))" "syRun S5 = RunJoining" "syProcess S5 = SpReported True"
    "SvLaunched sxEnvironment \<in> set (syTrace S5)" using S4 by (simp_all add: S5_def onReport_def)
  have r5: "sxReach S5" unfolding S5_def by (rule serverReachable.step [OF r4 serverStep.reported]) (rule S4)
  define S6 where "S6 = onJoined (Some True) S5"
  have "sxReach S6" unfolding S6_def by (rule serverReachable.step [OF r5 serverStep.joined]) (rule S5)+
  moreover have "closeAnswer (sySrv S6) = Some True"
    using S(2-4) by (simp add: S6_def onJoined_def S5 closeAnswer_def stopRun_def joinSupervisor_def closePair_def)
  moreover have "SvLaunched sxEnvironment \<in> set (syTrace S6)" using S5 by (simp add: S6_def onJoined_def)
  ultimately show ?thesis by blast
qed

theorem clean_stop_reaped_witness:
  "\<exists>S w. sxReach S \<and> pwExitOk w \<and> SvProcess (cleanReap w) \<in> set (syTrace S)"
proof -
  obtain S where S: "sxReach S" "closeAnswer (sySrv S) = Some True" "SvLaunched sxEnvironment \<in> set (syTrace S)"
    using sxStopped_reached by blast
  from clean_stop_reaped [OF this] S(1) show ?thesis by blast
qed

end
