(* ===== verification/HostedTransport.thy ===== *)
theory HostedTransport
  imports Prelude "HOL-Library.Sublist"
begin

text \<open>
  \<^verbatim>\<open>src/internal/hosted/transport.go\<close>: a byte stream over a websocket. A write is cut into binary messages, a
  read hands out the bytes of one validated message after the other, and the write deadline is a timer with
  a generation, so that a timer that was replaced cannot close the connection.
\<close>

section \<open>State\<close>

definition hostedWSMaxMessageBytes :: nat where "hostedWSMaxMessageBytes = 1048576"
definition hostedWSWriteChunkBytes :: nat where "hostedWSWriteChunkBytes = 262144"
definition hostedTransportWriteLimit :: int where "hostedTransportWriteLimit = 30 * 1000000000"

datatype transportError = TeClosed | TeMessage | TeDeadline | TeNetwork

text \<open>What the reader of the websocket finds next: a message, whether binary, with its bytes as they expand, or an error of
  the connection, whether a timeout.\<close>

datatype wsMessage = WsMessage bool string | WsFails bool

record wsWrite =
  wwLimit :: int
  wwDeadline :: int  \<comment> \<open>of the timer armed last\<close>
  wwGeneration :: nat
  wwTimedOut :: bool

record wsConn =
  wcInbox :: "wsMessage list"  \<comment> \<open>empty: nothing has come yet\<close>
  wcReadBuf :: string
  wcClosed :: bool
  wcWriteDeadline :: "int option"
  wcActive :: "wsWrite option"
  wcSent :: "string list"

definition closeConn :: "wsConn \<Rightarrow> wsConn" where
  "closeConn c = c\<lparr>wcClosed := True\<rparr>"

definition hostedTransportError :: "bool \<Rightarrow> transportError" where
  "hostedTransportError timeout = (if timeout then TeDeadline else TeNetwork)"

section \<open>Reading\<close>

text \<open>The next message into the buffer; \<open>None\<close> is a read that waits.\<close>

definition nextMessage :: "wsConn \<Rightarrow> (transportError + wsConn) option \<times> wsConn" where
  "nextMessage c = (case wcInbox c of
     [] \<Rightarrow> (None, c)
   | WsFails timeout # rest \<Rightarrow> (Some (Inl (hostedTransportError timeout)), closeConn (c\<lparr>wcInbox := rest\<rparr>))
   | WsMessage binary data # rest \<Rightarrow>
       if \<not> binary then (Some (Inl TeMessage), closeConn (c\<lparr>wcInbox := rest\<rparr>))
       else (let message = take (hostedWSMaxMessageBytes + 1) data in
         if message = [] \<or> length message > hostedWSMaxMessageBytes
         then (Some (Inl TeMessage), closeConn (c\<lparr>wcInbox := rest\<rparr>))
         else (Some (Inr (c\<lparr>wcInbox := rest, wcReadBuf := message\<rparr>)), c\<lparr>wcInbox := rest, wcReadBuf := message\<rparr>)))"

text \<open>\<open>Read\<close> into a buffer of \<open>n\<close> bytes.\<close>

definition connRead :: "nat \<Rightarrow> wsConn \<Rightarrow> (transportError + string) option \<times> wsConn" where
  "connRead n c =
     (if wcClosed c then (Some (Inl TeClosed), c)
      else if n = 0 then (Some (Inr []), c)
      else case (if wcReadBuf c = [] then nextMessage c else (Some (Inr c), c)) of
        (None, c1) \<Rightarrow> (None, c1)
      | (Some (Inl e), c1) \<Rightarrow> (Some (Inl e), c1)
      | (Some (Inr _), c1) \<Rightarrow> (Some (Inr (take n (wcReadBuf c1))), c1\<lparr>wcReadBuf := drop n (wcReadBuf c1)\<rparr>))"

section \<open>Write deadlines\<close>

definition armWriteTimer :: "int option \<Rightarrow> wsWrite \<Rightarrow> wsWrite" where
  "armWriteTimer deadline w = w\<lparr>wwDeadline := (case deadline of None \<Rightarrow> wwLimit w | Some d \<Rightarrow> if d < wwLimit w then d else wwLimit w),
     wwGeneration := Suc (wwGeneration w)\<rparr>"

definition beginWrite :: "int \<Rightarrow> wsConn \<Rightarrow> transportError option \<times> wsConn" where
  "beginWrite now c =
     (if wcClosed c then (Some TeClosed, c)
      else if (case wcWriteDeadline c of None \<Rightarrow> False | Some d \<Rightarrow> d \<le> now) then (Some TeDeadline, c)
      else (None, c\<lparr>wcActive := Some (armWriteTimer (wcWriteDeadline c)
        \<lparr>wwLimit = now + hostedTransportWriteLimit, wwDeadline = 0, wwGeneration = 0, wwTimedOut = False\<rparr>)\<rparr>))"

text \<open>The callback of the timer of a generation of the active write.\<close>

definition timerFires :: "nat \<Rightarrow> wsConn \<Rightarrow> wsConn" where
  "timerFires generation c = (case wcActive c of None \<Rightarrow> c | Some w \<Rightarrow>
     if wwGeneration w \<noteq> generation \<or> wcClosed c then c else closeConn (c\<lparr>wcActive := Some (w\<lparr>wwTimedOut := True\<rparr>)\<rparr>))"

definition finishWrite :: "wsConn \<Rightarrow> bool \<times> wsConn" where
  "finishWrite c = ((case wcActive c of None \<Rightarrow> False | Some w \<Rightarrow> wwTimedOut w), c\<lparr>wcActive := None\<rparr>)"

definition SetWriteDeadline :: "int option \<Rightarrow> wsConn \<Rightarrow> transportError option \<times> wsConn" where
  "SetWriteDeadline deadline c =
     (if wcClosed c then (Some TeClosed, c)
      else (None, c\<lparr>wcWriteDeadline := deadline,
        wcActive := map_option (\<lambda>w. if wwTimedOut w then w else armWriteTimer deadline w) (wcActive c)\<rparr>))"

section \<open>Writing\<close>

text \<open>The messages of a write. \<open>sends\<close> answers each \<open>WriteMessage\<close>, with a timeout or another error when it failed; \<open>meantime\<close>
  is what other goroutines, timers included, do to the connection during the message.\<close>

function (sequential) writeChunks :: "(nat \<Rightarrow> bool option) \<Rightarrow> (nat \<Rightarrow> wsConn \<Rightarrow> wsConn) \<Rightarrow> nat \<Rightarrow> string \<Rightarrow> wsConn \<Rightarrow>
    transportError option \<times> nat \<times> wsConn" where
  "writeChunks sends meantime n [] c = (None, n, c)"
| "writeChunks sends meantime n p c =
     (let c1 = meantime n c; chunk = take hostedWSWriteChunkBytes p in
      case sends n of
        Some timeout \<Rightarrow> (Some (hostedTransportError timeout), n, c1)
      | None \<Rightarrow> writeChunks sends meantime (n + length chunk) (drop hostedWSWriteChunkBytes p) (c1\<lparr>wcSent := wcSent c1 @ [chunk]\<rparr>))"
  by pat_completeness auto
termination
  by (relation "measure (\<lambda>(_, _, _, p, _). length p)") (simp_all add: hostedWSWriteChunkBytes_def)

definition connWrite :: "int \<Rightarrow> (nat \<Rightarrow> bool option) \<Rightarrow> (nat \<Rightarrow> wsConn \<Rightarrow> wsConn) \<Rightarrow> string \<Rightarrow> wsConn \<Rightarrow>
    (transportError option \<times> nat) \<times> wsConn" where
  "connWrite now sends meantime p c =
     (if wcClosed c then ((Some TeClosed, 0), c)
      else if p = [] then ((None, 0), c)
      else case beginWrite now c of
        (Some e, c1) \<Rightarrow> ((Some e, 0), closeConn c1)
      | (None, c1) \<Rightarrow> (case writeChunks sends meantime 0 p c1 of (err, n, c2) \<Rightarrow>
          (case finishWrite c2 of (timedOut, c3) \<Rightarrow>
            (let err' = (if timedOut then Some TeDeadline else err) in
             ((err', n), if err' \<noteq> None then closeConn c3 else c3)))))"

section \<open>What is written is read\<close>

text \<open>Bytes that a sequence of reads hands out, and the messages of the other end in its inbox.\<close>

fun readBytes :: "nat list \<Rightarrow> wsConn \<Rightarrow> string" where
  "readBytes [] c = []"
| "readBytes (n # ns) c = (case connRead n c of (Some (Inr bs), c') \<Rightarrow> bs @ readBytes ns c' | _ \<Rightarrow> [])"

definition receiver :: "string list \<Rightarrow> wsConn" where
  "receiver ms = \<lparr>wcInbox = map (WsMessage True) ms, wcReadBuf = [], wcClosed = False, wcWriteDeadline = None, wcActive = None,
     wcSent = []\<rparr>"

text \<open>Others may close the connection or change deadlines; they send nothing.\<close>

definition sendsNothing :: "(nat \<Rightarrow> wsConn \<Rightarrow> wsConn) \<Rightarrow> bool" where
  "sendsNothing meantime \<longleftrightarrow> (\<forall>n c. wcSent (meantime n c) = wcSent c)"

lemma chunk_bounds: "0 < hostedWSWriteChunkBytes" "hostedWSWriteChunkBytes \<le> hostedWSMaxMessageBytes"
  by (simp_all add: hostedWSWriteChunkBytes_def hostedWSMaxMessageBytes_def)

lemma writeChunks_sent:
  assumes "writeChunks sends meantime n p c = (err, n', c')" "sendsNothing meantime"
  shows "\<exists>ms. wcSent c' = wcSent c @ ms \<and> n' = n + length (concat ms) \<and> prefix (concat ms) p \<and>
    (\<forall>m \<in> set ms. m \<noteq> [] \<and> length m \<le> hostedWSWriteChunkBytes) \<and> (err = None \<longrightarrow> concat ms = p)"
  using assms
proof (induction sends meantime n p c arbitrary: err n' c' rule: writeChunks.induct)
  case (1 sends meantime n c)
  then show ?case by (intro exI [of _ "[]"]) simp
next
  case (2 sends meantime n x xs c)
  let ?p = "x # xs" and ?c1 = "meantime n c"
  let ?chunk = "take hostedWSWriteChunkBytes ?p" and ?rest = "drop hostedWSWriteChunkBytes ?p"
  have s1: "wcSent ?c1 = wcSent c" using 2(3) by (simp add: sendsNothing_def)
  show ?case
  proof (cases "sends n")
    case (Some timeout)
    with 2(2) s1 show ?thesis by (intro exI [of _ "[]"]) (auto simp: Let_def)
  next
    case None
    let ?c2 = "?c1\<lparr>wcSent := wcSent ?c1 @ [?chunk]\<rparr>"
    have rec: "writeChunks sends meantime (n + length ?chunk) ?rest ?c2 = (err, n', c')"
      using 2(2) None by (simp add: Let_def)
    from 2(1) [OF refl refl None rec 2(3)] obtain ms where ms: "wcSent c' = wcSent ?c2 @ ms" "n' = n + length ?chunk + length (concat ms)"
      "prefix (concat ms) ?rest" "\<forall>m \<in> set ms. m \<noteq> [] \<and> length m \<le> hostedWSWriteChunkBytes"
      "err = None \<longrightarrow> concat ms = ?rest" by blast
    have split: "?p = ?chunk @ ?rest" by (rule append_take_drop_id [symmetric])
    have "?chunk \<noteq> []" "length ?chunk \<le> hostedWSWriteChunkBytes" using chunk_bounds(1) by simp_all
    with ms(4) have all: "\<forall>m \<in> set (?chunk # ms). m \<noteq> [] \<and> length m \<le> hostedWSWriteChunkBytes" by simp
    have "prefix (concat (?chunk # ms)) (?chunk @ ?rest)" using ms(3) by (simp only: concat.simps append.assoc same_prefix_prefix)
    then have pre: "prefix (concat (?chunk # ms)) ?p" unfolding append_take_drop_id .
    have whole: "err = None \<longrightarrow> concat (?chunk # ms) = ?p" using ms(5) by simp
    have "wcSent c' = wcSent c @ ?chunk # ms" "n' = n + length (concat (?chunk # ms))" using ms(1,2) s1 by simp_all
    with all pre whole show ?thesis by (intro exI [of _ "?chunk # ms"] conjI)
  qed
qed

lemma readBytes_closed: "wcClosed c \<Longrightarrow> readBytes ns c = []"
  by (cases ns) (simp_all add: connRead_def)

lemma readBytes_messages:
  assumes "\<forall>m \<in> set ms. m \<noteq> [] \<and> length m \<le> hostedWSMaxMessageBytes" "list_all (\<lambda>n. 0 < n) ns"
    and "wcInbox c = map (WsMessage True) ms" "\<not> wcClosed c"
  shows "prefix (readBytes ns c) (wcReadBuf c @ concat ms) \<and>
    (length (wcReadBuf c @ concat ms) \<le> length ns \<longrightarrow> readBytes ns c = wcReadBuf c @ concat ms)"
  using assms
proof (induction ns arbitrary: c ms)
  case Nil
  then show ?case by simp
next
  case (Cons n ns)
  then have n: "0 < n" by simp
  have step: ?case if buf: "b \<noteq> []" "wcReadBuf c @ concat ms = b @ concat ms'" "\<forall>m \<in> set ms'. m \<noteq> [] \<and> length m \<le> hostedWSMaxMessageBytes"
    and r: "connRead n c = (Some (Inr (take n b)), c')" "wcReadBuf c' = drop n b" "wcInbox c' = map (WsMessage True) ms'" "\<not> wcClosed c'"
    for b ms' c'
  proof -
    from Cons.IH [OF buf(3) _ r(3,4)] Cons.prems(2) r(2)
    have rest: "prefix (readBytes ns c') (drop n b @ concat ms')"
      "length (drop n b @ concat ms') \<le> length ns \<longrightarrow> readBytes ns c' = drop n b @ concat ms'" by simp_all
    have all: "b @ concat ms' = take n b @ (drop n b @ concat ms')" by simp
    have "length (b @ concat ms') \<le> length (n # ns) \<longrightarrow> length (drop n b @ concat ms') \<le> length ns"
      using n buf(1) by (cases b) auto
    with rest show ?thesis unfolding buf(2) using r(1) by (simp add: prefix_def) (metis all append.assoc)
  qed
  show ?case
  proof (cases "wcReadBuf c = []")
    case False
    show ?thesis
      by (rule step [of "wcReadBuf c" ms "c\<lparr>wcReadBuf := drop n (wcReadBuf c)\<rparr>"]) (use False n Cons.prems in \<open>auto simp: connRead_def\<close>)
  next
    case empty: True
    show ?thesis
    proof (cases ms)
      case Nil
      with empty Cons.prems n show ?thesis by (simp add: connRead_def nextMessage_def)
    next
      case (Cons m ms')
      have m: "m \<noteq> []" "length m \<le> hostedWSMaxMessageBytes" using Cons.prems(1) Cons by simp_all
      then have "take (hostedWSMaxMessageBytes + 1) m = m" by simp
      with m empty n Cons.prems(3,4) Cons
      have r: "connRead n c = (Some (Inr (take n m)), c\<lparr>wcInbox := map (WsMessage True) ms', wcReadBuf := drop n m\<rparr>)"
        by (simp add: connRead_def nextMessage_def)
      show ?thesis
        by (rule step [of m ms', OF m(1) _ _ r]) (use Cons.prems Cons empty in simp_all)
    qed
  qed
qed

text \<open>C38: the websocket carries a byte stream: of a write, the peer's reads, with buffers of any sizes, hand out exactly the bytes
  that the write reported as accepted, in order, each once, and all of them after enough reads; when the write reports no
  error, that is all that was written.\<close>

theorem stream_carried:
  assumes "connWrite now sends meantime p c = ((err, n), c')" "sendsNothing meantime" "wcSent c = []" "list_all (\<lambda>k. 0 < k) ns"
  shows "prefix (readBytes ns (receiver (wcSent c'))) (take n p) \<and>
    (n \<le> length ns \<longrightarrow> readBytes ns (receiver (wcSent c')) = take n p) \<and> (err = None \<longrightarrow> take n p = p)"
proof -
  have "\<exists>ms. wcSent c' = ms \<and> concat ms = take n p \<and> (\<forall>m \<in> set ms. m \<noteq> [] \<and> length m \<le> hostedWSWriteChunkBytes) \<and>
      n \<le> length p \<and> (err = None \<longrightarrow> take n p = p)"
  proof (cases "wcClosed c \<or> p = [] \<or> fst (beginWrite now c) \<noteq> None")
    case True
    have sent: "wcSent (snd (beginWrite now c)) = wcSent c" by (simp add: beginWrite_def)
    from True assms(1,3) sent show ?thesis
      by (intro exI [of _ "[]"]) (auto simp: connWrite_def closeConn_def split: if_splits prod.splits option.splits)
  next
    case False
    then obtain c1 where b: "beginWrite now c = (None, c1)" "wcSent c1 = []" using assms(3) by (auto simp: beginWrite_def split: if_splits)
    obtain e m c2 where w: "writeChunks sends meantime 0 p c1 = (e, m, c2)" by (cases "writeChunks sends meantime 0 p c1") auto
    from writeChunks_sent [OF w assms(2)] obtain ms where ms: "wcSent c2 = wcSent c1 @ ms" "m = 0 + length (concat ms)" "prefix (concat ms) p"
      "\<forall>x \<in> set ms. x \<noteq> [] \<and> length x \<le> hostedWSWriteChunkBytes" "e = None \<longrightarrow> concat ms = p" by blast
    from assms(1) False b(1) w have "n = m" "wcSent c' = wcSent c2" "err = None \<longrightarrow> e = None"
      by (auto simp: connWrite_def finishWrite_def closeConn_def Let_def split: if_splits option.splits)
    moreover have "concat ms = take m p" "m \<le> length p" using ms(2,3) by (auto simp: prefix_def)
    ultimately show ?thesis using ms(1,4,5) b(2) by (intro exI [of _ ms] conjI) simp_all
  qed
  then obtain ms where ms: "wcSent c' = ms" "concat ms = take n p" "\<forall>m \<in> set ms. m \<noteq> [] \<and> length m \<le> hostedWSMaxMessageBytes"
    "n \<le> length p" "err = None \<longrightarrow> take n p = p" using chunk_bounds(2) by (metis le_trans)
  have "prefix (readBytes ns (receiver ms)) (concat ms) \<and> (length (concat ms) \<le> length ns \<longrightarrow> readBytes ns (receiver ms) = concat ms)"
    using readBytes_messages [OF ms(3) assms(4), of "receiver ms"] by (simp add: receiver_def)
  with ms show ?thesis by simp
qed

text \<open>A write deadline that was extended or cleared in time cannot close the connection: the timer armed before has no effect
  when it fires.\<close>

theorem stale_timer_ignored:
  assumes "wcActive c = Some w" "SetWriteDeadline deadline c = (None, c')" "\<not> wwTimedOut w"
  shows "timerFires (wwGeneration w) c' = c' \<and> (\<exists>w'. wcActive c' = Some w' \<and> wwDeadline w' \<le> wwLimit w)"
  using assms by (auto simp: SetWriteDeadline_def timerFires_def armWriteTimer_def split: if_splits option.splits)

theorem stream_carried_witness:
  "\<exists>c'. connWrite 0 (\<lambda>_. None) (\<lambda>_ c. c) ''abcde'' (receiver []) = ((None, 5), c') \<and>
    readBytes [2, 2, 2, 2, 2] (receiver (wcSent c')) = ''abcde''"
proof -
  have w: "writeChunks (\<lambda>_. None) (\<lambda>_ c. c) 0 ''abcde'' c = (None, 5, c\<lparr>wcSent := wcSent c @ [''abcde'']\<rparr>)" for c
    by (simp add: Let_def hostedWSWriteChunkBytes_def)
  obtain c' where c: "connWrite 0 (\<lambda>_. None) (\<lambda>_ c. c) ''abcde'' (receiver []) = ((None, 5), c')"
    by (simp add: connWrite_def receiver_def beginWrite_def finishWrite_def w armWriteTimer_def del: writeChunks.simps)
  have "readBytes [2, 2, 2, 2, 2] (receiver (wcSent c')) = take 5 ''abcde''"
    using stream_carried [OF c, of "[2, 2, 2, 2, 2]"] by (simp add: sendsNothing_def receiver_def del: readBytes.simps)
  with c show ?thesis by simp
qed

definition txWrite :: wsConn where
  "txWrite = (receiver [])\<lparr>wcActive := Some \<lparr>wwLimit = 30, wwDeadline = 10, wwGeneration = 1, wwTimedOut = False\<rparr>\<rparr>"

theorem stale_timer_ignored_witness:
  "timerFires 1 (snd (SetWriteDeadline None txWrite)) = snd (SetWriteDeadline None txWrite)"
  using stale_timer_ignored [of txWrite "\<lparr>wwLimit = 30, wwDeadline = 10, wwGeneration = 1, wwTimedOut = False\<rparr>" None
      "snd (SetWriteDeadline None txWrite)"]
  by (simp add: txWrite_def receiver_def SetWriteDeadline_def)

end
