(* ===== verification/HarnessProtocol.thy ===== *)
theory HarnessProtocol
  imports FoundryResponses GoNet
begin

text \<open>
  \<^verbatim>\<open>src/internal/harness/protocol.go\<close>, \<^verbatim>\<open>turn_path.go\<close>, \<^verbatim>\<open>accepted_turn.go\<close> and
  \<^verbatim>\<open>transport.go\<close>: the wire types of the harness protocol, their validators with the texts of
  their errors, the turn paths and the writing of a stream. \<open>q\<close> is \<open>strconv.Quote\<close>, \<open>jvalid\<close> is
  \<open>json.Valid\<close> and \<open>compact\<close> the canonical form in which \<open>encoding/json\<close> writes a raw message,
  \<open>None\<close> when it is not JSON. Times are nanoseconds from Go's zero time.
\<close>

section \<open>Constants\<close>

definition ProtocolVersion :: string where "ProtocolVersion = ''orka.harness.v1''"
definition HTTPTransport :: string where "HTTPTransport = ''http+sse''"
definition HealthPath :: string where "HealthPath = ''/v1/health''"
definition CapabilitiesPath :: string where "CapabilitiesPath = ''/v1/capabilities''"
definition TurnsPath :: string where "TurnsPath = ''/v1/turns''"

definition modeObserved :: string where "modeObserved = ''observed''"
definition modeBrokered :: string where "modeBrokered = ''brokered''"
definition classRead :: string where "classRead = ''read''"
definition classWrite :: string where "classWrite = ''write''"
definition classCoordination :: string where "classCoordination = ''coordination''"

datatype frameType = TurnStarted | RuntimeOutput | ToolCallRequested | ToolResultReceived | ApprovalRequested
  | FtTurnCompleted | FtTurnFailed | FtTurnCancelled | RuntimeLog | OtherFrame string

definition frameName :: "frameType \<Rightarrow> string" where
  "frameName t = (case t of TurnStarted \<Rightarrow> ''TurnStarted'' | RuntimeOutput \<Rightarrow> ''RuntimeOutput''
     | ToolCallRequested \<Rightarrow> ''ToolCallRequested'' | ToolResultReceived \<Rightarrow> ''ToolResultReceived''
     | ApprovalRequested \<Rightarrow> ''ApprovalRequested'' | FtTurnCompleted \<Rightarrow> ''TurnCompleted'' | FtTurnFailed \<Rightarrow> ''TurnFailed''
     | FtTurnCancelled \<Rightarrow> ''TurnCancelled'' | RuntimeLog \<Rightarrow> ''RuntimeLog'' | OtherFrame s \<Rightarrow> s)"

section \<open>Wire types\<close>

record authIdentity =
  aiSubject :: string
  aiIssuer :: string
  aiUsername :: string
  aiGroups :: "string list"
  aiRoles :: "string list"

record policyRef =
  prNamespace :: string
  prName :: string

record contextRef =
  cxKind :: string
  cxName :: string
  cxSeq :: int

text \<open>A raw JSON message is its bytes, empty when absent.\<close>

record toolDefinition =
  tdName :: string
  tdDescription :: string
  tdBrokeredClass :: string
  tdParameters :: string

record turnEnvVar =
  teName :: string
  teValue :: string

record turnInput =
  tiPrompt :: string
  tiContextRefs :: "contextRef list"
  tiEnv :: "turnEnvVar list"
  tiTools :: "toolDefinition list"

record startTurnRequest =
  sqVersion :: string
  sqNamespace :: string
  sqTaskName :: string
  sqSessionName :: string
  sqRuntimeSessionID :: string
  sqTurnID :: string
  sqCorrelationID :: string
  sqDeadline :: int
  sqAuthIdentity :: authIdentity
  sqToolPolicyRef :: "policyRef option"
  sqApprovalPolicyRef :: "policyRef option"
  sqEventCursor :: int
  sqInput :: turnInput
  sqToolExecutionMode :: string
  sqMetadata :: "(string, string) fmap"

record startTurnResponse =
  spVersion :: string
  spAccepted :: bool
  spRuntimeSessionID :: string
  spTurnID :: string
  spCorrelationID :: string
  spEventStreamPath :: string

record cancelTurnRequest =
  clVersion :: string
  clNamespace :: string
  clTaskName :: string
  clSessionName :: string
  clRuntimeSessionID :: string
  clTurnID :: string
  clCorrelationID :: string
  clReason :: string

record errorInfo =
  eiCode :: string
  eiMessage :: string
  eiRetryable :: bool

record toolCallResult =
  trVersion :: string
  trRuntimeSessionID :: string
  trTurnID :: string
  trToolCallID :: string
  trIdempotencyKey :: string
  trApproved :: bool
  trOutput :: string
  trError :: "errorInfo option"

record continueTurnRequest =
  cnVersion :: string
  cnNamespace :: string
  cnTaskName :: string
  cnSessionName :: string
  cnRuntimeSessionID :: string
  cnTurnID :: string
  cnCorrelationID :: string
  cnToolResults :: "toolCallResult list"
  cnMetadata :: "(string, string) fmap"

text \<open>The response to a continuation and to a cancellation have the same fields.\<close>

record turnResponse =
  tpVersion :: string
  tpAccepted :: bool
  tpRuntimeSessionID :: string
  tpTurnID :: string
  tpCorrelationID :: string
  tpMessage :: string

record capabilitiesResponse =
  cpVersion :: string
  cpProtocolVersion :: string
  cpTransport :: string
  cpRuntimeName :: string
  cpRuntimeVersion :: string
  cpProviderKind :: string
  cpToolExecutionModes :: "string list"
  cpBrokeredToolClasses :: "string list"
  cpSupportsCancel :: bool
  cpSupportsRuntimeSessions :: bool
  cpSupportsContinuation :: bool
  cpSupportsArtifacts :: bool
  cpSupportsSuspend :: bool
  cpSupportsWorkspaceSnapshot :: bool
  cpMaxConcurrentTurns :: int
  cpMaxTurnSeconds :: int
  cpMaxOutputBytes :: int
  cpMetadata :: "(string, string) fmap"

record healthResponse =
  heVersion :: string
  heStatus :: string
  heReady :: bool
  heRuntimeSessionID :: string
  heMessage :: string
  heCheckedAt :: int
  heMetadata :: "(string, string) fmap"

record artifactRef =
  arFilename :: string
  arContentType :: string
  arSize :: int
  arDescription :: string

text \<open>\<open>Data\<close> is kept as the JSON text of the map, empty when absent.\<close>

record turnCompleted =
  tcResult :: string
  tcData :: string
  tcArtifacts :: "artifactRef list"
  tcOutputRef :: string
  tcFinalEventSeq :: int
  tcRetainSession :: bool

record turnFailed =
  tfReason :: string
  tfMessage :: string
  tfResult :: string
  tfData :: string
  tfArtifacts :: "artifactRef list"
  tfOutputRef :: string
  tfRetryable :: bool

record harnessFrame =
  frVersion :: string
  frType :: frameType
  frRuntimeSessionID :: string
  frTurnID :: string
  frCorrelationID :: string
  frSeq :: int
  frCreatedAt :: int
  frSeverity :: string
  frSummary :: string
  frContent :: string
  frContentText :: string
  frToolName :: string
  frToolCallID :: string
  frApprovalID :: string
  frCompleted :: "turnCompleted option"
  frFailed :: "turnFailed option"
  frError :: "errorInfo option"
  frMetadata :: "(string, string) fmap"

record toolCallRequest =
  tqVersion :: string
  tqRuntimeSessionID :: string
  tqTurnID :: string
  tqToolCallID :: string
  tqToolName :: string
  tqIdempotencyKey :: string
  tqInput :: string
  tqRequiresApproval :: bool
  tqApprovalPolicyRef :: "policyRef option"
  tqMetadata :: "(string, string) fmap"

section \<open>Validation\<close>

text \<open>An error is its text; \<open>None\<close> is nil.\<close>

fun firstError :: "string option list \<Rightarrow> string option" where
  "firstError [] = None"
| "firstError (None # es) = firstError es"
| "firstError (Some e # es) = Some e"

definition refuse :: "bool \<Rightarrow> string \<Rightarrow> string option" where
  "refuse b e = (if b then Some e else None)"

definition blank :: "string \<Rightarrow> bool" where
  "blank s \<longleftrightarrow> trimSpace s = []"

fun errorAt :: "(nat \<Rightarrow> 'a \<Rightarrow> string option) \<Rightarrow> nat \<Rightarrow> 'a list \<Rightarrow> string option" where
  "errorAt f i [] = None"
| "errorAt f i (x # xs) = (case f i x of Some e \<Rightarrow> Some e | None \<Rightarrow> errorAt f (Suc i) xs)"

definition validateVersion :: "(string \<Rightarrow> string) \<Rightarrow> string \<Rightarrow> string option" where
  "validateVersion q version = (let v = trimSpace version in
     if v = [] then Some ''version is required''
     else if v \<noteq> ProtocolVersion then Some (''unsupported version '' @ q v) else None)"

definition IsKnownToolExecutionMode :: "string \<Rightarrow> bool" where
  "IsKnownToolExecutionMode v \<longleftrightarrow> v = modeObserved \<or> v = modeBrokered"

definition IsKnownBrokeredToolClass :: "string \<Rightarrow> bool" where
  "IsKnownBrokeredToolClass v \<longleftrightarrow> v = classRead \<or> v = classWrite \<or> v = classCoordination"

definition IsKnownHealthStatus :: "string \<Rightarrow> bool" where
  "IsKnownHealthStatus v \<longleftrightarrow> v = ''ok'' \<or> v = ''degraded'' \<or> v = ''unhealthy''"

definition IsKnownFrameType :: "frameType \<Rightarrow> bool" where
  "IsKnownFrameType t = (case t of OtherFrame s \<Rightarrow> s \<in> frameName ` {TurnStarted, RuntimeOutput, ToolCallRequested,
     ToolResultReceived, ApprovalRequested, FtTurnCompleted, FtTurnFailed, FtTurnCancelled, RuntimeLog} | _ \<Rightarrow> True)"

definition ValidateTurnPathSegment :: "string \<Rightarrow> string option" where
  "ValidateTurnPathSegment raw = (let v = trimSpace raw in
     if v = [] then Some ''turn id is required''
     else if v \<noteq> raw \<or> v = ''.'' \<or> v = ''..'' \<or> CHR ''/'' \<in> set v \<or> CHR 0x5C \<in> set v
     then Some ''turn id must be a single safe path segment'' else None)"

definition envNameRune :: "nat \<Rightarrow> nat \<Rightarrow> bool" where
  "envNameRune i r \<longleftrightarrow> r = 95 \<or> (65 \<le> r \<and> r \<le> 90) \<or> (97 \<le> r \<and> r \<le> 122) \<or> (i > 0 \<and> 48 \<le> r \<and> r \<le> 57)"

fun envNameRunes :: "nat \<Rightarrow> nat list \<Rightarrow> bool" where
  "envNameRunes i [] = True"
| "envNameRunes i (r # rs) = (envNameRune i r \<and> envNameRunes (Suc i) rs)"

definition isValidTurnEnvName :: "string \<Rightarrow> bool" where
  "isValidTurnEnvName name = (let n = trimSpace name in n \<noteq> [] \<and> envNameRunes 0 (runes n))"

definition validateTool :: "(string \<Rightarrow> string) \<Rightarrow> (string \<Rightarrow> bool) \<Rightarrow> toolDefinition \<Rightarrow> string option" where
  "validateTool q jvalid t = firstError
     [refuse (blank (tdName t)) ''name is required'',
      refuse (tdBrokeredClass t \<noteq> [] \<and> \<not> IsKnownBrokeredToolClass (tdBrokeredClass t))
        (''unsupported brokered class '' @ q (tdBrokeredClass t)),
      refuse (tdParameters t \<noteq> [] \<and> \<not> jvalid (tdParameters t)) ''parameters must be valid JSON'']"

definition prefixError :: "string \<Rightarrow> string option \<Rightarrow> string option" where
  "prefixError p e = map_option (\<lambda>m. p @ m) e"

definition validateStart :: "(string \<Rightarrow> string) \<Rightarrow> (string \<Rightarrow> bool) \<Rightarrow> startTurnRequest \<Rightarrow> string option" where
  "validateStart q jvalid r = firstError
     [validateVersion q (sqVersion r),
      refuse (blank (sqNamespace r)) ''namespace is required'',
      refuse (blank (sqTaskName r)) ''task name is required'',
      refuse (blank (sqSessionName r)) ''session name is required'',
      refuse (blank (sqRuntimeSessionID r)) ''runtime session id is required'',
      refuse (blank (sqTurnID r)) ''turn id is required'',
      prefixError ''turn id is invalid: '' (ValidateTurnPathSegment (sqTurnID r)),
      refuse (blank (sqCorrelationID r)) ''correlation id is required'',
      refuse (sqDeadline r = 0) ''deadline is required'',
      refuse (blank (aiSubject (sqAuthIdentity r)) \<and> blank (aiUsername (sqAuthIdentity r)))
        ''auth identity subject or username is required'',
      refuse (sqEventCursor r < 0) ''event cursor must be non-negative'',
      refuse (sqToolExecutionMode r \<noteq> [] \<and> \<not> IsKnownToolExecutionMode (sqToolExecutionMode r))
        (''unsupported tool execution mode '' @ q (sqToolExecutionMode r)),
      refuse (case sqToolPolicyRef r of None \<Rightarrow> False | Some p \<Rightarrow> blank (prName p)) ''tool policy ref name is required'',
      refuse (case sqApprovalPolicyRef r of None \<Rightarrow> False | Some p \<Rightarrow> blank (prName p))
        ''approval policy ref name is required'',
      errorAt (\<lambda>i e. firstError
        [refuse (blank (teName e)) (''input env '' @ formatUint i @ '' name is required''),
         refuse (\<not> isValidTurnEnvName (teName e))
           (''input env '' @ formatUint i @ '' name '' @ q (teName e) @ '' is invalid'')]) 0 (tiEnv (sqInput r)),
      errorAt (\<lambda>i c. firstError
        [refuse (blank (cxKind c)) (''context ref '' @ formatUint i @ '' kind is required''),
         refuse (blank (cxName c)) (''context ref '' @ formatUint i @ '' name is required''),
         refuse (cxSeq c < 0) (''context ref '' @ formatUint i @ '' seq must be non-negative'')]) 0 (tiContextRefs (sqInput r)),
      errorAt (\<lambda>i t. prefixError (''input tool '' @ formatUint i @ '': '') (validateTool q jvalid t)) 0 (tiTools (sqInput r))]"

definition validateCancel :: "(string \<Rightarrow> string) \<Rightarrow> cancelTurnRequest \<Rightarrow> string option" where
  "validateCancel q r = firstError
     [validateVersion q (clVersion r),
      refuse (blank (clNamespace r)) ''namespace is required'',
      refuse (blank (clTaskName r)) ''task name is required'',
      refuse (blank (clSessionName r)) ''session name is required'',
      refuse (blank (clRuntimeSessionID r)) ''runtime session id is required'',
      refuse (blank (clTurnID r)) ''turn id is required'',
      refuse (blank (clCorrelationID r)) ''correlation id is required'']"

definition validateResult :: "(string \<Rightarrow> string) \<Rightarrow> toolCallResult \<Rightarrow> string option" where
  "validateResult q r = firstError
     [validateVersion q (trVersion r),
      refuse (blank (trRuntimeSessionID r)) ''runtime session id is required'',
      refuse (blank (trTurnID r)) ''turn id is required'',
      refuse (blank (trToolCallID r)) ''tool call id is required'',
      refuse (blank (trIdempotencyKey r)) ''idempotency key is required'']"

definition ToolRequestIdempotencyKey :: "string \<Rightarrow> string \<Rightarrow> string \<Rightarrow> string" where
  "ToolRequestIdempotencyKey session turn call =
     joinWith '':'' [trimSpace session, trimSpace turn, trimSpace call]"

text \<open>The loop over the results, with the tool call ids seen so far.\<close>

fun validateResults :: "(string \<Rightarrow> string) \<Rightarrow> continueTurnRequest \<Rightarrow> string set \<Rightarrow> nat \<Rightarrow> toolCallResult list \<Rightarrow>
    string option" where
  "validateResults q r seen i [] = None"
| "validateResults q r seen i (x # xs) =
     (let at = ''tool result '' @ formatUint i; call = trimSpace (trToolCallID x);
          key = ToolRequestIdempotencyKey (cnRuntimeSessionID r) (cnTurnID r) call in
      case firstError
        [prefixError (at @ '' is invalid: '') (validateResult q x),
         refuse (trRuntimeSessionID x \<noteq> cnRuntimeSessionID r) (at @ '' runtime session id '' @ q (trRuntimeSessionID x) @
           '' does not match continue request '' @ q (cnRuntimeSessionID r)),
         refuse (trTurnID x \<noteq> cnTurnID r) (at @ '' turn id '' @ q (trTurnID x) @ '' does not match continue request '' @ q (cnTurnID r)),
         refuse (call \<in> seen) (at @ '' duplicates tool call id '' @ q call),
         refuse (trIdempotencyKey x \<noteq> key)
           (at @ '' idempotency key '' @ q (trIdempotencyKey x) @ '' does not match canonical key '' @ q key),
         refuse (trOutput x = [] \<and> trError x = None) (at @ '' output or error is required'')] of
        Some e \<Rightarrow> Some e
      | None \<Rightarrow> validateResults q r (insert call seen) (Suc i) xs)"

definition validateContinue :: "(string \<Rightarrow> string) \<Rightarrow> continueTurnRequest \<Rightarrow> string option" where
  "validateContinue q r = firstError
     [validateVersion q (cnVersion r),
      refuse (blank (cnNamespace r)) ''namespace is required'',
      refuse (blank (cnTaskName r)) ''task name is required'',
      refuse (blank (cnSessionName r)) ''session name is required'',
      refuse (blank (cnRuntimeSessionID r)) ''runtime session id is required'',
      refuse (blank (cnTurnID r)) ''turn id is required'',
      refuse (blank (cnCorrelationID r)) ''correlation id is required'',
      refuse (cnToolResults r = []) ''at least one tool result is required'',
      validateResults q r {} 0 (cnToolResults r)]"

definition validateContinued :: "(string \<Rightarrow> string) \<Rightarrow> turnResponse \<Rightarrow> continueTurnRequest \<Rightarrow> string option" where
  "validateContinued q p r = firstError
     [validateVersion q (tpVersion p),
      refuse (\<not> tpAccepted p) ''harness did not accept continuation'',
      refuse (tpRuntimeSessionID p \<noteq> cnRuntimeSessionID r) (''harness continued runtime session '' @
        q (tpRuntimeSessionID p) @ '', want '' @ q (cnRuntimeSessionID r)),
      refuse (tpTurnID p \<noteq> cnTurnID r) (''harness continued turn '' @ q (tpTurnID p) @ '', want '' @ q (cnTurnID r)),
      refuse (tpCorrelationID p \<noteq> [] \<and> tpCorrelationID p \<noteq> cnCorrelationID r)
        (''harness continued correlation id '' @ q (tpCorrelationID p) @ '', want '' @ q (cnCorrelationID r))]"

definition validateAcceptedTurn :: "(string \<Rightarrow> string) \<Rightarrow> startTurnRequest \<Rightarrow> startTurnResponse \<Rightarrow> string option" where
  "validateAcceptedTurn q r p = firstError
     [refuse (spRuntimeSessionID p \<noteq> sqRuntimeSessionID r) (''harness accepted runtime session '' @
        q (spRuntimeSessionID p) @ '', want '' @ q (sqRuntimeSessionID r)),
      refuse (spTurnID p \<noteq> sqTurnID r) (''harness accepted turn '' @ q (spTurnID p) @ '', want '' @ q (sqTurnID r)),
      refuse (spCorrelationID p \<noteq> [] \<and> spCorrelationID p \<noteq> sqCorrelationID r)
        (''harness accepted correlation id '' @ q (spCorrelationID p) @ '', want '' @ q (sqCorrelationID r))]"

definition validateCapabilitiesResponse :: "(string \<Rightarrow> string) \<Rightarrow> capabilitiesResponse \<Rightarrow> string option" where
  "validateCapabilitiesResponse q r = firstError
     [validateVersion q (cpVersion r),
      refuse (trimSpace (cpProtocolVersion r) \<noteq> ProtocolVersion) (''unsupported protocol version '' @ q (cpProtocolVersion r)),
      refuse (trimSpace (cpTransport r) \<noteq> HTTPTransport) (''unsupported transport '' @ q (cpTransport r)),
      refuse (blank (cpRuntimeName r)) ''runtime name is required'',
      refuse (blank (cpProviderKind r)) ''provider kind is required'',
      refuse (cpToolExecutionModes r = []) ''at least one tool execution mode is required'',
      errorAt (\<lambda>_ m. refuse (\<not> IsKnownToolExecutionMode m) (''unsupported tool execution mode '' @ q m)) 0
        (cpToolExecutionModes r),
      errorAt (\<lambda>_ c. refuse (\<not> IsKnownBrokeredToolClass c) (''unsupported brokered tool class '' @ q c)) 0
        (cpBrokeredToolClasses r),
      refuse (cpBrokeredToolClasses r \<noteq> [] \<and> modeBrokered \<notin> set (cpToolExecutionModes r))
        (''brokeredToolClasses require tool execution mode '' @ q modeBrokered),
      refuse (modeBrokered \<in> set (cpToolExecutionModes r) \<and> cpBrokeredToolClasses r = [])
        ''brokered tool execution mode requires at least one brokeredToolClass'',
      refuse (modeBrokered \<in> set (cpToolExecutionModes r) \<and> \<not> cpSupportsContinuation r)
        ''brokered tool execution mode requires supportsContinuation'',
      refuse (cpMaxConcurrentTurns r < 0) ''max concurrent turns must be non-negative'',
      refuse (cpMaxTurnSeconds r < 0) ''max turn seconds must be non-negative'',
      refuse (cpMaxOutputBytes r < 0) ''max output bytes must be non-negative'']"

definition validateHealth :: "(string \<Rightarrow> string) \<Rightarrow> healthResponse \<Rightarrow> string option" where
  "validateHealth q r = firstError
     [validateVersion q (heVersion r),
      refuse (blank (heStatus r)) ''health status is required'',
      refuse (\<not> IsKnownHealthStatus (heStatus r)) (''unsupported health status '' @ q (heStatus r)),
      refuse (heCheckedAt r = 0) ''checked at is required'']"

definition validateFrame :: "(string \<Rightarrow> string) \<Rightarrow> harnessFrame \<Rightarrow> string option" where
  "validateFrame q f = firstError
     [validateVersion q (frVersion f),
      refuse (blank (frameName (frType f))) ''frame type is required'',
      refuse (blank (frRuntimeSessionID f)) ''runtime session id is required'',
      refuse (blank (frTurnID f)) ''turn id is required'',
      refuse (blank (frCorrelationID f)) ''correlation id is required'',
      refuse (frSeq f \<le> 0) ''frame seq must be positive'',
      refuse (frameName (frType f) = frameName FtTurnCompleted \<and> frCompleted f = None) ''turn completed payload is required'',
      refuse (frameName (frType f) = frameName FtTurnFailed \<and> frFailed f = None) ''turn failed payload is required'']"

definition validateCall :: "(string \<Rightarrow> string) \<Rightarrow> toolCallRequest \<Rightarrow> string option" where
  "validateCall q r = firstError
     [validateVersion q (tqVersion r),
      refuse (blank (tqRuntimeSessionID r)) ''runtime session id is required'',
      refuse (blank (tqTurnID r)) ''turn id is required'',
      refuse (blank (tqToolCallID r)) ''tool call id is required'',
      refuse (blank (tqToolName r)) ''tool name is required'',
      refuse (blank (tqIdempotencyKey r)) ''idempotency key is required'',
      refuse (case tqApprovalPolicyRef r of None \<Rightarrow> False | Some p \<Rightarrow> blank (prName p))
        ''approval policy ref name is required'']"

section \<open>Turn paths (turn_path.go)\<close>

text \<open>\<open>strings.Trim\<close> with a one-character cutset, \<open>url.PathUnescape\<close>.\<close>

definition trimChar :: "string \<Rightarrow> char \<Rightarrow> string" where
  "trimChar s c = trimRightChar (dropWhile (\<lambda>x. x = c) s) c"

definition unhex :: "char \<Rightarrow> nat option" where
  "unhex c = (let b = byte c in if 48 \<le> b \<and> b \<le> 57 then Some (b - 48)
     else if 97 \<le> b \<and> b \<le> 102 then Some (b - 87) else if 65 \<le> b \<and> b \<le> 70 then Some (b - 55) else None)"

fun pathUnescape :: "string \<Rightarrow> string option" where
  "pathUnescape [] = Some []"
| "pathUnescape (c # s) = (if c = CHR ''%'' then
     (case s of a # b # s' \<Rightarrow> (case (unhex a, unhex b) of
          (Some h, Some l) \<Rightarrow> map_option (\<lambda>u. char_of (16 * h + l) # u) (pathUnescape s')
        | _ \<Rightarrow> None)
      | _ \<Rightarrow> None)
     else map_option (\<lambda>u. c # u) (pathUnescape s))"

definition TurnResourcePath :: "string \<Rightarrow> string \<Rightarrow> string + string" where
  "TurnResourcePath turnID resource =
     (case ValidateTurnPathSegment turnID of Some e \<Rightarrow> Inl e | None \<Rightarrow>
      (let r = trimChar (trimSpace resource) (CHR ''/'') in
       if r = [] \<or> r = ''.'' \<or> r = ''..'' \<or> CHR ''/'' \<in> set r \<or> CHR 0x5C \<in> set r
       then Inl ''turn resource must be a single safe path segment''
       else Inr (trimRightChar TurnsPath (CHR ''/'') @ ''/'' @ pathEscape turnID @ ''/'' @ r)))"

definition EventStreamPath :: "string \<Rightarrow> string + string" where
  "EventStreamPath turnID = TurnResourcePath turnID ''events''"

definition CancelTurnPath :: "string \<Rightarrow> string + string" where
  "CancelTurnPath turnID = TurnResourcePath turnID ''cancel''"

definition ContinueTurnPath :: "string \<Rightarrow> string + string" where
  "ContinueTurnPath turnID = TurnResourcePath turnID ''continue''"

definition OutputTurnPath :: "string \<Rightarrow> string + string" where
  "OutputTurnPath turnID = TurnResourcePath turnID ''output''"

datatype pathError = PathNotFound | PathInvalid

definition ParseTurnResourcePath :: "string \<Rightarrow> pathError + string \<times> string" where
  "ParseTurnResourcePath rawPath =
     (let pathValue = trimSpace rawPath;
          trimmed = trimPrefix pathValue (trimRightChar TurnsPath (CHR ''/'') @ ''/'') in
      if trimmed = pathValue \<or> trimmed = [] then Inl PathNotFound else
      (case splitChar (CHR ''/'') (trimChar trimmed (CHR ''/'')) of
         [a, b] \<Rightarrow>
           (case pathUnescape a of None \<Rightarrow> Inl PathInvalid | Some turnID \<Rightarrow>
             if ValidateTurnPathSegment turnID \<noteq> None then Inl PathInvalid
             else (let resource = trimSpace b in
               if resource = [] \<or> CHR 0x5C \<in> set resource then Inl PathNotFound else Inr (turnID, resource)))
       | _ \<Rightarrow> Inl PathNotFound))"

section \<open>Encoding\<close>

definition formatInt :: "int \<Rightarrow> string" where
  "formatInt n = (if n < 0 then CHR ''-'' # formatUint (nat (- n)) else formatUint (nat n))"

definition omitInt :: "int \<Rightarrow> string option" where
  "omitInt n = (if n = 0 then None else Some (formatInt n))"

definition omitFalse :: "bool \<Rightarrow> string option" where
  "omitFalse b = (if b then Some ''true'' else None)"

definition jsonBool :: "bool \<Rightarrow> string" where
  "jsonBool b = (if b then ''true'' else ''false'')"

definition jsonArray :: "string list \<Rightarrow> string" where
  "jsonArray xs = ''['' @ joinWith '','' xs @ '']''"

definition omitEmptyList :: "string list \<Rightarrow> string option" where
  "omitEmptyList xs = (if xs = [] then None else Some (jsonArray xs))"

definition omitEmptyMap :: "(string, string) fmap \<Rightarrow> string option" where
  "omitEmptyMap m = (if m = fmempty then None else Some (mapJSON m))"

text \<open>A raw message that is present: its canonical form, or the error of \<open>Marshal\<close>.\<close>

definition rawMember :: "(string \<Rightarrow> string option) \<Rightarrow> string \<Rightarrow> string option option" where
  "rawMember compact raw = (if raw = [] then Some None else map_option Some (compact raw))"

definition errorInfoJSON :: "errorInfo \<Rightarrow> string" where
  "errorInfoJSON e = jsonObject [(''code'', Some (jsonString (eiCode e))), (''message'', omitEmptyString (eiMessage e)),
     (''retryable'', omitFalse (eiRetryable e))]"

definition resultJSON :: "(string \<Rightarrow> string option) \<Rightarrow> toolCallResult \<Rightarrow> string option" where
  "resultJSON compact r = map_option (\<lambda>out. jsonObject
     [(''version'', Some (jsonString (trVersion r))), (''runtimeSessionID'', Some (jsonString (trRuntimeSessionID r))),
      (''turnID'', Some (jsonString (trTurnID r))), (''toolCallID'', Some (jsonString (trToolCallID r))),
      (''idempotencyKey'', Some (jsonString (trIdempotencyKey r))), (''approved'', omitFalse (trApproved r)),
      (''output'', out), (''error'', map_option errorInfoJSON (trError r))]) (rawMember compact (trOutput r))"

definition artifactJSON :: "artifactRef \<Rightarrow> string" where
  "artifactJSON a = jsonObject [(''filename'', Some (jsonString (arFilename a))),
     (''contentType'', omitEmptyString (arContentType a)), (''size'', omitInt (arSize a)),
     (''description'', omitEmptyString (arDescription a))]"

definition completedJSON :: "turnCompleted \<Rightarrow> string" where
  "completedJSON c = jsonObject [(''result'', omitEmptyString (tcResult c)), (''data'', if tcData c = [] then None else Some (tcData c)),
     (''artifacts'', omitEmptyList (map artifactJSON (tcArtifacts c))), (''outputRef'', omitEmptyString (tcOutputRef c)),
     (''finalEventSeq'', omitInt (tcFinalEventSeq c)), (''retainSession'', omitFalse (tcRetainSession c))]"

definition failedJSON :: "turnFailed \<Rightarrow> string" where
  "failedJSON f = jsonObject [(''reason'', Some (jsonString (tfReason f))), (''message'', omitEmptyString (tfMessage f)),
     (''result'', omitEmptyString (tfResult f)), (''data'', if tfData f = [] then None else Some (tfData f)),
     (''artifacts'', omitEmptyList (map artifactJSON (tfArtifacts f))), (''outputRef'', omitEmptyString (tfOutputRef f)),
     (''retryable'', omitFalse (tfRetryable f))]"

definition frameJSON :: "(string \<Rightarrow> string option) \<Rightarrow> (int \<Rightarrow> string) \<Rightarrow> harnessFrame \<Rightarrow> string option" where
  "frameJSON compact ftime f = map_option (\<lambda>content. jsonObject
     [(''version'', Some (jsonString (frVersion f))), (''type'', Some (jsonString (frameName (frType f)))),
      (''runtimeSessionID'', Some (jsonString (frRuntimeSessionID f))), (''turnID'', Some (jsonString (frTurnID f))),
      (''correlationID'', Some (jsonString (frCorrelationID f))), (''seq'', Some (formatInt (frSeq f))),
      (''createdAt'', Some (jsonString (ftime (frCreatedAt f)))), (''severity'', omitEmptyString (frSeverity f)),
      (''summary'', omitEmptyString (frSummary f)), (''content'', content),
      (''contentText'', omitEmptyString (frContentText f)), (''toolName'', omitEmptyString (frToolName f)),
      (''toolCallID'', omitEmptyString (frToolCallID f)), (''approvalID'', omitEmptyString (frApprovalID f)),
      (''completed'', map_option completedJSON (frCompleted f)), (''failed'', map_option failedJSON (frFailed f)),
      (''error'', map_option errorInfoJSON (frError f)), (''metadata'', omitEmptyMap (frMetadata f))])
     (rawMember compact (frContent f))"

definition policyJSON :: "policyRef \<Rightarrow> string" where
  "policyJSON p = jsonObject [(''namespace'', omitEmptyString (prNamespace p)), (''name'', Some (jsonString (prName p)))]"

definition authJSON :: "authIdentity \<Rightarrow> string" where
  "authJSON a = jsonObject [(''subject'', omitEmptyString (aiSubject a)), (''issuer'', omitEmptyString (aiIssuer a)),
     (''username'', omitEmptyString (aiUsername a)), (''groups'', omitEmptyList (map jsonString (aiGroups a))),
     (''roles'', omitEmptyList (map jsonString (aiRoles a)))]"

definition contextJSON :: "contextRef \<Rightarrow> string" where
  "contextJSON c = jsonObject [(''kind'', Some (jsonString (cxKind c))), (''name'', Some (jsonString (cxName c))),
     (''seq'', omitInt (cxSeq c))]"

definition envVarJSON :: "turnEnvVar \<Rightarrow> string" where
  "envVarJSON e = jsonObject [(''name'', Some (jsonString (teName e))), (''value'', omitEmptyString (teValue e))]"

definition toolJSON :: "(string \<Rightarrow> string option) \<Rightarrow> toolDefinition \<Rightarrow> string option" where
  "toolJSON compact t = map_option (\<lambda>params. jsonObject [(''name'', Some (jsonString (tdName t))),
     (''description'', omitEmptyString (tdDescription t)), (''brokeredClass'', omitEmptyString (tdBrokeredClass t)),
     (''parameters'', params)]) (rawMember compact (tdParameters t))"

definition inputJSON :: "(string \<Rightarrow> string option) \<Rightarrow> turnInput \<Rightarrow> string option" where
  "inputJSON compact i = (case those (map (toolJSON compact) (tiTools i)) of None \<Rightarrow> None | Some tools \<Rightarrow>
     Some (jsonObject [(''prompt'', omitEmptyString (tiPrompt i)),
       (''contextRefs'', omitEmptyList (map contextJSON (tiContextRefs i))),
       (''env'', omitEmptyList (map envVarJSON (tiEnv i))), (''tools'', omitEmptyList tools)]))"

definition startJSON :: "(string \<Rightarrow> string option) \<Rightarrow> (int \<Rightarrow> string) \<Rightarrow> startTurnRequest \<Rightarrow> string option" where
  "startJSON compact ftime r = (case inputJSON compact (sqInput r) of None \<Rightarrow> None | Some input \<Rightarrow> Some (jsonObject
     [(''version'', Some (jsonString (sqVersion r))), (''namespace'', Some (jsonString (sqNamespace r))),
      (''taskName'', Some (jsonString (sqTaskName r))), (''sessionName'', Some (jsonString (sqSessionName r))),
      (''runtimeSessionID'', Some (jsonString (sqRuntimeSessionID r))), (''turnID'', Some (jsonString (sqTurnID r))),
      (''correlationID'', Some (jsonString (sqCorrelationID r))), (''deadline'', Some (jsonString (ftime (sqDeadline r)))),
      (''authIdentity'', Some (authJSON (sqAuthIdentity r))), (''toolPolicyRef'', map_option policyJSON (sqToolPolicyRef r)),
      (''approvalPolicyRef'', map_option policyJSON (sqApprovalPolicyRef r)), (''eventCursor'', omitInt (sqEventCursor r)),
      (''input'', Some input), (''toolExecutionMode'', omitEmptyString (sqToolExecutionMode r)),
      (''metadata'', omitEmptyMap (sqMetadata r))]))"

text \<open>\<open>WriteSSEFrame\<close> and \<open>WriteSSEDone\<close> (transport.go): the bytes written.\<close>

definition newline :: string where "newline = [CHR 0x0A]"

definition sseFrame :: "(string \<Rightarrow> string option) \<Rightarrow> (int \<Rightarrow> string) \<Rightarrow> harnessFrame \<Rightarrow> string option" where
  "sseFrame compact ftime f = map_option (\<lambda>payload. ''data: '' @ payload @ newline @ newline) (frameJSON compact ftime f)"

definition sseDone :: string where
  "sseDone = ''data: [DONE]'' @ newline @ newline"

end
