(* ===== verification/HarnessSizes.thy ===== *)
theory HarnessSizes
  imports HarnessProtocol
begin

text \<open>
  Upper bounds on the length of encoded JSON: how long a frame can get, given the lengths of the
  strings in it. They show when an append to the stream of a turn cannot fail.
\<close>

lemma length_jsonEscapeRune: "b \<noteq> [] \<Longrightarrow> length (jsonEscapeRune (r, b)) \<le> 6 * length b"
  by (cases b) (auto simp: jsonEscapeRune_def)

lemma chunks_nonempty: "(r, b) \<in> set (chunks s) \<Longrightarrow> b \<noteq> []"
proof (induction s rule: chunks.induct)
  case (2 c s)
  obtain r' w where rw: "decodeRune (map byte (c # s)) = (r', w)" by fastforce
  then have w: "1 \<le> w" using decodeRune_width [of "map byte (c # s)" r' w] by simp
  have "chunks (c # s) = (r', take w (c # s)) # chunks (drop (w - 1) s)"
    by (simp only: chunks.simps(2) rw prod.case)
  with "2.prems" consider "b = take w (c # s)" | "(r, b) \<in> set (chunks (drop (w - 1) s))" by auto
  then show ?case
  proof cases
    case 1
    with w show ?thesis by (cases w) simp_all
  next
    case 2
    then show ?thesis by (rule "2.IH" [OF rw [symmetric]])
  qed
qed simp

lemma jsonString_le: "length (jsonString s) \<le> 6 * length s + 2"
proof -
  have escaped: "\<forall>(r, b) \<in> set cs. b \<noteq> [] \<Longrightarrow> length (concat (map jsonEscapeRune cs)) \<le> 6 * length (concat (map snd cs))" for cs
  proof (induction cs)
    case (Cons rb cs)
    obtain r b where rb: "rb = (r, b)" by fastforce
    then have "length (jsonEscapeRune rb) \<le> 6 * length b" using Cons.prems length_jsonEscapeRune by auto
    with Cons rb show ?case by auto
  qed simp
  have "\<forall>(r, b) \<in> set (chunks s). b \<noteq> []" using chunks_nonempty by blast
  from escaped [OF this] show ?thesis by (simp add: jsonString_def chunks_concat)
qed

text \<open>Every member costs its name, quotes, colon and comma.\<close>

fun memberBound :: "(string \<times> string option) list \<Rightarrow> nat" where
  "memberBound [] = 0"
| "memberBound ((k, None) # fs) = memberBound fs"
| "memberBound ((k, Some v) # fs) = 6 * length k + length v + 4 + memberBound fs"

lemma length_jsonObject: "length (jsonObject fs) \<le> memberBound fs + 2"
proof -
  have "sum_list (map (\<lambda>x. length (jsonMember x) + 1) [(k, v). (k, Some v) \<leftarrow> fs]) \<le> memberBound fs"
  proof (induction fs rule: memberBound.induct)
    case (3 k v fs)
    then show ?case using jsonString_le [of k] by (simp add: jsonMember_def)
  qed simp_all
  then show ?thesis
    using length_joinWith [of "'',''" "map jsonMember [(k, v). (k, Some v) \<leftarrow> fs]"]
    by (simp add: jsonObject_def comp_def)
qed

lemma length_formatUint: "n < 10 ^ k \<Longrightarrow> k > 0 \<Longrightarrow> length (formatUint n) \<le> k"
proof (induction n arbitrary: k rule: formatUint.induct)
  case (1 n)
  show ?case
  proof (cases "n < 10")
    case True
    then show ?thesis using 1(3) by (subst formatUint.simps) simp
  next
    case False
    then obtain j where k: "k = Suc j" "j > 0" using 1(2,3) by (cases k; cases "k - 1") auto
    with 1(2) have "n div 10 < 10 ^ j" by (simp add: div_less_iff_less_mult mult.commute)
    from 1(1) [OF False this k(2)] show ?thesis using False k(1) by (subst formatUint.simps) simp
  qed
qed

end
