(* ===== verification/AdapterTurn.thy ===== *)
theory AdapterTurn
  imports HarnessProtocol
begin

text \<open>
  \<^verbatim>\<open>src/internal/adapter/adapter.go\<close>, the state of one turn and what happens to it alone: frames
  and their limits, recorded tool calls, staged results and the continuation they make. A turn is
  a record; the operations run under the adapter's mutex, with one reading of the clock (\<open>now\<close>)
  for each critical section. A Go map that is nil after the turn has ended is the empty map here.
\<close>

section \<open>Configuration and environment\<close>

definition defaultStateRetention :: int where "defaultStateRetention = 600000000000"
definition defaultTombstoneRetention :: int where "defaultTombstoneRetention = 86400000000000"
definition defaultRuntimeSessionRetention :: int where "defaultRuntimeSessionRetention = 2592000000000000"
definition maxRuntimeSessions :: nat where "maxRuntimeSessions = 10000"
definition maxRetainedTurns :: nat where "maxRetainedTurns = 256"
definition maxRetainedTurnStateBytes :: int where "maxRetainedTurnStateBytes = 67108864"
definition maxHarnessIdentityBytes :: nat where "maxHarnessIdentityBytes = 512"
definition maxHarnessFrameBytes :: nat where "maxHarnessFrameBytes = 8323072"
definition maxTurnTombstones :: nat where "maxTurnTombstones = 10000"
definition backendMetadata :: string where "backendMetadata = ''foundry-hosted-responses''"

record adapterConfig =
  afAddr :: string
  afRuntimeName :: string
  afAdapterBearer :: string
  afProjectEndpoint :: string
  afResponsesEndpoint :: string
  afAgentName :: string
  afAgentVersion :: string
  afAPIVersion :: string
  afTurnTimeout :: int
  afIsolationMode :: string
  afFoundryFeatures :: string
  afMaxOutputBytes :: int
  afMaxStreamBytes :: int
  afMaxEventBytes :: int
  afMaxBrokeredBytes :: int
  afMaxBrokeredTurnBytes :: int
  afMaxBrokeredCalls :: int
  afMaxEvents :: int
  afMaxConcurrent :: int
  afBrokeredToolClasses :: "string list"
  afBrokeredToolClassSetting :: string
  afToolSchemaMode :: string

text \<open>
  The standard library: SHA-256, \<open>strconv.Quote\<close>, \<open>strings.ToLower\<close>, the JSON of times,
  \<open>json.Valid\<close>, the canonical form of a raw message, the value of a document that is a JSON
  string, whether a document is a JSON object, and the order in which a map is iterated.
\<close>

record adapterEnv =
  aeSha :: "string \<Rightarrow> string"
  aeQuote :: "string \<Rightarrow> string"
  aeLower :: "string \<Rightarrow> string"
  aeTime :: "int \<Rightarrow> string"
  aeValid :: "string \<Rightarrow> bool"
  aeCompact :: "string \<Rightarrow> string option"
  aeString :: "string \<Rightarrow> string option"
  aeObject :: "string \<Rightarrow> bool"
  aeOrder :: "string fset \<Rightarrow> string list"

section \<open>Errors\<close>

text \<open>The sentinel and wrapper types of the file; \<open>AeText\<close> is any other error, by its text.\<close>

datatype adapterError = AeText string | AeTurnCompleted | AeTurnIDConsumed | AeTurnAlreadyExists | AeTurnNotFound
  | AeSessionBusy | AeOwnerMismatch | AeCapacity | AeHTTP nat string | AeDeadline | AeCanceled
  | AeProviderStart adapterError | AeValidation adapterError | AeLimit adapterError

fun errText :: "adapterError \<Rightarrow> string" where
  "errText (AeText s) = s"
| "errText AeTurnCompleted = ''turn already completed and is no longer replayable''"
| "errText AeTurnIDConsumed = ''turn id was already consumed''"
| "errText AeTurnAlreadyExists = ''turn already exists''"
| "errText AeTurnNotFound = ''turn not found''"
| "errText AeSessionBusy = ''runtime session already has an active turn''"
| "errText AeOwnerMismatch = ''runtime session owner does not match the cached Foundry session''"
| "errText AeCapacity = ''adapter is at turn capacity''"
| "errText (AeHTTP status operation) = ''Foundry '' @ operation @ '' failed with HTTP '' @ formatUint status"
| "errText AeDeadline = ''context deadline exceeded''"
| "errText AeCanceled = ''context canceled''"
| "errText (AeProviderStart e) = errText e"
| "errText (AeValidation e) = errText e"
| "errText (AeLimit e) = errText e"

text \<open>\<open>errors.Is\<close> and \<open>errors.As\<close> follow the wrappers.\<close>

fun rootError :: "adapterError \<Rightarrow> adapterError" where
  "rootError (AeProviderStart e) = rootError e"
| "rootError (AeValidation e) = rootError e"
| "rootError (AeLimit e) = rootError e"
| "rootError e = e"

definition httpStatus :: "adapterError \<Rightarrow> nat option" where
  "httpStatus e = (case rootError e of AeHTTP status operation \<Rightarrow> Some status | _ \<Rightarrow> None)"

definition containsText :: "string \<Rightarrow> string \<Rightarrow> bool" where
  "containsText s p \<longleftrightarrow> list_ex (\<lambda>i. hasPrefix (drop i s) p) [0..<Suc (length s)]"

definition providerSafeMessage :: "adapterEnv \<Rightarrow> adapterError \<Rightarrow> string" where
  "providerSafeMessage E e =
     (case httpStatus e of Some _ \<Rightarrow> errText (rootError e) | None \<Rightarrow>
      (let lower = aeLower E (errText e) in
       if containsText lower ''adapter limit'' \<or> containsText lower ''invalid json'' \<or>
          containsText lower ''without a terminal'' \<or> containsText lower ''not supplied by orka'' \<or>
          containsText lower ''requested tool''
       then (if hasPrefix (errText e) ''foundry '' then ''Foundry '' @ trimPrefix (errText e) ''foundry '' else errText e)
       else ''Foundry request failed''))"

definition providerFailureMessage :: "responseError option \<Rightarrow> string" where
  "providerFailureMessage e = (case e of None \<Rightarrow> ''Foundry response failed'' | Some r \<Rightarrow>
     (let code = FirstNonBlank [reCode r, reType r] in
      if code = [] then ''Foundry response failed'' else ''Foundry response failed ('' @ code @ '')''))"

definition incompleteFailureMessage :: "string option \<Rightarrow> string" where
  "incompleteFailureMessage i = (case i of None \<Rightarrow> ''Foundry response was incomplete'' | Some reason \<Rightarrow>
     if trimSpace reason = [] then ''Foundry response was incomplete''
     else ''Foundry response was incomplete ('' @ trimSpace reason @ '')'')"

definition retryableResponseFailure :: "adapterEnv \<Rightarrow> responseError option \<Rightarrow> bool" where
  "retryableResponseFailure E e = (case e of None \<Rightarrow> False | Some r \<Rightarrow>
     aeLower E (FirstNonBlank [reCode r, reType r]) \<in> {''server_error'', ''too_many_requests'', ''rate_limit_exceeded'',
       ''no_capacity'', ''timeout'', ''temporarily_unavailable''})"

definition providerSessionCheckpointInvalid :: "adapterError \<Rightarrow> responseRequest \<Rightarrow> bool" where
  "providerSessionCheckpointInvalid e request =
     (if rrAgentSessionID request = [] \<and> rrPreviousResponseID request = [] then False
      else httpStatus e = Some 404 \<or> httpStatus e = Some 410)"

definition retryableProviderError :: "adapterError \<Rightarrow> bool" where
  "retryableProviderError e = (case httpStatus e of None \<Rightarrow> False | Some s \<Rightarrow> s = 408 \<or> s = 429 \<or> s \<ge> 500)"

section \<open>The state of a turn\<close>

text \<open>\<open>tnCause\<close> is the cause of the turn's context, \<open>None\<close> while it lives.\<close>

record turnState =
  tnRequest :: startTurnRequest
  tnRequestFingerprint :: string
  tnOwnerFingerprint :: string
  tnFrames :: "harnessFrame list"
  tnRetainedBytes :: int
  tnResponseID :: string
  tnAgentSessionID :: string
  tnPreviousResponse :: string
  tnText :: string
  tnPendingTools :: "(string, string) fmap"
  tnPendingCallDigests :: "(string, string) fmap"
  tnProviderCallIDs :: "(string, string) fmap"
  tnBufferedResults :: "(string, toolCallResult) fmap"
  tnBufferedResultDigests :: "(string, string) fmap"
  tnSubmittedResultDigests :: "(string, string) fmap"
  tnEmittedResults :: "string fset"
  tnBrokeredStateBytes :: int
  tnBrokeredCallCount :: int
  tnExposedBrokeredWrite :: bool
  tnCompleted :: bool
  tnProviderInFlight :: nat
  tnInvocationUncertain :: bool
  tnPendingOutput :: string
  tnFlushTimer :: bool
  tnCleanupAt :: int
  tnWaitingForTools :: bool
  tnContinuationInFlight :: bool
  tnStarted :: bool
  tnInitializing :: bool
  tnInitDone :: bool
  tnInitErr :: "adapterError option"
  tnDeadline :: int
  tnIsolation :: "string option"
  tnCause :: "adapterError option"
  tnCleanupTimer :: bool

definition cancelContext :: "turnState \<Rightarrow> turnState" where
  "cancelContext t = (if tnCause t = None then t\<lparr>tnCause := Some AeCanceled\<rparr> else t)"

section \<open>Frames\<close>

definition foundryFrameMetadata :: "(string, string) fmap" where
  "foundryFrameMetadata = fmap_of_list [(''backend'', backendMetadata)]"

definition newFrame :: "int \<Rightarrow> frameType \<Rightarrow> string \<Rightarrow> turnState \<Rightarrow> harnessFrame" where
  "newFrame now typ summary t = \<lparr>frVersion = ProtocolVersion, frType = typ,
     frRuntimeSessionID = sqRuntimeSessionID (tnRequest t), frTurnID = sqTurnID (tnRequest t),
     frCorrelationID = sqCorrelationID (tnRequest t), frSeq = int (length (tnFrames t) + 1), frCreatedAt = now,
     frSeverity = [], frSummary = summary, frContent = [], frContentText = [], frToolName = [], frToolCallID = [],
     frApprovalID = [], frCompleted = None, frFailed = None, frError = None, frMetadata = foundryFrameMetadata\<rparr>"

definition appendFrame :: "adapterEnv \<Rightarrow> int \<Rightarrow> frameType \<Rightarrow> string \<Rightarrow> (harnessFrame \<Rightarrow> harnessFrame) \<Rightarrow> turnState \<Rightarrow>
    adapterError option \<times> turnState" where
  "appendFrame E now typ summary mutate t =
     (let frame = mutate (newFrame now typ summary t) in
      case frameJSON (aeCompact E) (aeTime E) frame of
        None \<Rightarrow> (Some (AeText ''json: error calling MarshalJSON''), t)
      | Some encoded \<Rightarrow>
          if length encoded + length (''data: '' @ newline @ newline) > maxHarnessFrameBytes
          then (Some (AeLimit (AeText ''harness frame exceeds adapter serialization limit'')), t)
          else (None, t\<lparr>tnFrames := tnFrames t @ [frame], tnRetainedBytes := tnRetainedBytes t + int (length encoded)\<rparr>))"

definition ensureCapacity :: "adapterConfig \<Rightarrow> turnState \<Rightarrow> nat \<Rightarrow> adapterError option" where
  "ensureCapacity cfg t additional =
     (if afMaxEvents cfg > 0 \<and> int (length (tnFrames t) + additional) \<ge> afMaxEvents cfg
      then Some (AeText ''foundry event count exceeds adapter limit'') else None)"

definition ensureStarted :: "adapterEnv \<Rightarrow> adapterConfig \<Rightarrow> int \<Rightarrow> turnState \<Rightarrow> adapterError option \<times> turnState" where
  "ensureStarted E cfg now t =
     (if tnStarted t then (None, t) else
      case ensureCapacity cfg t 1 of Some e \<Rightarrow> (Some e, t) | None \<Rightarrow>
      (case appendFrame E now TurnStarted ''Foundry response started'' id t of
         (Some e, t') \<Rightarrow> (Some e, t') | (None, t') \<Rightarrow> (None, t'\<lparr>tnStarted := True\<rparr>)))"

definition ensureTerminalStarted :: "adapterEnv \<Rightarrow> int \<Rightarrow> turnState \<Rightarrow> turnState" where
  "ensureTerminalStarted E now t =
     (if tnStarted t then t else
      case appendFrame E now TurnStarted ''Foundry response started'' id t of
        (Some e, t') \<Rightarrow> t' | (None, t') \<Rightarrow> t'\<lparr>tnStarted := True\<rparr>)"

definition flushOutput :: "adapterEnv \<Rightarrow> adapterConfig \<Rightarrow> int \<Rightarrow> turnState \<Rightarrow> adapterError option \<times> turnState" where
  "flushOutput E cfg now t0 =
     (let t = t0\<lparr>tnFlushTimer := False\<rparr> in
      if tnPendingOutput t = [] then (None, t) else
      case ensureCapacity cfg t 1 of Some e \<Rightarrow> (Some e, t) | None \<Rightarrow>
        appendFrame E now RuntimeOutput ''Foundry output'' (\<lambda>f. f\<lparr>frContentText := tnPendingOutput t\<rparr>)
          (t\<lparr>tnPendingOutput := []\<rparr>))"

definition flushBestEffort :: "adapterEnv \<Rightarrow> adapterConfig \<Rightarrow> int \<Rightarrow> turnState \<Rightarrow> turnState" where
  "flushBestEffort E cfg now t = (case flushOutput E cfg now t of
     (None, t') \<Rightarrow> t' | (Some e, t') \<Rightarrow> t'\<lparr>tnPendingOutput := []\<rparr>)"

definition appendMinimalFailure :: "adapterEnv \<Rightarrow> int \<Rightarrow> string \<Rightarrow> string \<Rightarrow> bool \<Rightarrow> turnState \<Rightarrow> turnState" where
  "appendMinimalFailure E now reason message retryable t =
     snd (appendFrame E now FtTurnFailed ''Foundry response failed'' (\<lambda>f. f\<lparr>frFailed := Some
       \<lparr>tfReason = reason, tfMessage = message, tfResult = [], tfData = [], tfArtifacts = [], tfOutputRef = [],
        tfRetryable = retryable\<rparr>\<rparr>) t)"

section \<open>Text and tool calls\<close>

definition appendText :: "adapterEnv \<Rightarrow> adapterConfig \<Rightarrow> int \<Rightarrow> string \<Rightarrow> turnState \<Rightarrow> adapterError option \<times> turnState" where
  "appendText E cfg now delta t =
     (if tnCompleted t then (None, t) else
      case ensureStarted E cfg now t of (Some e, t1) \<Rightarrow> (Some e, t1) | (None, t1) \<Rightarrow>
        if int (length (tnText t1) + length delta) > afMaxOutputBytes cfg
        then (Some (AeText ''foundry output exceeded adapter limit''), t1)
        else (let t2 = t1\<lparr>tnText := tnText t1 @ delta, tnPendingOutput := tnPendingOutput t1 @ delta\<rparr> in
          if length (tnPendingOutput t2) \<ge> 4096 then flushOutput E cfg now t2
          else (None, t2\<lparr>tnFlushTimer := True\<rparr>)))"

definition foundryToolClassSupported :: "string \<Rightarrow> bool" where
  "foundryToolClassSupported c \<longleftrightarrow> c = classRead \<or> c = classWrite"

definition foundryToolAllowed :: "toolDefinition list \<Rightarrow> string \<Rightarrow> bool" where
  "foundryToolAllowed ds name \<longleftrightarrow>
     list_ex (\<lambda>d. foundryToolClassSupported (tdBrokeredClass d) \<and> trimSpace (tdName d) = trimSpace name) ds"

definition foundryToolClass :: "toolDefinition list \<Rightarrow> string \<Rightarrow> string" where
  "foundryToolClass ds name = (case find (\<lambda>d. trimSpace (tdName d) = trimSpace name) ds of
     None \<Rightarrow> [] | Some d \<Rightarrow> tdBrokeredClass d)"

definition hexDigest :: "adapterEnv \<Rightarrow> string \<Rightarrow> string" where
  "hexDigest E s = hexEncode (aeSha E s)"

definition orkaToolCallID :: "adapterEnv \<Rightarrow> string \<Rightarrow> string \<Rightarrow> string \<Rightarrow> string" where
  "orkaToolCallID E session turn call = ''foundry-'' @
     hexEncode (take 16 (aeSha E (jsonArray [jsonString session, jsonString turn, jsonString call])))"

definition foundryFunctionCallFingerprint :: "adapterEnv \<Rightarrow> string \<Rightarrow> string \<Rightarrow> string" where
  "foundryFunctionCallFingerprint E name arguments = hexDigest E (name @ [CHR 0x00] @ arguments)"

text \<open>The texts of the errors of \<^verbatim>\<open>internal/foundry/tools.go\<close>.\<close>

definition identifierError :: "string \<Rightarrow> string \<Rightarrow> adapterError option" where
  "identifierError label value = (if ValidateIdentifier value then None
     else Some (AeText (''foundry '' @ label @
       (if length value > MaxIdentifierBytes then '' exceeds adapter limit'' else '' contains unsafe characters''))))"

definition callIDError :: "string \<Rightarrow> adapterError option" where
  "callIDError callID = (if ValidateCallID callID then None else Some (AeText
     (if callID = [] then ''foundry function call omitted call_id''
      else if length (runes callID) > 64 then ''foundry function call id exceeds 64 characters''
      else ''foundry function call id contains control characters'')))"

definition recordFunctionCall :: "adapterEnv \<Rightarrow> adapterConfig \<Rightarrow> int \<Rightarrow> outputItem \<Rightarrow> turnState \<Rightarrow>
    adapterError option \<times> turnState" where
  "recordFunctionCall E cfg now call t =
     (let providerCallID = oiCallID call; name = oiName call in
      if callIDError providerCallID \<noteq> None then (callIDError providerCallID, t)
      else if \<not> ValidateFunctionName name then (Some (AeText ''foundry function call name is invalid''), t)
      else (let callID = orkaToolCallID E (sqRuntimeSessionID (tnRequest t)) (sqTurnID (tnRequest t)) providerCallID in
      case NormalizeToolArguments (aeValid E) (aeString E) (oiArguments call) of
        None \<Rightarrow> (Some (AeText ''foundry tool arguments are not valid JSON''), t)
      | Some arguments \<Rightarrow>
        (let callDigest = foundryFunctionCallFingerprint E name arguments in
         if tnCompleted t then (None, t)
         else if sqToolExecutionMode (tnRequest t) \<noteq> modeBrokered \<or> \<not> foundryToolAllowed (tiTools (sqInput (tnRequest t))) name
         then (Some (AeText (''foundry requested tool '' @ aeQuote E name @ '' that was not supplied by Orka'')), t)
         else if fmlookup (tnSubmittedResultDigests t) callID \<noteq> None
         then (Some (AeText (''foundry reused already submitted function call id '' @ aeQuote E callID)), t)
         else (case fmlookup (tnPendingTools t) callID of
           Some existing \<Rightarrow>
             if existing \<noteq> name \<or> lookupString (tnPendingCallDigests t) callID \<noteq> callDigest \<or>
                lookupString (tnProviderCallIDs t) callID \<noteq> providerCallID
             then (Some (AeText (''foundry reused function call id '' @ aeQuote E providerCallID @ '' with conflicting content'')), t)
             else (None, t)
         | None \<Rightarrow>
           (case ensureStarted E cfg now t of (Some e, t1) \<Rightarrow> (Some e, t1) | (None, t1) \<Rightarrow>
           (case flushOutput E cfg now t1 of (Some e, t2) \<Rightarrow> (Some e, t2) | (None, t2) \<Rightarrow>
           (case ensureCapacity cfg t2 1 of Some e \<Rightarrow> (Some e, t2) | None \<Rightarrow>
            (let t3 = (if foundryToolClass (tiTools (sqInput (tnRequest t2))) name = classWrite
                       then t2\<lparr>tnExposedBrokeredWrite := True\<rparr> else t2);
                 bytes = int (length callID + length providerCallID + length name + length arguments) in
             if afMaxBrokeredCalls cfg > 0 \<and> tnBrokeredCallCount t3 \<ge> afMaxBrokeredCalls cfg
             then (Some (AeText ''foundry brokered tool call count exceeds adapter limit''), t3)
             else if afMaxBrokeredTurnBytes cfg > 0 \<and> tnBrokeredStateBytes t3 + bytes > afMaxBrokeredTurnBytes cfg
             then (Some (AeText ''foundry brokered tool state exceeds adapter limit''), t3)
             else appendFrame E now ToolCallRequested ''Foundry requested brokered tool''
               (\<lambda>f. f\<lparr>frToolName := name, frToolCallID := callID, frContent := arguments\<rparr>)
               (t3\<lparr>tnBrokeredCallCount := tnBrokeredCallCount t3 + 1, tnBrokeredStateBytes := tnBrokeredStateBytes t3 + bytes,
                  tnPendingTools := fmupd callID name (tnPendingTools t3),
                  tnPendingCallDigests := fmupd callID callDigest (tnPendingCallDigests t3),
                  tnProviderCallIDs := fmupd callID providerCallID (tnProviderCallIDs t3)\<rparr>)))))))))"

section \<open>Tool schemas\<close>

definition foundryToolSchemas :: "startTurnRequest \<Rightarrow> toolSchema list" where
  "foundryToolSchemas r =
     (if sqToolExecutionMode r \<noteq> modeBrokered then [] else
      map (\<lambda>d. \<lparr>tsType = ''function'', tsName = trimSpace (tdName d), tsDescription = trimSpace (tdDescription d),
            tsParameters = (if tdParameters d \<noteq> [] then tdParameters d
              else ''{'' @ jsonString ''type'' @ '':'' @ jsonString ''object'' @ '','' @
                jsonString ''additionalProperties'' @ '':true}'')\<rparr>)
        (filter (\<lambda>d. foundryToolClassSupported (tdBrokeredClass d) \<and> trimSpace (tdName d) \<noteq> []) (tiTools (sqInput r))))"

definition providerToolSchemas :: "adapterConfig \<Rightarrow> startTurnRequest \<Rightarrow> toolSchema list" where
  "providerToolSchemas cfg r =
     (if equalFold (trimSpace (afToolSchemaMode cfg)) ToolSchemaModeProviderStatic then [] else foundryToolSchemas r)"

section \<open>Results and continuations\<close>

definition toolResultFingerprint :: "adapterEnv \<Rightarrow> toolCallResult \<Rightarrow> (string \<times> int) option" where
  "toolResultFingerprint E r = map_option (\<lambda>enc. (hexDigest E enc, int (length enc))) (resultJSON (aeCompact E) r)"

fun validateBrokeredResultFrames :: "adapterEnv \<Rightarrow> int \<Rightarrow> toolCallResult list \<Rightarrow> adapterError option" where
  "validateBrokeredResultFrames E maxBytes [] = None"
| "validateBrokeredResultFrames E maxBytes (r # rs) = (case resultJSON (aeCompact E) r of
     None \<Rightarrow> Some (AeValidation (AeText ''json: error calling MarshalJSON''))
   | Some enc \<Rightarrow> if int (length enc) > maxBytes
       then Some (AeLimit (AeText (''brokered tool result '' @ aeQuote E (trToolCallID r) @
         '' frame exceeds adapter limit of '' @ formatInt maxBytes @ '' bytes'')))
       else validateBrokeredResultFrames E maxBytes rs)"

record stagedToolResult =
  sgCallID :: string
  sgDigest :: string
  sgSize :: int
  sgResult :: toolCallResult

fun stageResults :: "adapterEnv \<Rightarrow> turnState \<Rightarrow> toolCallResult list \<Rightarrow> adapterError + stagedToolResult list" where
  "stageResults E t [] = Inr []"
| "stageResults E t (r # rs) =
     (let callID = trimSpace (trToolCallID r) in
      case toolResultFingerprint E r of None \<Rightarrow> Inl (AeText ''json: error calling MarshalJSON'') | Some (digest, bytes) \<Rightarrow>
      (case fmlookup (tnSubmittedResultDigests t) callID of
         Some submitted \<Rightarrow> if submitted \<noteq> digest
           then Inl (AeText (''tool result '' @ aeQuote E callID @ '' conflicts with an already submitted result''))
           else stageResults E t rs
       | None \<Rightarrow>
           if tnCompleted t
           then Inl (AeText (''tool result '' @ aeQuote E callID @ '' was not submitted before the turn became terminal''))
           else if fmlookup (tnPendingTools t) callID = None
           then Inl (AeText (''tool result '' @ aeQuote E callID @ '' is not pending for this turn''))
           else (case fmlookup (tnBufferedResultDigests t) callID of
               Some buffered \<Rightarrow> if buffered \<noteq> digest
                 then Inl (AeText (''tool result '' @ aeQuote E callID @ '' conflicts with a buffered result''))
                 else stageResults E t rs
             | None \<Rightarrow> map_sum id (\<lambda>staged. \<lparr>sgCallID = callID, sgDigest = digest, sgSize = bytes, sgResult = r\<rparr> # staged)
                 (stageResults E t rs))))"

definition bufferResult :: "stagedToolResult \<Rightarrow> turnState \<Rightarrow> turnState" where
  "bufferResult s t = t\<lparr>tnBrokeredStateBytes := tnBrokeredStateBytes t + sgSize s,
     tnBufferedResults := fmupd (sgCallID s) (sgResult s) (tnBufferedResults t),
     tnBufferedResultDigests := fmupd (sgCallID s) (sgDigest s) (tnBufferedResultDigests t)\<rparr>"

definition continueMatches :: "continueTurnRequest \<Rightarrow> startTurnRequest \<Rightarrow> bool" where
  "continueMatches c r \<longleftrightarrow> cnRuntimeSessionID c = sqRuntimeSessionID r \<and> cnTurnID c = sqTurnID r \<and>
     cnCorrelationID c = sqCorrelationID r \<and> cnNamespace c = sqNamespace r \<and> cnTaskName c = sqTaskName r \<and>
     cnSessionName c = sqSessionName r"

definition cancelRequestMatchesTurn :: "cancelTurnRequest \<Rightarrow> startTurnRequest \<Rightarrow> bool" where
  "cancelRequestMatchesTurn c r \<longleftrightarrow> clNamespace c = sqNamespace r \<and> clTaskName c = sqTaskName r \<and>
     clSessionName c = sqSessionName r \<and> clRuntimeSessionID c = sqRuntimeSessionID r \<and>
     clTurnID c = sqTurnID r \<and> clCorrelationID c = sqCorrelationID r"

text \<open>One answer of a continuation: the error of a result takes the place of its output.\<close>

definition resultOutput :: "toolCallResult \<Rightarrow> string" where
  "resultOutput r = (case trError r of None \<Rightarrow> trOutput r | Some e \<Rightarrow> errorInfoJSON e)"

definition functionOutput :: "string \<Rightarrow> string \<Rightarrow> json" where
  "functionOutput callID out = JObj [(''type'', JStr ''function_call_output''), (''call_id'', JStr callID), (''output'', JStr out)]"

definition noResult :: toolCallResult where
  "noResult = \<lparr>trVersion = [], trRuntimeSessionID = [], trTurnID = [], trToolCallID = [], trIdempotencyKey = [],
     trApproved = False, trOutput = [], trError = None\<rparr>"

definition bufferedResult :: "turnState \<Rightarrow> string \<Rightarrow> toolCallResult" where
  "bufferedResult t callID = (case fmlookup (tnBufferedResults t) callID of None \<Rightarrow> noResult | Some r \<Rightarrow> r)"

fun emitResults :: "adapterEnv \<Rightarrow> int \<Rightarrow> string list \<Rightarrow> turnState \<Rightarrow> adapterError option \<times> turnState" where
  "emitResults E now [] t = (None, t)"
| "emitResults E now (callID # ids) t =
     (if callID |\<in>| tnEmittedResults t then emitResults E now ids t else
      case appendFrame E now ToolResultReceived ''brokered tool result received''
          (\<lambda>f. f\<lparr>frToolName := lookupString (tnPendingTools t) callID, frToolCallID := callID,
             frContent := trOutput (bufferedResult t callID), frError := trError (bufferedResult t callID)\<rparr>) t of
        (Some e, t') \<Rightarrow> (Some e, t')
      | (None, t') \<Rightarrow> emitResults E now ids (t'\<lparr>tnEmittedResults := finsert callID (tnEmittedResults t')\<rparr>))"

definition submitResult :: "string \<Rightarrow> turnState \<Rightarrow> turnState" where
  "submitResult callID t = t\<lparr>
     tnSubmittedResultDigests := fmupd callID (lookupString (tnBufferedResultDigests t) callID) (tnSubmittedResultDigests t),
     tnPendingTools := fmdrop callID (tnPendingTools t), tnPendingCallDigests := fmdrop callID (tnPendingCallDigests t),
     tnProviderCallIDs := fmdrop callID (tnProviderCallIDs t), tnBufferedResults := fmdrop callID (tnBufferedResults t),
     tnBufferedResultDigests := fmdrop callID (tnBufferedResultDigests t)\<rparr>"

definition continuationRequest :: "adapterConfig \<Rightarrow> turnState \<Rightarrow> string list \<Rightarrow> responseRequest" where
  "continuationRequest cfg t callIDs =
     \<lparr>rrInput = JArr (map (\<lambda>c. functionOutput (lookupString (tnProviderCallIDs t) c) (resultOutput (bufferedResult t c))) callIDs),
      rrStream = False, rrStore = False,
      rrPreviousResponseID = FirstNonBlank [tnResponseID t, tnPreviousResponse t],
      rrAgentSessionID = tnAgentSessionID t, rrTools = providerToolSchemas cfg (tnRequest t)\<rparr>"

definition prepareContinuation :: "adapterEnv \<Rightarrow> adapterConfig \<Rightarrow> int \<Rightarrow> turnState \<Rightarrow>
    (adapterError + responseRequest) \<times> turnState" where
  "prepareContinuation E cfg now t =
     (if tnContinuationInFlight t then (Inl (AeText ''foundry continuation is already in flight''), t) else
      (let callIDs = sorted_list_of_fset (fmdom (tnPendingTools t)) in
       case ensureCapacity cfg t (length callIDs) of Some e \<Rightarrow> (Inl e, t) | None \<Rightarrow>
       (case emitResults E now callIDs t of (Some e, t1) \<Rightarrow> (Inl e, t1) | (None, t1) \<Rightarrow>
         if FirstNonBlank [tnResponseID t1, tnPreviousResponse t1] = []
         then (Inl (AeText ''foundry continuation is missing previous_response_id''), t1)
         else (Inr (continuationRequest cfg t1 callIDs),
           (fold submitResult callIDs t1)\<lparr>tnWaitingForTools := False, tnContinuationInFlight := True\<rparr>))))"

section \<open>Requests of a turn\<close>

definition prepareFoundryStartRequest :: "startTurnRequest \<Rightarrow> startTurnRequest" where
  "prepareFoundryStartRequest r = (if sqToolExecutionMode r = [] then r\<lparr>sqToolExecutionMode := modeObserved\<rparr> else r)
     \<lparr>sqInput := (sqInput r)\<lparr>tiEnv := []\<rparr>\<rparr>"

definition compactStartTurnRequest :: "startTurnRequest \<Rightarrow> startTurnRequest" where
  "compactStartTurnRequest r = r\<lparr>sqAuthIdentity := \<lparr>aiSubject = [], aiIssuer = [], aiUsername = [], aiGroups = [], aiRoles = []\<rparr>,
     sqToolPolicyRef := None, sqApprovalPolicyRef := None,
     sqInput := (sqInput r)\<lparr>tiPrompt := [], tiContextRefs := [], tiEnv := []\<rparr>, sqMetadata := fmempty\<rparr>"

definition startTurnFingerprint :: "adapterEnv \<Rightarrow> startTurnRequest \<Rightarrow> string" where
  "startTurnFingerprint E r = (case startJSON (aeCompact E) (aeTime E) (r\<lparr>sqDeadline := 0, sqEventCursor := 0\<rparr>) of
     None \<Rightarrow> [] | Some enc \<Rightarrow> hexDigest E enc)"

definition runtimeSessionPrincipal :: "startTurnRequest \<Rightarrow> string" where
  "runtimeSessionPrincipal r =
     (let subject = trimSpace (aiSubject (sqAuthIdentity r)) in
      if hasPrefix subject (''task:'' @ trimSpace (sqNamespace r) @ ''/'') then ''task-namespace:'' @ trimSpace (sqNamespace r)
      else if subject \<noteq> [] then ''subject:'' @ subject
      else ''user:'' @ trimSpace (aiUsername (sqAuthIdentity r)))"

definition runtimeSessionOwnerFingerprint :: "adapterEnv \<Rightarrow> startTurnRequest \<Rightarrow> string" where
  "runtimeSessionOwnerFingerprint E r = hexDigest E (jsonObject
     [(''namespace'', Some (jsonString (sqNamespace r))), (''sessionName'', Some (jsonString (sqSessionName r))),
      (''principal'', Some (jsonString (runtimeSessionPrincipal r))), (''issuer'', omitEmptyString (aiIssuer (sqAuthIdentity r)))])"

definition identityFields :: "startTurnRequest \<Rightarrow> (string, string) fmap" where
  "identityFields r = fmap_of_list [(''namespace'', sqNamespace r), (''task name'', sqTaskName r),
     (''session name'', sqSessionName r), (''runtime session id'', sqRuntimeSessionID r), (''turn id'', sqTurnID r),
     (''correlation id'', sqCorrelationID r)]"

definition validateAdapterStartRequest :: "adapterEnv \<Rightarrow> startTurnRequest \<Rightarrow> adapterError option" where
  "validateAdapterStartRequest E r =
     (case find (\<lambda>f. length (lookupString (identityFields r) f) > maxHarnessIdentityBytes)
         (aeOrder E (fmdom (identityFields r))) of
        Some f \<Rightarrow> Some (AeText (f @ '' exceeds adapter identity limit''))
      | None \<Rightarrow>
        if length (tiPrompt (sqInput r)) > MaxPromptBytes then Some (AeText ''prompt exceeds adapter limit'')
        else if length (tiTools (sqInput r)) > DefaultMaxBrokeredCalls then Some (AeText ''tool schema count exceeds adapter limit'')
        else if sum_list (map (\<lambda>d. length (tdName d) + length (tdDescription d) + length (tdParameters d)) (tiTools (sqInput r)))
            > MaxToolSchemaBytes then Some (AeText ''tool schemas exceed adapter limit'')
        else None)"

definition foundryTurnDeadline :: "int \<Rightarrow> int \<Rightarrow> int \<Rightarrow> int" where
  "foundryTurnDeadline now requested timeout = (if requested \<noteq> 0 \<and> requested < now + timeout then requested else now + timeout)"

fun validateFoundryToolDefinitions :: "adapterEnv \<Rightarrow> string set \<Rightarrow> toolDefinition list \<Rightarrow> adapterError option" where
  "validateFoundryToolDefinitions E seen [] = None"
| "validateFoundryToolDefinitions E seen (d # ds) =
     (let name = trimSpace (tdName d) in
      if \<not> ValidateFunctionName name then Some (AeText (''foundry tool name '' @ aeQuote E name @
        '' must contain 1-128 letters, numbers, underscores, or hyphens''))
      else if name \<in> seen then Some (AeText (''duplicate Foundry tool name '' @ aeQuote E name))
      else if \<not> foundryToolClassSupported (tdBrokeredClass d)
      then Some (AeText (''unsupported Foundry brokered tool class '' @ aeQuote E (tdBrokeredClass d) @ '' for tool '' @
        aeQuote E (tdName d)))
      else if tdParameters d \<noteq> [] \<and> \<not> aeObject E (tdParameters d)
      then Some (AeText (''foundry tool '' @ aeQuote E name @ '' parameters must be a JSON object''))
      else validateFoundryToolDefinitions E (insert name seen) ds)"

definition validateConfiguredToolDefinitions :: "adapterEnv \<Rightarrow> adapterConfig \<Rightarrow> toolDefinition list \<Rightarrow> adapterError option" where
  "validateConfiguredToolDefinitions E cfg ds =
     (case find (\<lambda>d. tdBrokeredClass d \<notin> set (afBrokeredToolClasses cfg)) ds of
        None \<Rightarrow> None
      | Some d \<Rightarrow> Some (AeText (''foundry brokered tool class '' @ aeQuote E (tdBrokeredClass d) @ '' is not enabled'')))"

definition isolationKeyForRuntimeSession :: "adapterEnv \<Rightarrow> string \<Rightarrow> string" where
  "isolationKeyForRuntimeSession E sid = ''orka-'' @ hexEncode (take 16 (aeSha E sid))"

end
