(* ===== verification/AdapterCore.thy ===== *)
theory AdapterCore
  imports AdapterTurn
begin

text \<open>
  \<^verbatim>\<open>src/internal/adapter/adapter.go\<close>, the adapter: its turns, runtime sessions and tombstones.
  A turn is shared by pointer between the map and the goroutines that serve it, and lives on after
  it has left the map; turns are therefore kept in a store of their own (\<open>adHeap\<close>) and the map
  holds their addresses. Every definition below is one critical section under \<open>a.mu\<close>; \<open>now\<close> is
  the clock's reading in it.
\<close>

section \<open>State\<close>

record runtimeSessionState =
  rtOwnerFingerprint :: string
  rtAgentSessionID :: string
  rtPreviousResponse :: string
  rtLastSeen :: int

record turnTombstone =
  tbFingerprint :: string
  tbExpiresAt :: int

record adapterState =
  adTurns :: "(string, nat) fmap"
  adHeap :: "(nat, turnState) fmap"
  adSessions :: "(string, runtimeSessionState) fmap"
  adTombstones :: "(string, turnTombstone) fmap"
  adNext :: nat  \<comment> \<open>the next address\<close>

definition newAdapter :: adapterState where
  "newAdapter = \<lparr>adTurns = fmempty, adHeap = fmempty, adSessions = fmempty, adTombstones = fmempty, adNext = 0\<rparr>"

definition turnOf :: "adapterState \<Rightarrow> nat \<Rightarrow> turnState" where
  "turnOf a h = the (fmlookup (adHeap a) h)"

definition putTurn :: "nat \<Rightarrow> turnState \<Rightarrow> adapterState \<Rightarrow> adapterState" where
  "putTurn h t a = a\<lparr>adHeap := fmupd h t (adHeap a)\<rparr>"

definition turnNamed :: "adapterState \<Rightarrow> string \<Rightarrow> turnState option" where
  "turnNamed a turnID = (case fmlookup (adTurns a) turnID of None \<Rightarrow> None | Some h \<Rightarrow> fmlookup (adHeap a) h)"

section \<open>Retention\<close>

lemma fcard_fminus_less: "k |\<in>| A \<Longrightarrow> fcard (A |-| {|k|}) < fcard A"
  by (metis fcard_Suc_fminus1 lessI)

text \<open>The key that a loop over a map keeps when it looks for the least rank.\<close>

fun leastBy :: "('v \<Rightarrow> int) \<Rightarrow> (string, 'v) fmap \<Rightarrow> string list \<Rightarrow> (string \<times> int) option \<Rightarrow> (string \<times> int) option" where
  "leastBy rank m [] best = best"
| "leastBy rank m (k # ks) best = (case fmlookup m k of None \<Rightarrow> leastBy rank m ks best | Some v \<Rightarrow>
     leastBy rank m ks (case best of None \<Rightarrow> Some (k, rank v)
       | Some (k', r) \<Rightarrow> if rank v < r then Some (k, rank v) else best))"

lemma leastBy_dom: "leastBy rank m ks best = Some (k, r) \<Longrightarrow> (\<forall>k' r'. best = Some (k', r') \<longrightarrow> k' |\<in>| fmdom m) \<Longrightarrow> k |\<in>| fmdom m"
proof (induction rank m ks best rule: leastBy.induct)
  case (2 rank m k' ks best)
  show ?case
  proof (cases "fmlookup m k'")
    case None
    with 2 show ?thesis by simp
  next
    case (Some v)
    then have "k' |\<in>| fmdom m" by (auto intro: fmdomI)
    with 2 Some show ?thesis by (auto split: option.splits if_splits)
  qed
qed auto

text \<open>\<open>for len(m) > limit { delete(m, oldest) }\<close>.\<close>

function evictOldest :: "(string fset \<Rightarrow> string list) \<Rightarrow> ('v \<Rightarrow> int) \<Rightarrow> nat \<Rightarrow> (string, 'v) fmap \<Rightarrow> (string, 'v) fmap" where
  "evictOldest order rank limit m =
     (if fmcard m \<le> limit then m else
      case leastBy rank m (order (fmdom m)) None of None \<Rightarrow> m
      | Some (k, r) \<Rightarrow> evictOldest order rank limit (fmdrop k m))"
  by auto
termination
proof (relation "measure (\<lambda>(order, rank, limit, m). fcard (fmdom m))", goal_cases)
  case (2 order rank limit m p k r)
  then have "k |\<in>| fmdom m" by (auto dest: leastBy_dom)
  from fcard_fminus_less [OF this] show ?case by simp
qed simp

declare evictOldest.simps [simp del]

definition pruneRuntimeSessions :: "adapterEnv \<Rightarrow> int \<Rightarrow> (string, runtimeSessionState) fmap \<Rightarrow> (string, runtimeSessionState) fmap" where
  "pruneRuntimeSessions E now m = evictOldest (aeOrder E) rtLastSeen maxRuntimeSessions
     (fmfilter (\<lambda>k. case fmlookup m k of None \<Rightarrow> True | Some s \<Rightarrow> rtLastSeen s + defaultRuntimeSessionRetention > now) m)"

definition pruneTombstones :: "adapterEnv \<Rightarrow> int \<Rightarrow> (string, turnTombstone) fmap \<Rightarrow> (string, turnTombstone) fmap" where
  "pruneTombstones E now m = evictOldest (aeOrder E) tbExpiresAt maxTurnTombstones
     (fmfilter (\<lambda>k. case fmlookup m k of None \<Rightarrow> True | Some s \<Rightarrow> tbExpiresAt s > now) m)"

definition deleteTurn :: "string \<Rightarrow> adapterState \<Rightarrow> adapterState" where
  "deleteTurn turnID a = (case fmlookup (adTurns a) turnID of None \<Rightarrow> a | Some h \<Rightarrow>
     a\<lparr>adHeap := fmadjust h (\<lambda>t. t\<lparr>tnCleanupTimer := False\<rparr>) (adHeap a), adTurns := fmdrop turnID (adTurns a)\<rparr>)"

text \<open>The retained turns: ended, with no provider call left.\<close>

definition retained :: "turnState \<Rightarrow> bool" where
  "retained t \<longleftrightarrow> tnCompleted t \<and> tnProviderInFlight t = 0"

definition retainedMap :: "adapterState \<Rightarrow> (string, turnState) fmap" where
  "retainedMap a = fmmap (turnOf a) (fmfilter (\<lambda>k. case turnNamed a k of None \<Rightarrow> False | Some t \<Rightarrow> retained t) (adTurns a))"

function pruneRetained :: "adapterEnv \<Rightarrow> string \<Rightarrow> adapterState \<Rightarrow> adapterState" where
  "pruneRetained E preferKeep a =
     (let m = retainedMap a; bytes = sum_list (map (\<lambda>k. case fmlookup m k of None \<Rightarrow> 0 | Some t \<Rightarrow> tnRetainedBytes t)
          (sorted_list_of_fset (fmdom m))) in
      if fmcard m \<le> maxRetainedTurns \<and> bytes \<le> maxRetainedTurnStateBytes then a else
      case leastBy tnCleanupAt (fmdrop preferKeep m) (aeOrder E (fmdom (adTurns a))) None of
        None \<Rightarrow> a
      | Some (k, at) \<Rightarrow> pruneRetained E preferKeep (deleteTurn k a))"
  by auto
termination
proof (relation "measure (\<lambda>(E, keep, a). fcard (fmdom (adTurns a)))", goal_cases)
  case (2 E keep a m bytes p k r)
  then have "k |\<in>| fmdom (fmdrop keep m)" by (auto dest: leastBy_dom)
  then have k: "k |\<in>| fmdom (adTurns a)" by (auto simp: 2 retainedMap_def)
  then obtain h where h: "fmlookup (adTurns a) k = Some h" by (auto simp: fmlookup_dom_iff)
  from fcard_fminus_less [OF k] show ?case by (simp add: deleteTurn_def h)
qed simp

declare pruneRetained.simps [simp del]

definition maybeDeleteExpired :: "int \<Rightarrow> turnState \<Rightarrow> adapterState \<Rightarrow> adapterState" where
  "maybeDeleteExpired now t a =
     (if \<not> tnCompleted t \<or> tnProviderInFlight t > 0 \<or> tnCleanupAt t > now then a
      else deleteTurn (sqTurnID (tnRequest t)) a)"

definition pruneExpired :: "adapterEnv \<Rightarrow> int \<Rightarrow> adapterState \<Rightarrow> adapterState" where
  "pruneExpired E now a = fold (\<lambda>k a. case turnNamed a k of None \<Rightarrow> a
     | Some t \<Rightarrow> if tnCompleted t \<and> tnCleanupAt t \<le> now then maybeDeleteExpired now t a else a)
     (aeOrder E (fmdom (adTurns a))) a"

definition prune :: "adapterEnv \<Rightarrow> int \<Rightarrow> adapterState \<Rightarrow> adapterState" where
  "prune E now a =
     (let a1 = a\<lparr>adSessions := pruneRuntimeSessions E now (adSessions a)\<rparr>;
          a2 = pruneExpired E now (pruneRetained E [] a1)
      in a2\<lparr>adTombstones := pruneTombstones E now (adTombstones a2)\<rparr>)"

definition getTurn :: "adapterEnv \<Rightarrow> int \<Rightarrow> string \<Rightarrow> adapterState \<Rightarrow> nat option \<times> adapterState" where
  "getTurn E now turnID a = (let a' = prune E now a in (fmlookup (adTurns a') turnID, a'))"

section \<open>The end of a turn\<close>

definition requestBytes :: "adapterEnv \<Rightarrow> startTurnRequest \<Rightarrow> int" where
  "requestBytes E r = (case startJSON (aeCompact E) (aeTime E) r of None \<Rightarrow> 0 | Some enc \<Rightarrow> int (length enc))"

definition endTurn :: "adapterEnv \<Rightarrow> int \<Rightarrow> turnState \<Rightarrow> turnState" where
  "endTurn E now t0 =
     (let t = cancelContext t0;
          request = (tnRequest t)\<lparr>sqInput := (sqInput (tnRequest t))\<lparr>tiTools := []\<rparr>, sqToolExecutionMode := []\<rparr> in
      t\<lparr>tnCompleted := True, tnCleanupAt := now + defaultStateRetention, tnFlushTimer := False, tnPendingOutput := [],
        tnText := [], tnPendingTools := fmempty, tnPendingCallDigests := fmempty, tnProviderCallIDs := fmempty,
        tnBufferedResults := fmempty, tnBufferedResultDigests := fmempty, tnEmittedResults := {||}, tnRequest := request,
        tnRetainedBytes := max 0 (tnRetainedBytes t - (requestBytes E (tnRequest t) - requestBytes E request)),
        tnCleanupTimer := True\<rparr>)"

definition finishTerminal :: "adapterEnv \<Rightarrow> int \<Rightarrow> nat \<Rightarrow> adapterState \<Rightarrow> adapterState" where
  "finishTerminal E now h a =
     (let t = turnOf a h; turnID = sqTurnID (tnRequest t) in
      if tnCompleted t then a else
      pruneRetained E turnID ((putTurn h (endTurn E now t) a)\<lparr>adTombstones :=
        fmupd turnID \<lparr>tbFingerprint = tnRequestFingerprint t, tbExpiresAt = now + defaultTombstoneRetention\<rparr> (adTombstones a)\<rparr>))"

text \<open>The terminal frame of an ending turn, or the minimal failure when it does not fit.\<close>

definition terminalFrame :: "adapterEnv \<Rightarrow> adapterConfig \<Rightarrow> int \<Rightarrow> frameType \<Rightarrow> string \<Rightarrow> string \<Rightarrow>
    (harnessFrame \<Rightarrow> harnessFrame) \<Rightarrow> turnState \<Rightarrow> turnState" where
  "terminalFrame E cfg now typ summary large mutate t =
     (case appendFrame E now typ summary mutate t of
        (None, t') \<Rightarrow> t'
      | (Some e, t') \<Rightarrow> appendMinimalFailure E now ''terminal_frame_too_large'' large False t')"

definition beforeTerminal :: "adapterEnv \<Rightarrow> adapterConfig \<Rightarrow> int \<Rightarrow> turnState \<Rightarrow> turnState" where
  "beforeTerminal E cfg now t = flushBestEffort E cfg now (ensureTerminalStarted E now t)"

definition sessionRecord :: "int \<Rightarrow> turnState \<Rightarrow> runtimeSessionState" where
  "sessionRecord now t = \<lparr>rtOwnerFingerprint = tnOwnerFingerprint t, rtAgentSessionID = tnAgentSessionID t,
     rtPreviousResponse = tnPreviousResponse t, rtLastSeen = now\<rparr>"

definition recordRuntimeSession :: "adapterEnv \<Rightarrow> int \<Rightarrow> bool \<Rightarrow> nat \<Rightarrow> adapterState \<Rightarrow> adapterState" where
  "recordRuntimeSession E now commitResponse h a =
     (let t = turnOf a h;
          t' = (if commitResponse \<and> tnResponseID t \<noteq> [] then t\<lparr>tnPreviousResponse := tnResponseID t\<rparr> else t);
          a' = putTurn h t' a in
      if tnAgentSessionID t' = [] \<and> tnPreviousResponse t' = [] then a'
      else a'\<lparr>adSessions := pruneRuntimeSessions E now
        (fmupd (sqRuntimeSessionID (tnRequest t')) (sessionRecord now t') (adSessions a'))\<rparr>)"

definition finishCompleted :: "adapterEnv \<Rightarrow> adapterConfig \<Rightarrow> int \<Rightarrow> nat \<Rightarrow> adapterState \<Rightarrow> adapterState" where
  "finishCompleted E cfg now h a =
     (let t1 = beforeTerminal E cfg now (turnOf a h);
          result = tnText t1;
          a2 = recordRuntimeSession E now True h (putTurn h t1 a);
          t2 = turnOf a2 h;
          t3 = terminalFrame E cfg now FtTurnCompleted ''Foundry response completed''
            ''terminal response exceeded harness frame limit''
            (\<lambda>f. f\<lparr>frCompleted := Some \<lparr>tcResult = result, tcData = [], tcArtifacts = [], tcOutputRef = [], tcFinalEventSeq = 0,
               tcRetainSession = (tnAgentSessionID t2 \<noteq> [] \<or> tnResponseID t2 \<noteq> [])\<rparr>\<rparr>) t2
      in finishTerminal E now h (putTurn h t3 a2))"

definition finishFailed :: "adapterEnv \<Rightarrow> adapterConfig \<Rightarrow> int \<Rightarrow> nat \<Rightarrow> string \<Rightarrow> string \<Rightarrow> bool \<Rightarrow> adapterState \<Rightarrow> adapterState" where
  "finishFailed E cfg now h reason message retryable a =
     (let t1 = beforeTerminal E cfg now (turnOf a h);
          retry = (retryable \<and> \<not> (tnInvocationUncertain t1 \<or> tnExposedBrokeredWrite t1 \<or>
            sqToolExecutionMode (tnRequest t1) = modeObserved));
          t2 = terminalFrame E cfg now FtTurnFailed ''Foundry response failed''
            ''terminal failure exceeded harness frame limit''
            (\<lambda>f. f\<lparr>frFailed := Some \<lparr>tfReason = reason, tfMessage = message, tfResult = [], tfData = [], tfArtifacts = [],
               tfOutputRef = [], tfRetryable = retry\<rparr>\<rparr>) t1
      in finishTerminal E now h (putTurn h t2 a))"

definition finishCancelled :: "adapterEnv \<Rightarrow> adapterConfig \<Rightarrow> int \<Rightarrow> nat \<Rightarrow> adapterState \<Rightarrow> adapterState" where
  "finishCancelled E cfg now h a =
     (let t1 = beforeTerminal E cfg now (turnOf a h);
          t2 = terminalFrame E cfg now FtTurnCancelled ''turn cancelled'' ''cancellation frame exceeded harness frame limit'' id t1
      in finishTerminal E now h (putTurn h t2 a))"

end
