(* ===== verification/AdapterOps.thy ===== *)
theory AdapterOps
  imports AdapterCore
begin

text \<open>
  \<^verbatim>\<open>src/internal/adapter/adapter.go\<close>, the operations: starting a turn, the provider call that
  serves it, continuing and cancelling it, and its timers. Each is split where the code releases
  the mutex; the pieces are put together in the theory \<^verbatim>\<open>AdapterSystem\<close>.
\<close>

section \<open>Starting a turn\<close>

datatype admission = AdRefused adapterError | AdExisting nat string | AdNew nat string

text \<open>The checks of \<open>startTurn\<close> before the lock, on the prepared request: the events path.\<close>

definition checkStart :: "adapterEnv \<Rightarrow> adapterConfig \<Rightarrow> startTurnRequest \<Rightarrow> adapterError + string" where
  "checkStart E cfg r =
     (case validateAdapterStartRequest E r of Some e \<Rightarrow> Inl e | None \<Rightarrow>
      (case (if sqToolExecutionMode r \<noteq> modeBrokered then None
             else if afBrokeredToolClasses cfg = [] then Some (AeText ''foundry brokered tool mode is not enabled'')
             else (case validateFoundryToolDefinitions E {} (tiTools (sqInput r)) of Some e \<Rightarrow> Some e
                   | None \<Rightarrow> validateConfiguredToolDefinitions E cfg (tiTools (sqInput r)))) of
         Some e \<Rightarrow> Inl e
       | None \<Rightarrow> (case EventStreamPath (sqTurnID r) of Inl e \<Rightarrow> Inl (AeText e) | Inr p \<Rightarrow> Inr p)))"

definition activeTurn :: "turnState \<Rightarrow> bool" where
  "activeTurn t \<longleftrightarrow> \<not> (tnCompleted t \<and> \<not> tnInitializing t \<and> tnProviderInFlight t = 0)"

definition newTurn :: "adapterEnv \<Rightarrow> adapterConfig \<Rightarrow> int \<Rightarrow> startTurnRequest \<Rightarrow> nat \<Rightarrow> turnState" where
  "newTurn E cfg now r bytes =
     \<lparr>tnRequest = compactStartTurnRequest r, tnRequestFingerprint = startTurnFingerprint E r,
      tnOwnerFingerprint = runtimeSessionOwnerFingerprint E r, tnFrames = [], tnRetainedBytes = int bytes, tnResponseID = [],
      tnAgentSessionID = [], tnPreviousResponse = [], tnText = [], tnPendingTools = fmempty, tnPendingCallDigests = fmempty,
      tnProviderCallIDs = fmempty, tnBufferedResults = fmempty, tnBufferedResultDigests = fmempty,
      tnSubmittedResultDigests = fmempty, tnEmittedResults = {||}, tnBrokeredStateBytes = 0, tnBrokeredCallCount = 0,
      tnExposedBrokeredWrite = False, tnCompleted = False, tnProviderInFlight = 0, tnInvocationUncertain = False,
      tnPendingOutput = [], tnFlushTimer = False, tnCleanupAt = 0, tnWaitingForTools = False,
      tnContinuationInFlight = False, tnStarted = False, tnInitializing = True, tnInitDone = False, tnInitErr = None,
      tnDeadline = foundryTurnDeadline now (sqDeadline r) (afTurnTimeout cfg),
      tnIsolation = (if equalFold (afIsolationMode cfg) ''header''
        then Some (trimSpace (isolationKeyForRuntimeSession E (sqRuntimeSessionID r))) else None),
      tnCause = None, tnCleanupTimer = False\<rparr>"

definition activeTurns :: "adapterState \<Rightarrow> (string, nat) fmap" where
  "activeTurns a = fmfilter (\<lambda>k. case turnNamed a k of None \<Rightarrow> False | Some t \<Rightarrow> activeTurn t) (adTurns a)"

definition sessionBusy :: "adapterState \<Rightarrow> string \<Rightarrow> bool" where
  "sessionBusy a session = fmexists (\<lambda>_ h. sqRuntimeSessionID (tnRequest (turnOf a h)) = session) (activeTurns a)"

definition insertTurn :: "adapterEnv \<Rightarrow> adapterConfig \<Rightarrow> int \<Rightarrow> startTurnRequest \<Rightarrow> string \<Rightarrow> adapterState \<Rightarrow>
    admission \<times> adapterState" where
  "insertTurn E cfg now r path a =
     (case startJSON (aeCompact E) (aeTime E) (compactStartTurnRequest r) of
        None \<Rightarrow> (AdRefused (AeText ''json: error calling MarshalJSON''), a)
      | Some enc \<Rightarrow>
        (let t = newTurn E cfg now r (length enc); h = adNext a;
             add = (\<lambda>t. (AdNew h path, (putTurn h t a)\<lparr>adTurns := fmupd (sqTurnID r) h (adTurns a), adNext := Suc h\<rparr>)) in
         case fmlookup (adSessions a) (sqRuntimeSessionID r) of
           None \<Rightarrow> add t
         | Some s \<Rightarrow> if rtOwnerFingerprint s \<noteq> tnOwnerFingerprint t then (AdRefused AeOwnerMismatch, a)
             else add (t\<lparr>tnAgentSessionID := rtAgentSessionID s, tnPreviousResponse := rtPreviousResponse s\<rparr>)))"

text \<open>\<open>startTurn\<close> under the lock, when no tombstone refuses the turn id.\<close>

definition admitFresh :: "adapterEnv \<Rightarrow> adapterConfig \<Rightarrow> int \<Rightarrow> startTurnRequest \<Rightarrow> string \<Rightarrow> string \<Rightarrow> adapterState \<Rightarrow>
    admission \<times> adapterState" where
  "admitFresh E cfg now r fp path a0 =
     (let a = prune E now (a0\<lparr>adTombstones := fmdrop (sqTurnID r) (adTombstones a0)\<rparr>) in
      case fmlookup (adTurns a) (sqTurnID r) of
        Some h \<Rightarrow> if tnRequestFingerprint (turnOf a h) \<noteq> fp then (AdRefused AeTurnAlreadyExists, a) else (AdExisting h path, a)
      | None \<Rightarrow>
          if sessionBusy a (sqRuntimeSessionID r) then (AdRefused AeSessionBusy, a)
          else if afMaxConcurrent cfg > 0 \<and> int (fmcard (activeTurns a)) \<ge> afMaxConcurrent cfg then (AdRefused AeCapacity, a)
          else insertTurn E cfg now r path a)"

definition admitTurn :: "adapterEnv \<Rightarrow> adapterConfig \<Rightarrow> int \<Rightarrow> startTurnRequest \<Rightarrow> adapterState \<Rightarrow> admission \<times> adapterState" where
  "admitTurn E cfg now request a =
     (let r = prepareFoundryStartRequest request; turnID = sqTurnID r; fp = startTurnFingerprint E r in
      case checkStart E cfg r of Inl e \<Rightarrow> (AdRefused e, a) | Inr path \<Rightarrow>
      (case fmlookup (adTombstones a) turnID of
         Some tb \<Rightarrow> if tbExpiresAt tb > now
           then (AdRefused (if tbFingerprint tb = fp then AeTurnCompleted else AeTurnIDConsumed), a)
           else admitFresh E cfg now r fp path a
       | None \<Rightarrow> admitFresh E cfg now r fp path a))"

text \<open>Waiting for the initialisation of a turn that was there already.\<close>

definition existingResult :: "turnState \<Rightarrow> string \<Rightarrow> adapterError + string" where
  "existingResult t path = (case tnInitErr t of Some e \<Rightarrow> Inl e | None \<Rightarrow> Inr path)"

definition needsSession :: "adapterConfig \<Rightarrow> turnState \<Rightarrow> bool" where
  "needsSession cfg t \<longleftrightarrow> afAgentVersion cfg \<noteq> [] \<and> tnAgentSessionID t = []"

text \<open>The result tells whether the turn had ended meanwhile.\<close>

definition failInitialization :: "adapterError \<Rightarrow> nat \<Rightarrow> adapterState \<Rightarrow> bool \<times> adapterState" where
  "failInitialization e h a =
     (let t = (turnOf a h)\<lparr>tnInitializing := False, tnInitDone := True\<rparr> in
      if tnCompleted t then (True, putTurn h (t\<lparr>tnInitErr := None\<rparr>) a)
      else (False, putTurn h (cancelContext (t\<lparr>tnInitErr := Some e\<rparr>))
        (a\<lparr>adTurns := fmdrop (sqTurnID (tnRequest t)) (adTurns a)\<rparr>)))"

text \<open>After \<open>CreateSession\<close>: whether the start goes on.\<close>

definition sessionCreated :: "string \<Rightarrow> nat \<Rightarrow> adapterState \<Rightarrow> bool \<times> adapterState" where
  "sessionCreated sessionID h a =
     (let t = turnOf a h in
      if tnCompleted t then (False, putTurn h (t\<lparr>tnInitializing := False, tnInitDone := True\<rparr>) a)
      else (True, putTurn h (t\<lparr>tnAgentSessionID := sessionID\<rparr>) a))"

definition firstRequest :: "adapterConfig \<Rightarrow> startTurnRequest \<Rightarrow> turnState \<Rightarrow> responseRequest" where
  "firstRequest cfg r t = \<lparr>rrInput = JStr (tiPrompt (sqInput r)), rrStream = False, rrStore = False,
     rrPreviousResponseID = tnPreviousResponse t, rrAgentSessionID = tnAgentSessionID t, rrTools = providerToolSchemas cfg r\<rparr>"

text \<open>The end of the initialisation: the provider call to make, \<open>None\<close> when the turn has ended.\<close>

definition completeInit :: "adapterConfig \<Rightarrow> startTurnRequest \<Rightarrow> nat \<Rightarrow> adapterState \<Rightarrow> responseRequest option \<times> adapterState" where
  "completeInit cfg r h a =
     (let t = (turnOf a h)\<lparr>tnInitializing := False, tnInitDone := True\<rparr> in
      (if tnCompleted t then None else Some (firstRequest cfg r t), putTurn h t a))"

section \<open>A provider call (runResponse)\<close>

text \<open>The variables of one call; \<open>vcError\<close> is the error a callback returned.\<close>

record invocation =
  vcTurn :: nat
  vcRequest :: responseRequest
  vcResponseID :: string
  vcSessionID :: string
  vcError :: "adapterError option"

definition newInvocation :: "nat \<Rightarrow> responseRequest \<Rightarrow> invocation" where
  "newInvocation h request = \<lparr>vcTurn = h, vcRequest = request, vcResponseID = [],
     vcSessionID = rrAgentSessionID request, vcError = None\<rparr>"

definition recordInvocationIDs :: "string \<Rightarrow> string \<Rightarrow> invocation \<Rightarrow> adapterError option \<times> invocation" where
  "recordInvocationIDs responseID sessionID v =
     (case identifierError ''response id'' responseID of Some e \<Rightarrow> (Some e, v) | None \<Rightarrow>
      (case identifierError ''agent session id'' sessionID of Some e \<Rightarrow> (Some e, v) | None \<Rightarrow>
        if responseID \<noteq> [] \<and> vcResponseID v \<noteq> [] \<and> vcResponseID v \<noteq> responseID
        then (Some (AeText ''foundry response id changed within one invocation''), v)
        else (let v1 = (if responseID \<noteq> [] then v\<lparr>vcResponseID := responseID\<rparr> else v) in
          if sessionID \<noteq> [] \<and> vcSessionID v1 \<noteq> [] \<and> vcSessionID v1 \<noteq> sessionID
          then (Some (AeText ''foundry agent session id changed within one invocation''), v1)
          else (None, if sessionID \<noteq> [] then v1\<lparr>vcSessionID := sessionID\<rparr> else v1))))"

definition beginInvocation :: "nat \<Rightarrow> adapterState \<Rightarrow> bool \<times> adapterState" where
  "beginInvocation h a =
     (let t = turnOf a h in
      if tnCompleted t then (False, a)
      else (True, putTurn h (t\<lparr>tnProviderInFlight := Suc (tnProviderInFlight t), tnInvocationUncertain := True\<rparr>) a))"

datatype callbackEvent = CbCreated response | CbTextDelta string | CbFunctionCall outputItem

definition onCreated :: "adapterEnv \<Rightarrow> adapterConfig \<Rightarrow> int \<Rightarrow> response \<Rightarrow> turnState \<Rightarrow> adapterError option \<times> turnState" where
  "onCreated E cfg now r t =
     (if tnCompleted t then (None, t) else
      ensureStarted E cfg now (if rpAgentSessionID r \<noteq> [] then t\<lparr>tnAgentSessionID := rpAgentSessionID r\<rparr> else t))"

definition runCallback :: "adapterEnv \<Rightarrow> adapterConfig \<Rightarrow> int \<Rightarrow> callbackEvent \<Rightarrow> invocation \<Rightarrow> turnState \<Rightarrow>
    adapterError option \<times> invocation \<times> turnState" where
  "runCallback E cfg now ev v t =
     (case ev of
        CbCreated r \<Rightarrow> (case recordInvocationIDs (rpID r) (rpAgentSessionID r) v of
          (Some e, v') \<Rightarrow> (Some e, v', t)
        | (None, v') \<Rightarrow> (case onCreated E cfg now r t of (e, t') \<Rightarrow> (e, v', t')))
      | CbTextDelta delta \<Rightarrow> (case appendText E cfg now delta t of (e, t') \<Rightarrow> (e, v, t'))
      | CbFunctionCall call \<Rightarrow> (case recordFunctionCall E cfg now call t of (e, t') \<Rightarrow> (e, v, t')))"

definition releaseProvider :: "turnState \<Rightarrow> turnState" where
  "releaseProvider t = t\<lparr>tnProviderInFlight := tnProviderInFlight t - 1\<rparr>"

definition terminalStatus :: "adapterEnv \<Rightarrow> streamSummary \<Rightarrow> string" where
  "terminalStatus E s = aeLower E (trimSpace (ssStatus s))"

text \<open>The checks of a call that has returned, before the lock is taken again.\<close>

definition callResult :: "adapterEnv \<Rightarrow> streamSummary \<Rightarrow> adapterError option \<Rightarrow> invocation \<Rightarrow> adapterError option \<times> invocation" where
  "callResult E s e v =
     (case e of Some e \<Rightarrow> (Some e, v) | None \<Rightarrow>
      (case identifierError ''response id'' (ssResponseID s) of Some e \<Rightarrow> (Some e, v) | None \<Rightarrow>
      (case identifierError ''agent session id'' (ssAgentSessionID s) of Some e \<Rightarrow> (Some e, v) | None \<Rightarrow>
      (case recordInvocationIDs (ssResponseID s) (ssAgentSessionID s) v of (Some e, v') \<Rightarrow> (Some e, v') | (None, v') \<Rightarrow>
        (if terminalStatus E s \<noteq> ''completed'' then None
         else if vcResponseID v' = [] then Some (AeText ''foundry completed response omitted its response id'')
         else if vcSessionID v' = [] then Some (AeText ''foundry completed response omitted its agent session id'')
         else if rrPreviousResponseID (vcRequest v') \<noteq> [] \<and> vcResponseID v' = rrPreviousResponseID (vcRequest v')
         then Some (AeText ''foundry completed response did not advance previous_response_id'')
         else None, v')))))"

text \<open>The branch of a failed call.\<close>

definition endFailed :: "adapterEnv \<Rightarrow> adapterConfig \<Rightarrow> int \<Rightarrow> adapterError \<Rightarrow> invocation \<Rightarrow> adapterState \<Rightarrow> adapterState" where
  "endFailed E cfg now e v a0 =
     (let h = vcTurn v; t = (releaseProvider (turnOf a0 h))\<lparr>tnContinuationInFlight := False\<rparr>; a1 = putTurn h t a0 in
      if tnCompleted t then a1 else
      (let a = (if providerSessionCheckpointInvalid e (vcRequest v)
           then (putTurn h (t\<lparr>tnAgentSessionID := [], tnPreviousResponse := []\<rparr>) a1)
             \<lparr>adSessions := fmdrop (sqRuntimeSessionID (tnRequest t)) (adSessions a1)\<rparr>
           else a1) in
       if tnCause t = Some AeDeadline \<or> rootError e = AeDeadline
       then finishFailed E cfg now h ''foundry_timeout'' ''Foundry response timed out'' True a
       else if rootError e = AeCanceled then finishCancelled E cfg now h a
       else finishFailed E cfg now h ''foundry_response_failed'' (providerSafeMessage E e) (retryableProviderError e) a))"

text \<open>The branch of a completed response: the turn waits for tools, goes on with their results, or ends.\<close>

definition endCompleted :: "adapterEnv \<Rightarrow> adapterConfig \<Rightarrow> int \<Rightarrow> nat \<Rightarrow> adapterState \<Rightarrow> responseRequest option \<times> adapterState" where
  "endCompleted E cfg now h a =
     (let t = turnOf a h in
      if tnPendingTools t = fmempty then (None, finishCompleted E cfg now h a) else
      (let a1 = recordRuntimeSession E now False h (putTurn h (t\<lparr>tnWaitingForTools := True\<rparr>) a); t1 = turnOf a1 h in
       if fmcard (tnBufferedResults t1) \<noteq> fmcard (tnPendingTools t1) then (None, a1) else
       (case prepareContinuation E cfg now t1 of
          (Inl e, t2) \<Rightarrow> (None, finishFailed E cfg now h ''foundry_continuation_failed'' (errText e) False (putTurn h t2 a1))
        | (Inr request, t2) \<Rightarrow> (Some request, putTurn h t2 a1))))"

definition endSucceeded :: "adapterEnv \<Rightarrow> adapterConfig \<Rightarrow> int \<Rightarrow> streamSummary \<Rightarrow> invocation \<Rightarrow> adapterState \<Rightarrow>
    responseRequest option \<times> adapterState" where
  "endSucceeded E cfg now s v a0 =
     (let h = vcTurn v; t = (releaseProvider (turnOf a0 h))\<lparr>tnContinuationInFlight := False\<rparr>; a = putTurn h t a0 in
      if tnCompleted t then (None, a)
      else if tnCause t = Some AeDeadline
      then (None, finishFailed E cfg now h ''foundry_timeout'' ''Foundry response timed out'' True
        (putTurn h (t\<lparr>tnInvocationUncertain := False\<rparr>) a))
      else
      (let t1 = t\<lparr>tnInvocationUncertain := False,
             tnResponseID := (if vcResponseID v \<noteq> [] then vcResponseID v else tnResponseID t),
             tnAgentSessionID := (if vcSessionID v \<noteq> [] then vcSessionID v else tnAgentSessionID t)\<rparr>;
           fail = (\<lambda>e t. (None, finishFailed E cfg now h ''foundry_event_limit'' (errText e) False (putTurn h t a))) in
       case ensureStarted E cfg now t1 of (Some e, t2) \<Rightarrow> fail e t2 | (None, t2) \<Rightarrow>
       (case flushOutput E cfg now t2 of (Some e, t3) \<Rightarrow> fail e (t3\<lparr>tnPendingOutput := []\<rparr>) | (None, t3) \<Rightarrow>
        (let a3 = putTurn h t3 a; status = terminalStatus E s in
         if status = ''completed'' then endCompleted E cfg now h a3
         else if status = ''failed'' then (None, finishFailed E cfg now h ''foundry_response_failed''
           (providerFailureMessage (ssError s)) (retryableResponseFailure E (ssError s)) a3)
         else if status = ''incomplete'' then (None, finishFailed E cfg now h ''foundry_response_incomplete''
           (incompleteFailureMessage (ssIncomplete s)) False a3)
         else if status = ''cancelled'' \<or> status = ''canceled'' then (None, finishCancelled E cfg now h a3)
         else (None, finishFailed E cfg now h ''foundry_response_invalid_terminal''
           ''Foundry response ended without a supported terminal status'' False a3)))))"

text \<open>The end of \<open>runResponse\<close>, with the continuation it starts; then its deferred cleanup.\<close>

definition endInvocation :: "adapterEnv \<Rightarrow> adapterConfig \<Rightarrow> int \<Rightarrow> streamSummary \<Rightarrow> adapterError option \<Rightarrow> invocation \<Rightarrow>
    adapterState \<Rightarrow> responseRequest option \<times> adapterState" where
  "endInvocation E cfg now s e v a =
     (case callResult E s e v of
        (Some err, v') \<Rightarrow> (None, endFailed E cfg now err v' a)
      | (None, v') \<Rightarrow> endSucceeded E cfg now s v' a)"

definition releaseTurn :: "int \<Rightarrow> nat \<Rightarrow> adapterState \<Rightarrow> adapterState" where
  "releaseTurn now h a = maybeDeleteExpired now (turnOf a h) a"

section \<open>Continuing and cancelling\<close>

text \<open>\<open>continueTurn\<close> on the turn it found: the error, and the provider call to make.\<close>

definition continueTurn :: "adapterEnv \<Rightarrow> adapterConfig \<Rightarrow> int \<Rightarrow> continueTurnRequest \<Rightarrow> nat \<Rightarrow> adapterState \<Rightarrow>
    adapterError option \<times> responseRequest option \<times> adapterState" where
  "continueTurn E cfg now request h a =
     (let t = turnOf a h in
      case validateContinue (aeQuote E) request of Some e \<Rightarrow> (Some (AeValidation (AeText e)), None, a) | None \<Rightarrow>
      if \<not> continueMatches request (tnRequest t)
      then (Some (AeValidation (AeText ''continue request does not match started turn'')), None, a)
      else (case validateBrokeredResultFrames E (afMaxBrokeredBytes cfg) (cnToolResults request) of
        Some e \<Rightarrow> (Some e, None, a)
      | None \<Rightarrow>
      (case stageResults E t (cnToolResults request) of Inl e \<Rightarrow> (Some e, None, a) | Inr staged \<Rightarrow>
        if afMaxBrokeredTurnBytes cfg > 0 \<and>
           tnBrokeredStateBytes t + sum_list (map sgSize staged) > afMaxBrokeredTurnBytes cfg
        then (Some (AeLimit (AeText ''brokered tool results cause turn state to exceed adapter limit'')), None, a)
        else
        (let t1 = fold bufferResult staged t; a1 = putTurn h t1 a in
         if tnCompleted t1 \<or> staged = [] then (None, None, a1)
         else if tnPendingTools t1 = fmempty \<or> fmcard (tnBufferedResults t1) < fmcard (tnPendingTools t1) \<or>
              \<not> tnWaitingForTools t1 then (None, None, a1)
         else (case prepareContinuation E cfg now t1 of
             (Inl e, t2) \<Rightarrow> (Some e, None,
               finishFailed E cfg now h ''foundry_continuation_failed'' (providerSafeMessage E e) False (putTurn h t2 a1))
           | (Inr next, t2) \<Rightarrow> (None, Some next, putTurn h t2 a1))))))"

definition cancelTurn :: "adapterEnv \<Rightarrow> adapterConfig \<Rightarrow> int \<Rightarrow> cancelTurnRequest \<Rightarrow> adapterState \<Rightarrow>
    adapterError option \<times> adapterState" where
  "cancelTurn E cfg now request a =
     (case fmlookup (adTurns a) (clTurnID request) of None \<Rightarrow> (Some AeTurnNotFound, a) | Some h \<Rightarrow>
       if \<not> cancelRequestMatchesTurn request (tnRequest (turnOf a h))
       then (Some (AeText ''cancel request does not match started turn''), a)
       else (None, if tnCompleted (turnOf a h) then a else finishCancelled E cfg now h a))"

section \<open>Timers and readers\<close>

text \<open>The context's own timer, and \<open>watchDeadline\<close>.\<close>

definition deadlinePassed :: "nat \<Rightarrow> adapterState \<Rightarrow> adapterState" where
  "deadlinePassed h a = (let t = turnOf a h in if tnCause t = None then putTurn h (t\<lparr>tnCause := Some AeDeadline\<rparr>) a else a)"

definition watchDeadline :: "adapterEnv \<Rightarrow> adapterConfig \<Rightarrow> int \<Rightarrow> nat \<Rightarrow> adapterState \<Rightarrow> adapterState" where
  "watchDeadline E cfg now h a =
     (if tnCause (turnOf a h) \<noteq> Some AeDeadline \<or> tnCompleted (turnOf a h) then a
      else finishFailed E cfg now h ''foundry_timeout'' ''Foundry response timed out'' True a)"

definition flushTimer :: "adapterEnv \<Rightarrow> adapterConfig \<Rightarrow> int \<Rightarrow> nat \<Rightarrow> adapterState \<Rightarrow> adapterState" where
  "flushTimer E cfg now h a =
     (let t = (turnOf a h)\<lparr>tnFlushTimer := False\<rparr> in
      if tnCompleted t then putTurn h t a else
      (case flushOutput E cfg now t of
         (None, t') \<Rightarrow> putTurn h t' a
       | (Some e, t') \<Rightarrow> finishFailed E cfg now h ''foundry_event_limit'' (errText e) False
           (putTurn h (t'\<lparr>tnPendingOutput := []\<rparr>) a)))"

definition cleanupTimer :: "int \<Rightarrow> string \<Rightarrow> adapterState \<Rightarrow> adapterState" where
  "cleanupTimer now turnID a =
     (case fmlookup (adTurns a) turnID of None \<Rightarrow> a | Some h \<Rightarrow>
       (let t = (turnOf a h)\<lparr>tnCleanupTimer := False\<rparr> in maybeDeleteExpired now t (putTurn h t a)))"

text \<open>\<open>framesAfter\<close>: the frames after a sequence number, and whether the stream is idle.\<close>

definition framesAfter :: "turnState \<Rightarrow> int \<Rightarrow> harnessFrame list \<times> bool" where
  "framesAfter t afterSeq =
     (drop (if afterSeq > 0 then nat (min afterSeq (int (length (tnFrames t)))) else 0) (tnFrames t),
      tnCompleted t \<or> tnWaitingForTools t)"

end
