(* ===== verification/AdapterFrames.thy ===== *)
theory AdapterFrames
  imports HarnessSizes AdapterOps
begin

text \<open>
  When a frame of a turn can be appended: the bounds of \<^verbatim>\<open>HarnessSizes\<close> at the frames that
  \<^verbatim>\<open>adapter.go\<close> relies on, the start of a turn, its output and the minimal failure.
\<close>

section \<open>What the proofs assume of the environment and the configuration\<close>

text \<open>A time is written in at most 64 bytes; the order of iteration enumerates the map.\<close>

definition adapterEnvOk :: "adapterEnv \<Rightarrow> bool" where
  "adapterEnvOk E \<longleftrightarrow> (\<forall>t. length (aeTime E t) \<le> 64) \<and> (\<forall>A. set (aeOrder E A) = fset A)"

text \<open>The limits that \<open>loadConfig\<close> sets lie in these ranges.\<close>

definition cfgOk :: "adapterConfig \<Rightarrow> bool" where
  "cfgOk cfg \<longleftrightarrow> 2 \<le> afMaxEvents cfg \<and> afMaxEvents cfg \<le> 1000000 \<and>
     0 \<le> afMaxOutputBytes cfg \<and> afMaxOutputBytes cfg \<le> 1048576"

text \<open>The identity of a started turn, as \<open>validateAdapterStartRequest\<close> bounds it.\<close>

definition idsOk :: "startTurnRequest \<Rightarrow> bool" where
  "idsOk r \<longleftrightarrow> length (sqRuntimeSessionID r) \<le> maxHarnessIdentityBytes \<and>
     length (sqTurnID r) \<le> maxHarnessIdentityBytes \<and> length (sqCorrelationID r) \<le> maxHarnessIdentityBytes"

section \<open>Bounds\<close>

lemma memberBound_le:
  "list_all2 (\<lambda>(k, v) n. \<forall>s. v = Some s \<longrightarrow> length s \<le> n) fs ns \<Longrightarrow>
    memberBound fs \<le> sum_list (map (\<lambda>(k, v). 6 * length k + 4) fs) + sum_list ns"
proof (induction fs arbitrary: ns)
  case (Cons f fs)
  from Cons.prems obtain n ns' where ns: "ns = n # ns'"
    and f: "\<forall>s. snd f = Some s \<longrightarrow> length s \<le> n"
    and rest: "list_all2 (\<lambda>(k, v) n. \<forall>s. v = Some s \<longrightarrow> length s \<le> n) fs ns'"
    by (auto simp: list_all2_Cons1)
  show ?case using Cons.IH [OF rest] f by (cases f; cases "snd f") (auto simp: ns)
qed simp

lemma jsonObject_le:
  "list_all2 (\<lambda>(k, v) n. \<forall>s. v = Some s \<longrightarrow> length s \<le> n) fs ns \<Longrightarrow>
    length (jsonObject fs) \<le> sum_list (map (\<lambda>(k, v). 6 * length k + 4) fs) + sum_list ns + 2"
  using memberBound_le [of fs ns] length_jsonObject [of fs] by linarith

lemma omitEmptyString_le: "omitEmptyString s = Some v \<Longrightarrow> length v \<le> 6 * length s + 2"
  using jsonString_le [of s] by (auto simp: omitEmptyString_def split: if_splits)

lemma omitEmptyString_Nil [simp]: "omitEmptyString [] = None"
  by (simp add: omitEmptyString_def)

lemmas string_le = jsonString_le [simplified] omitEmptyString_le [simplified]

lemma formatInt_le: "0 \<le> n \<Longrightarrow> n < 10 ^ k \<Longrightarrow> k > 0 \<Longrightarrow> length (formatInt n) \<le> k"
  by (simp add: formatInt_def length_formatUint nat_less_iff)

lemma frameName_le: "(\<forall>s. ty \<noteq> OtherFrame s) \<Longrightarrow> length (frameName ty) \<le> 18"
  by (cases ty) (simp_all add: frameName_def)

lemma metadata_le: "omitEmptyMap foundryFrameMetadata = Some v \<Longrightarrow> length v \<le> 300"
proof -
  assume v: "omitEmptyMap foundryFrameMetadata = Some v"
  have dom: "sorted_list_of_fset (fmdom foundryFrameMetadata) = [''backend'']"
    by (simp add: foundryFrameMetadata_def sorted_list_of_fset.rep_eq)
  have "length (jsonObject [(''backend'', Some (jsonString backendMetadata))]) \<le> 300"
    using jsonObject_le [of "[(''backend'', Some (jsonString backendMetadata))]" "[146]"] jsonString_le [of backendMetadata]
    by (simp add: backendMetadata_def)
  moreover have "v = mapJSON foundryFrameMetadata" using v by (simp add: omitEmptyMap_def split: if_splits)
  ultimately show ?thesis using dom
    by (simp add: mapJSON_def foundryFrameMetadata_def)
qed

lemma failedJSON_le:
  "length (failedJSON \<lparr>tfReason = reason, tfMessage = message, tfResult = [], tfData = [], tfArtifacts = [], tfOutputRef = [],
     tfRetryable = r\<rparr>) \<le> 6 * length reason + 6 * length message + 400"
proof -
  let ?f = "\<lparr>tfReason = reason, tfMessage = message, tfResult = [], tfData = [], tfArtifacts = [], tfOutputRef = [],
     tfRetryable = r\<rparr>"
  have "length (failedJSON ?f) \<le> sum_list (map (\<lambda>(k, v :: string option). 6 * length k + 4)
      [(''reason'', None), (''message'', None), (''result'', None), (''data'', None), (''artifacts'', None),
       (''outputRef'', None), (''retryable'', None)]) +
      sum_list [6 * length reason + 2, 6 * length message + 2, 0, 0, 0, 0, 4] + 2"
    unfolding failedJSON_def
    by (rule order.trans [OF jsonObject_le [where ns = "[6 * length reason + 2, 6 * length message + 2, 0, 0, 0, 0, 4]"]])
      (auto simp: omitEmptyList_def omitFalse_def string_le split: if_splits)
  then show ?thesis by simp
qed

lemma frame_le:
  assumes env: "adapterEnvOk E" and ids: "idsOk (tnRequest t)" and ty: "\<forall>s. ty \<noteq> OtherFrame s"
    and n: "length (tnFrames t) < 1000000" and summary: "length summary \<le> 64"
    and failed: "\<forall>f. fl = Some f \<longrightarrow> length (failedJSON f) \<le> m"
    and f: "f = (newFrame now ty summary t)\<lparr>frContentText := body, frFailed := fl\<rparr>"
  shows "\<exists>enc. frameJSON (aeCompact E) (aeTime E) f = Some enc \<and> length enc \<le> 6 * length body + m + 20000"
proof -
  let ?ns = "[92, 110, 3074, 3074, 3074, 7, 386, 0, 386, 0, 6 * length body + 2, 0, 0, 0, 0, m, 0, 300]"
  have seq: "length (formatInt (int (Suc (length (tnFrames t))))) \<le> 7" using n by (intro formatInt_le) simp_all
  have time: "length (aeTime E now) \<le> 64" using env by (simp add: adapterEnvOk_def)
  have str: "length (jsonString s) \<le> b" if "6 * length s + 2 \<le> b" for s b
    using jsonString_le [of s] that by linarith
  have sum: "omitEmptyString summary = Some v \<Longrightarrow> length v \<le> 386" for v
    using omitEmptyString_le [of summary v] summary by linarith
  have name: "length (frameName ty) \<le> 18" using ty by (rule frameName_le)
  have some: "frameJSON (aeCompact E) (aeTime E) f = Some (jsonObject
     [(''version'', Some (jsonString ProtocolVersion)), (''type'', Some (jsonString (frameName ty))),
      (''runtimeSessionID'', Some (jsonString (sqRuntimeSessionID (tnRequest t)))),
      (''turnID'', Some (jsonString (sqTurnID (tnRequest t)))),
      (''correlationID'', Some (jsonString (sqCorrelationID (tnRequest t)))),
      (''seq'', Some (formatInt (int (Suc (length (tnFrames t)))))),
      (''createdAt'', Some (jsonString (aeTime E now))), (''severity'', None),
      (''summary'', omitEmptyString summary), (''content'', None),
      (''contentText'', omitEmptyString body), (''toolName'', None),
      (''toolCallID'', None), (''approvalID'', None),
      (''completed'', None), (''failed'', map_option failedJSON fl),
      (''error'', None), (''metadata'', omitEmptyMap foundryFrameMetadata)])" (is "_ = Some (jsonObject ?fs)")
    by (simp add: frameJSON_def f newFrame_def rawMember_def omitEmptyString_def)
  have "list_all2 (\<lambda>(k, v) n. \<forall>s. v = Some s \<longrightarrow> length s \<le> n) ?fs ?ns"
    using ids name time seq sum failed
    by (auto intro!: str metadata_le simp: string_le ProtocolVersion_def idsOk_def maxHarnessIdentityBytes_def)
  from jsonObject_le [OF this] some show ?thesis by simp
qed

section \<open>Appending\<close>

definition pushed :: "turnState \<Rightarrow> harnessFrame \<Rightarrow> int \<Rightarrow> turnState" where
  "pushed t f b = t\<lparr>tnFrames := tnFrames t @ [f], tnRetainedBytes := b\<rparr>"

lemma appendFrame_cases:
  obtains (added) b where "appendFrame E now ty summary mutate t = (None, pushed t (mutate (newFrame now ty summary t)) b)"
  | (failed) e where "appendFrame E now ty summary mutate t = (Some e, t)"
proof (cases "\<exists>e. appendFrame E now ty summary mutate t = (Some e, t)")
  case True
  then show ?thesis using failed by blast
next
  case False
  then have "\<exists>b. appendFrame E now ty summary mutate t = (None, pushed t (mutate (newFrame now ty summary t)) b)"
    by (auto simp: appendFrame_def pushed_def Let_def split: option.splits if_splits)
  then show ?thesis using added by blast
qed

lemma appendFrame_fits:
  assumes "adapterEnvOk E" "idsOk (tnRequest t)" "\<forall>s. ty \<noteq> OtherFrame s" "length (tnFrames t) < 1000000"
    and "length summary \<le> 64" "\<forall>f. fl = Some f \<longrightarrow> length (failedJSON f) \<le> m" "6 * length body + m \<le> 8000000"
    and f: "mutate (newFrame now ty summary t) = (newFrame now ty summary t)\<lparr>frContentText := body, frFailed := fl\<rparr>"
  obtains b where "appendFrame E now ty summary mutate t = (None, pushed t (mutate (newFrame now ty summary t)) b)"
proof -
  from frame_le [OF assms(1-6) f] obtain enc
    where enc: "frameJSON (aeCompact E) (aeTime E) (mutate (newFrame now ty summary t)) = Some enc"
      "length enc \<le> 6 * length body + m + 20000" by blast
  with assms(7) have "appendFrame E now ty summary mutate t =
      (None, pushed t (mutate (newFrame now ty summary t)) (tnRetainedBytes t + int (length enc)))"
    by (simp add: appendFrame_def pushed_def maxHarnessFrameBytes_def newline_def)
  then show ?thesis by (rule that)
qed

lemma started_fits:
  assumes "adapterEnvOk E" "idsOk (tnRequest t)" "length (tnFrames t) < 1000000"
  obtains b where "appendFrame E now TurnStarted ''Foundry response started'' id t =
    (None, pushed t (newFrame now TurnStarted ''Foundry response started'' t) b)"
  using appendFrame_fits [OF assms(1,2) _ assms(3), of TurnStarted "''Foundry response started''" None 0 "[]" id now] that
  by (auto simp: newFrame_def)

lemma output_fits:
  assumes "adapterEnvOk E" "idsOk (tnRequest t)" "length (tnFrames t) < 1000000" "length body \<le> 1048576"
  obtains b where "appendFrame E now RuntimeOutput ''Foundry output'' (\<lambda>f. f\<lparr>frContentText := body\<rparr>) t =
    (None, pushed t ((newFrame now RuntimeOutput ''Foundry output'' t)\<lparr>frContentText := body\<rparr>) b)"
  using appendFrame_fits [OF assms(1,2) _ assms(3), of RuntimeOutput "''Foundry output''" None 0 body
      "\<lambda>f. f\<lparr>frContentText := body\<rparr>" now] that assms(4)
  by (auto simp: newFrame_def)

definition minimalFailure :: "string \<Rightarrow> string \<Rightarrow> bool \<Rightarrow> turnFailed" where
  "minimalFailure reason message retryable = \<lparr>tfReason = reason, tfMessage = message, tfResult = [], tfData = [],
     tfArtifacts = [], tfOutputRef = [], tfRetryable = retryable\<rparr>"

lemma minimal_fits:
  assumes "adapterEnvOk E" "idsOk (tnRequest t)" "length (tnFrames t) < 1000000"
    and "length reason \<le> 1000" "length message \<le> 1000"
  obtains b where "appendMinimalFailure E now reason message retryable t =
    pushed t ((newFrame now FtTurnFailed ''Foundry response failed'' t)
      \<lparr>frFailed := Some (minimalFailure reason message retryable)\<rparr>) b"
proof -
  have "6 * length reason + 6 * length message + 400 \<le> 12400" using assms(4,5) by linarith
  then obtain b where "appendFrame E now FtTurnFailed ''Foundry response failed''
      (\<lambda>f. f\<lparr>frFailed := Some (minimalFailure reason message retryable)\<rparr>) t =
    (None, pushed t ((newFrame now FtTurnFailed ''Foundry response failed'' t)
      \<lparr>frFailed := Some (minimalFailure reason message retryable)\<rparr>) b)"
    using appendFrame_fits [OF assms(1,2) _ assms(3), of FtTurnFailed "''Foundry response failed''"
        "Some (minimalFailure reason message retryable)" "6 * length reason + 6 * length message + 400" "[]"
        "\<lambda>f. f\<lparr>frFailed := Some (minimalFailure reason message retryable)\<rparr>" now]
      failedJSON_le [of reason message retryable]
    by (auto simp: newFrame_def minimalFailure_def)
  then show ?thesis using that by (simp add: appendMinimalFailure_def minimalFailure_def)
qed

end
