(* ===== verification/AdapterFits.thy ===== *)
theory AdapterFits
  imports AdapterFrames
begin

text \<open>
  Frames with a tool call or a result fit as well: in particular the text of a completed turn, which
  the configuration bounds, always fits into its terminal frame.
\<close>

lemma content_frame_le:
  assumes env: "adapterEnvOk E" and ids: "idsOk (tnRequest t)" and ty: "\<forall>s. ty \<noteq> OtherFrame s"
    and n: "length (tnFrames t) < 1000000" and summary: "length summary \<le> 64" and names: "length a \<le> 200" "length b \<le> 200"
    and content: "rawMember (aeCompact E) content = Some cv" "\<forall>v. cv = Some v \<longrightarrow> length v \<le> 1000"
    and result: "\<forall>c. co = Some c \<longrightarrow> length (completedJSON c) \<le> m"
    and f: "f = (newFrame now ty summary t)\<lparr>frContent := content, frToolName := a, frToolCallID := b, frCompleted := co\<rparr>"
  shows "\<exists>enc. frameJSON (aeCompact E) (aeTime E) f = Some enc \<and> length enc \<le> m + 20000"
proof -
  let ?ns = "[92, 110, 3074, 3074, 3074, 7, 386, 0, 386, 1000, 0, 1202, 1202, 0, m, 0, 0, 300]"
  have seq: "length (formatInt (int (Suc (length (tnFrames t))))) \<le> 7" using n by (intro formatInt_le) simp_all
  have time: "length (aeTime E now) \<le> 64" using env by (simp add: adapterEnvOk_def)
  have str: "length (jsonString s) \<le> b" if "6 * length s + 2 \<le> b" for s b
    using jsonString_le [of s] that by linarith
  have omit: "length v \<le> b" if "omitEmptyString s = Some v" "6 * length s + 2 \<le> b" for s v b
    using omitEmptyString_le [OF that(1)] that(2) by linarith
  have name: "length (frameName ty) \<le> 18" using ty by (rule frameName_le)
  have some: "frameJSON (aeCompact E) (aeTime E) f = Some (jsonObject
     [(''version'', Some (jsonString ProtocolVersion)), (''type'', Some (jsonString (frameName ty))),
      (''runtimeSessionID'', Some (jsonString (sqRuntimeSessionID (tnRequest t)))),
      (''turnID'', Some (jsonString (sqTurnID (tnRequest t)))),
      (''correlationID'', Some (jsonString (sqCorrelationID (tnRequest t)))),
      (''seq'', Some (formatInt (int (Suc (length (tnFrames t)))))),
      (''createdAt'', Some (jsonString (aeTime E now))), (''severity'', None),
      (''summary'', omitEmptyString summary), (''content'', cv),
      (''contentText'', None), (''toolName'', omitEmptyString a),
      (''toolCallID'', omitEmptyString b), (''approvalID'', None),
      (''completed'', map_option completedJSON co), (''failed'', None),
      (''error'', None), (''metadata'', omitEmptyMap foundryFrameMetadata)])" (is "_ = Some (jsonObject ?fs)")
    using content(1) by (simp add: frameJSON_def f newFrame_def)
  have "list_all2 (\<lambda>(k, v) n. \<forall>s. v = Some s \<longrightarrow> length s \<le> n) ?fs ?ns"
    using ids name time seq summary names result content(2)
    by (auto intro!: str metadata_le elim!: omit simp: ProtocolVersion_def idsOk_def maxHarnessIdentityBytes_def)
  from jsonObject_le [OF this] some show ?thesis by simp
qed

lemma content_fits:
  assumes "adapterEnvOk E" "idsOk (tnRequest t)" "\<forall>s. ty \<noteq> OtherFrame s" "length (tnFrames t) < 1000000"
    and "length summary \<le> 64" "length a \<le> 200" "length b \<le> 200"
    and "rawMember (aeCompact E) content = Some cv" "\<forall>v. cv = Some v \<longrightarrow> length v \<le> 1000"
    and "\<forall>c. co = Some c \<longrightarrow> length (completedJSON c) \<le> 8000000"
    and f: "mutate (newFrame now ty summary t) =
      (newFrame now ty summary t)\<lparr>frContent := content, frToolName := a, frToolCallID := b, frCompleted := co\<rparr>"
  shows "\<exists>n. appendFrame E now ty summary mutate t = (None, pushed t (mutate (newFrame now ty summary t)) n)"
proof -
  from content_frame_le [OF assms(1-10) f] obtain enc
    where enc: "frameJSON (aeCompact E) (aeTime E) (mutate (newFrame now ty summary t)) = Some enc"
      "length enc \<le> 8000000 + 20000" by blast
  then have "appendFrame E now ty summary mutate t =
      (None, pushed t (mutate (newFrame now ty summary t)) (tnRetainedBytes t + int (length enc)))"
    by (simp add: appendFrame_def pushed_def maxHarnessFrameBytes_def newline_def)
  then show ?thesis by blast
qed

text \<open>The terminal frame of a completed turn.\<close>

definition completion :: "string \<Rightarrow> bool \<Rightarrow> turnCompleted" where
  "completion result retain = \<lparr>tcResult = result, tcData = [], tcArtifacts = [], tcOutputRef = [], tcFinalEventSeq = 0,
     tcRetainSession = retain\<rparr>"

lemma completion_le: "length result \<le> 1048576 \<Longrightarrow> length (completedJSON (completion result retain)) \<le> 8000000"
proof -
  assume r: "length result \<le> 1048576"
  have "length (completedJSON (completion result retain)) \<le> sum_list (map (\<lambda>(k, v :: string option). 6 * length k + 4)
      [(''result'', None), (''data'', None), (''artifacts'', None), (''outputRef'', None), (''finalEventSeq'', None),
       (''retainSession'', None)]) + sum_list [6 * length result + 2, 0, 0, 0, 0, 4] + 2"
    unfolding completedJSON_def completion_def
    by (rule order.trans [OF jsonObject_le [where ns = "[6 * length result + 2, 0, 0, 0, 0, 4]"]])
      (auto simp: omitEmptyList_def omitInt_def omitFalse_def string_le split: if_splits)
  with r show ?thesis by simp
qed

lemma completion_fits:
  assumes "adapterEnvOk E" "idsOk (tnRequest t)" "length (tnFrames t) < 1000000" "length result \<le> 1048576"
  shows "\<exists>n. appendFrame E now FtTurnCompleted ''Foundry response completed'' (\<lambda>f. f\<lparr>frCompleted := Some (completion result retain)\<rparr>) t =
    (None, pushed t ((newFrame now FtTurnCompleted ''Foundry response completed'' t)\<lparr>frCompleted := Some (completion result retain)\<rparr>) n)"
  by (rule content_fits [OF assms(1,2) _ assms(3), where a = "[]" and b = "[]" and content = "[]" and cv = None
        and co = "Some (completion result retain)"])
    (use assms(4) completion_le in \<open>auto simp: rawMember_def newFrame_def\<close>)

end
