(* ===== verification/AdapterStream.thy ===== *)
theory AdapterStream
  imports AdapterFrames "HOL-Library.Sublist"
begin

text \<open>
  The invariant of one turn and what every operation on an open turn keeps: the stream of frames is
  well formed, the text is what the output frames and the pending output hold, and the
  tables of the brokered tool calls agree. \<open>r\<close> is the request that started the turn.
\<close>

section \<open>The invariant\<close>

definition terminalType :: "frameType \<Rightarrow> bool" where
  "terminalType ty \<longleftrightarrow> ty = FtTurnCompleted \<or> ty = FtTurnFailed \<or> ty = FtTurnCancelled"

text \<open>The frame at index \<open>i\<close> of a stream.\<close>

definition frameOk :: "startTurnRequest \<Rightarrow> nat \<Rightarrow> harnessFrame \<Rightarrow> bool" where
  "frameOk r i f \<longleftrightarrow> frVersion f = ProtocolVersion \<and> frRuntimeSessionID f = sqRuntimeSessionID r \<and>
     frTurnID f = sqTurnID r \<and> frCorrelationID f = sqCorrelationID r \<and> frSeq f = int i + 1 \<and>
     (\<forall>s. frType f \<noteq> OtherFrame s) \<and> (frType f = TurnStarted \<longleftrightarrow> i = 0) \<and>
     (frType f = FtTurnCompleted \<longleftrightarrow> frCompleted f \<noteq> None) \<and> (frType f = FtTurnFailed \<longleftrightarrow> frFailed f \<noteq> None)"

definition framesOk :: "startTurnRequest \<Rightarrow> harnessFrame list \<Rightarrow> bool" where
  "framesOk r fs \<longleftrightarrow> (\<forall>i < length fs. frameOk r i (fs ! i))"

definition sameIdentity :: "startTurnRequest \<Rightarrow> startTurnRequest \<Rightarrow> bool" where
  "sameIdentity r q \<longleftrightarrow> sqRuntimeSessionID q = sqRuntimeSessionID r \<and> sqTurnID q = sqTurnID r \<and>
     sqCorrelationID q = sqCorrelationID r"

definition streamOk :: "startTurnRequest \<Rightarrow> turnState \<Rightarrow> bool" where
  "streamOk r t \<longleftrightarrow> sameIdentity r (tnRequest t) \<and> framesOk r (tnFrames t) \<and> (tnStarted t \<longleftrightarrow> tnFrames t \<noteq> [])"

definition openFrames :: "harnessFrame list \<Rightarrow> bool" where
  "openFrames fs \<longleftrightarrow> (\<forall>f \<in> set fs. \<not> terminalType (frType f))"

definition outputText :: "harnessFrame list \<Rightarrow> string" where
  "outputText fs = concat (map frContentText (filter (\<lambda>f. frType f = RuntimeOutput) fs))"

text \<open>A brokered write was offered to the client.\<close>

definition writeRequested :: "startTurnRequest \<Rightarrow> harnessFrame list \<Rightarrow> bool" where
  "writeRequested r fs \<longleftrightarrow> (\<exists>f \<in> set fs. frType f = ToolCallRequested \<and>
     foundryToolClass (tiTools (sqInput r)) (frToolName f) = classWrite)"

definition toolsOk :: "adapterEnv \<Rightarrow> adapterConfig \<Rightarrow> turnState \<Rightarrow> bool" where
  "toolsOk E cfg t \<longleftrightarrow> fmdom (tnPendingCallDigests t) = fmdom (tnPendingTools t) \<and>
     fmdom (tnProviderCallIDs t) = fmdom (tnPendingTools t) \<and>
     fmdom (tnBufferedResultDigests t) = fmdom (tnBufferedResults t) \<and>
     fmdom (tnBufferedResults t) |\<subseteq>| fmdom (tnPendingTools t) \<and>
     fmdom (tnSubmittedResultDigests t) |\<inter>| fmdom (tnPendingTools t) = {||} \<and>
     (\<forall>c p. fmlookup (tnProviderCallIDs t) c = Some p \<longrightarrow>
        c = orkaToolCallID E (sqRuntimeSessionID (tnRequest t)) (sqTurnID (tnRequest t)) p) \<and>
     (afMaxBrokeredCalls cfg > 0 \<longrightarrow> tnBrokeredCallCount t \<le> afMaxBrokeredCalls cfg) \<and>
     (afMaxBrokeredTurnBytes cfg > 0 \<longrightarrow> tnBrokeredStateBytes t \<le> afMaxBrokeredTurnBytes cfg)"

definition coreOk :: "adapterEnv \<Rightarrow> adapterConfig \<Rightarrow> startTurnRequest \<Rightarrow> turnState \<Rightarrow> bool" where
  "coreOk E cfg r t \<longleftrightarrow> streamOk r t \<and> \<not> tnCompleted t \<and> openFrames (tnFrames t) \<and>
     int (length (tnFrames t)) < afMaxEvents cfg \<and> sqToolExecutionMode (tnRequest t) = sqToolExecutionMode r \<and>
     tiTools (sqInput (tnRequest t)) = tiTools (sqInput r) \<and>
     (writeRequested r (tnFrames t) \<longrightarrow> tnExposedBrokeredWrite t) \<and> toolsOk E cfg t \<and>
     (tnStarted t \<or> tnPendingTools t = fmempty)"

definition textOk :: "adapterConfig \<Rightarrow> turnState \<Rightarrow> bool" where
  "textOk cfg t \<longleftrightarrow> outputText (tnFrames t) @ tnPendingOutput t = tnText t \<and>
     int (length (tnText t)) \<le> afMaxOutputBytes cfg \<and> (tnStarted t \<or> tnPendingOutput t = [])"

definition openOk :: "adapterEnv \<Rightarrow> adapterConfig \<Rightarrow> startTurnRequest \<Rightarrow> turnState \<Rightarrow> bool" where
  "openOk E cfg r t \<longleftrightarrow> coreOk E cfg r t \<and> textOk cfg t"

text \<open>The end of a stream: what its terminal frame claims.\<close>

definition endingOk :: "startTurnRequest \<Rightarrow> bool \<Rightarrow> harnessFrame list \<Rightarrow> harnessFrame \<Rightarrow> bool" where
  "endingOk r uncertain fs z \<longleftrightarrow> terminalType (frType z) \<and>
     (\<forall>c. frCompleted z = Some c \<longrightarrow> tcResult c = outputText fs) \<and>
     (\<forall>f. frFailed z = Some f \<and> tfRetryable f \<longrightarrow>
        \<not> uncertain \<and> \<not> writeRequested r fs \<and> sqToolExecutionMode r \<noteq> modeObserved)"

definition closedOk :: "adapterConfig \<Rightarrow> startTurnRequest \<Rightarrow> turnState \<Rightarrow> bool" where
  "closedOk cfg r t \<longleftrightarrow> streamOk r t \<and> tnCompleted t \<and> int (length (tnFrames t)) \<le> afMaxEvents cfg \<and>
     (\<exists>fs z. tnFrames t = fs @ [z] \<and> openFrames fs \<and> endingOk r (tnInvocationUncertain t) fs z)"

definition turnOk :: "adapterEnv \<Rightarrow> adapterConfig \<Rightarrow> startTurnRequest \<Rightarrow> turnState \<Rightarrow> bool" where
  "turnOk E cfg r t \<longleftrightarrow> openOk E cfg r t \<or> closedOk cfg r t"

section \<open>What an operation on the stream leaves alone\<close>

definition control :: "turnState \<Rightarrow> bool \<times> nat \<times> bool \<times> bool \<times> bool \<times> bool \<times> adapterError option" where
  "control t = (tnCompleted t, tnProviderInFlight t, tnInvocationUncertain t, tnWaitingForTools t,
     tnContinuationInFlight t, tnInitializing t, tnInitErr t)"

definition quiet :: "turnState \<Rightarrow> turnState \<Rightarrow> bool" where
  "quiet t t' \<longleftrightarrow> control t' = control t \<and> tnCause t' = tnCause t \<and> tnRequest t' = tnRequest t \<and>
     tnRequestFingerprint t' = tnRequestFingerprint t \<and> tnOwnerFingerprint t' = tnOwnerFingerprint t \<and>
     tnSubmittedResultDigests t' = tnSubmittedResultDigests t \<and> prefix (tnFrames t) (tnFrames t') \<and>
     (tnExposedBrokeredWrite t \<longrightarrow> tnExposedBrokeredWrite t')"

lemma quiet_refl [simp]: "quiet t t"
  by (simp add: quiet_def)

lemma quiet_trans [trans]: "quiet t u \<Longrightarrow> quiet u v \<Longrightarrow> quiet t v"
  by (auto simp: quiet_def intro: prefix_order.trans)

lemma quiet_pushed [simp]: "quiet t (pushed t f b)"
  by (simp add: quiet_def control_def pushed_def)

section \<open>Fields the predicates do not read\<close>

lemma toolsOk_frame [simp]:
  "toolsOk E cfg (t\<lparr>tnFlushTimer := x1\<rparr>) = toolsOk E cfg t"
  "toolsOk E cfg (t\<lparr>tnAgentSessionID := x2\<rparr>) = toolsOk E cfg t"
  "toolsOk E cfg (t\<lparr>tnResponseID := x3\<rparr>) = toolsOk E cfg t"
  "toolsOk E cfg (t\<lparr>tnPreviousResponse := x4\<rparr>) = toolsOk E cfg t"
  "toolsOk E cfg (t\<lparr>tnWaitingForTools := x5\<rparr>) = toolsOk E cfg t"
  "toolsOk E cfg (t\<lparr>tnContinuationInFlight := x6\<rparr>) = toolsOk E cfg t"
  "toolsOk E cfg (t\<lparr>tnProviderInFlight := x7\<rparr>) = toolsOk E cfg t"
  "toolsOk E cfg (t\<lparr>tnInvocationUncertain := x8\<rparr>) = toolsOk E cfg t"
  "toolsOk E cfg (t\<lparr>tnInitializing := x9\<rparr>) = toolsOk E cfg t"
  "toolsOk E cfg (t\<lparr>tnInitDone := x10\<rparr>) = toolsOk E cfg t"
  "toolsOk E cfg (t\<lparr>tnInitErr := x11\<rparr>) = toolsOk E cfg t"
  "toolsOk E cfg (t\<lparr>tnCause := x12\<rparr>) = toolsOk E cfg t"
  "toolsOk E cfg (t\<lparr>tnCleanupTimer := x13\<rparr>) = toolsOk E cfg t"
  "toolsOk E cfg (t\<lparr>tnCleanupAt := x14\<rparr>) = toolsOk E cfg t"
  "toolsOk E cfg (t\<lparr>tnRetainedBytes := x15\<rparr>) = toolsOk E cfg t"
  "toolsOk E cfg (t\<lparr>tnStarted := x16\<rparr>) = toolsOk E cfg t"
  "toolsOk E cfg (t\<lparr>tnPendingOutput := x17\<rparr>) = toolsOk E cfg t"
  "toolsOk E cfg (t\<lparr>tnText := x18\<rparr>) = toolsOk E cfg t"
  "toolsOk E cfg (t\<lparr>tnExposedBrokeredWrite := x19\<rparr>) = toolsOk E cfg t"
  "toolsOk E cfg (t\<lparr>tnEmittedResults := x20\<rparr>) = toolsOk E cfg t"
  "toolsOk E cfg (t\<lparr>tnFrames := x21\<rparr>) = toolsOk E cfg t"
  "toolsOk E cfg (t\<lparr>tnCompleted := x22\<rparr>) = toolsOk E cfg t"
  by (simp_all add: toolsOk_def)

lemma streamOk_frame [simp]:
  "streamOk r (t\<lparr>tnFlushTimer := x1\<rparr>) = streamOk r t"
  "streamOk r (t\<lparr>tnAgentSessionID := x2\<rparr>) = streamOk r t"
  "streamOk r (t\<lparr>tnResponseID := x3\<rparr>) = streamOk r t"
  "streamOk r (t\<lparr>tnPreviousResponse := x4\<rparr>) = streamOk r t"
  "streamOk r (t\<lparr>tnWaitingForTools := x5\<rparr>) = streamOk r t"
  "streamOk r (t\<lparr>tnContinuationInFlight := x6\<rparr>) = streamOk r t"
  "streamOk r (t\<lparr>tnProviderInFlight := x7\<rparr>) = streamOk r t"
  "streamOk r (t\<lparr>tnInvocationUncertain := x8\<rparr>) = streamOk r t"
  "streamOk r (t\<lparr>tnInitializing := x9\<rparr>) = streamOk r t"
  "streamOk r (t\<lparr>tnInitDone := x10\<rparr>) = streamOk r t"
  "streamOk r (t\<lparr>tnInitErr := x11\<rparr>) = streamOk r t"
  "streamOk r (t\<lparr>tnCause := x12\<rparr>) = streamOk r t"
  "streamOk r (t\<lparr>tnCleanupTimer := x13\<rparr>) = streamOk r t"
  "streamOk r (t\<lparr>tnCleanupAt := x14\<rparr>) = streamOk r t"
  "streamOk r (t\<lparr>tnRetainedBytes := x15\<rparr>) = streamOk r t"
  "streamOk r (t\<lparr>tnPendingOutput := x16\<rparr>) = streamOk r t"
  "streamOk r (t\<lparr>tnText := x17\<rparr>) = streamOk r t"
  "streamOk r (t\<lparr>tnExposedBrokeredWrite := x18\<rparr>) = streamOk r t"
  "streamOk r (t\<lparr>tnEmittedResults := x19\<rparr>) = streamOk r t"
  "streamOk r (t\<lparr>tnCompleted := x20\<rparr>) = streamOk r t"
  "streamOk r (t\<lparr>tnBrokeredCallCount := x21\<rparr>) = streamOk r t"
  "streamOk r (t\<lparr>tnBrokeredStateBytes := x22\<rparr>) = streamOk r t"
  "streamOk r (t\<lparr>tnPendingTools := x23\<rparr>) = streamOk r t"
  "streamOk r (t\<lparr>tnPendingCallDigests := x24\<rparr>) = streamOk r t"
  "streamOk r (t\<lparr>tnProviderCallIDs := x25\<rparr>) = streamOk r t"
  "streamOk r (t\<lparr>tnBufferedResults := x26\<rparr>) = streamOk r t"
  "streamOk r (t\<lparr>tnBufferedResultDigests := x27\<rparr>) = streamOk r t"
  "streamOk r (t\<lparr>tnSubmittedResultDigests := x28\<rparr>) = streamOk r t"
  by (simp_all add: streamOk_def)

lemma coreOk_frame [simp]:
  "coreOk E cfg r (t\<lparr>tnFlushTimer := x1\<rparr>) = coreOk E cfg r t"
  "coreOk E cfg r (t\<lparr>tnAgentSessionID := x2\<rparr>) = coreOk E cfg r t"
  "coreOk E cfg r (t\<lparr>tnResponseID := x3\<rparr>) = coreOk E cfg r t"
  "coreOk E cfg r (t\<lparr>tnPreviousResponse := x4\<rparr>) = coreOk E cfg r t"
  "coreOk E cfg r (t\<lparr>tnWaitingForTools := x5\<rparr>) = coreOk E cfg r t"
  "coreOk E cfg r (t\<lparr>tnContinuationInFlight := x6\<rparr>) = coreOk E cfg r t"
  "coreOk E cfg r (t\<lparr>tnProviderInFlight := x7\<rparr>) = coreOk E cfg r t"
  "coreOk E cfg r (t\<lparr>tnInvocationUncertain := x8\<rparr>) = coreOk E cfg r t"
  "coreOk E cfg r (t\<lparr>tnInitializing := x9\<rparr>) = coreOk E cfg r t"
  "coreOk E cfg r (t\<lparr>tnInitDone := x10\<rparr>) = coreOk E cfg r t"
  "coreOk E cfg r (t\<lparr>tnInitErr := x11\<rparr>) = coreOk E cfg r t"
  "coreOk E cfg r (t\<lparr>tnCause := x12\<rparr>) = coreOk E cfg r t"
  "coreOk E cfg r (t\<lparr>tnCleanupTimer := x13\<rparr>) = coreOk E cfg r t"
  "coreOk E cfg r (t\<lparr>tnCleanupAt := x14\<rparr>) = coreOk E cfg r t"
  "coreOk E cfg r (t\<lparr>tnRetainedBytes := x15\<rparr>) = coreOk E cfg r t"
  "coreOk E cfg r (t\<lparr>tnPendingOutput := x16\<rparr>) = coreOk E cfg r t"
  "coreOk E cfg r (t\<lparr>tnText := x17\<rparr>) = coreOk E cfg r t"
  "coreOk E cfg r (t\<lparr>tnEmittedResults := x18\<rparr>) = coreOk E cfg r t"
  by (simp_all add: coreOk_def)

lemma textOk_frame [simp]:
  "textOk cfg (t\<lparr>tnFlushTimer := x1\<rparr>) = textOk cfg t"
  "textOk cfg (t\<lparr>tnAgentSessionID := x2\<rparr>) = textOk cfg t"
  "textOk cfg (t\<lparr>tnResponseID := x3\<rparr>) = textOk cfg t"
  "textOk cfg (t\<lparr>tnPreviousResponse := x4\<rparr>) = textOk cfg t"
  "textOk cfg (t\<lparr>tnWaitingForTools := x5\<rparr>) = textOk cfg t"
  "textOk cfg (t\<lparr>tnContinuationInFlight := x6\<rparr>) = textOk cfg t"
  "textOk cfg (t\<lparr>tnProviderInFlight := x7\<rparr>) = textOk cfg t"
  "textOk cfg (t\<lparr>tnInvocationUncertain := x8\<rparr>) = textOk cfg t"
  "textOk cfg (t\<lparr>tnInitializing := x9\<rparr>) = textOk cfg t"
  "textOk cfg (t\<lparr>tnInitDone := x10\<rparr>) = textOk cfg t"
  "textOk cfg (t\<lparr>tnInitErr := x11\<rparr>) = textOk cfg t"
  "textOk cfg (t\<lparr>tnCause := x12\<rparr>) = textOk cfg t"
  "textOk cfg (t\<lparr>tnCleanupTimer := x13\<rparr>) = textOk cfg t"
  "textOk cfg (t\<lparr>tnCleanupAt := x14\<rparr>) = textOk cfg t"
  "textOk cfg (t\<lparr>tnRetainedBytes := x15\<rparr>) = textOk cfg t"
  "textOk cfg (t\<lparr>tnExposedBrokeredWrite := x16\<rparr>) = textOk cfg t"
  "textOk cfg (t\<lparr>tnEmittedResults := x17\<rparr>) = textOk cfg t"
  "textOk cfg (t\<lparr>tnBrokeredCallCount := x18\<rparr>) = textOk cfg t"
  "textOk cfg (t\<lparr>tnBrokeredStateBytes := x19\<rparr>) = textOk cfg t"
  "textOk cfg (t\<lparr>tnPendingTools := x20\<rparr>) = textOk cfg t"
  "textOk cfg (t\<lparr>tnPendingCallDigests := x21\<rparr>) = textOk cfg t"
  "textOk cfg (t\<lparr>tnProviderCallIDs := x22\<rparr>) = textOk cfg t"
  "textOk cfg (t\<lparr>tnBufferedResults := x23\<rparr>) = textOk cfg t"
  "textOk cfg (t\<lparr>tnBufferedResultDigests := x24\<rparr>) = textOk cfg t"
  "textOk cfg (t\<lparr>tnSubmittedResultDigests := x25\<rparr>) = textOk cfg t"
  "textOk cfg (t\<lparr>tnCompleted := x26\<rparr>) = textOk cfg t"
  by (simp_all add: textOk_def)

lemma openOk_frame [simp]:
  "openOk E cfg r (t\<lparr>tnFlushTimer := x1\<rparr>) = openOk E cfg r t"
  "openOk E cfg r (t\<lparr>tnAgentSessionID := x2\<rparr>) = openOk E cfg r t"
  "openOk E cfg r (t\<lparr>tnResponseID := x3\<rparr>) = openOk E cfg r t"
  "openOk E cfg r (t\<lparr>tnPreviousResponse := x4\<rparr>) = openOk E cfg r t"
  "openOk E cfg r (t\<lparr>tnWaitingForTools := x5\<rparr>) = openOk E cfg r t"
  "openOk E cfg r (t\<lparr>tnContinuationInFlight := x6\<rparr>) = openOk E cfg r t"
  "openOk E cfg r (t\<lparr>tnProviderInFlight := x7\<rparr>) = openOk E cfg r t"
  "openOk E cfg r (t\<lparr>tnInvocationUncertain := x8\<rparr>) = openOk E cfg r t"
  "openOk E cfg r (t\<lparr>tnInitializing := x9\<rparr>) = openOk E cfg r t"
  "openOk E cfg r (t\<lparr>tnInitDone := x10\<rparr>) = openOk E cfg r t"
  "openOk E cfg r (t\<lparr>tnInitErr := x11\<rparr>) = openOk E cfg r t"
  "openOk E cfg r (t\<lparr>tnCause := x12\<rparr>) = openOk E cfg r t"
  "openOk E cfg r (t\<lparr>tnCleanupTimer := x13\<rparr>) = openOk E cfg r t"
  "openOk E cfg r (t\<lparr>tnCleanupAt := x14\<rparr>) = openOk E cfg r t"
  "openOk E cfg r (t\<lparr>tnRetainedBytes := x15\<rparr>) = openOk E cfg r t"
  "openOk E cfg r (t\<lparr>tnEmittedResults := x16\<rparr>) = openOk E cfg r t"
  by (simp_all add: openOk_def)

lemma quiet_frame [simp]:
  "quiet t (t\<lparr>tnFlushTimer := x1\<rparr>)" "quiet t (t\<lparr>tnAgentSessionID := x2\<rparr>)"
  "quiet t (t\<lparr>tnResponseID := x3\<rparr>)" "quiet t (t\<lparr>tnPreviousResponse := x4\<rparr>)"
  "quiet t (t\<lparr>tnCleanupTimer := x6\<rparr>)"
  "quiet t (t\<lparr>tnPendingOutput := x7\<rparr>)" "quiet t (t\<lparr>tnText := x8\<rparr>)"
  "quiet t (t\<lparr>tnEmittedResults := x9\<rparr>)" "quiet t (t\<lparr>tnStarted := x10\<rparr>)"
  "quiet t (t\<lparr>tnRetainedBytes := x11\<rparr>)" "quiet t (t\<lparr>tnBrokeredCallCount := x12\<rparr>)"
  "quiet t (t\<lparr>tnBrokeredStateBytes := x13\<rparr>)" "quiet t (t\<lparr>tnPendingTools := x14\<rparr>)"
  "quiet t (t\<lparr>tnPendingCallDigests := x15\<rparr>)" "quiet t (t\<lparr>tnProviderCallIDs := x16\<rparr>)"
  "quiet t (t\<lparr>tnBufferedResults := x17\<rparr>)"
  "quiet t (t\<lparr>tnBufferedResultDigests := x18\<rparr>)"
  by (simp_all add: quiet_def control_def)

section \<open>Pushing a frame\<close>

lemma framesOk_snoc: "framesOk r (fs @ [f]) \<longleftrightarrow> framesOk r fs \<and> frameOk r (length fs) f"
  by (auto simp: framesOk_def nth_append less_Suc_eq)

lemma openFrames_snoc [simp]: "openFrames (fs @ [f]) \<longleftrightarrow> openFrames fs \<and> \<not> terminalType (frType f)"
  by (auto simp: openFrames_def)

lemma outputText_snoc [simp]:
  "outputText (fs @ [f]) = outputText fs @ (if frType f = RuntimeOutput then frContentText f else [])"
  by (simp add: outputText_def)

lemma writeRequested_snoc: "writeRequested r (fs @ [f]) \<longleftrightarrow> writeRequested r fs \<or>
    (frType f = ToolCallRequested \<and> foundryToolClass (tiTools (sqInput r)) (frToolName f) = classWrite)"
  by (auto simp: writeRequested_def)

lemma pushed_simps [simp]: "tnFrames (pushed t f b) = tnFrames t @ [f]" "tnStarted (pushed t f b) = tnStarted t"
  "tnText (pushed t f b) = tnText t" "tnPendingOutput (pushed t f b) = tnPendingOutput t"
  "tnCompleted (pushed t f b) = tnCompleted t" "tnRequest (pushed t f b) = tnRequest t"
  "tnInvocationUncertain (pushed t f b) = tnInvocationUncertain t" "tnPendingTools (pushed t f b) = tnPendingTools t"
  "tnExposedBrokeredWrite (pushed t f b) = tnExposedBrokeredWrite t" "toolsOk E cfg (pushed t f b) = toolsOk E cfg t"
  by (simp_all add: pushed_def toolsOk_def)

text \<open>A frame that the operations build, at the next index of a started stream.\<close>

lemma frameOk_new:
  "streamOk r t \<Longrightarrow> tnStarted t \<Longrightarrow> ty \<noteq> TurnStarted \<Longrightarrow> \<forall>s. ty \<noteq> OtherFrame s \<Longrightarrow>
    frVersion f = ProtocolVersion \<Longrightarrow> frRuntimeSessionID f = sqRuntimeSessionID (tnRequest t) \<Longrightarrow>
    frTurnID f = sqTurnID (tnRequest t) \<Longrightarrow> frCorrelationID f = sqCorrelationID (tnRequest t) \<Longrightarrow>
    frSeq f = int (length (tnFrames t) + 1) \<Longrightarrow> frType f = ty \<Longrightarrow>
    (ty = FtTurnCompleted \<longleftrightarrow> frCompleted f \<noteq> None) \<Longrightarrow> (ty = FtTurnFailed \<longleftrightarrow> frFailed f \<noteq> None) \<Longrightarrow>
    frameOk r (length (tnFrames t)) f"
  by (auto simp: frameOk_def streamOk_def sameIdentity_def)

lemma streamOk_pushed:
  "streamOk r t \<Longrightarrow> tnStarted t \<Longrightarrow> frameOk r (length (tnFrames t)) f \<Longrightarrow> streamOk r (pushed t f b)"
  by (simp add: streamOk_def framesOk_snoc)

lemma coreOk_pushed:
  assumes "coreOk E cfg r t" "tnStarted t" "frameOk r (length (tnFrames t)) f" "\<not> terminalType (frType f)"
    and "int (length (tnFrames t) + 1) < afMaxEvents cfg" "frType f = ToolCallRequested \<Longrightarrow>
      foundryToolClass (tiTools (sqInput r)) (frToolName f) = classWrite \<Longrightarrow> tnExposedBrokeredWrite t"
  shows "coreOk E cfg r (pushed t f b)"
  using assms streamOk_pushed [of r t f b] by (auto simp: coreOk_def writeRequested_snoc)

section \<open>Operations of an open turn\<close>

lemma openFrames_Nil [simp]: "openFrames []" by (simp add: openFrames_def)

lemma small: "cfgOk cfg \<Longrightarrow> coreOk E cfg r t \<Longrightarrow> length (tnFrames t) < 1000000"
  by (auto simp: cfgOk_def coreOk_def)

lemma coreOk_ids: "coreOk E cfg r t \<Longrightarrow> idsOk r \<Longrightarrow> idsOk (tnRequest t)"
  by (simp add: coreOk_def streamOk_def sameIdentity_def idsOk_def)

lemma ensureCapacity_None:
  "cfgOk cfg \<Longrightarrow> ensureCapacity cfg t n = None \<longleftrightarrow> int (length (tnFrames t) + n) < afMaxEvents cfg"
  by (auto simp: ensureCapacity_def cfgOk_def)

text \<open>Starting an open turn pushes the first frame.\<close>

lemma start_pushed:
  assumes "coreOk E cfg r t" "\<not> tnStarted t" "cfgOk cfg"
  shows "coreOk E cfg r ((pushed t (newFrame now TurnStarted summary t) b)\<lparr>tnStarted := True\<rparr>)"
proof -
  have "tnFrames t = []" using assms(1,2) by (simp add: coreOk_def streamOk_def)
  with assms show ?thesis
    by (simp add: coreOk_def streamOk_def framesOk_def frameOk_def newFrame_def sameIdentity_def openFrames_def
        writeRequested_def terminalType_def cfgOk_def)
qed

lemma start_text:
  "textOk cfg t \<Longrightarrow> textOk cfg ((pushed t (newFrame now TurnStarted summary t) b)\<lparr>tnStarted := True\<rparr>)"
  by (simp add: textOk_def newFrame_def)

lemma quiet_started: "quiet t ((pushed t f b)\<lparr>tnStarted := True\<rparr>)"
  by (simp add: quiet_def control_def pushed_def)

lemma ensureStarted_ok:
  assumes env: "adapterEnvOk E" "cfgOk cfg" "idsOk r" and t: "openOk E cfg r t" and e: "ensureStarted E cfg now t = (e, t')"
  shows "openOk E cfg r t' \<and> quiet t t' \<and> (e = None \<longrightarrow> tnStarted t') \<and> tnText t' = tnText t \<and>
    tnPendingOutput t' = tnPendingOutput t \<and> tnPendingTools t' = tnPendingTools t"
proof (cases "tnStarted t \<or> ensureCapacity cfg t 1 \<noteq> None")
  case True
  with e t show ?thesis by (auto simp: ensureStarted_def simp del: One_nat_def split: if_splits)
next
  case False
  have core: "coreOk E cfg r t" using t by (simp add: openOk_def)
  obtain b where "appendFrame E now TurnStarted ''Foundry response started'' id t =
      (None, pushed t (newFrame now TurnStarted ''Foundry response started'' t) b)"
    using started_fits [OF env(1) coreOk_ids [OF core env(3)] small [OF env(2) core]] .
  with False e have "e = None" "t' = (pushed t (newFrame now TurnStarted ''Foundry response started'' t) b)\<lparr>tnStarted := True\<rparr>"
    by (auto simp: ensureStarted_def simp del: One_nat_def split: if_splits)
  with False t env(2) show ?thesis using start_pushed [OF core] start_text quiet_started by (auto simp: openOk_def)
qed

lemma ensureTerminalStarted_core:
  assumes env: "adapterEnvOk E" "cfgOk cfg" "idsOk r" and t: "coreOk E cfg r t"
  shows "coreOk E cfg r (ensureTerminalStarted E now t) \<and> quiet t (ensureTerminalStarted E now t) \<and>
    tnStarted (ensureTerminalStarted E now t) \<and> tnText (ensureTerminalStarted E now t) = tnText t \<and>
    tnPendingOutput (ensureTerminalStarted E now t) = tnPendingOutput t \<and>
    (textOk cfg t \<longrightarrow> textOk cfg (ensureTerminalStarted E now t))"
proof (cases "tnStarted t")
  case True
  with t show ?thesis by (auto simp: ensureTerminalStarted_def)
next
  case False
  obtain b where "appendFrame E now TurnStarted ''Foundry response started'' id t =
      (None, pushed t (newFrame now TurnStarted ''Foundry response started'' t) b)"
    using started_fits [OF env(1) coreOk_ids [OF t env(3)] small [OF env(2) t]] .
  with False env(2) show ?thesis using start_pushed [OF t] start_text quiet_started
    by (auto simp: ensureTerminalStarted_def)
qed

lemma ensureTerminalStarted_ok:
  assumes env: "adapterEnvOk E" "cfgOk cfg" "idsOk r" and t: "openOk E cfg r t"
  shows "openOk E cfg r (ensureTerminalStarted E now t) \<and> quiet t (ensureTerminalStarted E now t) \<and>
    tnStarted (ensureTerminalStarted E now t) \<and> tnText (ensureTerminalStarted E now t) = tnText t \<and>
    tnPendingOutput (ensureTerminalStarted E now t) = tnPendingOutput t"
  using t ensureTerminalStarted_core [OF env, of t now] by (simp add: openOk_def)

text \<open>Flushing keeps the text; an error leaves the pending output as it was.\<close>

lemma flushOutput_ok:
  assumes env: "adapterEnvOk E" "cfgOk cfg" "idsOk r" and t: "openOk E cfg r t" and e: "flushOutput E cfg now t = (e, t')"
  shows "openOk E cfg r t' \<and> quiet t t' \<and> (e = None \<longrightarrow> tnPendingOutput t' = []) \<and> tnText t' = tnText t \<and>
    tnStarted t' = tnStarted t \<and> tnPendingTools t' = tnPendingTools t"
proof -
  let ?u = "t\<lparr>tnFlushTimer := False\<rparr>"
  have u: "openOk E cfg r ?u" "quiet t ?u"
    using t by simp_all
  show ?thesis
  proof (cases "tnPendingOutput t = [] \<or> ensureCapacity cfg ?u 1 \<noteq> None")
    case True
    with e u show ?thesis by (auto simp: flushOutput_def Let_def simp del: One_nat_def split: if_splits)
  next
    case False
    let ?v = "?u\<lparr>tnPendingOutput := []\<rparr>"
    let ?f = "(newFrame now RuntimeOutput ''Foundry output'' ?v)\<lparr>frContentText := tnPendingOutput t\<rparr>"
    have v: "coreOk E cfg r ?v" "quiet t ?v"
      using t by (simp_all add: openOk_def quiet_def control_def)
    have started: "tnStarted t" using False t by (auto simp: openOk_def textOk_def)
    have "length (outputText (tnFrames t)) + length (tnPendingOutput t) = length (tnText t)"
      using t by (metis length_append openOk_def textOk_def)
    moreover have "int (length (tnText t)) \<le> 1048576" using t env(2) by (simp add: openOk_def textOk_def cfgOk_def)
    ultimately have "length (tnPendingOutput t) \<le> 1048576" by simp
    from output_fits [OF env(1) coreOk_ids [OF v(1) env(3)] small [OF env(2) v(1)] this] obtain b
      where "appendFrame E now RuntimeOutput ''Foundry output'' (\<lambda>f. f\<lparr>frContentText := tnPendingOutput t\<rparr>) ?v =
        (None, pushed ?v ?f b)" .
    with False e have r: "e = None" "t' = pushed ?v ?f b" by (auto simp: flushOutput_def Let_def simp del: One_nat_def split: if_splits)
    have "coreOk E cfg r (pushed ?v ?f b)"
    proof (rule coreOk_pushed [OF v(1)])
      show "tnStarted ?v" using started by simp
      show "frameOk r (length (tnFrames ?v)) ?f"
        by (rule frameOk_new [of r ?v RuntimeOutput]) (use v(1) started in \<open>auto simp: newFrame_def coreOk_def\<close>)
      show "int (length (tnFrames ?v) + 1) < afMaxEvents cfg" using False ensureCapacity_None [OF env(2), of ?u 1] by simp
    qed (simp_all add: newFrame_def terminalType_def)
    moreover have "textOk cfg (pushed ?v ?f b)" using t started by (simp add: openOk_def textOk_def newFrame_def)
    moreover have "quiet t (pushed ?v ?f b)" using v(2) quiet_pushed quiet_trans by blast
    ultimately show ?thesis using r by (simp add: openOk_def)
  qed
qed

end
