(* ===== verification/AdapterOpen.thy ===== *)
theory AdapterOpen
  imports AdapterStream
begin

text \<open>
  The operations on an open turn one level up: text and tool calls from the provider, results from
  the client and the continuation they make, and the frames that end a turn.
\<close>

section \<open>Callbacks of the provider call\<close>

lemma appendText_ok:
  assumes env: "adapterEnvOk E" "cfgOk cfg" "idsOk r" and t: "openOk E cfg r t" and e: "appendText E cfg now delta t = (e, t')"
  shows "openOk E cfg r t' \<and> quiet t t'"
proof -
  have open_t: "\<not> tnCompleted t" using t by (simp add: openOk_def coreOk_def)
  obtain e1 t1 where s: "ensureStarted E cfg now t = (e1, t1)" by fastforce
  from ensureStarted_ok [OF env t s] have t1: "openOk E cfg r t1" "quiet t t1" "e1 = None \<Longrightarrow> tnStarted t1" by auto
  show ?thesis
  proof (cases "e1 = None \<and> int (length (tnText t1) + length delta) \<le> afMaxOutputBytes cfg")
    case False
    with e s t1 open_t show ?thesis by (auto simp: appendText_def split: option.splits if_splits)
  next
    case True
    let ?t2 = "t1\<lparr>tnText := tnText t1 @ delta, tnPendingOutput := tnPendingOutput t1 @ delta\<rparr>"
    have t2: "openOk E cfg r ?t2" using t1 True by (auto simp: openOk_def textOk_def)
    have q2: "quiet t ?t2" using t1(2) by (simp add: quiet_def control_def)
    show ?thesis
    proof (cases "length (tnPendingOutput ?t2) \<ge> 4096")
      case flush: True
      with e s True open_t have "flushOutput E cfg now ?t2 = (e, t')" by (simp add: appendText_def)
      from flushOutput_ok [OF env t2 this] q2 show ?thesis by (blast intro: quiet_trans)
    next
      case False
      with e s True open_t have "t' = ?t2\<lparr>tnFlushTimer := True\<rparr>" by (simp add: appendText_def)
      with t2 q2 show ?thesis by (simp add: quiet_def control_def)
    qed
  qed
qed

text \<open>The tables after a tool call has been recorded.\<close>

definition callRecorded :: "adapterEnv \<Rightarrow> string \<Rightarrow> string \<Rightarrow> string \<Rightarrow> int \<Rightarrow> turnState \<Rightarrow> turnState" where
  "callRecorded E p name digest bytes t =
     (let callID = orkaToolCallID E (sqRuntimeSessionID (tnRequest t)) (sqTurnID (tnRequest t)) p in
      t\<lparr>tnBrokeredCallCount := tnBrokeredCallCount t + 1, tnBrokeredStateBytes := tnBrokeredStateBytes t + bytes,
        tnPendingTools := fmupd callID name (tnPendingTools t),
        tnPendingCallDigests := fmupd callID digest (tnPendingCallDigests t),
        tnProviderCallIDs := fmupd callID p (tnProviderCallIDs t)\<rparr>)"

lemma callRecorded_ok:
  assumes t: "openOk E cfg r t" "tnStarted t"
    and fresh: "fmlookup (tnSubmittedResultDigests t)
      (orkaToolCallID E (sqRuntimeSessionID (tnRequest t)) (sqTurnID (tnRequest t)) p) = None"
    and calls: "afMaxBrokeredCalls cfg > 0 \<longrightarrow> tnBrokeredCallCount t < afMaxBrokeredCalls cfg"
    and bytes: "afMaxBrokeredTurnBytes cfg > 0 \<longrightarrow> tnBrokeredStateBytes t + bytes \<le> afMaxBrokeredTurnBytes cfg"
  shows "openOk E cfg r (callRecorded E p name digest bytes t)"
proof -
  let ?c = "orkaToolCallID E (sqRuntimeSessionID (tnRequest t)) (sqTurnID (tnRequest t)) p"
  have "?c |\<notin>| fmdom (tnSubmittedResultDigests t)" using fresh by (simp add: fmdom_notI)
  with t calls bytes have "toolsOk E cfg (callRecorded E p name digest bytes t)"
    by (auto simp: openOk_def coreOk_def toolsOk_def callRecorded_def Let_def split: if_splits)
  with t show ?thesis by (simp add: openOk_def coreOk_def callRecorded_def Let_def)
qed

lemma quiet_callRecorded: "quiet t (callRecorded E p name digest bytes t)"
  by (simp add: quiet_def control_def callRecorded_def Let_def)

lemma callRecorded_simps [simp]: "tnFrames (callRecorded E p name digest bytes t) = tnFrames t"
  "tnRequest (callRecorded E p name digest bytes t) = tnRequest t" "tnStarted (callRecorded E p name digest bytes t) = tnStarted t"
  "tnExposedBrokeredWrite (callRecorded E p name digest bytes t) = tnExposedBrokeredWrite t"
  by (simp_all add: callRecorded_def Let_def)

lemma exposed_ok: "openOk E cfg r t \<Longrightarrow> openOk E cfg r (t\<lparr>tnExposedBrokeredWrite := True\<rparr>)"
  by (simp add: openOk_def coreOk_def)

text \<open>The end of \<open>recordFunctionCall\<close>, once the call is admitted.\<close>

definition offerCall :: "adapterEnv \<Rightarrow> adapterConfig \<Rightarrow> int \<Rightarrow> string \<Rightarrow> string \<Rightarrow> string \<Rightarrow> turnState \<Rightarrow>
    adapterError option \<times> turnState" where
  "offerCall E cfg now p name arguments t =
     (let callID = orkaToolCallID E (sqRuntimeSessionID (tnRequest t)) (sqTurnID (tnRequest t)) p;
          t1 = (if foundryToolClass (tiTools (sqInput (tnRequest t))) name = classWrite
            then t\<lparr>tnExposedBrokeredWrite := True\<rparr> else t);
          bytes = int (length callID + length p + length name + length arguments) in
      if afMaxBrokeredCalls cfg > 0 \<and> tnBrokeredCallCount t1 \<ge> afMaxBrokeredCalls cfg
      then (Some (AeText ''foundry brokered tool call count exceeds adapter limit''), t1)
      else if afMaxBrokeredTurnBytes cfg > 0 \<and> tnBrokeredStateBytes t1 + bytes > afMaxBrokeredTurnBytes cfg
      then (Some (AeText ''foundry brokered tool state exceeds adapter limit''), t1)
      else appendFrame E now ToolCallRequested ''Foundry requested brokered tool''
        (\<lambda>f. f\<lparr>frToolName := name, frToolCallID := callID, frContent := arguments\<rparr>)
        (callRecorded E p name (foundryFunctionCallFingerprint E name arguments) bytes t1))"

lemma offerCall_ok:
  assumes t: "openOk E cfg r t" "tnStarted t"
    and fresh: "fmlookup (tnSubmittedResultDigests t)
      (orkaToolCallID E (sqRuntimeSessionID (tnRequest t)) (sqTurnID (tnRequest t)) p) = None"
    and room: "int (length (tnFrames t) + 1) < afMaxEvents cfg"
    and e: "offerCall E cfg now p name arguments t = (e, t')"
  shows "openOk E cfg r t' \<and> quiet t t'"
proof -
  define t1 where "t1 = (if foundryToolClass (tiTools (sqInput (tnRequest t))) name = classWrite
    then t\<lparr>tnExposedBrokeredWrite := True\<rparr> else t)"
  define bytes where "bytes = int (length (orkaToolCallID E (sqRuntimeSessionID (tnRequest t)) (sqTurnID (tnRequest t)) p) +
    length p + length name + length arguments)"
  let ?u = "callRecorded E p name (foundryFunctionCallFingerprint E name arguments) bytes t1"
  let ?m = "\<lambda>f. f\<lparr>frToolName := name, frToolCallID :=
    orkaToolCallID E (sqRuntimeSessionID (tnRequest t)) (sqTurnID (tnRequest t)) p, frContent := arguments\<rparr>"
  have t1: "openOk E cfg r t1" "quiet t t1" "tnStarted t1" "tnRequest t1 = tnRequest t" "tnFrames t1 = tnFrames t"
    "tnSubmittedResultDigests t1 = tnSubmittedResultDigests t"
    using t exposed_ok by (auto simp: t1_def quiet_def control_def)
  have exposes: "tnExposedBrokeredWrite t1" if "foundryToolClass (tiTools (sqInput r)) name = classWrite"
    using that t by (simp add: t1_def openOk_def coreOk_def)
  show ?thesis
  proof (cases "t' = t1")
    case False
    have off: "offerCall E cfg now p name arguments t =
       (if afMaxBrokeredCalls cfg > 0 \<and> tnBrokeredCallCount t1 \<ge> afMaxBrokeredCalls cfg
        then (Some (AeText ''foundry brokered tool call count exceeds adapter limit''), t1)
        else if afMaxBrokeredTurnBytes cfg > 0 \<and> tnBrokeredStateBytes t1 + bytes > afMaxBrokeredTurnBytes cfg
        then (Some (AeText ''foundry brokered tool state exceeds adapter limit''), t1)
        else appendFrame E now ToolCallRequested ''Foundry requested brokered tool'' ?m ?u)"
      by (simp only: offerCall_def Let_def t1_def bytes_def)
    from False e have lim: "\<not> (afMaxBrokeredCalls cfg > 0 \<and> tnBrokeredCallCount t1 \<ge> afMaxBrokeredCalls cfg)"
      "\<not> (afMaxBrokeredTurnBytes cfg > 0 \<and> tnBrokeredStateBytes t1 + bytes > afMaxBrokeredTurnBytes cfg)"
      and app: "appendFrame E now ToolCallRequested ''Foundry requested brokered tool'' ?m ?u = (e, t')"
      unfolding off by (auto split: if_splits)
    have u: "openOk E cfg r ?u" "quiet t ?u"
      using callRecorded_ok [of E cfg r t1 p bytes] t1 lim fresh quiet_trans [OF t1(2) quiet_callRecorded] by auto
    show ?thesis
    proof (cases rule: appendFrame_cases [of E now ToolCallRequested "''Foundry requested brokered tool''" ?m ?u])
      case (failed e')
      with app u show ?thesis by simp
    next
      case (added b)
      let ?f = "?m (newFrame now ToolCallRequested ''Foundry requested brokered tool'' ?u)"
      have "coreOk E cfg r (pushed ?u ?f b)"
      proof (rule coreOk_pushed)
        show "coreOk E cfg r ?u" using u by (simp add: openOk_def)
        then show "frameOk r (length (tnFrames ?u)) ?f"
          by (intro frameOk_new [of r ?u ToolCallRequested]) (use t1(3) in \<open>auto simp: newFrame_def coreOk_def\<close>)
      qed (use t1 room exposes in \<open>auto simp: newFrame_def terminalType_def\<close>)
      moreover have "textOk cfg (pushed ?u ?f b)" using u(1) by (simp add: openOk_def textOk_def newFrame_def)
      ultimately show ?thesis using app added u(2) quiet_trans quiet_pushed by (auto simp: openOk_def)
    qed
  qed (use t1 in simp)
qed

lemma quiet_same: "quiet t t' \<Longrightarrow> tnRequest t' = tnRequest t" "quiet t t' \<Longrightarrow> tnSubmittedResultDigests t' = tnSubmittedResultDigests t"
  "quiet t t' \<Longrightarrow> control t' = control t"
  by (simp_all add: quiet_def)

lemma appendFrame_request: "appendFrame E now ty summary mutate t = (e, t') \<Longrightarrow> tnRequest t' = tnRequest t"
  by (cases rule: appendFrame_cases [of E now ty summary mutate t]) auto

lemma ensureStarted_request: "ensureStarted E cfg now t = (e, t') \<Longrightarrow> tnRequest t' = tnRequest t"
  by (auto simp: ensureStarted_def dest: appendFrame_request split: if_splits option.splits prod.splits)

lemma flushOutput_request: "flushOutput E cfg now t = (e, t') \<Longrightarrow> tnRequest t' = tnRequest t"
  by (auto simp: flushOutput_def Let_def dest: appendFrame_request split: if_splits option.splits)

text \<open>\<open>recordFunctionCall\<close> past its checks.\<close>

definition admitCall :: "adapterEnv \<Rightarrow> adapterConfig \<Rightarrow> int \<Rightarrow> string \<Rightarrow> string \<Rightarrow> string \<Rightarrow> turnState \<Rightarrow>
    adapterError option \<times> turnState" where
  "admitCall E cfg now p name arguments t =
     (case ensureStarted E cfg now t of (Some e, t1) \<Rightarrow> (Some e, t1) | (None, t1) \<Rightarrow>
     (case flushOutput E cfg now t1 of (Some e, t2) \<Rightarrow> (Some e, t2) | (None, t2) \<Rightarrow>
     (case ensureCapacity cfg t2 1 of Some e \<Rightarrow> (Some e, t2) | None \<Rightarrow> offerCall E cfg now p name arguments t2)))"

lemma admitCall_ok:
  assumes env: "adapterEnvOk E" "cfgOk cfg" "idsOk r" and t: "openOk E cfg r t"
    and fresh: "fmlookup (tnSubmittedResultDigests t)
      (orkaToolCallID E (sqRuntimeSessionID (tnRequest t)) (sqTurnID (tnRequest t)) p) = None"
    and e: "admitCall E cfg now p name arguments t = (e, t')"
  shows "openOk E cfg r t' \<and> quiet t t'"
proof -
  obtain e1 t1 where s: "ensureStarted E cfg now t = (e1, t1)" by fastforce
  from ensureStarted_ok [OF env t s] have t1: "openOk E cfg r t1" "quiet t t1" "e1 = None \<Longrightarrow> tnStarted t1" by auto
  obtain e2 t2 where f: "flushOutput E cfg now t1 = (e2, t2)" by fastforce
  from flushOutput_ok [OF env t1(1) f] have t2: "openOk E cfg r t2" "quiet t t2" "tnStarted t2 = tnStarted t1"
    using quiet_trans [OF t1(2)] by auto
  show ?thesis
  proof (cases "e1 = None \<and> e2 = None \<and> ensureCapacity cfg t2 1 = None")
    case False
    with e s f t1 t2 show ?thesis by (cases e1; cases e2) (auto simp: admitCall_def simp del: One_nat_def)
  next
    case True
    with e s f have o: "offerCall E cfg now p name arguments t2 = (e, t')" by (simp add: admitCall_def)
    have "openOk E cfg r t' \<and> quiet t2 t'"
    proof (rule offerCall_ok [OF t2(1) _ _ _ o])
      show "tnStarted t2" using t1(3) t2(3) True by simp
      show "fmlookup (tnSubmittedResultDigests t2)
          (orkaToolCallID E (sqRuntimeSessionID (tnRequest t2)) (sqTurnID (tnRequest t2)) p) = None"
        using fresh quiet_same [OF t2(2)] by simp
      show "int (length (tnFrames t2) + 1) < afMaxEvents cfg" using True ensureCapacity_None [OF env(2)] by simp
    qed
    with t2(2) show ?thesis by (blast intro: quiet_trans)
  qed
qed

lemma recordFunctionCall_admits:
  assumes e: "recordFunctionCall E cfg now call t = (e, t')" and "t' \<noteq> t"
  shows "\<exists>arguments. NormalizeToolArguments (aeValid E) (aeString E) (oiArguments call) = Some arguments \<and>
    admitCall E cfg now (oiCallID call) (oiName call) arguments t = (e, t') \<and>
    fmlookup (tnSubmittedResultDigests t)
      (orkaToolCallID E (sqRuntimeSessionID (tnRequest t)) (sqTurnID (tnRequest t)) (oiCallID call)) = None"
proof -
  let ?p = "oiCallID call" and ?name = "oiName call"
  let ?c = "orkaToolCallID E (sqRuntimeSessionID (tnRequest t)) (sqTurnID (tnRequest t)) ?p"
  have same: "snd (recordFunctionCall E cfg now call t) \<noteq> t" using assms by simp
  have c1: "callIDError ?p = None" by (rule ccontr) (use same in \<open>simp add: recordFunctionCall_def Let_def\<close>)
  have c2: "ValidateFunctionName ?name" by (rule ccontr) (use same c1 in \<open>simp add: recordFunctionCall_def Let_def\<close>)
  obtain arguments where a: "NormalizeToolArguments (aeValid E) (aeString E) (oiArguments call) = Some arguments"
    by (cases "NormalizeToolArguments (aeValid E) (aeString E) (oiArguments call)")
      (use same c1 c2 in \<open>simp_all add: recordFunctionCall_def Let_def\<close>)
  have c3: "\<not> tnCompleted t" by (rule notI) (use same c1 c2 a in \<open>simp add: recordFunctionCall_def Let_def\<close>)
  have c4: "\<not> (sqToolExecutionMode (tnRequest t) \<noteq> modeBrokered \<or> \<not> foundryToolAllowed (tiTools (sqInput (tnRequest t))) ?name)"
    by (rule notI) (use same c1 c2 c3 a in \<open>auto simp: recordFunctionCall_def Let_def\<close>)
  have fresh: "fmlookup (tnSubmittedResultDigests t) ?c = None"
    by (rule ccontr) (use same c1 c2 c3 c4 a in \<open>simp add: recordFunctionCall_def Let_def\<close>)
  have c5: "fmlookup (tnPendingTools t) ?c = None"
    by (rule ccontr) (use same c1 c2 c3 c4 a fresh in \<open>auto simp: recordFunctionCall_def Let_def split: if_splits\<close>)
  obtain e1 t1 where s: "ensureStarted E cfg now t = (e1, t1)" by fastforce
  obtain e2 t2 where f: "flushOutput E cfg now t1 = (e2, t2)" by fastforce
  have q: "tnRequest t2 = tnRequest t" using ensureStarted_request [OF s] flushOutput_request [OF f] by simp
  have "recordFunctionCall E cfg now call t = admitCall E cfg now ?p ?name arguments t"
  proof (cases "e1 = None \<and> e2 = None \<and> ensureCapacity cfg t2 1 = None")
    case True
    with s f c1 c2 c3 c4 c5 a fresh q show ?thesis
      by (simp add: recordFunctionCall_def admitCall_def offerCall_def callRecorded_def Let_def)
  next
    case False
    with s f c1 c2 c3 c4 c5 a fresh show ?thesis
      by (cases e1; cases e2) (auto simp: recordFunctionCall_def admitCall_def Let_def)
  qed
  then have "admitCall E cfg now ?p ?name arguments t = (e, t')" using e by simp
  with a fresh show ?thesis by blast
qed

lemma recordFunctionCall_ok:
  assumes env: "adapterEnvOk E" "cfgOk cfg" "idsOk r" and t: "openOk E cfg r t"
    and e: "recordFunctionCall E cfg now call t = (e, t')"
  shows "openOk E cfg r t' \<and> quiet t t'"
proof (cases "t' = t")
  case False
  from recordFunctionCall_admits [OF e False] obtain arguments
    where a: "admitCall E cfg now (oiCallID call) (oiName call) arguments t = (e, t')"
    and fresh: "fmlookup (tnSubmittedResultDigests t)
      (orkaToolCallID E (sqRuntimeSessionID (tnRequest t)) (sqTurnID (tnRequest t)) (oiCallID call)) = None" by blast
  show ?thesis by (rule admitCall_ok [OF env t fresh a])
qed (use t in simp)

text \<open>A created event also sets the agent session, which the invariant does not read.\<close>

lemma onCreated_ok:
  assumes env: "adapterEnvOk E" "cfgOk cfg" "idsOk r" and t: "openOk E cfg r t" and e: "onCreated E cfg now rp t = (e, t')"
  shows "openOk E cfg r t' \<and> quiet t t'"
proof -
  define u where "u = (if rpAgentSessionID rp \<noteq> [] then t\<lparr>tnAgentSessionID := rpAgentSessionID rp\<rparr> else t)"
  have u: "openOk E cfg r u" "quiet t u" using t by (simp_all add: u_def)
  have "\<not> tnCompleted t" using t by (simp add: openOk_def coreOk_def)
  with e have "ensureStarted E cfg now u = (e, t')" by (simp add: onCreated_def u_def)
  from ensureStarted_ok [OF env u(1) this] u(2) show ?thesis by (blast intro: quiet_trans)
qed

lemma runCallback_open:
  assumes env: "adapterEnvOk E" "cfgOk cfg" "idsOk r" and t: "openOk E cfg r t"
    and e: "runCallback E cfg now ev v t = (e, v', t')"
  shows "openOk E cfg r t' \<and> quiet t t'"
proof (cases ev)
  case (CbCreated rp)
  with e t onCreated_ok [OF env t, of now rp] show ?thesis
    by (auto simp: runCallback_def split: prod.splits option.splits)
next
  case (CbTextDelta d)
  with e t appendText_ok [OF env t, of now d] show ?thesis
    by (auto simp: runCallback_def split: prod.splits)
next
  case (CbFunctionCall call)
  with e t recordFunctionCall_ok [OF env t, of now call] show ?thesis
    by (auto simp: runCallback_def split: prod.splits)
qed

lemma runCallback_completed:
  assumes "tnCompleted t" "runCallback E cfg now ev v t = (e, v', t')"
  shows "t' = t"
proof (cases ev)
  case (CbFunctionCall call)
  with assms have "recordFunctionCall E cfg now call t = (e, t')" by (auto simp: runCallback_def split: prod.splits)
  with assms(1) show ?thesis by (auto simp: recordFunctionCall_def Let_def split: if_splits option.splits)
qed (use assms in \<open>auto simp: runCallback_def onCreated_def appendText_def split: prod.splits option.splits\<close>)

section \<open>Results and continuations\<close>

lemma stageResults_pending:
  "stageResults E t rs = Inr staged \<Longrightarrow> s \<in> set staged \<Longrightarrow> sgCallID s |\<in>| fmdom (tnPendingTools t)"
proof (induction E t rs arbitrary: staged rule: stageResults.induct)
  case (2 E t r rs)
  then show ?case
    by (cases "stageResults E t rs") (auto simp: Let_def fmlookup_dom_iff split: option.splits prod.splits if_splits)
qed simp

lemma bufferResults_fold:
  "fold bufferResult staged t = t\<lparr>tnBrokeredStateBytes := tnBrokeredStateBytes t + sum_list (map sgSize staged),
     tnBufferedResults := fold (\<lambda>s. fmupd (sgCallID s) (sgResult s)) staged (tnBufferedResults t),
     tnBufferedResultDigests := fold (\<lambda>s. fmupd (sgCallID s) (sgDigest s)) staged (tnBufferedResultDigests t)\<rparr>"
  by (induction staged arbitrary: t) (simp_all add: bufferResult_def)

lemma fmdom_fold_fmupd: "fset (fmdom (fold (\<lambda>s. fmupd (f s) (g s)) xs m)) = fset (fmdom m) \<union> f ` set xs"
  by (induction xs arbitrary: m) auto

lemma bufferResults_ok:
  assumes t: "openOk E cfg r t" and staged: "stageResults E t rs = Inr staged"
    and bytes: "\<not> (afMaxBrokeredTurnBytes cfg > 0 \<and>
      tnBrokeredStateBytes t + sum_list (map sgSize staged) > afMaxBrokeredTurnBytes cfg)"
  shows "openOk E cfg r (fold bufferResult staged t)" "quiet t (fold bufferResult staged t)"
proof -
  have "sgCallID ` set staged \<subseteq> fset (fmdom (tnPendingTools t))" using stageResults_pending [OF staged] by auto
  with t bytes have "toolsOk E cfg (fold bufferResult staged t)"
    by (auto simp: openOk_def coreOk_def toolsOk_def bufferResults_fold fmdom_fold_fmupd less_eq_fset.rep_eq
        simp flip: fset_inject)
  with t show "openOk E cfg r (fold bufferResult staged t)" by (simp add: openOk_def coreOk_def bufferResults_fold)
  show "quiet t (fold bufferResult staged t)" by (simp add: bufferResults_fold quiet_def control_def)
qed

text \<open>Emitting results only adds frames and marks.\<close>

definition emitted :: "turnState \<Rightarrow> turnState \<Rightarrow> bool" where
  "emitted t t' \<longleftrightarrow> (\<exists>fs b em. t' = t\<lparr>tnFrames := fs, tnRetainedBytes := b, tnEmittedResults := em\<rparr>)"

lemma emitted_refl [simp]: "emitted t t"
proof -
  have "t = t\<lparr>tnFrames := tnFrames t, tnRetainedBytes := tnRetainedBytes t, tnEmittedResults := tnEmittedResults t\<rparr>" by simp
  then show ?thesis unfolding emitted_def by blast
qed

lemma emitResults_ok:
  "openOk E cfg r t \<Longrightarrow> tnStarted t \<Longrightarrow> int (length (tnFrames t) + length ids) < afMaxEvents cfg \<Longrightarrow>
    emitResults E now ids t = (e, t') \<Longrightarrow> openOk E cfg r t' \<and> quiet t t' \<and> emitted t t'"
proof (induction E now ids t arbitrary: t' rule: emitResults.induct)
  case (2 E now c ids t)
  show ?case
  proof (cases "c |\<in>| tnEmittedResults t")
    case True
    with 2 show ?thesis by simp
  next
    case False
    let ?m = "\<lambda>f. f\<lparr>frToolName := lookupString (tnPendingTools t) c, frToolCallID := c,
      frContent := trOutput (bufferedResult t c), frError := trError (bufferedResult t c)\<rparr>"
    let ?f = "?m (newFrame now ToolResultReceived ''brokered tool result received'' t)"
    show ?thesis
    proof (cases rule: appendFrame_cases [of E now ToolResultReceived "''brokered tool result received''" ?m t])
      case (failed e')
      with 2 False show ?thesis by simp
    next
      case (added b)
      let ?u = "(pushed t ?f b)\<lparr>tnEmittedResults := finsert c (tnEmittedResults (pushed t ?f b))\<rparr>"
      have "coreOk E cfg r (pushed t ?f b)"
      proof (rule coreOk_pushed)
        show "coreOk E cfg r t" using 2 by (simp add: openOk_def)
        then show "frameOk r (length (tnFrames t)) ?f"
          by (intro frameOk_new [of r t ToolResultReceived]) (use 2 in \<open>auto simp: newFrame_def coreOk_def\<close>)
      qed (use 2 in \<open>auto simp: newFrame_def terminalType_def\<close>)
      moreover have "textOk cfg (pushed t ?f b)" using 2 by (simp add: openOk_def textOk_def newFrame_def)
      ultimately have u: "openOk E cfg r ?u" by (simp add: openOk_def)
      have r: "emitResults E now ids ?u = (e, t')"
        using "2.prems"(4) False added by (simp add: pushed_def)
      have more: "tnStarted ?u" "int (length (tnFrames ?u) + length ids) < afMaxEvents cfg" using "2.prems" by auto
      have "openOk E cfg r t' \<and> quiet ?u t' \<and> emitted ?u t'"
        by (rule "2.IH"(2) [OF False added [symmetric] refl]) (use u more r in \<open>simp_all add: pushed_def\<close>)
      moreover have "quiet t ?u" by (simp add: quiet_def control_def pushed_def)
      moreover have "emitted t t'" if "emitted ?u t'"
        using that by (auto simp: emitted_def pushed_def)
      ultimately show ?thesis by (blast intro: quiet_trans)
    qed
  qed
qed simp

lemma toolsOk_disjoint:
  assumes "toolsOk E cfg t" "fmlookup (tnSubmittedResultDigests t) c = Some x"
  shows "fmlookup (tnPendingTools t) c = None"
proof -
  have "c |\<in>| fmdom (tnSubmittedResultDigests t)" using assms(2) by (rule fmdomI)
  with assms(1) have "c |\<notin>| fmdom (tnPendingTools t)" by (auto simp: toolsOk_def)
  then show ?thesis by (rule fmdom_notD)
qed

lemma submitResult_tools: "toolsOk E cfg t \<Longrightarrow> toolsOk E cfg (submitResult c t)"
  by (auto simp: toolsOk_def submitResult_def split: if_splits)

lemma submitResults_fold:
  "\<exists>s p d v b g. fold submitResult ids t = t\<lparr>tnSubmittedResultDigests := s, tnPendingTools := p, tnPendingCallDigests := d,
     tnProviderCallIDs := v, tnBufferedResults := b, tnBufferedResultDigests := g\<rparr>"
proof (induction ids arbitrary: t)
  case Nil
  have "t = t\<lparr>tnSubmittedResultDigests := tnSubmittedResultDigests t, tnPendingTools := tnPendingTools t,
    tnPendingCallDigests := tnPendingCallDigests t, tnProviderCallIDs := tnProviderCallIDs t,
    tnBufferedResults := tnBufferedResults t, tnBufferedResultDigests := tnBufferedResultDigests t\<rparr>" by simp
  then show ?case unfolding fold_simps id_apply by blast
next
  case (Cons c ids)
  from Cons.IH [of "submitResult c t"] show ?case by (auto simp: submitResult_def)
qed

lemma submitResults_tools: "toolsOk E cfg t \<Longrightarrow> toolsOk E cfg (fold submitResult ids t)"
  by (induction ids arbitrary: t) (simp_all add: submitResult_tools)

lemma submitResults_pending: "fmlookup (tnPendingTools (fold submitResult ids t)) c =
    (if c \<in> set ids then None else fmlookup (tnPendingTools t) c)"
  by (induction ids arbitrary: t) (auto simp: submitResult_def)

lemma submitResults_kept: "c \<notin> set ids \<Longrightarrow>
    fmlookup (tnSubmittedResultDigests (fold submitResult ids t)) c = fmlookup (tnSubmittedResultDigests t) c"
  by (induction ids arbitrary: t) (auto simp: submitResult_def)

lemma submitResults_dom: "fset (fmdom (tnSubmittedResultDigests (fold submitResult ids t))) =
    fset (fmdom (tnSubmittedResultDigests t)) \<union> set ids"
  by (induction ids arbitrary: t) (auto simp: submitResult_def)

text \<open>A continuation answers every pending call, once.\<close>

definition submits :: "turnState \<Rightarrow> turnState \<Rightarrow> bool" where
  "submits t t' \<longleftrightarrow> tnCause t' = tnCause t \<and> \<not> tnWaitingForTools t' \<and> tnContinuationInFlight t' \<and> tnCompleted t' = tnCompleted t \<and>
     tnProviderInFlight t' = tnProviderInFlight t \<and> tnInvocationUncertain t' = tnInvocationUncertain t \<and>
     tnInitializing t' = tnInitializing t \<and> tnInitErr t' = tnInitErr t \<and> tnRequest t' = tnRequest t \<and>
     tnRequestFingerprint t' = tnRequestFingerprint t \<and> tnOwnerFingerprint t' = tnOwnerFingerprint t \<and>
     prefix (tnFrames t) (tnFrames t') \<and> (tnExposedBrokeredWrite t \<longrightarrow> tnExposedBrokeredWrite t') \<and>
     tnPendingTools t' = fmempty \<and>
     fset (fmdom (tnSubmittedResultDigests t')) = fset (fmdom (tnSubmittedResultDigests t)) \<union> fset (fmdom (tnPendingTools t)) \<and>
     (\<forall>c x. fmlookup (tnSubmittedResultDigests t) c = Some x \<longrightarrow> fmlookup (tnSubmittedResultDigests t') c = Some x)"

lemma prepareContinuation_ok:
  assumes cfg: "cfgOk cfg" and t: "openOk E cfg r t" and p: "tnPendingTools t \<noteq> fmempty"
    and e: "prepareContinuation E cfg now t = (res, t')"
  shows "openOk E cfg r t' \<and> (case res of Inl err \<Rightarrow> quiet t t'
    | Inr request \<Rightarrow> submits t t' \<and>
        request = continuationRequest cfg t (sorted_list_of_fset (fmdom (tnPendingTools t))))"
proof -
  let ?ids = "sorted_list_of_fset (fmdom (tnPendingTools t))"
  obtain e1 t1 where m: "emitResults E now ?ids t = (e1, t1)" by fastforce
  show ?thesis
  proof (cases "tnContinuationInFlight t \<or> ensureCapacity cfg t (length ?ids) \<noteq> None")
    case True
    with e t show ?thesis by (auto simp: prepareContinuation_def Let_def split: option.splits if_splits)
  next
    case False
    have started: "tnStarted t" using t p by (simp add: openOk_def coreOk_def)
    have "int (length (tnFrames t) + length ?ids) < afMaxEvents cfg" using False ensureCapacity_None [OF cfg] by simp
    from emitResults_ok [OF t started this m] have t1: "openOk E cfg r t1" "quiet t t1" "emitted t t1" by auto
    show ?thesis
    proof (cases "e1 = None \<and> FirstNonBlank [tnResponseID t1, tnPreviousResponse t1] \<noteq> []")
      case no: False
      with e False m t1 show ?thesis by (cases e1) (auto simp: prepareContinuation_def Let_def)
    next
      case True
      let ?s = "fold submitResult ?ids t1"
      from True e False m have r: "res = Inr (continuationRequest cfg t1 ?ids)"
        "t' = ?s\<lparr>tnWaitingForTools := False, tnContinuationInFlight := True\<rparr>"
        by (auto simp: prepareContinuation_def Let_def)
      have req: "continuationRequest cfg t1 ?ids = continuationRequest cfg t ?ids"
        using t1(3) by (auto simp: emitted_def continuationRequest_def bufferedResult_def)
      have pend: "tnPendingTools t1 = tnPendingTools t" using t1(3) by (auto simp: emitted_def)
      have none: "tnPendingTools ?s = fmempty"
        by (rule fmap_ext) (auto simp: submitResults_pending pend fmdom_notD)
      have tools: "toolsOk E cfg ?s" using t1(1) submitResults_tools by (auto simp: openOk_def coreOk_def)
      obtain s p d v b g where f: "?s = t1\<lparr>tnSubmittedResultDigests := s, tnPendingTools := p, tnPendingCallDigests := d,
         tnProviderCallIDs := v, tnBufferedResults := b, tnBufferedResultDigests := g\<rparr>"
        using submitResults_fold by blast
      have "openOk E cfg r ?s" using t1(1) tools none f by (auto simp: openOk_def coreOk_def)
      moreover have "submits t t'"
      proof -
        have "fmlookup (tnSubmittedResultDigests ?s) c = Some x" if c: "fmlookup (tnSubmittedResultDigests t) c = Some x" for c x
        proof -
          have "c \<notin> set ?ids" using toolsOk_disjoint [OF _ c] t by (auto simp: openOk_def coreOk_def fmlookup_dom_iff)
          with c quiet_same(2) [OF t1(2)] show ?thesis by (simp add: submitResults_kept)
        qed
        then show ?thesis
          using t1(2) none r(2) submitResults_dom [of ?ids t1] quiet_same(2) [OF t1(2)]
          by (simp add: submits_def f) (simp add: quiet_def control_def)
      qed
      ultimately show ?thesis using r req by simp
    qed
  qed
qed

end
