(* ===== verification/AdapterEnd.thy ===== *)
theory AdapterEnd
  imports AdapterOpen
begin

text \<open>
  The end of a turn: whatever happens, the stream gets exactly one terminal frame, and the frame is
  truthful. A result is the output that was streamed, and a failure is called retryable only when
  no brokered write was offered and no provider call has an unknown outcome. Then the effect of
  the operations on the adapter, up to the tidying of ended turns.
\<close>

section \<open>The last frame\<close>

lemma beforeTerminal_ok:
  assumes env: "adapterEnvOk E" "cfgOk cfg" "idsOk r" and t: "openOk E cfg r t"
  shows "coreOk E cfg r (beforeTerminal E cfg now t) \<and> quiet t (beforeTerminal E cfg now t) \<and>
    tnStarted (beforeTerminal E cfg now t) \<and> tnPendingOutput (beforeTerminal E cfg now t) = [] \<and>
    tnText (beforeTerminal E cfg now t) = tnText t \<and>
    (tnPendingOutput t = [] \<longrightarrow> outputText (tnFrames (beforeTerminal E cfg now t)) = tnText t)"
proof -
  let ?u = "ensureTerminalStarted E now t"
  from ensureTerminalStarted_ok [OF env t] have u: "openOk E cfg r ?u" "quiet t ?u" "tnStarted ?u" "tnText ?u = tnText t"
    "tnPendingOutput ?u = tnPendingOutput t" by auto
  obtain e v where f: "flushOutput E cfg now ?u = (e, v)" by fastforce
  from flushOutput_ok [OF env u(1) f] have v: "openOk E cfg r v" "quiet ?u v" "e = None \<Longrightarrow> tnPendingOutput v = []"
    "tnText v = tnText ?u" "tnStarted v = tnStarted ?u" by auto
  have none: "tnPendingOutput t = [] \<Longrightarrow> e = None"
    using f u(5) by (simp add: flushOutput_def Let_def)
  have q: "quiet t v" "quiet t (v\<lparr>tnPendingOutput := []\<rparr>)"
    using quiet_trans [OF u(2) v(2)] by (simp_all add: quiet_def control_def)
  show ?thesis
  proof (cases e)
    case None
    with f have b: "beforeTerminal E cfg now t = v" by (simp add: beforeTerminal_def flushBestEffort_def)
    have "outputText (tnFrames v) = tnText v" using v(1,3) None by (simp add: openOk_def textOk_def)
    with b v u q None show ?thesis by (simp add: openOk_def)
  next
    case (Some x)
    with f have b: "beforeTerminal E cfg now t = v\<lparr>tnPendingOutput := []\<rparr>"
      by (simp add: beforeTerminal_def flushBestEffort_def)
    with v u q none Some show ?thesis by (auto simp: openOk_def)
  qed
qed

text \<open>A turn that can still fail: its pending output may have been dropped.\<close>

definition failable :: "adapterEnv \<Rightarrow> adapterConfig \<Rightarrow> startTurnRequest \<Rightarrow> turnState \<Rightarrow> bool" where
  "failable E cfg r t \<longleftrightarrow> coreOk E cfg r t \<and> (textOk cfg t \<or> tnPendingOutput t = [])"

lemma openOk_failable: "openOk E cfg r t \<Longrightarrow> failable E cfg r t" "openOk E cfg r t \<Longrightarrow> failable E cfg r (t\<lparr>tnPendingOutput := []\<rparr>)"
  by (simp_all add: openOk_def failable_def)

lemma beforeTerminal_failable:
  assumes env: "adapterEnvOk E" "cfgOk cfg" "idsOk r" and t: "failable E cfg r t"
  shows "coreOk E cfg r (beforeTerminal E cfg now t) \<and> quiet t (beforeTerminal E cfg now t) \<and>
    tnStarted (beforeTerminal E cfg now t)"
proof (cases "textOk cfg t")
  case True
  with t have "openOk E cfg r t" by (simp add: failable_def openOk_def)
  from beforeTerminal_ok [OF env this] show ?thesis by blast
next
  case False
  let ?u = "ensureTerminalStarted E now t"
  have t: "coreOk E cfg r t" "tnPendingOutput t = []" using t False by (simp_all add: failable_def)
  have u: "coreOk E cfg r ?u" "quiet t ?u" "tnStarted ?u" "tnPendingOutput ?u = []"
    using ensureTerminalStarted_core [OF env t(1), of now] t(2) by simp_all
  have "quiet t (?u\<lparr>tnFlushTimer := False\<rparr>)" using quiet_trans [OF u(2) quiet_frame(1)] .
  with u show ?thesis by (simp add: beforeTerminal_def flushBestEffort_def flushOutput_def)
qed

text \<open>The frame that ends the stream is the intended one or the minimal failure.\<close>

lemma terminalFrame_ok:
  assumes env: "adapterEnvOk E" "cfgOk cfg" "idsOk r" and t: "coreOk E cfg r t" "tnStarted t"
    and large: "length large \<le> 1000" and ty: "terminalType ty"
    and f: "frameOk r (length (tnFrames t)) (mutate (newFrame now ty summary t))"
      "frType (mutate (newFrame now ty summary t)) = ty"
  obtains z b where "terminalFrame E cfg now ty summary large mutate t = pushed t z b"
    "frameOk r (length (tnFrames t)) z"
    "z = mutate (newFrame now ty summary t) \<or>
     (frCompleted z = None \<and> (\<exists>m. frFailed z = Some m \<and> \<not> tfRetryable m) \<and> frType z = FtTurnFailed)"
proof (cases rule: appendFrame_cases [of E now ty summary mutate t])
  case (added b)
  then have "terminalFrame E cfg now ty summary large mutate t = pushed t (mutate (newFrame now ty summary t)) b"
    by (simp add: terminalFrame_def)
  then show ?thesis using f(1) that by blast
next
  case (failed e)
  let ?z = "(newFrame now FtTurnFailed ''Foundry response failed'' t)
    \<lparr>frFailed := Some (minimalFailure ''terminal_frame_too_large'' large False)\<rparr>"
  obtain b where "appendMinimalFailure E now ''terminal_frame_too_large'' large False t = pushed t ?z b"
    using minimal_fits [OF env(1) coreOk_ids [OF t(1) env(3)] small [OF env(2) t(1)], of "''terminal_frame_too_large''" large]
      large by auto
  with failed have m: "terminalFrame E cfg now ty summary large mutate t = pushed t ?z b" by (simp add: terminalFrame_def)
  have "frameOk r (length (tnFrames t)) ?z"
    by (rule frameOk_new [of r t FtTurnFailed]) (use t in \<open>auto simp: newFrame_def coreOk_def\<close>)
  with m that show ?thesis by (auto simp: newFrame_def minimalFailure_def)
qed

section \<open>Completion\<close>

lemma endTurn_simps [simp]: "tnFrames (endTurn E now t) = tnFrames t" "tnStarted (endTurn E now t) = tnStarted t"
  "tnCompleted (endTurn E now t)" "tnInvocationUncertain (endTurn E now t) = tnInvocationUncertain t"
  "tnProviderInFlight (endTurn E now t) = tnProviderInFlight t" "tnInitializing (endTurn E now t) = tnInitializing t"
  "tnInitErr (endTurn E now t) = tnInitErr t" "tnWaitingForTools (endTurn E now t) = tnWaitingForTools t" "tnSubmittedResultDigests (endTurn E now t) = tnSubmittedResultDigests t"
  "tnExposedBrokeredWrite (endTurn E now t) = tnExposedBrokeredWrite t"
  "sqRuntimeSessionID (tnRequest (endTurn E now t)) = sqRuntimeSessionID (tnRequest t)"
  "sqTurnID (tnRequest (endTurn E now t)) = sqTurnID (tnRequest t)"
  "sqCorrelationID (tnRequest (endTurn E now t)) = sqCorrelationID (tnRequest t)"
  "tnRequestFingerprint (endTurn E now t) = tnRequestFingerprint t"
  "tnOwnerFingerprint (endTurn E now t) = tnOwnerFingerprint t"
  "tnCause (endTurn E now t) = (if tnCause t = None then Some AeCanceled else tnCause t)"
  by (simp_all add: endTurn_def cancelContext_def Let_def)

lemma closedOk_end:
  assumes t: "coreOk E cfg r t" "tnStarted t" and z: "frameOk r (length (tnFrames t)) z"
    and ending: "endingOk r (tnInvocationUncertain t) (tnFrames t) z"
  shows "closedOk cfg r (endTurn E now (pushed t z b))"
proof -
  have "streamOk r (pushed t z b)" using t z streamOk_pushed by (simp add: coreOk_def)
  then have "streamOk r (endTurn E now (pushed t z b))" by (simp add: streamOk_def sameIdentity_def)
  with t ending show ?thesis by (auto simp: closedOk_def coreOk_def)
qed

text \<open>A turn that has ended from an open one.\<close>

definition endedFrom :: "turnState \<Rightarrow> turnState \<Rightarrow> bool" where
  "endedFrom t t' \<longleftrightarrow> tnCompleted t' \<and> (tnCause t' = tnCause t \<or> tnCause t = None) \<and> tnWaitingForTools t' = tnWaitingForTools t \<and> tnInvocationUncertain t' = tnInvocationUncertain t \<and>
     tnProviderInFlight t' = tnProviderInFlight t \<and> tnInitializing t' = tnInitializing t \<and> tnInitErr t' = tnInitErr t \<and>
     sameIdentity (tnRequest t) (tnRequest t') \<and> tnRequestFingerprint t' = tnRequestFingerprint t \<and>
     tnOwnerFingerprint t' = tnOwnerFingerprint t \<and> tnSubmittedResultDigests t' = tnSubmittedResultDigests t \<and>
     prefix (tnFrames t) (tnFrames t') \<and> (tnExposedBrokeredWrite t \<longrightarrow> tnExposedBrokeredWrite t')"

lemma endedFrom_end: "quiet t u \<Longrightarrow> endedFrom t (endTurn E now (pushed u z b))"
  by (auto simp: endedFrom_def quiet_def control_def sameIdentity_def pushed_def)

end
