(* ===== verification/AdapterTidy.thy ===== *)
theory AdapterTidy
  imports AdapterEnd
begin

text \<open>
  Tidying: what retention, expiry and the timers may do to the adapter at any moment. Ended turns leave the map,
  cleanup timers change, and nothing else happens to a turn. Every ending is a change of one turn followed by tidying.
\<close>

section \<open>Tidying\<close>

definition keysOk :: "adapterState \<Rightarrow> bool" where
  "keysOk a \<longleftrightarrow> (\<forall>k h. fmlookup (adTurns a) k = Some h \<longrightarrow>
     (\<exists>t. fmlookup (adHeap a) h = Some t \<and> sqTurnID (tnRequest t) = k))"

definition tidies :: "adapterState \<Rightarrow> adapterState \<Rightarrow> bool" where
  "tidies a a' \<longleftrightarrow> adNext a' = adNext a \<and>
     (\<forall>h. fmlookup (adHeap a) h = None \<longrightarrow> fmlookup (adHeap a') h = None) \<and>
     (\<forall>h t. fmlookup (adHeap a) h = Some t \<longrightarrow> (\<exists>b. fmlookup (adHeap a') h = Some (t\<lparr>tnCleanupTimer := b\<rparr>))) \<and>
     (\<forall>k. fmlookup (adTurns a') k = fmlookup (adTurns a) k \<or>
        fmlookup (adTurns a') k = None \<and> (\<exists>t. turnNamed a k = Some t \<and> retained t))"

lemma tidiesI:
  assumes "adNext a' = adNext a" "\<And>h. fmlookup (adHeap a) h = None \<Longrightarrow> fmlookup (adHeap a') h = None"
    and "\<And>h t. fmlookup (adHeap a) h = Some t \<Longrightarrow> \<exists>b. fmlookup (adHeap a') h = Some (t\<lparr>tnCleanupTimer := b\<rparr>)"
    and "\<And>k. fmlookup (adTurns a') k = fmlookup (adTurns a) k \<or>
      fmlookup (adTurns a') k = None \<and> (\<exists>t. turnNamed a k = Some t \<and> retained t)"
  shows "tidies a a'"
  using assms by (simp add: tidies_def)

lemma tidies_next: "tidies a a' \<Longrightarrow> adNext a' = adNext a"
  by (simp add: tidies_def)

lemma tidies_none: "tidies a a' \<Longrightarrow> fmlookup (adHeap a) h = None \<Longrightarrow> fmlookup (adHeap a') h = None"
  by (simp add: tidies_def)

lemma tidies_some:
  assumes "tidies a a'" "fmlookup (adHeap a) h = Some t"
  obtains b where "fmlookup (adHeap a') h = Some (t\<lparr>tnCleanupTimer := b\<rparr>)"
  using assms unfolding tidies_def by blast

lemma tidies_key:
  assumes "tidies a a'"
  obtains "fmlookup (adTurns a') k = fmlookup (adTurns a) k"
  | t where "fmlookup (adTurns a') k = None" "turnNamed a k = Some t" "retained t"
  using assms unfolding tidies_def by blast

lemma turnNamed_tables [simp]: "turnNamed (a\<lparr>adSessions := s\<rparr>) k = turnNamed a k"
  "turnNamed (a\<lparr>adTombstones := b\<rparr>) k = turnNamed a k"
  by (cases "fmlookup (adTurns a) k"; simp add: turnNamed_def)+

lemma same_timer: "\<exists>b. t = t\<lparr>tnCleanupTimer := b\<rparr>"
  by (rule exI [of _ "tnCleanupTimer t"]) simp

lemma tidies_refl [simp]: "tidies a a"
  by (simp add: tidies_def same_timer)

lemma tidies_tables [simp]: "tidies a (a\<lparr>adSessions := s\<rparr>)" "tidies a (a\<lparr>adTombstones := b\<rparr>)"
  "tidies (a\<lparr>adSessions := s\<rparr>) a' = tidies a a'" "tidies (a\<lparr>adTombstones := b\<rparr>) a' = tidies a a'"
  by (simp_all add: tidies_def same_timer)

lemma retained_timer [simp]: "retained (t\<lparr>tnCleanupTimer := b\<rparr>) = retained t"
  by (simp add: retained_def)

lemma turnNamed_tidies:
  assumes "tidies a a'" "turnNamed a' k = Some t'"
  shows "\<exists>t b. turnNamed a k = Some t \<and> t' = t\<lparr>tnCleanupTimer := b\<rparr>"
proof (rule tidies_key [OF assms(1), of k])
  assume k: "fmlookup (adTurns a') k = fmlookup (adTurns a) k"
  with assms(2) obtain h where h: "fmlookup (adTurns a) k = Some h" "fmlookup (adHeap a') h = Some t'"
    by (auto simp: turnNamed_def split: option.splits)
  obtain t where t: "fmlookup (adHeap a) h = Some t" using tidies_none [OF assms(1), of h] h(2) by fastforce
  from tidies_some [OF assms(1) t] h t show ?thesis by (auto simp: turnNamed_def)
next
  fix t assume "fmlookup (adTurns a') k = None"
  with assms(2) show ?thesis by (simp add: turnNamed_def)
qed

lemma tidies_trans [trans]:
  assumes ab: "tidies a b" and bc: "tidies b c"
  shows "tidies a c"
proof (rule tidiesI)
  show "adNext c = adNext a" using tidies_next [OF ab] tidies_next [OF bc] by simp
  show "fmlookup (adHeap c) h = None" if "fmlookup (adHeap a) h = None" for h
    using tidies_none [OF bc] tidies_none [OF ab that] by blast
  show "\<exists>x. fmlookup (adHeap c) h = Some (t\<lparr>tnCleanupTimer := x\<rparr>)" if t: "fmlookup (adHeap a) h = Some t" for h t
  proof -
    from tidies_some [OF ab t] obtain x where "fmlookup (adHeap b) h = Some (t\<lparr>tnCleanupTimer := x\<rparr>)" .
    from tidies_some [OF bc this] obtain y where "fmlookup (adHeap c) h = Some (t\<lparr>tnCleanupTimer := x, tnCleanupTimer := y\<rparr>)" .
    then show ?thesis by auto
  qed
  show "fmlookup (adTurns c) k = fmlookup (adTurns a) k \<or>
      fmlookup (adTurns c) k = None \<and> (\<exists>t. turnNamed a k = Some t \<and> retained t)" for k
  proof (rule tidies_key [OF bc, of k])
    assume "fmlookup (adTurns c) k = fmlookup (adTurns b) k"
    then show ?thesis using tidies_key [OF ab, of k] by metis
  next
    fix t assume c: "fmlookup (adTurns c) k = None" and t: "turnNamed b k = Some t" "retained t"
    with turnNamed_tidies [OF ab t(1)] show ?thesis by auto
  qed
qed

lemma tidies_kept: "tidies a a' \<Longrightarrow> fmlookup (adTurns a') k = Some h \<Longrightarrow> fmlookup (adTurns a) k = Some h"
  by (erule tidies_key [of a a' k]) simp_all

lemma keysOkD:
  assumes "keysOk a" "fmlookup (adTurns a) k = Some h"
  obtains t where "fmlookup (adHeap a) h = Some t" "sqTurnID (tnRequest t) = k"
  using assms unfolding keysOk_def by blast

lemma keysOk_tidies:
  assumes a: "keysOk a" and t: "tidies a a'"
  shows "keysOk a'"
  unfolding keysOk_def
proof (intro allI impI)
  fix k h
  assume "fmlookup (adTurns a') k = Some h"
  from keysOkD [OF a tidies_kept [OF t this]] obtain x
    where x: "fmlookup (adHeap a) h = Some x" "sqTurnID (tnRequest x) = k" .
  from tidies_some [OF t x(1)] obtain b where "fmlookup (adHeap a') h = Some (x\<lparr>tnCleanupTimer := b\<rparr>)" .
  with x(2) show "\<exists>t. fmlookup (adHeap a') h = Some t \<and> sqTurnID (tnRequest t) = k" by simp
qed

lemma turnNamed_Some: "turnNamed a k = Some t \<longleftrightarrow> (\<exists>h. fmlookup (adTurns a) k = Some h \<and> fmlookup (adHeap a) h = Some t)"
  by (simp add: turnNamed_def split: option.splits)

lemma keysOk_named:
  assumes "keysOk a" "turnNamed a k = Some t"
  shows "sqTurnID (tnRequest t) = k"
proof -
  obtain h where h: "fmlookup (adTurns a) k = Some h" "fmlookup (adHeap a) h = Some t"
    using assms(2) by (auto simp: turnNamed_Some)
  with assms(1) show ?thesis by (fastforce simp: keysOk_def)
qed

section \<open>Retention and expiry tidy\<close>

lemma deleteTurn_tidies:
  assumes t: "turnNamed a k = Some t" "retained t"
  shows "tidies a (deleteTurn k a)"
proof -
  obtain h where h: "fmlookup (adTurns a) k = Some h" "fmlookup (adHeap a) h = Some t"
    using t(1) by (auto simp: turnNamed_def split: option.splits)
  show ?thesis
  proof (rule tidiesI)
    show "\<exists>b. fmlookup (adHeap (deleteTurn k a)) i = Some (u\<lparr>tnCleanupTimer := b\<rparr>)" if "fmlookup (adHeap a) i = Some u" for i u
      using that same_timer [of u] by (cases "i = h") (auto simp: deleteTurn_def h)
  qed (use h t in \<open>auto simp: deleteTurn_def\<close>)
qed

lemma retainedMap_named:
  assumes "k |\<in>| fmdom (retainedMap a)"
  shows "\<exists>t. turnNamed a k = Some t \<and> retained t"
  using assms by (auto simp: retainedMap_def split: option.splits)

lemma pruneRetained_tidies: "tidies a (pruneRetained E keep a)"
proof (induction E keep a rule: pruneRetained.induct)
  case (1 E keep a)
  show ?case
  proof (cases "leastBy tnCleanupAt (fmdrop keep (retainedMap a)) (aeOrder E (fmdom (adTurns a))) None")
    case None
    then show ?thesis by (subst pruneRetained.simps) (simp add: Let_def)
  next
    case (Some p)
    obtain k r where p: "p = (k, r)" by fastforce
    from leastBy_dom [OF Some [unfolded p]] have "k |\<in>| fmdom (retainedMap a)" by simp
    with retainedMap_named obtain t where "turnNamed a k = Some t" "retained t" by blast
    then have d: "tidies a (deleteTurn k a)" by (rule deleteTurn_tidies)
    let ?stop = "fmcard (retainedMap a) \<le> maxRetainedTurns \<and>
      sum_list (map (\<lambda>k. case fmlookup (retainedMap a) k of None \<Rightarrow> 0 | Some t \<Rightarrow> tnRetainedBytes t)
        (sorted_list_of_fset (fmdom (retainedMap a)))) \<le> maxRetainedTurnStateBytes"
    show ?thesis
    proof (cases ?stop)
      case True
      then show ?thesis by (subst pruneRetained.simps) (simp add: Let_def)
    next
      case False
      have "tidies (deleteTurn k a) (pruneRetained E keep (deleteTurn k a))"
        by (rule 1 [OF refl refl False Some p [symmetric]])
      with d have "tidies a (pruneRetained E keep (deleteTurn k a))" by (rule tidies_trans)
      moreover have "pruneRetained E keep a = pruneRetained E keep (deleteTurn k a)"
        using False Some p by (subst pruneRetained.simps) (auto simp: Let_def)
      ultimately show ?thesis by simp
    qed
  qed
qed

lemma maybeDelete_tidies:
  assumes "turnNamed a (sqTurnID (tnRequest t)) = Some u" "tnCompleted u = tnCompleted t"
    and "tnProviderInFlight u = tnProviderInFlight t"
  shows "tidies a (maybeDeleteExpired now t a)"
  using assms by (auto simp: maybeDeleteExpired_def retained_def intro: deleteTurn_tidies)

lemma pruneExpired_tidies:
  assumes "keysOk a"
  shows "tidies a (pruneExpired E now a)"
proof -
  let ?f = "\<lambda>k a. case turnNamed a k of None \<Rightarrow> a
     | Some t \<Rightarrow> if tnCompleted t \<and> tnCleanupAt t \<le> now then maybeDeleteExpired now t a else a"
  have "tidies a (fold ?f ks a)" if "keysOk a" for ks a
    using that
  proof (induction ks arbitrary: a)
    case (Cons k ks)
    have d: "tidies a (?f k a)"
    proof (cases "turnNamed a k")
      case (Some t)
      with keysOk_named [OF Cons.prems Some] have "turnNamed a (sqTurnID (tnRequest t)) = Some t" by simp
      from maybeDelete_tidies [OF this] Some show ?thesis by simp
    qed simp
    from tidies_trans [OF d Cons.IH [OF keysOk_tidies [OF Cons.prems d]]] show ?case by simp
  qed simp
  with assms show ?thesis by (simp add: pruneExpired_def)
qed

lemma prune_tidies:
  assumes "keysOk a"
  shows "tidies a (prune E now a)"
proof -
  let ?a1 = "a\<lparr>adSessions := pruneRuntimeSessions E now (adSessions a)\<rparr>"
  have d1: "tidies a (pruneRetained E [] ?a1)"
    using tidies_trans [OF tidies_tables(1) pruneRetained_tidies] .
  have "tidies a (pruneExpired E now (pruneRetained E [] ?a1))"
    by (rule tidies_trans [OF d1 pruneExpired_tidies [OF keysOk_tidies [OF assms d1]]])
  then show ?thesis by (auto simp: prune_def Let_def intro: tidies_trans)
qed

section \<open>The endings\<close>

lemma turnOf_Some: "fmlookup (adHeap a) h = Some t \<Longrightarrow> turnOf a h = t"
  by (simp add: turnOf_def)

lemma putTurn_simps [simp]: "turnOf (putTurn h t a) h = t" "putTurn h t (putTurn h u a) = putTurn h t a"
  "putTurn h t (a\<lparr>adSessions := s\<rparr>) = (putTurn h t a)\<lparr>adSessions := s\<rparr>"
  "adTurns (putTurn h t a) = adTurns a" "adNext (putTurn h t a) = adNext a" "adSessions (putTurn h t a) = adSessions a"
  "fmlookup (adHeap (putTurn h t a)) i = (if i = h then Some t else fmlookup (adHeap a) i)"
  "turnOf (a\<lparr>adSessions := s\<rparr>) h = turnOf a h"
  by (simp_all add: putTurn_def turnOf_def)

lemma finishTerminal_tidies:
  "\<not> tnCompleted t \<Longrightarrow> tidies (putTurn h (endTurn E now t) a) (finishTerminal E now h (putTurn h t a))"
  by (simp add: finishTerminal_def Let_def) (rule tidies_trans [OF tidies_tables(2) pruneRetained_tidies])

text \<open>The common end: a terminal frame on a prepared turn.\<close>

lemma finish_ok:
  assumes env: "adapterEnvOk E" "cfgOk cfg" "idsOk r" and u: "coreOk E cfg r u" "tnStarted u" "quiet t u"
    and large: "length large \<le> 1000"
    and f: "frameOk r (length (tnFrames u)) (mutate (newFrame now ty summary u))"
      "frType (mutate (newFrame now ty summary u)) = ty"
    and ending: "endingOk r (tnInvocationUncertain u) (tnFrames u) (mutate (newFrame now ty summary u))"
  obtains t' where "tidies (putTurn h t' a)
      (finishTerminal E now h (putTurn h (terminalFrame E cfg now ty summary large mutate u) a))"
    "closedOk cfg r t'" "endedFrom t t'"
proof -
  have ty: "terminalType ty" using ending f(2) by (simp add: endingOk_def)
  from terminalFrame_ok [OF env u(1,2) large ty, where mutate = mutate and now = now and summary = summary, OF f] obtain z b
    where z: "terminalFrame E cfg now ty summary large mutate u = pushed u z b" "frameOk r (length (tnFrames u)) z"
      "z = mutate (newFrame now ty summary u) \<or>
       (frCompleted z = None \<and> (\<exists>m. frFailed z = Some m \<and> \<not> tfRetryable m) \<and> frType z = FtTurnFailed)" .
  have "endingOk r (tnInvocationUncertain u) (tnFrames u) z"
    using z(3) ending by (auto simp: endingOk_def terminalType_def)
  from closedOk_end [OF u(1,2) z(2) this] have "closedOk cfg r (endTurn E now (pushed u z b))" .
  moreover have "\<not> tnCompleted (pushed u z b)" using u(1) by (simp add: coreOk_def)
  from finishTerminal_tidies [OF this] have
    "tidies (putTurn h (endTurn E now (pushed u z b)) a) (finishTerminal E now h (putTurn h (pushed u z b) a))" .
  ultimately show ?thesis using that endedFrom_end [OF u(3)] z(1) by metis
qed

lemma finishFailed_ok:
  assumes env: "adapterEnvOk E" "cfgOk cfg" "idsOk r" and t: "fmlookup (adHeap a) h = Some t" "failable E cfg r t"
  obtains t' where "tidies (putTurn h t' a) (finishFailed E cfg now h reason message retryable a)"
    "closedOk cfg r t'" "endedFrom t t'"
proof -
  let ?u = "beforeTerminal E cfg now t"
  from beforeTerminal_failable [OF env t(2), of now] have u: "coreOk E cfg r ?u" "tnStarted ?u" "quiet t ?u" by auto
  let ?retry = "retryable \<and> \<not> (tnInvocationUncertain ?u \<or> tnExposedBrokeredWrite ?u \<or>
    sqToolExecutionMode (tnRequest ?u) = modeObserved)"
  let ?m = "\<lambda>f. f\<lparr>frFailed := Some \<lparr>tfReason = reason, tfMessage = message, tfResult = [], tfData = [], tfArtifacts = [],
    tfOutputRef = [], tfRetryable = ?retry\<rparr>\<rparr>"
  let ?z = "?m (newFrame now FtTurnFailed ''Foundry response failed'' ?u)"
  have "frameOk r (length (tnFrames ?u)) ?z"
    by (rule frameOk_new [of r ?u FtTurnFailed]) (use u in \<open>auto simp: newFrame_def coreOk_def\<close>)
  moreover have "endingOk r (tnInvocationUncertain ?u) (tnFrames ?u) ?z"
    using u(1) by (auto simp: endingOk_def newFrame_def terminalType_def coreOk_def)
  moreover have "finishFailed E cfg now h reason message retryable a =
    finishTerminal E now h (putTurn h (terminalFrame E cfg now FtTurnFailed ''Foundry response failed''
      ''terminal failure exceeded harness frame limit'' ?m ?u) a)"
    by (simp add: finishFailed_def turnOf_Some [OF t(1)] Let_def)
  ultimately show ?thesis
    using finish_ok [OF env u, of "''terminal failure exceeded harness frame limit''" ?m now FtTurnFailed
      "''Foundry response failed''" h a] that by (auto simp: newFrame_def)
qed

lemma finishCancelled_ok:
  assumes env: "adapterEnvOk E" "cfgOk cfg" "idsOk r" and t: "fmlookup (adHeap a) h = Some t" "openOk E cfg r t"
  obtains t' where "tidies (putTurn h t' a) (finishCancelled E cfg now h a)" "closedOk cfg r t'" "endedFrom t t'"
proof -
  let ?u = "beforeTerminal E cfg now t"
  from beforeTerminal_ok [OF env t(2)] have u: "coreOk E cfg r ?u" "tnStarted ?u" "quiet t ?u" by auto
  let ?z = "newFrame now FtTurnCancelled ''turn cancelled'' ?u"
  have "frameOk r (length (tnFrames ?u)) ?z"
    by (rule frameOk_new [of r ?u FtTurnCancelled]) (use u in \<open>auto simp: newFrame_def coreOk_def\<close>)
  moreover have "endingOk r (tnInvocationUncertain ?u) (tnFrames ?u) ?z"
    by (auto simp: endingOk_def newFrame_def terminalType_def)
  moreover have "finishCancelled E cfg now h a =
    finishTerminal E now h (putTurn h (terminalFrame E cfg now FtTurnCancelled ''turn cancelled''
      ''cancellation frame exceeded harness frame limit'' id ?u) a)"
    by (simp add: finishCancelled_def turnOf_Some [OF t(1)] Let_def)
  ultimately show ?thesis
    using finish_ok [OF env u, of "''cancellation frame exceeded harness frame limit''" id now FtTurnCancelled
      "''turn cancelled''" h a] that by (auto simp: newFrame_def)
qed

definition recorded :: "bool \<Rightarrow> turnState \<Rightarrow> turnState" where
  "recorded commitResponse t = (if commitResponse \<and> tnResponseID t \<noteq> [] then t\<lparr>tnPreviousResponse := tnResponseID t\<rparr> else t)"

lemma recordRuntimeSession_put:
  obtains s where "recordRuntimeSession E now c h (putTurn h t a) = (putTurn h (recorded c t) a)\<lparr>adSessions := s\<rparr>"
proof -
  have "\<exists>s. recordRuntimeSession E now c h (putTurn h t a) = (putTurn h (recorded c t) a)\<lparr>adSessions := s\<rparr>"
  proof (cases "tnAgentSessionID (recorded c t) = [] \<and> tnPreviousResponse (recorded c t) = []")
    case True
    then have "recordRuntimeSession E now c h (putTurn h t a) = putTurn h (recorded c t) a"
      by (simp add: recordRuntimeSession_def recorded_def [symmetric] Let_def)
    also have "\<dots> = (putTurn h (recorded c t) a)\<lparr>adSessions := adSessions (putTurn h (recorded c t) a)\<rparr>" by simp
    finally show ?thesis by blast
  next
    case False
    then show ?thesis by (auto simp: recordRuntimeSession_def recorded_def [symmetric] Let_def)
  qed
  then show ?thesis using that by blast
qed

lemma recorded_simps [simp]: "coreOk E cfg r (recorded c t) = coreOk E cfg r t" "openOk E cfg r (recorded c t) = openOk E cfg r t"
  "quiet t (recorded c t)" "tnStarted (recorded c t) = tnStarted t" "tnFrames (recorded c t) = tnFrames t"
  "tnInvocationUncertain (recorded c t) = tnInvocationUncertain t" "tnPendingTools (recorded c t) = tnPendingTools t"
  "tnBufferedResults (recorded c t) = tnBufferedResults t" "tnText (recorded c t) = tnText t"
  "tnCompleted (recorded c t) = tnCompleted t" "control (recorded c t) = control t"
  by (simp_all add: recorded_def control_def)

lemma finishCompleted_ok:
  assumes env: "adapterEnvOk E" "cfgOk cfg" "idsOk r" and t: "fmlookup (adHeap a) h = Some t" "openOk E cfg r t"
    and flushed: "tnPendingOutput t = []"
  obtains t' where "tidies (putTurn h t' a) (finishCompleted E cfg now h a)" "closedOk cfg r t'" "endedFrom t t'"
proof -
  let ?v = "beforeTerminal E cfg now t" and ?u = "recorded True (beforeTerminal E cfg now t)"
  from beforeTerminal_ok [OF env t(2)] flushed
  have v: "coreOk E cfg r ?v" "tnStarted ?v" "quiet t ?v" "tnText ?v = tnText t" "outputText (tnFrames ?v) = tnText t" by auto
  then have u: "coreOk E cfg r ?u" "tnStarted ?u" "quiet t ?u" using quiet_trans [of t ?v ?u] by auto
  let ?m = "\<lambda>f. f\<lparr>frCompleted := Some \<lparr>tcResult = tnText ?v, tcData = [], tcArtifacts = [], tcOutputRef = [],
    tcFinalEventSeq = 0, tcRetainSession = (tnAgentSessionID ?u \<noteq> [] \<or> tnResponseID ?u \<noteq> [])\<rparr>\<rparr>"
  let ?z = "?m (newFrame now FtTurnCompleted ''Foundry response completed'' ?u)"
  have "frameOk r (length (tnFrames ?u)) ?z"
    by (rule frameOk_new [of r ?u FtTurnCompleted]) (use u in \<open>auto simp: newFrame_def coreOk_def\<close>)
  moreover have "endingOk r (tnInvocationUncertain ?u) (tnFrames ?u) ?z"
    using v by (auto simp: endingOk_def newFrame_def terminalType_def)
  moreover obtain s where "finishCompleted E cfg now h a =
    finishTerminal E now h (putTurn h (terminalFrame E cfg now FtTurnCompleted ''Foundry response completed''
      ''terminal response exceeded harness frame limit'' ?m ?u) (a\<lparr>adSessions := s\<rparr>))"
  proof -
    obtain s where "recordRuntimeSession E now True h (putTurn h ?v a) = (putTurn h ?u a)\<lparr>adSessions := s\<rparr>"
      by (rule recordRuntimeSession_put)
    then show ?thesis using that by (simp add: finishCompleted_def turnOf_Some [OF t(1)] Let_def)
  qed
  ultimately show ?thesis
    using finish_ok [OF env u, of "''terminal response exceeded harness frame limit''" ?m now FtTurnCompleted
      "''Foundry response completed''" h "a\<lparr>adSessions := s\<rparr>"] that by (auto simp: newFrame_def)
qed

end
