(* ===== verification/AdapterEffect.thy ===== *)
theory AdapterEffect
  imports AdapterTidy
begin

text \<open>
  The effect of each operation of \<^verbatim>\<open>adapter.go\<close> on its turn, up to tidying: what stays, how the turn
  moves between running, waiting and ended, and which tool calls a continuation answers.
\<close>

section \<open>What every operation keeps\<close>

definition kept :: "turnState \<Rightarrow> turnState \<Rightarrow> bool" where
  "kept t t' \<longleftrightarrow> (tnCompleted t \<longrightarrow> tnCompleted t') \<and> (tnCause t' = tnCause t \<or> tnCause t = None \<and> tnCompleted t') \<and>
     sameIdentity (tnRequest t) (tnRequest t') \<and> tnRequestFingerprint t' = tnRequestFingerprint t \<and>
     tnOwnerFingerprint t' = tnOwnerFingerprint t \<and> tnInitializing t' = tnInitializing t \<and> tnInitErr t' = tnInitErr t \<and>
     prefix (tnFrames t) (tnFrames t') \<and> (tnExposedBrokeredWrite t \<longrightarrow> tnExposedBrokeredWrite t') \<and>
     (\<forall>c x. fmlookup (tnSubmittedResultDigests t) c = Some x \<longrightarrow> fmlookup (tnSubmittedResultDigests t') c = Some x)"

lemma kept_refl [simp]: "kept t t"
  by (simp add: kept_def sameIdentity_def)

lemma kept_trans [trans]: "kept t u \<Longrightarrow> kept u v \<Longrightarrow> kept t v"
  by (auto simp: kept_def sameIdentity_def intro: prefix_order.trans)

lemma quiet_kept: "quiet t t' \<Longrightarrow> kept t t'"
  by (simp add: quiet_def kept_def control_def sameIdentity_def)

lemma endedFrom_kept: "endedFrom t t' \<Longrightarrow> kept t t'"
  by (simp add: endedFrom_def kept_def)

lemma submits_kept: "submits t t' \<Longrightarrow> kept t t'"
  by (simp add: submits_def kept_def sameIdentity_def)

lemma kept_frame [simp]: "kept t (t\<lparr>tnProviderInFlight := n\<rparr>)" "kept t (t\<lparr>tnInvocationUncertain := u\<rparr>)"
  "kept t (t\<lparr>tnContinuationInFlight := c\<rparr>)" "kept t (t\<lparr>tnWaitingForTools := w\<rparr>)"
  "kept t (t\<lparr>tnAgentSessionID := s\<rparr>)" "kept t (t\<lparr>tnPreviousResponse := s\<rparr>)" "kept t (t\<lparr>tnResponseID := s\<rparr>)"
  "kept t (t\<lparr>tnFlushTimer := f\<rparr>)" "kept t (t\<lparr>tnCleanupTimer := f\<rparr>)"
  "kept t (t\<lparr>tnPendingOutput := s\<rparr>)"
  by (simp_all add: kept_def sameIdentity_def)

section \<open>The calls a continuation answers\<close>

text \<open>The provider's call ids among the inputs of a request.\<close>

definition answeredCall :: "json \<Rightarrow> string list" where
  "answeredCall j = (case j of JObj ms \<Rightarrow> (case map_of ms ''call_id'' of Some (JStr p) \<Rightarrow> [p] | _ \<Rightarrow> []) | _ \<Rightarrow> [])"

definition answeredCalls :: "responseRequest \<Rightarrow> string list" where
  "answeredCalls request = (case rrInput request of JArr xs \<Rightarrow> concat (map answeredCall xs) | _ \<Rightarrow> [])"

text \<open>Every answered call is new to the turn, occurs once, and is submitted from now on.\<close>

definition answersFresh :: "adapterEnv \<Rightarrow> startTurnRequest \<Rightarrow> turnState \<Rightarrow> responseRequest \<Rightarrow> turnState \<Rightarrow> bool" where
  "answersFresh E r t request t' \<longleftrightarrow> distinct (answeredCalls request) \<and>
     (\<forall>p \<in> set (answeredCalls request).
        fmlookup (tnSubmittedResultDigests t) (orkaToolCallID E (sqRuntimeSessionID r) (sqTurnID r) p) = None \<and>
        fmlookup (tnSubmittedResultDigests t') (orkaToolCallID E (sqRuntimeSessionID r) (sqTurnID r) p) \<noteq> None)"

lemma answeredCall_output [simp]: "answeredCall (functionOutput p out) = [p]"
  by (simp add: answeredCall_def functionOutput_def)

lemma answeredCalls_continuation:
  "answeredCalls (continuationRequest cfg t ids) = map (lookupString (tnProviderCallIDs t)) ids"
  by (simp add: answeredCalls_def continuationRequest_def comp_def)

lemma continuation_fresh:
  assumes t: "openOk E cfg r t" and s: "submits t t'"
  shows "answersFresh E r t (continuationRequest cfg t (sorted_list_of_fset (fmdom (tnPendingTools t)))) t'"
proof -
  let ?ids = "sorted_list_of_fset (fmdom (tnPendingTools t))"
  let ?key = "orkaToolCallID E (sqRuntimeSessionID r) (sqTurnID r)"
  have tools: "toolsOk E cfg t" and id: "sameIdentity r (tnRequest t)"
    using t by (simp_all add: openOk_def coreOk_def streamOk_def)
  have key: "?key (lookupString (tnProviderCallIDs t) c) = c" if "c \<in> set ?ids" for c
  proof -
    have "c |\<in>| fmdom (tnProviderCallIDs t)" using that tools by (simp add: toolsOk_def)
    then obtain p where "fmlookup (tnProviderCallIDs t) c = Some p" by (auto simp: fmlookup_dom_iff)
    with tools id show ?thesis by (simp add: toolsOk_def sameIdentity_def lookupString_def)
  qed
  have "inj_on (lookupString (tnProviderCallIDs t)) (set ?ids)" by (rule inj_on_inverseI [where g = ?key]) (rule key)
  then have "distinct (map (lookupString (tnProviderCallIDs t)) ?ids)"
    by (simp add: distinct_map sorted_list_of_fset.rep_eq)
  moreover have "fmlookup (tnSubmittedResultDigests t) c = None \<and> fmlookup (tnSubmittedResultDigests t') c \<noteq> None"
    if "c \<in> set ?ids" for c
  proof -
    have "c |\<in>| fmdom (tnPendingTools t)" using that by simp
    then obtain x where "fmlookup (tnPendingTools t) c = Some x" by (auto simp: fmlookup_dom_iff)
    then have "fmlookup (tnSubmittedResultDigests t) c = None"
      using toolsOk_disjoint [OF tools, of c] by (cases "fmlookup (tnSubmittedResultDigests t) c") auto
    moreover have "c |\<in>| fmdom (tnSubmittedResultDigests t')" using s that by (auto simp: submits_def)
    ultimately show ?thesis by (auto simp: fmlookup_dom_iff)
  qed
  ultimately show ?thesis by (auto simp: answersFresh_def answeredCalls_continuation key)
qed

section \<open>The end of a provider call\<close>

text \<open>\<open>known\<close> tells that the response of the call was received and accepted.\<close>

definition callOutcome :: "adapterEnv \<Rightarrow> adapterConfig \<Rightarrow> startTurnRequest \<Rightarrow> bool \<Rightarrow> turnState \<Rightarrow> responseRequest option \<Rightarrow>
    turnState \<Rightarrow> bool" where
  "callOutcome E cfg r known t res t' \<longleftrightarrow> kept t t' \<and> tnProviderInFlight t' = tnProviderInFlight t - 1 \<and>
     (closedOk cfg r t' \<and> res = None \<and> tnInvocationUncertain t' = (\<not> known \<and> tnInvocationUncertain t) \<or>
      openOk E cfg r t' \<and> known \<and> \<not> tnInvocationUncertain t' \<and>
        (case res of None \<Rightarrow> tnWaitingForTools t' \<or> \<not> tnWaitingForTools t
         | Some request \<Rightarrow> \<not> tnWaitingForTools t' \<and> answersFresh E r t request t'))"

lemma callOutcome_closed:
  assumes "closedOk cfg r t'" "endedFrom u t'" "kept t u" "tnProviderInFlight u = tnProviderInFlight t - 1"
    and "tnInvocationUncertain u = (\<not> known \<and> tnInvocationUncertain t)"
  shows "callOutcome E cfg r known t None t'"
  using assms kept_trans [OF assms(3) endedFrom_kept [OF assms(2)]] by (simp add: callOutcome_def endedFrom_def)

lemma endFailed_ok:
  assumes env: "adapterEnvOk E" "cfgOk cfg" "idsOk r" and t: "fmlookup (adHeap a) (vcTurn v) = Some t" "openOk E cfg r t"
  obtains t' where "tidies (putTurn (vcTurn v) t' a) (endFailed E cfg now e v a)" "callOutcome E cfg r False t None t'"
proof -
  let ?h = "vcTurn v"
  define u where "u = (if providerSessionCheckpointInvalid e (vcRequest v)
     then (releaseProvider t)\<lparr>tnContinuationInFlight := False, tnAgentSessionID := [], tnPreviousResponse := []\<rparr>
     else (releaseProvider t)\<lparr>tnContinuationInFlight := False\<rparr>)"
  define b where "b = (if providerSessionCheckpointInvalid e (vcRequest v)
     then (putTurn ?h u a)\<lparr>adSessions := fmdrop (sqRuntimeSessionID (tnRequest t)) (adSessions a)\<rparr> else putTurn ?h u a)"
  have u: "openOk E cfg r u" "kept t u" "tnProviderInFlight u = tnProviderInFlight t - 1"
    "tnInvocationUncertain u = tnInvocationUncertain t"
    using t(2) by (auto simp: u_def releaseProvider_def kept_def sameIdentity_def)
  have "\<not> tnCompleted t" using t(2) by (simp add: openOk_def coreOk_def)
  then have e: "endFailed E cfg now e v a =
      (if tnCause t = Some AeDeadline \<or> rootError e = AeDeadline
       then finishFailed E cfg now ?h ''foundry_timeout'' ''Foundry response timed out'' True b
       else if rootError e = AeCanceled then finishCancelled E cfg now ?h b
       else finishFailed E cfg now ?h ''foundry_response_failed'' (providerSafeMessage E e) (retryableProviderError e) b)"
    by (simp add: endFailed_def turnOf_Some [OF t(1)] Let_def releaseProvider_def u_def b_def)
  have b: "fmlookup (adHeap b) ?h = Some u" by (simp add: b_def)
  have failed: "\<exists>t'. tidies (putTurn ?h t' b) (finishFailed E cfg now ?h reason message retryable b) \<and>
      closedOk cfg r t' \<and> endedFrom u t'" for reason message retryable
    by (rule finishFailed_ok [OF env b openOk_failable(1) [OF u(1)], of now reason message retryable]) blast
  have cancelled: "\<exists>t'. tidies (putTurn ?h t' b) (finishCancelled E cfg now ?h b) \<and> closedOk cfg r t' \<and> endedFrom u t'"
    by (rule finishCancelled_ok [OF env b u(1), of now]) blast
  obtain t' where t': "tidies (putTurn ?h t' b) (endFailed E cfg now e v a)" "closedOk cfg r t'" "endedFrom u t'"
  proof -
    have "\<exists>t'. tidies (putTurn ?h t' b) (endFailed E cfg now e v a) \<and> closedOk cfg r t' \<and> endedFrom u t'"
      unfolding e by (simp add: failed cancelled)
    then show ?thesis using that by blast
  qed
  have "tidies (putTurn ?h t' a) (endFailed E cfg now e v a)" using t'(1) by (simp add: b_def split: if_splits)
  then show ?thesis using that callOutcome_closed [OF t'(2,3) u(2,3), of False] u(4) by simp
qed

text \<open>What a turn may become without a provider call in between.\<close>

definition advances :: "adapterEnv \<Rightarrow> adapterConfig \<Rightarrow> startTurnRequest \<Rightarrow> turnState \<Rightarrow> responseRequest option \<Rightarrow>
    turnState \<Rightarrow> bool" where
  "advances E cfg r t res t' \<longleftrightarrow> kept t t' \<and> tnProviderInFlight t' = tnProviderInFlight t \<and>
     tnInvocationUncertain t' = tnInvocationUncertain t \<and>
     (closedOk cfg r t' \<and> res = None \<or> openOk E cfg r t' \<and>
        (case res of None \<Rightarrow> tnWaitingForTools t' \<or> \<not> tnWaitingForTools t
         | Some request \<Rightarrow> \<not> tnWaitingForTools t' \<and> answersFresh E r t request t'))"

text \<open>The same for an operation that does not begin to wait.\<close>

definition progresses :: "adapterEnv \<Rightarrow> adapterConfig \<Rightarrow> startTurnRequest \<Rightarrow> turnState \<Rightarrow> responseRequest option \<Rightarrow>
    turnState \<Rightarrow> bool" where
  "progresses E cfg r t res t' \<longleftrightarrow> kept t t' \<and> tnProviderInFlight t' = tnProviderInFlight t \<and>
     tnInvocationUncertain t' = tnInvocationUncertain t \<and>
     (closedOk cfg r t' \<and> res = None \<and> tnWaitingForTools t' = tnWaitingForTools t \<or> openOk E cfg r t' \<and>
        (case res of None \<Rightarrow> tnWaitingForTools t' = tnWaitingForTools t
         | Some request \<Rightarrow> \<not> tnWaitingForTools t' \<and> answersFresh E r t request t'))"

lemma progresses_advances: "progresses E cfg r t res t' \<Longrightarrow> advances E cfg r t res t'"
  by (auto simp: progresses_def advances_def split: option.splits)

lemma progresses_closed: "closedOk cfg r t' \<Longrightarrow> endedFrom t t' \<Longrightarrow> progresses E cfg r t None t'"
  by (simp add: progresses_def endedFrom_kept) (simp add: endedFrom_def)

lemma advances_closed: "closedOk cfg r t' \<Longrightarrow> endedFrom t t' \<Longrightarrow> advances E cfg r t None t'"
  by (rule progresses_advances [OF progresses_closed])

lemma quiet_progresses:
  assumes q: "quiet t u" and a: "progresses E cfg r u res t'"
  shows "progresses E cfg r t res t'"
  using a kept_trans [OF quiet_kept [OF q]] quiet_same [OF q]
  by (auto simp: progresses_def answersFresh_def control_def split: option.splits)

lemma advances_trans:
  assumes q: "kept t u" "tnProviderInFlight u = tnProviderInFlight t" "tnInvocationUncertain u = tnInvocationUncertain t"
    "tnSubmittedResultDigests u = tnSubmittedResultDigests t" "tnWaitingForTools t \<longrightarrow> tnWaitingForTools u"
    and a: "advances E cfg r u res t'"
  shows "advances E cfg r t res t'"
  using a q kept_trans [OF q(1)] by (auto simp: advances_def answersFresh_def split: option.splits)

lemma quiet_advances:
  "quiet t u \<Longrightarrow> advances E cfg r u res t' \<Longrightarrow> advances E cfg r t res t'"
  by (rule advances_trans [OF quiet_kept]) (simp_all add: quiet_def control_def)

text \<open>A waiting turn prepares its continuation, or fails.\<close>

lemma continuation_ok:
  assumes env: "adapterEnvOk E" "cfgOk cfg" "idsOk r" and t: "openOk E cfg r t" and p: "tnPendingTools t \<noteq> fmempty"
    and e: "prepareContinuation E cfg now t = (res, t2)"
  obtains (failed) e t' where "res = Inl e"
      "tidies (putTurn h t' a) (finishFailed E cfg now h reason (message e) False (putTurn h t2 a))" "progresses E cfg r t None t'"
    | (prepared) request where "res = Inr request" "progresses E cfg r t (Some request) t2"
proof (cases res)
  case (Inl x)
  from prepareContinuation_ok [OF env(2) t p e] Inl have t2: "openOk E cfg r t2" "quiet t t2" by auto
  have h: "fmlookup (adHeap (putTurn h t2 a)) h = Some t2" by simp
  obtain t' where t': "tidies (putTurn h t' (putTurn h t2 a)) (finishFailed E cfg now h reason (message x) False (putTurn h t2 a))"
    "closedOk cfg r t'" "endedFrom t2 t'"
    by (rule finishFailed_ok [OF env h openOk_failable(1) [OF t2(1)]])
  from quiet_progresses [OF t2(2) progresses_closed [OF t'(2,3)]] t'(1) Inl show ?thesis by (intro failed) simp_all
next
  case (Inr request)
  from prepareContinuation_ok [OF env(2) t p e] Inr have t2: "openOk E cfg r t2" "submits t t2"
    "request = continuationRequest cfg t (sorted_list_of_fset (fmdom (tnPendingTools t)))" by auto
  have "progresses E cfg r t (Some request) t2"
    using t2 submits_kept [OF t2(2)] continuation_fresh [OF t t2(2)] by (simp add: progresses_def submits_def)
  with Inr show ?thesis by (rule prepared)
qed

lemma endCompleted_ok:
  assumes env: "adapterEnvOk E" "cfgOk cfg" "idsOk r" and t: "fmlookup (adHeap a) h = Some t" "openOk E cfg r t"
    and flushed: "tnPendingOutput t = []" and e: "endCompleted E cfg now h a = (res, a')"
  obtains t' where "tidies (putTurn h t' a) a'" "advances E cfg r t res t'"
proof (cases "tnPendingTools t = fmempty")
  case True
  then have r: "res = None" "a' = finishCompleted E cfg now h a" using e by (auto simp: endCompleted_def turnOf_Some [OF t(1)])
  obtain t' where "tidies (putTurn h t' a) a'" "closedOk cfg r t'" "endedFrom t t'"
    using finishCompleted_ok [OF env t flushed] r(2) by metis
  then show ?thesis using that advances_closed r(1) by blast
next
  case False
  let ?t1 = "t\<lparr>tnWaitingForTools := True\<rparr>"
  obtain s where s: "recordRuntimeSession E now False h (putTurn h ?t1 a) = (putTurn h ?t1 a)\<lparr>adSessions := s\<rparr>"
    using recordRuntimeSession_put [of E now False h ?t1 a] by (auto simp: recorded_def)
  let ?a1 = "(putTurn h ?t1 a)\<lparr>adSessions := s\<rparr>"
  have t1: "openOk E cfg r ?t1" "tnPendingTools ?t1 \<noteq> fmempty" using t(2) False by simp_all
  have waits: "advances E cfg r t res' t'" if "progresses E cfg r ?t1 res' t'" for res' t'
    by (rule advances_trans [OF _ _ _ _ _ progresses_advances [OF that]]) simp_all
  show ?thesis
  proof (cases "fmcard (tnBufferedResults t) = fmcard (tnPendingTools t)")
    case no: False
    with e False s have "res = None" "a' = ?a1" by (auto simp: endCompleted_def turnOf_Some [OF t(1)] Let_def)
    moreover have "advances E cfg r t None ?t1" using t1 by (simp add: advances_def)
    ultimately show ?thesis using that [of ?t1] by simp
  next
    case True
    obtain p t2 where p: "prepareContinuation E cfg now ?t1 = (p, t2)" by fastforce
    from e False True s p have r: "(res, a') = (case p of
        Inl x \<Rightarrow> (None, finishFailed E cfg now h ''foundry_continuation_failed'' (errText x) False (putTurn h t2 ?a1))
      | Inr request \<Rightarrow> (Some request, putTurn h t2 ?a1))"
      by (auto simp: endCompleted_def turnOf_Some [OF t(1)] Let_def split: sum.splits)
    show ?thesis
    proof (rule continuation_ok [OF env t1, where a = ?a1 and h = h and reason = "''foundry_continuation_failed''" and message = errText, OF p])
      fix x t' assume "p = Inl x" "tidies (putTurn h t' ?a1)
        (finishFailed E cfg now h ''foundry_continuation_failed'' (errText x) False (putTurn h t2 ?a1))" "progresses E cfg r ?t1 None t'"
      with r waits show ?thesis using that [of t'] by simp
    next
      fix request assume "p = Inr request" "progresses E cfg r ?t1 (Some request) t2"
      with r waits show ?thesis using that [of t2] by simp
    qed
  qed
qed

lemma callOutcome_advances:
  assumes "kept t u" "tnProviderInFlight u = tnProviderInFlight t - 1" "\<not> tnInvocationUncertain u"
    "tnSubmittedResultDigests u = tnSubmittedResultDigests t" "tnWaitingForTools u = tnWaitingForTools t"
    and "advances E cfg r u res t'"
  shows "callOutcome E cfg r True t res t'"
  using assms kept_trans [OF assms(1)] by (auto simp: advances_def callOutcome_def answersFresh_def split: option.splits)

text \<open>The response of a call, with the identifiers it brought.\<close>

definition accepted :: "invocation \<Rightarrow> turnState \<Rightarrow> turnState" where
  "accepted v t = (releaseProvider t)\<lparr>tnContinuationInFlight := False, tnInvocationUncertain := False,
     tnResponseID := (if vcResponseID v \<noteq> [] then vcResponseID v else tnResponseID t),
     tnAgentSessionID := (if vcSessionID v \<noteq> [] then vcSessionID v else tnAgentSessionID t)\<rparr>"

lemma accepted_ok:
  "openOk E cfg r t \<Longrightarrow> openOk E cfg r (accepted v t) \<and> kept t (accepted v t) \<and>
    tnProviderInFlight (accepted v t) = tnProviderInFlight t - 1 \<and> \<not> tnInvocationUncertain (accepted v t) \<and>
    tnSubmittedResultDigests (accepted v t) = tnSubmittedResultDigests t \<and>
    tnWaitingForTools (accepted v t) = tnWaitingForTools t"
  by (simp add: accepted_def releaseProvider_def kept_def sameIdentity_def)

text \<open>The status decides what becomes of a turn that has been flushed.\<close>

definition afterStatus :: "adapterEnv \<Rightarrow> adapterConfig \<Rightarrow> int \<Rightarrow> streamSummary \<Rightarrow> nat \<Rightarrow> adapterState \<Rightarrow>
    responseRequest option \<times> adapterState" where
  "afterStatus E cfg now s h a =
     (let status = terminalStatus E s in
      if status = ''completed'' then endCompleted E cfg now h a
      else if status = ''failed'' then (None, finishFailed E cfg now h ''foundry_response_failed''
        (providerFailureMessage (ssError s)) (retryableResponseFailure E (ssError s)) a)
      else if status = ''incomplete'' then (None, finishFailed E cfg now h ''foundry_response_incomplete''
        (incompleteFailureMessage (ssIncomplete s)) False a)
      else if status = ''cancelled'' \<or> status = ''canceled'' then (None, finishCancelled E cfg now h a)
      else (None, finishFailed E cfg now h ''foundry_response_invalid_terminal''
        ''Foundry response ended without a supported terminal status'' False a))"

lemma finish_progresses:
  assumes env: "adapterEnvOk E" "cfgOk cfg" "idsOk r" and t: "fmlookup (adHeap a) h = Some t" "openOk E cfg r t"
  shows "\<exists>t'. tidies (putTurn h t' a) (finishFailed E cfg now h reason message retryable a) \<and> progresses E cfg r t None t'"
    and "\<exists>t'. tidies (putTurn h t' a) (finishCancelled E cfg now h a) \<and> progresses E cfg r t None t'"
proof -
  show "\<exists>t'. tidies (putTurn h t' a) (finishFailed E cfg now h reason message retryable a) \<and> progresses E cfg r t None t'"
    by (rule finishFailed_ok [OF env t(1) openOk_failable(1) [OF t(2)]]) (use progresses_closed in blast)
  show "\<exists>t'. tidies (putTurn h t' a) (finishCancelled E cfg now h a) \<and> progresses E cfg r t None t'"
    by (rule finishCancelled_ok [OF env t]) (use progresses_closed in blast)
qed

lemma finish_advances:
  assumes env: "adapterEnvOk E" "cfgOk cfg" "idsOk r" and t: "fmlookup (adHeap a) h = Some t" "openOk E cfg r t"
  shows "\<exists>t'. tidies (putTurn h t' a) (finishFailed E cfg now h reason message retryable a) \<and> advances E cfg r t None t'"
    and "\<exists>t'. tidies (putTurn h t' a) (finishCancelled E cfg now h a) \<and> advances E cfg r t None t'"
  using finish_progresses [OF env t] progresses_advances by blast+

lemma afterStatus_ok:
  assumes env: "adapterEnvOk E" "cfgOk cfg" "idsOk r" and t: "fmlookup (adHeap a) h = Some t" "openOk E cfg r t"
    and flushed: "tnPendingOutput t = []" and e: "afterStatus E cfg now s h a = (res, a')"
  shows "\<exists>t'. tidies (putTurn h t' a) a' \<and> advances E cfg r t res t'"
proof (cases "terminalStatus E s = ''completed''")
  case True
  with e have "endCompleted E cfg now h a = (res, a')" by (simp add: afterStatus_def)
  from endCompleted_ok [OF env t flushed this] show ?thesis by metis
next
  case False
  then show ?thesis using e finish_advances [OF env t] by (auto simp: afterStatus_def Let_def split: if_splits)
qed

lemma failable_progresses:
  assumes env: "adapterEnvOk E" "cfgOk cfg" "idsOk r" and u: "openOk E cfg r u" "quiet t u"
  shows "\<exists>t'. tidies (putTurn h t' a) (finishFailed E cfg now h reason message retryable
      (putTurn h (u\<lparr>tnPendingOutput := []\<rparr>) a)) \<and> progresses E cfg r t None t'"
proof -
  let ?w = "u\<lparr>tnPendingOutput := []\<rparr>"
  have w: "fmlookup (adHeap (putTurn h ?w a)) h = Some ?w" by simp
  have q: "quiet t ?w" using quiet_trans [OF u(2)] by simp
  obtain t' where t': "tidies (putTurn h t' (putTurn h ?w a)) (finishFailed E cfg now h reason message retryable (putTurn h ?w a))"
    "closedOk cfg r t'" "endedFrom ?w t'"
    by (rule finishFailed_ok [OF env w openOk_failable(2) [OF u(1)]])
  from quiet_progresses [OF q progresses_closed [OF t'(2,3)]] t'(1) show ?thesis by auto
qed

lemma putTurn_heap: "fmlookup (adHeap (putTurn h t a)) h = Some t"
  by simp

lemma endSucceeded_eq:
  assumes h: "fmlookup (adHeap a) (vcTurn v) = Some t" and t: "\<not> tnCompleted t" "tnCause t \<noteq> Some AeDeadline"
  shows "endSucceeded E cfg now s v a = (case ensureStarted E cfg now (accepted v t) of
      (Some x, t2) \<Rightarrow> (None, finishFailed E cfg now (vcTurn v) ''foundry_event_limit'' (errText x) False (putTurn (vcTurn v) t2 a))
    | (None, t2) \<Rightarrow> (case flushOutput E cfg now t2 of
        (Some x, t3) \<Rightarrow> (None, finishFailed E cfg now (vcTurn v) ''foundry_event_limit'' (errText x) False
          (putTurn (vcTurn v) (t3\<lparr>tnPendingOutput := []\<rparr>) a))
      | (None, t3) \<Rightarrow> afterStatus E cfg now s (vcTurn v) (putTurn (vcTurn v) t3 a)))"
  unfolding endSucceeded_def afterStatus_def accepted_def releaseProvider_def Let_def turnOf_Some [OF h] putTurn_simps(2)
  using t by simp

lemma accepted_advances:
  assumes env: "adapterEnvOk E" "cfgOk cfg" "idsOk r" and t: "openOk E cfg r t" "tnCause t \<noteq> Some AeDeadline"
    and h: "fmlookup (adHeap a) (vcTurn v) = Some t" and e: "endSucceeded E cfg now s v a = (res, a')"
  shows "\<exists>t'. tidies (putTurn (vcTurn v) t' a) a' \<and> advances E cfg r (accepted v t) res t'"
proof -
  let ?h = "vcTurn v" and ?t1 = "accepted v t"
  have t1: "openOk E cfg r ?t1" using accepted_ok [OF t(1)] by simp
  obtain e2 t2 where st: "ensureStarted E cfg now ?t1 = (e2, t2)" by fastforce
  from ensureStarted_ok [OF env t1 st] have t2: "openOk E cfg r t2" "quiet ?t1 t2" by auto
  obtain e3 t3 where fl: "flushOutput E cfg now t2 = (e3, t3)" by fastforce
  from flushOutput_ok [OF env t2(1) fl] have t3: "openOk E cfg r t3" "quiet ?t1 t3" "e3 = None \<Longrightarrow> tnPendingOutput t3 = []"
    using quiet_trans [OF t2(2)] by auto
  have "\<not> tnCompleted t" using t(1) by (simp add: openOk_def coreOk_def)
  note eq = endSucceeded_eq [OF h this t(2), of E cfg now s]
  have run: "(res, a') = (case e2 of
      Some x \<Rightarrow> (None, finishFailed E cfg now ?h ''foundry_event_limit'' (errText x) False (putTurn ?h t2 a))
    | None \<Rightarrow> (case e3 of
        Some x \<Rightarrow> (None, finishFailed E cfg now ?h ''foundry_event_limit'' (errText x) False
          (putTurn ?h (t3\<lparr>tnPendingOutput := []\<rparr>) a))
      | None \<Rightarrow> afterStatus E cfg now s ?h (putTurn ?h t3 a)))"
    using e st fl unfolding eq by (cases e2; cases e3) simp_all
  show ?thesis
  proof (cases e2)
    case (Some x)
    with run have r: "res = None" "a' = finishFailed E cfg now ?h ''foundry_event_limit'' (errText x) False (putTurn ?h t2 a)"
      by simp_all
    obtain t' where "tidies (putTurn ?h t' (putTurn ?h t2 a)) a'" "advances E cfg r t2 None t'"
      using finish_advances(1) [OF env putTurn_heap t2(1)] r(2) by blast
    with r(1) quiet_advances [OF t2(2)] show ?thesis by auto
  next
    case None
    show ?thesis
    proof (cases e3)
      case (Some x)
      obtain t' where "tidies (putTurn ?h t' a) (finishFailed E cfg now ?h ''foundry_event_limit'' (errText x) False
          (putTurn ?h (t3\<lparr>tnPendingOutput := []\<rparr>) a))" "progresses E cfg r ?t1 None t'"
        using failable_progresses [OF env t3(1,2)] by blast
      with None Some run progresses_advances show ?thesis by auto
    next
      case none: None
      with None run have "afterStatus E cfg now s ?h (putTurn ?h t3 a) = (res, a')" by simp
      from afterStatus_ok [OF env putTurn_heap t3(1) t3(3) [OF none] this] obtain t'
        where "tidies (putTurn ?h t' (putTurn ?h t3 a)) a'" "advances E cfg r t3 res t'" by blast
      with quiet_advances [OF t3(2)] show ?thesis by auto
    qed
  qed
qed

lemma endSucceeded_ok:
  assumes env: "adapterEnvOk E" "cfgOk cfg" "idsOk r" and t: "fmlookup (adHeap a) (vcTurn v) = Some t" "openOk E cfg r t"
    and e: "endSucceeded E cfg now s v a = (res, a')"
  shows "\<exists>t'. tidies (putTurn (vcTurn v) t' a) a' \<and> callOutcome E cfg r True t res t'"
proof (cases "tnCause t = Some AeDeadline")
  case False
  from accepted_advances [OF env t(2) False t(1) e] obtain t'
    where "tidies (putTurn (vcTurn v) t' a) a'" "advances E cfg r (accepted v t) res t'" by blast
  moreover have "callOutcome E cfg r True t res t'"
    by (rule callOutcome_advances [OF _ _ _ _ _ calculation(2)]) (use accepted_ok [OF t(2)] in blast)+
  ultimately show ?thesis by blast
next
  case True
  let ?h = "vcTurn v"
  let ?u = "(releaseProvider t)\<lparr>tnContinuationInFlight := False, tnInvocationUncertain := False\<rparr>"
  have u: "openOk E cfg r ?u" "kept t ?u" using t(2) by (simp_all add: releaseProvider_def kept_def sameIdentity_def)
  have "\<not> tnCompleted t" using t(2) by (simp add: openOk_def coreOk_def)
  with e True have r: "res = None" "a' = finishFailed E cfg now ?h ''foundry_timeout'' ''Foundry response timed out'' True (putTurn ?h ?u a)"
    by (auto simp: endSucceeded_def turnOf_Some [OF t(1)] Let_def releaseProvider_def)
  obtain t' where t': "tidies (putTurn ?h t' (putTurn ?h ?u a)) a'" "advances E cfg r ?u None t'"
    using finish_advances(1) [OF env putTurn_heap u(1)] r(2) by blast
  have "callOutcome E cfg r True t None t'"
    by (rule callOutcome_advances [OF u(2) _ _ _ _ t'(2)]) (simp_all add: releaseProvider_def)
  with t'(1) r(1) show ?thesis by auto
qed

text \<open>A call whose turn has ended only gives its place back.\<close>

lemma endInvocation_completed:
  assumes t: "fmlookup (adHeap a) (vcTurn v) = Some t" "tnCompleted t" and e: "endInvocation E cfg now s err v a = (res, a')"
  shows "res = None \<and> a' = putTurn (vcTurn v) ((releaseProvider t)\<lparr>tnContinuationInFlight := False\<rparr>) a"
proof -
  have v: "vcTurn v' = vcTurn v" if "callResult E s err v = (x, v')" for x v'
    using that by (auto simp: callResult_def recordInvocationIDs_def Let_def split: option.splits if_splits)
  show ?thesis
    using e t(2) v by (auto simp: endInvocation_def endFailed_def endSucceeded_def turnOf_Some [OF t(1)] Let_def
        releaseProvider_def split: prod.splits option.splits)
qed

lemma endInvocation_ok:
  assumes env: "adapterEnvOk E" "cfgOk cfg" "idsOk r" and t: "fmlookup (adHeap a) (vcTurn v) = Some t" "openOk E cfg r t"
    and e: "endInvocation E cfg now s err v a = (res, a')"
  shows "\<exists>t'. tidies (putTurn (vcTurn v) t' a) a' \<and> callOutcome E cfg r (fst (callResult E s err v) = None) t res t'"
proof -
  obtain x v' where c: "callResult E s err v = (x, v')" by fastforce
  then have v: "vcTurn v' = vcTurn v"
    by (auto simp: callResult_def recordInvocationIDs_def Let_def split: option.splits if_splits)
  show ?thesis
  proof (cases x)
    case None
    with e c have "endSucceeded E cfg now s v' a = (res, a')" by (simp add: endInvocation_def)
    from endSucceeded_ok [OF env _ t(2) this] t(1) v c None show ?thesis by simp
  next
    case (Some y)
    with e c have r: "res = None" "a' = endFailed E cfg now y v' a" by (simp_all add: endInvocation_def)
    have h: "fmlookup (adHeap a) (vcTurn v') = Some t" using t(1) v by simp
    obtain t' where "tidies (putTurn (vcTurn v') t' a) a'" "callOutcome E cfg r False t None t'"
      using endFailed_ok [OF env h t(2)] r(2) by metis
    with r(1) c Some v show ?thesis by auto
  qed
qed

section \<open>Clients and timers\<close>

lemma putTurn_same:
  assumes "fmlookup (adHeap a) h = Some t"
  shows "putTurn h t a = a"
proof -
  have "fmupd h t (adHeap a) = adHeap a" by (rule fmap_ext) (auto simp: assms)
  then show ?thesis by (simp add: putTurn_def)
qed

lemma quiet_open: "quiet t t' \<Longrightarrow> openOk E cfg r t' \<Longrightarrow> progresses E cfg r t None t'"
  using quiet_kept [of t t'] by (auto simp: progresses_def quiet_def control_def)

text \<open>\<open>continueTurn\<close> once the results are staged and within the limits.\<close>

definition afterStaging :: "adapterEnv \<Rightarrow> adapterConfig \<Rightarrow> int \<Rightarrow> stagedToolResult list \<Rightarrow> nat \<Rightarrow> turnState \<Rightarrow> adapterState \<Rightarrow>
    responseRequest option \<times> adapterState" where
  "afterStaging E cfg now staged h t1 a =
     (if tnCompleted t1 \<or> staged = [] then (None, putTurn h t1 a)
      else if tnPendingTools t1 = fmempty \<or> fmcard (tnBufferedResults t1) < fmcard (tnPendingTools t1) \<or>
           \<not> tnWaitingForTools t1 then (None, putTurn h t1 a)
      else (case prepareContinuation E cfg now t1 of
          (Inl e, t2) \<Rightarrow> (None, finishFailed E cfg now h ''foundry_continuation_failed'' (providerSafeMessage E e) False
            (putTurn h t2 (putTurn h t1 a)))
        | (Inr nxt, t2) \<Rightarrow> (Some nxt, putTurn h t2 (putTurn h t1 a))))"

lemma afterStaging_ok:
  assumes env: "adapterEnvOk E" "cfgOk cfg" "idsOk r" and t1: "openOk E cfg r t1"
    and e: "afterStaging E cfg now staged h t1 a = (res, a')"
  shows "\<exists>t'. tidies (putTurn h t' a) a' \<and> progresses E cfg r t1 res t' \<and> (res \<noteq> None \<longrightarrow> tnWaitingForTools t1)"
proof (cases "tnCompleted t1 \<or> staged = [] \<or> tnPendingTools t1 = fmempty \<or>
    fmcard (tnBufferedResults t1) < fmcard (tnPendingTools t1) \<or> \<not> tnWaitingForTools t1")
  case True
  with e have "res = None \<and> a' = putTurn h t1 a" by (auto simp: afterStaging_def split: if_splits)
  with quiet_open [OF quiet_refl t1] show ?thesis by (intro exI [of _ t1]) simp
next
  case False
  let ?a1 = "putTurn h t1 a"
  obtain p t2 where p: "prepareContinuation E cfg now t1 = (p, t2)" by fastforce
  from e False p have run: "(res, a') = (case p of
      Inl x \<Rightarrow> (None, finishFailed E cfg now h ''foundry_continuation_failed'' (providerSafeMessage E x) False (putTurn h t2 ?a1))
    | Inr nxt \<Rightarrow> (Some nxt, putTurn h t2 ?a1))"
    by (auto simp: afterStaging_def split: sum.splits)
  have pending: "tnPendingTools t1 \<noteq> fmempty" using False by simp
  show ?thesis
  proof (rule continuation_ok [OF env t1 pending, where a = ?a1 and h = h and
        reason = "''foundry_continuation_failed''" and message = "providerSafeMessage E", OF p])
    fix x t' assume "p = Inl x" "tidies (putTurn h t' ?a1) (finishFailed E cfg now h ''foundry_continuation_failed''
      (providerSafeMessage E x) False (putTurn h t2 ?a1))" "progresses E cfg r t1 None t'"
    with run show ?thesis by (intro exI [of _ t']) simp
  next
    fix nxt assume "p = Inr nxt" "progresses E cfg r t1 (Some nxt) t2"
    with run False show ?thesis by (intro exI [of _ t2]) simp
  qed
qed

lemma continueTurn_cases:
  assumes e: "continueTurn E cfg now request h a = (err, res, a')" and t: "fmlookup (adHeap a) h = Some t"
  obtains (idle) "res = None" "a' = a"
  | (staged) staged where "stageResults E t (cnToolResults request) = Inr staged"
    "\<not> (afMaxBrokeredTurnBytes cfg > 0 \<and> tnBrokeredStateBytes t + sum_list (map sgSize staged) > afMaxBrokeredTurnBytes cfg)"
    "afterStaging E cfg now staged h (fold bufferResult staged t) a = (res, a')"
proof (cases "validateContinue (aeQuote E) request = None \<and> continueMatches request (tnRequest t) \<and>
    validateBrokeredResultFrames E (afMaxBrokeredBytes cfg) (cnToolResults request) = None")
  case False
  with e have "res = None \<and> a' = a" by (auto simp: continueTurn_def turnOf_Some [OF t] Let_def split: option.splits if_splits)
  then show ?thesis using idle by blast
next
  case valid: True
  show ?thesis
  proof (cases "stageResults E t (cnToolResults request)")
    case (Inl x)
    with e valid have "res = None \<and> a' = a" by (auto simp: continueTurn_def turnOf_Some [OF t] Let_def)
    then show ?thesis using idle by blast
  next
    case (Inr ss)
    show ?thesis
    proof (cases "afMaxBrokeredTurnBytes cfg > 0 \<and> tnBrokeredStateBytes t + sum_list (map sgSize ss) > afMaxBrokeredTurnBytes cfg")
      case True
      with e valid Inr have "res = None \<and> a' = a" by (auto simp: continueTurn_def turnOf_Some [OF t] Let_def)
      then show ?thesis using idle by blast
    next
      case False
      with e valid Inr have "afterStaging E cfg now ss h (fold bufferResult ss t) a = (res, a')"
        by (auto simp: continueTurn_def turnOf_Some [OF t] Let_def afterStaging_def split: if_splits prod.splits sum.splits)
      with Inr False show ?thesis by (rule staged)
    qed
  qed
qed

lemma continueTurn_ok:
  assumes env: "adapterEnvOk E" "cfgOk cfg" "idsOk r" and t: "fmlookup (adHeap a) h = Some t" "openOk E cfg r t"
    and e: "continueTurn E cfg now request h a = (err, res, a')"
  shows "\<exists>t'. tidies (putTurn h t' a) a' \<and> progresses E cfg r t res t' \<and> (res \<noteq> None \<longrightarrow> tnWaitingForTools t)"
proof (cases rule: continueTurn_cases [OF e t(1)])
  case 1
  then show ?thesis using quiet_open [OF quiet_refl t(2)] putTurn_same [OF t(1)] by (intro exI [of _ t]) simp
next
  case (2 staged)
  from bufferResults_ok [OF t(2) 2(1,2)] have t1: "openOk E cfg r (fold bufferResult staged t)" "quiet t (fold bufferResult staged t)" .
  have w: "tnWaitingForTools (fold bufferResult staged t) = tnWaitingForTools t" using t1(2) by (simp add: quiet_def control_def)
  from afterStaging_ok [OF env t1(1) 2(3)] obtain t' where "tidies (putTurn h t' a) a'"
    "progresses E cfg r (fold bufferResult staged t) res t'" "res \<noteq> None \<longrightarrow> tnWaitingForTools t" unfolding w by blast
  with quiet_progresses [OF t1(2)] show ?thesis by blast
qed

lemma stageResults_completed: "stageResults E t rs = Inr staged \<Longrightarrow> tnCompleted t \<Longrightarrow> staged = []"
  by (induction E t rs arbitrary: staged rule: stageResults.induct)
    (auto simp: Let_def split: option.splits prod.splits if_splits)

lemma continueTurn_completed:
  assumes t: "fmlookup (adHeap a) h = Some t" "tnCompleted t" and e: "continueTurn E cfg now request h a = (err, res, a')"
  shows "res = None \<and> a' = a"
proof (cases rule: continueTurn_cases [OF e t(1)])
  case 1
  then show ?thesis by simp
next
  case (2 staged)
  have "staged = []" by (rule stageResults_completed [OF 2(1) t(2)])
  with 2(3) t putTurn_same [OF t(1)] show ?thesis by (simp add: afterStaging_def)
qed

lemma cancelTurn_ok:
  assumes env: "adapterEnvOk E" "cfgOk cfg" "idsOk r" and h: "fmlookup (adTurns a) (clTurnID request) = Some h"
    and t: "fmlookup (adHeap a) h = Some t" "openOk E cfg r t" and e: "cancelTurn E cfg now request a = (err, a')"
  shows "\<exists>t'. tidies (putTurn h t' a) a' \<and> progresses E cfg r t None t'"
proof (cases "cancelRequestMatchesTurn request (tnRequest t)")
  case False
  with e h have "a' = a" by (simp add: cancelTurn_def turnOf_Some [OF t(1)])
  then show ?thesis using quiet_open [OF quiet_refl t(2)] putTurn_same [OF t(1)] by (intro exI [of _ t]) simp
next
  case True
  have "\<not> tnCompleted t" using t(2) by (simp add: openOk_def coreOk_def)
  with e h True have "a' = finishCancelled E cfg now h a" by (simp add: cancelTurn_def turnOf_Some [OF t(1)])
  with finish_progresses(2) [OF env t] show ?thesis by blast
qed

lemma flushTimer_ok:
  assumes env: "adapterEnvOk E" "cfgOk cfg" "idsOk r" and t: "fmlookup (adHeap a) h = Some t" "openOk E cfg r t"
  shows "\<exists>t'. tidies (putTurn h t' a) (flushTimer E cfg now h a) \<and> progresses E cfg r t None t'"
proof -
  let ?u = "t\<lparr>tnFlushTimer := False\<rparr>"
  have u: "openOk E cfg r ?u" "quiet t ?u" using t(2) by simp_all
  obtain e t' where f: "flushOutput E cfg now ?u = (e, t')" by fastforce
  from flushOutput_ok [OF env u(1) f] have t': "openOk E cfg r t'" "quiet t t'" using quiet_trans [OF u(2)] by auto
  have "\<not> tnCompleted t" using t(2) by (simp add: openOk_def coreOk_def)
  then have run: "flushTimer E cfg now h a = (case e of None \<Rightarrow> putTurn h t' a
    | Some x \<Rightarrow> finishFailed E cfg now h ''foundry_event_limit'' (errText x) False (putTurn h (t'\<lparr>tnPendingOutput := []\<rparr>) a))"
    using f by (cases e) (simp_all add: flushTimer_def turnOf_Some [OF t(1)] Let_def)
  show ?thesis
  proof (cases e)
    case None
    with run quiet_open [OF t'(2,1)] show ?thesis by (intro exI [of _ t']) simp
  next
    case (Some x)
    with run failable_progresses [OF env t'] show ?thesis by simp
  qed
qed

lemma watchDeadline_ok:
  assumes env: "adapterEnvOk E" "cfgOk cfg" "idsOk r" and t: "fmlookup (adHeap a) h = Some t" "openOk E cfg r t"
  shows "\<exists>t'. tidies (putTurn h t' a) (watchDeadline E cfg now h a) \<and> progresses E cfg r t None t' \<and>
    (tnCause t = Some AeDeadline \<longrightarrow> closedOk cfg r t')"
proof (cases "tnCause t = Some AeDeadline")
  case False
  then have "watchDeadline E cfg now h a = a" by (simp add: watchDeadline_def turnOf_Some [OF t(1)])
  then show ?thesis using False quiet_open [OF quiet_refl t(2)] putTurn_same [OF t(1)] by (intro exI [of _ t]) simp
next
  case True
  have "\<not> tnCompleted t" using t(2) by (simp add: openOk_def coreOk_def)
  with True have r: "watchDeadline E cfg now h a = finishFailed E cfg now h ''foundry_timeout'' ''Foundry response timed out'' True a"
    by (simp add: watchDeadline_def turnOf_Some [OF t(1)])
  show ?thesis unfolding r
    by (rule finishFailed_ok [OF env t(1) openOk_failable(1) [OF t(2)]]) (use progresses_closed in blast)
qed

end
