(* ===== verification/AdapterSystem.thy ===== *)
theory AdapterSystem
  imports AdapterEffect
begin

text \<open>
  The adapter as a transition system: \<^verbatim>\<open>startTurn\<close>, the goroutines of the provider calls, clients that
  continue and cancel, the context of a turn, its watcher and the timers, interleaved at the releases of the mutex. The
  provider is free: it may answer a call with any events and any result, only not with
  success after a callback has returned an error.
\<close>

section \<open>Goroutines\<close>

text \<open>Where the start of a turn has come to, and the start request it holds.\<close>

datatype startPhase = StartSession | StartReady | StartOver

text \<open>A provider call is queued when its goroutine is spawned and dropped when it finds its turn ended. \<open>CallEnded\<close> tells
  whether its response was received and accepted.\<close>

datatype callPhase = CallQueued | CallRunning | CallEnded bool | CallDropped

record adSystem =
  asAd :: adapterState
  asStarts :: "(nat, startTurnRequest \<times> startPhase) fmap"
  asCalls :: "(nat, invocation \<times> callPhase) fmap"
  asNextCall :: nat

definition adInit :: adSystem where
  "adInit = \<lparr>asAd = newAdapter, asStarts = fmempty, asCalls = fmempty, asNextCall = 0\<rparr>"

definition spawn :: "nat \<Rightarrow> responseRequest option \<Rightarrow> adSystem \<Rightarrow> adSystem" where
  "spawn h res S = (case res of None \<Rightarrow> S | Some request \<Rightarrow>
     S\<lparr>asCalls := fmupd (asNextCall S) (newInvocation h request, CallQueued) (asCalls S), asNextCall := Suc (asNextCall S)\<rparr>)"

definition setStart :: "nat \<Rightarrow> startTurnRequest \<Rightarrow> startPhase \<Rightarrow> adSystem \<Rightarrow> adSystem" where
  "setStart h r ph S = S\<lparr>asStarts := fmupd h (r, ph) (asStarts S)\<rparr>"

definition setCall :: "nat \<Rightarrow> invocation \<Rightarrow> callPhase \<Rightarrow> adSystem \<Rightarrow> adSystem" where
  "setCall i v p S = S\<lparr>asCalls := fmupd i (v, p) (asCalls S)\<rparr>"

section \<open>Steps\<close>

inductive adStep :: "adapterEnv \<Rightarrow> adapterConfig \<Rightarrow> adSystem \<Rightarrow> adSystem \<Rightarrow> bool" for E cfg where
  notAdmitted: "admitTurn E cfg now request (asAd S) = (adm, a) \<Longrightarrow> (\<forall>h path. adm \<noteq> AdNew h path) \<Longrightarrow>
    adStep E cfg S (S\<lparr>asAd := a\<rparr>)"
| admitted: "validateStart (aeQuote E) (aeValid E) request = None \<Longrightarrow>
    admitTurn E cfg now request (asAd S) = (AdNew h path, a) \<Longrightarrow>
    adStep E cfg S (setStart h (prepareFoundryStartRequest request)
      (if needsSession cfg (turnOf a h) then StartSession else StartReady) (S\<lparr>asAd := a\<rparr>))"
| sessionFailed: "fmlookup (asStarts S) h = Some (r, StartSession) \<Longrightarrow> failInitialization (AeProviderStart e) h (asAd S) = (over, a) \<Longrightarrow>
    adStep E cfg S (setStart h r StartOver (S\<lparr>asAd := a\<rparr>))"
| sessionMade: "fmlookup (asStarts S) h = Some (r, StartSession) \<Longrightarrow> sessionCreated sid h (asAd S) = (goes, a) \<Longrightarrow>
    adStep E cfg S (setStart h r (if goes then StartReady else StartOver) (S\<lparr>asAd := a\<rparr>))"
| started: "fmlookup (asStarts S) h = Some (r, StartReady) \<Longrightarrow> completeInit cfg r h (asAd S) = (res, a) \<Longrightarrow>
    adStep E cfg S (spawn h res (setStart h r StartOver (S\<lparr>asAd := a\<rparr>)))"
| begun: "fmlookup (asCalls S) i = Some (v, CallQueued) \<Longrightarrow> beginInvocation (vcTurn v) (asAd S) = (runs, a) \<Longrightarrow>
    adStep E cfg S (setCall i v (if runs then CallRunning else CallDropped) (S\<lparr>asAd := a\<rparr>))"
| callback: "fmlookup (asCalls S) i = Some (v, CallRunning) \<Longrightarrow> vcError v = None \<Longrightarrow>
    runCallback E cfg now ev v (turnOf (asAd S) (vcTurn v)) = (e, v', t') \<Longrightarrow>
    adStep E cfg S (setCall i (v'\<lparr>vcError := e\<rparr>) CallRunning (S\<lparr>asAd := putTurn (vcTurn v) t' (asAd S)\<rparr>))"
| ended: "fmlookup (asCalls S) i = Some (v, CallRunning) \<Longrightarrow> (vcError v \<noteq> None \<longrightarrow> e \<noteq> None) \<Longrightarrow>
    endInvocation E cfg now s e v (asAd S) = (res, a) \<Longrightarrow>
    adStep E cfg S (spawn (vcTurn v) res (setCall i v (CallEnded (fst (callResult E s e v) = None)) (S\<lparr>asAd := a\<rparr>)))"
| released: "fmlookup (asCalls S) i = Some (v, CallEnded known) \<Longrightarrow>
    fmlookup (adTurns (asAd S)) (sqTurnID (tnRequest (turnOf (asAd S) (vcTurn v)))) \<in> {None, Some (vcTurn v)} \<Longrightarrow>
    adStep E cfg S (S\<lparr>asAd := releaseTurn now (vcTurn v) (asAd S)\<rparr>)"
| continued: "fmlookup (adHeap (asAd S)) h = Some t \<Longrightarrow> continueTurn E cfg now request h (asAd S) = (err, res, a) \<Longrightarrow>
    adStep E cfg S (spawn h res (S\<lparr>asAd := a\<rparr>))"
| cancelled: "cancelTurn E cfg now request (asAd S) = (err, a) \<Longrightarrow> adStep E cfg S (S\<lparr>asAd := a\<rparr>)"
| deadline: "fmlookup (adHeap (asAd S)) h = Some t \<Longrightarrow> adStep E cfg S (S\<lparr>asAd := deadlinePassed h (asAd S)\<rparr>)"
| watched: "fmlookup (asStarts S) h = Some (r, StartOver) \<Longrightarrow> tnInitErr (turnOf (asAd S) h) = None \<Longrightarrow>
    adStep E cfg S (S\<lparr>asAd := watchDeadline E cfg now h (asAd S)\<rparr>)"
| flushed: "fmlookup (adHeap (asAd S)) h = Some t \<Longrightarrow> tnFlushTimer t \<Longrightarrow>
    adStep E cfg S (S\<lparr>asAd := flushTimer E cfg now h (asAd S)\<rparr>)"
| cleaned: "adStep E cfg S (S\<lparr>asAd := cleanupTimer now turnID (asAd S)\<rparr>)"
| looked: "getTurn E now turnID (asAd S) = (found, a) \<Longrightarrow> adStep E cfg S (S\<lparr>asAd := a\<rparr>)"

abbreviation adReachable :: "adapterEnv \<Rightarrow> adapterConfig \<Rightarrow> adSystem \<Rightarrow> bool" where
  "adReachable E cfg S \<equiv> (adStep E cfg)\<^sup>*\<^sup>* adInit S"

section \<open>The invariant\<close>

definition liveTurn :: "turnState \<Rightarrow> bool" where
  "liveTurn t \<longleftrightarrow> \<not> tnCompleted t \<and> tnInitErr t = None \<or> tnProviderInFlight t > 0"

definition liveCall :: "callPhase \<Rightarrow> bool" where
  "liveCall p \<longleftrightarrow> p = CallQueued \<or> p = CallRunning"

text \<open>The calls made for a turn.\<close>

definition callsOf :: "(nat, invocation \<times> callPhase) fmap \<Rightarrow> nat \<Rightarrow> (nat \<times> responseRequest \<times> callPhase) set" where
  "callsOf calls h = {(i, q, p). \<exists>v. fmlookup calls i = Some (v, p) \<and> vcTurn v = h \<and> vcRequest v = q}"

text \<open>What a continuation has answered stays submitted, and is never answered again.\<close>

definition answersOk :: "adapterEnv \<Rightarrow> startTurnRequest \<Rightarrow> turnState \<Rightarrow> (nat \<times> responseRequest \<times> callPhase) set \<Rightarrow> bool" where
  "answersOk E r t K \<longleftrightarrow>
     (\<forall>i q p. (i, q, p) \<in> K \<longrightarrow> distinct (answeredCalls q) \<and> (\<forall>c \<in> set (answeredCalls q).
        fmlookup (tnSubmittedResultDigests t) (orkaToolCallID E (sqRuntimeSessionID r) (sqTurnID r) c) \<noteq> None)) \<and>
     (\<forall>i q p j q' p'. (i, q, p) \<in> K \<and> (j, q', p') \<in> K \<and> i \<noteq> j \<longrightarrow> set (answeredCalls q) \<inter> set (answeredCalls q') = {})"

definition callsOk :: "turnState \<Rightarrow> startPhase \<Rightarrow> (nat \<times> responseRequest \<times> callPhase) set \<Rightarrow> bool" where
  "callsOk t ph K \<longleftrightarrow>
     (\<forall>i q p j q' p'. (i, q, p) \<in> K \<and> (j, q', p') \<in> K \<and> liveCall p \<and> liveCall p' \<longrightarrow> i = j) \<and>
     tnProviderInFlight t = (if \<exists>i q. (i, q, CallRunning) \<in> K then 1 else 0) \<and>
     (tnWaitingForTools t \<and> \<not> tnCompleted t \<longrightarrow> (\<forall>i q p. (i, q, p) \<in> K \<longrightarrow> \<not> liveCall p)) \<and>
     (ph \<noteq> StartOver \<longrightarrow> K = {} \<and> tnInitErr t = None \<and> \<not> tnWaitingForTools t) \<and> tnInitializing t = (ph \<noteq> StartOver) \<and>
     (tnInitErr t \<noteq> None \<longrightarrow> K = {} \<and> \<not> tnWaitingForTools t) \<and>
     (\<not> tnCompleted t \<longrightarrow> (\<forall>i q. (i, q, CallEnded False) \<notin> K)) \<and>
     (\<not> tnInvocationUncertain t \<longrightarrow> (\<forall>i q p. (i, q, p) \<in> K \<longrightarrow> p \<in> {CallQueued, CallEnded True, CallDropped}))"

definition handleOk :: "adapterEnv \<Rightarrow> adapterConfig \<Rightarrow> turnState \<Rightarrow> startTurnRequest \<Rightarrow> startPhase \<Rightarrow>
    (nat \<times> responseRequest \<times> callPhase) set \<Rightarrow> bool" where
  "handleOk E cfg t r ph K \<longleftrightarrow> turnOk E cfg r t \<and> idsOk r \<and> callsOk t ph K \<and> answersOk E r t K"

definition tableOk :: "adSystem \<Rightarrow> bool" where
  "tableOk S \<longleftrightarrow> keysOk (asAd S) \<and>
     (\<forall>h. fmlookup (adHeap (asAd S)) h = None \<longleftrightarrow> fmlookup (asStarts S) h = None) \<and>
     (\<forall>h t. fmlookup (adHeap (asAd S)) h = Some t \<longrightarrow> h < adNext (asAd S)) \<and>
     (\<forall>i v p. fmlookup (asCalls S) i = Some (v, p) \<longrightarrow> i < asNextCall S \<and> fmlookup (adHeap (asAd S)) (vcTurn v) \<noteq> None)"

definition sessionsOk :: "adapterConfig \<Rightarrow> adapterState \<Rightarrow> bool" where
  "sessionsOk cfg a \<longleftrightarrow>
     (\<forall>h t. fmlookup (adHeap a) h = Some t \<and> liveTurn t \<longrightarrow> fmlookup (adTurns a) (sqTurnID (tnRequest t)) = Some h) \<and>
     (\<forall>h t h' t'. fmlookup (adHeap a) h = Some t \<and> fmlookup (adHeap a) h' = Some t' \<and> liveTurn t \<and> liveTurn t' \<and> h \<noteq> h' \<longrightarrow>
        sqRuntimeSessionID (tnRequest t) \<noteq> sqRuntimeSessionID (tnRequest t')) \<and>
     (afMaxConcurrent cfg > 0 \<longrightarrow> int (fmcard (activeTurns a)) \<le> afMaxConcurrent cfg)"

definition sysOk :: "adapterEnv \<Rightarrow> adapterConfig \<Rightarrow> adSystem \<Rightarrow> bool" where
  "sysOk E cfg S \<longleftrightarrow> tableOk S \<and> sessionsOk cfg (asAd S) \<and>
     (\<forall>h t r ph. fmlookup (adHeap (asAd S)) h = Some t \<and> fmlookup (asStarts S) h = Some (r, ph) \<longrightarrow>
        handleOk E cfg t r ph (callsOf (asCalls S) h))"

end
