(* ===== verification/AdapterReach.thy ===== *)
theory AdapterReach
  imports AdapterSystem
begin

text \<open>
  The invariant of \<^verbatim>\<open>AdapterSystem\<close> is kept by every step, and every step only extends the streams.
\<close>

section \<open>The calls of a turn\<close>

definition setPhase :: "nat \<Rightarrow> callPhase \<Rightarrow> (nat \<times> responseRequest \<times> callPhase) set \<Rightarrow> (nat \<times> responseRequest \<times> callPhase) set" where
  "setPhase i p' K = {(j, q, x). if j = i then x = p' \<and> (\<exists>p. (j, q, p) \<in> K) else (j, q, x) \<in> K}"

lemma in_setPhase [simp]:
  "(j, q, x) \<in> setPhase i p' K \<longleftrightarrow> (if j = i then x = p' \<and> (\<exists>p. (j, q, p) \<in> K) else (j, q, x) \<in> K)"
  by (simp add: setPhase_def)

definition spawned :: "nat \<Rightarrow> responseRequest option \<Rightarrow> (nat \<times> responseRequest \<times> callPhase) set" where
  "spawned n res = (case res of None \<Rightarrow> {} | Some q \<Rightarrow> {(n, q, CallQueued)})"

lemma in_spawned [simp]: "(j, q, x) \<in> spawned n res \<longleftrightarrow> res = Some q \<and> j = n \<and> x = CallQueued"
  by (auto simp: spawned_def split: option.splits)

lemma callsOf_setCall:
  assumes "fmlookup (asCalls S) i = Some (v, p)" "vcTurn v' = vcTurn v" "vcRequest v' = vcRequest v"
  shows "callsOf (asCalls (setCall i v' p' S)) h = setPhase i p' (callsOf (asCalls S) h)"
  using assms by (auto simp: callsOf_def setCall_def split: if_splits)

lemma newInvocation_simps [simp]: "vcTurn (newInvocation h q) = h" "vcRequest (newInvocation h q) = q"
  by (simp_all add: newInvocation_def)

lemma callsOf_spawn:
  assumes "\<And>i v p. fmlookup (asCalls S) i = Some (v, p) \<Longrightarrow> i < asNextCall S"
  shows "callsOf (asCalls (spawn h res S)) h' = callsOf (asCalls S) h' \<union> (if h' = h then spawned (asNextCall S) res else {})"
proof -
  have "fmlookup (asCalls S) (asNextCall S) = None"
    using assms [of "asNextCall S"] by (cases "fmlookup (asCalls S) (asNextCall S)") auto
  then show ?thesis by (auto simp: callsOf_def spawn_def split: option.splits if_splits) (metis newInvocation_simps(2))
qed

section \<open>How the calls of a turn change\<close>

lemma answersOk_phase: "answersOk E r t K \<Longrightarrow> answersOk E r t (setPhase i p' K)"
  by (simp add: answersOk_def split: if_splits) blast

lemma answersOk_grow:
  assumes K: "answersOk E r t K"
    and mono: "\<And>c x. fmlookup (tnSubmittedResultDigests t) c = Some x \<Longrightarrow> fmlookup (tnSubmittedResultDigests t') c = Some x"
    and new: "\<And>q. res = Some q \<Longrightarrow> answersFresh E r t q t'" and n: "\<And>q p. (n, q, p) \<notin> K"
  shows "answersOk E r t' (K \<union> spawned n res)"
proof -
  let ?key = "orkaToolCallID E (sqRuntimeSessionID r) (sqTurnID r)"
  have old: "distinct (answeredCalls q)" "c \<in> set (answeredCalls q) \<Longrightarrow> fmlookup (tnSubmittedResultDigests t) (?key c) \<noteq> None"
    if "(i, q, p) \<in> K" for i q p c using K that unfolding answersOk_def by blast+
  have kept: "fmlookup (tnSubmittedResultDigests t') (?key c) \<noteq> None" if "(i, q, p) \<in> K" "c \<in> set (answeredCalls q)" for i q p c
    using old(2) [OF that] mono by fastforce
  have apart: "set (answeredCalls q) \<inter> set (answeredCalls q') = {}" if "(i, q, p) \<in> K" "(j, q', p') \<in> K" "i \<noteq> j" for i q p j q' p'
    using K that unfolding answersOk_def by blast
  have fresh: "set (answeredCalls q) \<inter> set (answeredCalls q') = {}" if "(i, q, p) \<in> K" "res = Some q'" for i q p q'
    using old(2) [OF that(1)] new [OF that(2)] by (fastforce simp: answersFresh_def)
  show ?thesis
    unfolding answersOk_def Un_iff in_spawned
    using old(1) kept apart fresh new n by (auto simp: answersFresh_def) blast+
qed

lemma callsOkD:
  assumes "callsOk t ph K"
  shows "(i, q, p) \<in> K \<Longrightarrow> (j, q', p') \<in> K \<Longrightarrow> liveCall p \<Longrightarrow> liveCall p' \<Longrightarrow> i = j"
    and "tnProviderInFlight t = (if \<exists>i q. (i, q, CallRunning) \<in> K then 1 else 0)"
    and "tnWaitingForTools t \<Longrightarrow> \<not> tnCompleted t \<Longrightarrow> (i, q, p) \<in> K \<Longrightarrow> \<not> liveCall p"
    and "ph \<noteq> StartOver \<Longrightarrow> K = {} \<and> tnInitErr t = None \<and> \<not> tnWaitingForTools t"
    and "tnInitializing t = (ph \<noteq> StartOver)"
    and "tnInitErr t \<noteq> None \<Longrightarrow> K = {} \<and> \<not> tnWaitingForTools t"
    and "\<not> tnCompleted t \<Longrightarrow> (i, q, CallEnded False) \<notin> K"
    and "\<not> tnInvocationUncertain t \<Longrightarrow> (i, q, p) \<in> K \<Longrightarrow> p \<in> {CallQueued, CallEnded True, CallDropped}"
  using assms unfolding callsOk_def by blast+

lemma liveCall_simps [simp]: "liveCall CallQueued" "liveCall CallRunning" "\<not> liveCall (CallEnded k)" "\<not> liveCall CallDropped"
  by (simp_all add: liveCall_def)

lemma callsOkI:
  assumes "\<And>i q p j q' p'. (i, q, p) \<in> K \<Longrightarrow> (j, q', p') \<in> K \<Longrightarrow> liveCall p \<Longrightarrow> liveCall p' \<Longrightarrow> i = j"
    and "tnProviderInFlight t = (if \<exists>i q. (i, q, CallRunning) \<in> K then 1 else 0)"
    and "\<And>i q p. tnWaitingForTools t \<Longrightarrow> \<not> tnCompleted t \<Longrightarrow> (i, q, p) \<in> K \<Longrightarrow> \<not> liveCall p"
    and "ph \<noteq> StartOver \<Longrightarrow> K = {} \<and> tnInitErr t = None \<and> \<not> tnWaitingForTools t"
    and "tnInitializing t = (ph \<noteq> StartOver)"
    and "tnInitErr t \<noteq> None \<Longrightarrow> K = {} \<and> \<not> tnWaitingForTools t"
    and "\<And>i q. \<not> tnCompleted t \<Longrightarrow> (i, q, CallEnded False) \<notin> K"
    and "\<And>i q p. \<not> tnInvocationUncertain t \<Longrightarrow> (i, q, p) \<in> K \<Longrightarrow> p \<in> {CallQueued, CallEnded True, CallDropped}"
  shows "callsOk t ph K"
  unfolding callsOk_def using assms by blast

lemma closed_completed: "closedOk cfg r t \<Longrightarrow> tnCompleted t"
  by (simp add: closedOk_def)

lemma open_completed: "openOk E cfg r t \<Longrightarrow> \<not> tnCompleted t"
  by (simp add: openOk_def coreOk_def)

text \<open>An operation that progresses, with the call it may spawn.\<close>

lemma callsOk_progress:
  assumes K: "callsOk t ph K" and open_t: "\<not> tnCompleted t" and p: "progresses E cfg r t res t'"
    and spawns: "res \<noteq> None \<Longrightarrow> tnWaitingForTools t"
  shows "callsOk t' ph (K \<union> spawned n res)"
proof (cases res)
  case None
  then have t': "tnWaitingForTools t' = tnWaitingForTools t" "tnProviderInFlight t' = tnProviderInFlight t"
    "tnInvocationUncertain t' = tnInvocationUncertain t" "tnInitializing t' = tnInitializing t" "tnInitErr t' = tnInitErr t"
    using p by (auto simp: progresses_def kept_def)
  show ?thesis unfolding None spawned_def option.case Un_empty_right
    by (rule callsOkI) (use callsOkD [OF K] t' open_t in \<open>auto simp: t'\<close>)
next
  case (Some request)
  have w: "tnWaitingForTools t" using spawns Some by simp
  have dead: "(i, q, x) \<in> K \<Longrightarrow> \<not> liveCall x" for i q x using callsOkD(3) [OF K w open_t] .
  have dead': "(i, q, CallRunning) \<notin> K" for i q using dead [of i q CallRunning] by auto
  have ph: "ph = StartOver" "tnInitErr t = None" using callsOkD(4,6) [OF K] w by blast+
  have t': "\<not> tnWaitingForTools t'" "tnProviderInFlight t' = 0"
    "tnInvocationUncertain t' = tnInvocationUncertain t" "\<not> tnInitializing t'" "tnInitErr t' = None"
    using p Some callsOkD(2,5) [OF K] dead' ph by (auto simp: progresses_def kept_def)
  show ?thesis
    by (rule callsOkI) (use callsOkD(7,8) [OF K] t' open_t dead dead' ph Some in \<open>auto, blast?\<close>)
qed

text \<open>The end of a running call.\<close>

lemma callsOk_end:
  assumes K: "callsOk t ph K" and open_t: "\<not> tnCompleted t" and i: "(i, q, CallRunning) \<in> K"
    and o: "callOutcome E cfg r known t res t'" and n: "\<And>q p. (n, q, p) \<notin> K" 
  shows "callsOk t' ph (setPhase i (CallEnded known) K \<union> spawned n res)"
proof -
  have only: "j = i" if "(j, q', p) \<in> K" "liveCall p" for j q' p using callsOkD(1) [OF K that(1) i that(2)] by simp
  have rest: "\<not> liveCall p" if "(j, q', p) \<in> K" "j \<noteq> i" for j q' p using only that by blast
  have ph: "ph = StartOver" "tnInitErr t = None" using callsOkD(4,6) [OF K] i by blast+
  have one: "tnProviderInFlight t = 1" using callsOkD(2) [OF K] i by auto
  have unc: "tnInvocationUncertain t" using callsOkD(8) [OF K _ i] by auto
  have t': "tnProviderInFlight t' = 0" "tnInitErr t' = None" "\<not> tnInitializing t'"
    using o one ph callsOkD(5) [OF K] by (auto simp: callOutcome_def kept_def)
  have known: "known" if "\<not> tnInvocationUncertain t'" using o that unc by (auto simp: callOutcome_def)
  have closed: "known" if "\<not> tnCompleted t'" using o that closed_completed by (auto simp: callOutcome_def)
  have waits: "\<not> tnWaitingForTools t'" if "\<not> tnCompleted t'" "res \<noteq> None"
    using o that closed_completed by (auto simp: callOutcome_def split: option.splits)
  have good: "p \<in> {CallQueued, CallEnded True, CallDropped}" if "(j, q', p) \<in> K" "j \<noteq> i" for j q' p
    using rest [OF that] callsOkD(7) [OF K open_t, of j q'] that(1) by (cases p) (auto simp: liveCall_def, metis (full_types))
  have ended: "(j, q', CallEnded False) \<notin> K" for j q' using callsOkD(7) [OF K open_t] .
  have quiet: "\<not> liveCall p" if "(j, q', p) \<in> setPhase i (CallEnded known) K" for j q' p
    using that rest by (auto split: if_splits)
  show ?thesis
  proof (rule callsOkI, goal_cases)
    case (1 i' q1 p j q' p')
    with quiet show ?case by (auto simp del: in_setPhase)
  next
    case 2
    have "(j, q', CallRunning) \<notin> setPhase i (CallEnded known) K" for j q' using quiet [of j q' CallRunning] by auto
    with t'(1) show ?case by auto
  next
    case (3 i' q1 p)
    with quiet waits show ?case by (auto simp del: in_setPhase)
  next
    case (7 i' q1)
    with closed ended show ?case by (auto split: if_splits)
  next
    case (8 i' q1 p)
    with known good show ?case by (auto split: if_splits)
  qed (use t' ph in auto)
qed

lemma callsOf_unique: "(i, q, p) \<in> callsOf calls h \<Longrightarrow> (i, q', p') \<in> callsOf calls h' \<Longrightarrow> q' = q \<and> p' = p \<and> h' = h"
  by (auto simp: callsOf_def)

text \<open>Beginning, dropping, and the end of a call whose turn is over.\<close>

lemma callsOk_begin:
  assumes K: "callsOk t ph K" and i: "(i, q, CallQueued) \<in> K" and open_t: "\<not> tnCompleted t"
    and u: "\<And>q' p. (i, q', p) \<in> K \<Longrightarrow> p = CallQueued"
    and t': "t' = t\<lparr>tnProviderInFlight := Suc (tnProviderInFlight t), tnInvocationUncertain := True\<rparr>"
  shows "callsOk t' ph (setPhase i CallRunning K)"
proof -
  have only: "j = i" if "(j, q', p) \<in> K" "liveCall p" for j q' p using callsOkD(1) [OF K that(1) i that(2)] by simp
  have w: "\<not> tnWaitingForTools t" using callsOkD(3) [OF K _ open_t i] by auto
  have ph: "ph = StartOver" "tnInitErr t = None" using callsOkD(4,6) [OF K] i by blast+
  have none: "(j, q', CallRunning) \<notin> K" for j q' using only [of j q' CallRunning] u [of q' CallRunning] by auto
  have zero: "tnProviderInFlight t = 0" using callsOkD(2) [OF K] none by auto
  show ?thesis
  proof (rule callsOkI, goal_cases)
    case (1 i' q1 p j q' p')
    with only show ?case by (auto split: if_splits)
  next
    case 2
    show ?case using zero none i by (auto simp: t')
  next
    case (7 i' q1)
    with callsOkD(7) [OF K open_t] show ?case by (auto split: if_splits)
  qed (use w ph callsOkD(5) [OF K] t' in auto)
qed

lemma callsOk_drop:
  assumes K: "callsOk t ph K" and i: "(i, q, CallQueued) \<in> K" and over: "tnCompleted t"
    and u: "\<And>q' p. (i, q', p) \<in> K \<Longrightarrow> p = CallQueued"
  shows "callsOk t ph (setPhase i CallDropped K)"
proof (rule callsOkI, goal_cases)
  case (1 i' q1 p j q' p')
  with callsOkD(1) [OF K] show ?case by (auto split: if_splits)
next
  case 2
  have "(j, q', CallRunning) \<in> setPhase i CallDropped K \<longleftrightarrow> (j, q', CallRunning) \<in> K" for j q'
    using u [of q' CallRunning] by auto
  with callsOkD(2) [OF K] show ?case by presburger
next
  case (8 i' q1 p)
  with callsOkD(8) [OF K] show ?case by (auto split: if_splits)
qed (use callsOkD(4-6) [OF K] over i in auto)

lemma callsOk_late:
  assumes K: "callsOk t ph K" and i: "(i, q, CallRunning) \<in> K" and over: "tnCompleted t"
    and t': "t' = t\<lparr>tnProviderInFlight := tnProviderInFlight t - 1, tnContinuationInFlight := c\<rparr>"
  shows "callsOk t' ph (setPhase i (CallEnded known) K)"
proof -
  have only: "j = i" if "(j, q', p) \<in> K" "liveCall p" for j q' p using callsOkD(1) [OF K that(1) i that(2)] by simp
  have ph: "ph = StartOver" "tnInitErr t = None" using callsOkD(4,6) [OF K] i by blast+
  have one: "tnProviderInFlight t = 1" using callsOkD(2) [OF K] i by auto
  have unc: "tnInvocationUncertain t" using callsOkD(8) [OF K _ i] by auto
  show ?thesis
  proof (rule callsOkI, goal_cases)
    case (1 i' q1 p j q' p')
    with callsOkD(1) [OF K] show ?case by (auto split: if_splits)
  next
    case 2
    have "(j, q', CallRunning) \<notin> setPhase i (CallEnded known) K" for j q' using only [of j q' CallRunning] by auto
    with one show ?case by (auto simp: t')
  qed (use ph unc over callsOkD(5) [OF K] t' in auto)
qed

section \<open>A step that concerns one turn\<close>

text \<open>Like tidying, but any turn that is not live may leave the map.\<close>

definition settles :: "adapterState \<Rightarrow> adapterState \<Rightarrow> bool" where
  "settles a a' \<longleftrightarrow> adNext a' = adNext a \<and>
     (\<forall>h. fmlookup (adHeap a) h = None \<longrightarrow> fmlookup (adHeap a') h = None) \<and>
     (\<forall>h t. fmlookup (adHeap a) h = Some t \<longrightarrow> (\<exists>b. fmlookup (adHeap a') h = Some (t\<lparr>tnCleanupTimer := b\<rparr>))) \<and>
     (\<forall>k. fmlookup (adTurns a') k = fmlookup (adTurns a) k \<or>
        fmlookup (adTurns a') k = None \<and> (\<exists>t. turnNamed a k = Some t \<and> \<not> liveTurn t))"

lemma retained_dead: "retained t \<Longrightarrow> \<not> liveTurn t"
  by (simp add: retained_def liveTurn_def)

lemma tidies_settles: "tidies a a' \<Longrightarrow> settles a a'"
  unfolding tidies_def settles_def using retained_dead by blast

lemma settles_some:
  assumes "settles a a'" "fmlookup (adHeap a) h = Some t"
  obtains b where "fmlookup (adHeap a') h = Some (t\<lparr>tnCleanupTimer := b\<rparr>)"
  using assms unfolding settles_def by blast

lemma settles_back:
  assumes "settles a a'" "fmlookup (adHeap a') h = Some t'"
  obtains t b where "fmlookup (adHeap a) h = Some t" "t' = t\<lparr>tnCleanupTimer := b\<rparr>"
proof (cases "fmlookup (adHeap a) h")
  case None
  with assms show ?thesis unfolding settles_def by (metis option.distinct(1))
next
  case (Some t)
  from settles_some [OF assms(1) Some] obtain b where "fmlookup (adHeap a') h = Some (t\<lparr>tnCleanupTimer := b\<rparr>)" .
  then have "t' = t\<lparr>tnCleanupTimer := b\<rparr>" using assms(2) by simp
  with Some show ?thesis by (rule that)
qed

lemma settles_kept: "settles a a' \<Longrightarrow> fmlookup (adTurns a') k = Some h \<Longrightarrow> fmlookup (adTurns a) k = Some h"
  unfolding settles_def by (metis option.distinct(1))

lemma settles_live:
  assumes s: "settles a a'" and t: "turnNamed a k = Some t" "liveTurn t"
  shows "fmlookup (adTurns a') k = fmlookup (adTurns a) k"
proof -
  have "fmlookup (adTurns a') k = fmlookup (adTurns a) k \<or>
      fmlookup (adTurns a') k = None \<and> (\<exists>t. turnNamed a k = Some t \<and> \<not> liveTurn t)"
    using s unfolding settles_def by blast
  with t show ?thesis by auto
qed

lemma keysOk_settles:
  assumes a: "keysOk a" and s: "settles a a'"
  shows "keysOk a'"
  unfolding keysOk_def
proof (intro allI impI)
  fix k h
  assume "fmlookup (adTurns a') k = Some h"
  from keysOkD [OF a settles_kept [OF s this]] obtain x
    where x: "fmlookup (adHeap a) h = Some x" "sqTurnID (tnRequest x) = k" .
  from settles_some [OF s x(1)] obtain b where "fmlookup (adHeap a') h = Some (x\<lparr>tnCleanupTimer := b\<rparr>)" .
  with x(2) show "\<exists>t. fmlookup (adHeap a') h = Some t \<and> sqTurnID (tnRequest t) = k" by simp
qed

lemma keysOk_put:
  assumes a: "keysOk a" and t: "fmlookup (adHeap a) h = Some t" "sameIdentity (tnRequest t) (tnRequest t')"
  shows "keysOk (putTurn h t' a)"
  unfolding keysOk_def
proof (intro allI impI)
  fix k i
  assume "fmlookup (adTurns (putTurn h t' a)) k = Some i"
  then have "fmlookup (adTurns a) k = Some i" by simp
  from keysOkD [OF a this] obtain x where "fmlookup (adHeap a) i = Some x" "sqTurnID (tnRequest x) = k" .
  with t show "\<exists>u. fmlookup (adHeap (putTurn h t' a)) i = Some u \<and> sqTurnID (tnRequest u) = k"
    by (cases "i = h") (auto simp: sameIdentity_def)
qed

text \<open>What a step does to every turn that exists.\<close>

text \<open>The context of an open turn ends only at its deadline.\<close>

definition causeOk :: "turnState \<Rightarrow> bool" where
  "causeOk t \<longleftrightarrow> (\<not> tnCompleted t \<and> tnInitErr t = None \<longrightarrow> tnCause t = None \<or> tnCause t = Some AeDeadline)"

definition grows :: "turnState \<Rightarrow> turnState \<Rightarrow> bool" where
  "grows t t' \<longleftrightarrow> (causeOk t \<longrightarrow> causeOk t') \<and> (tnCause t \<noteq> None \<longrightarrow> tnCause t' = tnCause t) \<and>
     (\<not> tnInitializing t \<longrightarrow> \<not> tnInitializing t' \<and> tnInitErr t' = tnInitErr t) \<and> sameIdentity (tnRequest t) (tnRequest t') \<and> tnRequestFingerprint t' = tnRequestFingerprint t \<and>
     tnOwnerFingerprint t' = tnOwnerFingerprint t \<and> prefix (tnFrames t) (tnFrames t') \<and>
     (tnExposedBrokeredWrite t \<longrightarrow> tnExposedBrokeredWrite t') \<and>
     (\<forall>c x. fmlookup (tnSubmittedResultDigests t) c = Some x \<longrightarrow> fmlookup (tnSubmittedResultDigests t') c = Some x) \<and>
     (tnCompleted t \<longrightarrow> tnCompleted t' \<and> tnFrames t' = tnFrames t)"

definition adGrows :: "adapterState \<Rightarrow> adapterState \<Rightarrow> bool" where
  "adGrows a a' \<longleftrightarrow> (\<forall>h t. fmlookup (adHeap a) h = Some t \<longrightarrow> (\<exists>t'. fmlookup (adHeap a') h = Some t' \<and> grows t t')) \<and>
     (\<forall>h t. fmlookup (adHeap a) h = None \<and> fmlookup (adHeap a') h = Some t \<longrightarrow> causeOk t)"

lemma grows_refl [simp]: "grows t t"
  by (simp add: grows_def sameIdentity_def)

lemma grows_trans: "grows t u \<Longrightarrow> grows u v \<Longrightarrow> grows t v"
  by (auto simp: grows_def sameIdentity_def intro: prefix_order.trans)

lemma grows_timer [simp]: "grows t (u\<lparr>tnCleanupTimer := b\<rparr>) = grows t u"
  by (simp add: grows_def causeOk_def)

lemma kept_grows: "kept t t' \<Longrightarrow> \<not> tnCompleted t \<Longrightarrow> grows t t'"
  by (auto simp: grows_def kept_def causeOk_def)

lemma settles_old: "settles a a' \<Longrightarrow> fmlookup (adHeap a) h = None \<Longrightarrow> fmlookup (adHeap a') h = None"
  unfolding settles_def by blast

lemma adGrows_settles: "settles a a' \<Longrightarrow> adGrows a a'"
  unfolding adGrows_def by (metis grows_refl grows_timer settles_some settles_old option.distinct(1))

lemma adGrows_put:
  assumes "settles (putTurn h t' a) a'" "fmlookup (adHeap a) h = Some t" "grows t t'"
  shows "adGrows a a'"
  unfolding adGrows_def
proof (intro conjI allI impI)
  fix i u assume "fmlookup (adHeap a) i = None \<and> fmlookup (adHeap a') i = Some u"
  then show "causeOk u" using settles_old [OF assms(1), of i] assms(2) by (cases "i = h") auto
next
  fix i u assume u: "fmlookup (adHeap a) i = Some u"
  let ?u = "if i = h then t' else u"
  have "fmlookup (adHeap (putTurn h t' a)) i = Some ?u" using u by simp
  from settles_some [OF assms(1) this] obtain b where "fmlookup (adHeap a') i = Some (?u\<lparr>tnCleanupTimer := b\<rparr>)" .
  moreover have "grows u ?u" using u assms(2,3) by auto
  ultimately show "\<exists>t'. fmlookup (adHeap a') i = Some t' \<and> grows u t'" by (metis grows_timer)
qed

lemma frame_timer [simp]: "liveTurn (t\<lparr>tnCleanupTimer := b\<rparr>) = liveTurn t" "activeTurn (t\<lparr>tnCleanupTimer := b\<rparr>) = activeTurn t"
  "handleOk E cfg (t\<lparr>tnCleanupTimer := b\<rparr>) r ph K = handleOk E cfg t r ph K"
  by (simp_all add: liveTurn_def activeTurn_def handleOk_def turnOk_def closedOk_def callsOk_def answersOk_def)

lemma in_activeTurns: "k |\<in>| fmdom (activeTurns a) \<longleftrightarrow>
    (\<exists>h t. fmlookup (adTurns a) k = Some h \<and> fmlookup (adHeap a) h = Some t \<and> activeTurn t)"
  by (auto simp: activeTurns_def turnNamed_def fmlookup_dom_iff split: option.splits)

lemma sessionsOk_put:
  assumes ok: "sessionsOk cfg a" "keysOk a" and t: "fmlookup (adHeap a) h = Some t"
    and s: "settles (putTurn h t' a) a'" and id: "sameIdentity (tnRequest t) (tnRequest t')"
    and live: "liveTurn t' \<Longrightarrow> liveTurn t" and act: "activeTurn t' \<Longrightarrow> activeTurn t"
  shows "sessionsOk cfg a'"
proof -
  have origin: "\<exists>u. fmlookup (adHeap a) i = Some u \<and> (liveTurn v \<longrightarrow> liveTurn u) \<and> (activeTurn v \<longrightarrow> activeTurn u) \<and>
      sqTurnID (tnRequest v) = sqTurnID (tnRequest u) \<and> sqRuntimeSessionID (tnRequest v) = sqRuntimeSessionID (tnRequest u)"
    if v: "fmlookup (adHeap a') i = Some v" for i v
  proof -
    from settles_back [OF s v] obtain w b where w: "fmlookup (adHeap (putTurn h t' a)) i = Some w" "v = w\<lparr>tnCleanupTimer := b\<rparr>" .
    show ?thesis using w t id live act by (cases "i = h") (auto simp: sameIdentity_def)
  qed
  have named: "fmlookup (adTurns a') (sqTurnID (tnRequest v)) = Some i" if v: "fmlookup (adHeap a') i = Some v" "liveTurn v" for i v
  proof -
    from origin [OF v(1)] v(2) obtain u where u: "fmlookup (adHeap a) i = Some u" "liveTurn u"
      "sqTurnID (tnRequest v) = sqTurnID (tnRequest u)" by blast
    then have k: "fmlookup (adTurns a) (sqTurnID (tnRequest v)) = Some i" using ok(1) by (auto simp: sessionsOk_def)
    from settles_back [OF s v(1)] obtain w b where w: "fmlookup (adHeap (putTurn h t' a)) i = Some w" "v = w\<lparr>tnCleanupTimer := b\<rparr>" .
    then have "turnNamed (putTurn h t' a) (sqTurnID (tnRequest v)) = Some w" using k by (simp add: turnNamed_Some)
    moreover have "liveTurn w" using v(2) w(2) by simp
    ultimately show ?thesis using settles_live [OF s] k by simp
  qed
  have "fmdom (activeTurns a') |\<subseteq>| fmdom (activeTurns a)"
  proof
    fix k assume "k |\<in>| fmdom (activeTurns a')"
    then obtain i v where v: "fmlookup (adTurns a') k = Some i" "fmlookup (adHeap a') i = Some v" "activeTurn v"
      by (auto simp: in_activeTurns)
    have "fmlookup (adTurns a) k = Some i" using settles_kept [OF s v(1)] by simp
    with origin [OF v(2)] v(3) show "k |\<in>| fmdom (activeTurns a)" by (auto simp: in_activeTurns)
  qed
  then have "fmcard (activeTurns a') \<le> fmcard (activeTurns a)" by (simp add: fmcard_def fcard_mono)
  moreover have "sqRuntimeSessionID (tnRequest v) \<noteq> sqRuntimeSessionID (tnRequest v')"
    if v: "fmlookup (adHeap a') i = Some v" "fmlookup (adHeap a') i' = Some v'" "liveTurn v" "liveTurn v'" "i \<noteq> i'" for i v i' v'
    using origin [OF v(1)] origin [OF v(2)] v(3-5) ok(1) by (metis sessionsOk_def)
  ultimately show ?thesis using ok(1) named unfolding sessionsOk_def by (meson of_nat_mono order.trans)
qed

lemma sysOk_turn:
  assumes S: "sysOk E cfg S" and t: "fmlookup (adHeap (asAd S)) h = Some t" and r: "fmlookup (asStarts S) h = Some (r, ph)"
    and s: "settles (putTurn h t' (asAd S)) (asAd S')" and g: "grows t t'"
    and live: "liveTurn t' \<Longrightarrow> liveTurn t" and act: "activeTurn t' \<Longrightarrow> activeTurn t"
    and starts: "\<And>i. fmlookup (asStarts S') i = (if i = h then Some (r, ph') else fmlookup (asStarts S) i)"
    and calls: "\<And>i. i \<noteq> h \<Longrightarrow> callsOf (asCalls S') i = callsOf (asCalls S) i"
    and ids: "\<And>i v p. fmlookup (asCalls S') i = Some (v, p) \<Longrightarrow>
      i < asNextCall S' \<and> fmlookup (adHeap (asAd S)) (vcTurn v) \<noteq> None"
    and ok: "handleOk E cfg t' r ph' (callsOf (asCalls S') h)"
  shows "sysOk E cfg S' \<and> adGrows (asAd S) (asAd S')"
proof
  have id: "sameIdentity (tnRequest t) (tnRequest t')" using g by (simp add: grows_def)
  have tab: "tableOk S" and ses: "sessionsOk cfg (asAd S)" using S by (simp_all add: sysOk_def)
  then have keys: "keysOk (asAd S)" by (simp add: tableOk_def)
  have none: "fmlookup (adHeap (asAd S')) i = None \<longleftrightarrow> fmlookup (adHeap (asAd S)) i = None" for i
  proof (cases "fmlookup (adHeap (asAd S)) i")
    case None
    then have "fmlookup (adHeap (putTurn h t' (asAd S))) i = None" using t by auto
    with s None show ?thesis by (simp add: settles_def)
  next
    case (Some u)
    then have "fmlookup (adHeap (putTurn h t' (asAd S))) i = Some (if i = h then t' else u)" by simp
    from settles_some [OF s this] Some show ?thesis by auto
  qed
  have "tableOk S'"
    unfolding tableOk_def
  proof (intro conjI allI impI)
    show "keysOk (asAd S')" by (rule keysOk_settles [OF keysOk_put [OF keys t id] s])
    show "(fmlookup (adHeap (asAd S')) i = None) = (fmlookup (asStarts S') i = None)" for i
      using tab t r by (auto simp: none starts tableOk_def)
    show "i < adNext (asAd S')" if "fmlookup (adHeap (asAd S')) i = Some u" for i u
    proof -
      have "fmlookup (adHeap (asAd S)) i \<noteq> None" using that none [of i] by simp
      then show ?thesis using tab s by (auto simp: tableOk_def settles_def)
    qed
    show "i < asNextCall S'" "fmlookup (adHeap (asAd S')) (vcTurn v) \<noteq> None" if "fmlookup (asCalls S') i = Some (v, p)" for i v p
      using ids [OF that] none by simp_all
  qed
  moreover have "sessionsOk cfg (asAd S')" by (rule sessionsOk_put [OF ses keys t s id live act])
  moreover have "handleOk E cfg u q x (callsOf (asCalls S') i)"
    if u: "fmlookup (adHeap (asAd S')) i = Some u" and q: "fmlookup (asStarts S') i = Some (q, x)" for i u q x
  proof -
    from settles_back [OF s u] obtain w b
      where w: "fmlookup (adHeap (putTurn h t' (asAd S))) i = Some w" "u = w\<lparr>tnCleanupTimer := b\<rparr>" .
    show ?thesis
    proof (cases "i = h")
      case True
      with w q ok show ?thesis by (simp add: starts)
    next
      case False
      with w q have "fmlookup (adHeap (asAd S)) i = Some w" "fmlookup (asStarts S) i = Some (q, x)" by (simp_all add: starts)
      with S have "handleOk E cfg w q x (callsOf (asCalls S) i)" by (auto simp: sysOk_def)
      with w(2) calls [OF False] show ?thesis by simp
    qed
  qed
  ultimately show "sysOk E cfg S'" by (simp add: sysOk_def)
  show "adGrows (asAd S) (asAd S')" by (rule adGrows_put [OF s t g])
qed

text \<open>A step that only tidies.\<close>

lemma sysOkD:
  assumes "sysOk E cfg S"
  shows "tableOk S" "keysOk (asAd S)" "sessionsOk cfg (asAd S)"
    and "fmlookup (adHeap (asAd S)) h = None \<longleftrightarrow> fmlookup (asStarts S) h = None"
    and "fmlookup (adHeap (asAd S)) h = Some t \<Longrightarrow> fmlookup (asStarts S) h = Some (r, ph) \<Longrightarrow>
      handleOk E cfg t r ph (callsOf (asCalls S) h)"
    and "fmlookup (asCalls S) i = Some (v, p) \<Longrightarrow> i < asNextCall S \<and> fmlookup (adHeap (asAd S)) (vcTurn v) \<noteq> None"
proof -
  show tab: "tableOk S" using assms by (simp add: sysOk_def)
  then show "keysOk (asAd S)" "fmlookup (adHeap (asAd S)) h = None \<longleftrightarrow> fmlookup (asStarts S) h = None"
    "fmlookup (asCalls S) i = Some (v, p) \<Longrightarrow> i < asNextCall S \<and> fmlookup (adHeap (asAd S)) (vcTurn v) \<noteq> None"
    unfolding tableOk_def by blast+
  show "sessionsOk cfg (asAd S)" "fmlookup (adHeap (asAd S)) h = Some t \<Longrightarrow> fmlookup (asStarts S) h = Some (r, ph) \<Longrightarrow>
      handleOk E cfg t r ph (callsOf (asCalls S) h)"
    using assms by (simp_all add: sysOk_def)
qed

lemma sysOk_handle:
  assumes "sysOk E cfg S" "fmlookup (adHeap (asAd S)) h = Some t"
  obtains r ph where "fmlookup (asStarts S) h = Some (r, ph)" "handleOk E cfg t r ph (callsOf (asCalls S) h)"
proof -
  have "fmlookup (asStarts S) h \<noteq> None" using sysOkD(4) [OF assms(1), of h] assms(2) by simp
  then obtain r ph where "fmlookup (asStarts S) h = Some (r, ph)" by auto
  with sysOkD(5) [OF assms this] that show ?thesis by blast
qed

lemma sysOk_tidy:
  assumes S: "sysOk E cfg S" and s: "tidies (asAd S) a"
  shows "sysOk E cfg (S\<lparr>asAd := a\<rparr>) \<and> adGrows (asAd S) a"
proof (cases "\<exists>h t. fmlookup (adHeap (asAd S)) h = Some t")
  case True
  then obtain h t where t: "fmlookup (adHeap (asAd S)) h = Some t" by blast
  from sysOk_handle [OF S t] obtain r ph
    where r: "fmlookup (asStarts S) h = Some (r, ph)" "handleOk E cfg t r ph (callsOf (asCalls S) h)" .
  have "sysOk E cfg (S\<lparr>asAd := a\<rparr>) \<and> adGrows (asAd S) (asAd (S\<lparr>asAd := a\<rparr>))"
    by (rule sysOk_turn [OF S t r(1), where t' = t and ph' = ph])
      (use r sysOkD(6) [OF S] tidies_settles [OF s] putTurn_same [OF t] in auto)
  then show ?thesis by simp
next
  case False
  then have none: "fmlookup (adHeap (asAd S)) h = None" for h by auto
  then have none': "fmlookup (adHeap a) h = None" for h using tidies_none [OF s] by blast
  have map: "fmlookup (adTurns a) k = None" for k
    using keysOk_tidies [OF sysOkD(2) [OF S] s] none' by (cases "fmlookup (adTurns a) k") (auto simp: keysOk_def)
  have map': "fmlookup (adTurns (asAd S)) k = None" for k
    using sysOkD(2) [OF S] none by (cases "fmlookup (adTurns (asAd S)) k") (auto simp: keysOk_def)
  have "activeTurns a = fmempty" "activeTurns (asAd S) = fmempty"
    using map map' by (auto simp: activeTurns_def intro!: fmap_ext)
  with S none none' map show ?thesis
    by (simp add: sysOk_def tableOk_def sessionsOk_def keysOk_def adGrows_def)
qed

end
