(* ===== verification/AdapterSteps.thy ===== *)
theory AdapterSteps
  imports AdapterReach
begin

text \<open>Every step of the adapter keeps the invariant of \<^verbatim>\<open>AdapterSystem\<close> and only extends the turns.\<close>

section \<open>Shared steps\<close>

lemma spawn_simps [simp]: "asAd (spawn h res S) = asAd S" "asStarts (spawn h res S) = asStarts S"
  by (simp_all add: spawn_def split: option.splits)

lemma setters_simps [simp]: "asAd (setStart h r ph S) = asAd S" "asCalls (setStart h r ph S) = asCalls S"
  "asNextCall (setStart h r ph S) = asNextCall S" "asAd (setCall i v p S) = asAd S" "asStarts (setCall i v p S) = asStarts S"
  "asNextCall (setCall i v p S) = asNextCall S"
  "fmlookup (asStarts (setStart h r ph S)) i = (if i = h then Some (r, ph) else fmlookup (asStarts S) i)"
  by (simp_all add: setStart_def setCall_def)

lemma spawn_ids:
  assumes "\<And>i v p. fmlookup (asCalls S) i = Some (v, p) \<Longrightarrow> i < asNextCall S \<and> P (vcTurn v)" "P h"
    and "fmlookup (asCalls (spawn h res S)) i = Some (v, p)"
  shows "i < asNextCall (spawn h res S) \<and> P (vcTurn v)"
  using assms(2,3) assms(1) [of i v p] by (auto simp: spawn_def split: option.splits if_splits)

lemma fresh_call:
  assumes "sysOk E cfg S"
  shows "(asNextCall S, q, p) \<notin> callsOf (asCalls S) h"
  using sysOkD(6) [OF assms, of "asNextCall S"] by (auto simp: callsOf_def)

lemma handleOk_open: "handleOk E cfg t r ph K \<Longrightarrow> \<not> tnCompleted t \<Longrightarrow> openOk E cfg r t"
  using closed_completed by (auto simp: handleOk_def turnOk_def)

lemma progresses_turnOk: "progresses E cfg r t res t' \<Longrightarrow> turnOk E cfg r t'"
  by (auto simp: progresses_def turnOk_def)

text \<open>An open turn progresses and may spawn a call.\<close>

lemma step_progress:
  assumes S: "sysOk E cfg S" and t: "fmlookup (adHeap (asAd S)) h = Some t" "\<not> tnCompleted t"
    and r: "fmlookup (asStarts S) h = Some (r, ph)" and s: "tidies (putTurn h t' (asAd S)) a"
    and p: "progresses E cfg r t res t'" and w: "res \<noteq> None \<Longrightarrow> tnWaitingForTools t"
  shows "sysOk E cfg (spawn h res (S\<lparr>asAd := a\<rparr>)) \<and> adGrows (asAd S) a"
proof -
  let ?S = "spawn h res (S\<lparr>asAd := a\<rparr>)" and ?K = "callsOf (asCalls S) h"
  have ok: "handleOk E cfg t r ph ?K" by (rule sysOkD(5) [OF S t(1) r])
  have K: "callsOk t ph ?K" "answersOk E r t ?K" "idsOk r" using ok by (simp_all add: handleOk_def)
  have k: "kept t t'" "tnProviderInFlight t' = tnProviderInFlight t" using p by (simp_all add: progresses_def)
  have calls: "callsOf (asCalls ?S) i = callsOf (asCalls S) i \<union> (if i = h then spawned (asNextCall S) res else {})" for i
    using callsOf_spawn [of "S\<lparr>asAd := a\<rparr>" h res i] sysOkD(6) [OF S] by simp
  have "sysOk E cfg ?S \<and> adGrows (asAd S) (asAd ?S)"
  proof (rule sysOk_turn [OF S t(1) r, where t' = t' and ph' = ph])
    show "settles (putTurn h t' (asAd S)) (asAd ?S)" using tidies_settles [OF s] by simp
    show "grows t t'" by (rule kept_grows [OF k(1) t(2)])
    show "liveTurn t" if "liveTurn t'"
    proof (cases "tnInitErr t = None")
      case False
      then have "tnProviderInFlight t = 0" using callsOkD(2,6) [OF K(1)] by auto
      with that False k show ?thesis by (simp add: liveTurn_def kept_def)
    qed (use t(2) in \<open>simp add: liveTurn_def\<close>)
    show "activeTurn t" using t(2) by (simp add: activeTurn_def)
    show "callsOf (asCalls ?S) i = callsOf (asCalls S) i" if "i \<noteq> h" for i using calls that by simp
    show "i < asNextCall ?S \<and> fmlookup (adHeap (asAd S)) (vcTurn v) \<noteq> None" if "fmlookup (asCalls ?S) i = Some (v, x)" for i v x
      by (rule spawn_ids [OF _ _ that, where P = "\<lambda>h. fmlookup (adHeap (asAd S)) h \<noteq> None"]) (use sysOkD(6) [OF S] t(1) in auto)
    have "callsOk t' ph (?K \<union> spawned (asNextCall S) res)" by (rule callsOk_progress [OF K(1) t(2) p w])
    moreover have "answersOk E r t' (?K \<union> spawned (asNextCall S) res)"
      by (rule answersOk_grow [OF K(2) _ _ fresh_call [OF S]]) (use k(1) p in \<open>auto simp: kept_def progresses_def closedOk_def\<close>)
    ultimately show "handleOk E cfg t' r ph (callsOf (asCalls ?S) h)"
      using K(3) progresses_turnOk [OF p] calls by (simp add: handleOk_def)
  qed (use r in auto)
  then show ?thesis by simp
qed

text \<open>A change that leaves the invariant of the turn alone.\<close>

lemma step_frame:
  assumes S: "sysOk E cfg S" and t: "fmlookup (adHeap (asAd S)) h = Some t" and s: "tidies (putTurn h t' (asAd S)) a"
    and g: "grows t t'" "liveTurn t' = liveTurn t" "activeTurn t' = activeTurn t"
    and ok: "\<And>r ph K. handleOk E cfg t r ph K \<Longrightarrow> handleOk E cfg t' r ph K"
  shows "sysOk E cfg (S\<lparr>asAd := a\<rparr>) \<and> adGrows (asAd S) a"
proof -
  from sysOk_handle [OF S t] obtain r ph
    where r: "fmlookup (asStarts S) h = Some (r, ph)" "handleOk E cfg t r ph (callsOf (asCalls S) h)" .
  have "sysOk E cfg (S\<lparr>asAd := a\<rparr>) \<and> adGrows (asAd S) (asAd (S\<lparr>asAd := a\<rparr>))"
    by (rule sysOk_turn [OF S t r(1), where t' = t' and ph' = ph])
      (use r sysOkD(6) [OF S] tidies_settles [OF s] g ok in auto)
  then show ?thesis by simp
qed

section \<open>Clients and timers\<close>

lemma spawn_None [simp]: "spawn h None S = S"
  by (simp add: spawn_def)

lemma step_continued:
  assumes env: "adapterEnvOk E" "cfgOk cfg" and S: "sysOk E cfg S" and t: "fmlookup (adHeap (asAd S)) h = Some t"
    and c: "continueTurn E cfg now request h (asAd S) = (err, res, a)"
  shows "sysOk E cfg (spawn h res (S\<lparr>asAd := a\<rparr>)) \<and> adGrows (asAd S) a"
proof (cases "tnCompleted t")
  case True
  from continueTurn_completed [OF t True c] sysOk_tidy [OF S tidies_refl] show ?thesis by simp
next
  case False
  from sysOk_handle [OF S t] obtain r ph
    where r: "fmlookup (asStarts S) h = Some (r, ph)" "handleOk E cfg t r ph (callsOf (asCalls S) h)" .
  have ids: "idsOk r" using r(2) by (simp add: handleOk_def)
  from continueTurn_ok [OF env ids t handleOk_open [OF r(2) False] c] obtain t'
    where "tidies (putTurn h t' (asAd S)) a" "progresses E cfg r t res t'" "res \<noteq> None \<longrightarrow> tnWaitingForTools t" by blast
  then show ?thesis by (intro step_progress [OF S t False r(1)]) auto
qed

lemma step_silent:
  assumes env: "adapterEnvOk E" "cfgOk cfg" and S: "sysOk E cfg S" and t: "fmlookup (adHeap (asAd S)) h = Some t" "\<not> tnCompleted t"
    and op: "\<And>r. idsOk r \<Longrightarrow> openOk E cfg r t \<Longrightarrow> \<exists>t'. tidies (putTurn h t' (asAd S)) a \<and> progresses E cfg r t None t'"
  shows "sysOk E cfg (S\<lparr>asAd := a\<rparr>) \<and> adGrows (asAd S) a"
proof -
  from sysOk_handle [OF S t(1)] obtain r ph
    where r: "fmlookup (asStarts S) h = Some (r, ph)" "handleOk E cfg t r ph (callsOf (asCalls S) h)" .
  from op [of r] r(2) handleOk_open [OF r(2) t(2)] obtain t'
    where "tidies (putTurn h t' (asAd S)) a" "progresses E cfg r t None t'" by (auto simp: handleOk_def)
  from step_progress [OF S t r(1) this] show ?thesis by simp
qed

lemma step_cancelled:
  assumes env: "adapterEnvOk E" "cfgOk cfg" and S: "sysOk E cfg S" and c: "cancelTurn E cfg now request (asAd S) = (err, a)"
  shows "sysOk E cfg (S\<lparr>asAd := a\<rparr>) \<and> adGrows (asAd S) a"
proof (cases "fmlookup (adTurns (asAd S)) (clTurnID request)")
  case None
  with c sysOk_tidy [OF S tidies_refl] show ?thesis by (simp add: cancelTurn_def)
next
  case (Some h)
  from keysOkD [OF sysOkD(2) [OF S] Some] obtain t where t: "fmlookup (adHeap (asAd S)) h = Some t" .
  show ?thesis
  proof (cases "tnCompleted t")
    case True
    with c Some sysOk_tidy [OF S tidies_refl] show ?thesis by (auto simp: cancelTurn_def turnOf_Some [OF t] split: if_splits)
  next
    case False
    show ?thesis by (rule step_silent [OF env S t False]) (rule cancelTurn_ok [OF env _ Some t _ c])
  qed
qed

lemma handleOk_frame:
  "handleOk E cfg t r ph K \<Longrightarrow> handleOk E cfg (t\<lparr>tnCause := c\<rparr>) r ph K"
  "handleOk E cfg t r ph K \<Longrightarrow> handleOk E cfg (t\<lparr>tnFlushTimer := f\<rparr>) r ph K"
  "handleOk E cfg t r ph K \<Longrightarrow> handleOk E cfg (t\<lparr>tnInitDone := d\<rparr>) r ph K"
  by (simp_all add: handleOk_def turnOk_def closedOk_def callsOk_def answersOk_def)

lemma step_deadline:
  assumes S: "sysOk E cfg S" and t: "fmlookup (adHeap (asAd S)) h = Some t"
  shows "sysOk E cfg (S\<lparr>asAd := deadlinePassed h (asAd S)\<rparr>) \<and> adGrows (asAd S) (deadlinePassed h (asAd S))"
proof (cases "tnCause t = None")
  case False
  with sysOk_tidy [OF S tidies_refl] show ?thesis by (auto simp: deadlinePassed_def turnOf_Some [OF t])
next
  case True
  then have d: "deadlinePassed h (asAd S) = putTurn h (t\<lparr>tnCause := Some AeDeadline\<rparr>) (asAd S)"
    by (simp add: deadlinePassed_def turnOf_Some [OF t])
  show ?thesis unfolding d
    by (rule step_frame [OF S t tidies_refl])
      (use True in \<open>auto simp: grows_def causeOk_def sameIdentity_def liveTurn_def activeTurn_def intro: handleOk_frame\<close>)
qed

lemma step_watched:
  assumes env: "adapterEnvOk E" "cfgOk cfg" and S: "sysOk E cfg S" and r: "fmlookup (asStarts S) h = Some (r, ph)"
  shows "sysOk E cfg (S\<lparr>asAd := watchDeadline E cfg now h (asAd S)\<rparr>) \<and> adGrows (asAd S) (watchDeadline E cfg now h (asAd S))"
proof -
  obtain t where t: "fmlookup (adHeap (asAd S)) h = Some t" using sysOkD(4) [OF S, of h] r by auto
  show ?thesis
  proof (cases "tnCompleted t")
    case True
    with sysOk_tidy [OF S tidies_refl] show ?thesis by (simp add: watchDeadline_def turnOf_Some [OF t])
  next
    case False
    show ?thesis by (rule step_silent [OF env S t False]) (use watchDeadline_ok [OF env _ t] in blast)
  qed
qed

lemma step_flushed:
  assumes env: "adapterEnvOk E" "cfgOk cfg" and S: "sysOk E cfg S" and t: "fmlookup (adHeap (asAd S)) h = Some t"
  shows "sysOk E cfg (S\<lparr>asAd := flushTimer E cfg now h (asAd S)\<rparr>) \<and> adGrows (asAd S) (flushTimer E cfg now h (asAd S))"
proof (cases "tnCompleted t")
  case True
  then have d: "flushTimer E cfg now h (asAd S) = putTurn h (t\<lparr>tnFlushTimer := False\<rparr>) (asAd S)"
    by (simp add: flushTimer_def turnOf_Some [OF t])
  show ?thesis unfolding d
    by (rule step_frame [OF S t tidies_refl])
      (auto simp: grows_def causeOk_def sameIdentity_def liveTurn_def activeTurn_def intro: handleOk_frame)
next
  case False
  show ?thesis by (rule step_silent [OF env S t False]) (rule flushTimer_ok [OF env _ t])
qed

lemma cleanupTimer_tidies:
  assumes "keysOk a"
  shows "tidies a (cleanupTimer now turnID a)"
proof (cases "fmlookup (adTurns a) turnID")
  case None
  then show ?thesis by (simp add: cleanupTimer_def)
next
  case (Some h)
  from keysOkD [OF assms Some] obtain t where t: "fmlookup (adHeap a) h = Some t" "sqTurnID (tnRequest t) = turnID" .
  let ?u = "t\<lparr>tnCleanupTimer := False\<rparr>"
  have u: "tidies a (putTurn h ?u a)"
  proof (rule tidiesI)
    show "\<exists>b. fmlookup (adHeap (putTurn h ?u a)) i = Some (w\<lparr>tnCleanupTimer := b\<rparr>)" if "fmlookup (adHeap a) i = Some w" for i w
      using that t(1) same_timer [of w] by (cases "i = h") auto
  qed (use t(1) in auto)
  have "turnNamed (putTurn h ?u a) (sqTurnID (tnRequest ?u)) = Some ?u" using Some t(2) by (simp add: turnNamed_Some)
  from tidies_trans [OF u maybeDelete_tidies [OF this refl refl]] show ?thesis
    by (simp add: cleanupTimer_def Some turnOf_Some [OF t(1)] Let_def)
qed

lemma releaseTurn_tidies:
  assumes k: "keysOk a" and t: "fmlookup (adHeap a) h = Some t"
    and named: "fmlookup (adTurns a) (sqTurnID (tnRequest t)) \<in> {None, Some h}"
  shows "tidies a (releaseTurn now h a)"
proof (cases "fmlookup (adTurns a) (sqTurnID (tnRequest t))")
  case None
  then show ?thesis by (simp add: releaseTurn_def turnOf_Some [OF t] maybeDeleteExpired_def deleteTurn_def)
next
  case (Some i)
  with named t have "turnNamed a (sqTurnID (tnRequest t)) = Some t" by (simp add: turnNamed_Some)
  from maybeDelete_tidies [OF this refl refl] show ?thesis by (simp add: releaseTurn_def turnOf_Some [OF t])
qed

section \<open>Starting\<close>

lemma start_turn:
  assumes S: "sysOk E cfg S" and r: "fmlookup (asStarts S) h = Some (r, ph)" and ph: "ph \<noteq> StartOver"
  obtains t where "fmlookup (adHeap (asAd S)) h = Some t" "handleOk E cfg t r ph {}" "callsOf (asCalls S) h = {}"
    "tnInitErr t = None" "tnInitializing t" "tnProviderInFlight t = 0" "\<not> tnWaitingForTools t"
proof -
  obtain t where t: "fmlookup (adHeap (asAd S)) h = Some t" using sysOkD(4) [OF S, of h] r by auto
  have ok: "handleOk E cfg t r ph (callsOf (asCalls S) h)" by (rule sysOkD(5) [OF S t r])
  then have c: "callsOk t ph (callsOf (asCalls S) h)" by (simp add: handleOk_def)
  from callsOkD(4) [OF c ph] have K: "callsOf (asCalls S) h = {}" "tnInitErr t = None" "\<not> tnWaitingForTools t" by auto
  show ?thesis by (rule that [OF t _ K(1,2) _ _ K(3)]) (use ok K callsOkD(2,5) [OF c] ph in auto)
qed

text \<open>A start that is over: the turn is no longer initializing.\<close>

lemma step_start:
  assumes S: "sysOk E cfg S" and r: "fmlookup (asStarts S) h = Some (r, ph)" and ph: "ph \<noteq> StartOver"
    and t: "fmlookup (adHeap (asAd S)) h = Some t" and s: "settles (putTurn h t' (asAd S)) a"
    and t': "t' = t\<lparr>tnInitializing := (ph' \<noteq> StartOver), tnInitDone := d, tnInitErr := e, tnAgentSessionID := sid, tnCause := c\<rparr>"
    and e: "e = None \<or> ph' = StartOver" and res: "res = None \<or> (ph' = StartOver \<and> e = None \<and> \<not> tnCompleted t)"
    and q: "\<And>q. res = Some q \<Longrightarrow> answeredCalls q = []" and c: "tnCause t \<noteq> None \<or> e = None \<Longrightarrow> c = tnCause t"
  shows "sysOk E cfg (spawn h res (setStart h r ph' (S\<lparr>asAd := a\<rparr>))) \<and> adGrows (asAd S) a"
proof -
  let ?S = "spawn h res (setStart h r ph' (S\<lparr>asAd := a\<rparr>))" and ?n = "asNextCall S"
  from start_turn [OF S r ph] t have ok: "handleOk E cfg t r ph {}" and K: "callsOf (asCalls S) h = {}"
    and init: "tnInitErr t = None" "tnInitializing t" "tnProviderInFlight t = 0" "\<not> tnWaitingForTools t" by auto
  have calls: "callsOf (asCalls ?S) i = callsOf (asCalls S) i \<union> (if i = h then spawned ?n res else {})" for i
    using callsOf_spawn [of "setStart h r ph' (S\<lparr>asAd := a\<rparr>)" h res i] sysOkD(6) [OF S] by (simp add: setStart_def)
  have "sysOk E cfg ?S \<and> adGrows (asAd S) (asAd ?S)"
  proof (rule sysOk_turn [OF S t r, where t' = t' and ph' = ph'])
    show "settles (putTurn h t' (asAd S)) (asAd ?S)" using s by simp
    show "grows t t'" using init c by (auto simp: t' grows_def causeOk_def sameIdentity_def)
    show "liveTurn t" if "liveTurn t'" using that init by (auto simp: t' liveTurn_def)
    show "activeTurn t" using init by (simp add: activeTurn_def)
    show "callsOf (asCalls ?S) i = callsOf (asCalls S) i" if "i \<noteq> h" for i using calls that by simp
    show "i < asNextCall ?S \<and> fmlookup (adHeap (asAd S)) (vcTurn v) \<noteq> None" if "fmlookup (asCalls ?S) i = Some (v, x)" for i v x
      by (rule spawn_ids [OF _ _ that, where P = "\<lambda>h. fmlookup (adHeap (asAd S)) h \<noteq> None"])
        (use sysOkD(6) [OF S] t in \<open>auto simp: setStart_def\<close>)
    have turn: "turnOk E cfg r t' \<and> idsOk r" using ok by (simp add: handleOk_def turnOk_def closedOk_def t')
    have "callsOk t' ph' (spawned ?n res)"
      by (rule callsOkI) (use res e init in \<open>auto simp: t'\<close>)
    moreover have "answersOk E r t' (spawned ?n res)" using q by (auto simp: answersOk_def)
    ultimately show "handleOk E cfg t' r ph' (callsOf (asCalls ?S) h)" using turn calls K by (simp add: handleOk_def)
  qed auto
  then show ?thesis by simp
qed

lemma settles_refl [simp]: "settles a a"
  by (rule tidies_settles) simp

lemma step_sessionFailed:
  assumes S: "sysOk E cfg S" and r: "fmlookup (asStarts S) h = Some (r, StartSession)"
    and f: "failInitialization e h (asAd S) = (over, a)"
  shows "sysOk E cfg (setStart h r StartOver (S\<lparr>asAd := a\<rparr>)) \<and> adGrows (asAd S) a"
proof -
  obtain t where t: "fmlookup (adHeap (asAd S)) h = Some t" "tnInitErr t = None" "tnProviderInFlight t = 0"
    by (rule start_turn [OF S r]) simp_all
  have one: "sysOk E cfg (setStart h r StartOver (S\<lparr>asAd := a\<rparr>)) \<and> adGrows (asAd S) a"
    if s: "settles (putTurn h u (asAd S)) a" and u: "u = t\<lparr>tnInitializing := (StartOver \<noteq> StartOver), tnInitDone := True,
      tnInitErr := x, tnAgentSessionID := tnAgentSessionID t, tnCause := c\<rparr>"
      and c: "tnCause t \<noteq> None \<or> x = None \<Longrightarrow> c = tnCause t" for u x c
    using step_start [OF S r _ t(1) s u, where res = None] c by simp
  show ?thesis
  proof (cases "tnCompleted t")
    case True
    with f t(2) have "a = putTurn h (t\<lparr>tnInitializing := False, tnInitDone := True, tnInitErr := None\<rparr>) (asAd S)"
      by (auto simp: failInitialization_def turnOf_Some [OF t(1)])
    then have "settles (putTurn h (t\<lparr>tnInitializing := False, tnInitDone := True, tnInitErr := None\<rparr>) (asAd S)) a" by simp
    then show ?thesis by (rule one [where x = None and c = "tnCause t"]) (cases t, simp)+
  next
    case False
    define c where "c = (if tnCause t = None then Some AeCanceled else tnCause t)"
    let ?u = "t\<lparr>tnInitializing := False, tnInitDone := True, tnInitErr := Some e, tnCause := c\<rparr>"
    from False f have a: "a = (putTurn h ?u (asAd S))\<lparr>adTurns := fmdrop (sqTurnID (tnRequest t)) (adTurns (asAd S))\<rparr>"
      by (auto simp: failInitialization_def turnOf_Some [OF t(1)] Let_def cancelContext_def c_def putTurn_def)
    have "liveTurn t" using False t(2) by (simp add: liveTurn_def)
    then have k: "fmlookup (adTurns (asAd S)) (sqTurnID (tnRequest t)) = Some h"
      using sysOkD(3) [OF S] t(1) by (auto simp: sessionsOk_def)
    have "settles (putTurn h ?u (asAd S)) a"
      unfolding settles_def
    proof (intro conjI allI impI)
      show "\<exists>b. fmlookup (adHeap a) i = Some (w\<lparr>tnCleanupTimer := b\<rparr>)"
        if "fmlookup (adHeap (putTurn h ?u (asAd S))) i = Some w" for i w
        using that same_timer [of w] by (simp add: a)
      show "fmlookup (adTurns a) x = fmlookup (adTurns (putTurn h ?u (asAd S))) x \<or>
          fmlookup (adTurns a) x = None \<and> (\<exists>w. turnNamed (putTurn h ?u (asAd S)) x = Some w \<and> \<not> liveTurn w)" for x
        using k t(3) by (simp add: a turnNamed_def liveTurn_def)
    qed (simp_all add: a)
    then show ?thesis by (rule one [where x = "Some e" and c = c]) (cases t, auto simp: c_def)+
  qed
qed

lemma step_sessionMade:
  assumes S: "sysOk E cfg S" and r: "fmlookup (asStarts S) h = Some (r, StartSession)"
    and f: "sessionCreated sid h (asAd S) = (goes, a)"
  shows "sysOk E cfg (setStart h r (if goes then StartReady else StartOver) (S\<lparr>asAd := a\<rparr>)) \<and> adGrows (asAd S) a"
proof -
  obtain t where t: "fmlookup (adHeap (asAd S)) h = Some t" "tnInitErr t = None" "tnInitializing t"
    by (rule start_turn [OF S r]) simp_all
  have one: "sysOk E cfg (setStart h r ph' (S\<lparr>asAd := a\<rparr>)) \<and> adGrows (asAd S) a"
    if s: "settles (putTurn h u (asAd S)) a" and u: "u = t\<lparr>tnInitializing := (ph' \<noteq> StartOver), tnInitDone := d,
      tnInitErr := None, tnAgentSessionID := x, tnCause := tnCause t\<rparr>" for u ph' d x
    using step_start [OF S r _ t(1) s u, where res = None] by simp
  show ?thesis
  proof (cases "tnCompleted t")
    case True
    with f have a: "\<not> goes" "a = putTurn h (t\<lparr>tnInitializing := False, tnInitDone := True\<rparr>) (asAd S)"
      by (auto simp: sessionCreated_def turnOf_Some [OF t(1)] Let_def)
    then have "settles (putTurn h (t\<lparr>tnInitializing := False, tnInitDone := True\<rparr>) (asAd S)) a" by simp
    from one [OF this, where d = True and x = "tnAgentSessionID t" and ph' = StartOver] a(1) t(2) show ?thesis
      by (cases t) simp
  next
    case False
    with f have a: "goes" "a = putTurn h (t\<lparr>tnAgentSessionID := sid\<rparr>) (asAd S)"
      by (auto simp: sessionCreated_def turnOf_Some [OF t(1)] Let_def)
    then have "settles (putTurn h (t\<lparr>tnAgentSessionID := sid\<rparr>) (asAd S)) a" by simp
    from one [OF this, where d = "tnInitDone t" and x = sid and ph' = StartReady] a(1) t(2,3) show ?thesis
      by (cases t) simp
  qed
qed

lemma step_started:
  assumes S: "sysOk E cfg S" and r: "fmlookup (asStarts S) h = Some (r, StartReady)"
    and f: "completeInit cfg r h (asAd S) = (res, a)"
  shows "sysOk E cfg (spawn h res (setStart h r StartOver (S\<lparr>asAd := a\<rparr>))) \<and> adGrows (asAd S) a"
proof -
  obtain t where t: "fmlookup (adHeap (asAd S)) h = Some t" "tnInitErr t = None" "tnInitializing t"
    by (rule start_turn [OF S r]) simp_all
  let ?u = "t\<lparr>tnInitializing := False, tnInitDone := True\<rparr>"
  from f have a: "a = putTurn h ?u (asAd S)" "res = (if tnCompleted t then None else Some (firstRequest cfg r ?u))"
    by (auto simp: completeInit_def turnOf_Some [OF t(1)] Let_def)
  then have s: "settles (putTurn h ?u (asAd S)) a" by simp
  have u: "?u = t\<lparr>tnInitializing := (StartOver \<noteq> StartOver), tnInitDone := True, tnInitErr := None,
      tnAgentSessionID := tnAgentSessionID t, tnCause := tnCause t\<rparr>" using t(2) by (cases t) simp
  show ?thesis
    by (rule step_start [OF S r _ t(1) s u]) (auto simp: a(2) answeredCalls_def firstRequest_def split: if_splits)
qed

section \<open>Provider calls\<close>

lemma call_turn:
  assumes S: "sysOk E cfg S" and i: "fmlookup (asCalls S) i = Some (v, p)"
  obtains t r ph where "fmlookup (adHeap (asAd S)) (vcTurn v) = Some t" "fmlookup (asStarts S) (vcTurn v) = Some (r, ph)"
    "handleOk E cfg t r ph (callsOf (asCalls S) (vcTurn v))" "(i, vcRequest v, p) \<in> callsOf (asCalls S) (vcTurn v)"
proof -
  from sysOkD(6) [OF S i] obtain t where t: "fmlookup (adHeap (asAd S)) (vcTurn v) = Some t" by auto
  from sysOk_handle [OF S t] that [OF t] i show ?thesis by (fastforce simp: callsOf_def)
qed

text \<open>A call changes its phase and its turn, and may spawn the next call.\<close>

lemma step_call:
  assumes S: "sysOk E cfg S" and i: "fmlookup (asCalls S) i = Some (v, p)"
    and t: "fmlookup (adHeap (asAd S)) (vcTurn v) = Some t" and r: "fmlookup (asStarts S) (vcTurn v) = Some (r, ph)"
    and v': "vcTurn v' = vcTurn v" "vcRequest v' = vcRequest v"
    and s: "tidies (putTurn (vcTurn v) t' (asAd S)) a" and g: "grows t t'"
    and live: "liveTurn t' \<Longrightarrow> liveTurn t" and act: "activeTurn t' \<Longrightarrow> activeTurn t" and turn: "turnOk E cfg r t'"
    and c: "callsOk t' ph (setPhase i p' (callsOf (asCalls S) (vcTurn v)) \<union> spawned (asNextCall S) res)"
    and q: "\<And>q. res = Some q \<Longrightarrow> answersFresh E r t q t'"
  shows "sysOk E cfg (spawn (vcTurn v) res (setCall i v' p' (S\<lparr>asAd := a\<rparr>))) \<and> adGrows (asAd S) a"
proof -
  let ?h = "vcTurn v" and ?n = "asNextCall S"
  let ?T = "setCall i v' p' (S\<lparr>asAd := a\<rparr>)"
  let ?S = "spawn ?h res ?T"
  have K: "handleOk E cfg t r ph (callsOf (asCalls S) ?h)" by (rule sysOkD(5) [OF S t r])
  have T: "callsOf (asCalls ?T) j = setPhase i p' (callsOf (asCalls S) j)" for j
    using callsOf_setCall [of "S\<lparr>asAd := a\<rparr>" i v p v' p' j] i v' by simp
  have ids: "j < asNextCall ?T \<and> fmlookup (adHeap (asAd S)) (vcTurn w) \<noteq> None" if "fmlookup (asCalls ?T) j = Some (w, x)" for j w x
    using that sysOkD(6) [OF S, of j w x] sysOkD(6) [OF S i] v'(1) by (auto simp: setCall_def split: if_splits)
  have calls: "callsOf (asCalls ?S) j = setPhase i p' (callsOf (asCalls S) j) \<union> (if j = ?h then spawned ?n res else {})" for j
    using callsOf_spawn [of ?T ?h res j] ids T by simp
  have other: "setPhase i p' (callsOf (asCalls S) j) = callsOf (asCalls S) j" if "j \<noteq> ?h" for j
    using that i by (auto simp: callsOf_def setPhase_def)
  have "sysOk E cfg ?S \<and> adGrows (asAd S) (asAd ?S)"
  proof (rule sysOk_turn [OF S t r _ g live act, where ph' = ph])
    show "settles (putTurn ?h t' (asAd S)) (asAd ?S)" using tidies_settles [OF s] by simp
    show "callsOf (asCalls ?S) j = callsOf (asCalls S) j" if "j \<noteq> ?h" for j using calls other that by simp
    show "j < asNextCall ?S \<and> fmlookup (adHeap (asAd S)) (vcTurn w) \<noteq> None" if "fmlookup (asCalls ?S) j = Some (w, x)" for j w x
      by (rule spawn_ids [OF _ _ that, where P = "\<lambda>h. fmlookup (adHeap (asAd S)) h \<noteq> None"]) (use ids t in auto)
    have "answersOk E r t' (setPhase i p' (callsOf (asCalls S) ?h) \<union> spawned ?n res)"
    proof (rule answersOk_grow [OF answersOk_phase])
      show "answersOk E r t (callsOf (asCalls S) ?h)" using K by (simp add: handleOk_def)
      show "(?n, q, x) \<notin> setPhase i p' (callsOf (asCalls S) ?h)" for q x
        using fresh_call [OF S] by auto
    qed (use g q in \<open>auto simp: grows_def\<close>)
    with turn c K show "handleOk E cfg t' r ph (callsOf (asCalls ?S) ?h)" by (simp add: handleOk_def calls)
  qed (use r in auto)
  then show ?thesis by simp
qed

lemma phase_unique: "(i, q, p) \<in> callsOf calls h \<Longrightarrow> (i, q', p') \<in> callsOf calls h \<Longrightarrow> p' = p"
  using callsOf_unique by blast

lemma spawned_None [simp]: "spawned n None = {}"
  by (simp add: spawned_def)

lemma step_begun:
  assumes S: "sysOk E cfg S" and i: "fmlookup (asCalls S) i = Some (v, CallQueued)"
    and b: "beginInvocation (vcTurn v) (asAd S) = (runs, a)"
  shows "sysOk E cfg (setCall i v (if runs then CallRunning else CallDropped) (S\<lparr>asAd := a\<rparr>)) \<and> adGrows (asAd S) a"
proof -
  from call_turn [OF S i] obtain t r ph where t: "fmlookup (adHeap (asAd S)) (vcTurn v) = Some t"
    and r: "fmlookup (asStarts S) (vcTurn v) = Some (r, ph)" and ok: "handleOk E cfg t r ph (callsOf (asCalls S) (vcTurn v))"
    and m: "(i, vcRequest v, CallQueued) \<in> callsOf (asCalls S) (vcTurn v)" .
  have K: "callsOk t ph (callsOf (asCalls S) (vcTurn v))" using ok by (simp add: handleOk_def)
  note u = phase_unique [OF m]
  show ?thesis
  proof (cases "tnCompleted t")
    case True
    with b have a: "\<not> runs" "a = asAd S" by (auto simp: beginInvocation_def turnOf_Some [OF t])
    have "sysOk E cfg (spawn (vcTurn v) None (setCall i v CallDropped (S\<lparr>asAd := a\<rparr>))) \<and> adGrows (asAd S) a"
      by (rule step_call [OF S i t r, where t' = t])
        (use callsOk_drop [OF K m True u] ok a putTurn_same [OF t] in \<open>auto simp: handleOk_def\<close>)
    with a show ?thesis by simp
  next
    case False
    let ?t = "t\<lparr>tnProviderInFlight := Suc (tnProviderInFlight t), tnInvocationUncertain := True\<rparr>"
    have a: "runs" "a = putTurn (vcTurn v) ?t (asAd S)" using False b by (auto simp: beginInvocation_def turnOf_Some [OF t] Let_def)
    have e: "tnInitErr t = None" by (rule ccontr) (use callsOkD(6) [OF K] m in blast)
    have "openOk E cfg r ?t" using handleOk_open [OF ok False] by simp
    then have "sysOk E cfg (spawn (vcTurn v) None (setCall i v CallRunning (S\<lparr>asAd := a\<rparr>))) \<and> adGrows (asAd S) a"
      by (intro step_call [OF S i t r, where t' = ?t])
        (use callsOk_begin [OF K m False u refl] a False e
          in \<open>auto simp: turnOk_def grows_def causeOk_def sameIdentity_def liveTurn_def activeTurn_def\<close>)
    with a show ?thesis by simp
  qed
qed

lemma runCallback_call: "runCallback E cfg now ev v t = (e, v', t') \<Longrightarrow> vcTurn v' = vcTurn v \<and> vcRequest v' = vcRequest v"
  by (auto simp: runCallback_def recordInvocationIDs_def Let_def split: callbackEvent.splits option.splits prod.splits if_splits)

lemma setPhase_same:
  assumes m: "(i, q, p) \<in> callsOf calls h"
  shows "setPhase i p (callsOf calls h) = callsOf calls h"
proof -
  have "x = p" if "(i, q', x) \<in> callsOf calls h" for q' x by (rule phase_unique [OF m that])
  then show ?thesis by (auto simp: setPhase_def)
qed

lemma step_callback:
  assumes env: "adapterEnvOk E" "cfgOk cfg" and S: "sysOk E cfg S" and i: "fmlookup (asCalls S) i = Some (v, CallRunning)"
    and c: "runCallback E cfg now ev v (turnOf (asAd S) (vcTurn v)) = (e, v', t')"
  shows "sysOk E cfg (setCall i (v'\<lparr>vcError := x\<rparr>) CallRunning (S\<lparr>asAd := putTurn (vcTurn v) t' (asAd S)\<rparr>)) \<and>
    adGrows (asAd S) (putTurn (vcTurn v) t' (asAd S))"
proof -
  from call_turn [OF S i] obtain t r ph where t: "fmlookup (adHeap (asAd S)) (vcTurn v) = Some t"
    and r: "fmlookup (asStarts S) (vcTurn v) = Some (r, ph)" and ok: "handleOk E cfg t r ph (callsOf (asCalls S) (vcTurn v))"
    and m: "(i, vcRequest v, CallRunning) \<in> callsOf (asCalls S) (vcTurn v)" .
  have K: "callsOk t ph (callsOf (asCalls S) (vcTurn v))" and ids: "idsOk r" using ok by (simp_all add: handleOk_def)
  have run: "runCallback E cfg now ev v t = (e, v', t')" using c by (simp add: turnOf_Some [OF t])
  have t': "quiet t t' \<and> turnOk E cfg r t' \<and> grows t t'"
  proof (cases "tnCompleted t")
    case True
    with runCallback_completed [OF True run] ok show ?thesis by (simp add: handleOk_def)
  next
    case False
    from runCallback_open [OF env ids handleOk_open [OF ok False] run] show ?thesis
      using kept_grows [OF quiet_kept False] by (simp add: turnOk_def)
  qed
  then have same: "tnCompleted t' = tnCompleted t" "tnProviderInFlight t' = tnProviderInFlight t" "tnInitErr t' = tnInitErr t"
    "tnWaitingForTools t' = tnWaitingForTools t" "tnInitializing t' = tnInitializing t"
    "tnInvocationUncertain t' = tnInvocationUncertain t" by (simp_all add: quiet_def control_def)
  have "callsOk t' ph (callsOf (asCalls S) (vcTurn v))" using K by (simp add: callsOk_def same)
  then have "sysOk E cfg (spawn (vcTurn v) None (setCall i (v'\<lparr>vcError := x\<rparr>) CallRunning
      (S\<lparr>asAd := putTurn (vcTurn v) t' (asAd S)\<rparr>))) \<and> adGrows (asAd S) (putTurn (vcTurn v) t' (asAd S))"
    by (intro step_call [OF S i t r, where t' = t'])
      (use runCallback_call [OF run] t' same setPhase_same [OF m] in \<open>auto simp: liveTurn_def activeTurn_def\<close>)
  then show ?thesis by simp
qed

lemma callOutcome_turnOk: "callOutcome E cfg r known t res t' \<Longrightarrow> turnOk E cfg r t'"
  by (auto simp: callOutcome_def turnOk_def)

lemma step_ended:
  assumes env: "adapterEnvOk E" "cfgOk cfg" and S: "sysOk E cfg S" and i: "fmlookup (asCalls S) i = Some (v, CallRunning)"
    and e: "endInvocation E cfg now s err v (asAd S) = (res, a)"
  shows "sysOk E cfg (spawn (vcTurn v) res (setCall i v (CallEnded (fst (callResult E s err v) = None)) (S\<lparr>asAd := a\<rparr>))) \<and>
    adGrows (asAd S) a"
proof -
  from call_turn [OF S i] obtain t r ph where t: "fmlookup (adHeap (asAd S)) (vcTurn v) = Some t"
    and r: "fmlookup (asStarts S) (vcTurn v) = Some (r, ph)" and ok: "handleOk E cfg t r ph (callsOf (asCalls S) (vcTurn v))"
    and m: "(i, vcRequest v, CallRunning) \<in> callsOf (asCalls S) (vcTurn v)" .
  have K: "callsOk t ph (callsOf (asCalls S) (vcTurn v))" and ids: "idsOk r" using ok by (simp_all add: handleOk_def)
  have e0: "tnInitErr t = None" by (rule ccontr) (use callsOkD(6) [OF K] m in blast)
  have e1: "tnProviderInFlight t = 1" using callsOkD(2) [OF K] m by auto
  let ?known = "fst (callResult E s err v) = None"
  show ?thesis
  proof (cases "tnCompleted t")
    case True
    let ?t = "(releaseProvider t)\<lparr>tnContinuationInFlight := False\<rparr>"
    from endInvocation_completed [OF t True e] have a: "res = None" "a = putTurn (vcTurn v) ?t (asAd S)" by auto
    have "turnOk E cfg r ?t" using ok True open_completed by (auto simp: handleOk_def turnOk_def closedOk_def releaseProvider_def)
    then show ?thesis unfolding a
      by (intro step_call [OF S i t r, where t' = ?t])
        (use callsOk_late [OF K m True, of ?t False ?known] e0 e1 True
          in \<open>auto simp: grows_def causeOk_def sameIdentity_def liveTurn_def activeTurn_def releaseProvider_def\<close>)
  next
    case False
    from endInvocation_ok [OF env ids t handleOk_open [OF ok False] e] obtain t'
      where t': "tidies (putTurn (vcTurn v) t' (asAd S)) a" "callOutcome E cfg r ?known t res t'" by blast
    then have k: "kept t t'" by (simp add: callOutcome_def)
    have fresh: "answersFresh E r t q t'" if "res = Some q" for q
      using t'(2) that by (auto simp: callOutcome_def closedOk_def)
    show ?thesis
      by (rule step_call [OF S i t r refl refl t'(1) kept_grows [OF k False] _ _ callOutcome_turnOk [OF t'(2)]
            callsOk_end [OF K False m t'(2)] fresh])
        (use False e0 e1 fresh_call [OF S] in \<open>auto simp: liveTurn_def activeTurn_def\<close>)
  qed
qed

section \<open>Admission\<close>

lemma dropTombstone_prune: "keysOk a \<Longrightarrow> tidies a (prune E now (a\<lparr>adTombstones := x\<rparr>))"
  using prune_tidies [of "a\<lparr>adTombstones := x\<rparr>"] by (simp add: keysOk_def)

definition admittedTurn :: "adapterEnv \<Rightarrow> adapterConfig \<Rightarrow> startTurnRequest \<Rightarrow> turnState \<Rightarrow> bool" where
  "admittedTurn E cfg r t \<longleftrightarrow>
     (\<exists>now n s p. t = (newTurn E cfg now r n)\<lparr>tnAgentSessionID := s, tnPreviousResponse := p\<rparr>)"

lemma admittedTurn_new: "admittedTurn E cfg r (newTurn E cfg now r n)"
  "admittedTurn E cfg r ((newTurn E cfg now r n)\<lparr>tnAgentSessionID := s, tnPreviousResponse := p\<rparr>)"
proof -
  have "newTurn E cfg now r n = (newTurn E cfg now r n)\<lparr>tnAgentSessionID := tnAgentSessionID (newTurn E cfg now r n),
      tnPreviousResponse := tnPreviousResponse (newTurn E cfg now r n)\<rparr>" by simp
  then show "admittedTurn E cfg r (newTurn E cfg now r n)" unfolding admittedTurn_def by blast
  show "admittedTurn E cfg r ((newTurn E cfg now r n)\<lparr>tnAgentSessionID := s, tnPreviousResponse := p\<rparr>)"
    unfolding admittedTurn_def by blast
qed

text \<open>The turn that an admission inserts, and the state it is inserted into.\<close>

definition inserted :: "adapterEnv \<Rightarrow> adapterConfig \<Rightarrow> startTurnRequest \<Rightarrow> nat \<Rightarrow> turnState \<Rightarrow> adapterState \<Rightarrow> adapterState \<Rightarrow> bool" where
  "inserted E cfg r h t b a \<longleftrightarrow> h = adNext b \<and>
     a = (putTurn h t b)\<lparr>adTurns := fmupd (sqTurnID r) h (adTurns b), adNext := Suc h\<rparr> \<and>
     admittedTurn E cfg r t \<and> fmlookup (adTurns b) (sqTurnID r) = None \<and> \<not> sessionBusy b (sqRuntimeSessionID r) \<and>
     (afMaxConcurrent cfg > 0 \<longrightarrow> int (fmcard (activeTurns b)) < afMaxConcurrent cfg) \<and>
     validateAdapterStartRequest E r = None"

lemma insertTurn_cases:
  assumes i: "insertTurn E cfg now r path b = (adm, a)"
  obtains (refused) "a = b" "\<forall>h p. adm \<noteq> AdNew h p"
  | (added) t where "admittedTurn E cfg r t" "adm = AdNew (adNext b) path"
    "a = (putTurn (adNext b) t b)\<lparr>adTurns := fmupd (sqTurnID r) (adNext b) (adTurns b), adNext := Suc (adNext b)\<rparr>"
proof (cases "startJSON (aeCompact E) (aeTime E) (compactStartTurnRequest r)")
  case None
  with i show ?thesis by (intro refused) (auto simp: insertTurn_def)
next
  case (Some enc)
  show ?thesis
  proof (cases "fmlookup (adSessions b) (sqRuntimeSessionID r)")
    case None
    with i Some show ?thesis by (intro added [OF admittedTurn_new(1)]) (auto simp: insertTurn_def Let_def)
  next
    case s: (Some s)
    show ?thesis
    proof (cases "rtOwnerFingerprint s = tnOwnerFingerprint (newTurn E cfg now r (length enc))")
      case True
      with i Some s show ?thesis by (intro added [OF admittedTurn_new(2)]) (auto simp: insertTurn_def Let_def)
    next
      case False
      with i Some s show ?thesis by (intro refused) (auto simp: insertTurn_def Let_def)
    qed
  qed
qed

lemma admitFresh_cases:
  assumes f: "admitFresh E cfg now r fp path a0 = (adm, a)" and k: "keysOk a0" and v: "validateAdapterStartRequest E r = None"
  shows "(tidies a0 a \<and> (\<forall>h p. adm \<noteq> AdNew h p)) \<or>
    (\<exists>b t h. tidies a0 b \<and> adm = AdNew h path \<and> inserted E cfg r h t b a)"
proof -
  let ?b = "prune E now (a0\<lparr>adTombstones := fmdrop (sqTurnID r) (adTombstones a0)\<rparr>)"
  have b: "tidies a0 ?b" by (rule dropTombstone_prune [OF k])
  consider "a = ?b" "\<forall>h p. adm \<noteq> AdNew h p" | "fmlookup (adTurns ?b) (sqTurnID r) = None" "\<not> sessionBusy ?b (sqRuntimeSessionID r)"
    "afMaxConcurrent cfg > 0 \<longrightarrow> int (fmcard (activeTurns ?b)) < afMaxConcurrent cfg" "insertTurn E cfg now r path ?b = (adm, a)"
    using f unfolding admitFresh_def Let_def by (auto split: option.splits if_splits)
  then show ?thesis
  proof cases
    case 1
    with b show ?thesis by simp
  next
    case 2
    show ?thesis
    proof (cases rule: insertTurn_cases [OF 2(4)])
      case 1
      with b show ?thesis by simp
    next
      case (2 t)
      then have "inserted E cfg r (adNext ?b) t ?b a"
        unfolding inserted_def using \<open>fmlookup (adTurns ?b) (sqTurnID r) = None\<close> \<open>\<not> sessionBusy ?b (sqRuntimeSessionID r)\<close>
          \<open>afMaxConcurrent cfg > 0 \<longrightarrow> int (fmcard (activeTurns ?b)) < afMaxConcurrent cfg\<close> v by blast
      with b 2(2) show ?thesis by blast
    qed
  qed
qed

lemma admitTurn_cases:
  assumes f: "admitTurn E cfg now request a0 = (adm, a)" and k: "keysOk a0"
  shows "(tidies a0 a \<and> (\<forall>h p. adm \<noteq> AdNew h p)) \<or>
    (\<exists>b t h path. tidies a0 b \<and> adm = AdNew h path \<and> inserted E cfg (prepareFoundryStartRequest request) h t b a)"
proof -
  let ?r = "prepareFoundryStartRequest request"
  consider "a = a0" "\<forall>h p. adm \<noteq> AdNew h p" | path where "checkStart E cfg ?r = Inr path"
      "admitFresh E cfg now ?r (startTurnFingerprint E ?r) path a0 = (adm, a)"
    using f unfolding admitTurn_def Let_def by (auto split: sum.splits option.splits if_splits)
  then show ?thesis
  proof cases
    case 1
    then show ?thesis by simp
  next
    case 2
    have "validateAdapterStartRequest E ?r = None" using 2(1) by (auto simp: checkStart_def split: option.splits)
    from admitFresh_cases [OF 2(2) k this] show ?thesis by blast
  qed
qed

lemma validated_ids:
  assumes env: "adapterEnvOk E" and v: "validateAdapterStartRequest E r = None"
  shows "idsOk r"
proof -
  have "find (\<lambda>f. length (lookupString (identityFields r) f) > maxHarnessIdentityBytes)
      (aeOrder E (fmdom (identityFields r))) = None"
    using v by (auto simp: validateAdapterStartRequest_def split: option.splits)
  then have "\<forall>f |\<in>| fmdom (identityFields r). length (lookupString (identityFields r) f) \<le> maxHarnessIdentityBytes"
    using env by (auto simp: find_None_iff adapterEnvOk_def)
  then have "\<forall>f \<in> {''runtime session id'', ''turn id'', ''correlation id''}.
      length (lookupString (identityFields r) f) \<le> maxHarnessIdentityBytes"
    by (auto simp: identityFields_def)
  then show ?thesis by (simp add: idsOk_def identityFields_def lookupString_def)
qed

lemma admittedTurn_open:
  assumes cfg: "cfgOk cfg" and t: "admittedTurn E cfg r t"
  shows "openOk E cfg r t" "tnInitErr t = None" "tnInitializing t" "tnProviderInFlight t = 0" "\<not> tnWaitingForTools t"
    "\<not> tnCompleted t" "tnFrames t = []" "sqTurnID (tnRequest t) = sqTurnID r"
    "sqRuntimeSessionID (tnRequest t) = sqRuntimeSessionID r"
proof -
  from t obtain now n s p where t': "t = (newTurn E cfg now r n)\<lparr>tnAgentSessionID := s, tnPreviousResponse := p\<rparr>"
    by (auto simp: admittedTurn_def)
  show "openOk E cfg r t" unfolding t' using cfg
    by (auto simp: openOk_def coreOk_def textOk_def streamOk_def sameIdentity_def framesOk_def toolsOk_def newTurn_def
        compactStartTurnRequest_def cfgOk_def outputText_def writeRequested_def)
qed (use t in \<open>auto simp: admittedTurn_def newTurn_def compactStartTurnRequest_def\<close>)

lemma live_active: "liveTurn t \<Longrightarrow> activeTurn t"
  by (auto simp: liveTurn_def activeTurn_def)

lemma keysOk_unnamed: "keysOk b \<Longrightarrow> fmlookup (adHeap b) h = None \<Longrightarrow> fmlookup (adTurns b) k \<noteq> Some h"
  by (auto elim: keysOkD)

lemma sessionsOk_insert:
  assumes ok: "sessionsOk cfg b" "keysOk b" and i: "inserted E cfg r h t b a" and h: "fmlookup (adHeap b) h = None"
    and id: "sqTurnID (tnRequest t) = sqTurnID r" "sqRuntimeSessionID (tnRequest t) = sqRuntimeSessionID r"
  shows "sessionsOk cfg a"
proof -
  let ?k = "sqTurnID r"
  have a: "fmlookup (adHeap a) j = (if j = h then Some t else fmlookup (adHeap b) j)"
    "fmlookup (adTurns a) k = (if k = ?k then Some h else fmlookup (adTurns b) k)" for j k
    using i by (simp_all add: inserted_def putTurn_def)
  have free: "fmlookup (adTurns b) ?k = None" using i by (simp add: inserted_def)
  have named: "fmlookup (adTurns b) (sqTurnID (tnRequest u)) = Some j" if "fmlookup (adHeap b) j = Some u" "liveTurn u" for j u
    using ok(1) that by (auto simp: sessionsOk_def)
  have apart: "sqRuntimeSessionID (tnRequest u) \<noteq> sqRuntimeSessionID r" if u: "fmlookup (adHeap b) j = Some u" "liveTurn u" for j u
  proof
    assume same: "sqRuntimeSessionID (tnRequest u) = sqRuntimeSessionID r"
    let ?x = "sqTurnID (tnRequest u)"
    have "fmlookup (activeTurns b) ?x = Some j"
      using named [OF u] u live_active [OF u(2)] by (simp add: activeTurns_def turnNamed_def)
    then have "sessionBusy b (sqRuntimeSessionID r)"
      using same u(1) unfolding sessionBusy_def fmexists_def fmpred_iff by (force simp: turnOf_def)
    with i show False by (simp add: inserted_def)
  qed
  have "fmdom (activeTurns a) |\<subseteq>| finsert ?k (fmdom (activeTurns b))"
  proof
    fix k assume "k |\<in>| fmdom (activeTurns a)"
    then show "k |\<in>| finsert ?k (fmdom (activeTurns b))" using keysOk_unnamed [OF ok(2) h] by (auto simp: in_activeTurns a split: if_splits)
  qed
  then have "fmcard (activeTurns a) \<le> fcard (finsert ?k (fmdom (activeTurns b)))" by (simp add: fmcard_def fcard_mono)
  also have "\<dots> \<le> Suc (fmcard (activeTurns b))" by (simp add: fmcard_def fcard_finsert_if)
  finally have "afMaxConcurrent cfg > 0 \<longrightarrow> int (fmcard (activeTurns a)) \<le> afMaxConcurrent cfg"
    using i by (auto simp: inserted_def)
  moreover have "fmlookup (adTurns a) (sqTurnID (tnRequest u)) = Some j" if "fmlookup (adHeap a) j = Some u" "liveTurn u" for j u
  proof (cases "j = h")
    case False
    with that named [of j u] free show ?thesis by (auto simp: a)
  qed (use that id in \<open>simp add: a\<close>)
  moreover have "sqRuntimeSessionID (tnRequest u) \<noteq> sqRuntimeSessionID (tnRequest u')"
    if u: "fmlookup (adHeap a) j = Some u" "fmlookup (adHeap a) j' = Some u'" "liveTurn u" "liveTurn u'" "j \<noteq> j'" for j u j' u'
  proof -
    consider "j = h" "fmlookup (adHeap b) j' = Some u'" | "j' = h" "fmlookup (adHeap b) j = Some u"
      | "fmlookup (adHeap b) j = Some u" "fmlookup (adHeap b) j' = Some u'"
      using u by (auto simp: a split: if_splits)
    then show ?thesis
    proof cases
      case 1
      with apart [OF 1(2)] u id show ?thesis by (simp add: a)
    next
      case 2
      with apart [OF 2(2)] u id show ?thesis by (auto simp: a)
    next
      case 3
      with ok(1) u show ?thesis unfolding sessionsOk_def by blast
    qed
  qed
  ultimately show ?thesis unfolding sessionsOk_def by blast
qed

lemma step_insert:
  assumes env: "adapterEnvOk E" "cfgOk cfg" and S: "sysOk E cfg S" and i: "inserted E cfg r h t (asAd S) a"
    and ph: "ph \<noteq> StartOver"
  shows "sysOk E cfg (setStart h r ph (S\<lparr>asAd := a\<rparr>)) \<and> adGrows (asAd S) a"
proof -
  let ?b = "asAd S" and ?S = "setStart h r ph (S\<lparr>asAd := a\<rparr>)"
  have h: "h = adNext ?b" and t: "admittedTurn E cfg r t" using i by (simp_all add: inserted_def)
  have a: "fmlookup (adHeap a) j = (if j = h then Some t else fmlookup (adHeap ?b) j)"
    "fmlookup (adTurns a) k = (if k = sqTurnID r then Some h else fmlookup (adTurns ?b) k)" "adNext a = Suc h" for j k
    using i by (simp_all add: inserted_def putTurn_def)
  have none: "fmlookup (adHeap ?b) h = None"
    using sysOkD(1) [OF S] h by (cases "fmlookup (adHeap ?b) h") (auto simp: tableOk_def)
  then have K: "callsOf (asCalls S) h = {}" using sysOkD(6) [OF S] by (fastforce simp: callsOf_def)
  note new = admittedTurn_open [OF env(2) t]
  have "keysOk (asAd ?S)"
    using sysOkD(2) [OF S] keysOk_unnamed [OF sysOkD(2) [OF S] none] new(8) unfolding keysOk_def by (auto simp: a)
  moreover have "fmlookup (adHeap (asAd ?S)) j = None \<longleftrightarrow> fmlookup (asStarts ?S) j = None" for j
    using sysOkD(4) [OF S, of j] by (simp add: a)
  moreover have "j < adNext (asAd ?S)" if "fmlookup (adHeap (asAd ?S)) j = Some u" for j u
    using that sysOkD(1) [OF S] h by (auto simp: a tableOk_def less_SucI split: if_splits)
  moreover have "j < asNextCall ?S \<and> fmlookup (adHeap (asAd ?S)) (vcTurn v) \<noteq> None"
    if "fmlookup (asCalls ?S) j = Some (v, p)" for j v p
    using that sysOkD(6) [OF S, of j v p] by (auto simp: a)
  ultimately have "tableOk ?S" unfolding tableOk_def by blast
  moreover have "sessionsOk cfg a" by (rule sessionsOk_insert [OF sysOkD(3,2) [OF S] i none new(8,9)])
  moreover have "handleOk E cfg t r ph {}"
    using new ph validated_ids [OF env(1)] i
    by (simp add: handleOk_def turnOk_def callsOk_def answersOk_def inserted_def)
  then have "handleOk E cfg u q x (callsOf (asCalls S) j)"
    if "fmlookup (adHeap a) j = Some u" "fmlookup (asStarts ?S) j = Some (q, x)" for j u q x
    using that K sysOkD(5) [OF S, of j u q x] by (cases "j = h") (auto simp: a)
  moreover have "causeOk t" using t by (auto simp: admittedTurn_def newTurn_def causeOk_def)
  then have "adGrows ?b a" using none unfolding adGrows_def by (auto simp: a)
  ultimately show ?thesis by (simp add: sysOk_def)
qed

lemma adGrows_refl [simp]: "adGrows a a"
  unfolding adGrows_def by (metis grows_refl option.distinct(1))

lemma adGrows_some:
  assumes "adGrows a b" "fmlookup (adHeap a) h = Some t"
  obtains t' where "fmlookup (adHeap b) h = Some t'" "grows t t'"
  using assms unfolding adGrows_def by blast

lemma adGrows_new: "adGrows a b \<Longrightarrow> fmlookup (adHeap a) h = None \<Longrightarrow> fmlookup (adHeap b) h = Some t \<Longrightarrow> causeOk t"
  unfolding adGrows_def by blast

lemma grows_cause: "grows t t' \<Longrightarrow> causeOk t \<Longrightarrow> causeOk t'"
  by (simp add: grows_def)

lemma adGrows_trans:
  assumes ab: "adGrows a b" and bc: "adGrows b c"
  shows "adGrows a c"
  unfolding adGrows_def
proof (intro conjI allI impI)
  fix h t assume "fmlookup (adHeap a) h = Some t"
  from adGrows_some [OF ab this] obtain u where u: "fmlookup (adHeap b) h = Some u" "grows t u" .
  from adGrows_some [OF bc u(1)] show "\<exists>v. fmlookup (adHeap c) h = Some v \<and> grows t v" using grows_trans [OF u(2)] by metis
next
  fix h t assume h: "fmlookup (adHeap a) h = None \<and> fmlookup (adHeap c) h = Some t"
  show "causeOk t"
  proof (cases "fmlookup (adHeap b) h")
    case None
    with h adGrows_new [OF bc] show ?thesis by blast
  next
    case (Some u)
    with adGrows_some [OF bc Some] h have "grows u t" by auto
    then show ?thesis using grows_cause adGrows_new [OF ab] h Some by blast
  qed
qed

lemma step_admission:
  assumes env: "adapterEnvOk E" "cfgOk cfg" and S: "sysOk E cfg S" and f: "admitTurn E cfg now request (asAd S) = (adm, a)"
  shows "(\<forall>h path. adm \<noteq> AdNew h path) \<Longrightarrow> sysOk E cfg (S\<lparr>asAd := a\<rparr>) \<and> adGrows (asAd S) a"
    and "adm = AdNew h path \<Longrightarrow> ph \<noteq> StartOver \<Longrightarrow>
      sysOk E cfg (setStart h (prepareFoundryStartRequest request) ph (S\<lparr>asAd := a\<rparr>)) \<and> adGrows (asAd S) a"
proof -
  note c = admitTurn_cases [OF f sysOkD(2) [OF S]]
  show "sysOk E cfg (S\<lparr>asAd := a\<rparr>) \<and> adGrows (asAd S) a" if "\<forall>h path. adm \<noteq> AdNew h path"
    using c that sysOk_tidy [OF S] by blast
  show "sysOk E cfg (setStart h (prepareFoundryStartRequest request) ph (S\<lparr>asAd := a\<rparr>)) \<and> adGrows (asAd S) a"
    if adm: "adm = AdNew h path" and ph: "ph \<noteq> StartOver"
  proof -
    from c adm obtain b t where b: "tidies (asAd S) b" "inserted E cfg (prepareFoundryStartRequest request) h t b a" by blast
    from sysOk_tidy [OF S b(1)] have B: "sysOk E cfg (S\<lparr>asAd := b\<rparr>)" "adGrows (asAd S) b" by simp_all
    have "inserted E cfg (prepareFoundryStartRequest request) h t (asAd (S\<lparr>asAd := b\<rparr>)) a" using b(2) by simp
    from step_insert [OF env B(1) this ph] B(2) adGrows_trans show ?thesis by auto
  qed
qed

section \<open>Every step\<close>

theorem adStep_ok:
  assumes env: "adapterEnvOk E" "cfgOk cfg" and S: "sysOk E cfg S" and step: "adStep E cfg S S'"
  shows "sysOk E cfg S' \<and> adGrows (asAd S) (asAd S')"
  using step
proof cases
  case (notAdmitted now request adm a)
  with step_admission(1) [OF env S] show ?thesis by auto
next
  case (admitted request now h path a)
  with step_admission(2) [OF env S admitted(3) refl] show ?thesis by auto
next
  case (sessionFailed h r e over a)
  with step_sessionFailed [OF S] show ?thesis by auto
next
  case (sessionMade h r sid goes a)
  with step_sessionMade [OF S sessionMade(2,3)] show ?thesis by auto
next
  case (started h r res a)
  with step_started [OF S] show ?thesis by auto
next
  case (begun i v runs a)
  with step_begun [OF S begun(2,3)] show ?thesis by auto
next
  case (callback i v now ev e v' t')
  with step_callback [OF env S] show ?thesis by auto
next
  case (ended i v e now s res a)
  with step_ended [OF env S ended(2)] show ?thesis by auto
next
  case (released i v known now)
  from call_turn [OF S released(2)] obtain t where t: "fmlookup (adHeap (asAd S)) (vcTurn v) = Some t" by metis
  have "tidies (asAd S) (releaseTurn now (vcTurn v) (asAd S))"
    by (rule releaseTurn_tidies [OF sysOkD(2) [OF S] t]) (use released(3) in \<open>simp add: turnOf_Some [OF t]\<close>)
  with released(1) sysOk_tidy [OF S] show ?thesis by auto
next
  case (continued h t now request err res a)
  with step_continued [OF env S] show ?thesis by auto
next
  case (cancelled now request err a)
  with step_cancelled [OF env S] show ?thesis by auto
next
  case (deadline h t)
  with step_deadline [OF S] show ?thesis by auto
next
  case (watched h r now)
  with step_watched [OF env S] show ?thesis by auto
next
  case (flushed h t now)
  with step_flushed [OF env S] show ?thesis by auto
next
  case (cleaned now turnID)
  with sysOk_tidy [OF S cleanupTimer_tidies [OF sysOkD(2) [OF S]]] show ?thesis by auto
next
  case (looked now turnID found a)
  then have "tidies (asAd S) a" using prune_tidies [OF sysOkD(2) [OF S]] by (auto simp: getTurn_def Let_def)
  with looked(1) sysOk_tidy [OF S] show ?thesis by auto
qed

lemma sysOk_init: "sysOk E cfg adInit"
proof -
  have "activeTurns newAdapter = fmempty" by (rule fmap_ext) (simp add: activeTurns_def newAdapter_def)
  then show ?thesis
    by (simp add: sysOk_def tableOk_def sessionsOk_def keysOk_def adInit_def newAdapter_def)
qed

theorem adReachable_ok:
  assumes "adapterEnvOk E" "cfgOk cfg" "adReachable E cfg S"
  shows "sysOk E cfg S"
  using assms(3) by (induction rule: rtranclp_induct) (use assms(1,2) sysOk_init adStep_ok in blast)+

theorem adRun_grows:
  assumes "adapterEnvOk E" "cfgOk cfg" "sysOk E cfg S" "(adStep E cfg)\<^sup>*\<^sup>* S S'"
  shows "sysOk E cfg S' \<and> adGrows (asAd S) (asAd S')"
  using assms(4)
proof (induction rule: rtranclp_induct)
  case base
  with assms(3) show ?case by simp
next
  case (step S1 S2)
  with adStep_ok [OF assms(1,2)] adGrows_trans show ?case by blast
qed

end
