(* ===== verification/AdapterFacts.thy ===== *)
theory AdapterFacts
  imports AdapterSteps AsciiText
begin

text \<open>
  The properties of the adapter, over every execution of \<^verbatim>\<open>AdapterSystem\<close>: the streams that the
  harness reads, the provider calls behind them, and the end of every turn.
\<close>

section \<open>A turn of a reachable state\<close>

lemma turn_handle:
  assumes "adapterEnvOk E" "cfgOk cfg" "adReachable E cfg S" "fmlookup (adHeap (asAd S)) h = Some t"
    and "fmlookup (asStarts S) h = Some (r, ph)"
  shows "handleOk E cfg t r ph (callsOf (asCalls S) h)"
  using sysOkD(5) [OF adReachable_ok [OF assms(1-3)] assms(4,5)] .

text \<open>An ended stream: one terminal frame, at its end.\<close>

lemma closed_frames:
  assumes "closedOk cfg r t"
  obtains fs z where "tnFrames t = fs @ [z]" "openFrames fs" "endingOk r (tnInvocationUncertain t) fs z"
  using assms by (auto simp: closedOk_def)

lemma turnOk_stream: "turnOk E cfg r t \<Longrightarrow> framesOk r (tnFrames t)"
  by (auto simp: turnOk_def closedOk_def openOk_def coreOk_def streamOk_def)

lemma turnOk_open: "turnOk E cfg r t \<Longrightarrow> \<not> tnCompleted t \<Longrightarrow> openOk E cfg r t"
  using closed_completed by (auto simp: turnOk_def)

lemma turnOk_closed: "turnOk E cfg r t \<Longrightarrow> tnCompleted t \<Longrightarrow> closedOk cfg r t"
  using open_completed by (auto simp: turnOk_def)

lemma open_frames: "openOk E cfg r t \<Longrightarrow> openFrames (tnFrames t)"
  by (simp add: openOk_def coreOk_def)

text \<open>A frame with a payload of the end is the last one.\<close>

lemma payload_last:
  assumes t: "turnOk E cfg r t" and f: "f \<in> set (tnFrames t)" "frCompleted f \<noteq> None \<or> frFailed f \<noteq> None"
  obtains fs where "tnFrames t = fs @ [f]" "openFrames fs" "endingOk r (tnInvocationUncertain t) fs f"
proof -
  from f(1) obtain i where i: "i < length (tnFrames t)" "tnFrames t ! i = f" by (auto simp: in_set_conv_nth)
  with turnOk_stream [OF t] have "frameOk r i f" by (auto simp: framesOk_def)
  with f(2) have terminal: "terminalType (frType f)" by (auto simp: frameOk_def terminalType_def)
  have "tnCompleted t"
  proof (rule ccontr)
    assume "\<not> tnCompleted t"
    from open_frames [OF turnOk_open [OF t this]] f(1) terminal show False by (simp add: openFrames_def)
  qed
  from closed_frames [OF turnOk_closed [OF t this]] obtain fs z
    where z: "tnFrames t = fs @ [z]" "openFrames fs" "endingOk r (tnInvocationUncertain t) fs z" .
  with f(1) terminal have "f = z" by (auto simp: openFrames_def)
  with z that show ?thesis by simp
qed

section \<open>The stream\<close>

text \<open>C10: in every reachable state the stream of every turn is well formed: its frames carry the identity of the request
  that started the turn and the sequence numbers 1, 2, ..., the first frame and no other is the start, no frame before the last
  is terminal, and the turn has ended exactly when its last frame is terminal.\<close>

theorem stream_wellformed:
  assumes "adapterEnvOk E" "cfgOk cfg" "adReachable E cfg S" "fmlookup (adHeap (asAd S)) h = Some t"
    and "fmlookup (asStarts S) h = Some (r, ph)"
  shows "framesOk r (tnFrames t) \<and> openFrames (butlast (tnFrames t)) \<and>
    (tnCompleted t \<longleftrightarrow> tnFrames t \<noteq> [] \<and> terminalType (frType (last (tnFrames t))))"
proof -
  have t: "turnOk E cfg r t" using turn_handle [OF assms] by (simp add: handleOk_def)
  show ?thesis
  proof (cases "tnCompleted t")
    case True
    from closed_frames [OF turnOk_closed [OF t True]] obtain fs z where "tnFrames t = fs @ [z]" "openFrames fs" "endingOk r (tnInvocationUncertain t) fs z" .
    with True turnOk_stream [OF t] show ?thesis by (simp add: endingOk_def)
  next
    case False
    have o: "openFrames (tnFrames t)" by (rule open_frames [OF turnOk_open [OF t False]])
    with False turnOk_stream [OF t] show ?thesis by (auto simp: openFrames_def dest: in_set_butlastD last_in_set)
  qed
qed

text \<open>A stream only grows: what a reader has seen of a turn stays, whatever happens later, and nothing follows
  the terminal frame.\<close>

theorem stream_append_only:
  assumes "adapterEnvOk E" "cfgOk cfg" "adReachable E cfg S" "(adStep E cfg)\<^sup>*\<^sup>* S S'" "fmlookup (adHeap (asAd S)) h = Some t"
  shows "\<exists>t'. fmlookup (adHeap (asAd S')) h = Some t' \<and> prefix (tnFrames t) (tnFrames t') \<and>
    (tnCompleted t \<longrightarrow> tnCompleted t' \<and> tnFrames t' = tnFrames t)"
proof -
  have "adGrows (asAd S) (asAd S')" using adRun_grows [OF assms(1,2) adReachable_ok [OF assms(1-3)] assms(4)] by simp
  from adGrows_some [OF this assms(5)] obtain t' where "fmlookup (adHeap (asAd S')) h = Some t'" "grows t t'" .
  then show ?thesis by (intro exI [of _ t']) (simp add: grows_def)
qed

text \<open>The result that a completed turn reports is exactly the text of the output frames that were streamed before it.\<close>

theorem completed_result_is_output:
  assumes "adapterEnvOk E" "cfgOk cfg" "adReachable E cfg S" "fmlookup (adHeap (asAd S)) h = Some t"
    and "f \<in> set (tnFrames t)" "frCompleted f = Some c"
  shows "tcResult c = outputText (tnFrames t)"
proof -
  have S: "sysOk E cfg S" by (rule adReachable_ok [OF assms(1-3)])
  from sysOk_handle [OF S assms(4)] obtain r ph where "fmlookup (asStarts S) h = Some (r, ph)"
    "handleOk E cfg t r ph (callsOf (asCalls S) h)" .
  then have t: "turnOk E cfg r t" by (simp add: handleOk_def)
  from payload_last [OF t assms(5)] assms(6) obtain fs where fs: "tnFrames t = fs @ [f]" "endingOk r (tnInvocationUncertain t) fs f" by auto
  then have "frType f \<noteq> RuntimeOutput" by (auto simp: endingOk_def terminalType_def)
  with fs assms(6) show ?thesis by (simp add: endingOk_def)
qed

text \<open>C12: a failure is reported as retryable only when repeating the turn cannot repeat a side effect: no brokered write
  was offered to the client, the tools did not run in the provider, and every call of the turn was either never sent
  or answered with a response that was accepted.\<close>

theorem retry_safe:
  assumes "adapterEnvOk E" "cfgOk cfg" "adReachable E cfg S" "fmlookup (adHeap (asAd S)) h = Some t"
    and "fmlookup (asStarts S) h = Some (r, ph)" "f \<in> set (tnFrames t)" "frFailed f = Some x" "tfRetryable x"
  shows "\<not> writeRequested r (tnFrames t) \<and> sqToolExecutionMode r \<noteq> modeObserved \<and>
    (\<forall>i v p. fmlookup (asCalls S) i = Some (v, p) \<and> vcTurn v = h \<longrightarrow> p \<in> {CallQueued, CallEnded True, CallDropped})"
proof -
  have ok: "handleOk E cfg t r ph (callsOf (asCalls S) h)" by (rule turn_handle [OF assms(1-5)])
  then have t: "turnOk E cfg r t" and K: "callsOk t ph (callsOf (asCalls S) h)" by (simp_all add: handleOk_def)
  from payload_last [OF t assms(6)] assms(7) obtain fs
    where fs: "tnFrames t = fs @ [f]" "endingOk r (tnInvocationUncertain t) fs f" by auto
  then have safe: "\<not> tnInvocationUncertain t" "\<not> writeRequested r fs" "sqToolExecutionMode r \<noteq> modeObserved" "terminalType (frType f)"
    using assms(7,8) by (auto simp: endingOk_def)
  have "p \<in> {CallQueued, CallEnded True, CallDropped}" if "fmlookup (asCalls S) i = Some (v, p)" "vcTurn v = h" for i v p
    by (rule callsOkD(8) [OF K safe(1), of i "vcRequest v"]) (use that in \<open>auto simp: callsOf_def\<close>)
  with safe fs(1) show ?thesis by (auto simp: writeRequested_snoc terminalType_def)
qed

section \<open>Provider calls\<close>

lemma call_start:
  assumes S: "sysOk E cfg S" and i: "fmlookup (asCalls S) i = Some (v, p)"
  obtains t r where "fmlookup (adHeap (asAd S)) (vcTurn v) = Some t"
    "callsOk t StartOver (callsOf (asCalls S) (vcTurn v))" "answersOk E r t (callsOf (asCalls S) (vcTurn v))"
proof -
  from call_turn [OF S i] obtain t r ph where t: "fmlookup (adHeap (asAd S)) (vcTurn v) = Some t"
    "handleOk E cfg t r ph (callsOf (asCalls S) (vcTurn v))" "(i, vcRequest v, p) \<in> callsOf (asCalls S) (vcTurn v)" .
  then have "ph = StartOver" using callsOkD(4) [of t ph] by (auto simp: handleOk_def)
  with t that show ?thesis by (auto simp: handleOk_def)
qed



text \<open>C14: no tool call of the provider is answered twice: over all the calls ever made for a turn, each call id occurs
  at most once among the outputs that they carry.\<close>

theorem tool_call_answered_once:
  assumes "adapterEnvOk E" "cfgOk cfg" "adReachable E cfg S"
    and "fmlookup (asCalls S) i = Some (v, p)" "fmlookup (asCalls S) j = Some (w, q)" "vcTurn w = vcTurn v"
  shows "distinct (answeredCalls (vcRequest v)) \<and>
    (i \<noteq> j \<longrightarrow> set (answeredCalls (vcRequest v)) \<inter> set (answeredCalls (vcRequest w)) = {})"
proof -
  have S: "sysOk E cfg S" by (rule adReachable_ok [OF assms(1-3)])
  from call_start [OF S assms(4)] obtain t r where "answersOk E r t (callsOf (asCalls S) (vcTurn v))" by metis
  moreover have "(i, vcRequest v, p) \<in> callsOf (asCalls S) (vcTurn v)" "(j, vcRequest w, q) \<in> callsOf (asCalls S) (vcTurn v)"
    using assms(4-6) by (auto simp: callsOf_def)
  ultimately show ?thesis unfolding answersOk_def by blast
qed

text \<open>C17: a turn never exceeds its limits: the events, the text, the brokered calls and the bytes kept for them stay
  within the configuration, and no more turns are active than it allows.\<close>

theorem turn_limits:
  assumes "adapterEnvOk E" "cfgOk cfg" "adReachable E cfg S" "fmlookup (adHeap (asAd S)) h = Some t"
  shows "int (length (tnFrames t)) \<le> afMaxEvents cfg \<and>
    (0 < afMaxConcurrent cfg \<longrightarrow> int (fmcard (activeTurns (asAd S))) \<le> afMaxConcurrent cfg) \<and>
    (\<not> tnCompleted t \<longrightarrow> int (length (tnText t)) \<le> afMaxOutputBytes cfg \<and>
      (0 < afMaxBrokeredCalls cfg \<longrightarrow> tnBrokeredCallCount t \<le> afMaxBrokeredCalls cfg) \<and>
      (0 < afMaxBrokeredTurnBytes cfg \<longrightarrow> tnBrokeredStateBytes t \<le> afMaxBrokeredTurnBytes cfg))"
proof -
  have S: "sysOk E cfg S" by (rule adReachable_ok [OF assms(1-3)])
  from sysOk_handle [OF S assms(4)] obtain r ph where "handleOk E cfg t r ph (callsOf (asCalls S) h)" .
  then have t: "turnOk E cfg r t" by (simp add: handleOk_def)
  have "int (length (tnFrames t)) \<le> afMaxEvents cfg"
    using t by (auto simp: turnOk_def closedOk_def openOk_def coreOk_def)
  moreover have "0 < afMaxConcurrent cfg \<longrightarrow> int (fmcard (activeTurns (asAd S))) \<le> afMaxConcurrent cfg"
    using sysOkD(3) [OF S] by (simp add: sessionsOk_def)
  moreover have "textOk cfg t \<and> toolsOk E cfg t" if "\<not> tnCompleted t"
    using turnOk_open [OF t that] by (simp add: openOk_def coreOk_def)
  ultimately show ?thesis by (simp add: textOk_def toolsOk_def)
qed

section \<open>What a reader gets\<close>

text \<open>A reader that resumes after sequence number \<open>n\<close> gets exactly the frames with a greater number, so that it loses
  none and sees none twice.\<close>

theorem resume_exact:
  assumes "adapterEnvOk E" "cfgOk cfg" "adReachable E cfg S" "fmlookup (adHeap (asAd S)) h = Some t"
  shows "fst (framesAfter t n) = filter (\<lambda>f. frSeq f > n) (tnFrames t)"
proof -
  have S: "sysOk E cfg S" by (rule adReachable_ok [OF assms(1-3)])
  from sysOk_handle [OF S assms(4)] obtain r ph where "handleOk E cfg t r ph (callsOf (asCalls S) h)" .
  then have "turnOk E cfg r t" by (simp add: handleOk_def)
  then have "framesOk r (tnFrames t)" by (rule turnOk_stream)
  then have q: "frSeq (tnFrames t ! i) = int i + 1" if "i < length (tnFrames t)" for i
    using that by (auto simp: framesOk_def frameOk_def)
  let ?k = "if n > 0 then nat (min n (int (length (tnFrames t)))) else 0"
  have "filter (\<lambda>f. frSeq f > n) (take ?k (tnFrames t)) = []"
    by (auto simp: filter_empty_conv in_set_conv_nth q)
  moreover have "filter (\<lambda>f. frSeq f > n) (drop ?k (tnFrames t)) = drop ?k (tnFrames t)"
    by (auto simp: filter_id_conv in_set_conv_nth q split: if_splits)
  ultimately have "filter (\<lambda>f. frSeq f > n) (take ?k (tnFrames t) @ drop ?k (tnFrames t)) = drop ?k (tnFrames t)"
    by (simp only: filter_append append_Nil)
  then show ?thesis by (simp add: framesAfter_def)
qed

text \<open>The requests that were admitted have an identity.\<close>

lemma firstError_None: "firstError es = None \<longleftrightarrow> (\<forall>e \<in> set es. e = None)"
  by (induction es rule: firstError.induct) auto

lemma refuse_None [simp]: "refuse b e = None \<longleftrightarrow> \<not> b"
  by (simp add: refuse_def)

lemma start_ids: "validateStart q v r = None \<Longrightarrow> \<not> blank (sqRuntimeSessionID r) \<and> \<not> blank (sqTurnID r) \<and> \<not> blank (sqCorrelationID r)"
  unfolding validateStart_def firstError_None by simp

lemma frame_names: "\<not> blank (frameName TurnStarted)" "\<not> blank (frameName RuntimeOutput)" "\<not> blank (frameName ToolCallRequested)"
  "\<not> blank (frameName ToolResultReceived)" "\<not> blank (frameName ApprovalRequested)" "\<not> blank (frameName FtTurnCompleted)"
  "\<not> blank (frameName FtTurnFailed)" "\<not> blank (frameName FtTurnCancelled)" "\<not> blank (frameName RuntimeLog)"
  by (simp_all add: blank_def frameName_def graphic_trimSpace graphic_def byte_def)

lemma frame_version: "validateVersion q ProtocolVersion = None"
proof -
  have "trimSpace ProtocolVersion = ProtocolVersion" "ProtocolVersion \<noteq> []"
    by (simp_all add: ProtocolVersion_def graphic_trimSpace graphic_def byte_def)
  then show ?thesis by (simp add: validateVersion_def)
qed

lemma frame_kinds: "frameName ty = frameName FtTurnCompleted \<Longrightarrow> \<forall>s. ty \<noteq> OtherFrame s \<Longrightarrow> ty = FtTurnCompleted"
  "frameName ty = frameName FtTurnFailed \<Longrightarrow> \<forall>s. ty \<noteq> OtherFrame s \<Longrightarrow> ty = FtTurnFailed"
  by (cases ty; simp add: frameName_def)+

definition startsNamed :: "adSystem \<Rightarrow> bool" where
  "startsNamed S \<longleftrightarrow> (\<forall>h r ph. fmlookup (asStarts S) h = Some (r, ph) \<longrightarrow>
     \<not> blank (sqRuntimeSessionID r) \<and> \<not> blank (sqTurnID r) \<and> \<not> blank (sqCorrelationID r))"

lemma startsNamed_set: "startsNamed S \<Longrightarrow> fmlookup (asStarts S) h = Some (r, ph) \<Longrightarrow> startsNamed (setStart h r ph' (S\<lparr>asAd := a\<rparr>))"
  unfolding startsNamed_def by (auto simp: setStart_def)

lemma startsNamed_same: "asStarts S' = asStarts S \<Longrightarrow> startsNamed S \<Longrightarrow> startsNamed S'"
  by (simp add: startsNamed_def)

lemma prepare_ids [simp]: "sqRuntimeSessionID (prepareFoundryStartRequest r) = sqRuntimeSessionID r"
  "sqTurnID (prepareFoundryStartRequest r) = sqTurnID r" "sqCorrelationID (prepareFoundryStartRequest r) = sqCorrelationID r"
  by (simp_all add: prepareFoundryStartRequest_def)

lemma startsNamed_step:
  assumes "adStep E cfg S S'" "startsNamed S"
  shows "startsNamed S'"
  using assms(1)
proof cases
  case (admitted request now h path a)
  then show ?thesis using assms(2) start_ids [OF admitted(2)] by (auto simp: startsNamed_def)
next
  case (sessionFailed h r e over a)
  with startsNamed_set [OF assms(2)] show ?thesis by simp
next
  case (sessionMade h r sid goes a)
  with startsNamed_set [OF assms(2)] show ?thesis by simp
next
  case (started h r res a)
  show ?thesis unfolding started(1)
    by (rule startsNamed_same [OF spawn_simps(2) startsNamed_set [OF assms(2) started(2)]])
qed (rule startsNamed_same [OF _ assms(2)]; simp)+

lemma startsNamed_reachable: "adReachable E cfg S \<Longrightarrow> startsNamed S"
proof (induction rule: rtranclp_induct)
  case base
  show ?case by (simp add: startsNamed_def adInit_def)
next
  case (step S S')
  then show ?case using startsNamed_step by blast
qed

text \<open>C16: every frame that the adapter puts on a stream passes the validation of the harness protocol, so that no
  consumer has a reason to refuse it.\<close>

theorem frames_validate:
  assumes "adapterEnvOk E" "cfgOk cfg" "adReachable E cfg S" "fmlookup (adHeap (asAd S)) h = Some t" "f \<in> set (tnFrames t)"
  shows "validateFrame q f = None"
proof -
  have S: "sysOk E cfg S" by (rule adReachable_ok [OF assms(1-3)])
  from sysOk_handle [OF S assms(4)] obtain r ph where r: "fmlookup (asStarts S) h = Some (r, ph)"
    "handleOk E cfg t r ph (callsOf (asCalls S) h)" .
  have ids: "\<not> blank (sqRuntimeSessionID r)" "\<not> blank (sqTurnID r)" "\<not> blank (sqCorrelationID r)"
    using startsNamed_reachable [OF assms(3)] r(1) unfolding startsNamed_def by blast+
  from assms(5) obtain i where i: "i < length (tnFrames t)" "tnFrames t ! i = f" by (auto simp: in_set_conv_nth)
  have "turnOk E cfg r t" using r(2) by (simp add: handleOk_def)
  from turnOk_stream [OF this] i have "frameOk r i f" by (auto simp: framesOk_def)
  moreover from this have "\<not> blank (frameName (frType f))" using frame_names by (cases "frType f") (auto simp: frameOk_def)
  ultimately show ?thesis using ids frame_kinds [of "frType f"]
    unfolding validateFrame_def firstError_None by (auto simp: frameOk_def frame_version)
qed

section \<open>The end of every turn\<close>

text \<open>A turn whose context has ended is ended by its watcher.\<close>

lemma causeOk_reachable:
  assumes "adapterEnvOk E" "cfgOk cfg" "adReachable E cfg S" "fmlookup (adHeap (asAd S)) h = Some t"
  shows "causeOk t"
proof -
  have "(adStep E cfg)\<^sup>*\<^sup>* adInit S" using assms(3) .
  from adRun_grows [OF assms(1,2) sysOk_init this] have "adGrows (asAd adInit) (asAd S)" by simp
  moreover have "fmlookup (adHeap (asAd adInit)) h = None" by (simp add: adInit_def newAdapter_def)
  ultimately show ?thesis using adGrows_new assms(4) by blast
qed

lemma watched_ends:
  assumes env: "adapterEnvOk E" "cfgOk cfg" and S: "adReachable E cfg S" and t: "fmlookup (adHeap (asAd S)) h = Some t"
    and c: "tnInitErr t = None" "tnCause t \<noteq> None"
  shows "\<exists>t'. fmlookup (adHeap (watchDeadline E cfg now h (asAd S))) h = Some t' \<and> tnCompleted t'"
proof (cases "tnCompleted t")
  case True
  then show ?thesis using t by (simp add: watchDeadline_def turnOf_Some [OF t])
next
  case False
  have ok: "sysOk E cfg S" by (rule adReachable_ok [OF env S])
  from sysOk_handle [OF ok t] obtain r ph where r: "handleOk E cfg t r ph (callsOf (asCalls S) h)" .
  then have ids: "idsOk r" by (simp add: handleOk_def)
  have d: "tnCause t = Some AeDeadline" using causeOk_reachable [OF env S t] c False by (auto simp: causeOk_def)
  from watchDeadline_ok [OF env ids t handleOk_open [OF r False], of now] d obtain t'
    where t': "tidies (putTurn h t' (asAd S)) (watchDeadline E cfg now h (asAd S))" "closedOk cfg r t'" by blast
  have "fmlookup (adHeap (putTurn h t' (asAd S))) h = Some t'" by simp
  from settles_some [OF tidies_settles [OF t'(1)] this] obtain b
    where "fmlookup (adHeap (watchDeadline E cfg now h (asAd S))) h = Some (t'\<lparr>tnCleanupTimer := b\<rparr>)" .
  then show ?thesis using closed_completed [OF t'(2)] by simp
qed

text \<open>An execution that goes on for ever.\<close>

definition adRun :: "adapterEnv \<Rightarrow> adapterConfig \<Rightarrow> (nat \<Rightarrow> adSystem) \<Rightarrow> bool" where
  "adRun E cfg \<sigma> \<longleftrightarrow> \<sigma> 0 = adInit \<and> (\<forall>n. adStep E cfg (\<sigma> n) (\<sigma> (Suc n)))"

lemma adRun_reaches:
  assumes "adRun E cfg \<sigma>" "n \<le> m"
  shows "(adStep E cfg)\<^sup>*\<^sup>* (\<sigma> n) (\<sigma> m)"
  using assms(2)
proof (induction m rule: dec_induct)
  case (step m)
  have "adStep E cfg (\<sigma> m) (\<sigma> (Suc m))" using assms(1) by (simp add: adRun_def)
  with step.IH show ?case by (rule rtranclp.rtrancl_into_rtrancl)
qed simp

lemma adRun_reachable: "adRun E cfg \<sigma> \<Longrightarrow> adReachable E cfg (\<sigma> n)"
  using adRun_reaches [of E cfg \<sigma> 0 n] by (simp add: adRun_def)

lemma adRun_turn:
  assumes env: "adapterEnvOk E" "cfgOk cfg" and run: "adRun E cfg \<sigma>" "n \<le> m"
    and t: "fmlookup (adHeap (asAd (\<sigma> n))) h = Some t"
  obtains t' where "fmlookup (adHeap (asAd (\<sigma> m))) h = Some t'" "grows t t'"
proof -
  have "adGrows (asAd (\<sigma> n)) (asAd (\<sigma> m))"
    using adRun_grows [OF env adReachable_ok [OF env adRun_reachable [OF run(1)]] adRun_reaches [OF run]] by simp
  from adGrows_some [OF this t] that show ?thesis .
qed

text \<open>C11: every turn that was started ends: in an infinite execution in which the deadline of the turn's context passes
  and the watcher that \<open>startTurn\<close> spawned runs at some later time, the turn has ended from some time on, with a
  terminal frame at the end of a stream that never changes again.\<close>

theorem turn_ends:
  assumes "adapterEnvOk E" "cfgOk cfg" "adRun E cfg \<sigma>"
    and "fmlookup (adHeap (asAd (\<sigma> n))) h = Some t" "\<not> tnInitializing t" "tnInitErr t = None"
    and "n \<le> d" "asAd (\<sigma> (Suc d)) = deadlinePassed h (asAd (\<sigma> d))"
    and "d < w" "asAd (\<sigma> (Suc w)) = watchDeadline E cfg now h (asAd (\<sigma> w))"
  shows "\<exists>fs z. terminalType (frType z) \<and> (\<forall>m > w. \<exists>t'. fmlookup (adHeap (asAd (\<sigma> m))) h = Some t' \<and>
    tnCompleted t' \<and> tnFrames t' = fs @ [z])"
proof -
  note env = assms(1,2) and run = assms(3)
  from adRun_turn [OF env run assms(7,4)] obtain t1 where t1: "fmlookup (adHeap (asAd (\<sigma> d))) h = Some t1" "grows t t1" .
  obtain t2 where t2: "fmlookup (adHeap (asAd (\<sigma> (Suc d)))) h = Some t2" "tnCause t2 \<noteq> None"
    "tnInitializing t2 = tnInitializing t1" "tnInitErr t2 = tnInitErr t1"
    using assms(8) t1(1) by (cases "tnCause t1 = None") (auto simp: deadlinePassed_def turnOf_Some [OF t1(1)])
  have "Suc d \<le> w" using assms(9) by simp
  from adRun_turn [OF env run this t2(1)] obtain t3 where t3: "fmlookup (adHeap (asAd (\<sigma> w))) h = Some t3" "grows t2 t3" .
  have "tnInitErr t3 = None" "tnCause t3 \<noteq> None"
    using t1(2) t2(2-4) t3(2) assms(5,6) by (auto simp: grows_def)
  from watched_ends [OF env adRun_reachable [OF run] t3(1) this, of now] assms(10) obtain t4
    where t4: "fmlookup (adHeap (asAd (\<sigma> (Suc w)))) h = Some t4" "tnCompleted t4" by auto
  have ok: "sysOk E cfg (\<sigma> (Suc w))" by (rule adReachable_ok [OF env adRun_reachable [OF run]])
  from sysOk_handle [OF ok t4(1)] obtain r ph where "handleOk E cfg t4 r ph (callsOf (asCalls (\<sigma> (Suc w))) h)" .
  then have "turnOk E cfg r t4" by (simp add: handleOk_def)
  from closed_frames [OF turnOk_closed [OF this t4(2)]] obtain fs z
    where z: "tnFrames t4 = fs @ [z]" "endingOk r (tnInvocationUncertain t4) fs z" .
  have "\<exists>t'. fmlookup (adHeap (asAd (\<sigma> m))) h = Some t' \<and> tnCompleted t' \<and> tnFrames t' = fs @ [z]" if "m > w" for m
  proof -
    have "Suc w \<le> m" using that by simp
    from adRun_turn [OF env run this t4(1)] obtain t5 where "fmlookup (adHeap (asAd (\<sigma> m))) h = Some t5" "grows t4 t5" .
    with t4(2) z(1) show ?thesis by (intro exI [of _ t5]) (simp add: grows_def)
  qed
  with z(2) show ?thesis by (intro exI [of _ fs] exI [of _ z]) (simp add: endingOk_def)
qed

end
