(* ===== verification/AdapterReport.thy ===== *)
theory AdapterReport
  imports AdapterFits AdapterFacts
begin

text \<open>
  A response that completes is reported: within the limits of the configuration the terminal frame
  of a completed turn fits, and it carries the whole text.
\<close>

lemma ensureStarted_none:
  assumes env: "adapterEnvOk E" "cfgOk cfg" "idsOk r" and t: "openOk E cfg r t" and room: "int (length (tnFrames t)) + 1 < afMaxEvents cfg"
  obtains t' where "ensureStarted E cfg now t = (None, t')" "length (tnFrames t') \<le> length (tnFrames t) + 1"
proof (cases "tnStarted t")
  case True
  then show ?thesis using that [of t] by (simp add: ensureStarted_def)
next
  case False
  have core: "coreOk E cfg r t" using t by (simp add: openOk_def)
  obtain b where b: "appendFrame E now TurnStarted ''Foundry response started'' id t =
      (None, pushed t (newFrame now TurnStarted ''Foundry response started'' t) b)"
    using started_fits [OF env(1) coreOk_ids [OF core env(3)] small [OF env(2) core]] .
  have "ensureCapacity cfg t 1 = None" using room ensureCapacity_None [OF env(2), of t 1] by simp
  with b False have "ensureStarted E cfg now t =
      (None, (pushed t (newFrame now TurnStarted ''Foundry response started'' t) b)\<lparr>tnStarted := True\<rparr>)"
    by (simp add: ensureStarted_def)
  with that show ?thesis by simp
qed

lemma flushOutput_none:
  assumes env: "adapterEnvOk E" "cfgOk cfg" "idsOk r" and t: "openOk E cfg r t" and room: "int (length (tnFrames t)) + 1 < afMaxEvents cfg"
  obtains t' where "flushOutput E cfg now t = (None, t')"
proof -
  obtain e t' where f: "flushOutput E cfg now t = (e, t')" by fastforce
  have u: "ensureCapacity cfg (t\<lparr>tnFlushTimer := False\<rparr>) 1 = None"
    using room ensureCapacity_None [OF env(2), of "t\<lparr>tnFlushTimer := False\<rparr>" 1] by simp
  have "e = None"
  proof (cases "tnPendingOutput t = []")
    case False
    let ?v = "t\<lparr>tnFlushTimer := False, tnPendingOutput := []\<rparr>"
    have v: "coreOk E cfg r ?v" using t by (simp add: openOk_def)
    have "length (tnPendingOutput t) \<le> length (tnText t)" using t by (metis le_add2 length_append openOk_def textOk_def)
    moreover have "int (length (tnText t)) \<le> 1048576" using t env(2) by (simp add: openOk_def textOk_def cfgOk_def)
    ultimately have "length (tnPendingOutput t) \<le> 1048576" by linarith
    from output_fits [OF env(1) coreOk_ids [OF v env(3)] small [OF env(2) v] this]
    obtain b where "appendFrame E now RuntimeOutput ''Foundry output'' (\<lambda>f. f\<lparr>frContentText := tnPendingOutput t\<rparr>) ?v =
      (None, pushed ?v ((newFrame now RuntimeOutput ''Foundry output'' ?v)\<lparr>frContentText := tnPendingOutput t\<rparr>) b)" .
    with f False u show ?thesis by (simp add: flushOutput_def Let_def del: One_nat_def)
  qed (use f in \<open>simp add: flushOutput_def Let_def\<close>)
  with f that show ?thesis by simp
qed

lemma finishCompleted_reports:
  assumes env: "adapterEnvOk E" "cfgOk cfg" "idsOk r" and t: "fmlookup (adHeap a) h = Some t" "openOk E cfg r t"
    and flushed: "tnPendingOutput t = []" "tnStarted t"
  obtains t' c now' where "fmlookup (adHeap (finishCompleted E cfg now h a)) h = Some t'" "tnCompleted t'"
    "tnFrames t' = tnFrames t @ [(newFrame now FtTurnCompleted ''Foundry response completed'' t)\<lparr>frCompleted := Some c\<rparr>]"
    "tcResult c = tnText t"
proof -
  let ?v = "t\<lparr>tnFlushTimer := False\<rparr>" and ?u = "recorded True (t\<lparr>tnFlushTimer := False\<rparr>)"
  let ?c = "completion (tnText t) (tnAgentSessionID ?u \<noteq> [] \<or> tnResponseID ?u \<noteq> [])"
  have v: "beforeTerminal E cfg now t = ?v"
    using flushed by (simp add: beforeTerminal_def ensureTerminalStarted_def flushBestEffort_def flushOutput_def)
  have u: "coreOk E cfg r ?u" "tnFrames ?u = tnFrames t" "tnRequest ?u = tnRequest t"
    using t(2) by (simp_all add: openOk_def recorded_def)
  have "int (length (tnText t)) \<le> 1048576" using t(2) env(2) by (simp add: openOk_def textOk_def cfgOk_def)
  then have len: "length (tnText t) \<le> 1048576" by linarith
  from completion_fits [OF env(1) coreOk_ids [OF u(1) env(3)] small [OF env(2) u(1)] this]
  obtain n where n: "appendFrame E now FtTurnCompleted ''Foundry response completed'' (\<lambda>f. f\<lparr>frCompleted := Some ?c\<rparr>) ?u =
    (None, pushed ?u ((newFrame now FtTurnCompleted ''Foundry response completed'' ?u)\<lparr>frCompleted := Some ?c\<rparr>) n)" by blast
  obtain s where "recordRuntimeSession E now True h (putTurn h ?v a) = (putTurn h ?u a)\<lparr>adSessions := s\<rparr>"
    by (rule recordRuntimeSession_put)
  then have fin: "finishCompleted E cfg now h a = finishTerminal E now h (putTurn h
      (pushed ?u ((newFrame now FtTurnCompleted ''Foundry response completed'' ?u)\<lparr>frCompleted := Some ?c\<rparr>) n) (a\<lparr>adSessions := s\<rparr>))"
    using n by (simp add: finishCompleted_def turnOf_Some [OF t(1)] v terminalFrame_def completion_def Let_def)
  let ?w = "pushed ?u ((newFrame now FtTurnCompleted ''Foundry response completed'' ?u)\<lparr>frCompleted := Some ?c\<rparr>) n"
  have "\<not> tnCompleted ?w" using u(1) by (simp add: coreOk_def)
  from tidies_settles [OF finishTerminal_tidies [OF this, of h E now "a\<lparr>adSessions := s\<rparr>"]]
  obtain b where "fmlookup (adHeap (finishCompleted E cfg now h a)) h = Some ((endTurn E now ?w)\<lparr>tnCleanupTimer := b\<rparr>)"
    unfolding fin by (rule settles_some [where h = h and t = "endTurn E now ?w"]) simp_all
  moreover have "newFrame now FtTurnCompleted ''Foundry response completed'' ?u = newFrame now FtTurnCompleted ''Foundry response completed'' t"
    using u by (simp add: newFrame_def)
  ultimately show ?thesis using that [of "(endTurn E now ?w)\<lparr>tnCleanupTimer := b\<rparr>" ?c] u(2) by (simp add: completion_def)
qed

lemma endInvocation_reports:
  assumes "adapterEnvOk E" "cfgOk cfg" "sysOk E cfg S" "fmlookup (asCalls S) i = Some (v, CallRunning)"
    and "fmlookup (adHeap (asAd S)) (vcTurn v) = Some t" "\<not> tnCompleted t" "tnCause t \<noteq> Some AeDeadline"
    and "tnPendingTools t = fmempty" "int (length (tnFrames t)) + 2 < afMaxEvents cfg"
    and "fst (callResult E s None v) = None" "terminalStatus E s = ''completed''"
    and "endInvocation E cfg now s None v (asAd S) = (res, a)"
  shows "res = None \<and> (\<exists>t' c. fmlookup (adHeap a) (vcTurn v) = Some t' \<and> tnCompleted t' \<and>
    frCompleted (last (tnFrames t')) = Some c \<and> tcResult c = tnText t)"
proof -
  let ?a = "asAd S" and ?h = "vcTurn v"
  note env = assms(1,2)
  note S = assms(3)
  from sysOk_handle [OF S assms(5)] obtain r ph where ok: "handleOk E cfg t r ph (callsOf (asCalls S) ?h)" .
  then have ids: "idsOk r" and t: "openOk E cfg r t" using handleOk_open assms(6) by (auto simp: handleOk_def)
  obtain v' where c: "callResult E s None v = (None, v')" using assms(10) by (cases "callResult E s None v") simp
  then have v': "vcTurn v' = ?h"
    by (auto simp: callResult_def recordInvocationIDs_def Let_def split: option.splits if_splits)
  let ?t1 = "accepted v' t"
  have t1: "openOk E cfg r ?t1" "tnText ?t1 = tnText t" "tnFrames ?t1 = tnFrames t" "tnPendingTools ?t1 = tnPendingTools t"
    using accepted_ok [OF t] by (simp_all add: accepted_def releaseProvider_def)
  have "int (length (tnFrames ?t1)) + 1 < afMaxEvents cfg" using assms(9) t1(3) by simp
  from ensureStarted_none [OF env ids t1(1) this, of now] obtain t2
    where t2: "ensureStarted E cfg now ?t1 = (None, t2)" "length (tnFrames t2) \<le> length (tnFrames ?t1) + 1" .
  from ensureStarted_ok [OF env ids t1(1) t2(1)] have o2: "openOk E cfg r t2" "tnStarted t2" "tnText t2 = tnText t" "tnPendingTools t2 = fmempty"
    using t1 assms(8) by auto
  have "int (length (tnFrames t2)) + 1 < afMaxEvents cfg" using assms(9) t2(2) t1(3) by simp
  from flushOutput_none [OF env ids o2(1) this, of now] obtain t3 where t3: "flushOutput E cfg now t2 = (None, t3)" .
  from flushOutput_ok [OF env ids o2(1) t3] have o3: "openOk E cfg r t3" "tnStarted t3" "tnText t3 = tnText t" "tnPendingTools t3 = fmempty"
    "tnPendingOutput t3 = []" using o2 by auto
  have h: "fmlookup (adHeap ?a) (vcTurn v') = Some t" using assms(5) v' by simp
  have "endInvocation E cfg now s None v ?a = afterStatus E cfg now s ?h (putTurn ?h t3 ?a)"
    using c t2(1) t3 endSucceeded_eq [OF h assms(6,7)] v' by (simp add: endInvocation_def)
  also have "\<dots> = (None, finishCompleted E cfg now ?h (putTurn ?h t3 ?a))"
    using o3(4) assms(11) by (simp add: afterStatus_def endCompleted_def Let_def turnOf_def putTurn_def)
  finally have run: "res = None" "a = finishCompleted E cfg now ?h (putTurn ?h t3 ?a)" using assms(12) by simp_all
  from finishCompleted_reports [OF env ids putTurn_heap o3(1,5,2), of now ?h ?a] obtain t' c where
    "fmlookup (adHeap a) ?h = Some t'" "tnCompleted t'"
    "tnFrames t' = tnFrames t3 @ [(newFrame now FtTurnCompleted ''Foundry response completed'' t3)\<lparr>frCompleted := Some c\<rparr>]"
    "tcResult c = tnText t3" unfolding run(2) .
  with run(1) o3(3) show ?thesis by auto
qed

text \<open>C15: a response that the provider completes is reported as completed, with the whole text: when the call of an open
  turn returns an accepted completed response, no tool call is pending, the deadline has not passed and two more events are
  allowed, the turn ends at once with a completed frame whose result is the text received.\<close>

theorem completed_reported:
  assumes "adapterEnvOk E" "cfgOk cfg" "adReachable E cfg S" "fmlookup (asCalls S) i = Some (v, CallRunning)"
    and "fmlookup (adHeap (asAd S)) (vcTurn v) = Some t" "\<not> tnCompleted t" "tnCause t \<noteq> Some AeDeadline"
    and "tnPendingTools t = fmempty" "int (length (tnFrames t)) + 2 < afMaxEvents cfg"
    and "fst (callResult E s None v) = None" "terminalStatus E s = ''completed''"
    and "endInvocation E cfg now s None v (asAd S) = (res, a)"
  shows "res = None \<and> (\<exists>t' c. fmlookup (adHeap a) (vcTurn v) = Some t' \<and> tnCompleted t' \<and>
    frCompleted (last (tnFrames t')) = Some c \<and> tcResult c = tnText t)"
  by (rule endInvocation_reports [OF assms(1,2) adReachable_ok [OF assms(1-3)] assms(4-)])

end
