(* ===== verification/HarnessPaths.thy ===== *)
theory HarnessPaths
  imports HarnessProtocol AsciiText
begin

text \<open>
  The resource paths of a turn (\<^verbatim>\<open>src/internal/harness/turn_path.go\<close>): what the client builds is
  what the server parses.
\<close>

lemma unhex_upper: "n < 16 \<Longrightarrow> unhex (upperHexDigit n) = Some n"
  by (auto simp: unhex_def upperHexDigit_def byte_def)

lemma pathUnescape_escape: "pathUnescape (pathEscape s) = Some s"
proof (induction s)
  case (Cons c s)
  have safe: "pathSafe c \<Longrightarrow> c \<noteq> CHR ''%''" by (auto simp: pathSafe_def isAlnum_def isDigit_def byte_def)
  have "byte c < 256" by (rule byte_less)
  then have "byte c div 16 < 16" "byte c mod 16 < 16" by linarith+
  moreover have "char_of (16 * (byte c div 16) + byte c mod 16) = c" by (simp add: byte_def)
  ultimately show ?case using Cons safe by (simp add: pathEscape_def unhex_upper)
qed (simp add: pathEscape_def)

lemma splitChar_single: "c \<notin> set s \<Longrightarrow> splitChar c s = [s]"
  by (induction c s rule: splitChar.induct) (auto split: list.splits)

lemma splitChar_append: "c \<notin> set s \<Longrightarrow> splitChar c (s @ c # r) = s # splitChar c r"
  by (induction s) auto

lemma trimChar_none: "s \<noteq> [] \<Longrightarrow> hd s \<noteq> c \<Longrightarrow> last s \<noteq> c \<Longrightarrow> trimChar s c = s"
proof -
  assume s: "s \<noteq> []" "hd s \<noteq> c" "last s \<noteq> c"
  then have "dropWhile (\<lambda>x. x = c) s = s" by (cases s) auto
  moreover have "dropWhile (\<lambda>x. x = c) (rev s) = rev s" using s by (cases s rule: rev_cases) auto
  ultimately show ?thesis by (simp add: trimChar_def trimRightChar_def)
qed

lemma pathSafe_graphic: "pathSafe c \<Longrightarrow> 33 \<le> byte c \<and> byte c < 127 \<and> c \<noteq> CHR ''/''"
  by (auto simp: pathSafe_def isAlnum_def isDigit_def byte_def)

lemma pathEscape_graphic: "graphic (pathEscape s)" "CHR ''/'' \<notin> set (pathEscape s)" "pathEscape s = [] \<longleftrightarrow> s = []"
proof -
  have "33 \<le> byte c \<and> byte c < 127 \<and> c \<noteq> CHR ''/''" if "c \<in> set (pathEscape s)" for c
    using pathEscape_safe [OF that] pathSafe_graphic by (auto simp: byte_def)
  then show "graphic (pathEscape s)" "CHR ''/'' \<notin> set (pathEscape s)" by (auto simp: graphic_def list_all_iff)
  show "pathEscape s = [] \<longleftrightarrow> s = []" by (cases s) (auto simp: pathEscape_def)
qed

definition turnResources :: "string set" where
  "turnResources = {''events'', ''continue'', ''cancel'', ''output''}"

lemma turnResources_plain:
  "r \<in> turnResources \<Longrightarrow> graphic r \<and> r \<noteq> [] \<and> CHR ''/'' \<notin> set r \<and> CHR 0x5C \<notin> set r \<and> r \<noteq> ''.'' \<and> r \<noteq> ''..''"
  by (auto simp: turnResources_def graphic_def byte_def)

lemma TurnsPath_graphic: "graphic (trimRightChar TurnsPath (CHR ''/''))"
  by (simp add: TurnsPath_def trimRightChar_def graphic_def byte_def)

lemma graphic_append: "graphic (s @ t) \<longleftrightarrow> graphic s \<and> graphic t" "graphic (CHR ''/'' # s) \<longleftrightarrow> graphic s"
  by (simp_all add: graphic_def byte_def)

lemma TurnResourcePath_eq:
  assumes "ValidateTurnPathSegment turnID = None" "r \<in> turnResources"
  shows "TurnResourcePath turnID r = Inr (trimRightChar TurnsPath (CHR ''/'') @ ''/'' @ pathEscape turnID @ ''/'' @ r)"
proof -
  have r: "graphic r" "r \<noteq> []" "CHR ''/'' \<notin> set r" "CHR 0x5C \<notin> set r" "r \<noteq> ''.''" "r \<noteq> ''..''"
    using turnResources_plain [OF assms(2)] by blast+
  then have "hd r \<noteq> CHR ''/''" "last r \<noteq> CHR ''/''" using hd_in_set last_in_set by metis+
  then have "trimChar (trimSpace r) (CHR ''/'') = r" using r by (simp add: graphic_trimSpace trimChar_none)
  with assms(1) r show ?thesis by (simp add: TurnResourcePath_def)
qed

text \<open>C24: for every turn id that the protocol admits and every resource of a turn, the path that the client builds is parsed
  by the server as exactly that turn and that resource; in particular no two turns share a path.\<close>

theorem turn_path_roundtrip:
  assumes "ValidateTurnPathSegment turnID = None" "r \<in> turnResources" "TurnResourcePath turnID r = Inr path"
  shows "ParseTurnResourcePath path = Inr (turnID, r)"
proof -
  let ?p = "trimRightChar TurnsPath (CHR ''/'') @ ''/''" and ?q = "pathEscape turnID @ CHR ''/'' # r"
  have r: "graphic r" "r \<noteq> []" "CHR ''/'' \<notin> set r" "CHR 0x5C \<notin> set r"
    using turnResources_plain [OF assms(2)] by blast+
  have path: "path = ?p @ ?q" using assms(3) TurnResourcePath_eq [OF assms(1,2)] by simp
  have "turnID \<noteq> []" using assms(1) by (auto simp: ValidateTurnPathSegment_def trimSpace_Nil)
  then have e: "pathEscape turnID \<noteq> []" by (simp add: pathEscape_graphic(3))
  have "graphic path" using r(1) by (simp add: path graphic_append TurnsPath_graphic pathEscape_graphic(1))
  then have "trimSpace path = path" by (rule graphic_trimSpace)
  moreover have "trimPrefix path ?p = ?q" by (simp add: path trimPrefix_def hasPrefix_def)
  moreover have "hd ?q \<noteq> CHR ''/''" "last ?q \<noteq> CHR ''/''"
    using e r(2,3) pathEscape_graphic(2) [of turnID] by (metis hd_append2 hd_in_set, metis last_ConsR last_appendR last_in_set list.distinct(1))
  then have "trimChar ?q (CHR ''/'') = ?q" by (intro trimChar_none) auto
  moreover have "splitChar (CHR ''/'') ?q = [pathEscape turnID, r]"
    using splitChar_append [OF pathEscape_graphic(2)] splitChar_single [OF r(3)] by simp
  moreover have "?q \<noteq> path" by (auto simp: path)
  ultimately show ?thesis
    using assms(1) r graphic_trimSpace [OF r(1)] by (simp add: ParseTurnResourcePath_def Let_def pathUnescape_escape)
qed

theorem turn_path_roundtrip_witness: "ParseTurnResourcePath ''/v1/turns/a%20b/events'' = Inr (''a b'', ''events'')"
proof -
  have "trimSpace ''a b'' = ''a b''" by (rule trimSpace_ascii) (simp_all add: isSpace_def byte_def)
  then have v: "ValidateTurnPathSegment ''a b'' = None" by (simp add: ValidateTurnPathSegment_def)
  have r: "''events'' \<in> turnResources" by (simp add: turnResources_def)
  have "pathEscape ''a b'' = ''a%20b''" by code_simp
  then have "TurnResourcePath ''a b'' ''events'' = Inr ''/v1/turns/a%20b/events''"
    by (simp add: TurnResourcePath_eq [OF v r] TurnsPath_def trimRightChar_def)
  from turn_path_roundtrip [OF v r this] show ?thesis .
qed

end
