(* ===== verification/AdapterExample.thy ===== *)
theory AdapterExample
  imports AdapterReport HarnessPaths
begin

text \<open>
  Executions of the adapter on a small configuration: one turn that streams a text and completes, and
  one whose deadline passes before its provider call begins. They show that the
  hypotheses of the properties hold together.
\<close>

section \<open>Configuration and request\<close>

definition exE :: adapterEnv where
  "exE = \<lparr>aeSha = (\<lambda>_. replicate 32 (CHR ''a'')), aeQuote = id, aeLower = id, aeTime = (\<lambda>_. ''t''), aeValid = (\<lambda>_. True),
     aeCompact = Some, aeString = (\<lambda>_. None), aeObject = (\<lambda>_. True), aeOrder = sorted_list_of_fset\<rparr>"

definition exCfg :: adapterConfig where
  "exCfg = \<lparr>afAddr = '':8080'', afRuntimeName = ''r'', afAdapterBearer = ''b'', afProjectEndpoint = ''p'', afResponsesEndpoint = [],
     afAgentName = ''a'', afAgentVersion = [], afAPIVersion = ''v1'', afTurnTimeout = 60, afIsolationMode = ''entra'',
     afFoundryFeatures = [], afMaxOutputBytes = 1000, afMaxStreamBytes = 1000, afMaxEventBytes = 1000, afMaxBrokeredBytes = 10000,
     afMaxBrokeredTurnBytes = 100000, afMaxBrokeredCalls = 8, afMaxEvents = 100, afMaxConcurrent = 4,
     afBrokeredToolClasses = [''read''], afBrokeredToolClassSetting = ''read'', afToolSchemaMode = []\<rparr>"

definition exTool :: toolDefinition where
  "exTool = \<lparr>tdName = ''f'', tdDescription = [], tdBrokeredClass = classRead, tdParameters = []\<rparr>"

definition exReq :: startTurnRequest where
  "exReq = \<lparr>sqVersion = ProtocolVersion, sqNamespace = ''n'', sqTaskName = ''k'', sqSessionName = ''s'',
     sqRuntimeSessionID = ''r'', sqTurnID = ''t'', sqCorrelationID = ''c'', sqDeadline = 100,
     sqAuthIdentity = \<lparr>aiSubject = ''u'', aiIssuer = [], aiUsername = [], aiGroups = [], aiRoles = []\<rparr>,
     sqToolPolicyRef = None, sqApprovalPolicyRef = None, sqEventCursor = 0,
     sqInput = \<lparr>tiPrompt = ''hello'', tiContextRefs = [], tiEnv = [],
       tiTools = [exTool]\<rparr>,
     sqToolExecutionMode = modeBrokered, sqMetadata = fmempty\<rparr>"

lemma exE_ok [simp]: "adapterEnvOk exE"
  by (simp add: adapterEnvOk_def exE_def)

lemma exCfg_ok [simp]: "cfgOk exCfg"
  by (simp add: cfgOk_def exCfg_def)

lemma graphic_letters [simp]: "graphic ''n''" "graphic ''k''" "graphic ''s''" "graphic ''r''" "graphic ''t''" "graphic ''c''" "graphic ''u''" "graphic ''f''"
  by (simp_all add: graphic_def byte_def)

lemma letters_blank [simp]: "\<not> blank ''n''" "\<not> blank ''k''" "\<not> blank ''s''" "\<not> blank ''r''" "\<not> blank ''t''" "\<not> blank ''c''" "\<not> blank ''u''" "\<not> blank ''f''"
  by (simp_all add: blank_def graphic_trimSpace)

lemma exTool_valid: "validateTool q v exTool = None"
  unfolding validateTool_def firstError_None by (simp add: exTool_def IsKnownBrokeredToolClass_def)

lemma exReq_valid: "validateStart (aeQuote exE) (aeValid exE) exReq = None"
  unfolding validateStart_def firstError_None
  by (simp add: exReq_def frame_version ValidateTurnPathSegment_def graphic_trimSpace prefixError_def IsKnownToolExecutionMode_def
      exTool_valid)

lemma exReq_prepared: "prepareFoundryStartRequest exReq = exReq"
  by (simp add: prepareFoundryStartRequest_def exReq_def modeBrokered_def)

lemma exReq_path: "EventStreamPath ''t'' = Inr ''/v1/turns/t/events''"
proof -
  have "ValidateTurnPathSegment ''t'' = None" by (simp add: ValidateTurnPathSegment_def graphic_trimSpace)
  moreover have "pathEscape ''t'' = ''t''" by code_simp
  ultimately show ?thesis
    by (simp add: EventStreamPath_def TurnResourcePath_eq turnResources_def TurnsPath_def trimRightChar_def)
qed

section \<open>A started turn\<close>

definition exT0 :: turnState where
  "exT0 = newTurn exE exCfg 0 exReq (length (the (startJSON (aeCompact exE) (aeTime exE) (compactStartTurnRequest exReq))))"

definition exT1 :: turnState where
  "exT1 = exT0\<lparr>tnInitializing := False, tnInitDone := True\<rparr>"

definition exAd :: "turnState \<Rightarrow> adapterState" where
  "exAd t = \<lparr>adTurns = fmupd ''t'' 0 fmempty, adHeap = fmupd 0 t fmempty, adSessions = fmempty, adTombstones = fmempty, adNext = 1\<rparr>"

definition exCall :: invocation where
  "exCall = newInvocation 0 (firstRequest exCfg exReq exT1)"

definition exSys :: "turnState \<Rightarrow> invocation \<Rightarrow> callPhase \<Rightarrow> adSystem" where
  "exSys t v p = \<lparr>asAd = exAd t, asStarts = fmupd 0 (exReq, StartOver) fmempty, asCalls = fmupd 0 (v, p) fmempty, asNextCall = 1\<rparr>"

lemma exAd_turn [simp]: "turnOf (exAd t) 0 = t" "putTurn 0 u (exAd t) = exAd u" "fmlookup (adHeap (exAd t)) 0 = Some t"
  "fmlookup (adTurns (exAd t)) ''t'' = Some 0"
  by (simp_all add: turnOf_def putTurn_def exAd_def)

lemma exSys_simps [simp]: "asAd (exSys t v p) = exAd t" "fmlookup (asStarts (exSys t v p)) 0 = Some (exReq, StartOver)"
  "fmlookup (asCalls (exSys t v p)) 0 = Some (v, p)"
  by (simp_all add: exSys_def)

lemma fcard_none [simp]: "fcard {||} = 0"
  by (simp add: fcard.rep_eq)

lemma newAdapter_simps [simp]: "adTombstones newAdapter = fmempty" "adTurns newAdapter = fmempty" "adHeap newAdapter = fmempty"
  "newAdapter\<lparr>adTombstones := fmempty\<rparr> = newAdapter"
  by (simp_all add: newAdapter_def)

lemma newAdapter_prune: "prune E now newAdapter = newAdapter"
proof -
  have none: "retainedMap newAdapter = fmempty" by (rule fmap_ext) (simp add: retainedMap_def newAdapter_def)
  have "pruneRuntimeSessions E now fmempty = fmempty" "pruneTombstones E now fmempty = fmempty"
    by (simp_all add: pruneRuntimeSessions_def pruneTombstones_def evictOldest.simps fmcard_def)
  moreover have "pruneRetained E [] newAdapter = newAdapter"
    by (subst pruneRetained.simps) (simp add: none Let_def fmcard_def maxRetainedTurns_def maxRetainedTurnStateBytes_def
        sorted_list_of_fset.rep_eq)
  moreover have "fold (\<lambda>k a. case turnNamed a k of None \<Rightarrow> a
     | Some t \<Rightarrow> if tnCompleted t \<and> tnCleanupAt t \<le> now then maybeDeleteExpired now t a else a) ks newAdapter = newAdapter" for ks
    by (induction ks) (simp_all add: turnNamed_def newAdapter_def)
  then have "pruneExpired E now newAdapter = newAdapter" by (simp add: pruneExpired_def)
  ultimately show ?thesis by (simp add: prune_def Let_def newAdapter_def)
qed

lemma exReq_checked: "checkStart exE exCfg exReq = Inr ''/v1/turns/t/events''"
proof -
  have none: "find (\<lambda>f. length (lookupString (identityFields exReq) f) > maxHarnessIdentityBytes) ks = None" for ks
  proof -
    have "length (lookupString (identityFields exReq) f) \<le> maxHarnessIdentityBytes" for f
      by (auto simp: lookupString_def identityFields_def exReq_def maxHarnessIdentityBytes_def split: option.splits)
    then show ?thesis by (auto simp: find_None_iff not_less)
  qed
  have "validateAdapterStartRequest exE exReq = None"
    unfolding validateAdapterStartRequest_def none
    by (simp add: exReq_def exTool_def MaxPromptBytes_def DefaultMaxBrokeredCalls_def MaxToolSchemaBytes_def)
  moreover have "EventStreamPath (sqTurnID exReq) = Inr ''/v1/turns/t/events''" by (simp add: exReq_def exReq_path)
  ultimately show ?thesis
    by (simp add: checkStart_def) (simp add: exReq_def exCfg_def exTool_def validateConfiguredToolDefinitions_def graphic_trimSpace
      ValidateFunctionName_def isAlnum_def byte_def foundryToolClassSupported_def classRead_def)
qed

lemma exAdmitted: "admitTurn exE exCfg 0 exReq newAdapter = (AdNew 0 ''/v1/turns/t/events'', exAd exT0)"
proof -
  have enc: "startJSON (aeCompact exE) (aeTime exE) (compactStartTurnRequest exReq) \<noteq> None"
    by (simp add: startJSON_def inputJSON_def compactStartTurnRequest_def exReq_def exTool_def Let_def toolJSON_def rawMember_def)
  have "\<not> sessionBusy newAdapter (sqRuntimeSessionID exReq)"
    by (auto simp: sessionBusy_def fmexists_def fmpred_iff activeTurns_def)
  moreover have "fmcard (activeTurns newAdapter) = 0"
  proof -
    have "activeTurns newAdapter = fmempty" by (rule fmap_ext) (simp add: activeTurns_def newAdapter_def)
    then show ?thesis by (simp add: fmcard_def fcard.rep_eq)
  qed
  moreover have "insertTurn exE exCfg 0 exReq path newAdapter = (AdNew 0 path, exAd exT0)" for path
    using enc by (auto simp: insertTurn_def exT0_def newAdapter_def exAd_def putTurn_def exReq_def)
  ultimately show ?thesis
    by (simp add: admitTurn_def exReq_prepared exReq_checked Let_def admitFresh_def newAdapter_prune)
qed

definition exFirst :: adSystem where
  "exFirst = setStart 0 exReq StartReady (adInit\<lparr>asAd := exAd exT0\<rparr>)"

lemma exFirst_step: "adStep exE exCfg adInit exFirst"
proof -
  have "admitTurn exE exCfg 0 exReq (asAd adInit) = (AdNew 0 ''/v1/turns/t/events'', exAd exT0)"
    by (simp add: adInit_def exAdmitted)
  from adStep.admitted [OF exReq_valid this] show ?thesis
    by (simp add: exReq_prepared needsSession_def exFirst_def) (simp add: exCfg_def)
qed

lemma exStarted_step: "adStep exE exCfg exFirst (exSys exT1 exCall CallQueued)"
proof -
  have "\<not> tnCompleted exT0" by (simp add: exT0_def newTurn_def)
  then have "completeInit exCfg exReq 0 (asAd exFirst) = (Some (firstRequest exCfg exReq exT1), exAd exT1)"
    by (simp add: completeInit_def Let_def exT1_def exFirst_def)
  moreover have "fmlookup (asStarts exFirst) 0 = Some (exReq, StartReady)" by (simp add: setStart_def exFirst_def)
  ultimately have "adStep exE exCfg exFirst (spawn 0 (Some (firstRequest exCfg exReq exT1)) (setStart 0 exReq StartOver (exFirst\<lparr>asAd := exAd exT1\<rparr>)))"
    by (intro adStep.started)
  moreover have "spawn 0 (Some (firstRequest exCfg exReq exT1)) (setStart 0 exReq StartOver (exFirst\<lparr>asAd := exAd exT1\<rparr>)) =
      exSys exT1 exCall CallQueued"
    by (simp add: spawn_def setStart_def exSys_def exCall_def adInit_def exFirst_def)
  ultimately show ?thesis by simp
qed

lemma exStep: "adReachable E cfg S \<Longrightarrow> adStep E cfg S S' \<Longrightarrow> adReachable E cfg S'"
  by (rule rtranclp.rtrancl_into_rtrancl)

lemma exStarted: "adReachable exE exCfg (exSys exT1 exCall CallQueued)"
  by (rule exStep [OF exStep [OF rtranclp.rtrancl_refl exFirst_step] exStarted_step])

section \<open>A completed turn\<close>

definition exT2 :: turnState where
  "exT2 = exT1\<lparr>tnProviderInFlight := 1, tnInvocationUncertain := True\<rparr>"

lemma exBegun: "adReachable exE exCfg (exSys exT2 exCall CallRunning)"
proof -
  have t: "\<not> tnCompleted exT1" "tnProviderInFlight exT1 = 0" by (simp_all add: exT1_def exT0_def newTurn_def)
  then have "beginInvocation (vcTurn exCall) (asAd (exSys exT1 exCall CallQueued)) = (True, exAd exT2)"
    by (simp add: beginInvocation_def exCall_def Let_def exT2_def)
  from adStep.begun [OF exSys_simps(3) this]
  have "adStep exE exCfg (exSys exT1 exCall CallQueued) (setCall 0 exCall CallRunning ((exSys exT1 exCall CallQueued)\<lparr>asAd := exAd exT2\<rparr>))"
    by simp
  moreover have "setCall 0 exCall CallRunning ((exSys exT1 exCall CallQueued)\<lparr>asAd := exAd exT2\<rparr>) = exSys exT2 exCall CallRunning"
    by (simp add: setCall_def exSys_def fmupd_idem)
  ultimately show ?thesis using exStep [OF exStarted] by simp
qed

text \<open>The stream after the delta \<open>hi\<close>, and the end of the call.\<close>

definition exStart :: harnessFrame where
  "exStart = newFrame 1 TurnStarted ''Foundry response started'' exT2"

lemma exT2_simps [simp]: "tnFrames exT2 = []" "\<not> tnStarted exT2" "\<not> tnCompleted exT2" "tnText exT2 = []" "tnPendingOutput exT2 = []"
  "idsOk (tnRequest exT2)" "tnCause exT2 = None" "tnPendingTools exT2 = fmempty" "tnProviderInFlight exT2 = 1"
  "tnInvocationUncertain exT2" "\<not> tnInitializing exT2" "tnInitErr exT2 = None"
  by (simp_all add: exT2_def exT1_def exT0_def newTurn_def compactStartTurnRequest_def exReq_def idsOk_def maxHarnessIdentityBytes_def)

definition exT3 :: "int \<Rightarrow> turnState" where
  "exT3 b = (pushed exT2 exStart b)\<lparr>tnStarted := True, tnText := ''hi'', tnPendingOutput := ''hi'', tnFlushTimer := True\<rparr>"

lemma exDelta: "\<exists>b. appendText exE exCfg 1 ''hi'' exT2 = (None, exT3 b)"
proof -
  obtain b where b: "appendFrame exE 1 TurnStarted ''Foundry response started'' id exT2 = (None, pushed exT2 exStart b)"
    by (rule started_fits [of exE exT2 1]) (simp_all add: exStart_def)
  then have "ensureStarted exE exCfg 1 exT2 = (None, (pushed exT2 exStart b)\<lparr>tnStarted := True\<rparr>)"
    by (simp add: ensureStarted_def ensureCapacity_def) (simp add: exCfg_def)
  then have "appendText exE exCfg 1 ''hi'' exT2 = (None, exT3 b)"
    by (simp add: appendText_def Let_def exT3_def) (simp add: exCfg_def pushed_def)
  then show ?thesis by blast
qed

lemma exStreamed: "\<exists>b. adReachable exE exCfg (exSys (exT3 b) exCall CallRunning)"
proof -
  obtain b where b: "appendText exE exCfg 1 ''hi'' exT2 = (None, exT3 b)" using exDelta by blast
  let ?S = "exSys exT2 exCall CallRunning"
  have v: "vcTurn exCall = 0" "vcError exCall = None" by (simp_all add: exCall_def newInvocation_def)
  have "runCallback exE exCfg 1 (CbTextDelta ''hi'') exCall (turnOf (asAd ?S) (vcTurn exCall)) = (None, exCall, exT3 b)"
    by (simp add: runCallback_def v b)
  from adStep.callback [OF exSys_simps(3) v(2) this]
  have "adStep exE exCfg ?S (setCall 0 (exCall\<lparr>vcError := None\<rparr>) CallRunning (?S\<lparr>asAd := exAd (exT3 b)\<rparr>))"
    by (simp add: v)
  moreover have "exCall\<lparr>vcError := None\<rparr> = exCall" by (simp add: exCall_def newInvocation_def)
  then have "setCall 0 (exCall\<lparr>vcError := None\<rparr>) CallRunning (?S\<lparr>asAd := exAd (exT3 b)\<rparr>) = exSys (exT3 b) exCall CallRunning"
    by (simp add: setCall_def exSys_def fmupd_idem)
  ultimately have "adReachable exE exCfg (exSys (exT3 b) exCall CallRunning)" using exStep [OF exBegun] by simp
  then show ?thesis by blast
qed

definition exSum :: streamSummary where
  "exSum = emptySummary\<lparr>ssResponseID := ''p'', ssAgentSessionID := ''q'', ssStatus := ''completed''\<rparr>"

lemma exSum_status: "terminalStatus exE exSum = ''completed''"
proof -
  have "trimSpace ''completed'' = ''completed''" by (rule graphic_trimSpace) (simp add: graphic_def byte_def)
  then show ?thesis by (simp add: terminalStatus_def exSum_def exE_def)
qed

lemma exT3_simps [simp]: "tnFrames (exT3 b) = [exStart]" "tnStarted (exT3 b)" "\<not> tnCompleted (exT3 b)" "tnText (exT3 b) = ''hi''"
  "tnPendingTools (exT3 b) = fmempty" "tnCause (exT3 b) = None"
  using exT2_simps by (simp_all add: exT3_def del: exT2_simps) (simp_all add: pushed_def)

lemma exResult: "fst (callResult exE exSum None exCall) = None"
proof -
  have "identifierError l ''p'' = None" "identifierError l ''q'' = None" for l
    by (simp_all add: identifierError_def ValidateIdentifier_def graphic_runes graphic_def byte_def MaxIdentifierBytes_def
        isSpace_def isControl_def)
  moreover have "vcResponseID exCall = []" "vcSessionID exCall = []" "rrPreviousResponseID (vcRequest exCall) = []"
    by (simp_all add: exCall_def newInvocation_def firstRequest_def exT1_def exT0_def newTurn_def)
  ultimately show ?thesis
    using exSum_status by (simp add: callResult_def recordInvocationIDs_def exSum_def Let_def)
qed

text \<open>The state in which the turn has completed.\<close>

lemma exCompleted:
  obtains S t c v where "adReachable exE exCfg S" "fmlookup (adHeap (asAd S)) 0 = Some t"
    "fmlookup (asStarts S) 0 = Some (exReq, StartOver)" "tnCompleted t" "tnFrames t \<noteq> []"
    "frCompleted (last (tnFrames t)) = Some c" "tcResult c = ''hi''"
proof -
  from exStreamed obtain b where R: "adReachable exE exCfg (exSys (exT3 b) exCall CallRunning)" by blast
  let ?S = "exSys (exT3 b) exCall CallRunning"
  obtain res a where e: "endInvocation exE exCfg 2 exSum None exCall (asAd ?S) = (res, a)" by fastforce
  have v: "vcTurn exCall = 0" "vcError exCall = None" by (simp_all add: exCall_def newInvocation_def)
  have "fmlookup (adHeap (asAd ?S)) (vcTurn exCall) = Some (exT3 b)" by (simp add: v)
  from endInvocation_reports [OF exE_ok exCfg_ok adReachable_ok [OF exE_ok exCfg_ok R] exSys_simps(3) this _ _ _ _ exResult exSum_status e]
  obtain t c where t: "res = None" "fmlookup (adHeap a) 0 = Some t" "tnCompleted t" "frCompleted (last (tnFrames t)) = Some c"
    "tcResult c = ''hi''" by (auto simp: v exCfg_def)
  let ?T = "spawn (vcTurn exCall) res (setCall 0 exCall (CallEnded (fst (callResult exE exSum None exCall) = None)) (?S\<lparr>asAd := a\<rparr>))"
  have step: "adStep exE exCfg ?S ?T" by (rule adStep.ended [OF exSys_simps(3) _ e]) (simp add: v)
  then have R': "adReachable exE exCfg ?T" by (rule exStep [OF R])
  from adStep_ok [OF exE_ok exCfg_ok adReachable_ok [OF exE_ok exCfg_ok R] step]
  have "adGrows (exAd (exT3 b)) (asAd ?T)" by simp
  from adGrows_some [OF this exAd_turn(3)] t(1,2) have "prefix [exStart] (tnFrames t)" by (auto simp: grows_def)
  then have "tnFrames t \<noteq> []" by auto
  with R' t show ?thesis by (intro that [of ?T t c]) (auto simp: setCall_def exSys_def)
qed

section \<open>A turn whose deadline passes\<close>

text \<open>The call is still queued when the watcher runs.\<close>

definition exLate :: adSystem where
  "exLate = exSys (exT1\<lparr>tnCause := Some AeDeadline\<rparr>) exCall CallQueued"

definition exOver :: adSystem where
  "exOver = exLate\<lparr>asAd := watchDeadline exE exCfg 61 0 (asAd exLate)\<rparr>"

lemma exT1_simps [simp]: "\<not> tnCompleted exT1" "tnCause exT1 = None" "tnInitErr exT1 = None" "\<not> tnInitializing exT1"
  "\<not> tnInvocationUncertain exT1" "\<not> tnExposedBrokeredWrite exT1" "tnFrames exT1 = []" "\<not> tnStarted exT1" "tnPendingOutput exT1 = []"
  by (simp_all add: exT1_def exT0_def newTurn_def)

lemma exDeadline: "deadlinePassed 0 (asAd (exSys exT1 exCall CallQueued)) = asAd exLate"
  by (simp add: deadlinePassed_def exLate_def)

lemma exLate_step: "adStep exE exCfg (exSys exT1 exCall CallQueued) exLate"
proof -
  have "adStep exE exCfg (exSys exT1 exCall CallQueued) ((exSys exT1 exCall CallQueued)\<lparr>asAd := deadlinePassed 0 (asAd (exSys exT1 exCall CallQueued))\<rparr>)"
    by (rule adStep.deadline [of _ 0 exT1]) simp
  moreover have "(exSys exT1 exCall CallQueued)\<lparr>asAd := asAd exLate\<rparr> = exLate" by (simp add: exLate_def exSys_def)
  ultimately show ?thesis by (simp only: exDeadline)
qed

lemma exOver_step: "adStep exE exCfg exLate exOver"
  unfolding exOver_def by (rule adStep.watched [of _ 0 exReq]) (simp_all add: exLate_def)

lemma exOver_reachable: "adReachable exE exCfg exOver"
  using exStep [OF exStep [OF exStarted exLate_step] exOver_step] .

text \<open>Afterwards nothing happens any more: an execution that stays there.\<close>

lemma exOver_stays: "adStep exE exCfg exOver exOver"
proof -
  have "fmlookup (adTurns (asAd exOver)) [] = None"
  proof (rule ccontr)
    assume "fmlookup (adTurns (asAd exOver)) [] \<noteq> None"
    then obtain h where "fmlookup (adTurns (asAd exOver)) [] = Some h" by blast
    from keysOkD [OF sysOkD(2) [OF adReachable_ok [OF exE_ok exCfg_ok exOver_reachable]] this]
    obtain t where t: "fmlookup (adHeap (asAd exOver)) h = Some t" "sqTurnID (tnRequest t) = []" .
    from sysOk_handle [OF adReachable_ok [OF exE_ok exCfg_ok exOver_reachable] t(1)] obtain r ph
      where r: "fmlookup (asStarts exOver) h = Some (r, ph)" "handleOk exE exCfg t r ph (callsOf (asCalls exOver) h)" .
    then have "turnOk exE exCfg r t" by (simp add: handleOk_def)
    then have "streamOk r t" by (auto simp: turnOk_def closedOk_def openOk_def coreOk_def)
    then have "sqTurnID r = []" using t(2) by (simp add: streamOk_def sameIdentity_def)
    moreover have "sqTurnID r = ''t''" using r(1) by (auto simp: exOver_def exLate_def exSys_def exReq_def split: if_splits)
    ultimately show False by simp
  qed
  then have "cleanupTimer 62 [] (asAd exOver) = asAd exOver" by (simp add: cleanupTimer_def)
  with adStep.cleaned [of exE exCfg exOver 62 "[]"] show ?thesis by simp
qed

text \<open>The stream of the turn that timed out.\<close>

lemma exOver_turn:
  obtains t f where "fmlookup (adHeap (asAd exOver)) 0 = Some t" "tnCompleted t"
    "last (tnFrames t) \<in> set (tnFrames t)" "frFailed (last (tnFrames t)) = Some f" "tfRetryable f"
proof -
  let ?t = "exT1\<lparr>tnCause := Some AeDeadline\<rparr>" and ?x = "minimalFailure ''foundry_timeout'' ''Foundry response timed out'' True"
  have ids: "idsOk (tnRequest ?t)" using exT2_simps(6) by (simp add: exT2_def)
  obtain b where b: "appendFrame exE 61 TurnStarted ''Foundry response started'' id ?t =
      (None, pushed ?t (newFrame 61 TurnStarted ''Foundry response started'' ?t) b)"
    by (rule started_fits [of exE ?t 61]) (use ids in simp_all)
  let ?u = "((pushed ?t (newFrame 61 TurnStarted ''Foundry response started'' ?t) b)\<lparr>tnStarted := True\<rparr>)\<lparr>tnFlushTimer := False\<rparr>"
  have u: "beforeTerminal exE exCfg 61 ?t = ?u"
    using b by (simp add: beforeTerminal_def ensureTerminalStarted_def flushBestEffort_def flushOutput_def pushed_def)
  have "length (failedJSON ?x) \<le> 1000" unfolding minimalFailure_def by (rule order.trans [OF failedJSON_le]) simp
  then obtain n where "appendFrame exE 61 FtTurnFailed ''Foundry response failed'' (\<lambda>f. f\<lparr>frFailed := Some ?x\<rparr>) ?u =
      (None, pushed ?u ((newFrame 61 FtTurnFailed ''Foundry response failed'' ?u)\<lparr>frFailed := Some ?x\<rparr>) n)"
    using appendFrame_fits [of exE ?u FtTurnFailed "''Foundry response failed''" "Some ?x" 1000 "[]"
        "\<lambda>f. f\<lparr>frFailed := Some ?x\<rparr>" 61] ids by (auto simp: newFrame_def)
  moreover have "sqToolExecutionMode (tnRequest ?u) \<noteq> modeObserved"
    by (simp add: pushed_def exT1_def exT0_def newTurn_def compactStartTurnRequest_def exReq_def modeBrokered_def modeObserved_def)
  moreover have "\<not> tnInvocationUncertain ?u" "\<not> tnExposedBrokeredWrite ?u" by simp_all
  ultimately have run: "asAd exOver = finishTerminal exE 61 0 (putTurn 0
      (pushed ?u ((newFrame 61 FtTurnFailed ''Foundry response failed'' ?u)\<lparr>frFailed := Some ?x\<rparr>) n) (exAd ?t))"
    unfolding exOver_def exLate_def
    by (simp add: watchDeadline_def finishFailed_def Let_def u terminalFrame_def minimalFailure_def del: exAd_turn(2))
  let ?w = "pushed ?u ((newFrame 61 FtTurnFailed ''Foundry response failed'' ?u)\<lparr>frFailed := Some ?x\<rparr>) n"
  have "\<not> tnCompleted ?w" by simp
  from tidies_settles [OF finishTerminal_tidies [OF this, of 0 exE 61 "exAd ?t"]]
  obtain c where "fmlookup (adHeap (asAd exOver)) 0 = Some ((endTurn exE 61 ?w)\<lparr>tnCleanupTimer := c\<rparr>)"
    unfolding run by (rule settles_some [where h = 0 and t = "endTurn exE 61 ?w"]) simp_all
  then show ?thesis by (rule that [where f = ?x]) (simp_all add: minimalFailure_def)
qed

section \<open>The properties at these executions\<close>

theorem stream_wellformed_witness:
  "\<exists>S t. adReachable exE exCfg S \<and> fmlookup (adHeap (asAd S)) 0 = Some t \<and> tnCompleted t \<and> framesOk exReq (tnFrames t) \<and>
    openFrames (butlast (tnFrames t)) \<and> terminalType (frType (last (tnFrames t)))"
  by (rule exCompleted) (metis stream_wellformed exE_ok exCfg_ok)

theorem stream_append_only_witness:
  "\<exists>t t'. fmlookup (adHeap (asAd (exSys exT1 exCall CallQueued))) 0 = Some t \<and> fmlookup (adHeap (asAd exOver)) 0 = Some t' \<and>
    prefix (tnFrames t) (tnFrames t')"
proof -
  have "(adStep exE exCfg)\<^sup>*\<^sup>* (exSys exT1 exCall CallQueued) exOver" using exLate_step exOver_step by simp
  from stream_append_only [OF exE_ok exCfg_ok exStarted this, of 0 exT1] show ?thesis by auto
qed

theorem completed_result_is_output_witness:
  "\<exists>S t f c. adReachable exE exCfg S \<and> fmlookup (adHeap (asAd S)) 0 = Some t \<and> f \<in> set (tnFrames t) \<and>
    frCompleted f = Some c \<and> tcResult c = ''hi'' \<and> outputText (tnFrames t) = ''hi''"
  by (rule exCompleted) (metis completed_result_is_output exE_ok exCfg_ok last_in_set)

theorem retry_safe_witness:
  "\<exists>t f x. fmlookup (adHeap (asAd exOver)) 0 = Some t \<and> f \<in> set (tnFrames t) \<and> frFailed f = Some x \<and> tfRetryable x \<and>
    \<not> writeRequested exReq (tnFrames t) \<and> sqToolExecutionMode exReq \<noteq> modeObserved"
proof -
  have "fmlookup (asStarts exOver) 0 = Some (exReq, StartOver)" by (simp add: exOver_def exLate_def exSys_def)
  then show ?thesis
    using exOver_turn retry_safe [OF exE_ok exCfg_ok exOver_reachable] by metis
qed


theorem turn_limits_witness:
  "\<exists>S t. adReachable exE exCfg S \<and> fmlookup (adHeap (asAd S)) 0 = Some t \<and> tnText t = ''hi'' \<and>
    int (length (tnFrames t)) \<le> 100 \<and> int (length (tnText t)) \<le> 1000 \<and> int (fmcard (activeTurns (asAd S))) \<le> 4"
proof -
  from exStreamed obtain b where R: "adReachable exE exCfg (exSys (exT3 b) exCall CallRunning)" by blast
  have cfg: "afMaxEvents exCfg = 100" "afMaxOutputBytes exCfg = 1000" "afMaxConcurrent exCfg = 4" by (simp_all add: exCfg_def)
  have h: "fmlookup (adHeap (asAd (exSys (exT3 b) exCall CallRunning))) 0 = Some (exT3 b)" by simp
  from turn_limits [OF exE_ok exCfg_ok R h] R h show ?thesis unfolding cfg
    by (intro exI [of _ "exSys (exT3 b) exCall CallRunning"] exI [of _ "exT3 b"]) simp
qed

theorem resume_exact_witness:
  "\<exists>S t. adReachable exE exCfg S \<and> fmlookup (adHeap (asAd S)) 0 = Some t \<and> tnCompleted t \<and>
    fst (framesAfter t 1) = filter (\<lambda>f. frSeq f > 1) (tnFrames t)"
  by (rule exCompleted) (metis resume_exact exE_ok exCfg_ok)

theorem frames_validate_witness:
  "\<exists>S t. adReachable exE exCfg S \<and> fmlookup (adHeap (asAd S)) 0 = Some t \<and> tnFrames t \<noteq> [] \<and>
    validateFrame id (last (tnFrames t)) = None"
  by (rule exCompleted) (metis frames_validate exE_ok exCfg_ok last_in_set)

theorem completed_reported_witness:
  "\<exists>b a t' c. endInvocation exE exCfg 2 exSum None exCall (exAd (exT3 b)) = (None, a) \<and>
    fmlookup (adHeap a) 0 = Some t' \<and> frCompleted (last (tnFrames t')) = Some c \<and> tcResult c = ''hi''"
proof -
  from exStreamed obtain b where R: "adReachable exE exCfg (exSys (exT3 b) exCall CallRunning)" by blast
  let ?S = "exSys (exT3 b) exCall CallRunning"
  obtain res a where e: "endInvocation exE exCfg 2 exSum None exCall (asAd ?S) = (res, a)" by fastforce
  have v: "vcTurn exCall = 0" by (simp add: exCall_def newInvocation_def)
  have "fmlookup (adHeap (asAd ?S)) (vcTurn exCall) = Some (exT3 b)" by (simp add: v)
  from completed_reported [OF exE_ok exCfg_ok R exSys_simps(3) this _ _ _ _ exResult exSum_status e] e show ?thesis
    by (intro exI [of _ b] exI [of _ a]) (auto simp: v exCfg_def)
qed

definition exRun :: "nat \<Rightarrow> adSystem" where
  "exRun n = (if n = 0 then adInit else if n = 1 then exFirst else if n = 2 then exSys exT1 exCall CallQueued
     else if n = 3 then exLate else exOver)"

lemma exRun_run: "adRun exE exCfg exRun"
  unfolding adRun_def
proof (intro conjI allI)
  fix n :: nat
  consider "n = 0" | "n = 1" | "n = 2" | "n = 3" | "n \<ge> 4" by linarith
  then show "adStep exE exCfg (exRun n) (exRun (Suc n))"
    by cases (simp_all add: exRun_def exFirst_step exStarted_step exLate_step exOver_step exOver_stays)
qed (simp add: exRun_def)

theorem turn_ends_witness:
  "\<exists>fs z. terminalType (frType z) \<and> (\<exists>t'. fmlookup (adHeap (asAd (exRun 1000))) 0 = Some t' \<and> tnCompleted t' \<and> tnFrames t' = fs @ [z])"
proof -
  have r: "fmlookup (adHeap (asAd (exRun 2))) 0 = Some exT1" "asAd (exRun (Suc 2)) = deadlinePassed 0 (asAd (exRun 2))"
    "asAd (exRun (Suc 3)) = watchDeadline exE exCfg 61 0 (asAd (exRun 3))"
    using exDeadline by (simp_all add: exRun_def) (simp_all add: exOver_def)
  from turn_ends [OF exE_ok exCfg_ok exRun_run r(1) exT1_simps(4,3) order.refl r(2) _ r(3)] obtain fs z
    where "terminalType (frType z)" "\<forall>m > 3. \<exists>t'. fmlookup (adHeap (asAd (exRun m))) 0 = Some t' \<and> tnCompleted t' \<and> tnFrames t' = fs @ [z]"
    by auto
  moreover have "(3 :: nat) < 1000" by simp
  ultimately show ?thesis by blast
qed

end
