(* ===== verification/AdapterTools.thy ===== *)
theory AdapterTools
  imports AdapterExample
begin

text \<open>
  An execution with a brokered tool: the provider calls the tool, the turn waits, the client
  continues it with the result, and a second provider call carries the answer.
\<close>

section \<open>The tool call\<close>

definition exK :: string where
  "exK = orkaToolCallID exE ''r'' ''t'' ''x''"

lemma exK_length: "length exK = 40"
  by (simp add: exK_def orkaToolCallID_def exE_def)

definition exFn :: outputItem where
  "exFn = \<lparr>oiID = ''i'', oiType = ''function_call'', oiCallID = ''x'', oiName = ''f'', oiArguments = ''{}'', oiContent = []\<rparr>"

definition exU :: "int \<Rightarrow> turnState" where
  "exU b = (pushed exT2 exStart b)\<lparr>tnStarted := True, tnFlushTimer := False\<rparr>"

definition exV :: "int \<Rightarrow> turnState" where
  "exV b = (exU b)\<lparr>tnBrokeredCallCount := 1, tnBrokeredStateBytes := 44, tnPendingTools := fmupd exK ''f'' fmempty,
     tnPendingCallDigests := fmupd exK (foundryFunctionCallFingerprint exE ''f'' ''{}'') fmempty,
     tnProviderCallIDs := fmupd exK ''x'' fmempty\<rparr>"

definition exAsk :: "int \<Rightarrow> harnessFrame" where
  "exAsk b = (newFrame 1 ToolCallRequested ''Foundry requested brokered tool'' (exV b))
     \<lparr>frToolName := ''f'', frToolCallID := exK, frContent := ''{}''\<rparr>"

definition exW :: "int \<Rightarrow> int \<Rightarrow> turnState" where
  "exW b n = pushed (exV b) (exAsk b) n"

lemma exT2_request: "tnRequest exT2 = compactStartTurnRequest exReq"
  by (simp add: exT2_def exT1_def exT0_def newTurn_def)

lemma exU_simps [simp]: "tnRequest (exU b) = compactStartTurnRequest exReq" "tnFrames (exU b) = [exStart]" "tnBrokeredCallCount (exU b) = 0"
  "tnBrokeredStateBytes (exU b) = 0" "tnPendingTools (exU b) = fmempty" "tnPendingCallDigests (exU b) = fmempty"
  "tnProviderCallIDs (exU b) = fmempty" "tnSubmittedResultDigests (exU b) = fmempty" "tnBufferedResults (exU b) = fmempty"
  "tnBufferedResultDigests (exU b) = fmempty" "tnEmittedResults (exU b) = {||}" "\<not> tnCompleted (exU b)" "tnStarted (exU b)"
  "tnCause (exU b) = None" "tnPendingOutput (exU b) = []" "tnPreviousResponse (exU b) = []"
  by (simp_all add: exU_def pushed_def exT2_def exT1_def exT0_def newTurn_def)

lemma exCalled: "\<exists>b n. recordFunctionCall exE exCfg 1 exFn exT2 = (None, exW b n)"
proof -
  obtain b where b: "appendFrame exE 1 TurnStarted ''Foundry response started'' id exT2 = (None, pushed exT2 exStart b)"
    by (rule started_fits [of exE exT2 1]) (simp_all add: exStart_def)
  then have s: "ensureStarted exE exCfg 1 exT2 = (None, (pushed exT2 exStart b)\<lparr>tnStarted := True\<rparr>)"
    by (simp add: ensureStarted_def ensureCapacity_def) (simp add: exCfg_def)
  have f: "flushOutput exE exCfg 1 ((pushed exT2 exStart b)\<lparr>tnStarted := True\<rparr>) = (None, exU b)"
    by (simp add: flushOutput_def exU_def)
  have room: "ensureCapacity exCfg (exU b) 1 = None" by (simp add: ensureCapacity_def exCfg_def)
  have ids: "callIDError ''x'' = None" "ValidateFunctionName ''f''"
    by (simp_all add: callIDError_def ValidateCallID_def graphic_runes graphic_def byte_def isControl_def ValidateFunctionName_def isAlnum_def)
  have args: "NormalizeToolArguments (aeValid exE) (aeString exE) ''{}'' = Some ''{}''"
    by (simp add: NormalizeToolArguments_def exE_def)
  have tool: "foundryToolAllowed [exTool] ''f''" "foundryToolClass [exTool] ''f'' = classRead"
    by (simp_all add: foundryToolAllowed_def foundryToolClass_def exTool_def foundryToolClassSupported_def graphic_trimSpace)
  have req: "sqToolExecutionMode (compactStartTurnRequest exReq) = modeBrokered" "tiTools (sqInput (compactStartTurnRequest exReq)) = [exTool]"
    "sqRuntimeSessionID (compactStartTurnRequest exReq) = ''r''" "sqTurnID (compactStartTurnRequest exReq) = ''t''"
    by (simp_all add: compactStartTurnRequest_def exReq_def)
  have old: "tnSubmittedResultDigests exT2 = fmempty" by (simp add: exT2_def exT1_def exT0_def newTurn_def)
  have ids2: "idsOk (tnRequest (exV b))" using exT2_simps(6) by (simp add: exV_def exT2_request)
  have "\<exists>n. appendFrame exE 1 ToolCallRequested ''Foundry requested brokered tool''
      (\<lambda>f. f\<lparr>frToolName := ''f'', frToolCallID := exK, frContent := ''{}''\<rparr>) (exV b) = (None, exW b n)"
    unfolding exW_def exAsk_def
    by (rule content_fits [OF exE_ok ids2, where a = "''f''" and b = exK and content = "''{}''" and cv = "Some ''{}''" and co = None])
      (simp_all add: exV_def exK_length rawMember_def exE_def newFrame_def)
  then obtain n where n: "appendFrame exE 1 ToolCallRequested ''Foundry requested brokered tool''
      (\<lambda>f. f\<lparr>frToolName := ''f'', frToolCallID := exK, frContent := ''{}''\<rparr>) (exV b) = (None, exW b n)" by blast
  have v: "(exU b)\<lparr>tnBrokeredCallCount := 1, tnBrokeredStateBytes := 44, tnPendingTools := fmupd exK ''f'' fmempty,
     tnPendingCallDigests := fmupd exK (foundryFunctionCallFingerprint exE ''f'' ''{}'') fmempty,
     tnProviderCallIDs := fmupd exK ''x'' fmempty\<rparr> = exV b" by (simp add: exV_def)
  have cfg: "afMaxBrokeredCalls exCfg = 8" "afMaxBrokeredTurnBytes exCfg = 100000" by (simp_all add: exCfg_def)
  have k: "orkaToolCallID exE ''r'' ''t'' ''x'' = exK" "int (length exK + length ''x'' + length ''f'' + length ''{}'') = 44"
    by (simp_all add: exK_def [symmetric] exK_length)
  have "recordFunctionCall exE exCfg 1 exFn exT2 = (None, exW b n)"
    using n v by (simp add: recordFunctionCall_def exFn_def ids args exT2_request req tool k s f room old cfg Let_def classRead_def
        classWrite_def exK_length del: One_nat_def)
  then show ?thesis by blast
qed

lemma exAsked: "\<exists>b n. adReachable exE exCfg (exSys (exW b n) exCall CallRunning)"
proof -
  obtain b n where w: "recordFunctionCall exE exCfg 1 exFn exT2 = (None, exW b n)" using exCalled by blast
  let ?S = "exSys exT2 exCall CallRunning"
  have v: "vcTurn exCall = 0" "vcError exCall = None" "exCall\<lparr>vcError := None\<rparr> = exCall"
    by (simp_all add: exCall_def newInvocation_def)
  have "runCallback exE exCfg 1 (CbFunctionCall exFn) exCall (turnOf (asAd ?S) (vcTurn exCall)) = (None, exCall, exW b n)"
    by (simp add: runCallback_def v w)
  from adStep.callback [OF exSys_simps(3) v(2) this]
  have "adStep exE exCfg ?S (exSys (exW b n) exCall CallRunning)" by (simp add: v) (simp add: setCall_def exSys_def)
  from exStep [OF exBegun this] show ?thesis by blast
qed

section \<open>The end of the first call\<close>

definition exCall1 :: invocation where
  "exCall1 = exCall\<lparr>vcResponseID := ''p'', vcSessionID := ''q''\<rparr>"

lemma exResult1: "callResult exE exSum None exCall = (None, exCall1)"
proof -
  have "identifierError l ''p'' = None" "identifierError l ''q'' = None" for l
    by (simp_all add: identifierError_def ValidateIdentifier_def graphic_runes graphic_def byte_def MaxIdentifierBytes_def
        isSpace_def isControl_def)
  moreover have "vcResponseID exCall = []" "vcSessionID exCall = []" "rrPreviousResponseID (vcRequest exCall) = []"
    by (simp_all add: exCall_def newInvocation_def firstRequest_def exT1_def exT0_def newTurn_def)
  ultimately show ?thesis
    using exSum_status by (simp add: callResult_def recordInvocationIDs_def exSum_def Let_def exCall1_def)
qed

text \<open>The waiting turn.\<close>

definition exQ :: "int \<Rightarrow> int \<Rightarrow> turnState" where
  "exQ b n = (accepted exCall1 (exW b n))\<lparr>tnFlushTimer := False, tnWaitingForTools := True\<rparr>"

definition exWait :: "int \<Rightarrow> int \<Rightarrow> (string, runtimeSessionState) fmap \<Rightarrow> adSystem" where
  "exWait b n s = (exSys (exQ b n) exCall (CallEnded True))\<lparr>asAd := (exAd (exQ b n))\<lparr>adSessions := s\<rparr>\<rparr>"

lemma exW_simps [simp]: "\<not> tnCompleted (exW b n)" "tnCause (exW b n) = None" "tnStarted (exW b n)" "tnPendingOutput (exW b n) = []"
  "tnPendingTools (exW b n) = fmupd exK ''f'' fmempty" "tnBufferedResults (exW b n) = fmempty"
  by (simp_all add: exW_def exV_def) (simp_all add: pushed_def)

lemma exWaiting: "\<exists>b n s. adReachable exE exCfg (exWait b n s)"
proof -
  obtain b n where R: "adReachable exE exCfg (exSys (exW b n) exCall CallRunning)" using exAsked by blast
  let ?S = "exSys (exW b n) exCall CallRunning" and ?t = "accepted exCall1 (exW b n)"
  have v: "vcTurn exCall1 = 0" "vcTurn exCall = 0" "vcError exCall = None" by (simp_all add: exCall1_def exCall_def newInvocation_def)
  have t: "tnStarted ?t" "tnPendingOutput ?t = []" "tnPendingTools ?t = fmupd exK ''f'' fmempty" "tnBufferedResults ?t = fmempty"
    by (simp_all add: accepted_def releaseProvider_def)
  have h: "fmlookup (adHeap (exAd (exW b n))) (vcTurn exCall1) = Some (exW b n)" by (simp add: v)
  obtain s where s: "recordRuntimeSession exE 2 False 0 (putTurn 0 (exQ b n) (exAd (exW b n))) =
      (putTurn 0 (exQ b n) (exAd (exW b n)))\<lparr>adSessions := s\<rparr>"
    using recordRuntimeSession_put [of exE 2 False 0 "exQ b n" "exAd (exW b n)"] by (auto simp: recorded_def)
  have q: "tnPendingTools (exQ b n) = fmupd exK ''f'' fmempty" "tnBufferedResults (exQ b n) = fmempty"
    using t by (simp_all add: exQ_def)
  have "fmcard (fmupd exK ''f'' fmempty :: (string, string) fmap) = 1" by (simp add: fmcard_def fcard.rep_eq)
  then have c: "endCompleted exE exCfg 2 0 (exAd (?t\<lparr>tnFlushTimer := False\<rparr>)) = (None, (exAd (exQ b n))\<lparr>adSessions := s\<rparr>)"
    using t s q by (simp add: endCompleted_def Let_def exQ_def fmcard_def)
  have "endSucceeded exE exCfg 2 exSum exCall1 (exAd (exW b n)) = (None, (exAd (exQ b n))\<lparr>adSessions := s\<rparr>)"
    using t c exSum_status v
    by (simp add: endSucceeded_eq [OF h] ensureStarted_def flushOutput_def afterStatus_def)
  then have e: "endInvocation exE exCfg 2 exSum None exCall (asAd ?S) = (None, (exAd (exQ b n))\<lparr>adSessions := s\<rparr>)"
    by (simp add: endInvocation_def exResult1)
  from adStep.ended [OF exSys_simps(3) _ e] v(3)
  have "adStep exE exCfg ?S (setCall 0 exCall (CallEnded True) (?S\<lparr>asAd := (exAd (exQ b n))\<lparr>adSessions := s\<rparr>\<rparr>))"
    by (simp add: exResult1 spawn_def)
  moreover have "setCall 0 exCall (CallEnded True) (?S\<lparr>asAd := (exAd (exQ b n))\<lparr>adSessions := s\<rparr>\<rparr>) = exWait b n s"
    by (simp add: exWait_def setCall_def exSys_def)
  ultimately show ?thesis using exStep [OF R] by auto
qed

section \<open>The continuation\<close>

definition exRes :: toolCallResult where
  "exRes = \<lparr>trVersion = ProtocolVersion, trRuntimeSessionID = ''r'', trTurnID = ''t'', trToolCallID = exK,
     trIdempotencyKey = ToolRequestIdempotencyKey ''r'' ''t'' exK, trApproved = False, trOutput = ''1'', trError = None\<rparr>"

definition exCn :: continueTurnRequest where
  "exCn = \<lparr>cnVersion = ProtocolVersion, cnNamespace = ''n'', cnTaskName = ''k'', cnSessionName = ''s'', cnRuntimeSessionID = ''r'',
     cnTurnID = ''t'', cnCorrelationID = ''c'', cnToolResults = [exRes], cnMetadata = fmempty\<rparr>"

lemma lower_hex_graphic: "list_all isLowerHex s \<Longrightarrow> graphic s"
  by (auto simp: graphic_def list_all_iff isLowerHex_def isDigit_def)

lemma exK_trim: "graphic exK" "trimSpace exK = exK" "\<not> blank exK"
proof -
  have "graphic ''foundry-''" by (simp add: graphic_def byte_def)
  then show "graphic exK"
    unfolding exK_def orkaToolCallID_def graphic_append(1) using lower_hex_graphic [OF hexEncode_lower] by blast
  then show "trimSpace exK = exK" by (rule graphic_trimSpace)
  then show "\<not> blank exK" using exK_length by (auto simp: blank_def)
qed

lemma exRes_valid: "validateResult q exRes = None" "validateContinue q exCn = None"
proof -
  let ?key = "ToolRequestIdempotencyKey ''r'' ''t'' exK"
  have k: "?key = ''r:t:'' @ exK" by (simp add: ToolRequestIdempotencyKey_def graphic_trimSpace exK_trim)
  have "graphic ''r:t:''" by (simp add: graphic_def byte_def)
  then have "graphic (''r:t:'' @ exK)" unfolding graphic_append(1) using exK_trim(1) by blast
  then have "\<not> blank ?key" by (simp add: blank_def k graphic_trimSpace)
  then show r: "validateResult q exRes = None" for q
    unfolding validateResult_def firstError_None by (simp add: exRes_def frame_version exK_trim)
  have "firstError [prefixError m (validateResult q exRes), refuse (trRuntimeSessionID exRes \<noteq> cnRuntimeSessionID exCn) m1,
      refuse (trTurnID exRes \<noteq> cnTurnID exCn) m2, refuse (trimSpace (trToolCallID exRes) \<in> {}) m3,
      refuse (trIdempotencyKey exRes \<noteq> ToolRequestIdempotencyKey (cnRuntimeSessionID exCn) (cnTurnID exCn) (trimSpace (trToolCallID exRes))) m4,
      refuse (trOutput exRes = [] \<and> trError exRes = None) m5] = None" for m m1 m2 m3 m4 m5
    unfolding firstError_None by (simp add: r prefixError_def) (simp add: exRes_def exCn_def exK_trim)
  then have "validateResults q exCn {} 0 [exRes] = None" by (simp add: Let_def)
  then show "validateContinue q exCn = None"
    unfolding validateContinue_def firstError_None by (simp add: exCn_def frame_version)
qed

lemma exRes_json: "\<exists>enc. resultJSON (aeCompact exE) exRes = Some enc \<and> length enc \<le> 10000"
proof -
  have str: "length (jsonString s) \<le> b" if "6 * length s + 2 \<le> b" for s b
    using jsonString_le [of s] that by linarith
  have key: "length (ToolRequestIdempotencyKey ''r'' ''t'' exK) = 44"
    by (simp add: ToolRequestIdempotencyKey_def graphic_trimSpace exK_trim exK_length)
  have "length (jsonObject [(''version'', Some (jsonString ProtocolVersion)), (''runtimeSessionID'', Some (jsonString ''r'')),
      (''turnID'', Some (jsonString ''t'')), (''toolCallID'', Some (jsonString exK)),
      (''idempotencyKey'', Some (jsonString (ToolRequestIdempotencyKey ''r'' ''t'' exK))), (''approved'', None),
      (''output'', Some ''1''), (''error'', None)]) \<le> 10000"
    by (rule order.trans [OF jsonObject_le [where ns = "[92, 8, 8, 242, 266, 0, 1, 0]"]])
      (auto intro!: str simp: key exK_length ProtocolVersion_def)
  then show ?thesis by (simp add: resultJSON_def exRes_def rawMember_def exE_def omitFalse_def)
qed

lemma exQ_simps [simp]: "tnRequest (exQ b n) = compactStartTurnRequest exReq" "\<not> tnCompleted (exQ b n)" "tnWaitingForTools (exQ b n)"
  "tnPendingTools (exQ b n) = fmupd exK ''f'' fmempty" "tnProviderCallIDs (exQ b n) = fmupd exK ''x'' fmempty"
  "tnBufferedResults (exQ b n) = fmempty" "tnBufferedResultDigests (exQ b n) = fmempty" "tnSubmittedResultDigests (exQ b n) = fmempty"
  "tnEmittedResults (exQ b n) = {||}" "tnBrokeredStateBytes (exQ b n) = 44" "\<not> tnContinuationInFlight (exQ b n)"
  "tnResponseID (exQ b n) = ''p''" "tnFrames (exQ b n) = [exStart, exAsk b]"
  by (simp_all add: exQ_def accepted_def releaseProvider_def exCall1_def exW_def exV_def) (simp_all add: pushed_def)

lemma exContinued: "\<exists>q u. continueTurn exE exCfg 3 exCn 0 ((exAd (exQ b n))\<lparr>adSessions := s\<rparr>) =
    (None, Some q, (exAd u)\<lparr>adSessions := s\<rparr>) \<and> answeredCalls q = [''x'']"
proof -
  let ?a = "(exAd (exQ b n))\<lparr>adSessions := s\<rparr>"
  obtain enc where enc: "resultJSON (aeCompact exE) exRes = Some enc" "length enc \<le> 10000" using exRes_json by blast
  define d where "d = hexDigest exE enc"
  define st where "st = \<lparr>sgCallID = exK, sgDigest = d, sgSize = int (length enc), sgResult = exRes\<rparr>"
  define t where "t = bufferResult st (exQ b n)"
  have t: "tnPendingTools t = fmupd exK ''f'' fmempty" "tnBufferedResults t = fmupd exK exRes fmempty" "\<not> tnContinuationInFlight t"
    "tnEmittedResults t = {||}" "tnResponseID t = ''p''" "length (tnFrames t) = 2" "tnRequest t = compactStartTurnRequest exReq"
    "\<not> tnCompleted t" "tnWaitingForTools t" "tnProviderCallIDs t = fmupd exK ''x'' fmempty"
    by (simp_all add: t_def st_def bufferResult_def)
  have turn: "turnOf ?a 0 = exQ b n" by (simp add: turnOf_def exAd_def)
  have match: "continueMatches exCn (compactStartTurnRequest exReq)"
    by (simp add: continueMatches_def exCn_def compactStartTurnRequest_def exReq_def)
  have results: "cnToolResults exCn = [exRes]" "trToolCallID exRes = exK" by (simp_all add: exCn_def exRes_def)
  have frames: "validateBrokeredResultFrames exE (afMaxBrokeredBytes exCfg) [exRes] = None" using enc by (simp add: exCfg_def)
  have staged: "stageResults exE (exQ b n) [exRes] = Inr [st]"
    using enc(1) by (simp add: toolResultFingerprint_def results exK_trim st_def d_def)
  have bytes: "\<not> tnBrokeredStateBytes (exQ b n) + int (length enc) > afMaxBrokeredTurnBytes exCfg" using enc(2) by (simp add: exCfg_def)
  have size: "sgSize st = int (length enc)" by (simp add: st_def)
  have keys: "sorted_list_of_fset (fmdom (tnPendingTools t)) = [exK]" by (simp add: t sorted_list_of_fset.rep_eq)
  have room: "ensureCapacity exCfg t (Suc 0) = None" by (simp add: ensureCapacity_def exCfg_def t)
  have ids: "idsOk (tnRequest t)" using exT2_simps(6) by (simp add: t exT2_request)
  have "\<exists>k. appendFrame exE 3 ToolResultReceived ''brokered tool result received''
      (\<lambda>f. f\<lparr>frToolName := ''f'', frToolCallID := exK, frContent := ''1'', frError := None\<rparr>) t =
      (None, pushed t ((newFrame 3 ToolResultReceived ''brokered tool result received'' t)
        \<lparr>frToolName := ''f'', frToolCallID := exK, frContent := ''1'', frError := None\<rparr>) k)"
    by (rule content_fits [OF exE_ok ids, where a = "''f''" and b = exK and content = "''1''" and cv = "Some ''1''" and co = None])
      (simp_all add: exK_length rawMember_def exE_def newFrame_def t)
  then obtain w where w: "appendFrame exE 3 ToolResultReceived ''brokered tool result received''
      (\<lambda>f. f\<lparr>frToolName := ''f'', frToolCallID := exK, frContent := ''1'', frError := None\<rparr>) t = (None, w)"
    "tnPendingTools w = tnPendingTools t" "tnResponseID w = tnResponseID t" "tnProviderCallIDs w = tnProviderCallIDs t"
    "tnEmittedResults w = tnEmittedResults t" by (auto simp: pushed_def)
  define x where "x = w\<lparr>tnEmittedResults := finsert exK (tnEmittedResults w)\<rparr>"
  have x: "tnResponseID x = ''p''" "tnProviderCallIDs x = fmupd exK ''x'' fmempty" by (simp_all add: x_def w t)
  have emit: "emitResults exE 3 [exK] t = (None, x)"
    using w by (simp add: t lookupString_def bufferedResult_def exRes_def x_def)
  have p: "prepareContinuation exE exCfg 3 t = (Inr (continuationRequest exCfg x [exK]),
      (submitResult exK x)\<lparr>tnWaitingForTools := False, tnContinuationInFlight := True\<rparr>)"
  proof -
    have "trimSpace ''p'' \<noteq> []" by (simp add: graphic_trimSpace graphic_def byte_def)
    then show ?thesis using emit t(3) room keys by (simp add: prepareContinuation_def x del: emitResults.simps)
  qed
  have full: "fmcard (tnBufferedResults t) = fmcard (tnPendingTools t)" by (simp add: t fmcard_def)
  have pend: "tnPendingTools t \<noteq> fmempty" using t(1) by (metis fmempty_lookup fmupd_lookup option.distinct(1))
  have put: "putTurn 0 y ?a = (exAd y)\<lparr>adSessions := s\<rparr>" for y by (simp add: putTurn_def exAd_def)
  have put': "putTurn 0 y ((exAd z)\<lparr>adSessions := s\<rparr>) = (exAd y)\<lparr>adSessions := s\<rparr>" for y z by (simp add: putTurn_def exAd_def)
  have "continueTurn exE exCfg 3 exCn 0 ?a = (None, Some (continuationRequest exCfg x [exK]),
      (exAd ((submitResult exK x)\<lparr>tnWaitingForTools := False, tnContinuationInFlight := True\<rparr>))\<lparr>adSessions := s\<rparr>)"
    using full pend t(8,9) p bytes
    by (simp add: continueTurn_def turn exRes_valid match results(1) frames staged Let_def size t_def [symmetric] put put'
        del: exQ_simps(4-) validateBrokeredResultFrames.simps stageResults.simps)
  moreover have "answeredCalls (continuationRequest exCfg x [exK]) = [''x'']"
    by (simp add: answeredCalls_continuation x lookupString_def)
  ultimately show ?thesis by blast
qed

theorem tool_call_answered_once_witness:
  "\<exists>S v w p q. adReachable exE exCfg S \<and> fmlookup (asCalls S) 0 = Some (v, p) \<and> fmlookup (asCalls S) 1 = Some (w, q) \<and>
    vcTurn w = vcTurn v \<and> answeredCalls (vcRequest w) = [''x''] \<and> distinct (answeredCalls (vcRequest w)) \<and>
    set (answeredCalls (vcRequest w)) \<inter> set (answeredCalls (vcRequest v)) = {}"
proof -
  obtain b n s where R: "adReachable exE exCfg (exWait b n s)" using exWaiting by blast
  obtain q u where q: "continueTurn exE exCfg 3 exCn 0 (asAd (exWait b n s)) = (None, Some q, (exAd u)\<lparr>adSessions := s\<rparr>)"
    "answeredCalls q = [''x'']" using exContinued [where b = b and n = n and s = s] by (auto simp: exWait_def)
  have "fmlookup (adHeap (asAd (exWait b n s))) 0 = Some (exQ b n)" by (simp add: exWait_def exAd_def)
  from adStep.continued [OF this q(1)] have "adStep exE exCfg (exWait b n s) (spawn 0 (Some q) ((exWait b n s)\<lparr>asAd := (exAd u)\<lparr>adSessions := s\<rparr>\<rparr>))" .
  from exStep [OF R this] have R': "adReachable exE exCfg (spawn 0 (Some q) ((exWait b n s)\<lparr>asAd := (exAd u)\<lparr>adSessions := s\<rparr>\<rparr>))" .
  let ?S = "spawn 0 (Some q) ((exWait b n s)\<lparr>asAd := (exAd u)\<lparr>adSessions := s\<rparr>\<rparr>)"
  have c: "fmlookup (asCalls ?S) 0 = Some (exCall, CallEnded True)" "fmlookup (asCalls ?S) 1 = Some (newInvocation 0 q, CallQueued)"
    "vcTurn exCall = vcTurn (newInvocation 0 q)"
    by (simp_all add: spawn_def exWait_def exSys_def exCall_def)
  from tool_call_answered_once [OF exE_ok exCfg_ok R' c(2,1,3)] R' c q(2) show ?thesis
    by (intro exI [of _ ?S] exI [of _ exCall] exI [of _ "newInvocation 0 q"]) simp
qed

end
