(* ===== verification/HarnessClient.thy ===== *)
theory HarnessClient
  imports HarnessProtocol
begin

text \<open>
  The HTTP client of the harness protocol, \<^verbatim>\<open>src/internal/harness/client.go\<close>: its calls with every error, and
  the reader of event streams. The exchange of one HTTP request, the redaction of texts and the typed
  JSON decoders are parameters. The client never follows a redirect (\<open>harnessHTTPClient\<close>), so one
  exchange is one request.
\<close>

section \<open>The client and its errors\<close>

definition maxFetchTurnOutputBytes :: nat where "maxFetchTurnOutputBytes = 52428800"
definition maxHarnessControlResponseBytes :: nat where "maxHarnessControlResponseBytes = 1048576"
definition maxHarnessSSELineBytes :: nat where "maxHarnessSSELineBytes = 8388608"
definition maxHarnessSSEEventBytes :: nat where "maxHarnessSSEEventBytes = 8388608"

text \<open>The client: the escaped path of its base URL and its bearer token.\<close>

record harnessClient =
  hcBasePath :: string
  hcBearer :: string

record clientError =
  ceOp :: string
  ceStatusCode :: nat
  ceMessage :: string
  ceRemoteAccepted :: bool

text \<open>\<open>NewClient\<close> with the option \<open>WithBearerToken\<close>; \<open>parseURL\<close> gives scheme, host and escaped path, or an error.\<close>

definition NewClient :: "(string \<Rightarrow> string + string \<times> string \<times> string) \<Rightarrow> string \<Rightarrow> string \<Rightarrow> string + harnessClient" where
  "NewClient parseURL baseURL token = (case parseURL (trimSpace baseURL) of
     Inl e \<Rightarrow> Inl (''parse harness base url: '' @ e)
   | Inr (scheme, host, path) \<Rightarrow> if scheme = [] \<or> host = [] then Inl ''harness base url must include scheme and host''
       else Inr \<lparr>hcBasePath = path, hcBearer = trimSpace token\<rparr>)"

definition clientErrorText :: "clientError \<Rightarrow> string" where
  "clientErrorText e = (if ceStatusCode e > 0
     then ''harness '' @ ceOp e @ '' failed ('' @ formatUint (ceStatusCode e) @ ''): '' @ ceMessage e
     else ''harness '' @ ceOp e @ '' failed: '' @ ceMessage e)"

text \<open>\<open>strings.ReplaceAll\<close> for a pattern that is not empty.\<close>

fun replaceAll :: "string \<Rightarrow> string \<Rightarrow> string \<Rightarrow> string" where
  "replaceAll old new [] = []"
| "replaceAll old new (c # s) = (if old \<noteq> [] \<and> hasPrefix (c # s) old
     then new @ replaceAll old new (drop (length old - 1) s) else c # replaceAll old new s)"

text \<open>The outside: the exchange, the redaction (\<^verbatim>\<open>internal/events\<close>) and the decoders.\<close>

record clientRequest =
  crMethod :: string
  crPath :: string
  crRawPath :: string
  crQuery :: "(string \<times> string) list"
  crBody :: "string option"
  crAccept :: string
  crContentType :: "string option"
  crAuthorization :: "string option"

record clientReply =
  cyStatus :: nat
  cyStatusText :: string
  cyBody :: string
  cyFails :: "string option"  \<comment> \<open>reading the body ends in this error\<close>

datatype transportError = TransportCanceled | TransportDeadline | TransportOther

record clientWorld =
  cwExchange :: "clientRequest \<Rightarrow> transportError + clientReply"
  cwRedact :: "string \<Rightarrow> string"
  cwQuote :: "string \<Rightarrow> string"
  cwValid :: "string \<Rightarrow> bool"
  cwCompact :: "string \<Rightarrow> string option"
  cwTime :: "int \<Rightarrow> string"
  cwHealth :: "string \<Rightarrow> string + healthResponse"
  cwCapabilities :: "string \<Rightarrow> string + capabilitiesResponse"
  cwStart :: "string \<Rightarrow> string + startTurnResponse"
  cwTurn :: "string \<Rightarrow> string + turnResponse"
  cwFrame :: "string \<Rightarrow> string + harnessFrame"

definition sanitizeMessage :: "clientWorld \<Rightarrow> harnessClient \<Rightarrow> string \<Rightarrow> string" where
  "sanitizeMessage W c message =
     cwRedact W (if hcBearer c \<noteq> [] then replaceAll (hcBearer c) ''[REDACTED]'' message else message)"

definition safeError :: "clientWorld \<Rightarrow> harnessClient \<Rightarrow> string \<Rightarrow> nat \<Rightarrow> string \<Rightarrow> clientError" where
  "safeError W c operation status message =
     \<lparr>ceOp = operation, ceStatusCode = status, ceMessage = sanitizeMessage W c message, ceRemoteAccepted = False\<rparr>"

definition acceptedError :: "clientWorld \<Rightarrow> harnessClient \<Rightarrow> string \<Rightarrow> string \<Rightarrow> clientError" where
  "acceptedError W c operation message =
     \<lparr>ceOp = operation, ceStatusCode = 0, ceMessage = sanitizeMessage W c message, ceRemoteAccepted = True\<rparr>"

definition safeClientError :: "clientWorld \<Rightarrow> string \<Rightarrow> nat \<Rightarrow> string \<Rightarrow> clientError" where
  "safeClientError W operation status message =
     \<lparr>ceOp = operation, ceStatusCode = status, ceMessage = cwRedact W message, ceRemoteAccepted = False\<rparr>"

definition safeTransportErrorMessage :: "transportError \<Rightarrow> string" where
  "safeTransportErrorMessage e = (case e of TransportCanceled \<Rightarrow> ''context canceled''
     | TransportDeadline \<Rightarrow> ''context deadline exceeded'' | TransportOther \<Rightarrow> ''transport request failed'')"

section \<open>One request\<close>

text \<open>The path of a resource under the base: the decoded and the escaped form.\<close>

definition resolve :: "harnessClient \<Rightarrow> string \<Rightarrow> string \<times> string" where
  "resolve c rel =
     (let joined = cleanPath (hcBasePath c @ ''/'' @ rel);
          escaped = (if hasSuffix rel ''/'' \<and> \<not> hasSuffix joined ''/'' then joined @ ''/'' else joined) in
      case pathUnescape escaped of None \<Rightarrow> (escaped, []) | Some decoded \<Rightarrow> (decoded, escaped))"

definition authHeader :: "harnessClient \<Rightarrow> string option" where
  "authHeader c = (if hcBearer c = [] then None else Some (''Bearer '' @ hcBearer c))"

definition clientRequestFor :: "harnessClient \<Rightarrow> string \<Rightarrow> string \<Rightarrow> (string \<times> string) list \<Rightarrow> string option \<Rightarrow> string \<Rightarrow> clientRequest" where
  "clientRequestFor c meth rel query body accept = (case resolve c rel of (decoded, escaped) \<Rightarrow>
     \<lparr>crMethod = meth, crPath = decoded, crRawPath = escaped, crQuery = query, crBody = body, crAccept = accept,
      crContentType = map_option (\<lambda>_. ''application/json'') body, crAuthorization = authHeader c\<rparr>)"

definition successStatus :: "nat \<Rightarrow> bool" where
  "successStatus s \<longleftrightarrow> 200 \<le> s \<and> s < 300"

text \<open>The exchange with the status check that every call makes.\<close>

definition clientExchange :: "clientWorld \<Rightarrow> harnessClient \<Rightarrow> string \<Rightarrow> clientRequest \<Rightarrow> clientError + clientReply" where
  "clientExchange W c operation request =
     (case cwExchange W request of
        Inl e \<Rightarrow> Inl (safeError W c operation 0 (safeTransportErrorMessage e))
      | Inr reply \<Rightarrow> if \<not> successStatus (cyStatus reply)
          then Inl (safeError W c operation (cyStatus reply) (cyStatusText reply)) else Inr reply)"

definition decodeBoundedJSON :: "clientWorld \<Rightarrow> harnessClient \<Rightarrow> string \<Rightarrow> (string \<Rightarrow> string + 'r) \<Rightarrow> clientReply \<Rightarrow> clientError + 'r" where
  "decodeBoundedJSON W c operation decode reply =
     (if cyFails reply \<noteq> None \<and> length (cyBody reply) \<le> maxHarnessControlResponseBytes
      then Inl (safeError W c operation (cyStatus reply) (the (cyFails reply)))
      else if length (cyBody reply) > maxHarnessControlResponseBytes
      then Inl (safeError W c operation (cyStatus reply) ''JSON response exceeds harness control limit'')
      else (case decode (cyBody reply) of Inl e \<Rightarrow> Inl (safeError W c operation (cyStatus reply) e) | Inr r \<Rightarrow> Inr r))"

definition getJSON :: "clientWorld \<Rightarrow> harnessClient \<Rightarrow> string \<Rightarrow> (string \<Rightarrow> string + 'r) \<Rightarrow> clientError + 'r" where
  "getJSON W c rel decode = bindR (clientExchange W c ''get'' (clientRequestFor c ''GET'' rel [] None ''application/json''))
     (decodeBoundedJSON W c ''get'' decode)"

text \<open>\<open>payload\<close> is the JSON of the request, \<open>None\<close> when it cannot be encoded.\<close>

definition postJSON :: "clientWorld \<Rightarrow> harnessClient \<Rightarrow> string \<Rightarrow> string option \<Rightarrow> (string \<Rightarrow> string + 'r) \<Rightarrow> clientError + 'r" where
  "postJSON W c rel payload decode = (case payload of
     None \<Rightarrow> Inl (safeClientError W ''post'' 0 ''json: error calling MarshalJSON'')
   | Some body \<Rightarrow> bindR (clientExchange W c ''post'' (clientRequestFor c ''POST'' rel [] (Some body) ''application/json''))
       (decodeBoundedJSON W c ''post'' decode))"

section \<open>The calls\<close>

definition cancelJSON :: "cancelTurnRequest \<Rightarrow> string" where
  "cancelJSON r = jsonObject [(''version'', Some (jsonString (clVersion r))), (''namespace'', Some (jsonString (clNamespace r))),
     (''taskName'', Some (jsonString (clTaskName r))), (''sessionName'', Some (jsonString (clSessionName r))),
     (''runtimeSessionID'', Some (jsonString (clRuntimeSessionID r))), (''turnID'', Some (jsonString (clTurnID r))),
     (''correlationID'', Some (jsonString (clCorrelationID r))), (''reason'', omitEmptyString (clReason r))]"

definition continueJSON :: "(string \<Rightarrow> string option) \<Rightarrow> continueTurnRequest \<Rightarrow> string option" where
  "continueJSON compact r = map_option (\<lambda>results. jsonObject
     [(''version'', Some (jsonString (cnVersion r))), (''namespace'', Some (jsonString (cnNamespace r))),
      (''taskName'', Some (jsonString (cnTaskName r))), (''sessionName'', Some (jsonString (cnSessionName r))),
      (''runtimeSessionID'', Some (jsonString (cnRuntimeSessionID r))), (''turnID'', Some (jsonString (cnTurnID r))),
      (''correlationID'', Some (jsonString (cnCorrelationID r))), (''toolResults'', omitEmptyList results),
      (''metadata'', omitEmptyMap (cnMetadata r))]) (those (map (resultJSON compact) (cnToolResults r)))"

definition clientHealth :: "clientWorld \<Rightarrow> harnessClient \<Rightarrow> clientError + healthResponse" where
  "clientHealth W c = bindR (getJSON W c HealthPath (cwHealth W)) (\<lambda>r. case validateHealth (cwQuote W) r of
     Some e \<Rightarrow> Inl (safeError W c ''health'' 0 e) | None \<Rightarrow> Inr r)"

definition clientCapabilities :: "clientWorld \<Rightarrow> harnessClient \<Rightarrow> clientError + capabilitiesResponse" where
  "clientCapabilities W c = bindR (getJSON W c CapabilitiesPath (cwCapabilities W)) (\<lambda>r.
     case validateCapabilitiesResponse (cwQuote W) r of
     Some e \<Rightarrow> Inl (safeError W c ''capabilities'' 0 e) | None \<Rightarrow> Inr r)"

definition clientStartTurn :: "clientWorld \<Rightarrow> harnessClient \<Rightarrow> startTurnRequest \<Rightarrow> clientError + startTurnResponse" where
  "clientStartTurn W c request =
     (case validateStart (cwQuote W) (cwValid W) request of Some e \<Rightarrow> Inl (safeClientError W ''start_turn'' 0 e) | None \<Rightarrow>
      (case postJSON W c TurnsPath (startJSON (cwCompact W) (cwTime W) request) (cwStart W) of
         Inl e \<Rightarrow> Inl (if successStatus (ceStatusCode e) then e\<lparr>ceRemoteAccepted := True\<rparr> else e)
       | Inr p \<Rightarrow>
          if trimSpace (spVersion p) \<noteq> ProtocolVersion
          then Inl (acceptedError W c ''start_turn'' (''unsupported version '' @ cwQuote W (spVersion p)))
          else if \<not> spAccepted p then Inl (safeError W c ''start_turn'' 0 ''harness did not accept turn'')
          else (case validateAcceptedTurn (cwQuote W) request p of
            Some e \<Rightarrow> Inl (acceptedError W c ''start_turn'' e) | None \<Rightarrow> Inr p)))"

definition clientCancelTurn :: "clientWorld \<Rightarrow> harnessClient \<Rightarrow> cancelTurnRequest \<Rightarrow> clientError + turnResponse" where
  "clientCancelTurn W c request =
     (let fail = (\<lambda>e. Inl (safeError W c ''cancel_turn'' 0 e)); q = cwQuote W in
      case validateCancel q request of Some e \<Rightarrow> fail e | None \<Rightarrow>
      (case CancelTurnPath (clTurnID request) of Inl e \<Rightarrow> fail e | Inr rel \<Rightarrow>
       bindR (postJSON W c rel (Some (cancelJSON request)) (cwTurn W)) (\<lambda>p.
         if trimSpace (tpVersion p) \<noteq> ProtocolVersion then fail (''unsupported version '' @ q (tpVersion p))
         else if \<not> tpAccepted p then fail ''harness did not accept cancellation''
         else if tpRuntimeSessionID p \<noteq> clRuntimeSessionID request
         then fail (''harness cancelled runtime session '' @ q (tpRuntimeSessionID p) @ '', want '' @ q (clRuntimeSessionID request))
         else if tpTurnID p \<noteq> clTurnID request
         then fail (''harness cancelled turn '' @ q (tpTurnID p) @ '', want '' @ q (clTurnID request))
         else if tpCorrelationID p \<noteq> [] \<and> tpCorrelationID p \<noteq> clCorrelationID request
         then fail (''harness cancelled correlation id '' @ q (tpCorrelationID p) @ '', want '' @ q (clCorrelationID request))
         else Inr p)))"

definition clientContinueTurn :: "clientWorld \<Rightarrow> harnessClient \<Rightarrow> continueTurnRequest \<Rightarrow> clientError + turnResponse" where
  "clientContinueTurn W c request =
     (let fail = (\<lambda>e. Inl (safeError W c ''continue_turn'' 0 e)) in
      case validateContinue (cwQuote W) request of Some e \<Rightarrow> fail e | None \<Rightarrow>
      (case ContinueTurnPath (cnTurnID request) of Inl e \<Rightarrow> fail e | Inr rel \<Rightarrow>
       bindR (postJSON W c rel (continueJSON (cwCompact W) request) (cwTurn W)) (\<lambda>p.
         case validateContinued (cwQuote W) p request of Some e \<Rightarrow> fail e | None \<Rightarrow> Inr p)))"

definition clientFetchTurnOutput :: "clientWorld \<Rightarrow> harnessClient \<Rightarrow> string \<Rightarrow> string \<Rightarrow> clientError + string" where
  "clientFetchTurnOutput W c turnID outputRef =
     (let operation = ''fetch_turn_output'' in
      case OutputTurnPath turnID of Inl e \<Rightarrow> Inl (safeClientError W operation 0 e) | Inr rel \<Rightarrow>
      if trimSpace outputRef = [] then Inl (safeClientError W operation 0 ''output ref is required'')
      else bindR (clientExchange W c operation
          (clientRequestFor c ''GET'' rel [(''ref'', outputRef)] None ''application/octet-stream'')) (\<lambda>reply.
        if cyFails reply \<noteq> None \<and> length (cyBody reply) \<le> maxFetchTurnOutputBytes
        then Inl (safeClientError W operation (cyStatus reply) (the (cyFails reply)))
        else if length (cyBody reply) > maxFetchTurnOutputBytes
        then Inl (safeClientError W operation (cyStatus reply) ''output exceeds harness fetch limit'')
        else Inr (cyBody reply)))"

section \<open>The event stream\<close>

text \<open>
  \<^verbatim>\<open>bufio.Scanner\<close> with lines of less than \<open>limit\<close> bytes, and whether it stopped at a longer one; the last line needs no
  newline, and a carriage return at the end of a line is dropped.
\<close>

definition dropCR :: "string \<Rightarrow> string" where
  "dropCR l = (if l \<noteq> [] \<and> last l = CHR 0x0D then butlast l else l)"

function scanLines :: "nat \<Rightarrow> string \<Rightarrow> string list \<times> bool" where
  "scanLines limit s =
     (if s = [] then ([], False) else
      (let line = takeWhile (\<lambda>c. c \<noteq> CHR 0x0A) s in
       if length line \<ge> limit then ([], True)
       else (case dropWhile (\<lambda>c. c \<noteq> CHR 0x0A) s of
           [] \<Rightarrow> ([dropCR line], False)
         | _ # rest \<Rightarrow> (case scanLines limit rest of (lines, tooLong) \<Rightarrow> (dropCR line # lines, tooLong)))))"
  by pat_completeness auto
termination
proof (relation "measure (length \<circ> snd)")
  fix limit :: nat and s line c rest
  assume "dropWhile (\<lambda>c. c \<noteq> CHR 0x0A) s = c # rest"
  then have "length (c # rest) \<le> length s" by (metis length_dropWhile_le)
  then show "((limit, rest), limit, s) \<in> measure (length \<circ> snd)" by simp
qed simp

declare scanLines.simps [simp del]

text \<open>What becomes of an event: the next one, the end mark, an error of the client or of the callback.\<close>

datatype 'e readError = ReadClient clientError | ReadEmit 'e

datatype 'e sseOutcome = SseNext | SseDone | SseFailed "'e readError"

definition streamError :: "clientWorld \<Rightarrow> harnessClient \<Rightarrow> string \<Rightarrow> 'e readError" where
  "streamError W c message = ReadClient (safeError W c ''stream_frames'' 0 message)"

definition emitSSEData :: "clientWorld \<Rightarrow> harnessClient \<Rightarrow> (harnessFrame \<Rightarrow> 's \<Rightarrow> 'e option \<times> 's) \<Rightarrow> string \<Rightarrow> 's \<Rightarrow>
    'e sseOutcome \<times> 's" where
  "emitSSEData W c emit raw s =
     (let t = trimSpace raw in
      if t = [] then (SseNext, s) else if t = ''[DONE]'' then (SseDone, s)
      else (case cwFrame W t of
          Inl e \<Rightarrow> (SseFailed (streamError W c (''decode harness frame: '' @ e)), s)
        | Inr f \<Rightarrow> (case emit f s of (Some e, s') \<Rightarrow> (SseFailed (ReadEmit e), s') | (None, s') \<Rightarrow> (SseNext, s'))))"

definition appendSSEData :: "clientWorld \<Rightarrow> string \<Rightarrow> string \<Rightarrow> clientError + string" where
  "appendSSEData W data v =
     (let additional = length v + (if data \<noteq> [] then 1 else 0) in
      if length data + additional > maxHarnessSSEEventBytes
      then Inl (safeClientError W ''stream_frames'' 0 ''SSE event exceeds harness frame limit'')
      else Inr (if data \<noteq> [] then data @ newline @ v else v))"

text \<open>The loop over the lines: \<open>Inl\<close> the data left at their end, \<open>Inr\<close> the result of the whole reading.\<close>

fun sseLines :: "clientWorld \<Rightarrow> harnessClient \<Rightarrow> (harnessFrame \<Rightarrow> 's \<Rightarrow> 'e option \<times> 's) \<Rightarrow> string \<Rightarrow> string list \<Rightarrow> 's \<Rightarrow>
    (string + 'e readError option) \<times> 's" where
  "sseLines W c emit data [] s = (Inl data, s)"
| "sseLines W c emit data (line # lines) s =
     (if line = [] then (case emitSSEData W c emit data s of
          (SseDone, s') \<Rightarrow> (Inr None, s')
        | (SseFailed e, s') \<Rightarrow> (Inr (Some e), s')
        | (SseNext, s') \<Rightarrow> sseLines W c emit [] lines s')
      else if hasPrefix line '':'' then sseLines W c emit data lines s
      else if hasPrefix line ''data:'' then (case appendSSEData W data (trimSpace (trimPrefix line ''data:'')) of
          Inl e \<Rightarrow> (Inr (Some (ReadClient e)), s)
        | Inr data' \<Rightarrow> sseLines W c emit data' lines s)
      else sseLines W c emit data lines s)"

definition readSSEFrames :: "clientWorld \<Rightarrow> harnessClient \<Rightarrow> (harnessFrame \<Rightarrow> 's \<Rightarrow> 'e option \<times> 's) \<Rightarrow> string \<Rightarrow> string option \<Rightarrow> 's \<Rightarrow>
    'e readError option \<times> 's" where
  "readSSEFrames W c emit body fails s =
     (case scanLines maxHarnessSSELineBytes body of (lines, tooLong) \<Rightarrow>
      case sseLines W c emit [] lines s of
        (Inr r, s') \<Rightarrow> (r, s')
      | (Inl data, s') \<Rightarrow>
          if tooLong then (Some (streamError W c ''bufio.Scanner: token too long''), s')
          else if fails \<noteq> None then (Some (streamError W c (the fails)), s')
          else if data = [] then (None, s')
          else (case emitSSEData W c emit data s' of (SseFailed e, s2) \<Rightarrow> (Some e, s2) | (_, s2) \<Rightarrow> (None, s2)))"

definition clientStreamFrames :: "clientWorld \<Rightarrow> harnessClient \<Rightarrow> string \<Rightarrow> int \<Rightarrow> (harnessFrame \<Rightarrow> 's \<Rightarrow> 'e option \<times> 's) \<Rightarrow> 's \<Rightarrow>
    'e readError option \<times> 's" where
  "clientStreamFrames W c turnID afterSeq emit s =
     (case EventStreamPath turnID of Inl e \<Rightarrow> (Some (ReadClient (safeClientError W ''stream_frames'' 0 e)), s) | Inr rel \<Rightarrow>
      (case clientExchange W c ''stream_frames'' (clientRequestFor c ''GET'' rel
          (if afterSeq > 0 then [(''afterSeq'', formatInt afterSeq)] else []) None ''text/event-stream'') of
        Inl e \<Rightarrow> (Some (ReadClient e), s)
      | Inr reply \<Rightarrow> readSSEFrames W c emit (cyBody reply) (cyFails reply) s))"

end
