(* ===== verification/AdapterHost.thy ===== *)
theory AdapterHost
  imports AdapterOps GoNet AdapterFrames
begin

text \<open>
  The adapter's host: its configuration from the environment (\<^verbatim>\<open>src/internal/adapter/config.go\<close>) and
  the client of Foundry (\<^verbatim>\<open>responses.go\<close>, \<^verbatim>\<open>context.go\<close>). The environment, durations, URLs, the token
  provider and the HTTP exchange are parameters. The client's operations also return the requests that
  they sent.
\<close>

section \<open>Configuration\<close>

text \<open>A parsed URL with its port and its path.\<close>

record fullURL = url +
  fuPort :: string
  fuPath :: string

record adapterHost =
  ahLookup :: "string \<Rightarrow> string option"
  ahDuration :: "string \<Rightarrow> int option"
  ahURL :: "string \<Rightarrow> fullURL option"
  ahLoopback :: "string \<Rightarrow> bool"

definition ahGetenv :: "adapterHost \<Rightarrow> string \<Rightarrow> string" where
  "ahGetenv H name = (case ahLookup H name of None \<Rightarrow> [] | Some v \<Rightarrow> v)"

definition safeEndpoint :: "adapterHost \<Rightarrow> string \<Rightarrow> bool" where
  "safeEndpoint H = EndpointIsSafe (\<lambda>raw. map_option url.truncate (ahURL H raw)) (ahLoopback H)"

fun collectClasses :: "adapterEnv \<Rightarrow> string list \<Rightarrow> string list \<Rightarrow> string list" where
  "collectClasses E [] classes = classes"
| "collectClasses E (raw # rest) classes =
     (let c = aeLower E (trimSpace raw) in
      if c = [] \<or> c \<in> set classes then collectClasses E rest classes else collectClasses E rest (classes @ [c]))"

definition parseBrokeredToolClasses :: "adapterEnv \<Rightarrow> string \<Rightarrow> string list" where
  "parseBrokeredToolClasses E setting = collectClasses E (splitChar (CHR '','') setting) []"

definition defaultFoundryFeatures :: "adapterHost \<Rightarrow> string" where
  "defaultFoundryFeatures H = (case ahLookup H ''ORKA_FOUNDRY_FEATURES'' of
     None \<Rightarrow> ''HostedAgents=V1Preview'' | Some v \<Rightarrow> trimSpace v)"

definition parseDurationEnv :: "adapterHost \<Rightarrow> string \<Rightarrow> int \<Rightarrow> int" where
  "parseDurationEnv H name fallback = (case ahLookup H name of None \<Rightarrow> fallback | Some v \<Rightarrow>
     if trimSpace v = [] then fallback
     else (case ahDuration H (trimSpace v) of None \<Rightarrow> 0 | Some d \<Rightarrow> if d \<le> 0 then 0 else d))"

definition loadConfig :: "adapterEnv \<Rightarrow> adapterHost \<Rightarrow> adapterConfig" where
  "loadConfig E H = (let getenv = ahGetenv H; setting = getenv ''ORKA_FOUNDRY_BROKERED_TOOL_CLASSES'' in
     \<lparr>afAddr = FirstNonBlank [getenv ''ORKA_FOUNDRY_ADAPTER_ADDR'', '':8090''],
      afRuntimeName = FirstNonBlank [getenv ''ORKA_FOUNDRY_RUNTIME_NAME'', ''foundry-hosted-runtime''],
      afAdapterBearer = trimSpace (getenv ''ORKA_FOUNDRY_ADAPTER_BEARER_TOKEN''),
      afProjectEndpoint = trimRightChar (trimSpace (getenv ''ORKA_FOUNDRY_PROJECT_ENDPOINT'')) (CHR ''/''),
      afResponsesEndpoint = trimRightChar (trimSpace (getenv ''ORKA_FOUNDRY_RESPONSES_ENDPOINT'')) (CHR ''/''),
      afAgentName = trimSpace (getenv ''ORKA_FOUNDRY_AGENT_NAME''),
      afAgentVersion = trimSpace (getenv ''ORKA_FOUNDRY_AGENT_VERSION''),
      afAPIVersion = FirstNonBlank [getenv ''ORKA_FOUNDRY_API_VERSION'', ''v1''],
      afTurnTimeout = parseDurationEnv H ''ORKA_FOUNDRY_TURN_TIMEOUT'' 20000000000,
      afIsolationMode = FirstNonBlank [getenv ''ORKA_FOUNDRY_ISOLATION_MODE'', ''entra''],
      afFoundryFeatures = defaultFoundryFeatures H,
      afMaxOutputBytes = int DefaultMaxOutputBytes, afMaxStreamBytes = int DefaultMaxStreamBytes,
      afMaxEventBytes = int DefaultMaxEventBytes, afMaxBrokeredBytes = int DefaultMaxBrokeredBytes,
      afMaxBrokeredTurnBytes = int DefaultMaxBrokeredTurnBytes, afMaxBrokeredCalls = int DefaultMaxBrokeredCalls,
      afMaxEvents = int DefaultMaxEvents, afMaxConcurrent = 1,
      afBrokeredToolClasses = parseBrokeredToolClasses E setting, afBrokeredToolClassSetting = setting,
      afToolSchemaMode = aeLower E (FirstNonBlank [getenv ''ORKA_FOUNDRY_TOOL_SCHEMA_MODE'', ToolSchemaModeRequest])\<rparr>)"

definition effectivePort :: "adapterEnv \<Rightarrow> fullURL \<Rightarrow> string" where
  "effectivePort E u = (if fuPort u \<noteq> [] then fuPort u
     else if aeLower E (uScheme u) = ''https'' then ''443''
     else if aeLower E (uScheme u) = ''http'' then ''80'' else [])"

definition sameEndpointOrigin :: "adapterEnv \<Rightarrow> fullURL \<Rightarrow> fullURL \<Rightarrow> bool" where
  "sameEndpointOrigin E l r = (if \<not> equalFold (uScheme l) (uScheme r) \<or> \<not> equalFold (uHostname l) (uHostname r) then False
     else effectivePort E l = effectivePort E r)"

definition endpointRequirement :: string where
  "endpointRequirement = ''foundry endpoint must use https (http allowed only for loopback) '' @
     ''and must not include credentials, query, or fragment''"

definition agentNameError :: "string \<Rightarrow> string option" where
  "agentNameError name = (if ValidateAgentName name then None else Some (if name = [] then ''foundry agent name is required''
     else ''foundry agent name must be 1-63 alphanumeric or hyphen characters without leading, trailing, or repeated hyphens''))"

definition agentVersionError :: "string \<Rightarrow> string option" where
  "agentVersionError version = (if ValidateAgentVersion version then None
     else Some ''foundry agent version must be a concrete version identifier'')"

definition validateResponsesEndpoint :: "adapterEnv \<Rightarrow> adapterHost \<Rightarrow> adapterConfig \<Rightarrow> string option" where
  "validateResponsesEndpoint E H c =
     (if afResponsesEndpoint c = [] then None
      else if \<not> safeEndpoint H (afResponsesEndpoint c) then Some endpointRequirement
      else (case (ahURL H (afProjectEndpoint c), ahURL H (afResponsesEndpoint c)) of
          (Some project, Some responses) \<Rightarrow>
            if \<not> sameEndpointOrigin E project responses
            then Some ''foundry responses endpoint must use the project endpoint origin''
            else if trimRightChar (fuPath responses) (CHR ''/'') \<noteq>
              trimRightChar (fuPath project) (CHR ''/'') @ ''/agents/'' @ afAgentName c @ ''/endpoint/protocols/openai/responses''
            then Some ''foundry responses endpoint must target the configured project and agent'' else None
        | _ \<Rightarrow> Some ''foundry endpoints must be valid URLs''))"

definition unsupportedClass :: "adapterEnv \<Rightarrow> string \<Rightarrow> string" where
  "unsupportedClass E c = ''unsupported Foundry brokered tool class '' @ aeQuote E c"

definition validateConfig :: "adapterEnv \<Rightarrow> adapterHost \<Rightarrow> adapterConfig \<Rightarrow> string option" where
  "validateConfig E H c = firstError
     [refuse (trimSpace (afAdapterBearer c) = []) ''adapter bearer token is required'',
      agentNameError (afAgentName c),
      agentVersionError (afAgentVersion c),
      refuse (afTurnTimeout c \<le> 0) ''turn timeout must be positive'',
      refuse (afAPIVersion c = []) ''foundry API version is required'',
      refuse (afProjectEndpoint c = []) ''foundry project endpoint is required'',
      refuse (\<not> safeEndpoint H (afProjectEndpoint c)) endpointRequirement,
      validateResponsesEndpoint E H c,
      map_option (unsupportedClass E) (find (\<lambda>v. v \<noteq> [] \<and> v \<noteq> classRead \<and> v \<noteq> classWrite)
        (map (\<lambda>raw. aeLower E (trimSpace raw)) (splitChar (CHR '','') (afBrokeredToolClassSetting c)))),
      map_option (unsupportedClass E) (find (\<lambda>v. v \<noteq> classRead \<and> v \<noteq> classWrite) (afBrokeredToolClasses c)),
      refuse (aeLower E (trimSpace (afToolSchemaMode c)) \<notin> {[], ToolSchemaModeRequest, ToolSchemaModeProviderStatic})
        (''foundry tool schema mode must be '' @ ToolSchemaModeRequest @ '' or '' @ ToolSchemaModeProviderStatic),
      refuse (aeLower E (trimSpace (afIsolationMode c)) \<notin> {''entra'', ''header''})
        ''foundry isolation mode must be entra or header'']"

text \<open>The limits of a loaded configuration are those that the proofs about turns assume.\<close>

lemma loadConfig_ok: "cfgOk (loadConfig E H)"
  by (simp add: loadConfig_def Let_def cfgOk_def DefaultMaxEvents_def DefaultMaxOutputBytes_def)

section \<open>The client of Foundry\<close>

text \<open>One request, with what the code sets on it.\<close>

record providerRequest =
  prMethod :: string
  prURL :: string
  prBody :: "string option"
  prContentType :: "string option"
  prAccept :: string
  prFeatures :: string  \<comment> \<open>no header when empty\<close>
  prIsolation :: "string option"
  prAuthorization :: string

record providerReply =
  pyStatus :: nat
  pyContentType :: string
  pyBody :: string
  pyFails :: bool  \<comment> \<open>reading the body ends in an error\<close>

text \<open>
  \<open>pwAPI\<close> sets the query parameter \<open>api-version\<close> of a URL and \<open>pwVersionPath\<close> appends an escaped
  segment to the path of a URL; both are \<open>None\<close> when the URL does not parse.
\<close>

record providerWorld =
  pwURL :: "string \<Rightarrow> fullURL option"
  pwAPI :: "string \<Rightarrow> string \<Rightarrow> string option"
  pwVersionPath :: "string \<Rightarrow> string \<Rightarrow> string option"
  pwToken :: "adapterError + string"
  pwExchange :: "providerRequest \<Rightarrow> adapterError + providerReply"
  pwRequest :: "responseRequest \<Rightarrow> string option"  \<comment> \<open>json.Marshal\<close>
  pwSession :: "string \<Rightarrow> (string \<times> string \<times> string) option"  \<comment> \<open>the three ids of a session document\<close>
  pwStatus :: "string \<Rightarrow> string option"  \<comment> \<open>the status of a version document\<close>

definition clientDo :: "providerWorld \<Rightarrow> adapterConfig \<Rightarrow> string option \<Rightarrow> string \<Rightarrow> string \<Rightarrow> string option \<Rightarrow>
    (adapterError + providerReply) \<times> providerRequest list" where
  "clientDo W cfg isolation meth rawURL body =
     (case pwURL W rawURL of None \<Rightarrow> (Inl (AeText ''parse URL''), []) | Some u \<Rightarrow>
      if equalFold (afIsolationMode cfg) ''header'' \<and> (isolation = None \<or> trimSpace (the isolation) = [])
      then (Inl (AeText ''foundry header isolation requires a scoped isolation key''), [])
      else (case pwToken W of Inl e \<Rightarrow> (Inl e, []) | Inr token \<Rightarrow>
        (let request = \<lparr>prMethod = meth, prURL = rawURL, prBody = body,
               prContentType = map_option (\<lambda>_. ''application/json'') body,
               prAccept = ''text/event-stream, application/json'', prFeatures = afFoundryFeatures cfg,
               prIsolation = (if equalFold (afIsolationMode cfg) ''header'' then map_option trimSpace isolation else None),
               prAuthorization = ''Bearer '' @ token\<rparr> in
         case pwExchange W request of Inl e \<Rightarrow> (Inl e, [request]) | Inr reply \<Rightarrow>
           (if pyStatus reply < 200 \<or> 300 \<le> pyStatus reply
            then Inl (AeHTTP (pyStatus reply) (meth @ '' '' @ fuPath u)) else Inr reply, [request]))))"

definition withAPIVersion :: "providerWorld \<Rightarrow> string \<Rightarrow> string \<Rightarrow> string" where
  "withAPIVersion W rawURL v = (case pwAPI W rawURL v of None \<Rightarrow> rawURL | Some u \<Rightarrow> if v = [] then rawURL else u)"

definition responsesURL :: "providerWorld \<Rightarrow> adapterConfig \<Rightarrow> string" where
  "responsesURL W cfg = (if afResponsesEndpoint cfg \<noteq> [] then withAPIVersion W (afResponsesEndpoint cfg) (afAPIVersion cfg)
     else withAPIVersion W (trimRightChar (afProjectEndpoint cfg) (CHR ''/'') @ ''/agents/'' @ pathEscape (afAgentName cfg) @
       ''/endpoint/protocols/openai/responses'') (afAPIVersion cfg))"

text \<open>Without a project endpoint its URL is what the responses endpoint starts with.\<close>

definition sessionsURL :: "providerWorld \<Rightarrow> adapterConfig \<Rightarrow> string option" where
  "sessionsURL W cfg = map_option (\<lambda>base. withAPIVersion W (trimRightChar base (CHR ''/'') @ ''/agents/'' @
       pathEscape (afAgentName cfg) @ ''/endpoint/sessions'') (afAPIVersion cfg))
     (if afProjectEndpoint cfg \<noteq> [] then Some (afProjectEndpoint cfg)
      else map_option (\<lambda>u. trimSuffix (trimRightChar (uScheme u @ ''://'' @ uHost u @ fuPath u) (CHR ''/''))
        (''/agents/'' @ pathEscape (afAgentName cfg) @ ''/endpoint/protocols/openai/responses''))
        (pwURL W (afResponsesEndpoint cfg)))"

definition agentURL :: "providerWorld \<Rightarrow> adapterConfig \<Rightarrow> adapterError + string" where
  "agentURL W cfg = (if afProjectEndpoint cfg = []
     then Inl (AeText ''foundry project endpoint is required for readiness validation'')
     else Inr (withAPIVersion W (trimRightChar (afProjectEndpoint cfg) (CHR ''/'') @ ''/agents/'' @ pathEscape (afAgentName cfg))
       (afAPIVersion cfg)))"

definition agentVersionURL :: "providerWorld \<Rightarrow> adapterConfig \<Rightarrow> adapterError + string" where
  "agentVersionURL W cfg = (case agentURL W cfg of Inl e \<Rightarrow> Inl e | Inr u \<Rightarrow>
     (case pwVersionPath W u (pathEscape (afAgentVersion cfg)) of None \<Rightarrow> Inl (AeText ''parse URL'') | Some v \<Rightarrow> Inr v))"

text \<open>The reply of the responses endpoint is parsed as a stream or as one document.\<close>

definition createResponse :: "providerWorld \<Rightarrow> jsonEnv \<Rightarrow> (string \<Rightarrow> string) \<Rightarrow> 's callbacks \<Rightarrow> adapterConfig \<Rightarrow> string option \<Rightarrow>
    responseRequest \<Rightarrow> 's \<Rightarrow> (adapterError + (respError + streamSummary \<times> 's)) \<times> providerRequest list" where
  "createResponse W J lower cbs cfg isolation request s =
     (case pwRequest W (request\<lparr>rrStream := True, rrStore := True\<rparr>) of
        None \<Rightarrow> (Inl (AeText ''json: error calling MarshalJSON''), [])
      | Some body \<Rightarrow> (case clientDo W cfg isolation ''POST'' (responsesURL W cfg) (Some body) of
          (Inl e, sent) \<Rightarrow> (Inl e, sent)
        | (Inr reply, sent) \<Rightarrow>
            (Inr (if containsText (lower (pyContentType reply)) ''text/event-stream''
              then ParseSSE J cbs (nat (afMaxStreamBytes cfg)) (nat (afMaxEventBytes cfg)) (nat (afMaxEvents cfg))
                (pyBody reply) (pyFails reply) s
              else ParseJSON J cbs (nat (afMaxStreamBytes cfg)) (pyBody reply) (pyFails reply) s), sent)))"

definition sessionBody :: "adapterConfig \<Rightarrow> string" where
  "sessionBody cfg = (if afAgentVersion cfg = [] then ''{}'' else
     jsonObject [(''version_indicator'', Some (jsonObject
       [(''agent_version'', Some (jsonString (afAgentVersion cfg))), (''type'', Some (jsonString ''version_ref''))]))])"

definition createSession :: "providerWorld \<Rightarrow> adapterConfig \<Rightarrow> string option \<Rightarrow> (adapterError + string) \<times> providerRequest list" where
  "createSession W cfg isolation =
     (case sessionsURL W cfg of
        None \<Rightarrow> (Inl (AeText ''runtime error: invalid memory address or nil pointer dereference''), [])
      | Some u \<Rightarrow> (case clientDo W cfg isolation ''POST'' u (Some (sessionBody cfg)) of
        (Inl e, sent) \<Rightarrow> (Inl e, sent)
      | (Inr reply, sent) \<Rightarrow>
          (if pyFails reply \<and> int (length (pyBody reply)) \<le> afMaxEventBytes cfg then Inl (AeText ''read body'')
           else if int (length (pyBody reply)) > afMaxEventBytes cfg
           then Inl (AeText ''foundry session response exceeded adapter limit'')
           else (case pwSession W (pyBody reply) of
              None \<Rightarrow> Inl (AeText ''foundry session response was invalid JSON'')
            | Some (agentSession, session, sid) \<Rightarrow>
               (let sessionID = FirstNonBlank [agentSession, session, sid] in
                if sessionID = [] then Inl (AeText ''foundry session response did not include a session id'')
                else (case identifierError ''agent session id'' sessionID of Some e \<Rightarrow> Inl e | None \<Rightarrow> Inr sessionID))), sent)))"

definition validateAgent :: "providerWorld \<Rightarrow> adapterConfig \<Rightarrow> string option \<Rightarrow> adapterError option \<times> providerRequest list" where
  "validateAgent W cfg isolation =
     (case agentURL W cfg of Inl e \<Rightarrow> (Some e, []) | Inr u \<Rightarrow>
      (case clientDo W cfg isolation ''GET'' u None of
         (Inl e, sent) \<Rightarrow> (Some e, sent)
       | (Inr _, sent) \<Rightarrow>
          if afAgentVersion cfg = [] then (None, sent) else
          (case agentVersionURL W cfg of Inl e \<Rightarrow> (Some e, sent) | Inr v \<Rightarrow>
          (case clientDo W cfg isolation ''GET'' v None of
             (Inl e, sent2) \<Rightarrow> (Some e, sent @ sent2)
           | (Inr reply, sent2) \<Rightarrow>
              (if pyFails reply \<and> int (length (pyBody reply)) \<le> afMaxEventBytes cfg then Some (AeText ''read body'')
               else if int (length (pyBody reply)) > afMaxEventBytes cfg
               then Some (AeText ''foundry agent-version response exceeded adapter limit'')
               else (case pwStatus W (pyBody reply) of
                  None \<Rightarrow> Some (AeText ''foundry agent-version response was invalid JSON'')
                | Some status \<Rightarrow> if equalFold (trimSpace status) ''active'' then None
                    else Some (AeText ''configured Foundry agent version is not active'')), sent @ sent2)))))"

text \<open>\<open>CheckRedirect\<close>: a redirect is followed only within the configured origin, at most ten times.\<close>

definition redirectAllowed :: "adapterHost \<Rightarrow> string \<Rightarrow> nat \<Rightarrow> url \<Rightarrow> bool" where
  "redirectAllowed H endpoint hops target = (if hops \<ge> 10 then False
     else (case ahURL H (trimSpace endpoint) of None \<Rightarrow> False
       | Some base \<Rightarrow> equalFold (uScheme target) (uScheme base) \<and> equalFold (uHost target) (uHost base)))"

section \<open>What is sent\<close>

lemma clientDo_sent:
  assumes "p \<in> set (snd (clientDo W cfg isolation meth rawURL body))"
  shows "(\<exists>token. pwToken W = Inr token \<and> prAuthorization p = ''Bearer '' @ token) \<and>
    (if equalFold (afIsolationMode cfg) ''header''
     then \<exists>k. isolation = Some k \<and> trimSpace k \<noteq> [] \<and> prIsolation p = Some (trimSpace k) else prIsolation p = None)"
  using assms by (auto simp: clientDo_def Let_def split: option.splits sum.splits if_splits)

text \<open>C22: every request that the adapter sends to Foundry, for a response, a session or a readiness check, carries the access
  token; under header isolation it carries the key of the caller's scope, never a blank one, and otherwise none.\<close>

theorem requests_isolated:
  assumes "p \<in> set (snd (createResponse W J lower cbs cfg isolation request s)) \<union> set (snd (createSession W cfg isolation)) \<union>
    set (snd (validateAgent W cfg isolation))"
  shows "(\<exists>token. pwToken W = Inr token \<and> prAuthorization p = ''Bearer '' @ token) \<and>
    (if equalFold (afIsolationMode cfg) ''header''
     then \<exists>k. isolation = Some k \<and> trimSpace k \<noteq> [] \<and> prIsolation p = Some (trimSpace k) else prIsolation p = None)"
proof -
  have "\<exists>meth u body. p \<in> set (snd (clientDo W cfg isolation meth u body))"
    using assms
  proof (elim UnE)
    assume "p \<in> set (snd (createResponse W J lower cbs cfg isolation request s))"
    then show ?thesis by (auto simp: createResponse_def split: option.splits prod.splits sum.splits)
      (metis snd_conv)+
  next
    assume "p \<in> set (snd (createSession W cfg isolation))"
    then show ?thesis by (auto simp: createSession_def split: option.splits prod.splits sum.splits)
      (metis snd_conv)+
  next
    assume "p \<in> set (snd (validateAgent W cfg isolation))"
    then show ?thesis by (auto simp: validateAgent_def split: option.splits prod.splits sum.splits if_splits)
      (metis snd_conv)+
  qed
  then show ?thesis using clientDo_sent by blast
qed

end
