(* ===== verification/AdapterServer.thy ===== *)
theory AdapterServer
  imports AdapterHost AdapterSystem
begin

text \<open>
  The HTTP surface of the adapter, \<^verbatim>\<open>src/internal/adapter/server.go\<close>, with the JSON of its replies
  (\<^verbatim>\<open>src/internal/harness/transport.go\<close>) and the reader side of \<^verbatim>\<open>adapter.go\<close>. A handler runs over the system of
  \<^verbatim>\<open>AdapterSystem\<close>; what the other goroutines do while it holds no lock is the function \<open>other\<close>, by the
  number of the gap. The JSON scanner and the typed decoders are parameters.
\<close>

section \<open>Requests and replies\<close>

record httpRequest =
  hqMethod :: string
  hqAuthorization :: string
  hqPath :: string  \<comment> \<open>\<open>URL.EscapedPath\<close>\<close>
  hqAfterSeq :: string
  hqBody :: string
  hqBodyFails :: bool  \<comment> \<open>the connection ends within the body\<close>

text \<open>The status and the body of a reply; a handler that has not answered yet gives \<open>NoReply\<close>.\<close>

datatype httpReply = JsonReply nat string | StreamReply string | NoReply

definition WriteJSON :: "nat \<Rightarrow> string \<Rightarrow> httpReply" where
  "WriteJSON status value = JsonReply status (value @ newline)"

definition WriteError :: "nat \<Rightarrow> string \<Rightarrow> httpReply" where
  "WriteError status message = WriteJSON status (jsonObject [(''error'', Some (jsonString message))])"

definition startResponseJSON :: "startTurnResponse \<Rightarrow> string" where
  "startResponseJSON p = jsonObject [(''version'', Some (jsonString (spVersion p))), (''accepted'', Some (jsonBool (spAccepted p))),
     (''runtimeSessionID'', Some (jsonString (spRuntimeSessionID p))), (''turnID'', Some (jsonString (spTurnID p))),
     (''correlationID'', omitEmptyString (spCorrelationID p)), (''eventStreamPath'', omitEmptyString (spEventStreamPath p))]"

definition turnResponseJSON :: "turnResponse \<Rightarrow> string" where
  "turnResponseJSON p = jsonObject [(''version'', Some (jsonString (tpVersion p))), (''accepted'', Some (jsonBool (tpAccepted p))),
     (''runtimeSessionID'', Some (jsonString (tpRuntimeSessionID p))), (''turnID'', Some (jsonString (tpTurnID p))),
     (''correlationID'', omitEmptyString (tpCorrelationID p)), (''message'', omitEmptyString (tpMessage p))]"

definition healthJSON :: "(int \<Rightarrow> string) \<Rightarrow> healthResponse \<Rightarrow> string" where
  "healthJSON ftime h = jsonObject [(''version'', Some (jsonString (heVersion h))), (''status'', Some (jsonString (heStatus h))),
     (''ready'', Some (jsonBool (heReady h))), (''runtimeSessionID'', omitEmptyString (heRuntimeSessionID h)),
     (''message'', omitEmptyString (heMessage h)), (''checkedAt'', Some (jsonString (ftime (heCheckedAt h)))),
     (''metadata'', omitEmptyMap (heMetadata h))]"

definition capabilitiesJSON :: "capabilitiesResponse \<Rightarrow> string" where
  "capabilitiesJSON c = jsonObject
     [(''version'', Some (jsonString (cpVersion c))), (''protocolVersion'', Some (jsonString (cpProtocolVersion c))),
      (''transport'', Some (jsonString (cpTransport c))), (''runtimeName'', Some (jsonString (cpRuntimeName c))),
      (''runtimeVersion'', omitEmptyString (cpRuntimeVersion c)), (''providerKind'', Some (jsonString (cpProviderKind c))),
      (''toolExecutionModes'', Some (jsonArray (map jsonString (cpToolExecutionModes c)))),
      (''brokeredToolClasses'', omitEmptyList (map jsonString (cpBrokeredToolClasses c))),
      (''supportsCancel'', Some (jsonBool (cpSupportsCancel c))),
      (''supportsRuntimeSessions'', Some (jsonBool (cpSupportsRuntimeSessions c))),
      (''supportsContinuation'', omitFalse (cpSupportsContinuation c)), (''supportsArtifacts'', omitFalse (cpSupportsArtifacts c)),
      (''supportsSuspend'', omitFalse (cpSupportsSuspend c)),
      (''supportsWorkspaceSnapshot'', omitFalse (cpSupportsWorkspaceSnapshot c)),
      (''maxConcurrentTurns'', omitInt (cpMaxConcurrentTurns c)), (''maxTurnSeconds'', omitInt (cpMaxTurnSeconds c)),
      (''maxOutputBytes'', omitInt (cpMaxOutputBytes c)), (''metadata'', omitEmptyMap (cpMetadata c))]"

section \<open>Decoding a request\<close>

definition maxStartRequestBytes :: nat where "maxStartRequestBytes = 33554432"
definition maxContinueRequestBytes :: nat where "maxContinueRequestBytes = 33554432"
definition maxCancelRequestBytes :: nat where "maxCancelRequestBytes = 1048576"

definition errRequestTooLarge :: string where
  "errRequestTooLarge = ''request body exceeds adapter limit''"

text \<open>
  What the scanner of \<^verbatim>\<open>encoding/json\<close> finds at the start of a text: a whole value and what follows
  it, a syntax error, or the end of the text before the end of the value.
\<close>

datatype jsonScan = ScanValue string string | ScanSyntax | ScanMore

definition jsonSpace :: "char \<Rightarrow> bool" where
  "jsonSpace c \<longleftrightarrow> c \<in> {CHR '' '', CHR 0x09, CHR 0x0A, CHR 0x0D}"

text \<open>
  \<open>MaxBytesReader\<close> hands out \<open>maxBytes\<close> bytes and then fails; the decoder meets that error when it
  needs more than these, for the value or for what may follow it.
\<close>

definition decodeJSONRequest :: "(string \<Rightarrow> jsonScan) \<Rightarrow> (string \<Rightarrow> 'r option) \<Rightarrow> nat \<Rightarrow> httpRequest \<Rightarrow> string + 'r" where
  "decodeJSONRequest scan typed maxBytes q =
     (let invalid = Inl ''invalid JSON request''; body = take maxBytes (hqBody q);
          atEnd = (if length (hqBody q) > maxBytes then Inl errRequestTooLarge else invalid) in
      case scan body of
        ScanSyntax \<Rightarrow> invalid
      | ScanMore \<Rightarrow> atEnd
      | ScanValue v rest \<Rightarrow> (case typed v of None \<Rightarrow> invalid | Some r \<Rightarrow>
          if list_all jsonSpace rest
          then (if length (hqBody q) > maxBytes then Inl errRequestTooLarge else if hqBodyFails q then invalid else Inr r)
          else (case scan rest of ScanMore \<Rightarrow> atEnd | _ \<Rightarrow> invalid)))"

definition decodeErrorReply :: "string \<Rightarrow> httpReply" where
  "decodeErrorReply e = WriteError (if e = errRequestTooLarge then 413 else 400) e"

section \<open>Authorization, health and capabilities\<close>

definition authorized :: "adapterConfig \<Rightarrow> httpRequest \<Rightarrow> httpReply option" where
  "authorized cfg q =
     (if afAdapterBearer cfg = [] then Some (WriteError 401 ''adapter bearer token is required'')
      else (case cutChar (trimSpace (hqAuthorization q)) (CHR '' '') of (scheme, token, found) \<Rightarrow>
        if \<not> found \<or> \<not> equalFold scheme ''Bearer'' \<or> trimSpace token \<noteq> afAdapterBearer cfg
        then Some (WriteError 401 ''unauthorized'') else None))"

text \<open>The last check of the agent; time 0 is Go's zero time.\<close>

record healthCache =
  hcCheckedAt :: int
  hcErr :: "adapterError option"

definition healthValidationTTL :: int where "healthValidationTTL = 30000000000"

definition readinessKey :: "adapterEnv \<Rightarrow> adapterConfig \<Rightarrow> string option" where
  "readinessKey E cfg = (if equalFold (afIsolationMode cfg) ''header''
     then Some (trimSpace (isolationKeyForRuntimeSession E ''readiness'')) else None)"

definition validateProviderHealth :: "adapterEnv \<Rightarrow> adapterConfig \<Rightarrow> providerWorld \<Rightarrow> int \<Rightarrow> healthCache \<Rightarrow>
    adapterError option \<times> healthCache \<times> providerRequest list" where
  "validateProviderHealth E cfg W now c =
     (if hcCheckedAt c \<noteq> 0 \<and> now - hcCheckedAt c < healthValidationTTL then (hcErr c, c, [])
      else (case validateAgent W cfg (readinessKey E cfg) of (e, sent) \<Rightarrow> (e, \<lparr>hcCheckedAt = now, hcErr = e\<rparr>, sent)))"

definition backendMap :: "(string, string) fmap" where
  "backendMap = fmap_of_list [(''backend'', backendMetadata)]"

text \<open>\<open>W\<close> is \<open>None\<close> when the server has no backend; \<open>stamp\<close> is the second reading of the clock.\<close>

definition serveHealth :: "adapterEnv \<Rightarrow> adapterHost \<Rightarrow> adapterConfig \<Rightarrow> providerWorld option \<Rightarrow> int \<Rightarrow> int \<Rightarrow> httpRequest \<Rightarrow> healthCache \<Rightarrow>
    httpReply \<times> healthCache \<times> providerRequest list" where
  "serveHealth E H cfg W now stamp q c =
     (if hqMethod q \<noteq> ''GET'' then (WriteError 405 ''method not allowed'', c, []) else
      (let reply = (\<lambda>status ready message. WriteJSON 200 (healthJSON (aeTime E)
             \<lparr>heVersion = ProtocolVersion, heStatus = status, heReady = ready, heRuntimeSessionID = [], heMessage = message,
              heCheckedAt = stamp, heMetadata = backendMap\<rparr>)) in
       case validateConfig E H cfg of Some e \<Rightarrow> (reply ''degraded'' False e, c, [])
       | None \<Rightarrow> (case W of None \<Rightarrow> (reply ''degraded'' False ''Foundry backend is not configured'', c, [])
         | Some w \<Rightarrow> (case validateProviderHealth E cfg w now c of
             (Some e, c', sent) \<Rightarrow> (reply ''degraded'' False (providerSafeMessage E e), c', sent)
           | (None, c', sent) \<Rightarrow> (reply ''ok'' True ''ready'', c', sent)))))"

text \<open>The time-out in seconds is rounded up exactly; the source computes it in floating point.\<close>

definition capabilitiesOf :: "adapterConfig \<Rightarrow> capabilitiesResponse" where
  "capabilitiesOf cfg = (let brokered = afBrokeredToolClasses cfg \<noteq> [] in
     \<lparr>cpVersion = ProtocolVersion, cpProtocolVersion = ProtocolVersion, cpTransport = HTTPTransport,
      cpRuntimeName = afRuntimeName cfg, cpRuntimeVersion = ''foundry-hosted-responses-adapter'', cpProviderKind = ''remote'',
      cpToolExecutionModes = modeObserved # (if brokered then [modeBrokered] else []),
      cpBrokeredToolClasses = afBrokeredToolClasses cfg, cpSupportsCancel = True, cpSupportsRuntimeSessions = True,
      cpSupportsContinuation = brokered, cpSupportsArtifacts = False, cpSupportsSuspend = False,
      cpSupportsWorkspaceSnapshot = False, cpMaxConcurrentTurns = afMaxConcurrent cfg,
      cpMaxTurnSeconds = (afTurnTimeout cfg + 999999999) div 1000000000, cpMaxOutputBytes = afMaxOutputBytes cfg,
      cpMetadata = backendMap\<rparr>)"

definition serveCapabilities :: "adapterConfig \<Rightarrow> httpRequest \<Rightarrow> httpReply" where
  "serveCapabilities cfg q = (if hqMethod q \<noteq> ''GET'' then WriteError 405 ''method not allowed''
     else WriteJSON 200 (capabilitiesJSON (capabilitiesOf cfg)))"

section \<open>Starting a turn\<close>

fun providerStart :: "adapterError \<Rightarrow> bool" where
  "providerStart (AeProviderStart e) = True"
| "providerStart (AeValidation e) = providerStart e"
| "providerStart (AeLimit e) = providerStart e"
| "providerStart e = False"

definition startErrorIsTooLarge :: "adapterEnv \<Rightarrow> adapterError \<Rightarrow> bool" where
  "startErrorIsTooLarge E e = (let message = aeLower E (errText e) in
     containsText message ''exceeds adapter limit'' \<or> containsText message ''tool schema count exceeds'' \<or>
     containsText message ''tool schemas exceed'' \<or> containsText message ''prompt exceeds'')"

definition startErrorReply :: "adapterEnv \<Rightarrow> adapterError \<Rightarrow> httpReply" where
  "startErrorReply E e =
     (if rootError e \<in> {AeTurnCompleted, AeTurnIDConsumed, AeTurnAlreadyExists, AeSessionBusy, AeOwnerMismatch}
      then WriteError 409 (errText e)
      else if rootError e = AeCapacity then WriteError 429 (errText e)
      else if providerStart e then WriteError 502 (providerSafeMessage E e)
      else if startErrorIsTooLarge E e then WriteError 413 (errText e)
      else WriteError 400 (errText e))"

text \<open>
  \<open>adapter.startTurn\<close> as one call: the gaps are 0, after the turn was admitted or found (in it the
  session is created, or the turn of another start is waited for), and 1, before the last section.
  The result is \<open>None\<close> while the call still waits.
\<close>

definition startSections :: "adapterConfig \<Rightarrow> startTurnRequest \<Rightarrow> nat \<Rightarrow> adSystem \<Rightarrow> adSystem" where
  "startSections cfg r h S = (case completeInit cfg r h (asAd S) of (res, a) \<Rightarrow>
     spawn h res (setStart h r StartOver (S\<lparr>asAd := a\<rparr>)))"

definition startCall :: "adapterEnv \<Rightarrow> adapterConfig \<Rightarrow> (nat \<Rightarrow> adSystem \<Rightarrow> adSystem) \<Rightarrow> adapterError + string \<Rightarrow> int \<Rightarrow> startTurnRequest \<Rightarrow>
    adSystem \<Rightarrow> (adapterError + string) option \<times> adSystem" where
  "startCall E cfg other made now request S =
     (case admitTurn E cfg now request (asAd S) of
        (AdRefused e, a) \<Rightarrow> (Some (Inl e), S\<lparr>asAd := a\<rparr>)
      | (AdExisting h path, a) \<Rightarrow> (let S1 = other 0 (S\<lparr>asAd := a\<rparr>); t = turnOf (asAd S1) h in
          (if tnInitDone t then Some (existingResult t path) else None, S1))
      | (AdNew h path, a) \<Rightarrow>
          (let r = prepareFoundryStartRequest request; needs = needsSession cfg (turnOf a h);
               S1 = other 0 (setStart h r (if needs then StartSession else StartReady) (S\<lparr>asAd := a\<rparr>)) in
           if \<not> needs then (Some (Inr path), startSections cfg r h S1)
           else (case made of
               Inl e \<Rightarrow> (case failInitialization (AeProviderStart e) h (asAd S1) of (over, a1) \<Rightarrow>
                 (Some (if over then Inr path else Inl (AeProviderStart e)), setStart h r StartOver (S1\<lparr>asAd := a1\<rparr>)))
             | Inr sid \<Rightarrow> (case sessionCreated sid h (asAd S1) of
                 (False, a1) \<Rightarrow> (Some (Inr path), setStart h r StartOver (S1\<lparr>asAd := a1\<rparr>))
               | (True, a1) \<Rightarrow> (Some (Inr path), startSections cfg r h (other 1 (setStart h r StartReady (S1\<lparr>asAd := a1\<rparr>))))))))"

text \<open>What the server takes from outside.\<close>

record serverEnv =
  seEnv :: adapterEnv
  seHost :: adapterHost
  seScan :: "string \<Rightarrow> jsonScan"
  seStart :: "string \<Rightarrow> startTurnRequest option"
  seContinue :: "string \<Rightarrow> continueTurnRequest option"
  seCancel :: "string \<Rightarrow> cancelTurnRequest option"
  seQuery :: "string \<Rightarrow> int option"  \<comment> \<open>\<open>strconv.ParseInt\<close>\<close>

definition startReply :: "serverEnv \<Rightarrow> startTurnRequest \<Rightarrow> (adapterError + string) option \<Rightarrow> httpReply" where
  "startReply V request result = (case result of None \<Rightarrow> NoReply
     | Some (Inl e) \<Rightarrow> startErrorReply (seEnv V) e
     | Some (Inr path) \<Rightarrow> WriteJSON 202 (startResponseJSON \<lparr>spVersion = ProtocolVersion, spAccepted = True,
         spRuntimeSessionID = sqRuntimeSessionID request, spTurnID = sqTurnID request,
         spCorrelationID = sqCorrelationID request, spEventStreamPath = path\<rparr>))"

text \<open>The checks of the handler: the request to start.\<close>

definition acceptStart :: "serverEnv \<Rightarrow> adapterConfig \<Rightarrow> httpRequest \<Rightarrow> httpReply + startTurnRequest" where
  "acceptStart V cfg q =
     (case authorized cfg q of Some reply \<Rightarrow> Inl reply | None \<Rightarrow>
      if hqMethod q \<noteq> ''POST'' then Inl (WriteError 405 ''method not allowed'') else
      (case validateConfig (seEnv V) (seHost V) cfg of Some _ \<Rightarrow> Inl (WriteError 503 ''adapter is not ready'') | None \<Rightarrow>
      (case decodeJSONRequest (seScan V) (seStart V) maxStartRequestBytes q of Inl e \<Rightarrow> Inl (decodeErrorReply e) | Inr request \<Rightarrow>
      (case validateStart (aeQuote (seEnv V)) (aeValid (seEnv V)) request of
         Some e \<Rightarrow> Inl (WriteError 400 e) | None \<Rightarrow> Inr request))))"

definition serveStart :: "serverEnv \<Rightarrow> adapterConfig \<Rightarrow> (nat \<Rightarrow> adSystem \<Rightarrow> adSystem) \<Rightarrow> adapterError + string \<Rightarrow> int \<Rightarrow> httpRequest \<Rightarrow>
    adSystem \<Rightarrow> httpReply \<times> adSystem" where
  "serveStart V cfg other made now q S =
     (case acceptStart V cfg q of Inl reply \<Rightarrow> (reply, S) | Inr request \<Rightarrow>
      (case startCall (seEnv V) cfg other made now request S of (result, S') \<Rightarrow> (startReply V request result, S')))"

section \<open>A turn's resources\<close>

fun validationError :: "adapterError \<Rightarrow> bool" where
  "validationError (AeValidation e) = True"
| "validationError (AeProviderStart e) = validationError e"
| "validationError (AeLimit e) = validationError e"
| "validationError e = False"

fun limitError :: "adapterError \<Rightarrow> bool" where
  "limitError (AeLimit e) = True"
| "limitError (AeProviderStart e) = limitError e"
| "limitError (AeValidation e) = limitError e"
| "limitError e = False"

definition continueStatus :: "adapterError \<Rightarrow> nat" where
  "continueStatus e = (if rootError e = AeTurnNotFound then 404 else if validationError e then 400
     else if limitError e then 413 else 409)"

definition turnReply :: "startTurnRequest \<Rightarrow> string \<Rightarrow> httpReply" where
  "turnReply r message = WriteJSON 202 (turnResponseJSON \<lparr>tpVersion = ProtocolVersion, tpAccepted = True,
     tpRuntimeSessionID = sqRuntimeSessionID r, tpTurnID = sqTurnID r, tpCorrelationID = sqCorrelationID r, tpMessage = message\<rparr>)"

text \<open>\<open>adapter.continueTurn\<close> looks the turn up again; gap 1 lies between that and its critical section.\<close>

definition continueCall :: "adapterEnv \<Rightarrow> adapterConfig \<Rightarrow> (nat \<Rightarrow> adSystem \<Rightarrow> adSystem) \<Rightarrow> int \<Rightarrow> continueTurnRequest \<Rightarrow> adSystem \<Rightarrow>
    adapterError option \<times> adSystem" where
  "continueCall E cfg other now request S =
     (case fmlookup (adTurns (asAd S)) (cnTurnID request) of None \<Rightarrow> (Some AeTurnNotFound, S) | Some h \<Rightarrow>
      (let S1 = other 1 S in
       case continueTurn E cfg now request h (asAd S1) of (err, res, a) \<Rightarrow> (err, spawn h res (S1\<lparr>asAd := a\<rparr>))))"

definition serveContinue :: "serverEnv \<Rightarrow> adapterConfig \<Rightarrow> (nat \<Rightarrow> adSystem \<Rightarrow> adSystem) \<Rightarrow> int \<Rightarrow> httpRequest \<Rightarrow> nat \<Rightarrow> adSystem \<Rightarrow>
    httpReply \<times> adSystem" where
  "serveContinue V cfg other now q h S =
     (case decodeJSONRequest (seScan V) (seContinue V) maxContinueRequestBytes q of Inl e \<Rightarrow> (decodeErrorReply e, S) | Inr request \<Rightarrow>
      if cnTurnID request \<noteq> sqTurnID (tnRequest (turnOf (asAd S) h))
      then (WriteError 400 ''continue turn id does not match URL'', S)
      else (case continueCall (seEnv V) cfg other now request S of
          (Some e, S') \<Rightarrow> (WriteError (continueStatus e) (errText e), S')
        | (None, S') \<Rightarrow> (turnReply (tnRequest (turnOf (asAd S) h)) ''continue accepted'', S')))"

definition serveCancel :: "serverEnv \<Rightarrow> adapterConfig \<Rightarrow> int \<Rightarrow> httpRequest \<Rightarrow> nat \<Rightarrow> adSystem \<Rightarrow> httpReply \<times> adSystem" where
  "serveCancel V cfg now q h S =
     (case decodeJSONRequest (seScan V) (seCancel V) maxCancelRequestBytes q of Inl e \<Rightarrow> (decodeErrorReply e, S) | Inr request \<Rightarrow>
      (case validateCancel (aeQuote (seEnv V)) request of Some e \<Rightarrow> (WriteError 400 e, S) | None \<Rightarrow>
       if clTurnID request \<noteq> sqTurnID (tnRequest (turnOf (asAd S) h))
       then (WriteError 400 ''cancel turn id does not match URL'', S)
       else (case cancelTurn (seEnv V) cfg now request (asAd S) of
           (Some e, a) \<Rightarrow> (WriteError (if rootError e = AeTurnNotFound then 404 else 400) (errText e), S\<lparr>asAd := a\<rparr>)
         | (None, a) \<Rightarrow> (turnReply (tnRequest (turnOf (asAd S) h)) [], S\<lparr>asAd := a\<rparr>))))"

section \<open>The event stream\<close>

definition parseAfterSeq :: "(string \<Rightarrow> int option) \<Rightarrow> string \<Rightarrow> int" where
  "parseAfterSeq parseInt v = (case parseInt (trimSpace v) of None \<Rightarrow> 0 | Some n \<Rightarrow> if n < 0 then 0 else n)"

definition turnStreamIdle :: "turnState \<Rightarrow> bool" where
  "turnStreamIdle t \<longleftrightarrow> tnCompleted t \<or> tnWaitingForTools t"

text \<open>
  A reader takes the adapter's lock again and again: \<open>see k\<close> is the turn that it finds the \<open>k\<close>-th time, and from time
  \<open>gone\<close> on the client's context is done. \<open>sends n\<close> tells whether the \<open>n\<close>-th frame can be written.
\<close>

function waitForFrames :: "(nat \<Rightarrow> turnState) \<Rightarrow> nat \<Rightarrow> int \<Rightarrow> nat \<Rightarrow> harnessFrame list \<times> bool \<times> nat" where
  "waitForFrames see gone afterSeq k =
     (case framesAfter (see k) afterSeq of (frames, idle) \<Rightarrow>
        if frames \<noteq> [] \<or> idle then (frames, idle, Suc k)
        else if gone \<le> k then ([], False, Suc k) else waitForFrames see gone afterSeq (Suc k))"
  by pat_completeness auto
termination by (relation "measure (\<lambda>(see, gone, afterSeq, k). gone - k)") auto

declare waitForFrames.simps [simp del]

lemma waitForFrames_later: "waitForFrames see gone afterSeq k = (frames, idle, k') \<Longrightarrow> k < k'"
proof (induction see gone afterSeq k rule: waitForFrames.induct)
  case (1 see gone afterSeq k)
  obtain fs b where f: "framesAfter (see k) afterSeq = (fs, b)" by (cases "framesAfter (see k) afterSeq")
  show ?case
    using "1.prems" "1.IH" [OF f [symmetric]]
    by (subst (asm) waitForFrames.simps) (auto simp: f split: if_splits dest: Suc_lessD)
qed

text \<open>The frames written, the last sequence number and whether all were.\<close>

fun writeFrames :: "(harnessFrame \<Rightarrow> string option) \<Rightarrow> (nat \<Rightarrow> bool) \<Rightarrow> nat \<Rightarrow> int \<Rightarrow> harnessFrame list \<Rightarrow>
    harnessFrame list \<times> int \<times> bool" where
  "writeFrames enc sends n lastWritten [] = ([], lastWritten, True)"
| "writeFrames enc sends n lastWritten (f # fs) =
     (if enc f = None \<or> \<not> sends n then ([], lastWritten, False)
      else (case writeFrames enc sends (Suc n) (frSeq f) fs of (out, l, ok) \<Rightarrow> (f # out, l, ok)))"

text \<open>The loop of \<open>streamEvents\<close>: the frames written and whether it came to write the end mark.\<close>

function streamLoop :: "(harnessFrame \<Rightarrow> string option) \<Rightarrow> (nat \<Rightarrow> bool) \<Rightarrow> (nat \<Rightarrow> turnState) \<Rightarrow> nat \<Rightarrow> nat \<Rightarrow> int \<Rightarrow> nat \<Rightarrow>
    harnessFrame list \<times> bool" where
  "streamLoop enc sends see gone n lastWritten k =
     (case waitForFrames see gone lastWritten k of (frames, idle, k1) \<Rightarrow>
      case writeFrames enc sends n lastWritten frames of (out, lastWritten', ok) \<Rightarrow>
        if \<not> ok then (out, False)
        else if idle \<and> turnStreamIdle (see k1) then (out, True)
        else (let k2 = (if idle then Suc k1 else k1) in
          if gone \<le> k2 then (out, False)
          else (case streamLoop enc sends see gone (n + length out) lastWritten' k2 of (rest, end) \<Rightarrow> (out @ rest, end))))"
  by pat_completeness auto
termination
  by (relation "measure (\<lambda>(enc, sends, see, gone, n, lastWritten, k). gone - k)")
    (auto dest!: waitForFrames_later [OF sym] split: if_splits)

declare streamLoop.simps [simp del]

definition streamBody :: "(harnessFrame \<Rightarrow> string option) \<Rightarrow> harnessFrame list \<times> bool \<Rightarrow> string" where
  "streamBody enc = (\<lambda>(frames, end). concat (map (the \<circ> enc) frames) @ (if end then sseDone else []))"

definition encodeFrame :: "adapterEnv \<Rightarrow> harnessFrame \<Rightarrow> string option" where
  "encodeFrame E = sseFrame (aeCompact E) (aeTime E)"

definition streamEvents :: "serverEnv \<Rightarrow> (nat \<Rightarrow> bool) \<Rightarrow> (nat \<Rightarrow> turnState) \<Rightarrow> nat \<Rightarrow> httpRequest \<Rightarrow> harnessFrame list \<times> bool" where
  "streamEvents V sends see gone q =
     streamLoop (encodeFrame (seEnv V)) sends see gone 0 (parseAfterSeq (seQuery V) (hqAfterSeq q)) 0"

text \<open>
  \<open>turn\<close>: gap 0 lies after the lookup of the turn; the handler of a turn that initialises waits in it. The reader of
  the events sees the turn in the systems \<open>later 0, later 1, ...\<close>.
\<close>

definition serveTurn :: "serverEnv \<Rightarrow> adapterConfig \<Rightarrow> (nat \<Rightarrow> adSystem \<Rightarrow> adSystem) \<Rightarrow> (nat \<Rightarrow> adSystem) \<Rightarrow> (nat \<Rightarrow> bool) \<Rightarrow> nat \<Rightarrow>
    int \<Rightarrow> int \<Rightarrow> httpRequest \<Rightarrow> adSystem \<Rightarrow> httpReply \<times> adSystem" where
  "serveTurn V cfg other later sends gone now now' q S =
     (case authorized cfg q of Some reply \<Rightarrow> (reply, S) | None \<Rightarrow>
      case validateConfig (seEnv V) (seHost V) cfg of Some _ \<Rightarrow> (WriteError 503 ''adapter is not ready'', S) | None \<Rightarrow>
      (case ParseTurnResourcePath (hqPath q) of Inl _ \<Rightarrow> (WriteError 404 ''not found'', S) | Inr (turnID, resource) \<Rightarrow>
       (case getTurn (seEnv V) now turnID (asAd S) of
          (None, a) \<Rightarrow> (WriteError 404 ''turn not found'', S\<lparr>asAd := a\<rparr>)
        | (Some h, a) \<Rightarrow>
           (let S1 = other 0 (S\<lparr>asAd := a\<rparr>); t = turnOf (asAd S1) h in
            if resource = ''cancel''
            then (if hqMethod q \<noteq> ''POST'' then (WriteError 405 ''method not allowed'', S1) else serveCancel V cfg now' q h S1)
            else if \<not> tnInitDone t then (NoReply, S1)
            else (case tnInitErr t of Some e \<Rightarrow> (WriteError 502 (providerSafeMessage (seEnv V) e), S1) | None \<Rightarrow>
              if resource = ''events''
              then (if hqMethod q \<noteq> ''GET'' then (WriteError 405 ''method not allowed'', S1)
                    else (StreamReply (streamBody (encodeFrame (seEnv V))
                      (streamEvents V sends (\<lambda>k. turnOf (asAd (later k)) h) gone q)), S1))
              else if resource = ''continue''
              then (if hqMethod q \<noteq> ''POST'' then (WriteError 405 ''method not allowed'', S1)
                    else serveContinue V cfg other now' q h S1)
              else (WriteError 404 ''not found'', S1))))))"

text \<open>\<open>handler\<close>: the routes of the mux, by the path (which the mux has cleaned).\<close>

datatype adapterRoute = HealthRoute | CapabilitiesRoute | StartRoute | TurnRoute | NoRoute

definition route :: "string \<Rightarrow> adapterRoute" where
  "route path = (if path = HealthPath then HealthRoute else if path = CapabilitiesPath then CapabilitiesRoute
     else if path = TurnsPath then StartRoute else if hasPrefix path (TurnsPath @ ''/'') then TurnRoute else NoRoute)"

end
