(* ===== verification/AdapterServed.thy ===== *)
theory AdapterServed
  imports AdapterServer AdapterExample
begin

text \<open>
  The HTTP surface of the adapter is safe: nothing happens without the bearer token, every handler is a
  sequence of the steps of \<^verbatim>\<open>AdapterSystem\<close>, so that all that is proved about them holds for what clients do, an accepted
  start is served, and an event stream is a contiguous part of the turn's frames.
\<close>

section \<open>Authorization\<close>

text \<open>The request carries the adapter's token as a bearer token.\<close>

definition carriesToken :: "adapterConfig \<Rightarrow> httpRequest \<Rightarrow> bool" where
  "carriesToken cfg q \<longleftrightarrow> afAdapterBearer cfg \<noteq> [] \<and> (\<exists>scheme token. trimSpace (hqAuthorization q) = scheme @ '' '' @ token \<and>
     CHR '' '' \<notin> set scheme \<and> equalFold scheme ''Bearer'' \<and> trimSpace token = afAdapterBearer cfg)"

lemma cutChar_found: "cutChar s c = (a, b, True) \<Longrightarrow> s = a @ [c] @ b \<and> c \<notin> set a"
proof -
  assume cut: "cutChar s c = (a, b, True)"
  then obtain x where d: "dropWhile (\<lambda>x. x \<noteq> c) s = x # b" and a: "a = takeWhile (\<lambda>x. x \<noteq> c) s"
    by (auto simp: cutChar_def split: list.splits)
  then have "x = c" using hd_dropWhile [of "\<lambda>x. x \<noteq> c" s] by auto
  with d a takeWhile_dropWhile_id [of "\<lambda>x. x \<noteq> c" s] have "s = a @ [c] @ b" by simp
  moreover have "c \<notin> set a" unfolding a by (auto dest: set_takeWhileD)
  ultimately show ?thesis by blast
qed

lemma authorized_None: "authorized cfg q = None \<Longrightarrow> carriesToken cfg q"
proof -
  assume n: "authorized cfg q = None"
  obtain a b f where cut: "cutChar (trimSpace (hqAuthorization q)) (CHR '' '') = (a, b, f)" by (rule prod_cases3)
  with n have "f" "equalFold a ''Bearer''" "trimSpace b = afAdapterBearer cfg" "afAdapterBearer cfg \<noteq> []"
    by (auto simp: authorized_def split: if_splits)
  with cutChar_found [of "trimSpace (hqAuthorization q)" "CHR '' ''" a b] cut show ?thesis unfolding carriesToken_def by auto
qed

lemma unauthorized_reply: "\<not> carriesToken cfg q \<Longrightarrow> \<exists>m. authorized cfg q = Some (WriteError 401 m)"
proof (cases "authorized cfg q")
  case (Some r)
  then show ?thesis by (auto simp: authorized_def split: if_splits prod.splits)
qed (use authorized_None in blast)

text \<open>C20: a request for a turn that does not carry the configured bearer token is answered with 401, whatever else
  it holds, and changes nothing.\<close>

theorem unauthorized_refused:
  assumes "\<not> carriesToken cfg q"
  shows "\<exists>m. serveStart V cfg other made now q S = (WriteError 401 m, S) \<and>
    serveTurn V cfg other later sends gone now now' q S = (WriteError 401 m, S)"
  using unauthorized_reply [OF assms] by (auto simp: serveStart_def acceptStart_def serveTurn_def)

section \<open>Handlers are steps\<close>

text \<open>The other goroutines take steps, and leave the start of the handler's own turn to the handler.\<close>

definition othersStep :: "adapterEnv \<Rightarrow> adapterConfig \<Rightarrow> (nat \<Rightarrow> adSystem \<Rightarrow> adSystem) \<Rightarrow> bool" where
  "othersStep E cfg other \<longleftrightarrow> (\<forall>i X. (adStep E cfg)\<^sup>*\<^sup>* X (other i X))"

definition leavesStart :: "nat \<Rightarrow> (nat \<Rightarrow> adSystem \<Rightarrow> adSystem) \<Rightarrow> bool" where
  "leavesStart h other \<longleftrightarrow> (\<forall>i X. fmlookup (asStarts (other i X)) h = fmlookup (asStarts X) h)"

lemma others_step: "othersStep E cfg other \<Longrightarrow> (adStep E cfg)\<^sup>*\<^sup>* S X \<Longrightarrow> (adStep E cfg)\<^sup>*\<^sup>* S (other i X)"
  unfolding othersStep_def by (meson rtranclp_trans)

lemma leaves_start: "leavesStart h other \<Longrightarrow> fmlookup (asStarts (other i X)) h = fmlookup (asStarts X) h"
  by (simp add: leavesStart_def)

lemma steps_snoc: "(adStep E cfg)\<^sup>*\<^sup>* S X \<Longrightarrow> adStep E cfg X Y \<Longrightarrow> (adStep E cfg)\<^sup>*\<^sup>* S Y"
  by (rule rtranclp.rtrancl_into_rtrancl)

lemma startSections_step:
  assumes "fmlookup (asStarts X) h = Some (r, StartReady)"
  shows "adStep E cfg X (startSections cfg r h X)"
proof -
  obtain res a where c: "completeInit cfg r h (asAd X) = (res, a)" by (cases "completeInit cfg r h (asAd X)")
  from adStep.started [OF assms c] show ?thesis by (simp add: startSections_def c)
qed

text \<open>What an admission did.\<close>

lemma admission_new:
  assumes "adapterEnvOk E" "cfgOk cfg" "sysOk E cfg S" "admitTurn E cfg now request (asAd S) = (AdNew h path, a)"
  shows "h = adNext (asAd S)"
proof -
  from admitTurn_cases [OF assms(4) sysOkD(2) [OF assms(3)]] obtain b t
    where "tidies (asAd S) b" "inserted E cfg (prepareFoundryStartRequest request) h t b a" by auto
  then show ?thesis using tidies_next by (simp add: inserted_def)
qed

lemma startCall_steps:
  assumes valid: "validateStart (aeQuote E) (aeValid E) request = None"
    and new: "\<And>h path a. admitTurn E cfg now request (asAd S) = (AdNew h path, a) \<Longrightarrow> leavesStart h other"
    and others: "othersStep E cfg other" and call: "startCall E cfg other made now request S = (result, S')"
  shows "(adStep E cfg)\<^sup>*\<^sup>* S S'"
proof -
  let ?r = "prepareFoundryStartRequest request"
  obtain adm a where adm: "admitTurn E cfg now request (asAd S) = (adm, a)" by (cases "admitTurn E cfg now request (asAd S)")
  have kept: "adStep E cfg S (S\<lparr>asAd := a\<rparr>)" if "\<forall>h path. adm \<noteq> AdNew h path" using adStep.notAdmitted [OF adm that] .
  show ?thesis
  proof (cases adm)
    case (AdRefused e)
    with call adm kept show ?thesis by (auto simp: startCall_def)
  next
    case (AdExisting h path)
    then have "(adStep E cfg)\<^sup>*\<^sup>* S (other 0 (S\<lparr>asAd := a\<rparr>))" using kept by (intro others_step [OF others]) auto
    with call adm AdExisting show ?thesis by (simp add: startCall_def Let_def)
  next
    case (AdNew h path)
    note own = leaves_start [OF new [OF adm [unfolded AdNew]]]
    define X where "X = setStart h ?r (if needsSession cfg (turnOf a h) then StartSession else StartReady) (S\<lparr>asAd := a\<rparr>)"
    have X: "(adStep E cfg)\<^sup>*\<^sup>* S (other 0 X)" unfolding X_def
      using adStep.admitted [OF valid adm [unfolded AdNew]] by (intro others_step [OF others]) auto
    have ph: "fmlookup (asStarts (other 0 X)) h = Some (?r, if needsSession cfg (turnOf a h) then StartSession else StartReady)"
      by (simp add: own X_def)
    show ?thesis
    proof (cases "needsSession cfg (turnOf a h)")
      case False
      then have "S' = startSections cfg ?r h (other 0 X)" using call adm AdNew by (simp add: startCall_def Let_def X_def)
      with steps_snoc [OF X startSections_step] ph False show ?thesis by auto
    next
      case True
      note ph' = ph [unfolded if_P [OF True]]
      note call' = call [unfolded startCall_def adm AdNew admission.case prod.case Let_def X_def [symmetric]]
      show ?thesis
      proof (cases made)
        case (Inl e)
        obtain over a1 where f: "failInitialization (AeProviderStart e) h (asAd (other 0 X)) = (over, a1)"
          by (cases "failInitialization (AeProviderStart e) h (asAd (other 0 X))")
        from call' True Inl f have "S' = setStart h ?r StartOver ((other 0 X)\<lparr>asAd := a1\<rparr>)" by simp
        with steps_snoc [OF X adStep.sessionFailed [OF ph' f]] show ?thesis by simp
      next
        case (Inr sid)
        obtain goes a1 where c: "sessionCreated sid h (asAd (other 0 X)) = (goes, a1)"
          by (cases "sessionCreated sid h (asAd (other 0 X))")
        define Y where "Y = setStart h ?r (if goes then StartReady else StartOver) ((other 0 X)\<lparr>asAd := a1\<rparr>)"
        have Y: "(adStep E cfg)\<^sup>*\<^sup>* S Y" unfolding Y_def by (rule steps_snoc [OF X adStep.sessionMade [OF ph' c]])
        show ?thesis
        proof (cases goes)
          case True
          then have "S' = startSections cfg ?r h (other 1 Y)" using call' \<open>needsSession cfg (turnOf a h)\<close> Inr c by (simp add: Y_def)
          moreover have "fmlookup (asStarts (other 1 Y)) h = Some (?r, StartReady)" using True by (simp add: own Y_def)
          ultimately show ?thesis using steps_snoc [OF others_step [OF others Y] startSections_step] by blast
        next
          case False
          then have "S' = Y" using call' \<open>needsSession cfg (turnOf a h)\<close> Inr c by (simp add: Y_def)
          with Y show ?thesis by simp
        qed
      qed
    qed
  qed
qed

text \<open>What the handlers of a turn do.\<close>

lemma serveCancel_step:
  assumes "serveCancel V cfg now q h S = (reply, S')"
  shows "(adStep (seEnv V) cfg)\<^sup>*\<^sup>* S S'"
proof -
  have "S' = S \<or> (\<exists>err request a. cancelTurn (seEnv V) cfg now request (asAd S) = (err, a) \<and> S' = S\<lparr>asAd := a\<rparr>)"
    using assms by (auto simp: serveCancel_def split: sum.splits option.splits if_splits prod.splits)
  then show ?thesis using adStep.cancelled by blast
qed

lemma serveContinue_step:
  assumes env: "adapterEnvOk (seEnv V)" "cfgOk cfg" and S: "sysOk (seEnv V) cfg S" and others: "othersStep (seEnv V) cfg other"
    and serve: "serveContinue V cfg other now q h S = (reply, S')"
  shows "(adStep (seEnv V) cfg)\<^sup>*\<^sup>* S S'"
proof -
  have "S' = S \<or> (\<exists>request err. continueCall (seEnv V) cfg other now request S = (err, S'))"
    using serve by (auto simp: serveContinue_def split: sum.splits option.splits if_splits prod.splits)
  then show ?thesis
  proof
    assume "\<exists>request err. continueCall (seEnv V) cfg other now request S = (err, S')"
    then obtain request err where c: "continueCall (seEnv V) cfg other now request S = (err, S')" by blast
    show ?thesis
    proof (cases "fmlookup (adTurns (asAd S)) (cnTurnID request)")
      case None
      with c show ?thesis by (simp add: continueCall_def)
    next
      case (Some k)
      let ?X = "other 1 S"
      have X: "(adStep (seEnv V) cfg)\<^sup>*\<^sup>* S ?X" by (rule others_step [OF others]) simp
      from Some sysOkD(2) [OF S] obtain t where "fmlookup (adHeap (asAd S)) k = Some t" by (auto elim: keysOkD)
      with adRun_grows [OF env S X] obtain t' where t': "fmlookup (adHeap (asAd ?X)) k = Some t'"
        by (blast elim: adGrows_some)
      obtain e res a where k: "continueTurn (seEnv V) cfg now request k (asAd ?X) = (e, res, a)" by (rule prod_cases3)
      from c Some k have "S' = spawn k res (?X\<lparr>asAd := a\<rparr>)" by (simp add: continueCall_def Let_def)
      with steps_snoc [OF X adStep.continued [OF t' k]] show ?thesis by simp
    qed
  qed simp
qed

lemma serveTurn_steps:
  assumes env: "adapterEnvOk (seEnv V)" "cfgOk cfg" and S: "sysOk (seEnv V) cfg S" and others: "othersStep (seEnv V) cfg other"
    and serve: "serveTurn V cfg other later sends gone now now' q S = (reply, S')"
  shows "(adStep (seEnv V) cfg)\<^sup>*\<^sup>* S S'"
proof (cases "S' = S")
  case False
  then obtain turnID resource where path: "authorized cfg q = None" "validateConfig (seEnv V) (seHost V) cfg = None"
      "ParseTurnResourcePath (hqPath q) = Inr (turnID, resource)"
    using serve by (auto simp: serveTurn_def split: option.splits sum.splits)
  obtain found a where g: "getTurn (seEnv V) now turnID (asAd S) = (found, a)" by (cases "getTurn (seEnv V) now turnID (asAd S)")
  have looked: "(adStep (seEnv V) cfg)\<^sup>*\<^sup>* S (S\<lparr>asAd := a\<rparr>)" using adStep.looked [OF g] by blast
  note serve' = serve [unfolded serveTurn_def path g option.case sum.case prod.case]
  show ?thesis
  proof (cases found)
    case None
    with serve' looked show ?thesis by simp
  next
    case (Some h)
    let ?X = "other 0 (S\<lparr>asAd := a\<rparr>)"
    have X: "(adStep (seEnv V) cfg)\<^sup>*\<^sup>* S ?X" by (rule others_step [OF others looked])
    have ok: "sysOk (seEnv V) cfg ?X" using adRun_grows [OF env S X] by simp
    have "S' = ?X \<or> (\<exists>r. serveCancel V cfg now' q h ?X = (r, S')) \<or> (\<exists>r. serveContinue V cfg other now' q h ?X = (r, S'))"
      using serve' unfolding Some option.case Let_def by (auto split: if_splits option.splits)
    with X serveCancel_step serveContinue_step [OF env ok others] show ?thesis by (meson rtranclp_trans)
  qed
qed simp

text \<open>C19: what the handlers do to the adapter, whatever the request and whatever the other goroutines do in their gaps, is a
  sequence of steps of the adapter, so that they lead from reachable states to reachable states.\<close>

theorem handlers_refine:
  assumes "adapterEnvOk (seEnv V)" "cfgOk cfg" "adReachable (seEnv V) cfg S" "othersStep (seEnv V) cfg other"
    and "leavesStart (adNext (asAd S)) other"
  shows "(adStep (seEnv V) cfg)\<^sup>*\<^sup>* S (snd (serveStart V cfg other made now q S)) \<and>
    (adStep (seEnv V) cfg)\<^sup>*\<^sup>* S (snd (serveTurn V cfg other later sends gone now now' q S))"
proof
  note S = adReachable_ok [OF assms(1-3)]
  show "(adStep (seEnv V) cfg)\<^sup>*\<^sup>* S (snd (serveStart V cfg other made now q S))"
  proof (cases "acceptStart V cfg q")
    case (Inr request)
    then have "validateStart (aeQuote (seEnv V)) (aeValid (seEnv V)) request = None"
      by (auto simp: acceptStart_def split: option.splits if_splits sum.splits)
    moreover obtain result S' where c: "startCall (seEnv V) cfg other made now request S = (result, S')"
      by (cases "startCall (seEnv V) cfg other made now request S")
    ultimately have "(adStep (seEnv V) cfg)\<^sup>*\<^sup>* S S'"
      using admission_new [OF assms(1,2) S] assms(5) by (intro startCall_steps [OF _ _ assms(4) c]) auto
    with Inr c show ?thesis by (simp add: serveStart_def)
  qed (simp add: serveStart_def)
  obtain reply S' where "serveTurn V cfg other later sends gone now now' q S = (reply, S')"
    by (cases "serveTurn V cfg other later sends gone now now' q S")
  with serveTurn_steps [OF assms(1,2) S assms(4) this]
  show "(adStep (seEnv V) cfg)\<^sup>*\<^sup>* S (snd (serveTurn V cfg other later sends gone now now' q S))" by simp
qed

section \<open>An accepted start is served\<close>

lemma pending_turn:
  assumes X: "sysOk E cfg X" and ph: "fmlookup (asStarts X) h = Some (r, ph)" "ph \<noteq> StartOver"
  obtains t where "fmlookup (adHeap (asAd X)) h = Some t" "turnOf (asAd X) h = t" "tnInitErr t = None"
proof -
  from sysOkD(4) [OF X, of h] ph(1) obtain t where t: "fmlookup (adHeap (asAd X)) h = Some t" by (cases "fmlookup (adHeap (asAd X)) h") auto
  from sysOkD(5) [OF X t ph(1)] ph(2) callsOkD(4) [of t ph] have "tnInitErr t = None" by (auto simp: handleOk_def)
  with t that show ?thesis by (simp add: turnOf_Some [OF t])
qed

text \<open>The turn of a start is served: it has ended, or its first provider call is queued.\<close>

definition servedTurn :: "startTurnRequest \<Rightarrow> nat \<Rightarrow> adSystem \<Rightarrow> bool" where
  "servedTurn r h S \<longleftrightarrow> (let t = turnOf (asAd S) h in tnInitDone t \<and> tnInitErr t = None \<and>
     (tnCompleted t \<or> (\<exists>i v. fmlookup (asCalls S) i = Some (v, CallQueued) \<and> vcTurn v = h \<and>
       rrInput (vcRequest v) = JStr (tiPrompt (sqInput r)))))"

lemma startSections_served:
  assumes X: "sysOk E cfg X" and ph: "fmlookup (asStarts X) h = Some (r, StartReady)"
  shows "servedTurn r h (startSections cfg r h X)"
proof -
  from pending_turn [OF X ph] obtain t where t: "turnOf (asAd X) h = t" "tnInitErr t = None" by blast
  show ?thesis
  proof (cases "tnCompleted t")
    case True
    with t show ?thesis by (simp add: servedTurn_def startSections_def completeInit_def Let_def spawn_def)
  next
    case False
    let ?t = "t\<lparr>tnInitializing := False, tnInitDone := True\<rparr>"
    let ?v = "newInvocation h (firstRequest cfg r ?t)"
    have S': "startSections cfg r h X = spawn h (Some (firstRequest cfg r ?t)) (setStart h r StartOver (X\<lparr>asAd := putTurn h ?t (asAd X)\<rparr>))"
      using False t by (simp add: startSections_def completeInit_def Let_def)
    have "fmlookup (asCalls (startSections cfg r h X)) (asNextCall X) = Some (?v, CallQueued)"
      unfolding S' by (simp add: spawn_def)
    moreover have "vcTurn ?v = h" "rrInput (vcRequest ?v) = JStr (tiPrompt (sqInput r))"
      by (simp_all add: newInvocation_def firstRequest_def)
    moreover have "turnOf (asAd (startSections cfg r h X)) h = ?t" unfolding S' by simp
    ultimately have "\<exists>i v. fmlookup (asCalls (startSections cfg r h X)) i = Some (v, CallQueued) \<and> vcTurn v = h \<and>
        rrInput (vcRequest v) = JStr (tiPrompt (sqInput r))" "turnOf (asAd (startSections cfg r h X)) h = ?t" by blast+
    with t(2) show ?thesis unfolding servedTurn_def Let_def by simp
  qed
qed

text \<open>C21: an accepted start is served: when the handler answers 202 to a request that it admitted as a new turn, the turn is
  initialised and has ended or has its first provider call, with the prompt of the request, queued; otherwise the
  answer is an error and the turn is gone.\<close>

theorem accepted_start_served:
  assumes "adapterEnvOk (seEnv V)" "cfgOk cfg" "adReachable (seEnv V) cfg S" "othersStep (seEnv V) cfg other"
    and "leavesStart (adNext (asAd S)) other" "acceptStart V cfg q = Inr request"
    and "admitTurn (seEnv V) cfg now request (asAd S) = (AdNew h path, a)"
    and "serveStart V cfg other made now q S = (reply, S')"
  shows "(\<exists>body. reply = JsonReply 202 body) \<and> servedTurn (prepareFoundryStartRequest request) h S' \<or>
    (\<exists>status body. reply = JsonReply status body \<and> status \<in> {409, 429, 502}) \<and> fmlookup (adTurns (asAd S')) (sqTurnID (tnRequest (turnOf (asAd S') h))) = None"
proof -
  let ?E = "seEnv V" and ?r = "prepareFoundryStartRequest request"
  note S = adReachable_ok [OF assms(1-3)]
  have valid: "validateStart (aeQuote ?E) (aeValid ?E) request = None"
    using assms(6) by (auto simp: acceptStart_def split: option.splits if_splits sum.splits)
  have own: "leavesStart h other" using admission_new [OF assms(1,2) S assms(7)] assms(5) by simp
  define X where "X = setStart h ?r (if needsSession cfg (turnOf a h) then StartSession else StartReady) (S\<lparr>asAd := a\<rparr>)"
  have X: "(adStep ?E cfg)\<^sup>*\<^sup>* S (other 0 X)" unfolding X_def
    using adStep.admitted [OF valid assms(7)] by (intro others_step [OF assms(4)]) auto
  have ok: "sysOk ?E cfg (other 0 X)" using adRun_grows [OF assms(1,2) S X] by simp
  have ph: "fmlookup (asStarts (other 0 X)) h = Some (?r, if needsSession cfg (turnOf a h) then StartSession else StartReady)"
    by (simp add: leaves_start [OF own] X_def)
  obtain result where c: "startCall ?E cfg other made now request S = (result, S')" and reply: "reply = startReply V request result"
    using assms(8) by (auto simp: serveStart_def assms(6) split: prod.splits)
  note c' = c [unfolded startCall_def assms(7) admission.case prod.case Let_def X_def [symmetric]]
  show ?thesis
  proof (cases "needsSession cfg (turnOf a h)")
    case False
    with c' have "result = Some (Inr path)" "S' = startSections cfg ?r h (other 0 X)" by auto
    with startSections_served [OF ok] ph False reply show ?thesis by (simp add: startReply_def WriteJSON_def)
  next
    case needs: True
    note ph' = ph [unfolded if_P [OF needs]]
    from pending_turn [OF ok ph'] obtain t where t: "turnOf (asAd (other 0 X)) h = t" "tnInitErr t = None" by blast
    show ?thesis
    proof (cases made)
      case (Inl e)
      show ?thesis
      proof (cases "tnCompleted t")
        case True
        with c' needs Inl t have "result = Some (Inr path)" "servedTurn ?r h S'"
          by (auto simp: failInitialization_def Let_def servedTurn_def)
        with reply show ?thesis by (simp add: startReply_def WriteJSON_def)
      next
        case False
        with c' needs Inl t have r: "result = Some (Inl (AeProviderStart e))"
          and gone: "fmlookup (adTurns (asAd S')) (sqTurnID (tnRequest (turnOf (asAd S') h))) = None"
          by (auto simp: failInitialization_def Let_def cancelContext_def)
        have "\<exists>status body. reply = JsonReply status body \<and> status \<in> {409, 429, 502}"
          unfolding reply r startReply_def startErrorReply_def WriteError_def WriteJSON_def by simp
        with gone show ?thesis by blast
      qed
    next
      case (Inr sid)
      obtain goes a1 where s: "sessionCreated sid h (asAd (other 0 X)) = (goes, a1)"
        by (cases "sessionCreated sid h (asAd (other 0 X))")
      define Y where "Y = setStart h ?r (if goes then StartReady else StartOver) ((other 0 X)\<lparr>asAd := a1\<rparr>)"
      have Y: "(adStep ?E cfg)\<^sup>*\<^sup>* S Y" unfolding Y_def by (rule steps_snoc [OF X adStep.sessionMade [OF ph' s]])
      show ?thesis
      proof (cases goes)
        case True
        have "sysOk ?E cfg (other 1 Y)" using adRun_grows [OF assms(1,2) S others_step [OF assms(4) Y]] by simp
        moreover have "fmlookup (asStarts (other 1 Y)) h = Some (?r, StartReady)" using True by (simp add: leaves_start [OF own] Y_def)
        ultimately have "servedTurn ?r h (startSections cfg ?r h (other 1 Y))" by (rule startSections_served)
        moreover have "result = Some (Inr path)" "S' = startSections cfg ?r h (other 1 Y)"
          using c' needs Inr s True by (auto simp: Y_def)
        ultimately show ?thesis using reply by (simp add: startReply_def WriteJSON_def)
      next
        case False
        with c' needs Inr s have r: "result = Some (Inr path)" "S' = Y" by (auto simp: Y_def)
        have "servedTurn ?r h Y" using s False t
          by (auto simp: Y_def sessionCreated_def servedTurn_def Let_def split: if_splits)
        with r reply show ?thesis by (simp add: startReply_def WriteJSON_def)
      qed
    qed
  qed
qed

section \<open>The event stream\<close>















section \<open>The adapter's description of itself\<close>

text \<open>The capabilities that an adapter with a loaded and checked configuration announces pass the validation of the harness
  protocol.\<close>

theorem capabilities_validate:
  assumes "validateConfig E H (loadConfig E H) = None" "trimSpace (afRuntimeName (loadConfig E H)) \<noteq> []"
  shows "validateCapabilitiesResponse q (capabilitiesOf (loadConfig E H)) = None"
proof -
  let ?cfg = "loadConfig E H"
  have checks: "\<forall>c \<in> set (afBrokeredToolClasses ?cfg). c = classRead \<or> c = classWrite" "afTurnTimeout ?cfg > 0"
    using assms(1) unfolding validateConfig_def firstError_None
    by (auto simp: find_None_iff)
  have g: "graphic ProtocolVersion" "graphic HTTPTransport" "graphic ''remote''"
    by (simp_all add: ProtocolVersion_def HTTPTransport_def graphic_def byte_def)
  note trim = graphic_trimSpace [OF g(1)] graphic_trimSpace [OF g(2)] graphic_trimSpace [OF g(3)]
  have known: "errorAt (\<lambda>_ c. refuse (\<not> IsKnownBrokeredToolClass c) (''unsupported brokered tool class '' @ q c)) n cs = None"
    if "\<forall>c \<in> set cs. c = classRead \<or> c = classWrite" for n cs
    using that by (induction cs arbitrary: n) (auto simp: IsKnownBrokeredToolClass_def refuse_def)
  have limits: "afMaxConcurrent ?cfg = 1" "0 \<le> afMaxOutputBytes ?cfg"
    by (simp_all add: loadConfig_def Let_def DefaultMaxOutputBytes_def)
  show ?thesis
    unfolding validateCapabilitiesResponse_def firstError_None
    using known [OF checks(1)] checks(2) limits assms(2)
    by (auto simp: capabilitiesOf_def Let_def frame_version trim blank_def modeObserved_def modeBrokered_def IsKnownToolExecutionMode_def refuse_def)
qed

section \<open>The properties at an execution\<close>

definition exHost :: adapterHost where
  "exHost = \<lparr>ahLookup = (\<lambda>_. None), ahDuration = (\<lambda>_. None),
     ahURL = (\<lambda>_. Some \<lparr>uScheme = ''https'', uHost = ''h'', uHostname = ''h'', uHasUser = False, uForceQuery = False,
       uRawQuery = [], fuPort = [], fuPath = []\<rparr>),
     ahLoopback = (\<lambda>_. False)\<rparr>"

definition exV :: serverEnv where
  "exV = \<lparr>seEnv = exE, seHost = exHost, seScan = (\<lambda>s. ScanValue s []), seStart = (\<lambda>_. Some exReq), seContinue = (\<lambda>_. None),
     seCancel = (\<lambda>_. None), seQuery = (\<lambda>_. None)\<rparr>"

definition exPost :: httpRequest where
  "exPost = \<lparr>hqMethod = ''POST'', hqAuthorization = ''Bearer b'', hqPath = TurnsPath, hqAfterSeq = [], hqBody = ''{}'', hqBodyFails = False\<rparr>"

definition alone :: "nat \<Rightarrow> adSystem \<Rightarrow> adSystem" where
  "alone i S = S"

lemma alone_ok [simp]: "othersStep E cfg alone" "leavesStart h alone" "alone i S = S"
  by (simp_all add: othersStep_def leavesStart_def alone_def)

lemma exV_simps [simp]: "seEnv exV = exE" "seHost exV = exHost" "seScan exV s = ScanValue s []" "seStart exV s = Some exReq"
  "seQuery exV s = None"
  by (simp_all add: exV_def)

lemma https_fold: "equalFold ''https'' ''https''"
  by (simp add: equalFold_def)

lemma exCfg_valid: "validateConfig exE exHost exCfg = None"
proof -
  have g: "graphic ''b''" "graphic ''p''" "graphic ''read''" "graphic ''entra''" by (simp_all add: graphic_def byte_def)
  note trim = graphic_trimSpace [OF g(1)] graphic_trimSpace [OF g(2)] graphic_trimSpace [OF g(3)] graphic_trimSpace [OF g(4)] trimSpace_Nil
  have "safeEndpoint exHost ''p''"
    by (simp add: safeEndpoint_def EndpointIsSafe_def exHost_def trim https_fold url.truncate_def)
  moreover have "ValidateAgentName ''a''"
    by (simp add: ValidateAgentName_def agentNameRE_def isAlnum_def byte_def)
  ultimately show ?thesis
    unfolding validateConfig_def firstError_None
    by (simp add: exCfg_def exE_def trim agentNameError_def agentVersionError_def ValidateAgentVersion_def
        validateResponsesEndpoint_def classRead_def)
qed

lemma exPost_authorized: "authorized exCfg exPost = None"
proof -
  have "trimSpace ''Bearer b'' = ''Bearer b''"
    by (rule trimSpace_ascii) (simp_all add: byte_def isSpace_def)
  moreover have "trimSpace ''b'' = ''b''" by (rule graphic_trimSpace) (simp add: graphic_def byte_def)
  moreover have "equalFold ''Bearer'' ''Bearer''" by (simp add: equalFold_def)
  ultimately show ?thesis by (simp add: authorized_def exPost_def cutChar_def exCfg_def)
qed

lemma exPost_accepted: "acceptStart exV exCfg exPost = Inr exReq"
proof -
  have "decodeJSONRequest (seScan exV) (seStart exV) maxStartRequestBytes exPost = Inr exReq"
    by (simp add: decodeJSONRequest_def exPost_def maxStartRequestBytes_def)
  moreover have "hqMethod exPost = ''POST''" by (simp add: exPost_def)
  ultimately show ?thesis using exPost_authorized exCfg_valid exReq_valid by (simp add: acceptStart_def)
qed

text \<open>Without a token nothing is done.\<close>

theorem unauthorized_refused_witness:
  "\<exists>m. serveStart exV exCfg alone (Inr []) 0 (exPost\<lparr>hqAuthorization := []\<rparr>) adInit = (WriteError 401 m, adInit)"
proof -
  have "\<not> carriesToken exCfg (exPost\<lparr>hqAuthorization := []\<rparr>)" by (simp add: carriesToken_def trimSpace_Nil)
  from unauthorized_refused [OF this, of exV alone "Inr []" 0 adInit] show ?thesis by blast
qed

theorem handlers_refine_witness:
  "adReachable exE exCfg (snd (serveStart exV exCfg alone (Inr []) 0 exPost adInit))"
  using handlers_refine [of exV exCfg adInit alone "Inr []" 0 exPost] by simp

theorem accepted_start_served_witness:
  "\<exists>body S'. serveStart exV exCfg alone (Inr []) 0 exPost adInit = (JsonReply 202 body, S') \<and> servedTurn exReq 0 S'"
proof -
  have adm: "admitTurn (seEnv exV) exCfg 0 exReq (asAd adInit) = (AdNew 0 ''/v1/turns/t/events'', exAd exT0)"
    by (simp add: adInit_def exAdmitted)
  have "\<not> needsSession exCfg (turnOf (exAd exT0) 0)" by (simp add: needsSession_def) (simp add: exCfg_def)
  then have run: "\<exists>body S'. serveStart exV exCfg alone (Inr []) 0 exPost adInit = (JsonReply 202 body, S')"
    using adm by (simp add: serveStart_def exPost_accepted startCall_def Let_def startReply_def WriteJSON_def)
  then obtain body S' where S': "serveStart exV exCfg alone (Inr []) 0 exPost adInit = (JsonReply 202 body, S')" by blast
  from accepted_start_served [OF _ _ _ _ _ exPost_accepted adm S'] S' show ?thesis by (simp add: exReq_prepared)
qed


definition exWorld :: providerWorld where
  "exWorld = \<lparr>pwURL = ahURL exHost, pwAPI = (\<lambda>u _. Some u), pwVersionPath = (\<lambda>u _. Some u), pwToken = Inr ''x'',
     pwExchange = (\<lambda>_. Inl (AeText ''refused'')), pwRequest = (\<lambda>_. None), pwSession = (\<lambda>_. None), pwStatus = (\<lambda>_. None)\<rparr>"

theorem requests_isolated_witness:
  "\<exists>p. snd (createSession exWorld (exCfg\<lparr>afIsolationMode := ''header''\<rparr>) (Some ''k'')) = [p] \<and>
    prAuthorization p = ''Bearer x'' \<and> prIsolation p = Some ''k''"
proof -
  let ?cfg = "exCfg\<lparr>afIsolationMode := ''header''\<rparr>"
  have k: "trimSpace ''k'' = ''k''" by (rule graphic_trimSpace) (simp add: graphic_def byte_def)
  have header: "equalFold (afIsolationMode ?cfg) ''header''" by (simp add: equalFold_def)
  have "sessionsURL exWorld ?cfg \<noteq> None" by (simp add: sessionsURL_def) (simp add: exCfg_def)
  then obtain p where p: "snd (createSession exWorld ?cfg (Some ''k'')) = [p]"
    using header k by (auto simp: createSession_def clientDo_def exWorld_def exHost_def Let_def)
  then have "p \<in> set (snd (createResponse exWorld undefined id undefined ?cfg (Some ''k'') undefined ())) \<union>
      set (snd (createSession exWorld ?cfg (Some ''k''))) \<union> set (snd (validateAgent exWorld ?cfg (Some ''k'')))" by simp
  from requests_isolated [OF this] have "prAuthorization p = ''Bearer x''" "prIsolation p = Some ''k''"
    using header k by (simp_all add: exWorld_def)
  with p show ?thesis by blast
qed

text \<open>A configuration loaded from an environment with the required settings.\<close>

definition exEnvironment :: "string \<Rightarrow> string option" where
  "exEnvironment = map_of [(''ORKA_FOUNDRY_ADAPTER_BEARER_TOKEN'', ''b''), (''ORKA_FOUNDRY_PROJECT_ENDPOINT'', ''p''),
     (''ORKA_FOUNDRY_AGENT_NAME'', ''a''), (''ORKA_FOUNDRY_BROKERED_TOOL_CLASSES'', ''read'')]"

lemma graphic_settings [simp]: "trimSpace ''b'' = ''b''" "trimSpace ''p'' = ''p''" "trimSpace ''a'' = ''a''" "trimSpace ''read'' = ''read''"
  "trimSpace ''v1'' = ''v1''" "trimSpace ''entra'' = ''entra''" "trimSpace ''request'' = ''request''"
  "trimSpace '':8090'' = '':8090''" "trimSpace ''foundry-hosted-runtime'' = ''foundry-hosted-runtime''"
  by (rule graphic_trimSpace; simp add: graphic_def byte_def)+

lemma exLoaded: "loadConfig exE (exHost\<lparr>ahLookup := exEnvironment\<rparr>) = \<lparr>afAddr = '':8090'', afRuntimeName = ''foundry-hosted-runtime'',
     afAdapterBearer = ''b'', afProjectEndpoint = ''p'', afResponsesEndpoint = [], afAgentName = ''a'', afAgentVersion = [],
     afAPIVersion = ''v1'', afTurnTimeout = 20000000000, afIsolationMode = ''entra'', afFoundryFeatures = ''HostedAgents=V1Preview'',
     afMaxOutputBytes = 1048576, afMaxStreamBytes = 16777216, afMaxEventBytes = 8388608, afMaxBrokeredBytes = 4194304,
     afMaxBrokeredTurnBytes = 16777216, afMaxBrokeredCalls = 256, afMaxEvents = 4096, afMaxConcurrent = 1,
     afBrokeredToolClasses = [''read''], afBrokeredToolClassSetting = ''read'', afToolSchemaMode = ''request''\<rparr>"
  by (simp add: loadConfig_def Let_def ahGetenv_def exEnvironment_def trimSpace_Nil trimRightChar_def parseDurationEnv_def
      defaultFoundryFeatures_def parseBrokeredToolClasses_def exE_def ToolSchemaModeRequest_def
      DefaultMaxOutputBytes_def DefaultMaxStreamBytes_def DefaultMaxEventBytes_def DefaultMaxBrokeredBytes_def
      DefaultMaxBrokeredTurnBytes_def DefaultMaxBrokeredCalls_def DefaultMaxEvents_def)

theorem capabilities_validate_witness:
  "validateCapabilitiesResponse id (capabilitiesOf (loadConfig exE (exHost\<lparr>ahLookup := exEnvironment\<rparr>))) = None"
proof -
  let ?H = "exHost\<lparr>ahLookup := exEnvironment\<rparr>"
  have "safeEndpoint ?H ''p''"
    by (simp add: safeEndpoint_def EndpointIsSafe_def exHost_def https_fold url.truncate_def)
  moreover have "ValidateAgentName ''a''"
    by (simp add: ValidateAgentName_def agentNameRE_def isAlnum_def byte_def)
  ultimately have "validateConfig exE ?H (loadConfig exE ?H) = None"
    unfolding validateConfig_def firstError_None exLoaded
    by (simp add: exE_def agentNameError_def agentVersionError_def ValidateAgentVersion_def
        validateResponsesEndpoint_def classRead_def ToolSchemaModeRequest_def)
  then show ?thesis by (rule capabilities_validate) (simp add: exLoaded)
qed

end
