(* ===== verification/HarnessDelivery.thy ===== *)
theory HarnessDelivery
  imports HarnessClient AdapterServed
begin

text \<open>
  Both ends of the harness protocol together: the client's reader gets from the bytes of an event stream exactly the
  frames that the adapter's handler wrote, and the client's report about a start tells whether the
  remote side may have begun the turn.
\<close>

section \<open>Texts on one line\<close>

definition oneLine :: "string \<Rightarrow> bool" where
  "oneLine s \<longleftrightarrow> CHR 0x0A \<notin> set s"

lemma oneLine_simps [simp]: "oneLine []" "oneLine (c # s) \<longleftrightarrow> c \<noteq> CHR 0x0A \<and> oneLine s" "oneLine (s @ t) \<longleftrightarrow> oneLine s \<and> oneLine t"
  "oneLine (concat ss) \<longleftrightarrow> (\<forall>s \<in> set ss. oneLine s)"
  by (auto simp: oneLine_def)

lemma decodeRune_bytes:
  assumes "128 \<le> b" "decodeRune (b # bs) = (r, w)"
  shows "\<forall>x \<in> set (take w (b # bs)). 128 \<le> x"
proof -
  have "\<forall>x \<in> set (take w (b # bs)). 128 \<le> x" if "decode2 b bs = (r, w)"
    using that assms(1) by (auto simp: decode2_def cont_def split: list.splits if_splits)
  moreover have "\<forall>x \<in> set (take w (b # bs)). 128 \<le> x" if "decode3 b bs = (r, w)"
    using that assms(1) by (cases bs; cases "tl bs") (auto simp: decode3_def cont_def split: list.splits if_splits)
  moreover have "\<forall>x \<in> set (take w (b # bs)). 128 \<le> x" if "decode4 b bs = (r, w)"
    using that assms(1) by (cases bs; cases "tl bs"; cases "tl (tl bs)") (auto simp: decode4_def cont_def split: list.splits if_splits)
  ultimately show ?thesis using assms by (auto simp: decodeRune_def split: if_splits)
qed

text \<open>A chunk is one ASCII character, or only bytes beyond ASCII.\<close>

lemma chunk_cases: "(r, b) \<in> set (chunks s) \<Longrightarrow> (\<exists>c. b = [c] \<and> r = byte c) \<or> (\<forall>c \<in> set b. 128 \<le> byte c) \<and> 128 \<le> r"
proof (induction s rule: chunks.induct)
  case (2 c s)
  obtain q w where rw: "decodeRune (map byte (c # s)) = (q, w)" by fastforce
  show ?case
  proof (cases "byte c < 128")
    case True
    then have "q = byte c" "w = 1" using rw by (simp_all add: decodeRune_ascii)
    with 2 rw show ?thesis by (auto simp: chunks.simps(2))
  next
    case False
    have "\<forall>x \<in> set (take w (byte c # map byte s)). 128 \<le> x"
      using decodeRune_bytes [of "byte c" "map byte s" q w] rw False by simp
    moreover have "take w (byte c # map byte s) = map byte (take w (c # s))" by (metis list.simps(9) take_map)
    ultimately have "\<forall>x \<in> set (take w (c # s)). 128 \<le> byte x" by simp
    moreover have "128 \<le> q" using decodeRune_high [of "byte c" "map byte s"] rw False by simp
    ultimately show ?thesis using 2 rw by (auto simp: chunks.simps(2))
  qed
qed simp

lemma byte_eq: "byte c = byte d \<longleftrightarrow> c = d"
  by (simp add: byte_def)

lemma escaped_line: "(r, b) \<in> set (chunks s) \<Longrightarrow> oneLine (jsonEscapeRune (r, b))"
proof -
  assume "(r, b) \<in> set (chunks s)"
  from chunk_cases [OF this] show ?thesis
  proof
    assume "\<exists>c. b = [c] \<and> r = byte c"
    then obtain c where c: "b = [c]" "r = byte c" by blast
    have "\<not> isLowerHex (CHR 0x0A)" by (simp add: isLowerHex_def isDigit_def byte_def)
    then have "hexDigit n \<noteq> CHR 0x0A" if "n < 16" for n using hexDigit_lower [OF that] by auto
    moreover have "r div 16 < 16" "r mod 16 < 16" using c(2) byte_less [of c] by linarith+
    moreover have "c \<noteq> CHR 0x0A" if "byte c \<noteq> 10" using that by (auto simp: byte_def)
    ultimately show ?thesis using c by (auto simp: jsonEscapeRune_def)
  next
    assume h: "(\<forall>c \<in> set b. 128 \<le> byte c) \<and> 128 \<le> r"
    have "byte (CHR 0x0A) = 10" by (simp add: byte_def)
    with h have "oneLine b" unfolding oneLine_def by fastforce
    with h show ?thesis by (simp add: jsonEscapeRune_def)
  qed
qed

lemma jsonString_line [simp]: "oneLine (jsonString s)"
  using escaped_line by (auto simp: jsonString_def)

lemma joinWith_line: "oneLine sep \<Longrightarrow> \<forall>x \<in> set xs. oneLine x \<Longrightarrow> oneLine (joinWith sep xs)"
  by (induction sep xs rule: joinWith.induct) simp_all

text \<open>The members of an object, when they are there.\<close>

definition lineMember :: "string option \<Rightarrow> bool" where
  "lineMember v \<longleftrightarrow> (\<forall>s. v = Some s \<longrightarrow> oneLine s)"

lemma lineMember_simps [simp]: "lineMember None" "lineMember (Some s) \<longleftrightarrow> oneLine s"
  "lineMember (if b then v else w) \<longleftrightarrow> (if b then lineMember v else lineMember w)"
  by (simp_all add: lineMember_def)

lemma jsonObject_line:
  assumes "list_all (\<lambda>(k, v). lineMember v) ms"
  shows "oneLine (jsonObject ms)"
proof -
  have "oneLine v" if "(k, Some v) \<in> set ms" for k v using assms that by (fastforce simp: list_all_iff lineMember_def)
  then show ?thesis unfolding jsonObject_def by (auto simp: jsonMember_def intro!: joinWith_line split: option.splits)
qed

lemma formatUint_line [simp]: "oneLine (formatUint n)"
proof -
  have "list_all isDigit (formatUint n)" using formatUint_digits by blast
  moreover have "\<not> isDigit (CHR 0x0A)" by (simp add: isDigit_def byte_def)
  ultimately show ?thesis by (auto simp: oneLine_def list_all_iff)
qed

lemma formatInt_line [simp]: "oneLine (formatInt n)"
  by (simp add: formatInt_def)

lemma mapJSON_line [simp]: "oneLine (mapJSON m)"
  unfolding mapJSON_def by (rule jsonObject_line) (auto simp: list_all_iff lineMember_def)

section \<open>Documents are not trimmed\<close>

lemma decodeRune_snoc:
  assumes "a < 128"
  shows "decodeRune (b # bs @ [a]) = decodeRune (b # bs)"
proof -
  have c: "\<not> cont lo hi a" if "128 \<le> lo" for lo hi using assms that by (simp add: cont_def)
  have "decode2 b (bs @ [a]) = decode2 b bs" by (cases bs) (simp_all add: decode2_def c)
  moreover have "decode3 b (bs @ [a]) = decode3 b bs" by (cases bs; cases "tl bs") (simp_all add: decode3_def c)
  moreover have "decode4 b (bs @ [a]) = decode4 b bs"
    by (cases bs; cases "tl bs"; cases "tl (tl bs)") (simp_all add: decode4_def c)
  ultimately show ?thesis by (simp add: decodeRune_def)
qed

lemma chunks_snoc: "byte a < 128 \<Longrightarrow> chunks (s @ [a]) = chunks s @ [(byte a, [a])]"
proof (induction s rule: chunks.induct)
  case 1
  then show ?case by (simp add: chunks_ascii)
next
  case (2 c s)
  obtain r w where rw: "decodeRune (map byte (c # s)) = (r, w)" by fastforce
  then have w: "1 \<le> w" "w \<le> length (c # s)" using decodeRune_width [of "map byte (c # s)" r w] by simp_all
  have "decodeRune (map byte (c # s @ [a])) = (r, w)" using decodeRune_snoc [OF 2(2), of "byte c" "map byte s"] rw by simp
  moreover have "take w (c # s @ [a]) = take w (c # s)" "drop (w - 1) (s @ [a]) = drop (w - 1) s @ [a]" using w by (cases w; simp)+
  ultimately show ?case using "2.IH" [OF rw [symmetric] 2(2)] rw by (simp add: chunks.simps(2))
qed

lemma trimSpace_ends:
  assumes "byte a < 128" "byte b < 128" "\<not> isSpace (byte a)" "\<not> isSpace (byte b)"
  shows "trimSpace (a # s @ [b]) = a # s @ [b]"
proof -
  have c: "chunks (a # s @ [b]) = (byte a, [a]) # chunks s @ [(byte b, [b])]"
    using chunks_ascii [OF assms(1)] chunks_snoc [OF assms(2)] by simp
  have "concat (map snd (chunks (a # s @ [b]))) = a # s @ [b]" by (rule chunks_concat)
  with assms(3,4) show ?thesis unfolding trimSpace_def c by simp
qed

lemma braces: "byte (CHR ''{'') = 123" "byte (CHR ''}'') = 125"
  by (simp_all add: byte_def)

lemma jsonObject_trim:
  shows "trimSpace (jsonObject ms) = jsonObject ms" "trimSpace (CHR '' '' # jsonObject ms) = jsonObject ms"
proof -
  have sp: "\<not> isSpace 123" "\<not> isSpace 125" "isSpace 32" "byte (CHR '' '') = 32" by (simp_all add: isSpace_def byte_def)
  show t: "trimSpace (jsonObject ms) = jsonObject ms"
    using trimSpace_ends [of "CHR ''{''" "CHR ''}''"] sp by (simp add: jsonObject_def braces)
  have "trimSpace (CHR '' '' # x) = trimSpace x" for x
    using sp by (simp add: trimSpace_def chunks_ascii)
  with t show "trimSpace (CHR '' '' # jsonObject ms) = jsonObject ms" by simp
qed

section \<open>The frames of a stream\<close>

text \<open>A frame whose JSON stays within one line: its raw parts do.\<close>

definition plainFrame :: "adapterEnv \<Rightarrow> harnessFrame \<Rightarrow> bool" where
  "plainFrame E f \<longleftrightarrow> (\<forall>v. aeCompact E (frContent f) = Some v \<longrightarrow> oneLine v) \<and>
     (\<forall>c. frCompleted f = Some c \<longrightarrow> oneLine (tcData c)) \<and> (\<forall>x. frFailed f = Some x \<longrightarrow> oneLine (tfData x))"

lemma omit_line [simp]: "lineMember (omitEmptyString s)" "lineMember (omitInt n)" "lineMember (omitFalse b)"
  "lineMember (omitEmptyMap m)"
  by (simp_all add: omitEmptyString_def omitInt_def omitFalse_def omitEmptyMap_def)

lemma array_line: "\<forall>x \<in> set xs. oneLine x \<Longrightarrow> lineMember (omitEmptyList xs)"
  by (auto simp: omitEmptyList_def jsonArray_def intro!: joinWith_line)

lemma artifactJSON_line [simp]: "oneLine (artifactJSON a)"
  unfolding artifactJSON_def by (rule jsonObject_line) simp

lemma artifacts_line [simp]: "lineMember (omitEmptyList (map artifactJSON as))"
  by (rule array_line) auto

lemma errorInfoJSON_line [simp]: "oneLine (errorInfoJSON e)"
  unfolding errorInfoJSON_def by (rule jsonObject_line) simp

lemma completedJSON_line: "oneLine (tcData c) \<Longrightarrow> oneLine (completedJSON c)"
  unfolding completedJSON_def by (rule jsonObject_line) simp

lemma failedJSON_line: "oneLine (tfData x) \<Longrightarrow> oneLine (failedJSON x)"
  unfolding failedJSON_def by (rule jsonObject_line) simp

lemma frameJSON_object:
  assumes "frameJSON (aeCompact E) (aeTime E) f = Some p" "plainFrame E f"
  obtains ms where "p = jsonObject ms" "oneLine p"
proof -
  obtain content where c: "rawMember (aeCompact E) (frContent f) = Some content"
    using assms(1) by (auto simp: frameJSON_def)
  then have "lineMember content"
    using assms(2) by (auto simp: rawMember_def plainFrame_def split: if_splits)
  moreover have "lineMember (map_option completedJSON (frCompleted f))" "lineMember (map_option failedJSON (frFailed f))"
    "lineMember (map_option errorInfoJSON (frError f))"
    using assms(2) by (auto simp: lineMember_def plainFrame_def intro: completedJSON_line failedJSON_line)
  ultimately have "oneLine p" using assms(1) c unfolding frameJSON_def by (auto intro!: jsonObject_line)
  moreover obtain ms where "p = jsonObject ms" using assms(1) by (auto simp: frameJSON_def)
  ultimately show ?thesis using that by blast
qed

section \<open>What the client reads\<close>

lemma scanLines_line:
  assumes "oneLine line" "length line < limit"
  shows "scanLines limit (line @ newline @ rest) = (case scanLines limit rest of (ls, tooLong) \<Rightarrow> (dropCR line # ls, tooLong))"
proof -
  have "takeWhile (\<lambda>c. c \<noteq> CHR 0x0A) (line @ newline @ rest) = line"
    "dropWhile (\<lambda>c. c \<noteq> CHR 0x0A) (line @ newline @ rest) = CHR 0x0A # rest"
    using assms(1) by (auto simp: oneLine_def newline_def takeWhile_append dropWhile_append)
  then show ?thesis using assms(2) by (subst scanLines.simps) (auto simp: Let_def newline_def)
qed

text \<open>A frame that the client can take: its document stays within the limits and decodes to the frame.\<close>

definition deliverable :: "adapterEnv \<Rightarrow> clientWorld \<Rightarrow> harnessFrame \<Rightarrow> bool" where
  "deliverable E W f \<longleftrightarrow> plainFrame E f \<and> (case frameJSON (aeCompact E) (aeTime E) f of None \<Rightarrow> False
     | Some p \<Rightarrow> length p + 8 \<le> maxHarnessFrameBytes \<and> cwFrame W p = Inr f)"

lemma deliverableE:
  assumes "deliverable E W f"
  obtains ms where "encodeFrame E f = Some (''data: '' @ jsonObject ms @ newline @ newline)" "oneLine (jsonObject ms)"
    "length (jsonObject ms) + 8 \<le> maxHarnessFrameBytes" "cwFrame W (jsonObject ms) = Inr f"
proof -
  from assms obtain p where p: "frameJSON (aeCompact E) (aeTime E) f = Some p" "length p + 8 \<le> maxHarnessFrameBytes"
    "cwFrame W p = Inr f" "plainFrame E f" by (auto simp: deliverable_def split: option.splits)
  from frameJSON_object [OF p(1,4)] obtain ms where "p = jsonObject ms" "oneLine p" .
  with p that show ?thesis by (simp add: encodeFrame_def sseFrame_def)
qed

lemma scan_frame:
  assumes "oneLine (jsonObject ms)" "length (jsonObject ms) + 8 \<le> maxHarnessFrameBytes"
  shows "scanLines maxHarnessSSELineBytes ((''data: '' @ jsonObject ms @ newline @ newline) @ rest) =
    (case scanLines maxHarnessSSELineBytes rest of (ls, tooLong) \<Rightarrow> ((''data: '' @ jsonObject ms) # [] # ls, tooLong))"
proof -
  let ?line = "''data: '' @ jsonObject ms"
  have "dropCR ?line = ?line" by (simp add: dropCR_def jsonObject_def)
  moreover have "length ?line < maxHarnessSSELineBytes"
    using assms(2) by (simp add: maxHarnessFrameBytes_def maxHarnessSSELineBytes_def)
  moreover have "oneLine ?line" using assms(1) by simp
  ultimately show ?thesis
    using scanLines_line [of ?line maxHarnessSSELineBytes "newline @ rest"] scanLines_line [of "[]" maxHarnessSSELineBytes rest]
    by (simp add: dropCR_def maxHarnessSSELineBytes_def split: prod.splits)
qed

text \<open>The callback that keeps the frames.\<close>

definition keepFrame :: "harnessFrame \<Rightarrow> harnessFrame list \<Rightarrow> unit option \<times> harnessFrame list" where
  "keepFrame f fs = (None, fs @ [f])"

lemma read_frame:
  assumes "length (jsonObject ms) + 8 \<le> maxHarnessFrameBytes" "cwFrame W (jsonObject ms) = Inr f"
  shows "sseLines W c keepFrame [] ((''data: '' @ jsonObject ms) # [] # ls) fs = sseLines W c keepFrame [] ls (fs @ [f])"
proof -
  have "trimSpace (trimPrefix (''data: '' @ jsonObject ms) ''data:'') = jsonObject ms"
    by (simp add: trimPrefix_def hasPrefix_def jsonObject_trim)
  moreover have "appendSSEData W [] (jsonObject ms) = Inr (jsonObject ms)"
    using assms(1) by (simp add: appendSSEData_def maxHarnessFrameBytes_def maxHarnessSSEEventBytes_def)
  moreover have "jsonObject ms \<noteq> []" "jsonObject ms \<noteq> ''[DONE]''" by (simp_all add: jsonObject_def)
  ultimately show ?thesis
    using assms(2) by (simp add: hasPrefix_def emitSSEData_def jsonObject_trim keepFrame_def)
qed

lemma read_frames:
  assumes "\<forall>f \<in> set frames. deliverable E W f"
  shows "sseLines W c keepFrame [] (fst (scanLines maxHarnessSSELineBytes (concat (map (the \<circ> encodeFrame E) frames) @ rest))) fs =
      sseLines W c keepFrame [] (fst (scanLines maxHarnessSSELineBytes rest)) (fs @ frames) \<and>
    snd (scanLines maxHarnessSSELineBytes (concat (map (the \<circ> encodeFrame E) frames) @ rest)) =
      snd (scanLines maxHarnessSSELineBytes rest)"
  using assms
proof (induction frames arbitrary: fs)
  case (Cons f frames)
  from Cons.prems obtain ms where f: "encodeFrame E f = Some (''data: '' @ jsonObject ms @ newline @ newline)" "oneLine (jsonObject ms)"
    "length (jsonObject ms) + 8 \<le> maxHarnessFrameBytes" "cwFrame W (jsonObject ms) = Inr f" by (auto elim: deliverableE)
  let ?tail = "concat (map (the \<circ> encodeFrame E) frames) @ rest"
  have scan: "scanLines maxHarnessSSELineBytes (concat (map (the \<circ> encodeFrame E) (f # frames)) @ rest) =
      (case scanLines maxHarnessSSELineBytes ?tail of (ls, tooLong) \<Rightarrow> ((''data: '' @ jsonObject ms) # [] # ls, tooLong))"
    using scan_frame [OF f(2,3), of ?tail] f(1) by simp
  obtain ls b where l: "scanLines maxHarnessSSELineBytes ?tail = (ls, b)" by (cases "scanLines maxHarnessSSELineBytes ?tail")
  from Cons.IH [of "fs @ [f]"] Cons.prems read_frame [OF f(3,4), of c ls fs] show ?case
    unfolding scan l prod.case by (simp add: l)
qed simp

lemma scan_end: "scanLines maxHarnessSSELineBytes [] = ([], False)"
  "scanLines maxHarnessSSELineBytes sseDone = ([''data: [DONE]'', []], False)"
proof -
  show none: "scanLines maxHarnessSSELineBytes [] = ([], False)" by (subst scanLines.simps) simp
  have "scanLines maxHarnessSSELineBytes (''data: [DONE]'' @ newline @ [] @ newline @ []) = ([''data: [DONE]'', []], False)"
    using scanLines_line [of "''data: [DONE]''" maxHarnessSSELineBytes "[] @ newline @ []"]
      scanLines_line [of "[]" maxHarnessSSELineBytes "[]"] none
    by (simp add: dropCR_def maxHarnessSSELineBytes_def)
  then show "scanLines maxHarnessSSELineBytes sseDone = ([''data: [DONE]'', []], False)" by (simp add: sseDone_def)
qed

lemma read_done: "sseLines W c keepFrame [] [''data: [DONE]'', []] fs = (Inr None, fs)"
proof -
  have g: "graphic ''[DONE]''" by (simp add: graphic_def byte_def)
  have "trimSpace (CHR '' '' # x) = trimSpace x" for x by (simp add: trimSpace_def chunks_ascii byte_def isSpace_def)
  then have "trimSpace '' [DONE]'' = ''[DONE]''" "trimSpace ''[DONE]'' = ''[DONE]''" using graphic_trimSpace [OF g] by simp_all
  moreover have "trimPrefix ''data: [DONE]'' ''data:'' = '' [DONE]''" by (simp add: trimPrefix_def hasPrefix_def)
  ultimately show ?thesis
    by (simp add: hasPrefix_def appendSSEData_def maxHarnessSSEEventBytes_def emitSSEData_def)
qed

text \<open>C23: what the adapter's handler writes is what the client reads: from the bytes of an event stream, ended or cut after
  any frame, the client's reader hands out exactly the frames that were written, in their order, and reports
  no error.\<close>

theorem frames_delivered:
  assumes "\<forall>f \<in> set frames. deliverable E W f"
  shows "readSSEFrames W c keepFrame (streamBody (encodeFrame E) (frames, finished)) None [] = (None, frames)"
proof -
  let ?body = "streamBody (encodeFrame E) (frames, finished)"
  obtain lines tooLong where l: "scanLines maxHarnessSSELineBytes ?body = (lines, tooLong)"
    by (cases "scanLines maxHarnessSSELineBytes ?body")
  show ?thesis
  proof (cases finished)
    case True
    then have "tooLong = False" "sseLines W c keepFrame [] lines [] = (Inr None, frames)"
      using read_frames [OF assms, of c sseDone "[]"] l scan_end(2) read_done [of W c frames] by (simp_all add: streamBody_def)
    with l show ?thesis by (simp add: readSSEFrames_def)
  next
    case False
    then have "tooLong = False" "sseLines W c keepFrame [] lines [] = (Inl [], frames)"
      using read_frames [OF assms, of c "[]" "[]"] l scan_end(1) by (simp_all add: streamBody_def)
    with l show ?thesis by (simp add: readSSEFrames_def)
  qed
qed

section \<open>What the client knows after a start\<close>

text \<open>The client tells its caller whether the remote side may have begun the turn: an error of \<open>StartTurn\<close> after a reply is
  marked as remotely accepted exactly when the reply had a success status, unless it was a complete answer that declined the
  turn.\<close>

theorem remote_acceptance_marked:
  assumes "validateStart (cwQuote W) (cwValid W) request = None" "startJSON (cwCompact W) (cwTime W) request = Some body"
    and "cwExchange W (clientRequestFor c ''POST'' TurnsPath [] (Some body) ''application/json'') = Inr reply"
    and "clientStartTurn W c request = Inl e"
  shows "ceRemoteAccepted e \<longleftrightarrow> successStatus (cyStatus reply) \<and>
    (\<forall>p. decodeBoundedJSON W c ''post'' (cwStart W) reply = Inr p \<and> trimSpace (spVersion p) = ProtocolVersion \<longrightarrow> spAccepted p)"
proof (cases "successStatus (cyStatus reply)")
  case False
  then have "clientStartTurn W c request = Inl (safeError W c ''post'' (cyStatus reply) (cyStatusText reply))"
    using assms(1-3) by (simp add: clientStartTurn_def postJSON_def clientExchange_def safeError_def)
  with False assms(4) show ?thesis by (auto simp: safeError_def)
next
  case True
  show ?thesis
  proof (cases "decodeBoundedJSON W c ''post'' (cwStart W) reply")
    case (Inl x)
    then have "ceStatusCode x = cyStatus reply"
      by (auto simp: decodeBoundedJSON_def safeError_def split: if_splits sum.splits)
    with True Inl assms have "e = x\<lparr>ceRemoteAccepted := True\<rparr>"
      by (simp add: clientStartTurn_def postJSON_def clientExchange_def)
    with True Inl show ?thesis by simp
  next
    case (Inr p)
    with True assms show ?thesis
      by (auto simp: clientStartTurn_def postJSON_def clientExchange_def safeError_def acceptedError_def split: if_splits option.splits)
  qed
qed

section \<open>The properties at an execution\<close>

definition exClientWorld :: clientWorld where
  "exClientWorld = \<lparr>cwExchange = (\<lambda>_. Inr \<lparr>cyStatus = 202, cyStatusText = ''202 Accepted'', cyBody = ''{'', cyFails = None\<rparr>),
     cwRedact = id, cwQuote = id, cwValid = (\<lambda>_. True), cwCompact = Some, cwTime = (\<lambda>_. ''t''),
     cwHealth = (\<lambda>_. Inl ''bad''), cwCapabilities = (\<lambda>_. Inl ''bad''), cwStart = (\<lambda>_. Inl ''bad''),
     cwTurn = (\<lambda>_. Inl ''bad''), cwFrame = (\<lambda>_. Inr exStart)\<rparr>"

definition exClient :: harnessClient where
  "exClient = \<lparr>hcBasePath = [], hcBearer = ''b''\<rparr>"

lemma exStart_deliverable: "deliverable exE exClientWorld exStart"
proof -
  obtain b where "appendFrame exE 1 TurnStarted ''Foundry response started'' id exT2 = (None, pushed exT2 exStart b)"
    by (rule started_fits [of exE exT2 1]) (simp_all add: exStart_def)
  then have "case frameJSON (aeCompact exE) (aeTime exE) exStart of None \<Rightarrow> False | Some p \<Rightarrow> length p + 8 \<le> maxHarnessFrameBytes"
    by (simp add: appendFrame_def Let_def exStart_def newline_def split: option.splits if_splits)
  moreover have "plainFrame exE exStart" by (simp add: plainFrame_def exStart_def newFrame_def exE_def)
  ultimately show ?thesis by (auto simp: deliverable_def exClientWorld_def split: option.splits)
qed

theorem frames_delivered_witness:
  "readSSEFrames exClientWorld exClient keepFrame (streamBody (encodeFrame exE) ([exStart, exStart], True)) None [] =
    (None, [exStart, exStart])"
proof -
  have "\<forall>f \<in> set [exStart, exStart]. deliverable exE exClientWorld f" using exStart_deliverable by simp
  from frames_delivered [OF this] show ?thesis .
qed

theorem remote_acceptance_marked_witness:
  "\<exists>e. clientStartTurn exClientWorld exClient exReq = Inl e \<and> ceRemoteAccepted e"
proof -
  have valid: "validateStart (cwQuote exClientWorld) (cwValid exClientWorld) exReq = None"
    using exReq_valid by (simp add: exClientWorld_def exE_def)
  obtain body where body: "startJSON (cwCompact exClientWorld) (cwTime exClientWorld) exReq = Some body"
    by (cases "startJSON (cwCompact exClientWorld) (cwTime exClientWorld) exReq")
      (auto simp: startJSON_def inputJSON_def exReq_def exTool_def toolJSON_def rawMember_def exClientWorld_def)
  let ?reply = "\<lparr>cyStatus = 202, cyStatusText = ''202 Accepted'', cyBody = ''{'', cyFails = None\<rparr>"
  have reply: "cwExchange exClientWorld (clientRequestFor exClient ''POST'' TurnsPath [] (Some body) ''application/json'') = Inr ?reply"
    by (simp add: exClientWorld_def)
  have bad: "decodeBoundedJSON exClientWorld exClient ''post'' (cwStart exClientWorld) ?reply \<noteq> Inr p" for p
    by (simp add: decodeBoundedJSON_def exClientWorld_def maxHarnessControlResponseBytes_def)
  obtain x where "decodeBoundedJSON exClientWorld exClient ''post'' (cwStart exClientWorld) ?reply = Inl x"
    using bad by (cases "decodeBoundedJSON exClientWorld exClient ''post'' (cwStart exClientWorld) ?reply") auto
  then obtain e where e: "clientStartTurn exClientWorld exClient exReq = Inl e"
    using valid body reply by (simp add: clientStartTurn_def postJSON_def clientExchange_def successStatus_def)
  from remote_acceptance_marked [OF valid body reply e] e bad show ?thesis by (simp add: successStatus_def)
qed

end
