(* ===== verification/Spec2Isabelle.thy ===== *)
theory Spec2Isabelle
  imports BrokerFacts BrokerDialog BootFacts DurableLock HostedExample HostedTransport AdapterTools HarnessDelivery
begin

text \<open>
  Orka's Foundry runtime: a process that lets an Orka controller drive agents hosted in Azure AI
  Foundry without ever repeating a call whose outcome is unknown. This development models the Go
  code under \<^verbatim>\<open>src/internal\<close> and proves what makes it safe to restart, to retry and to trust.

  \<^bold>\<open>The program.\<close> The \<^emph>\<open>broker\<close> (\<^verbatim>\<open>internal/broker\<close>) keeps a ledger of the owners, sessions, prompts
  and provider invocations it has admitted; it renews leases, settles prompts and retires sessions,
  and writes the ledger atomically before it acts. The \<^emph>\<open>hosted\<close> part (\<^verbatim>\<open>internal/hosted\<close>) pairs a gateway with one
  supervisor in a Foundry container over two authenticated channels and hands it credentials once.
  The \<^emph>\<open>adapter\<close> (\<^verbatim>\<open>internal/adapter\<close>) serves the older harness protocol (\<^verbatim>\<open>internal/harness\<close>): turns with a
  stream of frames, brokered tool calls and continuations. All of them read provider streams
  (\<^verbatim>\<open>internal/foundry\<close>), strict JSON (\<^verbatim>\<open>internal/strictjson\<close>) and a locked state directory
  (\<^verbatim>\<open>internal/durablestore\<close>).

  \<^bold>\<open>Theories.\<close>
  \<^item> \<^verbatim>\<open>Prelude\<close>, \<^verbatim>\<open>GoText\<close>, \<^verbatim>\<open>GoNet\<close>: Go results and maps, and the parts of the standard library the sources
    use (UTF-8, quoting, numbers, base64, addresses, flags).
  \<^item> \<^verbatim>\<open>StrictJson\<close> (decode.go, fields.go), \<^verbatim>\<open>FoundryValidate\<close> (identifiers, endpoints, digests, the agent
    configuration), \<^verbatim>\<open>FoundryResponses\<close> and \<^verbatim>\<open>FoundryStrict\<close> (the two readers of provider streams).
  \<^item> \<^verbatim>\<open>BrokerProtocol\<close> (contexts and keys), \<^verbatim>\<open>BrokerLedger\<close> (ledger, validation, atomic save), \<^verbatim>\<open>BrokerCore\<close>
    (commit and control), \<^verbatim>\<open>BrokerReconcile\<close> (settlement, retirement, expiry, routes), \<^verbatim>\<open>BrokerRemote\<close>
    (session requests), \<^verbatim>\<open>BrokerAgentKit\<close>, \<^verbatim>\<open>BrokerInvoke\<close> (responses.go), \<^verbatim>\<open>BrokerConfig\<close> (run.go).
  \<^item> \<^verbatim>\<open>BrokerSession\<close>, \<^verbatim>\<open>BrokerHistory\<close>, \<^verbatim>\<open>BrokerInvariant\<close>, \<^verbatim>\<open>BrokerChanges\<close>, \<^verbatim>\<open>BrokerThread\<close>, \<^verbatim>\<open>BrokerAnswer\<close>,
    \<^verbatim>\<open>BrokerSettle\<close>: the invariant of a ledger, the order in which a ledger may evolve, and that every change
    keeps both. \<^verbatim>\<open>BrokerSystem\<close> is the interleaving of requests, workers, sweeps, storage failures and
    restarts as a step relation; \<^verbatim>\<open>BrokerFrame\<close>, \<^verbatim>\<open>BrokerReach\<close>, \<^verbatim>\<open>BrokerSteps\<close>, \<^verbatim>\<open>BrokerSafety\<close> and \<^verbatim>\<open>BrokerRuns\<close>
    carry the invariant over it; \<^verbatim>\<open>BrokerExample\<close> is a concrete execution for the witnesses.
    \<^verbatim>\<open>BrokerFacts\<close>, \<^verbatim>\<open>BrokerDialog\<close> and \<^verbatim>\<open>BootFacts\<close> hold properties of single operations.
  \<^item> \<^verbatim>\<open>DurableStore\<close>, \<^verbatim>\<open>DurableLock\<close>: the state directory and its lock, for one process and for several.
  \<^item> \<^verbatim>\<open>HostedProtocol\<close>, \<^verbatim>\<open>HostedStore\<close>, \<^verbatim>\<open>HostedGateway\<close>: protocol.go, config.go and store.go, remote.go and
    gateway.go; \<^verbatim>\<open>HostedExposure\<close> the invariants of a start; \<^verbatim>\<open>HostedFacts\<close>, \<^verbatim>\<open>GatewayFacts\<close> and \<^verbatim>\<open>GatewayExample\<close>
    the properties and concrete starts.
  \<^item> \<^verbatim>\<open>HostedServer\<close>: server.go and process\_linux.go, the container's side of the pairing: the handler of a channel, the
    pair, the goroutine that launches, serves and joins the one supervisor, and the signals that precede its
    reaping, as a step relation; \<^verbatim>\<open>HostedServed\<close> its invariant and properties, \<^verbatim>\<open>HostedExample\<close> an execution from the first
    channel to a clean stop. \<^verbatim>\<open>HostedProxy\<close> (proxy.go) is what passes the relays, \<^verbatim>\<open>HostedTransport\<close> (transport.go) the byte
    stream over websocket messages and its write deadlines.
  \<^item> \<^verbatim>\<open>HarnessProtocol\<close>, \<^verbatim>\<open>HarnessSizes\<close>, \<^verbatim>\<open>HarnessPaths\<close>, \<^verbatim>\<open>AsciiText\<close>: the wire types, validators, paths and JSON of the harness
    protocol. \<^verbatim>\<open>HarnessClient\<close> is its HTTP client (client.go) with the reader of event streams, \<^verbatim>\<open>HarnessDelivery\<close> the two ends
    together: the frames that the server writes are the frames the client hands out.
  \<^item> \<^verbatim>\<open>AdapterTurn\<close>, \<^verbatim>\<open>AdapterCore\<close>, \<^verbatim>\<open>AdapterOps\<close>: adapter.go, the state of a turn, the adapter with its retention and endings,
    and the operations split at the releases of the mutex. \<^verbatim>\<open>AdapterSystem\<close> is their interleaving as a step
    relation: admissions, provider calls with their callbacks, continuations, cancellations, deadlines and timers.
    \<^verbatim>\<open>AdapterFrames\<close>, \<^verbatim>\<open>AdapterFits\<close>, \<^verbatim>\<open>AdapterStream\<close>, \<^verbatim>\<open>AdapterOpen\<close>, \<^verbatim>\<open>AdapterEnd\<close>, \<^verbatim>\<open>AdapterTidy\<close>, \<^verbatim>\<open>AdapterEffect\<close>,
    \<^verbatim>\<open>AdapterReach\<close> and \<^verbatim>\<open>AdapterSteps\<close> carry its invariant: the shape of a stream, the limits, the tools of an open and of an
    ended turn, the tables of the adapter, and one lemma for each step. \<^verbatim>\<open>AdapterFacts\<close> and \<^verbatim>\<open>AdapterReport\<close> hold the properties,
    \<^verbatim>\<open>AdapterExample\<close> and \<^verbatim>\<open>AdapterTools\<close> the executions of the witnesses.
  \<^item> \<^verbatim>\<open>AdapterHost\<close> (config.go, responses.go, context.go): the configuration and the requests to Foundry.
    \<^verbatim>\<open>AdapterServer\<close> (server.go): authorization, readiness, the handlers of all routes over the turns, with what other
    goroutines do in their gaps as a parameter, and the event stream; \<^verbatim>\<open>AdapterServed\<close> shows that the handlers are sequences of
    steps of \<^verbatim>\<open>AdapterSystem\<close>, so that the invariant holds of what is served.

  \<^bold>\<open>How effects are modelled.\<close> Errors are values (a sum or an option). A critical section under a mutex is one
  function of the state; what other goroutines do meanwhile is a choice of the outside (\<open>wOther\<close>) or a step of
  the transition system. The outside (network, clock, files, random values) is a record of functions
  given to the operations that use it. A file is replaced by the rename, and every system call may
  fail. Times are nanoseconds since Go's zero time, counters of the ledger are 64-bit words, map iteration
  that has a visible order takes the order from the environment.

  \<^bold>\<open>Parameters.\<close> SHA-256, Ed25519 and the curve check, \<open>uuid\<close>, \<open>url.Parse\<close>, \<open>net.ParseIP\<close>, the formats of times
  and the typed decoders of JSON documents are arguments; the hypotheses about them
  state their documented behaviour (a digest has 32 bytes, a round trip of encoding and decoding). Each
  property with a hypothesis has a witness at concrete functions.

  \<^bold>\<open>Fuel.\<close> Only the polling loop of a session stop (remote.go) takes fuel; it is bounded by the deadline of its
  context, and the lemma on it shows that enough fuel makes it return. Every other loop is a terminating recursion.

  \<^bold>\<open>Known defects of the code\<close> which the theorems have to name as hypotheses or avoid: a provider call id with a space makes the
  saved ledger unreadable at the next start (responses.go against store\_validation.go), and a settle request whose lease is
  Go's zero time does the same. Executions of the step relation exclude both. In the adapter, the deferred cleanup of a provider
  call that returns late deletes the map entry of its turn's id without checking that the entry is still its own turn;
  the step relation takes that cleanup only while the entry is its own.

  \<^bold>\<open>Not modelled.\<close> The ACP bridge (\<^verbatim>\<open>internal/acp\<close>): its configuration, its tool client and its stdio loop. The commands
  of the hosted part (run.go) and of the adapter: flags, signals, listening and exit. Regular-expression redaction,
  which Go's \<open>regexp\<close> runs. The conformance driver, which tests a live adapter from outside. The credentials of the Azure SDK.
  Of the libraries, gorilla/websocket, HTTP/2 and \<open>httputil.ReverseProxy\<close> are taken at their documented behaviour.
\<close>

section \<open>Properties of every execution\<close>



text \<open>C1: The durable record is a history. Along any execution, through failures and restarts, owners,
  recorded operations, settled prompts, completed responses, retirement proofs and the pinned
  principal are never rewritten, leases and sequences only grow, and invocations move along
  \<open>invStep\<close> (the relation \<open>ledgerEvolves\<close>).\<close>

theorem history_grows:
  assumes env: "envOk E digest owners decode" and S: "reachable E digest owners decode B S"
    and run: "(sysStep E digest owners decode B)\<^sup>*\<^sup>* S S'"
  shows "ledgerEvolves (bkLedger (syBroker S)) (bkLedger (syBroker S'))"
  by (rule run_evolves [OF env S run])

theorem history_grows_witness: "ledgerEvolves (emptyLedger exHash) exSettled"
  using history_grows [OF exEnvOk exReach0 BrokerExample.exRun] by (simp add: ex0_def ex4_def)

text \<open>C3: An invocation that is uncertain, completed or settled stays so for ever, with the same operation,
  body and provider response; and one that left \<open>reserved\<close> never returns to it, so its inference
  intent is recorded at most once.\<close>

theorem invocation_final:
  assumes env: "envOk E digest owners decode" and S: "reachable E digest owners decode B S"
    and run: "(sysStep E digest owners decode B)\<^sup>*\<^sup>* S S'"
    and iv: "invocationAt (bkLedger (syBroker S)) key pk seq = Some iv"
  shows "\<exists>iv'. invocationAt (bkLedger (syBroker S')) key pk seq = Some iv' \<and>
    biOperationID iv' = biOperationID iv \<and> biBodyDigest iv' = biBodyDigest iv \<and>
    (biResponseID iv \<noteq> [] \<longrightarrow> biResponseID iv' = biResponseID iv \<and> biResponseAlias iv' = biResponseAlias iv) \<and>
    (biState iv \<in> {InvUncertain, InvCompleted, InvSettled} \<longrightarrow> biState iv' = biState iv) \<and>
    (biState iv \<noteq> InvReserved \<longrightarrow> biState iv' \<noteq> InvReserved)"
proof -
  from iv obtain s p where s: "fmlookup (blSessions (bkLedger (syBroker S))) key = Some s"
    and p: "fmlookup (bsPrompts s) pk = Some p" and i: "fmlookup (bpInvocations p) seq = Some iv"
    by (auto simp: invocationAt_def bind_eq_Some_conv)
  from ledgerEvolves_session [OF run_evolves [OF env S run] s] obtain s'
    where s': "fmlookup (blSessions (bkLedger (syBroker S'))) key = Some s'" "sessionEvolves s s'" .
  from sessionEvolves_prompt [OF s'(2) p] obtain p' where p': "fmlookup (bsPrompts s') pk = Some p'" "promptEvolves p p'" .
  from promptEvolves_invocation [OF p'(2) i] obtain iv'
    where iv': "fmlookup (bpInvocations p') seq = Some iv'" "invocationEvolves iv iv'" .
  have "invocationAt (bkLedger (syBroker S')) key pk seq = Some iv'"
    using s'(1) p'(1) iv'(1) by (simp add: invocationAt_def)
  moreover have "biState iv \<in> {InvUncertain, InvCompleted, InvSettled} \<longrightarrow> biState iv' = biState iv"
    using iv'(2) invSteps_final by (auto simp: invocationEvolves_def)
  moreover have "biState iv \<noteq> InvReserved \<longrightarrow> biState iv' \<noteq> InvReserved"
    using iv'(2) by (auto simp: invocationEvolves_def dest: invSteps_reserved)
  ultimately show ?thesis using iv'(2) by (auto simp: invocationEvolves_def)
qed

theorem invocation_final_witness:
  "\<exists>iv'. invocationAt (bkLedger (syBroker exB9)) exHash exHash 1 = Some iv' \<and> biState iv' = InvUncertain"
  using invocation_final [OF exEnvOk exB7 exRun79, of exHash exHash 1 "exInvocation InvIntent"]
  by (simp add: invocationAt_def exB9_def exCallLedger_def exCallSession_def exCallPrompt_def exInvocation_def)

text \<open>C6: A settled prompt is frozen: every later state holds exactly the same prompt, so its proof, its
  invocations and its lease never change again.\<close>

theorem settled_prompt_frozen:
  assumes env: "envOk E digest owners decode" and S: "reachable E digest owners decode B S"
    and run: "(sysStep E digest owners decode B)\<^sup>*\<^sup>* S S'"
    and s: "fmlookup (blSessions (bkLedger (syBroker S))) key = Some s"
    and p: "fmlookup (bsPrompts s) pk = Some p" "bpSettled p"
  shows "\<exists>s'. fmlookup (blSessions (bkLedger (syBroker S'))) key = Some s' \<and> fmlookup (bsPrompts s') pk = Some p"
proof -
  from ledgerEvolves_session [OF run_evolves [OF env S run] s] obtain s'
    where s': "fmlookup (blSessions (bkLedger (syBroker S'))) key = Some s'" "sessionEvolves s s'" .
  from sessionEvolves_prompt [OF s'(2) p(1)] obtain p' where "fmlookup (bsPrompts s') pk = Some p'" "promptEvolves p p'" .
  with p(2) s'(1) show ?thesis by (auto simp: promptEvolves_def)
qed

theorem settled_prompt_frozen_witness:
  "\<exists>s'. fmlookup (blSessions (bkLedger (syBroker ex4))) exHash = Some s' \<and>
    fmlookup (bsPrompts s') exHash = Some (settlePrompt exHash exPrompt)"
  using settled_prompt_frozen [OF exEnvOk exReach4 rtranclp.rtrancl_refl, of exHash
      "exSession\<lparr>bsPrompts := fmupd exHash (settlePrompt exHash exPrompt) fmempty\<rparr>" exHash "settlePrompt exHash exPrompt"]
  by (simp add: ex4_def exSettled_def settlePrompt_def)



text \<open>C8: An owner has at most one unsettled prompt, its current one, and none once it is retired.\<close>

theorem one_unsettled_prompt:
  assumes env: "envOk E digest owners decode" and S: "reachable E digest owners decode B S"
    and s: "fmlookup (blSessions (bkLedger (syBroker S))) key = Some s"
    and p: "fmlookup (bsPrompts s) pk = Some p" "\<not> bpSettled p"
    and q: "fmlookup (bsPrompts s) pk' = Some q" "\<not> bpSettled q"
  shows "pk' = pk \<and> q = p \<and> pk = bsCurrentPrompt s \<and> \<not> bsRetired s"
  using sessionOk_unsettled [OF reachable_session [OF env S s] p] sessionOk_unsettled [OF reachable_session [OF env S s] q] p q
  by simp

theorem one_unsettled_prompt_witness: "\<exists>s. fmlookup (blSessions (bkLedger (syBroker ex1))) exHash = Some s \<and>
    bsCurrentPrompt s = exHash"
  using one_unsettled_prompt [OF exEnvOk exReach1, of exHash exSession exHash exPrompt exHash exPrompt]
  by (simp add: ex1_def exLedger_def exSession_def exPrompt_def)

text \<open>C4: An uncertain invocation, one whose request may have been accepted without an acknowledgement,
  blocks for ever: in no later state is its prompt settled or its session retired.\<close>

theorem uncertain_blocks:
  assumes env: "envOk E digest owners decode" and S: "reachable E digest owners decode B S"
    and run: "(sysStep E digest owners decode B)\<^sup>*\<^sup>* S S'"
    and iv: "invocationAt (bkLedger (syBroker S)) key pk seq = Some iv" "biState iv = InvUncertain"
  shows "\<exists>s' p'. fmlookup (blSessions (bkLedger (syBroker S'))) key = Some s' \<and>
    fmlookup (bsPrompts s') pk = Some p' \<and> \<not> bpSettled p' \<and> \<not> bsRetired s'"
proof -
  from iv obtain s p where s: "fmlookup (blSessions (bkLedger (syBroker S))) key = Some s"
    and p: "fmlookup (bsPrompts s) pk = Some p" and i: "fmlookup (bpInvocations p) seq = Some iv"
    by (auto simp: invocationAt_def bind_eq_Some_conv)
  from ledgerEvolves_session [OF run_evolves [OF env S run] s] obtain s'
    where s': "fmlookup (blSessions (bkLedger (syBroker S'))) key = Some s'" "sessionEvolves s s'" .
  from sessionEvolves_prompt [OF s'(2) p] obtain p' where p': "fmlookup (bsPrompts s') pk = Some p'" "promptEvolves p p'" .
  from promptEvolves_invocation [OF p'(2) i] obtain iv'
    where iv': "fmlookup (bpInvocations p') seq = Some iv'" "invocationEvolves iv iv'" .
  have ok: "sessionOk E digest key s'" by (rule reachable_session [OF env reachable_run [OF S run] s'(1)])
  have "biState iv' = InvUncertain" using iv'(2) iv(2) invSteps_final(1) by (simp add: invocationEvolves_def)
  with sessionOk_invocation [OF ok p'(1) iv'(1)] have "\<not> bpSettled p'" by (simp add: invocationOk_def invocationStateOk_def)
  with sessionOk_unsettled [OF ok p'(1)] s'(1) p'(1) show ?thesis by blast
qed

theorem uncertain_blocks_witness:
  "\<exists>s' p'. fmlookup (blSessions (bkLedger (syBroker exB9))) exHash = Some s' \<and>
    fmlookup (bsPrompts s') exHash = Some p' \<and> \<not> bpSettled p' \<and> \<not> bsRetired s'"
  by (rule uncertain_blocks [OF exEnvOk exB9 rtranclp.rtrancl_refl, of _ _ 1 "exInvocation InvUncertain"])
    (simp_all add: invocationAt_def exB9_def exCallLedger_def exCallSession_def exCallPrompt_def exInvocation_def)

text \<open>C5: What a reconciliation worker captured still holds whenever it comes to commit: the session is
  there, not retired, has no active request; the captured prompts are still closed and unsettled;
  without captured ambiguity no invocation of the session is uncertain or unacknowledged. So the
  commit follows no nil pointer.\<close>

theorem captured_evidence_holds:
  assumes env: "envOk E digest owners decode" and S: "reachable E digest owners decode B S"
    and w: "fmlookup (syWorkers S) key = Some (WCaptured cp)"
  shows "\<exists>s. fmlookup (blSessions (bkLedger (syBroker S))) key = Some s \<and> \<not> bsRetired s \<and>
    fmlookup (bkActive (syBroker S)) key = None \<and> bsCreateState s = cpCreateState cp \<and> bsRemoteID s = cpRemoteID cp \<and>
    (\<forall>pk. pk |\<in>| cpClosing cp \<longrightarrow> (\<exists>p. fmlookup (bsPrompts s) pk = Some p \<and> bpClosing p \<and> \<not> bpSettled p)) \<and>
    (\<not> cpAmbiguous cp \<longrightarrow> (\<forall>pk p seq iv. fmlookup (bsPrompts s) pk = Some p \<longrightarrow>
       fmlookup (bpInvocations p) seq = Some iv \<longrightarrow> \<not> isAmbiguous iv)) \<and>
    reconcileChange E now key cp kind (syBroker S) (bkLedger (syBroker S)) \<noteq> Inl ErrPanic"
proof -
  from reachable_sysInv [OF env S] w have wk: "workerOk key (WCaptured cp) (bkLedger (syBroker S))"
    and idle: "fmlookup (syThreads S) key = None" and act: "activeOk E (syBroker S) (syThreads S)"
    by (auto simp: sysInv_def fmpred_iff)
  then obtain s where s: "fmlookup (blSessions (bkLedger (syBroker S))) key = Some s" "captureHolds cp s"
    "\<not> cpAmbiguous cp \<longrightarrow> sessionClear s"
    by (auto simp: workerOk_def)
  have none: "fmlookup (bkActive (syBroker S)) key = None"
    using act idle unfolding activeOk_def by (metis map_option_is_None)
  have closing: "\<exists>p. fmlookup (bsPrompts s) pk = Some p \<and> bpClosing p \<and> \<not> bpSettled p" if "pk |\<in>| cpClosing cp" for pk
    using s(2) that by (auto simp: captureHolds_def toSettle_def split: option.splits)
  then have "cpClosing cp |\<subseteq>| fmdom (bsPrompts s)" by (fastforce intro: fmdomI)
  then have "reconcileChange E now key cp kind (syBroker S) (bkLedger (syBroker S)) \<noteq> Inl ErrPanic"
    by (simp add: reconcileChange_def s(1) none Let_def)
  with s none closing show ?thesis by (auto simp: captureHolds_def sessionClear_def)
qed

theorem captured_evidence_holds_witness:
  "reconcileChange exEnv 0 exHash exCapture ''never-created'' (syBroker ex3) (bkLedger (syBroker ex3)) \<noteq> Inl ErrPanic"
  using captured_evidence_holds [OF exEnvOk exReach3, of exHash exCapture 0 "''never-created''"] by (auto simp: ex3_def)

text \<open>C9: Retirement is final. A retired session was asked to retire, has no remote session that could
  still exist (none was created, or its deletion was proved), holds only settled prompts and no
  active request, refuses every new inference without any change, and stays retired with the same
  proof in every later state.\<close>

theorem retired_session_final:
  assumes env: "envOk E digest owners decode" and S: "reachable E digest owners decode B S"
    and run: "(sysStep E digest owners decode B)\<^sup>*\<^sup>* S S'"
    and s: "fmlookup (blSessions (bkLedger (syBroker S))) key = Some s" "bsRetired s"
  shows "bsRetiring s \<and> bsCreateState s \<in> {CreateNone, CreateDeleted} \<and> DigestValid (bsProofDigest s) \<and>
    (\<forall>pk p. fmlookup (bsPrompts s) pk = Some p \<longrightarrow> bpSettled p) \<and>
    (ownerKey E (bcOwner c) = key \<longrightarrow> (\<exists>e. reserveInvocation E B io now c request (syBroker S) = (Inl e, syBroker S))) \<and>
    (\<exists>s'. fmlookup (blSessions (bkLedger (syBroker S'))) key = Some s' \<and> bsRetired s' \<and>
       bsProofDigest s' = bsProofDigest s \<and> bsCreateState s' = bsCreateState s)"
proof -
  have ok: "sessionOk E digest key s" by (rule reachable_session [OF env S s(1)])
  have "createOk E s" using ok by (simp add: sessionOk_iff)
  moreover have "bpSettled p" if "fmlookup (bsPrompts s) pk = Some p" for pk p
    using sessionOk_unsettled [OF ok that] s(2) by blast
  moreover have "\<exists>e. reserveInvocation E B io now c request (syBroker S) = (Inl e, syBroker S)" if "ownerKey E (bcOwner c) = key"
    using s that by (simp add: reserveInvocation_def commitCapacityLocked_def dropRequest_def reserveChange_def
        brokerEnsureSession_def bindR_def Let_def)
  moreover from ledgerEvolves_session [OF run_evolves [OF env S run] s(1)] obtain s'
    where "fmlookup (blSessions (bkLedger (syBroker S'))) key = Some s'" "sessionEvolves s s'" .
  ultimately show ?thesis using s(2) by (auto simp: createOk_def sessionEvolves_def)
qed

theorem retired_session_final_witness:
  "\<exists>e. reserveInvocation exEnv exJson allIO 0 BrokerExample.exCall exRequest (syBroker exR4) = (Inl e, syBroker exR4)"
  using retired_session_final [OF exEnvOk exR4 rtranclp.rtrancl_refl, where key = exHash
      and s = "exIdleSession True" and c = BrokerExample.exCall and io = allIO and now = 0 and request = exRequest]
  by (simp add: exR4_def exIdleSession_def)

end
